(* ===== verification/Py_Float.thy ===== *)
theory Py_Float
  imports Complex_Main "HOL-Library.Log_Nat"
begin

text \<open>
  Python floats.  A float is modelled by the rational number it stands for, and every
  arithmetic operation rounds its exact result to IEEE binary64, to nearest with ties to
  even, the way CPython does on the hardware: \<open>fl\<close> is that rounding (53 significant bits,
  gradual underflow at exponent -1074), \<open>fadd\<close>, \<open>fsub\<close>, \<open>fmul\<close> and \<open>fdiv\<close> are the four
  operators, \<open>ffloordiv\<close> is CPython's algorithm for \<open>//\<close> on floats (fmod, rounded quotient,
  correction), \<open>fround n\<close> is \<open>round(x, n)\<close>, \<open>fsum\<close> is the built-in \<open>sum\<close> of Python 3.12 with
  its compensated addition, and \<open>repr_dec\<close> is the shortest decimal that reads back as the
  float, the number \<open>str\<close> prints.  A decimal literal of the source such as 1e-9 is
  \<open>fl (1 / 10 ^ 9)\<close>.  Not modelled: overflow to infinity, NaN and the sign of zero.
\<close>

section \<open>Rounding to binary64\<close>

definition pow2 :: "int \<Rightarrow> rat" where
  "pow2 e = (if 0 \<le> e then 2 ^ nat e else 1 / 2 ^ nat (- e))"

definition flog2 :: "rat \<Rightarrow> int" where
  "flog2 x =
     (let (n, d) = quotient_of x; e = bitlen n - bitlen d
      in if pow2 e \<le> x then e else e - 1)"

definition round_even :: "rat \<Rightarrow> int" where
  "round_even q =
     (let f = \<lfloor>q\<rfloor>; r = q - of_int f
      in if r < 1 / 2 then f else if 1 / 2 < r then f + 1 else if even f then f else f + 1)"

definition ulp_exp :: "rat \<Rightarrow> int" where
  "ulp_exp x = max (- 1074) (flog2 \<bar>x\<bar> - 52)"

definition fl :: "rat \<Rightarrow> rat" where
  "fl x = (if x = 0 then 0 else of_int (round_even (x / pow2 (ulp_exp x))) * pow2 (ulp_exp x))"

subsection \<open>Powers of two and the exponent of a number\<close>

lemma pow2_powi: "pow2 e = 2 powi e"
  by (simp add: pow2_def power_int_def power_one_over inverse_eq_divide)

lemma pow2_pos [simp]: "0 < pow2 e"
  by (simp add: pow2_def)

lemma abs_pow2 [simp]: "\<bar>pow2 e\<bar> = pow2 e"
  by (simp add: less_imp_le)

lemma pow2_neq0 [simp]: "pow2 e \<noteq> 0"
  using pow2_pos[of e] by linarith

lemma pow2_add: "pow2 (a + b) = pow2 a * pow2 b"
  by (simp add: pow2_powi power_int_add)

lemma pow2_mono: "a \<le> b \<Longrightarrow> pow2 a \<le> pow2 b"
  by (simp add: pow2_powi power_int_increasing)

lemma pow2_strict_mono: "a < b \<Longrightarrow> pow2 a < pow2 b"
  by (simp add: pow2_powi power_int_strict_increasing)

lemma pow2_less_iff: "pow2 a < pow2 b \<longleftrightarrow> a < b"
  by (meson leD leI pow2_mono pow2_strict_mono)

lemma pow2_diff: "pow2 a / pow2 b = pow2 (a - b)"
  using pow2_add[of "a - b" b] by (simp add: field_simps)

lemma pow2_int: "0 \<le> e \<Longrightarrow> pow2 e = of_int (2 ^ nat e)"
  by (simp add: pow2_def)

lemma pow2_bitlen:
  assumes "0 < n"
  shows "pow2 (bitlen n - 1) \<le> of_int n" "of_int n < pow2 (bitlen n)"
proof -
  have b: "2 ^ nat (bitlen n - 1) \<le> n" "n < 2 ^ nat (bitlen n)"
    using bitlen_bounds[OF assms] by auto
  have "0 < bitlen n" using assms bitlen_nonneg[of n] bitlen_eq_zero_iff[of n] by linarith
  then have e: "pow2 (bitlen n - 1) = of_int (2 ^ nat (bitlen n - 1))"
    "pow2 (bitlen n) = of_int (2 ^ nat (bitlen n))"
    by (simp_all add: pow2_int)
  show "pow2 (bitlen n - 1) \<le> of_int n" unfolding e using b(1) by (simp only: of_int_le_iff)
  show "of_int n < pow2 (bitlen n)" unfolding e using b(2) by (simp only: of_int_less_iff)
qed

lemma flog2_bounds:
  assumes "0 < x"
  shows "pow2 (flog2 x) \<le> x" "x < pow2 (flog2 x + 1)"
proof -
  obtain n d where q: "quotient_of x = (n, d)" by fastforce
  have x: "x = of_int n / of_int d" and d: "0 < d"
    using quotient_of_div[OF q] quotient_of_denom_pos[OF q] by auto
  with assms have n: "0 < n" by (simp add: zero_less_divide_iff)
  let ?e = "bitlen n - bitlen d"
  have "x < pow2 (bitlen n) / pow2 (bitlen d - 1)"
    unfolding x using pow2_bitlen[OF n] pow2_bitlen[OF d] n d
    by (intro frac_less) (auto)
  then have hi: "x < pow2 (?e + 1)" by (simp add: pow2_diff algebra_simps)
  have "pow2 (bitlen n - 1) / pow2 (bitlen d) \<le> x"
    unfolding x using pow2_bitlen[OF n] pow2_bitlen[OF d] n d
    by (intro frac_le) (auto)
  then have lo: "pow2 (?e - 1) \<le> x" by (simp add: pow2_diff algebra_simps)
  show "pow2 (flog2 x) \<le> x" "x < pow2 (flog2 x + 1)"
    using hi lo by (auto simp: flog2_def q Let_def)
qed

lemma flog2_mono: "0 < x \<Longrightarrow> x \<le> y \<Longrightarrow> flog2 x \<le> flog2 y"
proof -
  assume a: "0 < x" "x \<le> y"
  have "pow2 (flog2 x) < pow2 (flog2 y + 1)"
    using flog2_bounds[of x] flog2_bounds[of y] a by auto
  then show ?thesis by (simp add: pow2_less_iff)
qed

subsection \<open>Rounding to an integer and to a float\<close>

lemma round_even_of_int [simp]: "round_even (of_int k) = k"
  by (simp add: round_even_def)

lemma round_even_err: "\<bar>of_int (round_even q) - q\<bar> \<le> 1 / 2"
proof -
  have "of_int \<lfloor>q\<rfloor> \<le> q" "q < of_int \<lfloor>q\<rfloor> + 1" by linarith+
  then show ?thesis unfolding round_even_def Let_def abs_le_iff by (auto split: if_splits; linarith)
qed

lemma round_even_mono: "p \<le> q \<Longrightarrow> round_even p \<le> round_even q"
proof -
  assume pq: "p \<le> q"
  show ?thesis
  proof (cases "\<lfloor>p\<rfloor> = \<lfloor>q\<rfloor>")
    case True
    then show ?thesis using pq by (auto simp: round_even_def Let_def)
  next
    case False
    then have "\<lfloor>p\<rfloor> + 1 \<le> \<lfloor>q\<rfloor>" using floor_mono[OF pq] by linarith
    moreover have "round_even p \<le> \<lfloor>p\<rfloor> + 1" "\<lfloor>q\<rfloor> \<le> round_even q"
      by (auto simp: round_even_def Let_def)
    ultimately show ?thesis by linarith
  qed
qed

lemma round_even_minus: "round_even (- q) = - round_even q"
proof (cases "q = of_int \<lfloor>q\<rfloor>")
  case True
  then have "- q = of_int (- \<lfloor>q\<rfloor>)" by simp
  then have "round_even (- q) = - \<lfloor>q\<rfloor>" by (metis round_even_of_int)
  moreover have "round_even q = \<lfloor>q\<rfloor>" by (metis True round_even_of_int)
  ultimately show ?thesis by simp
next
  case False
  have "of_int \<lfloor>q\<rfloor> < q" using False by (metis floor_correct order_le_less)
  moreover have "q < of_int \<lfloor>q\<rfloor> + 1" by linarith
  ultimately have "\<lfloor>- q\<rfloor> = - \<lfloor>q\<rfloor> - 1" by (intro floor_unique) (auto simp: )
  then show ?thesis by (auto simp: round_even_def Let_def)
qed

lemma fl_0 [simp]: "fl 0 = 0"
  by (simp add: fl_def)

lemma fl_minus: "fl (- x) = - fl x"
  by (simp add: fl_def ulp_exp_def round_even_minus)

lemma ulp_exp_mono: "0 < x \<Longrightarrow> x \<le> y \<Longrightarrow> ulp_exp x \<le> ulp_exp y"
  using flog2_mono[of x y] by (simp add: ulp_exp_def)

lemma fl_le_pow2:
  assumes "0 < x" "x \<le> pow2 k" "ulp_exp x \<le> k"
  shows "fl x \<le> pow2 k"
proof -
  let ?u = "ulp_exp x"
  have i: "pow2 (k - ?u) = of_int (2 ^ nat (k - ?u))" using assms by (simp add: pow2_int)
  have "x / pow2 ?u \<le> pow2 k / pow2 ?u" using assms by (simp add: divide_right_mono less_imp_le)
  also have "\<dots> = of_int (2 ^ nat (k - ?u))" using i by (simp add: pow2_diff)
  finally have "round_even (x / pow2 ?u) \<le> 2 ^ nat (k - ?u)"
    using round_even_mono round_even_of_int by metis
  then have "of_int (round_even (x / pow2 ?u)) \<le> pow2 (k - ?u)"
    unfolding i by (simp only: of_int_le_iff)
  then have "of_int (round_even (x / pow2 ?u)) * pow2 ?u \<le> pow2 (k - ?u) * pow2 ?u"
    by (simp add: less_imp_le)
  then show ?thesis using assms by (simp add: fl_def flip: pow2_add)
qed

lemma pow2_le_fl:
  assumes "0 < y" "pow2 k \<le> y" "ulp_exp y \<le> k"
  shows "pow2 k \<le> fl y"
proof -
  let ?u = "ulp_exp y"
  have i: "pow2 (k - ?u) = of_int (2 ^ nat (k - ?u))" using assms by (simp add: pow2_int)
  have "pow2 k / pow2 ?u \<le> y / pow2 ?u" using assms by (simp add: divide_right_mono less_imp_le)
  then have "of_int (2 ^ nat (k - ?u)) \<le> y / pow2 ?u" using i by (simp add: pow2_diff)
  then have "2 ^ nat (k - ?u) \<le> round_even (y / pow2 ?u)"
    using round_even_mono round_even_of_int by metis
  then have "pow2 (k - ?u) \<le> of_int (round_even (y / pow2 ?u))"
    unfolding i by (simp only: of_int_le_iff)
  then have "pow2 (k - ?u) * pow2 ?u \<le> of_int (round_even (y / pow2 ?u)) * pow2 ?u"
    by (simp add: less_imp_le)
  then show ?thesis using assms by (simp add: fl_def flip: pow2_add)
qed

lemma fl_nonneg: "0 \<le> x \<Longrightarrow> 0 \<le> fl x"
proof (cases "x = 0")
  case False
  assume "0 \<le> x"
  then have "0 \<le> x / pow2 (ulp_exp x)" by (simp add: less_imp_le)
  then have "0 \<le> round_even (x / pow2 (ulp_exp x))"
    using round_even_mono[of 0] round_even_of_int[of 0] by fastforce
  then show ?thesis by (simp add: fl_def less_imp_le)
qed simp

lemma fl_mono_pos:
  assumes "0 < x" "x \<le> y"
  shows "fl x \<le> fl y"
proof (cases "ulp_exp x = ulp_exp y")
  case True
  have "round_even (x / pow2 (ulp_exp y)) \<le> round_even (y / pow2 (ulp_exp y))"
    using assms by (intro round_even_mono divide_right_mono) (auto simp: less_imp_le)
  then show ?thesis using assms True by (simp add: fl_def mult_right_mono less_imp_le)
next
  case False
  then have lt: "ulp_exp x < ulp_exp y" using ulp_exp_mono[OF assms] by simp
  then have ly: "ulp_exp y = flog2 y - 52" "flog2 x < flog2 y"
    using assms by (auto simp: ulp_exp_def)
  have "x \<le> pow2 (flog2 y)"
    using flog2_bounds(2)[of x] assms pow2_mono[of "flog2 x + 1" "flog2 y"] ly by auto
  then have "fl x \<le> pow2 (flog2 y)" using assms lt ly by (intro fl_le_pow2) auto
  moreover have "pow2 (flog2 y) \<le> fl y" using assms ly flog2_bounds[of y] by (intro pow2_le_fl) auto
  ultimately show ?thesis by linarith
qed

lemma fl_mono: "x \<le> y \<Longrightarrow> fl x \<le> fl y"
proof -
  assume xy: "x \<le> y"
  consider "0 < x" | "x \<le> 0" "0 \<le> y" | "y < 0" by linarith
  then show ?thesis
  proof cases
    case 1 then show ?thesis using xy by (rule fl_mono_pos)
  next
    case 2
    then have "0 \<le> fl (- x)" "0 \<le> fl y" by (auto intro: fl_nonneg)
    then show ?thesis by (simp add: fl_minus)
  next
    case 3
    then have "fl (- y) \<le> fl (- x)" using xy by (intro fl_mono_pos) auto
    then show ?thesis by (simp add: fl_minus)
  qed
qed

lemma fl_err_ulp: "\<bar>fl x - x\<bar> \<le> pow2 (ulp_exp x) / 2"
proof (cases "x = 0")
  case False
  let ?u = "pow2 (ulp_exp x)"
  have "fl x - x = (of_int (round_even (x / ?u)) - x / ?u) * ?u"
    using False by (simp add: fl_def field_simps)
  then have "\<bar>fl x - x\<bar> = \<bar>of_int (round_even (x / ?u)) - x / ?u\<bar> * ?u"
    by (simp add: abs_mult less_imp_le)
  also have "\<dots> \<le> 1 / 2 * ?u" using round_even_err by (intro mult_right_mono) (auto simp: less_imp_le)
  finally show ?thesis by simp
qed (simp add: less_imp_le)

lemma fl_err_rel:
  assumes "pow2 (- 1022) \<le> \<bar>x\<bar>"
  shows "\<bar>fl x - x\<bar> \<le> \<bar>x\<bar> * pow2 (- 53)"
proof -
  have x: "0 < \<bar>x\<bar>" using assms pow2_pos by (meson less_le_trans)
  have "pow2 (- 1022) < pow2 (flog2 \<bar>x\<bar> + 1)" using flog2_bounds[OF x] assms by linarith
  then have "ulp_exp x = flog2 \<bar>x\<bar> - 52" by (simp add: pow2_less_iff ulp_exp_def)
  then have "pow2 (ulp_exp x) = pow2 (flog2 \<bar>x\<bar>) * pow2 (- 52)" by (simp flip: pow2_add)
  also have "\<dots> \<le> \<bar>x\<bar> * pow2 (- 52)" using flog2_bounds[OF x] by (intro mult_right_mono) (auto simp: less_imp_le)
  finally show ?thesis using fl_err_ulp[of x] by (simp add: pow2_def)
qed

text \<open>The values a double can hold: integer multiples of their own unit in the last place.\<close>

definition is_double :: "rat \<Rightarrow> bool" where
  "is_double x \<longleftrightarrow> fl x = x"

lemma is_double_scaled:
  assumes "\<bar>m\<bar> \<le> 2 ^ 53" "- 1074 \<le> e"
  shows "is_double (of_int m * pow2 e)"
proof (cases "m = 0")
  case False
  let ?x = "of_int m * pow2 e :: rat"
  have ax: "\<bar>?x\<bar> = of_int \<bar>m\<bar> * pow2 e" by (simp add: abs_mult less_imp_le)
  show ?thesis
  proof (cases "\<bar>m\<bar> = 2 ^ 53")
    case True
    then have xp: "\<bar>?x\<bar> = pow2 (53 + e)" unfolding ax by (simp add: pow2_add) (simp add: pow2_def)
    have pos: "0 < pow2 (53 + e)" by simp
    have f: "flog2 (pow2 (53 + e)) = 53 + e"
    proof -
      have "pow2 (flog2 (pow2 (53 + e))) < pow2 (53 + e + 1)" "pow2 (53 + e) < pow2 (flog2 (pow2 (53 + e)) + 1)"
        using flog2_bounds[OF pos] pow2_strict_mono[of "53+e" "53+e+1"] by auto
      then show ?thesis by (simp add: pow2_less_iff)
    qed
    have u: "ulp_exp (pow2 (53 + e)) \<le> 53 + e" using assms by (simp add: ulp_exp_def f)
    have "fl (pow2 (53 + e)) = pow2 (53 + e)"
      using fl_le_pow2[OF pos order_refl u] pow2_le_fl[OF pos order_refl u] by simp
    moreover have "?x = pow2 (53 + e) \<or> ?x = - pow2 (53 + e)" using xp by (auto simp: abs_if split: if_splits)
    ultimately show ?thesis by (auto simp: is_double_def fl_minus)
  next
    case neq: False
    then have lt: "\<bar>m\<bar> < 2 ^ 53" using assms by linarith
    have pos: "0 < \<bar>?x\<bar>" using False by simp
    have "\<bar>?x\<bar> < pow2 (53 + e)"
    proof -
      have "of_int \<bar>m\<bar> < (2 ^ 53 :: rat)" using lt by (metis of_int_less_iff of_int_numeral of_int_power)
      then have "of_int \<bar>m\<bar> * pow2 e < 2 ^ 53 * pow2 e" by simp
      then show ?thesis unfolding ax by (simp add: pow2_add) (simp add: pow2_def)
    qed
    then have "pow2 (flog2 \<bar>?x\<bar>) < pow2 (53 + e)" using flog2_bounds(1)[OF pos] by linarith
    then have u: "ulp_exp ?x \<le> e" using assms by (simp add: pow2_less_iff ulp_exp_def)
    have i: "pow2 (e - ulp_exp ?x) = of_int (2 ^ nat (e - ulp_exp ?x))" using u by (simp add: pow2_int)
    have "?x / pow2 (ulp_exp ?x) = of_int m * pow2 (e - ulp_exp ?x)" by (simp flip: pow2_diff)
    then have "?x / pow2 (ulp_exp ?x) = of_int (m * 2 ^ nat (e - ulp_exp ?x))" unfolding i by simp
    then have "of_int (round_even (?x / pow2 (ulp_exp ?x))) = ?x / pow2 (ulp_exp ?x)"
      by (metis round_even_of_int)
    then show ?thesis using False by (simp add: is_double_def fl_def)
  qed
qed (simp add: is_double_def)

lemma fl_of_int: "\<bar>m\<bar> \<le> 2 ^ 53 \<Longrightarrow> fl (of_int m) = of_int m"
  using is_double_scaled[of m 0] by (simp add: is_double_def pow2_def)

lemma fl_numeral [simp]: "numeral n \<le> (2 ^ 53 :: int) \<Longrightarrow> fl (numeral n) = numeral n"
  using fl_of_int[of "numeral n"] by simp

lemma fl_1 [simp]: "fl 1 = 1"
  using fl_of_int[of 1] by simp

lemma fl_scaled: "\<exists>m e. fl x = of_int m * pow2 e \<and> \<bar>m\<bar> \<le> 2 ^ 53 \<and> - 1074 \<le> e"
proof (cases "x = 0")
  case False
  let ?u = "ulp_exp x"
  have pos: "0 < \<bar>x\<bar>" using False by simp
  have "\<bar>x / pow2 ?u\<bar> \<le> pow2 (flog2 \<bar>x\<bar> + 1) / pow2 ?u"
    using flog2_bounds(2)[OF pos] by (simp add: abs_divide divide_right_mono less_imp_le)
  also have "\<dots> = pow2 (flog2 \<bar>x\<bar> + 1 - ?u)" by (simp add: pow2_diff)
  also have "\<dots> \<le> pow2 53" by (rule pow2_mono) (simp add: ulp_exp_def)
  finally have le: "\<bar>x / pow2 ?u\<bar> \<le> of_int (2 ^ 53)" by (simp add: pow2_def)
  have "round_even (x / pow2 ?u) \<le> 2 ^ 53"
    using round_even_mono[of "x / pow2 ?u" "of_int (2 ^ 53)"] le round_even_of_int by (simp only: abs_le_iff)
  moreover have "- (2 ^ 53) \<le> round_even (x / pow2 ?u)"
    using round_even_mono[of "of_int (- (2 ^ 53))" "x / pow2 ?u"] le round_even_of_int[of "- (2 ^ 53)"]
    by (simp only: abs_le_iff of_int_minus) linarith
  ultimately have "\<bar>round_even (x / pow2 ?u)\<bar> \<le> 2 ^ 53" by linarith
  then show ?thesis using False
    by (intro exI[of _ "round_even (x / pow2 ?u)"] exI[of _ ?u]) (simp add: fl_def ulp_exp_def)
qed (intro exI[of _ 0], simp)

lemma is_double_fl: "is_double (fl x)"
  using fl_scaled[of x] is_double_scaled by metis

text \<open>Doubling is exact, so the computed midpoint of two doubles lies between them.\<close>

lemma fl_twice: "is_double x \<Longrightarrow> fl (2 * x) = 2 * x"
proof -
  assume "is_double x"
  then obtain m e where x: "x = of_int m * pow2 e" "\<bar>m\<bar> \<le> 2 ^ 53" "- 1074 \<le> e"
    using fl_scaled[of x] by (auto simp: is_double_def)
  then have "2 * x = of_int m * pow2 (e + 1)" by (simp add: pow2_add) (simp add: pow2_def)
  moreover have "is_double (of_int m * pow2 (e + 1))" using x by (intro is_double_scaled) auto
  ultimately show ?thesis by (simp only: is_double_def)
qed

lemma fl_idem [simp]: "fl (fl x) = fl x"
  using is_double_fl[of x] by (simp add: is_double_def)

section \<open>The operators\<close>

definition fadd :: "rat \<Rightarrow> rat \<Rightarrow> rat" where "fadd x y = fl (x + y)"
definition fsub :: "rat \<Rightarrow> rat \<Rightarrow> rat" where "fsub x y = fl (x - y)"
definition fmul :: "rat \<Rightarrow> rat \<Rightarrow> rat" where "fmul x y = fl (x * y)"
definition fdiv :: "rat \<Rightarrow> rat \<Rightarrow> rat" where "fdiv x y = fl (x / y)"

lemma midpoint_between:
  assumes "is_double lo" "is_double hi" "lo \<le> hi"
  shows "lo \<le> fdiv (fadd lo hi) 2 \<and> fdiv (fadd lo hi) 2 \<le> hi"
proof -
  have "2 * lo \<le> fl (lo + hi)" "fl (lo + hi) \<le> 2 * hi"
    using fl_mono[of "2 * lo" "lo + hi"] fl_mono[of "lo + hi" "2 * hi"] assms by (simp_all add: fl_twice)
  then have "lo \<le> fl (lo + hi) / 2" "fl (lo + hi) / 2 \<le> hi" by simp_all
  from fl_mono[OF this(1)] fl_mono[OF this(2)] show ?thesis
    using assms(1,2) by (simp add: fdiv_def fadd_def is_double_def)
qed

text \<open>Truncation towards zero, Python's int on a float.\<close>

definition trunc_int :: "rat \<Rightarrow> int" where
  "trunc_int x = (if 0 \<le> x then \<lfloor>x\<rfloor> else \<lceil>x\<rceil>)"

definition fmod :: "rat \<Rightarrow> rat \<Rightarrow> rat" where
  "fmod x y = x - y * of_int (trunc_int (x / y))"

definition ffloordiv :: "rat \<Rightarrow> rat \<Rightarrow> int" where
  "ffloordiv x y =
     (let m = fmod x y;
          d0 = fdiv (fsub x m) y;
          d = (if m \<noteq> 0 \<and> (y < 0) \<noteq> (m < 0) then fsub d0 1 else d0);
          f = \<lfloor>d\<rfloor>
      in if d = 0 then 0 else if 1 / 2 < fsub d (of_int f) then f + 1 else f)"

lemma floor_near_int:
  fixes k :: int and d :: rat
  assumes "\<bar>d - of_int k\<bar> \<le> 1 / 8"
  shows "(if 1 / 2 < fl (d - of_int \<lfloor>d\<rfloor>) then \<lfloor>d\<rfloor> + 1 else \<lfloor>d\<rfloor>) = k"
proof (cases "of_int k \<le> d")
  case True
  then have f: "\<lfloor>d\<rfloor> = k" using assms by (intro floor_unique) auto
  have "fl (d - of_int k) \<le> fl (1 / 8)" using assms True by (intro fl_mono) auto
  also have "fl (1 / 8) = 1 / 8" using is_double_scaled[of 1 "- 3"] by (simp add: is_double_def pow2_def)
  finally show ?thesis by (simp add: f)
next
  case False
  then have f: "\<lfloor>d\<rfloor> = k - 1" using assms by (intro floor_unique) auto
  have "7 / 8 = fl (7 / 8)" using is_double_scaled[of 7 "- 3"] by (simp add: is_double_def pow2_def)
  also have "\<dots> \<le> fl (d - of_int (k - 1))" using assms False by (intro fl_mono) (auto simp: abs_le_iff)
  finally show ?thesis by (simp add: f)
qed

lemma ffloordiv_exact:
  assumes x: "0 \<le> x" and y: "pow2 (- 1022) \<le> y" and q: "x / y < 2 ^ 48"
  shows "ffloordiv x y = \<lfloor>x / y\<rfloor>"
proof -
  define k where "k = \<lfloor>x / y\<rfloor>"
  have ypos: "0 < y" using y pow2_pos by (meson less_le_trans)
  have k0: "0 \<le> k" using x ypos by (simp add: k_def)
  have kq: "of_int k < (2 ^ 48 :: rat)" using q by (simp add: k_def floor_less_iff)
  have m: "fmod x y = x - y * of_int k" using x ypos by (simp add: fmod_def trunc_int_def k_def)
  have "of_int k \<le> x / y" by (simp add: k_def)
  then have m0: "0 \<le> fmod x y" using ypos by (simp add: m pos_le_divide_eq mult.commute)
  show ?thesis
  proof (cases "k = 0")
    case True
    then show ?thesis using m0 ypos by (simp add: ffloordiv_def m fsub_def fdiv_def Let_def flip: k_def)
  next
    case False
    then have k1: "1 \<le> (of_int k :: rat)" using k0 by simp
    define s where "s = fl (y * of_int k)"
    define d where "d = fl (s / y)"
    have big: "pow2 (- 1022) \<le> \<bar>y * of_int k\<bar>"
    proof -
      have "y * 1 \<le> y * of_int k" using k1 ypos by (intro mult_left_mono) auto
      then show ?thesis using y by linarith
    qed
    have "\<bar>s - y * of_int k\<bar> \<le> \<bar>y * of_int k\<bar> * pow2 (- 53)" unfolding s_def by (rule fl_err_rel[OF big])
    also have "\<dots> = y * (of_int k * pow2 (- 53))" using ypos k1 by simp
    finally have "\<bar>s / y - of_int k\<bar> \<le> of_int k * pow2 (- 53)"
      using ypos by (simp add: abs_le_iff field_simps)
    moreover have "of_int k * pow2 (- 53) \<le> 1 / 16" using kq by (simp add: pow2_def)
    ultimately have e1: "\<bar>s / y - of_int k\<bar> \<le> 1 / 16" by linarith
    have "of_int k < (281474976710656 :: rat)" using kq by simp
    then have sy: "1 / 2 \<le> s / y" "s / y \<le> 562949953421312" using e1 k1 by linarith+
    have "pow2 (- 1022) \<le> 1 / 2" using pow2_mono[of "- 1022" "- 1"] by (simp add: pow2_def[of "- 1"])
    then have "pow2 (- 1022) \<le> \<bar>s / y\<bar>" using sy by linarith
    then have "\<bar>d - s / y\<bar> \<le> \<bar>s / y\<bar> * pow2 (- 53)" unfolding d_def by (rule fl_err_rel)
    also have "\<dots> = s / y * pow2 (- 53)" using sy by (simp only: abs_of_nonneg)
    also have "\<dots> \<le> 1 / 16" using sy by (simp add: pow2_def)
    finally have near: "\<bar>d - of_int k\<bar> \<le> 1 / 8" using e1 by linarith
    then have d0: "d \<noteq> 0" using k1 by auto
    have "ffloordiv x y =
        (if d = 0 then 0 else if 1 / 2 < fl (d - of_int \<lfloor>d\<rfloor>) then \<lfloor>d\<rfloor> + 1 else \<lfloor>d\<rfloor>)"
      using m0 ypos by (simp add: ffloordiv_def m fsub_def fdiv_def Let_def d_def s_def)
    also have "\<dots> = k" using d0 floor_near_int[OF near] by (simp only: if_False)
    finally show ?thesis by (simp add: k_def)
  qed
qed

subsection \<open>Rounding to decimal places and compensated sums\<close>

definition fround :: "nat \<Rightarrow> rat \<Rightarrow> rat" where
  "fround n x = fl (of_int (round_even (x * 10 ^ n)) / 10 ^ n)"

lemma fround_0 [simp]: "fround n 0 = 0"
  using round_even_of_int[of 0] by (simp add: fround_def)

lemma fround_mono: "x \<le> y \<Longrightarrow> fround n x \<le> fround n y"
  by (simp add: fround_def fl_mono divide_right_mono round_even_mono)

lemma fround_nonneg: "0 \<le> x \<Longrightarrow> 0 \<le> fround n x"
  using fround_mono[of 0 x n] by simp

text \<open>The relative error of one rounding, for values that are not subnormal.\<close>

lemma fl_upper: "1 / 10 \<le> x \<Longrightarrow> fl x \<le> x * (1 + pow2 (- 53))"
  using fl_err_rel[of x] pow2_mono[of "- 1022" "- 4"] by (simp add: pow2_def[of "- 4"] abs_le_iff field_simps)

lemma fl_lower: "1 / 10 \<le> x \<Longrightarrow> x * (1 - pow2 (- 53)) \<le> fl x"
  using fl_err_rel[of x] pow2_mono[of "- 1022" "- 4"] by (simp add: pow2_def[of "- 4"] abs_le_iff field_simps)

lemma decimal_near: "\<bar>of_int (round_even (x * 10 ^ n)) / 10 ^ n - x\<bar> \<le> 1 / (2 * 10 ^ n)"
proof -
  have "of_int (round_even (x * 10 ^ n)) / 10 ^ n - x = (of_int (round_even (x * 10 ^ n)) - x * 10 ^ n) / 10 ^ n"
    by (simp add: field_simps)
  then have "\<bar>of_int (round_even (x * 10 ^ n)) / 10 ^ n - x\<bar>
      = \<bar>of_int (round_even (x * 10 ^ n)) - x * 10 ^ n\<bar> / 10 ^ n"
    by (simp only: abs_divide) simp
  also have "\<dots> \<le> (1 / 2) / 10 ^ n" using round_even_err by (intro divide_right_mono) auto
  finally show ?thesis by simp
qed

lemma fround_upper:
  assumes "1 / 10 + 1 / (2 * 10 ^ n) \<le> x"
  shows "fround n x \<le> (x + 1 / (2 * 10 ^ n)) * (1 + pow2 (- 53))"
proof -
  let ?r = "of_int (round_even (x * 10 ^ n)) / 10 ^ n :: rat"
  have up: "?r \<le> x + 1 / (2 * 10 ^ n)" and lo: "x - 1 / (2 * 10 ^ n) \<le> ?r"
    using decimal_near[of x n] by (simp_all only: abs_le_iff) linarith+
  have "fl ?r \<le> ?r * (1 + pow2 (- 53))" using lo assms by (intro fl_upper) linarith
  also have "\<dots> \<le> (x + 1 / (2 * 10 ^ n)) * (1 + pow2 (- 53))"
    using up by (intro mult_right_mono) (simp_all add: pow2_def)
  finally show ?thesis by (simp add: fround_def)
qed

fun sum_comp :: "rat \<Rightarrow> rat \<Rightarrow> rat list \<Rightarrow> rat" where
  "sum_comp s c [] = (if c \<noteq> 0 then fadd s c else s)"
| "sum_comp s c (x # xs) =
     (let t = fadd s x;
          c' = (if \<bar>x\<bar> \<le> \<bar>s\<bar> then fadd c (fadd (fsub s t) x) else fadd c (fadd (fsub x t) s))
      in sum_comp t c' xs)"

fun fsum :: "rat list \<Rightarrow> rat" where
  "fsum [] = 0"
| "fsum (x # xs) = sum_comp x 0 xs"

subsection \<open>Shortest decimal text\<close>

definition pow10 :: "int \<Rightarrow> rat" where
  "pow10 e = (if 0 \<le> e then 10 ^ nat e else 1 / 10 ^ nat (- e))"

definition flog10 :: "rat \<Rightarrow> int" where
  "flog10 x =
     (let e = (flog2 x * 30103) div 100000
      in if pow10 (e + 1) \<le> x then e + 1 else if x < pow10 e then e - 1 else e)"

definition dec_try :: "rat \<Rightarrow> nat \<Rightarrow> int option" where
  "dec_try x n =
     (let q = pow10 (flog10 x - int n + 1); lo = \<lfloor>x / q\<rfloor>;
          okl = (fl (of_int lo * q) = x); okh = (fl (of_int (lo + 1) * q) = x)
      in if okl \<and> (\<not> okh \<or> x - of_int lo * q \<le> of_int (lo + 1) * q - x) then Some lo
         else if okh then Some (lo + 1) else None)"

fun dec_search :: "rat \<Rightarrow> nat list \<Rightarrow> (nat \<times> int) option" where
  "dec_search x [] = None"
| "dec_search x (n # ns) = (case dec_try x n of Some k \<Rightarrow> Some (n, k) | None \<Rightarrow> dec_search x ns)"

definition repr_dec :: "rat \<Rightarrow> rat" where
  "repr_dec x =
     (if x \<le> 0 then x
      else case dec_search x [1..<18] of
        Some (n, k) \<Rightarrow> of_int k * pow10 (flog10 x - int n + 1)
      | None \<Rightarrow> x)"

lemma dec_try_fl: "dec_try x n = Some k \<Longrightarrow> fl (of_int k * pow10 (flog10 x - int n + 1)) = x"
  by (auto simp: dec_try_def Let_def split: if_splits)

lemma dec_search_fl:
  "dec_search x ns = Some (n, k) \<Longrightarrow> fl (of_int k * pow10 (flog10 x - int n + 1)) = x"
  by (induction ns) (auto split: option.splits dest: dec_try_fl)

text \<open>Reading the text back gives the float it was made from.\<close>

lemma fl_repr_dec:
  assumes "is_double x"
  shows "fl (repr_dec x) = x"
proof (cases "dec_search x [1..<18]")
  case None
  then show ?thesis using assms by (simp add: repr_dec_def is_double_def)
next
  case (Some p)
  obtain n k where p: "p = (n, k)" by (cases p)
  have "fl (of_int k * pow10 (flog10 x - int n + 1)) = x" using Some p by (auto dest: dec_search_fl)
  then show ?thesis using assms Some p by (simp add: repr_dec_def is_double_def)
qed

end
