(* ===== verification/Py_Prelude.thy ===== *)
theory Py_Prelude
  imports Py_Float
begin

text \<open>
  The Python values the components share: exceptions as values, strings with the methods
  the code calls, truthiness of optional values, and insertion-ordered dictionaries.
  A \<open>str\<close> is the list of its UTF-8 bytes; \<open>upper\<close>, \<open>lower\<close> and \<open>strip\<close> act on the ASCII part,
  which is where tickers, statuses and keys live.  A \<open>datetime\<close> is a number of microseconds,
  \<open>Aware\<close> when it carries a time zone (the instant in UTC) and \<open>Naive\<close> when it does not.
  The collections declared here gather the facts that component proofs use together.
\<close>

named_theorems float_simps "unfolding of the float operators"
named_theorems gate_simps "unfolding of guard predicates"
named_theorems store_simps "laws of keyed stores"

declare fadd_def [float_simps] fsub_def [float_simps] fmul_def [float_simps] fdiv_def [float_simps]

section \<open>Exceptions\<close>

datatype py_error =
    ValueError string
  | KeyError string
  | BrokerError string
  | TimeoutError string
  | LeaseError string
  | DailyWorkflowError string
  | PermissionError string
  | LLMBudgetExceeded string
  | IntegrityError string
  | TypeError string
  | ZeroDivisionError
  | IndexError
  | RuntimeError string

text \<open>\<open>str(exc)\<close>: a \<open>KeyError\<close> shows its key quoted.\<close>

fun err_str :: "py_error \<Rightarrow> string" where
  "err_str (ValueError m) = m"
| "err_str (KeyError m) = CHR 0x27 # m @ [CHR 0x27]"
| "err_str (BrokerError m) = m"
| "err_str (TimeoutError m) = m"
| "err_str (LeaseError m) = m"
| "err_str (DailyWorkflowError m) = m"
| "err_str (PermissionError m) = m"
| "err_str (LLMBudgetExceeded m) = m"
| "err_str (IntegrityError m) = m"
| "err_str (TypeError m) = m"
| "err_str ZeroDivisionError = ''float division by zero''"
| "err_str IndexError = ''list index out of range''"
| "err_str (RuntimeError m) = m"

type_synonym 'a py = "py_error + 'a"

definition py_bind :: "'a py \<Rightarrow> ('a \<Rightarrow> 'b py) \<Rightarrow> 'b py" where
  "py_bind m f = (case m of Inl e \<Rightarrow> Inl e | Inr x \<Rightarrow> f x)"

lemma py_bind_simps [simp]: "py_bind (Inl e) f = Inl e" "py_bind (Inr x) f = f x"
  by (simp_all add: py_bind_def)

lemma py_bind_Inr_iff: "py_bind m f = Inr y \<longleftrightarrow> (\<exists>x. m = Inr x \<and> f x = Inr y)"
  by (simp add: py_bind_def split: sum.splits)

lemma py_bind_Inl_iff: "py_bind m f = Inl e \<longleftrightarrow> m = Inl e \<or> (\<exists>x. m = Inr x \<and> f x = Inl e)"
  by (simp add: py_bind_def split: sum.splits)

section \<open>Strings\<close>

definition is_lower_ascii :: "char \<Rightarrow> bool" where
  "is_lower_ascii c \<longleftrightarrow> 97 \<le> (of_char c :: int) \<and> (of_char c :: int) \<le> 122"

definition is_upper_ascii :: "char \<Rightarrow> bool" where
  "is_upper_ascii c \<longleftrightarrow> 65 \<le> (of_char c :: int) \<and> (of_char c :: int) \<le> 90"

definition upper_char :: "char \<Rightarrow> char" where
  "upper_char c = (if is_lower_ascii c then char_of ((of_char c :: int) - 32) else c)"

definition lower_char :: "char \<Rightarrow> char" where
  "lower_char c = (if is_upper_ascii c then char_of ((of_char c :: int) + 32) else c)"

definition upper :: "string \<Rightarrow> string" where
  "upper s = map upper_char s"

definition lower :: "string \<Rightarrow> string" where
  "lower s = map lower_char s"

definition is_space :: "char \<Rightarrow> bool" where
  "is_space c \<longleftrightarrow>
     (let n = (of_char c :: int) in (9 \<le> n \<and> n \<le> 13) \<or> (28 \<le> n \<and> n \<le> 32))"

definition strip :: "string \<Rightarrow> string" where
  "strip s = rev (dropWhile is_space (rev (dropWhile is_space s)))"

definition startswith :: "string \<Rightarrow> string \<Rightarrow> bool" where
  "startswith s p \<longleftrightarrow> take (length p) s = p"

fun str_contains :: "string \<Rightarrow> string \<Rightarrow> bool" where
  "str_contains p [] = (p = [])"
| "str_contains p (c # cs) = (startswith (c # cs) p \<or> str_contains p cs)"

fun split_on :: "char \<Rightarrow> string \<Rightarrow> string list" where
  "split_on c [] = [[]]"
| "split_on c (x # xs) =
     (if x = c then [] # split_on c xs
      else (case split_on c xs of [] \<Rightarrow> [[x]] | p # ps \<Rightarrow> (x # p) # ps))"

definition split_once :: "char \<Rightarrow> string \<Rightarrow> (string \<times> string) option" where
  "split_once c s =
     (if c \<in> set s then Some (takeWhile (\<lambda>x. x \<noteq> c) s, tl (dropWhile (\<lambda>x. x \<noteq> c) s)) else None)"

fun join_with :: "string \<Rightarrow> string list \<Rightarrow> string" where
  "join_with sep [] = []"
| "join_with sep [x] = x"
| "join_with sep (x # y # ys) = x @ sep @ join_with sep (y # ys)"

definition digit_char :: "int \<Rightarrow> char" where
  "digit_char d = char_of (48 + d)"

function str_nat :: "int \<Rightarrow> string" where
  "str_nat n = (if n < 10 then [digit_char n] else str_nat (n div 10) @ [digit_char (n mod 10)])"
  by pat_completeness auto
termination
  by (relation "measure nat") auto

declare str_nat.simps [simp del]

definition str_int :: "int \<Rightarrow> string" where
  "str_int i = (if i < 0 then ''-'' @ str_nat (- i) else str_nat i)"

text \<open>
  \<open>float(text)\<close> on a decimal literal: optional sign, digits with an optional point, optional
  exponent, single underscores between digits.  The words for infinity and NaN are outside
  the model and give \<open>None\<close>, the value for a \<open>ValueError\<close>.
\<close>

definition is_digit :: "char \<Rightarrow> bool" where
  "is_digit c \<longleftrightarrow> 48 \<le> (of_char c :: int) \<and> (of_char c :: int) \<le> 57"

definition digits_val :: "string \<Rightarrow> int option" where
  "digits_val s =
     (if s = [] \<or> hd s = CHR ''_'' \<or> last s = CHR ''_'' \<or> str_contains ''__'' s
         \<or> \<not> list_all (\<lambda>c. is_digit c \<or> c = CHR ''_'') s then None
      else Some (foldl (\<lambda>a c. a * 10 + (of_char c - 48)) 0 (filter is_digit s)))"

definition split_sign :: "string \<Rightarrow> bool \<times> string" where
  "split_sign s =
     (case s of [] \<Rightarrow> (False, [])
      | c # cs \<Rightarrow> if c = CHR ''-'' then (True, cs) else if c = CHR ''+'' then (False, cs) else (False, s))"

definition mantissa_val :: "string \<Rightarrow> rat option" where
  "mantissa_val m =
     (case split_once (CHR ''.'') m of
        None \<Rightarrow> map_option of_int (digits_val m)
      | Some (w, f) \<Rightarrow>
          (let n = length (filter is_digit f);
               whole = (if w = [] then Some 0 else digits_val w);
               frac = (if f = [] then Some 0 else digits_val f)
           in if w = [] \<and> f = [] then None
              else case (whole, frac) of
                (Some a, Some b) \<Rightarrow> Some (of_int a + of_int b / 10 ^ n)
              | _ \<Rightarrow> None))"

definition exponent_val :: "string \<Rightarrow> int option" where
  "exponent_val e = (case split_sign e of (neg, ds) \<Rightarrow> map_option (\<lambda>v. if neg then - v else v) (digits_val ds))"

definition parse_float :: "string \<Rightarrow> rat option" where
  "parse_float t =
     (case split_sign (strip t) of (neg, body) \<Rightarrow>
       (let low = lower body;
            parts = (case split_once (CHR ''e'') low of None \<Rightarrow> (low, Some 0) | Some (m, e) \<Rightarrow> (m, exponent_val e))
        in case (mantissa_val (fst parts), snd parts) of
             (Some m, Some e) \<Rightarrow> Some (fl ((if neg then - 1 else 1) * m * pow10 e))
           | _ \<Rightarrow> None))"

text \<open>\<open>format(x, '.nf')\<close>: the exact value rounded half-even to n places.\<close>

definition pad0 :: "nat \<Rightarrow> string \<Rightarrow> string" where
  "pad0 n s = replicate (n - length s) (CHR ''0'') @ s"

definition fmt_fixed :: "nat \<Rightarrow> rat \<Rightarrow> string" where
  "fmt_fixed n x =
     (let k = round_even (\<bar>x\<bar> * 10 ^ n); whole = str_nat (k div 10 ^ n)
      in (if x < 0 then ''-'' else []) @ whole
         @ (if n = 0 then [] else ''.'' @ pad0 n (str_nat (k mod 10 ^ n))))"

text \<open>\<open>repr\<close> of a float: shortest digits, plain notation for exponents from -4 to 15.\<close>

definition strip_zeros :: "string \<Rightarrow> string" where
  "strip_zeros s = rev (dropWhile (\<lambda>c. c = CHR ''0'') (rev s))"

definition exp_text :: "int \<Rightarrow> string" where
  "exp_text e = (if e < 0 then ''-'' else ''+'') @ pad0 2 (str_nat \<bar>e\<bar>)"

definition repr_pos :: "rat \<Rightarrow> string" where
  "repr_pos x =
     (let e = flog10 x;
          ds = (case dec_search x [1..<18] of Some (n, k) \<Rightarrow> str_int k | None \<Rightarrow> ''?'');
          e' = (case dec_search x [1..<18] of Some (n, k) \<Rightarrow> e + int (length ds) - int n | None \<Rightarrow> e);
          sig = strip_zeros ds; m = length sig
      in if - 4 \<le> e' \<and> e' < 16 then
           (if e' < 0 then ''0.'' @ replicate (nat (- e') - 1) (CHR ''0'') @ sig
            else if m \<le> nat e' + 1 then sig @ replicate (nat e' + 1 - m) (CHR ''0'') @ ''.0''
            else take (nat e' + 1) sig @ ''.'' @ drop (nat e' + 1) sig)
         else take 1 sig @ (if m = 1 then [] else ''.'' @ drop 1 sig) @ ''e'' @ exp_text e')"

definition str_float :: "rat \<Rightarrow> string" where
  "str_float x = (if x = 0 then ''0.0'' else if x < 0 then ''-'' @ repr_pos (- x) else repr_pos x)"

lemma upper_char_idem [simp]: "upper_char (upper_char c) = upper_char c"
proof (cases "is_lower_ascii c")
  case True
  then have "\<not> is_lower_ascii (char_of ((of_char c :: int) - 32))"
    by (auto simp: is_lower_ascii_def)
  then show ?thesis using True by (simp add: upper_char_def)
qed (simp add: upper_char_def)

lemma lower_char_idem [simp]: "lower_char (lower_char c) = lower_char c"
proof (cases "is_upper_ascii c")
  case True
  then have "\<not> is_upper_ascii (char_of ((of_char c :: int) + 32))"
    by (auto simp: is_upper_ascii_def)
  then show ?thesis using True by (simp add: lower_char_def)
qed (simp add: lower_char_def)

lemma upper_idem [simp]: "upper (upper s) = upper s"
  by (simp add: upper_def)

lemma lower_idem [simp]: "lower (lower s) = lower s"
  by (simp add: lower_def)

lemma upper_Nil [simp]: "upper [] = []"
  by (simp add: upper_def)

lemma lower_Nil [simp]: "lower [] = []"
  by (simp add: lower_def)

lemma upper_eq_Nil [simp]: "upper s = [] \<longleftrightarrow> s = []"
  by (simp add: upper_def)

lemma startswith_append [simp]: "startswith (p @ s) p"
  by (simp add: startswith_def)

lemma strip_fix:
  assumes "s = [] \<or> (\<not> is_space (hd s) \<and> \<not> is_space (last s))"
  shows "strip s = s"
proof (cases "s = []")
  case False
  then have "dropWhile is_space s = s" using assms by (cases s) auto
  moreover have "dropWhile is_space (rev s) = rev s"
    using assms False by (cases "rev s") (auto simp: last_rev[symmetric] dest: sym)
  ultimately show ?thesis by (simp add: strip_def)
qed (simp add: strip_def)

lemma strip_ends:
  assumes "strip s \<noteq> []"
  shows "\<not> is_space (hd (strip s))" "\<not> is_space (last (strip s))"
proof -
  let ?a = "dropWhile is_space s"
  let ?b = "dropWhile is_space (rev ?a)"
  have b: "?b \<noteq> []" using assms by (simp add: strip_def)
  show "\<not> is_space (last (strip s))"
    using hd_dropWhile[OF b] b by (simp add: strip_def last_rev)
  have a: "?a \<noteq> []" using b by (cases ?a) auto
  have "last ?b = last (rev ?a)"
    by (metis append_is_Nil_conv b last_appendR takeWhile_dropWhile_id)
  then have "hd (strip s) = hd ?a" using b a by (simp add: strip_def hd_rev last_rev)
  then show "\<not> is_space (hd (strip s))" using hd_dropWhile[OF a] by simp
qed

lemma strip_idem [simp]: "strip (strip s) = strip s"
  using strip_ends[of s] by (intro strip_fix) blast

section \<open>Optional values and truthiness\<close>

definition or_str :: "string option \<Rightarrow> string \<Rightarrow> string" where
  "or_str x d = (case x of None \<Rightarrow> d | Some s \<Rightarrow> if s = [] then d else s)"

definition or_float :: "rat option \<Rightarrow> rat \<Rightarrow> rat" where
  "or_float x d = (case x of None \<Rightarrow> d | Some v \<Rightarrow> if v = 0 then d else v)"

definition truthy_str :: "string option \<Rightarrow> bool" where
  "truthy_str x \<longleftrightarrow> (case x of None \<Rightarrow> False | Some s \<Rightarrow> s \<noteq> [])"

definition is_some :: "'a option \<Rightarrow> bool" where
  "is_some x \<longleftrightarrow> x \<noteq> None"

lemma is_some_simps [simp]: "is_some (Some x)" "\<not> is_some None"
  by (auto simp: is_some_def)

section \<open>Datetimes\<close>

datatype datetime = Naive int | Aware int

fun as_utc :: "datetime \<Rightarrow> int" where
  "as_utc (Naive t) = t"
| "as_utc (Aware t) = t"

definition seconds :: "int \<Rightarrow> int" where
  "seconds n = n * 1000000"

definition minutes :: "int \<Rightarrow> int" where
  "minutes n = n * 60 * 1000000"

section \<open>Insertion-ordered dictionaries\<close>

fun dget :: "('k \<times> 'v) list \<Rightarrow> 'k \<Rightarrow> 'v option" where
  "dget [] k = None"
| "dget ((k', v) # d) k = (if k' = k then Some v else dget d k)"

fun dset :: "('k \<times> 'v) list \<Rightarrow> 'k \<Rightarrow> 'v \<Rightarrow> ('k \<times> 'v) list" where
  "dset [] k v = [(k, v)]"
| "dset ((k', v') # d) k v = (if k' = k then (k, v) # d else (k', v') # dset d k v)"

fun dpop :: "('k \<times> 'v) list \<Rightarrow> 'k \<Rightarrow> ('k \<times> 'v) list" where
  "dpop [] k = []"
| "dpop ((k', v) # d) k = (if k' = k then d else (k', v) # dpop d k)"

definition dkeys :: "('k \<times> 'v) list \<Rightarrow> 'k list" where
  "dkeys d = map fst d"

definition dict_ok :: "('k \<times> 'v) list \<Rightarrow> bool" where
  "dict_ok d \<longleftrightarrow> distinct (dkeys d)"

lemma dget_dset [store_simps, simp]: "dget (dset d k v) j = (if j = k then Some v else dget d j)"
  by (induction d) auto

lemma dget_None_iff: "dget d k = None \<longleftrightarrow> k \<notin> set (dkeys d)"
  by (induction d k rule: dget.induct) (auto simp: dkeys_def)

lemma dget_Some_mem: "dget d k = Some v \<Longrightarrow> (k, v) \<in> set d"
  by (induction d) (auto split: if_splits)

lemma dkeys_dset: "set (dkeys (dset d k v)) = insert k (set (dkeys d))"
  by (induction d k v rule: dset.induct) (auto simp: dkeys_def)

lemma dict_ok_Nil [simp]: "dict_ok []"
  by (simp add: dict_ok_def dkeys_def)

lemma dict_ok_dset [simp]: "dict_ok d \<Longrightarrow> dict_ok (dset d k v)"
proof (induction d)
  case (Cons p d)
  have "set (map fst (dset d k v)) = insert k (set (map fst d))"
    using dkeys_dset[of d k v] by (simp add: dkeys_def)
  then show ?case using Cons by (cases p) (auto simp: dict_ok_def dkeys_def)
qed (simp add: dict_ok_def dkeys_def)

lemma dpop_set: "set (dpop d k) \<subseteq> set d"
  by (induction d k rule: dpop.induct) auto

lemma dict_ok_dpop [simp]: "dict_ok d \<Longrightarrow> dict_ok (dpop d k)"
proof (induction d)
  case (Cons p d)
  have "set (map fst (dpop d k)) \<subseteq> set (map fst d)" using dpop_set[of d k] by auto
  then show ?case using Cons by (cases p) (auto simp: dict_ok_def dkeys_def)
qed (simp add: dict_ok_def dkeys_def)

lemma dget_dpop [store_simps]: "dict_ok d \<Longrightarrow> dget (dpop d k) j = (if j = k then None else dget d j)"
proof (induction d)
  case (Cons p d)
  obtain k' v where p: "p = (k', v)" by (cases p)
  have "dict_ok d" using Cons.prems by (simp add: dict_ok_def dkeys_def)
  moreover have "k' = k \<Longrightarrow> dget d k = None"
    using Cons.prems p by (simp add: dget_None_iff dict_ok_def dkeys_def)
  ultimately show ?case using Cons.IH p by auto
qed simp

lemma dget_filter:
  assumes "dict_ok d"
  shows "dget (filter (\<lambda>(k, v). P v) d) j = (case dget d j of Some v \<Rightarrow> if P v then Some v else None | None \<Rightarrow> None)"
  using assms
proof (induction d)
  case (Cons p d)
  obtain k v where p: "p = (k, v)" by (cases p)
  have "dict_ok d" using Cons.prems by (simp add: dict_ok_def dkeys_def)
  moreover have "k = j \<Longrightarrow> dget d j = None" using Cons.prems p by (simp add: dget_None_iff dict_ok_def dkeys_def)
  ultimately show ?case using Cons.IH p by (auto split: option.splits)
qed simp

lemma dict_ok_filter: "dict_ok d \<Longrightarrow> dict_ok (filter P d)"
  by (simp add: dict_ok_def dkeys_def distinct_map_filter)

lemma digit_char_inj: "0 \<le> a \<Longrightarrow> a < 10 \<Longrightarrow> 0 \<le> b \<Longrightarrow> b < 10 \<Longrightarrow> digit_char a = digit_char b \<longleftrightarrow> a = b"
proof
  assume r: "0 \<le> a" "a < 10" "0 \<le> b" "b < 10" and "digit_char a = digit_char b"
  then have "(of_char (char_of (48 + a)) :: int) = of_char (char_of (48 + b))" by (simp add: digit_char_def)
  then show "a = b" using r by simp
qed simp

lemma str_nat_nonempty [simp]: "str_nat n \<noteq> []" "[] \<noteq> str_nat n"
  by (subst str_nat.simps, simp)+

lemma str_nat_inj: "0 \<le> n \<Longrightarrow> 0 \<le> m \<Longrightarrow> str_nat n = str_nat m \<Longrightarrow> n = m"
proof (induction n arbitrary: m rule: str_nat.induct)
  case (1 n)
  show ?case
  proof (cases "n < 10"; cases "m < 10")
    assume "n < 10" "m < 10"
    then show ?thesis using 1 by (simp add: str_nat.simps[of n] str_nat.simps[of m] digit_char_inj)
  next
    assume "n < 10" "\<not> m < 10"
    then show ?thesis using 1 by (simp add: str_nat.simps[of n] str_nat.simps[of m])
  next
    assume "\<not> n < 10" "m < 10"
    then show ?thesis using 1 by (simp add: str_nat.simps[of n] str_nat.simps[of m])
  next
    assume big: "\<not> n < 10" "\<not> m < 10"
    then have eq: "str_nat (n div 10) = str_nat (m div 10)" "digit_char (n mod 10) = digit_char (m mod 10)"
      using 1(4) by (simp_all add: str_nat.simps[of n] str_nat.simps[of m])
    then have "n div 10 = m div 10" using 1(1)[of "m div 10"] 1(2,3) big by simp
    moreover have "n mod 10 = m mod 10" using eq(2) by (simp add: digit_char_inj)
    ultimately show ?thesis by (metis div_mult_mod_eq)
  qed
qed

lemma dset_fresh: "k \<notin> set (dkeys d) \<Longrightarrow> dset d k v = d @ [(k, v)]"
  by (induction d k v rule: dset.induct) (auto simp: dkeys_def)

lemma dkeys_dset_known: "k \<in> set (dkeys d) \<Longrightarrow> dkeys (dset d k v) = dkeys d"
  by (induction d k v rule: dset.induct) (auto simp: dkeys_def)

lemma dset_mem: "(j, x) \<in> set (dset d k v) \<Longrightarrow> (j, x) \<in> set d \<or> (j = k \<and> x = v)"
  by (induction d k v rule: dset.induct) (auto split: if_splits)

lemma dget_mem: "dict_ok d \<Longrightarrow> (k, v) \<in> set d \<longleftrightarrow> dget d k = Some v"
proof (induction d)
  case (Cons p d)
  obtain k' v' where p: "p = (k', v')" by (cases p)
  have "dict_ok d" and n: "k' \<notin> fst ` set d" using Cons.prems p by (auto simp: dict_ok_def dkeys_def)
  then show ?case using Cons.IH p by (auto simp: image_iff)
qed simp

lemma find_append: "find P (xs @ ys) = (case find P xs of None \<Rightarrow> find P ys | Some x \<Rightarrow> Some x)"
  by (induction xs) auto

text \<open>
  The contract a client of a keyed store relies on: what a lookup returns after an
  insertion or a removal, and that every operation keeps the well-formedness of the store.
\<close>

locale keyed_store =
  fixes get :: "'s \<Rightarrow> 'k \<Rightarrow> 'v option"
    and put :: "'s \<Rightarrow> 'k \<Rightarrow> 'v \<Rightarrow> 's"
    and del :: "'s \<Rightarrow> 'k \<Rightarrow> 's"
    and empty_store :: 's
    and ok :: "'s \<Rightarrow> bool"
  assumes get_empty: "get empty_store k = None"
    and get_put: "ok s \<Longrightarrow> get (put s k v) j = (if j = k then Some v else get s j)"
    and get_del: "ok s \<Longrightarrow> get (del s k) j = (if j = k then None else get s j)"
    and ok_empty: "ok empty_store"
    and ok_put: "ok s \<Longrightarrow> ok (put s k v)"
    and ok_del: "ok s \<Longrightarrow> ok (del s k)"
begin

lemma put_put_same: "ok s \<Longrightarrow> get (put (put s k v) k w) = get (put s k w)"
  by (rule ext) (simp add: get_put ok_put)

lemma del_put_same: "ok s \<Longrightarrow> get s k = None \<Longrightarrow> get (del (put s k v) k) = get s"
  by (rule ext) (simp add: get_put get_del ok_put)

lemma put_frame: "ok s \<Longrightarrow> j \<noteq> k \<Longrightarrow> get (put s k v) j = get s j"
  by (simp add: get_put)

lemma del_frame: "ok s \<Longrightarrow> j \<noteq> k \<Longrightarrow> get (del s k) j = get s j"
  by (simp add: get_del)

end

interpretation pydict: keyed_store dget dset dpop "[]" dict_ok
  by unfold_locales (simp_all add: dget_dpop)

end
