(* ===== verification/Settings.thy ===== *)
theory Settings
  imports Py_Prelude
begin

text \<open>
  \<open>app/core/config.py\<close>: the fields of \<open>Settings\<close> that the modelled components read, with the
  values the class declares as defaults, its validators, and the methods that decide
  whether live trading is open and whether an LLM call costs money.
  \<open>app/core/security.py\<close>: the gate that refuses live routing.
\<close>

datatype trading_mode = PAPER | LIVE | SIMULATION

record settings =
  cfg_trading_mode :: trading_mode
  cfg_live_trading_enabled :: bool
  cfg_paper_relaxed_data_gates :: bool
  cfg_paper_aggressive_entries :: bool
  cfg_live_trading_confirmation_token :: "string option"
  cfg_expected_live_confirmation_token :: string
  cfg_ibkr_default_exchange :: string
  cfg_ibkr_default_currency :: string
  cfg_llm_base_url :: string
  cfg_llm_api_key :: "string option"
  cfg_llm_model :: string
  cfg_llm_runtime :: string
  cfg_llm_local_base_url :: string
  cfg_llm_local_model :: string
  cfg_job_action_timeout_seconds :: int
  cfg_job_action_timeout_seconds_local :: int
  cfg_llm_budget_enforce :: bool
  cfg_llm_monthly_aud_budget :: rat
  cfg_llm_budget_trading_days_per_month :: int
  cfg_llm_budget_avg_tokens_per_call :: int
  cfg_llm_budget_input_token_share :: rat
  cfg_llm_daily_token_budget :: int
  cfg_llm_daily_call_budget :: int
  cfg_llm_aud_per_usd :: rat
  cfg_llm_input_usd_per_mtok :: rat
  cfg_llm_output_usd_per_mtok :: rat
  cfg_llm_budget_soft_limit_pct :: rat
  cfg_llm_budget_state_path :: string
  cfg_starting_cash :: rat
  cfg_max_position_pct :: rat
  cfg_max_sector_pct :: rat
  cfg_max_gross_exposure_pct :: rat
  cfg_max_venue_gross_pct :: rat
  cfg_fx_rates :: string
  cfg_min_cash_pct :: rat
  cfg_cash_soft_pct :: rat
  cfg_risk_per_trade_pct :: rat
  cfg_daily_max_loss_pct :: rat
  cfg_max_drawdown_pct :: rat
  cfg_max_open_positions :: int
  cfg_max_consecutive_losses :: int
  cfg_cooldown_after_loss_minutes :: int
  cfg_force_close_before_market_close_minutes :: int
  cfg_max_consecutive_losses_halt_day :: int
  cfg_min_avg_daily_volume :: rat
  cfg_max_bid_ask_spread_bps :: rat
  cfg_min_data_quality_score :: rat
  cfg_max_slippage_bps :: rat
  cfg_penny_stock_max_price :: rat
  cfg_allow_leveraged_etfs :: bool
  cfg_trade_allowlist_au :: "string list"
  cfg_trade_allowlist :: "string list"
  cfg_primary_venue :: string
  cfg_enabled_venues :: "string list"
  cfg_market_calendar :: string
  cfg_market_timezone :: string
  cfg_closing_window_minutes_before_close :: int
  cfg_workflow_lease_seconds :: int
  cfg_max_revalidation_retries :: int
  cfg_analysis_decision_ttl_minutes :: int
  cfg_premarket_preparation_minutes_before_open :: int
  cfg_premarket_analysis_minutes_before_open :: int
  cfg_preopen_revalidation_minutes_before_open :: int
  cfg_min_reevaluation_gap_minutes :: int
  cfg_postmarket_review_minutes_after_close :: int
  cfg_enable_automated_execution :: bool
  cfg_enable_broker_orders :: bool
  cfg_broker_provider :: string
  cfg_broker_environment :: string
  cfg_enable_broker_connection :: bool
  cfg_require_manual_order_approval :: bool
  cfg_enable_live_trading :: bool
  cfg_enable_short_selling :: bool
  cfg_enable_extended_hours_orders :: bool
  cfg_order_approval_expiry_minutes :: int
  cfg_order_submission_revalidation_max_age_seconds :: int
  cfg_max_order_slippage_bps :: rat
  cfg_max_order_spread_bps :: rat
  cfg_max_entry_limit_drift_bps :: rat
  cfg_intraday_operation_mode :: string
  cfg_auto_execute_hard_stops :: bool
  cfg_auto_execute_force_close :: bool
  cfg_allow_stop_widening :: bool
  cfg_allow_stop_tightening :: bool
  cfg_enable_external_data :: bool
  cfg_enable_market_data_collection :: bool
  cfg_latest_quote_max_age_seconds :: int
  cfg_data_quality_warning_threshold :: rat
  cfg_data_quality_hard_fail_threshold :: rat
  cfg_primary_benchmark :: string
  cfg_primary_benchmark_au :: string
  cfg_ibkr_account :: string
  cfg_intraday_min_reeval_seconds :: int
  cfg_intraday_reevaluation_interval_minutes :: int
  cfg_max_intraday_reanalyses :: int
  cfg_max_intraday_reanalyses_local :: int
  cfg_enable_intraday_monitoring :: bool
  cfg_max_symbol_reanalyses_per_day :: int
  cfg_event_deduplication_window_seconds :: int
  cfg_allow_new_positions_in_closing_window :: bool
  cfg_default_closing_policy :: string
  cfg_cancel_entry_orders_at_closing_window :: bool
  cfg_overnight_review_required :: bool
  cfg_quote_price_tolerance_bps :: rat

definition default_settings :: settings where
  "default_settings =
    \<lparr>cfg_trading_mode = PAPER,
     cfg_live_trading_enabled = False,
     cfg_paper_relaxed_data_gates = True,
     cfg_paper_aggressive_entries = True,
     cfg_live_trading_confirmation_token = None,
     cfg_expected_live_confirmation_token = ''CHANGE_ME_TO_A_LONG_RANDOM_SECRET'',
     cfg_ibkr_default_exchange = ''SMART'',
     cfg_ibkr_default_currency = ''USD'',
     cfg_llm_base_url = ''https://api.openai.com/v1'',
     cfg_llm_api_key = None,
     cfg_llm_model = ''gpt-4o-mini'',
     cfg_llm_runtime = ''cloud'',
     cfg_llm_local_base_url = ''http://127.0.0.1:11434/v1'',
     cfg_llm_local_model = ''qwen2.5:14b'',
     cfg_job_action_timeout_seconds = 900,
     cfg_job_action_timeout_seconds_local = 480,
     cfg_llm_budget_enforce = True,
     cfg_llm_monthly_aud_budget = 20,
     cfg_llm_budget_trading_days_per_month = 21,
     cfg_llm_budget_avg_tokens_per_call = 5000,
     cfg_llm_budget_input_token_share = 3 / 4,
     cfg_llm_daily_token_budget = 0,
     cfg_llm_daily_call_budget = 0,
     cfg_llm_aud_per_usd = fl (155 / 100),
     cfg_llm_input_usd_per_mtok = fl (15 / 100),
     cfg_llm_output_usd_per_mtok = fl (60 / 100),
     cfg_llm_budget_soft_limit_pct = fl (8 / 10),
     cfg_llm_budget_state_path = ''.data/llm_budget_state.json'',
     cfg_starting_cash = 25000,
     cfg_max_position_pct = 10,
     cfg_max_sector_pct = 30,
     cfg_max_gross_exposure_pct = 90,
     cfg_max_venue_gross_pct = 90,
     cfg_fx_rates = [],
     cfg_min_cash_pct = 10,
     cfg_cash_soft_pct = 20,
     cfg_risk_per_trade_pct = 1 / 2,
     cfg_daily_max_loss_pct = 3 / 2,
     cfg_max_drawdown_pct = 8,
     cfg_max_open_positions = 8,
     cfg_max_consecutive_losses = 3,
     cfg_cooldown_after_loss_minutes = 30,
     cfg_force_close_before_market_close_minutes = 15,
     cfg_max_consecutive_losses_halt_day = 5,
     cfg_min_avg_daily_volume = 1000000,
     cfg_max_bid_ask_spread_bps = 20,
     cfg_min_data_quality_score = fl (6 / 10),
     cfg_max_slippage_bps = 15,
     cfg_penny_stock_max_price = 5,
     cfg_allow_leveraged_etfs = False,
     cfg_trade_allowlist_au = [''BHP'', ''CBA'', ''VAS'', ''IOZ'', ''NDQ'', ''JPEQ''],
     cfg_trade_allowlist = [''SPY'', ''QQQ'', ''IWM'', ''DIA'', ''NVDA'', ''MSFT'', ''AMZN'', ''GOOGL'', ''META'',
       ''AVGO'', ''AMD'', ''AAPL'', ''TSLA'', ''IONQ''],
     cfg_primary_venue = ''US'',
     cfg_enabled_venues = [''US'', ''AU''],
     cfg_market_calendar = ''NYSE'',
     cfg_market_timezone = ''America/New_York'',
     cfg_closing_window_minutes_before_close = 30,
     cfg_workflow_lease_seconds = 300,
     cfg_max_revalidation_retries = 1,
     cfg_analysis_decision_ttl_minutes = 180,
     cfg_premarket_preparation_minutes_before_open = 180,
     cfg_premarket_analysis_minutes_before_open = 120,
     cfg_preopen_revalidation_minutes_before_open = 10,
     cfg_min_reevaluation_gap_minutes = 15,
     cfg_postmarket_review_minutes_after_close = 30,
     cfg_enable_automated_execution = False,
     cfg_enable_broker_orders = False,
     cfg_broker_provider = ''mock'',
     cfg_broker_environment = ''paper'',
     cfg_enable_broker_connection = False,
     cfg_require_manual_order_approval = False,
     cfg_enable_live_trading = False,
     cfg_enable_short_selling = False,
     cfg_enable_extended_hours_orders = False,
     cfg_order_approval_expiry_minutes = 10,
     cfg_order_submission_revalidation_max_age_seconds = 15,
     cfg_max_order_slippage_bps = 30,
     cfg_max_order_spread_bps = 50,
     cfg_max_entry_limit_drift_bps = 250,
     cfg_intraday_operation_mode = ''OBSERVE_ONLY'',
     cfg_auto_execute_hard_stops = False,
     cfg_auto_execute_force_close = False,
     cfg_allow_stop_widening = False,
     cfg_allow_stop_tightening = True,
     cfg_enable_external_data = False,
     cfg_enable_market_data_collection = False,
     cfg_latest_quote_max_age_seconds = 30,
     cfg_data_quality_warning_threshold = 3 / 4,
     cfg_data_quality_hard_fail_threshold = 1 / 2,
     cfg_primary_benchmark = ''SPY'',
     cfg_primary_benchmark_au = ''VAS'',
     cfg_ibkr_account = [],
     cfg_intraday_min_reeval_seconds = 300,
     cfg_intraday_reevaluation_interval_minutes = 30,
     cfg_max_intraday_reanalyses = 12,
     cfg_max_intraday_reanalyses_local = 180,
     cfg_enable_intraday_monitoring = True,
     cfg_max_symbol_reanalyses_per_day = 6,
     cfg_event_deduplication_window_seconds = 300,
     cfg_allow_new_positions_in_closing_window = False,
     cfg_default_closing_policy = ''CLOSE_INTRADAY_ONLY'',
     cfg_cancel_entry_orders_at_closing_window = True,
     cfg_overnight_review_required = True,
     cfg_quote_price_tolerance_bps = 20\<rparr>"

section \<open>Validators\<close>

definition split_csv :: "string \<Rightarrow> string list" where
  "split_csv v = map strip (filter (\<lambda>p. strip p \<noteq> []) (split_on (CHR '','') v))"

definition normalize_symbols :: "string list \<Rightarrow> string list" where
  "normalize_symbols vs = map upper vs"

definition normalize_venues :: "string list \<Rightarrow> string list" where
  "normalize_venues vs = map (\<lambda>v. upper (strip v)) (filter (\<lambda>v. strip v \<noteq> []) vs)"

text \<open>A \<open>TRADING_MODE=live\<close> without the enabling flag is turned back into paper.\<close>

definition reject_unsafe_live_default :: "settings \<Rightarrow> settings" where
  "reject_unsafe_live_default c =
     (if cfg_trading_mode c = LIVE \<and> \<not> cfg_live_trading_enabled c
      then c\<lparr>cfg_trading_mode := PAPER\<rparr> else c)"

section \<open>LLM runtime\<close>

definition llm_is_local :: "settings \<Rightarrow> bool" where
  "llm_is_local c =
     (let runtime = lower (strip (if cfg_llm_runtime c = [] then ''cloud'' else cfg_llm_runtime c))
      in if runtime \<in> {''local'', ''ollama'', ''mlx'', ''llamacpp'', ''llama.cpp'', ''embedded''} then True
         else (let url = lower (cfg_llm_base_url c)
               in list_ex (\<lambda>h. str_contains h url) [''127.0.0.1'', ''localhost'', ''[::1]'']))"

definition llm_spend_budget_applies :: "settings \<Rightarrow> bool" where
  "llm_spend_budget_applies c \<longleftrightarrow> cfg_llm_budget_enforce c \<and> \<not> llm_is_local c"

definition apply_local_llm_runtime :: "settings \<Rightarrow> settings" where
  "apply_local_llm_runtime c =
     (if \<not> llm_is_local c then c
      else (let url = lower (cfg_llm_base_url c);
                c1 = (if url = [] \<or> str_contains ''openai.com'' url
                      then c\<lparr>cfg_llm_base_url := cfg_llm_local_base_url c\<rparr> else c);
                model = lower (strip (cfg_llm_model c1))
            in if startswith model ''gpt-'' \<or> startswith model ''o1'' \<or> startswith model ''o3''
               then c1\<lparr>cfg_llm_model := cfg_llm_local_model c1\<rparr> else c1))"

definition effective_job_action_timeout_seconds :: "settings \<Rightarrow> int" where
  "effective_job_action_timeout_seconds c =
     (if llm_is_local c then max 1 (cfg_job_action_timeout_seconds_local c)
      else max 1 (cfg_job_action_timeout_seconds c))"

definition scheduler_uses_fake_llm :: "settings \<Rightarrow> bool" where
  "scheduler_uses_fake_llm c =
     (if llm_is_local c then False
      else case cfg_llm_api_key c of None \<Rightarrow> True | Some k \<Rightarrow> strip k = [])"

section \<open>Paper automation and the live gate\<close>

definition paper_unattended :: "settings \<Rightarrow> bool" where
  "paper_unattended c \<longleftrightarrow> upper (cfg_intraday_operation_mode c) = ''PAPER_AUTOMATED''"

definition effective_auto_execute_force_close :: "settings \<Rightarrow> bool" where
  "effective_auto_execute_force_close c =
     (if paper_unattended c then True else cfg_auto_execute_force_close c)"

definition effective_auto_execute_hard_stops :: "settings \<Rightarrow> bool" where
  "effective_auto_execute_hard_stops c =
     (if paper_unattended c then True else cfg_auto_execute_hard_stops c)"

definition is_live_trading_allowed :: "settings \<Rightarrow> bool" where
  "is_live_trading_allowed c =
     (if cfg_trading_mode c \<noteq> LIVE then False
      else if \<not> cfg_live_trading_enabled c then False
      else case cfg_live_trading_confirmation_token c of
        None \<Rightarrow> False
      | Some token \<Rightarrow>
          (let expected = cfg_expected_live_confirmation_token c
           in if token = [] \<or> expected = [] then False
              else if expected = ''CHANGE_ME_TO_A_LONG_RANDOM_SECRET'' then False
              else token = expected))"

definition assert_paper_or_simulation :: "settings \<Rightarrow> unit py" where
  "assert_paper_or_simulation c =
     (if is_live_trading_allowed c then Inr ()
      else if cfg_trading_mode c = LIVE \<or> cfg_live_trading_enabled c
      then Inl (PermissionError (''Live trading is not allowed: dual confirmation gate failed. ''
                @ ''System remains in fail-closed / paper mode.''))
      else Inr ())"

definition require_execution_allowed :: "settings \<Rightarrow> trading_mode" where
  "require_execution_allowed c =
     (if is_live_trading_allowed c then LIVE
      else if cfg_trading_mode c = SIMULATION then SIMULATION
      else PAPER)"

lemmas live_gate_defs [gate_simps] =
  is_live_trading_allowed_def assert_paper_or_simulation_def require_execution_allowed_def
  reject_unsafe_live_default_def

lemma is_live_trading_allowed_iff:
  "is_live_trading_allowed c \<longleftrightarrow>
     cfg_trading_mode c = LIVE \<and> cfg_live_trading_enabled c
     \<and> cfg_live_trading_confirmation_token c = Some (cfg_expected_live_confirmation_token c)
     \<and> cfg_expected_live_confirmation_token c \<noteq> []
     \<and> cfg_expected_live_confirmation_token c \<noteq> ''CHANGE_ME_TO_A_LONG_RANDOM_SECRET''"
  by (auto simp: is_live_trading_allowed_def Let_def split: option.splits if_splits)

lemma reject_unsafe_live_default_idem:
  "reject_unsafe_live_default (reject_unsafe_live_default c) = reject_unsafe_live_default c"
  by (simp add: reject_unsafe_live_default_def)

lemma llm_local_not_billable: "llm_is_local c \<Longrightarrow> \<not> llm_spend_budget_applies c"
  by (simp add: llm_spend_budget_applies_def)

text \<open>
  Live trading is possible only behind the dual gate: the mode is live, the flag is set
  and the confirmation token equals a configured, non-default secret.  Start-up is refused
  exactly when live trading is asked for and the gate is shut, and the execution mode is live
  only when it is open.
\<close>

theorem live_gate:
  "(is_live_trading_allowed c \<longleftrightarrow>
      cfg_trading_mode c = LIVE \<and> cfg_live_trading_enabled c
      \<and> cfg_live_trading_confirmation_token c = Some (cfg_expected_live_confirmation_token c)
      \<and> cfg_expected_live_confirmation_token c \<notin> {[], ''CHANGE_ME_TO_A_LONG_RANDOM_SECRET''})
   \<and> (assert_paper_or_simulation c = Inr () \<longleftrightarrow>
        is_live_trading_allowed c \<or> (cfg_trading_mode c \<noteq> LIVE \<and> \<not> cfg_live_trading_enabled c))
   \<and> (require_execution_allowed c = LIVE \<longleftrightarrow> is_live_trading_allowed c)
   \<and> (is_live_trading_allowed (reject_unsafe_live_default c) \<longleftrightarrow> is_live_trading_allowed c)"
proof (intro conjI)
  show "is_live_trading_allowed (reject_unsafe_live_default c) \<longleftrightarrow> is_live_trading_allowed c"
    by (simp add: is_live_trading_allowed_iff reject_unsafe_live_default_def)
qed (auto simp: is_live_trading_allowed_iff assert_paper_or_simulation_def require_execution_allowed_def)

end
