(* ===== verification/Venues.thy ===== *)
theory Venues
  imports Settings
begin

text \<open>
  \<open>app/market/venues.py\<close>, \<open>app/market/fx.py\<close>, \<open>app/market/books.py\<close> and
  \<open>app/market/paper_gates.py\<close>: the two trading venues with their screens, the resolution of a
  symbol to a venue, the job-key prefixes that keep the two books apart, static FX rates, the
  per-venue book summary and the relaxation of data gates on paper.  A \<open>Venue\<close> passed where a
  string may stand is its value, so optional strings model both.
\<close>

datatype venue = US | AU

fun venue_value :: "venue \<Rightarrow> string" where
  "venue_value US = ''US''"
| "venue_value AU = ''AU''"

record venue_spec =
  vs_venue :: venue
  vs_mic :: string
  vs_calendar_code :: string
  vs_timezone :: string
  vs_currency :: string
  vs_ib_exchange :: string
  vs_premarket_start :: "(int \<times> int) option"
  vs_postmarket_end :: "(int \<times> int) option"
  vs_regular_close_local :: "int \<times> int"
  vs_liquidity_floor_mult :: rat
  vs_spread_cap_mult :: rat

fun VENUE_SPECS :: "venue \<Rightarrow> venue_spec" where
  "VENUE_SPECS US =
     \<lparr>vs_venue = US, vs_mic = ''XNYS'', vs_calendar_code = ''XNYS'',
      vs_timezone = ''America/New_York'', vs_currency = ''USD'', vs_ib_exchange = ''SMART'',
      vs_premarket_start = Some (4, 0), vs_postmarket_end = Some (20, 0),
      vs_regular_close_local = (16, 0), vs_liquidity_floor_mult = 1, vs_spread_cap_mult = 1\<rparr>"
| "VENUE_SPECS AU =
     \<lparr>vs_venue = AU, vs_mic = ''XASX'', vs_calendar_code = ''XASX'',
      vs_timezone = ''Australia/Sydney'', vs_currency = ''AUD'', vs_ib_exchange = ''SMART'',
      vs_premarket_start = Some (7, 0), vs_postmarket_end = Some (16, 10),
      vs_regular_close_local = (16, 0), vs_liquidity_floor_mult = fl (2 / 10), vs_spread_cap_mult = 2\<rparr>"

section \<open>Parsing and resolving a venue\<close>

definition Venue_of :: "string \<Rightarrow> venue option" where
  "Venue_of t = (if t = ''US'' then Some US else if t = ''AU'' then Some AU else None)"

definition parse_venue :: "string option \<Rightarrow> venue option py" where
  "parse_venue v =
     (case v of
        None \<Rightarrow> Inr None
      | Some s \<Rightarrow>
          (let text = upper (strip s)
           in if text = [] then Inr None
              else case Venue_of text of
                Some w \<Rightarrow> Inr (Some w)
              | None \<Rightarrow> Inl (ValueError (''unknown_venue:'' @ s))))"

definition screen_spec :: "string option \<Rightarrow> venue_spec" where
  "screen_spec v =
     (case parse_venue v of
        Inr (Some w) \<Rightarrow> VENUE_SPECS w
      | Inr None \<Rightarrow> VENUE_SPECS US
      | Inl _ \<Rightarrow> VENUE_SPECS US)"

definition venue_liquidity_floor :: "string option \<Rightarrow> rat \<Rightarrow> rat" where
  "venue_liquidity_floor v base = fmul base (vs_liquidity_floor_mult (screen_spec v))"

definition venue_spread_cap :: "string option \<Rightarrow> rat \<Rightarrow> rat" where
  "venue_spread_cap v base = fmul base (vs_spread_cap_mult (screen_spec v))"

definition CALENDAR_TO_VENUE :: "(string \<times> venue) list" where
  "CALENDAR_TO_VENUE =
     [(''NYSE'', US), (''NASDAQ'', US), (''XNYS'', US), (''XNAS'', US), (''ASX'', AU), (''XASX'', AU)]"

definition get_venue_spec :: "string option \<Rightarrow> venue_spec py" where
  "get_venue_spec v =
     py_bind (parse_venue v)
       (\<lambda>w. case w of None \<Rightarrow> Inl (ValueError ''venue_required'') | Some u \<Rightarrow> Inr (VENUE_SPECS u))"

definition resolve_venue :: "settings \<Rightarrow> string option \<Rightarrow> venue py" where
  "resolve_venue cfg v =
     py_bind (parse_venue v) (\<lambda>explicit. case explicit of
        Some w \<Rightarrow> Inr w
      | None \<Rightarrow>
          py_bind (parse_venue (if cfg_primary_venue cfg = [] then None else Some (cfg_primary_venue cfg)))
            (\<lambda>primary. case primary of
               Some w \<Rightarrow> Inr w
             | None \<Rightarrow>
                 (let cal = upper (if cfg_market_calendar cfg = [] then ''NYSE'' else cfg_market_calendar cfg)
                  in Inr (case dget CALENDAR_TO_VENUE cal of Some w \<Rightarrow> w | None \<Rightarrow> US))))"

definition resolve_venue_spec :: "settings \<Rightarrow> string option \<Rightarrow> venue_spec py" where
  "resolve_venue_spec cfg v =
     py_bind (resolve_venue cfg v) (\<lambda>w. get_venue_spec (Some (venue_value w)))"

fun uniq_pairs :: "'a list \<Rightarrow> 'a list \<Rightarrow> 'a list" where
  "uniq_pairs seen [] = []"
| "uniq_pairs seen (p # ps) =
     (if p \<in> set seen then uniq_pairs seen ps else p # uniq_pairs (p # seen) ps)"

definition ib_qualify_candidates :: "settings \<Rightarrow> string option \<Rightarrow> (string \<times> string) list py" where
  "ib_qualify_candidates cfg v =
     py_bind (resolve_venue_spec cfg v) (\<lambda>preferred.
       (let ordered =
          (if vs_venue preferred = AU
           then [(vs_ib_exchange preferred, vs_currency preferred), (''ASX'', ''AUD''), (''SMART'', ''AUD'')]
           else [(vs_ib_exchange preferred, vs_currency preferred),
                 (upper (if cfg_ibkr_default_exchange cfg = [] then ''SMART'' else cfg_ibkr_default_exchange cfg),
                  upper (if cfg_ibkr_default_currency cfg = [] then ''USD'' else cfg_ibkr_default_currency cfg)),
                 (''SMART'', ''USD'')])
        in Inr (uniq_pairs [] ordered)))"

fun enabled_loop :: "venue list \<Rightarrow> string list \<Rightarrow> venue list" where
  "enabled_loop out [] = out"
| "enabled_loop out (item # items) =
     (case parse_venue (Some item) of
        Inl _ \<Rightarrow> enabled_loop out items
      | Inr None \<Rightarrow> enabled_loop out items
      | Inr (Some v) \<Rightarrow> if v \<in> set out then enabled_loop out items else enabled_loop (out @ [v]) items)"

definition enabled_venues :: "settings \<Rightarrow> venue list py" where
  "enabled_venues cfg =
     (let out = enabled_loop [] (cfg_enabled_venues cfg)
      in if out = [] then py_bind (resolve_venue cfg None) (\<lambda>v. Inr [v]) else Inr out)"

definition run_calendar_name :: "string option \<Rightarrow> settings \<Rightarrow> string py" where
  "run_calendar_name v cfg =
     py_bind (parse_venue v) (\<lambda>w.
       if (case w of None \<Rightarrow> US | Some u \<Rightarrow> u) = AU then Inr ''ASX''
       else Inr (upper (if cfg_market_calendar cfg = [] then ''NYSE'' else cfg_market_calendar cfg)))"

definition venue_for_calendar_name :: "string option \<Rightarrow> venue" where
  "venue_for_calendar_name c =
     (let cal = upper (strip (or_str c []))
      in case dget CALENDAR_TO_VENUE cal of Some w \<Rightarrow> w | None \<Rightarrow> US)"

section \<open>Scoped job keys\<close>

definition scoped_job_key :: "venue \<Rightarrow> string \<Rightarrow> string" where
  "scoped_job_key v base0 =
     (let base = strip base0; pre = venue_value v @ '':''
      in if startswith base pre then base else pre @ base)"

definition parse_scoped_job_key :: "string \<Rightarrow> venue \<times> string" where
  "parse_scoped_job_key text =
     (case split_once (CHR '':'') text of
        Some (hd_part, rest) \<Rightarrow>
          (case Venue_of (upper hd_part) of Some v \<Rightarrow> (v, rest) | None \<Rightarrow> (US, text))
      | None \<Rightarrow> (US, text))"

definition job_key_base :: "string \<Rightarrow> string" where
  "job_key_base k = snd (parse_scoped_job_key k)"

section \<open>Allowlists and the venue of a symbol\<close>

definition allowlist_set :: "settings \<Rightarrow> string set" where
  "allowlist_set c = set (cfg_trade_allowlist c)"

definition allowlist_for_venue :: "settings \<Rightarrow> string option \<Rightarrow> string set py" where
  "allowlist_for_venue c v =
     py_bind (if truthy_str v then parse_venue v else py_bind (resolve_venue c None) (\<lambda>w. Inr (Some w)))
       (\<lambda>w. Inr (if w = Some AU then set (cfg_trade_allowlist_au c) else set (cfg_trade_allowlist c)))"

definition venue_for_symbol ::
  "settings \<Rightarrow> string \<Rightarrow> string option \<Rightarrow> string option \<Rightarrow> string option \<Rightarrow> venue py" where
  "venue_for_symbol cfg symbol exchange currency v =
     py_bind (parse_venue v) (\<lambda>explicit. case explicit of
        Some w \<Rightarrow> Inr w
      | None \<Rightarrow>
          (let ex = upper (or_str exchange []); ccy = upper (or_str currency [])
           in if ex \<in> {''ASX'', ''XASX''} \<or> ccy = ''AUD'' then Inr AU
              else if (ex \<in> {''NASDAQ'', ''NYSE'', ''ARCA'', ''AMEX'', ''BATS'', ''IEX''} \<or> ccy = ''USD'')
                      \<and> ex \<noteq> [] \<and> ex \<noteq> ''SMART'' then Inr US
              else (let sym = strip (upper symbol); au = set (cfg_trade_allowlist_au cfg);
                        us = set (cfg_trade_allowlist cfg)
                    in if sym \<noteq> [] \<and> sym \<in> au \<and> sym \<notin> us then Inr AU
                       else if sym \<noteq> [] \<and> sym \<in> us \<and> sym \<notin> au then Inr US
                       else resolve_venue cfg None)))"

fun union_allowlists :: "settings \<Rightarrow> venue list \<Rightarrow> string set" where
  "union_allowlists c [] = {}"
| "union_allowlists c (v # vs) =
     (if v = AU then set (cfg_trade_allowlist_au c) else set (cfg_trade_allowlist c)) \<union> union_allowlists c vs"

definition combined_entry_allowlist :: "settings \<Rightarrow> string set py" where
  "combined_entry_allowlist cfg =
     py_bind (enabled_venues cfg) (\<lambda>vs.
       (let out = union_allowlists cfg vs in Inr (if Set.is_empty out then allowlist_set cfg else out)))"

record book_position =
  bp_symbol :: "string option"
  bp_quantity :: "rat option"
  bp_qty :: "rat option"
  bp_market_value :: "rat option"
  bp_venue :: "string option"
  bp_exchange :: "string option"
  bp_currency :: "string option"

definition bp_amount :: "book_position \<Rightarrow> rat" where
  "bp_amount p = (case bp_quantity p of Some q \<Rightarrow> q | None \<Rightarrow> or_float (bp_qty p) 0)"

fun holdings_loop :: "settings \<Rightarrow> venue \<Rightarrow> string list \<Rightarrow> book_position list \<Rightarrow> string list py" where
  "holdings_loop cfg want out [] = Inr out"
| "holdings_loop cfg want out (p # ps) =
     (let symbol = upper (or_str (bp_symbol p) []); qty = bp_amount p
      in if symbol = [] \<or> \<bar>qty\<bar> < fl (1 / 10 ^ 12) then holdings_loop cfg want out ps
         else py_bind (venue_for_symbol cfg symbol
                        (if truthy_str (bp_exchange p) then bp_exchange p else None)
                        (if truthy_str (bp_currency p) then bp_currency p else None) (bp_venue p))
                (\<lambda>resolved. if resolved \<noteq> want \<or> symbol \<in> set out then holdings_loop cfg want out ps
                            else holdings_loop cfg want (out @ [symbol]) ps))"

definition holdings_for_venue :: "book_position list \<Rightarrow> string option \<Rightarrow> settings \<Rightarrow> string list py" where
  "holdings_for_venue ps v cfg =
     py_bind (parse_venue v) (\<lambda>w. holdings_loop cfg (case w of None \<Rightarrow> US | Some u \<Rightarrow> u) [] ps)"

definition news_relevant_to_venue :: "string list \<Rightarrow> venue \<Rightarrow> settings \<Rightarrow> string list \<Rightarrow> bool" where
  "news_relevant_to_venue news want cfg held =
     (let tagged = map upper (filter (\<lambda>s. s \<noteq> []) news)
      in if tagged = [] then True
         else (let allow = (if want = AU then cfg_trade_allowlist_au cfg else cfg_trade_allowlist cfg);
                   bench = (if want = AU
                            then upper (if cfg_primary_benchmark_au cfg = [] then ''VAS'' else cfg_primary_benchmark_au cfg)
                            else upper (if cfg_primary_benchmark cfg = [] then ''SPY'' else cfg_primary_benchmark cfg));
                   heldset = map upper (filter (\<lambda>s. s \<noteq> []) held)
               in list_ex (\<lambda>t. t \<in> set allow \<or> t = bench \<or> t \<in> set heldset) tagged))"

section \<open>Static FX\<close>

definition fx_pair :: "string \<Rightarrow> string" where
  "fx_pair k = strip (filter (\<lambda>c. c \<noteq> CHR ''/'' \<and> c \<noteq> CHR ''_'') (upper k))"

definition fx_piece :: "string \<Rightarrow> (string \<times> rat) option" where
  "fx_piece part =
     (let piece = strip part
      in if piece = [] then None
         else (let kv = (if CHR '':'' \<in> set piece then split_once (CHR '':'') piece
                         else split_once (CHR ''='') piece)
               in case kv of
                    None \<Rightarrow> None
                  | Some (k, r) \<Rightarrow>
                      (case parse_float r of
                         None \<Rightarrow> None
                       | Some rate \<Rightarrow>
                           if length (fx_pair k) = 6 \<and> rate > 0 then Some (fx_pair k, rate) else None)))"

fun fx_fill :: "(string \<times> rat) list \<Rightarrow> string list \<Rightarrow> (string \<times> rat) list" where
  "fx_fill out [] = out"
| "fx_fill out (p # ps) =
     (case fx_piece p of None \<Rightarrow> fx_fill out ps | Some (k, r) \<Rightarrow> fx_fill (dset out k r) ps)"

definition parse_fx_rates :: "string option \<Rightarrow> (string \<times> rat) list" where
  "parse_fx_rates raw =
     (case raw of
        None \<Rightarrow> []
      | Some t \<Rightarrow> (let text = strip t in if text = [] then [] else fx_fill [] (split_on (CHR '','') text)))"

definition fx_rate :: "(string \<times> rat) list \<Rightarrow> string \<Rightarrow> string \<Rightarrow> rat option" where
  "fx_rate rates from_ccy to_ccy =
     (let a = strip (upper from_ccy); b = strip (upper to_ccy)
      in if a = [] \<or> b = [] then None
         else if a = b then Some 1
         else (case dget rates (a @ b) of
                 Some direct \<Rightarrow>
                   if direct > 0 then Some direct
                   else (case dget rates (b @ a) of
                           Some inv_rate \<Rightarrow> if inv_rate > 0 then Some (fdiv 1 inv_rate) else None
                         | None \<Rightarrow> None)
               | None \<Rightarrow>
                   (case dget rates (b @ a) of
                      Some inv_rate \<Rightarrow> if inv_rate > 0 then Some (fdiv 1 inv_rate) else None
                    | None \<Rightarrow> None)))"

definition convert_amount :: "(string \<times> rat) list \<Rightarrow> rat \<Rightarrow> string \<Rightarrow> string \<Rightarrow> rat option" where
  "convert_amount rates amount from_ccy to_ccy =
     (case fx_rate rates from_ccy to_ccy of None \<Rightarrow> None | Some r \<Rightarrow> Some (fmul amount r))"

section \<open>Venue books\<close>

record book_bucket =
  bb_market_value :: rat
  bb_positions :: rat
  bb_weight_pct :: rat

definition empty_bucket :: book_bucket where
  "empty_bucket = \<lparr>bb_market_value = 0, bb_positions = 0, bb_weight_pct = 0\<rparr>"

definition add_to_bucket :: "book_bucket \<Rightarrow> rat \<Rightarrow> book_bucket" where
  "add_to_bucket b mv =
     b\<lparr>bb_market_value := fadd (bb_market_value b) mv, bb_positions := fadd (bb_positions b) 1\<rparr>"

fun books_loop ::
  "settings \<Rightarrow> (string \<times> book_bucket) list \<Rightarrow> book_position list \<Rightarrow> (string \<times> book_bucket) list py" where
  "books_loop cfg books [] = Inr books"
| "books_loop cfg books (p # ps) =
     (let symbol = upper (or_str (bp_symbol p) []); qty = bp_amount p
      in if symbol = [] \<or> \<bar>qty\<bar> < fl (1 / 10 ^ 12) then books_loop cfg books ps
         else (let mv = \<bar>or_float (bp_market_value p) 0\<bar>;
                   pick = (if truthy_str (bp_venue p) then Inr (or_str (bp_venue p) [])
                           else py_bind (venue_for_symbol cfg symbol
                                  (if truthy_str (bp_exchange p) then bp_exchange p else None)
                                  (if truthy_str (bp_currency p) then bp_currency p else None) None)
                                  (\<lambda>v. Inr (venue_value v)))
               in py_bind pick (\<lambda>key.
                    (let bucket = (case dget books key of Some b \<Rightarrow> b | None \<Rightarrow> empty_bucket)
                     in books_loop cfg (dset books key (add_to_bucket bucket mv)) ps))))"

definition summarize_venue_books ::
  "settings \<Rightarrow> book_position list \<Rightarrow> rat option \<Rightarrow> (string \<times> book_bucket) list py" where
  "summarize_venue_books cfg ps equity =
     py_bind (books_loop cfg [(''US'', empty_bucket), (''AU'', empty_bucket)] ps) (\<lambda>books.
       Inr (case equity of
              Some e \<Rightarrow>
                if e > 0
                then map (\<lambda>(k, b). (k, b\<lparr>bb_weight_pct := fmul (fdiv (bb_market_value b) e) 100\<rparr>)) books
                else books
            | None \<Rightarrow> books))"

section \<open>Paper relaxations of the data gates\<close>

definition paper_relaxed :: "settings \<Rightarrow> bool" where
  "paper_relaxed c \<longleftrightarrow>
     cfg_paper_relaxed_data_gates c \<and> cfg_trading_mode c = PAPER \<and> \<not> cfg_live_trading_enabled c"

definition paper_aggressive :: "settings \<Rightarrow> bool" where
  "paper_aggressive c \<longleftrightarrow>
     cfg_paper_aggressive_entries c \<and> cfg_trading_mode c = PAPER \<and> \<not> cfg_live_trading_enabled c"

definition SOFT_INDEX_REASON :: string where
  "SOFT_INDEX_REASON = ''missing_core_index_data''"

definition relax_fail_closed_reasons ::
  "string list \<Rightarrow> int \<Rightarrow> settings \<Rightarrow> string list \<times> string list" where
  "relax_fail_closed_reasons reasons quote_count c =
     (if \<not> paper_relaxed c \<or> reasons = [] \<or> quote_count \<le> 0 then (reasons, [])
      else if \<not> list_all (\<lambda>r. r = SOFT_INDEX_REASON \<or> startswith r ''quality_hard_fail:'') reasons
      then (reasons, [])
      else if SOFT_INDEX_REASON \<in> set reasons
      then (filter (\<lambda>r. r \<noteq> SOFT_INDEX_REASON) reasons, [''paper_relaxed:'' @ SOFT_INDEX_REASON])
      else (reasons, []))"


section \<open>Facts\<close>

lemma Venue_of_value [simp]: "Venue_of (venue_value v) = Some v"
  by (cases v) (auto simp: Venue_of_def)

lemma upper_venue_value [simp]: "upper (venue_value v) = venue_value v"
  by (cases v) (simp_all add: upper_def upper_char_def is_lower_ascii_def)

lemma strip_venue_value [simp]: "strip (venue_value v) = venue_value v"
  by (rule strip_fix; cases v) (simp_all add: is_space_def)

lemma parse_venue_value [simp]: "parse_venue (Some (venue_value v)) = Inr (Some v)"
proof -
  have "venue_value v \<noteq> []" by (cases v) auto
  then show ?thesis by (simp add: parse_venue_def Let_def)
qed

lemma split_once_prefix: "c \<notin> set p \<Longrightarrow> split_once c (p @ c # r) = Some (p, r)"
  by (simp add: split_once_def takeWhile_append dropWhile_append)

lemma venue_value_no_colon: "CHR '':'' \<notin> set (venue_value v)"
  by (cases v) auto

lemma parse_scoped_prefix: "parse_scoped_job_key (venue_value v @ CHR '':'' # r) = (v, r)"
  by (simp add: parse_scoped_job_key_def split_once_prefix venue_value_no_colon)

lemma scoped_job_key_shape: "\<exists>r. scoped_job_key v base = venue_value v @ CHR '':'' # r"
proof (cases "startswith (strip base) (venue_value v @ '':'')")
  case True
  then have "take (length (venue_value v @ '':'')) (strip base) = venue_value v @ '':''"
    by (simp add: startswith_def)
  then obtain r where "strip base = (venue_value v @ '':'') @ r"
    by (metis append_take_drop_id)
  then show ?thesis using True by (auto simp: scoped_job_key_def Let_def)
next
  case False
  then show ?thesis by (simp add: scoped_job_key_def Let_def)
qed

lemma strip_scoped_job_key: "strip (scoped_job_key v base) = scoped_job_key v base"
proof (cases "startswith (strip base) (venue_value v @ '':'')")
  case True
  then show ?thesis by (simp add: scoped_job_key_def Let_def)
next
  case False
  let ?k = "(venue_value v @ '':'') @ strip base"
  have h: "hd ?k = hd (venue_value v)" "\<not> is_space (hd (venue_value v))"
    by (cases v; simp add: is_space_def)+
  have "\<not> is_space (last ?k)"
    using strip_ends(2)[of base] by (cases "strip base = []") (auto simp: is_space_def)
  then have "strip ?k = ?k" using h by (intro strip_fix) auto
  then show ?thesis using False by (simp add: scoped_job_key_def Let_def)
qed

lemma scoped_job_key_idem: "scoped_job_key v (scoped_job_key v base) = scoped_job_key v base"
proof -
  obtain r where "scoped_job_key v base = (venue_value v @ '':'') @ r"
    using scoped_job_key_shape[of v base] by auto
  then have "startswith (scoped_job_key v base) (venue_value v @ '':'')"
    by (metis startswith_append)
  then show ?thesis by (subst scoped_job_key_def) (simp add: strip_scoped_job_key Let_def)
qed

lemma enabled_loop_inv:
  "distinct out \<Longrightarrow> distinct (enabled_loop out items) \<and> set out \<subseteq> set (enabled_loop out items)"
proof (induction items arbitrary: out)
  case (Cons item items)
  have step: "\<And>v. v \<notin> set out \<Longrightarrow>
      distinct (enabled_loop (out @ [v]) items) \<and> set (out @ [v]) \<subseteq> set (enabled_loop (out @ [v]) items)"
    using Cons by (intro Cons.IH) auto
  show ?case using Cons step by (fastforce split: sum.splits option.splits)
qed simp

lemma fx_piece_ok: "fx_piece p = Some (k, r) \<Longrightarrow> 0 < r \<and> length k = 6"
  by (auto simp: fx_piece_def Let_def split: if_splits option.splits)

lemma fx_fill_inv:
  assumes "dict_ok out" "\<forall>k r. dget out k = Some r \<longrightarrow> 0 < r \<and> length k = 6"
  shows "dict_ok (fx_fill out ps) \<and> (\<forall>k r. dget (fx_fill out ps) k = Some r \<longrightarrow> 0 < r \<and> length k = 6)"
  using assms
proof (induction ps arbitrary: out)
  case (Cons p ps)
  show ?case
  proof (cases "fx_piece p")
    case None
    then show ?thesis using Cons.IH[OF Cons.prems] by simp
  next
    case (Some kr)
    obtain k r where kr: "kr = (k, r)" by (cases kr)
    have pos: "\<forall>j q. dget (dset out k r) j = Some q \<longrightarrow> 0 < q \<and> length j = 6"
      using Cons.prems(2) fx_piece_ok[of p k r] Some kr by auto
    have "fx_fill out (p # ps) = fx_fill (dset out k r) ps" by (simp add: Some kr)
    then show ?thesis using Cons.IH[OF dict_ok_dset[OF Cons.prems(1)] pos] by metis
  qed
qed simp

lemma parse_fx_rates_cases: "parse_fx_rates raw = [] \<or> (\<exists>ps. parse_fx_rates raw = fx_fill [] ps)"
  by (cases raw) (simp add: parse_fx_rates_def, simp only: parse_fx_rates_def Let_def option.case, metis)

lemma parse_fx_rates_ok:
  "dict_ok (parse_fx_rates raw)"
  "\<forall>k r. dget (parse_fx_rates raw) k = Some r \<longrightarrow> 0 < r \<and> length k = 6"
proof -
  have empty: "dict_ok ([] :: (string \<times> rat) list)"
    "\<forall>k r. dget ([] :: (string \<times> rat) list) k = Some r \<longrightarrow> 0 < r \<and> length k = 6" by simp_all
  note inv = fx_fill_inv[OF empty]
  show "dict_ok (parse_fx_rates raw)" using parse_fx_rates_cases[of raw] inv empty by metis
  show "\<forall>k r. dget (parse_fx_rates raw) k = Some r \<longrightarrow> 0 < r \<and> length k = 6"
    using parse_fx_rates_cases[of raw] inv empty by metis
qed

lemma fx_rate_refl: "strip (upper a) \<noteq> [] \<Longrightarrow> fx_rate rates a a = Some 1"
  by (simp add: fx_rate_def Let_def)

lemma fx_rate_nonneg: "fx_rate rates a b = Some r \<Longrightarrow> 0 \<le> r"
  unfolding fx_rate_def Let_def fdiv_def
  by (auto intro!: fl_nonneg split: if_splits option.splits)

lemma relax_keeps_hard_reasons:
  "r \<in> set reasons \<Longrightarrow> r \<noteq> SOFT_INDEX_REASON \<Longrightarrow> r \<in> set (fst (relax_fail_closed_reasons reasons n c))"
  by (auto simp: relax_fail_closed_reasons_def)

lemma relax_live_unchanged:
  "cfg_live_trading_enabled c \<or> cfg_trading_mode c \<noteq> PAPER \<Longrightarrow>
   relax_fail_closed_reasons reasons n c = (reasons, [])"
  by (auto simp: relax_fail_closed_reasons_def paper_relaxed_def)

text \<open>
  Job keys keep the two books apart: whatever the base text, the scoped key parses back to
  the venue it was made for, and scoping it again changes nothing.
\<close>

theorem scoped_job_key_roundtrip:
  "fst (parse_scoped_job_key (scoped_job_key v base)) = v
   \<and> scoped_job_key v (scoped_job_key v base) = scoped_job_key v base
   \<and> scoped_job_key v base = venue_value v @ '':'' @ job_key_base (scoped_job_key v base)"
proof -
  obtain r where r: "scoped_job_key v base = venue_value v @ CHR '':'' # r"
    using scoped_job_key_shape by blast
  show ?thesis using scoped_job_key_idem[of v base] by (simp add: r parse_scoped_prefix job_key_base_def)
qed

end
