(* ===== verification/Risk_Engine.thy ===== *)
theory Risk_Engine
  imports Venues
begin

text \<open>
  \<open>app/risk/\<close>: the deterministic risk engine.  \<open>types.py\<close> gives the records, \<open>engine.py\<close> the
  sizing arithmetic and the pre-trade evaluation that collects one check per rule and turns
  the failed hard ones into vetoes, \<open>loss_streak.py\<close> the losing-run counter behind the
  cooldown.  A \<open>ValueError\<close> of the arithmetic is an \<open>Inl\<close>.  The call \<open>get_settings()\<close> inside
  \<open>venue_for_symbol\<close> is the argument \<open>cfg\<close>; the clock is the argument \<open>now\<close>.
\<close>

section \<open>Types\<close>

datatype VetoCode =
    DAILY_LOSS_LIMIT | MAX_DRAWDOWN | MAX_POSITION_PCT | MAX_SECTOR_PCT | MIN_CASH_PCT
  | MAX_GROSS_EXPOSURE | MAX_VENUE_GROSS_EXPOSURE | MAX_OPEN_POSITIONS
  | CONSECUTIVE_LOSSES_COOLDOWN | CONSECUTIVE_LOSSES_HALT | MISSING_STOP | EXCESSIVE_SLIPPAGE
  | INSUFFICIENT_VOLUME | EXCESSIVE_SPREAD | LOW_DATA_QUALITY | NON_LIVE_MARKET_PRICES
  | BROKER_DATA_MISMATCH | MARKET_SESSION_UNCLEAR | NOT_IN_ALLOWLIST | PENNY_STOCK
  | LEVERAGED_ETF | TRADING_HALTED | RISK_PER_TRADE | CURRENCY_MISMATCH

fun veto_value :: "VetoCode \<Rightarrow> string" where
  "veto_value DAILY_LOSS_LIMIT = ''daily_loss_limit''"
| "veto_value MAX_DRAWDOWN = ''max_drawdown''"
| "veto_value MAX_POSITION_PCT = ''max_position_pct''"
| "veto_value MAX_SECTOR_PCT = ''max_sector_pct''"
| "veto_value MIN_CASH_PCT = ''min_cash_pct''"
| "veto_value MAX_GROSS_EXPOSURE = ''max_gross_exposure''"
| "veto_value MAX_VENUE_GROSS_EXPOSURE = ''max_venue_gross_exposure''"
| "veto_value MAX_OPEN_POSITIONS = ''max_open_positions''"
| "veto_value CONSECUTIVE_LOSSES_COOLDOWN = ''consecutive_losses_cooldown''"
| "veto_value CONSECUTIVE_LOSSES_HALT = ''consecutive_losses_halt''"
| "veto_value MISSING_STOP = ''missing_stop_or_invalidation''"
| "veto_value EXCESSIVE_SLIPPAGE = ''excessive_slippage''"
| "veto_value INSUFFICIENT_VOLUME = ''insufficient_volume''"
| "veto_value EXCESSIVE_SPREAD = ''excessive_spread''"
| "veto_value LOW_DATA_QUALITY = ''low_data_quality''"
| "veto_value NON_LIVE_MARKET_PRICES = ''non_live_market_prices''"
| "veto_value BROKER_DATA_MISMATCH = ''broker_data_mismatch''"
| "veto_value MARKET_SESSION_UNCLEAR = ''market_session_unclear''"
| "veto_value NOT_IN_ALLOWLIST = ''not_in_allowlist''"
| "veto_value PENNY_STOCK = ''penny_stock''"
| "veto_value LEVERAGED_ETF = ''leveraged_etf''"
| "veto_value TRADING_HALTED = ''trading_halted''"
| "veto_value RISK_PER_TRADE = ''risk_per_trade_exceeded''"
| "veto_value CURRENCY_MISMATCH = ''currency_mismatch''"

record RiskLimits =
  lim_starting_cash :: rat
  lim_max_position_pct :: rat
  lim_max_sector_pct :: rat
  lim_max_gross_exposure_pct :: rat
  lim_max_venue_gross_pct :: rat
  lim_min_cash_pct :: rat
  lim_risk_per_trade_pct :: rat
  lim_daily_max_loss_pct :: rat
  lim_max_drawdown_pct :: rat
  lim_max_open_positions :: int
  lim_max_consecutive_losses :: int
  lim_cooldown_after_loss_minutes :: int
  lim_max_consecutive_losses_halt_day :: int
  lim_min_avg_daily_volume :: rat
  lim_max_bid_ask_spread_bps :: rat
  lim_min_data_quality_score :: rat
  lim_max_slippage_bps :: rat
  lim_penny_stock_max_price :: rat
  lim_allow_leveraged_etfs :: bool

record PositionRiskView =
  prv_symbol :: string
  prv_quantity :: rat
  prv_market_value :: rat
  prv_sector :: string
  prv_weight_pct :: rat
  prv_venue :: string
  prv_currency :: "string option"
  prv_con_id :: "int option"

record PortfolioRiskView =
  prt_equity :: rat
  prt_cash :: rat
  prt_cash_pct :: rat
  prt_gross_exposure_pct :: rat
  prt_positions :: "PositionRiskView list"
  prt_daily_pnl_pct :: rat
  prt_drawdown_pct :: rat
  prt_consecutive_losses :: int
  prt_trading_halted :: bool
  prt_cooldown_until :: "int option"
  prt_peak_equity :: "rat option"
  prt_base_currency :: string

record TradeIntent =
  ti_symbol :: string
  ti_side :: string
  ti_quantity :: rat
  ti_entry_price :: rat
  ti_stop_loss :: "rat option"
  ti_invalidation :: "string option"
  ti_expected_slippage_bps :: "rat option"
  ti_avg_daily_volume :: "rat option"
  ti_bid_ask_spread_bps :: "rat option"
  ti_atr :: "rat option"
  ti_sector :: string
  ti_is_leveraged_etf :: bool
  ti_idempotency_key :: "string option"
  ti_venue :: "string option"
  ti_currency :: "string option"

datatype detail = DFloat rat | DStr string

record CheckResult =
  chk_code :: string
  chk_passed :: bool
  chk_message :: string
  chk_hard :: bool
  chk_details :: "(string \<times> detail) list"

record SizingResult =
  siz_shares :: int
  siz_dollar_risk :: rat
  siz_stop_distance :: rat
  siz_position_notional :: rat
  siz_capped_by :: "string list"

record PreTradeRiskResult =
  ptr_approved :: bool
  ptr_halt_day :: bool
  ptr_checks :: "CheckResult list"
  ptr_hard_vetoes :: "string list"
  ptr_sizing :: "SizingResult option"
  ptr_adjusted_quantity :: "rat option"

record RiskEngine =
  eng_limits :: RiskLimits
  eng_fx_rates :: "(string \<times> rat) list"

definition veto_codes :: "CheckResult list \<Rightarrow> string list" where
  "veto_codes cs = map chk_code (filter (\<lambda>c. \<not> chk_passed c \<and> chk_hard c) cs)"

definition limits_from_settings :: "settings \<Rightarrow> RiskLimits" where
  "limits_from_settings cfg =
     \<lparr>lim_starting_cash = cfg_starting_cash cfg,
      lim_max_position_pct = cfg_max_position_pct cfg,
      lim_max_sector_pct = cfg_max_sector_pct cfg,
      lim_max_gross_exposure_pct = cfg_max_gross_exposure_pct cfg,
      lim_max_venue_gross_pct = cfg_max_venue_gross_pct cfg,
      lim_min_cash_pct = cfg_min_cash_pct cfg,
      lim_risk_per_trade_pct = cfg_risk_per_trade_pct cfg,
      lim_daily_max_loss_pct = cfg_daily_max_loss_pct cfg,
      lim_max_drawdown_pct = cfg_max_drawdown_pct cfg,
      lim_max_open_positions = cfg_max_open_positions cfg,
      lim_max_consecutive_losses = cfg_max_consecutive_losses cfg,
      lim_cooldown_after_loss_minutes = cfg_cooldown_after_loss_minutes cfg,
      lim_max_consecutive_losses_halt_day = cfg_max_consecutive_losses_halt_day cfg,
      lim_min_avg_daily_volume = cfg_min_avg_daily_volume cfg,
      lim_max_bid_ask_spread_bps = cfg_max_bid_ask_spread_bps cfg,
      lim_min_data_quality_score = cfg_min_data_quality_score cfg,
      lim_max_slippage_bps = cfg_max_slippage_bps cfg,
      lim_penny_stock_max_price = cfg_penny_stock_max_price cfg,
      lim_allow_leveraged_etfs = cfg_allow_leveraged_etfs cfg\<rparr>"

definition engine_from_settings :: "settings \<Rightarrow> RiskEngine" where
  "engine_from_settings cfg =
     \<lparr>eng_limits = limits_from_settings cfg, eng_fx_rates = parse_fx_rates (Some (cfg_fx_rates cfg))\<rparr>"

section \<open>Risk arithmetic\<close>

definition stop_distance :: "rat \<Rightarrow> rat \<Rightarrow> rat py" where
  "stop_distance entry stop =
     (if entry \<le> 0 then Inl (ValueError ''entry_price must be positive'')
      else (let distance = \<bar>fsub entry stop\<bar>
            in if distance \<le> 0 then Inl (ValueError ''stop_distance must be positive'') else Inr distance))"

definition drawdown_pct :: "rat \<Rightarrow> rat \<Rightarrow> rat" where
  "drawdown_pct peak equity =
     (if peak \<le> 0 then 0 else max 0 (fmul (fdiv (fsub peak equity) peak) 100))"

definition sector_exposure_pct :: "PositionRiskView list \<Rightarrow> rat \<Rightarrow> string \<Rightarrow> rat \<Rightarrow> rat" where
  "sector_exposure_pct ps equity sector extra =
     (if equity \<le> 0 then 0
      else (let current = fsum (map prv_market_value (filter (\<lambda>p. prv_sector p = sector) ps))
            in fmul (fdiv (fadd current extra) equity) 100))"

definition venue_or_us :: "string \<Rightarrow> string" where
  "venue_or_us v = upper (if v = [] then ''US'' else v)"

definition venue_exposure_pct :: "PositionRiskView list \<Rightarrow> rat \<Rightarrow> string \<Rightarrow> rat \<Rightarrow> rat" where
  "venue_exposure_pct ps equity v extra =
     (if equity \<le> 0 then 0
      else (let want = venue_or_us v;
                current = fsum (map (\<lambda>p. \<bar>prv_market_value p\<bar>)
                            (filter (\<lambda>p. venue_or_us (prv_venue p) = want) ps))
            in fmul (fdiv (fadd current extra) equity) 100))"

definition position_size ::
  "RiskLimits \<Rightarrow> rat \<Rightarrow> rat \<Rightarrow> rat \<Rightarrow> rat option \<Rightarrow> rat \<Rightarrow> rat \<Rightarrow> SizingResult py" where
  "position_size lm equity entry stop atr existing risk_mult =
     (if equity \<le> 0 \<or> entry \<le> 0
      then Inr \<lparr>siz_shares = 0, siz_dollar_risk = 0, siz_stop_distance = 0,
                siz_position_notional = 0, siz_capped_by = []\<rparr>
      else py_bind (stop_distance entry stop) (\<lambda>d0.
        (let distance = (case atr of Some a \<Rightarrow> if a > d0 then a else d0 | None \<Rightarrow> d0);
             dollar_risk = fmul (fmul equity (fdiv (lim_risk_per_trade_pct lm) 100)) (max 0 risk_mult);
             raw_shares = (if distance > 0 then ffloordiv dollar_risk distance else 0);
             max_position_value = fmul equity (fdiv (lim_max_position_pct lm) 100);
             remaining_room = max 0 (fsub max_position_value existing);
             max_shares_by_position = (if entry > 0 then ffloordiv remaining_room entry else 0);
             shares = min raw_shares max_shares_by_position
         in Inr \<lparr>siz_shares = shares, siz_dollar_risk = dollar_risk, siz_stop_distance = distance,
                 siz_position_notional = fmul (of_int shares) entry,
                 siz_capped_by = (if shares < raw_shares then [''max_position_pct''] else [])\<rparr>)))"

section \<open>Pre-trade evaluation\<close>

definition add_check :: "VetoCode \<Rightarrow> bool \<Rightarrow> string \<Rightarrow> (string \<times> detail) list \<Rightarrow> CheckResult" where
  "add_check code passed msg details =
     \<lparr>chk_code = veto_value code, chk_passed = passed, chk_message = msg, chk_hard = True,
      chk_details = details\<rparr>"

definition daily_loss_hit :: "RiskLimits \<Rightarrow> PortfolioRiskView \<Rightarrow> bool" where
  "daily_loss_hit lm p \<longleftrightarrow>
     \<bar>prt_daily_pnl_pct p\<bar> \<ge> lim_daily_max_loss_pct lm \<and> prt_daily_pnl_pct p < 0"

definition effective_drawdown :: "PortfolioRiskView \<Rightarrow> rat" where
  "effective_drawdown p =
     (case prt_peak_equity p of Some peak \<Rightarrow> drawdown_pct peak (prt_equity p) | None \<Rightarrow> prt_drawdown_pct p)"

definition loss_checks :: "RiskLimits \<Rightarrow> PortfolioRiskView \<Rightarrow> TradeIntent \<Rightarrow> int \<Rightarrow> CheckResult" where
  "loss_checks lm p t now =
     (if prt_consecutive_losses p \<ge> lim_max_consecutive_losses_halt_day lm
      then add_check CONSECUTIVE_LOSSES_HALT False
             (''Consecutive losses '' @ str_int (prt_consecutive_losses p) @ '' halt day trading'') []
      else if prt_consecutive_losses p \<ge> lim_max_consecutive_losses lm
      then (let in_cooldown = (case prt_cooldown_until p of Some c \<Rightarrow> now < c | None \<Rightarrow> False)
            in if in_cooldown \<and> ti_side t = ''buy''
               then add_check CONSECUTIVE_LOSSES_COOLDOWN False ''New buys blocked during loss cooldown'' []
               else add_check CONSECUTIVE_LOSSES_COOLDOWN True ''Cooldown cleared or non-buy side'' [])
      else add_check CONSECUTIVE_LOSSES_COOLDOWN True ''Consecutive losses OK'' [])"

definition portfolio_checks ::
  "RiskLimits \<Rightarrow> PortfolioRiskView \<Rightarrow> TradeIntent \<Rightarrow> int \<Rightarrow> CheckResult list" where
  "portfolio_checks lm p t now =
     (if prt_trading_halted p then [add_check TRADING_HALTED False ''Trading is halted'' []] else [])
     @ [if daily_loss_hit lm p
        then add_check DAILY_LOSS_LIMIT False
               (''Daily loss '' @ fmt_fixed 2 (prt_daily_pnl_pct p) @ ''% exceeds limit ''
                @ fmt_fixed 2 (lim_daily_max_loss_pct lm) @ ''%'')
               [(''daily_pnl_pct'', DFloat (prt_daily_pnl_pct p))]
        else add_check DAILY_LOSS_LIMIT True ''Daily loss within limit'' [],
        if effective_drawdown p \<ge> lim_max_drawdown_pct lm
        then add_check MAX_DRAWDOWN False
               (''Drawdown '' @ fmt_fixed 2 (effective_drawdown p) @ ''% exceeds max ''
                @ fmt_fixed 2 (lim_max_drawdown_pct lm) @ ''%'')
               [(''drawdown_pct'', DFloat (effective_drawdown p))]
        else add_check MAX_DRAWDOWN True ''Drawdown within limit''
               [(''drawdown_pct'', DFloat (effective_drawdown p))],
        loss_checks lm p t now]"

definition halt_day :: "RiskLimits \<Rightarrow> PortfolioRiskView \<Rightarrow> bool" where
  "halt_day lm p \<longleftrightarrow>
     prt_trading_halted p \<or> daily_loss_hit lm p
     \<or> effective_drawdown p \<ge> lim_max_drawdown_pct lm
     \<or> prt_consecutive_losses p \<ge> lim_max_consecutive_losses_halt_day lm"

definition data_checks :: "RiskLimits \<Rightarrow> rat \<Rightarrow> bool \<Rightarrow> bool \<Rightarrow> CheckResult list" where
  "data_checks lm dq session_clear consistent =
     [if dq < lim_min_data_quality_score lm
      then add_check LOW_DATA_QUALITY False
             (''Data quality '' @ fmt_fixed 2 dq @ '' below '' @ fmt_fixed 2 (lim_min_data_quality_score lm)) []
      else add_check LOW_DATA_QUALITY True ''Data quality OK'' [],
      add_check BROKER_DATA_MISMATCH consistent
        (if consistent then ''Broker data consistent'' else ''Broker data mismatch'') [],
      add_check MARKET_SESSION_UNCLEAR session_clear
        (if session_clear then ''Market session clear'' else ''Market session unclear'') []]"

definition has_stop :: "TradeIntent \<Rightarrow> bool" where
  "has_stop t \<longleftrightarrow>
     ti_stop_loss t \<noteq> None
     \<or> (case ti_invalidation t of Some s \<Rightarrow> s \<noteq> [] \<and> strip s \<noteq> [] | None \<Rightarrow> False)"

definition symbol_checks :: "RiskLimits \<Rightarrow> TradeIntent \<Rightarrow> string set \<Rightarrow> CheckResult list" where
  "symbol_checks lm t allowlist =
     (let symbol = upper (ti_symbol t)
      in [if ti_side t = ''buy''
          then add_check NOT_IN_ALLOWLIST (symbol \<in> upper ` allowlist) (symbol @ '' allowlist check'') []
          else add_check NOT_IN_ALLOWLIST True (symbol @ '' exit exempt from allowlist'') [],
          if ti_entry_price t < lim_penny_stock_max_price lm
          then add_check PENNY_STOCK False (symbol @ '' below penny stock threshold'') []
          else add_check PENNY_STOCK True ''Not a penny stock'' [],
          if ti_is_leveraged_etf t \<and> \<not> lim_allow_leveraged_etfs lm
          then add_check LEVERAGED_ETF False (symbol @ '' leveraged ETF blocked'') []
          else add_check LEVERAGED_ETF True ''Leveraged ETF policy OK'' [],
          if ti_side t = ''buy''
          then add_check MISSING_STOP (has_stop t)
                 (if has_stop t then ''Stop/invalidation present'' else ''Missing stop or invalidation'') []
          else add_check MISSING_STOP True ''Stop not required for non-buy'' []])"

definition tape_checks :: "RiskLimits \<Rightarrow> TradeIntent \<Rightarrow> CheckResult list" where
  "tape_checks lm t =
     (case ti_expected_slippage_bps t of
        Some s \<Rightarrow> [add_check EXCESSIVE_SLIPPAGE (s \<le> lim_max_slippage_bps lm)
                    (''Slippage '' @ str_float s @ '' bps'') []]
      | None \<Rightarrow> [])
     @ (case ti_avg_daily_volume t of
          Some adv \<Rightarrow>
            (let flr = venue_liquidity_floor (ti_venue t) (lim_min_avg_daily_volume lm)
             in [add_check INSUFFICIENT_VOLUME (adv \<ge> flr)
                   (''ADV '' @ str_float adv @ '' vs '' @ fmt_fixed 0 flr) []])
        | None \<Rightarrow> [])
     @ (case ti_bid_ask_spread_bps t of
          Some sp \<Rightarrow>
            (let cap = venue_spread_cap (ti_venue t) (lim_max_bid_ask_spread_bps lm)
             in [add_check EXCESSIVE_SPREAD (sp \<le> cap)
                   (''Spread '' @ str_float sp @ '' bps vs '' @ fmt_fixed 0 cap) []])
        | None \<Rightarrow> [])"

definition duplicate_checks :: "TradeIntent \<Rightarrow> string set option \<Rightarrow> CheckResult list" where
  "duplicate_checks t seen =
     (case (ti_idempotency_key t, seen) of
        (Some k, Some keys) \<Rightarrow>
          if k \<noteq> [] \<and> k \<in> keys
          then [\<lparr>chk_code = ''duplicate_idempotency_key'', chk_passed = False,
                 chk_message = ''Duplicate idempotency key'', chk_hard = True, chk_details = []\<rparr>]
          else []
      | _ \<Rightarrow> [])"

definition currency_checks :: "TradeIntent \<Rightarrow> string \<Rightarrow> string \<Rightarrow> rat option \<Rightarrow> CheckResult list" where
  "currency_checks t trade_ccy base_ccy rate =
     (if ti_side t = ''buy'' \<and> trade_ccy \<noteq> base_ccy
      then (case rate of
              None \<Rightarrow>
                [add_check CURRENCY_MISMATCH False
                   (''Trade currency '' @ trade_ccy @ '' != portfolio base '' @ base_ccy
                    @ ''; set FX_RATES (e.g. AUDUSD:0.65) or match account base ''
                    @ map char_of [226 :: int, 128, 148] @ '' fail closed'')
                   [(''trade_currency'', DStr trade_ccy), (''base_currency'', DStr base_ccy)]]
            | Some r \<Rightarrow>
                [add_check CURRENCY_MISMATCH True
                   (''FX '' @ trade_ccy @ ''->'' @ base_ccy @ '' rate='' @ fmt_fixed 6 r)
                   [(''trade_currency'', DStr trade_ccy), (''base_currency'', DStr base_ccy),
                    (''fx_rate'', DFloat r)]])
      else [])"

definition same_holding :: "string \<Rightarrow> string \<Rightarrow> PositionRiskView \<Rightarrow> bool" where
  "same_holding symbol v p \<longleftrightarrow> upper (prv_symbol p) = symbol \<and> venue_or_us (prv_venue p) = v"

definition existing_value :: "PortfolioRiskView \<Rightarrow> string \<Rightarrow> string \<Rightarrow> rat" where
  "existing_value p symbol v =
     (case find (same_holding symbol v) (prt_positions p) of Some h \<Rightarrow> prv_market_value h | None \<Rightarrow> 0)"

definition pct_of :: "rat \<Rightarrow> rat \<Rightarrow> rat" where
  "pct_of x equity = (if equity \<noteq> 0 then fmul (fdiv x equity) 100 else 0)"

definition concentration_checks ::
  "RiskLimits \<Rightarrow> PortfolioRiskView \<Rightarrow> TradeIntent \<Rightarrow> string \<Rightarrow> string \<Rightarrow> rat \<Rightarrow> rat \<Rightarrow> CheckResult list" where
  "concentration_checks lm p t symbol v existing notional =
     (let tol = fl (1 / 10 ^ 9); equity = prt_equity p;
          projected_weight = pct_of (fadd existing notional) equity;
          sector_pct = sector_exposure_pct (prt_positions p) equity (ti_sector t) notional;
          venue_pct = venue_exposure_pct (prt_positions p) equity v notional;
          projected_gross = fadd (prt_gross_exposure_pct p) (pct_of notional equity);
          cash_pct_after = pct_of (fsub (prt_cash p) notional) equity;
          is_new = (\<not> list_ex (same_holding symbol v) (prt_positions p));
          open_count = int (length (prt_positions p)) + (if is_new then 1 else 0)
      in [add_check MAX_POSITION_PCT (projected_weight \<le> fadd (lim_max_position_pct lm) tol)
            (''Projected position weight '' @ fmt_fixed 2 projected_weight @ ''%'')
            [(''projected_weight'', DFloat projected_weight)],
          add_check MAX_SECTOR_PCT (sector_pct \<le> fadd (lim_max_sector_pct lm) tol)
            (''Projected sector '' @ ti_sector t @ '' '' @ fmt_fixed 2 sector_pct @ ''%'')
            [(''sector_pct'', DFloat sector_pct)],
          add_check MAX_VENUE_GROSS_EXPOSURE (venue_pct \<le> fadd (lim_max_venue_gross_pct lm) tol)
            (''Projected venue '' @ v @ '' '' @ fmt_fixed 2 venue_pct @ ''%'')
            [(''venue_pct'', DFloat venue_pct)],
          add_check MAX_GROSS_EXPOSURE (projected_gross \<le> fadd (lim_max_gross_exposure_pct lm) tol)
            (''Projected gross '' @ fmt_fixed 2 projected_gross @ ''%'') [],
          add_check MIN_CASH_PCT (cash_pct_after \<ge> fsub (lim_min_cash_pct lm) tol)
            (''Projected cash '' @ fmt_fixed 2 cash_pct_after @ ''%'') [],
          add_check MAX_OPEN_POSITIONS (open_count \<le> lim_max_open_positions lm)
            (''Open positions would be '' @ str_int open_count) []])"

definition risk_per_trade_check :: "SizingResult \<Rightarrow> CheckResult" where
  "risk_per_trade_check s =
     (if siz_shares s \<le> 0
      then add_check RISK_PER_TRADE False ''Position size rounded to zero under risk limits'' []
      else add_check RISK_PER_TRADE True ''Risk per trade sizing OK'' [])"

definition trade_venue_of :: "settings \<Rightarrow> TradeIntent \<Rightarrow> string py" where
  "trade_venue_of cfg t =
     (let tv = upper (or_str (ti_venue t) [])
      in if tv \<noteq> [] then Inr tv
         else py_bind (venue_for_symbol cfg (upper (ti_symbol t)) None (ti_currency t) None)
                (\<lambda>w. Inr (venue_value w)))"

definition trade_currency_of :: "TradeIntent \<Rightarrow> string \<Rightarrow> string" where
  "trade_currency_of t v =
     (let venue_ccy = (case get_venue_spec (Some v) of Inr s \<Rightarrow> vs_currency s | Inl _ \<Rightarrow> ''USD'')
      in upper (or_str (ti_currency t) (if venue_ccy = [] then ''USD'' else venue_ccy)))"

definition to_base :: "rat option \<Rightarrow> string \<Rightarrow> string \<Rightarrow> rat \<Rightarrow> rat" where
  "to_base rate trade_ccy base_ccy x =
     (case rate of Some r \<Rightarrow> if trade_ccy \<noteq> base_ccy then fmul x r else x | None \<Rightarrow> x)"

definition can_size :: "TradeIntent \<Rightarrow> string \<Rightarrow> string \<Rightarrow> rat option \<Rightarrow> bool" where
  "can_size t trade_ccy base_ccy rate \<longleftrightarrow>
     ti_side t = ''buy'' \<and> ti_stop_loss t \<noteq> None \<and> (trade_ccy = base_ccy \<or> rate \<noteq> None)"

text \<open>The buy path: size, then the concentration checks; nothing when sizing is impossible.\<close>

definition sizing_stage ::
  "RiskLimits \<Rightarrow> PortfolioRiskView \<Rightarrow> TradeIntent \<Rightarrow> string \<Rightarrow> string \<Rightarrow> string \<Rightarrow> rat option
   \<Rightarrow> (CheckResult list \<times> SizingResult option \<times> rat) py" where
  "sizing_stage lm p t v trade_ccy base_ccy rate =
     (case ti_stop_loss t of
        Some stop \<Rightarrow>
          if can_size t trade_ccy base_ccy rate
          then (let conv = to_base rate trade_ccy base_ccy; symbol = upper (ti_symbol t);
                    entry_base = conv (ti_entry_price t);
                    existing = existing_value p symbol v
                in py_bind (position_size lm (prt_equity p) entry_base (conv stop)
                              (map_option conv (ti_atr t)) existing 1)
                     (\<lambda>s. (let adjusted = (if of_int (siz_shares s) < ti_quantity t
                                          then fl (of_int (siz_shares s)) else ti_quantity t);
                              notional = fmul adjusted entry_base
                          in Inr (risk_per_trade_check s
                                  # concentration_checks lm p t symbol v existing notional,
                                  Some s, adjusted))))
          else Inr ([], None, ti_quantity t)
      | None \<Rightarrow> Inr ([], None, ti_quantity t))"

definition evaluate_pretrade ::
  "settings \<Rightarrow> RiskEngine \<Rightarrow> PortfolioRiskView \<Rightarrow> TradeIntent \<Rightarrow> string set \<Rightarrow> rat \<Rightarrow> bool \<Rightarrow> bool
   \<Rightarrow> int \<Rightarrow> string set option \<Rightarrow> PreTradeRiskResult py" where
  "evaluate_pretrade cfg eng p t allowlist dq session_clear consistent now seen =
     (let lm = eng_limits eng;
          gates = portfolio_checks lm p t now @ data_checks lm dq session_clear consistent
                  @ symbol_checks lm t allowlist @ tape_checks lm t @ duplicate_checks t seen
      in py_bind (trade_venue_of cfg t) (\<lambda>v.
           (let trade_ccy = trade_currency_of t v;
                base_ccy = upper (if prt_base_currency p = [] then ''USD'' else prt_base_currency p);
                rate = fx_rate (eng_fx_rates eng) trade_ccy base_ccy
            in py_bind (sizing_stage lm p t v trade_ccy base_ccy rate) (\<lambda>(sized, sizing, adjusted).
                 (let checks = gates @ currency_checks t trade_ccy base_ccy rate @ sized;
                      vetoes = veto_codes checks;
                      approved = (vetoes = [] \<and> \<not> halt_day lm p)
                  in Inr \<lparr>ptr_approved = approved, ptr_halt_day = halt_day lm p,
                          ptr_checks = checks, ptr_hard_vetoes = vetoes, ptr_sizing = sizing,
                          ptr_adjusted_quantity = Some (if approved then adjusted else 0)\<rparr>)))))"

section \<open>Losing run\<close>

record LossStreak =
  ls_consecutive_losses :: int
  ls_cooldown_until :: "int option"
  ls_last_loss_at :: "int option"

fun streak_loop :: "int \<Rightarrow> int option \<Rightarrow> (int option \<times> rat option) list \<Rightarrow> int \<times> int option" where
  "streak_loop streak last_loss [] = (streak, last_loss)"
| "streak_loop streak last_loss ((closed_at, pnl) # rest) =
     (case pnl of
        None \<Rightarrow> streak_loop streak last_loss rest
      | Some x \<Rightarrow>
          if x > 0 then (streak, last_loss)
          else if x = 0 then streak_loop streak last_loss rest
          else streak_loop (streak + 1) (if last_loss = None then closed_at else last_loss) rest)"

definition loss_streak :: "(int option \<times> rat option) list \<Rightarrow> int \<Rightarrow> LossStreak" where
  "loss_streak closes cooldown_minutes =
     (let (streak, last_loss) = streak_loop 0 None closes
      in \<lparr>ls_consecutive_losses = streak,
          ls_cooldown_until =
            (case last_loss of
               Some t \<Rightarrow> if streak \<noteq> 0 \<and> cooldown_minutes > 0 then Some (t + minutes cooldown_minutes) else None
             | None \<Rightarrow> None),
          ls_last_loss_at = last_loss\<rparr>)"

section \<open>What the checks decide\<close>

lemma veto_codes_append [simp]: "veto_codes (xs @ ys) = veto_codes xs @ veto_codes ys"
  by (simp add: veto_codes_def)

lemma veto_codes_simps [simp]:
  "veto_codes [] = []"
  "veto_codes (c # cs) = (if \<not> chk_passed c \<and> chk_hard c then [chk_code c] else []) @ veto_codes cs"
  by (simp_all add: veto_codes_def)

lemma add_check_simps [simp]:
  "chk_passed (add_check c ok m d) = ok"
  "chk_hard (add_check c ok m d)"
  "chk_code (add_check c ok m d) = veto_value c"
  by (simp_all add: add_check_def)

lemma portfolio_checks_veto [gate_simps]:
  "veto_codes (portfolio_checks lm p t now) = [] \<longleftrightarrow>
     \<not> halt_day lm p
     \<and> \<not> (prt_consecutive_losses p \<ge> lim_max_consecutive_losses lm \<and> ti_side t = ''buy''
          \<and> (\<exists>c. prt_cooldown_until p = Some c \<and> now < c))"
  by (auto simp: portfolio_checks_def halt_day_def loss_checks_def Let_def split: option.splits)

lemma data_checks_veto [gate_simps]:
  "veto_codes (data_checks lm dq clear consistent) = [] \<longleftrightarrow>
     lim_min_data_quality_score lm \<le> dq \<and> consistent \<and> clear"
  by (auto simp: data_checks_def)

lemma symbol_checks_veto [gate_simps]:
  "veto_codes (symbol_checks lm t allowlist) = [] \<longleftrightarrow>
     (ti_side t = ''buy'' \<longrightarrow> upper (ti_symbol t) \<in> upper ` allowlist \<and> has_stop t)
     \<and> lim_penny_stock_max_price lm \<le> ti_entry_price t
     \<and> (ti_is_leveraged_etf t \<longrightarrow> lim_allow_leveraged_etfs lm)"
  by (auto simp: symbol_checks_def Let_def)

definition tape_ok :: "RiskLimits \<Rightarrow> TradeIntent \<Rightarrow> bool" where
  "tape_ok lm t \<longleftrightarrow>
     (\<forall>s. ti_expected_slippage_bps t = Some s \<longrightarrow> s \<le> lim_max_slippage_bps lm)
     \<and> (\<forall>a. ti_avg_daily_volume t = Some a \<longrightarrow> venue_liquidity_floor (ti_venue t) (lim_min_avg_daily_volume lm) \<le> a)
     \<and> (\<forall>b. ti_bid_ask_spread_bps t = Some b \<longrightarrow> b \<le> venue_spread_cap (ti_venue t) (lim_max_bid_ask_spread_bps lm))"

lemma tape_checks_veto [gate_simps]: "veto_codes (tape_checks lm t) = [] \<longleftrightarrow> tape_ok lm t"
  by (auto simp: tape_checks_def tape_ok_def Let_def split: option.splits)

definition fresh_key :: "TradeIntent \<Rightarrow> string set option \<Rightarrow> bool" where
  "fresh_key t seen \<longleftrightarrow>
     (case (ti_idempotency_key t, seen) of (Some k, Some ks) \<Rightarrow> k = [] \<or> k \<notin> ks | _ \<Rightarrow> True)"

lemma duplicate_checks_veto [gate_simps]: "veto_codes (duplicate_checks t seen) = [] \<longleftrightarrow> fresh_key t seen"
  by (auto simp: duplicate_checks_def fresh_key_def split: option.splits)

lemma currency_checks_veto [gate_simps]:
  "veto_codes (currency_checks t tc bc rate) = [] \<longleftrightarrow> (ti_side t = ''buy'' \<longrightarrow> tc = bc \<or> rate \<noteq> None)"
  by (auto simp: currency_checks_def split: option.splits)

text \<open>What a buy of value \<open>notional\<close> must respect on the book of \<open>p\<close>.\<close>

definition within_limits ::
  "RiskLimits \<Rightarrow> PortfolioRiskView \<Rightarrow> TradeIntent \<Rightarrow> string \<Rightarrow> rat \<Rightarrow> bool" where
  "within_limits lm p t v notional \<longleftrightarrow>
     (let tol = fl (1 / 10 ^ 9); symbol = upper (ti_symbol t)
      in pct_of (fadd (existing_value p symbol v) notional) (prt_equity p) \<le> fadd (lim_max_position_pct lm) tol
         \<and> sector_exposure_pct (prt_positions p) (prt_equity p) (ti_sector t) notional
             \<le> fadd (lim_max_sector_pct lm) tol
         \<and> venue_exposure_pct (prt_positions p) (prt_equity p) v notional
             \<le> fadd (lim_max_venue_gross_pct lm) tol
         \<and> fadd (prt_gross_exposure_pct p) (pct_of notional (prt_equity p))
             \<le> fadd (lim_max_gross_exposure_pct lm) tol
         \<and> fsub (lim_min_cash_pct lm) tol \<le> pct_of (fsub (prt_cash p) notional) (prt_equity p)
         \<and> int (length (prt_positions p))
             + (if list_ex (same_holding symbol v) (prt_positions p) then 0 else 1)
             \<le> lim_max_open_positions lm)"

lemma concentration_checks_veto [gate_simps]:
  "veto_codes (concentration_checks lm p t (upper (ti_symbol t)) v
       (existing_value p (upper (ti_symbol t)) v) notional) = []
   \<longleftrightarrow> within_limits lm p t v notional"
  by (auto simp: concentration_checks_def within_limits_def Let_def)

lemma risk_per_trade_veto [simp]: 
  "chk_passed (risk_per_trade_check s) \<longleftrightarrow> 0 < siz_shares s"
  "chk_hard (risk_per_trade_check s)"
  by (auto simp: risk_per_trade_check_def)

definition gates_ok ::
  "RiskLimits \<Rightarrow> PortfolioRiskView \<Rightarrow> TradeIntent \<Rightarrow> rat \<Rightarrow> bool \<Rightarrow> bool \<Rightarrow> string set option \<Rightarrow> bool" where
  "gates_ok lm p t dq clear consistent seen \<longleftrightarrow>
     \<not> halt_day lm p \<and> lim_min_data_quality_score lm \<le> dq \<and> consistent \<and> clear
     \<and> lim_penny_stock_max_price lm \<le> ti_entry_price t
     \<and> (ti_is_leveraged_etf t \<longrightarrow> lim_allow_leveraged_etfs lm) \<and> tape_ok lm t \<and> fresh_key t seen"

definition buy_gates_ok ::
  "RiskLimits \<Rightarrow> PortfolioRiskView \<Rightarrow> TradeIntent \<Rightarrow> string set \<Rightarrow> int \<Rightarrow> bool" where
  "buy_gates_ok lm p t allowlist now \<longleftrightarrow>
     upper (ti_symbol t) \<in> upper ` allowlist \<and> has_stop t
     \<and> (lim_max_consecutive_losses lm \<le> prt_consecutive_losses p
          \<longrightarrow> (case prt_cooldown_until p of None \<Rightarrow> True | Some c \<Rightarrow> c \<le> now))"

definition base_currency_of :: "PortfolioRiskView \<Rightarrow> string" where
  "base_currency_of p = upper (if prt_base_currency p = [] then ''USD'' else prt_base_currency p)"

text \<open>Buys: the exact condition of approval of a buy with a stop, and the quantity approved.\<close>

definition sized_quantity :: "TradeIntent \<Rightarrow> SizingResult \<Rightarrow> rat" where
  "sized_quantity t s =
     (if of_int (siz_shares s) < ti_quantity t then fl (of_int (siz_shares s)) else ti_quantity t)"

definition buy_sizing ::
  "RiskEngine \<Rightarrow> PortfolioRiskView \<Rightarrow> TradeIntent \<Rightarrow> string \<Rightarrow> rat \<Rightarrow> SizingResult py" where
  "buy_sizing eng p t v stop =
     (let tc = trade_currency_of t v; bc = base_currency_of p;
          conv = to_base (fx_rate (eng_fx_rates eng) tc bc) tc bc
      in position_size (eng_limits eng) (prt_equity p) (conv (ti_entry_price t)) (conv stop)
           (map_option conv (ti_atr t)) (existing_value p (upper (ti_symbol t)) v) 1)"

definition base_notional :: "RiskEngine \<Rightarrow> PortfolioRiskView \<Rightarrow> TradeIntent \<Rightarrow> string \<Rightarrow> rat \<Rightarrow> rat" where
  "base_notional eng p t v q =
     (let tc = trade_currency_of t v; bc = base_currency_of p
      in fmul q (to_base (fx_rate (eng_fx_rates eng) tc bc) tc bc (ti_entry_price t)))"

definition convertible :: "RiskEngine \<Rightarrow> PortfolioRiskView \<Rightarrow> TradeIntent \<Rightarrow> string \<Rightarrow> bool" where
  "convertible eng p t v \<longleftrightarrow>
     trade_currency_of t v = base_currency_of p
     \<or> fx_rate (eng_fx_rates eng) (trade_currency_of t v) (base_currency_of p) \<noteq> None"

lemma sizing_stage_buy:
  assumes "ti_side t = ''buy''" "ti_stop_loss t = Some stop" "convertible eng p t v"
  shows "sizing_stage (eng_limits eng) p t v (trade_currency_of t v) (base_currency_of p)
           (fx_rate (eng_fx_rates eng) (trade_currency_of t v) (base_currency_of p)) =
         py_bind (buy_sizing eng p t v stop) (\<lambda>s.
           Inr (risk_per_trade_check s # concentration_checks (eng_limits eng) p t (upper (ti_symbol t)) v
                  (existing_value p (upper (ti_symbol t)) v) (base_notional eng p t v (sized_quantity t s)),
                Some s, sized_quantity t s))"
  using assms
  by (simp add: sizing_stage_def can_size_def convertible_def buy_sizing_def sized_quantity_def
      base_notional_def Let_def)

lemma sizing_stage_skip:
  assumes "\<not> can_size t tc bc rate"
  shows "sizing_stage lm p t v tc bc rate = Inr ([], None, ti_quantity t)"
  using assms by (simp add: sizing_stage_def split: option.splits)

lemma evaluate_pretrade_eq:
  assumes v: "trade_venue_of cfg t = Inr v"
    and st: "sizing_stage (eng_limits eng) p t v (trade_currency_of t v) (base_currency_of p)
       (fx_rate (eng_fx_rates eng) (trade_currency_of t v) (base_currency_of p)) = Inr (cs, sz, q)"
  shows "\<exists>r. evaluate_pretrade cfg eng p t allowlist dq clear consistent now seen = Inr r
     \<and> ptr_sizing r = sz \<and> ptr_adjusted_quantity r = Some (if ptr_approved r then q else 0)
     \<and> (ptr_approved r \<longleftrightarrow>
         gates_ok (eng_limits eng) p t dq clear consistent seen
         \<and> (ti_side t = ''buy'' \<longrightarrow> buy_gates_ok (eng_limits eng) p t allowlist now \<and> convertible eng p t v)
         \<and> veto_codes cs = [])"
  unfolding evaluate_pretrade_def Let_def v py_bind_simps base_currency_of_def[symmetric] st prod.case
  by (simp add: gate_simps gates_ok_def buy_gates_ok_def convertible_def not_less)
     (auto split: option.splits)

text \<open>
  Property C1.  A buy with a stop is approved, for quantity \<open>q\<close>, exactly when no portfolio, data, symbol,
  tape or duplicate gate fails, the symbol is on the allowlist outside a loss cooldown, the
  trade currency converts to the base currency, the sizing arithmetic gives a positive share
  count, \<open>q\<close> is the requested quantity capped by that count, and the book with \<open>q\<close> added stays
  within the position, sector, venue, gross, cash and position-count limits.
\<close>

theorem buy_approval:
  assumes buy: "ti_side t = ''buy''" "ti_stop_loss t = Some stop" and v: "trade_venue_of cfg t = Inr v"
  shows "(\<exists>r. evaluate_pretrade cfg eng p t allowlist dq clear consistent now seen = Inr r
            \<and> ptr_approved r \<and> ptr_sizing r = Some s \<and> ptr_adjusted_quantity r = Some q) \<longleftrightarrow>
         gates_ok (eng_limits eng) p t dq clear consistent seen
         \<and> buy_gates_ok (eng_limits eng) p t allowlist now \<and> convertible eng p t v
         \<and> buy_sizing eng p t v stop = Inr s \<and> 0 < siz_shares s \<and> q = sized_quantity t s
         \<and> within_limits (eng_limits eng) p t v (base_notional eng p t v q)"
proof (cases "convertible eng p t v")
  case True
  note st = sizing_stage_buy[OF buy True]
  show ?thesis
  proof (cases "buy_sizing eng p t v stop")
    case (Inl e)
    then have "sizing_stage (eng_limits eng) p t v (trade_currency_of t v) (base_currency_of p)
       (fx_rate (eng_fx_rates eng) (trade_currency_of t v) (base_currency_of p)) = Inl e" by (simp add: st)
    then show ?thesis using Inl
      by (simp add: evaluate_pretrade_def Let_def v base_currency_of_def)
  next
    case (Inr s')
    note st' = st[unfolded Inr py_bind_simps]
    have chk: "veto_codes (risk_per_trade_check s' # concentration_checks (eng_limits eng) p t (upper (ti_symbol t)) v
        (existing_value p (upper (ti_symbol t)) v) (base_notional eng p t v (sized_quantity t s'))) = [] \<longleftrightarrow>
        0 < siz_shares s' \<and> within_limits (eng_limits eng) p t v (base_notional eng p t v (sized_quantity t s'))"
      by (simp add: gate_simps)
    obtain r where "evaluate_pretrade cfg eng p t allowlist dq clear consistent now seen = Inr r"
      "ptr_sizing r = Some s'"
      "ptr_adjusted_quantity r = Some (if ptr_approved r then sized_quantity t s' else 0)"
      "ptr_approved r \<longleftrightarrow> gates_ok (eng_limits eng) p t dq clear consistent seen
         \<and> buy_gates_ok (eng_limits eng) p t allowlist now \<and> 0 < siz_shares s'
         \<and> within_limits (eng_limits eng) p t v (base_notional eng p t v (sized_quantity t s'))"
      using evaluate_pretrade_eq[OF v st', where allowlist = allowlist and dq = dq and clear = clear
          and consistent = consistent and now = now and seen = seen, unfolded chk] buy True
      by blast
    then show ?thesis using Inr True by auto
  qed
next
  case False
  then have "\<not> can_size t (trade_currency_of t v) (base_currency_of p)
      (fx_rate (eng_fx_rates eng) (trade_currency_of t v) (base_currency_of p))"
    by (simp add: can_size_def convertible_def)
  from evaluate_pretrade_eq[OF v sizing_stage_skip[OF this]] show ?thesis
    using False buy by (metis Inr_inject)
qed

text \<open>
  An exit (any side but buy) always gets a verdict, never an exception, and is approved
  for its full quantity exactly when the common gates pass: the allowlist, the stop, the
  currency and the concentration limits never hold back a reduction.
\<close>

theorem exit_approval:
  assumes side: "ti_side t \<noteq> ''buy''" and v: "trade_venue_of cfg t = Inr v"
  shows "\<exists>r. evaluate_pretrade cfg eng p t allowlist dq clear consistent now seen = Inr r
     \<and> (ptr_approved r \<longleftrightarrow> gates_ok (eng_limits eng) p t dq clear consistent seen)
     \<and> ptr_adjusted_quantity r = Some (if ptr_approved r then ti_quantity t else 0)"
proof -
  have "\<not> can_size t (trade_currency_of t v) (base_currency_of p)
      (fx_rate (eng_fx_rates eng) (trade_currency_of t v) (base_currency_of p))"
    using side by (simp add: can_size_def)
  from evaluate_pretrade_eq[OF v sizing_stage_skip[OF this]] show ?thesis using side unfolding veto_codes_simps by blast
qed

text \<open>
  A verdict approves a trade exactly when its list of hard vetoes is empty, the vetoes are
  the codes of the failed checks, a halted day always leaves a veto, and a vetoed trade is
  adjusted to quantity zero.
\<close>

theorem evaluate_pretrade_verdict:
  assumes "evaluate_pretrade cfg eng p t allowlist dq clear consistent now seen = Inr r"
  shows "(ptr_approved r \<longleftrightarrow> ptr_hard_vetoes r = [])
    \<and> ptr_hard_vetoes r = veto_codes (ptr_checks r)
    \<and> (ptr_halt_day r \<longrightarrow> ptr_hard_vetoes r \<noteq> [])
    \<and> (ptr_hard_vetoes r \<noteq> [] \<longrightarrow> ptr_adjusted_quantity r = Some 0)"
  using assms
  by (auto simp: evaluate_pretrade_def Let_def py_bind_Inr_iff gate_simps split: prod.splits)

lemma sized_quantity_le:
  assumes "is_double (ti_quantity t)"
  shows "sized_quantity t s \<le> ti_quantity t" "sized_quantity t s \<le> fl (of_int (siz_shares s))"
  using assms fl_mono[of "of_int (siz_shares s)" "ti_quantity t"] fl_mono[of "ti_quantity t" "of_int (siz_shares s)"]
  by (auto simp: sized_quantity_def is_double_def split: if_splits)

text \<open>
  The whole-share count of \<open>position_size\<close> is never negative, never risks more than the
  dollar risk at the stop distance used, and never exceeds the room left under the maximum
  position weight, over the reals and not only up to rounding, for prices above the smallest
  normal double and share counts below 2 to the 48.
\<close>

theorem position_size_bounds:
  assumes ps: "position_size lm equity entry stop atr existing risk_mult = Inr s"
    and eq: "0 < equity" and en: "pow2 (- 1022) \<le> entry" and d: "pow2 (- 1022) \<le> siz_stop_distance s"
    and b1: "siz_dollar_risk s / siz_stop_distance s < 2 ^ 48"
    and b2: "max 0 (fsub (fmul equity (fdiv (lim_max_position_pct lm) 100)) existing) / entry < 2 ^ 48"
    and pct: "0 \<le> lim_risk_per_trade_pct lm"
  shows "0 \<le> siz_shares s
    \<and> of_int (siz_shares s) * siz_stop_distance s \<le> siz_dollar_risk s
    \<and> of_int (siz_shares s) * entry \<le> max 0 (fsub (fmul equity (fdiv (lim_max_position_pct lm) 100)) existing)"
proof -
  let ?room = "max 0 (fsub (fmul equity (fdiv (lim_max_position_pct lm) 100)) existing)"
  have epos: "0 < entry" using en pow2_pos[of "- 1022"] by linarith
  have dpos: "0 < siz_stop_distance s" using d pow2_pos[of "- 1022"] by linarith
  have sh: "siz_shares s = min (ffloordiv (siz_dollar_risk s) (siz_stop_distance s)) (ffloordiv ?room entry)"
    and risk: "siz_dollar_risk s = fmul (fmul equity (fdiv (lim_risk_per_trade_pct lm) 100)) (max 0 risk_mult)"
    using ps eq epos dpos by (auto simp: position_size_def py_bind_Inr_iff Let_def)
  have "0 \<le> siz_dollar_risk s"
    using eq pct by (auto simp: risk fmul_def fdiv_def intro!: fl_nonneg mult_nonneg_nonneg)
  then have f1: "ffloordiv (siz_dollar_risk s) (siz_stop_distance s) = \<lfloor>siz_dollar_risk s / siz_stop_distance s\<rfloor>"
    and f0: "0 \<le> siz_dollar_risk s / siz_stop_distance s"
    using ffloordiv_exact d b1 dpos by auto
  have f2: "ffloordiv ?room entry = \<lfloor>?room / entry\<rfloor>"
    by (rule ffloordiv_exact) (use en b2 in auto)
  have nn: "0 \<le> siz_shares s" using f0 epos by (simp add: sh f1 f2)
  have "of_int (siz_shares s) \<le> siz_dollar_risk s / siz_stop_distance s"
    unfolding sh f1 by (metis min.cobounded1 le_floor_iff)
  then have risk_ok: "of_int (siz_shares s) * siz_stop_distance s \<le> siz_dollar_risk s"
    using dpos by (simp add: pos_le_divide_eq)
  have "of_int (siz_shares s) \<le> ?room / entry"
    unfolding sh f2 by (metis min.cobounded2 le_floor_iff)
  then have "of_int (siz_shares s) * entry \<le> ?room"
    using epos by (simp only: pos_le_divide_eq)
  with nn risk_ok show ?thesis by blast
qed

lemma position_size_raises:
  "position_size lm equity entry stop atr existing m = Inl e \<longleftrightarrow>
     0 < equity \<and> 0 < entry \<and> fsub entry stop = 0 \<and> e = ValueError ''stop_distance must be positive''"
  by (auto simp: position_size_def stop_distance_def py_bind_def Let_def)

text \<open>
  Once the venue is known, an evaluation raises an exception in one case only: a sizeable
  buy on a book with equity whose stop coincides, in floats, with its entry price.
\<close>

theorem evaluate_pretrade_raises:
  assumes "trade_venue_of cfg t = Inr v"
  shows "(\<exists>e. evaluate_pretrade cfg eng p t allowlist dq clear consistent now seen = Inl e) \<longleftrightarrow>
     (let tc = trade_currency_of t v; bc = base_currency_of p; rate = fx_rate (eng_fx_rates eng) tc bc
      in can_size t tc bc rate \<and> 0 < prt_equity p \<and> 0 < to_base rate tc bc (ti_entry_price t)
         \<and> fsub (to_base rate tc bc (ti_entry_price t)) (to_base rate tc bc (the (ti_stop_loss t))) = 0)"
proof -
  let ?tc = "trade_currency_of t v" and ?bc = "base_currency_of p"
  let ?rate = "fx_rate (eng_fx_rates eng) ?tc ?bc"
  have "(\<exists>e. evaluate_pretrade cfg eng p t allowlist dq clear consistent now seen = Inl e) \<longleftrightarrow>
      (\<exists>e. sizing_stage (eng_limits eng) p t v ?tc ?bc ?rate = Inl e)"
    by (simp add: evaluate_pretrade_def assms base_currency_of_def[symmetric] Let_def)
       (simp add: py_bind_def split: sum.splits prod.splits)
  also have "\<dots> \<longleftrightarrow> can_size t ?tc ?bc ?rate \<and> 0 < prt_equity p \<and> 0 < to_base ?rate ?tc ?bc (ti_entry_price t)
         \<and> fsub (to_base ?rate ?tc ?bc (ti_entry_price t)) (to_base ?rate ?tc ?bc (the (ti_stop_loss t))) = 0"
    by (cases "ti_stop_loss t")
       (auto simp: sizing_stage_def Let_def py_bind_Inl_iff position_size_raises can_size_def)
  finally show ?thesis by (simp add: Let_def)
qed

section \<open>The losing run\<close>

definition is_win :: "int option \<times> rat option \<Rightarrow> bool" where
  "is_win c \<longleftrightarrow> (case snd c of Some x \<Rightarrow> 0 < x | None \<Rightarrow> False)"

definition is_loss :: "int option \<times> rat option \<Rightarrow> bool" where
  "is_loss c \<longleftrightarrow> (case snd c of Some x \<Rightarrow> x < 0 | None \<Rightarrow> False)"

lemma streak_loop_spec:
  "streak_loop n l closes =
     (let run = filter is_loss (takeWhile (\<lambda>c. \<not> is_win c) closes)
      in (n + int (length run),
          if l \<noteq> None then l
          else (case filter is_some (map fst run) of [] \<Rightarrow> None | t # _ \<Rightarrow> t)))"
proof (induction closes arbitrary: n l)
  case (Cons c closes)
  obtain t x where c: "c = (t, x)" by (cases c)
  show ?case
  proof (cases x)
    case None
    then show ?thesis using Cons.IH[of n l] by (simp add: c is_win_def is_loss_def Let_def)
  next
    case (Some y)
    consider "y > 0" | "y = 0" | "y < 0" by linarith
    then show ?thesis
    proof cases
      case 3
      then show ?thesis using Some Cons.IH[of "n + 1" "if l = None then t else l"]
        by (cases t; cases l) (simp_all add: c is_win_def is_loss_def Let_def)
    qed (use Some Cons.IH[of n l] in \<open>simp_all add: c is_win_def is_loss_def Let_def\<close>)
  qed
qed simp

text \<open>
  The losing run counts the losing closes, newest first, up to the first winning close;
  flat and unknown closes neither extend nor end it.  The cooldown runs from the newest dated
  loss of the run for the configured minutes, and there is none without a run.
\<close>

theorem loss_streak_spec:
  "loss_streak closes cooldown =
     (let run = filter is_loss (takeWhile (\<lambda>c. \<not> is_win c) closes);
          last_loss = (case filter is_some (map fst run) of [] \<Rightarrow> None | t # _ \<Rightarrow> t)
      in \<lparr>ls_consecutive_losses = int (length run),
          ls_cooldown_until =
            (if 0 < cooldown then map_option (\<lambda>t. t + minutes cooldown) last_loss else None),
          ls_last_loss_at = last_loss\<rparr>)"
proof -
  let ?run = "filter is_loss (takeWhile (\<lambda>c. \<not> is_win c) closes)"
  have "filter is_some (map fst ?run) \<noteq> [] \<Longrightarrow> ?run \<noteq> []" by auto
  then show ?thesis
    by (auto simp: loss_streak_def streak_loop_spec Let_def split: option.splits list.splits)
qed

section \<open>Sample book\<close>

text \<open>A book, two trades and an engine on which the properties are exercised.\<close>

definition sample_engine :: RiskEngine where
  "sample_engine =
     \<lparr>eng_limits =
       \<lparr>lim_starting_cash = 100000, lim_max_position_pct = 10, lim_max_sector_pct = 30,
        lim_max_gross_exposure_pct = 100, lim_max_venue_gross_pct = 100, lim_min_cash_pct = 10,
        lim_risk_per_trade_pct = 1 / 2, lim_daily_max_loss_pct = 2, lim_max_drawdown_pct = 10,
        lim_max_open_positions = 10, lim_max_consecutive_losses = 3,
        lim_cooldown_after_loss_minutes = 60, lim_max_consecutive_losses_halt_day = 5,
        lim_min_avg_daily_volume = 1000000, lim_max_bid_ask_spread_bps = 50,
        lim_min_data_quality_score = 7 / 8, lim_max_slippage_bps = 50,
        lim_penny_stock_max_price = 5, lim_allow_leveraged_etfs = False\<rparr>,
      eng_fx_rates = []\<rparr>"

definition sample_book :: PortfolioRiskView where
  "sample_book =
     \<lparr>prt_equity = 100000, prt_cash = 80000, prt_cash_pct = 80, prt_gross_exposure_pct = 20,
      prt_positions =
        [\<lparr>prv_symbol = ''MSFT'', prv_quantity = 50, prv_market_value = 20000, prv_sector = ''Tech'',
          prv_weight_pct = 20, prv_venue = ''US'', prv_currency = Some ''USD'', prv_con_id = None\<rparr>],
      prt_daily_pnl_pct = 0, prt_drawdown_pct = 1, prt_consecutive_losses = 0,
      prt_trading_halted = False, prt_cooldown_until = None, prt_peak_equity = None,
      prt_base_currency = ''USD''\<rparr>"

definition sample_trade :: "string \<Rightarrow> rat \<Rightarrow> rat option \<Rightarrow> TradeIntent" where
  "sample_trade side qty stop =
     \<lparr>ti_symbol = ''SPY'', ti_side = side, ti_quantity = qty, ti_entry_price = 100,
      ti_stop_loss = stop, ti_invalidation = None, ti_expected_slippage_bps = None,
      ti_avg_daily_volume = None, ti_bid_ask_spread_bps = None, ti_atr = None,
      ti_sector = ''Index'', ti_is_leveraged_etf = False, ti_idempotency_key = None,
      ti_venue = Some ''US'', ti_currency = Some ''USD''\<rparr>"

definition sample_sizing :: SizingResult where
  "sample_sizing =
     \<lparr>siz_shares = 100, siz_dollar_risk = 500, siz_stop_distance = 5, siz_position_notional = 10000,
      siz_capped_by = []\<rparr>"

lemma sample_venue: "trade_venue_of cfg (sample_trade side qty stop) = Inr ''US''"
  by (simp add: trade_venue_of_def sample_trade_def or_str_def) code_simp

lemma sample_gates:
  "gates_ok (eng_limits sample_engine) sample_book (sample_trade side qty stop) 1 True True None"
  by (simp add: gates_ok_def halt_day_def daily_loss_hit_def effective_drawdown_def tape_ok_def fresh_key_def
      sample_engine_def sample_book_def sample_trade_def)

lemma sample_buy_gates:
  "buy_gates_ok (eng_limits sample_engine) sample_book (sample_trade ''buy'' qty (Some stop)) {''spy''} 0"
  by (simp add: buy_gates_ok_def has_stop_def sample_engine_def sample_book_def sample_trade_def) code_simp

lemma sample_sized:
  "buy_sizing sample_engine sample_book (sample_trade ''buy'' 400 (Some 95)) ''US'' 95 = Inr sample_sizing"
  by code_simp

lemma sample_within:
  "within_limits (eng_limits sample_engine) sample_book (sample_trade ''buy'' 400 (Some 95)) ''US'' 
    (base_notional sample_engine sample_book (sample_trade ''buy'' 400 (Some 95)) ''US'' 100)"
  by code_simp

lemma sample_ccy: "trade_currency_of (sample_trade side qty stop) ''US'' = base_currency_of sample_book"
  by (simp add: trade_currency_of_def base_currency_of_def sample_trade_def sample_book_def or_str_def)

lemma sample_convertible: "convertible sample_engine sample_book (sample_trade side qty stop) ''US''"
  by (simp add: convertible_def sample_ccy)

lemma sample_quantity: "sized_quantity (sample_trade ''buy'' 400 (Some 95)) sample_sizing = 100"
  by (simp add: sized_quantity_def sample_sizing_def sample_trade_def)

theorem buy_approval_witness:
  "\<exists>r. evaluate_pretrade default_settings sample_engine sample_book (sample_trade ''buy'' 400 (Some 95))
          {''spy''} 1 True True 0 None = Inr r
        \<and> ptr_approved r \<and> ptr_sizing r = Some sample_sizing \<and> ptr_adjusted_quantity r = Some 100"
  using buy_approval[of "sample_trade ''buy'' 400 (Some 95)" 95 default_settings "''US''" sample_engine sample_book
      "{''spy''}" 1 True True 0 None sample_sizing 100]
    sample_venue sample_gates sample_buy_gates sample_sized sample_within sample_convertible sample_quantity
  by (simp add: sample_sizing_def) (simp add: sample_trade_def)

theorem exit_approval_witness:
  "\<exists>r. evaluate_pretrade default_settings sample_engine sample_book (sample_trade ''sell'' 50 None)
          {} 1 True True 0 None = Inr r
        \<and> ptr_approved r \<and> ptr_adjusted_quantity r = Some 50"
  using exit_approval[OF _ sample_venue, of "''sell''" 50 None default_settings sample_engine sample_book
      "{}" 1 True True 0 None] sample_gates[of "''sell''" 50 None]
  by (auto simp: sample_trade_def)

theorem evaluate_pretrade_verdict_witness:
  "\<exists>r. evaluate_pretrade default_settings sample_engine (sample_book\<lparr>prt_trading_halted := True\<rparr>)
          (sample_trade ''sell'' 50 None) {} 1 True True 0 None = Inr r
        \<and> ptr_hard_vetoes r \<noteq> [] \<and> ptr_adjusted_quantity r = Some 0"
proof -
  let ?p = "sample_book\<lparr>prt_trading_halted := True\<rparr>" and ?t = "sample_trade ''sell'' 50 None"
  have "\<not> can_size ?t tc bc rate" for tc bc rate by (simp add: can_size_def sample_trade_def)
  from evaluate_pretrade_eq[OF sample_venue sizing_stage_skip[OF this]]
  obtain r where r: "evaluate_pretrade default_settings sample_engine ?p ?t {} 1 True True 0 None = Inr r"
    "ptr_approved r \<longrightarrow> gates_ok (eng_limits sample_engine) ?p ?t 1 True True None" by blast
  have "\<not> ptr_approved r" using r(2) by (auto simp: gates_ok_def halt_day_def)
  then show ?thesis using r(1) evaluate_pretrade_verdict[OF r(1)] by blast
qed

theorem position_size_bounds_witness:
  "position_size (eng_limits sample_engine) 100000 100 95 None 0 1 = Inr sample_sizing
   \<and> of_int (siz_shares sample_sizing) * (5 :: rat) \<le> 500 \<and> of_int (siz_shares sample_sizing) * (100 :: rat) \<le> 10000"
proof -
  have ps: "position_size (eng_limits sample_engine) 100000 100 95 None 0 1 = Inr sample_sizing"
    by code_simp
  have room: "max 0 (fsub (fmul 100000 (fdiv (lim_max_position_pct (eng_limits sample_engine)) 100)) 0) = 10000"
    by code_simp
  have small: "pow2 (- 1022) \<le> (5 :: rat)" using pow2_mono[of "- 1022" 0] by (simp add: pow2_def)
  have "pow2 (- 1022) \<le> (100 :: rat)" using small by linarith
  with position_size_bounds[OF ps] small room show ?thesis
    using ps by (simp add: sample_sizing_def sample_engine_def)
qed

theorem evaluate_pretrade_raises_witness:
  "\<exists>e. evaluate_pretrade default_settings sample_engine sample_book (sample_trade ''buy'' 40 (Some 100))
         {''SPY''} 1 True True 0 None = Inl e"
proof -
  let ?t = "sample_trade ''buy'' 40 (Some 100)"
  have "to_base rate c c x = x" for rate c x by (simp add: to_base_def split: option.splits)
  moreover have "ti_side ?t = ''buy''" "ti_stop_loss ?t = Some 100" "ti_entry_price ?t = 100"
    "0 < prt_equity sample_book" by (simp_all add: sample_trade_def sample_book_def)
  ultimately show ?thesis
    using evaluate_pretrade_raises[OF sample_venue[of default_settings "''buy''" 40 "Some 100"], of sample_engine
        sample_book "{''SPY''}" 1 True True 0 None]
    by (simp add: Let_def can_size_def sample_ccy fsub_def)
qed

end
