(* ===== verification/State_Machine.thy ===== *)
theory State_Machine
  imports Py_Prelude
begin

text \<open>
  The contract of a guarded state machine: a table of allowed successors and an assertion that
  raises on any other move.  The order life cycle and the daily workflow both have this shape,
  and everything proved here about sequences of moves holds of both through their
  interpretations.
\<close>

text \<open>\<open>Enum(value)\<close>: the member with that value, or a \<open>ValueError\<close>.\<close>

definition enum_of :: "string \<Rightarrow> ('a \<Rightarrow> string) \<Rightarrow> 'a list \<Rightarrow> string \<Rightarrow> 'a py" where
  "enum_of cls val members s =
     (case find (\<lambda>x. val x = s) members of
        Some x \<Rightarrow> Inr x
      | None \<Rightarrow> Inl (ValueError (CHR 0x27 # s @ CHR 0x27 # '' is not a valid '' @ cls)))"

lemma enum_of_val:
  assumes "x \<in> set members" "inj_on val (set members)"
  shows "enum_of cls val members (val x) = Inr x"
proof -
  obtain y where y: "find (\<lambda>z. val z = val x) members = Some y"
    using assms(1) by (cases "find (\<lambda>z. val z = val x) members") (auto simp: find_None_iff)
  then have "y \<in> set members" "val y = val x" by (auto simp: find_Some_iff in_set_conv_nth)
  then show ?thesis using y assms by (auto simp: enum_of_def dest: inj_onD)
qed

text \<open>A sequence of moves, each checked by the assertion before it is made.\<close>

fun run_moves :: "('s \<Rightarrow> 's \<Rightarrow> unit py) \<Rightarrow> 's \<Rightarrow> 's list \<Rightarrow> 's py" where
  "run_moves chk s [] = Inr s"
| "run_moves chk s (t # ts) = py_bind (chk s t) (\<lambda>_. run_moves chk t ts)"

inductive reach :: "('s \<Rightarrow> 's list) \<Rightarrow> 's \<Rightarrow> 's \<Rightarrow> bool" for tbl where
  reach_refl: "reach tbl s s"
| reach_step: "reach tbl s t \<Longrightarrow> u \<in> set (tbl t) \<Longrightarrow> reach tbl s u"

lemma reach_invariant:
  assumes "reach tbl s t" "P s" "\<And>a b. P a \<Longrightarrow> b \<in> set (tbl a) \<Longrightarrow> P b"
  shows "P t"
  using assms by (induction rule: reach.induct) auto

lemma reach_trans: "reach tbl t u \<Longrightarrow> reach tbl s t \<Longrightarrow> reach tbl s u"
  by (induction rule: reach.induct) (auto intro: reach.intros)

locale guarded_machine =
  fixes tbl :: "'s \<Rightarrow> 's list" and chk :: "'s \<Rightarrow> 's \<Rightarrow> unit py"
  assumes chk_iff: "chk s t = Inr () \<longleftrightarrow> t \<in> set (tbl s)"
begin

lemma run_cons: "run_moves chk s (t # ts) = Inr u \<longleftrightarrow> t \<in> set (tbl s) \<and> run_moves chk t ts = Inr u"
  by (auto simp: py_bind_Inr_iff chk_iff[symmetric])

lemma run_reach: "run_moves chk s ts = Inr u \<Longrightarrow> reach tbl s u"
proof (induction ts arbitrary: s)
  case (Cons t ts)
  then have "t \<in> set (tbl s)" "run_moves chk t ts = Inr u" by (simp_all only: run_cons)
  then show ?case using Cons.IH reach_trans reach_step[OF reach_refl] by metis
qed (simp add: reach_refl)

lemma run_terminal: "tbl s = [] \<Longrightarrow> run_moves chk s ts = Inr u \<longleftrightarrow> ts = [] \<and> u = s"
  by (cases ts) (auto simp: run_cons simp del: run_moves.simps(2))

lemma run_stays:
  assumes "run_moves chk s ts = Inr u" "s \<in> A" "\<And>a. a \<in> A \<Longrightarrow> set (tbl a) \<subseteq> A"
  shows "u \<in> A \<and> set ts \<subseteq> A"
  using assms(1,2)
proof (induction ts arbitrary: s)
  case (Cons t ts)
  then have "t \<in> set (tbl s)" "run_moves chk t ts = Inr u" by (simp_all only: run_cons)
  then show ?case using Cons assms(3)[of s] by auto
qed auto

text \<open>If every way out of a region leads to a gate, no run leaves it except through a gate.\<close>

lemma run_gate:
  assumes "run_moves chk s ts = Inr u" "s \<in> A" "u \<notin> A"
    and "\<And>a. a \<in> A \<Longrightarrow> set (tbl a) \<subseteq> A \<union> G"
  shows "\<exists>g \<in> G. g \<in> set ts"
  using assms(1-3)
proof (induction ts arbitrary: s)
  case (Cons t ts)
  then have t: "t \<in> set (tbl s)" "run_moves chk t ts = Inr u" by (simp_all only: run_cons)
  then have "t \<in> A \<union> G" using assms(4) Cons.prems(2) by blast
  then show ?case using Cons.IH[OF t(2)] Cons.prems(3) by auto
qed auto

end

end
