(* ===== verification/Trading_Controls.thy ===== *)
theory Trading_Controls
  imports State_Machine
begin

text \<open>
  \<open>app/execution/safety_controls.py\<close> and \<open>ops_persistence.py\<close>: the process-wide kill switch and its
  persistence.  Each method of \<open>TradingControls\<close> runs under the lock, so it is one atomic step on
  the state; \<open>datetime.now(UTC)\<close> is the argument \<open>now\<close>.  The history table is the list of its rows
  in insertion order; a stored payload is the decoded (non-empty) JSON object, or \<open>Corrupt\<close> where
  \<open>json.loads\<close> raises.  Interleavings of the calls of several request handlers are sequences of
  commands.
\<close>

section \<open>The kill switch\<close>

datatype TradingState = ACTIVE | PAUSED | EMERGENCY_STOP

fun ts_value :: "TradingState \<Rightarrow> string" where
  "ts_value ACTIVE = ''active''"
| "ts_value PAUSED = ''paused''"
| "ts_value EMERGENCY_STOP = ''emergency_stop''"

record TradingControlState =
  tc_state :: TradingState
  tc_reason :: "string option"
  tc_changed_at :: int
  tc_canceled_open_orders :: bool

definition init_controls :: "int \<Rightarrow> TradingControlState" where
  "init_controls now =
     \<lparr>tc_state = ACTIVE, tc_reason = None, tc_changed_at = now, tc_canceled_open_orders = False\<rparr>"

definition is_new_order_allowed :: "TradingControlState \<Rightarrow> bool" where
  "is_new_order_allowed c \<longleftrightarrow> tc_state c = ACTIVE"

definition pause :: "int \<Rightarrow> string \<Rightarrow> TradingControlState \<Rightarrow> TradingControlState" where
  "pause now reason c =
     \<lparr>tc_state = PAUSED, tc_reason = Some reason, tc_changed_at = now, tc_canceled_open_orders = False\<rparr>"

definition resume :: "int \<Rightarrow> string \<Rightarrow> TradingControlState \<Rightarrow> TradingControlState" where
  "resume now reason c =
     (if tc_state c = EMERGENCY_STOP then c
      else \<lparr>tc_state = ACTIVE, tc_reason = Some reason, tc_changed_at = now,
            tc_canceled_open_orders = False\<rparr>)"

definition emergency_stop :: "int \<Rightarrow> string \<Rightarrow> TradingControlState \<Rightarrow> TradingControlState" where
  "emergency_stop now reason c =
     \<lparr>tc_state = EMERGENCY_STOP, tc_reason = Some reason, tc_changed_at = now,
      tc_canceled_open_orders = True\<rparr>"

definition clear_emergency :: "int \<Rightarrow> string \<Rightarrow> TradingControlState \<Rightarrow> TradingControlState" where
  "clear_emergency now reason c =
     \<lparr>tc_state = PAUSED, tc_reason = Some reason, tc_changed_at = now, tc_canceled_open_orders = False\<rparr>"

datatype command = Pause int string | Resume int string | EmergencyStop int string | ClearEmergency int string

fun exec_command :: "command \<Rightarrow> TradingControlState \<Rightarrow> TradingControlState" where
  "exec_command (Pause now r) c = pause now r c"
| "exec_command (Resume now r) c = resume now r c"
| "exec_command (EmergencyStop now r) c = emergency_stop now r c"
| "exec_command (ClearEmergency now r) c = clear_emergency now r c"

definition exec_commands :: "command list \<Rightarrow> TradingControlState \<Rightarrow> TradingControlState" where
  "exec_commands cs c = fold exec_command cs c"

section \<open>Persistence\<close>

record ops_payload =
  pay_state :: "string option"
  pay_reason :: "string option"
  pay_changed_at :: "int option"
  pay_canceled_open_orders :: "bool option"

datatype stored = Corrupt | Payload ops_payload

record ConfigurationHistory =
  ch_key :: string
  ch_old_value :: "stored option"
  ch_new_value :: stored
  ch_changed_by :: string
  ch_reason :: "string option"
  ch_created_at :: int

definition OPS_KEY :: string where
  "OPS_KEY = ''ops.trading_controls''"

definition newer :: "ConfigurationHistory \<Rightarrow> ConfigurationHistory \<Rightarrow> ConfigurationHistory" where
  "newer x best = (if ch_created_at x > ch_created_at best then x else best)"

definition latest_ops :: "ConfigurationHistory list \<Rightarrow> ConfigurationHistory option" where
  "latest_ops rows =
     (case filter (\<lambda>r. ch_key r = OPS_KEY) rows of
        [] \<Rightarrow> None
      | r # rs \<Rightarrow> Some (fold newer rs r))"

definition persist_trading_controls ::
  "int \<Rightarrow> string \<Rightarrow> TradingControlState \<Rightarrow> ConfigurationHistory list \<Rightarrow> ConfigurationHistory list" where
  "persist_trading_controls now changed_by snap rows =
     rows @ [\<lparr>ch_key = OPS_KEY, ch_old_value = map_option ch_new_value (latest_ops rows),
             ch_new_value = Payload \<lparr>pay_state = Some (ts_value (tc_state snap)),
                                     pay_reason = tc_reason snap,
                                     pay_changed_at = Some (tc_changed_at snap),
                                     pay_canceled_open_orders = Some (tc_canceled_open_orders snap)\<rparr>,
             ch_changed_by = changed_by, ch_reason = tc_reason snap, ch_created_at = now\<rparr>]"

definition trading_state_of :: "string \<Rightarrow> TradingState py" where
  "trading_state_of = enum_of ''TradingState'' ts_value [ACTIVE, PAUSED, EMERGENCY_STOP]"

text \<open>Returns the decoded payload, if any, and the controls after the restore.\<close>

definition restore_trading_controls ::
  "int \<Rightarrow> ConfigurationHistory list \<Rightarrow> TradingControlState
   \<Rightarrow> (ops_payload option \<times> TradingControlState) py" where
  "restore_trading_controls now rows c =
     (case latest_ops rows of
        None \<Rightarrow> Inr (None, c)
      | Some r \<Rightarrow>
          (case ch_new_value r of
             Corrupt \<Rightarrow> Inr (None, c)
           | Payload d \<Rightarrow>
               py_bind (trading_state_of (case pay_state d of Some s \<Rightarrow> s | None \<Rightarrow> ts_value ACTIVE)) (\<lambda>st.
                 Inr (Some d,
                      \<lparr>tc_state = st, tc_reason = pay_reason d,
                       tc_changed_at = (case pay_changed_at d of Some t \<Rightarrow> t | None \<Rightarrow> now),
                       tc_canceled_open_orders = (pay_canceled_open_orders d = Some True)\<rparr>))))"

section \<open>What the switch guarantees\<close>

lemmas control_defs = pause_def resume_def emergency_stop_def clear_emergency_def is_new_order_allowed_def

fun is_resume :: "command \<Rightarrow> bool" where
  "is_resume (Resume now r) = True" | "is_resume _ = False"

fun leaves_emergency :: "command \<Rightarrow> bool" where
  "leaves_emergency (Pause now r) = True"
| "leaves_emergency (ClearEmergency now r) = True"
| "leaves_emergency _ = False"

lemma exec_active_iff:
  "tc_state (exec_command cmd c) = ACTIVE \<longleftrightarrow> is_resume cmd \<and> tc_state c \<noteq> EMERGENCY_STOP"
  by (cases cmd) (auto simp: control_defs)

lemma exec_emergency_keeps:
  "tc_state c = EMERGENCY_STOP \<Longrightarrow> \<not> leaves_emergency cmd \<Longrightarrow> tc_state (exec_command cmd c) = EMERGENCY_STOP"
  by (cases cmd) (auto simp: control_defs)

lemma exec_commands_snoc: "exec_commands (cs @ [cmd]) c = exec_command cmd (exec_commands cs c)"
  by (simp add: exec_commands_def)

lemma exec_commands_emergency:
  assumes "tc_state c = EMERGENCY_STOP" "\<forall>cmd \<in> set cs. \<not> leaves_emergency cmd"
  shows "tc_state (exec_commands cs c) = EMERGENCY_STOP"
  using assms by (induction cs rule: rev_induct) (auto simp: exec_commands_def exec_emergency_keeps)

text \<open>
  Property C4.  After an emergency stop new orders are blocked under any interleaving of commands
  until two of them have happened in this order: one that leaves the emergency state (clear or
  pause) and a later resume.  A resume alone never reopens trading.
\<close>

theorem emergency_needs_two_steps:
  assumes "is_new_order_allowed (exec_commands cs (emergency_stop now reason c))"
  shows "\<exists>us x vs y ws. cs = us @ x # vs @ y # ws \<and> leaves_emergency x \<and> is_resume y"
proof (cases cs rule: rev_cases)
  case Nil
  then show ?thesis using assms by (simp add: exec_commands_def control_defs)
next
  case (snoc bs b)
  let ?e = "emergency_stop now reason c"
  show ?thesis
  proof (cases "is_resume b")
    case True
    then have "tc_state (exec_commands bs ?e) \<noteq> EMERGENCY_STOP"
      using assms snoc by (simp add: is_new_order_allowed_def exec_commands_snoc exec_active_iff)
    then obtain x where "x \<in> set bs" "leaves_emergency x"
      using exec_commands_emergency[of ?e bs] by (auto simp: emergency_stop_def)
    then obtain us vs where "bs = us @ x # vs" by (meson split_list)
    then have "cs = us @ x # vs @ b # []" using snoc by simp
    then show ?thesis using True \<open>leaves_emergency x\<close> by blast
  next
    case False
    then show ?thesis
      using assms snoc by (simp add: is_new_order_allowed_def exec_commands_snoc exec_active_iff)
  qed
qed

theorem emergency_needs_two_steps_witness:
  "is_new_order_allowed (exec_commands [ClearEmergency 1 ''c'', Resume 2 ''r''] (emergency_stop 0 ''e'' (init_controls 0)))
   \<and> (\<exists>us x vs y ws. [ClearEmergency 1 ''c'', Resume 2 ''r''] = us @ x # vs @ y # ws \<and> leaves_emergency x \<and> is_resume y)"
proof -
  have a: "is_new_order_allowed
      (exec_commands [ClearEmergency 1 ''c'', Resume 2 ''r''] (emergency_stop 0 ''e'' (init_controls 0)))"
    by (simp add: exec_commands_def control_defs)
  from emergency_needs_two_steps[OF a] a show ?thesis by blast
qed

text \<open>
  Pausing during an emergency stop drops the emergency: emergency stop, pause, resume
  leaves trading active although \<open>clear_emergency\<close> was never called.
\<close>

theorem pause_drops_emergency:
  "is_new_order_allowed (exec_commands [EmergencyStop t1 r1, Pause t2 r2, Resume t3 r3] c)"
  by (simp add: exec_commands_def control_defs)

lemma fold_newer_mem: "fold newer zs b \<in> insert b (set zs)"
proof (induction zs arbitrary: b)
  case (Cons z zs)
  have "newer z b \<in> {z, b}" by (simp add: newer_def)
  then show ?case using Cons.IH[of "newer z b"] by auto
qed simp

lemma latest_ops_append:
  assumes "ch_key r = OPS_KEY" "\<forall>x \<in> set rows. ch_key x = OPS_KEY \<longrightarrow> ch_created_at x < ch_created_at r"
  shows "latest_ops (rows @ [r]) = Some r"
proof (cases "filter (\<lambda>r. ch_key r = OPS_KEY) rows")
  case (Cons y ys)
  have "fold newer ys y \<in> set (filter (\<lambda>r. ch_key r = OPS_KEY) rows)"
    unfolding Cons using fold_newer_mem[of ys y] by simp
  then have "ch_created_at (fold newer ys y) < ch_created_at r" using assms(2) by simp
  then show ?thesis using Cons assms(1) by (simp add: latest_ops_def newer_def)
qed (simp add: latest_ops_def assms(1))

lemma trading_state_roundtrip: "trading_state_of (ts_value s) = Inr s"
  by (cases s) (simp_all add: trading_state_of_def enum_of_def)

text \<open>
  The switch survives a restart: whatever state was persisted last (later than every
  older row) is the state a fresh process restores, so an emergency stop stays in force.
\<close>

theorem persist_restore:
  assumes "\<forall>x \<in> set rows. ch_key x = OPS_KEY \<longrightarrow> ch_created_at x < now"
  shows "\<exists>d. restore_trading_controls later (persist_trading_controls now by_whom c rows) fresh = Inr (Some d, c)"
  using assms
  by (simp add: persist_trading_controls_def restore_trading_controls_def latest_ops_append trading_state_roundtrip)

theorem persist_restore_witness:
  "\<exists>d. restore_trading_controls 9
        (persist_trading_controls 5 ''api'' (emergency_stop 4 ''e'' (init_controls 0)) [])
        (init_controls 8) = Inr (Some d, emergency_stop 4 ''e'' (init_controls 0))"
  by (rule persist_restore) simp

end
