(* ===== verification/Broker_Models.thy ===== *)
theory Broker_Models
  imports State_Machine
begin

text \<open>
  \<open>app/brokers/models.py\<close>, \<open>pricing.py\<close> and \<open>venue_orders.py\<close>: the canonical broker vocabulary, the order
  life-cycle table with its assertion, the validator of an order request, equity tick rounding
  and the shaping of ASX orders into marketable limits.  An optional price that is not a
  number at all does not occur (the callers' types are \<open>float | None\<close>); infinities and NaN are
  outside the float model, so \<open>math.isfinite\<close> holds of every value.
\<close>

section \<open>Enumerations\<close>

datatype BrokerEnvironment =
    ENV_PAPER | ENV_LIVE | ENV_MOCK

fun env_value :: "BrokerEnvironment \<Rightarrow> string" where
  "env_value ENV_PAPER = ''paper''"
| "env_value ENV_LIVE = ''live''"
| "env_value ENV_MOCK = ''mock''"

datatype IntentType =
    OPEN_LONG | ADD_LONG | REDUCE_LONG | CLOSE_LONG | OPEN_SHORT | ADD_SHORT | REDUCE_SHORT
  | CLOSE_SHORT | HEDGE | CANCEL_PENDING | NO_ACTION

fun intent_value :: "IntentType \<Rightarrow> string" where
  "intent_value OPEN_LONG = ''OPEN_LONG''"
| "intent_value ADD_LONG = ''ADD_LONG''"
| "intent_value REDUCE_LONG = ''REDUCE_LONG''"
| "intent_value CLOSE_LONG = ''CLOSE_LONG''"
| "intent_value OPEN_SHORT = ''OPEN_SHORT''"
| "intent_value ADD_SHORT = ''ADD_SHORT''"
| "intent_value REDUCE_SHORT = ''REDUCE_SHORT''"
| "intent_value CLOSE_SHORT = ''CLOSE_SHORT''"
| "intent_value HEDGE = ''HEDGE''"
| "intent_value CANCEL_PENDING = ''CANCEL_PENDING''"
| "intent_value NO_ACTION = ''NO_ACTION''"

datatype IntentStatus =
    IS_CREATED | IS_VALIDATING | IS_RISK_REJECTED | IS_PENDING_APPROVAL | IS_APPROVED
  | IS_REJECTED | IS_EXPIRED | IS_CANCELLED | IS_SUBMITTING | IS_SUBMITTED | IS_COMPLETED
  | IS_FAILED

fun is_value :: "IntentStatus \<Rightarrow> string" where
  "is_value IS_CREATED = ''CREATED''"
| "is_value IS_VALIDATING = ''VALIDATING''"
| "is_value IS_RISK_REJECTED = ''RISK_REJECTED''"
| "is_value IS_PENDING_APPROVAL = ''PENDING_APPROVAL''"
| "is_value IS_APPROVED = ''APPROVED''"
| "is_value IS_REJECTED = ''REJECTED''"
| "is_value IS_EXPIRED = ''EXPIRED''"
| "is_value IS_CANCELLED = ''CANCELLED''"
| "is_value IS_SUBMITTING = ''SUBMITTING''"
| "is_value IS_SUBMITTED = ''SUBMITTED''"
| "is_value IS_COMPLETED = ''COMPLETED''"
| "is_value IS_FAILED = ''FAILED''"

datatype ApprovalStatus =
    AS_PENDING_APPROVAL | AS_APPROVED | AS_REJECTED | AS_EXPIRED | AS_CANCELLED
  | AS_AUTO_APPROVED

fun as_value :: "ApprovalStatus \<Rightarrow> string" where
  "as_value AS_PENDING_APPROVAL = ''PENDING_APPROVAL''"
| "as_value AS_APPROVED = ''APPROVED''"
| "as_value AS_REJECTED = ''REJECTED''"
| "as_value AS_EXPIRED = ''EXPIRED''"
| "as_value AS_CANCELLED = ''CANCELLED''"
| "as_value AS_AUTO_APPROVED = ''AUTO_APPROVED''"

datatype PretradeStatus =
    PT_APPROVED | PT_APPROVED_WITH_REDUCTION | PT_REQUIRES_MANUAL_APPROVAL | PT_REJECTED
  | PT_SYSTEM_BLOCKED

fun pt_value :: "PretradeStatus \<Rightarrow> string" where
  "pt_value PT_APPROVED = ''APPROVED''"
| "pt_value PT_APPROVED_WITH_REDUCTION = ''APPROVED_WITH_REDUCTION''"
| "pt_value PT_REQUIRES_MANUAL_APPROVAL = ''REQUIRES_MANUAL_APPROVAL''"
| "pt_value PT_REJECTED = ''REJECTED''"
| "pt_value PT_SYSTEM_BLOCKED = ''SYSTEM_BLOCKED''"

datatype InternalOrderState =
    OS_CREATED | OS_VALIDATING | OS_RISK_REJECTED | OS_PENDING_APPROVAL | OS_APPROVED
  | OS_SUBMITTING | OS_SUBMITTED | OS_ACCEPTED | OS_PARTIALLY_FILLED | OS_FILLED
  | OS_CANCEL_PENDING | OS_CANCELLED | OS_REPLACE_PENDING | OS_REPLACED | OS_REJECTED
  | OS_EXPIRED | OS_FAILED | OS_UNKNOWN | OS_RECONCILIATION_REQUIRED

fun os_value :: "InternalOrderState \<Rightarrow> string" where
  "os_value OS_CREATED = ''CREATED''"
| "os_value OS_VALIDATING = ''VALIDATING''"
| "os_value OS_RISK_REJECTED = ''RISK_REJECTED''"
| "os_value OS_PENDING_APPROVAL = ''PENDING_APPROVAL''"
| "os_value OS_APPROVED = ''APPROVED''"
| "os_value OS_SUBMITTING = ''SUBMITTING''"
| "os_value OS_SUBMITTED = ''SUBMITTED''"
| "os_value OS_ACCEPTED = ''ACCEPTED''"
| "os_value OS_PARTIALLY_FILLED = ''PARTIALLY_FILLED''"
| "os_value OS_FILLED = ''FILLED''"
| "os_value OS_CANCEL_PENDING = ''CANCEL_PENDING''"
| "os_value OS_CANCELLED = ''CANCELLED''"
| "os_value OS_REPLACE_PENDING = ''REPLACE_PENDING''"
| "os_value OS_REPLACED = ''REPLACED''"
| "os_value OS_REJECTED = ''REJECTED''"
| "os_value OS_EXPIRED = ''EXPIRED''"
| "os_value OS_FAILED = ''FAILED''"
| "os_value OS_UNKNOWN = ''UNKNOWN''"
| "os_value OS_RECONCILIATION_REQUIRED = ''RECONCILIATION_REQUIRED''"

datatype ReconciliationResult =
    IN_SYNC | MINOR_DRIFT | MATERIAL_DRIFT | BROKER_UNAVAILABLE | LOCAL_STATE_INVALID

fun rr_value :: "ReconciliationResult \<Rightarrow> string" where
  "rr_value IN_SYNC = ''IN_SYNC''"
| "rr_value MINOR_DRIFT = ''MINOR_DRIFT''"
| "rr_value MATERIAL_DRIFT = ''MATERIAL_DRIFT''"
| "rr_value BROKER_UNAVAILABLE = ''BROKER_UNAVAILABLE''"
| "rr_value LOCAL_STATE_INVALID = ''LOCAL_STATE_INVALID''"

section \<open>Records\<close>

record BrokerAccount =
  acc_account_id_reference :: string
  acc_environment :: BrokerEnvironment
  acc_currency :: string
  acc_equity :: rat
  acc_cash :: rat
  acc_buying_power :: rat
  acc_portfolio_value :: rat
  acc_long_market_value :: rat
  acc_short_market_value :: rat
  acc_initial_margin :: "rat option"
  acc_maintenance_margin :: "rat option"
  acc_daytrade_count :: int
  acc_pattern_day_trader :: bool
  acc_trading_blocked :: bool
  acc_transfers_blocked :: bool
  acc_account_blocked :: bool
  acc_as_of :: int
  acc_source :: string

record BrokerAsset =
  ast_symbol :: string
  ast_tradable :: bool
  ast_fractionable :: bool
  ast_shortable :: bool
  ast_easy_to_borrow :: bool
  ast_exchange :: "string option"
  ast_asset_class :: string
  ast_status :: string

record BrokerPosition =
  bp_symbol :: string
  bp_quantity :: rat
  bp_available_quantity :: "rat option"
  bp_side :: string
  bp_market_value :: rat
  bp_cost_basis :: "rat option"
  bp_average_entry_price :: "rat option"
  bp_current_price :: "rat option"
  bp_unrealized_pl :: "rat option"
  bp_unrealized_pl_pct :: "rat option"
  bp_asset_class :: string
  bp_exchange :: "string option"
  bp_currency :: "string option"
  bp_as_of :: int
  bp_source :: string
  bp_con_id :: "int option"

record BrokerOrderRequest =
  req_client_order_id :: string
  req_symbol :: string
  req_side :: string
  req_quantity :: "rat option"
  req_notional :: "rat option"
  req_order_type :: string
  req_time_in_force :: string
  req_limit_price :: "rat option"
  req_stop_price :: "rat option"

definition qty_xor_notional :: "BrokerOrderRequest \<Rightarrow> BrokerOrderRequest py" where
  "qty_xor_notional r =
     (if req_quantity r \<noteq> None \<and> req_notional r \<noteq> None
      then Inl (ValueError ''quantity_and_notional_mutually_exclusive'')
      else if req_quantity r = None \<and> req_notional r = None
      then Inl (ValueError ''quantity_or_notional_required'')
      else Inr r)"

section \<open>Order types\<close>

definition BROKER_ORDER_TYPES :: "(string \<times> string) list" where
  "BROKER_ORDER_TYPES =
     [(''mkt'', ''market''), (''market'', ''market''), (''lmt'', ''limit''), (''limit'', ''limit''),
      (''stp'', ''stop''), (''stop'', ''stop''), (''stp lmt'', ''stop_limit''), (''stp_lmt'', ''stop_limit''),
      (''stop_limit'', ''stop_limit''), (''trail'', ''trailing_stop''), (''trailing_stop'', ''trailing_stop'')]"

definition canonical_order_type :: "string option \<Rightarrow> string \<Rightarrow> string" where
  "canonical_order_type v dflt =
     (let text = lower (strip (or_str v []))
      in if text = [] then dflt
         else (case dget BROKER_ORDER_TYPES text of Some t \<Rightarrow> t | None \<Rightarrow> text))"

section \<open>Order life cycle\<close>

fun ALLOWED_ORDER_TRANSITIONS :: "InternalOrderState \<Rightarrow> InternalOrderState list" where
  "ALLOWED_ORDER_TRANSITIONS OS_CREATED = [OS_VALIDATING, OS_CANCELLED, OS_FAILED]"
| "ALLOWED_ORDER_TRANSITIONS OS_VALIDATING =
     [OS_RISK_REJECTED, OS_PENDING_APPROVAL, OS_APPROVED, OS_FAILED]"
| "ALLOWED_ORDER_TRANSITIONS OS_RISK_REJECTED = []"
| "ALLOWED_ORDER_TRANSITIONS OS_PENDING_APPROVAL =
     [OS_APPROVED, OS_REJECTED, OS_EXPIRED, OS_CANCELLED]"
| "ALLOWED_ORDER_TRANSITIONS OS_APPROVED = [OS_SUBMITTING, OS_EXPIRED, OS_CANCELLED, OS_FAILED]"
| "ALLOWED_ORDER_TRANSITIONS OS_SUBMITTING =
     [OS_SUBMITTED, OS_UNKNOWN, OS_FAILED, OS_RECONCILIATION_REQUIRED]"
| "ALLOWED_ORDER_TRANSITIONS OS_SUBMITTED =
     [OS_ACCEPTED, OS_PARTIALLY_FILLED, OS_FILLED, OS_CANCEL_PENDING, OS_REJECTED,
      OS_EXPIRED, OS_UNKNOWN, OS_RECONCILIATION_REQUIRED]"
| "ALLOWED_ORDER_TRANSITIONS OS_ACCEPTED =
     [OS_PARTIALLY_FILLED, OS_FILLED, OS_CANCEL_PENDING, OS_REPLACE_PENDING, OS_CANCELLED,
      OS_EXPIRED, OS_REJECTED]"
| "ALLOWED_ORDER_TRANSITIONS OS_PARTIALLY_FILLED =
     [OS_FILLED, OS_CANCEL_PENDING, OS_REPLACE_PENDING, OS_CANCELLED]"
| "ALLOWED_ORDER_TRANSITIONS OS_FILLED = []"
| "ALLOWED_ORDER_TRANSITIONS OS_CANCEL_PENDING =
     [OS_CANCELLED, OS_FILLED, OS_PARTIALLY_FILLED, OS_RECONCILIATION_REQUIRED]"
| "ALLOWED_ORDER_TRANSITIONS OS_CANCELLED = []"
| "ALLOWED_ORDER_TRANSITIONS OS_REPLACE_PENDING =
     [OS_REPLACED, OS_FILLED, OS_RECONCILIATION_REQUIRED]"
| "ALLOWED_ORDER_TRANSITIONS OS_REPLACED = []"
| "ALLOWED_ORDER_TRANSITIONS OS_REJECTED = []"
| "ALLOWED_ORDER_TRANSITIONS OS_EXPIRED = []"
| "ALLOWED_ORDER_TRANSITIONS OS_FAILED = [OS_RECONCILIATION_REQUIRED]"
| "ALLOWED_ORDER_TRANSITIONS OS_UNKNOWN =
     [OS_SUBMITTED, OS_ACCEPTED, OS_FILLED, OS_CANCELLED, OS_REJECTED,
      OS_RECONCILIATION_REQUIRED, OS_FAILED]"
| "ALLOWED_ORDER_TRANSITIONS OS_RECONCILIATION_REQUIRED =
     [OS_SUBMITTED, OS_ACCEPTED, OS_FILLED, OS_CANCELLED, OS_REJECTED, OS_FAILED,
      OS_UNKNOWN]"

definition assert_order_transition :: "InternalOrderState \<Rightarrow> InternalOrderState \<Rightarrow> unit py" where
  "assert_order_transition frm to =
     (if to \<in> set (ALLOWED_ORDER_TRANSITIONS frm) then Inr ()
      else Inl (ValueError (''illegal_order_transition:'' @ os_value frm @ ''->'' @ os_value to)))"

definition ORDER_STATES :: "InternalOrderState list" where
  "ORDER_STATES =
     [OS_CREATED, OS_VALIDATING, OS_RISK_REJECTED, OS_PENDING_APPROVAL, OS_APPROVED, OS_SUBMITTING,
      OS_SUBMITTED, OS_ACCEPTED, OS_PARTIALLY_FILLED, OS_FILLED, OS_CANCEL_PENDING, OS_CANCELLED,
      OS_REPLACE_PENDING, OS_REPLACED, OS_REJECTED, OS_EXPIRED, OS_FAILED, OS_UNKNOWN,
      OS_RECONCILIATION_REQUIRED]"

definition order_state_of :: "string \<Rightarrow> InternalOrderState py" where
  "order_state_of = enum_of ''InternalOrderState'' os_value ORDER_STATES"

definition redact_account_id :: "string option \<Rightarrow> string" where
  "redact_account_id raw =
     (case raw of
        None \<Rightarrow> ''acct_unknown''
      | Some s \<Rightarrow>
          if s = [] then ''acct_unknown''
          else if length s \<le> 4 then ''acct_***'' @ s
          else ''acct_***'' @ drop (length s - 4) s)"

section \<open>Tick rounding and ASX orders\<close>

definition round_equity_price :: "rat option \<Rightarrow> rat option" where
  "round_equity_price price =
     (case price of
        None \<Rightarrow> None
      | Some v \<Rightarrow>
          if v \<le> 0 then Some v
          else (let q = (if v \<ge> 1 then 100 else 10000)
                in Some (fl (of_int \<lfloor>repr_dec v * q + 1 / 2\<rfloor> / q))))"

definition AU_SLIP_PCT :: rat where "AU_SLIP_PCT = fl (25 / 1000)"
definition AU_FLATTEN_SLIP_PCT :: rat where "AU_FLATTEN_SLIP_PCT = fl (8 / 100)"
definition AU_MIN_SLIP :: rat where "AU_MIN_SLIP = fl (2 / 100)"
definition MAX_SANE_EQUITY_PX :: rat where "MAX_SANE_EQUITY_PX = 1000000"

definition is_resting_stop :: "string option \<Rightarrow> bool" where
  "is_resting_stop order_type =
     (let text = strip (or_str order_type [])
      in if text = [] then False
         else canonical_order_type (Some text) ''market'' \<in> {''stop'', ''stop_limit'', ''trailing_stop''})"

definition uses_marketable_limit :: "string option \<Rightarrow> string option \<Rightarrow> bool" where
  "uses_marketable_limit v exchange \<longleftrightarrow>
     upper (strip (or_str v [])) = ''AU''
     \<or> upper (strip (or_str exchange [])) \<in> {''ASX'', ''ASX2''}"

definition is_sane_equity_price :: "rat option \<Rightarrow> bool" where
  "is_sane_equity_price x = (case x of None \<Rightarrow> False | Some px \<Rightarrow> 0 < px \<and> px < MAX_SANE_EQUITY_PX)"

definition reference_price :: "string \<Rightarrow> rat option \<Rightarrow> rat option \<Rightarrow> rat option \<Rightarrow> rat py" where
  "reference_price side last_px bid ask =
     (let ordered = (if lower side = ''sell'' then [bid, last_px, ask] else [ask, last_px, bid])
      in case find is_sane_equity_price ordered of
           Some (Some px) \<Rightarrow> Inr px
         | _ \<Rightarrow> Inl (ValueError ''asx_requires_reference_price''))"

definition aggressive_limit_price :: "string \<Rightarrow> rat \<Rightarrow> bool \<Rightarrow> rat py" where
  "aggressive_limit_price side last_px flatten =
     (if \<not> is_sane_equity_price (Some last_px) then Inl (ValueError ''last must be a sane positive price'')
      else (let pct = (if flatten then AU_FLATTEN_SLIP_PCT else AU_SLIP_PCT);
                slip = max (fmul last_px pct) AU_MIN_SLIP;
                raw = (if lower side = ''sell'' then fsub last_px slip else fadd last_px slip);
                result = round_equity_price (Some (max (fl (1 / 100)) raw))
            in if \<not> is_sane_equity_price result then Inl (ValueError ''limit rounded to zero'')
               else Inr (the result)))"

definition apply_marketable_limit ::
  "string option \<Rightarrow> string option \<Rightarrow> string \<Rightarrow> string option \<Rightarrow> rat option \<Rightarrow> rat option \<Rightarrow> rat option
   \<Rightarrow> rat option \<Rightarrow> bool \<Rightarrow> (string \<times> rat) py" where
  "apply_marketable_limit v exchange side order_type limit_price last_px bid ask flatten =
     (if is_resting_stop order_type then Inl (ValueError ''resting_stop_is_not_a_marketable_limit'')
      else if \<not> uses_marketable_limit v exchange then Inl (ValueError ''not_a_marketable_limit_venue'')
      else py_bind (reference_price side last_px bid ask) (\<lambda>ref.
        py_bind (aggressive_limit_price side ref flatten) (\<lambda>want.
          (let otype = lower (or_str order_type ''market'');
               existing = (if is_sane_equity_price limit_price then limit_price else None)
           in if otype \<in> {''limit'', ''lmt''}
              then (case existing of
                      Some e \<Rightarrow>
                        if lower side = ''sell'' \<and> e \<le> want then Inr (''limit'', e)
                        else if lower side \<noteq> ''sell'' \<and> e \<ge> want then Inr (''limit'', e)
                        else Inr (''limit'', want)
                    | None \<Rightarrow> Inr (''limit'', want))
              else Inr (''limit'', want)))))"

section \<open>The life cycle as a guarded machine\<close>

interpretation order_machine: guarded_machine ALLOWED_ORDER_TRANSITIONS assert_order_transition
  by unfold_locales (simp add: assert_order_transition_def)

lemma ORDER_STATES_all: "s \<in> set ORDER_STATES"
  by (cases s) (simp_all add: ORDER_STATES_def)

lemma os_value_inj: "os_value s = os_value t \<Longrightarrow> s = t"
  by (cases s; cases t) simp_all

text \<open>
  Reading a stored order status back gives the state that was written, and any
  other text is a \<open>ValueError\<close>.
\<close>

theorem order_state_roundtrip:
  "order_state_of s = Inr t \<longleftrightarrow> s = os_value t"
proof
  assume "order_state_of s = Inr t"
  then show "s = os_value t"
    by (auto simp: order_state_of_def enum_of_def find_Some_iff split: option.splits)
next
  assume "s = os_value t"
  then show "order_state_of s = Inr t"
    unfolding order_state_of_def
    using enum_of_val[of t ORDER_STATES os_value] by (simp add: ORDER_STATES_all inj_on_def os_value_inj)
qed

definition order_terminal :: "InternalOrderState \<Rightarrow> bool" where
  "order_terminal s \<longleftrightarrow>
     s \<in> {OS_RISK_REJECTED, OS_FILLED, OS_CANCELLED, OS_REPLACED, OS_REJECTED, OS_EXPIRED}"

lemma order_terminal_iff: "order_terminal s \<longleftrightarrow> ALLOWED_ORDER_TRANSITIONS s = []"
  by (cases s) (simp_all add: order_terminal_def)

text \<open>
  Rejected, filled, cancelled, replaced and expired orders are final: no sequence of
  checked moves leaves such a state.
\<close>

theorem order_terminal_absorbing:
  assumes "order_terminal s"
  shows "run_moves assert_order_transition s moves = Inr t \<longleftrightarrow> moves = [] \<and> t = s"
  using assms by (intro order_machine.run_terminal) (simp add: order_terminal_iff)

theorem order_terminal_absorbing_witness:
  "order_terminal OS_FILLED \<and> run_moves assert_order_transition OS_FILLED [OS_CANCELLED] \<noteq> Inr OS_CANCELLED"
  using order_terminal_absorbing[of OS_FILLED "[OS_CANCELLED]" OS_CANCELLED]
  by (simp add: order_terminal_def del: run_moves.simps)

definition at_broker :: "InternalOrderState \<Rightarrow> bool" where
  "at_broker s \<longleftrightarrow>
     s \<in> {OS_SUBMITTING, OS_SUBMITTED, OS_ACCEPTED, OS_PARTIALLY_FILLED, OS_FILLED, OS_CANCEL_PENDING,
         OS_REPLACE_PENDING, OS_REPLACED, OS_UNKNOWN}"

text \<open>
  An order that starts as created reaches a state where the broker has it (submitting,
  submitted, filled and so on) only through approval or through an explicit reconciliation.
\<close>

theorem order_needs_approval:
  assumes "run_moves assert_order_transition OS_CREATED moves = Inr s" "at_broker s"
  shows "OS_APPROVED \<in> set moves \<or> OS_RECONCILIATION_REQUIRED \<in> set moves"
proof -
  have step: "set (ALLOWED_ORDER_TRANSITIONS a)
      \<subseteq> {a. \<not> at_broker a \<and> a \<notin> {OS_APPROVED, OS_RECONCILIATION_REQUIRED}} \<union> {OS_APPROVED, OS_RECONCILIATION_REQUIRED}"
    if "a \<in> {a. \<not> at_broker a \<and> a \<notin> {OS_APPROVED, OS_RECONCILIATION_REQUIRED}}" for a
    using that by (cases a) (auto simp: at_broker_def)
  show ?thesis
    using order_machine.run_gate[OF assms(1) _ _ step] assms(2) by (auto simp: at_broker_def)
qed

theorem order_needs_approval_witness:
  "run_moves assert_order_transition OS_CREATED [OS_VALIDATING, OS_APPROVED, OS_SUBMITTING, OS_SUBMITTED] = Inr OS_SUBMITTED
   \<and> OS_APPROVED \<in> set [OS_VALIDATING, OS_APPROVED, OS_SUBMITTING, OS_SUBMITTED]"
  using order_needs_approval[of "[OS_VALIDATING, OS_APPROVED, OS_SUBMITTING, OS_SUBMITTED]" OS_SUBMITTED]
  by (simp add: assert_order_transition_def at_broker_def)

section \<open>Tick rounding\<close>

lemma repr_dec_near:
  assumes v: "is_double v" "pow2 (- 1022) < v"
  shows "\<bar>repr_dec v - v\<bar> \<le> v * pow2 (- 52)"
proof -
  let ?r = "repr_dec v"
  have fr: "fl ?r = v" by (rule fl_repr_dec[OF v(1)])
  have tiny: "fl (pow2 (- 1022)) = pow2 (- 1022)"
    using is_double_scaled[of 1 "- 1022"] by (simp add: is_double_def)
  have r: "pow2 (- 1022) \<le> ?r"
  proof (rule ccontr)
    assume "\<not> pow2 (- 1022) \<le> ?r"
    then have "fl ?r \<le> fl (pow2 (- 1022))" by (intro fl_mono) simp
    then show False using fr tiny v(2) by simp
  qed
  have rpos: "0 \<le> ?r" using r pow2_pos[of "- 1022"] by linarith
  have e: "\<bar>v - ?r\<bar> \<le> ?r * pow2 (- 53)"
    using fl_err_rel[of ?r] r fr by (simp add: abs_of_nonneg[OF rpos])
  have "pow2 (- 53) \<le> (1 / 2 :: rat)" by (simp add: pow2_def)
  then have "?r * pow2 (- 53) \<le> ?r * (1 / 2)" using rpos by (rule mult_left_mono)
  then have "?r \<le> 2 * v" using e by linarith
  then have "?r * pow2 (- 53) \<le> 2 * v * pow2 (- 53)" by (intro mult_right_mono) (simp_all add: less_imp_le)
  also have "2 * v * pow2 (- 53) = v * pow2 (- 52)" by (simp add: pow2_def)
  finally show ?thesis using e by linarith
qed

lemma pow2_m52: "pow2 (- 52) = 1 / 4503599627370496"
  by (simp add: pow2_def)

lemma pow2_m53: "pow2 (- 53) = 1 / 9007199254740992"
  by (simp add: pow2_def)

lemma pow2_min_normal: "pow2 (- 1022) < 1 / 1000"
  using pow2_strict_mono[of "- 1022" "- 10"] by (simp add: pow2_def)

lemma fl_near:
  assumes "1 / 1000 \<le> x" "x \<le> 4000000"
  shows "x - 1 / 1000000 \<le> fl x" "fl x \<le> x + 1 / 1000000"
proof -
  have "\<bar>fl x - x\<bar> \<le> x * pow2 (- 53)"
    using fl_err_rel[of x] pow2_min_normal assms by simp
  also have "\<dots> \<le> 4000000 * pow2 (- 53)" using assms by (intro mult_right_mono) (simp_all add: less_imp_le)
  also have "\<dots> \<le> 1 / 1000000" by (simp add: pow2_m53)
  finally have "\<bar>fl x - x\<bar> \<le> 1 / 1000000" .
  then show "x - 1 / 1000000 \<le> fl x" "fl x \<le> x + 1 / 1000000" by linarith+
qed

lemma round_equity_price_near:
  assumes "is_double v" "1 / 100 \<le> v" "v \<le> 2000000" "round_equity_price (Some v) = Some w"
  shows "\<bar>w - v\<bar> \<le> 51 / 10000"
proof -
  define q :: rat where "q = (if v \<ge> 1 then 100 else 10000)"
  define k where "k = of_int \<lfloor>repr_dec v * q + 1 / 2\<rfloor> / q"
  have q: "q = 100 \<or> q = 10000" by (simp add: q_def)
  have w: "w = fl k" using assms by (simp add: round_equity_price_def k_def q_def Let_def)
  have r: "\<bar>repr_dec v - v\<bar> \<le> v * pow2 (- 52)"
    using assms pow2_min_normal by (intro repr_dec_near) linarith+
  have "v * pow2 (- 52) \<le> 2000000 * pow2 (- 52)" using assms by (intro mult_right_mono) (simp_all add: less_imp_le)
  then have r': "\<bar>repr_dec v - v\<bar> \<le> 1 / 1000000" using r unfolding pow2_m52 by linarith
  define f :: rat where "f = of_int \<lfloor>repr_dec v * q + 1 / 2\<rfloor>"
  have "\<bar>f - repr_dec v * q\<bar> \<le> 1 / 2"
    unfolding f_def using floor_correct[of "repr_dec v * q + 1 / 2"] by linarith
  moreover have "k = f / q" by (simp add: k_def f_def)
  ultimately have near: "\<bar>k - repr_dec v\<bar> \<le> 1 / 200"
  proof -
    have "f / 100 = f * (1 / 100)" "f / 10000 = f * (1 / 10000)" by simp_all
    with q \<open>k = f / q\<close> \<open>\<bar>f - repr_dec v * q\<bar> \<le> 1 / 2\<close> show ?thesis
      by (elim disjE) (hypsubst, linarith)+
  qed
  then have "1 / 1000 \<le> k" "k \<le> 4000000" using r' assms by linarith+
  from fl_near[OF this] show ?thesis unfolding w using near r' by linarith
qed

lemma AU_consts_near:
  "24 / 1000 \<le> AU_SLIP_PCT" "AU_SLIP_PCT \<le> 26 / 1000"
  "799 / 10000 \<le> AU_FLATTEN_SLIP_PCT" "AU_FLATTEN_SLIP_PCT \<le> 801 / 10000"
  "199 / 10000 \<le> AU_MIN_SLIP" "AU_MIN_SLIP \<le> 201 / 10000" "fl (1 / 100) \<le> 11 / 1000"
  unfolding AU_SLIP_PCT_def AU_FLATTEN_SLIP_PCT_def AU_MIN_SLIP_def
  using fl_near[of "25 / 1000", simplified] fl_near[of "8 / 100", simplified] fl_near[of "2 / 100", simplified]
    fl_near[of "1 / 100", simplified] by simp_all

definition au_slip :: "rat \<Rightarrow> bool \<Rightarrow> rat" where
  "au_slip px flatten = max (fmul px (if flatten then AU_FLATTEN_SLIP_PCT else AU_SLIP_PCT)) AU_MIN_SLIP"

lemma au_slip_bounds:
  assumes "1 / 20 \<le> px" "px < 1000000"
  shows "199 / 10000 \<le> au_slip px flatten" "au_slip px flatten \<le> max (81 / 1000 * px) (201 / 10000)"
proof -
  let ?pct = "if flatten then AU_FLATTEN_SLIP_PCT else AU_SLIP_PCT"
  have pct: "24 / 1000 \<le> ?pct" "?pct \<le> 801 / 10000" using AU_consts_near by (cases flatten; simp; linarith?)+
  have p: "px * (24 / 1000) \<le> px * ?pct" "px * ?pct \<le> px * (801 / 10000)"
    using pct assms by (intro mult_left_mono; linarith)+
  have "fl (px * ?pct) \<le> px * ?pct + 1 / 1000000" using p assms by (intro fl_near) linarith+
  then show "199 / 10000 \<le> au_slip px flatten" "au_slip px flatten \<le> max (81 / 1000 * px) (201 / 10000)"
    using p assms AU_consts_near(5,6) unfolding au_slip_def fmul_def by linarith+
qed

text \<open>
  The aggressive ASX limit goes through the reference price: a sell at least a cent
  below it and a buy at least a cent above it, so it trades at the quote; and from fifty cents
  up it stays inside the ten percent price collar, flattening included.
\<close>

theorem aggressive_limit_through_quote:
  assumes "aggressive_limit_price side px flatten = Inr want" "is_double px" "1 / 20 \<le> px"
  shows "(if lower side = ''sell'' then want \<le> px - 1 / 100 else px + 1 / 100 \<le> want)
    \<and> (1 / 2 \<le> px \<longrightarrow> \<bar>want - px\<bar> \<le> px / 10)"
proof -
  let ?sell = "lower side = ''sell''"
  have px: "px < 1000000"
    using assms(1) by (auto simp: aggressive_limit_price_def is_sane_equity_price_def MAX_SANE_EQUITY_PX_def split: if_splits)
  define s where "s = au_slip px flatten"
  define x where "x = (if ?sell then px - s else px + s)"
  have s: "199 / 10000 \<le> s" "s \<le> max (81 / 1000 * px) (201 / 10000)"
    using au_slip_bounds assms(3) px by (simp_all add: s_def)
  have x: "1 / 50 \<le> x" "x \<le> 1100000" using s assms(3) px by (auto simp: x_def max_def split: if_splits)
  then have fx: "x - 1 / 1000000 \<le> fl x" "fl x \<le> x + 1 / 1000000" by (intro fl_near; linarith)+
  have ml: "max (fl (1 / 100)) (fl x) = fl x" using fx x AU_consts_near(7) by linarith
  have raw: "(if ?sell then fsub px s else fadd px s) = fl x" by (simp add: x_def fsub_def fadd_def)
  have "round_equity_price (Some (max (fl (1 / 100)) (if ?sell then fsub px s else fadd px s))) = Some want"
    using assms(1)
    by (auto simp: aggressive_limit_price_def Let_def au_slip_def[symmetric] s_def[symmetric]
        is_sane_equity_price_def simp del: if_split_eq1 split: if_splits option.splits)
  then have "round_equity_price (Some (fl x)) = Some want" by (simp only: raw ml)
  then have "\<bar>want - fl x\<bar> \<le> 51 / 10000"
    using fx x by (intro round_equity_price_near) (simp_all add: is_double_fl)
  then have w: "\<bar>want - x\<bar> \<le> 52 / 10000" using fx by linarith
  show ?thesis
  proof (cases ?sell)
    case True
    then have "\<bar>want - (px - s)\<bar> \<le> 52 / 10000" using w by (simp add: x_def)
    then have "want \<le> px - 1 / 100" "1 / 2 \<le> px \<longrightarrow> \<bar>want - px\<bar> \<le> px / 10"
      using s assms(3) by linarith+
    then show ?thesis using True by simp
  next
    case False
    then have "\<bar>want - (px + s)\<bar> \<le> 52 / 10000" using w by (simp add: x_def)
    then have "px + 1 / 100 \<le> want" "1 / 2 \<le> px \<longrightarrow> \<bar>want - px\<bar> \<le> px / 10"
      using s assms(3) by linarith+
    then show ?thesis using False by simp
  qed
qed

theorem aggressive_limit_through_quote_witness:
  "aggressive_limit_price ''SELL'' 10 True = Inr (fl (92 / 10)) \<and> fl (92 / 10) \<le> 10 - 1 / 100"
proof -
  have e: "aggressive_limit_price ''SELL'' 10 True = Inr (fl (92 / 10))" by code_simp
  have l: "lower ''SELL'' = ''sell''" by code_simp
  show ?thesis using aggressive_limit_through_quote[OF e] e l by (simp add: is_double_def)
qed

text \<open>
  Shaping an ASX order gives a limit order at a sane price, never for a resting stop and
  never off the venue, at least as aggressive as the through-the-market price: a limit the
  caller gave is kept only when it already goes further through the quote.
\<close>

theorem apply_marketable_limit_spec:
  assumes "apply_marketable_limit v exch side order_type limit_price last_px bid ask flatten = Inr (ty, px)"
  shows "ty = ''limit'' \<and> is_sane_equity_price (Some px)
    \<and> \<not> is_resting_stop order_type \<and> uses_marketable_limit v exch
    \<and> (\<exists>ref want. reference_price side last_px bid ask = Inr ref
         \<and> aggressive_limit_price side ref flatten = Inr want
         \<and> (px = want \<or> limit_price = Some px)
         \<and> (if lower side = ''sell'' then px \<le> want else want \<le> px))"
proof -
  have sane: "aggressive_limit_price s r f = Inr w \<Longrightarrow> is_sane_equity_price (Some w)" for s r f w
    by (auto simp: aggressive_limit_price_def Let_def is_sane_equity_price_def split: if_splits option.splits)
  show ?thesis
    using assms
    by (auto simp: apply_marketable_limit_def py_bind_Inr_iff Let_def dest: sane split: if_splits option.splits)
qed

theorem apply_marketable_limit_spec_witness:
  "apply_marketable_limit (Some ''AU'') None ''sell'' (Some ''MKT'') None (Some 10) (Some 9) None False = Inr (''limit'', fl (878 / 100))
   \<and> is_sane_equity_price (Some (fl (878 / 100)))"
proof -
  have "apply_marketable_limit (Some ''AU'') None ''sell'' (Some ''MKT'') None (Some 10) (Some 9) None False
      = Inr (''limit'', fl (878 / 100))" by code_simp
  then show ?thesis using apply_marketable_limit_spec by blast
qed

end
