(* ===== verification/Pretrade.thy ===== *)
theory Pretrade
  imports Trading_Controls Settings Broker_Models
begin

text \<open>
  \<open>app/execution/sizing.py\<close>, \<open>policy.py\<close> and \<open>pretrade.py\<close>: fractional position sizing, the choice of
  order type, and the deterministic validator that runs after an order intent exists and again
  right before it is submitted.  The keyword arguments of \<open>validate\<close> are one record; the check id
  and the clock do not influence the verdict and are left out.  A division by a zero entry
  price raises, so the functions are in the error type.
\<close>

definition py_div :: "rat \<Rightarrow> rat \<Rightarrow> rat py" where
  "py_div x y = (if y = 0 then Inl ZeroDivisionError else Inr (fdiv x y))"

section \<open>Sizing\<close>

record SizingInput =
  si_portfolio_equity :: rat
  si_risk_per_trade_pct :: rat
  si_entry_price :: rat
  si_stop_price :: rat
  si_max_position_pct :: rat
  si_available_buying_power :: rat
  si_min_cash_pct :: rat
  si_liquidity_cap_shares :: "rat option"
  si_sector_cap_notional :: "rat option"
  si_symbol_cap_notional :: "rat option"
  si_existing_symbol_qty :: rat
  si_fractionable :: bool
  si_side :: string

record PositionSizing =
  xs_approved :: bool
  xs_quantity :: rat
  xs_notional :: rat
  xs_risk_amount :: rat
  xs_stop_distance :: rat
  xs_reason :: "string option"

definition sizing_rejected :: "rat \<Rightarrow> rat \<Rightarrow> string \<Rightarrow> PositionSizing" where
  "sizing_rejected risk distance reason =
     \<lparr>xs_approved = False, xs_quantity = 0, xs_notional = 0, xs_risk_amount = risk,
      xs_stop_distance = distance, xs_reason = Some reason\<rparr>"

definition min_opt :: "rat \<Rightarrow> rat option \<Rightarrow> rat" where
  "min_opt q cap = (case cap of Some c \<Rightarrow> min q c | None \<Rightarrow> q)"

definition size_position :: "SizingInput \<Rightarrow> PositionSizing py" where
  "size_position inp =
     (let entry = si_entry_price inp; stop = si_stop_price inp; side = lower (si_side inp);
          distance = \<bar>fsub entry stop\<bar>; bp = si_available_buying_power inp
      in if distance \<le> 0 then Inr (sizing_rejected 0 0 ''stop_distance_invalid'')
         else if side = ''buy'' \<and> stop \<ge> entry then Inr (sizing_rejected 0 distance ''stop_not_below_entry'')
         else if side = ''sell'' \<and> stop \<le> entry
         then Inr (sizing_rejected 0 distance ''stop_not_above_entry_for_short'')
         else (let risk = fmul (si_portfolio_equity inp) (fdiv (si_risk_per_trade_pct inp) 100)
               in py_bind (py_div (fmul (si_portfolio_equity inp) (fdiv (si_max_position_pct inp) 100)) entry)
                 (\<lambda>max_by_position.
                   (let q0 = min (fdiv risk distance) max_by_position;
                        q1 = min q0 (if entry > 0 then fdiv bp entry else 0);
                        q2 = min_opt q1 (si_liquidity_cap_shares inp);
                        q3 = min_opt q2 (map_option (\<lambda>c. fdiv c entry) (si_symbol_cap_notional inp));
                        q4 = min_opt q3 (map_option (\<lambda>c. fdiv c entry) (si_sector_cap_notional inp));
                        q5 = (if si_fractionable inp then q4 else fl (of_int (trunc_int q4)));
                        qty = max 0 q5
                    in if qty \<le> 0 then Inr (sizing_rejected risk distance ''quantity_zero'')
                       else (let notional = fmul qty entry
                             in if notional > fadd bp (fl (1 / 10 ^ 6)) \<and> side = ''buy''
                                then Inr (sizing_rejected risk distance ''buying_power'')
                                else Inr \<lparr>xs_approved = True, xs_quantity = fround 6 qty,
                                          xs_notional = fround 2 notional, xs_risk_amount = risk,
                                          xs_stop_distance = distance, xs_reason = None\<rparr>)))))"

section \<open>Execution policy\<close>

record ExecutionPolicyInput =
  ep_side :: string
  ep_quantity :: rat
  ep_entry_price :: "rat option"
  ep_stop_price :: "rat option"
  ep_spread_bps :: "rat option"
  ep_quote_age_seconds :: "rat option"
  ep_liquidity_shares :: "rat option"
  ep_market_open :: bool
  ep_minutes_to_close :: "rat option"
  ep_urgency :: string
  ep_preferred_order_type :: string
  ep_max_spread_bps :: rat
  ep_max_quote_age_seconds :: rat
  ep_extended_hours_allowed :: bool

record ExecutionPolicyResult =
  er_allowed :: bool
  er_order_type :: string
  er_quantity :: rat
  er_limit_price :: "rat option"
  er_stop_price :: "rat option"
  er_time_in_force :: string
  er_extended_hours :: bool
  er_max_slippage_bps :: rat
  er_cancel_replace_policy :: string
  er_reasons :: "string list"

definition policy_wait ::
  "string \<Rightarrow> rat option \<Rightarrow> rat option \<Rightarrow> string list \<Rightarrow> ExecutionPolicyResult" where
  "policy_wait order_type limit_price stop reasons =
     \<lparr>er_allowed = False, er_order_type = order_type, er_quantity = 0, er_limit_price = limit_price,
      er_stop_price = stop, er_time_in_force = ''day'', er_extended_hours = False,
      er_max_slippage_bps = 30, er_cancel_replace_policy = ''WAIT'', er_reasons = reasons\<rparr>"

definition exceeds :: "rat option \<Rightarrow> rat \<Rightarrow> bool" where
  "exceeds x bound \<longleftrightarrow> (case x of Some v \<Rightarrow> v > bound | None \<Rightarrow> False)"

definition below :: "rat option \<Rightarrow> rat \<Rightarrow> bool" where
  "below x bound \<longleftrightarrow> (case x of Some v \<Rightarrow> v < bound | None \<Rightarrow> False)"

definition spread_type :: "ExecutionPolicyInput \<Rightarrow> string" where
  "spread_type inp =
     (if exceeds (ep_spread_bps inp) (ep_max_spread_bps inp) then ''limit''
      else if ep_preferred_order_type inp = [] then ''limit'' else ep_preferred_order_type inp)"

definition policy_order_type :: "ExecutionPolicyInput \<Rightarrow> string" where
  "policy_order_type inp =
     (if spread_type inp = ''market'' \<and> exceeds (ep_spread_bps inp) 20 then ''limit'' else spread_type inp)"

definition liquidity_cap :: "ExecutionPolicyInput \<Rightarrow> rat option" where
  "liquidity_cap inp = map_option (\<lambda>l. fmul l (fl (5 / 100))) (ep_liquidity_shares inp)"

definition policy_quantity :: "ExecutionPolicyInput \<Rightarrow> rat" where
  "policy_quantity inp =
     (case liquidity_cap inp of
        Some c \<Rightarrow> if ep_quantity inp > c then max 0 c else ep_quantity inp
      | None \<Rightarrow> ep_quantity inp)"

definition policy_reasons :: "ExecutionPolicyInput \<Rightarrow> string list" where
  "policy_reasons inp =
     (if exceeds (ep_spread_bps inp) (ep_max_spread_bps inp) then [''spread_wide_force_limit''] else [])
     @ (if spread_type inp = ''market'' \<and> exceeds (ep_spread_bps inp) 20
        then [''market_forbidden_wide_spread''] else [])
     @ (case liquidity_cap inp of
          Some c \<Rightarrow> if ep_quantity inp > c then [''liquidity_cap''] else [] | None \<Rightarrow> [])"

definition select_execution :: "ExecutionPolicyInput \<Rightarrow> ExecutionPolicyResult" where
  "select_execution inp =
     (let buy = (lower (ep_side inp) = ''buy''); stop = ep_stop_price inp
      in if ep_quantity inp \<le> 0 then policy_wait ''limit'' None stop [''quantity_zero'']
         else if \<not> ep_market_open inp \<and> \<not> ep_extended_hours_allowed inp
         then policy_wait ''limit'' None stop [''market_closed'']
         else if exceeds (ep_quote_age_seconds inp) (ep_max_quote_age_seconds inp)
         then policy_wait ''limit'' None stop [''stale_quote'']
         else if stop = None \<and> buy then policy_wait ''limit'' None None [''stop_required'']
         else if below (ep_minutes_to_close inp) 15 \<and> buy
         then policy_wait ''limit'' None stop [''near_close_block'']
         else if policy_order_type inp = ''limit'' \<and> ep_entry_price inp = None
         then policy_wait ''limit'' None stop [''limit_price_required'']
         else if policy_quantity inp \<le> 0
         then policy_wait (policy_order_type inp) (ep_entry_price inp) stop (policy_reasons inp @ [''qty_zero''])
         else \<lparr>er_allowed = True, er_order_type = policy_order_type inp,
               er_quantity = fround 6 (policy_quantity inp),
               er_limit_price = ep_entry_price inp, er_stop_price = stop, er_time_in_force = ''day'',
               er_extended_hours = False, er_max_slippage_bps = 30,
               er_cancel_replace_policy =
                 (if ep_urgency inp = ''high'' then ''REPLACE_REMAINDER''
                  else if below (ep_minutes_to_close inp) 30 then ''CANCEL_REMAINDER'' else ''WAIT''),
               er_reasons = (if policy_reasons inp = [] then [''ok''] else policy_reasons inp)\<rparr>)"

section \<open>The validator\<close>

record pretrade_request =
  pq_side :: string
  pq_quantity :: rat
  pq_entry_price :: rat
  pq_stop_price :: "rat option"
  pq_equity :: rat
  pq_cash :: rat
  pq_buying_power :: rat
  pq_gross_exposure :: rat
  pq_position_qty :: rat
  pq_data_quality_score :: rat
  pq_quote_age_seconds :: "rat option"
  pq_spread_bps :: "rat option"
  pq_hard_vetoes :: "string list"
  pq_asset_tradable :: bool
  pq_market_open :: bool
  pq_account_blocked :: bool
  pq_duplicate_client_order :: bool
  pq_conflicting_open_order :: bool
  pq_decision_expired :: bool
  pq_open_positions :: int

record PretradeCheckResult =
  pr_status :: PretradeStatus
  pr_requested_quantity :: rat
  pr_approved_quantity :: rat
  pr_requested_notional :: rat
  pr_approved_notional :: rat
  pr_violations :: "string list"
  pr_warnings :: "string list"
  pr_position_before :: rat
  pr_position_after :: rat
  pr_cash_before :: rat
  pr_cash_after :: rat
  pr_gross_exposure_before :: rat
  pr_gross_exposure_after :: rat
  pr_risk_amount :: rat
  pr_stop_distance :: rat

definition pretrade_blocked :: "pretrade_request \<Rightarrow> string list \<Rightarrow> PretradeCheckResult" where
  "pretrade_blocked q violations =
     \<lparr>pr_status = (if list_ex (\<lambda>v. startswith v ''emergency'' \<or> startswith v ''system_'') violations
                   then PT_SYSTEM_BLOCKED else PT_REJECTED),
      pr_requested_quantity = pq_quantity q, pr_approved_quantity = 0,
      pr_requested_notional = fmul (pq_quantity q) (pq_entry_price q), pr_approved_notional = 0,
      pr_violations = violations, pr_warnings = [], pr_position_before = pq_position_qty q,
      pr_position_after = 0, pr_cash_before = pq_cash q, pr_cash_after = 0,
      pr_gross_exposure_before = pq_gross_exposure q, pr_gross_exposure_after = 0,
      pr_risk_amount = 0, pr_stop_distance = 0\<rparr>"

definition quality_violations :: "settings \<Rightarrow> pretrade_request \<Rightarrow> string list" where
  "quality_violations cfg q =
     (if pq_data_quality_score q < cfg_data_quality_hard_fail_threshold cfg
      then [''data_quality_hard_fail''] else [])"

definition quality_warnings :: "settings \<Rightarrow> pretrade_request \<Rightarrow> string list" where
  "quality_warnings cfg q =
     (if \<not> pq_data_quality_score q < cfg_data_quality_hard_fail_threshold cfg
         \<and> pq_data_quality_score q < cfg_data_quality_warning_threshold cfg
      then [''data_quality_warning''] else [])"

definition gate_violations :: "settings \<Rightarrow> pretrade_request \<Rightarrow> string list" where
  "gate_violations cfg q =
     (if pq_decision_expired q then [''decision_expired''] else [])
     @ (if pq_account_blocked q then [''account_blocked''] else [])
     @ (if \<not> pq_market_open q \<and> \<not> cfg_enable_extended_hours_orders cfg then [''market_closed''] else [])
     @ (if \<not> pq_asset_tradable q then [''asset_not_tradable''] else [])
     @ (if pq_duplicate_client_order q then [''duplicate_client_order''] else [])
     @ (if pq_conflicting_open_order q then [''conflicting_open_order''] else [])
     @ quality_violations cfg q
     @ (if exceeds (pq_quote_age_seconds q) (of_int (cfg_latest_quote_max_age_seconds cfg * 20))
        then [''stale_quote''] else [])
     @ (if exceeds (pq_spread_bps q) (cfg_max_order_spread_bps cfg) then [''spread_too_wide''] else [])
     @ (if pq_open_positions q \<ge> cfg_max_open_positions cfg \<and> lower (pq_side q) = ''buy'' \<and> pq_position_qty q \<le> 0
        then [''max_open_positions''] else [])
     @ (if lower (pq_side q) = ''sell'' \<and> pq_quantity q > fadd \<bar>pq_position_qty q\<bar> (fl (1 / 10 ^ 9))
           \<and> \<not> cfg_enable_short_selling cfg \<and> pq_position_qty q \<le> 0
        then [''short_selling_disabled''] else [])"

definition pretrade_sizing_input :: "settings \<Rightarrow> pretrade_request \<Rightarrow> SizingInput" where
  "pretrade_sizing_input cfg q =
     \<lparr>si_portfolio_equity = pq_equity q, si_risk_per_trade_pct = cfg_risk_per_trade_pct cfg,
      si_entry_price = pq_entry_price q, si_stop_price = or_float (pq_stop_price q) 0,
      si_max_position_pct = cfg_max_position_pct cfg, si_available_buying_power = pq_buying_power q,
      si_min_cash_pct = cfg_min_cash_pct cfg, si_liquidity_cap_shares = None,
      si_sector_cap_notional = None, si_symbol_cap_notional = None,
      si_existing_symbol_qty = pq_position_qty q, si_fractionable = True, si_side = pq_side q\<rparr>"

definition pretrade_verdict ::
  "settings \<Rightarrow> pretrade_request \<Rightarrow> PositionSizing \<Rightarrow> PretradeCheckResult" where
  "pretrade_verdict cfg q sz =
     (let quantity = pq_quantity q; entry = pq_entry_price q; buy = (lower (pq_side q) = ''buy'');
          violations = gate_violations cfg q
            @ (if xs_approved sz then []
               else [case xs_reason sz of Some r \<Rightarrow> if r = [] then ''sizing_rejected'' else r
                     | None \<Rightarrow> ''sizing_rejected'']);
          approved_qty = (if xs_approved sz then min quantity (xs_quantity sz) else 0);
          reduced = (fadd approved_qty (fl (1 / 10 ^ 9)) < quantity);
          value_traded = fmul approved_qty entry
      in if violations \<noteq> []
         then \<lparr>pr_status = (if ''emergency_stop'' \<notin> set violations then PT_REJECTED else PT_SYSTEM_BLOCKED),
               pr_requested_quantity = quantity, pr_approved_quantity = 0,
               pr_requested_notional = fmul quantity entry, pr_approved_notional = 0,
               pr_violations = violations, pr_warnings = quality_warnings cfg q,
               pr_position_before = pq_position_qty q, pr_position_after = 0, pr_cash_before = pq_cash q,
               pr_cash_after = 0, pr_gross_exposure_before = pq_gross_exposure q,
               pr_gross_exposure_after = 0, pr_risk_amount = xs_risk_amount sz,
               pr_stop_distance = xs_stop_distance sz\<rparr>
         else \<lparr>pr_status =
                 (if cfg_require_manual_order_approval cfg then PT_REQUIRES_MANUAL_APPROVAL
                  else if reduced then PT_APPROVED_WITH_REDUCTION else PT_APPROVED),
               pr_requested_quantity = quantity, pr_approved_quantity = approved_qty,
               pr_requested_notional = fmul quantity entry, pr_approved_notional = value_traded,
               pr_violations = [],
               pr_warnings = quality_warnings cfg q @ (if reduced then [''quantity_reduced_by_sizing''] else []),
               pr_position_before = pq_position_qty q,
               pr_position_after = fadd (pq_position_qty q) (if buy then approved_qty else - approved_qty),
               pr_cash_before = pq_cash q,
               pr_cash_after = fsub (pq_cash q) (if buy then value_traded else fmul (- approved_qty) entry),
               pr_gross_exposure_before = pq_gross_exposure q,
               pr_gross_exposure_after = fadd (pq_gross_exposure q) value_traded,
               pr_risk_amount = xs_risk_amount sz, pr_stop_distance = xs_stop_distance sz\<rparr>)"

definition pretrade_validate ::
  "settings \<Rightarrow> TradingControlState \<Rightarrow> pretrade_request \<Rightarrow> PretradeCheckResult py" where
  "pretrade_validate cfg snap q =
     (if ts_value (tc_state snap) = ''emergency_stop'' then Inr (pretrade_blocked q [''emergency_stop''])
      else if ts_value (tc_state snap) = ''paused'' then Inr (pretrade_blocked q [''system_paused''])
      else if pq_hard_vetoes q \<noteq> []
      then Inr (pretrade_blocked q (map (\<lambda>v. ''hard_veto:'' @ v) (pq_hard_vetoes q)))
      else if pq_stop_price q = None \<and> lower (pq_side q) = ''buy''
      then Inr (pretrade_blocked q (gate_violations cfg q @ [''stop_required'']))
      else py_bind (size_position (pretrade_sizing_input cfg q)) (\<lambda>sz. Inr (pretrade_verdict cfg q sz)))"

section \<open>What sizing guarantees\<close>

lemma py_div_Inr: "py_div x y = Inr z \<longleftrightarrow> y \<noteq> 0 \<and> z = fdiv x y"
  by (auto simp: py_div_def)

lemma min_opt_le: "min_opt q c \<le> q" "c = Some x \<Longrightarrow> min_opt q c \<le> x"
  by (auto simp: min_opt_def split: option.splits)

text \<open>
  An approved fractional size is never more, after the same rounding to six places, than
  the dollar risk over the stop distance, the position limit over the price, the buying power
  over the price and any cap given; the price is positive and the stop is on the losing side.
\<close>

theorem size_position_bounds:
  assumes sz: "size_position inp = Inr s" "xs_approved s" and fr: "si_fractionable inp"
  shows "0 < si_entry_price inp
    \<and> (lower (si_side inp) = ''buy'' \<longrightarrow> si_stop_price inp < si_entry_price inp)
    \<and> (lower (si_side inp) = ''sell'' \<longrightarrow> si_entry_price inp < si_stop_price inp)
    \<and> 0 \<le> xs_quantity s
    \<and> xs_quantity s \<le> fround 6 (fdiv (xs_risk_amount s) \<bar>fsub (si_entry_price inp) (si_stop_price inp)\<bar>)
    \<and> xs_quantity s \<le> fround 6 (fdiv (fmul (si_portfolio_equity inp) (fdiv (si_max_position_pct inp) 100)) (si_entry_price inp))
    \<and> xs_quantity s \<le> fround 6 (fdiv (si_available_buying_power inp) (si_entry_price inp))
    \<and> (\<forall>c. si_liquidity_cap_shares inp = Some c \<longrightarrow> xs_quantity s \<le> fround 6 c)
    \<and> (\<forall>c. si_symbol_cap_notional inp = Some c \<longrightarrow> xs_quantity s \<le> fround 6 (fdiv c (si_entry_price inp)))
    \<and> (\<forall>c. si_sector_cap_notional inp = Some c \<longrightarrow> xs_quantity s \<le> fround 6 (fdiv c (si_entry_price inp)))"
proof -
  let ?e = "si_entry_price inp" and ?d = "\<bar>fsub (si_entry_price inp) (si_stop_price inp)\<bar>"
  define risk where "risk = fmul (si_portfolio_equity inp) (fdiv (si_risk_per_trade_pct inp) 100)"
  define mp where "mp = fdiv (fmul (si_portfolio_equity inp) (fdiv (si_max_position_pct inp) 100)) ?e"
  define q1 where "q1 = min (min (fdiv risk ?d) mp) (if ?e > 0 then fdiv (si_available_buying_power inp) ?e else 0)"
  define q2 where "q2 = min_opt q1 (si_liquidity_cap_shares inp)"
  define q3 where "q3 = min_opt q2 (map_option (\<lambda>c. fdiv c ?e) (si_symbol_cap_notional inp))"
  define q4 where "q4 = min_opt q3 (map_option (\<lambda>c. fdiv c ?e) (si_sector_cap_notional inp))"
  note qdefs = q4_def q3_def q2_def q1_def mp_def risk_def
  have main: "0 < q4 \<and> xs_quantity s = fround 6 q4 \<and> xs_risk_amount s = risk
      \<and> (lower (si_side inp) = ''buy'' \<longrightarrow> si_stop_price inp < ?e)
      \<and> (lower (si_side inp) = ''sell'' \<longrightarrow> ?e < si_stop_price inp)"
    using sz fr unfolding size_position_def Let_def py_bind_Inr_iff py_div_Inr
    by (auto simp: qdefs[symmetric] sizing_rejected_def py_bind_Inr_iff py_div_Inr not_le split: if_splits)
  have le: "q4 \<le> q3" "q3 \<le> q2" "q2 \<le> q1" by (simp_all add: q4_def q3_def q2_def min_opt_le)
  have epos: "0 < ?e" using main le by (auto simp: q1_def split: if_splits)
  have caps: "q4 \<le> fdiv risk ?d" "q4 \<le> mp" "q4 \<le> fdiv (si_available_buying_power inp) ?e"
    using le epos by (auto simp: q1_def)
  have opt: "si_liquidity_cap_shares inp = Some c \<Longrightarrow> q4 \<le> c"
    "si_symbol_cap_notional inp = Some c \<Longrightarrow> q4 \<le> fdiv c ?e"
    "si_sector_cap_notional inp = Some c \<Longrightarrow> q4 \<le> fdiv c ?e" for c
    using le min_opt_le(2)[of "si_liquidity_cap_shares inp" c q1]
      min_opt_le(2)[of "map_option (\<lambda>c. fdiv c ?e) (si_symbol_cap_notional inp)" "fdiv c ?e" q2]
      min_opt_le(2)[of "map_option (\<lambda>c. fdiv c ?e) (si_sector_cap_notional inp)" "fdiv c ?e" q3]
    by (simp_all add: q2_def q3_def q4_def)
  show ?thesis
    using main epos caps opt by (auto simp: mp_def intro!: fround_mono fround_nonneg)
qed

definition sample_sizing_input :: SizingInput where
  "sample_sizing_input =
     \<lparr>si_portfolio_equity = 100000, si_risk_per_trade_pct = 1, si_entry_price = 50, si_stop_price = 48,
      si_max_position_pct = 10, si_available_buying_power = 20000, si_min_cash_pct = 10,
      si_liquidity_cap_shares = None, si_sector_cap_notional = None, si_symbol_cap_notional = None,
      si_existing_symbol_qty = 0, si_fractionable = True, si_side = ''BUY''\<rparr>"

theorem size_position_bounds_witness:
  "\<exists>s. size_position sample_sizing_input = Inr s \<and> xs_quantity s = 200 \<and> 200 \<le> fround 6 (fdiv 20000 50)"
proof -
  have ev: "fsub 50 48 = 2" "fmul 100000 (fdiv 1 100) = 1000" "fdiv 1000 2 = 500"
    "fmul 100000 (fdiv 10 100) = 10000" "fdiv 10000 50 = 200" "fdiv 20000 50 = 400" "fmul 200 50 = 10000"
    "fround 6 200 = 200" "fround 2 10000 = 10000" "\<not> fadd 20000 (fl (1 / 10 ^ 6)) < 10000" "lower ''BUY'' = ''buy''"
    by code_simp+
  have e: "size_position sample_sizing_input =
      Inr \<lparr>xs_approved = True, xs_quantity = 200, xs_notional = 10000, xs_risk_amount = 1000,
           xs_stop_distance = 2, xs_reason = None\<rparr>"
    using ev(10) by (simp add: size_position_def sample_sizing_input_def Let_def py_div_def min_opt_def ev(1-9,11))
  define s where "s = \<lparr>xs_approved = True, xs_quantity = 200, xs_notional = 10000, xs_risk_amount = 1000,
           xs_stop_distance = 2, xs_reason = None\<rparr>"
  have f: "si_fractionable sample_sizing_input" "xs_approved s" "xs_quantity s = 200"
    "si_available_buying_power sample_sizing_input = 20000" "si_entry_price sample_sizing_input = 50"
    by (simp_all add: sample_sizing_input_def s_def)
  have e': "size_position sample_sizing_input = Inr s" using e by (simp only: s_def)
  have "xs_quantity s \<le> fround 6 (fdiv (si_available_buying_power sample_sizing_input) (si_entry_price sample_sizing_input))"
    using size_position_bounds[OF e' f(2,1)] by blast
  then have "200 \<le> fround 6 (fdiv 20000 50)" by (simp only: f(3-5))
  then show ?thesis using e' f(3) by blast
qed

section \<open>What the policy guarantees\<close>

text \<open>
  An order the policy lets through is on an open (or permitted) session with a fresh
  quote; a buy carries a stop and is at least fifteen minutes from the close; a limit order has
  a price; a market order never goes out on a spread over twenty basis points or over the
  maximum; and the size never exceeds the request or five percent of the liquidity.
\<close>

theorem select_execution_safe:
  assumes "er_allowed (select_execution inp)"
  shows "(ep_market_open inp \<or> ep_extended_hours_allowed inp)
    \<and> \<not> exceeds (ep_quote_age_seconds inp) (ep_max_quote_age_seconds inp)
    \<and> (lower (ep_side inp) = ''buy'' \<longrightarrow> ep_stop_price inp \<noteq> None \<and> \<not> below (ep_minutes_to_close inp) 15)
    \<and> (er_order_type (select_execution inp) = ''limit'' \<longrightarrow> er_limit_price (select_execution inp) \<noteq> None)
    \<and> (er_order_type (select_execution inp) = ''market'' \<longrightarrow>
         \<not> exceeds (ep_spread_bps inp) 20 \<and> \<not> exceeds (ep_spread_bps inp) (ep_max_spread_bps inp))
    \<and> er_quantity (select_execution inp) \<le> fround 6 (ep_quantity inp)
    \<and> (\<forall>l. ep_liquidity_shares inp = Some l \<longrightarrow>
         er_quantity (select_execution inp) \<le> fround 6 (fmul l (fl (5 / 100))))"
proof -
  have wait [simp]: "\<not> er_allowed (policy_wait a b c d)" for a b c d by (simp add: policy_wait_def)
  have g: "\<not> ep_quantity inp \<le> 0" "\<not> (\<not> ep_market_open inp \<and> \<not> ep_extended_hours_allowed inp)"
    "\<not> exceeds (ep_quote_age_seconds inp) (ep_max_quote_age_seconds inp)"
    "\<not> (ep_stop_price inp = None \<and> lower (ep_side inp) = ''buy'')"
    "\<not> (below (ep_minutes_to_close inp) 15 \<and> lower (ep_side inp) = ''buy'')"
    "\<not> (policy_order_type inp = ''limit'' \<and> ep_entry_price inp = None)" "\<not> policy_quantity inp \<le> 0"
    using assms unfolding select_execution_def Let_def by (auto split: if_splits)
  have res: "er_order_type (select_execution inp) = policy_order_type inp"
    "er_limit_price (select_execution inp) = ep_entry_price inp"
    "er_quantity (select_execution inp) = fround 6 (policy_quantity inp)"
    unfolding select_execution_def Let_def if_not_P[OF g(1)] if_not_P[OF g(2)] if_not_P[OF g(3)] if_not_P[OF g(4)]
      if_not_P[OF g(5)] if_not_P[OF g(6)] if_not_P[OF g(7)] by simp_all
  have "policy_order_type inp = ''market'' \<longrightarrow>
      \<not> exceeds (ep_spread_bps inp) 20 \<and> \<not> exceeds (ep_spread_bps inp) (ep_max_spread_bps inp)"
    by (simp add: policy_order_type_def spread_type_def)
  moreover have "policy_quantity inp \<le> ep_quantity inp"
    "\<forall>l. ep_liquidity_shares inp = Some l \<longrightarrow> policy_quantity inp \<le> fmul l (fl (5 / 100))"
    using g(7) by (auto simp: policy_quantity_def liquidity_cap_def split: option.splits if_splits)
  ultimately show ?thesis unfolding res using g by (auto intro: fround_mono)
qed

definition sample_policy :: ExecutionPolicyInput where
  "sample_policy =
     \<lparr>ep_side = ''buy'', ep_quantity = 100, ep_entry_price = Some 50, ep_stop_price = Some 48,
      ep_spread_bps = Some 25, ep_quote_age_seconds = Some 3, ep_liquidity_shares = Some 1000,
      ep_market_open = True, ep_minutes_to_close = Some 60, ep_urgency = ''normal'',
      ep_preferred_order_type = ''market'', ep_max_spread_bps = 50, ep_max_quote_age_seconds = 600,
      ep_extended_hours_allowed = False\<rparr>"

theorem select_execution_safe_witness:
  "er_allowed (select_execution sample_policy) \<and> er_order_type (select_execution sample_policy) = ''limit''
   \<and> er_quantity (select_execution sample_policy) \<le> fround 6 (fmul 1000 (fl (5 / 100)))"
proof -
  have a: "er_allowed (select_execution sample_policy)" "er_order_type (select_execution sample_policy) = ''limit''"
    by code_simp+
  have "ep_liquidity_shares sample_policy = Some 1000" by (simp add: sample_policy_def)
  then show ?thesis using select_execution_safe[OF a(1)] a by blast
qed

section \<open>What the validator guarantees\<close>

lemma ts_value_cases [simp]:
  "ts_value s = ''emergency_stop'' \<longleftrightarrow> s = EMERGENCY_STOP" "ts_value s = ''paused'' \<longleftrightarrow> s = PAUSED"
  by (cases s; simp)+

definition pt_cleared :: "PretradeStatus \<Rightarrow> bool" where
  "pt_cleared s \<longleftrightarrow> s \<in> {PT_APPROVED, PT_APPROVED_WITH_REDUCTION, PT_REQUIRES_MANUAL_APPROVAL}"

lemma blocked_not_cleared: "\<not> pt_cleared (pr_status (pretrade_blocked q vs))" "pr_approved_quantity (pretrade_blocked q vs) = 0"
  "pr_violations (pretrade_blocked q vs) = vs"
  by (simp_all add: pretrade_blocked_def pt_cleared_def)

lemma verdict_cleared_iff:
  "pt_cleared (pr_status (pretrade_verdict cfg q sz)) \<longleftrightarrow> gate_violations cfg q = [] \<and> xs_approved sz"
  by (simp add: pretrade_verdict_def pt_cleared_def Let_def)

lemma verdict_quantity:
  "pr_approved_quantity (pretrade_verdict cfg q sz) =
     (if gate_violations cfg q = [] \<and> xs_approved sz then min (pq_quantity q) (xs_quantity sz) else 0)"
  by (simp add: pretrade_verdict_def Let_def)

lemma gates_open_iff:
  "gate_violations cfg q = [] \<longleftrightarrow>
     \<not> pq_decision_expired q \<and> \<not> pq_account_blocked q \<and> (pq_market_open q \<or> cfg_enable_extended_hours_orders cfg)
     \<and> pq_asset_tradable q \<and> \<not> pq_duplicate_client_order q \<and> \<not> pq_conflicting_open_order q
     \<and> cfg_data_quality_hard_fail_threshold cfg \<le> pq_data_quality_score q
     \<and> (\<forall>age. pq_quote_age_seconds q = Some age \<longrightarrow> age \<le> of_int (cfg_latest_quote_max_age_seconds cfg * 20))
     \<and> (\<forall>spread. pq_spread_bps q = Some spread \<longrightarrow> spread \<le> cfg_max_order_spread_bps cfg)
     \<and> (lower (pq_side q) = ''buy'' \<and> pq_position_qty q \<le> 0 \<longrightarrow> pq_open_positions q < cfg_max_open_positions cfg)
     \<and> (lower (pq_side q) = ''sell'' \<and> \<not> cfg_enable_short_selling cfg \<and> pq_position_qty q \<le> 0 \<longrightarrow>
          pq_quantity q \<le> fadd \<bar>pq_position_qty q\<bar> (fl (1 / 10 ^ 9)))"
proof -
  have "exceeds x b = (\<not> (\<forall>v. x = Some v \<longrightarrow> v \<le> b))" for x b by (cases x) (auto simp: exceeds_def)
  moreover have "((if b then [v] else []) = []) = (\<not> b)" for b and v :: string by simp
  ultimately show ?thesis unfolding gate_violations_def quality_violations_def
    by (simp only: append_is_Nil_conv de_Morgan_conj not_less not_le not_not imp_conv_disj disj_ac)
qed

text \<open>With no cap given the size is the least of the risk, the position limit and the buying power.\<close>

lemma pretrade_size_iff:
  assumes "size_position (pretrade_sizing_input cfg q) = Inr s" "entry = pq_entry_price q" "stop = or_float (pq_stop_price q) 0"
    "qty = min (min (fdiv (fmul (pq_equity q) (fdiv (cfg_risk_per_trade_pct cfg) 100)) \<bar>fsub entry stop\<bar>)
                 (fdiv (fmul (pq_equity q) (fdiv (cfg_max_position_pct cfg) 100)) entry))
            (fdiv (pq_buying_power q) entry)"
  shows "(xs_approved s \<longleftrightarrow>
      0 < \<bar>fsub entry stop\<bar> \<and> (lower (pq_side q) = ''buy'' \<longrightarrow> stop < entry) \<and> (lower (pq_side q) = ''sell'' \<longrightarrow> entry < stop)
      \<and> 0 < entry \<and> 0 < qty \<and> (lower (pq_side q) = ''buy'' \<longrightarrow> fmul qty entry \<le> fadd (pq_buying_power q) (fl (1 / 10 ^ 6))))
    \<and> (xs_approved s \<longrightarrow> xs_quantity s = fround 6 qty)"
proof (cases "0 < entry")
  case True
  show ?thesis
    using assms(1) True unfolding assms(4) size_position_def pretrade_sizing_input_def Let_def
    by (auto simp: assms(2,3)[symmetric] py_bind_Inr_iff py_div_Inr sizing_rejected_def min_opt_def max_def not_le not_less split: if_splits)
next
  case False
  show ?thesis
    using assms(1) False unfolding size_position_def pretrade_sizing_input_def Let_def
    by (auto simp: assms(2,3)[symmetric] py_bind_Inr_iff py_div_Inr sizing_rejected_def min_opt_def split: if_splits)
qed

lemma verdict_status:
  "pr_status (pretrade_verdict cfg q sz) =
    (if \<not> pt_cleared (pr_status (pretrade_verdict cfg q sz)) then pr_status (pretrade_verdict cfg q sz)
     else if cfg_require_manual_order_approval cfg then PT_REQUIRES_MANUAL_APPROVAL
     else if fadd (pr_approved_quantity (pretrade_verdict cfg q sz)) (fl (1 / 10 ^ 9)) < pq_quantity q then PT_APPROVED_WITH_REDUCTION
     else PT_APPROVED)"
  by (simp add: pretrade_verdict_def pt_cleared_def Let_def)

lemma validate_cases:
  assumes "pretrade_validate cfg snap q = Inr r"
  shows "if tc_state snap = ACTIVE \<and> pq_hard_vetoes q = [] \<and> (lower (pq_side q) = ''buy'' \<longrightarrow> pq_stop_price q \<noteq> None)
    then \<exists>s. size_position (pretrade_sizing_input cfg q) = Inr s \<and> r = pretrade_verdict cfg q s
    else \<exists>vs. r = pretrade_blocked q vs"
  using assms by (cases "tc_state snap") (auto simp: pretrade_validate_def py_bind_Inr_iff split: if_splits)

text \<open>
  Property C37.  The validator clears an intent exactly when trading is active, the engine raised no hard veto, the decision is
  fresh, the account open, the session open or extended hours allowed, the asset tradable, no order doubles or conflicts with it, the
  data quality, quote age and spread are within their limits, a buy has a free position slot, a sell is no unwanted short sale,
  and the size can be computed: a stop away from the price and on the losing side (a buy must give one), a positive
  price and size, and a buy the account can pay.  The cleared quantity is the smaller of the request and that size, which is the least of
  the risk over the stop distance, the position limit and the buying power, rounded to six places; the status reports a required
  approval or a reduction.  In every other case the cleared quantity is zero.
\<close>

theorem pretrade_cleared_iff:
  assumes "pretrade_validate cfg snap q = Inr r" "entry = pq_entry_price q" "stop = or_float (pq_stop_price q) 0"
    "qty = min (min (fdiv (fmul (pq_equity q) (fdiv (cfg_risk_per_trade_pct cfg) 100)) \<bar>fsub entry stop\<bar>)
                 (fdiv (fmul (pq_equity q) (fdiv (cfg_max_position_pct cfg) 100)) entry))
            (fdiv (pq_buying_power q) entry)"
  shows "if tc_state snap = ACTIVE \<and> pq_hard_vetoes q = []
      \<and> \<not> pq_decision_expired q \<and> \<not> pq_account_blocked q \<and> (pq_market_open q \<or> cfg_enable_extended_hours_orders cfg)
      \<and> pq_asset_tradable q \<and> \<not> pq_duplicate_client_order q \<and> \<not> pq_conflicting_open_order q
      \<and> cfg_data_quality_hard_fail_threshold cfg \<le> pq_data_quality_score q
      \<and> (\<forall>age. pq_quote_age_seconds q = Some age \<longrightarrow> age \<le> of_int (cfg_latest_quote_max_age_seconds cfg * 20))
      \<and> (\<forall>spread. pq_spread_bps q = Some spread \<longrightarrow> spread \<le> cfg_max_order_spread_bps cfg)
      \<and> (lower (pq_side q) = ''buy'' \<and> pq_position_qty q \<le> 0 \<longrightarrow> pq_open_positions q < cfg_max_open_positions cfg)
      \<and> (lower (pq_side q) = ''sell'' \<and> \<not> cfg_enable_short_selling cfg \<and> pq_position_qty q \<le> 0 \<longrightarrow>
           pq_quantity q \<le> fadd \<bar>pq_position_qty q\<bar> (fl (1 / 10 ^ 9)))
      \<and> (lower (pq_side q) = ''buy'' \<longrightarrow> pq_stop_price q \<noteq> None) \<and> 0 < \<bar>fsub entry stop\<bar>
      \<and> (lower (pq_side q) = ''buy'' \<longrightarrow> stop < entry) \<and> (lower (pq_side q) = ''sell'' \<longrightarrow> entry < stop) \<and> 0 < entry \<and> 0 < qty
      \<and> (lower (pq_side q) = ''buy'' \<longrightarrow> fmul qty entry \<le> fadd (pq_buying_power q) (fl (1 / 10 ^ 6)))
    then pr_approved_quantity r = min (pq_quantity q) (fround 6 qty)
      \<and> pr_status r = (if cfg_require_manual_order_approval cfg then PT_REQUIRES_MANUAL_APPROVAL
           else if fadd (pr_approved_quantity r) (fl (1 / 10 ^ 9)) < pq_quantity q then PT_APPROVED_WITH_REDUCTION else PT_APPROVED)
    else pr_approved_quantity r = 0 \<and> pr_status r \<notin> {PT_APPROVED, PT_APPROVED_WITH_REDUCTION, PT_REQUIRES_MANUAL_APPROVAL}"
proof (cases "tc_state snap = ACTIVE \<and> pq_hard_vetoes q = [] \<and> (lower (pq_side q) = ''buy'' \<longrightarrow> pq_stop_price q \<noteq> None)")
  case True
  then obtain s where s: "size_position (pretrade_sizing_input cfg q) = Inr s" "r = pretrade_verdict cfg q s"
    using validate_cases[OF assms(1), unfolded if_P[OF True]] by blast
  note sized = pretrade_size_iff[OF s(1) assms(2-4)]
  show ?thesis
  proof (cases "gate_violations cfg q = [] \<and> xs_approved s")
    case ok: True
    have "pr_approved_quantity r = min (pq_quantity q) (fround 6 qty)" "pt_cleared (pr_status r)"
      using ok sized by (simp_all add: s(2) verdict_quantity verdict_cleared_iff)
    then show ?thesis using True ok[unfolded gates_open_iff] sized verdict_status[of cfg q s] s(2) by simp
  next
    case no: False
    have "pr_approved_quantity r = 0" "\<not> pt_cleared (pr_status r)"
      using no by (auto simp: s(2) verdict_quantity verdict_cleared_iff)
    note zero = this[unfolded pt_cleared_def]
    show ?thesis by (rule if_not_P[THEN iffD2]) (use no[unfolded gates_open_iff sized[THEN conjunct1]] in blast, use zero in blast)
  qed
next
  case False
  then obtain vs where "r = pretrade_blocked q vs" using validate_cases[OF assms(1), unfolded if_not_P[OF False]] by blast
  then have "pr_approved_quantity r = 0" "\<not> pt_cleared (pr_status r)" by (simp_all add: blocked_not_cleared)
  note zero = this[unfolded pt_cleared_def]
  show ?thesis by (rule if_not_P[THEN iffD2]) (use False in blast, use zero in blast)
qed

lemma pretrade_total:
  assumes "size_position (pretrade_sizing_input cfg q) = Inr s"
  shows "\<exists>r. pretrade_validate cfg snap q = Inr r"
  using assms by (simp add: pretrade_validate_def)

lemma size_position_sell_stop:
  assumes "lower (si_side inp) = ''sell''" "si_stop_price inp \<le> si_entry_price inp"
  shows "\<exists>s. size_position inp = Inr s \<and> \<not> xs_approved s"
  using assms by (cases "\<bar>fsub (si_entry_price inp) (si_stop_price inp)\<bar> \<le> 0")
    (simp_all add: size_position_def sizing_rejected_def)

text \<open>
  The validator applies the short-entry stop rule to every sell: a sell whose stop is
  missing, or at or below the price, is rejected with quantity zero even when it only closes a
  long position.
\<close>

theorem pretrade_rejects_protective_sells:
  assumes "lower (pq_side q) = ''sell''" "or_float (pq_stop_price q) 0 \<le> pq_entry_price q"
  shows "\<exists>r. pretrade_validate cfg snap q = Inr r \<and> \<not> pt_cleared (pr_status r) \<and> pr_approved_quantity r = 0"
proof -
  obtain s where s: "size_position (pretrade_sizing_input cfg q) = Inr s" "\<not> xs_approved s"
    using assms size_position_sell_stop[of "pretrade_sizing_input cfg q"] by (auto simp: pretrade_sizing_input_def)
  obtain r where r: "pretrade_validate cfg snap q = Inr r"
    using pretrade_total[OF s(1)] by blast
  have "\<not> pt_cleared (pr_status r)"
    using r s by (auto simp: pretrade_validate_def blocked_not_cleared verdict_cleared_iff split: if_splits)
  moreover have "pr_approved_quantity r = 0"
    using r s by (auto simp: pretrade_validate_def blocked_not_cleared verdict_quantity split: if_splits)
  ultimately show ?thesis using r by blast
qed

definition sample_request :: "string \<Rightarrow> rat option \<Rightarrow> pretrade_request" where
  "sample_request side stop =
     \<lparr>pq_side = side, pq_quantity = 100, pq_entry_price = 50, pq_stop_price = stop, pq_equity = 100000,
      pq_cash = 60000, pq_buying_power = 60000, pq_gross_exposure = 40000, pq_position_qty = 100,
      pq_data_quality_score = 1, pq_quote_age_seconds = None, pq_spread_bps = None,
      pq_hard_vetoes = [], pq_asset_tradable = True, pq_market_open = True, pq_account_blocked = False,
      pq_duplicate_client_order = False, pq_conflicting_open_order = False, pq_decision_expired = False,
      pq_open_positions = 1\<rparr>"

theorem pretrade_rejects_protective_sells_witness:
  "\<exists>r. pretrade_validate default_settings (init_controls 0) (sample_request ''sell'' (Some 48)) = Inr r
     \<and> \<not> pt_cleared (pr_status r) \<and> pr_approved_quantity r = 0"
proof -
  have "lower ''sell'' = ''sell''" by code_simp
  then show ?thesis
    by (intro pretrade_rejects_protective_sells) (simp_all add: sample_request_def or_float_def)
qed

text \<open>A buy of a hundred shares is cleared; with a spread of five percent it is not.\<close>

theorem pretrade_cleared_iff_witness:
  "\<exists>r r'. pretrade_validate default_settings (init_controls 0) (sample_request ''buy'' (Some 48)) = Inr r
     \<and> pr_approved_quantity r = 100
     \<and> pretrade_validate default_settings (init_controls 0) ((sample_request ''buy'' (Some 48))\<lparr>pq_spread_bps := Some 500\<rparr>) = Inr r'
     \<and> pr_approved_quantity r' = 0"
proof -
  let ?q = "sample_request ''buy'' (Some 48)"
  let ?w = "?q\<lparr>pq_spread_bps := Some 500\<rparr>"
  have ev: "fsub 50 48 = 2" "fmul 100000 (fdiv (1 / 2) 100) = 500" "fdiv 500 2 = 250"
    "fmul 100000 (fdiv 10 100) = 10000" "fdiv 10000 50 = 200" "fdiv 60000 50 = 1200" "fmul 200 50 = 10000"
    "fround 6 200 = 200" "fround 2 10000 = 10000" "\<not> fadd 60000 (fl (1 / 10 ^ 6)) < 10000"
    "lower ''buy'' = ''buy''" "fl (1 / 2) = 1 / 2"
    by code_simp+
  have st: "tc_state (init_controls 0) = ACTIVE" by (simp add: init_controls_def)
  have sz: "\<exists>s. size_position (pretrade_sizing_input default_settings ?q) = Inr s" "\<exists>s. size_position (pretrade_sizing_input default_settings ?w) = Inr s"
    by (simp_all add: size_position_def pretrade_sizing_input_def sample_request_def Let_def py_div_def)
  obtain r r' where r: "pretrade_validate default_settings (init_controls 0) ?q = Inr r"
    and r': "pretrade_validate default_settings (init_controls 0) ?w = Inr r'"
    using sz pretrade_total by blast
  have "pr_approved_quantity r = 100"
    using pretrade_cleared_iff[OF r refl refl refl] st ev(10)
    by (simp add: sample_request_def default_settings_def or_float_def ev(1-9,11-) split: if_splits)
  moreover have "pr_approved_quantity r' = 0"
    using pretrade_cleared_iff[OF r' refl refl refl]
    by (simp add: sample_request_def default_settings_def or_float_def split: if_splits)
  ultimately show ?thesis using r r' by blast
qed

end
