(* ===== verification/Mock_Broker.thy ===== *)
theory Mock_Broker
  imports Broker_Models
begin

text \<open>
  \<open>app/brokers/base.py\<close> and \<open>app/brokers/mock.py\<close>: the order types of the execution boundary and the
  deterministic in-memory broker.  A method is a function on the broker's state that returns
  its result, or the exception, together with the state it leaves, since a simulated fault
  clears its own flag before it raises.  The account and the positions keep their numbers as
  \<open>str(x)\<close> and read them back with \<open>float\<close>, which is the identity on floats
  (\<open>fl_repr_dec\<close>), so the model keeps the number.  The SHA-256 digest behind synthetic prices, the
  clock and \<open>uuid4\<close> are arguments.
\<close>

section \<open>The execution boundary\<close>

datatype OrderSide = BUY | SELL

fun side_value :: "OrderSide \<Rightarrow> string" where
  "side_value BUY = ''buy''"
| "side_value SELL = ''sell''"

datatype OrderStatus = ST_NEW | ST_ACCEPTED | ST_FILLED | ST_PARTIAL | ST_CANCELED | ST_REJECTED

fun status_value :: "OrderStatus \<Rightarrow> string" where
  "status_value ST_NEW = ''new''"
| "status_value ST_ACCEPTED = ''accepted''"
| "status_value ST_FILLED = ''filled''"
| "status_value ST_PARTIAL = ''partially_filled''"
| "status_value ST_CANCELED = ''canceled''"
| "status_value ST_REJECTED = ''rejected''"

record OrderRequest =
  or_symbol :: string
  or_side :: OrderSide
  or_qty :: rat
  or_order_type :: string
  or_limit_price :: "rat option"
  or_stop_price :: "rat option"
  or_idempotency_key :: "string option"
  or_time_in_force :: string
  or_venue :: "string option"
  or_con_id :: "int option"

record order_raw =
  raw_client_order_id :: "string option"
  raw_symbol :: string
  raw_side :: string
  raw_qty :: rat
  raw_type :: string
  raw_stop_price :: "rat option"
  raw_order_type :: "string option"
  raw_limit_price :: "rat option"

record OrderResult =
  res_broker_order_id :: string
  res_status :: OrderStatus
  res_submitted_at :: int
  res_filled_qty :: rat
  res_avg_fill_price :: "rat option"
  res_raw :: order_raw

section \<open>The broker's state\<close>

record mock_position =
  mp_symbol :: string
  mp_qty :: rat
  mp_avg_entry_price :: rat
  mp_market_value :: rat
  mp_current_price :: rat
  mp_side :: string

record order_meta =
  om_request :: OrderRequest
  om_replaced_by :: "string option"

record MockBroker =
  mb_seed :: int
  mb_orders :: "(string \<times> OrderResult) list"
  mb_order_meta :: "(string \<times> order_meta) list"
  mb_positions :: "(string \<times> mock_position) list"
  mb_cash :: rat
  mb_equity :: rat
  mb_buying_power :: rat
  mb_portfolio_value :: rat
  mb_seq :: int
  mb_fail_next :: bool
  mb_timeout_next :: bool
  mb_rate_limit_next :: bool
  mb_market_open :: bool
  mb_allow_short :: bool
  mb_fractionable :: bool
  mb_halted_symbols :: "string list"
  mb_prices :: "(string \<times> rat) list"
  mb_partial_fill_fraction :: "rat option"

definition init_mock :: "int \<Rightarrow> rat \<Rightarrow> bool \<Rightarrow> bool \<Rightarrow> bool \<Rightarrow> MockBroker" where
  "init_mock seed starting_cash market_open allow_short fractionable =
     \<lparr>mb_seed = seed, mb_orders = [], mb_order_meta = [], mb_positions = [], mb_cash = starting_cash,
      mb_equity = starting_cash, mb_buying_power = starting_cash, mb_portfolio_value = starting_cash,
      mb_seq = 0, mb_fail_next = False, mb_timeout_next = False, mb_rate_limit_next = False,
      mb_market_open = market_open, mb_allow_short = allow_short, mb_fractionable = fractionable,
      mb_halted_symbols = [], mb_prices = [], mb_partial_fill_fraction = None\<rparr>"

definition mock_get_asset :: "MockBroker \<Rightarrow> string \<Rightarrow> BrokerAsset" where
  "mock_get_asset b symbol =
     \<lparr>ast_symbol = upper symbol, ast_tradable = (upper symbol \<notin> set (mb_halted_symbols b)),
      ast_fractionable = mb_fractionable b, ast_shortable = mb_allow_short b, ast_easy_to_borrow = False,
      ast_exchange = Some ''MOCK'', ast_asset_class = ''us_equity'', ast_status = ''active''\<rparr>"

definition is_asset_tradable :: "MockBroker \<Rightarrow> string \<Rightarrow> bool" where
  "is_asset_tradable b symbol \<longleftrightarrow> ast_tradable (mock_get_asset b symbol) \<and> mb_market_open b"

definition mock_price :: "(string \<Rightarrow> int) \<Rightarrow> MockBroker \<Rightarrow> string \<Rightarrow> rat option \<Rightarrow> rat" where
  "mock_price digest b symbol fallback =
     (case dget (mb_prices b) symbol of
        Some p \<Rightarrow> p
      | None \<Rightarrow>
          (case fallback of
             Some f \<Rightarrow> f
           | None \<Rightarrow> fadd 50 (fdiv (of_int (digest (str_int (mb_seed b) @ '':'' @ symbol) mod 500)) 10)))"

section \<open>Orders\<close>

definition order_id :: "int \<Rightarrow> int \<Rightarrow> string" where
  "order_id seed n = ''mock-'' @ str_int seed @ ''-'' @ str_int n"

definition request_raw :: "OrderRequest \<Rightarrow> rat option \<Rightarrow> order_raw" where
  "request_raw r stop =
     \<lparr>raw_client_order_id = or_idempotency_key r, raw_symbol = upper (or_symbol r),
      raw_side = side_value (or_side r), raw_qty = or_qty r, raw_type = or_order_type r,
      raw_stop_price = stop, raw_order_type = None, raw_limit_price = None\<rparr>"

definition record_order :: "OrderResult \<Rightarrow> OrderRequest \<Rightarrow> MockBroker \<Rightarrow> MockBroker" where
  "record_order res r b =
     b\<lparr>mb_seq := mb_seq b + 1,
       mb_orders := dset (mb_orders b) (res_broker_order_id res) res,
       mb_order_meta := dset (mb_order_meta b) (res_broker_order_id res)
                          \<lparr>om_request = r, om_replaced_by = None\<rparr>\<rparr>"

definition stop_triggered :: "OrderSide \<Rightarrow> rat \<Rightarrow> rat \<Rightarrow> bool" where
  "stop_triggered side last_px stop \<longleftrightarrow> stop > 0 \<and> (if side = SELL then last_px \<le> stop else last_px \<ge> stop)"

definition position_qty :: "MockBroker \<Rightarrow> string \<Rightarrow> rat" where
  "position_qty b sy = (case dget (mb_positions b) sy of Some p \<Rightarrow> mp_qty p | None \<Rightarrow> 0)"

definition apply_fill :: "string \<Rightarrow> OrderSide \<Rightarrow> rat \<Rightarrow> rat \<Rightarrow> MockBroker \<Rightarrow> MockBroker" where
  "apply_fill sy side qty price b =
     (let pos = (case dget (mb_positions b) sy of
                   Some p \<Rightarrow> p
                 | None \<Rightarrow> \<lparr>mp_symbol = sy, mp_qty = 0, mp_avg_entry_price = 0, mp_market_value = 0,
                           mp_current_price = 0, mp_side = []\<rparr>);
          cur0 = mp_qty pos;
          cur = (if side = BUY then fadd cur0 qty else fsub cur0 qty);
          avg = (if side = BUY \<and> cur \<noteq> 0
                 then fdiv (fadd (fmul \<bar>cur0\<bar> (mp_avg_entry_price pos)) (fmul qty price)) \<bar>cur\<bar>
                 else mp_avg_entry_price pos);
          pos' = pos\<lparr>mp_avg_entry_price := avg, mp_qty := cur, mp_market_value := fmul cur price,
                     mp_current_price := price, mp_side := (if cur \<ge> 0 then ''long'' else ''short'')\<rparr>;
          positions = (if \<bar>cur\<bar> < fl (1 / 10 ^ 9) then dpop (mb_positions b) sy
                       else dset (mb_positions b) sy pos');
          delta = fmul qty price;
          cash = (if side = BUY then fsub (mb_cash b) delta else fadd (mb_cash b) delta);
          equity = fadd cash (fsum (map (\<lambda>(k, p). mp_market_value p) positions))
      in b\<lparr>mb_positions := positions, mb_cash := cash, mb_equity := equity,
           mb_portfolio_value := equity, mb_buying_power := cash\<rparr>)"

definition find_client_order :: "MockBroker \<Rightarrow> string \<Rightarrow> OrderResult option" where
  "find_client_order b key =
     find (\<lambda>o'. raw_client_order_id (res_raw o') = Some key) (map snd (mb_orders b))"

definition fill_request ::
  "(string \<Rightarrow> int) \<Rightarrow> int \<Rightarrow> OrderRequest \<Rightarrow> MockBroker \<Rightarrow> OrderResult py \<times> MockBroker" where
  "fill_request digest now r b =
     (let sy = upper (or_symbol r); buy = (or_side r = BUY)
      in if or_side r = SELL \<and> \<not> mb_allow_short b
            \<and> or_qty r > fadd (position_qty b sy) (fl (1 / 10 ^ 9))
         then (Inl (BrokerError ''shorting_not_allowed''), b)
         else
           (let base = or_float (or_limit_price r) (mock_price digest b sy (Some 100));
                slip = fmul base (fl (1 / 10000));
                fill_price = (if buy then fadd base slip else fsub base slip)
            in if buy \<and> fmul (or_qty r) fill_price > fadd (mb_cash b) (fl (1 / 10 ^ 6))
               then (Inl (BrokerError ''insufficient_buying_power''), b)
               else if \<not> mb_fractionable b \<and> \<bar>fsub (or_qty r) (of_int (trunc_int (or_qty r)))\<bar> > fl (1 / 10 ^ 9)
               then (Inl (BrokerError ''fractional_shares_unsupported''), b)
               else
                 (let fill_qty = (case mb_partial_fill_fraction b of
                                    Some f \<Rightarrow> fround 6 (fmul (or_qty r) f) | None \<Rightarrow> or_qty r);
                      status = (if mb_partial_fill_fraction b \<noteq> None \<and> fill_qty < or_qty r
                                then ST_PARTIAL else ST_FILLED);
                      res = \<lparr>res_broker_order_id = order_id (mb_seed b) (mb_seq b + 1), res_status = status,
                             res_submitted_at = now, res_filled_qty = fill_qty,
                             res_avg_fill_price = Some fill_price, res_raw = request_raw r None\<rparr>
                  in (Inr res, apply_fill sy (or_side r) fill_qty fill_price (record_order res r b)))))"

definition rest_order :: "int \<Rightarrow> OrderRequest \<Rightarrow> MockBroker \<Rightarrow> OrderResult py \<times> MockBroker" where
  "rest_order now r b =
     (let res = \<lparr>res_broker_order_id = order_id (mb_seed b) (mb_seq b + 1), res_status = ST_ACCEPTED,
                 res_submitted_at = now, res_filled_qty = 0, res_avg_fill_price = None,
                 res_raw = request_raw r (or_stop_price r)\<rparr>
      in (Inr res, record_order res r b))"

definition existing_order :: "MockBroker \<Rightarrow> OrderRequest \<Rightarrow> OrderResult option" where
  "existing_order b r =
     (case or_idempotency_key r of
        Some k \<Rightarrow> if k = [] then None else find_client_order b k
      | None \<Rightarrow> None)"

definition submit_order ::
  "(string \<Rightarrow> int) \<Rightarrow> int \<Rightarrow> OrderRequest \<Rightarrow> MockBroker \<Rightarrow> OrderResult py \<times> MockBroker" where
  "submit_order digest now r b =
     (if mb_timeout_next b then (Inl (TimeoutError ''mock_broker_timeout''), b\<lparr>mb_timeout_next := False\<rparr>)
      else if mb_rate_limit_next b then (Inl (BrokerError ''429 rate limited''), b\<lparr>mb_rate_limit_next := False\<rparr>)
      else if mb_fail_next b then (Inl (BrokerError ''simulated broker failure''), b\<lparr>mb_fail_next := False\<rparr>)
      else if \<not> mb_market_open b then (Inl (BrokerError ''market_closed''), b)
      else if upper (or_symbol r) \<in> set (mb_halted_symbols b) then (Inl (BrokerError ''trading_halt''), b)
      else (case existing_order b r of
              Some o' \<Rightarrow> (Inr o', b)
            | None \<Rightarrow>
                (let otype = lower (if or_order_type r = [] then ''market'' else or_order_type r);
                     last_px = mock_price digest b (upper (or_symbol r)) (Some (or_float (or_limit_price r) 100))
                 in if otype \<in> {''stop'', ''stp'', ''stop_limit''}
                       \<and> \<not> stop_triggered (or_side r) last_px (or_float (or_stop_price r) 0)
                    then rest_order now r b
                    else fill_request digest now r b)))"

definition get_order :: "string \<Rightarrow> MockBroker \<Rightarrow> OrderResult py" where
  "get_order oid b =
     (case dget (mb_orders b) oid of Some o' \<Rightarrow> Inr o' | None \<Rightarrow> Inl (BrokerError ''order not found''))"

definition status_final :: "OrderStatus \<Rightarrow> bool" where
  "status_final s \<longleftrightarrow> s \<in> {ST_FILLED, ST_CANCELED, ST_REJECTED}"

definition cancel_order :: "string \<Rightarrow> MockBroker \<Rightarrow> OrderResult py \<times> MockBroker" where
  "cancel_order oid b =
     (case dget (mb_orders b) oid of
        None \<Rightarrow> (Inl (BrokerError ''order not found''), b)
      | Some o' \<Rightarrow>
          if status_final (res_status o') then (Inr o', b)
          else (let c = o'\<lparr>res_broker_order_id := oid, res_status := ST_CANCELED\<rparr>
                in (Inr c, b\<lparr>mb_orders := dset (mb_orders b) oid c\<rparr>)))"

fun cancel_loop :: "(string \<times> OrderResult) list \<Rightarrow> MockBroker \<Rightarrow> int \<Rightarrow> int \<times> MockBroker" where
  "cancel_loop [] b n = (n, b)"
| "cancel_loop ((oid, o') # rest) b n =
     (if status_final (res_status o') then cancel_loop rest b n
      else cancel_loop rest (snd (cancel_order oid b)) (n + 1))"

definition cancel_all_orders :: "MockBroker \<Rightarrow> int \<times> MockBroker" where
  "cancel_all_orders b = cancel_loop (mb_orders b) b 0"

definition set_replaced_by :: "string \<Rightarrow> string \<Rightarrow> MockBroker \<Rightarrow> MockBroker" where
  "set_replaced_by oid new_id b =
     (case dget (mb_order_meta b) oid of
        Some m \<Rightarrow> b\<lparr>mb_order_meta := dset (mb_order_meta b) oid (m\<lparr>om_replaced_by := Some new_id\<rparr>)\<rparr>
      | None \<Rightarrow> b)"

definition replace_order ::
  "(string \<Rightarrow> int) \<Rightarrow> int \<Rightarrow> string \<Rightarrow> OrderRequest \<Rightarrow> MockBroker \<Rightarrow> OrderResult py \<times> MockBroker" where
  "replace_order digest now oid r b =
     (case get_order oid b of
        Inl e \<Rightarrow> (Inl e, b)
      | Inr existing \<Rightarrow>
          if res_filled_qty existing > fadd (or_qty r) (fl (1 / 10 ^ 9))
          then (Inl (BrokerError ''cannot_replace_below_filled_qty''), b)
          else (case submit_order digest now r (snd (cancel_order oid b)) of
                  (Inl e, b') \<Rightarrow> (Inl e, b')
                | (Inr new, b') \<Rightarrow> (Inr new, set_replaced_by oid (res_broker_order_id new) b')))"

definition close_request :: "string \<Rightarrow> string \<Rightarrow> rat \<Rightarrow> rat option \<Rightarrow> OrderRequest" where
  "close_request uuid sy cur qty =
     \<lparr>or_symbol = sy, or_side = (if cur > 0 then SELL else BUY),
      or_qty = (case qty of None \<Rightarrow> \<bar>cur\<bar> | Some q \<Rightarrow> min \<bar>cur\<bar> q), or_order_type = ''market'',
      or_limit_price = None, or_stop_price = None,
      or_idempotency_key = Some (''close-'' @ sy @ ''-'' @ uuid), or_time_in_force = ''day'',
      or_venue = None, or_con_id = None\<rparr>"

definition close_position ::
  "(string \<Rightarrow> int) \<Rightarrow> int \<Rightarrow> string \<Rightarrow> string \<Rightarrow> rat option \<Rightarrow> MockBroker \<Rightarrow> OrderResult option py \<times> MockBroker" where
  "close_position digest now uuid symbol qty b =
     (let sy = upper symbol
      in case dget (mb_positions b) sy of
           None \<Rightarrow> (Inr None, b)
         | Some p \<Rightarrow>
             (case submit_order digest now (close_request uuid sy (mp_qty p) qty) b of
                (Inl e, b') \<Rightarrow> (Inl e, b')
              | (Inr res, b') \<Rightarrow> (Inr (Some res), b')))"

fun close_loop ::
  "(string \<Rightarrow> int) \<Rightarrow> int \<Rightarrow> (string \<Rightarrow> string) \<Rightarrow> string list \<Rightarrow> int \<Rightarrow> MockBroker \<Rightarrow> int py \<times> MockBroker" where
  "close_loop digest now uuid [] n b = (Inr n, b)"
| "close_loop digest now uuid (sy # rest) n b =
     (case close_position digest now (uuid sy) sy None b of
        (Inl e, b') \<Rightarrow> (Inl e, b')
      | (Inr None, b') \<Rightarrow> close_loop digest now uuid rest n b'
      | (Inr (Some _), b') \<Rightarrow> close_loop digest now uuid rest (n + 1) b')"

definition close_all_positions ::
  "(string \<Rightarrow> int) \<Rightarrow> int \<Rightarrow> (string \<Rightarrow> string) \<Rightarrow> MockBroker \<Rightarrow> int py \<times> MockBroker" where
  "close_all_positions digest now uuid b = close_loop digest now uuid (dkeys (mb_positions b)) 0 b"

section \<open>Queries\<close>

definition get_order_by_client_id :: "string \<Rightarrow> MockBroker \<Rightarrow> OrderResult option" where
  "get_order_by_client_id key b = find_client_order b key"

definition get_open_orders :: "MockBroker \<Rightarrow> OrderResult list" where
  "get_open_orders b =
     filter (\<lambda>o'. res_status o' \<in> {ST_NEW, ST_ACCEPTED, ST_PARTIAL}) (map snd (mb_orders b))"

definition get_account_canonical :: "int \<Rightarrow> MockBroker \<Rightarrow> BrokerAccount" where
  "get_account_canonical now b =
     \<lparr>acc_account_id_reference = redact_account_id (Some (''mock-'' @ str_int (mb_seed b))),
      acc_environment = ENV_MOCK, acc_currency = ''USD'', acc_equity = mb_equity b, acc_cash = mb_cash b,
      acc_buying_power = mb_buying_power b, acc_portfolio_value = mb_portfolio_value b,
      acc_long_market_value = 0, acc_short_market_value = 0, acc_initial_margin = None,
      acc_maintenance_margin = None, acc_daytrade_count = 0, acc_pattern_day_trader = False,
      acc_trading_blocked = False, acc_transfers_blocked = False, acc_account_blocked = False,
      acc_as_of = now, acc_source = ''mock''\<rparr>"

definition some_if_nonzero :: "rat \<Rightarrow> rat option" where
  "some_if_nonzero x = (if x = 0 then None else Some x)"

definition get_positions_canonical :: "int \<Rightarrow> MockBroker \<Rightarrow> BrokerPosition list" where
  "get_positions_canonical now b =
     map (\<lambda>(k, p).
       \<lparr>bp_symbol = upper (mp_symbol p), bp_quantity = mp_qty p, bp_available_quantity = Some (mp_qty p),
        bp_side = (if mp_side p = [] then (if mp_qty p \<ge> 0 then ''long'' else ''short'') else mp_side p),
        bp_market_value = mp_market_value p, bp_cost_basis = None,
        bp_average_entry_price = some_if_nonzero (mp_avg_entry_price p),
        bp_current_price = some_if_nonzero (mp_current_price p), bp_unrealized_pl = Some 0,
        bp_unrealized_pl_pct = None, bp_asset_class = ''us_equity'', bp_exchange = None,
        bp_currency = None, bp_as_of = now, bp_source = ''mock'', bp_con_id = None\<rparr>) (mb_positions b)"

section \<open>The broker's invariant\<close>

lemma order_id_inj: "0 \<le> n \<Longrightarrow> 0 \<le> m \<Longrightarrow> order_id seed n = order_id seed m \<Longrightarrow> n = m"
  by (simp add: order_id_def str_int_def str_nat_inj)

definition client_key :: "OrderResult \<Rightarrow> string option" where
  "client_key o' = raw_client_order_id (res_raw o')"

definition orders_ok :: "int \<Rightarrow> int \<Rightarrow> (string \<times> OrderResult) list \<Rightarrow> bool" where
  "orders_ok seed seq orders \<longleftrightarrow>
     dict_ok orders
     \<and> (\<forall>k o'. (k, o') \<in> set orders \<longrightarrow>
          res_broker_order_id o' = k
          \<and> (\<exists>n. 1 \<le> n \<and> n \<le> seq \<and> k = order_id seed n))
     \<and> (\<forall>k o' j u. (k, o') \<in> set orders \<longrightarrow> (j, u) \<in> set orders \<longrightarrow>
          client_key o' = client_key u \<longrightarrow> client_key o' \<noteq> None \<longrightarrow> client_key o' \<noteq> Some [] \<longrightarrow> k = j)"

definition mock_inv :: "MockBroker \<Rightarrow> bool" where
  "mock_inv b \<longleftrightarrow>
     0 \<le> mb_seq b \<and> orders_ok (mb_seed b) (mb_seq b) (mb_orders b) \<and> dict_ok (mb_positions b)
     \<and> dkeys (mb_order_meta b) = dkeys (mb_orders b)"

lemma orders_ok_fresh:
  assumes "orders_ok seed seq orders" "0 \<le> seq"
  shows "order_id seed (seq + 1) \<notin> set (dkeys orders)"
proof
  assume "order_id seed (seq + 1) \<in> set (dkeys orders)"
  then obtain v where "(order_id seed (seq + 1), v) \<in> set orders" by (auto simp: dkeys_def)
  then obtain n where n: "1 \<le> n" "n \<le> seq" "order_id seed (seq + 1) = order_id seed n"
    using assms(1) unfolding orders_ok_def by blast
  then have "seq + 1 = n" using assms(2) order_id_inj[of "seq + 1" n seed] by simp
  then show False using n by simp
qed

lemma find_client_order_None:
  "find_client_order b k = None \<longleftrightarrow> (\<forall>(j, o') \<in> set (mb_orders b). client_key o' \<noteq> Some k)"
  by (auto simp: find_client_order_def find_None_iff client_key_def)

lemma orders_ok_unique:
  "orders_ok seed seq orders \<Longrightarrow> (k, o') \<in> set orders \<Longrightarrow> (j, u) \<in> set orders \<Longrightarrow>
   client_key o' = client_key u \<Longrightarrow> client_key o' \<noteq> None \<Longrightarrow> client_key o' \<noteq> Some [] \<Longrightarrow> k = j"
  unfolding orders_ok_def by blast

lemma orders_ok_insert:
  assumes "orders_ok seed seq orders" "0 \<le> seq"
    and "k = order_id seed (seq + 1)" "res_broker_order_id o' = k"
    and "client_key o' \<notin> {None, Some []} \<longrightarrow> (\<forall>(j, u) \<in> set orders. client_key u \<noteq> client_key o')"
  shows "orders_ok seed (seq + 1) (dset orders k o')" "dset orders k o' = orders @ [(k, o')]"
proof -
  have f: "k \<notin> set (dkeys orders)" using orders_ok_fresh[OF assms(1,2)] assms(3) by simp
  then show e: "dset orders k o' = orders @ [(k, o')]" by (rule dset_fresh)
  have d: "dict_ok (dset orders k o')" using assms(1) by (simp add: orders_ok_def)
  have ids: "\<exists>n. 1 \<le> n \<and> n \<le> seq + 1 \<and> j = order_id seed n" "res_broker_order_id u = j"
    if "(j, u) \<in> set orders" for j u
    using assms(1) that by (fastforce simp: orders_ok_def)+
  have new: "\<exists>n. 1 \<le> n \<and> n \<le> seq + 1 \<and> k = order_id seed n"
    using assms(2,3) by (intro exI[of _ "seq + 1"]) simp
  have keys: "i = j"
    if m: "(i, u) \<in> set (orders @ [(k, o')])" "(j, w) \<in> set (orders @ [(k, o')])"
      and eq: "client_key u = client_key w" and ne: "client_key u \<noteq> None" "client_key u \<noteq> Some []" for i j u w
  proof (cases "(i, u) \<in> set orders"; cases "(j, w) \<in> set orders")
    assume "(i, u) \<in> set orders" "(j, w) \<in> set orders"
    then show ?thesis using orders_ok_unique[OF assms(1)] eq ne by blast
  next
    assume "(i, u) \<in> set orders" "(j, w) \<notin> set orders"
    then show ?thesis using m(2) assms(5) eq ne by auto
  next
    assume "(i, u) \<notin> set orders" "(j, w) \<in> set orders"
    then show ?thesis using m(1) assms(5) eq ne by auto
  next
    assume "(i, u) \<notin> set orders" "(j, w) \<notin> set orders"
    then show ?thesis using m by simp
  qed
  show "orders_ok seed (seq + 1) (dset orders k o')"
    unfolding orders_ok_def e
  proof (intro conjI allI impI)
    show "dict_ok (orders @ [(k, o')])" using d by (simp only: e)
  next
    fix j u assume "(j, u) \<in> set (orders @ [(k, o')])"
    then show "res_broker_order_id u = j" "\<exists>n. 1 \<le> n \<and> n \<le> seq + 1 \<and> j = order_id seed n"
      using ids[of j u] new assms(4) by auto
  qed (rule keys)
qed

lemma apply_fill_frame [simp]:
  "mb_orders (apply_fill sy side q px b) = mb_orders b" "mb_seq (apply_fill sy side q px b) = mb_seq b"
  "mb_seed (apply_fill sy side q px b) = mb_seed b" "mb_order_meta (apply_fill sy side q px b) = mb_order_meta b"
  "mb_timeout_next (apply_fill sy side q px b) = mb_timeout_next b"
  "mb_rate_limit_next (apply_fill sy side q px b) = mb_rate_limit_next b"
  "mb_fail_next (apply_fill sy side q px b) = mb_fail_next b"
  "mb_market_open (apply_fill sy side q px b) = mb_market_open b"
  "mb_halted_symbols (apply_fill sy side q px b) = mb_halted_symbols b"
  by (simp_all add: apply_fill_def Let_def)

lemma apply_fill_positions_ok: "dict_ok (mb_positions b) \<Longrightarrow> dict_ok (mb_positions (apply_fill sy side q px b))"
  by (simp add: apply_fill_def Let_def)

lemma record_order_inv:
  assumes "mock_inv b" "res_broker_order_id res = order_id (mb_seed b) (mb_seq b + 1)"
    and "client_key res \<notin> {None, Some []} \<longrightarrow> (\<forall>(j, u) \<in> set (mb_orders b). client_key u \<noteq> client_key res)"
  shows "mock_inv (record_order res r b)"
    and "mb_orders (record_order res r b) = mb_orders b @ [(res_broker_order_id res, res)]"
proof -
  let ?k = "order_id (mb_seed b) (mb_seq b + 1)"
  have ok: "orders_ok (mb_seed b) (mb_seq b) (mb_orders b)" "0 \<le> mb_seq b"
    and keys: "dkeys (mb_order_meta b) = dkeys (mb_orders b)" using assms(1) by (simp_all add: mock_inv_def)
  note ins = orders_ok_insert[OF ok refl assms(2) assms(3)]
  have f: "?k \<notin> set (dkeys (mb_orders b))" by (rule orders_ok_fresh[OF ok])
  then have m: "dset (mb_order_meta b) ?k x = mb_order_meta b @ [(?k, x)]" for x
    by (intro dset_fresh) (simp add: keys)
  have "dkeys (mb_order_meta b @ [(?k, x)]) = dkeys (mb_orders b @ [(?k, res)])" for x
    using keys by (simp add: dkeys_def)
  then show "mock_inv (record_order res r b)"
    using assms(1) ins by (simp add: mock_inv_def record_order_def assms(2) m)
  show "mb_orders (record_order res r b) = mb_orders b @ [(res_broker_order_id res, res)]"
    using ins(2) by (simp add: record_order_def assms(2))
qed

lemma mock_inv_apply_fill: "mock_inv b \<Longrightarrow> mock_inv (apply_fill sy side q px b)"
  by (simp add: mock_inv_def apply_fill_positions_ok)

definition accepts_request :: "OrderRequest \<Rightarrow> MockBroker \<Rightarrow> bool" where
  "accepts_request r b \<longleftrightarrow>
     \<not> mb_timeout_next b \<and> \<not> mb_rate_limit_next b \<and> \<not> mb_fail_next b \<and> mb_market_open b
     \<and> upper (or_symbol r) \<notin> set (mb_halted_symbols b)"

lemma accepts_frame [simp]:
  "accepts_request r (record_order res r' b) = accepts_request r b"
  "accepts_request r (apply_fill sy side q px b) = accepts_request r b"
  by (simp_all add: accepts_request_def record_order_def)

text \<open>The three ways a submission can end, and what a new order looks like.\<close>

lemma submit_cases:
  assumes "submit_order digest now r b = (x, b')"
  shows "(\<exists>e. x = Inl e \<and> mb_orders b' = mb_orders b \<and> mb_positions b' = mb_positions b \<and> mb_cash b' = mb_cash b
            \<and> (mock_inv b \<longrightarrow> mock_inv b'))
    \<or> (\<exists>o'. x = Inr o' \<and> b' = b \<and> accepts_request r b \<and> existing_order b r = Some o')
    \<or> (\<exists>res. x = Inr res \<and> accepts_request r b \<and> existing_order b r = None
          \<and> res_broker_order_id res = order_id (mb_seed b) (mb_seq b + 1)
          \<and> client_key res = or_idempotency_key r
          \<and> (b' = record_order res r b
             \<or> (\<exists>px. res_avg_fill_price res = Some px
                  \<and> b' = apply_fill (upper (or_symbol r)) (or_side r) (res_filled_qty res) px (record_order res r b))))"
proof (cases "accepts_request r b")
  case False
  then show ?thesis using assms
    by (auto simp: submit_order_def accepts_request_def mock_inv_def split: if_splits)
next
  case True
  show ?thesis
  proof (cases "existing_order b r")
    case (Some o')
    then show ?thesis using assms True by (simp add: submit_order_def accepts_request_def)
  next
    case None
    have "submit_order digest now r b = rest_order now r b \<or> submit_order digest now r b = fill_request digest now r b"
      using None True by (simp add: submit_order_def accepts_request_def Let_def)
    then show ?thesis
    proof
      assume "submit_order digest now r b = rest_order now r b"
      then show ?thesis using assms True None
        by (auto simp: rest_order_def Let_def client_key_def request_raw_def)
    next
      assume "submit_order digest now r b = fill_request digest now r b"
      then have "fill_request digest now r b = (x, b')" using assms by simp
      then show ?thesis using True None
        by (auto simp: fill_request_def Let_def client_key_def request_raw_def split: if_splits)
    qed
  qed
qed

lemma existing_None_unique:
  assumes "existing_order b r = None" "client_key res = or_idempotency_key r"
  shows "client_key res \<notin> {None, Some []} \<longrightarrow> (\<forall>(j, u) \<in> set (mb_orders b). client_key u \<noteq> client_key res)"
  using assms by (auto simp: existing_order_def find_client_order_None split: option.splits if_splits)

lemma submit_inv:
  assumes "mock_inv b"
  shows "mock_inv (snd (submit_order digest now r b))"
proof -
  obtain x b' where s: "submit_order digest now r b = (x, b')" by (cases "submit_order digest now r b")
  from submit_cases[OF s] show ?thesis
  proof (elim disjE exE conjE)
    fix res assume "existing_order b r = None" "res_broker_order_id res = order_id (mb_seed b) (mb_seq b + 1)"
      "client_key res = or_idempotency_key r" "b' = record_order res r b"
    then show ?thesis using s record_order_inv(1)[OF assms _ existing_None_unique] by simp
  next
    fix res px assume "existing_order b r = None" "res_broker_order_id res = order_id (mb_seed b) (mb_seq b + 1)"
      "client_key res = or_idempotency_key r"
      "b' = apply_fill (upper (or_symbol r)) (or_side r) (res_filled_qty res) px (record_order res r b)"
    then show ?thesis using s record_order_inv(1)[OF assms _ existing_None_unique] by (simp add: mock_inv_apply_fill)
  qed (use s assms in auto)
qed

lemma submit_then_found:
  assumes "mock_inv b" "submit_order digest now r b = (Inr res, b')" "or_idempotency_key r = Some k" "k \<noteq> []"
  shows "existing_order b' r = Some res \<and> accepts_request r b'"
proof -
  have new: "existing_order c r = Some res"
    if "mb_orders c = mb_orders b @ [(i, res)]" "existing_order b r = None" "client_key res = or_idempotency_key r" for c i
    using that assms(3,4)
    by (auto simp: existing_order_def find_client_order_def client_key_def find_append split: option.splits)
  from submit_cases[OF assms(2)] show ?thesis
    using new record_order_inv(2)[OF assms(1) _ existing_None_unique] by (elim disjE exE conjE) auto
qed

section \<open>The contract of an idempotent broker\<close>

text \<open>
  What a client relies on when it retries: a submission under a client key is found again, a
  known key never creates a second order, and a retry of an accepted request is accepted.
\<close>

locale idempotent_broker =
  fixes submit :: "'e \<Rightarrow> 'r \<Rightarrow> 's \<Rightarrow> 'o py \<times> 's"
    and known :: "'s \<Rightarrow> 'r \<Rightarrow> 'o option"
    and keyed :: "'r \<Rightarrow> bool"
    and ok :: "'s \<Rightarrow> bool"
  assumes submit_ok: "ok s \<Longrightarrow> ok (snd (submit e r s))"
    and submit_known: "known s r = Some y \<Longrightarrow> submit e r s = (Inr x, s') \<Longrightarrow> x = y \<and> s' = s"
    and submit_recorded: "ok s \<Longrightarrow> keyed r \<Longrightarrow> submit e r s = (Inr x, s') \<Longrightarrow> known s' r = Some x"
    and submit_retry: "ok s \<Longrightarrow> keyed r \<Longrightarrow> submit e r s = (Inr x, s') \<Longrightarrow> \<exists>y s''. submit e' r s' = (Inr y, s'')"
begin

lemma submit_twice:
  assumes "ok s" "keyed r" "submit e r s = (Inr x, s')"
  shows "submit e' r s' = (Inr x, s')"
  using submit_retry[OF assms, of e'] submit_known submit_recorded[OF assms] by (metis prod.collapse)

lemma submit_repeated:
  assumes "ok s" "keyed r" "submit e r s = (Inr x, s')"
  shows "fold (\<lambda>e (res, t). submit e r t) es (Inr x, s') = (Inr x, s')"
  by (induction es) (simp_all add: submit_twice[OF assms])

end

definition has_key :: "OrderRequest \<Rightarrow> bool" where
  "has_key r \<longleftrightarrow> or_idempotency_key r \<notin> {None, Some []}"

interpretation mock: idempotent_broker "submit_order digest" existing_order has_key mock_inv for digest
proof
  show "mock_inv b \<Longrightarrow> mock_inv (snd (submit_order digest now r b))" for b now r by (rule submit_inv)
  show "existing_order b r = Some y \<Longrightarrow> submit_order digest now r b = (Inr x, b') \<Longrightarrow> x = y \<and> b' = b" for b r y now x b'
    by (auto simp: submit_order_def split: if_splits)
  fix b r now x b'
  assume a: "mock_inv b" "has_key r" "submit_order digest now r b = (Inr x, b')"
  then have "existing_order b' r = Some x \<and> accepts_request r b'"
    using submit_then_found by (auto simp: has_key_def)
  then show "existing_order b' r = Some x" "\<exists>y b''. submit_order digest now' r b' = (Inr y, b'')" for now'
    by (simp_all add: submit_order_def accepts_request_def)
qed

text \<open>
  Submitting is idempotent under a client key: after an accepted submission any number of
  retries of the same request, at any later times, return the same order and leave the broker
  unchanged, so no retry trades twice.
\<close>

theorem mock_submit_idempotent:
  assumes "mock_inv b" "or_idempotency_key r = Some k" "k \<noteq> []"
    and "submit_order digest now r b = (Inr res, b')"
  shows "fold (\<lambda>t (x, c). submit_order digest t r c) later (Inr res, b') = (Inr res, b')"
  using assms by (intro mock.submit_repeated[of b]) (simp_all add: has_key_def)

definition sample_order :: "OrderSide \<Rightarrow> rat \<Rightarrow> string \<Rightarrow> OrderRequest" where
  "sample_order side qty key =
     \<lparr>or_symbol = ''SPY'', or_side = side, or_qty = qty, or_order_type = ''limit'', or_limit_price = Some 100,
      or_stop_price = None, or_idempotency_key = Some key, or_time_in_force = ''day'', or_venue = None,
      or_con_id = None\<rparr>"

lemma init_mock_inv: "mock_inv (init_mock seed cash op sh fr)"
  by (simp add: mock_inv_def init_mock_def orders_ok_def dkeys_def)

section \<open>Cancelling\<close>

lemma cancel_inv:
  assumes "mock_inv b"
  shows "mock_inv (snd (cancel_order oid b))"
proof (cases "dget (mb_orders b) oid")
  case (Some o')
  show ?thesis
  proof (cases "status_final (res_status o')")
    case False
    let ?c = "o'\<lparr>res_broker_order_id := oid, res_status := ST_CANCELED\<rparr>"
    have ok: "orders_ok (mb_seed b) (mb_seq b) (mb_orders b)" using assms by (simp add: mock_inv_def)
    have mem: "(oid, o') \<in> set (mb_orders b)" by (rule dget_Some_mem[OF Some])
    have orig: "\<exists>w. (j, w) \<in> set (mb_orders b) \<and> client_key w = client_key u \<and> (u = w \<or> (j = oid \<and> u = ?c))"
      if "(j, u) \<in> set (dset (mb_orders b) oid ?c)" for j u
      using dset_mem[OF that] mem by (auto simp: client_key_def)
    have "orders_ok (mb_seed b) (mb_seq b) (dset (mb_orders b) oid ?c)"
      unfolding orders_ok_def
    proof (intro conjI allI impI)
      show "dict_ok (dset (mb_orders b) oid ?c)" using ok by (simp add: orders_ok_def)
    next
      fix j u assume "(j, u) \<in> set (dset (mb_orders b) oid ?c)"
      then obtain w where "(j, w) \<in> set (mb_orders b)" "u = w \<or> (j = oid \<and> u = ?c)" using orig by blast
      then show "res_broker_order_id u = j" "\<exists>n. 1 \<le> n \<and> n \<le> mb_seq b \<and> j = order_id (mb_seed b) n"
        using ok unfolding orders_ok_def by auto
    next
      fix i u j w assume "(i, u) \<in> set (dset (mb_orders b) oid ?c)" "(j, w) \<in> set (dset (mb_orders b) oid ?c)"
        and k: "client_key u = client_key w" "client_key u \<noteq> None" "client_key u \<noteq> Some []"
      then obtain u' w' where "(i, u') \<in> set (mb_orders b)" "(j, w') \<in> set (mb_orders b)"
        "client_key u' = client_key u" "client_key w' = client_key w" using orig by metis
      then show "i = j" using orders_ok_unique[OF ok] k by metis
    qed
    moreover have "oid \<in> set (dkeys (mb_orders b))" using mem by (force simp: dkeys_def)
    ultimately show ?thesis
      using assms Some False by (simp add: cancel_order_def mock_inv_def Let_def dkeys_dset_known)
  qed (use assms Some in \<open>simp add: cancel_order_def\<close>)
qed (use assms in \<open>simp add: cancel_order_def\<close>)

lemma cancel_frame [simp]:
  "mb_positions (snd (cancel_order oid b)) = mb_positions b" "mb_cash (snd (cancel_order oid b)) = mb_cash b"
  by (simp_all add: cancel_order_def Let_def split: option.splits)

definition cancelled :: "string \<Rightarrow> OrderResult \<Rightarrow> OrderResult" where
  "cancelled oid o' =
     (if status_final (res_status o') then o' else o'\<lparr>res_broker_order_id := oid, res_status := ST_CANCELED\<rparr>)"

lemma cancelled_idem [simp]: "cancelled j (cancelled j o') = cancelled j o'" and
  cancelled_final [simp]: "status_final (res_status (cancelled j o'))" and
  cancelled_id: "status_final (res_status o') \<Longrightarrow> cancelled j o' = o'"
  by (simp_all add: cancelled_def status_final_def)

lemma cancel_get:
  "dget (mb_orders (snd (cancel_order oid b))) j =
     (if j = oid then map_option (cancelled oid) (dget (mb_orders b) oid) else dget (mb_orders b) j)"
  by (simp add: cancel_order_def cancelled_def Let_def split: option.splits)

lemma cancel_dict_ok: "dict_ok (mb_orders b) \<Longrightarrow> dict_ok (mb_orders (snd (cancel_order oid b)))"
  by (simp add: cancel_order_def Let_def split: option.splits)

lemma cancel_loop_frame:
  "mb_positions (snd (cancel_loop os b n)) = mb_positions b"
  "mb_cash (snd (cancel_loop os b n)) = mb_cash b"
  "fst (cancel_loop os b n) = n + int (length (filter (\<lambda>(k, o'). \<not> status_final (res_status o')) os))"
  "dict_ok (mb_orders b) \<Longrightarrow> dict_ok (mb_orders (snd (cancel_loop os b n)))"
  by (induction os b n rule: cancel_loop.induct) (simp_all add: cancel_dict_ok)

definition hits :: "string \<Rightarrow> (string \<times> OrderResult) list \<Rightarrow> bool" where
  "hits j os \<longleftrightarrow> (\<exists>u. (j, u) \<in> set os \<and> \<not> status_final (res_status u))"

lemma cancel_loop_get:
  "dget (mb_orders (snd (cancel_loop os b n))) j =
     (if hits j os then map_option (cancelled j) (dget (mb_orders b) j) else dget (mb_orders b) j)"
proof (induction os b n rule: cancel_loop.induct)
  case (2 oid o' rest b n)
  show ?case
  proof (cases "status_final (res_status o')")
    case True
    then have "hits j ((oid, o') # rest) = hits j rest" by (auto simp: hits_def)
    then show ?thesis using 2(1)[OF True] True by simp
  next
    case False
    then have h: "hits j ((oid, o') # rest) = (j = oid \<or> hits j rest)" by (auto simp: hits_def)
    show ?thesis using 2(2)[OF False] False unfolding h cancel_loop.simps(2) if_not_P[OF False]
      by (cases "dget (mb_orders b) j") (auto simp: cancel_get)
  qed
qed (simp add: hits_def)

lemma cancel_all_spec:
  assumes "mock_inv b" "cancel_all_orders b = (n, b')"
  shows "get_open_orders b' = [] \<and> n = int (length (get_open_orders b))
    \<and> mb_positions b' = mb_positions b \<and> mb_cash b' = mb_cash b
    \<and> (\<forall>k o'. dget (mb_orders b) k = Some o' \<and> status_final (res_status o') \<longrightarrow> dget (mb_orders b') k = Some o')"
proof -
  have ok: "dict_ok (mb_orders b)" using assms(1) by (simp add: mock_inv_def orders_ok_def)
  have b': "b' = snd (cancel_loop (mb_orders b) b 0)" "n = fst (cancel_loop (mb_orders b) b 0)"
    using assms(2) by (simp_all add: cancel_all_orders_def)
  note frame = cancel_loop_frame[where os = "mb_orders b" and b = b and n = 0, folded b']
  have get: "dget (mb_orders b') j = map_option (cancelled j) (dget (mb_orders b) j)" for j
  proof (cases "dget (mb_orders b) j")
    case (Some o')
    then have "(j, o') \<in> set (mb_orders b)" by (rule dget_Some_mem)
    then have "\<not> hits j (mb_orders b) \<Longrightarrow> status_final (res_status o')" by (auto simp: hits_def)
    then show ?thesis using Some by (auto simp: b'(1) cancel_loop_get cancelled_id)
  qed (simp add: b'(1) cancel_loop_get)
  have opn: "status \<in> {ST_NEW, ST_ACCEPTED, ST_PARTIAL} \<longleftrightarrow> \<not> status_final status" for status
    by (cases status) (simp_all add: status_final_def)
  have count: "length (get_open_orders b) = length (filter (\<lambda>(k, o'). \<not> status_final (res_status o')) (mb_orders b))"
    unfolding get_open_orders_def opn by (simp add: filter_map comp_def split_def)
  have fin: "status_final (res_status u)" if "(k, u) \<in> set (mb_orders b')" for k u
  proof -
    have "dget (mb_orders b') k = Some u" using that dget_mem[OF frame(4)[OF ok]] by blast
    then show ?thesis by (auto simp: get)
  qed
  have "get_open_orders b' = []"
    unfolding get_open_orders_def opn using fin by (auto simp: filter_empty_conv)
  then show ?thesis using frame(1-3) count get by (auto simp: cancelled_id)
qed

section \<open>Every operation keeps the invariant\<close>

lemma cancel_loop_inv: "mock_inv b \<Longrightarrow> mock_inv (snd (cancel_loop os b n))"
  by (induction os b n rule: cancel_loop.induct) (simp_all add: cancel_inv)

lemma set_replaced_by_inv: "mock_inv b \<Longrightarrow> mock_inv (set_replaced_by oid new_id b)"
proof -
  assume a: "mock_inv b"
  have "dget (mb_order_meta b) oid = Some m \<Longrightarrow> oid \<in> set (dkeys (mb_order_meta b))" for m
    using dget_None_iff[of "mb_order_meta b" oid] by auto
  then show ?thesis using a
    by (auto simp: set_replaced_by_def mock_inv_def dkeys_dset_known split: option.splits)
qed

lemma replace_inv: "mock_inv b \<Longrightarrow> mock_inv (snd (replace_order digest now oid r b))"
proof -
  assume "mock_inv b"
  then have "mock_inv (snd (submit_order digest now r (snd (cancel_order oid b))))"
    by (intro submit_inv cancel_inv)
  with \<open>mock_inv b\<close> show ?thesis
    by (auto simp: replace_order_def set_replaced_by_inv split: sum.splits prod.splits)
qed

lemma close_inv: "mock_inv b \<Longrightarrow> mock_inv (snd (close_position digest now uuid symbol qty b))"
  using submit_inv[of b]
  by (simp add: close_position_def Let_def split: option.splits sum.splits prod.splits) (metis snd_conv)

lemma close_loop_inv: "mock_inv b \<Longrightarrow> mock_inv (snd (close_loop digest now uuid syms n b))"
proof (induction syms arbitrary: n b)
  case (Cons sy syms)
  have "mock_inv (snd (close_position digest now (uuid sy) sy None b))" by (rule close_inv[OF Cons.prems])
  then show ?case using Cons.IH by (auto split: prod.splits sum.splits option.splits)
qed simp

datatype broker_call =
    Submit int OrderRequest | Cancel string | CancelAll | Replace int string OrderRequest
  | Close int string string "rat option" | CloseAll int "string \<Rightarrow> string"

fun broker_effect :: "(string \<Rightarrow> int) \<Rightarrow> broker_call \<Rightarrow> MockBroker \<Rightarrow> MockBroker" where
  "broker_effect digest (Submit now r) b = snd (submit_order digest now r b)"
| "broker_effect digest (Cancel oid) b = snd (cancel_order oid b)"
| "broker_effect digest CancelAll b = snd (cancel_all_orders b)"
| "broker_effect digest (Replace now oid r) b = snd (replace_order digest now oid r b)"
| "broker_effect digest (Close now uuid symbol qty) b = snd (close_position digest now uuid symbol qty b)"
| "broker_effect digest (CloseAll now uuid) b = snd (close_all_positions digest now uuid b)"

lemma broker_effect_inv: "mock_inv b \<Longrightarrow> mock_inv (broker_effect digest c b)"
  by (cases c) (simp_all add: submit_inv cancel_inv cancel_all_orders_def cancel_loop_inv replace_inv close_inv
      close_all_positions_def close_loop_inv)

text \<open>
  Whatever sequence of calls a fresh broker receives, failing ones included, its books stay
  consistent: every order sits under its own fresh sequential id, no two orders share a client
  key, each order has its metadata, and each symbol has one position.
\<close>

theorem mock_broker_consistent:
  "mock_inv (fold (broker_effect digest) calls (init_mock seed cash market_open allow_short fractionable))"
proof -
  have "mock_inv b \<Longrightarrow> mock_inv (fold (broker_effect digest) calls b)" for b
    by (induction calls arbitrary: b) (simp_all add: broker_effect_inv)
  then show ?thesis using init_mock_inv by blast
qed

section \<open>Money and shares\<close>

definition sides_delta :: "OrderSide \<Rightarrow> rat \<Rightarrow> rat \<Rightarrow> rat" where
  "sides_delta side x y = (if side = BUY then fadd x y else fsub x y)"

lemma apply_fill_position:
  assumes "dict_ok (mb_positions b)"
  shows "position_qty (apply_fill sy side q px b) sy =
      (if \<bar>sides_delta side (position_qty b sy) q\<bar> < fl (1 / 10 ^ 9) then 0 else sides_delta side (position_qty b sy) q)"
    and "j \<noteq> sy \<Longrightarrow> dget (mb_positions (apply_fill sy side q px b)) j = dget (mb_positions b) j"
    and "mb_cash (apply_fill sy side q px b) =
      (if side = BUY then fsub (mb_cash b) (fmul q px) else fadd (mb_cash b) (fmul q px))"
    and "mb_equity (apply_fill sy side q px b) =
      fadd (mb_cash (apply_fill sy side q px b))
        (fsum (map (\<lambda>(k, p). mp_market_value p) (mb_positions (apply_fill sy side q px b))))"
  using assms
  by (cases "dget (mb_positions b) sy"; simp add: apply_fill_def position_qty_def sides_delta_def Let_def dget_dpop)+

lemma submit_conserves_aux:
  assumes "mock_inv b" "submit_order digest now r b = (x, b')"
  shows "(mb_positions b' = mb_positions b \<and> mb_cash b' = mb_cash b)
    \<or> (\<exists>res px. x = Inr res \<and> res_avg_fill_price res = Some px
        \<and> (let sy = upper (or_symbol r); q = res_filled_qty res; held = sides_delta (or_side r) (position_qty b sy) q
           in mb_cash b' = (if or_side r = BUY then fsub (mb_cash b) (fmul q px) else fadd (mb_cash b) (fmul q px))
              \<and> position_qty b' sy = (if \<bar>held\<bar> < fl (1 / 10 ^ 9) then 0 else held)
              \<and> mb_equity b' = fadd (mb_cash b') (fsum (map (\<lambda>(k, p). mp_market_value p) (mb_positions b')))
              \<and> (\<forall>j. j \<noteq> sy \<longrightarrow> dget (mb_positions b') j = dget (mb_positions b) j)))"
proof -
  have rec: "mb_positions (record_order res r b) = mb_positions b" "mb_cash (record_order res r b) = mb_cash b"
    "position_qty (record_order res r b) = position_qty b" for res
    by (simp_all add: record_order_def position_qty_def fun_eq_iff)
  have d: "dict_ok (mb_positions (record_order res r b))" for res using assms(1) by (simp add: mock_inv_def rec)
  from submit_cases[OF assms(2)] show ?thesis
  proof (elim disjE exE conjE)
    fix res px assume "x = Inr res" "res_avg_fill_price res = Some px"
      "b' = apply_fill (upper (or_symbol r)) (or_side r) (res_filled_qty res) px (record_order res r b)"
    then show ?thesis
      using apply_fill_position[OF d[of res], where sy = "upper (or_symbol r)" and side = "or_side r"
          and q = "res_filled_qty res" and px = px]
      unfolding rec Let_def by blast
  qed (simp_all add: rec)
qed


text \<open>
  A submission that creates a filled order moves exactly the traded value between cash and
  the position: cash changes by quantity times fill price, the symbol's quantity by the filled
  quantity (a remainder under a billionth of a share is dropped), equity is recomputed from
  both, and no other position changes; a refused or repeated submission moves nothing.
\<close>

theorem submit_conserves:
  assumes "mock_inv b" "submit_order digest now r b = (x, b')"
  shows "(mb_positions b' = mb_positions b \<and> mb_cash b' = mb_cash b)
    \<or> (\<exists>res px. x = Inr res \<and> res_avg_fill_price res = Some px
        \<and> (let sy = upper (or_symbol r); q = res_filled_qty res; held = sides_delta (or_side r) (position_qty b sy) q
           in mb_cash b' = (if or_side r = BUY then fsub (mb_cash b) (fmul q px) else fadd (mb_cash b) (fmul q px))
              \<and> position_qty b' sy = (if \<bar>held\<bar> < fl (1 / 10 ^ 9) then 0 else held)
              \<and> mb_equity b' = fadd (mb_cash b') (fsum (map (\<lambda>(k, p). mp_market_value p) (mb_positions b')))
              \<and> (\<forall>j. j \<noteq> sy \<longrightarrow> dget (mb_positions b') j = dget (mb_positions b) j)))"
  by (rule submit_conserves_aux[OF assms])

lemma fl_whole_plus:
  assumes "0 \<le> n" "n < 2 ^ 52"
  shows "fadd (of_int n) (fl (1 / 10 ^ 9)) < of_int n + 1"
proof -
  have eps: "fl (1 / 10 ^ 9) \<le> 1 / 2" by code_simp
  have "is_double (of_int (2 * n + 1) * pow2 (- 1))" using assms by (intro is_double_scaled) auto
  moreover have half: "of_int (2 * n + 1) * pow2 (- 1) = (of_int n + 1 / 2 :: rat)" by (simp add: pow2_def field_simps)
  ultimately have "fl (of_int n + 1 / 2) = (of_int n + 1 / 2 :: rat)" by (simp add: is_double_def)
  moreover have "fadd (of_int n) (fl (1 / 10 ^ 9)) \<le> fl (of_int n + 1 / 2)"
    unfolding fadd_def using eps by (intro fl_mono) simp
  ultimately show ?thesis by simp
qed

lemma submit_sell_guard:
  assumes "submit_order digest now r b = (Inr res, b')" "existing_order b r = None" "or_side r = SELL"
    and "\<not> mb_allow_short b" "mb_partial_fill_fraction b = None"
  shows "mb_positions b' = mb_positions b
    \<or> (or_qty r \<le> fadd (position_qty b (upper (or_symbol r))) (fl (1 / 10 ^ 9)) \<and> res_filled_qty res = or_qty r)"
  using assms
  by (auto simp: submit_order_def rest_order_def fill_request_def record_order_def Let_def split: if_splits)

text \<open>
  With shorting off, a sell of whole shares never takes a holding of whole shares below
  zero: a request for more than is held is refused, and an accepted one leaves exactly the
  remaining shares.
\<close>

theorem no_short_sale:
  assumes inv: "mock_inv b" and sub: "submit_order digest now r b = (Inr res, b')"
    and sell: "or_side r = SELL" "\<not> mb_allow_short b" "mb_partial_fill_fraction b = None"
    and whole: "or_qty r = of_int m" "0 \<le> m" "position_qty b (upper (or_symbol r)) = of_int n" "0 \<le> n" "n < 2 ^ 52"
  shows "0 \<le> position_qty b' (upper (or_symbol r))"
proof -
  let ?sy = "upper (or_symbol r)"
  have keep: "mb_positions b' = mb_positions b \<Longrightarrow> 0 \<le> position_qty b' ?sy"
    using whole by (simp add: position_qty_def split: option.splits)
  show ?thesis
  proof (cases "mb_positions b' = mb_positions b")
    case False
    then have ex: "existing_order b r = None" using mock.submit_known sub by (cases "existing_order b r") blast+
    have "of_int m \<le> fadd (of_int n :: rat) (fl (1 / 10 ^ 9))" and q: "res_filled_qty res = of_int m"
      using submit_sell_guard[OF sub ex sell] False whole by auto
    then have "(of_int m :: rat) < of_int (n + 1)" using fl_whole_plus[OF whole(4,5)] by simp
    then have mn: "m \<le> n" by (simp only: of_int_less_iff)
    have "fsub (of_int n) (of_int m) = of_int (n - m)"
      unfolding fsub_def of_int_diff[symmetric] using mn whole(2,5) by (intro fl_of_int) simp
    then have "0 \<le> sides_delta (or_side r) (position_qty b ?sy) (res_filled_qty res)"
      using mn by (simp add: sides_delta_def sell(1) q whole(3))
    moreover have "position_qty b' ?sy =
        (if \<bar>sides_delta (or_side r) (position_qty b ?sy) (res_filled_qty res)\<bar> < fl (1 / 10 ^ 9) then 0
         else sides_delta (or_side r) (position_qty b ?sy) (res_filled_qty res))"
      using submit_conserves_aux[OF inv sub] False unfolding Let_def by blast
    ultimately show ?thesis by simp
  qed (rule keep)
qed

section \<open>A sample session\<close>

lemma sample_submit:
  "\<exists>res b'. submit_order digest 7 (sample_order BUY 10 ''k1'') (init_mock 42 25000 True False True) = (Inr res, b')
     \<and> res_filled_qty res = 10 \<and> res_avg_fill_price res \<noteq> None"
proof -
  have up: "upper ''SPY'' = ''SPY''" "lower ''limit'' = ''limit''" by code_simp+
  have px: "\<not> fadd 25000 (fl (1 / 10 ^ 6)) < fmul 10 (fadd 100 (fmul 100 (fl (1 / 10000))))" by code_simp
  have e: "existing_order (init_mock 42 25000 True False True) (sample_order BUY 10 ''k1'') = None"
    by (simp add: existing_order_def sample_order_def find_client_order_def init_mock_def)
  show ?thesis
    using px by (simp add: submit_order_def e)
      (simp add: sample_order_def init_mock_def fill_request_def up or_float_def Let_def)
qed

theorem mock_submit_idempotent_witness:
  "\<exists>res b'. submit_order (\<lambda>_. 0) 7 (sample_order BUY 10 ''k1'') (init_mock 42 25000 True False True) = (Inr res, b')
     \<and> fold (\<lambda>t (x, c). submit_order (\<lambda>_. 0) t (sample_order BUY 10 ''k1'') c) [8, 9] (Inr res, b') = (Inr res, b')"
proof -
  obtain res b' where s: "submit_order (\<lambda>_. 0) 7 (sample_order BUY 10 ''k1'') (init_mock 42 25000 True False True) = (Inr res, b')"
    using sample_submit by blast
  have "fold (\<lambda>t (x, c). submit_order (\<lambda>_. 0) t (sample_order BUY 10 ''k1'') c) [8, 9] (Inr res, b') = (Inr res, b')"
    by (rule mock_submit_idempotent[where k = "''k1''", OF init_mock_inv _ _ s]) (simp_all add: sample_order_def)
  then show ?thesis using s by blast
qed

definition sample_stop :: OrderRequest where
  "sample_stop = (sample_order SELL 5 ''s1'')\<lparr>or_order_type := ''stop'', or_limit_price := None, or_stop_price := Some 90\<rparr>"

abbreviation sample_resting :: MockBroker where
  "sample_resting \<equiv> snd (submit_order (\<lambda>_. 0) 7 sample_stop (init_mock 42 25000 True False True))"

lemma sample_resting_open: "length (get_open_orders sample_resting) = 1" "mock_inv sample_resting"
proof -
  have up: "upper ''SPY'' = ''SPY''" "lower ''stop'' = ''stop''" by code_simp+
  have e: "existing_order (init_mock 42 25000 True False True) sample_stop = None"
    by (simp add: existing_order_def sample_stop_def sample_order_def find_client_order_def init_mock_def)
  have "sample_resting = snd (rest_order 7 sample_stop (init_mock 42 25000 True False True))"
    by (simp add: submit_order_def e)
      (simp add: sample_stop_def sample_order_def init_mock_def up or_float_def mock_price_def stop_triggered_def)
  then show "length (get_open_orders sample_resting) = 1"
    by (simp add: rest_order_def record_order_def get_open_orders_def init_mock_def Let_def)
  show "mock_inv sample_resting" by (rule submit_inv[OF init_mock_inv])
qed

theorem submit_conserves_witness:
  "\<exists>res b' px. submit_order (\<lambda>_. 0) 7 (sample_order BUY 10 ''k1'') (init_mock 42 25000 True False True) = (Inr res, b')
     \<and> res_avg_fill_price res = Some px
     \<and> (mb_cash b' = 25000 \<or> mb_cash b' = fsub 25000 (fmul 10 px))"
proof -
  let ?b = "init_mock 42 25000 True False True"
  obtain res b' px where s: "submit_order (\<lambda>_. 0) 7 (sample_order BUY 10 ''k1'') ?b = (Inr res, b')"
    "res_filled_qty res = 10" "res_avg_fill_price res = Some px"
    using sample_submit[of "\<lambda>_. 0"] by blast
  have "mb_cash ?b = 25000" "or_side (sample_order BUY 10 ''k1'') = BUY" by (simp_all add: init_mock_def sample_order_def)
  then show ?thesis using submit_conserves[OF init_mock_inv s(1)] s by (auto simp: Let_def)
qed


definition sample_holding :: MockBroker where
  "sample_holding = (init_mock 42 25000 True False True)
     \<lparr>mb_positions := [(''SPY'', \<lparr>mp_symbol = ''SPY'', mp_qty = 10, mp_avg_entry_price = 99, mp_market_value = 1000,
                        mp_current_price = 100, mp_side = ''long''\<rparr>)]\<rparr>"

theorem no_short_sale_witness:
  "\<exists>res b'. submit_order (\<lambda>_. 0) 7 (sample_order SELL 4 ''k2'') sample_holding = (Inr res, b')
     \<and> 0 \<le> position_qty b' ''SPY''"
proof -
  let ?r = "sample_order SELL 4 ''k2''"
  have up: "upper ''SPY'' = ''SPY''" "lower ''limit'' = ''limit''" by code_simp+
  have g: "\<not> fadd 10 (fl (1 / 10 ^ 9)) < 4" by code_simp
  have e: "existing_order sample_holding ?r = None"
    by (simp add: existing_order_def sample_order_def find_client_order_def sample_holding_def init_mock_def)
  have "\<exists>res b'. submit_order (\<lambda>_. 0) 7 ?r sample_holding = (Inr res, b')"
    using g by (simp add: submit_order_def e)
      (simp add: sample_order_def sample_holding_def init_mock_def fill_request_def position_qty_def up or_float_def Let_def)
  then obtain res b' where s: "submit_order (\<lambda>_. 0) 7 ?r sample_holding = (Inr res, b')" by blast
  have inv: "mock_inv sample_holding"
    by (simp add: mock_inv_def sample_holding_def init_mock_def orders_ok_def dkeys_def dict_ok_def)
  have "0 \<le> position_qty b' (upper (or_symbol ?r))"
    by (rule no_short_sale[OF inv s, where m = 4 and n = 10])
      (simp_all add: sample_order_def sample_holding_def init_mock_def position_qty_def up)
  then show ?thesis using s by (auto simp: sample_order_def up)
qed


end
