(* ===== verification/Workflow.thy ===== *)
theory Workflow
  imports Trading_Controls Settings
begin

text \<open>
  \<open>app/workflow/\<close>: the daily state machine (\<open>states.py\<close>), its guarded transition with the audit log
  (\<open>daily.py\<close>: \<open>_assert_not_blocked\<close>, \<open>_set_state\<close>, \<open>_transition\<close>), the leases that make one worker own
  a run (\<open>lease.py\<close>), the closing plan (\<open>closing.py\<close>) and start-up recovery (\<open>recovery.py\<close>).  A table of
  the database is the list of its rows; the lease table is keyed by its unique \<open>lease_key\<close>.
  A session date is a day number, and what the market calendar says of a run at recovery time
  (today on that venue, the phase and the two window flags) is an argument of \<open>recover_run\<close>.
\<close>

section \<open>States\<close>

datatype DailyWorkflowState =
    WF_NON_TRADING_DAY | WF_PREMARKET_PREPARATION | WF_PREMARKET_ANALYSIS
  | WF_PREOPEN_REVALIDATION | WF_MARKET_OPEN | WF_INTRADAY | WF_CLOSING_WINDOW
  | WF_MARKET_CLOSED | WF_POSTMARKET_REVIEW | WF_COMPLETED | WF_PAUSED | WF_EMERGENCY_STOP
  | WF_FAILED

fun wf_value :: "DailyWorkflowState \<Rightarrow> string" where
  "wf_value WF_NON_TRADING_DAY = ''NON_TRADING_DAY''"
| "wf_value WF_PREMARKET_PREPARATION = ''PREMARKET_PREPARATION''"
| "wf_value WF_PREMARKET_ANALYSIS = ''PREMARKET_ANALYSIS''"
| "wf_value WF_PREOPEN_REVALIDATION = ''PREOPEN_REVALIDATION''"
| "wf_value WF_MARKET_OPEN = ''MARKET_OPEN''"
| "wf_value WF_INTRADAY = ''INTRADAY''"
| "wf_value WF_CLOSING_WINDOW = ''CLOSING_WINDOW''"
| "wf_value WF_MARKET_CLOSED = ''MARKET_CLOSED''"
| "wf_value WF_POSTMARKET_REVIEW = ''POSTMARKET_REVIEW''"
| "wf_value WF_COMPLETED = ''COMPLETED''"
| "wf_value WF_PAUSED = ''PAUSED''"
| "wf_value WF_EMERGENCY_STOP = ''EMERGENCY_STOP''"
| "wf_value WF_FAILED = ''FAILED''"

datatype WorkflowRunStatus =
    RUN_PENDING | RUN_RUNNING | RUN_PAUSED | RUN_COMPLETED | RUN_FAILED | RUN_ABORTED

fun run_value :: "WorkflowRunStatus \<Rightarrow> string" where
  "run_value RUN_PENDING = ''pending''"
| "run_value RUN_RUNNING = ''running''"
| "run_value RUN_PAUSED = ''paused''"
| "run_value RUN_COMPLETED = ''completed''"
| "run_value RUN_FAILED = ''failed''"
| "run_value RUN_ABORTED = ''aborted''"

datatype RevalidationResult =
    RV_VALID | RV_VALID_WITH_RESTRICTIONS | RV_REANALYSIS_REQUIRED | RV_NO_TRADE | RV_FAILED

fun rv_value :: "RevalidationResult \<Rightarrow> string" where
  "rv_value RV_VALID = ''VALID''"
| "rv_value RV_VALID_WITH_RESTRICTIONS = ''VALID_WITH_RESTRICTIONS''"
| "rv_value RV_REANALYSIS_REQUIRED = ''REANALYSIS_REQUIRED''"
| "rv_value RV_NO_TRADE = ''NO_TRADE''"
| "rv_value RV_FAILED = ''FAILED''"

datatype IntradayEvalResult =
    IE_NO_CHANGE | IE_REANALYZE | IE_RISK_REVIEW_REQUIRED | IE_PAUSE_TRADING | IE_EMERGENCY_STOP

fun ie_value :: "IntradayEvalResult \<Rightarrow> string" where
  "ie_value IE_NO_CHANGE = ''NO_CHANGE''"
| "ie_value IE_REANALYZE = ''REANALYZE''"
| "ie_value IE_RISK_REVIEW_REQUIRED = ''RISK_REVIEW_REQUIRED''"
| "ie_value IE_PAUSE_TRADING = ''PAUSE_TRADING''"
| "ie_value IE_EMERGENCY_STOP = ''EMERGENCY_STOP''"

datatype ClosingPolicy =
    KEEP_OVERNIGHT | REDUCE_RISK | CLOSE_INTRADAY_ONLY | CLOSE_ALL | MANUAL_REVIEW

fun closing_value :: "ClosingPolicy \<Rightarrow> string" where
  "closing_value KEEP_OVERNIGHT = ''KEEP_OVERNIGHT''"
| "closing_value REDUCE_RISK = ''REDUCE_RISK''"
| "closing_value CLOSE_INTRADAY_ONLY = ''CLOSE_INTRADAY_ONLY''"
| "closing_value CLOSE_ALL = ''CLOSE_ALL''"
| "closing_value MANUAL_REVIEW = ''MANUAL_REVIEW''"

fun ALLOWED_TRANSITIONS :: "DailyWorkflowState \<Rightarrow> DailyWorkflowState list" where
  "ALLOWED_TRANSITIONS WF_NON_TRADING_DAY = [WF_COMPLETED, WF_FAILED, WF_PAUSED]"
| "ALLOWED_TRANSITIONS WF_PREMARKET_PREPARATION =
     [WF_PREMARKET_ANALYSIS, WF_NON_TRADING_DAY, WF_PAUSED, WF_EMERGENCY_STOP, WF_FAILED]"
| "ALLOWED_TRANSITIONS WF_PREMARKET_ANALYSIS =
     [WF_PREOPEN_REVALIDATION, WF_PAUSED, WF_EMERGENCY_STOP, WF_FAILED]"
| "ALLOWED_TRANSITIONS WF_PREOPEN_REVALIDATION =
     [WF_MARKET_OPEN, WF_PREMARKET_ANALYSIS, WF_PAUSED, WF_EMERGENCY_STOP, WF_FAILED]"
| "ALLOWED_TRANSITIONS WF_MARKET_OPEN =
     [WF_INTRADAY, WF_CLOSING_WINDOW, WF_PAUSED, WF_EMERGENCY_STOP, WF_FAILED]"
| "ALLOWED_TRANSITIONS WF_INTRADAY =
     [WF_INTRADAY, WF_CLOSING_WINDOW, WF_PAUSED, WF_EMERGENCY_STOP, WF_FAILED]"
| "ALLOWED_TRANSITIONS WF_CLOSING_WINDOW =
     [WF_MARKET_CLOSED, WF_PAUSED, WF_EMERGENCY_STOP, WF_FAILED]"
| "ALLOWED_TRANSITIONS WF_MARKET_CLOSED =
     [WF_POSTMARKET_REVIEW, WF_PAUSED, WF_EMERGENCY_STOP, WF_FAILED]"
| "ALLOWED_TRANSITIONS WF_POSTMARKET_REVIEW =
     [WF_COMPLETED, WF_PAUSED, WF_EMERGENCY_STOP, WF_FAILED]"
| "ALLOWED_TRANSITIONS WF_COMPLETED = []"
| "ALLOWED_TRANSITIONS WF_PAUSED =
     [WF_PREMARKET_PREPARATION, WF_PREMARKET_ANALYSIS, WF_PREOPEN_REVALIDATION,
      WF_MARKET_OPEN, WF_INTRADAY, WF_CLOSING_WINDOW, WF_MARKET_CLOSED,
      WF_POSTMARKET_REVIEW, WF_EMERGENCY_STOP, WF_FAILED]"
| "ALLOWED_TRANSITIONS WF_EMERGENCY_STOP = [WF_PAUSED, WF_FAILED]"
| "ALLOWED_TRANSITIONS WF_FAILED = [WF_PAUSED]"

definition assert_transition_allowed :: "DailyWorkflowState \<Rightarrow> DailyWorkflowState \<Rightarrow> unit py" where
  "assert_transition_allowed from_state to_state =
     (if to_state \<in> set (ALLOWED_TRANSITIONS from_state) then Inr ()
      else Inl (ValueError (''illegal_transition:'' @ wf_value from_state @ ''->'' @ wf_value to_state)))"

fun BROKER_ORDERS_ALLOWED :: "DailyWorkflowState \<Rightarrow> bool" where
  "BROKER_ORDERS_ALLOWED WF_NON_TRADING_DAY = False"
| "BROKER_ORDERS_ALLOWED WF_PREMARKET_PREPARATION = False"
| "BROKER_ORDERS_ALLOWED WF_PREMARKET_ANALYSIS = False"
| "BROKER_ORDERS_ALLOWED WF_PREOPEN_REVALIDATION = True"
| "BROKER_ORDERS_ALLOWED WF_MARKET_OPEN = True"
| "BROKER_ORDERS_ALLOWED WF_INTRADAY = True"
| "BROKER_ORDERS_ALLOWED WF_CLOSING_WINDOW = True"
| "BROKER_ORDERS_ALLOWED WF_MARKET_CLOSED = False"
| "BROKER_ORDERS_ALLOWED WF_POSTMARKET_REVIEW = False"
| "BROKER_ORDERS_ALLOWED WF_COMPLETED = False"
| "BROKER_ORDERS_ALLOWED WF_PAUSED = False"
| "BROKER_ORDERS_ALLOWED WF_EMERGENCY_STOP = False"
| "BROKER_ORDERS_ALLOWED WF_FAILED = False"

definition WF_STATES :: "DailyWorkflowState list" where
  "WF_STATES =
     [WF_NON_TRADING_DAY, WF_PREMARKET_PREPARATION, WF_PREMARKET_ANALYSIS, WF_PREOPEN_REVALIDATION,
      WF_MARKET_OPEN, WF_INTRADAY, WF_CLOSING_WINDOW, WF_MARKET_CLOSED, WF_POSTMARKET_REVIEW,
      WF_COMPLETED, WF_PAUSED, WF_EMERGENCY_STOP, WF_FAILED]"

definition wf_state_of :: "string \<Rightarrow> DailyWorkflowState py" where
  "wf_state_of = enum_of ''DailyWorkflowState'' wf_value WF_STATES"

section \<open>Runs and their transitions\<close>

record DailyWorkflowRun =
  wr_session_date :: int
  wr_current_state :: string
  wr_status :: string
  wr_version :: int
  wr_failed_at :: "int option"
  wr_failure_reason :: "string option"
  wr_recovery_note :: "string option"

record WorkflowStateTransition =
  wt_from_state :: string
  wt_to_state :: string
  wt_trigger :: string
  wt_reason :: string
  wt_started_at :: int
  wt_success :: bool
  wt_error_code :: "string option"

definition assert_not_blocked :: "TradingControlState \<Rightarrow> DailyWorkflowRun \<Rightarrow> unit py" where
  "assert_not_blocked c run =
     (if ts_value (tc_state c) = ''emergency_stop'' \<or> wr_current_state run = wf_value WF_EMERGENCY_STOP
      then Inl (DailyWorkflowError ''emergency_stop_active'')
      else if ts_value (tc_state c) = ''paused'' \<or> wr_current_state run = wf_value WF_PAUSED
      then Inl (DailyWorkflowError ''workflow_paused'')
      else Inr ())"

definition transition_row ::
  "int \<Rightarrow> DailyWorkflowState \<Rightarrow> DailyWorkflowState \<Rightarrow> string \<Rightarrow> string \<Rightarrow> WorkflowStateTransition" where
  "transition_row now from_state to_state trigger reason =
     \<lparr>wt_from_state = wf_value from_state, wt_to_state = wf_value to_state, wt_trigger = trigger,
      wt_reason = reason, wt_started_at = now, wt_success = True, wt_error_code = None\<rparr>"

definition set_state ::
  "int \<Rightarrow> DailyWorkflowState \<Rightarrow> string \<Rightarrow> string \<Rightarrow> DailyWorkflowRun \<times> WorkflowStateTransition list
   \<Rightarrow> (DailyWorkflowRun \<times> WorkflowStateTransition list) py" where
  "set_state now to_state trigger reason db =
     (case db of (run, audit) \<Rightarrow>
        py_bind (wf_state_of (wr_current_state run)) (\<lambda>from_state.
          py_bind (assert_transition_allowed from_state to_state) (\<lambda>_.
            (let moved = run\<lparr>wr_current_state := wf_value to_state, wr_version := wr_version run + 1\<rparr>
             in Inr (if to_state = WF_FAILED
                     then moved\<lparr>wr_status := run_value RUN_FAILED, wr_failed_at := Some now,
                                wr_failure_reason := Some reason\<rparr>
                     else moved,
                     audit @ [transition_row now from_state to_state trigger reason])))))"

section \<open>Leases\<close>

record WorkflowLease =
  wl_owner :: string
  wl_acquired_at :: int
  wl_expires_at :: datetime
  wl_heartbeat_at :: "int option"

type_synonym lease_table = "(string \<times> WorkflowLease) list"

definition new_lease :: "settings \<Rightarrow> int \<Rightarrow> string \<Rightarrow> WorkflowLease" where
  "new_lease cfg now owner =
     \<lparr>wl_owner = owner, wl_acquired_at = now,
      wl_expires_at = Aware (now + seconds (cfg_workflow_lease_seconds cfg)), wl_heartbeat_at = Some now\<rparr>"

definition acquire :: "settings \<Rightarrow> int \<Rightarrow> string \<Rightarrow> string \<Rightarrow> lease_table \<Rightarrow> lease_table py" where
  "acquire cfg now key owner tab =
     (case dget tab key of
        Some l \<Rightarrow>
          if as_utc (wl_expires_at l) > now \<and> wl_owner l \<noteq> owner
          then Inl (LeaseError (''lease_held_by:'' @ wl_owner l))
          else Inr (dset tab key (new_lease cfg now owner))
      | None \<Rightarrow> Inr (dset tab key (new_lease cfg now owner)))"

definition heartbeat :: "settings \<Rightarrow> int \<Rightarrow> string \<Rightarrow> string \<Rightarrow> lease_table \<Rightarrow> lease_table py" where
  "heartbeat cfg now key owner tab =
     (case dget tab key of
        None \<Rightarrow> Inl (LeaseError ''lease_missing'')
      | Some l \<Rightarrow>
          if wl_owner l \<noteq> owner then Inl (LeaseError ''lease_owner_mismatch'')
          else Inr (dset tab key
                 (l\<lparr>wl_heartbeat_at := Some now,
                    wl_expires_at := Aware (now + seconds (cfg_workflow_lease_seconds cfg))\<rparr>)))"

definition release :: "string \<Rightarrow> string \<Rightarrow> lease_table \<Rightarrow> lease_table py" where
  "release key owner tab =
     (case dget tab key of
        None \<Rightarrow> Inr tab
      | Some l \<Rightarrow>
          if wl_owner l \<noteq> owner then Inl (LeaseError ''lease_owner_mismatch'') else Inr (dpop tab key))"

definition reclaim_expired :: "int \<Rightarrow> lease_table \<Rightarrow> int \<times> lease_table" where
  "reclaim_expired now tab =
     (let expired = filter (\<lambda>(k, l). as_utc (wl_expires_at l) \<le> now) tab
      in (int (length expired), filter (\<lambda>(k, l). \<not> as_utc (wl_expires_at l) \<le> now) tab))"

section \<open>Closing plan\<close>

record raw_position =
  rp_symbol :: string
  rp_quantity :: rat
  rp_is_intraday_only :: bool

record PositionClosePlan =
  cp_symbol :: string
  cp_quantity :: rat
  cp_is_intraday_only :: bool
  cp_action :: string
  cp_rationale :: string

record ClosingDecision =
  cd_policy :: ClosingPolicy
  cd_as_of :: int
  cd_plans :: "PositionClosePlan list"
  cd_broker_orders_allowed :: bool
  cd_notes :: "string list"

fun closing_action :: "ClosingPolicy \<Rightarrow> bool \<Rightarrow> string \<times> string" where
  "closing_action KEEP_OVERNIGHT intra = (''keep'', ''policy KEEP_OVERNIGHT'')"
| "closing_action CLOSE_ALL intra = (''close'', ''policy CLOSE_ALL (not executed in Phase 3)'')"
| "closing_action CLOSE_INTRADAY_ONLY intra =
     (if intra then (''close'', ''intraday-only position'') else (''keep'', ''swing/position holding''))"
| "closing_action REDUCE_RISK intra = (''reduce'', ''policy REDUCE_RISK (not executed in Phase 3)'')"
| "closing_action MANUAL_REVIEW intra = (''keep'', ''MANUAL_REVIEW'')"

definition closing_decide ::
  "int \<Rightarrow> raw_position list \<Rightarrow> ClosingPolicy \<Rightarrow> string list option \<Rightarrow> ClosingDecision" where
  "closing_decide as_of positions policy intraday_symbols =
     (let intraday = map upper (case intraday_symbols of Some xs \<Rightarrow> xs | None \<Rightarrow> []);
          plan = (\<lambda>raw. (let symbol = upper (rp_symbol raw);
                             is_intra = (symbol \<in> set intraday \<or> rp_is_intraday_only raw);
                             (action, rationale) = closing_action policy is_intra
                         in \<lparr>cp_symbol = symbol, cp_quantity = rp_quantity raw,
                             cp_is_intraday_only = is_intra, cp_action = action,
                             cp_rationale = rationale\<rparr>))
      in \<lparr>cd_policy = policy, cd_as_of = as_of,
          cd_plans = map plan (filter (\<lambda>raw. rp_symbol raw \<noteq> [] \<and> rp_quantity raw \<noteq> 0) positions),
          cd_broker_orders_allowed = False,
          cd_notes = [''Phase 3: closing plans are advisory only; broker orders disabled'']\<rparr>)"

section \<open>Recovery\<close>

record calendar_view =
  cv_today :: int
  cv_phase :: string
  cv_in_closing_window :: bool
  cv_in_force_close_window :: bool

definition recovery_open :: "DailyWorkflowRun \<Rightarrow> bool" where
  "recovery_open run \<longleftrightarrow>
     wr_status run \<in> {run_value RUN_PENDING, run_value RUN_RUNNING, run_value RUN_PAUSED}"

definition recover_run ::
  "(int \<Rightarrow> string) \<Rightarrow> int \<Rightarrow> calendar_view \<Rightarrow> DailyWorkflowRun \<Rightarrow> DailyWorkflowRun \<times> string list" where
  "recover_run isodate now cal run =
     (let day = isodate (wr_session_date run); st = wr_current_state run
      in if st = wf_value WF_EMERGENCY_STOP then (run, [''keep_emergency:'' @ day])
         else if wr_session_date run < cv_today cal \<and> wr_status run \<noteq> run_value RUN_COMPLETED
         then (run\<lparr>wr_status := run_value RUN_FAILED, wr_failed_at := Some now,
                    wr_failure_reason := Some ''stale_incomplete_run_after_session'',
                    wr_current_state := wf_value WF_FAILED\<rparr>,
               [''fail_stale:'' @ day])
         else if st = wf_value WF_POSTMARKET_REVIEW then (run, [''resume_postmarket_eligible:'' @ day])
         else if st \<in> {wf_value WF_PREMARKET_PREPARATION, wf_value WF_PREMARKET_ANALYSIS}
         then (if cv_phase cal \<in> {''PREMARKET'', ''BEFORE_PREMARKET''}
               then (run, [''resume_premarket_eligible:'' @ day])
               else if cv_phase cal \<in> {''REGULAR'', ''FORCE_CLOSE_WINDOW'', ''CLOSING_WINDOW''}
                       \<or> cv_in_closing_window cal \<or> cv_in_force_close_window cal
               then (run\<lparr>wr_recovery_note := Some ''resume_after_restart''\<rparr>,
                     [''resume_intraday_eligible:'' @ day])
               else (run\<lparr>wr_recovery_note := Some ''resume_after_restart''\<rparr>,
                     [''resume_session_eligible:'' @ day]))
         else if st = wf_value WF_CLOSING_WINDOW
         then (if cv_phase cal \<in> {''POSTMARKET'', ''AFTER_HOURS''}
               then (run\<lparr>wr_recovery_note := Some ''missed_closing_window''\<rparr>,
                     [''missed_closing_no_orders:'' @ day])
               else (run, []))
         else (run, []))"

definition recover_runs ::
  "(int \<Rightarrow> string) \<Rightarrow> int \<Rightarrow> (DailyWorkflowRun \<Rightarrow> calendar_view) \<Rightarrow> DailyWorkflowRun list
   \<Rightarrow> DailyWorkflowRun list \<times> string list" where
  "recover_runs isodate now view runs =
     (map (\<lambda>run. if recovery_open run then fst (recover_run isodate now (view run) run) else run) runs,
      concat (map (\<lambda>run. snd (recover_run isodate now (view run) run)) (filter recovery_open runs)))"

record recovery_result =
  rec_reclaimed_leases :: int
  rec_actions :: "string list"
  rec_emergency_stop :: bool
  rec_as_of :: int

definition recovery_run ::
  "(int \<Rightarrow> string) \<Rightarrow> int \<Rightarrow> (DailyWorkflowRun \<Rightarrow> calendar_view) \<Rightarrow> ConfigurationHistory list
   \<Rightarrow> TradingControlState \<times> lease_table \<times> DailyWorkflowRun list
   \<Rightarrow> (recovery_result \<times> TradingControlState \<times> lease_table \<times> DailyWorkflowRun list) py" where
  "recovery_run isodate now view history st =
     (case st of (controls, leases, runs) \<Rightarrow>
        py_bind (restore_trading_controls now history controls) (\<lambda>(restored, controls').
          (let (reclaimed, leases') = reclaim_expired now leases;
               emergency = (ts_value (tc_state controls') = ''emergency_stop'');
               pre = (case restored of
                        Some d \<Rightarrow> [''restored_ops_state:'' @ (case pay_state d of Some s \<Rightarrow> s | None \<Rightarrow> ''None'')]
                      | None \<Rightarrow> [])
                     @ (if emergency then [''emergency_stop_preserved''] else []);
               (runs', acts) = recover_runs isodate now view runs
           in Inr (\<lparr>rec_reclaimed_leases = reclaimed, rec_actions = pre @ acts,
                    rec_emergency_stop = emergency, rec_as_of = now\<rparr>, controls', leases', runs'))))"

section \<open>The daily machine\<close>

interpretation daily_machine: guarded_machine ALLOWED_TRANSITIONS assert_transition_allowed
  by unfold_locales (simp add: assert_transition_allowed_def)

lemma WF_STATES_all: "s \<in> set WF_STATES"
  by (cases s) (simp_all add: WF_STATES_def)

lemma wf_value_inj: "wf_value s = wf_value t \<Longrightarrow> s = t"
  by (cases s; cases t) simp_all

lemma wf_state_of_value [simp]: "wf_state_of (wf_value s) = Inr s"
  unfolding wf_state_of_def
  using enum_of_val[of s WF_STATES wf_value] by (simp add: WF_STATES_all inj_on_def wf_value_inj)

lemma wf_state_of_Inr: "wf_state_of x = Inr s \<Longrightarrow> x = wf_value s"
  by (auto simp: wf_state_of_def enum_of_def find_Some_iff split: option.splits)

text \<open>
  The daily workflow leaves an emergency stop only by way of a pause: whatever moves
  follow, a state in which broker orders are allowed comes after a paused state.
\<close>

theorem emergency_only_via_pause:
  assumes "run_moves assert_transition_allowed WF_EMERGENCY_STOP moves = Inr s" "BROKER_ORDERS_ALLOWED s"
  shows "WF_PAUSED \<in> set moves"
proof -
  have step: "set (ALLOWED_TRANSITIONS a) \<subseteq> {WF_EMERGENCY_STOP, WF_FAILED} \<union> {WF_PAUSED}"
    if "a \<in> {WF_EMERGENCY_STOP, WF_FAILED}" for a
    using that by auto
  have "s \<notin> {WF_EMERGENCY_STOP, WF_FAILED}" using assms(2) by auto
  then show ?thesis using daily_machine.run_gate[OF assms(1) _ _ step] by auto
qed

theorem emergency_only_via_pause_witness:
  "run_moves assert_transition_allowed WF_EMERGENCY_STOP [WF_PAUSED, WF_INTRADAY] = Inr WF_INTRADAY
   \<and> WF_PAUSED \<in> set [WF_PAUSED, WF_INTRADAY]"
  using emergency_only_via_pause[of "[WF_PAUSED, WF_INTRADAY]" WF_INTRADAY]
  by (simp add: assert_transition_allowed_def)

text \<open>
  A completed day never trades again: no sequence of checked moves leaves the state, and
  orders are not allowed in it; and from preparation the first trading state is only reached
  through the premarket analysis or a pause.
\<close>

theorem trading_needs_analysis:
  "(run_moves assert_transition_allowed WF_COMPLETED moves = Inr s \<longrightarrow> s = WF_COMPLETED \<and> \<not> BROKER_ORDERS_ALLOWED s)
   \<and> (run_moves assert_transition_allowed WF_PREMARKET_PREPARATION moves = Inr s \<and> BROKER_ORDERS_ALLOWED s
        \<longrightarrow> WF_PREMARKET_ANALYSIS \<in> set moves \<or> WF_PAUSED \<in> set moves)"
proof (intro conjI impI)
  assume "run_moves assert_transition_allowed WF_COMPLETED moves = Inr s"
  then show "s = WF_COMPLETED" using daily_machine.run_terminal[of WF_COMPLETED moves s] by simp
  then show "\<not> BROKER_ORDERS_ALLOWED s" by simp
next
  assume r: "run_moves assert_transition_allowed WF_PREMARKET_PREPARATION moves = Inr s \<and> BROKER_ORDERS_ALLOWED s"
  let ?A = "{WF_PREMARKET_PREPARATION, WF_NON_TRADING_DAY, WF_COMPLETED, WF_EMERGENCY_STOP, WF_FAILED}"
  let ?G = "{WF_PREMARKET_ANALYSIS, WF_PAUSED}"
  have step: "set (ALLOWED_TRANSITIONS a) \<subseteq> ?A \<union> ?G" if "a \<in> ?A" for a using that by auto
  have "s \<notin> ?A" using r by auto
  then have "\<exists>g \<in> ?G. g \<in> set moves" using daily_machine.run_gate[OF conjunct1[OF r] _ _ step] by blast
  then show "WF_PREMARKET_ANALYSIS \<in> set moves \<or> WF_PAUSED \<in> set moves" by auto
qed

theorem trading_needs_analysis_witness:
  "run_moves assert_transition_allowed WF_PREMARKET_PREPARATION [WF_PREMARKET_ANALYSIS, WF_PREOPEN_REVALIDATION]
      = Inr WF_PREOPEN_REVALIDATION
   \<and> (WF_PREMARKET_ANALYSIS \<in> set [WF_PREMARKET_ANALYSIS, WF_PREOPEN_REVALIDATION]
      \<or> WF_PAUSED \<in> set [WF_PREMARKET_ANALYSIS, WF_PREOPEN_REVALIDATION])"
  using trading_needs_analysis[of "[WF_PREMARKET_ANALYSIS, WF_PREOPEN_REVALIDATION]" WF_PREOPEN_REVALIDATION]
  by (simp add: assert_transition_allowed_def)

text \<open>A log of transitions that chains from one state to the current one by allowed moves.\<close>

fun log_ok :: "string \<Rightarrow> WorkflowStateTransition list \<Rightarrow> string \<Rightarrow> bool" where
  "log_ok a [] b \<longleftrightarrow> a = b"
| "log_ok a (t # ts) b \<longleftrightarrow>
     wt_from_state t = a
     \<and> (\<exists>f s. wt_from_state t = wf_value f \<and> wt_to_state t = wf_value s \<and> s \<in> set (ALLOWED_TRANSITIONS f))
     \<and> log_ok (wt_to_state t) ts b"

lemma log_ok_snoc:
  "log_ok a (ts @ [t]) c \<longleftrightarrow>
     (\<exists>b. log_ok a ts b \<and> wt_from_state t = b \<and> wt_to_state t = c
       \<and> (\<exists>f s. wt_from_state t = wf_value f \<and> wt_to_state t = wf_value s \<and> s \<in> set (ALLOWED_TRANSITIONS f)))"
  by (induction ts arbitrary: a) auto

text \<open>
  \<open>_set_state\<close> keeps the audit log a faithful history: if the log so far chains allowed
  transitions from the initial state to the run's state, so does the log after the call; the
  version grows by one, the run is in the requested state, and it is failed exactly when that
  state is the failed one.
\<close>

theorem set_state_audited:
  assumes "set_state now to_state trigger reason (run, audit) = Inr (run', audit')"
    and "log_ok start audit (wr_current_state run)"
  shows "log_ok start audit' (wr_current_state run') \<and> length audit' = length audit + 1
    \<and> wr_current_state run' = wf_value to_state \<and> wr_version run' = wr_version run + 1
    \<and> (if to_state = WF_FAILED then wr_status run' = run_value RUN_FAILED else wr_status run' = wr_status run)"
proof -
  from assms(1) obtain f where f: "wr_current_state run = wf_value f"
    and tr: "assert_transition_allowed f to_state = Inr ()"
    and eqs: "audit' = audit @ [transition_row now f to_state trigger reason]"
      "wr_current_state run' = wf_value to_state" "wr_version run' = wr_version run + 1"
      "if to_state = WF_FAILED then wr_status run' = run_value RUN_FAILED else wr_status run' = wr_status run"
    by (auto simp: set_state_def py_bind_Inr_iff Let_def dest!: wf_state_of_Inr split: if_splits)
  have "to_state \<in> set (ALLOWED_TRANSITIONS f)" using tr by (simp add: daily_machine.chk_iff)
  then have "log_ok start audit' (wr_current_state run')"
    unfolding eqs(1,2) log_ok_snoc using assms(2) f by (auto simp: transition_row_def)
  then show ?thesis using eqs by simp
qed

definition sample_run :: DailyWorkflowRun where
  "sample_run =
     \<lparr>wr_session_date = 20000, wr_current_state = ''INTRADAY'', wr_status = ''running'', wr_version = 3,
      wr_failed_at = None, wr_failure_reason = None, wr_recovery_note = None\<rparr>"

theorem set_state_audited_witness:
  "\<exists>run' audit'. set_state 7 WF_CLOSING_WINDOW ''timer'' ''window'' (sample_run, []) = Inr (run', audit')
     \<and> log_ok ''INTRADAY'' audit' ''CLOSING_WINDOW''"
proof -
  have st: "wf_state_of ''INTRADAY'' = Inr WF_INTRADAY" using wf_state_of_value[of WF_INTRADAY] by simp
  obtain run' audit' where s: "set_state 7 WF_CLOSING_WINDOW ''timer'' ''window'' (sample_run, []) = Inr (run', audit')"
    by (simp add: set_state_def sample_run_def st assert_transition_allowed_def Let_def)
  have "log_ok ''INTRADAY'' [] (wr_current_state sample_run)" by (simp add: sample_run_def)
  from set_state_audited[OF s this] s show ?thesis by auto
qed

section \<open>Leases\<close>

text \<open>What the other workers may do between two moments: any call by another owner, or a reclaim.\<close>

datatype lease_call = Acquire string string | Heartbeat string string | Release string string | Reclaim

fun lease_call_effect :: "settings \<Rightarrow> int \<Rightarrow> lease_call \<Rightarrow> lease_table \<Rightarrow> lease_table" where
  "lease_call_effect cfg now (Acquire k w) tab = (case acquire cfg now k w tab of Inr t \<Rightarrow> t | Inl _ \<Rightarrow> tab)"
| "lease_call_effect cfg now (Heartbeat k w) tab = (case heartbeat cfg now k w tab of Inr t \<Rightarrow> t | Inl _ \<Rightarrow> tab)"
| "lease_call_effect cfg now (Release k w) tab = (case release k w tab of Inr t \<Rightarrow> t | Inl _ \<Rightarrow> tab)"
| "lease_call_effect cfg now Reclaim tab = snd (reclaim_expired now tab)"

fun call_owner :: "lease_call \<Rightarrow> string option" where
  "call_owner (Acquire k w) = Some w"
| "call_owner (Heartbeat k w) = Some w"
| "call_owner (Release k w) = Some w"
| "call_owner Reclaim = None"

definition lease_calls :: "settings \<Rightarrow> (int \<times> lease_call) list \<Rightarrow> lease_table \<Rightarrow> lease_table" where
  "lease_calls cfg cs tab = fold (\<lambda>(now, c). lease_call_effect cfg now c) cs tab"

definition holds :: "lease_table \<Rightarrow> string \<Rightarrow> string \<Rightarrow> int \<Rightarrow> bool" where
  "holds tab key owner until_t \<longleftrightarrow>
     (\<exists>l. dget tab key = Some l \<and> wl_owner l = owner \<and> as_utc (wl_expires_at l) = until_t)"

lemma lease_call_ok: "dict_ok tab \<Longrightarrow> dict_ok (lease_call_effect cfg now c tab)"
  by (cases c)
     (auto simp: acquire_def heartbeat_def release_def reclaim_expired_def dict_ok_filter Let_def
       split: option.splits)

lemma lease_call_holds:
  assumes "dict_ok tab" "holds tab key owner u" "now < u" "call_owner c \<noteq> Some owner"
  shows "holds (lease_call_effect cfg now c tab) key owner u"
proof -
  obtain l where l: "dget tab key = Some l" "wl_owner l = owner" "as_utc (wl_expires_at l) = u"
    using assms(2) by (auto simp: holds_def)
  show ?thesis
  proof (cases c)
    case (Acquire k w)
    then show ?thesis using assms l by (auto simp: acquire_def holds_def split: option.splits)
  next
    case (Heartbeat k w)
    then show ?thesis using assms l by (auto simp: heartbeat_def holds_def split: option.splits)
  next
    case (Release k w)
    then show ?thesis using assms l by (auto simp: release_def holds_def dget_dpop split: option.splits)
  next
    case Reclaim
    then show ?thesis
      using assms l dget_filter[OF assms(1), of "\<lambda>l. \<not> as_utc (wl_expires_at l) \<le> now" key]
      by (auto simp: reclaim_expired_def holds_def Let_def)
  qed
qed

lemma lease_calls_holds:
  assumes "dict_ok tab" "holds tab key owner u" "\<forall>(now, c) \<in> set cs. now < u \<and> call_owner c \<noteq> Some owner"
  shows "holds (lease_calls cfg cs tab) key owner u \<and> dict_ok (lease_calls cfg cs tab)"
  using assms
proof (induction cs arbitrary: tab)
  case (Cons x cs)
  obtain now c where x: "x = (now, c)" by (cases x)
  have "holds (lease_call_effect cfg now c tab) key owner u"
    using Cons.prems x by (intro lease_call_holds) auto
  then show ?case
    using Cons.IH[of "lease_call_effect cfg now c tab"] Cons.prems x lease_call_ok[of tab cfg now c]
    by (simp add: lease_calls_def)
qed (simp add: lease_calls_def)

text \<open>
  Property C18.  Mutual exclusion: after a worker acquires a lease, no interleaving of calls by other
  workers (acquire, heartbeat, release) and of reclaims, all before the expiry, takes it away,
  and at any moment before the expiry another worker's acquire is refused.
\<close>

theorem lease_exclusive:
  assumes "dict_ok tab" "acquire cfg now key owner tab = Inr tab'"
    and "\<forall>(t, c) \<in> set cs. t < now + seconds (cfg_workflow_lease_seconds cfg) \<and> call_owner c \<noteq> Some owner"
    and "other \<noteq> owner" "later < now + seconds (cfg_workflow_lease_seconds cfg)"
  shows "acquire cfg later key other (lease_calls cfg cs tab') = Inl (LeaseError (''lease_held_by:'' @ owner))"
proof -
  have "holds tab' key owner (now + seconds (cfg_workflow_lease_seconds cfg))" "dict_ok tab'"
    using assms(1,2) by (auto simp: acquire_def holds_def new_lease_def split: option.splits if_splits)
  from lease_calls_holds[OF this(2,1) assms(3), of cfg] show ?thesis
    using assms(4,5) by (auto simp: acquire_def holds_def)
qed

theorem lease_exclusive_witness:
  "\<exists>tab'. acquire default_settings 0 ''run'' ''w1'' [] = Inr tab'
     \<and> acquire default_settings 20 ''run'' ''w2'' (lease_calls default_settings [(10, Acquire ''run'' ''w2''), (15, Reclaim)] tab')
         = Inl (LeaseError ''lease_held_by:w1'')"
proof -
  obtain tab' where a: "acquire default_settings 0 ''run'' ''w1'' [] = Inr tab'" by (simp add: acquire_def)
  have ttl: "seconds (cfg_workflow_lease_seconds default_settings) = 300000000"
    by (simp add: seconds_def default_settings_def)
  have cs: "\<forall>(t, c) \<in> set [(10, Acquire ''run'' ''w2''), (15, Reclaim)].
      t < 0 + seconds (cfg_workflow_lease_seconds default_settings) \<and> call_owner c \<noteq> Some ''w1''"
    unfolding ttl by simp
  have "acquire default_settings 20 ''run'' ''w2'' (lease_calls default_settings [(10, Acquire ''run'' ''w2''), (15, Reclaim)] tab')
         = Inl (LeaseError (''lease_held_by:'' @ ''w1''))"
    by (rule lease_exclusive[OF _ a cs]) (simp_all add: ttl)
  then show ?thesis using a by auto
qed

section \<open>Recovery\<close>

text \<open>
  Start-up recovery fails closed: a persisted emergency stop is in force afterwards, a run
  stopped by an emergency is left as it is, every other open run of an earlier day is marked
  failed, no run moves to a state in which orders are allowed, and no live lease is dropped.
\<close>

theorem recovery_fails_closed:
  assumes "recovery_run isodate now view history (controls, leases, runs) = Inr (res, controls', leases', runs')"
    and "dict_ok leases"
  shows "(\<exists>d. restore_trading_controls now history controls = Inr (d, controls'))
    \<and> (rec_emergency_stop res \<longleftrightarrow> tc_state controls' = EMERGENCY_STOP)
    \<and> (\<forall>k. dget leases' k = (case dget leases k of
            Some l \<Rightarrow> if now < as_utc (wl_expires_at l) then Some l else None | None \<Rightarrow> None))
    \<and> list_all2 (\<lambda>r r'.
          (wr_current_state r' = wr_current_state r \<or> wr_current_state r' = wf_value WF_FAILED)
          \<and> (\<not> recovery_open r \<or> wr_current_state r = wf_value WF_EMERGENCY_STOP \<longrightarrow> r' = r)
          \<and> (recovery_open r \<and> wr_current_state r \<noteq> wf_value WF_EMERGENCY_STOP
               \<and> wr_session_date r < cv_today (view r) \<longrightarrow> wr_status r' = run_value RUN_FAILED)) runs runs'"
proof -
  have em: "ts_value s = ''emergency_stop'' \<longleftrightarrow> s = EMERGENCY_STOP" for s by (cases s) simp_all
  have parts: "\<exists>d. restore_trading_controls now history controls = Inr (d, controls')"
    "leases' = snd (reclaim_expired now leases)" "runs' = fst (recover_runs isodate now view runs)"
    "rec_emergency_stop res \<longleftrightarrow> tc_state controls' = EMERGENCY_STOP"
    using assms(1) by (auto simp: recovery_run_def py_bind_Inr_iff Let_def em case_prod_beta)
  have run: "(wr_current_state (fst (recover_run isodate now v r)) = wr_current_state r
        \<or> wr_current_state (fst (recover_run isodate now v r)) = wf_value WF_FAILED)
      \<and> (wr_current_state r = wf_value WF_EMERGENCY_STOP \<longrightarrow> fst (recover_run isodate now v r) = r)
      \<and> (recovery_open r \<and> wr_current_state r \<noteq> wf_value WF_EMERGENCY_STOP \<and> wr_session_date r < cv_today v
           \<longrightarrow> wr_status (fst (recover_run isodate now v r)) = run_value RUN_FAILED)" for v r
    by (auto simp: recover_run_def recovery_open_def Let_def)
  have "list_all2 (\<lambda>r r'.
          (wr_current_state r' = wr_current_state r \<or> wr_current_state r' = wf_value WF_FAILED)
          \<and> (\<not> recovery_open r \<or> wr_current_state r = wf_value WF_EMERGENCY_STOP \<longrightarrow> r' = r)
          \<and> (recovery_open r \<and> wr_current_state r \<noteq> wf_value WF_EMERGENCY_STOP
               \<and> wr_session_date r < cv_today (view r) \<longrightarrow> wr_status r' = run_value RUN_FAILED)) runs runs'"
    unfolding parts(3) recover_runs_def fst_conv list_all2_map2 by (rule list_all2_refl) (use run in auto)
  moreover have "dget leases' k = (case dget leases k of
            Some l \<Rightarrow> if now < as_utc (wl_expires_at l) then Some l else None | None \<Rightarrow> None)" for k
    using dget_filter[OF assms(2), of "\<lambda>l. \<not> as_utc (wl_expires_at l) \<le> now" k]
    by (simp add: parts(2) reclaim_expired_def Let_def not_le split: option.splits)
  ultimately show ?thesis using parts(1,4) by blast
qed

theorem recovery_fails_closed_witness:
  "\<exists>res controls' leases' runs'.
     recovery_run (\<lambda>_. ''2024-10-04'') 5 (\<lambda>_. \<lparr>cv_today = 20001, cv_phase = ''REGULAR'', cv_in_closing_window = False,
         cv_in_force_close_window = False\<rparr>) [] (emergency_stop 1 ''e'' (init_controls 0), [], [sample_run])
       = Inr (res, controls', leases', runs')
     \<and> rec_emergency_stop res \<and> wr_status (hd runs') = ''failed''"
proof -
  let ?v = "\<lambda>_. \<lparr>cv_today = 20001, cv_phase = ''REGULAR'', cv_in_closing_window = False, cv_in_force_close_window = False\<rparr>"
  let ?c = "emergency_stop 1 ''e'' (init_controls 0)"
  obtain res controls' leases' runs' where r:
    "recovery_run (\<lambda>_. ''2024-10-04'') 5 ?v [] (?c, [], [sample_run]) = Inr (res, controls', leases', runs')"
    by (simp add: recovery_run_def restore_trading_controls_def latest_ops_def Let_def reclaim_expired_def
        recover_runs_def)
  have c: "controls' = ?c"
    using r by (auto simp: recovery_run_def restore_trading_controls_def latest_ops_def Let_def case_prod_beta)
  have "dict_ok ([] :: lease_table)" by simp
  from recovery_fails_closed[OF r this] have
    "rec_emergency_stop res" "wr_status (hd runs') = ''failed''"
    by (auto simp: c emergency_stop_def list_all2_Cons1 recovery_open_def sample_run_def)
  then show ?thesis using r by blast
qed


end
