(* ===== verification/Horizons.thy ===== *)
theory Horizons
  imports State_Machine
begin

text \<open>
  \<open>app/universe/horizons.py\<close>, \<open>caps.py\<close>, \<open>allocation.py\<close>, \<open>outcome_gate.py\<close>, the session counter of
  \<open>tenure.py\<close> and the playbook table of \<open>book_strategy.py\<close>: the four holding-period books, their
  stops, position caps, capital sleeves and entry memory.  The fields of the two tables that are
  prose for prompts (\<open>typical_hold\<close>, \<open>selection_notes\<close>, \<open>stop_notes\<close>, \<open>summary\<close>) are left out.  Korean
  labels are their UTF-8 bytes.
\<close>

section \<open>Policies\<close>

datatype TimeHorizon =
    TH_INTRADAY | TH_SWING | TH_POSITION

fun th_value :: "TimeHorizon \<Rightarrow> string" where
  "th_value TH_INTRADAY = ''intraday''"
| "th_value TH_SWING = ''swing''"
| "th_value TH_POSITION = ''position''"

datatype UniverseHorizon =
    SCALP | DAY | SHORT | MEDIUM

fun uh_value :: "UniverseHorizon \<Rightarrow> string" where
  "uh_value SCALP = ''scalp''"
| "uh_value DAY = ''day''"
| "uh_value SHORT = ''short''"
| "uh_value MEDIUM = ''medium''"

record HorizonPolicy =
  hp_horizon :: UniverseHorizon
  hp_label_ko :: string
  hp_label_en :: string
  hp_max_holding_minutes :: "int option"
  hp_reeval_seconds :: int
  hp_risk_per_trade_mult :: rat
  hp_max_positions :: int
  hp_min_daily_turnover :: rat
  hp_max_spread_bps :: rat
  hp_news_sensitive :: bool
  hp_prefer_liquid_etf_or_mega :: bool
  hp_cio_time_horizon :: TimeHorizon
  hp_stop_atr_mult :: rat
  hp_stop_pct_fallback :: rat
  hp_min_stop_pct :: rat
  hp_overnight_default :: bool
  hp_overnight_event_strict :: bool
  hp_news_lookback_minutes :: int

fun HORIZON_POLICIES :: "UniverseHorizon \<Rightarrow> HorizonPolicy" where
  "HORIZON_POLICIES SCALP =
     \<lparr>hp_horizon = SCALP,
      hp_label_ko = map char_of [236 :: int, 180, 136, 235, 139, 168, 237, 131, 128],
      hp_label_en = ''scalp'', hp_max_holding_minutes = Some (240), hp_reeval_seconds = 120,
      hp_risk_per_trade_mult = fl (3 / 10), hp_max_positions = 2,
      hp_min_daily_turnover = 250000000, hp_max_spread_bps = 15, hp_news_sensitive = True,
      hp_prefer_liquid_etf_or_mega = True, hp_cio_time_horizon = TH_INTRADAY,
      hp_stop_atr_mult = 1, hp_stop_pct_fallback = fl (1 / 100),
      hp_min_stop_pct = fl (1 / 200), hp_overnight_default = False,
      hp_overnight_event_strict = True, hp_news_lookback_minutes = 60\<rparr>"
| "HORIZON_POLICIES DAY =
     \<lparr>hp_horizon = DAY, hp_label_ko = map char_of [235 :: int, 139, 168, 237, 131, 128],
      hp_label_en = ''day'', hp_max_holding_minutes = Some (390), hp_reeval_seconds = 300,
      hp_risk_per_trade_mult = fl (3 / 10), hp_max_positions = 3,
      hp_min_daily_turnover = 100000000, hp_max_spread_bps = 25, hp_news_sensitive = True,
      hp_prefer_liquid_etf_or_mega = True, hp_cio_time_horizon = TH_INTRADAY,
      hp_stop_atr_mult = 3 / 2, hp_stop_pct_fallback = fl (3 / 200),
      hp_min_stop_pct = fl (1 / 125), hp_overnight_default = False,
      hp_overnight_event_strict = True, hp_news_lookback_minutes = 90\<rparr>"
| "HORIZON_POLICIES SHORT =
     \<lparr>hp_horizon = SHORT, hp_label_ko = map char_of [235 :: int, 139, 168, 234, 184, 176],
      hp_label_en = ''short'', hp_max_holding_minutes = Some (14400), hp_reeval_seconds = 900,
      hp_risk_per_trade_mult = fl (3 / 10), hp_max_positions = 4,
      hp_min_daily_turnover = 50000000, hp_max_spread_bps = 40, hp_news_sensitive = True,
      hp_prefer_liquid_etf_or_mega = False, hp_cio_time_horizon = TH_SWING,
      hp_stop_atr_mult = 5 / 2, hp_stop_pct_fallback = fl (3 / 100),
      hp_min_stop_pct = fl (3 / 200), hp_overnight_default = True,
      hp_overnight_event_strict = True, hp_news_lookback_minutes = 180\<rparr>"
| "HORIZON_POLICIES MEDIUM =
     \<lparr>hp_horizon = MEDIUM, hp_label_ko = map char_of [236 :: int, 164, 145, 234, 184, 176],
      hp_label_en = ''medium'', hp_max_holding_minutes = Some (86400),
      hp_reeval_seconds = 3600, hp_risk_per_trade_mult = 1, hp_max_positions = 5,
      hp_min_daily_turnover = 25000000, hp_max_spread_bps = 50, hp_news_sensitive = False,
      hp_prefer_liquid_etf_or_mega = False, hp_cio_time_horizon = TH_POSITION,
      hp_stop_atr_mult = 7 / 2, hp_stop_pct_fallback = fl (1 / 20),
      hp_min_stop_pct = fl (1 / 40), hp_overnight_default = True,
      hp_overnight_event_strict = False, hp_news_lookback_minutes = 360\<rparr>"

definition HORIZONS :: "UniverseHorizon list" where
  "HORIZONS = [SCALP, DAY, SHORT, MEDIUM]"

definition policy_for :: "string \<Rightarrow> HorizonPolicy py" where
  "policy_for h = py_bind (enum_of ''UniverseHorizon'' uh_value HORIZONS h) (\<lambda>u. Inr (HORIZON_POLICIES u))"

fun policy_by_symbol_loop ::
  "(string \<times> HorizonPolicy) list \<Rightarrow> (string option \<times> string option) list \<Rightarrow> (string \<times> HorizonPolicy) list" where
  "policy_by_symbol_loop by_sym [] = by_sym"
| "policy_by_symbol_loop by_sym ((symbol, hz) # rows) =
     (let sy = upper (or_str symbol [])
      in if sy = [] \<or> \<not> truthy_str hz then policy_by_symbol_loop by_sym rows
         else (case policy_for (or_str hz []) of
                 Inr pol \<Rightarrow> policy_by_symbol_loop (dset by_sym sy pol) rows
               | Inl _ \<Rightarrow> policy_by_symbol_loop by_sym rows))"

definition policy_by_symbol :: "(string option \<times> string option) list \<Rightarrow> (string \<times> HorizonPolicy) list" where
  "policy_by_symbol rows = policy_by_symbol_loop [] rows"

definition overnight_allowed_for_horizon :: "string option \<Rightarrow> bool" where
  "overnight_allowed_for_horizon horizon =
     (case horizon of
        None \<Rightarrow> False
      | Some h \<Rightarrow> (case policy_for h of Inr p \<Rightarrow> hp_overnight_default p | Inl _ \<Rightarrow> False))"

definition closing_policy_for_horizon :: "string option \<Rightarrow> string" where
  "closing_policy_for_horizon horizon =
     (if overnight_allowed_for_horizon horizon
      then (case horizon of
              Some h \<Rightarrow>
                (case policy_for h of
                   Inr p \<Rightarrow> if hp_overnight_event_strict p then ''OVERNIGHT_WITH_EVENT_REVIEW'' else ''ALLOW_OVERNIGHT''
                 | Inl _ \<Rightarrow> ''ALLOW_OVERNIGHT'')
            | None \<Rightarrow> ''ALLOW_OVERNIGHT'')
      else ''CLOSE_INTRADAY_ONLY'')"

definition lookback_of :: "string \<Rightarrow> int list" where
  "lookback_of h = (case policy_for h of Inr p \<Rightarrow> [hp_news_lookback_minutes p] | Inl _ \<Rightarrow> [])"

definition news_lookback_minutes_for_symbols :: "(string \<times> string) list \<Rightarrow> int \<Rightarrow> int" where
  "news_lookback_minutes_for_symbols by_sym default_minutes =
     (if by_sym = [] then default_minutes
      else foldl max default_minutes (concat (map (\<lambda>(s, h). lookback_of h) by_sym)))"

definition suggested_long_stop :: "rat \<Rightarrow> rat option \<Rightarrow> HorizonPolicy option \<Rightarrow> rat option" where
  "suggested_long_stop reference atr pol =
     (if reference \<le> 0 then None
      else
        (let use_atr = (case atr of Some a \<Rightarrow> a > 0 | None \<Rightarrow> False);
             raw = (case (use_atr, pol) of
                      (True, Some p) \<Rightarrow> fsub reference (fmul (hp_stop_atr_mult p) (the atr))
                    | (True, None) \<Rightarrow> fsub reference (fmul (3 / 2) (the atr))
                    | (False, Some p) \<Rightarrow> fmul reference (fsub 1 (hp_stop_pct_fallback p))
                    | (False, None) \<Rightarrow> fmul reference (fl (98 / 100)));
             stop = (case pol of
                       Some p \<Rightarrow> min raw (fmul reference (fsub 1 (hp_min_stop_pct p)))
                     | None \<Rightarrow> raw)
         in if stop \<le> 0 \<or> stop \<ge> reference then None else Some (fround 4 stop)))"

definition widen_long_stop_if_too_tight :: "rat \<Rightarrow> rat \<Rightarrow> HorizonPolicy \<Rightarrow> rat" where
  "widen_long_stop_if_too_tight stop reference pol =
     (if reference \<le> 0 \<or> stop \<le> 0 then stop
      else (let flr = fmul reference (fsub 1 (hp_min_stop_pct pol))
            in if stop > flr then fround 4 flr else stop))"

section \<open>Position caps per book\<close>

definition horizon_of :: "(string \<times> string) list \<Rightarrow> string \<Rightarrow> string" where
  "horizon_of by_sym sy = lower (or_str (dget by_sym sy) (uh_value SHORT))"

fun count_loop :: "(string \<times> string) list \<Rightarrow> (string \<times> int) list \<Rightarrow> string list \<Rightarrow> (string \<times> int) list" where
  "count_loop by_sym counts [] = counts"
| "count_loop by_sym counts (raw # rest) =
     (let sy = upper raw
      in if sy = [] then count_loop by_sym counts rest
         else (let h = horizon_of by_sym sy;
                   c = (case dget counts h of Some n \<Rightarrow> n | None \<Rightarrow> 0)
               in count_loop by_sym (dset counts h (c + 1)) rest))"

definition count_open_by_horizon :: "string list \<Rightarrow> (string \<times> string) list \<Rightarrow> (string \<times> int) list" where
  "count_open_by_horizon held by_sym = count_loop by_sym [] held"

text \<open>The set of held symbols is the list of its members without repetition; only counts are read from it.\<close>

definition horizon_cap_violation ::
  "string \<Rightarrow> (string \<times> string) list \<Rightarrow> string list \<Rightarrow> bool \<Rightarrow> string option" where
  "horizon_cap_violation symbol by_sym held_symbols is_new_symbol =
     (if \<not> is_new_symbol then None
      else
        (let sy = upper symbol; horizon = horizon_of by_sym sy
         in case policy_for horizon of
              Inl _ \<Rightarrow> None
            | Inr pol \<Rightarrow>
                (let held = remdups (map upper (filter (\<lambda>s. s \<noteq> []) held_symbols));
                     current = (case dget (count_open_by_horizon held by_sym) horizon of Some n \<Rightarrow> n | None \<Rightarrow> 0)
                 in if sy \<in> set held then None
                    else if current \<ge> hp_max_positions pol
                    then Some (sy @ '':horizon_cap:'' @ horizon @ '':'' @ str_int current @ ''>=''
                               @ str_int (hp_max_positions pol) @ ''('' @ hp_label_ko pol @ '')'')
                    else None)))"

section \<open>Capital sleeves\<close>

definition CASH_SOFT_PCT :: rat where "CASH_SOFT_PCT = 20"
definition CASH_HARD_PCT :: rat where "CASH_HARD_PCT = 10"
definition SLEEVE_BAND_PCT :: rat where "SLEEVE_BAND_PCT = 5"

definition SLEEVE_TARGET_PCT :: "(string \<times> rat) list" where
  "SLEEVE_TARGET_PCT = [(''scalp'', 20), (''day'', 20), (''short'', 20), (''medium'', 20)]"

definition STABLE_HOLD_SYMBOLS :: "string list" where
  "STABLE_HOLD_SYMBOLS = [''SPY'', ''QQQ'', ''DIA'', ''VAS'', ''IOZ'', ''NDQ'']"

definition SCALP_SYMBOLS :: "string list" where "SCALP_SYMBOLS = [''NVDA'', ''TSLA'']"
definition DAY_SYMBOLS :: "string list" where "DAY_SYMBOLS = [''IWM'', ''META'', ''AMZN'', ''GOOGL'']"

definition deployable_cash_pct :: "rat \<Rightarrow> rat \<Rightarrow> rat" where
  "deployable_cash_pct cash_pct hard_floor_pct = max 0 (fround 2 (fsub cash_pct hard_floor_pct))"

definition sleeve_target :: "string option \<Rightarrow> rat" where
  "sleeve_target horizon =
     (case dget SLEEVE_TARGET_PCT (lower (strip (or_str horizon []))) of Some t \<Rightarrow> t | None \<Rightarrow> 0)"

definition sleeve_ceiling :: "string option \<Rightarrow> rat" where
  "sleeve_ceiling horizon =
     (let target = sleeve_target horizon in if target \<le> 0 then 0 else fround 2 (fadd target SLEEVE_BAND_PCT))"

definition sleeve_room :: "string option \<Rightarrow> rat \<Rightarrow> rat" where
  "sleeve_room horizon used_pct = max 0 (fround 2 (fsub (sleeve_ceiling horizon) used_pct))"

definition assigned_horizon :: "string option \<Rightarrow> string option" where
  "assigned_horizon symbol =
     (let sy = strip (upper (or_str symbol []))
      in if sy \<in> set STABLE_HOLD_SYMBOLS then Some ''medium''
         else if sy \<in> set SCALP_SYMBOLS then Some ''scalp''
         else if sy \<in> set DAY_SYMBOLS then Some ''day''
         else None)"

definition entry_notional_pct :: "string option \<Rightarrow> rat \<Rightarrow> rat \<Rightarrow> rat option \<Rightarrow> rat" where
  "entry_notional_pct horizon used_pct max_position_pct target_size_pct =
     (let room = sleeve_room horizon used_pct;
          cap = (case target_size_pct of Some t \<Rightarrow> min max_position_pct t | None \<Rightarrow> max_position_pct)
      in if room \<le> 0 \<or> cap \<le> 0 then 0 else fround 2 (min cap room))"

section \<open>Entry memory\<close>

definition NO_WIN_CLOSES :: nat where "NO_WIN_CLOSES = 5"
definition RECENT_WINDOW :: nat where "RECENT_WINDOW = 10"

definition entry_block_reason :: "rat list \<Rightarrow> string option" where
  "entry_block_reason pnls =
     (if length pnls \<ge> NO_WIN_CLOSES \<and> \<not> list_ex (\<lambda>p. p > 0) pnls then Some ''no_win_after_closes''
      else (let recent = drop (length pnls - RECENT_WINDOW) pnls
            in if length recent \<ge> RECENT_WINDOW \<and> fsum recent < 0 then Some ''recent_net_loss'' else None))"

text \<open>The focus counter; a set of symbols is a list of its members without repetition.\<close>

fun focus_loop :: "string list \<Rightarrow> (string \<times> int) list \<Rightarrow> string list list \<Rightarrow> (string \<times> int) list" where
  "focus_loop current counts [] = counts"
| "focus_loop current counts (names # days) =
     (let current' = filter (\<lambda>s. s \<in> set names) current
      in if current' = [] then counts
         else focus_loop current'
                (map (\<lambda>(s, n). if s \<in> set current' then (s, n + 1) else (s, n)) counts) days)"

definition consecutive_focus_sessions :: "string list list \<Rightarrow> (string \<times> int) list" where
  "consecutive_focus_sessions days =
     (case days of
        [] \<Rightarrow> []
      | first # _ \<Rightarrow> filter (\<lambda>(s, n). n \<noteq> 0) (focus_loop first (map (\<lambda>s. (s, 0)) first) days))"

section \<open>Playbooks\<close>

datatype MarketRegime =
    MR_STRONG_RISK_ON | MR_RISK_ON | MR_NEUTRAL | MR_RISK_OFF | MR_STRONG_RISK_OFF
  | MR_INSUFFICIENT_DATA

fun mr_value :: "MarketRegime \<Rightarrow> string" where
  "mr_value MR_STRONG_RISK_ON = ''STRONG_RISK_ON''"
| "mr_value MR_RISK_ON = ''RISK_ON''"
| "mr_value MR_NEUTRAL = ''NEUTRAL''"
| "mr_value MR_RISK_OFF = ''RISK_OFF''"
| "mr_value MR_STRONG_RISK_OFF = ''STRONG_RISK_OFF''"
| "mr_value MR_INSUFFICIENT_DATA = ''INSUFFICIENT_DATA''"

datatype LiquidityState =
    LQ_AMPLE | LQ_NORMAL | LQ_TIGHT | LQ_STRESSED

fun lq_value :: "LiquidityState \<Rightarrow> string" where
  "lq_value LQ_AMPLE = ''ample''"
| "lq_value LQ_NORMAL = ''normal''"
| "lq_value LQ_TIGHT = ''tight''"
| "lq_value LQ_STRESSED = ''stressed''"

record BookPlaybook =
  pb_horizon :: string
  pb_label_ko :: string
  pb_min_probability :: rat
  pb_entry_zone_pct :: rat
  pb_target_pct :: rat
  pb_target_size_pct :: rat
  pb_risk_budget_pct :: rat
  pb_require_uptrend :: bool
  pb_allow_sideways_momentum :: bool
  pb_require_accelerating :: bool
  pb_require_volume_accel :: bool
  pb_volume_accel_mult :: rat
  pb_require_short_ma :: bool
  pb_require_session_structure :: bool
  pb_prefer_rsi_min :: rat
  pb_prefer_rsi_max :: rat
  pb_rsi_hard_min :: "rat option"
  pb_rsi_hard_max :: "rat option"
  pb_reject_liquidity :: "LiquidityState list"
  pb_sell_if_exhausted :: bool
  pb_sell_if_liquidity_stressed :: bool
  pb_sell_if_downtrend :: bool
  pb_reduce_if_exhausted :: bool
  pb_new_only_regimes :: "MarketRegime list"
  pb_max_new_per_cycle :: int
  pb_cio_time_horizon :: TimeHorizon

definition PLAYBOOKS :: "(string \<times> BookPlaybook) list" where
  "PLAYBOOKS =
     [(''scalp'',
       \<lparr>pb_horizon = ''scalp'',
        pb_label_ko = map char_of [236 :: int, 180, 136, 235, 139, 168, 237, 131, 128],
        pb_min_probability = 1 / 2, pb_entry_zone_pct = fl (3 / 2000),
        pb_target_pct = fl (1 / 125), pb_target_size_pct = 10, pb_risk_budget_pct = 1 / 2,
        pb_require_uptrend = False, pb_allow_sideways_momentum = True,
        pb_require_accelerating = False, pb_require_volume_accel = False,
        pb_volume_accel_mult = fl (23 / 20), pb_require_short_ma = False,
        pb_require_session_structure = False, pb_prefer_rsi_min = 52, pb_prefer_rsi_max = 68,
        pb_rsi_hard_min = None, pb_rsi_hard_max = Some 85,
        pb_reject_liquidity = [LQ_STRESSED], pb_sell_if_exhausted = True,
        pb_sell_if_liquidity_stressed = True, pb_sell_if_downtrend = True,
        pb_reduce_if_exhausted = False,
        pb_new_only_regimes = [MR_RISK_ON, MR_STRONG_RISK_ON, MR_NEUTRAL],
        pb_max_new_per_cycle = 3, pb_cio_time_horizon = TH_INTRADAY\<rparr>),
      (''day'',
       \<lparr>pb_horizon = ''day'',
        pb_label_ko = map char_of [235 :: int, 139, 168, 237, 131, 128],
        pb_min_probability = 1 / 2, pb_entry_zone_pct = fl (3 / 1000),
        pb_target_pct = fl (3 / 200), pb_target_size_pct = 10, pb_risk_budget_pct = 1 / 2,
        pb_require_uptrend = False, pb_allow_sideways_momentum = True,
        pb_require_accelerating = False, pb_require_volume_accel = False,
        pb_volume_accel_mult = 1, pb_require_short_ma = False,
        pb_require_session_structure = False, pb_prefer_rsi_min = 45, pb_prefer_rsi_max = 70,
        pb_rsi_hard_min = None, pb_rsi_hard_max = Some 85,
        pb_reject_liquidity = [LQ_STRESSED], pb_sell_if_exhausted = True,
        pb_sell_if_liquidity_stressed = True, pb_sell_if_downtrend = True,
        pb_reduce_if_exhausted = False,
        pb_new_only_regimes = [MR_RISK_ON, MR_STRONG_RISK_ON, MR_NEUTRAL],
        pb_max_new_per_cycle = 3, pb_cio_time_horizon = TH_INTRADAY\<rparr>),
      (''short'',
       \<lparr>pb_horizon = ''short'',
        pb_label_ko = map char_of [235 :: int, 139, 168, 234, 184, 176],
        pb_min_probability = fl (12 / 25), pb_entry_zone_pct = fl (1 / 125),
        pb_target_pct = fl (3 / 100), pb_target_size_pct = 10, pb_risk_budget_pct = 1 / 2,
        pb_require_uptrend = False, pb_allow_sideways_momentum = True,
        pb_require_accelerating = False, pb_require_volume_accel = False,
        pb_volume_accel_mult = 1, pb_require_short_ma = False,
        pb_require_session_structure = False, pb_prefer_rsi_min = 45, pb_prefer_rsi_max = 75,
        pb_rsi_hard_min = None, pb_rsi_hard_max = None, pb_reject_liquidity = [LQ_STRESSED],
        pb_sell_if_exhausted = False, pb_sell_if_liquidity_stressed = False,
        pb_sell_if_downtrend = True, pb_reduce_if_exhausted = True,
        pb_new_only_regimes = [MR_RISK_ON, MR_STRONG_RISK_ON, MR_NEUTRAL],
        pb_max_new_per_cycle = 3, pb_cio_time_horizon = TH_SWING\<rparr>),
      (''medium'',
       \<lparr>pb_horizon = ''medium'',
        pb_label_ko = map char_of [236 :: int, 164, 145, 234, 184, 176],
        pb_min_probability = fl (13 / 25), pb_entry_zone_pct = fl (3 / 200),
        pb_target_pct = fl (3 / 50), pb_target_size_pct = 10, pb_risk_budget_pct = 1 / 2,
        pb_require_uptrend = False, pb_allow_sideways_momentum = False,
        pb_require_accelerating = False, pb_require_volume_accel = False,
        pb_volume_accel_mult = 1, pb_require_short_ma = False,
        pb_require_session_structure = False, pb_prefer_rsi_min = 40, pb_prefer_rsi_max = 70,
        pb_rsi_hard_min = None, pb_rsi_hard_max = None, pb_reject_liquidity = [LQ_STRESSED],
        pb_sell_if_exhausted = False, pb_sell_if_liquidity_stressed = False,
        pb_sell_if_downtrend = True, pb_reduce_if_exhausted = True,
        pb_new_only_regimes = [MR_RISK_ON, MR_STRONG_RISK_ON, MR_NEUTRAL],
        pb_max_new_per_cycle = 2, pb_cio_time_horizon = TH_POSITION\<rparr>)]"

definition playbook_for :: "string option \<Rightarrow> BookPlaybook option" where
  "playbook_for horizon = dget PLAYBOOKS (lower (strip (or_str horizon [])))"

definition risk_mult_for_horizon :: "string option \<Rightarrow> rat \<Rightarrow> rat" where
  "risk_mult_for_horizon horizon firm_risk_pct =
     (if firm_risk_pct \<le> 0 then 1
      else (case playbook_for horizon of
              Some book \<Rightarrow> fdiv (pb_risk_budget_pct book) firm_risk_pct
            | None \<Rightarrow>
                (case policy_for (or_str horizon ''short'') of
                   Inr p \<Rightarrow> hp_risk_per_trade_mult p
                 | Inl _ \<Rightarrow> 1)))"

definition notional_pct_for_risk :: "string option \<Rightarrow> rat \<Rightarrow> rat \<Rightarrow> rat \<Rightarrow> rat" where
  "notional_pct_for_risk horizon entry stop max_position_pct =
     (let book = playbook_for horizon;
          budget = (case book of Some b \<Rightarrow> pb_risk_budget_pct b | None \<Rightarrow> fl (15 / 100));
          cap = (case book of Some b \<Rightarrow> min max_position_pct (pb_target_size_pct b) | None \<Rightarrow> max_position_pct)
      in if entry \<le> 0 then cap
         else (let stop_frac = fdiv \<bar>fsub entry stop\<bar> entry
               in if stop_frac \<le> fl (1 / 10 ^ 9) then cap
                  else (let raw = fmul (fdiv (fdiv budget 100) stop_frac) 100
                        in fround 2 (min cap (max 0 raw)))))"

section \<open>Where the stops of a book lie\<close>

lemma book_factors:
  "fsub 1 (hp_min_stop_pct (HORIZON_POLICIES u)) \<le> 996 / 1000"
  "9 / 10 \<le> fsub 1 (hp_min_stop_pct (HORIZON_POLICIES u))"
  "fsub 1 (hp_stop_pct_fallback (HORIZON_POLICIES u)) \<le> 996 / 1000"
  "9 / 10 \<le> fsub 1 (hp_stop_pct_fallback (HORIZON_POLICIES u))"
proof -
  have "fsub 1 (fl (1 / 200)) \<le> 996 / 1000" "9 / 10 \<le> fsub 1 (fl (1 / 200))"
    "fsub 1 (fl (1 / 125)) \<le> 996 / 1000" "9 / 10 \<le> fsub 1 (fl (1 / 125))"
    "fsub 1 (fl (3 / 200)) \<le> 996 / 1000" "9 / 10 \<le> fsub 1 (fl (3 / 200))"
    "fsub 1 (fl (1 / 40)) \<le> 996 / 1000" "9 / 10 \<le> fsub 1 (fl (1 / 40))"
    "fsub 1 (fl (1 / 100)) \<le> 996 / 1000" "9 / 10 \<le> fsub 1 (fl (1 / 100))"
    "fsub 1 (fl (3 / 100)) \<le> 996 / 1000" "9 / 10 \<le> fsub 1 (fl (3 / 100))"
    "fsub 1 (fl (1 / 20)) \<le> 996 / 1000" "9 / 10 \<le> fsub 1 (fl (1 / 20))"
    by code_simp+
  then show
    "fsub 1 (hp_min_stop_pct (HORIZON_POLICIES u)) \<le> 996 / 1000"
    "9 / 10 \<le> fsub 1 (hp_min_stop_pct (HORIZON_POLICIES u))"
    "fsub 1 (hp_stop_pct_fallback (HORIZON_POLICIES u)) \<le> 996 / 1000"
    "9 / 10 \<le> fsub 1 (hp_stop_pct_fallback (HORIZON_POLICIES u))"
    by (cases u; simp)+
qed

definition book_floor :: "rat \<Rightarrow> UniverseHorizon \<Rightarrow> rat" where
  "book_floor reference u = fmul reference (fsub 1 (hp_min_stop_pct (HORIZON_POLICIES u)))"

lemma scaled_bounds:
  assumes "1 \<le> r" "c \<le> 996 / 1000" "9 / 10 \<le> c"
  shows "fmul r c \<le> r * (997 / 1000)" "r * (8 / 10) \<le> fmul r c"
proof -
  have rc: "9 / 10 \<le> r * c" using mult_mono[of 1 r "9 / 10" c] assms by simp
  have "fmul r c \<le> r * c * (1 + pow2 (- 53))" unfolding fmul_def using rc by (intro fl_upper) simp
  also have "\<dots> = r * (c * (1 + pow2 (- 53)))" by simp
  also have "\<dots> \<le> r * (997 / 1000)" using assms by (intro mult_left_mono) (simp_all add: pow2_def)
  finally show "fmul r c \<le> r * (997 / 1000)" .
  have "r * (8 / 10) \<le> r * (c * (1 - pow2 (- 53)))" using assms by (intro mult_left_mono) (simp_all add: pow2_def)
  also have "\<dots> = r * c * (1 - pow2 (- 53))" by simp
  also have "\<dots> \<le> fmul r c" unfolding fmul_def using rc by (intro fl_lower) simp
  finally show "r * (8 / 10) \<le> fmul r c" .
qed

lemmas book_floor_bounds =
  scaled_bounds[OF _ book_factors(1,2), folded book_floor_def]

lemma rounded_below:
  assumes "1 \<le> r" "x \<le> r * (997 / 1000)"
  shows "fround 4 x \<le> r * (998 / 1000)"
proof -
  have "fround 4 x \<le> fround 4 (r * (997 / 1000))" by (rule fround_mono[OF assms(2)])
  also have "\<dots> \<le> (r * (997 / 1000) + 1 / (2 * 10 ^ 4)) * (1 + pow2 (- 53))"
    using assms by (intro fround_upper) simp
  also have "\<dots> \<le> r * (998 / 1000)" using assms(1) by (simp add: pow2_def field_simps)
  finally show ?thesis .
qed

lemma suggested_stop_below:
  assumes r: "1 \<le> reference" and s: "suggested_long_stop reference atr (Some (HORIZON_POLICIES u)) = Some s"
  shows "s \<le> fround 4 (book_floor reference u)" "s \<le> reference * (998 / 1000)"
proof -
  show fl: "s \<le> fround 4 (book_floor reference u)"
    using s by (auto simp: suggested_long_stop_def Let_def book_floor_def split: if_splits bool.splits option.splits
        intro!: fround_mono)
  show "s \<le> reference * (998 / 1000)"
    using fl rounded_below[OF r book_floor_bounds(1)[OF r]] by (rule order_trans)
qed

lemma suggested_stop_without_atr:
  assumes r: "1 \<le> reference"
  shows "suggested_long_stop reference None (Some (HORIZON_POLICIES u)) \<noteq> None"
proof -
  let ?raw = "fmul reference (fsub 1 (hp_stop_pct_fallback (HORIZON_POLICIES u)))"
  have b: "?raw \<le> reference * (997 / 1000)" "reference * (8 / 10) \<le> ?raw"
    using scaled_bounds[OF r book_factors(3,4)] .
  have f: "book_floor reference u \<le> reference * (997 / 1000)" "reference * (8 / 10) \<le> book_floor reference u"
    using book_floor_bounds[OF r] .
  have "0 < min ?raw (book_floor reference u)" "min ?raw (book_floor reference u) < reference"
    using b f r by (auto simp: min_def)
  then show ?thesis using r by (auto simp: suggested_long_stop_def Let_def book_floor_def)
qed

lemma widen_idem:
  "widen_long_stop_if_too_tight (widen_long_stop_if_too_tight stop reference pol) reference pol
     = widen_long_stop_if_too_tight stop reference pol"
  by (simp add: widen_long_stop_if_too_tight_def Let_def)

lemma widen_keeps:
  "stop \<le> fmul reference (fsub 1 (hp_min_stop_pct pol)) \<Longrightarrow> widen_long_stop_if_too_tight stop reference pol = stop"
  by (simp add: widen_long_stop_if_too_tight_def)

lemma widen_below:
  assumes r: "1 \<le> reference" and s: "0 < stop"
  shows "widen_long_stop_if_too_tight stop reference (HORIZON_POLICIES u) \<le> reference * (998 / 1000)"
proof -
  have f: "book_floor reference u \<le> reference * (997 / 1000)" by (rule book_floor_bounds(1)[OF r])
  have "reference * (997 / 1000) \<le> reference * (998 / 1000)" using r by simp
  then show ?thesis
    using r s f rounded_below[OF r f] by (simp add: widen_long_stop_if_too_tight_def Let_def flip: book_floor_def)
qed

text \<open>
  For a reference price of at least one dollar, every stop the four books suggest lies at
  least 0.2 percent below the reference and at or below the book's rounded minimum distance; without
  an ATR the book always has a stop.  Widening a stop leaves it at least 0.2 percent below the reference,
  never raises a stop that is already wide enough, and widening twice changes nothing more.
\<close>

theorem book_stops:
  assumes "1 \<le> reference" "0 < stop"
  shows "(suggested_long_stop reference atr (Some (HORIZON_POLICIES u)) = Some s \<longrightarrow>
           s \<le> reference * (998 / 1000)
           \<and> s \<le> fround 4 (fmul reference (fsub 1 (hp_min_stop_pct (HORIZON_POLICIES u)))))
    \<and> suggested_long_stop reference None (Some (HORIZON_POLICIES u)) \<noteq> None
    \<and> widen_long_stop_if_too_tight stop reference (HORIZON_POLICIES u) \<le> reference * (998 / 1000)
    \<and> (stop \<le> fmul reference (fsub 1 (hp_min_stop_pct (HORIZON_POLICIES u))) \<longrightarrow>
           widen_long_stop_if_too_tight stop reference (HORIZON_POLICIES u) = stop)
    \<and> widen_long_stop_if_too_tight (widen_long_stop_if_too_tight stop reference (HORIZON_POLICIES u)) reference
           (HORIZON_POLICIES u) = widen_long_stop_if_too_tight stop reference (HORIZON_POLICIES u)"
  using suggested_stop_below[OF assms(1), of atr u s] suggested_stop_without_atr[OF assms(1), of u]
    widen_below[OF assms, of u] widen_idem widen_keeps
  by (auto simp: book_floor_def)

theorem book_stops_witness:
  "suggested_long_stop 100 None (Some (HORIZON_POLICIES SCALP)) \<noteq> None
   \<and> widen_long_stop_if_too_tight 99 100 (HORIZON_POLICIES SCALP) = 99
   \<and> suggested_long_stop 100 (Some 2) (Some (HORIZON_POLICIES SCALP)) = Some 98 \<and> (98 :: rat) \<le> 100 * (998 / 1000)"
proof -
  have ev: "99 \<le> fmul 100 (fsub 1 (hp_min_stop_pct (HORIZON_POLICIES SCALP)))"
    "suggested_long_stop 100 (Some 2) (Some (HORIZON_POLICIES SCALP)) = Some 98"
    by code_simp+
  show ?thesis
    using book_stops[of 100 99 "Some 2" SCALP 98] ev
    by simp
qed

section \<open>The position caps hold under every sequence of entries\<close>

definition held_in :: "(string \<times> string) list \<Rightarrow> string \<Rightarrow> string list \<Rightarrow> nat" where
  "held_in by_sym h held = length (filter (\<lambda>s. horizon_of by_sym s = h) held)"

lemma count_loop_get:
  "[] \<notin> set held \<Longrightarrow>
   (case dget (count_loop by_sym counts held) h of Some n \<Rightarrow> n | None \<Rightarrow> 0)
     = (case dget counts h of Some n \<Rightarrow> n | None \<Rightarrow> 0)
       + int (length (filter (\<lambda>s. horizon_of by_sym (upper s) = h) held))"
  by (induction held arbitrary: counts) (auto simp: dget_dset Let_def split: option.splits)

lemma filter_upper:
  "(\<And>s. s \<in> set held \<Longrightarrow> upper s = s) \<Longrightarrow>
   filter (\<lambda>s. horizon_of by_sym (upper s) = h) held = filter (\<lambda>s. horizon_of by_sym s = h) held"
  by (rule filter_cong) auto

lemma count_open_get:
  assumes "\<And>s. s \<in> set held \<Longrightarrow> upper s = s" "[] \<notin> set held"
  shows "(case dget (count_open_by_horizon held by_sym) h of Some n \<Rightarrow> n | None \<Rightarrow> 0) = int (held_in by_sym h held)"
  using count_loop_get[OF assms(2), of by_sym "[]" h] filter_upper[OF assms(1)]
  by (simp add: count_open_by_horizon_def held_in_def)

definition held_set :: "string list \<Rightarrow> string list" where
  "held_set held = remdups (map upper (filter (\<lambda>s. s \<noteq> []) held))"

lemma held_set_ok: "s \<in> set (held_set held) \<Longrightarrow> upper s = s" "[] \<notin> set (held_set held)"
  by (auto simp: held_set_def upper_idem eq_commute[of "[]"])

lemma horizon_cap_iff:
  "horizon_cap_violation symbol by_sym held True \<noteq> None \<longleftrightarrow>
     (\<exists>pol. policy_for (horizon_of by_sym (upper symbol)) = Inr pol
        \<and> upper symbol \<notin> set (held_set held)
        \<and> hp_max_positions pol \<le> int (held_in by_sym (horizon_of by_sym (upper symbol)) (held_set held)))"
  using count_open_get[OF held_set_ok]
  by (auto simp: horizon_cap_violation_def Let_def held_set_def split: sum.splits)

text \<open>Entries that pass the cap are bought, the others are dropped.\<close>

fun open_entries :: "(string \<times> string) list \<Rightarrow> string list \<Rightarrow> string list \<Rightarrow> string list" where
  "open_entries by_sym held [] = held"
| "open_entries by_sym held (sy # rest) =
     (if horizon_cap_violation sy by_sym held True = None
      then open_entries by_sym (sy # held) rest else open_entries by_sym held rest)"

definition within_caps :: "(string \<times> string) list \<Rightarrow> string list \<Rightarrow> bool" where
  "within_caps by_sym held \<longleftrightarrow>
     (\<forall>u. int (held_in by_sym (uh_value u) (held_set held)) \<le> hp_max_positions (HORIZON_POLICIES u))"

lemma policy_for_value [simp]: "policy_for (uh_value u) = Inr (HORIZON_POLICIES u)"
  by (cases u) (simp_all add: policy_for_def HORIZONS_def enum_of_def del: HORIZON_POLICIES.simps)

lemma max_positions_pos: "0 < hp_max_positions (HORIZON_POLICIES u)"
  by (cases u) simp_all

lemma held_set_Cons:
  "held_set (sy # held) =
     (if sy = [] \<or> upper sy \<in> set (held_set held) then held_set held else upper sy # held_set held)"
  by (simp add: held_set_def)

lemma within_caps_step:
  assumes w: "within_caps by_sym held" and v: "horizon_cap_violation sy by_sym held True = None"
  shows "within_caps by_sym (sy # held)"
proof (cases "sy = [] \<or> upper sy \<in> set (held_set held)")
  case True
  then show ?thesis using w by (simp add: within_caps_def held_set_Cons)
next
  case False
  have "int (held_in by_sym (uh_value u) (upper sy # held_set held)) \<le> hp_max_positions (HORIZON_POLICIES u)" for u
  proof (cases "horizon_of by_sym (upper sy) = uh_value u")
    case True
    then show ?thesis using v False horizon_cap_iff[of sy by_sym held] by (auto simp: held_in_def)
  next
    case neq: False
    then show ?thesis using w by (simp add: within_caps_def held_in_def)
  qed
  then show ?thesis using False by (simp add: within_caps_def held_set_Cons)
qed

lemma open_entries_within: "within_caps by_sym held \<Longrightarrow> within_caps by_sym (open_entries by_sym held syms)"
  by (induction syms arbitrary: held) (auto intro: within_caps_step)

text \<open>
  Starting from an empty portfolio, whatever sequence of new symbols is put through the cap
  check, no book ever holds more distinct symbols than its \<open>max_positions\<close>.
\<close>

theorem horizon_caps_hold:
  "int (held_in by_sym (uh_value u) (held_set (open_entries by_sym [] syms))) \<le> hp_max_positions (HORIZON_POLICIES u)"
proof -
  have "within_caps by_sym []"
    by (auto simp: within_caps_def held_in_def held_set_def max_positions_pos less_imp_le)
  then show ?thesis using open_entries_within unfolding within_caps_def by blast
qed

section \<open>A new name stays inside its sleeve\<close>

lemma sleeve_ceiling_cases: "sleeve_ceiling h = (if sleeve_target h = 0 then 0 else 25)"
proof -
  have ev: "fround 2 (fadd 20 5) = 25" by code_simp
  have "sleeve_target h \<in> {0, 20}"
    by (auto simp: sleeve_target_def SLEEVE_TARGET_PCT_def split: if_splits)
  then show ?thesis by (auto simp: sleeve_ceiling_def SLEEVE_BAND_PCT_def ev)
qed

lemma fl_err_small:
  assumes "0 \<le> r" "r \<le> 128"
  shows "\<bar>fl r - r\<bar> \<le> 1 / 1000000"
proof (cases "r = 0")
  case False
  have "\<bar>fl r - r\<bar> \<le> pow2 (ulp_exp r) / 2" by (rule fl_err_ulp)
  also have "\<dots> \<le> pow2 (ulp_exp 128) / 2" using False assms by (intro divide_right_mono pow2_mono ulp_exp_mono) auto
  also have "\<dots> \<le> 1 / 1000000" by code_simp
  finally show ?thesis .
qed simp

lemma fround2_upper:
  assumes "x \<le> 100"
  shows "fround 2 x \<le> max 0 x + 51 / 10000"
proof (cases "x \<le> 0")
  case True
  then show ?thesis using fround_mono[OF True, of 2] by simp
next
  case False
  let ?r = "of_int (round_even (x * 10 ^ 2)) / 10 ^ 2 :: rat"
  have n: "?r - x \<le> 1 / 200" using decimal_near[of x 2] by (simp only: abs_le_iff) simp
  have "round_even 0 \<le> round_even (x * 10 ^ 2)" using False by (intro round_even_mono) simp
  moreover have "round_even 0 = 0" using round_even_of_int[of 0] by simp
  ultimately have r0: "0 \<le> ?r" by simp
  have "?r \<le> 128" using n assms by linarith
  then have "fl ?r - ?r \<le> 1 / 1000000" using fl_err_small[OF r0] by (simp only: abs_le_iff)
  then have "fl ?r \<le> x + 51 / 10000" using n by linarith
  then show ?thesis using False by (simp add: fround_def)
qed

lemma fsub_le_left: "is_double x \<Longrightarrow> 0 \<le> y \<Longrightarrow> fsub x y \<le> x"
  using fl_mono[of "x - y" x] by (simp add: fsub_def is_double_def)

lemma fsub_small: "0 \<le> y \<Longrightarrow> y \<le> x \<Longrightarrow> x \<le> 128 \<Longrightarrow> fsub x y \<le> x - y + 1 / 1000000"
  using fl_err_small[of "x - y"] by (simp only: fsub_def abs_le_iff) linarith

lemma sleeve_room_le:
  assumes "0 \<le> used"
  shows "sleeve_room h used \<le> max 0 (sleeve_ceiling h - used) + 6 / 1000"
    and "sleeve_room h used \<le> 100"
proof -
  let ?c = "sleeve_ceiling h"
  have c: "?c \<le> 25" "is_double ?c" "0 \<le> ?c" by (auto simp: sleeve_ceiling_cases is_double_def)
  have d: "fsub ?c used \<le> 25" using fsub_le_left[OF c(2) assms] c(1) by linarith
  have "fsub ?c used \<le> max 0 (?c - used) + 1 / 1000000"
  proof (cases "used \<le> ?c")
    case True
    then show ?thesis using fsub_small[OF assms True] c by simp
  next
    case False
    then show ?thesis using fl_mono[of "?c - used" 0] by (simp add: fsub_def)
  qed
  then show "sleeve_room h used \<le> max 0 (?c - used) + 6 / 1000"
    using fround2_upper[of "fsub ?c used"] d by (simp add: sleeve_room_def)
  show "sleeve_room h used \<le> 100" using fround2_upper[of "fsub ?c used"] d by (simp add: sleeve_room_def)
qed

lemma entry_le:
  assumes "0 \<le> used"
  shows "entry_notional_pct h used mp t \<le> sleeve_room h used + 51 / 10000"
    and "entry_notional_pct h used mp t \<le> max 0 (min mp (case t of Some x \<Rightarrow> x | None \<Rightarrow> mp)) + 51 / 10000"
    and "0 \<le> entry_notional_pct h used mp t"
proof -
  let ?cap = "min mp (case t of Some x \<Rightarrow> x | None \<Rightarrow> mp)" and ?room = "sleeve_room h used"
  have eq: "entry_notional_pct h used mp t = (if ?room \<le> 0 \<or> ?cap \<le> 0 then 0 else fround 2 (min ?cap ?room))"
    by (auto simp: entry_notional_pct_def Let_def split: option.splits)
  have r0: "0 \<le> ?room" by (simp add: sleeve_room_def)
  have b: "fround 2 (min ?cap ?room) \<le> max 0 (min ?cap ?room) + 51 / 10000"
    using sleeve_room_le(2)[OF assms, of h] by (intro fround2_upper) auto
  have m: "max 0 (min ?cap ?room) \<le> max 0 ?cap" by (intro max.mono) auto
  show "entry_notional_pct h used mp t \<le> ?room + 51 / 10000" unfolding eq using b r0 by auto
  show "entry_notional_pct h used mp t \<le> max 0 ?cap + 51 / 10000"
    unfolding eq using order_trans[OF b add_right_mono[OF m]] by simp
  show "0 \<le> entry_notional_pct h used mp t" unfolding eq by (auto intro!: fround_nonneg)
qed

text \<open>
  A new name gets a non-negative share of equity, zero when its book has no standing sleeve,
  at most the position cap and the target size, and never more than brings the book's sleeve to its
  25 percent ceiling, all to within the rounding of two decimals.
\<close>

theorem entry_inside_sleeve:
  assumes "0 \<le> used"
  shows "0 \<le> entry_notional_pct h used mp t
    \<and> (sleeve_target h = 0 \<longrightarrow> entry_notional_pct h used mp t = 0)
    \<and> entry_notional_pct h used mp t \<le> max 0 (25 - used) + 2 / 100
    \<and> entry_notional_pct h used mp t \<le> max 0 mp + 2 / 100
    \<and> (\<forall>x. t = Some x \<longrightarrow> entry_notional_pct h used mp t \<le> max 0 x + 2 / 100)"
proof -
  have z: "sleeve_target h = 0 \<Longrightarrow> entry_notional_pct h used mp t = 0"
    using assms fl_mono[of "- used" 0] fround_mono[of "fsub 0 used" 0 2]
    by (simp add: entry_notional_pct_def sleeve_room_def sleeve_ceiling_cases fsub_def)
  have c: "max 0 (sleeve_ceiling h - used) \<le> max 0 (25 - used)" using assms by (simp add: sleeve_ceiling_cases max_def)
  note e = entry_le[OF assms, of h mp t]
  show ?thesis
    using z e c sleeve_room_le(1)[OF assms, of h] by (auto split: option.splits)
qed

theorem entry_inside_sleeve_witness:
  "entry_notional_pct (Some ''scalp'') 20 10 None = 5 \<and> (5 :: rat) \<le> max 0 (25 - 20) + 2 / 100"
proof -
  have "entry_notional_pct (Some ''scalp'') 20 10 None = 5" by code_simp
  then show ?thesis using entry_inside_sleeve[of 20 "Some ''scalp''" 10 None] by simp
qed

section \<open>Focus sessions\<close>

lemma focus_loop_get:
  assumes "set current \<subseteq> set (map fst counts)" "distinct (map fst counts)"
  shows "dget (focus_loop current counts days) s =
     (case dget counts s of
        None \<Rightarrow> None
      | Some n \<Rightarrow> Some (n + (if s \<in> set current then int (length (takeWhile (\<lambda>d. s \<in> set d) days)) else 0)))"
  using assms
proof (induction days arbitrary: current counts)
  case Nil
  then show ?case by (auto split: option.splits)
next
  case (Cons d days)
  let ?cur = "filter (\<lambda>s. s \<in> set d) current"
  let ?cnt = "map (\<lambda>(s, n). if s \<in> set ?cur then (s, n + 1) else (s, n)) counts"
  have f: "map fst ?cnt = map fst counts" by (induction counts) auto
  have g: "dget ?cnt s = map_option (\<lambda>n. if s \<in> set ?cur then n + 1 else n) (dget counts s)"
    by (induction counts) auto
  have s: "set ?cur \<subseteq> set (map fst ?cnt)" using Cons.prems(1) unfolding f by auto
  show ?case
  proof (cases "?cur = []")
    case True
    then have "s \<in> set current \<Longrightarrow> s \<notin> set d" by (auto simp: filter_empty_conv)
    then show ?thesis using True by (auto split: option.splits)
  next
    case False
    then show ?thesis using Cons.IH[OF s] Cons.prems(2) g unfolding f by (auto split: option.splits)
  qed
qed

lemma focus_loop_keys: "map fst (focus_loop current counts days) = map fst counts"
proof (induction current counts days rule: focus_loop.induct)
  case (2 current counts names days)
  have "map fst (map (\<lambda>(s, n). if P s then (s, n + 1) else (s, n)) counts) = map fst counts" for P :: "string \<Rightarrow> bool"
    by (induction counts) auto
  then show ?case using 2 by (simp add: Let_def)
qed simp

text \<open>
  The focus counter gives each symbol of the latest session the number of sessions, counted back
  from the latest without a gap, in which it was on the focus list, and no entry to any other symbol.
\<close>

theorem focus_sessions_spec:
  assumes "distinct first"
  shows "dget (consecutive_focus_sessions (first # older)) s =
    (if s \<in> set first then Some (1 + int (length (takeWhile (\<lambda>d. s \<in> set d) older))) else None)"
proof -
  have d: "map fst (map (\<lambda>s. (s, 0 :: int)) first) = first" by (simp add: comp_def)
  have z: "dget (map (\<lambda>s. (s, 0 :: int)) first) s = (if s \<in> set first then Some 0 else None)"
    by (induction first) auto
  let ?l = "focus_loop first (map (\<lambda>s. (s, 0)) first) (first # older)"
  have g: "dget ?l s = (if s \<in> set first then Some (1 + int (length (takeWhile (\<lambda>d. s \<in> set d) older))) else None)"
    using focus_loop_get[of first "map (\<lambda>s. (s, 0)) first" "first # older" s] assms unfolding d z by simp
  have "dict_ok ?l"
    unfolding dict_ok_def dkeys_def using assms d focus_loop_keys[of first "map (\<lambda>s. (s, 0)) first" "first # older"] by simp
  then have "dget (filter (\<lambda>(s, n). n \<noteq> 0) ?l) s = (case dget ?l s of Some n \<Rightarrow> if n \<noteq> 0 then Some n else None | None \<Rightarrow> None)"
    by (rule dget_filter)
  then show ?thesis using g by (simp add: consecutive_focus_sessions_def)
qed

theorem focus_sessions_spec_witness:
  "dget (consecutive_focus_sessions [[''A'', ''B''], [''A''], [], [''A'']]) ''A'' = Some 2"
  using focus_sessions_spec[of "[''A'', ''B'']" "[[''A''], [], [''A'']]" "''A''"] by simp

end
