(* ===== verification/Validation.thy ===== *)
theory Validation
  imports Risk_Engine Broker_Models Trading_Controls Horizons
begin

text \<open>
  \<open>app/execution/validation.py\<close> with the decision schema it reads (\<open>schemas/cio.py\<close>, the actions of
  \<open>schemas/common.py\<close>), the stub-price guard of \<open>market/live_prices.py\<close> and the attribution of
  \<open>universe/entry_attribution.py\<close>: the last gate that turns a decision of the investment officer into
  order intents.  A decision id is the text of its UUID; the trace metadata of the schemas is left
  out.  The union that \<open>_validate_plan\<close> returns is the datatype \<open>plan_result\<close>.
\<close>

section \<open>The decision\<close>

datatype SymbolAction =
    SA_STRONG_BUY | SA_BUY | SA_SCALE_IN | SA_HOLD | SA_REDUCE | SA_PARTIAL_SELL | SA_SELL
  | SA_HEDGE | SA_STAY_CASH | SA_NO_TRADE

fun sa_value :: "SymbolAction \<Rightarrow> string" where
  "sa_value SA_STRONG_BUY = ''STRONG_BUY''"
| "sa_value SA_BUY = ''BUY''"
| "sa_value SA_SCALE_IN = ''SCALE_IN''"
| "sa_value SA_HOLD = ''HOLD''"
| "sa_value SA_REDUCE = ''REDUCE''"
| "sa_value SA_PARTIAL_SELL = ''PARTIAL_SELL''"
| "sa_value SA_SELL = ''SELL''"
| "sa_value SA_HEDGE = ''HEDGE''"
| "sa_value SA_STAY_CASH = ''STAY_CASH''"
| "sa_value SA_NO_TRADE = ''NO_TRADE''"

datatype PortfolioAction =
    PA_STRONG_BUY | PA_BUY | PA_SCALE_IN | PA_HOLD | PA_REDUCE | PA_PARTIAL_SELL | PA_SELL
  | PA_HEDGE | PA_STAY_CASH | PA_NO_TRADE

datatype OrderType = OT_MARKET | OT_LIMIT | OT_STOP | OT_STOP_LIMIT

fun ot_value :: "OrderType \<Rightarrow> string" where
  "ot_value OT_MARKET = ''market''"
| "ot_value OT_LIMIT = ''limit''"
| "ot_value OT_STOP = ''stop''"
| "ot_value OT_STOP_LIMIT = ''stop_limit''"

record PriceZone =
  pz_min :: rat
  pz_max :: rat

record SymbolActionPlan =
  pl_symbol :: string
  pl_action :: SymbolAction
  pl_confidence :: int
  pl_target_position_pct :: rat
  pl_order_type :: OrderType
  pl_entry_zone :: "PriceZone option"
  pl_stop_loss :: "rat option"
  pl_take_profit :: "rat list"
  pl_time_horizon :: TimeHorizon
  pl_thesis :: string
  pl_invalidation :: string
  pl_max_holding_time_minutes :: "int option"
  pl_entry_timing :: "string option"
  pl_entry_source :: "string option"
  pl_trend_at_entry :: "string option"

definition require_exit_for_entries :: "SymbolActionPlan \<Rightarrow> SymbolActionPlan py" where
  "require_exit_for_entries p =
     (if pl_action p \<in> {SA_STRONG_BUY, SA_BUY, SA_SCALE_IN} \<and> pl_stop_loss p = None
         \<and> strip (pl_invalidation p) = []
      then Inl (ValueError (pl_symbol p @ '': new entries require stop_loss or invalidation''))
      else Inr p)"

record CIODecision =
  cd_decision_id :: string
  cd_timestamp :: int
  cd_market_regime :: MarketRegime
  cd_portfolio_action :: PortfolioAction
  cd_symbol_actions :: "SymbolActionPlan list"
  cd_cash_target_pct :: rat
  cd_hedge_required :: bool
  cd_risk_approval :: bool
  cd_risk_conditions :: "string list"
  cd_reason_not_to_trade :: "string option"
  cd_hard_veto_honored :: bool

definition honor_risk_veto :: "CIODecision \<Rightarrow> CIODecision py" where
  "honor_risk_veto d =
     (if cd_risk_approval d then Inr d
      else if cd_portfolio_action d \<in> {PA_STRONG_BUY, PA_BUY, PA_SCALE_IN, PA_HEDGE}
      then Inl (ValueError ''CIO cannot approve risk-increasing actions when risk_approval is false'')
      else (case find (\<lambda>p. pl_action p \<in> {SA_STRONG_BUY, SA_BUY, SA_SCALE_IN}) (cd_symbol_actions d) of
              Some p \<Rightarrow> Inl (ValueError (''CIO cannot emit '' @ sa_value (pl_action p) @ '' for '' @ pl_symbol p
                                         @ '' without risk approval''))
            | None \<Rightarrow> Inr d))"

section \<open>Live prices and attribution\<close>

definition requires_live_market_prices :: "settings \<Rightarrow> bool" where
  "requires_live_market_prices cfg \<longleftrightarrow>
     (if lower (cfg_broker_provider cfg) \<in> {''mock'', ''simulated'', ''sim''} then False
      else cfg_enable_broker_orders cfg \<or> cfg_enable_automated_execution cfg
           \<or> cfg_enable_market_data_collection cfg \<or> cfg_enable_external_data cfg)"

definition STUB_LAST :: "(string \<times> rat) list" where
  "STUB_LAST =
     [(''SPY'', 560), (''QQQ'', 480), (''IWM'', 220), (''DIA'', 410), (''NVDA'', 120), (''MSFT'', 430),
      (''AMZN'', 190), (''GOOGL'', 175), (''META'', 520), (''AVGO'', 160), (''AMD'', 160), (''AAPL'', 220),
      (''TSLA'', 250), (''IONQ'', 12)]"

definition looks_like_stub_last :: "string \<Rightarrow> rat \<Rightarrow> rat \<Rightarrow> bool" where
  "looks_like_stub_last symbol last_px tol =
     (case dget STUB_LAST (upper symbol) of
        None \<Rightarrow> False
      | Some stub \<Rightarrow> if last_px \<le> 0 then False else fdiv \<bar>fsub last_px stub\<bar> stub \<le> tol)"

definition attribution_from_plan :: "SymbolActionPlan \<Rightarrow> (string \<times> string) list" where
  "attribution_from_plan p =
     concat (map (\<lambda>(k, v). if truthy_str v then [(k, or_str v [])] else [])
       [(''entry_timing'', pl_entry_timing p), (''entry_source'', pl_entry_source p),
        (''trend_at_entry'', pl_trend_at_entry p)])"

section \<open>The validator\<close>

definition ENTRY_ACTIONS :: "SymbolAction list" where
  "ENTRY_ACTIONS = [SA_STRONG_BUY, SA_BUY, SA_SCALE_IN, SA_HEDGE]"

definition EXIT_ACTIONS :: "SymbolAction list" where
  "EXIT_ACTIONS = [SA_SELL, SA_PARTIAL_SELL, SA_REDUCE]"

definition PASSIVE_ACTIONS :: "SymbolAction list" where
  "PASSIVE_ACTIONS = [SA_HOLD, SA_NO_TRADE, SA_STAY_CASH]"

definition ANALYSIS_ONLY_PORTFOLIO :: "PortfolioAction list" where
  "ANALYSIS_ONLY_PORTFOLIO = [PA_NO_TRADE, PA_HOLD]"

definition RISK_INCREASING_PORTFOLIO :: "PortfolioAction list" where
  "RISK_INCREASING_PORTFOLIO = [PA_STRONG_BUY, PA_BUY, PA_SCALE_IN, PA_HEDGE]"

record ValidatedOrderIntent =
  vi_symbol :: string
  vi_side :: string
  vi_quantity :: rat
  vi_order_type :: string
  vi_limit_price :: "rat option"
  vi_stop_price :: "rat option"
  vi_idempotency_key :: string
  vi_decision_id :: string
  vi_thesis :: string
  vi_venue :: "string option"
  vi_con_id :: "int option"
  vi_time_in_force :: "string option"
  vi_attribution :: "(string \<times> string) list option"

record ExecutionValidationResult =
  ev_approved :: bool
  ev_intents :: "ValidatedOrderIntent list"
  ev_rejections :: "string list"

text \<open>The arguments of \<open>validate\<close> that do not change between plans.\<close>

record validation_context =
  vc_portfolio :: PortfolioRiskView
  vc_latest_prices :: "(string \<times> rat) list"
  vc_data_quality_score :: rat
  vc_market_session_clear :: bool
  vc_broker_data_consistent :: bool
  vc_workflow_id :: "string option"
  vc_entry_universe :: "string set option"
  vc_horizon_by_symbol :: "(string \<times> string) list"
  vc_now :: int

datatype plan_result = Intent ValidatedOrderIntent | Rejected string | Skipped

definition existing_position :: "PortfolioRiskView \<Rightarrow> string \<Rightarrow> PositionRiskView option" where
  "existing_position pf symbol = find (\<lambda>p. upper (prv_symbol p) = symbol) (prt_positions pf)"

text \<open>The checks on an entry before its price is read, in their order.\<close>

definition entry_precheck ::
  "CIODecision \<Rightarrow> SymbolActionPlan \<Rightarrow> string set \<Rightarrow> (string \<times> string) list \<Rightarrow> string list \<Rightarrow> bool
   \<Rightarrow> plan_result option" where
  "entry_precheck d pl allowlist horizons held block_new_entries =
     (let symbol = upper (pl_symbol pl)
      in if symbol \<notin> allowlist then Some (Rejected (symbol @ '':not_in_allowlist''))
         else if block_new_entries then Some Skipped
         else if \<not> cd_risk_approval d then Some (Rejected (symbol @ '':entry_without_risk_approval''))
         else if pl_stop_loss pl = None \<and> strip (pl_invalidation pl) = []
         then Some (Rejected (symbol @ '':missing_stop_or_invalidation''))
         else (case horizon_cap_violation symbol horizons held True of
                 Some reason \<Rightarrow> Some (Rejected reason)
               | None \<Rightarrow> None))"

definition entry_intent ::
  "CIODecision \<Rightarrow> SymbolActionPlan \<Rightarrow> string \<Rightarrow> rat \<Rightarrow> rat \<Rightarrow> rat \<Rightarrow> string \<Rightarrow> string \<Rightarrow> string \<Rightarrow> TradeIntent" where
  "entry_intent d pl symbol qty price stop sector v ccy =
     \<lparr>ti_symbol = symbol, ti_side = ''buy'', ti_quantity = qty, ti_entry_price = price, ti_stop_loss = Some stop,
      ti_invalidation = Some (pl_invalidation pl), ti_expected_slippage_bps = None, ti_avg_daily_volume = None,
      ti_bid_ask_spread_bps = None, ti_atr = None, ti_sector = sector, ti_is_leveraged_etf = False,
      ti_idempotency_key = Some (cd_decision_id d @ '':'' @ symbol @ '':buy''), ti_venue = Some v,
      ti_currency = Some ccy\<rparr>"

definition slot_quantity :: "rat \<Rightarrow> rat \<Rightarrow> rat \<Rightarrow> rat \<Rightarrow> rat" where
  "slot_quantity equity target_pct price qty =
     (if target_pct > 0 \<and> price > 0 \<and> equity > 0
      then (let slot = ffloordiv (fdiv (fmul equity target_pct) 100) price
            in if of_int slot < qty then fl (of_int slot) else qty)
      else qty)"

text \<open>Sizing of an entry and the risk engine's verdict: the quantity, or the rejection.\<close>

definition entry_quantity ::
  "settings \<Rightarrow> RiskEngine \<Rightarrow> CIODecision \<Rightarrow> SymbolActionPlan \<Rightarrow> validation_context \<Rightarrow> string set \<Rightarrow> string set
   \<Rightarrow> string \<Rightarrow> rat \<Rightarrow> (string + rat) py" where
  "entry_quantity cfg eng d pl vc seen allowlist v price =
     (let symbol = upper (pl_symbol pl); pf = vc_portfolio vc;
          sector = (case existing_position pf symbol of Some p \<Rightarrow> prv_sector p | None \<Rightarrow> ''Unknown'')
      in case pl_stop_loss pl of
           None \<Rightarrow> Inr (Inl (symbol @ '':buy_requires_numeric_stop_for_sizing''))
         | Some stop \<Rightarrow>
             (let hz = dget (vc_horizon_by_symbol vc) symbol;
                  risk_mult = (if truthy_str hz then risk_mult_for_horizon hz (cfg_risk_per_trade_pct cfg) else 1)
              in py_bind (position_size (eng_limits eng) (prt_equity pf) price stop None 0 risk_mult) (\<lambda>s.
                   (let qty = slot_quantity (prt_equity pf) (pl_target_position_pct pl) price (fl (of_int (siz_shares s)))
                    in if qty \<le> 0 then Inr (Inl (symbol @ '':sized_to_zero''))
                       else py_bind (get_venue_spec (Some v)) (\<lambda>spec.
                         py_bind (evaluate_pretrade cfg eng pf
                                    (entry_intent d pl symbol qty price stop sector v (vs_currency spec))
                                    allowlist (vc_data_quality_score vc) (vc_market_session_clear vc)
                                    (vc_broker_data_consistent vc) (vc_now vc) (Some seen)) (\<lambda>pre.
                           if \<not> ptr_approved pre
                           then Inr (Inl (symbol @ '':hard_veto:'' @ join_with '','' (ptr_hard_vetoes pre)))
                           else Inr (Inr (or_float (ptr_adjusted_quantity pre) 0))))))))"

definition exit_quantity :: "SymbolActionPlan \<Rightarrow> PortfolioRiskView \<Rightarrow> string + (rat \<times> string)" where
  "exit_quantity pl pf =
     (let symbol = upper (pl_symbol pl)
      in case existing_position pf symbol of
           None \<Rightarrow> Inl (symbol @ '':no_position_to_exit'')
         | Some p \<Rightarrow>
             if prv_quantity p = 0 then Inl (symbol @ '':no_position_to_exit'')
             else (let held = \<bar>prv_quantity p\<bar>;
                       qty = (if pl_action pl \<in> {SA_PARTIAL_SELL, SA_REDUCE} then max 1 (fmul held (1 / 2)) else held)
                   in Inr (qty, if prv_quantity p > 0 then ''sell'' else ''buy'')))"

definition is_limit_type :: "string \<Rightarrow> bool" where
  "is_limit_type t \<longleftrightarrow> t = ''limit'' \<or> t = ''stop_limit''"

definition plan_order :: "SymbolActionPlan \<Rightarrow> rat \<Rightarrow> string \<times> rat option" where
  "plan_order pl price =
     (let limit0 = (case pl_entry_zone pl of Some z \<Rightarrow> Some (fdiv (fadd (pz_min z) (pz_max z)) 2) | None \<Rightarrow> None);
          otype = ot_value (pl_order_type pl)
      in if pl_action pl \<notin> set ENTRY_ACTIONS then (''market'', None)
         else if pl_entry_zone pl = None \<and> is_limit_type otype then (''market'', None)
         else if is_limit_type otype \<and> limit0 = None then (otype, Some price)
         else (otype, limit0))"

definition limit_drift_bps :: "rat \<Rightarrow> rat \<Rightarrow> rat" where
  "limit_drift_bps limit price = fmul (fdiv \<bar>fsub limit price\<bar> price) 10000"

definition intent_con_id :: "PortfolioRiskView \<Rightarrow> string \<Rightarrow> string \<Rightarrow> int option" where
  "intent_con_id pf symbol v =
     (case find (\<lambda>p. upper (prv_symbol p) = symbol \<and> venue_or_us (prv_venue p) = v
                    \<and> (case prv_con_id p of Some c \<Rightarrow> c \<noteq> 0 | None \<Rightarrow> False)) (prt_positions pf) of
        Some p \<Rightarrow> prv_con_id p
      | None \<Rightarrow> None)"

definition intent_key :: "string option \<Rightarrow> string \<Rightarrow> string \<Rightarrow> string \<Rightarrow> SymbolAction \<Rightarrow> string" where
  "intent_key wid did symbol side action =
     or_str wid did @ '':'' @ symbol @ '':'' @ side @ '':'' @ sa_value action"

text \<open>From the settled quantity and side to the intent: order type, limit drift, key.\<close>

definition finish_plan ::
  "settings \<Rightarrow> CIODecision \<Rightarrow> SymbolActionPlan \<Rightarrow> validation_context \<Rightarrow> string set \<Rightarrow> string \<Rightarrow> rat \<Rightarrow> rat \<Rightarrow> string
   \<Rightarrow> plan_result" where
  "finish_plan cfg d pl vc seen v price qty side =
     (let symbol = upper (pl_symbol pl); order = plan_order pl price; limit = snd order;
          key = intent_key (vc_workflow_id vc) (cd_decision_id d) symbol side (pl_action pl);
          attr = attribution_from_plan pl
      in if pl_action pl \<in> set ENTRY_ACTIONS
            \<and> (case limit of Some l \<Rightarrow> limit_drift_bps l price > cfg_max_entry_limit_drift_bps cfg | None \<Rightarrow> False)
         then Rejected (symbol @ '':limit_too_far_from_last:'' @ fmt_fixed 0 (limit_drift_bps (the limit) price) @ ''bps'')
         else if key \<in> seen then Rejected (symbol @ '':duplicate_idempotency_key'')
         else Intent \<lparr>vi_symbol = symbol, vi_side = side, vi_quantity = qty, vi_order_type = fst order,
                      vi_limit_price = round_equity_price limit, vi_stop_price = round_equity_price (pl_stop_loss pl),
                      vi_idempotency_key = key, vi_decision_id = cd_decision_id d, vi_thesis = pl_thesis pl,
                      vi_venue = Some v, vi_con_id = intent_con_id (vc_portfolio vc) symbol v,
                      vi_time_in_force = None, vi_attribution = (if attr = [] then None else Some attr)\<rparr>)"

definition validate_plan ::
  "settings \<Rightarrow> RiskEngine \<Rightarrow> CIODecision \<Rightarrow> validation_context \<Rightarrow> string set \<Rightarrow> string set \<Rightarrow> string list \<Rightarrow> bool
   \<Rightarrow> string \<Rightarrow> SymbolActionPlan \<Rightarrow> plan_result py" where
  "validate_plan cfg eng d vc seen allowlist held block_new_entries v pl =
     (let symbol = upper (pl_symbol pl); entry = (pl_action pl \<in> set ENTRY_ACTIONS);
          pre = (if entry then entry_precheck d pl allowlist (vc_horizon_by_symbol vc) held block_new_entries else None)
      in case pre of
           Some r \<Rightarrow> Inr r
         | None \<Rightarrow>
             (case dget (vc_latest_prices vc) symbol of
                None \<Rightarrow> Inr (Rejected (symbol @ '':missing_latest_price''))
              | Some price \<Rightarrow>
                  if price \<le> 0 then Inr (Rejected (symbol @ '':missing_latest_price''))
                  else if requires_live_market_prices cfg \<and> looks_like_stub_last symbol price (fl (2 / 100))
                  then Inr (Rejected (symbol @ '':stub_price_forbidden_for_orders''))
                  else if pl_action pl \<in> set PASSIVE_ACTIONS then Inr (Rejected (symbol @ '':non_executable_action''))
                  else if entry
                  then py_bind (entry_quantity cfg eng d pl vc seen allowlist v price) (\<lambda>q.
                         case q of
                           Inl reason \<Rightarrow> Inr (Rejected reason)
                         | Inr qty \<Rightarrow> Inr (finish_plan cfg d pl vc seen v price qty ''buy''))
                  else (case exit_quantity pl (vc_portfolio vc) of
                          Inl reason \<Rightarrow> Inr (Rejected reason)
                        | Inr (qty, side) \<Rightarrow> Inr (finish_plan cfg d pl vc seen v price qty side))))"

text \<open>The loop over the plans: intents and rejections so far, and the keys already used.\<close>

record plan_loop =
  lp_intents :: "ValidatedOrderIntent list"
  lp_entry_rejections :: "string list"
  lp_exit_rejections :: "string list"
  lp_seen :: "string set"

definition add_result :: "SymbolActionPlan \<Rightarrow> plan_result \<Rightarrow> plan_loop \<Rightarrow> plan_loop" where
  "add_result pl r st =
     (case r of
        Skipped \<Rightarrow> st
      | Rejected reason \<Rightarrow>
          if pl_action pl \<in> set EXIT_ACTIONS
          then st\<lparr>lp_exit_rejections := lp_exit_rejections st @ [reason]\<rparr>
          else st\<lparr>lp_entry_rejections := lp_entry_rejections st @ [reason]\<rparr>
      | Intent i \<Rightarrow> st\<lparr>lp_intents := lp_intents st @ [i], lp_seen := insert (vi_idempotency_key i) (lp_seen st)\<rparr>)"

definition held_for_venue :: "PortfolioRiskView \<Rightarrow> string \<Rightarrow> string list" where
  "held_for_venue pf v =
     map prv_symbol (filter (\<lambda>p. prv_quantity p \<noteq> 0 \<and> venue_or_us (prv_venue p) = v) (prt_positions pf))"

fun validate_plans ::
  "settings \<Rightarrow> RiskEngine \<Rightarrow> CIODecision \<Rightarrow> validation_context \<Rightarrow> bool \<Rightarrow> SymbolActionPlan list \<Rightarrow> plan_loop
   \<Rightarrow> plan_loop py" where
  "validate_plans cfg eng d vc skip [] st = Inr st"
| "validate_plans cfg eng d vc skip (pl # pls) st =
     (if pl_action pl \<in> set PASSIVE_ACTIONS then validate_plans cfg eng d vc skip pls st
      else py_bind (venue_for_symbol cfg (pl_symbol pl) None None None) (\<lambda>w.
             (let v = venue_value w
              in py_bind (case vc_entry_universe vc of
                            Some u \<Rightarrow> Inr u | None \<Rightarrow> allowlist_for_venue cfg (Some v)) (\<lambda>allowlist.
                 py_bind (validate_plan cfg eng d vc (lp_seen st) allowlist (held_for_venue (vc_portfolio vc) v)
                            skip v pl)
                   (\<lambda>r. validate_plans cfg eng d vc skip pls (add_result pl r st))))))"

definition conclude :: "plan_loop \<Rightarrow> ExecutionValidationResult" where
  "conclude st =
     (if lp_entry_rejections st \<noteq> []
      then \<lparr>ev_approved = False, ev_intents = [], ev_rejections = lp_entry_rejections st @ lp_exit_rejections st\<rparr>
      else if lp_intents st \<noteq> []
      then \<lparr>ev_approved = True, ev_intents = lp_intents st, ev_rejections = lp_exit_rejections st\<rparr>
      else if lp_exit_rejections st \<noteq> []
      then \<lparr>ev_approved = False, ev_intents = [], ev_rejections = lp_exit_rejections st\<rparr>
      else \<lparr>ev_approved = True, ev_intents = [], ev_rejections = []\<rparr>)"

definition validate ::
  "settings \<Rightarrow> RiskEngine \<Rightarrow> TradingControlState \<Rightarrow> CIODecision \<Rightarrow> validation_context \<Rightarrow> string set \<Rightarrow> bool
   \<Rightarrow> ExecutionValidationResult py" where
  "validate cfg eng controls d vc seen block_new_entries =
     (if \<not> is_new_order_allowed controls
      then Inr \<lparr>ev_approved = False, ev_intents = [],
               ev_rejections = [''trading_controls:'' @ ts_value (tc_state controls) @ '':''
                                @ (case tc_reason controls of Some r \<Rightarrow> r | None \<Rightarrow> ''None'')]\<rparr>
      else if cd_portfolio_action d \<in> set RISK_INCREASING_PORTFOLIO \<and> \<not> cd_risk_approval d
      then Inr \<lparr>ev_approved = False, ev_intents = [], ev_rejections = [''cio_risk_approval_false'']\<rparr>
      else if cd_portfolio_action d = PA_STAY_CASH \<and> cd_symbol_actions d = []
      then Inr \<lparr>ev_approved = True, ev_intents = [], ev_rejections = []\<rparr>
      else (let skip = (block_new_entries \<or> cd_portfolio_action d \<in> set ANALYSIS_ONLY_PORTFOLIO)
            in py_bind (validate_plans cfg eng d vc skip (cd_symbol_actions d)
                          \<lparr>lp_intents = [], lp_entry_rejections = [], lp_exit_rejections = [], lp_seen = seen\<rparr>)
                 (\<lambda>st. Inr (conclude st))))"

section \<open>What an intent stands for\<close>

lemma finish_plan_Intent:
  assumes "finish_plan cfg d pl vc seen v price qty side = Intent i"
  shows "vi_symbol i = upper (pl_symbol pl)" "vi_side i = side" "vi_quantity i = qty"
    and "vi_idempotency_key i \<notin> seen"
    and "vi_stop_price i = round_equity_price (pl_stop_loss pl)"
    and "vi_order_type i = fst (plan_order pl price)"
    and "vi_limit_price i = round_equity_price (snd (plan_order pl price))"
    and "vi_idempotency_key i = intent_key (vc_workflow_id vc) (cd_decision_id d) (vi_symbol i) side (pl_action pl)"
    and "pl_action pl \<in> set ENTRY_ACTIONS \<Longrightarrow> snd (plan_order pl price) = Some l \<Longrightarrow>
           limit_drift_bps l price \<le> cfg_max_entry_limit_drift_bps cfg"
  using assms by (auto simp: finish_plan_def Let_def split: if_splits option.splits)

text \<open>An entry that became an intent.\<close>

definition entry_cleared ::
  "settings \<Rightarrow> RiskEngine \<Rightarrow> CIODecision \<Rightarrow> validation_context \<Rightarrow> string set \<Rightarrow> string set \<Rightarrow> string list \<Rightarrow> string
   \<Rightarrow> SymbolActionPlan \<Rightarrow> ValidatedOrderIntent \<Rightarrow> bool" where
  "entry_cleared cfg eng d vc seen allowlist held v pl i \<longleftrightarrow>
     upper (pl_symbol pl) \<in> allowlist \<and> cd_risk_approval d
     \<and> horizon_cap_violation (upper (pl_symbol pl)) (vc_horizon_by_symbol vc) held True = None
     \<and> vi_side i = ''buy''
     \<and> (\<exists>price stop sector q ccy pre.
          dget (vc_latest_prices vc) (upper (pl_symbol pl)) = Some price \<and> 0 < price
          \<and> \<not> (requires_live_market_prices cfg \<and> looks_like_stub_last (upper (pl_symbol pl)) price (fl (2 / 100)))
          \<and> pl_stop_loss pl = Some stop \<and> 0 < q
          \<and> evaluate_pretrade cfg eng (vc_portfolio vc)
              (entry_intent d pl (upper (pl_symbol pl)) q price stop sector v ccy) allowlist
              (vc_data_quality_score vc) (vc_market_session_clear vc) (vc_broker_data_consistent vc) (vc_now vc)
              (Some seen) = Inr pre
          \<and> ptr_approved pre \<and> vi_quantity i = or_float (ptr_adjusted_quantity pre) 0
          \<and> (\<forall>l. snd (plan_order pl price) = Some l \<longrightarrow> limit_drift_bps l price \<le> cfg_max_entry_limit_drift_bps cfg))"

text \<open>An exit that became an intent: a market order against the position held.\<close>

definition exit_cleared :: "validation_context \<Rightarrow> SymbolActionPlan \<Rightarrow> ValidatedOrderIntent \<Rightarrow> bool" where
  "exit_cleared vc pl i \<longleftrightarrow>
     (\<exists>p. existing_position (vc_portfolio vc) (upper (pl_symbol pl)) = Some p \<and> prv_quantity p \<noteq> 0
        \<and> vi_side i = (if 0 < prv_quantity p then ''sell'' else ''buy'')
        \<and> vi_quantity i = (if pl_action pl \<in> {SA_PARTIAL_SELL, SA_REDUCE} then max 1 (fmul \<bar>prv_quantity p\<bar> (1 / 2))
                           else \<bar>prv_quantity p\<bar>)
        \<and> vi_order_type i = ''market'' \<and> vi_limit_price i = None)"

lemma entry_precheck_None:
  "entry_precheck d pl allowlist horizons held blk = None \<longleftrightarrow>
     upper (pl_symbol pl) \<in> allowlist \<and> \<not> blk \<and> cd_risk_approval d
     \<and> \<not> (pl_stop_loss pl = None \<and> strip (pl_invalidation pl) = [])
     \<and> horizon_cap_violation (upper (pl_symbol pl)) horizons held True = None"
  by (auto simp: entry_precheck_def Let_def split: option.splits)

lemma entry_quantity_Inr:
  assumes "entry_quantity cfg eng d pl vc seen allowlist v price = Inr (Inr qty)"
  shows "\<exists>stop sector q ccy pre. pl_stop_loss pl = Some stop \<and> 0 < q
          \<and> evaluate_pretrade cfg eng (vc_portfolio vc)
              (entry_intent d pl (upper (pl_symbol pl)) q price stop sector v ccy) allowlist
              (vc_data_quality_score vc) (vc_market_session_clear vc) (vc_broker_data_consistent vc) (vc_now vc)
              (Some seen) = Inr pre
          \<and> ptr_approved pre \<and> qty = or_float (ptr_adjusted_quantity pre) 0"
proof -
  obtain stop where s: "pl_stop_loss pl = Some stop"
    using assms by (cases "pl_stop_loss pl") (auto simp: entry_quantity_def Let_def)
  show ?thesis using assms s
    by (auto simp: entry_quantity_def Let_def py_bind_Inr_iff not_le split: if_splits)
qed

lemma validate_plan_entry:
  assumes e: "pl_action pl \<in> set ENTRY_ACTIONS"
    and r: "validate_plan cfg eng d vc seen allowlist held blk v pl = Inr (Intent i)"
  shows "\<not> blk \<and> entry_cleared cfg eng d vc seen allowlist held v pl i"
proof -
  have pre: "entry_precheck d pl allowlist (vc_horizon_by_symbol vc) held blk = None"
    using r e by (cases "entry_precheck d pl allowlist (vc_horizon_by_symbol vc) held blk")
      (auto simp: validate_plan_def Let_def entry_precheck_def split: if_splits option.splits)
  obtain price where p: "dget (vc_latest_prices vc) (upper (pl_symbol pl)) = Some price" "0 < price"
    "\<not> (requires_live_market_prices cfg \<and> looks_like_stub_last (upper (pl_symbol pl)) price (fl (2 / 100)))"
    and b: "py_bind (entry_quantity cfg eng d pl vc seen allowlist v price) (\<lambda>q.
       case q of Inl reason \<Rightarrow> Inr (Rejected reason)
       | Inr qty \<Rightarrow> Inr (finish_plan cfg d pl vc seen v price qty ''buy'')) = Inr (Intent i)"
    using r e pre by (auto simp: validate_plan_def Let_def split: if_splits option.splits)
  obtain q where q: "entry_quantity cfg eng d pl vc seen allowlist v price = Inr q"
    "(case q of Inl reason \<Rightarrow> Inr (Rejected reason)
       | Inr qty \<Rightarrow> Inr (finish_plan cfg d pl vc seen v price qty ''buy'')) = (Inr (Intent i) :: plan_result py)"
    using b by (auto simp only: py_bind_Inr_iff)
  obtain qty where p4: "entry_quantity cfg eng d pl vc seen allowlist v price = Inr (Inr qty)"
    and p5: "finish_plan cfg d pl vc seen v price qty ''buy'' = Intent i"
    using q by (cases q) auto
  have f: "vi_side i = ''buy''" "vi_quantity i = qty"
    "\<forall>l. snd (plan_order pl price) = Some l \<longrightarrow> limit_drift_bps l price \<le> cfg_max_entry_limit_drift_bps cfg"
    using finish_plan_Intent[OF p5] e by auto
  obtain stop sector q ccy pr where "pl_stop_loss pl = Some stop" "0 < q"
    "evaluate_pretrade cfg eng (vc_portfolio vc)
       (entry_intent d pl (upper (pl_symbol pl)) q price stop sector v ccy) allowlist
       (vc_data_quality_score vc) (vc_market_session_clear vc) (vc_broker_data_consistent vc) (vc_now vc)
       (Some seen) = Inr pr"
    "ptr_approved pr" "qty = or_float (ptr_adjusted_quantity pr) 0"
    using entry_quantity_Inr[OF p4] by blast
  then show ?thesis unfolding entry_cleared_def using pre p f unfolding entry_precheck_None by blast
qed

lemma validate_plan_exit:
  assumes e: "pl_action pl \<notin> set ENTRY_ACTIONS"
    and r: "validate_plan cfg eng d vc seen allowlist held blk v pl = Inr (Intent i)"
  shows "pl_action pl \<in> set EXIT_ACTIONS \<and> exit_cleared vc pl i"
proof -
  obtain price qty side where p: "pl_action pl \<notin> set PASSIVE_ACTIONS"
    "exit_quantity pl (vc_portfolio vc) = Inr (qty, side)"
    "finish_plan cfg d pl vc seen v price qty side = Intent i"
    using r e by (auto simp: validate_plan_def Let_def split: if_splits option.splits sum.splits prod.splits)
  have a: "pl_action pl \<in> set EXIT_ACTIONS"
    using e p(1) by (cases "pl_action pl") (auto simp: ENTRY_ACTIONS_def EXIT_ACTIONS_def PASSIVE_ACTIONS_def)
  have "plan_order pl price = (''market'', None)" using e by (simp add: plan_order_def Let_def)
  then have "vi_order_type i = ''market''" "vi_limit_price i = None" "vi_side i = side" "vi_quantity i = qty"
    using finish_plan_Intent[OF p(3)] by (simp_all add: round_equity_price_def)
  moreover obtain q where "existing_position (vc_portfolio vc) (upper (pl_symbol pl)) = Some q"
    "prv_quantity q \<noteq> 0"
    "qty = (if pl_action pl \<in> {SA_PARTIAL_SELL, SA_REDUCE} then max 1 (fmul \<bar>prv_quantity q\<bar> (1 / 2)) else \<bar>prv_quantity q\<bar>)"
    "side = (if prv_quantity q > 0 then ''sell'' else ''buy'')"
    using p(2) by (cases "existing_position (vc_portfolio vc) (upper (pl_symbol pl))")
      (simp_all add: exit_quantity_def Let_def split: if_split_asm)
  ultimately show ?thesis using a unfolding exit_cleared_def by blast
qed

lemma validate_plan_finish:
  assumes "validate_plan cfg eng d vc seen allowlist held blk v pl = Inr (Intent i)"
  shows "\<exists>price qty side. finish_plan cfg d pl vc seen v price qty side = Intent i"
proof -
  have entry: "py_bind q (\<lambda>q. case q of Inl reason \<Rightarrow> Inr (Rejected reason)
      | Inr qty \<Rightarrow> Inr (finish_plan cfg d pl vc seen v price qty ''buy'')) = Inr (Intent i) \<Longrightarrow>
      \<exists>price qty side. finish_plan cfg d pl vc seen v price qty side = Intent i"
    for q :: "(string + rat) py" and price
    by (cases q; cases "projr q") (auto split: sum.splits)
  have pre: "entry_precheck d pl allowlist hz held blk \<noteq> Some (Intent i)" for hz
    by (simp add: entry_precheck_def Let_def split: option.splits)
  show ?thesis
    using assms pre
    by (auto simp: validate_plan_def Let_def dest!: entry split: if_splits option.splits sum.splits prod.splits)
qed

lemma validate_plan_key:
  assumes "validate_plan cfg eng d vc seen allowlist held blk v pl = Inr (Intent i)"
  shows "vi_idempotency_key i \<notin> seen" "vi_symbol i = upper (pl_symbol pl)"
  using validate_plan_finish[OF assms] finish_plan_Intent(1,4) by blast+

section \<open>The loop over the plans\<close>

text \<open>An intent was made from one of the plans, with the keys seen before it.\<close>

definition from_plan ::
  "settings \<Rightarrow> RiskEngine \<Rightarrow> CIODecision \<Rightarrow> validation_context \<Rightarrow> bool \<Rightarrow> SymbolActionPlan list \<Rightarrow> ValidatedOrderIntent
   \<Rightarrow> bool" where
  "from_plan cfg eng d vc skip pls i \<longleftrightarrow>
     (\<exists>pl \<in> set pls. \<exists>w allowlist seen.
        pl_action pl \<notin> set PASSIVE_ACTIONS
        \<and> (case vc_entry_universe vc of Some u \<Rightarrow> allowlist = u
           | None \<Rightarrow> allowlist_for_venue cfg (Some (venue_value w)) = Inr allowlist)
        \<and> validate_plan cfg eng d vc seen allowlist (held_for_venue (vc_portfolio vc) (venue_value w)) skip
            (venue_value w) pl = Inr (Intent i))"

definition keys_of :: "ValidatedOrderIntent list \<Rightarrow> string list" where
  "keys_of is = map vi_idempotency_key is"

lemma validate_plans_step:
  assumes "validate_plans cfg eng d vc skip (pl # pls) st = Inr st'" "pl_action pl \<notin> set PASSIVE_ACTIONS"
  obtains w allowlist r where
    "case vc_entry_universe vc of Some u \<Rightarrow> allowlist = u
     | None \<Rightarrow> allowlist_for_venue cfg (Some (venue_value w)) = Inr allowlist"
    "validate_plan cfg eng d vc (lp_seen st) allowlist (held_for_venue (vc_portfolio vc) (venue_value w)) skip
       (venue_value w) pl = Inr r"
    "validate_plans cfg eng d vc skip pls (add_result pl r st) = Inr st'"
  using assms by (cases "vc_entry_universe vc") (auto simp: Let_def py_bind_Inr_iff)

lemma validate_plans_origin:
  assumes "validate_plans cfg eng d vc skip pls st = Inr st'" "i \<in> set (lp_intents st')"
  shows "i \<in> set (lp_intents st) \<or> from_plan cfg eng d vc skip pls i"
  using assms
proof (induction pls arbitrary: st)
  case (Cons pl pls)
  have weaken: "from_plan cfg eng d vc skip pls i \<Longrightarrow> from_plan cfg eng d vc skip (pl # pls) i"
    unfolding from_plan_def by auto
  show ?case
  proof (cases "pl_action pl \<in> set PASSIVE_ACTIONS")
    case True
    then show ?thesis using Cons weaken by auto
  next
    case False
    obtain w allowlist r where r: "case vc_entry_universe vc of Some u \<Rightarrow> allowlist = u
        | None \<Rightarrow> allowlist_for_venue cfg (Some (venue_value w)) = Inr allowlist"
      "validate_plan cfg eng d vc (lp_seen st) allowlist (held_for_venue (vc_portfolio vc) (venue_value w)) skip
         (venue_value w) pl = Inr r"
      "validate_plans cfg eng d vc skip pls (add_result pl r st) = Inr st'"
      using validate_plans_step[OF Cons.prems(1) False] by blast
    have "i \<in> set (lp_intents (add_result pl r st)) \<or> from_plan cfg eng d vc skip pls i"
      by (rule Cons.IH[OF r(3) Cons.prems(2)])
    moreover have "i \<in> set (lp_intents (add_result pl r st)) \<Longrightarrow> i \<in> set (lp_intents st) \<or> r = Intent i"
      by (auto simp: add_result_def split: plan_result.splits if_splits)
    moreover have "r = Intent i \<Longrightarrow> from_plan cfg eng d vc skip (pl # pls) i"
      using r(1,2) False unfolding from_plan_def by auto
    ultimately show ?thesis using weaken by blast
  qed
qed simp

lemma validate_plans_keys:
  assumes "validate_plans cfg eng d vc skip pls st = Inr st'"
    "distinct (keys_of (lp_intents st))" "set (keys_of (lp_intents st)) \<subseteq> lp_seen st"
    "set (keys_of (lp_intents st)) \<inter> old = {}" "old \<subseteq> lp_seen st"
  shows "distinct (keys_of (lp_intents st')) \<and> set (keys_of (lp_intents st')) \<inter> old = {}"
  using assms
proof (induction pls arbitrary: st)
  case (Cons pl pls)
  show ?case
  proof (cases "pl_action pl \<in> set PASSIVE_ACTIONS")
    case True
    then show ?thesis using Cons by auto
  next
    case False
    obtain w allowlist r where r:
      "validate_plan cfg eng d vc (lp_seen st) allowlist (held_for_venue (vc_portfolio vc) (venue_value w)) skip
         (venue_value w) pl = Inr r"
      "validate_plans cfg eng d vc skip pls (add_result pl r st) = Inr st'"
      using validate_plans_step[OF Cons.prems(1) False] by blast
    have fresh: "r = Intent i \<Longrightarrow> vi_idempotency_key i \<notin> lp_seen st" for i
      using validate_plan_key(1) r(1) by blast
    show ?thesis
      using Cons.prems fresh
      by (intro Cons.IH[OF r(2)]) (auto simp: add_result_def keys_of_def split: plan_result.splits)
  qed
qed simp

lemma validate_plans_keeps_rejections:
  "validate_plans cfg eng d vc skip pls st = Inr st' \<Longrightarrow> lp_entry_rejections st \<noteq> [] \<Longrightarrow> lp_entry_rejections st' \<noteq> []"
proof (induction pls arbitrary: st)
  case (Cons pl pls)
  show ?case
  proof (cases "pl_action pl \<in> set PASSIVE_ACTIONS")
    case True
    then show ?thesis using Cons by simp
  next
    case False
    obtain r where "validate_plans cfg eng d vc skip pls (add_result pl r st) = Inr st'"
      using validate_plans_step[OF Cons.prems(1) False] by blast
    then show ?thesis
      using Cons.IH Cons.prems(2) by (auto simp: add_result_def split: plan_result.splits if_splits)
  qed
qed simp

lemma validate_intents:
  assumes "validate cfg eng controls d vc seen blk = Inr res" "ev_intents res \<noteq> []"
  obtains st where "is_new_order_allowed controls"
    "validate_plans cfg eng d vc (blk \<or> cd_portfolio_action d \<in> set ANALYSIS_ONLY_PORTFOLIO) (cd_symbol_actions d)
       \<lparr>lp_intents = [], lp_entry_rejections = [], lp_exit_rejections = [], lp_seen = seen\<rparr> = Inr st"
    "lp_entry_rejections st = []" "ev_intents res = lp_intents st" "ev_approved res"
  using assms
  by (auto simp: validate_def Let_def py_bind_Inr_iff conclude_def split: if_splits)

text \<open>
  Property C2.  Every order intent the validator lets through was made from a plan of the decision while trading
  was active.  An entry has the officer's risk approval, is not in a blocked batch or under a hold decision,
  is on the allowlist, is inside its book's position cap, has a live price and a numeric stop, keeps its limit
  within the drift bound, and carries exactly the quantity that the risk engine approved for it.  An exit
  is a market order on the closing side of a position that is held, for all of it, or for half and at least
  one share.
\<close>

theorem validated_intents_safe:
  assumes "validate cfg eng controls d vc seen blk = Inr res" "i \<in> set (ev_intents res)"
  shows "is_new_order_allowed controls \<and> ev_approved res
    \<and> (\<exists>pl \<in> set (cd_symbol_actions d). vi_symbol i = upper (pl_symbol pl)
        \<and> (if pl_action pl \<in> set ENTRY_ACTIONS
           then \<not> blk \<and> cd_portfolio_action d \<notin> set ANALYSIS_ONLY_PORTFOLIO
                \<and> (\<exists>w allowlist keys.
                     (case vc_entry_universe vc of Some u \<Rightarrow> allowlist = u
                      | None \<Rightarrow> allowlist_for_venue cfg (Some (venue_value w)) = Inr allowlist)
                     \<and> entry_cleared cfg eng d vc keys allowlist (held_for_venue (vc_portfolio vc) (venue_value w))
                         (venue_value w) pl i)
           else pl_action pl \<in> set EXIT_ACTIONS \<and> exit_cleared vc pl i))"
proof -
  let ?skip = "blk \<or> cd_portfolio_action d \<in> set ANALYSIS_ONLY_PORTFOLIO"
  obtain st where st: "is_new_order_allowed controls"
    "validate_plans cfg eng d vc ?skip (cd_symbol_actions d)
       \<lparr>lp_intents = [], lp_entry_rejections = [], lp_exit_rejections = [], lp_seen = seen\<rparr> = Inr st"
    "ev_intents res = lp_intents st" "ev_approved res"
    using validate_intents[OF assms(1)] assms(2) by (metis empty_iff list.set(1))
  have "from_plan cfg eng d vc ?skip (cd_symbol_actions d) i"
    using validate_plans_origin[OF st(2)] assms(2) st(3) by simp
  then obtain pl w allowlist keys where pl: "pl \<in> set (cd_symbol_actions d)"
    "case vc_entry_universe vc of Some u \<Rightarrow> allowlist = u
     | None \<Rightarrow> allowlist_for_venue cfg (Some (venue_value w)) = Inr allowlist"
    "validate_plan cfg eng d vc keys allowlist (held_for_venue (vc_portfolio vc) (venue_value w)) ?skip
       (venue_value w) pl = Inr (Intent i)"
    unfolding from_plan_def by blast
  have "if pl_action pl \<in> set ENTRY_ACTIONS
        then \<not> ?skip \<and> entry_cleared cfg eng d vc keys allowlist (held_for_venue (vc_portfolio vc) (venue_value w))
               (venue_value w) pl i
        else pl_action pl \<in> set EXIT_ACTIONS \<and> exit_cleared vc pl i"
    using validate_plan_entry[OF _ pl(3)] validate_plan_exit[OF _ pl(3)] by auto
  then show ?thesis using st(1,4) pl validate_plan_key(2)[OF pl(3)] by (metis (no_types, lifting))
qed

text \<open>
  The keys of the intents of one validation are distinct and none of them was seen before, so
  two orders of a batch, or a batch and an earlier one, never share an idempotency key.
\<close>

theorem validated_keys_fresh:
  assumes "validate cfg eng controls d vc seen blk = Inr res"
  shows "distinct (map vi_idempotency_key (ev_intents res))
    \<and> set (map vi_idempotency_key (ev_intents res)) \<inter> seen = {}"
proof (cases "ev_intents res = []")
  case False
  obtain st where "validate_plans cfg eng d vc (blk \<or> cd_portfolio_action d \<in> set ANALYSIS_ONLY_PORTFOLIO)
      (cd_symbol_actions d) \<lparr>lp_intents = [], lp_entry_rejections = [], lp_exit_rejections = [], lp_seen = seen\<rparr> = Inr st"
    "ev_intents res = lp_intents st"
    using validate_intents[OF assms False] by blast
  then show ?thesis using validate_plans_keys[where old = seen] by (simp add: keys_of_def)
qed simp

text \<open>
  A single entry off the allowlist empties the whole batch, the exits of the same decision
  included: none of its sells or reductions is sent.
\<close>

theorem entry_rejection_drops_exits:
  assumes "validate cfg eng controls d vc seen blk = Inr res"
    and "pl \<in> set (cd_symbol_actions d)" "pl_action pl \<in> set ENTRY_ACTIONS"
    and "vc_entry_universe vc = Some u" "upper (pl_symbol pl) \<notin> u"
  shows "ev_intents res = []"
proof (rule ccontr)
  assume ne: "ev_intents res \<noteq> []"
  have rej: "lp_entry_rejections st' \<noteq> []"
    if "validate_plans cfg eng d vc skip pls st = Inr st'" "pl \<in> set pls" for skip pls st st'
    using that
  proof (induction pls arbitrary: st)
    case (Cons p pls)
    show ?case
    proof (cases "pl_action p \<in> set PASSIVE_ACTIONS")
      case True
      then have "p \<noteq> pl" using assms(3) by (auto simp: ENTRY_ACTIONS_def PASSIVE_ACTIONS_def)
      then show ?thesis using Cons True by auto
    next
      case False
      obtain w r where r: "validate_plan cfg eng d vc (lp_seen st) u (held_for_venue (vc_portfolio vc) (venue_value w))
          skip (venue_value w) p = Inr r"
        "validate_plans cfg eng d vc skip pls (add_result p r st) = Inr st'"
        using validate_plans_step[OF Cons.prems(1) False] assms(4) by (metis option.simps(5))
      show ?thesis
      proof (cases "p = pl")
        case True
        then have "lp_entry_rejections (add_result p r st) \<noteq> []"
          using r(1) assms(3,5)
          by (auto simp: validate_plan_def entry_precheck_def Let_def add_result_def ENTRY_ACTIONS_def EXIT_ACTIONS_def)
        then show ?thesis by (rule validate_plans_keeps_rejections[OF r(2)])
      next
        case False
        then show ?thesis using Cons.IH[OF r(2)] Cons.prems(2) by auto
      qed
    qed
  qed simp
  obtain st where "validate_plans cfg eng d vc (blk \<or> cd_portfolio_action d \<in> set ANALYSIS_ONLY_PORTFOLIO)
      (cd_symbol_actions d) \<lparr>lp_intents = [], lp_entry_rejections = [], lp_exit_rejections = [], lp_seen = seen\<rparr> = Inr st"
    "lp_entry_rejections st = []"
    using validate_intents[OF assms(1) ne] by blast
  then show False using rej assms(2) by blast
qed

text \<open>
  A full exit sells exactly the holding.  A partial exit never exceeds the holding when at least one
  share is held, and always does when less than one share is held.
\<close>

theorem partial_exit_bounds:
  assumes "existing_position pf (upper (pl_symbol pl)) = Some p" "exit_quantity pl pf = Inr (qty, side)"
  shows "0 < qty
    \<and> (pl_action pl \<notin> {SA_PARTIAL_SELL, SA_REDUCE} \<longrightarrow> qty = \<bar>prv_quantity p\<bar>)
    \<and> (is_double (prv_quantity p) \<and> pl_action pl \<in> {SA_PARTIAL_SELL, SA_REDUCE} \<longrightarrow>
        (qty \<le> \<bar>prv_quantity p\<bar> \<longleftrightarrow> 1 \<le> \<bar>prv_quantity p\<bar>))"
proof -
  let ?h = "\<bar>prv_quantity p\<bar>"
  have nz: "prv_quantity p \<noteq> 0" using assms by (auto simp: exit_quantity_def Let_def)
  have q: "qty = (if pl_action pl \<in> {SA_PARTIAL_SELL, SA_REDUCE} then max 1 (fmul ?h (1 / 2)) else ?h)"
    using assms nz by (auto simp: exit_quantity_def Let_def)
  have "fmul ?h (1 / 2) \<le> ?h" if "is_double (prv_quantity p)"
  proof -
    have "fmul ?h (1 / 2) \<le> fl ?h" unfolding fmul_def by (rule fl_mono) simp
    also have "fl ?h = ?h" using that by (auto simp: is_double_def abs_if fl_minus)
    finally show ?thesis .
  qed
  then show ?thesis using nz unfolding q by auto
qed

section \<open>A decision that sells a holding\<close>

definition sample_plan :: "SymbolAction \<Rightarrow> string \<Rightarrow> SymbolActionPlan" where
  "sample_plan action symbol =
     \<lparr>pl_symbol = symbol, pl_action = action, pl_confidence = 60, pl_target_position_pct = 0, pl_order_type = OT_LIMIT,
      pl_entry_zone = None, pl_stop_loss = None, pl_take_profit = [], pl_time_horizon = TH_INTRADAY,
      pl_thesis = ''t'', pl_invalidation = ''closed below the low'', pl_max_holding_time_minutes = None,
      pl_entry_timing = None, pl_entry_source = None, pl_trend_at_entry = None\<rparr>"

definition sample_decision :: "SymbolActionPlan list \<Rightarrow> CIODecision" where
  "sample_decision pls =
     \<lparr>cd_decision_id = ''d1'', cd_timestamp = 0, cd_market_regime = MR_NEUTRAL, cd_portfolio_action = PA_REDUCE,
      cd_symbol_actions = pls, cd_cash_target_pct = 20, cd_hedge_required = False, cd_risk_approval = True,
      cd_risk_conditions = [], cd_reason_not_to_trade = None, cd_hard_veto_honored = True\<rparr>"

definition sample_holdings :: PortfolioRiskView where
  "sample_holdings =
     sample_book\<lparr>prt_positions :=
       [\<lparr>prv_symbol = ''SPY'', prv_quantity = 7, prv_market_value = 700, prv_sector = ''ETF'', prv_weight_pct = 1,
         prv_venue = ''US'', prv_currency = None, prv_con_id = Some 5\<rparr>]\<rparr>"

definition sample_context :: validation_context where
  "sample_context =
     \<lparr>vc_portfolio = sample_holdings, vc_latest_prices = [(''SPY'', 100)], vc_data_quality_score = 1,
      vc_market_session_clear = True, vc_broker_data_consistent = True, vc_workflow_id = None,
      vc_entry_universe = Some {''SPY''}, vc_horizon_by_symbol = [], vc_now = 0\<rparr>"

definition sample_sell_intent :: ValidatedOrderIntent where
  "sample_sell_intent =
     \<lparr>vi_symbol = ''SPY'', vi_side = ''sell'', vi_quantity = 7, vi_order_type = ''market'', vi_limit_price = None,
      vi_stop_price = None, vi_idempotency_key = ''d1:SPY:sell:SELL'', vi_decision_id = ''d1'', vi_thesis = ''t'',
      vi_venue = Some ''US'', vi_con_id = Some 5, vi_time_in_force = None, vi_attribution = None\<rparr>"

lemma sample_validate:
  "validate default_settings sample_engine (init_controls 0) (sample_decision [sample_plan SA_SELL ''spy''])
     sample_context {} False
   = Inr \<lparr>ev_approved = True, ev_intents = [sample_sell_intent], ev_rejections = []\<rparr>"
  by code_simp

theorem validated_intents_safe_witness:
  "\<exists>res. validate default_settings sample_engine (init_controls 0) (sample_decision [sample_plan SA_SELL ''spy''])
           sample_context {} False = Inr res
       \<and> sample_sell_intent \<in> set (ev_intents res) \<and> ev_approved res
       \<and> exit_cleared sample_context (sample_plan SA_SELL ''spy'') sample_sell_intent"
  using sample_validate validated_intents_safe[OF sample_validate, of sample_sell_intent]
  by (auto simp: sample_decision_def sample_plan_def ENTRY_ACTIONS_def)

theorem validated_keys_fresh_witness:
  "\<exists>res. validate default_settings sample_engine (init_controls 0) (sample_decision [sample_plan SA_SELL ''spy''])
           sample_context {} False = Inr res \<and> distinct (map vi_idempotency_key (ev_intents res))"
  using sample_validate validated_keys_fresh[OF sample_validate] by blast

theorem entry_rejection_drops_exits_witness:
  "\<exists>res. validate default_settings sample_engine (init_controls 0)
           (sample_decision [sample_plan SA_SELL ''spy'', sample_plan SA_BUY ''xyz'']) sample_context {} False = Inr res
       \<and> ev_intents res = []"
proof -
  let ?d = "sample_decision [sample_plan SA_SELL ''spy'', sample_plan SA_BUY ''xyz'']"
  have v: "validate default_settings sample_engine (init_controls 0) ?d sample_context {} False
      = Inr \<lparr>ev_approved = False, ev_intents = [], ev_rejections = [''XYZ:not_in_allowlist'']\<rparr>"
    by code_simp
  have u: "upper (pl_symbol (sample_plan SA_BUY ''xyz'')) \<notin> {''SPY''}" by code_simp
  show ?thesis
    using v entry_rejection_drops_exits[OF v, of "sample_plan SA_BUY ''xyz''", OF _ _ _ u]
    by (auto simp: sample_decision_def sample_context_def sample_plan_def ENTRY_ACTIONS_def)
qed

theorem partial_exit_bounds_witness:
  "exit_quantity (sample_plan SA_PARTIAL_SELL ''spy'') sample_holdings = Inr (7 / 2, ''sell'') \<and> (0 :: rat) < 7 / 2"
proof -
  have e: "existing_position sample_holdings (upper (pl_symbol (sample_plan SA_PARTIAL_SELL ''spy'')))
      = Some (hd (prt_positions sample_holdings))" by code_simp
  have x: "exit_quantity (sample_plan SA_PARTIAL_SELL ''spy'') sample_holdings = Inr (7 / 2, ''sell'')" by code_simp
  show ?thesis using x partial_exit_bounds[OF e x] by simp
qed

end
