(* ===== verification/Order_Manager.thy ===== *)
theory Order_Manager
  imports Validation Mock_Broker
begin

text \<open>
  \<open>app/execution/order_manager.py\<close>: persistence of orders and their submission to a broker.  The state
  \<open>desk\<close> holds the tables the manager writes (orders, executions, system events), the trading controls
  and the broker; the broker is any implementation of the methods of \<open>BrokerClient\<close> that the
  manager calls, a record of functions on its state.  A method returns its result or exception
  together with the desk it leaves.  \<open>datetime.now(UTC)\<close> is the argument \<open>now\<close>, \<open>uuid4\<close> a stream of
  identifiers of which the desk counts the used ones, and \<open>live\<close> the last prices of the market-data
  service (\<open>None\<close> where it has none or fails).  Selected rows come in insertion order.
\<close>

section \<open>Rows\<close>

datatype payload =
    PNull | PStr string | PInt int | PNum rat | PBool bool | PStrs "string list" | PRaw order_raw
  | PDict "(string \<times> payload) list"

record order_row =
  ord_id :: string
  ord_broker_order_id :: "string option"
  ord_idempotency_key :: string
  ord_symbol :: string
  ord_side :: string
  ord_qty :: rat
  ord_order_type :: string
  ord_limit_price :: "rat option"
  ord_stop_price :: "rat option"
  ord_status :: string
  ord_decision_id :: "string option"
  ord_submitted_at :: "int option"
  ord_created_at :: int
  ord_raw_payload :: "(string \<times> payload) list"

record execution_row =
  ex_id :: string
  ex_order_id :: string
  ex_symbol :: string
  ex_qty :: rat
  ex_price :: rat
  ex_executed_at :: int
  ex_raw_payload :: order_raw

record system_event =
  se_level :: string
  se_event_type :: string
  se_message :: string
  se_context :: "(string \<times> payload) list"
  se_workflow_id :: "string option"

record 'b broker_api =
  api_submit_order :: "OrderRequest \<Rightarrow> 'b \<Rightarrow> OrderResult py \<times> 'b"
  api_cancel_order :: "string \<Rightarrow> 'b \<Rightarrow> OrderResult py \<times> 'b"
  api_cancel_all_orders :: "'b \<Rightarrow> int py \<times> 'b"
  api_get_order :: "string \<Rightarrow> 'b \<Rightarrow> OrderResult py"
  api_get_order_by_client_id :: "(string \<Rightarrow> 'b \<Rightarrow> OrderResult option py) option"

record 'b desk =
  dk_orders :: "order_row list"
  dk_executions :: "execution_row list"
  dk_events :: "system_event list"
  dk_controls :: TradingControlState
  dk_broker :: 'b
  dk_ids_used :: nat

definition record_event ::
  "string \<Rightarrow> string \<Rightarrow> string \<Rightarrow> (string \<times> payload) list \<Rightarrow> string option \<Rightarrow> 'b desk \<Rightarrow> 'b desk" where
  "record_event level typ message context wid dk =
     dk\<lparr>dk_events := dk_events dk @
          [\<lparr>se_level = level, se_event_type = typ, se_message = message, se_context = context,
            se_workflow_id = wid\<rparr>]\<rparr>"

definition put_order :: "order_row \<Rightarrow> 'b desk \<Rightarrow> 'b desk" where
  "put_order row dk = dk\<lparr>dk_orders := map (\<lambda>r. if ord_id r = ord_id row then row else r) (dk_orders dk)\<rparr>"

section \<open>Statuses and intent kinds\<close>

fun internal_status :: "OrderStatus \<Rightarrow> string" where
  "internal_status ST_NEW = os_value OS_ACCEPTED"
| "internal_status ST_ACCEPTED = os_value OS_ACCEPTED"
| "internal_status ST_PARTIAL = os_value OS_PARTIALLY_FILLED"
| "internal_status ST_FILLED = os_value OS_FILLED"
| "internal_status ST_CANCELED = os_value OS_CANCELLED"
| "internal_status ST_REJECTED = os_value OS_REJECTED"

definition fold_status :: "string \<Rightarrow> string" where
  "fold_status v = lower (strip v)"

definition WORKING_ORDER_STATUSES :: "string list" where
  "WORKING_ORDER_STATUSES =
     map fold_status
       [''new'', ''pending_submit'', ''pending_new'', os_value OS_SUBMITTING, os_value OS_SUBMITTED,
        os_value OS_ACCEPTED, os_value OS_PARTIALLY_FILLED, os_value OS_CANCEL_PENDING, os_value OS_REPLACE_PENDING]"

definition DEAD_ORDER_STATUSES :: "string list" where
  "DEAD_ORDER_STATUSES =
     map fold_status [os_value OS_CANCELLED, os_value OS_REJECTED, os_value OS_EXPIRED, ''canceled'']"

definition FLATTEN_MARKERS :: "string list" where
  "FLATTEN_MARKERS = [''force-close:'', ''hard-stop:'', '':sell:SELL'', '':buy:BUY'']"

definition PARTIAL_MARKERS :: "string list" where
  "PARTIAL_MARKERS = ['':sell:PARTIAL_SELL'', '':sell:REDUCE'', '':buy:REDUCE'']"

definition closing_thesis :: "ValidatedOrderIntent \<Rightarrow> bool" where
  "closing_thesis i \<longleftrightarrow>
     (let thesis = lower (vi_thesis i)
      in startswith thesis ''force_close'' \<or> startswith thesis ''hard_stop'' \<or> startswith thesis ''closing:'')"

definition is_exit_intent :: "ValidatedOrderIntent \<Rightarrow> bool" where
  "is_exit_intent i \<longleftrightarrow>
     list_ex (\<lambda>m. str_contains m (vi_idempotency_key i)) (FLATTEN_MARKERS @ PARTIAL_MARKERS) \<or> closing_thesis i"

definition is_flatten_intent :: "ValidatedOrderIntent \<Rightarrow> bool" where
  "is_flatten_intent i \<longleftrightarrow>
     list_ex (\<lambda>m. str_contains m (vi_idempotency_key i)) FLATTEN_MARKERS \<or> closing_thesis i"

definition is_partial_exit :: "ValidatedOrderIntent \<Rightarrow> bool" where
  "is_partial_exit i \<longleftrightarrow> list_ex (\<lambda>m. str_contains m (vi_idempotency_key i)) PARTIAL_MARKERS"

definition working_age :: "int \<Rightarrow> order_row \<Rightarrow> int" where
  "working_age now row = now - (case ord_submitted_at row of Some t \<Rightarrow> t | None \<Rightarrow> ord_created_at row)"

definition is_stale_flatten :: "int \<Rightarrow> order_row \<Rightarrow> bool" where
  "is_stale_flatten now row \<longleftrightarrow>
     (lower (ord_order_type row) \<in> {''limit'', ''lmt''} \<and> working_age now row \<ge> seconds 90)
     \<or> working_age now row \<ge> seconds 180"

definition is_working :: "order_row \<Rightarrow> bool" where
  "is_working row \<longleftrightarrow> lower (ord_status row) \<in> set WORKING_ORDER_STATUSES"

definition working_same_side :: "string \<Rightarrow> string \<Rightarrow> 'b desk \<Rightarrow> order_row list" where
  "working_same_side symbol side dk =
     filter (\<lambda>r. ord_symbol r = upper symbol \<and> ord_side r = lower side \<and> is_working r) (dk_orders dk)"

definition seen_idempotency_keys :: "'b desk \<Rightarrow> string set" where
  "seen_idempotency_keys dk = set (map ord_idempotency_key (dk_orders dk))"

section \<open>Cancelling\<close>

definition cancel_desk_order :: "'b broker_api \<Rightarrow> string \<Rightarrow> 'b desk \<Rightarrow> order_row py \<times> 'b desk" where
  "cancel_desk_order api oid dk =
     (case find (\<lambda>r. ord_id r = oid) (dk_orders dk) of
        None \<Rightarrow> (Inl (KeyError (''order '' @ oid @ '' not found'')), dk)
      | Some row \<Rightarrow>
          if truthy_str (ord_broker_order_id row)
          then (case api_cancel_order api (the (ord_broker_order_id row)) (dk_broker dk) of
                  (Inr br, b) \<Rightarrow>
                    (let row' = row\<lparr>ord_status := status_value (res_status br)\<rparr>
                     in (Inr row', put_order row' (dk\<lparr>dk_broker := b\<rparr>)))
                | (Inl (BrokerError m), b) \<Rightarrow>
                    (Inl (BrokerError m),
                     record_event ''error'' ''broker_cancel_failed'' m [(''order_id'', PStr oid)] None (dk\<lparr>dk_broker := b\<rparr>))
                | (Inl e, b) \<Rightarrow> (Inl e, dk\<lparr>dk_broker := b\<rparr>))
          else (let row' = row\<lparr>ord_status := status_value ST_CANCELED\<rparr> in (Inr row', put_order row' dk)))"

fun cancel_rows :: "'b broker_api \<Rightarrow> order_row list \<Rightarrow> int \<Rightarrow> 'b desk \<Rightarrow> int \<times> 'b desk" where
  "cancel_rows api [] n dk = (n, dk)"
| "cancel_rows api (row # rows) n dk =
     (case cancel_desk_order api (ord_id row) dk of
        (Inr _, dk') \<Rightarrow> cancel_rows api rows (n + 1) dk'
      | (Inl _, dk') \<Rightarrow> cancel_rows api rows n dk')"

definition cancel_working_for_symbol ::
  "'b broker_api \<Rightarrow> string \<Rightarrow> string option \<Rightarrow> 'b desk \<Rightarrow> int \<times> 'b desk" where
  "cancel_working_for_symbol api symbol side dk =
     cancel_rows api
       (filter (\<lambda>r. ord_symbol r = upper symbol \<and> is_working r
                    \<and> (truthy_str side \<longrightarrow> ord_side r = lower (the side))) (dk_orders dk)) 0 dk"

record cancel_report =
  cr_state :: string
  cr_canceled_count :: int
  cr_error :: "string option"

definition emergency_cancel_all :: "'b broker_api \<Rightarrow> int \<Rightarrow> 'b desk \<Rightarrow> cancel_report \<times> 'b desk" where
  "emergency_cancel_all api now dk =
     (let snap = emergency_stop now ''api_emergency_stop'' (dk_controls dk); dk1 = dk\<lparr>dk_controls := snap\<rparr>
      in case api_cancel_all_orders api (dk_broker dk) of
           (Inl e, b) \<Rightarrow>
             (\<lparr>cr_state = ts_value (tc_state snap), cr_canceled_count = 0, cr_error = Some (err_str e)\<rparr>,
              record_event ''error'' ''emergency_cancel_failed'' (err_str e) [] None (dk1\<lparr>dk_broker := b\<rparr>))
         | (Inr n, b) \<Rightarrow>
             (\<lparr>cr_state = ts_value (tc_state snap), cr_canceled_count = n, cr_error = None\<rparr>,
              dk1\<lparr>dk_broker := b\<rparr>))"

section \<open>Submission\<close>

text \<open>\<open>uuid.UUID(text)\<close> and its canonical text; \<open>int(hex, 16)\<close> is taken on plain hexadecimal digits.\<close>

function remove_all :: "string \<Rightarrow> string \<Rightarrow> string" where
  "remove_all p [] = []"
| "remove_all p (c # cs) =
     (if p \<noteq> [] \<and> startswith (c # cs) p then remove_all p (drop (length p) (c # cs)) else c # remove_all p cs)"
  by pat_completeness auto
termination
  by (relation "measure (\<lambda>(p, s). length s)") auto

definition is_hex :: "char \<Rightarrow> bool" where
  "is_hex c \<longleftrightarrow> is_digit c \<or> lower_char c \<in> set ''abcdef''"

definition strip_braces :: "string \<Rightarrow> string" where
  "strip_braces s = rev (dropWhile (\<lambda>c. c \<in> set ''{}'') (rev (dropWhile (\<lambda>c. c \<in> set ''{}'') s)))"

definition uuid_of :: "string \<Rightarrow> string py" where
  "uuid_of s =
     (let h = remove_all ''-'' (strip_braces (remove_all ''uuid:'' (remove_all ''urn:'' s)))
      in if length h \<noteq> 32 then Inl (ValueError ''badly formed hexadecimal UUID string'')
         else if \<not> list_all is_hex h
         then Inl (ValueError (''invalid literal for int() with base 16: '' @ CHR 0x27 # h @ [CHR 0x27]))
         else (let x = lower h
               in Inr (take 8 x @ ''-'' @ take 4 (drop 8 x) @ ''-'' @ take 4 (drop 12 x) @ ''-''
                       @ take 4 (drop 16 x) @ ''-'' @ drop 20 x)))"

definition pay_str :: "string option \<Rightarrow> payload" where
  "pay_str v = (case v of Some s \<Rightarrow> PStr s | None \<Rightarrow> PNull)"

definition pay_int :: "int option \<Rightarrow> payload" where
  "pay_int v = (case v of Some n \<Rightarrow> PInt n | None \<Rightarrow> PNull)"

fun as_str :: "payload option \<Rightarrow> string option" where
  "as_str (Some (PStr s)) = Some s"
| "as_str _ = None"

fun as_int :: "payload option \<Rightarrow> int option" where
  "as_int (Some (PInt n)) = Some n"
| "as_int _ = None"

definition nonzero :: "int option \<Rightarrow> int option" where
  "nonzero v = (case v of Some n \<Rightarrow> if n = 0 then None else Some n | None \<Rightarrow> None)"

text \<open>An exit that meets working orders on its side: \<open>None\<close> means it is skipped.\<close>

definition clear_working ::
  "'b broker_api \<Rightarrow> int \<Rightarrow> ValidatedOrderIntent \<Rightarrow> 'b desk \<Rightarrow> 'b desk option" where
  "clear_working api now i dk =
     (if \<not> is_exit_intent i then Some dk
      else
        (let working = working_same_side (vi_symbol i) (vi_side i) dk;
             same = filter (\<lambda>w. ord_idempotency_key w = vi_idempotency_key i) working
         in if working \<noteq> [] \<and> is_partial_exit i then None
            else if working \<noteq> [] \<and> is_flatten_intent i
            then (if same \<noteq> [] \<and> \<not> list_ex (is_stale_flatten now) same then None
                  else Some (snd (cancel_working_for_symbol api (vi_symbol i) (Some (vi_side i)) dk)))
            else Some dk))"

text \<open>The row of the intent: a dead one is reused, any other existing one means skip.\<close>

definition order_for_intent ::
  "settings \<Rightarrow> (nat \<Rightarrow> string) \<Rightarrow> int \<Rightarrow> ValidatedOrderIntent \<Rightarrow> string option \<Rightarrow> 'b desk
   \<Rightarrow> (order_row \<times> 'b desk) option py" where
  "order_for_intent cfg uuid now i did dk =
     (case find (\<lambda>r. ord_idempotency_key r = vi_idempotency_key i) (dk_orders dk) of
        Some row \<Rightarrow>
          (let st = fold_status (ord_status row)
           in if st \<in> set WORKING_ORDER_STATUSES then Inr None
              else if st = fold_status (os_value OS_FILLED) then Inr None
              else if st \<notin> set DEAD_ORDER_STATUSES then Inr None
              else py_bind (if truthy_str (vi_venue i) then Inr (or_str (vi_venue i) [])
                            else py_bind (resolve_venue cfg None) (\<lambda>w. Inr (venue_value w))) (\<lambda>v.
                (let row' = row\<lparr>ord_qty := vi_quantity i, ord_order_type := vi_order_type i,
                                ord_limit_price := vi_limit_price i, ord_stop_price := vi_stop_price i,
                                ord_status := ''pending_submit'', ord_broker_order_id := None,
                                ord_raw_payload :=
                                  dset (dset (dset (dset (ord_raw_payload row) ''thesis'' (PStr (vi_thesis i)))
                                    ''venue'' (PStr v)) ''con_id'' (pay_int (vi_con_id i))) ''resubmit'' (PBool True)\<rparr>
                 in Inr (Some (row', put_order row' dk)))))
      | None \<Rightarrow>
          py_bind (if truthy_str did then Inr (or_str did []) else uuid_of (vi_decision_id i)) (\<lambda>d.
            py_bind (if truthy_str (vi_venue i) then Inr (or_str (vi_venue i) [])
                     else py_bind (resolve_venue cfg None) (\<lambda>w. Inr (venue_value w))) (\<lambda>v.
              (let row = \<lparr>ord_id = uuid (dk_ids_used dk), ord_broker_order_id = None,
                          ord_idempotency_key = vi_idempotency_key i, ord_symbol = vi_symbol i, ord_side = vi_side i,
                          ord_qty = vi_quantity i, ord_order_type = vi_order_type i, ord_limit_price = vi_limit_price i,
                          ord_stop_price = vi_stop_price i, ord_status = ''pending_submit'', ord_decision_id = Some d,
                          ord_submitted_at = None, ord_created_at = now,
                          ord_raw_payload = [(''thesis'', PStr (vi_thesis i)), (''venue'', PStr v),
                                             (''con_id'', pay_int (vi_con_id i))]\<rparr>
               in Inr (Some (row, dk\<lparr>dk_orders := dk_orders dk @ [row], dk_ids_used := dk_ids_used dk + 1\<rparr>))))))"

text \<open>Shaping for venues that need a marketable limit, then the request itself.\<close>

definition shape_order ::
  "(string \<Rightarrow> rat option) \<Rightarrow> ValidatedOrderIntent \<Rightarrow> string option \<Rightarrow> string \<times> rat option" where
  "shape_order live i v =
     (if uses_marketable_limit v None \<and> \<not> is_resting_stop (Some (vi_order_type i))
      then (case live (upper (vi_symbol i)) of
              Some px \<Rightarrow>
                if px = 0 then (vi_order_type i, vi_limit_price i)
                else (case apply_marketable_limit v None (vi_side i) (Some (vi_order_type i)) (vi_limit_price i)
                            (Some px) None None (is_flatten_intent i) of
                        Inr (t, l) \<Rightarrow> (t, Some l)
                      | Inl _ \<Rightarrow> (vi_order_type i, vi_limit_price i))
            | None \<Rightarrow> (vi_order_type i, vi_limit_price i))
      else (vi_order_type i, vi_limit_price i))"

definition order_side_of :: "string \<Rightarrow> OrderSide py" where
  "order_side_of s = enum_of ''OrderSide'' side_value [BUY, SELL] s"

definition build_request ::
  "(string \<Rightarrow> rat option) \<Rightarrow> ValidatedOrderIntent \<Rightarrow> order_row \<Rightarrow> OrderRequest py" where
  "build_request live i row =
     (let v = (if truthy_str (vi_venue i) then vi_venue i else as_str (dget (ord_raw_payload row) ''venue''));
          con = (case nonzero (vi_con_id i) of
                   Some n \<Rightarrow> Some n | None \<Rightarrow> as_int (dget (ord_raw_payload row) ''con_id''));
          shaped = shape_order live i (if truthy_str v then v else None);
          tif = lower (strip (or_str (vi_time_in_force i) []))
      in if fst shaped \<in> {''limit'', ''stop_limit''} \<and> snd shaped = None
         then Inl (BrokerError (vi_symbol i @ '': limit order missing limit_price''))
         else py_bind (order_side_of (vi_side i)) (\<lambda>side.
           Inr \<lparr>or_symbol = vi_symbol i, or_side = side, or_qty = vi_quantity i, or_order_type = fst shaped,
                or_limit_price = snd shaped, or_stop_price = vi_stop_price i,
                or_idempotency_key = Some (vi_idempotency_key i),
                or_time_in_force = (if tif \<noteq> [] then tif else if is_resting_stop (Some (fst shaped)) then ''gtc'' else ''day''),
                or_venue = (if truthy_str v then v else None), or_con_id = nonzero con\<rparr>))"

definition intent_context :: "ValidatedOrderIntent \<Rightarrow> (string \<times> payload) list" where
  "intent_context i = [(''symbol'', PStr (vi_symbol i)), (''idempotency_key'', PStr (vi_idempotency_key i))]"

text \<open>After a timeout the order is not sent again: the broker is asked for the client key.\<close>

definition after_timeout ::
  "'b broker_api \<Rightarrow> ValidatedOrderIntent \<Rightarrow> string option \<Rightarrow> string \<Rightarrow> order_row \<Rightarrow> 'b desk
   \<Rightarrow> order_row option py \<times> 'b desk" where
  "after_timeout api i wid m row dk =
     (let row1 = row\<lparr>ord_status := ''UNKNOWN'',
                     ord_raw_payload := dset (dset (ord_raw_payload row) ''error'' (PStr ''timeout''))
                                          ''state'' (PStr ''RECONCILIATION_REQUIRED'')\<rparr>;
          dk1 = record_event ''error'' ''broker_submit_timeout'' m (intent_context i) wid (put_order row1 dk)
      in case api_get_order_by_client_id api of
           None \<Rightarrow> (Inr (Some row1), dk1)
         | Some f \<Rightarrow>
             (case f (vi_idempotency_key i) (dk_broker dk1) of
                Inl e \<Rightarrow> (Inl e, dk1)
              | Inr None \<Rightarrow> (Inr (Some row1), dk1)
              | Inr (Some remote) \<Rightarrow>
                  (let row2 = row1\<lparr>ord_broker_order_id := Some (res_broker_order_id remote),
                                   ord_status := internal_status (res_status remote),
                                   ord_submitted_at := Some (res_submitted_at remote)\<rparr>
                   in (Inr (Some row2), put_order row2 dk1))))"

definition after_reject ::
  "ValidatedOrderIntent \<Rightarrow> string option \<Rightarrow> string \<Rightarrow> order_row \<Rightarrow> 'b desk \<Rightarrow> order_row option py \<times> 'b desk" where
  "after_reject i wid m row dk =
     (let row1 = row\<lparr>ord_status := os_value OS_REJECTED,
                     ord_raw_payload := dset (ord_raw_payload row) ''error'' (PStr m)\<rparr>
      in (Inr (Some row1),
          record_event ''error'' ''broker_submit_failed'' m (intent_context i) wid (put_order row1 dk)))"

definition record_fill ::
  "(nat \<Rightarrow> string) \<Rightarrow> int \<Rightarrow> string \<Rightarrow> string \<Rightarrow> rat \<Rightarrow> OrderResult \<Rightarrow> 'b desk \<Rightarrow> 'b desk" where
  "record_fill uuid now oid symbol qty res dk =
     (if res_status res = ST_FILLED \<and> res_avg_fill_price res \<noteq> None
      then dk\<lparr>dk_executions := dk_executions dk @
                [\<lparr>ex_id = uuid (dk_ids_used dk), ex_order_id = oid, ex_symbol = symbol,
                  ex_qty = (if res_filled_qty res = 0 then qty else res_filled_qty res),
                  ex_price = the (res_avg_fill_price res), ex_executed_at = now, ex_raw_payload = res_raw res\<rparr>],
              dk_ids_used := dk_ids_used dk + 1\<rparr>
      else dk)"

definition after_accept ::
  "(nat \<Rightarrow> string) \<Rightarrow> int \<Rightarrow> ValidatedOrderIntent \<Rightarrow> OrderResult \<Rightarrow> order_row \<Rightarrow> 'b desk
   \<Rightarrow> order_row option py \<times> 'b desk" where
  "after_accept uuid now i res row dk =
     (let raw = res_raw res;
          row1 = row\<lparr>ord_broker_order_id := Some (res_broker_order_id res),
                     ord_status := internal_status (res_status res),
                     ord_submitted_at := Some (res_submitted_at res),
                     ord_raw_payload := dset (ord_raw_payload row) ''broker'' (PRaw raw),
                     ord_order_type := or_str (raw_order_type raw) (ord_order_type row),
                     ord_limit_price := (case raw_limit_price raw of Some l \<Rightarrow> Some l | None \<Rightarrow> ord_limit_price row)\<rparr>
      in (Inr (Some row1), record_fill uuid now (ord_id row) (vi_symbol i) (vi_quantity i) res (put_order row1 dk)))"

definition submit_one ::
  "'b broker_api \<Rightarrow> settings \<Rightarrow> (string \<Rightarrow> rat option) \<Rightarrow> (nat \<Rightarrow> string) \<Rightarrow> int \<Rightarrow> string option \<Rightarrow> string option
   \<Rightarrow> ValidatedOrderIntent \<Rightarrow> 'b desk \<Rightarrow> order_row option py \<times> 'b desk" where
  "submit_one api cfg live uuid now did wid i dk =
     (case clear_working api now i dk of
        None \<Rightarrow> (Inr None, dk)
      | Some dk0 \<Rightarrow>
          (case order_for_intent cfg uuid now i did dk0 of
             Inl e \<Rightarrow> (Inl e, dk0)
           | Inr None \<Rightarrow> (Inr None, dk0)
           | Inr (Some (row, dk1)) \<Rightarrow>
               (case build_request live i row of
                  Inl (BrokerError m) \<Rightarrow> after_reject i wid m row dk1
                | Inl e \<Rightarrow> (Inl e, dk1)
                | Inr req \<Rightarrow>
                    (case api_submit_order api req (dk_broker dk1) of
                       (Inr res, b) \<Rightarrow> after_accept uuid now i res row (dk1\<lparr>dk_broker := b\<rparr>)
                     | (Inl (TimeoutError m), b) \<Rightarrow> after_timeout api i wid m row (dk1\<lparr>dk_broker := b\<rparr>)
                     | (Inl (BrokerError m), b) \<Rightarrow> after_reject i wid m row (dk1\<lparr>dk_broker := b\<rparr>)
                     | (Inl e, b) \<Rightarrow> (Inl e, dk1\<lparr>dk_broker := b\<rparr>)))))"

fun submit_all ::
  "'b broker_api \<Rightarrow> settings \<Rightarrow> (string \<Rightarrow> rat option) \<Rightarrow> (nat \<Rightarrow> string) \<Rightarrow> int \<Rightarrow> string option \<Rightarrow> string option
   \<Rightarrow> ValidatedOrderIntent list \<Rightarrow> order_row list \<Rightarrow> 'b desk \<Rightarrow> order_row list py \<times> 'b desk" where
  "submit_all api cfg live uuid now did wid [] created dk = (Inr created, dk)"
| "submit_all api cfg live uuid now did wid (i # rest) created dk =
     (case submit_one api cfg live uuid now did wid i dk of
        (Inl e, dk') \<Rightarrow> (Inl e, dk')
      | (Inr None, dk') \<Rightarrow> submit_all api cfg live uuid now did wid rest created dk'
      | (Inr (Some row), dk') \<Rightarrow> submit_all api cfg live uuid now did wid rest (created @ [row]) dk')"

definition submit_validated_intents ::
  "'b broker_api \<Rightarrow> settings \<Rightarrow> (string \<Rightarrow> rat option) \<Rightarrow> (nat \<Rightarrow> string) \<Rightarrow> int \<Rightarrow> string option \<Rightarrow> string option
   \<Rightarrow> ExecutionValidationResult \<Rightarrow> 'b desk \<Rightarrow> order_row list py \<times> 'b desk" where
  "submit_validated_intents api cfg live uuid now did wid v dk =
     (if \<not> ev_approved v
      then (Inr [], record_event ''warning'' ''order_submit_blocked_validation''
                      (''Validation not approved '' @ map char_of [226 :: int, 128, 148] @ '' fail closed'')
                      [(''rejections'', PStrs (ev_rejections v))] wid dk)
      else if \<not> is_new_order_allowed (dk_controls dk)
      then (Inr [], record_event ''error'' ''order_submit_blocked_controls''
                      (''Trading controls: '' @ ts_value (tc_state (dk_controls dk))) [] wid dk)
      else if \<not> cfg_enable_broker_orders cfg
      then (Inr [], record_event ''warning'' ''order_submit_blocked_flag'' ''ENABLE_BROKER_ORDERS=false'' [] wid dk)
      else if cfg_require_manual_order_approval cfg \<and> \<not> cfg_enable_automated_execution cfg
      then (Inr [], record_event ''warning'' ''order_submit_blocked_manual_approval''
                      ''Use ExecutionService approve+submit path'' [] wid dk)
      else if cfg_enable_live_trading cfg \<or> lower (cfg_broker_environment cfg) = ''live''
      then (Inr [], record_event ''error'' ''order_submit_blocked_live'' ''live_trading_blocked_phase5'' [] wid dk)
      else submit_all api cfg live uuid now did wid (ev_intents v) [] dk)"

section \<open>Synchronisation with the broker\<close>

record sync_report =
  sy_updated :: int
  sy_missing :: int
  sy_errors :: int

definition order_gone :: "py_error \<Rightarrow> bool" where
  "order_gone e \<longleftrightarrow>
     (case e of BrokerError m \<Rightarrow> str_contains ''ibkr_order_not_found'' m \<or> str_contains ''order_not_found'' m | _ \<Rightarrow> False)"

definition sync_row ::
  "'b broker_api \<Rightarrow> (nat \<Rightarrow> string) \<Rightarrow> int \<Rightarrow> order_row \<Rightarrow> sync_report \<times> 'b desk \<Rightarrow> sync_report \<times> 'b desk" where
  "sync_row api uuid now row st =
     (case st of (rep, dk) \<Rightarrow>
        if \<not> truthy_str (ord_broker_order_id row) then (rep, dk)
        else (case api_get_order api (the (ord_broker_order_id row)) (dk_broker dk) of
                Inl e \<Rightarrow>
                  if order_gone e
                  then (rep\<lparr>sy_updated := sy_updated rep + 1, sy_missing := sy_missing rep + 1\<rparr>,
                        put_order (row\<lparr>ord_status := os_value OS_CANCELLED,
                                       ord_raw_payload := dset (ord_raw_payload row) ''broker_sync''
                                         (PDict [(''missing_remote'', PBool True), (''error'', PStr (take 200 (err_str e)))])\<rparr>) dk)
                  else (rep\<lparr>sy_errors := sy_errors rep + 1\<rparr>, dk)
              | Inr br \<Rightarrow>
                  (let new_status = internal_status (res_status br)
                   in if ord_status row = new_status then (rep, dk)
                      else (rep\<lparr>sy_updated := sy_updated rep + 1\<rparr>,
                            record_fill uuid now (ord_id row) (ord_symbol row) (ord_qty row) br
                              (put_order (row\<lparr>ord_status := new_status,
                                              ord_raw_payload := dset (ord_raw_payload row) ''broker_sync''
                                                                   (PRaw (res_raw br))\<rparr>) dk)))))"

definition sync_statuses_from_broker ::
  "'b broker_api \<Rightarrow> (nat \<Rightarrow> string) \<Rightarrow> int \<Rightarrow> 'b desk \<Rightarrow> sync_report \<times> 'b desk" where
  "sync_statuses_from_broker api uuid now dk =
     fold (sync_row api uuid now) (filter is_working (dk_orders dk))
       (\<lparr>sy_updated = 0, sy_missing = 0, sy_errors = 0\<rparr>, dk)"

section \<open>The order table\<close>

text \<open>The identity columns of the table; only an insertion changes them.\<close>

definition order_index :: "'b desk \<Rightarrow> (string \<times> string) list" where
  "order_index dk = map (\<lambda>r. (ord_id r, ord_idempotency_key r)) (dk_orders dk)"

definition desk_inv :: "(nat \<Rightarrow> string) \<Rightarrow> 'b desk \<Rightarrow> bool" where
  "desk_inv uuid dk \<longleftrightarrow>
     distinct (map fst (order_index dk)) \<and> distinct (map snd (order_index dk))
     \<and> (\<forall>r \<in> set (dk_orders dk). \<exists>n < dk_ids_used dk. ord_id r = uuid n)"

lemma order_index_record_event [simp]: "order_index (record_event l t m c w dk) = order_index dk"
  by (simp add: order_index_def record_event_def)

lemma order_index_broker [simp]: "order_index (dk\<lparr>dk_broker := b\<rparr>) = order_index dk"
  by (simp add: order_index_def)

lemma order_index_controls [simp]: "order_index (dk\<lparr>dk_controls := c\<rparr>) = order_index dk"
  by (simp add: order_index_def)

lemma put_order_index:
  assumes "distinct (map ord_id (dk_orders dk))" "row \<in> set (dk_orders dk)"
    "ord_id row' = ord_id row" "ord_idempotency_key row' = ord_idempotency_key row"
  shows "order_index (put_order row' dk) = order_index dk"
proof -
  have "ord_id r = ord_id row' \<Longrightarrow> r \<in> set (dk_orders dk) \<Longrightarrow> r = row" for r
    using assms(1,2,3) by (metis distinct_map inj_on_eq_iff)
  then show ?thesis using assms(4) by (auto simp: order_index_def put_order_def)
qed

lemma order_index_ids: "map fst (order_index dk) = map ord_id (dk_orders dk)"
  by (simp add: order_index_def)

lemma order_index_keys: "map snd (order_index dk) = map ord_idempotency_key (dk_orders dk)"
  by (simp add: order_index_def)

text \<open>A step that keeps the index, with at least as many identifiers used, keeps the invariant.\<close>

lemma desk_inv_same:
  assumes "desk_inv uuid dk" "order_index dk' = order_index dk" "dk_ids_used dk \<le> dk_ids_used dk'"
  shows "desk_inv uuid dk'"
proof -
  have ids: "ord_id ` set (dk_orders dk') = ord_id ` set (dk_orders dk)"
    using assms(2) order_index_ids by (metis list.set_map)
  have "\<exists>n < dk_ids_used dk'. ord_id r = uuid n" if r: "r \<in> set (dk_orders dk')" for r
  proof -
    have "ord_id r \<in> ord_id ` set (dk_orders dk)" using r ids by blast
    then obtain r0 n where "r0 \<in> set (dk_orders dk)" "ord_id r = ord_id r0" "n < dk_ids_used dk" "ord_id r0 = uuid n"
      using assms(1) unfolding desk_inv_def by auto
    then show ?thesis using assms(3) by (metis order_less_le_trans)
  qed
  then show ?thesis using assms(1,2) unfolding desk_inv_def by simp
qed

definition same_index :: "'b desk \<Rightarrow> 'b desk \<Rightarrow> bool" where
  "same_index dk dk' \<longleftrightarrow> order_index dk' = order_index dk \<and> dk_ids_used dk \<le> dk_ids_used dk'"

lemma same_index_refl [simp]: "same_index dk dk"
  by (simp add: same_index_def)

lemma same_index_trans: "same_index a b \<Longrightarrow> same_index b c \<Longrightarrow> same_index a c"
  by (simp add: same_index_def)

lemma same_index_simps [simp]:
  "same_index dk (record_event l t m c w dk') \<longleftrightarrow> same_index dk dk'"
  "same_index dk (dk'\<lparr>dk_broker := b\<rparr>) \<longleftrightarrow> same_index dk dk'"
  "same_index dk (dk'\<lparr>dk_controls := c'\<rparr>) \<longleftrightarrow> same_index dk dk'"
  by (simp_all add: same_index_def) (simp_all add: record_event_def)

lemma same_index_fill: "same_index dk dk' \<Longrightarrow> same_index dk (record_fill uuid now oid sy q res dk')"
  by (auto simp: same_index_def record_fill_def order_index_def)

lemma desk_inv_step: "desk_inv uuid dk \<Longrightarrow> same_index dk dk' \<Longrightarrow> desk_inv uuid dk'"
  using desk_inv_same by (auto simp: same_index_def)

lemma find_mem: "find P xs = Some x \<Longrightarrow> x \<in> set xs \<and> P x"
  by (auto simp: find_Some_iff)

lemma distinct_ids_same: "same_index dk dk' \<Longrightarrow> distinct (map ord_id (dk_orders dk)) \<Longrightarrow> distinct (map ord_id (dk_orders dk'))"
  using order_index_ids[of dk] order_index_ids[of dk'] by (simp add: same_index_def)

lemma put_same:
  assumes "distinct (map ord_id (dk_orders dk))" "row \<in> set (dk_orders dk)"
    "ord_id row' = ord_id row" "ord_idempotency_key row' = ord_idempotency_key row"
  shows "same_index dk (put_order row' dk)"
  using put_order_index[OF assms] by (simp add: same_index_def) (simp add: put_order_def)

lemma dk_orders_simps [simp]:
  "dk_orders (record_event l t m c w dk) = dk_orders dk"
  "dk_broker (record_event l t m c w dk) = dk_broker dk"
  "dk_controls (record_event l t m c w dk) = dk_controls dk"
  "dk_executions (record_event l t m c w dk) = dk_executions dk"
  "dk_broker (put_order row dk) = dk_broker dk"
  "dk_controls (put_order row dk) = dk_controls dk"
  "dk_executions (put_order row dk) = dk_executions dk"
  by (simp_all add: record_event_def put_order_def)

lemma cancel_desk_order_index:
  assumes "distinct (map ord_id (dk_orders dk))"
  shows "same_index dk (snd (cancel_desk_order api oid dk))"
proof (cases "find (\<lambda>r. ord_id r = oid) (dk_orders dk)")
  case (Some row)
  then have row: "row \<in> set (dk_orders dk)" using find_mem[OF Some] by blast
  have put: "same_index dk (put_order (row\<lparr>ord_status := s\<rparr>) dk)"
    "same_index dk (put_order (row\<lparr>ord_status := s\<rparr>) (dk\<lparr>dk_broker := b\<rparr>))" for s b
    using put_same[OF assms row, of "row\<lparr>ord_status := s\<rparr>"]
      put_same[of "dk\<lparr>dk_broker := b\<rparr>" row "row\<lparr>ord_status := s\<rparr>"] assms row
    by (simp_all add: same_index_def)
  show ?thesis
    using Some put
    by (auto simp: cancel_desk_order_def Let_def split: prod.splits sum.splits py_error.splits)
qed (simp add: cancel_desk_order_def)

lemma cancel_rows_index:
  "distinct (map ord_id (dk_orders dk)) \<Longrightarrow> same_index dk (snd (cancel_rows api rows n dk))"
proof (induction rows arbitrary: n dk)
  case (Cons row rows)
  let ?dk = "snd (cancel_desk_order api (ord_id row) dk)"
  have one: "same_index dk ?dk" by (rule cancel_desk_order_index[OF Cons.prems])
  have "same_index ?dk (snd (cancel_rows api rows m ?dk))" for m
    by (rule Cons.IH[OF distinct_ids_same[OF one Cons.prems]])
  then have "same_index dk (snd (cancel_rows api rows m ?dk))" for m using one same_index_trans by blast
  then show ?case by (auto split: prod.splits sum.splits)
qed simp

lemma clear_working_index:
  assumes "distinct (map ord_id (dk_orders dk))" "clear_working api now i dk = Some dk'"
  shows "same_index dk dk'"
  using assms cancel_rows_index[OF assms(1)]
  by (auto simp: clear_working_def Let_def cancel_working_for_symbol_def split: if_splits)

text \<open>The row an intent is given is stored in the desk it comes with.\<close>

lemma order_for_intent_row:
  assumes "order_for_intent cfg uuid now i did dk = Inr (Some (row, dk'))" "distinct (map ord_id (dk_orders dk))"
  shows "row \<in> set (dk_orders dk')" "ord_idempotency_key row = vi_idempotency_key i"
    and "same_index dk dk'
       \<or> (vi_idempotency_key i \<notin> set (map ord_idempotency_key (dk_orders dk))
          \<and> order_index dk' = order_index dk @ [(uuid (dk_ids_used dk), vi_idempotency_key i)]
          \<and> dk_ids_used dk' = dk_ids_used dk + 1)"
    and "dk_broker dk' = dk_broker dk" "dk_controls dk' = dk_controls dk" "dk_executions dk' = dk_executions dk"
proof -
  let ?f = "find (\<lambda>r. ord_idempotency_key r = vi_idempotency_key i) (dk_orders dk)"
  have "row \<in> set (dk_orders dk') \<and> ord_idempotency_key row = vi_idempotency_key i
      \<and> (same_index dk dk'
       \<or> (vi_idempotency_key i \<notin> set (map ord_idempotency_key (dk_orders dk))
          \<and> order_index dk' = order_index dk @ [(uuid (dk_ids_used dk), vi_idempotency_key i)]
          \<and> dk_ids_used dk' = dk_ids_used dk + 1))
      \<and> dk_broker dk' = dk_broker dk \<and> dk_controls dk' = dk_controls dk \<and> dk_executions dk' = dk_executions dk"
  proof (cases ?f)
    case None
    then have "vi_idempotency_key i \<notin> set (map ord_idempotency_key (dk_orders dk))" by (auto simp: find_None_iff)
    then show ?thesis
      using assms(1) None by (auto simp: order_for_intent_def Let_def py_bind_Inr_iff order_index_def)
  next
    case (Some r)
    then have r: "r \<in> set (dk_orders dk)" "ord_idempotency_key r = vi_idempotency_key i" using find_mem[OF Some] by auto
    obtain row0 where row: "dk' = put_order row0 dk" "row = row0" "ord_id row0 = ord_id r"
      "ord_idempotency_key row0 = ord_idempotency_key r"
      using assms(1) Some by (auto simp: order_for_intent_def Let_def py_bind_Inr_iff split: if_splits)
    have "row0 \<in> set (dk_orders (put_order row0 dk))" using r(1) row(3) by (force simp: put_order_def)
    then show ?thesis using row r put_same[OF assms(2) r(1) row(3,4)] by simp
  qed
  then show "row \<in> set (dk_orders dk')" "ord_idempotency_key row = vi_idempotency_key i"
    "same_index dk dk'
       \<or> (vi_idempotency_key i \<notin> set (map ord_idempotency_key (dk_orders dk))
          \<and> order_index dk' = order_index dk @ [(uuid (dk_ids_used dk), vi_idempotency_key i)]
          \<and> dk_ids_used dk' = dk_ids_used dk + 1)"
    "dk_broker dk' = dk_broker dk" "dk_controls dk' = dk_controls dk" "dk_executions dk' = dk_executions dk"
    by blast+
qed

section \<open>Submission keeps the table\<close>

lemma after_steps_index:
  assumes "distinct (map ord_id (dk_orders dk))" "row \<in> set (dk_orders dk)"
  shows "same_index dk (snd (after_reject i wid m row dk))"
    and "same_index dk (snd (after_accept uuid now i res row dk))"
    and "same_index dk (snd (after_timeout api i wid m row dk))"
proof -
  note put = put_same[OF assms]
  show "same_index dk (snd (after_reject i wid m row dk))"
    by (simp add: after_reject_def Let_def put)
  show "same_index dk (snd (after_accept uuid now i res row dk))"
    by (simp add: after_accept_def Let_def put same_index_fill)
  let ?r1 = "row\<lparr>ord_status := ''UNKNOWN'',
                  ord_raw_payload := dset (dset (ord_raw_payload row) ''error'' (PStr ''timeout''))
                    ''state'' (PStr ''RECONCILIATION_REQUIRED'')\<rparr>"
  let ?dk1 = "record_event ''error'' ''broker_submit_timeout'' m (intent_context i) wid (put_order ?r1 dk)"
  have one: "same_index dk ?dk1" by (simp add: put)
  have in1: "?r1 \<in> set (dk_orders ?dk1)" using assms(2) by (force simp: put_order_def)
  have two: "same_index dk (put_order r2 ?dk1)" if "ord_id r2 = ord_id ?r1" "ord_idempotency_key r2 = ord_idempotency_key ?r1" for r2
    using put_same[OF distinct_ids_same[OF one assms(1)] in1 that] one same_index_trans by blast
  show "same_index dk (snd (after_timeout api i wid m row dk))"
    using one two by (simp add: after_timeout_def Let_def split: option.splits sum.splits)
qed

lemma desk_inv_grow:
  assumes "inj uuid" "desk_inv uuid dk" "key \<notin> set (map ord_idempotency_key (dk_orders dk))"
    "order_index dk' = order_index dk @ [(uuid (dk_ids_used dk), key)]" "dk_ids_used dk < dk_ids_used dk'"
  shows "desk_inv uuid dk'"
proof -
  have ids: "map ord_id (dk_orders dk') = map ord_id (dk_orders dk) @ [uuid (dk_ids_used dk)]"
    using assms(4) order_index_ids[of dk] order_index_ids[of dk'] by simp
  have keys: "map ord_idempotency_key (dk_orders dk') = map ord_idempotency_key (dk_orders dk) @ [key]"
    using assms(4) order_index_keys[of dk] order_index_keys[of dk'] by simp
  have fresh: "uuid (dk_ids_used dk) \<notin> ord_id ` set (dk_orders dk)"
    using assms(1,2) unfolding desk_inv_def by (metis imageE injD less_irrefl)
  have "\<exists>n < dk_ids_used dk'. ord_id r = uuid n" if "r \<in> set (dk_orders dk')" for r
  proof -
    have "ord_id r \<in> set (map ord_id (dk_orders dk) @ [uuid (dk_ids_used dk)])" using that ids by (metis image_eqI list.set_map)
    then consider "ord_id r = uuid (dk_ids_used dk)" | r0 where "r0 \<in> set (dk_orders dk)" "ord_id r = ord_id r0"
      by auto
    then show ?thesis
    proof cases
      case 2
      then show ?thesis using assms(2,5) unfolding desk_inv_def by (metis order.strict_trans)
    qed (use assms(5) in blast)
  qed
  then show ?thesis
    using assms(2,3) fresh unfolding desk_inv_def order_index_ids order_index_keys ids keys by simp
qed

lemma after_submit_index:
  assumes "distinct (map ord_id (dk_orders dk1))" "row \<in> set (dk_orders dk1)"
  shows "same_index dk1
     (snd (case build_request live i row of
             Inl (BrokerError m) \<Rightarrow> after_reject i wid m row dk1
           | Inl e \<Rightarrow> (Inl e, dk1)
           | Inr req \<Rightarrow>
               (case api_submit_order api req (dk_broker dk1) of
                  (Inr res, b) \<Rightarrow> after_accept uuid now i res row (dk1\<lparr>dk_broker := b\<rparr>)
                | (Inl (TimeoutError m), b) \<Rightarrow> after_timeout api i wid m row (dk1\<lparr>dk_broker := b\<rparr>)
                | (Inl (BrokerError m), b) \<Rightarrow> after_reject i wid m row (dk1\<lparr>dk_broker := b\<rparr>)
                | (Inl e, b) \<Rightarrow> (Inl e, dk1\<lparr>dk_broker := b\<rparr>))))"
proof -
  have b: "distinct (map ord_id (dk_orders (dk1\<lparr>dk_broker := b\<rparr>)))" "row \<in> set (dk_orders (dk1\<lparr>dk_broker := b\<rparr>))" for b
    using assms by simp_all
  have un: "same_index (dk1\<lparr>dk_broker := b\<rparr>) x \<Longrightarrow> same_index dk1 x" for b x
    by (simp add: same_index_def)
  note steps = after_steps_index[OF assms] after_steps_index[OF b, THEN un]
  show ?thesis
    using steps by (auto split: sum.splits prod.splits py_error.splits)
qed

lemma submit_one_inv:
  assumes inj: "inj uuid" and inv: "desk_inv uuid dk"
  shows "desk_inv uuid (snd (submit_one api cfg live uuid now did wid i dk))"
proof (cases "clear_working api now i dk")
  case None
  then show ?thesis using inv by (simp add: submit_one_def)
next
  case (Some dk0)
  have d: "distinct (map ord_id (dk_orders dk))" using inv order_index_ids[of dk] by (simp add: desk_inv_def)
  have s0: "same_index dk dk0" by (rule clear_working_index[OF d Some])
  have i0: "desk_inv uuid dk0" by (rule desk_inv_step[OF inv s0])
  have d0: "distinct (map ord_id (dk_orders dk0))" by (rule distinct_ids_same[OF s0 d])
  show ?thesis
  proof (cases "\<exists>row dk1. order_for_intent cfg uuid now i did dk0 = Inr (Some (row, dk1))")
    case False
    then show ?thesis using Some i0 by (auto simp: submit_one_def split: sum.splits option.splits)
  next
    case True
    then obtain row dk1 where o1: "order_for_intent cfg uuid now i did dk0 = Inr (Some (row, dk1))" by blast
    note row = order_for_intent_row[OF o1 d0]
    have i1: "desk_inv uuid dk1"
      using row(3) desk_inv_step[OF i0] desk_inv_grow[OF inj i0, of "vi_idempotency_key i" dk1] by auto
    then have d1: "distinct (map ord_id (dk_orders dk1))" using order_index_ids[of dk1] by (simp add: desk_inv_def)
    have "same_index dk1 (snd (submit_one api cfg live uuid now did wid i dk))"
      using after_submit_index[OF d1 row(1)] Some o1 unfolding submit_one_def by simp
    then show ?thesis by (rule desk_inv_step[OF i1])
  qed
qed

lemma submit_all_inv:
  "inj uuid \<Longrightarrow> desk_inv uuid dk \<Longrightarrow> desk_inv uuid (snd (submit_all api cfg live uuid now did wid is created dk))"
proof (induction "is" arbitrary: created dk)
  case (Cons i "is")
  have "desk_inv uuid (snd (submit_one api cfg live uuid now did wid i dk))" by (rule submit_one_inv[OF Cons.prems])
  then show ?case using Cons by (auto split: prod.splits sum.splits option.splits)
qed simp

lemma desk_inv_event [simp]: "desk_inv uuid (record_event l t m c w dk) \<longleftrightarrow> desk_inv uuid dk"
  unfolding desk_inv_def by (simp, simp add: record_event_def)

lemma submit_validated_inv:
  "inj uuid \<Longrightarrow> desk_inv uuid dk \<Longrightarrow>
   desk_inv uuid (snd (submit_validated_intents api cfg live uuid now did wid v dk))"
  by (simp add: submit_validated_intents_def submit_all_inv)

section \<open>The gates of a batch\<close>

definition may_submit :: "settings \<Rightarrow> ExecutionValidationResult \<Rightarrow> TradingControlState \<Rightarrow> bool" where
  "may_submit cfg v c \<longleftrightarrow>
     ev_approved v \<and> is_new_order_allowed c \<and> cfg_enable_broker_orders cfg
     \<and> (cfg_require_manual_order_approval cfg \<longrightarrow> cfg_enable_automated_execution cfg)
     \<and> \<not> cfg_enable_live_trading cfg \<and> lower (cfg_broker_environment cfg) \<noteq> ''live''"

lemma submit_closed:
  assumes "\<not> may_submit cfg v (dk_controls dk)"
  shows "\<exists>e. submit_validated_intents api cfg live uuid now did wid v dk = (Inr [], dk\<lparr>dk_events := dk_events dk @ [e]\<rparr>)"
  using assms by (auto simp: may_submit_def submit_validated_intents_def record_event_def)

text \<open>
  A batch of intents reaches the broker only when the validation approved it, trading is active,
  broker orders are enabled, manual approval is not pending and the environment is not live.  Otherwise
  nothing is submitted, no order or execution is written, the broker is untouched and exactly one
  system event records why.
\<close>

theorem submit_fails_closed:
  assumes "\<not> may_submit cfg v (dk_controls dk)"
  shows "\<exists>e. submit_validated_intents api cfg live uuid now did wid v dk = (Inr [], dk\<lparr>dk_events := dk_events dk @ [e]\<rparr>)"
  by (rule submit_closed[OF assms])

text \<open>
  An intent whose key already has an order that is not dead (working, filled, unknown after a
  timeout, or in any other state) is skipped: no broker call and no change of the desk, unless the
  intent is an exit, which may first cancel working orders.
\<close>

theorem known_key_not_resubmitted:
  assumes "\<not> is_exit_intent i" "row \<in> set (dk_orders dk)" "ord_idempotency_key row = vi_idempotency_key i"
    and "distinct (map ord_idempotency_key (dk_orders dk))"
    and "fold_status (ord_status row) \<notin> set DEAD_ORDER_STATUSES"
  shows "submit_one api cfg live uuid now did wid i dk = (Inr None, dk)"
proof -
  obtain r where r: "find (\<lambda>r. ord_idempotency_key r = vi_idempotency_key i) (dk_orders dk) = Some r"
    using assms(2,3) by (cases "find (\<lambda>r. ord_idempotency_key r = vi_idempotency_key i) (dk_orders dk)")
      (auto simp: find_None_iff)
  have "r = row" using find_mem[OF r] assms(2,3,4) by (metis distinct_map inj_on_eq_iff)
  then show ?thesis using assms(1,5) r by (simp add: submit_one_def clear_working_def order_for_intent_def Let_def)
qed

section \<open>Synchronisation\<close>

text \<open>What one look at the broker makes of a working row.\<close>

definition sync_view :: "'b broker_api \<Rightarrow> 'b \<Rightarrow> order_row \<Rightarrow> order_row" where
  "sync_view api b row =
     (if \<not> truthy_str (ord_broker_order_id row) then row
      else (case api_get_order api (the (ord_broker_order_id row)) b of
              Inl e \<Rightarrow>
                if order_gone e
                then row\<lparr>ord_status := os_value OS_CANCELLED,
                         ord_raw_payload := dset (ord_raw_payload row) ''broker_sync''
                           (PDict [(''missing_remote'', PBool True), (''error'', PStr (take 200 (err_str e)))])\<rparr>
                else row
            | Inr br \<Rightarrow>
                if ord_status row = internal_status (res_status br) then row
                else row\<lparr>ord_status := internal_status (res_status br),
                         ord_raw_payload := dset (ord_raw_payload row) ''broker_sync'' (PRaw (res_raw br))\<rparr>))"

lemma sync_view_id [simp]: "ord_id (sync_view api b row) = ord_id row"
  "ord_idempotency_key (sync_view api b row) = ord_idempotency_key row"
  "ord_broker_order_id (sync_view api b row) = ord_broker_order_id row"
  by (simp_all add: sync_view_def split: sum.splits)

lemma record_fill_frame [simp]:
  "dk_orders (record_fill uuid now oid sy q res dk) = dk_orders dk"
  "dk_broker (record_fill uuid now oid sy q res dk) = dk_broker dk"
  "dk_controls (record_fill uuid now oid sy q res dk) = dk_controls dk"
  "dk_events (record_fill uuid now oid sy q res dk) = dk_events dk"
  by (simp_all add: record_fill_def)

text \<open>The rows on which a look changes nothing.\<close>

definition quiet :: "'b broker_api \<Rightarrow> 'b \<Rightarrow> order_row \<Rightarrow> bool" where
  "quiet api b row \<longleftrightarrow>
     \<not> truthy_str (ord_broker_order_id row)
     \<or> (case api_get_order api (the (ord_broker_order_id row)) b of
          Inl e \<Rightarrow> \<not> order_gone e
        | Inr br \<Rightarrow> ord_status row = internal_status (res_status br))"

lemma quiet_sync_row: "quiet api (dk_broker dk) row \<Longrightarrow> snd (sync_row api uuid now row (rep, dk)) = dk"
  by (auto simp: quiet_def sync_row_def split: sum.splits)

lemma quiet_view: "quiet api b row \<Longrightarrow> sync_view api b row = row"
  by (auto simp: quiet_def sync_view_def split: sum.splits)

lemma loud_sync_row:
  "\<not> quiet api (dk_broker dk) row \<Longrightarrow>
   dk_orders (snd (sync_row api uuid now row (rep, dk))) = dk_orders (put_order (sync_view api (dk_broker dk) row) dk)"
  by (auto simp: quiet_def sync_row_def sync_view_def Let_def split: sum.splits)

lemma sync_row_broker: "dk_broker (snd (sync_row api uuid now row (rep, dk))) = dk_broker dk"
  by (simp add: sync_row_def Let_def split: sum.splits)

lemma sync_row_orders:
  assumes "distinct (map ord_id (dk_orders dk))" "row \<in> set (dk_orders dk)"
  shows "dk_orders (snd (sync_row api uuid now row (rep, dk)))
      = map (\<lambda>r. if r = row then sync_view api (dk_broker dk) row else r) (dk_orders dk)"
proof -
  have same: "ord_id r = ord_id row \<longleftrightarrow> r = row" if "r \<in> set (dk_orders dk)" for r
    using assms that by (metis distinct_map inj_on_eq_iff)
  show ?thesis
  proof (cases "quiet api (dk_broker dk) row")
    case True
    then show ?thesis by (auto simp: quiet_sync_row quiet_view intro!: map_idI[symmetric])
  next
    case False
    then show ?thesis using same by (auto simp: loud_sync_row put_order_def)
  qed
qed

lemma sync_fold:
  assumes "distinct (map ord_id (dk_orders dk))" "set rs \<subseteq> set (dk_orders dk)" "distinct rs"
  shows "dk_orders (snd (fold (sync_row api uuid now) rs (rep, dk)))
      = map (\<lambda>r. if r \<in> set rs then sync_view api (dk_broker dk) r else r) (dk_orders dk)
    \<and> dk_broker (snd (fold (sync_row api uuid now) rs (rep, dk))) = dk_broker dk"
  using assms
proof (induction rs arbitrary: rep dk)
  case (Cons row rs)
  obtain rep1 dk1 where st: "sync_row api uuid now row (rep, dk) = (rep1, dk1)" by fastforce
  have row: "row \<in> set (dk_orders dk)" using Cons.prems(2) by simp
  have o1: "dk_orders dk1 = map (\<lambda>r. if r = row then sync_view api (dk_broker dk) row else r) (dk_orders dk)"
    using sync_row_orders[OF Cons.prems(1) row, of api uuid now rep] st by simp
  have b1: "dk_broker dk1 = dk_broker dk" using sync_row_broker[of api uuid now row rep dk] st by simp
  have ids: "map ord_id (dk_orders dk1) = map ord_id (dk_orders dk)" unfolding o1 by simp
  have inj: "r \<in> set (dk_orders dk) \<Longrightarrow> ord_id r = ord_id row \<Longrightarrow> r = row" for r
    using Cons.prems(1) row by (metis distinct_map inj_on_eq_iff)
  have "set rs \<subseteq> set (dk_orders dk1)" using Cons.prems(2,3) unfolding o1 by force
  then have IH: "dk_orders (snd (fold (sync_row api uuid now) rs (rep1, dk1)))
      = map (\<lambda>r. if r \<in> set rs then sync_view api (dk_broker dk1) r else r) (dk_orders dk1)"
    "dk_broker (snd (fold (sync_row api uuid now) rs (rep1, dk1))) = dk_broker dk1"
    using Cons.IH[of dk1 rep1] Cons.prems(1,3) ids by auto
  have "sync_view api (dk_broker dk) row \<notin> set rs"
    using Cons.prems(2,3) inj by (metis (no_types, lifting) distinct.simps(2) list.set_intros(2) subsetD sync_view_id(1))
  then have "map (\<lambda>r. if r \<in> set rs then sync_view api (dk_broker dk1) r else r) (dk_orders dk1)
      = map (\<lambda>r. if r \<in> set (row # rs) then sync_view api (dk_broker dk) r else r) (dk_orders dk)"
    unfolding o1 b1 using Cons.prems(3) by auto
  then show ?case using IH b1 st by simp
qed simp

lemma distinct_orders: "distinct (map ord_id (dk_orders dk)) \<Longrightarrow> distinct (dk_orders dk)"
  by (simp add: distinct_map)

lemma sync_orders:
  assumes "distinct (map ord_id (dk_orders dk))"
  shows "dk_orders (snd (sync_statuses_from_broker api uuid now dk))
      = map (\<lambda>r. if is_working r then sync_view api (dk_broker dk) r else r) (dk_orders dk)"
    and "dk_broker (snd (sync_statuses_from_broker api uuid now dk)) = dk_broker dk"
  using sync_fold[OF assms, of "filter is_working (dk_orders dk)" api uuid now] distinct_orders[OF assms]
  by (auto simp: sync_statuses_from_broker_def)

lemma quiet_fold:
  "(\<And>r. r \<in> set rs \<Longrightarrow> quiet api (dk_broker dk) r) \<Longrightarrow> snd (fold (sync_row api uuid now) rs (rep, dk)) = dk"
proof (induction rs arbitrary: rep)
  case (Cons row rs)
  obtain rep1 where "sync_row api uuid now row (rep, dk) = (rep1, dk)"
    using quiet_sync_row[OF Cons.prems[OF list.set_intros(1)], of uuid now rep] by (metis prod.collapse)
  then show ?case using Cons by simp
qed simp

lemma cancelled_not_working: "\<not> is_working (row\<lparr>ord_status := os_value OS_CANCELLED, ord_raw_payload := p\<rparr>)"
proof -
  have "lower (os_value OS_CANCELLED) \<notin> set WORKING_ORDER_STATUSES" by code_simp
  then show ?thesis by (simp add: is_working_def)
qed

lemma quiet_after:
  assumes "is_working (sync_view api b row)"
  shows "quiet api b (sync_view api b row)"
  using assms cancelled_not_working by (auto simp: quiet_def sync_view_def split: sum.splits if_splits)

text \<open>
  Property C13.  One synchronisation looks at every row once.  A working row with a broker id takes the broker's status when
  the broker answers, is closed as cancelled when the broker says that the order does not exist
  (the message carries \<open>order_not_found\<close> or \<open>ibkr_order_not_found\<close>), and stays as it is on any other error; its id, key, symbol,
  side, quantity and broker id never change.  Every other row and the broker are left alone, and a
  second pass over the same broker changes nothing at all, so no execution is written twice for
  one fill.
\<close>

theorem sync_agrees:
  assumes "distinct (map ord_id (dk_orders dk))"
    and "sync_statuses_from_broker api uuid now dk = (rep, dk')"
  shows "list_all2 (\<lambda>r r'.
        ord_id r' = ord_id r \<and> ord_idempotency_key r' = ord_idempotency_key r \<and> ord_symbol r' = ord_symbol r
        \<and> ord_side r' = ord_side r \<and> ord_qty r' = ord_qty r \<and> ord_broker_order_id r' = ord_broker_order_id r
        \<and> (if is_working r \<and> truthy_str (ord_broker_order_id r)
           then (case api_get_order api (the (ord_broker_order_id r)) (dk_broker dk) of
                   Inr br \<Rightarrow> ord_status r' = internal_status (res_status br)
                 | Inl e \<Rightarrow> if order_gone e then ord_status r' = ''CANCELLED'' else r' = r)
           else r' = r)) (dk_orders dk) (dk_orders dk')
    \<and> dk_broker dk' = dk_broker dk
    \<and> snd (sync_statuses_from_broker api uuid later dk') = dk'"
proof -
  have o': "dk_orders dk' = map (\<lambda>r. if is_working r then sync_view api (dk_broker dk) r else r) (dk_orders dk)"
    and b': "dk_broker dk' = dk_broker dk"
    using sync_orders[OF assms(1), of api uuid now] assms(2) by simp_all
  have "quiet api (dk_broker dk') r" if "r \<in> set (filter is_working (dk_orders dk'))" for r
    using that quiet_after[of api "dk_broker dk"] unfolding o' b' by (auto split: if_splits)
  then have again: "snd (sync_statuses_from_broker api uuid later dk') = dk'"
    unfolding sync_statuses_from_broker_def by (rule quiet_fold)
  have view: "ord_symbol (sync_view api b r) = ord_symbol r \<and> ord_side (sync_view api b r) = ord_side r \<and> ord_qty (sync_view api b r) = ord_qty r"
    for b and r :: order_row by (simp add: sync_view_def split: sum.splits)
  show ?thesis
    using b' again unfolding o' by (simp add: list_all2_map2 list_all2_same view) (simp add: sync_view_def split: sum.splits)
qed

section \<open>Every sequence of calls\<close>

datatype desk_call =
    CSubmit int "string option" "string option" ExecutionValidationResult
  | CCancel string | CCancelSymbol string "string option" | CEmergency int | CSync int

fun desk_effect ::
  "'b broker_api \<Rightarrow> settings \<Rightarrow> (string \<Rightarrow> rat option) \<Rightarrow> (nat \<Rightarrow> string) \<Rightarrow> desk_call \<Rightarrow> 'b desk \<Rightarrow> 'b desk" where
  "desk_effect api cfg live uuid (CSubmit now did wid v) dk =
     snd (submit_validated_intents api cfg live uuid now did wid v dk)"
| "desk_effect api cfg live uuid (CCancel oid) dk = snd (cancel_desk_order api oid dk)"
| "desk_effect api cfg live uuid (CCancelSymbol sy side) dk = snd (cancel_working_for_symbol api sy side dk)"
| "desk_effect api cfg live uuid (CEmergency now) dk = snd (emergency_cancel_all api now dk)"
| "desk_effect api cfg live uuid (CSync now) dk = snd (sync_statuses_from_broker api uuid now dk)"

lemma emergency_index: "same_index dk (snd (emergency_cancel_all api now dk))"
  by (simp add: emergency_cancel_all_def Let_def split: prod.splits sum.splits)

lemma sync_ids_used: "dk_ids_used dk \<le> dk_ids_used (snd (fold (sync_row api uuid now) rs (rep, dk)))"
proof (induction rs arbitrary: rep dk)
  case (Cons row rs)
  obtain rep1 dk1 where st: "sync_row api uuid now row (rep, dk) = (rep1, dk1)" by fastforce
  then have "dk_ids_used dk \<le> dk_ids_used dk1"
    by (auto simp: sync_row_def Let_def record_fill_def put_order_def split: if_splits sum.splits)
  then show ?case using Cons.IH[of dk1 rep1] st by simp
qed simp

lemma sync_index:
  assumes "distinct (map ord_id (dk_orders dk))"
  shows "same_index dk (snd (sync_statuses_from_broker api uuid now dk))"
proof -
  have "order_index (snd (sync_statuses_from_broker api uuid now dk)) = order_index dk"
    unfolding order_index_def sync_orders(1)[OF assms] by simp
  then show ?thesis unfolding same_index_def using sync_ids_used by (simp add: sync_statuses_from_broker_def)
qed

lemma desk_effect_inv:
  assumes "inj uuid" "desk_inv uuid dk"
  shows "desk_inv uuid (desk_effect api cfg live uuid c dk)"
proof -
  have d: "distinct (map ord_id (dk_orders dk))" using assms(2) order_index_ids[of dk] by (simp add: desk_inv_def)
  note steps = cancel_desk_order_index[OF d] cancel_rows_index[OF d] emergency_index[of dk] sync_index[OF d]
  show ?thesis
    using submit_validated_inv[OF assms] desk_inv_step[OF assms(2) steps(1)] desk_inv_step[OF assms(2) steps(2)]
      desk_inv_step[OF assms(2) steps(3)] desk_inv_step[OF assms(2) steps(4)]
    by (cases c) (simp_all add: cancel_working_for_symbol_def)
qed

definition empty_desk :: "'b \<Rightarrow> TradingControlState \<Rightarrow> 'b desk" where
  "empty_desk b c =
     \<lparr>dk_orders = [], dk_executions = [], dk_events = [], dk_controls = c, dk_broker = b, dk_ids_used = 0\<rparr>"

text \<open>
  Property C7.  Whatever sequence of submissions, cancellations, emergency stops and synchronisations the desk runs,
  with any broker, and whatever exceptions the broker raises, the order table never holds two
  rows with the same idempotency key or the same id.
\<close>

theorem order_keys_unique:
  assumes "inj uuid"
  shows "distinct (map ord_idempotency_key (dk_orders (fold (desk_effect api cfg live uuid) calls (empty_desk b c))))
    \<and> distinct (map ord_id (dk_orders (fold (desk_effect api cfg live uuid) calls (empty_desk b c))))"
proof -
  have "desk_inv uuid dk \<Longrightarrow> desk_inv uuid (fold (desk_effect api cfg live uuid) calls dk)" for dk
    by (induction calls arbitrary: dk) (simp_all add: desk_effect_inv[OF assms])
  moreover have "desk_inv uuid (empty_desk b c)" by (simp add: desk_inv_def order_index_def empty_desk_def)
  ultimately show ?thesis unfolding desk_inv_def order_index_ids order_index_keys by blast
qed

section \<open>Brokers that recognise a retry\<close>

text \<open>The mock broker as the client the manager calls.\<close>

definition mock_api :: "(string \<Rightarrow> int) \<Rightarrow> int \<Rightarrow> MockBroker broker_api" where
  "mock_api digest now =
     \<lparr>api_submit_order = submit_order digest now, api_cancel_order = cancel_order,
      api_cancel_all_orders = (\<lambda>b. (Inr (fst (cancel_all_orders b)), snd (cancel_all_orders b))),
      api_get_order = get_order,
      api_get_order_by_client_id = Some (\<lambda>k b. Inr (get_order_by_client_id k b))\<rparr>"

lemma order_for_intent_again:
  assumes "order_for_intent cfg uuid t i did dk = Inr (Some (row, dk1))"
  obtains row' dk1' where "order_for_intent cfg uuid t' i did (dk\<lparr>dk_broker := b\<rparr>) = Inr (Some (row', dk1'))"
    "ord_raw_payload row' = ord_raw_payload row"
proof (cases "find (\<lambda>r. ord_idempotency_key r = vi_idempotency_key i) (dk_orders dk)")
  case None
  then show ?thesis using assms that by (auto simp: order_for_intent_def py_bind_Inr_iff Let_def)
next
  case (Some r)
  then show ?thesis using assms that
    by (auto simp: order_for_intent_def py_bind_Inr_iff Let_def put_order_def split: if_splits)
qed

lemma order_for_intent_broker:
  "order_for_intent cfg uuid t i did dk = Inr (Some (row, dk1)) \<Longrightarrow> dk_broker dk1 = dk_broker dk"
  by (auto simp: order_for_intent_def Let_def py_bind_Inr_iff put_order_def split: option.splits if_splits)

lemma clear_working_entry: "\<not> is_exit_intent i \<Longrightarrow> clear_working api t i dk = Some dk"
  by (simp add: clear_working_def)

lemma submit_one_accepted:
  assumes "clear_working api t i dk = Some dk0" "order_for_intent cfg uuid t i did dk0 = Inr (Some (row, dk1))"
    "build_request live i row = Inr req" "api_submit_order api req (dk_broker dk0) = (Inr res, b)"
  shows "\<exists>row'. fst (submit_one api cfg live uuid t did wid i dk) = Inr (Some row')
      \<and> ord_broker_order_id row' = Some (res_broker_order_id res) \<and> ord_status row' = internal_status (res_status res)"
    and "dk_broker (snd (submit_one api cfg live uuid t did wid i dk)) = b"
  using assms order_for_intent_broker[OF assms(2)] by (simp_all add: submit_one_def after_accept_def Let_def)

locale retry_broker =
  fixes api :: "int \<Rightarrow> 'b broker_api" and ok :: "'b \<Rightarrow> bool"
  assumes retry: "ok b \<Longrightarrow> has_key r \<Longrightarrow> api_submit_order (api t) r b = (Inr x, b') \<Longrightarrow>
                    api_submit_order (api t') r b' = (Inr x, b')"
begin

lemma build_request_key:
  "build_request live i row = Inr req \<Longrightarrow> vi_idempotency_key i \<noteq> [] \<Longrightarrow> has_key req"
  by (auto simp: build_request_def Let_def py_bind_Inr_iff has_key_def split: if_splits)

lemma build_request_payload:
  "ord_raw_payload row' = ord_raw_payload row \<Longrightarrow> build_request live i row' = build_request live i row"
  by (simp only: build_request_def)

lemma crash_retry:
  assumes "ok (dk_broker dk)" "vi_idempotency_key i \<noteq> []"
    "order_for_intent cfg uuid t i did dk = Inr (Some (row, dk1))" "build_request live i row = Inr req"
    "api_submit_order (api t) req (dk_broker dk) = (Inr res, b)"
    and clear: "clear_working (api t') t' i dk' = Some (dk\<lparr>dk_broker := b\<rparr>)"
  shows "dk_broker (snd (submit_one (api t') cfg live uuid t' did wid i dk')) = b"
    and "\<exists>row'. fst (submit_one (api t') cfg live uuid t' did wid i dk') = Inr (Some row')
      \<and> ord_broker_order_id row' = Some (res_broker_order_id res)"
proof -
  obtain row' dk1' where o': "order_for_intent cfg uuid t' i did (dk\<lparr>dk_broker := b\<rparr>) = Inr (Some (row', dk1'))"
    "ord_raw_payload row' = ord_raw_payload row"
    using order_for_intent_again[OF assms(3)] by metis
  have r': "build_request live i row' = Inr req" using assms(4) build_request_payload[OF o'(2)] by simp
  have s': "api_submit_order (api t') req b = (Inr res, b)"
    using retry[OF assms(1) build_request_key[OF assms(4,2)] assms(5)] .
  note acc = submit_one_accepted[OF clear o'(1) r', of res b wid]
  show "dk_broker (snd (submit_one (api t') cfg live uuid t' did wid i dk')) = b"
    using acc s' by simp
  show "\<exists>row'. fst (submit_one (api t') cfg live uuid t' did wid i dk') = Inr (Some row')
      \<and> ord_broker_order_id row' = Some (res_broker_order_id res)"
    using acc s' by auto
qed

end

interpretation mock_desk: retry_broker "mock_api digest" mock_inv for digest
proof
  fix b r t x b' t'
  assume "mock_inv b" "has_key r" "api_submit_order (mock_api digest t) r b = (Inr x, b')"
  then show "api_submit_order (mock_api digest t') r b' = (Inr x, b')"
    using mock.submit_twice[of b r digest t x b' t'] by (simp add: mock_api_def)
qed

text \<open>
  A flattening exit first cancels the working orders on its side.  Replayed on the broker as the
  first attempt left it, the cancellations find the same orders already final and write the same rows.
\<close>

definition settled_orders :: "MockBroker \<Rightarrow> MockBroker \<Rightarrow> bool" where
  "settled_orders b b' \<longleftrightarrow>
     (\<forall>oid o'. dget (mb_orders b) oid = Some o' \<and> status_final (res_status o') \<longrightarrow> dget (mb_orders b') oid = Some o')"

lemma settled_refl [simp]: "settled_orders b b"
  by (simp add: settled_orders_def)

lemma settled_trans: "settled_orders a b \<Longrightarrow> settled_orders b c \<Longrightarrow> settled_orders a c"
  by (simp add: settled_orders_def)

lemma settled_cancel: "settled_orders b (snd (cancel_order oid b))"
  by (auto simp: settled_orders_def cancel_get cancelled_id)

definition ids_known :: "string set \<Rightarrow> MockBroker desk \<Rightarrow> bool" where
  "ids_known ids dk \<longleftrightarrow>
     (\<forall>r \<in> set (dk_orders dk). ord_id r \<in> ids \<and> truthy_str (ord_broker_order_id r) \<longrightarrow>
        dget (mb_orders (dk_broker dk)) (the (ord_broker_order_id r)) \<noteq> None)"

text \<open>One cancellation, run first and replayed on a later broker.\<close>

lemma cancel_desk_replay:
  assumes "cancel_desk_order (mock_api digest t) oid dk = (x, dk1)" "ids_known ids dk" "oid \<in> ids"
  shows "settled_orders (dk_broker dk) (dk_broker dk1)" "ids_known ids dk1" "mock_inv (dk_broker dk) \<Longrightarrow> mock_inv (dk_broker dk1)"
    and "settled_orders (dk_broker dk1) b \<Longrightarrow>
      cancel_desk_order (mock_api digest t') oid (dk\<lparr>dk_broker := b\<rparr>) = (x, dk1\<lparr>dk_broker := b\<rparr>)"
proof -
  have "settled_orders (dk_broker dk) (dk_broker dk1) \<and> ids_known ids dk1 \<and> (mock_inv (dk_broker dk) \<longrightarrow> mock_inv (dk_broker dk1))
    \<and> (settled_orders (dk_broker dk1) b \<longrightarrow>
      cancel_desk_order (mock_api digest t') oid (dk\<lparr>dk_broker := b\<rparr>) = (x, dk1\<lparr>dk_broker := b\<rparr>))" for b
  proof (cases "find (\<lambda>r. ord_id r = oid) (dk_orders dk)")
    case None
    then show ?thesis using assms by (auto simp: cancel_desk_order_def)
  next
    case (Some row)
    then have row: "row \<in> set (dk_orders dk)" "ord_id row = oid" using find_mem[OF Some] by auto
    show ?thesis
    proof (cases "truthy_str (ord_broker_order_id row)")
      case False
      then have "dk1 = put_order (row\<lparr>ord_status := status_value ST_CANCELED\<rparr>) dk" "x = Inr (row\<lparr>ord_status := status_value ST_CANCELED\<rparr>)"
        using assms(1) Some by (simp_all add: cancel_desk_order_def Let_def)
      then show ?thesis using assms(2) False Some
        by (auto simp: ids_known_def put_order_def cancel_desk_order_def Let_def split: if_splits)
    next
      case True
      let ?id = "the (ord_broker_order_id row)"
      obtain o' where o': "dget (mb_orders (dk_broker dk)) ?id = Some o'"
        using assms(2,3) row True by (auto simp: ids_known_def)
      let ?c = "cancelled ?id o'" and ?b1 = "snd (cancel_order ?id (dk_broker dk))"
      have c: "fst (cancel_order ?id (dk_broker dk)) = Inr ?c" using o' by (simp add: cancel_order_def cancelled_def Let_def)
      let ?row' = "row\<lparr>ord_status := status_value (res_status ?c)\<rparr>"
      have one: "dk1 = put_order ?row' (dk\<lparr>dk_broker := ?b1\<rparr>)" "x = Inr ?row'"
        using assms(1) Some True c by (cases "cancel_order ?id (dk_broker dk)"; simp add: cancel_desk_order_def mock_api_def Let_def)+
      have b1: "dk_broker dk1 = ?b1" using one by simp
      have kn: "ids_known ids dk1"
        using assms(2) o' unfolding one ids_known_def by (auto simp: put_order_def cancel_get split: if_splits)
      have "cancel_desk_order (mock_api digest t') oid (dk\<lparr>dk_broker := b\<rparr>) = (x, dk1\<lparr>dk_broker := b\<rparr>)"
        if "settled_orders (dk_broker dk1) b"
      proof -
        have "dget (mb_orders b) ?id = Some ?c" using that o' unfolding b1 settled_orders_def by (simp add: cancel_get)
        then have "cancel_order ?id b = (Inr ?c, b)" by (simp add: cancel_order_def)
        then show ?thesis using Some True by (simp add: cancel_desk_order_def mock_api_def Let_def one put_order_def)
      qed
      then show ?thesis using kn settled_cancel cancel_inv b1 by simp
    qed
  qed
  then show "settled_orders (dk_broker dk) (dk_broker dk1)" "ids_known ids dk1" "mock_inv (dk_broker dk) \<Longrightarrow> mock_inv (dk_broker dk1)"
    "settled_orders (dk_broker dk1) b \<Longrightarrow> cancel_desk_order (mock_api digest t') oid (dk\<lparr>dk_broker := b\<rparr>) = (x, dk1\<lparr>dk_broker := b\<rparr>)"
    by blast+
qed

lemma cancel_rows_replay:
  assumes "cancel_rows (mock_api digest t) rows n dk = (m, dk0)" "ids_known (ord_id ` set rows \<union> ids) dk"
  shows "settled_orders (dk_broker dk) (dk_broker dk0) \<and> (mock_inv (dk_broker dk) \<longrightarrow> mock_inv (dk_broker dk0))
    \<and> (\<forall>b. settled_orders (dk_broker dk0) b \<longrightarrow>
        cancel_rows (mock_api digest t') rows n (dk\<lparr>dk_broker := b\<rparr>) = (m, dk0\<lparr>dk_broker := b\<rparr>))"
  using assms
proof (induction rows arbitrary: n dk ids)
  case (Cons row rows)
  obtain x dk1 where one: "cancel_desk_order (mock_api digest t) (ord_id row) dk = (x, dk1)" by fastforce
  have kn: "ids_known (ord_id ` set rows \<union> insert (ord_id row) ids) dk" using Cons.prems(2) by (simp add: Un_insert_left Un_insert_right)
  note step = cancel_desk_replay[OF one kn]
  obtain n' where go: "cancel_rows (mock_api digest t) rows n' dk1 = (m, dk0)" and n': "n' = (if isl x then n else n + 1)"
    using Cons.prems(1) one by (cases x) simp_all
  have IH: "settled_orders (dk_broker dk1) (dk_broker dk0) \<and> (mock_inv (dk_broker dk1) \<longrightarrow> mock_inv (dk_broker dk0))
    \<and> (\<forall>b. settled_orders (dk_broker dk0) b \<longrightarrow>
        cancel_rows (mock_api digest t') rows n' (dk1\<lparr>dk_broker := b\<rparr>) = (m, dk0\<lparr>dk_broker := b\<rparr>))"
    by (rule Cons.IH[OF go step(2)]) simp
  have "cancel_rows (mock_api digest t') (row # rows) n (dk\<lparr>dk_broker := b\<rparr>) = (m, dk0\<lparr>dk_broker := b\<rparr>)"
    if "settled_orders (dk_broker dk0) b" for b
  proof -
    have "settled_orders (dk_broker dk1) b" using IH that settled_trans by blast
    from step(4)[OF _ this, of t'] have "cancel_desk_order (mock_api digest t') (ord_id row) (dk\<lparr>dk_broker := b\<rparr>) = (x, dk1\<lparr>dk_broker := b\<rparr>)"
      by simp
    then show ?thesis using IH that n' by (cases x) simp_all
  qed
  then show ?case using IH step(1,3) settled_trans by blast
qed simp

lemma stale_later: "is_stale_flatten t w \<Longrightarrow> t \<le> t' \<Longrightarrow> is_stale_flatten t' w"
  by (auto simp: is_stale_flatten_def working_age_def)

definition working_known :: "MockBroker desk \<Rightarrow> bool" where
  "working_known dk \<longleftrightarrow>
     distinct (map ord_id (dk_orders dk))
     \<and> (\<forall>r \<in> set (dk_orders dk). is_working r \<and> truthy_str (ord_broker_order_id r) \<longrightarrow>
          dget (mb_orders (dk_broker dk)) (the (ord_broker_order_id r)) \<noteq> None)"

lemma cancel_symbol_replay:
  assumes "cancel_working_for_symbol (mock_api digest t) sy side dk = (m, dk0)" "working_known dk"
  shows "(mock_inv (dk_broker dk) \<longrightarrow> mock_inv (dk_broker dk0))
    \<and> (\<forall>b. settled_orders (dk_broker dk0) b \<longrightarrow>
        cancel_working_for_symbol (mock_api digest t') sy side (dk\<lparr>dk_broker := b\<rparr>) = (m, dk0\<lparr>dk_broker := b\<rparr>))"
proof -
  let ?rows = "filter (\<lambda>r. ord_symbol r = upper sy \<and> is_working r \<and> (truthy_str side \<longrightarrow> ord_side r = lower (the side))) (dk_orders dk)"
  have kn: "ids_known (ord_id ` set ?rows \<union> {}) dk"
    unfolding ids_known_def
  proof (intro ballI impI)
    fix r assume r: "r \<in> set (dk_orders dk)" "ord_id r \<in> ord_id ` set ?rows \<union> {} \<and> truthy_str (ord_broker_order_id r)"
    then obtain r' where r': "r' \<in> set (dk_orders dk)" "is_working r'" "ord_id r' = ord_id r" by auto
    then have "r' = r" using assms(2) r(1) unfolding working_known_def distinct_map by (meson inj_onD)
    then show "dget (mb_orders (dk_broker dk)) (the (ord_broker_order_id r)) \<noteq> None"
      using r r' assms(2) unfolding working_known_def by blast
  qed
  have run: "cancel_rows (mock_api digest t) ?rows 0 dk = (m, dk0)"
    using assms(1) by (simp only: cancel_working_for_symbol_def)
  show ?thesis
    unfolding cancel_working_for_symbol_def using cancel_rows_replay[OF run kn, of t'] by simp
qed

text \<open>The exit guard reads the order table only, and a stale row stays stale.\<close>

lemma clear_working_again:
  assumes "clear_working api t i dk = Some dk0"
  shows "(dk0 = dk \<and> (\<forall>api' t' b. t \<le> t' \<longrightarrow> clear_working api' t' i (dk\<lparr>dk_broker := b\<rparr>) = Some (dk\<lparr>dk_broker := b\<rparr>)))
    \<or> (dk0 = snd (cancel_working_for_symbol api (vi_symbol i) (Some (vi_side i)) dk)
       \<and> (\<forall>api' t' b. t \<le> t' \<longrightarrow> clear_working api' t' i (dk\<lparr>dk_broker := b\<rparr>)
            = Some (snd (cancel_working_for_symbol api' (vi_symbol i) (Some (vi_side i)) (dk\<lparr>dk_broker := b\<rparr>)))))"
proof -
  have same: "working_same_side sy sd (dk\<lparr>dk_broker := b\<rparr>) = working_same_side sy sd dk" for sy sd b
    by (simp add: working_same_side_def)
  have stale: "list_ex (is_stale_flatten t') ws" if "list_ex (is_stale_flatten t) ws" "t \<le> t'" for ws t'
    using that stale_later by (auto simp: list_ex_iff)
  show ?thesis
  proof (cases "is_exit_intent i \<and> working_same_side (vi_symbol i) (vi_side i) dk \<noteq> [] \<and> is_flatten_intent i")
    case True
    then show ?thesis using assms stale
      by (intro disjI2) (auto simp: clear_working_def Let_def same split: if_splits)
  next
    case False
    then show ?thesis using assms
      by (intro disjI1) (auto simp: clear_working_def Let_def same split: if_splits)
  qed
qed

lemma clear_working_replay:
  assumes "clear_working (mock_api digest t) t i dk = Some dk0" "working_known dk" "t \<le> t'"
  shows "mock_inv (dk_broker dk) \<Longrightarrow> mock_inv (dk_broker dk0)"
    and "settled_orders (dk_broker dk0) b \<Longrightarrow> clear_working (mock_api digest t') t' i (dk\<lparr>dk_broker := b\<rparr>) = Some (dk0\<lparr>dk_broker := b\<rparr>)"
proof -
  obtain m dk2 where c: "cancel_working_for_symbol (mock_api digest t) (vi_symbol i) (Some (vi_side i)) dk = (m, dk2)" by fastforce
  note rep = cancel_symbol_replay[OF c assms(2), of t']
  have both: "(mock_inv (dk_broker dk) \<longrightarrow> mock_inv (dk_broker dk0))
     \<and> (settled_orders (dk_broker dk0) b \<longrightarrow> clear_working (mock_api digest t') t' i (dk\<lparr>dk_broker := b\<rparr>) = Some (dk0\<lparr>dk_broker := b\<rparr>))"
    using clear_working_again[OF assms(1)]
  proof (elim disjE conjE)
    assume "dk0 = dk" "\<forall>api' t' b. t \<le> t' \<longrightarrow> clear_working api' t' i (dk\<lparr>dk_broker := b\<rparr>) = Some (dk\<lparr>dk_broker := b\<rparr>)"
    then show ?thesis using assms(3) by blast
  next
    assume "dk0 = snd (cancel_working_for_symbol (mock_api digest t) (vi_symbol i) (Some (vi_side i)) dk)"
      and again: "\<forall>api' t' b. t \<le> t' \<longrightarrow> clear_working api' t' i (dk\<lparr>dk_broker := b\<rparr>)
            = Some (snd (cancel_working_for_symbol api' (vi_symbol i) (Some (vi_side i)) (dk\<lparr>dk_broker := b\<rparr>)))"
    then have "dk0 = dk2" using c by simp
    then show ?thesis using rep again assms(3) by simp
  qed
  then show "mock_inv (dk_broker dk) \<Longrightarrow> mock_inv (dk_broker dk0)"
    "settled_orders (dk_broker dk0) b \<Longrightarrow> clear_working (mock_api digest t') t' i (dk\<lparr>dk_broker := b\<rparr>) = Some (dk0\<lparr>dk_broker := b\<rparr>)"
    by blast+
qed

lemma accepted_settled:
  assumes "mock_inv b" "submit_order digest t req b = (Inr res, b')"
  shows "settled_orders b b'"
proof -
  have "dget (mb_orders b) (order_id (mb_seed b) (mb_seq b + 1)) = None"
    using assms(1) orders_ok_fresh[of "mb_seed b" "mb_seq b" "mb_orders b"] dget_Some_mem[of "mb_orders b"]
    by (cases "dget (mb_orders b) (order_id (mb_seed b) (mb_seq b + 1))") (force simp: mock_inv_def dkeys_def)+
  then show ?thesis
    using submit_cases[OF assms(2)] by (auto simp: settled_orders_def record_order_def)
qed

text \<open>
  Property C6.  If the process dies after the mock broker accepted an order and before the order table was committed,
  submitting the same intent again, at any later time, finds the order at the broker: the second
  submission leaves the broker as the first did and records the same broker order.  The intent may be an entry or an
  exit, and the first attempt may have cancelled working orders on its way; what is asked is that row ids are
  distinct and that the broker knows the orders of the working rows.
\<close>

theorem crash_retry_trades_once:
  assumes "mock_inv (dk_broker dk)" "vi_idempotency_key i \<noteq> []" "t \<le> t'"
    and "distinct (map ord_id (dk_orders dk))"
    and "\<forall>r \<in> set (dk_orders dk). is_working r \<and> truthy_str (ord_broker_order_id r) \<longrightarrow>
           dget (mb_orders (dk_broker dk)) (the (ord_broker_order_id r)) \<noteq> None"
    and "clear_working (mock_api digest t) t i dk = Some dk0"
    and "order_for_intent cfg uuid t i did dk0 = Inr (Some (row, dk1))" "build_request live i row = Inr req"
    and "submit_order digest t req (dk_broker dk0) = (Inr res, b)"
  shows "dk_broker (snd (submit_one (mock_api digest t) cfg live uuid t did wid i dk)) = b
    \<and> dk_broker (snd (submit_one (mock_api digest t') cfg live uuid t' did wid i (dk\<lparr>dk_broker := b\<rparr>))) = b
    \<and> (\<exists>row'. fst (submit_one (mock_api digest t') cfg live uuid t' did wid i (dk\<lparr>dk_broker := b\<rparr>)) = Inr (Some row')
         \<and> ord_broker_order_id row' = Some (res_broker_order_id res))"
proof -
  have s: "api_submit_order (mock_api digest t) req (dk_broker dk0) = (Inr res, b)" using assms(9) by (simp add: mock_api_def)
  have wk: "working_known dk" using assms(4,5) by (simp add: working_known_def)
  note inv = clear_working_replay(1)[OF assms(6) wk assms(3,1)]
  have again: "clear_working (mock_api digest t') t' i (dk\<lparr>dk_broker := b\<rparr>) = Some (dk0\<lparr>dk_broker := b\<rparr>)"
    using clear_working_replay(2)[OF assms(6) wk assms(3) accepted_settled[OF inv assms(9)]] .
  show ?thesis
    using submit_one_accepted(2)[OF assms(6-8) s] mock_desk.crash_retry[OF inv assms(2,7,8) s again] by simp
qed

text \<open>
  A dead order whose key the mock broker still knows as cancelled cannot be resubmitted: the manager
  sends it again under the same key, the broker answers with the old cancelled order, and
  the row ends cancelled with nothing traded.
\<close>

theorem resubmit_returns_cancelled:
  assumes "clear_working (mock_api digest t) t i dk = Some dk0"
    and "order_for_intent cfg uuid t i did dk0 = Inr (Some (row, dk1))"
    and "build_request live i row = Inr req" "accepts_request req (dk_broker dk0)" "vi_idempotency_key i \<noteq> []"
    and "find_client_order (dk_broker dk0) (vi_idempotency_key i) = Some old" "res_status old = ST_CANCELED"
  shows "\<exists>row'. fst (submit_one (mock_api digest t) cfg live uuid t did wid i dk) = Inr (Some row')
      \<and> ord_status row' = os_value OS_CANCELLED
      \<and> dk_broker (snd (submit_one (mock_api digest t) cfg live uuid t did wid i dk)) = dk_broker dk0"
proof -
  have "or_idempotency_key req = Some (vi_idempotency_key i)"
    using assms(3) by (auto simp: build_request_def Let_def py_bind_Inr_iff split: if_splits)
  then have "submit_order digest t req (dk_broker dk0) = (Inr old, dk_broker dk0)"
    using assms(4,5,6) by (simp add: submit_order_def accepts_request_def existing_order_def)
  then have s: "api_submit_order (mock_api digest t) req (dk_broker dk0) = (Inr old, dk_broker dk0)"
    by (simp add: mock_api_def)
  show ?thesis using submit_one_accepted[OF assms(1,2,3) s] assms(7) by auto
qed

section \<open>How intents are classified\<close>

lemma str_contains_append: "str_contains p (a @ p @ b)"
proof (induction a)
  case Nil
  show ?case
  proof (cases "p @ b")
    case (Cons c cs)
    have "startswith (c # cs) p" unfolding Cons[symmetric] by simp
    then show ?thesis using Cons by simp
  qed simp
qed simp

text \<open>
  The key of every ordinary buy entry carries the marker \<open>:buy:BUY\<close>, so the manager takes a new
  entry for a flattening exit: it may cancel working buys of the symbol and, on a venue that needs
  a marketable limit, it is priced with the slip reserved for hard stops and forced closes.
\<close>

theorem buy_entry_taken_for_flatten:
  assumes "vi_idempotency_key i = intent_key wid did sy ''buy'' SA_BUY"
  shows "is_exit_intent i \<and> is_flatten_intent i
    \<and> (uses_marketable_limit v None \<and> \<not> is_resting_stop (Some (vi_order_type i)) \<and> live (upper (vi_symbol i)) = Some px
        \<and> apply_marketable_limit v None (vi_side i) (Some (vi_order_type i)) (vi_limit_price i) (Some px) None None True
            = Inr (otype, limit) \<and> px \<noteq> 0 \<longrightarrow>
        shape_order live i v = (otype, Some limit))"
proof -
  have "str_contains '':buy:BUY'' (vi_idempotency_key i)"
    using str_contains_append[of "'':buy:BUY''" "or_str wid did @ '':'' @ sy" "[]"] assms by (simp add: intent_key_def)
  then have "is_flatten_intent i" by (simp add: is_flatten_intent_def FLATTEN_MARKERS_def)
  then show ?thesis by (auto simp: is_exit_intent_def is_flatten_intent_def shape_order_def)
qed

section \<open>A desk with the mock broker\<close>

definition sample_uuid :: "nat \<Rightarrow> string" where
  "sample_uuid n = ''id-'' @ str_int (int n)"

lemma sample_uuid_inj: "inj sample_uuid"
proof (rule injI)
  fix x y assume "sample_uuid x = sample_uuid y"
  then show "x = y" using str_nat_inj[of "int x" "int y"] by (simp add: sample_uuid_def str_int_def)
qed

definition sample_cfg :: settings where
  "sample_cfg = default_settings\<lparr>cfg_enable_broker_orders := True, cfg_require_manual_order_approval := False\<rparr>"

definition sample_entry :: ValidatedOrderIntent where
  "sample_entry = sample_sell_intent\<lparr>vi_side := ''buy'', vi_quantity := 10, vi_order_type := ''limit'',
     vi_limit_price := Some 100, vi_idempotency_key := ''d1:SPY:buy:SCALE_IN'', vi_con_id := None\<rparr>"

definition sample_desk :: "MockBroker desk" where
  "sample_desk = empty_desk (init_mock 42 25000 True False True) (init_controls 0)"

abbreviation sample_api :: "MockBroker broker_api" where
  "sample_api \<equiv> mock_api (\<lambda>_. 0) 7"

theorem submit_fails_closed_witness:
  "\<exists>e. submit_validated_intents sample_api sample_cfg (\<lambda>_. None) sample_uuid 7 None None
         \<lparr>ev_approved = False, ev_intents = [sample_entry], ev_rejections = [''x'']\<rparr> sample_desk
       = (Inr [], sample_desk\<lparr>dk_events := dk_events sample_desk @ [e]\<rparr>)"
  by (rule submit_fails_closed) (simp add: may_submit_def)

lemma sample_entry_not_exit: "\<not> is_exit_intent sample_entry"
  by code_simp

definition sample_row :: "string \<Rightarrow> order_row" where
  "sample_row st =
     \<lparr>ord_id = ''id-0'', ord_broker_order_id = Some ''mock-42-1'', ord_idempotency_key = ''d1:SPY:buy:SCALE_IN'',
      ord_symbol = ''SPY'', ord_side = ''buy'', ord_qty = 10, ord_order_type = ''limit'', ord_limit_price = Some 100,
      ord_stop_price = None, ord_status = st, ord_decision_id = None, ord_submitted_at = None, ord_created_at = 0,
      ord_raw_payload = []\<rparr>"

theorem known_key_not_resubmitted_witness:
  "submit_one sample_api sample_cfg (\<lambda>_. None) sample_uuid 7 None None sample_entry
     (sample_desk\<lparr>dk_orders := [sample_row ''UNKNOWN'']\<rparr>)
   = (Inr None, sample_desk\<lparr>dk_orders := [sample_row ''UNKNOWN'']\<rparr>)"
proof (rule known_key_not_resubmitted[OF sample_entry_not_exit])
  show "sample_row ''UNKNOWN'' \<in> set (dk_orders (sample_desk\<lparr>dk_orders := [sample_row ''UNKNOWN'']\<rparr>))" by simp
  show "fold_status (ord_status (sample_row ''UNKNOWN'')) \<notin> set DEAD_ORDER_STATUSES" by code_simp
qed (simp_all add: sample_row_def sample_entry_def)

lemma sample_order_for:
  "order_for_intent sample_cfg sample_uuid 7 sample_entry (Some ''d1'') sample_desk
   = Inr (Some ((sample_row ''pending_submit'')\<lparr>ord_broker_order_id := None, ord_decision_id := Some ''d1'', ord_created_at := 7,
        ord_raw_payload := [(''thesis'', PStr ''t''), (''venue'', PStr ''US''), (''con_id'', PNull)]\<rparr>,
      sample_desk\<lparr>dk_orders := [(sample_row ''pending_submit'')\<lparr>ord_broker_order_id := None, ord_decision_id := Some ''d1'',
        ord_created_at := 7,
        ord_raw_payload := [(''thesis'', PStr ''t''), (''venue'', PStr ''US''), (''con_id'', PNull)]\<rparr>], dk_ids_used := 1\<rparr>))"
proof -
  have u: "str_int 0 = ''0''" by code_simp
  show ?thesis
    by (simp add: order_for_intent_def sample_desk_def empty_desk_def sample_entry_def sample_sell_intent_def truthy_str_def
        or_str_def sample_row_def sample_uuid_def pay_int_def u Let_def)
qed

definition sample_buy_request :: OrderRequest where
  "sample_buy_request =
     \<lparr>or_symbol = ''SPY'', or_side = BUY, or_qty = 10, or_order_type = ''limit'', or_limit_price = Some 100,
      or_stop_price = None, or_idempotency_key = Some ''d1:SPY:buy:SCALE_IN'', or_time_in_force = ''day'',
      or_venue = Some ''US'', or_con_id = None\<rparr>"

lemma sample_build:
  "build_request (\<lambda>_. None) sample_entry
     ((sample_row ''pending_submit'')\<lparr>ord_broker_order_id := None, ord_decision_id := Some ''d1'', ord_created_at := 7,
        ord_raw_payload := [(''thesis'', PStr ''t''), (''venue'', PStr ''US''), (''con_id'', PNull)]\<rparr>)
   = Inr sample_buy_request"
  by code_simp

text \<open>An ordinary buy entry, read as a flatten because of its key, with a working buy stop of the symbol in its way.\<close>

definition sample_buy :: ValidatedOrderIntent where
  "sample_buy = sample_entry\<lparr>vi_idempotency_key := ''d1:SPY:buy:BUY''\<rparr>"

definition sample_buy_stop :: OrderRequest where
  "sample_buy_stop = (sample_order BUY 5 ''k0'')\<lparr>or_order_type := ''stop'', or_limit_price := None, or_stop_price := Some 200\<rparr>"

definition sample_busy_desk :: "MockBroker desk" where
  "sample_busy_desk =
     sample_desk\<lparr>dk_orders := [(sample_row ''new'')\<lparr>ord_idempotency_key := ''k0'', ord_qty := 5\<rparr>],
       dk_broker := snd (submit_order (\<lambda>_. 0) 7 sample_buy_stop (dk_broker sample_desk)), dk_ids_used := 1\<rparr>"

definition sample_first_attempt :: "(MockBroker desk \<times> order_row \<times> MockBroker desk \<times> OrderRequest) option" where
  "sample_first_attempt =
     (case clear_working sample_api 7 sample_buy sample_busy_desk of
        Some dk0 \<Rightarrow>
          (case order_for_intent sample_cfg sample_uuid 7 sample_buy (Some ''d1'') dk0 of
             Inr (Some (row, dk1)) \<Rightarrow>
               (case build_request (\<lambda>_. None) sample_buy row of Inr req \<Rightarrow> Some (dk0, row, dk1, req) | _ \<Rightarrow> None)
           | _ \<Rightarrow> None)
      | None \<Rightarrow> None)"

lemma sample_first_attempt_fills:
  "case sample_first_attempt of
     Some (dk0, row, dk1, req) \<Rightarrow>
       map ord_status (dk_orders dk0) = [''canceled'']
       \<and> (case fst (submit_order (\<lambda>_. 0) 7 req (dk_broker dk0)) of Inr res \<Rightarrow> res_filled_qty res = 10 | Inl _ \<Rightarrow> False)
   | None \<Rightarrow> False"
  by code_simp

theorem crash_retry_trades_once_witness:
  "\<exists>dk0 req res b. clear_working sample_api 7 sample_buy sample_busy_desk = Some dk0 \<and> map ord_status (dk_orders dk0) = [''canceled'']
     \<and> submit_order (\<lambda>_. 0) 7 req (dk_broker dk0) = (Inr res, b) \<and> res_filled_qty res = 10
     \<and> dk_broker (snd (submit_one (mock_api (\<lambda>_. 0) 9) sample_cfg (\<lambda>_. None) sample_uuid 9 (Some ''d1'') None sample_buy
         (sample_busy_desk\<lparr>dk_broker := b\<rparr>))) = b"
proof -
  obtain p where p: "sample_first_attempt = Some p" using sample_first_attempt_fills by (cases sample_first_attempt) simp_all
  obtain dk0 row dk1 req where q: "p = (dk0, row, dk1, req)" by (rule prod_cases4)
  note f = p[unfolded q]
  note fills = sample_first_attempt_fills[unfolded f option.case prod.case]
  then have st: "map ord_status (dk_orders dk0) = [''canceled'']" by simp
  obtain res b where s: "submit_order (\<lambda>_. 0) 7 req (dk_broker dk0) = (Inr res, b)" "res_filled_qty res = 10"
    using fills by (cases "submit_order (\<lambda>_. 0) 7 req (dk_broker dk0)") (auto split: sum.splits)
  have c: "clear_working sample_api 7 sample_buy sample_busy_desk = Some dk0"
    and o: "order_for_intent sample_cfg sample_uuid 7 sample_buy (Some ''d1'') dk0 = Inr (Some (row, dk1))"
    and r: "build_request (\<lambda>_. None) sample_buy row = Inr req"
    using f by (auto simp: sample_first_attempt_def split: option.splits sum.splits prod.splits)
  have inv: "mock_inv (dk_broker sample_busy_desk)"
    by (simp add: sample_busy_desk_def sample_desk_def empty_desk_def init_mock_inv submit_inv)
  have key: "vi_idempotency_key sample_buy \<noteq> []" by (simp add: sample_buy_def)
  have ids: "distinct (map ord_id (dk_orders sample_busy_desk))" by code_simp
  have "list_all (\<lambda>r. dget (mb_orders (dk_broker sample_busy_desk)) (the (ord_broker_order_id r)) \<noteq> None) (dk_orders sample_busy_desk)"
    by code_simp
  then have kn: "\<forall>r \<in> set (dk_orders sample_busy_desk). is_working r \<and> truthy_str (ord_broker_order_id r) \<longrightarrow>
      dget (mb_orders (dk_broker sample_busy_desk)) (the (ord_broker_order_id r)) \<noteq> None" by (simp add: list_all_iff)
  show ?thesis
    using crash_retry_trades_once[OF inv key _ ids kn c o r s(1), of 9 None] c st s by auto
qed

definition sample_cancelled :: OrderResult where
  "sample_cancelled =
     \<lparr>res_broker_order_id = ''mock-42-1'', res_status = ST_CANCELED, res_submitted_at = 3, res_filled_qty = 0,
      res_avg_fill_price = None, res_raw = request_raw sample_buy_request None\<rparr>"

definition sample_cancelled_desk :: "MockBroker desk" where
  "sample_cancelled_desk =
     sample_desk\<lparr>dk_broker := (dk_broker sample_desk)\<lparr>mb_orders := [(''mock-42-1'', sample_cancelled)], mb_seq := 1\<rparr>\<rparr>"

theorem resubmit_returns_cancelled_witness:
  "\<exists>row'. fst (submit_one sample_api sample_cfg (\<lambda>_. None) sample_uuid 7 (Some ''d1'') None sample_entry sample_cancelled_desk)
      = Inr (Some row') \<and> ord_status row' = ''CANCELLED''"
proof -
  let ?r = "(sample_row ''pending_submit'')\<lparr>ord_broker_order_id := None, ord_decision_id := Some ''d1'', ord_created_at := 7,
        ord_raw_payload := [(''thesis'', PStr ''t''), (''venue'', PStr ''US''), (''con_id'', PNull)]\<rparr>"
  have o1: "order_for_intent sample_cfg sample_uuid 7 sample_entry (Some ''d1'') sample_cancelled_desk
      = Inr (Some (?r, sample_cancelled_desk\<lparr>dk_orders := [?r], dk_ids_used := 1\<rparr>))"
    using sample_order_for
    by (simp add: sample_cancelled_desk_def order_for_intent_def py_bind_Inr_iff Let_def sample_desk_def empty_desk_def)
  have a: "accepts_request sample_buy_request (dk_broker sample_cancelled_desk)" by code_simp
  have f: "find_client_order (dk_broker sample_cancelled_desk) (vi_idempotency_key sample_entry) = Some sample_cancelled"
    by code_simp
  have k: "vi_idempotency_key sample_entry \<noteq> []" by (simp add: sample_entry_def)
  show ?thesis
    using resubmit_returns_cancelled[OF clear_working_entry[OF sample_entry_not_exit] o1 sample_build a k f]
    by (auto simp: sample_cancelled_def)
qed

text \<open>Three rows seen by one pass: an order cancelled at the broker, one the broker does not know, and a filled one.\<close>

definition sample_sync_desk :: "MockBroker desk" where
  "sample_sync_desk = sample_cancelled_desk\<lparr>dk_orders :=
     [sample_row ''new'',
      (sample_row ''accepted'')\<lparr>ord_id := ''id-1'', ord_idempotency_key := ''k1'', ord_broker_order_id := Some ''b1''\<rparr>,
      (sample_row ''FILLED'')\<lparr>ord_id := ''id-2'', ord_idempotency_key := ''k2''\<rparr>]\<rparr>"

lemma sample_sync_statuses:
  "map ord_status (dk_orders (snd (sync_statuses_from_broker sample_api sample_uuid 7 sample_sync_desk)))
   = [''CANCELLED'', ''accepted'', ''FILLED'']"
  by code_simp

theorem sync_agrees_witness:
  "let dk' = snd (sync_statuses_from_broker sample_api sample_uuid 7 sample_sync_desk)
   in map ord_status (dk_orders dk') = [''CANCELLED'', ''accepted'', ''FILLED'']
    \<and> dk_broker dk' = dk_broker sample_sync_desk
    \<and> snd (sync_statuses_from_broker sample_api sample_uuid 8 dk') = dk'"
proof -
  obtain rep dk' where s: "sync_statuses_from_broker sample_api sample_uuid 7 sample_sync_desk = (rep, dk')" by fastforce
  have "distinct (map ord_id (dk_orders sample_sync_desk))" by code_simp
  from sync_agrees[OF this s, of 8] sample_sync_statuses show ?thesis unfolding s by simp
qed

text \<open>A day at the desk: an entry, its retry, a second entry, an emergency stop and a synchronisation.\<close>

definition sample_desk_calls :: "desk_call list" where
  "sample_desk_calls =
     (let batch = (\<lambda>i. \<lparr>ev_approved = True, ev_intents = [i], ev_rejections = []\<rparr>)
      in [CSubmit 7 (Some ''d1'') None (batch sample_entry), CSubmit 8 (Some ''d1'') None (batch sample_entry),
          CSubmit 9 (Some ''d1'') None (batch sample_buy), CEmergency 10, CSync 11])"

lemma sample_calls_keys:
  "map ord_idempotency_key (dk_orders (fold (desk_effect sample_api sample_cfg (\<lambda>_. None) sample_uuid) sample_desk_calls sample_desk))
   = [''d1:SPY:buy:SCALE_IN'', ''d1:SPY:buy:BUY'']"
  by code_simp

theorem order_keys_unique_witness:
  "let dk = fold (desk_effect sample_api sample_cfg (\<lambda>_. None) sample_uuid) sample_desk_calls sample_desk
   in map ord_idempotency_key (dk_orders dk) = [''d1:SPY:buy:SCALE_IN'', ''d1:SPY:buy:BUY''] \<and> distinct (map ord_id (dk_orders dk))"
proof -
  have "distinct (map ord_id (dk_orders (fold (desk_effect sample_api sample_cfg (\<lambda>_. None) sample_uuid) sample_desk_calls sample_desk)))"
    unfolding sample_desk_def by (rule conjunct2[OF order_keys_unique[OF sample_uuid_inj]])
  then show ?thesis using sample_calls_keys by (simp add: Let_def)
qed

theorem buy_entry_taken_for_flatten_witness:
  "shape_order (\<lambda>_. Some 10) (sample_entry\<lparr>vi_idempotency_key := ''d1:BHP:buy:BUY'', vi_order_type := ''market'',
      vi_limit_price := None\<rparr>) (Some ''AU'') = (''limit'', Some (fl (1080 / 100)))"
proof -
  let ?i = "sample_entry\<lparr>vi_idempotency_key := ''d1:BHP:buy:BUY'', vi_order_type := ''market'', vi_limit_price := None\<rparr>"
  have k: "vi_idempotency_key ?i = intent_key None ''d1'' ''BHP'' ''buy'' SA_BUY" by (simp add: intent_key_def or_str_def)
  have ev: "uses_marketable_limit (Some ''AU'') None" "\<not> is_resting_stop (Some (vi_order_type ?i))"
    "apply_marketable_limit (Some ''AU'') None (vi_side ?i) (Some (vi_order_type ?i)) (vi_limit_price ?i) (Some 10) None None True
       = Inr (''limit'', fl (1080 / 100))"
    by code_simp+
  show ?thesis using buy_entry_taken_for_flatten[OF k, of "Some ''AU''" "\<lambda>_. Some 10" 10] ev by simp
qed

end
