(* ===== verification/Py_Datetime.thy ===== *)
theory Py_Datetime
  imports Py_Prelude
begin

text \<open>
  The calendar behind \<open>datetime\<close>: proleptic Gregorian ordinals as the standard library computes them,
  the fields of an instant in UTC, weekdays, and \<open>isoformat\<close> with the \<open>fromisoformat\<close> forms the code
  reads back (a date, or a date and time with optional microseconds and offset; other ISO spellings
  are outside the model).  An instant is the number of microseconds since 1970-01-01T00:00:00 UTC.
\<close>

section \<open>Dates\<close>

definition is_leap :: "int \<Rightarrow> bool" where
  "is_leap y \<longleftrightarrow> y mod 4 = 0 \<and> (y mod 100 \<noteq> 0 \<or> y mod 400 = 0)"

definition days_before_year :: "int \<Rightarrow> int" where
  "days_before_year y = (let p = y - 1 in p * 365 + p div 4 - p div 100 + p div 400)"

definition month_lengths :: "int \<Rightarrow> int list" where
  "month_lengths y = [31, if is_leap y then 29 else 28, 31, 30, 31, 30, 31, 31, 30, 31, 30, 31]"

fun month_day :: "int list \<Rightarrow> int \<Rightarrow> int \<times> int" where
  "month_day [] n = (1, n + 1)"
| "month_day [l] n = (1, n + 1)"
| "month_day (l # ls) n = (if n < l then (1, n + 1) else (case month_day ls (n - l) of (m, d) \<Rightarrow> (m + 1, d)))"

definition days_in_month :: "int \<Rightarrow> int \<Rightarrow> int" where
  "days_in_month y m = (if 1 \<le> m \<and> m \<le> 12 then month_lengths y ! nat (m - 1) else 0)"

definition days_before_month :: "int \<Rightarrow> int \<Rightarrow> int" where
  "days_before_month y m = sum_list (take (nat (m - 1)) (month_lengths y))"

definition ymd2ord :: "int \<times> int \<times> int \<Rightarrow> int" where
  "ymd2ord = (\<lambda>(y, m, d). days_before_year y + days_before_month y m + d)"

definition year_of_ord :: "int \<Rightarrow> int" where
  "year_of_ord ord =
     (let n = ord - 1; n400 = n div 146097; a = n mod 146097; n100 = a div 36524; b = a mod 36524;
          n4 = b div 1461; c = b mod 1461; n1 = c div 365; y = n400 * 400 + 1 + n100 * 100 + n4 * 4 + n1
      in if n1 = 4 \<or> n100 = 4 then y - 1 else y)"

definition ord2ymd :: "int \<Rightarrow> int \<times> int \<times> int" where
  "ord2ymd n = (let y = year_of_ord n in (y, month_day (month_lengths y) (n - 1 - days_before_year y)))"

definition valid_date :: "int \<times> int \<times> int \<Rightarrow> bool" where
  "valid_date = (\<lambda>(y, m, d). 1 \<le> y \<and> y \<le> 9999 \<and> 1 \<le> m \<and> m \<le> 12 \<and> 1 \<le> d \<and> d \<le> days_in_month y m)"

text \<open>Monday is 0.\<close>

definition weekday :: "int \<Rightarrow> int" where
  "weekday n = (n + 6) mod 7"

section \<open>Instants\<close>

definition DAY_US :: int where
  "DAY_US = 86400000000"

definition EPOCH_ORD :: int where
  "EPOCH_ORD = 719163"

definition ord_of :: "int \<Rightarrow> int" where
  "ord_of t = t div DAY_US + EPOCH_ORD"

text \<open>\<open>timedelta.total_seconds()\<close> of a difference in microseconds.\<close>

definition total_seconds :: "int \<Rightarrow> rat" where
  "total_seconds us = fl (of_int us / 1000000)"

text \<open>\<open>t.replace(hour=0, minute=0, second=0, microsecond=0)\<close> of an instant in UTC.\<close>

definition day_start :: "int \<Rightarrow> int" where
  "day_start t = t div DAY_US * DAY_US"

definition digits2 :: "int \<Rightarrow> string" where
  "digits2 n = [digit_char (n div 10), digit_char (n mod 10)]"

definition digits4 :: "int \<Rightarrow> string" where
  "digits4 n = digits2 (n div 100) @ digits2 (n mod 100)"

definition date_iso :: "int \<times> int \<times> int \<Rightarrow> string" where
  "date_iso = (\<lambda>(y, m, d). digits4 y @ ''-'' @ digits2 m @ ''-'' @ digits2 d)"

definition time_iso :: "int \<Rightarrow> string" where
  "time_iso us =
     (let s = us div 1000000; f = us mod 1000000
      in digits2 (s div 3600) @ '':'' @ digits2 (s div 60 mod 60) @ '':'' @ digits2 (s mod 60)
         @ (if f = 0 then [] else ''.'' @ digits2 (f div 10000) @ digits4 (f mod 10000)))"

definition isoformat :: "int \<Rightarrow> string" where
  "isoformat t = date_iso (ord2ymd (ord_of t)) @ ''T'' @ time_iso (t mod DAY_US) @ ''+00:00''"

definition dig :: "char \<Rightarrow> int option" where
  "dig c = (if is_digit c then Some (of_char c - 48) else None)"

fun num :: "string \<Rightarrow> int \<Rightarrow> int option" where
  "num [] a = Some a"
| "num (c # cs) a = (case dig c of Some d \<Rightarrow> num cs (a * 10 + d) | None \<Rightarrow> None)"

text \<open>The offset in microseconds: absent, \<open>Z\<close>, or a signed \<open>HH:MM\<close>.\<close>

fun parse_offset :: "string \<Rightarrow> int option option" where
  "parse_offset [] = Some None"
| "parse_offset [c] = (if c = CHR ''Z'' then Some (Some 0) else None)"
| "parse_offset [sg, h1, h2, c, m1, m2] =
     (case (num [h1, h2] 0, num [m1, m2] 0) of
        (Some h, Some m) \<Rightarrow>
          if c = CHR '':'' \<and> h < 24 \<and> m < 60 \<and> (sg = CHR ''+'' \<or> sg = CHR ''-'')
          then Some (Some ((if sg = CHR ''-'' then -1 else 1) * (h * 60 + m) * 60000000)) else None
      | _ \<Rightarrow> None)"
| "parse_offset _ = None"

definition parse_fraction :: "string \<Rightarrow> (int \<times> string) option" where
  "parse_fraction s =
     (case s of c # rest \<Rightarrow>
        if c = CHR ''.'' then
          (if length (takeWhile is_digit rest) = 6
           then map_option (\<lambda>n. (n, drop 6 rest)) (num (take 6 rest) 0)
           else if length (takeWhile is_digit rest) = 3
           then map_option (\<lambda>n. (n * 1000, drop 3 rest)) (num (take 3 rest) 0) else None)
        else Some (0, s)
      | [] \<Rightarrow> Some (0, []))"

fun parse_time :: "string \<Rightarrow> (int \<times> int option) option" where
  "parse_time (h1 # h2 # c1 # m1 # m2 # c2 # s1 # s2 # rest) =
     (case (num [h1, h2] 0, num [m1, m2] 0, num [s1, s2] 0, parse_fraction rest) of
        (Some h, Some m, Some s, Some (f, tz)) \<Rightarrow>
          if c1 = CHR '':'' \<and> c2 = CHR '':'' \<and> h < 24 \<and> m < 60 \<and> s < 60
          then map_option (\<lambda>off. (((h * 60 + m) * 60 + s) * 1000000 + f, off)) (parse_offset tz) else None
      | _ \<Rightarrow> None)"
| "parse_time _ = None"

fun parse_date :: "string \<Rightarrow> (int \<times> string) option" where
  "parse_date (y1 # y2 # y3 # y4 # c1 # m1 # m2 # c2 # d1 # d2 # rest) =
     (case (num [y1, y2, y3, y4] 0, num [m1, m2] 0, num [d1, d2] 0) of
        (Some y, Some m, Some d) \<Rightarrow>
          if c1 = CHR ''-'' \<and> c2 = CHR ''-'' \<and> valid_date (y, m, d) then Some (ymd2ord (y, m, d), rest) else None
      | _ \<Rightarrow> None)"
| "parse_date _ = None"

definition fromisoformat :: "string \<Rightarrow> datetime option" where
  "fromisoformat s =
     (case parse_date s of
        None \<Rightarrow> None
      | Some (n, rest) \<Rightarrow>
          (case rest of
             [] \<Rightarrow> Some (Naive ((n - EPOCH_ORD) * DAY_US))
           | _ # tm \<Rightarrow>
               (case parse_time tm of
                  None \<Rightarrow> None
                | Some (us, None) \<Rightarrow> Some (Naive ((n - EPOCH_ORD) * DAY_US + us))
                | Some (us, Some off) \<Rightarrow> Some (Aware ((n - EPOCH_ORD) * DAY_US + us - off)))))"

section \<open>Ordinals and dates are inverse\<close>

lemma div_Suc: "0 < k \<Longrightarrow> (p + 1) div k = p div k + (if (p + 1) mod k = 0 then 1 else (0 :: int))"
proof -
  assume k: "0 < k"
  have p: "p = k * (p div k) + p mod k" "0 \<le> p mod k" "p mod k < k" using k by auto
  show ?thesis
  proof (cases "p mod k = k - 1")
    case True
    then have "p + 1 = k * (p div k) + k" using p(1) by linarith
    then have "p + 1 = k * (p div k + 1)" by (simp add: distrib_left)
    then show ?thesis using k by simp
  next
    case False
    then have r: "0 \<le> p mod k + 1" "p mod k + 1 < k" using p by auto
    have "p + 1 = k * (p div k) + (p mod k + 1)" using p(1) by simp
    then have "(p + 1) div k = p div k" "(p + 1) mod k = p mod k + 1"
      using r by (metis div_pos_pos_trivial add.right_neutral div_mult_self4 k order_less_irrefl add.commute,
                  metis mod_mult_self4 mod_pos_pos_trivial)
    then show ?thesis using p(2) by simp
  qed
qed

lemma days_before_next_year: "days_before_year (y + 1) = days_before_year y + (if is_leap y then 366 else 365)"
proof -
  define p where "p = y - 1"
  have y: "y = p + 1" by (simp add: p_def)
  have l: "y mod 400 = 0 \<longrightarrow> y mod 100 = 0" "y mod 100 = 0 \<longrightarrow> y mod 4 = 0" by (simp_all add: y) presburger+
  have "days_before_year (y + 1) = y * 365 + y div 4 - y div 100 + y div 400"
    "days_before_year y = p * 365 + p div 4 - p div 100 + p div 400" by (simp_all add: days_before_year_def p_def Let_def)
  then have "days_before_year (y + 1) = days_before_year y + 365 + (if y mod 4 = 0 then 1 else 0)
     - (if y mod 100 = 0 then 1 else 0) + (if y mod 400 = 0 then 1 else 0)"
    using div_Suc[of 4 p] div_Suc[of 100 p] div_Suc[of 400 p] unfolding y[symmetric] by (simp add: y)
  then show ?thesis using l by (cases "y mod 4 = 0"; cases "y mod 100 = 0"; cases "y mod 400 = 0") (simp_all add: is_leap_def)
qed

lemma year_start:
  assumes "0 \<le> q1" "q1 \<le> 3" "0 \<le> q" "q \<le> 24" "0 \<le> q0" "q0 \<le> 3"
  shows "days_before_year (q4 * 400 + 1 + q1 * 100 + q * 4 + q0) = q4 * 146097 + q1 * 36524 + q * 1461 + q0 * 365"
proof -
  let ?p = "q4 * 400 + q1 * 100 + q * 4 + q0"
  have "?p = (q4 * 100 + q1 * 25 + q) * 4 + q0" "?p = (q4 * 4 + q1) * 100 + (q * 4 + q0)"
    "?p = q4 * 400 + (q1 * 100 + q * 4 + q0)" by simp_all
  then have "?p div 4 = q4 * 100 + q1 * 25 + q" "?p div 100 = q4 * 4 + q1" "?p div 400 = q4"
    using assms by linarith+
  moreover have "q4 * 400 + 1 + q1 * 100 + q * 4 + q0 - 1 = ?p" by simp
  ultimately have "days_before_year (q4 * 400 + 1 + q1 * 100 + q * 4 + q0)
      = ?p * 365 + (q4 * 100 + q1 * 25 + q) - (q4 * 4 + q1) + q4"
    unfolding days_before_year_def Let_def by (simp only:)
  then show ?thesis by simp
qed

lemma year_of_ord_bounds: "days_before_year (year_of_ord n) < n \<and> n \<le> days_before_year (year_of_ord n + 1)"
proof -
  define q4 a where a: "q4 = (n - 1) div 146097" "a = (n - 1) mod 146097"
  define q1 b where b: "q1 = a div 36524" "b = a mod 36524"
  define q c where c: "q = b div 1461" "c = b mod 1461"
  define q0 d where d: "q0 = c div 365" "d = c mod 365"
  have n: "n = q4 * 146097 + a + 1" "a = q1 * 36524 + b" "b = q * 1461 + c" "c = q0 * 365 + d"
    by (simp_all add: a b c d)
  have r: "0 \<le> a" "a < 146097" "0 \<le> b" "b < 36524" "0 \<le> c" "c < 1461" "0 \<le> d" "d < 365" by (simp_all add: a b c d)
  have q: "0 \<le> q1" "q1 \<le> 4" "0 \<le> q" "q \<le> 24" "0 \<le> q0" "q0 \<le> 4" using n r by linarith+
  have yo: "year_of_ord n = q4 * 400 + 1 + q1 * 100 + q * 4 + q0 - (if q0 = 4 \<or> q1 = 4 then 1 else 0)"
    unfolding year_of_ord_def Let_def a[symmetric] b[symmetric] c[symmetric] d[symmetric] by auto
  consider "q1 = 4" | "q1 \<le> 3" "q0 = 4" | "q1 \<le> 3" "q0 \<le> 3" using q by linarith
  then show ?thesis
  proof cases
    case 1
    then have "q = 0" "q0 = 0" "d = 0" using n r q by linarith+
    then have y: "year_of_ord n = q4 * 400 + 1 + 3 * 100 + 24 * 4 + 3" and n': "n = q4 * 146097 + 146097"
      using yo n 1 by simp_all
    have "is_leap (q4 * 400 + 400)" by (simp add: is_leap_def)
    then show ?thesis using year_start[of 3 24 3 q4] days_before_next_year[of "year_of_ord n"] y n' by (simp add: add.commute)
  next
    case 2
    then have d0: "d = 0" "q \<le> 23" using n r q by linarith+
    then have y: "year_of_ord n = q4 * 400 + 1 + q1 * 100 + q * 4 + 3" and n': "n = q4 * 146097 + q1 * 36524 + q * 1461 + 1461"
      using yo n 2 by simp_all
    have e: "year_of_ord n = (q4 * 100 + q1 * 25 + q + 1) * 4" "year_of_ord n = q * 4 + 4 + (q4 * 4 + q1) * 100"
      using y by simp_all
    have "year_of_ord n mod 100 = q * 4 + 4" unfolding e(2) mod_mult_self1 using d0 q by simp
    moreover have "year_of_ord n mod 4 = 0" unfolding e(1) by simp
    ultimately have "is_leap (year_of_ord n)" using q by (simp add: is_leap_def)
    then show ?thesis using year_start[of q1 q 3 q4] days_before_next_year[of "year_of_ord n"] y n' 2 q d0 by simp
  next
    case 3
    then have y: "year_of_ord n = q4 * 400 + 1 + q1 * 100 + q * 4 + q0" using yo by simp
    have s: "days_before_year (year_of_ord n) = q4 * 146097 + q1 * 36524 + q * 1461 + q0 * 365"
      unfolding y by (rule year_start) (use 3 q in simp_all)
    then show ?thesis using days_before_next_year[of "year_of_ord n"] n r by (simp split: if_splits)
  qed
qed

lemma month_lengths_facts:
  "length (month_lengths y) = 12" "list_all (\<lambda>l. 28 \<le> l \<and> l \<le> 31) (month_lengths y)"
  "sum_list (month_lengths y) = (if is_leap y then 366 else 365)"
  by (simp_all add: month_lengths_def)

lemma month_day_spec:
  assumes "ls \<noteq> []" "list_all (\<lambda>l. 0 < l) ls" "0 \<le> n" "n < sum_list ls" "month_day ls n = (m, d)"
  shows "1 \<le> m \<and> m \<le> int (length ls) \<and> 1 \<le> d \<and> d \<le> ls ! nat (m - 1) \<and> sum_list (take (nat (m - 1)) ls) + d = n + 1"
  using assms
proof (induction ls n arbitrary: m d rule: month_day.induct)
  case (3 l l' ls n)
  show ?case
  proof (cases "n < l")
    case True
    then show ?thesis using 3 by auto
  next
    case False
    obtain m' d' where md: "month_day (l' # ls) (n - l) = (m', d')" by fastforce
    have "1 \<le> m' \<and> m' \<le> int (length (l' # ls)) \<and> 1 \<le> d' \<and> d' \<le> (l' # ls) ! nat (m' - 1)
      \<and> sum_list (take (nat (m' - 1)) (l' # ls)) + d' = n - l + 1"
      using 3 False md by (intro 3(1)) auto
    moreover have "m = m' + 1" "d = d'" using 3 False md by auto
    moreover have "1 \<le> m' \<Longrightarrow> nat (m' + 1 - 1) = Suc (nat (m' - 1))" by simp
    ultimately show ?thesis by simp
  qed
qed auto

lemma ord2ymd_spec:
  assumes "ord2ymd n = (y, m, d)"
  shows "y = year_of_ord n \<and> 1 \<le> m \<and> m \<le> 12 \<and> 1 \<le> d \<and> d \<le> days_in_month y m \<and> ymd2ord (y, m, d) = n"
proof -
  have y: "y = year_of_ord n" and md: "month_day (month_lengths y) (n - 1 - days_before_year y) = (m, d)"
    using assms by (auto simp: ord2ymd_def Let_def)
  have b: "0 \<le> n - 1 - days_before_year y" "n - 1 - days_before_year y < sum_list (month_lengths y)"
    using year_of_ord_bounds[of n] days_before_next_year[of y] by (auto simp: y month_lengths_facts)
  have "month_lengths y \<noteq> []" "list_all (\<lambda>l. 0 < l) (month_lengths y)" by (simp_all add: month_lengths_def)
  from month_day_spec[OF this b md] show ?thesis
    by (auto simp: y month_lengths_facts days_in_month_def ymd2ord_def days_before_month_def)
qed

lemma days_before_year_mono: "x \<le> y \<Longrightarrow> days_before_year x \<le> days_before_year y"
  by (induction y rule: int_ge_induct) (simp_all add: days_before_next_year)

lemma year_of_ord_range: "1 \<le> n \<Longrightarrow> n \<le> 3652059 \<Longrightarrow> 1 \<le> year_of_ord n \<and> year_of_ord n \<le> 9999"
proof -
  assume n: "1 \<le> n" "n \<le> 3652059"
  have b: "days_before_year (year_of_ord n) < n" "n \<le> days_before_year (year_of_ord n + 1)" using year_of_ord_bounds[of n] by auto
  have "days_before_year 1 = 0" "days_before_year 10000 = 3652059" by (simp_all add: days_before_year_def Let_def)
  then show ?thesis using days_before_year_mono[of "year_of_ord n + 1" 1] days_before_year_mono[of 10000 "year_of_ord n"] b n
    by (cases "year_of_ord n < 1"; cases "9999 < year_of_ord n") auto
qed

section \<open>ISO text reads back\<close>

lemma dig_char [simp]: "0 \<le> d \<Longrightarrow> d < 10 \<Longrightarrow> dig (digit_char d) = Some d"
  by (simp add: dig_def digit_char_def is_digit_def)

lemma is_digit_char [simp]: "0 \<le> d \<Longrightarrow> d < 10 \<Longrightarrow> is_digit (digit_char d)"
  by (simp add: digit_char_def is_digit_def)

lemma digit_div [simp]: "0 \<le> n \<Longrightarrow> n < 100 \<Longrightarrow> n div 10 < (10 :: int)"
  by simp

lemma num2: "0 \<le> n \<Longrightarrow> n < 100 \<Longrightarrow> num (digit_char (n div 10) # digit_char (n mod 10) # cs) a = num cs (a * 100 + n)"
proof -
  assume "0 \<le> n" "n < 100"
  moreover have "(a * 10 + n div 10) * 10 + n mod 10 = n + 100 * a" by simp
  ultimately show ?thesis by (simp add: ac_simps)
qed

lemma num_digits2 [simp]:
  "0 \<le> n \<Longrightarrow> n < 100 \<Longrightarrow> num [digit_char (n div 10), digit_char (n mod 10)] 0 = Some n"
  using num2[of n "[]" 0] by simp

lemma num_digits4 [simp]:
  "0 \<le> n \<Longrightarrow> n < 10000 \<Longrightarrow>
   num [digit_char (n div 100 div 10), digit_char (n div 100 mod 10), digit_char (n mod 100 div 10), digit_char (n mod 100 mod 10)] 0 = Some n"
  by (subst num2, simp, simp, subst num2) simp_all

lemma num_digits6 [simp]:
  "0 \<le> n \<Longrightarrow> n < 1000000 \<Longrightarrow>
   num [digit_char (n div 10000 div 10), digit_char (n div 10000 mod 10), digit_char (n mod 10000 div 100 div 10),
        digit_char (n mod 10000 div 100 mod 10), digit_char (n mod 10000 mod 100 div 10), digit_char (n mod 10000 mod 100 mod 10)] 0 = Some n"
proof -
  assume n: "0 \<le> n" "n < 1000000"
  have m: "n mod 10000 = (n mod 10000 div 100) * 100 + n mod 10000 mod 100" by simp
  have "((n div 10000) * 100 + n mod 10000 div 100) * 100 + n mod 10000 mod 100 = n" using m by simp
  then show ?thesis using n by (subst num2, simp, simp, subst num2, simp, simp, subst num2) simp_all
qed

lemma digit_not_tz [simp]: "0 \<le> d \<Longrightarrow> d < 10 \<Longrightarrow> digit_char d \<noteq> CHR ''.''"
  using is_digit_char[of d] by (auto simp: is_digit_def)

lemma parse_offset_utc: "parse_offset ''+00:00'' = Some (Some 0)"
  by code_simp

lemma parse_date_iso:
  assumes "valid_date ymd"
  shows "parse_date (date_iso ymd @ rest) = Some (ymd2ord ymd, rest)"
proof -
  obtain y m d where e: "ymd = (y, m, d)" by (cases ymd)
  have "days_in_month y m \<le> 31" by (auto simp: days_in_month_def month_lengths_def nth_Cons split: nat.splits)
  then have "num [digit_char (y div 100 div 10), digit_char (y div 100 mod 10), digit_char (y mod 100 div 10), digit_char (y mod 100 mod 10)] 0 = Some y"
    "num [digit_char (m div 10), digit_char (m mod 10)] 0 = Some m" "num [digit_char (d div 10), digit_char (d mod 10)] 0 = Some d"
    using assms by (simp_all add: e valid_date_def del: num.simps)
  then show ?thesis using assms by (simp add: e date_iso_def digits4_def digits2_def del: num.simps)
qed

lemma parse_time_iso:
  assumes "0 \<le> us" "us < DAY_US"
  shows "parse_time (time_iso us @ ''+00:00'') = Some (us, Some 0)"
proof -
  define s f where sf: "s = us div 1000000" "f = us mod 1000000"
  define h m c where hmc: "h = s div 3600" "m = s div 60 mod 60" "c = s mod 60"
  have s: "0 \<le> s" "s < 86400" using assms by (auto simp: sf DAY_US_def)
  have r: "0 \<le> h" "h < 24" "0 \<le> m" "m < 60" "0 \<le> c" "c < 60" "0 \<le> f" "f < 1000000"
    using s by (auto simp: hmc sf)
  have "s = (h * 60 + m) * 60 + c" using zdiv_zmult2_eq[of 60 s 60] by (simp add: hmc)
  moreover have "s * 1000000 + f = us" by (simp add: sf)
  ultimately have us: "((h * 60 + m) * 60 + c) * 1000000 + f = us" by simp
  have n: "num [digit_char (h div 10), digit_char (h mod 10)] 0 = Some h" "num [digit_char (m div 10), digit_char (m mod 10)] 0 = Some m"
    "num [digit_char (c div 10), digit_char (c mod 10)] 0 = Some c"
    using r by (simp_all del: num.simps)
  let ?frac = "(if f = 0 then [] else ''.'' @ digits2 (f div 10000) @ digits4 (f mod 10000)) @ ''+00:00''"
  have "parse_fraction ?frac = Some (f, ''+00:00'')"
  proof (cases "f = 0")
    case False
    have "\<not> is_digit CHR ''+''" by code_simp
    then show ?thesis using r num_digits6[of f] False
      by (simp add: parse_fraction_def digits2_def digits4_def del: num.simps)
  qed (simp add: parse_fraction_def)
  moreover have "time_iso us @ ''+00:00'' = digit_char (h div 10) # digit_char (h mod 10) # CHR '':'' # digit_char (m div 10)
     # digit_char (m mod 10) # CHR '':'' # digit_char (c div 10) # digit_char (c mod 10) # ?frac"
    unfolding time_iso_def Let_def sf[symmetric] hmc[symmetric] by (simp add: digits2_def)
  ultimately show ?thesis using n r us by (simp add: parse_offset_utc del: num.simps parse_offset.simps)
qed

text \<open>The instants \<open>datetime\<close> can represent: years 1 to 9999.\<close>

definition representable :: "int \<Rightarrow> bool" where
  "representable t \<longleftrightarrow> 1 \<le> ord_of t \<and> ord_of t \<le> 3652059"

lemma isoformat_roundtrip:
  assumes "representable t"
  shows "fromisoformat (isoformat t) = Some (Aware t)"
proof -
  obtain y m d where ymd: "ord2ymd (ord_of t) = (y, m, d)" by (metis prod_cases3)
  note o = ord2ymd_spec[OF ymd]
  then have n: "ymd2ord (y, m, d) = ord_of t" by blast
  have v: "valid_date (y, m, d)" using o year_of_ord_range[of "ord_of t"] assms by (auto simp: valid_date_def representable_def)
  have "0 \<le> t mod DAY_US" "t mod DAY_US < DAY_US" by (simp_all add: DAY_US_def)
  note tm = parse_time_iso[OF this]
  have "(ord_of t - EPOCH_ORD) * DAY_US + t mod DAY_US = t" by (simp add: ord_of_def)
  then show ?thesis using n tm parse_date_iso[OF v, of "''T'' @ time_iso (t mod DAY_US) @ ''+00:00''"]
    by (simp add: fromisoformat_def isoformat_def ymd)
qed

end
