(* ===== verification/Event_Bus.thy ===== *)
theory Event_Bus
  imports Order_Manager Horizons Py_Datetime
begin

text \<open>
  The intraday event bus (\<open>intraday/events.py\<close>) with the re-evaluation cadence it enforces
  (\<open>universe/reeval.py\<close>): publishing with deduplication, the queue of pending events, and the
  rate limit on reanalysis whose state survives restarts as JSON in the day's workflow run.
\<close>

section \<open>Re-evaluation cadence\<close>

definition reeval_seconds_for_horizon :: "string option \<Rightarrow> settings \<Rightarrow> int" where
  "reeval_seconds_for_horizon horizon cfg =
     (let fallback = max 60 (cfg_intraday_min_reeval_seconds cfg)
      in if \<not> truthy_str horizon then fallback
         else (case policy_for (the horizon) of Inr p \<Rightarrow> max 60 (hp_reeval_seconds p) | Inl _ \<Rightarrow> fallback))"

definition min_reeval_seconds_for_symbols :: "string list \<Rightarrow> (string \<times> string) list \<Rightarrow> settings \<Rightarrow> int" where
  "min_reeval_seconds_for_symbols symbols horizons cfg =
     (if symbols = [] then max 60 (cfg_intraday_min_reeval_seconds cfg)
      else (let secs = map (\<lambda>s. reeval_seconds_for_horizon (dget horizons (upper s)) cfg) symbols
            in max 60 (fold min (tl secs) (hd secs))))"

definition symbol_reeval_gap_minutes :: "string \<Rightarrow> (string \<times> string) list \<Rightarrow> settings \<Rightarrow> rat" where
  "symbol_reeval_gap_minutes symbol horizons cfg =
     max 1 (fdiv (of_int (reeval_seconds_for_horizon (dget horizons (upper symbol)) cfg)) 60)"

definition global_reeval_gap_minutes :: "string list \<Rightarrow> (string \<times> string) list \<Rightarrow> settings \<Rightarrow> rat" where
  "global_reeval_gap_minutes symbols horizons cfg =
     max 1 (fdiv (of_int (min_reeval_seconds_for_symbols symbols horizons cfg)) 60)"

definition effective_max_intraday_reanalyses :: "settings \<Rightarrow> int" where
  "effective_max_intraday_reanalyses cfg =
     max 1 (if llm_is_local cfg then cfg_max_intraday_reanalyses_local cfg else cfg_max_intraday_reanalyses cfg)"

definition planned_intraday_interval_minutes :: "string list \<Rightarrow> settings \<Rightarrow> rat option \<Rightarrow> int" where
  "planned_intraday_interval_minutes horizons cfg session_minutes =
     (let fallback = max 1 (cfg_intraday_reevaluation_interval_minutes cfg);
          cleaned = filter (\<lambda>h. h \<noteq> []) horizons;
          secs = map (\<lambda>h. reeval_seconds_for_horizon (Some h) cfg) cleaned;
          horizon_mins = (if cleaned = [] then fallback
                          else max 1 \<lceil>fdiv (of_int (fold min (tl secs) (hd secs))) 60\<rceil>)
      in case session_minutes of
           Some sm \<Rightarrow>
             if 0 < sm \<and> \<not> llm_is_local cfg then
               (let max_jobs = max 4 \<lceil>fmul (of_int (effective_max_intraday_reanalyses cfg)) (3 / 2)\<rceil>;
                    budget = max 1 \<lceil>fdiv sm (of_int max_jobs)\<rceil>
                in max horizon_mins budget)
             else horizon_mins
         | None \<Rightarrow> horizon_mins)"

definition effective_reeval_gap_minutes ::
  "string list \<Rightarrow> (string \<times> string) list \<Rightarrow> settings \<Rightarrow> rat option \<Rightarrow> rat" where
  "effective_reeval_gap_minutes symbols horizons cfg session_minutes =
     (let gap = global_reeval_gap_minutes symbols horizons cfg;
          hs = List.map_filter (\<lambda>s. dget horizons (upper s)) symbols
      in max gap (fl (of_int (planned_intraday_interval_minutes (filter (\<lambda>h. h \<noteq> []) hs) cfg session_minutes))))"

section \<open>The bus\<close>

record intraday_event =
  iev_id :: string
  iev_event_type :: string
  iev_source :: string
  iev_source_event_id :: "string option"
  iev_workflow_run_id :: "string option"
  iev_decision_id :: "string option"
  iev_intent_id :: "string option"
  iev_order_id :: "string option"
  iev_position_id :: "string option"
  iev_symbols :: "string list"
  iev_importance :: string
  iev_detected_at :: int
  iev_effective_at :: int
  iev_expires_at :: int
  iev_deduplication_key :: string
  iev_requires_analysis :: bool
  iev_requires_risk_review :: bool
  iev_requires_execution_review :: bool
  iev_payload :: "(string \<times> payload) list"
  iev_status :: string
  iev_revision :: int
  iev_priority :: int
  iev_bypass_cooldown :: bool

record event_bus =
  eb_events :: "intraday_event list"
  eb_minted :: nat
  eb_reanalysis_times :: "int list"
  eb_symbol_reanalysis :: "(string \<times> int list) list"

definition PRIORITY :: "(string \<times> int) list" where
  "PRIORITY =
     [(''EMERGENCY_STOP_TRIGGERED'', 100), (''RISK_LIMIT_BREACH'', 95), (''STOP_TRIGGERED'', 90),
      (''INVALIDATION_TRIGGERED'', 88), (''TRADING_HALT'', 85), (''DATA_STALE'', 80), (''ORDER_REJECTED'', 75),
      (''TAKE_PROFIT_TRIGGERED'', 70), (''HIGH_IMPORTANCE_NEWS'', 65), (''EARNINGS_RELEASE'', 62),
      (''SEC_MATERIAL_FILING'', 68), (''CLOSING_WINDOW_ENTERED'', 60), (''RISK_LIMIT_WARNING'', 55),
      (''POSITION_CHANGED'', 50), (''BROKER_ORDER_UPDATE'', 45), (''MARKET_DATA_UPDATE'', 20)]"

definition priority_of :: "string \<Rightarrow> int" where
  "priority_of t = (case dget PRIORITY t of Some p \<Rightarrow> p | None \<Rightarrow> 10)"

record EventPublishResult =
  epr_event_id :: string
  epr_status :: string
  epr_priority :: int
  epr_requires_analysis :: bool

record publish_request =
  pub_event_type :: string
  pub_source :: string
  pub_symbols :: "string list option"
  pub_importance :: string
  pub_deduplication_key :: string
  pub_requires_analysis :: bool
  pub_requires_risk_review :: bool
  pub_requires_execution_review :: bool
  pub_payload :: "(string \<times> payload) list option"
  pub_workflow_run_id :: "string option"
  pub_decision_id :: "string option"
  pub_intent_id :: "string option"
  pub_order_id :: "string option"
  pub_position_id :: "string option"
  pub_source_event_id :: "string option"
  pub_bypass_cooldown :: bool

text \<open>\<open>ORDER BY detected_at DESC\<close>: newest first.\<close>

definition newest_first :: "intraday_event list \<Rightarrow> intraday_event list" where
  "newest_first evs = sort_key (\<lambda>e. - iev_detected_at e) evs"

definition newest :: "(intraday_event \<Rightarrow> bool) \<Rightarrow> intraday_event list \<Rightarrow> intraday_event option" where
  "newest P evs = (case newest_first (filter P evs) of [] \<Rightarrow> None | e # _ \<Rightarrow> Some e)"

definition is_actionable :: "intraday_event \<Rightarrow> bool" where
  "is_actionable e \<longleftrightarrow> iev_status e \<in> {''NEW'', ''QUEUED''}"

definition find_duplicate :: "settings \<Rightarrow> int \<Rightarrow> string \<Rightarrow> intraday_event list \<Rightarrow> intraday_event option" where
  "find_duplicate cfg now key evs =
     (let window = seconds (cfg_event_deduplication_window_seconds cfg)
      in case newest (\<lambda>e. iev_deduplication_key e = key \<and> now - window \<le> iev_detected_at e) evs of
           Some e \<Rightarrow> Some e
         | None \<Rightarrow> newest (\<lambda>e. iev_deduplication_key e = key \<and> is_actionable e) evs)"

text \<open>\<open>int(value or 0)\<close> of a JSON value.\<close>

definition int_text :: "string \<Rightarrow> int option" where
  "int_text s = (case split_sign (strip s) of (neg, ds) \<Rightarrow> map_option (\<lambda>v. if neg then - v else v) (digits_val ds))"

fun int_or_zero :: "payload option \<Rightarrow> int py" where
  "int_or_zero (Some (PInt n)) = Inr n"
| "int_or_zero (Some (PNum x)) = Inr (trunc_int x)"
| "int_or_zero (Some (PBool b)) = Inr (if b then 1 else 0)"
| "int_or_zero (Some (PStr s)) =
     (if s = [] then Inr 0
      else case int_text s of Some n \<Rightarrow> Inr n
           | None \<Rightarrow> Inl (ValueError (''invalid literal for int() with base 10: '' @ CHR 0x27 # s @ [CHR 0x27])))"
| "int_or_zero (Some (PStrs xs)) =
     (if xs = [] then Inr 0
      else Inl (TypeError ''int() argument must be a string, a bytes-like object or a real number''))"
| "int_or_zero (Some (PDict d)) =
     (if d = [] then Inr 0
      else Inl (TypeError ''int() argument must be a string, a bytes-like object or a real number''))"
| "int_or_zero (Some (PRaw _)) = Inl (TypeError ''int() argument must be a string, a bytes-like object or a real number'')"
| "int_or_zero _ = Inr 0"

definition put_event :: "intraday_event \<Rightarrow> event_bus \<Rightarrow> event_bus" where
  "put_event e b = b\<lparr>eb_events := map (\<lambda>x. if iev_id x = iev_id e then e else x) (eb_events b)\<rparr>"

definition bump_revision :: "intraday_event \<Rightarrow> intraday_event" where
  "bump_revision e = e\<lparr>iev_revision := (if iev_revision e = 0 then 1 else iev_revision e) + 1\<rparr>"

definition new_event :: "string \<Rightarrow> int \<Rightarrow> publish_request \<Rightarrow> intraday_event" where
  "new_event eid now r =
     \<lparr>iev_id = eid, iev_event_type = pub_event_type r, iev_source = pub_source r,
      iev_source_event_id = pub_source_event_id r, iev_workflow_run_id = pub_workflow_run_id r,
      iev_decision_id = pub_decision_id r, iev_intent_id = pub_intent_id r, iev_order_id = pub_order_id r,
      iev_position_id = pub_position_id r,
      iev_symbols = (case pub_symbols r of Some s \<Rightarrow> s | None \<Rightarrow> []), iev_importance = pub_importance r,
      iev_detected_at = now, iev_effective_at = now, iev_expires_at = now + minutes (6 * 60),
      iev_deduplication_key = pub_deduplication_key r, iev_requires_analysis = pub_requires_analysis r,
      iev_requires_risk_review = pub_requires_risk_review r,
      iev_requires_execution_review = pub_requires_execution_review r,
      iev_payload = (case pub_payload r of Some p \<Rightarrow> p | None \<Rightarrow> []), iev_status = ''NEW'', iev_revision = 1,
      iev_priority = priority_of (pub_event_type r), iev_bypass_cooldown = pub_bypass_cooldown r\<rparr>"

definition publish ::
  "settings \<Rightarrow> (nat \<Rightarrow> string) \<Rightarrow> int \<Rightarrow> publish_request \<Rightarrow> event_bus \<Rightarrow> EventPublishResult py \<times> event_bus" where
  "publish cfg uuid now r b =
     (case find_duplicate cfg now (pub_deduplication_key r) (eb_events b) of
        Some e \<Rightarrow>
          (let e1 = bump_revision e
           in case int_or_zero (dget (iev_payload e) ''dedupe_hits'') of
                Inl err \<Rightarrow> (Inl err, put_event e1 b)
              | Inr h \<Rightarrow>
                  (Inr \<lparr>epr_event_id = iev_id e, epr_status = ''DEDUPLICATED'',
                        epr_priority = priority_of (pub_event_type r),
                        epr_requires_analysis = iev_requires_analysis e\<rparr>,
                   put_event (e1\<lparr>iev_payload := dset (iev_payload e) ''dedupe_hits'' (PInt (h + 1))\<rparr>) b))
      | None \<Rightarrow>
          (let e = new_event (uuid (eb_minted b)) now r
           in (Inr \<lparr>epr_event_id = iev_id e, epr_status = ''NEW'', epr_priority = iev_priority e,
                    epr_requires_analysis = pub_requires_analysis r\<rparr>,
               b\<lparr>eb_events := eb_events b @ [e], eb_minted := Suc (eb_minted b)\<rparr>)))"

definition list_events :: "int \<Rightarrow> event_bus \<Rightarrow> intraday_event list" where
  "list_events n b = take (nat n) (newest_first (eb_events b))"

definition MONITOR_EXECUTED_EVENT_TYPES :: "string list" where
  "MONITOR_EXECUTED_EVENT_TYPES =
     [''STOP_TRIGGERED'', ''MAX_HOLDING_TIME_REACHED'', ''TAKE_PROFIT_TRIGGERED'', ''RISK_LIMIT_BREACH'']"

definition FAKE_SEC_PREFIX :: string where
  "FAKE_SEC_PREFIX = ''sec:0000000000''"

text \<open>\<open>str(value)\<close> of a truthy JSON value, empty for a falsy one; containers are shown by their brackets only.\<close>

fun pay_text :: "payload option \<Rightarrow> string" where
  "pay_text (Some (PStr s)) = s"
| "pay_text (Some (PInt n)) = (if n = 0 then [] else str_int n)"
| "pay_text (Some (PNum x)) = (if x = 0 then [] else str_float x)"
| "pay_text (Some (PBool b)) = (if b then ''True'' else [])"
| "pay_text (Some (PStrs xs)) = (if xs = [] then [] else ''[...]'')"
| "pay_text (Some (PDict d)) = (if d = [] then [] else ''{...}'')"
| "pay_text (Some (PRaw _)) = ''{...}''"
| "pay_text _ = []"

text \<open>Truth value of a JSON value, and \<open>float(value)\<close> on one.\<close>

fun truthy :: "payload option \<Rightarrow> bool" where
  "truthy None = False"
| "truthy (Some PNull) = False"
| "truthy (Some (PBool b)) = b"
| "truthy (Some (PStr s)) = (s \<noteq> [])"
| "truthy (Some (PInt n)) = (n \<noteq> 0)"
| "truthy (Some (PNum x)) = (x \<noteq> 0)"
| "truthy (Some (PStrs l)) = (l \<noteq> [])"
| "truthy (Some (PDict d)) = (d \<noteq> [])"
| "truthy (Some (PRaw r)) = True"

fun to_float :: "payload \<Rightarrow> rat py" where
  "to_float (PNum x) = Inr x"
| "to_float (PInt n) = Inr (fl (of_int n))"
| "to_float (PBool b) = Inr (if b then 1 else 0)"
| "to_float (PStr s) =
     (case parse_float s of Some x \<Rightarrow> Inr x
      | None \<Rightarrow> Inl (ValueError (''could not convert string to float: '' @ CHR 0x27 # s @ [CHR 0x27])))"
| "to_float _ = Inl (TypeError ''float() argument must be a string or a real number'')"

definition escalates :: "string option \<Rightarrow> intraday_event \<Rightarrow> bool" where
  "escalates venue ev \<longleftrightarrow>
     iev_status ev = ''NEW''
     \<and> (iev_requires_analysis ev \<or> iev_requires_execution_review ev \<or> iev_requires_risk_review ev
        \<or> lower (iev_importance ev) \<in> {''high'', ''critical''})
     \<and> (truthy_str venue \<longrightarrow>
          (let book = upper (the venue); ev_venue = pay_text (dget (iev_payload ev) ''venue'')
           in (ev_venue = [] \<or> upper ev_venue = book)
              \<and> \<not> (book = ''AU'' \<and> iev_event_type ev = ''SEC_MATERIAL_FILING'')))
     \<and> \<not> startswith (iev_deduplication_key ev) FAKE_SEC_PREFIX"

definition list_pending_actionable :: "int \<Rightarrow> string option \<Rightarrow> event_bus \<Rightarrow> intraday_event list" where
  "list_pending_actionable n venue b =
     take (nat (max 1 n)) (filter (escalates venue) (list_events (max (n * 3) 40) b))"

definition mark :: "string \<Rightarrow> string \<Rightarrow> event_bus \<Rightarrow> intraday_event option \<times> event_bus" where
  "mark eid st b =
     (case find (\<lambda>e. iev_id e = eid) (eb_events b) of
        None \<Rightarrow> (None, b)
      | Some e \<Rightarrow> (Some (e\<lparr>iev_status := st\<rparr>), put_event (e\<lparr>iev_status := st\<rparr>) b))"

section \<open>The rate limit\<close>

definition gap_minutes :: "int \<Rightarrow> int \<Rightarrow> rat" where
  "gap_minutes now t = fdiv (fl (of_int (now - t) / 10 ^ 6)) 60"





definition record_symbol :: "int \<Rightarrow> (string \<times> int list) list \<Rightarrow> string \<Rightarrow> (string \<times> int list) list" where
  "record_symbol now d s =
     dset d (upper s) ((case dget d (upper s) of Some ts \<Rightarrow> ts | None \<Rightarrow> []) @ [now])"

definition record_reanalysis :: "string list \<Rightarrow> int \<Rightarrow> event_bus \<Rightarrow> event_bus" where
  "record_reanalysis symbols now b =
     b\<lparr>eb_reanalysis_times := eb_reanalysis_times b @ [now],
       eb_symbol_reanalysis := foldl (record_symbol now) (eb_symbol_reanalysis b) symbols\<rparr>"

text \<open>Reading the state back: what a JSON value iterates over, and the instants among it.\<close>

fun iter_texts :: "payload option \<Rightarrow> string list py" where
  "iter_texts (Some (PStrs xs)) = Inr xs"
| "iter_texts (Some (PStr s)) = Inr (map (\<lambda>c. [c]) s)"
| "iter_texts (Some (PDict d)) = Inr (map fst d)"
| "iter_texts (Some (PInt n)) = (if n = 0 then Inr [] else Inl (TypeError ''int object is not iterable''))"
| "iter_texts (Some (PNum x)) = (if x = 0 then Inr [] else Inl (TypeError ''float object is not iterable''))"
| "iter_texts (Some (PBool b)) = (if b then Inl (TypeError ''bool object is not iterable'') else Inr [])"
| "iter_texts _ = Inr []"

definition parse_ts :: "string \<Rightarrow> int option" where
  "parse_ts s = map_option as_utc (fromisoformat s)"

fun load_symbols :: "(string \<times> payload) list \<Rightarrow> (string \<times> int list) list \<Rightarrow> (string \<times> int list) list py" where
  "load_symbols [] d = Inr d"
| "load_symbols ((s, v) # rest) d =
     py_bind (iter_texts (Some v)) (\<lambda>xs.
       let parsed = List.map_filter parse_ts xs
       in load_symbols rest (if parsed = [] then d else dset d (upper s) parsed))"

definition load_reanalysis_state :: "payload option \<Rightarrow> event_bus \<Rightarrow> event_bus py" where
  "load_reanalysis_state raw b =
     (let data = (case raw of Some (PDict d) \<Rightarrow> d | _ \<Rightarrow> [])
      in py_bind (iter_texts (dget data ''global'')) (\<lambda>g.
         py_bind (load_symbols (case dget data ''by_symbol'' of Some (PDict d) \<Rightarrow> d | _ \<Rightarrow> []) []) (\<lambda>m.
           Inr (b\<lparr>eb_reanalysis_times := List.map_filter parse_ts g, eb_symbol_reanalysis := m\<rparr>))))"

definition last_n :: "int \<Rightarrow> 'a list \<Rightarrow> 'a list" where
  "last_n k xs = drop (length xs - nat k) xs"

definition dump_reanalysis_state :: "settings \<Rightarrow> event_bus \<Rightarrow> payload" where
  "dump_reanalysis_state cfg b =
     (let keep = max 20 (effective_max_intraday_reanalyses cfg * 3)
      in PDict [(''global'', PStrs (map isoformat (last_n keep (eb_reanalysis_times b)))),
                (''by_symbol'', PDict (map (\<lambda>(s, ts). (s, PStrs (map isoformat (last_n keep ts)))) (eb_symbol_reanalysis b)))])"

section \<open>At most one open event per key\<close>

datatype bus_call =
    BPublish int publish_request
  | BMark string string

fun bus_effect :: "settings \<Rightarrow> (nat \<Rightarrow> string) \<Rightarrow> bus_call \<Rightarrow> event_bus \<Rightarrow> event_bus" where
  "bus_effect cfg uuid (BPublish now r) b = snd (publish cfg uuid now r b)"
| "bus_effect cfg uuid (BMark eid st) b = snd (mark eid st b)"

fun closes_only :: "bus_call \<Rightarrow> bool" where
  "closes_only (BMark _ st) \<longleftrightarrow> st \<notin> {''NEW'', ''QUEUED''}"
| "closes_only _ \<longleftrightarrow> True"

definition empty_bus :: event_bus where
  "empty_bus = \<lparr>eb_events = [], eb_minted = 0, eb_reanalysis_times = [], eb_symbol_reanalysis = []\<rparr>"

definition open_keys :: "event_bus \<Rightarrow> string list" where
  "open_keys b = map iev_deduplication_key (filter is_actionable (eb_events b))"

definition bus_inv :: "(nat \<Rightarrow> string) \<Rightarrow> event_bus \<Rightarrow> bool" where
  "bus_inv uuid b \<longleftrightarrow>
     distinct (map iev_id (eb_events b)) \<and> set (map iev_id (eb_events b)) \<subseteq> uuid ` {..<eb_minted b} \<and> distinct (open_keys b)"

lemma newest_mem: "newest P evs = Some e \<Longrightarrow> e \<in> set evs \<and> P e"
proof -
  assume "newest P evs = Some e"
  then have "e \<in> set (newest_first (filter P evs))" by (auto simp: newest_def split: list.splits)
  then show ?thesis by (simp add: newest_first_def)
qed

lemma newest_None: "newest P evs = None \<longleftrightarrow> (\<forall>e\<in>set evs. \<not> P e)"
proof -
  have "newest_first (filter P evs) = [] \<longleftrightarrow> filter P evs = []"
    by (metis newest_first_def set_empty set_sort)
  then show ?thesis by (auto simp: newest_def filter_empty_conv split: list.splits)
qed

lemma newest_newest:
  "newest P evs = Some e \<Longrightarrow> x \<in> set evs \<Longrightarrow> P x \<Longrightarrow> iev_detected_at x \<le> iev_detected_at e"
proof -
  assume n: "newest P evs = Some e" and x: "x \<in> set evs" "P x"
  then obtain rest where e: "newest_first (filter P evs) = e # rest" by (auto simp: newest_def split: list.splits)
  have "sorted (map (\<lambda>e. - iev_detected_at e) (e # rest))" unfolding e[symmetric] newest_first_def by simp
  moreover have "x \<in> set (e # rest)" unfolding e[symmetric] newest_first_def using x by simp
  ultimately show ?thesis by auto
qed

lemma find_duplicate_mem:
  "find_duplicate cfg now k evs = Some e \<Longrightarrow> e \<in> set evs \<and> iev_deduplication_key e = k"
  by (auto simp: find_duplicate_def Let_def dest: newest_mem split: option.splits)

lemma find_duplicate_None:
  "find_duplicate cfg now k evs = None \<Longrightarrow> e \<in> set evs \<Longrightarrow> is_actionable e \<Longrightarrow> iev_deduplication_key e \<noteq> k"
  by (auto simp: find_duplicate_def Let_def newest_None split: option.splits)

lemma put_event_ids [simp]: "map iev_id (eb_events (put_event e b)) = map iev_id (eb_events b)"
  by (simp add: put_event_def)

lemma put_event_minted [simp]: "eb_minted (put_event e b) = eb_minted b"
  by (simp add: put_event_def)

text \<open>Rewriting a row that keeps its key and opens nothing new opens no key.\<close>

lemma put_event_open:
  assumes "distinct (map iev_id evs)" "x \<in> set evs" "iev_id e = iev_id x" "iev_deduplication_key e = iev_deduplication_key x"
    and "is_actionable e \<longrightarrow> is_actionable x"
    and "distinct (map iev_deduplication_key (filter is_actionable evs))"
  shows "let new = filter is_actionable (map (\<lambda>y. if iev_id y = iev_id e then e else y) evs)
         in distinct (map iev_deduplication_key new)
            \<and> iev_deduplication_key ` set new \<subseteq> iev_deduplication_key ` set (filter is_actionable evs)"
  using assms
proof (induction evs)
  case (Cons y evs)
  show ?case
  proof (cases "y = x")
    case True
    then have "map (\<lambda>z. if iev_id z = iev_id e then e else z) evs = evs"
      using Cons.prems by (intro map_idI) (auto simp: image_iff)
    then show ?thesis using True Cons.prems by (auto simp: Let_def)
  next
    case False
    then have "iev_id y \<noteq> iev_id e" using Cons.prems by (auto simp: image_iff)
    then show ?thesis using Cons False by (auto simp: Let_def split: if_splits)
  qed
qed simp

lemma put_event_inv:
  assumes "bus_inv uuid b" "x \<in> set (eb_events b)" "iev_id e = iev_id x" "iev_deduplication_key e = iev_deduplication_key x"
    and "is_actionable e \<longrightarrow> is_actionable x"
  shows "bus_inv uuid (put_event e b)"
proof -
  have "distinct (open_keys (put_event e b))"
    using put_event_open[OF _ assms(2-)] assms(1) by (simp add: open_keys_def put_event_def bus_inv_def Let_def)
  then show ?thesis using assms(1) unfolding bus_inv_def put_event_ids put_event_minted by simp
qed

lemma publish_inv:
  assumes "inj uuid" "bus_inv uuid b"
  shows "bus_inv uuid (snd (publish cfg uuid now r b))"
proof (cases "find_duplicate cfg now (pub_deduplication_key r) (eb_events b)")
  case (Some e)
  note m = find_duplicate_mem[OF Some]
  have "bus_inv uuid (put_event (bump_revision e) b)"
    "bus_inv uuid (put_event ((bump_revision e)\<lparr>iev_payload := p\<rparr>) b)" for p
    using m by (auto intro!: put_event_inv[OF assms(2), of e] simp: bump_revision_def is_actionable_def)
  then show ?thesis using Some by (simp add: publish_def Let_def split: sum.splits)
next
  case None
  let ?e = "new_event (uuid (eb_minted b)) now r"
  have "uuid (eb_minted b) \<notin> uuid ` {..<eb_minted b}" using assms(1) by (simp add: inj_image_mem_iff)
  moreover have "iev_deduplication_key ?e \<notin> set (open_keys b)"
    using find_duplicate_None[OF None] by (fastforce simp: open_keys_def new_event_def)
  moreover have "is_actionable ?e" "iev_id ?e = uuid (eb_minted b)" by (simp_all add: is_actionable_def new_event_def)
  ultimately show ?thesis using None assms(2)
    by (auto simp: publish_def Let_def bus_inv_def open_keys_def lessThan_Suc)
qed

lemma mark_inv: "bus_inv uuid b \<Longrightarrow> st \<notin> {''NEW'', ''QUEUED''} \<Longrightarrow> bus_inv uuid (snd (mark eid st b))"
  using find_mem[of "\<lambda>e. iev_id e = eid" "eb_events b"]
  by (cases "find (\<lambda>e. iev_id e = eid) (eb_events b)")
     (auto simp: mark_def is_actionable_def intro!: put_event_inv)

lemma bus_effect_inv: "inj uuid \<Longrightarrow> closes_only c \<Longrightarrow> bus_inv uuid b \<Longrightarrow> bus_inv uuid (bus_effect cfg uuid c b)"
  by (cases c) (simp_all add: publish_inv mark_inv)

text \<open>
  Property C17.  Under every sequence of publications and of marks that close events, at most one event per
  deduplication key is open (new or queued) and event ids never repeat: a stop or a holding limit that
  is detected again while its event is still open never mints a second one.
\<close>

theorem one_open_event_per_key:
  assumes "inj uuid" "list_all closes_only cs"
  shows "let b = fold (bus_effect cfg uuid) cs empty_bus
         in distinct (open_keys b) \<and> distinct (map iev_id (eb_events b))"
proof -
  have "bus_inv uuid b \<Longrightarrow> list_all closes_only cs \<Longrightarrow> bus_inv uuid (fold (bus_effect cfg uuid) cs b)" for b cs
    using assms(1) by (induction cs arbitrary: b) (simp_all add: bus_effect_inv)
  moreover have "bus_inv uuid empty_bus" by (simp add: bus_inv_def empty_bus_def open_keys_def)
  ultimately show ?thesis using assms(2) by (auto simp: bus_inv_def Let_def)
qed

section \<open>The reanalysis state survives a restart\<close>

definition rate_state_ok :: "event_bus \<Rightarrow> bool" where
  "rate_state_ok b \<longleftrightarrow>
     dict_ok (eb_symbol_reanalysis b) \<and> list_all representable (eb_reanalysis_times b)
     \<and> list_all (\<lambda>(s, ts). upper s = s \<and> ts \<noteq> [] \<and> list_all representable ts) (eb_symbol_reanalysis b)"

definition keep_of :: "settings \<Rightarrow> int" where
  "keep_of cfg = max 20 (effective_max_intraday_reanalyses cfg * 3)"

definition bounded_tail :: "settings \<Rightarrow> event_bus \<Rightarrow> event_bus" where
  "bounded_tail cfg b =
     b\<lparr>eb_reanalysis_times := last_n (keep_of cfg) (eb_reanalysis_times b),
       eb_symbol_reanalysis := map (\<lambda>(s, ts). (s, last_n (keep_of cfg) ts)) (eb_symbol_reanalysis b)\<rparr>"

lemma keep_bounds: "20 \<le> keep_of cfg" "effective_max_intraday_reanalyses cfg * 3 \<le> keep_of cfg"
  "1 \<le> effective_max_intraday_reanalyses cfg"
  by (simp_all add: keep_of_def effective_max_intraday_reanalyses_def)

lemma set_last_n: "set (last_n k xs) \<subseteq> set xs"
  by (simp add: last_n_def set_drop_subset)

lemma last_n_Nil [simp]: "last_n k [] = []"
  by (simp add: last_n_def)

lemma last_n_nonempty: "1 \<le> k \<Longrightarrow> last_n k xs = [] \<longleftrightarrow> xs = []"
  by (cases xs) (auto simp: last_n_def)





lemma list_all_last_n: "list_all P xs \<Longrightarrow> list_all P (last_n k xs)"
  using set_last_n[of k xs] by (auto simp: list_all_iff)

lemma parse_isoformat: "list_all representable ts \<Longrightarrow> List.map_filter parse_ts (map isoformat ts) = ts"
  by (induction ts) (simp_all add: map_filter_simps parse_ts_def isoformat_roundtrip)

lemma load_symbols_dump:
  assumes "dict_ok (d0 @ d)" "list_all (\<lambda>(s, ts). upper s = s \<and> ts \<noteq> [] \<and> list_all representable ts) d" "1 \<le> k"
  shows "load_symbols (map (\<lambda>(s, ts). (s, PStrs (map isoformat (last_n k ts)))) d) d0
           = Inr (d0 @ map (\<lambda>(s, ts). (s, last_n k ts)) d)"
  using assms
proof (induction d arbitrary: d0)
  case (Cons p d)
  obtain s ts where p: "p = (s, ts)" by (cases p)
  have fresh: "s \<notin> set (dkeys d0)" and ok: "dict_ok (d0 @ [(s, last_n k ts)] @ d)"
    using Cons.prems(1) p by (auto simp: dict_ok_def dkeys_def)
  have "List.map_filter parse_ts (map isoformat (last_n k ts)) = last_n k ts" "last_n k ts \<noteq> []" "upper s = s"
    using Cons.prems p by (simp_all add: parse_isoformat list_all_last_n last_n_nonempty)
  then show ?case using Cons.IH[of "d0 @ [(s, last_n k ts)]"] Cons.prems ok p by (simp add: dset_fresh[OF fresh])
qed simp

lemma load_dump:
  assumes "rate_state_ok b"
  shows "load_reanalysis_state (Some (dump_reanalysis_state cfg b)) c =
    Inr (c\<lparr>eb_reanalysis_times := eb_reanalysis_times (bounded_tail cfg b),
           eb_symbol_reanalysis := eb_symbol_reanalysis (bounded_tail cfg b)\<rparr>)"
proof -
  have "load_symbols (map (\<lambda>(s, ts). (s, PStrs (map isoformat (last_n (keep_of cfg) ts)))) (eb_symbol_reanalysis b)) []
     = Inr (map (\<lambda>(s, ts). (s, last_n (keep_of cfg) ts)) (eb_symbol_reanalysis b))"
    using assms keep_bounds(1)[of cfg] load_symbols_dump[of "[]"] by (simp add: rate_state_ok_def)
  moreover have "list_all representable (last_n (keep_of cfg) (eb_reanalysis_times b))"
    using assms by (simp add: rate_state_ok_def list_all_last_n)
  ultimately show ?thesis
    by (simp add: load_reanalysis_state_def dump_reanalysis_state_def bounded_tail_def parse_isoformat Let_def
        keep_of_def[symmetric])
qed

text \<open>
  The reanalysis state written to the workflow run's JSON reads back exactly, cut to its most recent
  entries: as many as three times the daily limit, at least twenty, globally and per symbol.
\<close>

theorem reanalysis_state_roundtrip:
  assumes "rate_state_ok b"
  shows "load_reanalysis_state (Some (dump_reanalysis_state cfg b)) empty_bus =
    Inr (empty_bus\<lparr>eb_reanalysis_times := last_n (max 20 (effective_max_intraday_reanalyses cfg * 3)) (eb_reanalysis_times b),
      eb_symbol_reanalysis := map (\<lambda>(s, ts). (s, last_n (max 20 (effective_max_intraday_reanalyses cfg * 3)) ts)) (eb_symbol_reanalysis b)\<rparr>)"
  using load_dump[OF assms, of cfg empty_bus] by (simp add: bounded_tail_def keep_of_def)

section \<open>The rate limit holds across restarts\<close>

text \<open>
  One reanalysis of \<open>intraday/agents.py\<close>: a fresh bus loads the state, asks for permission at the start,
  records at the end and writes the state back.  A run that an event has triggered asks with the bypass set and is
  never refused; it is recorded like any other.
\<close>

record attempt =
  at_start :: int
  at_done :: int
  at_symbols :: "string list"
  at_horizons :: "(string \<times> string) list"
  at_bypass :: bool




definition symbols_of :: "attempt \<Rightarrow> string list" where
  "symbols_of a = map upper (if at_symbols a = [] then [''PORTFOLIO''] else at_symbols a)"


definition on_day :: "int \<Rightarrow> attempt \<Rightarrow> bool" where
  "on_day d a \<longleftrightarrow> at_done a div DAY_US = d"

text \<open>What holds when a run without the bypass starts after the runs \<open>hist\<close>: the day has room for it, and for each of its
  symbols, and every gap the configuration asks for has passed.\<close>

definition admitted :: "settings \<Rightarrow> attempt list \<Rightarrow> attempt \<Rightarrow> bool" where
  "admitted cfg hist a \<longleftrightarrow>
     (let syms = (if at_symbols a = [] then [''PORTFOLIO''] else at_symbols a); today = on_day (at_done a div DAY_US) in
        int (length (filter today hist)) < effective_max_intraday_reanalyses cfg
      \<and> (\<forall>x \<in> set hist. global_reeval_gap_minutes syms (at_horizons a) cfg \<le> gap_minutes (at_start a) (at_done x))
      \<and> (\<forall>s \<in> set syms.
            int (length (filter (\<lambda>x. today x \<and> upper s \<in> set (symbols_of x)) hist)) < cfg_max_symbol_reanalyses_per_day cfg
          \<and> (\<forall>x \<in> set hist. upper s \<in> set (symbols_of x) \<longrightarrow>
                symbol_reeval_gap_minutes s (at_horizons a) cfg \<le> gap_minutes (at_start a) (at_done x))))"

definition rate_limited :: "settings \<Rightarrow> attempt list \<Rightarrow> bool" where
  "rate_limited cfg hist \<longleftrightarrow> (\<forall>xs a ys. hist = xs @ a # ys \<and> \<not> at_bypass a \<longrightarrow> admitted cfg xs a)"

lemma rate_limited_Nil [simp]: "rate_limited cfg []"
  by (simp add: rate_limited_def)









lemma record_state_ok:
  assumes "rate_state_ok b" "representable now"
  shows "rate_state_ok (record_reanalysis ss now b)"
proof -
  have "dict_ok d \<and> list_all (\<lambda>(s, ts). upper s = s \<and> ts \<noteq> [] \<and> list_all representable ts) d \<Longrightarrow>
    dict_ok (foldl (record_symbol now) d ss)
    \<and> list_all (\<lambda>(s, ts). upper s = s \<and> ts \<noteq> [] \<and> list_all representable ts) (foldl (record_symbol now) d ss)" for d
  proof (induction ss arbitrary: d)
    case (Cons s ss)
    have "list_all representable ts" if "dget d (upper s) = Some ts" for ts
      using dget_Some_mem[OF that] Cons.prems by (auto simp: list_all_iff)
    then have "list_all (\<lambda>(s, ts). upper s = s \<and> ts \<noteq> [] \<and> list_all representable ts) (record_symbol now d s)"
      using Cons.prems assms(2)
      by (auto simp: record_symbol_def list_all_iff dest!: dset_mem split: option.splits)
    then show ?case using Cons by (simp add: record_symbol_def)
  qed simp
  then show ?thesis using assms by (simp add: rate_state_ok_def record_reanalysis_def)
qed














section \<open>The pending queue\<close>

lemma newest_first_hd:
  assumes "\<And>x. x \<in> set evs \<Longrightarrow> iev_detected_at x < iev_detected_at e"
  shows "\<exists>rest. newest_first (evs @ [e]) = e # rest"
proof (cases "newest_first (evs @ [e])")
  case Nil
  then show ?thesis by (metis Nil_is_append_conv newest_first_def not_Cons_self2 set_empty set_sort)
next
  case (Cons y ys)
  have e: "e \<in> set (y # ys)" and y: "y \<in> set (evs @ [e])"
    unfolding Cons[symmetric] newest_first_def by (simp_all, metis Cons list.set_intros(1) newest_first_def set_append set_sort list.simps(15) empty_set Un_insert_right sup_bot_right insert_iff)
  have "sorted (map (\<lambda>e. - iev_detected_at e) (y # ys))" unfolding Cons[symmetric] newest_first_def by simp
  then have "iev_detected_at e \<le> iev_detected_at y" using e by auto
  then have "y = e" using y assms by fastforce
  then show ?thesis using Cons by simp
qed

text \<open>
  A freshly published event that asks for analysis, execution review or risk review and is not filtered for
  the book is at the head of that book's pending queue, whatever the queue held; and once it is marked processed it is
  never listed again.
\<close>

theorem published_event_reaches_queue:
  assumes pub: "publish cfg uuid now r b = (Inr res, b')" "epr_status res = ''NEW''"
    and older: "\<And>x. x \<in> set (eb_events b) \<Longrightarrow> iev_detected_at x < now"
    and asks: "pub_requires_analysis r \<or> pub_requires_execution_review r \<or> pub_requires_risk_review r"
    and book: "pub_payload r = Some [(''venue'', PStr v)]" "v = [] \<or> upper v = upper w" "w \<noteq> []"
    and kept: "\<not> (upper w = ''AU'' \<and> pub_event_type r = ''SEC_MATERIAL_FILING'')"
      "\<not> startswith (pub_deduplication_key r) FAKE_SEC_PREFIX"
  shows "(\<exists>e rest. list_pending_actionable n (Some w) b' = e # rest \<and> iev_id e = epr_event_id res)
    \<and> (\<forall>st b'' m venue. st \<noteq> ''NEW'' \<and> mark (epr_event_id res) st b' = (Some b'', m)
        \<longrightarrow> epr_event_id res \<notin> set (map iev_id (list_pending_actionable n venue m)))"
proof -
  have nodup: "find_duplicate cfg now (pub_deduplication_key r) (eb_events b) = None"
    using pub by (auto simp: publish_def Let_def split: option.splits sum.splits)
  let ?e = "new_event (uuid (eb_minted b)) now r"
  have b': "eb_events b' = eb_events b @ [?e]" and res: "epr_event_id res = iev_id ?e"
    using pub(1) nodup by (auto simp: publish_def Let_def)
  obtain rest where hd: "newest_first (eb_events b') = ?e # rest"
    using newest_first_hd[of "eb_events b" ?e] older by (auto simp: b' new_event_def)
  have esc: "escalates (Some w) ?e"
    using asks book kept by (auto simp: escalates_def new_event_def truthy_str_def Let_def)
  have "\<exists>t. list_events (max (n * 3) 40) b' = ?e # t"
    by (simp add: list_events_def hd take_Cons' )
  then obtain t where "list_events (max (n * 3) 40) b' = ?e # t" by blast
  then have "list_pending_actionable n (Some w) b' = ?e # take (nat (max 1 n) - 1) (filter (escalates (Some w)) t)"
    using esc by (simp add: list_pending_actionable_def take_Cons')
  moreover have "iev_id x \<noteq> eid" if h: "st \<noteq> ''NEW''" "mark eid st b' = (Some e'', m)" "x \<in> set (list_pending_actionable n venue m)" for st e'' m venue x eid
  proof
    assume x: "iev_id x = eid"
    obtain y where y: "find (\<lambda>e. iev_id e = eid) (eb_events b') = Some y" "m = put_event (y\<lparr>iev_status := st\<rparr>) b'"
      using h(2) by (auto simp: mark_def split: option.splits)
    have "x \<in> set (eb_events m)" "iev_status x = ''NEW''"
      using h(3) by (auto simp: list_pending_actionable_def list_events_def newest_first_def escalates_def dest!: in_set_takeD)
    moreover have "iev_id y = eid" using y(1) by (auto simp: find_Some_iff)
    ultimately show False using y(2) x h(1) by (auto simp: put_event_def split: if_splits)
  qed
  ultimately show ?thesis using res by fastforce
qed

section \<open>A sample session\<close>

definition sample_event :: publish_request where
  "sample_event =
     \<lparr>pub_event_type = ''STOP_TRIGGERED'', pub_source = ''monitor'', pub_symbols = Some [''SPY''], pub_importance = ''high'',
      pub_deduplication_key = ''stop:SPY'', pub_requires_analysis = True, pub_requires_risk_review = False,
      pub_requires_execution_review = True, pub_payload = Some [(''venue'', PStr ''US'')], pub_workflow_run_id = None,
      pub_decision_id = None, pub_intent_id = None, pub_order_id = None, pub_position_id = None,
      pub_source_event_id = None, pub_bypass_cooldown = False\<rparr>"

theorem one_open_event_per_key_witness:
  "let b = fold (bus_effect default_settings sample_uuid)
       [BPublish 0 sample_event, BPublish 400000000 sample_event, BMark ''id-0'' ''PROCESSED'', BPublish 900000000 sample_event] empty_bus
   in distinct (open_keys b) \<and> distinct (map iev_id (eb_events b))"
  by (rule one_open_event_per_key[OF sample_uuid_inj]) simp

theorem published_event_reaches_queue_witness:
  "\<exists>res b'. publish default_settings sample_uuid 5 sample_event empty_bus = (Inr res, b')
     \<and> epr_event_id res \<in> set (map iev_id (list_pending_actionable 40 (Some ''US'') b'))"
proof -
  obtain res b' where p: "publish default_settings sample_uuid 5 sample_event empty_bus = (Inr res, b')" "epr_status res = ''NEW''"
    by (simp add: publish_def find_duplicate_def newest_def newest_first_def empty_bus_def Let_def)
  have "\<exists>e rest. list_pending_actionable 40 (Some ''US'') b' = e # rest \<and> iev_id e = epr_event_id res"
    by (rule conjunct1, rule published_event_reaches_queue[OF p, where v = "''US''"])
      (simp_all add: sample_event_def empty_bus_def startswith_def FAKE_SEC_PREFIX_def)
  then show ?thesis using p(1) by fastforce
qed





theorem reanalysis_state_roundtrip_witness:
  "load_reanalysis_state (Some (dump_reanalysis_state default_settings (record_reanalysis [''SPY''] 30000001 empty_bus))) empty_bus
     = Inr (record_reanalysis [''SPY''] 30000001 empty_bus)"
proof -
  have up: "upper ''SPY'' = ''SPY''" by code_simp
  have "representable 30000001" by code_simp
  then have ok: "rate_state_ok (record_reanalysis [''SPY''] 30000001 empty_bus)"
    by (intro record_state_ok) (simp_all add: rate_state_ok_def empty_bus_def)
  show ?thesis unfolding reanalysis_state_roundtrip[OF ok]
    by (simp add: record_reanalysis_def record_symbol_def empty_bus_def last_n_def up)
qed

end
