(* ===== verification/Broker_Sync.thy ===== *)
theory Broker_Sync
  imports Event_Bus
begin

text \<open>
  Keeping the local tables in step with the broker: the reconciliation of open orders
  (\<open>execution/reconciliation.py\<close>) and the polling of order updates (\<open>intraday/broker_updates.py\<close>).
  The back office holds the desk, the reconciliation runs, the order-event journal and the event bus.
  A set the code iterates over is taken in the order its elements appear.
\<close>

section \<open>State\<close>

datatype recon_issue =
    BrokerFailure string
  | LocalMissingRemote string
  | EmptyRemote int int
  | StaleCleared int int
  | RemoteMissingLocal string

fun issue_type :: "recon_issue \<Rightarrow> string" where
  "issue_type (BrokerFailure _) = []"
| "issue_type (LocalMissingRemote _) = ''local_order_missing_remote''"
| "issue_type (EmptyRemote _ _) = ''empty_remote_open_orders''"
| "issue_type (StaleCleared _ _) = ''stale_local_open_cleared''"
| "issue_type (RemoteMissingLocal _) = ''remote_order_missing_local''"

record recon_run =
  rn_id :: string
  rn_sync_type :: string
  rn_result :: string
  rn_issues :: "recon_issue list"
  rn_payload :: "(string \<times> payload) list"

record BrokerBook =
  bk_orders :: "OrderResult list"
  bk_positions :: "(string \<times> payload) list list"
  bk_account :: "(string \<times> payload) list"

record order_event =
  oe_id :: string
  oe_order_id :: string
  oe_broker_order_id :: "string option"
  oe_event_type :: string
  oe_broker_status :: string
  oe_event_at :: int
  oe_payload :: "(string \<times> payload) list"

record 'b back_office =
  bo_desk :: "'b desk"
  bo_runs :: "recon_run list"
  bo_order_events :: "order_event list"
  bo_bus :: event_bus

definition fresh_id :: "(nat \<Rightarrow> string) \<Rightarrow> 'b desk \<Rightarrow> string \<times> 'b desk" where
  "fresh_id uuid dk = (uuid (dk_ids_used dk), dk\<lparr>dk_ids_used := Suc (dk_ids_used dk)\<rparr>)"

section \<open>Reconciliation\<close>

definition EMPTY_REMOTE_STREAK_CLOSE_LOCAL :: int where
  "EMPTY_REMOTE_STREAK_CLOSE_LOCAL = 3"

definition REMOTE_STATUS_TO_LOCAL :: "(string \<times> string) list" where
  "REMOTE_STATUS_TO_LOCAL =
     [(''new'', ''ACCEPTED''), (''accepted'', ''ACCEPTED''), (''pending_new'', ''SUBMITTED''),
      (''partially_filled'', ''PARTIALLY_FILLED''), (''filled'', ''FILLED''), (''canceled'', ''CANCELLED''),
      (''cancelled'', ''CANCELLED''), (''rejected'', ''REJECTED''), (''expired'', ''EXPIRED'')]"

definition remote_status_value :: "OrderResult \<Rightarrow> string" where
  "remote_status_value r = lower (status_value (res_status r))"

definition local_status :: "OrderResult \<Rightarrow> string" where
  "local_status r =
     (case dget REMOTE_STATUS_TO_LOCAL (remote_status_value r) of Some s \<Rightarrow> s | None \<Rightarrow> ''ACCEPTED'')"

text \<open>\<open>_fields_from_remote\<close> and the row it is adopted as.\<close>

definition adopted_row :: "string \<Rightarrow> int \<Rightarrow> OrderResult \<Rightarrow> order_row" where
  "adopted_row rid now r =
     (let raw = res_raw r;
          sd = lower (if raw_side raw = [] then ''buy'' else raw_side raw)
      in \<lparr>ord_id = rid, ord_broker_order_id = Some (res_broker_order_id r),
          ord_idempotency_key = ''adopted:'' @ res_broker_order_id r,
          ord_symbol = take 32 (upper (if raw_symbol raw = [] then ''UNKNOWN'' else raw_symbol raw)),
          ord_side = (if sd \<in> {''buy'', ''sell''} then sd else ''buy''),
          ord_qty = (if raw_qty raw \<noteq> 0 then raw_qty raw else res_filled_qty r),
          ord_order_type = take 32 (canonical_order_type
            (if truthy_str (raw_order_type raw) then raw_order_type raw else Some (raw_type raw)) ''market''),
          ord_limit_price = None, ord_stop_price = None, ord_status = local_status r, ord_decision_id = None,
          ord_submitted_at = Some (res_submitted_at r), ord_created_at = now,
          ord_raw_payload = [(''adopted'', PBool True), (''broker'', PRaw raw)]\<rparr>)"

definition has_broker_id :: "string \<Rightarrow> 'b desk \<Rightarrow> bool" where
  "has_broker_id oid dk \<longleftrightarrow> oid \<in> set (List.map_filter ord_broker_order_id (dk_orders dk))"

definition known_broker_order_ids :: "string list \<Rightarrow> 'b desk \<Rightarrow> string list" where
  "known_broker_order_ids remote_ids dk = filter (\<lambda>oid. has_broker_id oid dk) remote_ids"

text \<open>The flush at the end enforces the unique constraint on the idempotency key.\<close>

definition adopt_remote_orders :: "(nat \<Rightarrow> string) \<Rightarrow> int \<Rightarrow> OrderResult list \<Rightarrow> 'b desk \<Rightarrow> int py \<times> 'b desk" where
  "adopt_remote_orders uuid now remotes dk =
     (let rs = filter (\<lambda>r. res_broker_order_id r \<noteq> []) remotes; n = dk_ids_used dk;
          rows = map (\<lambda>(i, r). adopted_row (uuid (n + i)) now r) (List.enumerate 0 rs);
          orders = dk_orders dk @ rows
      in if distinct (map ord_idempotency_key rows)
            \<and> set (map ord_idempotency_key rows) \<inter> set (map ord_idempotency_key (dk_orders dk)) = {}
         then (Inr (int (length rs)), dk\<lparr>dk_orders := orders, dk_ids_used := n + length rs\<rparr>)
         else (Inl (IntegrityError ''uq_orders_idempotency_key''), dk))"

fun streak_of :: "recon_run list \<Rightarrow> int" where
  "streak_of [] = 0"
| "streak_of (r # rs) =
     (let kinds = set (map issue_type (rn_issues r))
      in if ''stale_local_open_cleared'' \<in> kinds then 0
         else if ''empty_remote_open_orders'' \<in> kinds then 1 + streak_of rs else 0)"

definition prior_empty_remote_streak :: "recon_run list \<Rightarrow> int" where
  "prior_empty_remote_streak runs = streak_of (take 8 (rev runs))"

definition close_stale :: "order_row \<Rightarrow> order_row" where
  "close_stale r =
     r\<lparr>ord_status := os_value OS_CANCELLED,
       ord_raw_payload := dset (ord_raw_payload r) ''recon'' (PDict [(''empty_remote_streak'', PBool True)])\<rparr>"

definition close_stale_local_opens :: "order_row list \<Rightarrow> 'b desk \<Rightarrow> int \<times> 'b desk" where
  "close_stale_local_opens rows dk = (int (length rows), fold (\<lambda>r. put_order (close_stale r)) rows dk)"

record recon_report =
  rp_result :: string
  rp_issues :: "recon_issue list"
  rp_id :: string
  rp_blocks_new_orders :: "bool option"
  rp_adopted_orders :: "int option"

definition material :: "recon_issue \<Rightarrow> bool" where
  "material i \<longleftrightarrow> startswith (issue_type i) ''remote_'' \<or> startswith (issue_type i) ''local_''"

definition recon_result :: "recon_issue list \<Rightarrow> ReconciliationResult" where
  "recon_result issues =
     (if issues = [] then IN_SYNC else if list_ex material issues then MATERIAL_DRIFT else MINOR_DRIFT)"

text \<open>The comparison: local working orders against the snapshot, with the handling of an empty one.\<close>

definition compare_books ::
  "recon_run list \<Rightarrow> OrderResult list \<Rightarrow> string list \<Rightarrow> 'b desk \<Rightarrow> recon_issue list \<times> 'b desk" where
  "compare_books runs remote_orders remote_ids dk =
     (let local_open = filter is_working (dk_orders dk);
          local_ids = remdups (filter (\<lambda>i. i \<noteq> []) (List.map_filter ord_broker_order_id local_open))
      in if remote_orders \<noteq> []
         then (map LocalMissingRemote (filter (\<lambda>i. i \<notin> set remote_ids) local_ids), dk)
         else if local_ids = [] then ([], dk)
         else (let streak = prior_empty_remote_streak runs + 1
               in if EMPTY_REMOTE_STREAK_CLOSE_LOCAL \<le> streak
                  then (case close_stale_local_opens local_open dk of (k, dk') \<Rightarrow> ([StaleCleared k streak], dk'))
                  else ([EmptyRemote (int (length local_ids)) streak], dk)))"

definition book_ids :: "BrokerBook \<Rightarrow> string list" where
  "book_ids book = remdups (filter (\<lambda>i. i \<noteq> []) (map res_broker_order_id (bk_orders book)))"

definition to_adopt :: "BrokerBook \<Rightarrow> 'b desk \<Rightarrow> OrderResult list" where
  "to_adopt book dk =
     (let known = known_broker_order_ids (book_ids book) dk
      in filter (\<lambda>r. res_broker_order_id r \<notin> set known \<and> res_broker_order_id r \<noteq> []) (bk_orders book))"

definition reconcile ::
  "(nat \<Rightarrow> string) \<Rightarrow> int \<Rightarrow> string \<Rightarrow> BrokerBook py \<Rightarrow> 'b back_office \<Rightarrow> recon_report py \<times> 'b back_office" where
  "reconcile uuid now sync_type fetched bo =
     (case fetched of
        Inl e \<Rightarrow>
          (case fresh_id uuid (bo_desk bo) of (rid, dk) \<Rightarrow>
             (let iss = [BrokerFailure (take 300 (err_str e))]
              in (Inr \<lparr>rp_result = rr_value BROKER_UNAVAILABLE, rp_issues = iss, rp_id = rid,
                       rp_blocks_new_orders = None, rp_adopted_orders = None\<rparr>,
                  bo\<lparr>bo_desk := dk,
                     bo_runs := bo_runs bo @ [\<lparr>rn_id = rid, rn_sync_type = sync_type,
                       rn_result = rr_value BROKER_UNAVAILABLE, rn_issues = iss, rn_payload = []\<rparr>]\<rparr>)))
      | Inr book \<Rightarrow>
          (let remote_ids = book_ids book
           in case adopt_remote_orders uuid now (to_adopt book (bo_desk bo)) (bo_desk bo) of
                (Inl e, _) \<Rightarrow> (Inl e, bo)
              | (Inr adopted, dk1) \<Rightarrow>
                  (case compare_books (bo_runs bo) (bk_orders book) remote_ids dk1 of (iss1, dk2) \<Rightarrow>
                     (let known' = known_broker_order_ids remote_ids dk1;
                          iss = iss1 @ map RemoteMissingLocal (filter (\<lambda>i. i \<notin> set known') remote_ids);
                          res = recon_result iss
                      in case fresh_id uuid dk2 of (rid, dk3) \<Rightarrow>
                           (Inr \<lparr>rp_result = rr_value res, rp_issues = iss, rp_id = rid,
                                 rp_blocks_new_orders = Some (res = MATERIAL_DRIFT), rp_adopted_orders = Some adopted\<rparr>,
                            bo\<lparr>bo_desk := dk3,
                               bo_runs := bo_runs bo @ [\<lparr>rn_id = rid, rn_sync_type = sync_type, rn_result = rr_value res,
                                 rn_issues = iss,
                                 rn_payload =
                                   [(''account_cash'', case dget (bk_account book) ''cash'' of Some v \<Rightarrow> v | None \<Rightarrow> PNull),
                                    (''remote_open_orders'', PInt (int (length (bk_orders book)))),
                                    (''remote_positions'', PInt (int (length (bk_positions book)))),
                                    (''adopted_orders'', PInt adopted), (''as_of'', PStr (isoformat now))]\<rparr>]\<rparr>)))))"

section \<open>Polling of order updates\<close>

definition STATUS_MAP :: "(string \<times> InternalOrderState) list" where
  "STATUS_MAP =
     [(''new'', OS_ACCEPTED), (''accepted'', OS_ACCEPTED), (''pending_new'', OS_SUBMITTED),
      (''partially_filled'', OS_PARTIALLY_FILLED), (''filled'', OS_FILLED), (''canceled'', OS_CANCELLED),
      (''cancelled'', OS_CANCELLED), (''pending_cancel'', OS_CANCEL_PENDING), (''pending_replace'', OS_REPLACE_PENDING),
      (''replaced'', OS_REPLACED), (''rejected'', OS_REJECTED), (''expired'', OS_EXPIRED), (''unknown'', OS_UNKNOWN)]"

definition mapped_state :: "string \<Rightarrow> InternalOrderState" where
  "mapped_state raw = (case dget STATUS_MAP (lower raw) of Some s \<Rightarrow> s | None \<Rightarrow> OS_UNKNOWN)"

definition TERMINAL_STATUSES :: "string list" where
  "TERMINAL_STATUSES = map os_value [OS_FILLED, OS_CANCELLED, OS_REJECTED, OS_EXPIRED, OS_REPLACED]"

fun update_event_type :: "InternalOrderState \<Rightarrow> string" where
  "update_event_type OS_FILLED = ''ORDER_FILLED''"
| "update_event_type OS_PARTIALLY_FILLED = ''ORDER_PARTIALLY_FILLED''"
| "update_event_type OS_CANCELLED = ''ORDER_CANCELLED''"
| "update_event_type OS_REJECTED = ''ORDER_REJECTED''"
| "update_event_type _ = ''BROKER_ORDER_UPDATE''"

definition str_opt :: "string option \<Rightarrow> string" where
  "str_opt x = (case x of Some s \<Rightarrow> s | None \<Rightarrow> ''None'')"

definition update_request :: "order_row \<Rightarrow> InternalOrderState \<Rightarrow> publish_request" where
  "update_request row m =
     \<lparr>pub_event_type = update_event_type m, pub_source = ''broker_update'', pub_symbols = Some [ord_symbol row],
      pub_importance = ''medium'',
      pub_deduplication_key = ''order:'' @ str_opt (ord_broker_order_id row) @ '':'' @ os_value m,
      pub_requires_analysis = False, pub_requires_risk_review = False,
      pub_requires_execution_review = (m \<in> {OS_REJECTED, OS_UNKNOWN}),
      pub_payload = Some [(''status'', PStr (os_value m))], pub_workflow_run_id = None, pub_decision_id = None,
      pub_intent_id = None, pub_order_id = Some (ord_id row), pub_position_id = None, pub_source_event_id = None,
      pub_bypass_cooldown = False\<rparr>"

definition journal ::
  "(nat \<Rightarrow> string) \<Rightarrow> order_row \<Rightarrow> string \<Rightarrow> OrderResult \<Rightarrow> 'b back_office \<Rightarrow> 'b back_office" where
  "journal uuid row raw_status remote bo =
     (case fresh_id uuid (bo_desk bo) of (eid, dk) \<Rightarrow>
        bo\<lparr>bo_desk := dk,
           bo_order_events := bo_order_events bo @
             [\<lparr>oe_id = eid, oe_order_id = ord_id row, oe_broker_order_id = ord_broker_order_id row,
               oe_event_type = lower raw_status, oe_broker_status = raw_status, oe_event_at = res_submitted_at remote,
               oe_payload = [(''filled_qty'', PNum (res_filled_qty remote)),
                             (''avg_fill_price'', case res_avg_fill_price remote of Some p \<Rightarrow> PNum p | None \<Rightarrow> PNull)]\<rparr>]\<rparr>)"

definition set_row :: "order_row \<Rightarrow> 'b back_office \<Rightarrow> 'b back_office" where
  "set_row row bo = bo\<lparr>bo_desk := put_order row (bo_desk bo)\<rparr>"

definition apply_remote_status ::
  "settings \<Rightarrow> (nat \<Rightarrow> string) \<Rightarrow> int \<Rightarrow> order_row \<Rightarrow> string \<Rightarrow> OrderResult \<Rightarrow> 'b back_office \<Rightarrow> string py \<times> 'b back_office" where
  "apply_remote_status cfg uuid now row raw_status remote bo =
     (let m = mapped_state raw_status
      in if ord_status row = os_value m then (Inr ''unchanged'', bo)
         else
           (let bo1 = journal uuid row raw_status remote bo
            in if ord_status row \<in> set TERMINAL_STATUSES \<and> os_value m \<notin> set TERMINAL_STATUSES then (Inr ''stale'', bo1)
               else (case (case order_state_of (ord_status row) of Inl _ \<Rightarrow> Inr () | Inr s \<Rightarrow> assert_order_transition s m) of
                       Inl _ \<Rightarrow>
                         (Inr ''reconciliation'',
                          set_row (row\<lparr>ord_raw_payload := dset (ord_raw_payload row) ''illegal_transition_observed'' (PBool True),
                                       ord_status := os_value OS_RECONCILIATION_REQUIRED\<rparr>) bo1)
                     | Inr _ \<Rightarrow>
                         (let bo2 = set_row (row\<lparr>ord_status := os_value m\<rparr>) bo1
                          in case publish cfg uuid now (update_request row m) (bo_bus bo2) of
                               (Inl e, bus) \<Rightarrow> (Inl e, bo2\<lparr>bo_bus := bus\<rparr>)
                             | (Inr _, bus) \<Rightarrow> (Inr ''updated'', bo2\<lparr>bo_bus := bus\<rparr>)))))"

record poll_report =
  pl_updated :: int
  pl_skipped_stale :: int
  pl_skipped_unchanged :: int

fun count_outcome :: "string \<Rightarrow> poll_report \<Rightarrow> poll_report" where
  "count_outcome st rep =
     (if st = ''updated'' then rep\<lparr>pl_updated := pl_updated rep + 1\<rparr>
      else if st = ''stale'' then rep\<lparr>pl_skipped_stale := pl_skipped_stale rep + 1\<rparr>
      else if st = ''unchanged'' then rep\<lparr>pl_skipped_unchanged := pl_skipped_unchanged rep + 1\<rparr>
      else rep)"

definition remote_for :: "'b broker_api \<Rightarrow> OrderResult list \<Rightarrow> string \<Rightarrow> 'b \<Rightarrow> OrderResult option" where
  "remote_for api remote_orders oid br =
     (case find (\<lambda>r. res_broker_order_id r = oid) (rev remote_orders) of
        Some r \<Rightarrow> Some r
      | None \<Rightarrow> (case api_get_order api oid br of Inr r \<Rightarrow> Some r | Inl _ \<Rightarrow> None))"

fun poll_rows ::
  "'b broker_api \<Rightarrow> settings \<Rightarrow> (nat \<Rightarrow> string) \<Rightarrow> int \<Rightarrow> OrderResult list \<Rightarrow> order_row list \<Rightarrow> poll_report \<Rightarrow> 'b back_office
   \<Rightarrow> poll_report py \<times> 'b back_office" where
  "poll_rows api cfg uuid now remotes [] rep bo = (Inr rep, bo)"
| "poll_rows api cfg uuid now remotes (row # rows) rep bo =
     (if \<not> truthy_str (ord_broker_order_id row) then poll_rows api cfg uuid now remotes rows rep bo
      else (case remote_for api remotes (the (ord_broker_order_id row)) (dk_broker (bo_desk bo)) of
              None \<Rightarrow> poll_rows api cfg uuid now remotes rows rep bo
            | Some remote \<Rightarrow>
                (case apply_remote_status cfg uuid now row (status_value (res_status remote)) remote bo of
                   (Inl e, bo') \<Rightarrow> (Inl e, bo')
                 | (Inr st, bo') \<Rightarrow> poll_rows api cfg uuid now remotes rows (count_outcome st rep) bo')))"

definition minute_stamp :: "int \<Rightarrow> string" where
  "minute_stamp t =
     (case ord2ymd (ord_of t) of (y, m, d) \<Rightarrow>
        (let s = t mod DAY_US div 1000000
         in digits4 y @ digits2 m @ digits2 d @ digits2 (s div 3600) @ digits2 (s div 60 mod 60)))"

definition poll_failure :: "int \<Rightarrow> string \<Rightarrow> publish_request" where
  "poll_failure now msg =
     \<lparr>pub_event_type = ''DATA_STALE'', pub_source = ''broker_poll'', pub_symbols = None, pub_importance = ''high'',
      pub_deduplication_key = ''broker_poll_fail:'' @ minute_stamp now, pub_requires_analysis = False,
      pub_requires_risk_review = True, pub_requires_execution_review = False, pub_payload = Some [(''error'', PStr msg)],
      pub_workflow_run_id = None, pub_decision_id = None, pub_intent_id = None, pub_order_id = None,
      pub_position_id = None, pub_source_event_id = None, pub_bypass_cooldown = True\<rparr>"

text \<open>The report, or the message of the failed fetch.\<close>

definition poll_and_apply ::
  "'b broker_api \<Rightarrow> settings \<Rightarrow> (nat \<Rightarrow> string) \<Rightarrow> int \<Rightarrow> OrderResult list py \<Rightarrow> 'b back_office
   \<Rightarrow> (string + poll_report) py \<times> 'b back_office" where
  "poll_and_apply api cfg uuid now fetched bo =
     (case fetched of
        Inl e \<Rightarrow>
          (let msg = take 200 (err_str e)
           in case publish cfg uuid now (poll_failure now msg) (bo_bus bo) of
                (Inl e', bus) \<Rightarrow> (Inl e', bo\<lparr>bo_bus := bus\<rparr>)
              | (Inr _, bus) \<Rightarrow> (Inr (Inl msg), bo\<lparr>bo_bus := bus\<rparr>))
      | Inr remotes \<Rightarrow>
          (case poll_rows api cfg uuid now remotes (filter is_working (dk_orders (bo_desk bo)))
                  \<lparr>pl_updated = 0, pl_skipped_stale = 0, pl_skipped_unchanged = 0\<rparr> bo of
             (Inl e, bo') \<Rightarrow> (Inl e, bo')
           | (Inr rep, bo') \<Rightarrow> (Inr (Inr rep), bo')))"

section \<open>What a reconciliation finds\<close>

abbreviation orders_of :: "'b back_office \<Rightarrow> order_row list" where
  "orders_of bo \<equiv> dk_orders (bo_desk bo)"

definition working_ids :: "'b back_office \<Rightarrow> string set" where
  "working_ids bo = {oid. oid \<noteq> [] \<and> (\<exists>r \<in> set (orders_of bo). is_working r \<and> ord_broker_order_id r = Some oid)}"

definition remote_ids_of :: "BrokerBook \<Rightarrow> string set" where
  "remote_ids_of book = {i \<in> res_broker_order_id ` set (bk_orders book). i \<noteq> []}"

text \<open>An adopted row keeps the broker id its key was made from.\<close>

definition adoption_ok :: "'b back_office \<Rightarrow> bool" where
  "adoption_ok bo \<longleftrightarrow>
     (\<forall>r \<in> set (orders_of bo). \<forall>oid. ord_idempotency_key r = ''adopted:'' @ oid \<longrightarrow> ord_broker_order_id r = Some oid)"

lemma map_filter_mem: "y \<in> set (List.map_filter f xs) \<longleftrightarrow> (\<exists>x \<in> set xs. f x = Some y)"
  by (auto simp: List.map_filter_def image_iff intro: rev_image_eqI)

lemma local_ids_set:
  "set (remdups (filter (\<lambda>i. i \<noteq> []) (List.map_filter ord_broker_order_id (filter is_working (dk_orders dk))))) =
   {oid. oid \<noteq> [] \<and> (\<exists>r \<in> set (dk_orders dk). is_working r \<and> ord_broker_order_id r = Some oid)}"
  by (auto simp: map_filter_mem)

lemma adopted_rows:
  assumes "adopt_remote_orders uuid now remotes dk = (Inr n, dk')" "\<forall>r \<in> set remotes. res_broker_order_id r \<noteq> []"
  shows "\<exists>rows. dk_orders dk' = dk_orders dk @ rows \<and> map ord_broker_order_id rows = map (Some \<circ> res_broker_order_id) remotes"
proof -
  have f: "filter (\<lambda>r. res_broker_order_id r \<noteq> []) remotes = remotes" using assms(2) by (simp add: filter_id_conv)
  let ?rows = "map (\<lambda>(i, r). adopted_row (uuid (dk_ids_used dk + i)) now r) (List.enumerate 0 remotes)"
  have "map ord_broker_order_id ?rows = map (\<lambda>x. Some (res_broker_order_id (snd x))) (List.enumerate 0 remotes)"
    by (simp add: adopted_row_def Let_def case_prod_unfold)
  also have "\<dots> = map (Some \<circ> res_broker_order_id) (map snd (List.enumerate 0 remotes))"
    unfolding map_map by (simp add: comp_def)
  finally have "map ord_broker_order_id ?rows = map (Some \<circ> res_broker_order_id) remotes" by simp
  moreover have "dk_orders dk' = dk_orders dk @ ?rows"
    using assms(1) by (auto simp: adopt_remote_orders_def Let_def f split: if_splits)
  ultimately show ?thesis by blast
qed

lemma adopt_total:
  assumes "\<forall>r \<in> set remotes. res_broker_order_id r \<noteq> []" "distinct (map res_broker_order_id remotes)"
    and "\<And>r row. r \<in> set remotes \<Longrightarrow> row \<in> set (dk_orders dk) \<Longrightarrow> ord_idempotency_key row \<noteq> ''adopted:'' @ res_broker_order_id r"
  shows "\<exists>n dk'. adopt_remote_orders uuid now remotes dk = (Inr n, dk')"
proof -
  have f: "filter (\<lambda>r. res_broker_order_id r \<noteq> []) remotes = remotes" using assms(1) by (simp add: filter_id_conv)
  let ?rows = "map (\<lambda>(i, r). adopted_row (uuid (dk_ids_used dk + i)) now r) (List.enumerate 0 remotes)"
  have "map ord_idempotency_key ?rows = map (\<lambda>x. ''adopted:'' @ res_broker_order_id (snd x)) (List.enumerate 0 remotes)"
    by (simp add: adopted_row_def Let_def case_prod_unfold)
  also have "\<dots> = map (\<lambda>r. ''adopted:'' @ res_broker_order_id r) (map snd (List.enumerate 0 remotes))"
    unfolding map_map by (simp add: comp_def)
  finally have k: "map ord_idempotency_key ?rows = map (\<lambda>r. ''adopted:'' @ res_broker_order_id r) remotes" by simp
  have "map (\<lambda>r. ''adopted:'' @ res_broker_order_id r) remotes = map ((@) ''adopted:'') (map res_broker_order_id remotes)"
    by simp
  then have "distinct (map (\<lambda>r. ''adopted:'' @ res_broker_order_id r) remotes)"
    using assms(2) by (simp only: distinct_map) (simp add: inj_on_def)
  moreover have "set (map (\<lambda>r. ''adopted:'' @ res_broker_order_id r) remotes) \<inter> set (map ord_idempotency_key (dk_orders dk)) = {}"
    using assms(3) by fastforce
  ultimately show ?thesis unfolding adopt_remote_orders_def Let_def f k by simp
qed

lemma recon_result_material: "recon_result (map LocalMissingRemote ids) = (if ids = [] then IN_SYNC else MATERIAL_DRIFT)"
proof -
  have "material (LocalMissingRemote i)" for i by (simp add: material_def startswith_def)
  then show ?thesis by (cases ids) (simp_all add: recon_result_def)
qed

lemma recon_result_minor: "recon_result [EmptyRemote a b] = MINOR_DRIFT" "recon_result [StaleCleared a b] = MINOR_DRIFT" "recon_result [] = IN_SYNC"
  by (simp_all add: recon_result_def material_def startswith_def)

lemma compare_books_result:
  assumes "compare_books runs ros rids dk = (iss, dk')"
  shows "recon_result iss =
    (let W = {oid. oid \<noteq> [] \<and> (\<exists>r \<in> set (dk_orders dk). is_working r \<and> ord_broker_order_id r = Some oid)}
     in if ros \<noteq> [] then (if W \<subseteq> set rids then IN_SYNC else MATERIAL_DRIFT)
        else if W = {} then IN_SYNC else MINOR_DRIFT)
    \<and> (\<forall>i. RemoteMissingLocal i \<notin> set iss)"
proof -
  define ids where "ids = remdups (filter (\<lambda>i. i \<noteq> []) (List.map_filter ord_broker_order_id (filter is_working (dk_orders dk))))"
  define W where "W = {oid. oid \<noteq> [] \<and> (\<exists>r \<in> set (dk_orders dk). is_working r \<and> ord_broker_order_id r = Some oid)}"
  have W: "set ids = W" unfolding ids_def W_def by (rule local_ids_set)
  have e: "ids = [] \<longleftrightarrow> W = {}" "filter (\<lambda>i. i \<notin> set rids) ids = [] \<longleftrightarrow> W \<subseteq> set rids"
    unfolding W[symmetric] by (auto simp: filter_empty_conv)
  have cb: "compare_books runs ros rids dk =
      (if ros \<noteq> [] then (map LocalMissingRemote (filter (\<lambda>i. i \<notin> set rids) ids), dk)
       else if ids = [] then ([], dk)
       else (let streak = prior_empty_remote_streak runs + 1
             in if EMPTY_REMOTE_STREAK_CLOSE_LOCAL \<le> streak
                then (case close_stale_local_opens (filter is_working (dk_orders dk)) dk of (k, dk') \<Rightarrow> ([StaleCleared k streak], dk'))
                else ([EmptyRemote (int (length ids)) streak], dk)))"
    unfolding compare_books_def Let_def ids_def ..
  show ?thesis unfolding W_def[symmetric] Let_def
    using assms unfolding cb
    by (cases "ros = []"; cases "ids = []")
      (auto simp: e[symmetric] recon_result_material recon_result_minor Let_def close_stale_local_opens_def split: if_splits)
qed

lemma put_order_ids: "map ord_id (dk_orders (put_order r dk)) = map ord_id (dk_orders dk)"
  by (simp add: put_order_def)

lemma close_rows:
  assumes "distinct (map ord_id (dk_orders dk))" "set rows \<subseteq> set (dk_orders dk)" "distinct (map ord_id rows)"
  shows "dk_orders (fold (\<lambda>r. put_order (close_stale r)) rows dk) = map (\<lambda>r. if r \<in> set rows then close_stale r else r) (dk_orders dk)
    \<and> dk_ids_used (fold (\<lambda>r. put_order (close_stale r)) rows dk) = dk_ids_used dk"
  using assms
proof (induction rows arbitrary: dk)
  case (Cons r rows)
  let ?dk = "put_order (close_stale r) dk"
  have id: "ord_id (close_stale r) = ord_id r" by (simp add: close_stale_def)
  have one: "dk_orders ?dk = map (\<lambda>x. if x = r then close_stale r else x) (dk_orders dk)"
    unfolding put_order_def using Cons.prems by (auto simp: id distinct_map inj_on_def)
  have sub: "set rows \<subseteq> set (dk_orders ?dk)" unfolding one using Cons.prems by (auto simp: image_iff)
  have "dk_ids_used ?dk = dk_ids_used dk" by (simp add: put_order_def)
  moreover have "distinct (map ord_id (dk_orders ?dk))" using Cons.prems(1) by (simp only: put_order_ids)
  ultimately have "dk_orders (fold (\<lambda>r. put_order (close_stale r)) rows ?dk) = map (\<lambda>r. if r \<in> set rows then close_stale r else r) (dk_orders ?dk)"
    "dk_ids_used (fold (\<lambda>r. put_order (close_stale r)) rows ?dk) = dk_ids_used dk"
    using Cons.IH[of ?dk] Cons.prems(3) sub by auto
  moreover have "close_stale r \<notin> set rows" using Cons.prems(3) id by (metis distinct.simps(2) image_eqI list.set_map list.simps(9))
  moreover have "r \<notin> set rows" using Cons.prems(3) by auto
  ultimately show ?case by (auto simp: one)
qed simp

lemma close_local:
  assumes "distinct (map ord_id (dk_orders dk))"
  shows "dk_orders (snd (close_stale_local_opens (filter is_working (dk_orders dk)) dk)) =
     map (\<lambda>r. if is_working r then close_stale r else r) (dk_orders dk)"
  using close_rows[OF assms, of "filter is_working (dk_orders dk)"] assms
  by (simp add: close_stale_local_opens_def distinct_map_filter cong: map_cong)

lemma compare_orders:
  "compare_books runs ros rids dk = (iss, dk') \<Longrightarrow> ros \<noteq> [] \<Longrightarrow> dk' = dk"
  by (auto simp: compare_books_def Let_def)

text \<open>The ids to adopt are exactly the remote ids no local row has.\<close>

lemma reconcile_cases:
  fixes bo :: "'b back_office"
  assumes "reconcile uuid now ty (Inr book) bo = (Inr rp, bo')"
  obtains rids rows iss1 and dk1 dk2 :: "'b desk" where
    "set rids = remote_ids_of book"
    "dk_orders dk1 = orders_of bo @ rows" "set (List.map_filter ord_broker_order_id rows) = remote_ids_of book - {i. has_broker_id i (bo_desk bo)}"
    "compare_books (bo_runs bo) (bk_orders book) rids dk1 = (iss1, dk2)"
    "rp_issues rp = iss1" "rp_result rp = rr_value (recon_result iss1)"
    "rp_blocks_new_orders rp = Some (recon_result iss1 = MATERIAL_DRIFT)"
    "orders_of bo' = dk_orders dk2" "map rn_issues (bo_runs bo') = map rn_issues (bo_runs bo) @ [iss1]"
proof -
  let ?adopt = "to_adopt book (bo_desk bo)"
  have rids: "set (book_ids book) = remote_ids_of book" by (auto simp: book_ids_def remote_ids_of_def)
  obtain n dk1 where ad: "adopt_remote_orders uuid now ?adopt (bo_desk bo) = (Inr n, dk1)"
    using assms by (auto simp: reconcile_def Let_def split: prod.splits sum.splits)
  obtain rows where rows: "dk_orders dk1 = orders_of bo @ rows" "map ord_broker_order_id rows = map (Some \<circ> res_broker_order_id) ?adopt"
    using adopted_rows[OF ad] by (auto simp: to_adopt_def Let_def)
  have "set (List.map_filter ord_broker_order_id rows) = res_broker_order_id ` set ?adopt"
  proof -
    have "y \<in> set (List.map_filter ord_broker_order_id rows) \<longleftrightarrow> Some y \<in> set (map ord_broker_order_id rows)" for y
      by (force simp: map_filter_mem image_iff)
    then show ?thesis unfolding rows(2) by auto
  qed
  also have "\<dots> = remote_ids_of book - {i. has_broker_id i (bo_desk bo)}"
    by (auto simp: to_adopt_def Let_def known_broker_order_ids_def rids remote_ids_of_def)
  finally have new: "set (List.map_filter ord_broker_order_id rows) = remote_ids_of book - {i. has_broker_id i (bo_desk bo)}" .
  obtain iss1 dk2 where cb: "compare_books (bo_runs bo) (bk_orders book) (book_ids book) dk1 = (iss1, dk2)" by fastforce
  have "has_broker_id i dk1" if "i \<in> set (book_ids book)" for i
  proof (cases "has_broker_id i (bo_desk bo)")
    case False
    then have "i \<in> set (List.map_filter ord_broker_order_id rows)" using that unfolding new rids by blast
    then show ?thesis by (auto simp: has_broker_id_def rows(1) map_filter_mem)
  qed (auto simp: has_broker_id_def rows(1) map_filter_mem)
  then have none: "filter (\<lambda>i. i \<notin> set (known_broker_order_ids (book_ids book) dk1)) (book_ids book) = []"
    by (auto simp: filter_empty_conv known_broker_order_ids_def)
  show ?thesis
    by (rule that[OF rids rows(1) new cb])
      (use assms in \<open>auto simp: reconcile_def Let_def ad cb none fresh_id_def\<close>)
qed

text \<open>
  A reconciliation against a snapshot with distinct order ids always completes.  Afterwards every order of the
  snapshot has a local row, so \<open>remote_order_missing_local\<close> is never reported; new orders are blocked exactly when
  some working local order is missing from a snapshot that is not empty; and an empty snapshot
  alone is at most minor drift.
\<close>

theorem reconcile_verdict:
  fixes bo :: "'b back_office"
  assumes "adoption_ok bo" "distinct (filter (\<lambda>i. i \<noteq> []) (map res_broker_order_id (bk_orders book)))"
  shows "\<exists>rp bo'. reconcile uuid now ty (Inr book) bo = (Inr rp, bo')
    \<and> (\<forall>i \<in> remote_ids_of book. has_broker_id i (bo_desk bo'))
    \<and> (\<forall>i. RemoteMissingLocal i \<notin> set (rp_issues rp))
    \<and> rp_blocks_new_orders rp = Some (bk_orders book \<noteq> [] \<and> \<not> working_ids bo \<subseteq> remote_ids_of book)
    \<and> (bk_orders book = [] \<longrightarrow> rp_result rp = (if working_ids bo = {} then ''IN_SYNC'' else ''MINOR_DRIFT''))"
proof -
  let ?adopt = "to_adopt book (bo_desk bo)"
  have rids: "set (book_ids book) = remote_ids_of book" by (auto simp: book_ids_def remote_ids_of_def)
  have "distinct (map res_broker_order_id (filter (\<lambda>r. res_broker_order_id r \<noteq> []) (bk_orders book)))"
    using assms(2) by (simp add: filter_map comp_def)
  then have "distinct (map res_broker_order_id (filter (\<lambda>r. res_broker_order_id r \<notin> set (known_broker_order_ids (book_ids book) (bo_desk bo)))
      (filter (\<lambda>r. res_broker_order_id r \<noteq> []) (bk_orders book))))" by (rule distinct_map_filter)
  then have d: "distinct (map res_broker_order_id ?adopt)" by (simp add: to_adopt_def Let_def conj_commute)
  have "ord_idempotency_key row \<noteq> ''adopted:'' @ res_broker_order_id r" if "r \<in> set ?adopt" "row \<in> set (orders_of bo)" for r row
  proof
    assume "ord_idempotency_key row = ''adopted:'' @ res_broker_order_id r"
    then have "has_broker_id (res_broker_order_id r) (bo_desk bo)"
      using assms(1) that(2) by (auto simp: adoption_ok_def has_broker_id_def map_filter_mem)
    then show False using that(1) rids by (auto simp: to_adopt_def Let_def known_broker_order_ids_def remote_ids_of_def)
  qed
  then obtain n dk1 where ad: "adopt_remote_orders uuid now ?adopt (bo_desk bo) = (Inr n, dk1)"
    using adopt_total[of ?adopt "bo_desk bo"] d by (force simp: to_adopt_def Let_def)
  obtain rp bo' where r: "reconcile uuid now ty (Inr book) bo = (Inr rp, bo')"
    by (cases "compare_books (bo_runs bo) (bk_orders book) (book_ids book) dk1")
      (simp add: reconcile_def Let_def ad fresh_id_def)
  from r show ?thesis
  proof (rule reconcile_cases)
    fix rids rows iss1 and dk1 dk2 :: "'b desk"
    assume c: "set rids = remote_ids_of book" "dk_orders dk1 = orders_of bo @ rows"
      "set (List.map_filter ord_broker_order_id rows) = remote_ids_of book - {i. has_broker_id i (bo_desk bo)}"
      "compare_books (bo_runs bo) (bk_orders book) rids dk1 = (iss1, dk2)"
      "rp_issues rp = iss1" "rp_result rp = rr_value (recon_result iss1)"
      "rp_blocks_new_orders rp = Some (recon_result iss1 = MATERIAL_DRIFT)" "orders_of bo' = dk_orders dk2"
    define W where "W = {oid. oid \<noteq> [] \<and> (\<exists>r \<in> set (dk_orders dk1). is_working r \<and> ord_broker_order_id r = Some oid)}"
    have res: "recon_result iss1 = (if bk_orders book \<noteq> [] then (if W \<subseteq> remote_ids_of book then IN_SYNC else MATERIAL_DRIFT)
        else if W = {} then IN_SYNC else MINOR_DRIFT)" and no: "\<forall>i. RemoteMissingLocal i \<notin> set iss1"
      using compare_books_result[OF c(4)] unfolding W_def c(1) Let_def by blast+
    have rowsW: "oid \<in> remote_ids_of book" if "r \<in> set rows" "ord_broker_order_id r = Some oid" for r oid
      using that c(3) by (metis DiffD1 map_filter_mem)
    then have W: "working_ids bo \<subseteq> W" "W \<subseteq> working_ids bo \<union> remote_ids_of book"
      unfolding W_def working_ids_def c(2) by auto
    have W0: "bk_orders book = [] \<Longrightarrow> W = working_ids bo" using W by (auto simp: remote_ids_of_def)
    have "has_broker_id i (bo_desk bo')" if "i \<in> remote_ids_of book" for i
    proof -
      have "Some i \<in> set (map ord_broker_order_id (dk_orders dk1))"
        using that c(3) by (force simp: c(2) has_broker_id_def map_filter_mem)
      moreover have "bk_orders book \<noteq> []" using that by (auto simp: remote_ids_of_def)
      ultimately show ?thesis using compare_orders[OF c(4)] c(8) by (force simp: has_broker_id_def map_filter_mem)
    qed
    moreover have "rp_blocks_new_orders rp = Some (bk_orders book \<noteq> [] \<and> \<not> working_ids bo \<subseteq> remote_ids_of book)"
      unfolding c(7) res using W by auto
    moreover have "bk_orders book = [] \<longrightarrow> rp_result rp = (if working_ids bo = {} then ''IN_SYNC'' else ''MINOR_DRIFT'')"
      using W0 by (auto simp: c(6) res)
    ultimately show ?thesis using r no c(5) by blast
  qed
qed

section \<open>Empty snapshots\<close>

definition saw_empty :: "recon_run \<Rightarrow> bool" where
  "saw_empty r \<longleftrightarrow> ''empty_remote_open_orders'' \<in> issue_type ` set (rn_issues r) \<and> ''stale_local_open_cleared'' \<notin> issue_type ` set (rn_issues r)"

lemma streak_of_Cons: "streak_of (r # rs) = (if saw_empty r then 1 + streak_of rs else 0)"
  by (auto simp: saw_empty_def Let_def)

declare streak_of.simps(2) [simp del]

lemma streak_nonneg: "0 \<le> streak_of rs"
  by (induction rs) (simp_all add: streak_of_Cons)

lemma streak_two: "2 \<le> streak_of rs \<Longrightarrow> \<exists>a b rest. rs = a # b # rest \<and> saw_empty a \<and> saw_empty b"
  by (cases rs; cases "tl rs") (auto simp: streak_of_Cons split: if_splits)

lemma prior_snoc: "saw_empty r \<Longrightarrow> prior_empty_remote_streak (runs @ [r]) = 1 + streak_of (take 7 (rev runs))"
  by (simp add: prior_empty_remote_streak_def streak_of_Cons)

lemma working_ids_alt:
  "working_ids bo = set (remdups (filter (\<lambda>i. i \<noteq> []) (List.map_filter ord_broker_order_id (filter is_working (orders_of bo)))))"
  unfolding local_ids_set by (simp add: working_ids_def)

text \<open>One run on an empty snapshot: nothing to do, one more miss, or the local orders are closed.\<close>

lemma empty_run:
  fixes bo :: "'b back_office"
  assumes "bk_orders book = []" "distinct (map ord_id (orders_of bo))"
  obtains rp bo' r where "reconcile uuid now ty (Inr book) bo = (Inr rp, bo')" "bo_runs bo' = bo_runs bo @ [r]"
    "working_ids bo = {} \<Longrightarrow> orders_of bo' = orders_of bo"
    "working_ids bo \<noteq> {} \<Longrightarrow> prior_empty_remote_streak (bo_runs bo) + 1 < 3 \<Longrightarrow> orders_of bo' = orders_of bo \<and> saw_empty r"
    "working_ids bo \<noteq> {} \<Longrightarrow> 3 \<le> prior_empty_remote_streak (bo_runs bo) + 1 \<Longrightarrow>
       orders_of bo' = map (\<lambda>x. if is_working x then close_stale x else x) (orders_of bo)"
proof -
  have ad: "adopt_remote_orders uuid now (to_adopt book (bo_desk bo)) (bo_desk bo) = (Inr 0, bo_desk bo)"
    using assms(1) by (simp add: to_adopt_def adopt_remote_orders_def Let_def)
  have ids: "book_ids book = []" using assms(1) by (simp add: book_ids_def)
  define ids where "ids = remdups (filter (\<lambda>i. i \<noteq> []) (List.map_filter ord_broker_order_id (filter is_working (orders_of bo))))"
  have w: "ids = [] \<longleftrightarrow> working_ids bo = {}" unfolding working_ids_alt ids_def[symmetric] by (simp only: set_empty)
  let ?s = "prior_empty_remote_streak (bo_runs bo) + 1"
  have cb: "compare_books (bo_runs bo) [] [] (bo_desk bo) =
      (if ids = [] then ([], bo_desk bo)
       else if 3 \<le> ?s then ([StaleCleared (fst (close_stale_local_opens (filter is_working (orders_of bo)) (bo_desk bo))) ?s],
                             snd (close_stale_local_opens (filter is_working (orders_of bo)) (bo_desk bo)))
       else ([EmptyRemote (int (length ids)) ?s], bo_desk bo))"
    unfolding compare_books_def Let_def ids_def[symmetric] EMPTY_REMOTE_STREAK_CLOSE_LOCAL_def by (simp split: prod.splits)
  obtain iss dk2 where c: "compare_books (bo_runs bo) [] [] (bo_desk bo) = (iss, dk2)" by fastforce
  obtain rp bo' where r: "reconcile uuid now ty (Inr book) bo = (Inr rp, bo')" by (simp add: reconcile_def Let_def ad ids assms(1) c fresh_id_def)
  from r have orders: "orders_of bo' = dk_orders dk2" and run: "\<exists>x. bo_runs bo' = bo_runs bo @ [x] \<and> rn_issues x = iss"
    by (auto simp: reconcile_def Let_def ad ids assms(1) c fresh_id_def)
  from run obtain x where x: "bo_runs bo' = bo_runs bo @ [x]" "rn_issues x = iss" by blast
  show ?thesis
    by (rule that[OF r x(1)]) (use cb c x(2) close_local[OF assms(2)] in \<open>auto simp: w orders saw_empty_def split: if_splits\<close>)
qed

lemma close_stale_idle: "\<not> is_working (close_stale r)"
  by (simp add: is_working_def close_stale_def) code_simp

lemma cleared_ids:
  "orders_of bo' = map (\<lambda>x. if is_working x then close_stale x else x) (orders_of bo) \<Longrightarrow> working_ids bo' = {}"
  using close_stale_idle by (auto simp: working_ids_def split: if_splits)

lemma cleared_row_ids:
  "orders_of bo' = map (\<lambda>x. if is_working x then close_stale x else x) (orders_of bo) \<Longrightarrow> map ord_id (orders_of bo') = map ord_id (orders_of bo)"
  by (simp add: close_stale_def)

abbreviation empty_runs :: "(nat \<Rightarrow> string) \<Rightarrow> (int \<times> string \<times> BrokerBook) list \<Rightarrow> 'b back_office \<Rightarrow> 'b back_office" where
  "empty_runs uuid xs bo \<equiv> fold (\<lambda>(t, ty, k) bo. snd (reconcile uuid t ty (Inr k) bo)) xs bo"

lemma working_ids_cong: "orders_of bo' = orders_of bo \<Longrightarrow> working_ids bo' = working_ids bo"
  by (simp add: working_ids_def)

text \<open>How many empty snapshots are still missing before the local orders are closed.\<close>

lemma empty_run_progress:
  fixes bo :: "'b back_office"
  assumes "bk_orders k = []" "distinct (map ord_id (orders_of bo))" "bo' = snd (reconcile uuid t ty (Inr k) bo)"
  shows "distinct (map ord_id (orders_of bo')) \<and> (working_ids bo = {} \<longrightarrow> working_ids bo' = {})
    \<and> (working_ids bo' = {} \<or> (\<exists>r. bo_runs bo' = bo_runs bo @ [r] \<and> saw_empty r \<and> prior_empty_remote_streak (bo_runs bo) < 2))"
proof (rule empty_run[OF assms(1,2), where uuid = uuid and now = t and ty = ty])
  fix rp bo'' r
  assume e: "reconcile uuid t ty (Inr k) bo = (Inr rp, bo'')" "bo_runs bo'' = bo_runs bo @ [r]"
    "working_ids bo = {} \<Longrightarrow> orders_of bo'' = orders_of bo"
    "working_ids bo \<noteq> {} \<Longrightarrow> prior_empty_remote_streak (bo_runs bo) + 1 < 3 \<Longrightarrow> orders_of bo'' = orders_of bo \<and> saw_empty r"
    "working_ids bo \<noteq> {} \<Longrightarrow> 3 \<le> prior_empty_remote_streak (bo_runs bo) + 1 \<Longrightarrow>
       orders_of bo'' = map (\<lambda>x. if is_working x then close_stale x else x) (orders_of bo)"
  have b: "bo' = bo''" using assms(3) e(1) by simp
  consider "working_ids bo = {}" | "working_ids bo \<noteq> {}" "prior_empty_remote_streak (bo_runs bo) + 1 < 3"
    | "working_ids bo \<noteq> {}" "3 \<le> prior_empty_remote_streak (bo_runs bo) + 1" by linarith
  then show ?thesis
  proof cases
    case 1
    then show ?thesis using e(3) assms(2) working_ids_cong[of bo'' bo] b by simp
  next
    case 2
    then show ?thesis using e(2) e(4) assms(2) b by simp
  next
    case 3
    note o = e(5)[OF 3]
    show ?thesis unfolding b cleared_row_ids[OF o] using cleared_ids[OF o] assms(2) by blast
  qed
qed

text \<open>
  Property C14.  Empty snapshots of the broker's book are not believed at once and not forever.  A reconciliation closes
  local working orders only when the snapshot is empty and the two runs before it were
  also counted as empty; and after any three consecutive runs on empty snapshots no working local
  order with a broker id is left, from any starting state.
\<close>

theorem empty_snapshot_handling:
  fixes bo :: "'b back_office"
  assumes "distinct (map ord_id (orders_of bo))"
  shows "(\<forall>xs. 3 \<le> length xs \<and> list_all (\<lambda>(_, _, k). bk_orders k = []) xs \<longrightarrow> working_ids (empty_runs uuid xs bo) = {})
    \<and> (\<forall>now ty k rp bo' r. reconcile uuid now ty (Inr k) bo = (Inr rp, bo') \<and> r \<in> set (orders_of bo) \<and> r \<notin> set (orders_of bo')
            \<longrightarrow> bk_orders k = [] \<and> (\<exists>rs a b. bo_runs bo = rs @ [a, b] \<and> saw_empty a \<and> saw_empty b))"
proof (rule conjI; intro allI impI)
  fix xs :: "(int \<times> string \<times> BrokerBook) list"
  assume h: "3 \<le> length xs \<and> list_all (\<lambda>(_, _, k). bk_orders k = []) xs"
  then obtain x1 x2 x3 rest where "xs = x1 # x2 # x3 # rest" by (auto simp: numeral_3_eq_3 Suc_le_length_iff)
  then obtain t1 y1 k1 t2 y2 k2 t3 y3 k3 where xs: "xs = (t1, y1, k1) # (t2, y2, k2) # (t3, y3, k3) # rest"
    by (metis prod_cases3)
  have k: "list_all (\<lambda>(_, _, k). bk_orders k = []) ((t1, y1, k1) # (t2, y2, k2) # (t3, y3, k3) # rest)" using h xs by simp
  define b1 where "b1 = snd (reconcile uuid t1 y1 (Inr k1) bo)"
  define b2 where "b2 = snd (reconcile uuid t2 y2 (Inr k2) b1)"
  define b3 where "b3 = snd (reconcile uuid t3 y3 (Inr k3) b2)"
  have ks: "bk_orders k1 = []" "bk_orders k2 = []" "bk_orders k3 = []" using k by auto
  note p1 = empty_run_progress[OF ks(1) assms b1_def]
  note p2 = empty_run_progress[OF ks(2) conjunct1[OF p1] b2_def]
  note p3 = empty_run_progress[OF ks(3) conjunct1[OF p2] b3_def]
  have "working_ids b3 = {}"
  proof (rule ccontr)
    assume n: "working_ids b3 \<noteq> {}"
    have n2: "working_ids b2 \<noteq> {}" using n p3 by blast
    have n1: "working_ids b1 \<noteq> {}" using n2 p2 by blast
    obtain r1 where r1: "bo_runs b1 = bo_runs bo @ [r1]" "saw_empty r1" using p1 n1 by blast
    obtain r2 where r2: "bo_runs b2 = bo_runs b1 @ [r2]" "saw_empty r2" using p2 n2 by blast
    have "prior_empty_remote_streak (bo_runs b2) = 1 + streak_of (take 7 (r1 # rev (bo_runs bo)))"
      using prior_snoc[OF r2(2), of "bo_runs b1"] by (simp add: r1(1) r2(1))
    then have "2 \<le> prior_empty_remote_streak (bo_runs b2)" using r1(2) streak_nonneg[of "take 6 (rev (bo_runs bo))"] by (simp add: streak_of_Cons)
    moreover have "prior_empty_remote_streak (bo_runs b2) < 2" using p3 n by blast
    ultimately show False by simp
  qed
  moreover have "distinct (map ord_id (orders_of c)) \<Longrightarrow> working_ids c = {} \<Longrightarrow> list_all (\<lambda>(_, _, k). bk_orders k = []) xs
      \<Longrightarrow> working_ids (empty_runs uuid xs c) = {}" for c :: "'b back_office" and xs
  proof (induction xs arbitrary: c)
    case (Cons x xs)
    obtain t ty k where x: "x = (t, ty, k)" by (cases x)
    have "bk_orders k = []" using Cons.prems(3) x by simp
    then show ?case using Cons empty_run_progress[OF _ Cons.prems(1) refl, of k uuid t ty] x by auto
  qed simp
  ultimately show "working_ids (empty_runs uuid xs bo) = {}"
    using p3 k by (simp add: xs b1_def[symmetric] b2_def[symmetric] b3_def[symmetric])
next
  fix now ty k rp bo' r
  assume h: "reconcile uuid now ty (Inr k) bo = (Inr rp, bo') \<and> r \<in> set (orders_of bo) \<and> r \<notin> set (orders_of bo')"
  have ne: "bk_orders k = []"
  proof (rule ccontr)
    assume n: "bk_orders k \<noteq> []"
    from conjunct1[OF h] show False
    proof (rule reconcile_cases)
      fix rids rows iss1 and dk1 dk2 :: "'b desk"
      assume c: "dk_orders dk1 = orders_of bo @ rows" "compare_books (bo_runs bo) (bk_orders k) rids dk1 = (iss1, dk2)"
        "orders_of bo' = dk_orders dk2"
      show False using h compare_orders[OF c(2) n] c by auto
    qed
  qed
  moreover have "2 \<le> prior_empty_remote_streak (bo_runs bo)"
  proof (rule ccontr)
    assume "\<not> 2 \<le> prior_empty_remote_streak (bo_runs bo)"
    then have s: "prior_empty_remote_streak (bo_runs bo) + 1 < 3" by simp
    show False
    proof (rule empty_run[OF ne assms, where uuid = uuid and now = now and ty = ty])
      fix rp' bo'' r'
      assume e: "reconcile uuid now ty (Inr k) bo = (Inr rp', bo'')" "working_ids bo = {} \<Longrightarrow> orders_of bo'' = orders_of bo"
        "working_ids bo \<noteq> {} \<Longrightarrow> prior_empty_remote_streak (bo_runs bo) + 1 < 3 \<Longrightarrow> orders_of bo'' = orders_of bo \<and> saw_empty r'"
      have "orders_of bo'' = orders_of bo" using e(2) e(3)[OF _ s] by blast
      then show False using h e(1) by simp
    qed
  qed
  then obtain a b rest where "take 8 (rev (bo_runs bo)) = a # b # rest" "saw_empty a" "saw_empty b"
    using streak_two unfolding prior_empty_remote_streak_def by blast
  then have "\<exists>rest'. rev (bo_runs bo) = a # b # rest'" by (metis append_Cons append_take_drop_id)
  then obtain rest' where "bo_runs bo = rev rest' @ [b, a]" by (metis append.assoc append_Cons append_Nil rev.simps(2) rev_rev_ident)
  then show "bk_orders k = [] \<and> (\<exists>rs a b. bo_runs bo = rs @ [a, b] \<and> saw_empty a \<and> saw_empty b)"
    using ne \<open>saw_empty a\<close> \<open>saw_empty b\<close> by blast
qed

section \<open>Polling follows the order life cycle\<close>

text \<open>The state of the life cycle that the polled status of a row stands for, when the broker shows the order.\<close>

definition observed_state :: "'b broker_api \<Rightarrow> OrderResult list \<Rightarrow> 'b \<Rightarrow> order_row \<Rightarrow> InternalOrderState option" where
  "observed_state api remotes br r =
     (if truthy_str (ord_broker_order_id r)
      then map_option (\<lambda>x. mapped_state (status_value (res_status x))) (remote_for api remotes (the (ord_broker_order_id r)) br)
      else None)"

text \<open>What an observation \<open>m\<close> must do to a row: a row in a state \<open>s\<close> of the life cycle moves to \<open>m\<close> along the table or is
  parked; a row whose status is no state of the life cycle takes \<open>m\<close>.\<close>

definition lawful_update :: "InternalOrderState \<Rightarrow> order_row \<Rightarrow> order_row \<Rightarrow> bool" where
  "lawful_update m r r' \<longleftrightarrow>
     ord_id r' = ord_id r \<and> ord_idempotency_key r' = ord_idempotency_key r \<and> ord_symbol r' = ord_symbol r
     \<and> ord_side r' = ord_side r \<and> ord_qty r' = ord_qty r \<and> ord_broker_order_id r' = ord_broker_order_id r
     \<and> (\<forall>s. ord_status r = os_value s \<longrightarrow>
          ord_status r' = os_value (if m = s \<or> m \<in> set (ALLOWED_ORDER_TRANSITIONS s) then m else OS_RECONCILIATION_REQUIRED))
     \<and> ((\<forall>s. ord_status r \<noteq> os_value s) \<longrightarrow> ord_status r' = os_value m)"

lemma order_state_of_value: "order_state_of (os_value s) = Inr s"
  unfolding order_state_of_def using enum_of_val[of s ORDER_STATES os_value] by (simp add: ORDER_STATES_all inj_on_def os_value_inj)

lemma journal_orders [simp]: "orders_of (journal uuid row raw remote bo) = orders_of bo" "bo_bus (journal uuid row raw remote bo) = bo_bus bo"
  "dk_broker (bo_desk (journal uuid row raw remote bo)) = dk_broker (bo_desk bo)"
  by (simp_all add: journal_def fresh_id_def)

lemma os_value_eq [simp]: "os_value s = os_value t \<longleftrightarrow> s = t"
  using os_value_inj by blast

text \<open>A working row has no terminal status, so the stale branch is never taken for it.\<close>

lemma working_not_terminal: "is_working r \<Longrightarrow> ord_status r \<notin> set TERMINAL_STATUSES"
proof -
  have "list_all (\<lambda>t. lower t \<notin> set WORKING_ORDER_STATUSES) TERMINAL_STATUSES" by code_simp
  then show "is_working r \<Longrightarrow> ord_status r \<notin> set TERMINAL_STATUSES" by (auto simp: is_working_def list_all_iff)
qed

lemma unknown_status: "order_state_of t = Inl e \<Longrightarrow> t \<noteq> os_value s"
  using order_state_of_value[of s] by auto

lemma known_status: "order_state_of t = Inr s \<Longrightarrow> t = os_value s"
  by (auto simp: order_state_of_def enum_of_def find_Some_iff split: option.splits)

lemma apply_remote_follows:
  assumes "apply_remote_status cfg uuid now row raw remote bo = (res, bo')" "is_working row"
  shows "\<exists>row'. lawful_update (mapped_state raw) row row'
     \<and> (row' = row \<and> orders_of bo' = orders_of bo \<or> orders_of bo' = map (\<lambda>r. if ord_id r = ord_id row then row' else r) (orders_of bo))"
proof -
  let ?m = "mapped_state raw"
  let ?bad = "row\<lparr>ord_raw_payload := dset (ord_raw_payload row) ''illegal_transition_observed'' (PBool True),
                  ord_status := os_value OS_RECONCILIATION_REQUIRED\<rparr>"
  let ?c = "case order_state_of (ord_status row) of Inl _ \<Rightarrow> Inr () | Inr s \<Rightarrow> assert_order_transition s ?m"
  note nt = working_not_terminal[OF assms(2)]
  show ?thesis
  proof (cases "ord_status row = os_value ?m")
    case True
    then have "lawful_update ?m row row" by (auto simp: lawful_update_def)
    moreover have "orders_of bo' = orders_of bo" using assms(1) True by (simp add: apply_remote_status_def Let_def)
    ultimately show ?thesis by blast
  next
    case False
    show ?thesis
    proof (cases ?c)
      case (Inl e)
      then obtain s where s: "ord_status row = os_value s" "?m \<notin> set (ALLOWED_ORDER_TRANSITIONS s)"
        using known_status[of "ord_status row"] by (auto simp: assert_order_transition_def split: sum.splits if_splits)
      then have "lawful_update ?m row ?bad" using False by (auto simp: lawful_update_def)
      moreover have "orders_of bo' = map (\<lambda>r. if ord_id r = ord_id row then ?bad else r) (orders_of bo)"
        using assms(1) False nt Inl by (auto simp: apply_remote_status_def Let_def set_row_def put_order_def)
      ultimately show ?thesis by blast
    next
      case (Inr u)
      have "lawful_update ?m row (row\<lparr>ord_status := os_value ?m\<rparr>)"
        using Inr False by (auto simp: lawful_update_def order_state_of_value assert_order_transition_def split: if_splits)
      moreover have "orders_of bo' = map (\<lambda>r. if ord_id r = ord_id row then row\<lparr>ord_status := os_value ?m\<rparr> else r) (orders_of bo)"
        using assms(1) False nt Inr by (auto simp: apply_remote_status_def Let_def set_row_def put_order_def split: prod.splits sum.splits)
      ultimately show ?thesis by blast
    qed
  qed
qed

lemma apply_remote_broker:
  "apply_remote_status cfg uuid now row raw remote bo = (res, bo') \<Longrightarrow> dk_broker (bo_desk bo') = dk_broker (bo_desk bo)"
  by (auto simp: apply_remote_status_def Let_def set_row_def put_order_def journal_def fresh_id_def split: if_splits sum.splits prod.splits)

text \<open>The relation between a row and its successor: untouched, or following what was observed; a report means nothing was
  left out.\<close>

definition polled :: "'b broker_api \<Rightarrow> OrderResult list \<Rightarrow> 'b \<Rightarrow> bool \<Rightarrow> order_row set \<Rightarrow> order_row \<Rightarrow> order_row \<Rightarrow> bool" where
  "polled api remotes br reported todo r r' \<longleftrightarrow>
     (case observed_state api remotes br r of
        Some m \<Rightarrow> if r \<in> todo then lawful_update m r r' \<or> (\<not> reported \<and> r' = r) else r' = r
      | None \<Rightarrow> r' = r)"

lemma lawful_update_id: "lawful_update m r r' \<Longrightarrow> ord_id r' = ord_id r"
  by (simp add: lawful_update_def)

lemma polled_outside: "polled api remotes br c todo r r' \<Longrightarrow> r \<notin> todo \<Longrightarrow> r' = r"
  by (simp add: polled_def split: option.splits)

lemma polled_insert: "polled api remotes br c todo r r' \<Longrightarrow> r \<noteq> row \<Longrightarrow> polled api remotes br c (insert row todo) r r'"
  by (simp add: polled_def split: option.splits)

lemma polled_now: "observed_state api remotes br r = Some m \<Longrightarrow> lawful_update m r r' \<Longrightarrow> r \<in> todo \<Longrightarrow> polled api remotes br c todo r r'"
  by (simp add: polled_def)

lemma poll_rows_lawful:
  assumes "poll_rows api cfg uuid now remotes rows rep bo = (res, bo')" "distinct (map ord_id (orders_of bo))"
    "set rows \<subseteq> set (orders_of bo)" "distinct (map ord_id rows)" "list_all is_working rows"
  shows "list_all2 (polled api remotes (dk_broker (bo_desk bo)) (\<not> isl res) (set rows)) (orders_of bo) (orders_of bo')"
  using assms
proof (induction rows arbitrary: rep bo)
  case Nil
  then show ?case by (simp add: list_all2_same polled_def split: option.splits)
next
  case (Cons row rows)
  let ?br = "dk_broker (bo_desk bo)"
  have notin: "row \<notin> set rows" using Cons.prems(4) by auto
  show ?case
  proof (cases "observed_state api remotes ?br row")
    case None
    then have "poll_rows api cfg uuid now remotes rows rep bo = (res, bo')"
      using Cons.prems(1) by (auto simp: observed_state_def split: if_splits option.splits)
    then have IH: "list_all2 (polled api remotes ?br (\<not> isl res) (set rows)) (orders_of bo) (orders_of bo')"
      using Cons.IH Cons.prems by simp
    show ?thesis
      by (rule list.rel_mono_strong[OF IH]) (use None notin in \<open>auto simp: polled_def split: option.splits\<close>)
  next
    case (Some m)
    then obtain remote where tr: "truthy_str (ord_broker_order_id row)" and m: "m = mapped_state (status_value (res_status remote))"
      and remote: "remote_for api remotes (the (ord_broker_order_id row)) ?br = Some remote"
      by (auto simp: observed_state_def split: if_splits)
    obtain ans bo1 where ap: "apply_remote_status cfg uuid now row (status_value (res_status remote)) remote bo = (ans, bo1)" by fastforce
    have w: "is_working row" using Cons.prems(5) by simp
    obtain row' where row': "lawful_update m row row'"
      "row' = row \<and> orders_of bo1 = orders_of bo \<or> orders_of bo1 = map (\<lambda>r. if ord_id r = ord_id row then row' else r) (orders_of bo)"
      using apply_remote_follows[OF ap w] unfolding m by blast
    have uniq: "r = row" if "r \<in> set (orders_of bo)" "ord_id r = ord_id row" for r
      using Cons.prems(2,3) that by (auto simp: distinct_map inj_on_def)
    define f where "f r = (if r = row then row' else r)" for r
    have f: "orders_of bo1 = map f (orders_of bo)"
      using row'(2) by (auto simp: f_def intro!: map_idI[symmetric] dest: uniq)
    have fid: "ord_id (f r) = ord_id r" for r using lawful_update_id[OF row'(1)] by (simp add: f_def)
    have br: "dk_broker (bo_desk bo1) = ?br" using apply_remote_broker[OF ap] .
    show ?thesis
    proof (cases ans)
      case (Inl e)
      then have "bo' = bo1" "isl res" using Cons.prems(1) tr remote ap by auto
      then show ?thesis
        using f row'(1) Some by (auto simp: list_all2_map2 list_all2_same polled_def f_def split: option.splits)
    next
      case (Inr st)
      then have go: "poll_rows api cfg uuid now remotes rows (count_outcome st rep) bo1 = (res, bo')"
        using Cons.prems(1) tr remote ap by (simp del: count_outcome.simps)
      have sub: "set rows \<subseteq> set (orders_of bo1)" using Cons.prems(3) notin unfolding f by (force simp: f_def)
      have ids: "map ord_id (orders_of bo1) = map ord_id (orders_of bo)" unfolding f using fid by simp
      have "list_all2 (polled api remotes ?br (\<not> isl res) (set rows)) (map f (orders_of bo)) (orders_of bo')"
        unfolding f[symmetric] br[symmetric] by (rule Cons.IH[OF go _ sub]) (use ids Cons.prems in simp_all)
      then show ?thesis unfolding list_all2_map1
      proof (rule list.rel_mono_strong)
        fix r r'
        assume r: "polled api remotes ?br (\<not> isl res) (set rows) (f r) r'"
        have "ord_id row \<notin> ord_id ` set rows" using Cons.prems(4) by simp
        then have "row' \<notin> set rows" using lawful_update_id[OF row'(1)] by (metis image_eqI)
        then have "r = row \<Longrightarrow> r' = row'" using polled_outside[OF r] by (simp add: f_def)
        then show "polled api remotes ?br (\<not> isl res) (set (row # rows)) r r'"
          using polled_now[OF Some row'(1)] polled_insert[OF r] by (cases "r = row") (simp_all add: f_def)
      qed
    qed
  qed
qed

text \<open>
  Property C12.  Polling the broker refines the order life cycle.  A failed fetch changes no row.  With a snapshot, the rows
  keep their places and each row either stays as it is or is a working row the broker shows (in the snapshot or by
  its id) and does what the observed status demands: it keeps its id, key, symbol, side, quantity
  and broker id; a row in a state of the life cycle moves to the observed state when the
  transition table allows it, and is parked as reconciliation required when it does not; a row
  whose status is not one of the life cycle takes the observed state without a check.  When the poll ends with a report, every working
  row the broker shows has done so; and no row that was not working has changed.
\<close>

theorem poll_refines_life_cycle:
  assumes "poll_and_apply api cfg uuid now fetched bo = (res, bo')" "distinct (map ord_id (orders_of bo))"
  shows "(\<forall>e. fetched = Inl e \<longrightarrow> orders_of bo' = orders_of bo)
    \<and> (\<forall>remotes. fetched = Inr remotes \<longrightarrow>
         list_all2 (\<lambda>r r'. r' = r \<or> (is_working r \<and> (\<exists>m. observed_state api remotes (dk_broker (bo_desk bo)) r = Some m \<and> lawful_update m r r')))
           (orders_of bo) (orders_of bo')
         \<and> (\<forall>report. res = Inr report \<longrightarrow>
              list_all2 (\<lambda>r r'. \<forall>m. is_working r \<and> observed_state api remotes (dk_broker (bo_desk bo)) r = Some m \<longrightarrow> lawful_update m r r')
                (orders_of bo) (orders_of bo')))"
proof (cases fetched)
  case (Inl e)
  then have "orders_of bo' = orders_of bo" using assms(1) by (auto simp: poll_and_apply_def Let_def split: prod.splits sum.splits)
  then show ?thesis using Inl by simp
next
  case (Inr remotes)
  let ?ws = "filter is_working (orders_of bo)" and ?br = "dk_broker (bo_desk bo)"
  obtain rep res' where p: "poll_rows api cfg uuid now remotes ?ws rep bo = (res', bo')" and res: "isl res = isl res'"
    using assms(1) Inr by (auto simp: poll_and_apply_def split: prod.splits sum.splits)
  have "distinct (map ord_id ?ws)" using assms(2) by (rule distinct_map_filter)
  from poll_rows_lawful[OF p assms(2) _ this]
  have all: "list_all2 (polled api remotes ?br (\<not> isl res) (set ?ws)) (orders_of bo) (orders_of bo')"
    by (simp add: res list_all_iff)
  have "list_all2 (\<lambda>r r'. r' = r \<or> (is_working r \<and> (\<exists>m. observed_state api remotes ?br r = Some m \<and> lawful_update m r r')))
      (orders_of bo) (orders_of bo')"
    by (rule list.rel_mono_strong[OF all]) (auto simp: polled_def split: if_splits option.splits)
  moreover have "list_all2 (\<lambda>r r'. \<forall>m. is_working r \<and> observed_state api remotes ?br r = Some m \<longrightarrow> lawful_update m r r')
      (orders_of bo) (orders_of bo')" if "\<not> isl res"
    by (rule list.rel_mono_strong[OF all]) (use that in \<open>auto simp: polled_def split: if_splits option.splits\<close>)
  ultimately show ?thesis using Inr by auto
qed

section \<open>A sample office\<close>

definition sample_office :: "MockBroker back_office" where
  "sample_office =
     \<lparr>bo_desk = sample_desk\<lparr>dk_orders := [sample_row ''new'']\<rparr>, bo_runs = [], bo_order_events = [], bo_bus = empty_bus\<rparr>"

definition sample_remote :: OrderResult where
  "sample_remote = sample_cancelled\<lparr>res_broker_order_id := ''r1'', res_status := ST_ACCEPTED\<rparr>"

definition sample_sync_book :: "OrderResult list \<Rightarrow> BrokerBook" where
  "sample_sync_book os = \<lparr>bk_orders = os, bk_positions = [], bk_account = []\<rparr>"

lemma sample_office_orders: "orders_of sample_office = [sample_row ''new'']"
  by (simp add: sample_office_def)

lemma sample_working: "working_ids sample_office = {''mock-42-1''}"
proof -
  have "is_working (sample_row ''new'')" by code_simp
  then show ?thesis by (auto simp: working_ids_def sample_office_orders) (simp_all add: sample_row_def)
qed

theorem reconcile_verdict_witness:
  "\<exists>rp bo'. reconcile sample_uuid 9 ''ON_DEMAND'' (Inr (sample_sync_book [sample_remote])) sample_office = (Inr rp, bo')
     \<and> has_broker_id ''r1'' (bo_desk bo') \<and> rp_blocks_new_orders rp = Some True"
proof -
  have ok: "adoption_ok sample_office" by (simp add: adoption_ok_def sample_office_orders sample_row_def)
  have ids: "remote_ids_of (sample_sync_book [sample_remote]) = {''r1''}" by (auto simp: remote_ids_of_def sample_sync_book_def sample_remote_def)
  have "distinct (filter (\<lambda>i. i \<noteq> []) (map res_broker_order_id (bk_orders (sample_sync_book [sample_remote]))))"
    by (simp add: sample_sync_book_def)
  from reconcile_verdict[OF ok this, of sample_uuid 9 "''ON_DEMAND''"] show ?thesis
    unfolding ids sample_working by (auto simp: sample_sync_book_def)
qed

theorem empty_snapshot_handling_witness:
  "working_ids (empty_runs sample_uuid [(1, ''S'', sample_sync_book []), (2, ''S'', sample_sync_book []), (3, ''S'', sample_sync_book [])] sample_office) = {}"
proof -
  have d: "distinct (map ord_id (orders_of sample_office))" by (simp add: sample_office_orders)
  have "3 \<le> length xs \<and> list_all (\<lambda>(_, _, k). bk_orders k = []) xs \<longrightarrow> working_ids (empty_runs sample_uuid xs sample_office) = {}" for xs
    using empty_snapshot_handling[OF d, of sample_uuid] by blast
  from this[of "[(1, ''S'', sample_sync_book []), (2, ''S'', sample_sync_book []), (3, ''S'', sample_sync_book [])]"]
  show ?thesis by (simp add: sample_sync_book_def)
qed

text \<open>A lowercase row that the snapshot reports accepted, a filled one known by its id only, one whose jump from
  \<open>SUBMITTED\<close> to \<open>CANCELLED\<close> the table forbids, and a finished one.\<close>

definition polled_office :: "MockBroker back_office" where
  "polled_office = sample_office\<lparr>bo_desk := sample_desk\<lparr>dk_orders :=
     [sample_row ''new'',
      (sample_row ''ACCEPTED'')\<lparr>ord_id := ''id-1'', ord_idempotency_key := ''k1'', ord_broker_order_id := Some ''b1''\<rparr>,
      (sample_row ''SUBMITTED'')\<lparr>ord_id := ''id-2'', ord_idempotency_key := ''k2'', ord_broker_order_id := Some ''b2''\<rparr>,
      (sample_row ''FILLED'')\<lparr>ord_id := ''id-3'', ord_idempotency_key := ''k3'', ord_broker_order_id := Some ''b3''\<rparr>]\<rparr>\<rparr>"

definition polled_remotes :: "OrderResult list" where
  "polled_remotes =
     [sample_remote\<lparr>res_broker_order_id := ''mock-42-1''\<rparr>, sample_remote\<lparr>res_broker_order_id := ''b1'', res_status := ST_FILLED\<rparr>,
      sample_remote\<lparr>res_broker_order_id := ''b2'', res_status := ST_CANCELED\<rparr>, sample_remote\<lparr>res_broker_order_id := ''b3''\<rparr>]"

lemma polled_result:
  "map_prod id (\<lambda>bo. map ord_status (orders_of bo)) (poll_and_apply sample_api sample_cfg sample_uuid 9 (Inr polled_remotes) polled_office)
   = (Inr (Inr \<lparr>pl_updated = 2, pl_skipped_stale = 0, pl_skipped_unchanged = 0\<rparr>),
      [''ACCEPTED'', ''FILLED'', ''RECONCILIATION_REQUIRED'', ''FILLED''])"
  by code_simp

theorem poll_refines_life_cycle_witness:
  "\<exists>bo'. snd (poll_and_apply sample_api sample_cfg sample_uuid 9 (Inr polled_remotes) polled_office) = bo'
     \<and> map ord_status (orders_of bo') = [''ACCEPTED'', ''FILLED'', ''RECONCILIATION_REQUIRED'', ''FILLED'']
     \<and> list_all2 (\<lambda>r r'. r' = r \<or> (is_working r
          \<and> (\<exists>m. observed_state sample_api polled_remotes (dk_broker (bo_desk polled_office)) r = Some m \<and> lawful_update m r r')))
         (orders_of polled_office) (orders_of bo')"
proof -
  obtain res bo' where p: "poll_and_apply sample_api sample_cfg sample_uuid 9 (Inr polled_remotes) polled_office = (res, bo')"
    by fastforce
  have "distinct (map ord_id (orders_of polled_office))" by code_simp
  from poll_refines_life_cycle[OF p this] polled_result show ?thesis unfolding p by simp
qed

end
