(* ===== verification/Exec_Service.thy ===== *)
theory Exec_Service
  imports Broker_Sync Pretrade
begin

text \<open>
  \<open>execution/service.py\<close>: from a decision to intents, through the pre-trade check and the operator's approval to the
  broker.  The service adds the intent, approval and check tables to the back office.  The SHA-256
  digest of a client order id is the argument \<open>sha\<close> (its hexadecimal text).  A row the code changes is stamped
  with the time of the change, as the column's \<open>onupdate\<close> does.
\<close>

section \<open>State\<close>

record order_intent =
  in_id :: string
  in_decision_id :: "string option"
  in_workflow_run_id :: "string option"
  in_symbol :: string
  in_intent_type :: string
  in_side :: string
  in_quantity :: "rat option"
  in_approved_quantity :: "rat option"
  in_entry_price :: "rat option"
  in_stop_price :: "rat option"
  in_status :: string
  in_client_order_id :: "string option"
  in_risk_check_id :: "string option"
  in_approval_id :: "string option"
  in_thesis :: "string option"
  in_expires_at :: "datetime option"
  in_exit_policy :: "(string \<times> payload) list"
  in_metadata :: "(string \<times> payload) list"
  in_updated_at :: "datetime option"

record order_approval =
  oa_id :: string
  oa_intent_id :: string
  oa_status :: string
  oa_acted_by :: "string option"
  oa_acted_at :: "int option"
  oa_expires_at :: "datetime option"
  oa_reason :: "string option"

record risk_check =
  rc_id :: string
  rc_intent_id :: string
  rc_decision_id :: "string option"
  rc_status :: string
  rc_payload :: PretradeCheckResult

record 'b exec_state =
  es_office :: "'b back_office"
  es_intents :: "order_intent list"
  es_approvals :: "order_approval list"
  es_checks :: "risk_check list"

abbreviation es_desk :: "'b exec_state \<Rightarrow> 'b desk" where
  "es_desk es \<equiv> bo_desk (es_office es)"

definition set_desk :: "'b desk \<Rightarrow> 'b exec_state \<Rightarrow> 'b exec_state" where
  "set_desk dk es = es\<lparr>es_office := (es_office es)\<lparr>bo_desk := dk\<rparr>\<rparr>"

definition put_intent :: "int \<Rightarrow> order_intent \<Rightarrow> 'b exec_state \<Rightarrow> 'b exec_state" where
  "put_intent now i es =
     es\<lparr>es_intents := map (\<lambda>x. if in_id x = in_id i then i\<lparr>in_updated_at := Some (Aware now)\<rparr> else x) (es_intents es)\<rparr>"

definition put_approval :: "order_approval \<Rightarrow> 'b exec_state \<Rightarrow> 'b exec_state" where
  "put_approval a es = es\<lparr>es_approvals := map (\<lambda>x. if oa_id x = oa_id a then a else x) (es_approvals es)\<rparr>"

definition mint :: "(nat \<Rightarrow> string) \<Rightarrow> 'b exec_state \<Rightarrow> string \<times> 'b exec_state" where
  "mint uuid es = (case fresh_id uuid (es_desk es) of (i, dk) \<Rightarrow> (i, set_desk dk es))"

section \<open>Intents from a decision\<close>

definition make_client_order_id ::
  "(string \<Rightarrow> string) \<Rightarrow> string option \<Rightarrow> string \<Rightarrow> string \<Rightarrow> string \<Rightarrow> string \<Rightarrow> int \<Rightarrow> string" where
  "make_client_order_id sha wid did iid symbol side attempt =
     (let base = or_str wid ''wf'' @ ''|'' @ did @ ''|'' @ iid @ ''|'' @ symbol @ ''|'' @ side @ ''|'' @ str_int attempt
      in take 48 (''inv-'' @ take 24 (sha base)))"

definition EXIT_INTENT_TYPES :: "string list" where
  "EXIT_INTENT_TYPES = map intent_value [REDUCE_LONG, CLOSE_LONG, REDUCE_SHORT, CLOSE_SHORT, CANCEL_PENDING]"

definition intent_is_exit :: "order_intent \<Rightarrow> bool" where
  "intent_is_exit i \<longleftrightarrow>
     in_intent_type i \<in> set EXIT_INTENT_TYPES
     \<or> startswith (or_str (in_thesis i) []) ''closing:'' \<or> startswith (or_str (in_thesis i) []) ''force_close:''"

definition is_uuid :: "string option \<Rightarrow> bool" where
  "is_uuid v \<longleftrightarrow> truthy_str v \<and> (case uuid_of (or_str v []) of Inr _ \<Rightarrow> True | Inl _ \<Rightarrow> False)"

definition pay_num :: "rat option \<Rightarrow> payload" where
  "pay_num v = (case v of Some x \<Rightarrow> PNum x | None \<Rightarrow> PNull)"

definition intent_from ::
  "string \<Rightarrow> int \<Rightarrow> string option \<Rightarrow> (string \<times> string) list \<Rightarrow> (string \<times> rat) list \<Rightarrow> string list
   \<Rightarrow> ValidatedOrderIntent \<Rightarrow> order_intent" where
  "intent_from iid now wid horizons prices rejections v =
     (let hz = dget horizons (upper (vi_symbol v)); buy = (lower (vi_side v) = ''buy'');
          max_hold = (if truthy_str hz
                      then (case policy_for (the hz) of Inr p \<Rightarrow> hp_max_holding_minutes p | Inl _ \<Rightarrow> None) else None)
      in \<lparr>in_id = iid,
          in_decision_id = (if is_uuid (Some (vi_decision_id v))
                            then (case uuid_of (vi_decision_id v) of Inr d \<Rightarrow> Some d | Inl _ \<Rightarrow> None) else None),
          in_workflow_run_id = wid, in_symbol = upper (vi_symbol v),
          in_intent_type = intent_value (if vi_side v = ''buy'' then OPEN_LONG else CLOSE_LONG),
          in_side = vi_side v, in_quantity = Some (vi_quantity v), in_approved_quantity = None,
          in_entry_price = (if vi_limit_price v \<noteq> None then vi_limit_price v else dget prices (upper (vi_symbol v))),
          in_stop_price = vi_stop_price v, in_status = is_value IS_CREATED, in_client_order_id = None,
          in_risk_check_id = None, in_approval_id = None, in_thesis = Some (vi_thesis v), in_expires_at = None,
          in_exit_policy =
            [(''stop_loss'', pay_num (vi_stop_price v)),
             (''overnight_allowed'', PBool (if buy then overnight_allowed_for_horizon hz else False)),
             (''closing_policy'', PStr (if buy then closing_policy_for_horizon hz else ''CLOSE_INTRADAY_ONLY'')),
             (''max_holding_time_minutes'', pay_int max_hold), (''protection_submitted'', PBool False),
             (''horizon'', pay_str hz)],
          in_metadata =
            foldl (\<lambda>d (k, x). dset d k (PStr x))
              [(''order_type'', PStr (vi_order_type v)), (''idempotency_key_seed'', PStr (vi_idempotency_key v)),
               (''validation_rejections'', PStrs rejections), (''horizon'', pay_str hz), (''venue'', pay_str (vi_venue v)),
               (''con_id'', pay_int (vi_con_id v))]
              (case vi_attribution v of Some a \<Rightarrow> a | None \<Rightarrow> []),
          in_updated_at = Some (Aware now)\<rparr>)"

fun create_intents ::
  "(nat \<Rightarrow> string) \<Rightarrow> int \<Rightarrow> string option \<Rightarrow> (string \<times> string) list \<Rightarrow> (string \<times> rat) list \<Rightarrow> string list
   \<Rightarrow> ValidatedOrderIntent list \<Rightarrow> order_intent list \<Rightarrow> 'b exec_state \<Rightarrow> order_intent list \<times> 'b exec_state" where
  "create_intents uuid now wid hz px rej [] created es = (created, es)"
| "create_intents uuid now wid hz px rej (v # vs) created es =
     (case mint uuid es of (iid, es1) \<Rightarrow>
        (let i = intent_from iid now wid hz px rej v
         in create_intents uuid now wid hz px rej vs (created @ [i]) (es1\<lparr>es_intents := es_intents es1 @ [i]\<rparr>)))"

definition build_intents_from_decision ::
  "settings \<Rightarrow> RiskEngine \<Rightarrow> (nat \<Rightarrow> string) \<Rightarrow> int \<Rightarrow> CIODecision \<Rightarrow> validation_context \<Rightarrow> bool \<Rightarrow> 'b exec_state
   \<Rightarrow> order_intent list py \<times> 'b exec_state" where
  "build_intents_from_decision cfg eng uuid now d vc block_new_entries es =
     (let horizons = foldl (\<lambda>m (k, x). dset m (upper k) x) [] (vc_horizon_by_symbol vc);
          vc' = vc\<lparr>vc_horizon_by_symbol := horizons\<rparr>
      in case validate cfg eng (dk_controls (es_desk es)) d vc' {} block_new_entries of
           Inl e \<Rightarrow> (Inl e, es)
         | Inr v \<Rightarrow>
             (case create_intents uuid now (vc_workflow_id vc) horizons (vc_latest_prices vc) (ev_rejections v) (ev_intents v) [] es of
                (created, es') \<Rightarrow> (Inr created, es')))"

section \<open>Pre-trade check and approval\<close>

record account_view =
  av_equity :: rat
  av_cash :: rat
  av_buying_power :: rat
  av_gross_exposure :: rat
  av_position_qty :: rat
  av_data_quality_score :: rat
  av_quote_age_seconds :: "rat option"
  av_spread_bps :: "rat option"
  av_hard_vetoes :: "string list"
  av_market_open :: bool
  av_asset_tradable :: bool

definition intent_expired :: "int \<Rightarrow> order_intent \<Rightarrow> bool py" where
  "intent_expired now i =
     (case in_expires_at i of
        None \<Rightarrow> Inr False
      | Some (Aware t) \<Rightarrow> Inr (t < now)
      | Some (Naive _) \<Rightarrow> Inl (TypeError (''can'' @ CHR 0x27 # ''t compare offset-naive and offset-aware datetimes'')))"

definition intent_quantity :: "order_intent \<Rightarrow> rat" where
  "intent_quantity i = or_float (in_approved_quantity i) (or_float (in_quantity i) 0)"

definition check_request :: "order_intent \<Rightarrow> rat \<Rightarrow> account_view \<Rightarrow> bool \<Rightarrow> pretrade_request" where
  "check_request i qty av expired =
     \<lparr>pq_side = in_side i, pq_quantity = qty, pq_entry_price = or_float (in_entry_price i) 0, pq_stop_price = in_stop_price i,
      pq_equity = av_equity av, pq_cash = av_cash av, pq_buying_power = av_buying_power av,
      pq_gross_exposure = av_gross_exposure av, pq_position_qty = av_position_qty av,
      pq_data_quality_score = av_data_quality_score av, pq_quote_age_seconds = av_quote_age_seconds av,
      pq_spread_bps = av_spread_bps av, pq_hard_vetoes = av_hard_vetoes av, pq_asset_tradable = av_asset_tradable av,
      pq_market_open = av_market_open av, pq_account_blocked = False, pq_duplicate_client_order = False,
      pq_conflicting_open_order = False, pq_decision_expired = expired, pq_open_positions = 0\<rparr>"

definition find_intent :: "string \<Rightarrow> 'b exec_state \<Rightarrow> order_intent option" where
  "find_intent iid es = find (\<lambda>i. in_id i = iid) (es_intents es)"

definition latest_approval :: "string \<Rightarrow> 'b exec_state \<Rightarrow> order_approval option" where
  "latest_approval iid es =
     (case rev (filter (\<lambda>a. oa_intent_id a = iid) (es_approvals es)) of [] \<Rightarrow> None | a # _ \<Rightarrow> Some a)"

definition blocked :: "PretradeStatus \<Rightarrow> bool" where
  "blocked s \<longleftrightarrow> s \<in> {PT_REJECTED, PT_SYSTEM_BLOCKED}"

definition checked_status :: "settings \<Rightarrow> PretradeStatus \<Rightarrow> string \<Rightarrow> string" where
  "checked_status cfg st old =
     (if blocked st then is_value IS_RISK_REJECTED
      else if st = PT_REQUIRES_MANUAL_APPROVAL then is_value IS_PENDING_APPROVAL
      else if st \<in> {PT_APPROVED, PT_APPROVED_WITH_REDUCTION}
      then (if cfg_require_manual_order_approval cfg then is_value IS_PENDING_APPROVAL else is_value IS_APPROVED)
      else old)"

definition validate_intent ::
  "settings \<Rightarrow> (nat \<Rightarrow> string) \<Rightarrow> int \<Rightarrow> string \<Rightarrow> account_view \<Rightarrow> 'b exec_state \<Rightarrow> PretradeCheckResult py \<times> 'b exec_state" where
  "validate_intent cfg uuid now iid av es =
     (case find_intent iid es of
        None \<Rightarrow> (Inl (ValueError ''intent_not_found''), es)
      | Some i0 \<Rightarrow>
          (let i = i0\<lparr>in_status := is_value IS_VALIDATING\<rparr>; es0 = put_intent now i es
           in case py_bind (intent_expired now i) (\<lambda>ex.
                     pretrade_validate cfg (dk_controls (es_desk es)) (check_request i (or_float (in_quantity i) 0) av ex)) of
                Inl e \<Rightarrow> (Inl e, es0)
              | Inr res \<Rightarrow>
                  (case mint uuid es0 of (cid, es1) \<Rightarrow>
                     (let es2 = es1\<lparr>es_checks := es_checks es1 @
                            [\<lparr>rc_id = cid, rc_intent_id = iid, rc_decision_id = in_decision_id i,
                              rc_status = pt_value (pr_status res), rc_payload = res\<rparr>]\<rparr>;
                          i' = i\<lparr>in_risk_check_id := Some cid, in_approved_quantity := Some (pr_approved_quantity res),
                                 in_status := checked_status cfg (pr_status res) (in_status i)\<rparr>;
                          es3 = put_intent now i' es2
                      in (Inr res,
                          if pr_status res = PT_REQUIRES_MANUAL_APPROVAL
                          then (case mint uuid es3 of (aid, es4) \<Rightarrow>
                                  es4\<lparr>es_approvals := es_approvals es4 @
                                    [\<lparr>oa_id = aid, oa_intent_id = iid, oa_status = as_value AS_PENDING_APPROVAL,
                                      oa_acted_by = None, oa_acted_at = None,
                                      oa_expires_at = Some (Aware (now + minutes (cfg_order_approval_expiry_minutes cfg))),
                                      oa_reason = None\<rparr>]\<rparr>)
                          else es3)))))"

definition approval_expired :: "int \<Rightarrow> order_approval \<Rightarrow> bool" where
  "approval_expired now a \<longleftrightarrow> (case oa_expires_at a of Some t \<Rightarrow> as_utc t < now | None \<Rightarrow> False)"

definition approve_intent :: "int \<Rightarrow> string \<Rightarrow> string \<Rightarrow> 'b exec_state \<Rightarrow> order_intent py \<times> 'b exec_state" where
  "approve_intent now iid actor es =
     (case find_intent iid es of
        None \<Rightarrow> (Inl (ValueError ''intent_not_found''), es)
      | Some i \<Rightarrow>
          if in_status i \<noteq> is_value IS_PENDING_APPROVAL
          then (Inl (ValueError (''approve_not_allowed_from:'' @ in_status i)), es)
          else (case latest_approval iid es of
                  None \<Rightarrow> (let i' = i\<lparr>in_status := is_value IS_APPROVED\<rparr> in (Inr i', put_intent now i' es))
                | Some a \<Rightarrow>
                    if approval_expired now a
                    then (Inl (ValueError ''approval_expired''),
                          put_intent now (i\<lparr>in_status := is_value IS_EXPIRED\<rparr>)
                            (put_approval (a\<lparr>oa_status := as_value AS_EXPIRED\<rparr>) es))
                    else (let i' = i\<lparr>in_approval_id := Some (oa_id a), in_status := is_value IS_APPROVED\<rparr>
                          in (Inr i',
                              put_intent now i'
                                (put_approval (a\<lparr>oa_status := as_value AS_APPROVED, oa_acted_by := Some actor,
                                                 oa_acted_at := Some now\<rparr>) es)))))"

definition reject_intent :: "int \<Rightarrow> string \<Rightarrow> string \<Rightarrow> string \<Rightarrow> 'b exec_state \<Rightarrow> order_intent py \<times> 'b exec_state" where
  "reject_intent now iid actor reason es =
     (case find_intent iid es of
        None \<Rightarrow> (Inl (ValueError ''intent_not_found''), es)
      | Some i \<Rightarrow>
          (let es1 = (case latest_approval iid es of
                        None \<Rightarrow> es
                      | Some a \<Rightarrow> put_approval (a\<lparr>oa_status := as_value AS_REJECTED, oa_acted_by := Some actor,
                                                  oa_acted_at := Some now, oa_reason := Some reason\<rparr>) es);
               i' = i\<lparr>in_status := is_value IS_REJECTED\<rparr>
           in (Inr i', put_intent now i' es1)))"

section \<open>Submission\<close>

definition final_view :: "settings \<Rightarrow> account_view" where
  "final_view cfg =
     \<lparr>av_equity = cfg_starting_cash cfg, av_cash = cfg_starting_cash cfg, av_buying_power = cfg_starting_cash cfg,
      av_gross_exposure = 0, av_position_qty = 0, av_data_quality_score = 1, av_quote_age_seconds = Some 0,
      av_spread_bps = Some 10, av_hard_vetoes = [], av_market_open = True, av_asset_tradable = True\<rparr>"

definition client_id_of :: "(string \<Rightarrow> string) \<Rightarrow> int \<Rightarrow> order_intent \<Rightarrow> string" where
  "client_id_of sha attempt i =
     make_client_order_id sha (in_workflow_run_id i) (or_str (in_decision_id i) []) (in_id i) (in_symbol i) (in_side i) attempt"

definition recon_blocks :: "'b exec_state \<Rightarrow> order_intent \<Rightarrow> string option" where
  "recon_blocks es i =
     (case rev (bo_runs (es_office es)) of
        r # _ \<Rightarrow>
          if rn_result r \<in> {''MATERIAL_DRIFT'', ''BROKER_UNAVAILABLE'', ''LOCAL_STATE_INVALID''} \<and> \<not> intent_is_exit i
          then Some (rn_result r) else None
      | [] \<Rightarrow> None)"

definition age_note :: "settings \<Rightarrow> int \<Rightarrow> order_intent \<Rightarrow> order_intent" where
  "age_note cfg now i =
     (case in_updated_at i of
        None \<Rightarrow> i
      | Some t \<Rightarrow>
          if fl (of_int (now - as_utc t) / 10 ^ 6) > of_int (cfg_order_submission_revalidation_max_age_seconds cfg)
          then i\<lparr>in_metadata := dset (in_metadata i) ''revalidation_warning'' (PStr ''approval_aged'')\<rparr> else i)"

definition intent_order_type :: "order_intent \<Rightarrow> string" where
  "intent_order_type i = (let t = pay_text (dget (in_metadata i) ''order_type'') in if t = [] then ''limit'' else t)"

definition intent_order ::
  "string \<Rightarrow> int \<Rightarrow> string \<Rightarrow> string option \<Rightarrow> string \<Rightarrow> int \<Rightarrow> (string \<times> payload) list \<Rightarrow> order_intent \<Rightarrow> order_row" where
  "intent_order oid now coid broker_id st submitted raw i =
     \<lparr>ord_id = oid, ord_broker_order_id = broker_id, ord_idempotency_key = coid, ord_symbol = in_symbol i, ord_side = in_side i,
      ord_qty = intent_quantity i, ord_order_type = intent_order_type i, ord_limit_price = in_entry_price i,
      ord_stop_price = in_stop_price i, ord_status = st, ord_decision_id = in_decision_id i,
      ord_submitted_at = Some submitted, ord_created_at = now, ord_raw_payload = raw\<rparr>"

definition add_order :: "order_row \<Rightarrow> 'b exec_state \<Rightarrow> 'b exec_state" where
  "add_order r es = set_desk ((es_desk es)\<lparr>dk_orders := dk_orders (es_desk es) @ [r]\<rparr>) es"

definition change_order :: "order_row \<Rightarrow> 'b exec_state \<Rightarrow> 'b exec_state" where
  "change_order r es = set_desk (put_order r (es_desk es)) es"

text \<open>The stored exit policy is the one the service wrote, so its fields have the types of \<open>ExitPolicy\<close>.\<close>

fun as_num :: "payload option \<Rightarrow> rat option" where
  "as_num (Some (PNum x)) = Some x"
| "as_num (Some (PInt n)) = Some (fl (of_int n))"
| "as_num _ = None"

definition exit_policy_of :: "order_intent \<Rightarrow> (string \<times> payload) list" where
  "exit_policy_of i =
     (let prior = in_exit_policy i
      in [(''stop_loss'', pay_num (if in_stop_price i \<noteq> None then in_stop_price i else as_num (dget prior ''stop_loss''))),
          (''invalidation_condition'', pay_str (as_str (dget prior ''invalidation_condition''))),
          (''take_profit_policy'', pay_str (as_str (dget prior ''take_profit_policy''))),
          (''max_holding_time_minutes'', pay_int (as_int (dget prior ''max_holding_time_minutes''))),
          (''closing_policy'', PStr (let c = pay_text (dget prior ''closing_policy'') in if c = [] then ''CLOSE_INTRADAY_ONLY'' else c)),
          (''overnight_allowed'', PBool (truthy (dget prior ''overnight_allowed''))),
          (''protection_submitted'', PBool False)])"

text \<open>The call to the broker and its three outcomes.\<close>

definition broker_step ::
  "'b broker_api \<Rightarrow> int \<Rightarrow> string \<Rightarrow> int option \<Rightarrow> order_row \<Rightarrow> order_intent \<Rightarrow> 'b exec_state \<Rightarrow> order_row py \<times> 'b exec_state" where
  "broker_step api now ven con row i es =
     (let rq = \<lparr>or_symbol = in_symbol i, or_side = (if lower (in_side i) = ''buy'' then BUY else SELL), or_qty = ord_qty row,
                or_order_type = ord_order_type row, or_limit_price = in_entry_price i, or_stop_price = in_stop_price i,
                or_idempotency_key = Some (ord_idempotency_key row), or_time_in_force = ''day'', or_venue = Some ven, or_con_id = con\<rparr>
      in case api_submit_order api rq (dk_broker (es_desk es)) of
           (Inr res, b) \<Rightarrow>
             (let row' = row\<lparr>ord_broker_order_id := Some (res_broker_order_id res), ord_status := status_value (res_status res),
                             ord_raw_payload := [(''intent_id'', PStr (in_id i)), (''broker'', PRaw (res_raw res)),
                               (''state'', PStr (os_value OS_SUBMITTED)), (''venue'', PStr ven), (''con_id'', pay_int con)]\<rparr>;
                  pol = exit_policy_of i;
                  i' = i\<lparr>in_status := is_value IS_SUBMITTED, in_exit_policy := pol,
                         in_metadata := dset (in_metadata i) ''exit_policy'' (PDict pol)\<rparr>
              in (Inr row', put_intent now i' (change_order row' (set_desk ((es_desk es)\<lparr>dk_broker := b\<rparr>) es))))
         | (Inl (TimeoutError m), b) \<Rightarrow>
             (Inl (TimeoutError m),
              put_intent now (i\<lparr>in_status := is_value IS_FAILED\<rparr>)
                (change_order (row\<lparr>ord_status := os_value OS_UNKNOWN,
                                   ord_raw_payload := [(''intent_id'', PStr (in_id i)),
                                     (''state'', PStr (os_value OS_RECONCILIATION_REQUIRED)), (''error'', PStr ''timeout'')]\<rparr>)
                  (set_desk ((es_desk es)\<lparr>dk_broker := b\<rparr>) es)))
         | (Inl e, b) \<Rightarrow>
             (Inl e,
              put_intent now (i\<lparr>in_status := is_value IS_FAILED\<rparr>)
                (change_order (row\<lparr>ord_status := os_value OS_FAILED,
                                   ord_raw_payload := [(''intent_id'', PStr (in_id i)), (''error'', PStr (take 300 (err_str e)))]\<rparr>)
                  (set_desk ((es_desk es)\<lparr>dk_broker := b\<rparr>) es))))"

text \<open>From the intent that passed every gate: recovery of a known client id, or a new order.\<close>

definition place_order ::
  "'b broker_api \<Rightarrow> settings \<Rightarrow> (nat \<Rightarrow> string) \<Rightarrow> int \<Rightarrow> string \<Rightarrow> order_intent \<Rightarrow> 'b exec_state \<Rightarrow> order_row py \<times> 'b exec_state" where
  "place_order api cfg uuid now coid i es =
     (let i1 = i\<lparr>in_status := is_value IS_SUBMITTING, in_client_order_id := Some coid\<rparr>; es1 = put_intent now i1 es
      in if intent_quantity i \<le> 0
         then (Inl (BrokerError ''quantity_zero''), put_intent now (i1\<lparr>in_status := is_value IS_FAILED\<rparr>) es)
         else (let ven = (let t = pay_text (dget (in_metadata i) ''venue'')
                          in if t \<noteq> [] then Inr t else py_bind (resolve_venue cfg None) (\<lambda>w. Inr (venue_value w)))
               in case py_bind ven (\<lambda>w. py_bind (int_or_zero (dget (in_metadata i) ''con_id'')) (\<lambda>c. Inr (w, nonzero (Some c)))) of
                    Inl e \<Rightarrow> (Inl e, es1)
                  | Inr (w, con) \<Rightarrow>
                      (case mint uuid es1 of (oid, es2) \<Rightarrow>
                         (let row = intent_order oid now coid None (os_value OS_SUBMITTING) now
                                [(''intent_id'', PStr (in_id i)), (''state'', PStr (os_value OS_SUBMITTING)), (''venue'', PStr w),
                                 (''con_id'', pay_int con)] i
                          in broker_step api now w con row i1 (add_order row es2)))))"

definition recover_order ::
  "(nat \<Rightarrow> string) \<Rightarrow> int \<Rightarrow> string \<Rightarrow> OrderResult \<Rightarrow> order_intent \<Rightarrow> 'b exec_state \<Rightarrow> order_row py \<times> 'b exec_state" where
  "recover_order uuid now coid remote i es =
     (case mint uuid es of (oid, es1) \<Rightarrow>
        (let row = intent_order oid now coid (Some (res_broker_order_id remote)) (status_value (res_status remote))
               (res_submitted_at remote) [(''recovered'', PBool True), (''intent_id'', PStr (in_id i))] i
         in (Inr row,
             put_intent now (i\<lparr>in_status := is_value IS_SUBMITTED, in_client_order_id := Some coid\<rparr>) (add_order row es1))))"

text \<open>After the last gate: note an aged approval, look for the client id at the broker, then place the order.\<close>

definition send_intent ::
  "'b broker_api \<Rightarrow> settings \<Rightarrow> (nat \<Rightarrow> string) \<Rightarrow> int \<Rightarrow> string \<Rightarrow> order_intent \<Rightarrow> 'b exec_state \<Rightarrow> order_row py \<times> 'b exec_state" where
  "send_intent api cfg uuid now coid i es =
     (let i' = age_note cfg now i; es' = (if i' = i then es else put_intent now i' es)
      in case api_get_order_by_client_id api of
           None \<Rightarrow> place_order api cfg uuid now coid i' es'
         | Some look \<Rightarrow>
             (case look coid (dk_broker (es_desk es')) of
                Inl e \<Rightarrow> (Inl e, es')
              | Inr (Some remote) \<Rightarrow> recover_order uuid now coid remote i' es'
              | Inr None \<Rightarrow> place_order api cfg uuid now coid i' es'))"

definition submit_intent ::
  "'b broker_api \<Rightarrow> settings \<Rightarrow> (string \<Rightarrow> string) \<Rightarrow> (nat \<Rightarrow> string) \<Rightarrow> int \<Rightarrow> int \<Rightarrow> string \<Rightarrow> 'b exec_state
   \<Rightarrow> order_row py \<times> 'b exec_state" where
  "submit_intent api cfg sha uuid now attempt iid es =
     (case find_intent iid es of
        None \<Rightarrow> (Inl (ValueError ''intent_not_found''), es)
      | Some i \<Rightarrow>
          if ts_value (tc_state (dk_controls (es_desk es))) = ''emergency_stop'' then (Inl (BrokerError ''emergency_stop_active''), es)
          else if \<not> cfg_enable_broker_orders cfg then (Inl (BrokerError ''enable_broker_orders_false''), es)
          else if \<not> cfg_enable_broker_connection cfg \<and> cfg_broker_provider cfg \<noteq> ''mock''
          then (Inl (BrokerError ''broker_connection_disabled''), es)
          else if in_status i \<notin> {is_value IS_APPROVED, is_value IS_SUBMITTED, is_value IS_SUBMITTING}
          then (Inl (ValueError (''submit_not_allowed_from:'' @ in_status i)), es)
          else
            (let coid = client_id_of sha attempt i
             in case find (\<lambda>r. ord_idempotency_key r = coid) (dk_orders (es_desk es)) of
                  Some r \<Rightarrow> (Inr r, es)
                | None \<Rightarrow>
                    if in_status i \<noteq> is_value IS_APPROVED then (Inl (ValueError (''submit_not_allowed_from:'' @ in_status i)), es)
                    else (case recon_blocks es i of
                            Some why \<Rightarrow> (Inl (BrokerError (''reconciliation_blocks_submit:'' @ why)), es)
                          | None \<Rightarrow>
                              (case py_bind (intent_expired now i) (\<lambda>ex.
                                      pretrade_validate cfg (dk_controls (es_desk es))
                                        (check_request i (intent_quantity i) (final_view cfg) ex)) of
                                 Inl e \<Rightarrow> (Inl e, es)
                               | Inr hard \<Rightarrow>
                                   if blocked (pr_status hard)
                                   then (Inl (BrokerError (''final_pretrade_blocked:'' @ join_with '','' (pr_violations hard))),
                                         put_intent now (i\<lparr>in_status := is_value IS_RISK_REJECTED\<rparr>) es)
                                   else send_intent api cfg uuid now coid i es))))"

section \<open>Frames\<close>

lemma set_desk_simps [simp]:
  "es_desk (set_desk dk es) = dk" "es_intents (set_desk dk es) = es_intents es" "es_approvals (set_desk dk es) = es_approvals es"
  "bo_runs (es_office (set_desk dk es)) = bo_runs (es_office es)"
  by (simp_all add: set_desk_def)

lemma put_intent_simps [simp]:
  "es_office (put_intent now i es) = es_office es" "es_approvals (put_intent now i es) = es_approvals es"
  by (simp_all add: put_intent_def)

lemma put_approval_simps [simp]:
  "es_office (put_approval a es) = es_office es" "es_intents (put_approval a es) = es_intents es"
  by (simp_all add: put_approval_def)

lemma mint_simps:
  assumes "mint uuid es = (x, es')"
  shows "dk_orders (es_desk es') = dk_orders (es_desk es)" "dk_broker (es_desk es') = dk_broker (es_desk es)"
    "es_intents es' = es_intents es" "es_approvals es' = es_approvals es" "x = uuid (dk_ids_used (es_desk es))"
    "dk_ids_used (es_desk es') = Suc (dk_ids_used (es_desk es))"
  using assms by (auto simp: mint_def fresh_id_def)

lemma change_order_keys: "map ord_idempotency_key (dk_orders (es_desk (change_order r es))) = map ord_idempotency_key (dk_orders (es_desk es))"
  if "\<And>x. x \<in> set (dk_orders (es_desk es)) \<Longrightarrow> ord_id x = ord_id r \<Longrightarrow> ord_idempotency_key x = ord_idempotency_key r"
  using that by (simp add: change_order_def put_order_def)

section \<open>One submission per intent\<close>

text \<open>Every branch of the broker call leaves an order under the row's key.\<close>

lemma broker_step_keeps:
  assumes "broker_step api now w con row i es = (res, es')" "row \<in> set (dk_orders (es_desk es))"
  shows "ord_idempotency_key row \<in> set (map ord_idempotency_key (dk_orders (es_desk es')))"
proof -
  have "ord_idempotency_key row \<in> set (map ord_idempotency_key (dk_orders (put_order row' dk)))"
    if "row \<in> set (dk_orders dk)" "ord_id row' = ord_id row" "ord_idempotency_key row' = ord_idempotency_key row" for row' and dk :: "'a desk"
    using that by (force simp: put_order_def)
  note this[simplified]
  then show ?thesis using assms
    by (auto simp: broker_step_def Let_def change_order_def split: prod.splits sum.splits py_error.splits)
qed

definition same_order :: "order_intent \<Rightarrow> order_intent \<Rightarrow> bool" where
  "same_order i j \<longleftrightarrow> in_workflow_run_id i = in_workflow_run_id j \<and> in_decision_id i = in_decision_id j \<and> in_id i = in_id j
     \<and> in_symbol i = in_symbol j \<and> in_side i = in_side j"

lemma same_order_client: "same_order i j \<Longrightarrow> client_id_of sha attempt i = client_id_of sha attempt j"
  by (simp add: same_order_def client_id_of_def)

lemma find_intent_id: "find_intent iid es = Some i \<Longrightarrow> in_id i = iid"
  by (auto simp: find_intent_def find_Some_iff)

lemma find_map_upd:
  "find (\<lambda>x. in_id x = iid) xs = Some y \<Longrightarrow> in_id j = iid \<Longrightarrow> find (\<lambda>x. in_id x = iid) (map (\<lambda>x. if in_id x = iid then j else x) xs) = Some j"
  by (induction xs) (auto split: if_splits)

lemma find_put_intent:
  "find_intent iid es = Some i0 \<Longrightarrow> in_id i = iid \<Longrightarrow> find_intent iid (put_intent now i es) = Some (i\<lparr>in_updated_at := Some (Aware now)\<rparr>)"
  using find_map_upd[of iid "es_intents es" i0 "i\<lparr>in_updated_at := Some (Aware now)\<rparr>"] by (auto simp: find_intent_def put_intent_def)

lemma find_intent_cong: "es_intents es' = es_intents es \<Longrightarrow> find_intent iid es' = find_intent iid es"
  by (simp add: find_intent_def)

lemma change_order_intents [simp]: "es_intents (change_order r es) = es_intents es" "es_intents (add_order r es) = es_intents es"
  "es_approvals (change_order r es) = es_approvals es" "es_approvals (add_order r es) = es_approvals es"
  "dk_broker (es_desk (add_order r es)) = dk_broker (es_desk es)"
  by (simp_all add: change_order_def add_order_def)

lemma broker_step_intent:
  assumes "broker_step api now w con row i es = (res, es')" "find_intent (in_id i) es = Some i0"
  shows "\<exists>j. find_intent (in_id i) es' = Some j \<and> same_order j i"
proof -
  have f: "\<exists>j. find_intent (in_id i) (put_intent now k s) = Some j \<and> same_order j i"
    if "es_intents s = es_intents es" "same_order k i" for k and s :: "'a exec_state"
  proof -
    have "find_intent (in_id i) s = Some i0" using that(1) assms(2) by (simp add: find_intent_def)
    from find_put_intent[OF this, of k now] that(2) show ?thesis by (auto simp: same_order_def)
  qed
  show ?thesis using assms(1)
    by (auto simp: broker_step_def Let_def same_order_def intro!: f[unfolded same_order_def] split: prod.splits sum.splits py_error.splits)
qed

lemma place_order_spec:
  assumes "place_order api cfg uuid now coid i es = (res, es')" "find_intent (in_id i) es = Some i0"
  shows "(dk_broker (es_desk es') \<noteq> dk_broker (es_desk es) \<longrightarrow> coid \<in> set (map ord_idempotency_key (dk_orders (es_desk es'))))
    \<and> (\<exists>j. find_intent (in_id i) es' = Some j \<and> same_order j i)"
proof -
  let ?i1 = "i\<lparr>in_status := is_value IS_SUBMITTING, in_client_order_id := Some coid\<rparr>"
  let ?ven = "py_bind (let t = pay_text (dget (in_metadata i) ''venue'')
                          in if t \<noteq> [] then Inr t else py_bind (resolve_venue cfg None) (\<lambda>w. Inr (venue_value w)))
     (\<lambda>w. py_bind (int_or_zero (dget (in_metadata i) ''con_id'')) (\<lambda>c. Inr (w, nonzero (Some c))))"
  have found: "\<exists>j. find_intent (in_id i) (put_intent now k es) = Some j \<and> same_order j i" if "same_order k i" for k
    using find_put_intent[OF assms(2), of k now] that by (auto simp: same_order_def)
  show ?thesis
  proof (cases "intent_quantity i \<le> 0")
    case True
    then have "es' = put_intent now (?i1\<lparr>in_status := is_value IS_FAILED\<rparr>) es" using assms(1) by (simp add: place_order_def Let_def)
    then show ?thesis using found[of "?i1\<lparr>in_status := is_value IS_FAILED\<rparr>"] by (simp add: same_order_def)
  next
    case pos: False
    show ?thesis
    proof (cases ?ven)
      case (Inl e)
      then have "es' = put_intent now ?i1 es" using assms(1) pos by (simp add: place_order_def Let_def)
      then show ?thesis using found[of ?i1] by (simp add: same_order_def)
    next
      case (Inr wc)
      obtain w con where wc: "wc = (w, con)" by (cases wc)
      obtain oid es2 where m: "mint uuid (put_intent now ?i1 es) = (oid, es2)" by fastforce
      define row where "row = intent_order oid now coid None (os_value OS_SUBMITTING) now
          [(''intent_id'', PStr (in_id i)), (''state'', PStr (os_value OS_SUBMITTING)), (''venue'', PStr w), (''con_id'', pay_int con)] i"
      have b: "broker_step api now w con row ?i1 (add_order row es2) = (res, es')"
        using assms(1) pos Inr wc m by (simp add: place_order_def Let_def row_def)
      have "row \<in> set (dk_orders (es_desk (add_order row es2)))" by (simp add: add_order_def)
      from broker_step_keeps[OF b this] have "coid \<in> set (map ord_idempotency_key (dk_orders (es_desk es')))"
        by (simp add: row_def intent_order_def)
      moreover have "find_intent (in_id ?i1) (add_order row es2) = Some (?i1\<lparr>in_updated_at := Some (Aware now)\<rparr>)"
        using find_put_intent[OF assms(2), of ?i1 now] mint_simps(3)[OF m] by (simp add: find_intent_def)
      from broker_step_intent[OF b this] have "\<exists>j. find_intent (in_id i) es' = Some j \<and> same_order j i" by (auto simp: same_order_def)
      ultimately show ?thesis by blast
    qed
  qed
qed

lemma age_note_same: "same_order (age_note cfg now i) i"
  by (auto simp: age_note_def same_order_def split: option.splits)

text \<open>An order under the client id settles the intent: nothing is done again.\<close>

lemma submit_settled:
  assumes "find_intent iid es = Some i" "client_id_of sha attempt i \<in> set (map ord_idempotency_key (dk_orders (es_desk es)))"
  shows "snd (submit_intent api cfg sha uuid now attempt iid es) = es"
proof -
  obtain r where "find (\<lambda>r. ord_idempotency_key r = client_id_of sha attempt i) (dk_orders (es_desk es)) = Some r"
    using assms(2) by (cases "find (\<lambda>r. ord_idempotency_key r = client_id_of sha attempt i) (dk_orders (es_desk es))")
      (auto simp: find_None_iff)
  then show ?thesis using assms(1) by (simp add: submit_intent_def Let_def)
qed

lemma submit_reaches_broker:
  assumes "submit_intent api cfg sha uuid now attempt iid es = (res, es')" "dk_broker (es_desk es') \<noteq> dk_broker (es_desk es)"
  obtains i i' i0 es0 where "find_intent iid es = Some i" "find_intent iid es0 = Some i0" "same_order i' i" "in_status i = is_value IS_APPROVED"
    "dk_broker (es_desk es0) = dk_broker (es_desk es)" "place_order api cfg uuid now (client_id_of sha attempt i) i' es0 = (res, es')"
    "recon_blocks es i = None" "cfg_enable_broker_orders cfg" "is_new_order_allowed (dk_controls (es_desk es))"
proof -
  obtain i where i: "find_intent iid es = Some i" using assms by (cases "find_intent iid es") (auto simp: submit_intent_def)
  let ?coid = "client_id_of sha attempt i"
  let ?hard = "py_bind (intent_expired now i) (\<lambda>ex. pretrade_validate cfg (dk_controls (es_desk es)) (check_request i (intent_quantity i) (final_view cfg) ex))"
  let ?i' = "age_note cfg now i"
  let ?es = "if ?i' = i then es else put_intent now ?i' es"
  have gates: "cfg_enable_broker_orders cfg" "in_status i = is_value IS_APPROVED" "recon_blocks es i = None"
    "find (\<lambda>r. ord_idempotency_key r = ?coid) (dk_orders (es_desk es)) = None"
    using assms i by (auto simp: submit_intent_def Let_def split: if_splits option.splits)
  have gates2: "ts_value (tc_state (dk_controls (es_desk es))) \<noteq> ''emergency_stop''"
    "cfg_enable_broker_connection cfg \<or> cfg_broker_provider cfg = ''mock''"
    using assms i by (auto simp: submit_intent_def simp del: ts_value.simps split: if_splits)
  obtain hard where h: "?hard = Inr hard" using assms i gates by (cases ?hard) (auto simp: submit_intent_def Let_def split: if_splits)
  have nb: "\<not> blocked (pr_status hard)" using assms i gates h by (auto simp: submit_intent_def Let_def split: if_splits)
  have act: "is_new_order_allowed (dk_controls (es_desk es))"
  proof (rule ccontr)
    assume "\<not> is_new_order_allowed (dk_controls (es_desk es))"
    then have "tc_state (dk_controls (es_desk es)) = PAUSED \<or> tc_state (dk_controls (es_desk es)) = EMERGENCY_STOP"
      by (cases "tc_state (dk_controls (es_desk es))") (simp_all add: is_new_order_allowed_def)
    then have "blocked (pr_status hard)"
      using h by (auto simp: py_bind_Inr_iff pretrade_validate_def pretrade_blocked_def blocked_def)
    then show False using nb by blast
  qed
  have b: "dk_broker (es_desk ?es) = dk_broker (es_desk es)" by simp
  have f: "\<exists>j. find_intent iid ?es = Some j" "in_id ?i' = iid"
    using i find_intent_id[OF i] age_note_same[of cfg now i] find_put_intent[OF i, of ?i' now] by (auto simp: same_order_def)
  have fi: "find_intent iid ?es = Some (?i'\<lparr>in_updated_at := (if ?i' = i then in_updated_at i else Some (Aware now))\<rparr>)"
    using i find_put_intent[OF i f(2), of now] by simp
  have sub: "(case api_get_order_by_client_id api of None \<Rightarrow> place_order api cfg uuid now ?coid ?i' ?es
      | Some look \<Rightarrow> (case look ?coid (dk_broker (es_desk ?es)) of Inl e \<Rightarrow> (Inl e, ?es)
          | Inr (Some remote) \<Rightarrow> recover_order uuid now ?coid remote ?i' ?es
          | Inr None \<Rightarrow> place_order api cfg uuid now ?coid ?i' ?es)) = (res, es')"
    using assms(1) i gates gates2 h nb
    by (cases "cfg_enable_broker_connection cfg") (simp_all add: submit_intent_def send_intent_def Let_def)
  have "place_order api cfg uuid now ?coid ?i' ?es = (res, es')"
  proof (cases "api_get_order_by_client_id api")
    case None
    then show ?thesis using sub by simp
  next
    case (Some look)
    have "look ?coid (dk_broker (es_desk es)) = Inr None"
    proof (cases "look ?coid (dk_broker (es_desk es))")
      case (Inl e)
      then have "es' = ?es" using sub Some b by simp
      then show ?thesis using assms(2) b by simp
    next
      case (Inr ro)
      show ?thesis
      proof (cases ro)
        case (Some remote)
        then have "recover_order uuid now ?coid remote ?i' ?es = (res, es')"
          using sub \<open>api_get_order_by_client_id api = Some look\<close> Inr b by simp
        then have "dk_broker (es_desk es') = dk_broker (es_desk ?es)"
          by (auto simp: recover_order_def Let_def mint_simps dest: mint_simps split: prod.splits)
        then show ?thesis using assms(2) b by simp
      qed (use Inr in simp)
    qed
    then show ?thesis using sub Some b by simp
  qed
  with i fi age_note_same gates b act show ?thesis by (metis that)
qed

text \<open>
  Property C8.  An intent is sent to the broker at most once.  When a submission has reached the broker, whatever the outcome
  (accepted, rejected or timed out), every later submission of the same intent and attempt, at any
  time and under any configuration, leaves the whole state unchanged: no order, no broker call.
\<close>

theorem intent_sent_once:
  assumes "submit_intent api cfg sha uuid now attempt iid es = (res, es')" "dk_broker (es_desk es') \<noteq> dk_broker (es_desk es)"
  shows "snd (submit_intent api' cfg' sha uuid' now' attempt iid es') = es'"
proof (rule submit_reaches_broker[OF assms])
  fix i i' i0 and es0 :: "'a exec_state"
  assume h: "find_intent iid es = Some i" "find_intent iid es0 = Some i0" "same_order i' i"
    "dk_broker (es_desk es0) = dk_broker (es_desk es)" "place_order api cfg uuid now (client_id_of sha attempt i) i' es0 = (res, es')"
  have "in_id i' = iid" using h(1,3) find_intent_id by (auto simp: same_order_def)
  with place_order_spec[OF h(5), of i0] h(2,4) assms(2) obtain j where j: "find_intent iid es' = Some j" "same_order j i'"
    "client_id_of sha attempt i \<in> set (map ord_idempotency_key (dk_orders (es_desk es')))" by auto
  have "client_id_of sha attempt j = client_id_of sha attempt i"
    using same_order_client[OF j(2)] same_order_client[OF h(3)] by simp
  then show ?thesis using submit_settled[OF j(1)] j(3) by simp
qed

section \<open>Nothing is sent without an operator's approval\<close>

datatype exec_op =
    OBuild int CIODecision validation_context bool
  | OValidate int string account_view
  | OApprove int string string
  | OReject int string string string
  | OSubmit int int string
  | OReconcile int string "BrokerBook py"

fun exec_effect ::
  "'b broker_api \<Rightarrow> settings \<Rightarrow> RiskEngine \<Rightarrow> (string \<Rightarrow> string) \<Rightarrow> (nat \<Rightarrow> string) \<Rightarrow> exec_op \<Rightarrow> 'b exec_state \<Rightarrow> 'b exec_state" where
  "exec_effect api cfg eng sha uuid (OBuild now d vc blk) es = snd (build_intents_from_decision cfg eng uuid now d vc blk es)"
| "exec_effect api cfg eng sha uuid (OValidate now iid av) es = snd (validate_intent cfg uuid now iid av es)"
| "exec_effect api cfg eng sha uuid (OApprove now iid who) es = snd (approve_intent now iid who es)"
| "exec_effect api cfg eng sha uuid (OReject now iid who why) es = snd (reject_intent now iid who why es)"
| "exec_effect api cfg eng sha uuid (OSubmit now attempt iid) es = snd (submit_intent api cfg sha uuid now attempt iid es)"
| "exec_effect api cfg eng sha uuid (OReconcile now ty book) es = es\<lparr>es_office := snd (reconcile uuid now ty book (es_office es))\<rparr>"

definition approved_by_operator :: "'b exec_state \<Rightarrow> string \<Rightarrow> bool" where
  "approved_by_operator es iid \<longleftrightarrow>
     (\<exists>a \<in> set (es_approvals es). oa_intent_id a = iid \<and> oa_status a = as_value AS_APPROVED
        \<and> (\<exists>t e. oa_acted_at a = Some t \<and> oa_expires_at a = Some e \<and> t \<le> as_utc e))"

definition RELEASED :: "string set" where
  "RELEASED = {is_value IS_APPROVED, is_value IS_SUBMITTING, is_value IS_SUBMITTED}"

definition approvals_ok :: "(nat \<Rightarrow> string) \<Rightarrow> 'b exec_state \<Rightarrow> bool" where
  "approvals_ok uuid es \<longleftrightarrow>
     distinct (map oa_id (es_approvals es)) \<and> oa_id ` set (es_approvals es) \<subseteq> uuid ` {..<dk_ids_used (es_desk es)}
     \<and> (\<forall>a \<in> set (es_approvals es). oa_expires_at a \<noteq> None)"

definition manual_inv :: "(nat \<Rightarrow> string) \<Rightarrow> 'b exec_state \<Rightarrow> bool" where
  "manual_inv uuid es \<longleftrightarrow>
     approvals_ok uuid es
     \<and> (\<forall>i \<in> set (es_intents es).
          (in_status i \<in> RELEASED \<longrightarrow> approved_by_operator es (in_id i))
          \<and> (in_status i = is_value IS_PENDING_APPROVAL \<longrightarrow> in_id i \<in> oa_intent_id ` set (es_approvals es)))"

text \<open>Replacing an intent's row: the rest keeps its approvals, the row brings its own.\<close>

lemma put_intent_inv:
  assumes "manual_inv uuid es"
    and "in_status i \<in> RELEASED \<Longrightarrow> approved_by_operator es (in_id i)"
    and "in_status i = is_value IS_PENDING_APPROVAL \<Longrightarrow> in_id i \<in> oa_intent_id ` set (es_approvals es)"
  shows "manual_inv uuid (put_intent now i es)"
  using assms unfolding manual_inv_def approvals_ok_def approved_by_operator_def
  by (auto simp: put_intent_def)

lemma manual_inv_frame:
  assumes "manual_inv uuid es" "es_intents es' = es_intents es" "es_approvals es' = es_approvals es"
    "dk_ids_used (es_desk es) \<le> dk_ids_used (es_desk es')"
  shows "manual_inv uuid es'"
proof -
  have "uuid ` {..<dk_ids_used (es_desk es)} \<subseteq> uuid ` {..<dk_ids_used (es_desk es')}" using assms(4) by (intro image_mono) auto
  then have "approvals_ok uuid es'" using assms(1,3) unfolding manual_inv_def approvals_ok_def assms(3) by (meson order_trans)
  moreover have "approved_by_operator es' = approved_by_operator es" using assms(3) by (auto simp: approved_by_operator_def)
  ultimately show ?thesis using assms(1) by (simp add: manual_inv_def assms(2,3))
qed

lemma mint_inv: "manual_inv uuid es \<Longrightarrow> mint uuid es = (x, es') \<Longrightarrow> manual_inv uuid es'"
proof -
  assume a: "manual_inv uuid es" "mint uuid es = (x, es')"
  show ?thesis by (rule manual_inv_frame[OF a(1) mint_simps(3,4)[OF a(2)]]) (simp add: mint_simps(6)[OF a(2)])
qed

lemma desk_order_inv:
  "manual_inv uuid es \<Longrightarrow> manual_inv uuid (add_order r es)" "manual_inv uuid es \<Longrightarrow> manual_inv uuid (change_order r es)"
  "manual_inv uuid es \<Longrightarrow> manual_inv uuid (set_desk ((es_desk es)\<lparr>dk_broker := b\<rparr>) es)"
  by (auto elim!: manual_inv_frame simp: add_order_def change_order_def put_order_def)

lemma approved_frame: "es_approvals es' = es_approvals es \<Longrightarrow> approved_by_operator es' iid = approved_by_operator es iid"
  by (simp add: approved_by_operator_def)

lemma broker_step_inv:
  assumes "manual_inv uuid es" "approved_by_operator es (in_id i)"
  shows "manual_inv uuid (snd (broker_step api now w con row i es))"
proof -
  have p: "manual_inv uuid (put_intent now k (change_order r (set_desk ((es_desk es)\<lparr>dk_broker := b\<rparr>) es)))"
    if "in_id k = in_id i" "in_status k \<noteq> is_value IS_PENDING_APPROVAL" for k r b
  proof (rule put_intent_inv)
    show "manual_inv uuid (change_order r (set_desk ((es_desk es)\<lparr>dk_broker := b\<rparr>) es))"
      by (intro desk_order_inv(2,3) assms(1))
    show "approved_by_operator (change_order r (set_desk ((es_desk es)\<lparr>dk_broker := b\<rparr>) es)) (in_id k)"
      unfolding that(1) using assms(2) by (subst approved_frame[of _ es]) simp_all
  qed (use that(2) in simp)
  obtain a b where "api_submit_order api
      \<lparr>or_symbol = in_symbol i, or_side = (if lower (in_side i) = ''buy'' then BUY else SELL), or_qty = ord_qty row,
       or_order_type = ord_order_type row, or_limit_price = in_entry_price i, or_stop_price = in_stop_price i,
       or_idempotency_key = Some (ord_idempotency_key row), or_time_in_force = ''day'', or_venue = Some w, or_con_id = con\<rparr>
      (dk_broker (es_desk es)) = (a, b)" by fastforce
  note ab = this
  show ?thesis
  proof (cases a)
    case (Inl e)
    then show ?thesis by (cases e) (simp_all add: broker_step_def Let_def ab p del: set_desk_simps)
  next
    case (Inr r)
    then show ?thesis by (simp add: broker_step_def Let_def ab p del: set_desk_simps)
  qed
qed

lemma place_order_inv:
  assumes "manual_inv uuid es" "approved_by_operator es (in_id i)"
  shows "manual_inv uuid (snd (place_order api cfg uuid now coid i es))"
proof -
  let ?i1 = "i\<lparr>in_status := is_value IS_SUBMITTING, in_client_order_id := Some coid\<rparr>"
  have p1: "manual_inv uuid (put_intent now ?i1 es)" "manual_inv uuid (put_intent now (?i1\<lparr>in_status := is_value IS_FAILED\<rparr>) es)"
    using assms by (auto intro!: put_intent_inv)
  have "manual_inv uuid (snd (broker_step api now w con row ?i1 (add_order row es2)))"
    if "mint uuid (put_intent now ?i1 es) = (oid, es2)" for w con row oid es2
    by (rule broker_step_inv) (use mint_inv[OF p1(1) that] desk_order_inv(1) mint_simps(4)[OF that] assms(2) in \<open>auto simp: approved_by_operator_def\<close>)
  then show ?thesis using p1 by (auto simp: place_order_def Let_def split: prod.splits sum.splits)
qed

lemma find_intent_mem: "find_intent iid es = Some i \<Longrightarrow> i \<in> set (es_intents es) \<and> in_id i = iid"
  by (auto simp: find_intent_def find_Some_iff)

lemma recover_inv:
  assumes "manual_inv uuid es" "approved_by_operator es (in_id i)"
  shows "manual_inv uuid (snd (recover_order uuid now coid remote i es))"
proof -
  obtain oid es1 where m: "mint uuid es = (oid, es1)" by fastforce
  have "manual_inv uuid (put_intent now (i\<lparr>in_status := is_value IS_SUBMITTED, in_client_order_id := Some coid\<rparr>) (add_order row es1))" for row
    by (rule put_intent_inv) (use mint_inv[OF assms(1) m] desk_order_inv(1) mint_simps(4)[OF m] assms(2) in \<open>auto simp: approved_by_operator_def\<close>)
  then show ?thesis by (simp add: recover_order_def m Let_def)
qed

lemma send_inv:
  assumes "manual_inv uuid es" "in_status i = is_value IS_APPROVED" "approved_by_operator es (in_id i)"
  shows "manual_inv uuid (snd (send_intent api cfg uuid now coid i es))"
proof -
  let ?i' = "age_note cfg now i"
  let ?es = "if ?i' = i then es else put_intent now ?i' es"
  have same: "in_id ?i' = in_id i" "in_status ?i' = in_status i" by (auto simp: age_note_def split: option.splits)
  have es: "manual_inv uuid ?es" "approved_by_operator ?es (in_id ?i')"
    using assms same approved_frame[of "put_intent now ?i' es" es] by (auto intro!: put_intent_inv)
  define s where "s = ?es"
  show ?thesis unfolding send_intent_def Let_def s_def[symmetric]
    using es place_order_inv[OF es] recover_inv[OF es] unfolding s_def[symmetric] by (simp split: option.split sum.split)
qed

lemma submit_inv_manual:
  assumes "manual_inv uuid es"
  shows "manual_inv uuid (snd (submit_intent api cfg sha uuid now attempt iid es))"
proof (cases "find_intent iid es")
  case (Some i)
  note mem = find_intent_mem[OF Some]
  have send: "in_status i = is_value IS_APPROVED \<Longrightarrow> manual_inv uuid (snd (send_intent api cfg uuid now coid i es))" for coid
    using assms mem by (intro send_inv) (auto simp: manual_inv_def RELEASED_def)
  have rej: "manual_inv uuid (put_intent now (i\<lparr>in_status := is_value IS_RISK_REJECTED\<rparr>) es)"
    using assms by (auto intro!: put_intent_inv simp: RELEASED_def)
  show ?thesis using assms rej send unfolding submit_intent_def Let_def Some option.case
    by (simp del: ts_value.simps split: option.split sum.split)
qed (use assms in \<open>simp add: submit_intent_def\<close>)

lemma create_intents_inv:
  "manual_inv uuid es \<Longrightarrow> manual_inv uuid (snd (create_intents uuid now wid hz px rej vs created es))"
proof (induction vs arbitrary: created es)
  case (Cons v vs)
  obtain iid es1 where m: "mint uuid es = (iid, es1)" by fastforce
  have "manual_inv uuid es1" by (rule mint_inv[OF Cons.prems m])
  then have "manual_inv uuid (es1\<lparr>es_intents := es_intents es1 @ [intent_from iid now wid hz px rej v]\<rparr>)"
    unfolding manual_inv_def approvals_ok_def approved_by_operator_def by (auto simp: intent_from_def Let_def RELEASED_def)
  then show ?case using Cons.IH by (simp add: m Let_def)
qed simp

lemma build_inv:
  assumes "manual_inv uuid es"
  shows "manual_inv uuid (snd (build_intents_from_decision cfg eng uuid now d vc blk es))"
  unfolding build_intents_from_decision_def Let_def
  by (simp add: assms split: sum.split) (simp add: case_prod_unfold create_intents_inv[OF assms])

lemma put_approval_inv:
  assumes "manual_inv uuid es" "a \<in> set (es_approvals es)" "oa_id a' = oa_id a" "oa_intent_id a' = oa_intent_id a" "oa_expires_at a' = oa_expires_at a"
    and "\<And>i. i \<in> set (es_intents es) \<Longrightarrow> in_id i = oa_intent_id a \<Longrightarrow> in_status i \<notin> RELEASED"
  shows "manual_inv uuid (put_approval a' es)"
proof -
  let ?f = "\<lambda>x. if oa_id x = oa_id a' then a' else x"
  have apps: "es_approvals (put_approval a' es) = map ?f (es_approvals es)" by (simp add: put_approval_def)
  have ok: "approvals_ok uuid es" using assms(1) by (simp add: manual_inv_def)
  then have same: "x = a" if "x \<in> set (es_approvals es)" "oa_id x = oa_id a'" for x
    using that assms(2,3) by (auto simp: approvals_ok_def distinct_map inj_on_def)
  have keys: "map oa_id (map ?f (es_approvals es)) = map oa_id (es_approvals es)"
    "map oa_intent_id (map ?f (es_approvals es)) = map oa_intent_id (es_approvals es)"
    "map oa_expires_at (map ?f (es_approvals es)) = map oa_expires_at (es_approvals es)"
    using same assms(3-5) by auto
  have ids: "oa_id ` set (map ?f (es_approvals es)) = oa_id ` set (es_approvals es)" by (metis keys(1) list.set_map)
  have iids: "oa_intent_id ` set (map ?f (es_approvals es)) = oa_intent_id ` set (es_approvals es)" by (metis keys(2) list.set_map)
  have exps: "oa_expires_at ` set (map ?f (es_approvals es)) = oa_expires_at ` set (es_approvals es)" by (metis keys(3) list.set_map)
  have "approvals_ok uuid (put_approval a' es)"
    using ok unfolding approvals_ok_def apps keys(1) ids by (metis (no_types, lifting) exps image_iff put_approval_simps(1))
  moreover have "approved_by_operator (put_approval a' es) iid" if "approved_by_operator es iid" "iid \<noteq> oa_intent_id a" for iid
  proof -
    from that(1) obtain x where x: "x \<in> set (es_approvals es)" "oa_intent_id x = iid" "oa_status x = as_value AS_APPROVED"
      "\<exists>t e. oa_acted_at x = Some t \<and> oa_expires_at x = Some e \<and> t \<le> as_utc e" by (auto simp: approved_by_operator_def)
    have "?f x = x" using same[OF x(1)] x(2) that(2) by auto
    then have "x \<in> set (map ?f (es_approvals es))" using x(1) by (metis (mono_tags, lifting) image_eqI list.set_map)
    then show ?thesis using x(2-) unfolding approved_by_operator_def apps by blast
  qed
  ultimately show ?thesis using assms(1,6) unfolding manual_inv_def apps iids by (metis put_approval_simps(2))
qed

lemma latest_mem: "latest_approval iid es = Some a \<Longrightarrow> a \<in> set (es_approvals es) \<and> oa_intent_id a = iid"
proof -
  assume l: "latest_approval iid es = Some a"
  define xs where "xs = rev (filter (\<lambda>a. oa_intent_id a = iid) (es_approvals es))"
  have "a \<in> set xs" using l by (cases xs) (auto simp: latest_approval_def xs_def[symmetric])
  then show ?thesis by (simp add: xs_def)
qed

lemma latest_None: "latest_approval iid es = None \<longleftrightarrow> iid \<notin> oa_intent_id ` set (es_approvals es)"
proof -
  define xs where "xs = rev (filter (\<lambda>a. oa_intent_id a = iid) (es_approvals es))"
  have "latest_approval iid es = None \<longleftrightarrow> xs = []" by (cases xs) (simp_all add: latest_approval_def xs_def[symmetric])
  then show ?thesis by (auto simp: xs_def filter_empty_conv)
qed

text \<open>An intent that is being decided is parked first; its approval is then free to change.\<close>

lemma put_both_inv:
  assumes "manual_inv uuid es" "a \<in> set (es_approvals es)" "oa_id a' = oa_id a" "oa_intent_id a' = oa_intent_id a" "oa_expires_at a' = oa_expires_at a"
    and "in_id i = oa_intent_id a" "in_status i \<notin> RELEASED \<or> (oa_status a' = as_value AS_APPROVED \<and> (\<exists>t e. oa_acted_at a' = Some t \<and> oa_expires_at a' = Some e \<and> t \<le> as_utc e))"
  shows "manual_inv uuid (put_intent now i (put_approval a' es))"
proof -
  let ?park = "put_intent now (i\<lparr>in_status := []\<rparr>) es"
  have park: "manual_inv uuid ?park" by (rule put_intent_inv[OF assms(1)]) (simp_all add: RELEASED_def)
  have "manual_inv uuid (put_approval a' ?park)"
  proof (rule put_approval_inv[OF park _ assms(3-5)])
    show "a \<in> set (es_approvals ?park)" using assms(2) by simp
    show "in_status j \<notin> RELEASED" if "j \<in> set (es_intents ?park)" "in_id j = oa_intent_id a" for j
      using that assms(6) by (auto simp: put_intent_def RELEASED_def split: if_splits)
  qed
  moreover have a': "a' \<in> set (es_approvals (put_approval a' es))" using assms(2,3) by (force simp: put_approval_def)
  moreover have "put_intent now i (put_approval a' ?park) = put_intent now i (put_approval a' es)"
    by (simp add: put_intent_def put_approval_def comp_def)
  moreover have "manual_inv uuid (put_intent now i (put_approval a' ?park))"
  proof (rule put_intent_inv)
    show "manual_inv uuid (put_approval a' ?park)" by fact
    have "a' \<in> set (es_approvals (put_approval a' ?park))" using a' by (simp add: put_approval_def)
    then show "in_status i \<in> RELEASED \<Longrightarrow> approved_by_operator (put_approval a' ?park) (in_id i)"
      "in_status i = is_value IS_PENDING_APPROVAL \<Longrightarrow> in_id i \<in> oa_intent_id ` set (es_approvals (put_approval a' ?park))"
      using assms(4,6,7) unfolding approved_by_operator_def by (metis, metis image_eqI)
  qed
  ultimately show ?thesis by simp
qed

lemma approve_inv:
  assumes "manual_inv uuid es"
  shows "manual_inv uuid (snd (approve_intent now iid who es))"
proof (cases "find_intent iid es")
  case (Some i)
  note mem = find_intent_mem[OF Some]
  show ?thesis
  proof (cases "in_status i = is_value IS_PENDING_APPROVAL")
    case True
    then have "in_id i \<in> oa_intent_id ` set (es_approvals es)" using assms mem by (auto simp: manual_inv_def)
    then obtain a where a: "latest_approval iid es = Some a" using latest_None[of iid es] mem by (cases "latest_approval iid es") auto
    note am = latest_mem[OF a]
    have ex: "\<exists>e. oa_expires_at a = Some e" using assms am by (auto simp: manual_inv_def approvals_ok_def)
    have "manual_inv uuid (put_intent now (i\<lparr>in_status := is_value IS_EXPIRED\<rparr>) (put_approval (a\<lparr>oa_status := as_value AS_EXPIRED\<rparr>) es))"
      by (rule put_both_inv[OF assms conjunct1[OF am]]) (use mem am in \<open>auto simp: RELEASED_def\<close>)
    moreover have "\<not> approval_expired now a \<Longrightarrow> manual_inv uuid (put_intent now (i\<lparr>in_approval_id := Some (oa_id a), in_status := is_value IS_APPROVED\<rparr>)
        (put_approval (a\<lparr>oa_status := as_value AS_APPROVED, oa_acted_by := Some who, oa_acted_at := Some now\<rparr>) es))"
      by (rule put_both_inv[OF assms conjunct1[OF am]]) (use mem am ex in \<open>auto simp: approval_expired_def\<close>)
    ultimately show ?thesis using Some True a by (simp add: approve_intent_def Let_def)
  qed (use assms Some in \<open>simp add: approve_intent_def\<close>)
qed (use assms in \<open>simp add: approve_intent_def\<close>)

lemma reject_inv:
  assumes "manual_inv uuid es"
  shows "manual_inv uuid (snd (reject_intent now iid who why es))"
proof (cases "find_intent iid es")
  case (Some i)
  note mem = find_intent_mem[OF Some]
  show ?thesis
  proof (cases "latest_approval iid es")
    case None
    have "manual_inv uuid (put_intent now (i\<lparr>in_status := is_value IS_REJECTED\<rparr>) es)"
      by (rule put_intent_inv[OF assms]) (simp_all add: RELEASED_def)
    then show ?thesis using Some None by (simp add: reject_intent_def Let_def)
  next
    case (Some a)
    note am = latest_mem[OF Some]
    have "manual_inv uuid (put_intent now (i\<lparr>in_status := is_value IS_REJECTED\<rparr>)
       (put_approval (a\<lparr>oa_status := as_value AS_REJECTED, oa_acted_by := Some who, oa_acted_at := Some now, oa_reason := Some why\<rparr>) es))"
      by (rule put_both_inv[OF assms conjunct1[OF am]]) (use mem am in \<open>auto simp: RELEASED_def\<close>)
    then show ?thesis using Some \<open>find_intent iid es = Some i\<close> by (simp add: reject_intent_def Let_def)
  qed
qed (use assms in \<open>simp add: reject_intent_def\<close>)

lemma pretrade_manual:
  assumes "cfg_require_manual_order_approval cfg" "pretrade_validate cfg snap q = Inr res"
  shows "pr_status res \<in> {PT_REJECTED, PT_SYSTEM_BLOCKED, PT_REQUIRES_MANUAL_APPROVAL}"
proof -
  have b: "pr_status (pretrade_blocked q vs) \<in> {PT_REJECTED, PT_SYSTEM_BLOCKED, PT_REQUIRES_MANUAL_APPROVAL}" for vs
    by (simp add: pretrade_blocked_def)
  have v: "pr_status (pretrade_verdict cfg q sz) \<in> {PT_REJECTED, PT_SYSTEM_BLOCKED, PT_REQUIRES_MANUAL_APPROVAL}" for sz
    using assms(1) by (simp add: pretrade_verdict_def Let_def)
  obtain vs sz where "res = pretrade_blocked q vs \<or> res = pretrade_verdict cfg q sz"
    using assms(2) unfolding pretrade_validate_def by (auto simp: py_bind_Inr_iff simp del: ts_value.simps split: if_splits)
  then show ?thesis using b v by blast
qed

lemma validate_inv_manual:
  assumes "inj uuid" "cfg_require_manual_order_approval cfg" "manual_inv uuid es"
  shows "manual_inv uuid (snd (validate_intent cfg uuid now iid av es))"
proof (cases "find_intent iid es")
  case None
  then show ?thesis using assms by (simp add: validate_intent_def)
next
  case (Some i0)
  note mem = find_intent_mem[OF Some]
  let ?i = "i0\<lparr>in_status := is_value IS_VALIDATING\<rparr>"
  let ?es0 = "put_intent now ?i es"
  let ?chk = "py_bind (intent_expired now ?i) (\<lambda>ex. pretrade_validate cfg (dk_controls (es_desk es)) (check_request ?i (or_float (in_quantity ?i) 0) av ex))"
  have es0: "manual_inv uuid ?es0" by (rule put_intent_inv[OF assms(3)]) (simp_all add: RELEASED_def)
  show ?thesis
  proof (cases ?chk)
    case (Inl e)
    then show ?thesis using Some es0 by (simp add: validate_intent_def Let_def)
  next
    case (Inr res)
    obtain cid es1 where m: "mint uuid ?es0 = (cid, es1)" by fastforce
    define es2 where "es2 = es1\<lparr>es_checks := es_checks es1 @ [\<lparr>rc_id = cid, rc_intent_id = iid, rc_decision_id = in_decision_id ?i,
        rc_status = pt_value (pr_status res), rc_payload = res\<rparr>]\<rparr>"
    have es2: "manual_inv uuid es2"
      by (rule manual_inv_frame[OF mint_inv[OF es0 m]]) (simp_all add: es2_def)
    define i' where "i' = ?i\<lparr>in_risk_check_id := Some cid, in_approved_quantity := Some (pr_approved_quantity res),
        in_status := checked_status cfg (pr_status res) (in_status ?i)\<rparr>"
    have st: "in_status i' \<notin> RELEASED" "in_id i' = iid"
      using assms(2) mem by (auto simp: i'_def checked_status_def RELEASED_def)
    have "pr_status res \<noteq> PT_APPROVED \<and> pr_status res \<noteq> PT_APPROVED_WITH_REDUCTION"
      using Inr pretrade_manual[OF assms(2)] unfolding py_bind_Inr_iff by fastforce
    then have pend: "in_status i' = is_value IS_PENDING_APPROVAL \<Longrightarrow> pr_status res = PT_REQUIRES_MANUAL_APPROVAL"
      by (auto simp: i'_def checked_status_def split: if_splits)
    show ?thesis
    proof (cases "pr_status res = PT_REQUIRES_MANUAL_APPROVAL")
      case False
      have "manual_inv uuid (put_intent now i' es2)" by (rule put_intent_inv[OF es2]) (use st pend False in auto)
      then show ?thesis using Some Inr m False by (simp add: validate_intent_def Let_def es2_def i'_def)
    next
      case True
      have e3: "manual_inv uuid (put_intent now (i'\<lparr>in_status := []\<rparr>) es2)" by (rule put_intent_inv[OF es2]) (simp_all add: RELEASED_def)
      obtain aid es4 where m4: "mint uuid (put_intent now i' es2) = (aid, es4)" by fastforce
      define ap where "ap = \<lparr>oa_id = aid, oa_intent_id = iid, oa_status = as_value AS_PENDING_APPROVAL, oa_acted_by = None, oa_acted_at = None,
          oa_expires_at = Some (Aware (now + minutes (cfg_order_approval_expiry_minutes cfg))), oa_reason = None\<rparr>"
      have used: "dk_ids_used (es_desk es4) = Suc (dk_ids_used (es_desk es2))" "aid = uuid (dk_ids_used (es_desk es2))"
        using mint_simps(5,6)[OF m4] by simp_all
      have ok2: "approvals_ok uuid es2" using es2 by (simp add: manual_inv_def)
      have "aid \<notin> uuid ` {..<dk_ids_used (es_desk es2)}" using assms(1) by (simp add: used(2) inj_image_mem_iff)
      then have ok4: "approvals_ok uuid (es4\<lparr>es_approvals := es_approvals es4 @ [ap]\<rparr>)"
        using ok2 mint_simps(4)[OF m4] used unfolding approvals_ok_def by (auto simp: ap_def lessThan_Suc)
      have "in_status j \<in> RELEASED \<Longrightarrow> approved_by_operator es2 (in_id j)"
        "in_status j = is_value IS_PENDING_APPROVAL \<Longrightarrow> in_id j \<in> insert iid (oa_intent_id ` set (es_approvals es2))"
        if "j \<in> set (es_intents (put_intent now i' es2))" for j
        using that es2 st by (auto simp: put_intent_def manual_inv_def)
      then have "manual_inv uuid (es4\<lparr>es_approvals := es_approvals es4 @ [ap]\<rparr>)"
        using ok4 mint_simps(3,4)[OF m4] unfolding manual_inv_def approved_by_operator_def by (auto simp: ap_def)
      then show ?thesis using Some Inr m True m4 by (simp add: validate_intent_def Let_def es2_def i'_def ap_def)
    qed
  qed
qed

lemma close_ids: "dk_ids_used (fold (\<lambda>r. put_order (close_stale r)) rows dk) = dk_ids_used dk"
  by (induction rows arbitrary: dk) (simp_all add: put_order_def)

lemma reconcile_ids: "dk_ids_used (bo_desk bo) \<le> dk_ids_used (bo_desk (snd (reconcile uuid now ty book bo)))"
proof (cases book)
  case (Inr k)
  obtain a dk1 where ad: "adopt_remote_orders uuid now (to_adopt k (bo_desk bo)) (bo_desk bo) = (a, dk1)" by fastforce
  obtain iss dk2 where c: "compare_books (bo_runs bo) (bk_orders k) (book_ids k) dk1 = (iss, dk2)" by fastforce
  have "dk_ids_used (bo_desk bo) \<le> dk_ids_used dk1" using ad by (auto simp: adopt_remote_orders_def Let_def split: if_splits)
  also have "dk_ids_used dk1 = dk_ids_used dk2" using c by (auto simp: compare_books_def Let_def close_stale_local_opens_def close_ids split: if_splits)
  finally show ?thesis using Inr ad c by (cases a) (simp_all add: reconcile_def Let_def fresh_id_def)
qed (simp add: reconcile_def fresh_id_def Let_def)

lemma exec_effect_inv:
  assumes "inj uuid" "cfg_require_manual_order_approval cfg" "manual_inv uuid es"
  shows "manual_inv uuid (exec_effect api cfg eng sha uuid c es)"
proof (cases c)
  case (OReconcile now ty book)
  then show ?thesis using reconcile_ids[of "es_office es" uuid now ty book] by (auto intro: manual_inv_frame[OF assms(3)])
qed (use assms in \<open>simp_all add: build_inv validate_inv_manual approve_inv reject_inv submit_inv_manual\<close>)

text \<open>
  Property C5.  Where manual approval is required, nothing reaches the broker without it.  From new intents and after any interleaving of
  building, checking, approving, rejecting, submitting and reconciling, a submission that changes the
  broker's state is of an intent for which an operator's approval is on record, given before it
  expired; trading is then active and the last reconciliation does not block the intent.
\<close>

theorem manual_approval_enforced:
  assumes "inj uuid" "cfg_require_manual_order_approval cfg" "\<forall>i \<in> set (es_intents es0). in_status i = is_value IS_CREATED" "es_approvals es0 = []"
    and "es = fold (exec_effect api cfg eng sha uuid) ops es0"
    and "submit_intent api cfg sha uuid now attempt iid es = (res, es')" "dk_broker (es_desk es') \<noteq> dk_broker (es_desk es)"
  shows "approved_by_operator es iid \<and> is_new_order_allowed (dk_controls (es_desk es))
    \<and> (\<exists>i. find_intent iid es = Some i \<and> recon_blocks es i = None)"
proof -
  have start: "manual_inv uuid es0" using assms(3,4) by (simp add: manual_inv_def approvals_ok_def RELEASED_def)
  have "manual_inv uuid s \<Longrightarrow> manual_inv uuid (fold (exec_effect api cfg eng sha uuid) cs s)" for s cs
  proof (induction cs arbitrary: s)
    case (Cons c cs)
    show ?case using Cons.IH[OF exec_effect_inv[OF assms(1,2) Cons.prems]] by simp
  qed simp
  then have inv: "manual_inv uuid es" using start assms(5) by blast
  show ?thesis
  proof (rule submit_reaches_broker[OF assms(6,7)])
    fix i
    assume i: "find_intent iid es = Some i" "in_status i = is_value IS_APPROVED" "recon_blocks es i = None"
      "is_new_order_allowed (dk_controls (es_desk es))"
    have "approved_by_operator es iid" using inv find_intent_mem[OF i(1)] i(2) by (auto simp: manual_inv_def RELEASED_def)
    then show ?thesis using i by blast
  qed
qed

section \<open>Exits on the manual path\<close>

text \<open>
  With short selling disabled no sell is ever placed on this path: the final check is made with a position of
  zero, so a sell of more than a rounding error is refused as a short sale whatever is held, and
  the order table, the broker and the reconciliation runs stay as they were.
\<close>

theorem sells_never_submitted:
  assumes "find_intent iid es = Some i" "lower (in_side i) = ''sell''" "fl (1 / 10 ^ 9) < intent_quantity i" "\<not> cfg_enable_short_selling cfg"
  shows "es_office (snd (submit_intent api cfg sha uuid now attempt iid es)) = es_office es"
proof -
  let ?hard = "py_bind (intent_expired now i) (\<lambda>ex. pretrade_validate cfg (dk_controls (es_desk es)) (check_request i (intent_quantity i) (final_view cfg) ex))"
  have "''short_selling_disabled'' \<in> set (gate_violations cfg (check_request i (intent_quantity i) (final_view cfg) ex))" for ex
    using assms(2-4) by (simp add: gate_violations_def check_request_def final_view_def fadd_def)
  then have ne: "gate_violations cfg (check_request i (intent_quantity i) (final_view cfg) ex) \<noteq> []" for ex by (metis empty_iff empty_set)
  have blk: "blocked (pr_status hard)" if "?hard = Inr hard" for hard
    using that ne by (auto simp: py_bind_Inr_iff pretrade_validate_def pretrade_blocked_def pretrade_verdict_def Let_def blocked_def split: if_splits)
  show ?thesis
  proof (cases ?hard)
    case (Inl e)
    then show ?thesis using assms(1) by (auto simp: submit_intent_def Let_def simp del: ts_value.simps split: option.splits)
  next
    case (Inr hard)
    then show ?thesis using assms(1) blk[OF Inr] by (auto simp: submit_intent_def Let_def simp del: ts_value.simps split: option.splits)
  qed
qed

section \<open>A sample intent\<close>

definition sample_intent :: "string \<Rightarrow> IntentStatus \<Rightarrow> order_intent" where
  "sample_intent side st =
     \<lparr>in_id = ''i1'', in_decision_id = None, in_workflow_run_id = None, in_symbol = ''SPY'', in_intent_type = ''OPEN_LONG'',
      in_side = side, in_quantity = Some 10, in_approved_quantity = None, in_entry_price = Some 100, in_stop_price = Some 95,
      in_status = is_value st, in_client_order_id = None, in_risk_check_id = None, in_approval_id = None, in_thesis = None,
      in_expires_at = None, in_exit_policy = [], in_metadata = [(''venue'', PStr ''US'')], in_updated_at = Some (Aware 0)\<rparr>"

definition sample_exec :: "order_intent \<Rightarrow> MockBroker exec_state" where
  "sample_exec i = \<lparr>es_office = sample_office\<lparr>bo_desk := sample_desk\<rparr>, es_intents = [i], es_approvals = [], es_checks = []\<rparr>"

definition sample_manual :: settings where
  "sample_manual = default_settings\<lparr>cfg_enable_broker_orders := True, cfg_require_manual_order_approval := True\<rparr>"

definition sample_exec_view :: account_view where
  "sample_exec_view = (final_view sample_manual)\<lparr>av_gross_exposure := 0\<rparr>"

abbreviation sample_ops :: "exec_op list" where
  "sample_ops \<equiv> [OValidate 1 ''i1'' sample_exec_view, OApprove 2 ''i1'' ''operator'']"

abbreviation sample_released :: "MockBroker exec_state" where
  "sample_released \<equiv> fold (exec_effect sample_api sample_manual (engine_from_settings sample_manual) id sample_uuid) sample_ops (sample_exec (sample_intent ''buy'' IS_CREATED))"

lemma sample_reaches:
  "let r = sample_released in
    mb_orders (dk_broker (es_desk r)) = []
    \<and> mb_orders (dk_broker (es_desk (snd (submit_intent sample_api sample_manual id sample_uuid 3 1 ''i1'' r)))) \<noteq> []"
  by code_simp

lemma sample_sent: "dk_broker (es_desk (snd (submit_intent sample_api sample_manual id sample_uuid 3 1 ''i1'' sample_released)))
    \<noteq> dk_broker (es_desk sample_released)"
  using sample_reaches unfolding Let_def by metis

theorem manual_approval_enforced_witness: "approved_by_operator sample_released ''i1''"
proof -
  obtain res es' where s: "submit_intent sample_api sample_manual id sample_uuid 3 1 ''i1'' sample_released = (res, es')" by fastforce
  then have "dk_broker (es_desk es') \<noteq> dk_broker (es_desk sample_released)" using sample_sent by simp
  from manual_approval_enforced[OF sample_uuid_inj _ _ _ refl s this] show ?thesis
    by (simp add: sample_manual_def sample_exec_def sample_intent_def)
qed

theorem intent_sent_once_witness:
  "let es' = snd (submit_intent sample_api sample_manual id sample_uuid 3 1 ''i1'' sample_released)
   in snd (submit_intent sample_api sample_manual id sample_uuid 4 1 ''i1'' es') = es'"
proof -
  obtain res es' where s: "submit_intent sample_api sample_manual id sample_uuid 3 1 ''i1'' sample_released = (res, es')" by fastforce
  then have "dk_broker (es_desk es') \<noteq> dk_broker (es_desk sample_released)" using sample_sent by simp
  from intent_sent_once[OF s this] show ?thesis unfolding s by simp
qed

theorem sells_never_submitted_witness:
  "es_office (snd (submit_intent sample_api sample_manual id sample_uuid 3 1 ''i1'' (sample_exec (sample_intent ''sell'' IS_APPROVED))))
     = es_office (sample_exec (sample_intent ''sell'' IS_APPROVED))"
proof (rule sells_never_submitted)
  show "find_intent ''i1'' (sample_exec (sample_intent ''sell'' IS_APPROVED)) = Some (sample_intent ''sell'' IS_APPROVED)"
    by (simp add: find_intent_def sample_exec_def sample_intent_def)
  show "lower (in_side (sample_intent ''sell'' IS_APPROVED)) = ''sell''" by code_simp
  show "fl (1 / 10 ^ 9) < intent_quantity (sample_intent ''sell'' IS_APPROVED)" by code_simp
  show "\<not> cfg_enable_short_selling sample_manual" by code_simp
qed

end
