(* ===== verification/Fifo_Ledger.thy ===== *)
theory Fifo_Ledger
  imports Event_Bus "HOL-Library.While_Combinator" "HOL-Library.Product_Lexorder" "HOL-Library.List_Lexorder"
    "HOL-Library.Char_ord" "HOL-Library.Multiset"
begin

text \<open>
  \<open>intraday/pnl.py\<close> and \<open>intraday/fills.py\<close>: first-in first-out profit and loss.  A single fill applied to the open lots
  (\<open>apply_fill_fifo\<close>, its loop a \<open>while_option\<close>), the ledger rebuilt from all executions (\<open>reconstruct_fifo\<close>), the fills read from
  execution rows, and the stamp of a closed lifecycle.  A price is never NaN in the model.  A Python set whose only
  use is its single element is the list of its members.
\<close>

section \<open>One fill against the open lots\<close>

record Lot =
  lot_quantity :: rat
  lot_price :: rat
  lot_opened_at :: datetime

record PnLResult =
  pl_gross_realized :: rat
  pl_net_realized :: rat
  pl_unrealized :: rat
  pl_fees :: rat
  pl_estimated_slippage :: rat
  pl_return_pct :: rat
  pl_risk_adjusted_return :: "rat option"
  pl_method :: string
  pl_remaining_lots :: "Lot list"
  pl_conflict_with_broker :: bool
  pl_unmatched_quantity :: rat

definition QTY_EPS :: rat where
  "QTY_EPS = fl (1 / 10 ^ 12)"

text \<open>The variables of the loop: the remaining lots, the realized amount and the quantity left.\<close>

type_synonym sell_vars = "Lot list \<times> rat \<times> rat"

fun selling :: "sell_vars \<Rightarrow> bool" where
  "selling (remaining, realized, qty_left) \<longleftrightarrow> QTY_EPS < qty_left \<and> remaining \<noteq> []"

fun sell_step :: "rat \<Rightarrow> sell_vars \<Rightarrow> sell_vars" where
  "sell_step price ([], realized, qty_left) = ([], realized, qty_left)"
| "sell_step price (lot # rest, realized, qty_left) =
     (let tk = min (lot_quantity lot) qty_left;
          q = fsub (lot_quantity lot) tk
      in (if q \<le> QTY_EPS then rest else lot\<lparr>lot_quantity := q\<rparr> # rest,
          fadd realized (fmul (fsub price (lot_price lot)) tk),
          fsub qty_left tk))"

definition sell_loop :: "rat \<Rightarrow> sell_vars \<Rightarrow> sell_vars option" where
  "sell_loop price = while_option selling (sell_step price)"

definition pnl_result ::
  "rat \<Rightarrow> rat \<Rightarrow> rat \<Rightarrow> rat option \<Rightarrow> rat \<Rightarrow> rat option \<Rightarrow> sell_vars \<Rightarrow> rat \<Rightarrow> PnLResult" where
  "pnl_result price fee slippage mark_price equity broker_realized vars unmatched =
     (case vars of (remaining, realized, qty_left) \<Rightarrow>
        (let mark = (case mark_price of Some m \<Rightarrow> m | None \<Rightarrow> price);
             unrealized = fsum (map (\<lambda>lot. fmul (fsub mark (lot_price lot)) (lot_quantity lot)) remaining);
             net = fsub (fsub realized fee) slippage;
             ret = (if equity \<noteq> 0 then fmul (fdiv net equity) 100 else 0)
         in \<lparr>pl_gross_realized = fround 4 realized, pl_net_realized = fround 4 net, pl_unrealized = fround 4 unrealized,
             pl_fees = fee, pl_estimated_slippage = slippage, pl_return_pct = fround 6 ret, pl_risk_adjusted_return = None,
             pl_method = ''FIFO'', pl_remaining_lots = remaining,
             pl_conflict_with_broker =
               (case broker_realized of None \<Rightarrow> False | Some b \<Rightarrow> fl (1 / 100) < \<bar>fsub b realized\<bar>),
             pl_unmatched_quantity = fround 8 unmatched\<rparr>))"

text \<open>\<open>None\<close> is a call that does not return.\<close>

definition apply_fill_fifo ::
  "datetime \<Rightarrow> Lot list \<Rightarrow> string \<Rightarrow> rat \<Rightarrow> rat \<Rightarrow> rat \<Rightarrow> rat \<Rightarrow> rat option \<Rightarrow> rat \<Rightarrow> rat option \<Rightarrow> datetime option
   \<Rightarrow> PnLResult option" where
  "apply_fill_fifo now lots side quantity price fee slippage mark_price equity broker_realized executed_at =
     (let opened = (case executed_at of Some t \<Rightarrow> t | None \<Rightarrow> now);
          result = pnl_result price fee slippage mark_price equity broker_realized
      in if lower side = ''buy''
         then Some (result (lots @ [\<lparr>lot_quantity = quantity, lot_price = price, lot_opened_at = opened\<rparr>], 0, quantity) 0)
         else (case sell_loop price (lots, 0, quantity) of
                 None \<Rightarrow> None
               | Some vars \<Rightarrow>
                   (let qty_left = snd (snd vars)
                    in Some (result vars (if QTY_EPS < qty_left then qty_left else 0)))))"

section \<open>Records of the ledger\<close>

record FillRecord =
  fr_symbol :: string
  fr_side :: string
  fr_quantity :: rat
  fr_price :: rat
  fr_executed_at :: "datetime option"
  fr_venue :: string
  fr_currency :: string
  fr_exchange :: string
  fr_account :: string
  fr_fee :: "rat option"
  fr_fill_id :: string

record FifoClose =
  fc_symbol :: string
  fc_venue :: string
  fc_currency :: string
  fc_exchange :: string
  fc_account :: string
  fc_quantity :: rat
  fc_entry_price :: "rat option"
  fc_exit_price :: "rat option"
  fc_opened_at :: "int option"
  fc_closed_at :: "int option"
  fc_gross_pnl :: "rat option"
  fc_fee :: "rat option"
  fc_basis :: string

record OpenLot =
  ol_quantity :: rat
  ol_price :: rat
  ol_opened_at :: int
  ol_fee_per_share :: "rat option"

record FifoBook =
  fb_account :: string
  fb_venue :: string
  fb_currency :: string
  fb_exchange :: string
  fb_symbol :: string
  fb_closes :: "FifoClose list"
  fb_open_lots :: "OpenLot list"

record FifoLedger =
  fl_books :: "FifoBook list"
  fl_skipped_fills :: nat
  fl_unobserved_adjustments :: "string list"

definition UNOBSERVED_ADJUSTMENTS :: "string list" where
  "UNOBSERVED_ADJUSTMENTS = [''dividend'', ''split'', ''fx'', ''cash_transfer'']"

section \<open>Identity of a book\<close>

definition blank :: "string \<Rightarrow> bool" where
  "blank v \<longleftrightarrow> upper (strip v) \<in> {'''', ''UNKNOWN''}"

text \<open>Grouping into a dictionary of lists, in the order of first appearance.\<close>

definition group_by :: "('a \<Rightarrow> 'k) \<Rightarrow> 'a list \<Rightarrow> ('k \<times> 'a list) list" where
  "group_by key xs =
     foldl (\<lambda>d x. dset d (key x) ((case dget d (key x) of None \<Rightarrow> [] | Some l \<Rightarrow> l) @ [x])) [] xs"

definition the_single :: "string list \<Rightarrow> string" where
  "the_single xs = (case remdups xs of [x] \<Rightarrow> x | _ \<Rightarrow> [])"

definition or_else :: "string \<Rightarrow> string \<Rightarrow> string" where
  "or_else a b = (if a \<noteq> [] then a else b)"

definition adopt_fill :: "string \<Rightarrow> string \<Rightarrow> string \<Rightarrow> string \<Rightarrow> FillRecord \<Rightarrow> FillRecord" where
  "adopt_fill sy account ven currency f =
     (let v = upper (strip (fr_venue f)); c = upper (strip (fr_currency f))
      in f\<lparr>fr_symbol := sy, fr_side := lower (strip (fr_side f)), fr_account := or_else (strip (fr_account f)) account,
           fr_venue := (if blank v then or_else ven ''UNKNOWN'' else v),
           fr_currency := (if blank c then or_else currency ''UNKNOWN'' else c),
           fr_exchange := upper (strip (fr_exchange f))\<rparr>)"

definition adopt_group :: "string \<times> FillRecord list \<Rightarrow> FillRecord list" where
  "adopt_group g =
     (case g of (sy, items) \<Rightarrow>
        (let account = the_single (filter (\<lambda>a. a \<noteq> []) (map (\<lambda>f. strip (fr_account f)) items));
             ven = the_single (map (\<lambda>f. upper (strip (fr_venue f))) (filter (\<lambda>f. \<not> blank (fr_venue f)) items));
             currency = the_single (map (\<lambda>f. upper (strip (fr_currency f))) (filter (\<lambda>f. \<not> blank (fr_currency f)) items))
         in map (adopt_fill sy account ven currency) items))"

definition adopt_single_identity :: "FillRecord list \<Rightarrow> FillRecord list" where
  "adopt_single_identity fills = concat (map adopt_group (group_by (\<lambda>f. upper (fr_symbol f)) fills))"

section \<open>One book\<close>

type_synonym book_key = "string \<times> string \<times> string \<times> string"

definition fill_time :: "FillRecord \<Rightarrow> int" where
  "fill_time f = (case fr_executed_at f of Some t \<Rightarrow> as_utc t | None \<Rightarrow> 0)"

definition fill_order :: "FillRecord \<Rightarrow> int \<times> int \<times> string" where
  "fill_order f = (fill_time f, if fr_side f = ''buy'' then 0 else 1, fr_fill_id f)"

definition open_lot :: "FillRecord \<Rightarrow> OpenLot" where
  "open_lot f =
     \<lparr>ol_quantity = fr_quantity f, ol_price = fr_price f, ol_opened_at = fill_time f,
      ol_fee_per_share =
        (case fr_fee f of None \<Rightarrow> None | Some fee \<Rightarrow> if fr_quantity f \<le> 0 then None else Some (fdiv fee (fr_quantity f)))\<rparr>"

definition share_of_fee :: "FillRecord \<Rightarrow> OpenLot \<Rightarrow> rat \<Rightarrow> rat option" where
  "share_of_fee f lot tk =
     (let buy_fee = map_option (\<lambda>p. fmul p tk) (ol_fee_per_share lot);
          sell_fee = (case fr_fee f of None \<Rightarrow> None
                      | Some fee \<Rightarrow> if 0 < fr_quantity f then Some (fmul fee (fdiv tk (fr_quantity f))) else None)
      in case (buy_fee, sell_fee) of (Some b, Some s) \<Rightarrow> Some (fround 4 (fadd b s)) | _ \<Rightarrow> None)"

definition matched_close :: "book_key \<Rightarrow> string \<Rightarrow> FillRecord \<Rightarrow> OpenLot \<Rightarrow> rat \<Rightarrow> FifoClose" where
  "matched_close key exchange f lot tk =
     (case key of (account, ven, currency, sy) \<Rightarrow>
        \<lparr>fc_symbol = sy, fc_venue = ven, fc_currency = currency, fc_exchange = exchange, fc_account = account, fc_quantity = tk,
         fc_entry_price = Some (ol_price lot), fc_exit_price = Some (fr_price f), fc_opened_at = Some (ol_opened_at lot),
         fc_closed_at = Some (fill_time f), fc_gross_pnl = Some (fround 4 (fmul (fsub (fr_price f) (ol_price lot)) tk)),
         fc_fee = share_of_fee f lot tk, fc_basis = ''fill''\<rparr>)"

definition unknown_close :: "book_key \<Rightarrow> string \<Rightarrow> FillRecord \<Rightarrow> rat \<Rightarrow> FifoClose" where
  "unknown_close key exchange f qty =
     (case key of (account, ven, currency, sy) \<Rightarrow>
        \<lparr>fc_symbol = sy, fc_venue = ven, fc_currency = currency, fc_exchange = exchange, fc_account = account, fc_quantity = qty,
         fc_entry_price = None, fc_exit_price = Some (fr_price f), fc_opened_at = None, fc_closed_at = Some (fill_time f),
         fc_gross_pnl = None, fc_fee = None, fc_basis = ''unknown_opening_inventory''\<rparr>)"

text \<open>The inner loop of a sell: an iteration takes from the oldest lot and either empties it or ends the loop.\<close>

function close_lots ::
  "book_key \<Rightarrow> string \<Rightarrow> FillRecord \<Rightarrow> rat \<Rightarrow> OpenLot list \<Rightarrow> FifoClose list \<Rightarrow> rat \<times> OpenLot list \<times> FifoClose list" where
  "close_lots key exchange f qty_left lots closes =
     (if \<not> QTY_EPS < qty_left then (qty_left, lots, closes)
      else case lots of
             [] \<Rightarrow> (qty_left, lots, closes)
           | lot # rest \<Rightarrow>
               (let tk = min (ol_quantity lot) qty_left;
                    left = fsub (ol_quantity lot) tk
                in close_lots key exchange f (fsub qty_left tk) (if left \<le> QTY_EPS then rest else lot\<lparr>ol_quantity := left\<rparr> # rest)
                     (closes @ [matched_close key exchange f lot tk])))"
  by pat_completeness auto

lemma QTY_EPS_pos: "0 < QTY_EPS"
  by code_simp

termination close_lots
proof (relation "measure (\<lambda>(_, _, _, qty_left, lots, _). length lots + (if QTY_EPS < qty_left then 1 else 0))")
  show "((key, exchange, f, fsub qty_left tk, if left \<le> QTY_EPS then rest else lot\<lparr>ol_quantity := left\<rparr> # rest,
          closes @ [matched_close key exchange f lot tk]), (key, exchange, f, qty_left, lots, closes))
        \<in> measure (\<lambda>(_, _, _, qty_left, lots, _). length lots + (if QTY_EPS < qty_left then 1 else 0))"
    if "\<not> \<not> QTY_EPS < qty_left" "lots = lot # rest" "tk = min (ol_quantity lot) qty_left" "left = fsub (ol_quantity lot) tk"
    for key exchange f qty_left lots closes lot rest tk left
    using that QTY_EPS_pos by (auto simp: fsub_def min_def split: if_splits)
qed simp

declare close_lots.simps [simp del]

definition book_fill ::
  "book_key \<Rightarrow> string \<Rightarrow> OpenLot list \<times> FifoClose list \<Rightarrow> FillRecord \<Rightarrow> OpenLot list \<times> FifoClose list" where
  "book_fill key exchange st f =
     (case st of (lots, closes) \<Rightarrow>
        if fr_side f = ''buy'' then (lots @ [open_lot f], closes)
        else (case close_lots key exchange f (fr_quantity f) lots closes of
                (qty_left, lots', closes') \<Rightarrow>
                  (lots', if QTY_EPS < qty_left then closes' @ [unknown_close key exchange f qty_left] else closes')))"

definition fifo_book :: "book_key \<Rightarrow> string \<Rightarrow> FillRecord list \<Rightarrow> FifoBook" where
  "fifo_book key exchange items =
     (case (key, foldl (book_fill key exchange) ([], []) (sort_key fill_order items)) of
        ((account, ven, currency, sy), (lots, closes)) \<Rightarrow>
          \<lparr>fb_account = account, fb_venue = ven, fb_currency = currency, fb_exchange = exchange, fb_symbol = sy,
           fb_closes = closes, fb_open_lots = lots\<rparr>)"

section \<open>The ledger\<close>

definition usable_fill :: "FillRecord \<Rightarrow> bool" where
  "usable_fill f \<longleftrightarrow>
     lower (strip (fr_side f)) \<in> {''buy'', ''sell''} \<and> fr_executed_at f \<noteq> None \<and> QTY_EPS < fr_quantity f \<and> 0 < fr_price f"

definition book_key_of :: "FillRecord \<Rightarrow> book_key" where
  "book_key_of f = (fr_account f, fr_venue f, fr_currency f, fr_symbol f)"

definition books_of_group :: "book_key \<times> FillRecord list \<Rightarrow> FifoBook list" where
  "books_of_group g =
     (case g of (key, items) \<Rightarrow>
        (let exchanges = remdups (filter (\<lambda>e. e \<noteq> []) (map fr_exchange items))
         in if length exchanges \<le> 1 then [fifo_book key (case exchanges of e # _ \<Rightarrow> e | [] \<Rightarrow> []) items]
            else map (\<lambda>(exchange, subset). fifo_book key exchange subset)
                   (group_by (\<lambda>f. or_else (fr_exchange f) ''UNKNOWN'') items)))"

definition book_order :: "FifoBook \<Rightarrow> string \<times> string \<times> string \<times> string" where
  "book_order b = (fb_currency b, fb_venue b, fb_symbol b, fb_account b)"

definition reconstruct_fifo :: "FillRecord list \<Rightarrow> FifoLedger" where
  "reconstruct_fifo fills =
     (let usable = filter usable_fill fills;
          grouped = group_by book_key_of (adopt_single_identity usable)
      in \<lparr>fl_books = sort_key book_order (concat (map books_of_group grouped)),
          fl_skipped_fills = length (filter (\<lambda>f. \<not> usable_fill f) fills),
          fl_unobserved_adjustments = UNOBSERVED_ADJUSTMENTS\<rparr>)"

section \<open>The selling loop ends\<close>

lemma fsub_self [simp]: "fsub x x = 0"
  by (simp add: fsub_def)

text \<open>The same computation by recursion on the lots.\<close>

fun sell_ref :: "rat \<Rightarrow> Lot list \<Rightarrow> rat \<Rightarrow> rat \<Rightarrow> sell_vars" where
  "sell_ref price [] realized left = ([], realized, left)"
| "sell_ref price (lot # rest) realized left =
     (if \<not> QTY_EPS < left then (lot # rest, realized, left)
      else if lot_quantity lot \<le> left
      then sell_ref price rest (fadd realized (fmul (fsub price (lot_price lot)) (lot_quantity lot))) (fsub left (lot_quantity lot))
      else (let q = fsub (lot_quantity lot) left
            in (if q \<le> QTY_EPS then rest else lot\<lparr>lot_quantity := q\<rparr> # rest, fadd realized (fmul (fsub price (lot_price lot)) left), 0)))"

lemma sell_loop_ref: "sell_loop price (lots, realized, left) = Some (sell_ref price lots realized left)"
proof (induction lots arbitrary: realized left)
  case Nil
  then show ?case by (simp add: sell_loop_def while_option_unfold[of _ _ "([], realized, left)"])
next
  case (Cons lot rest)
  have stop: "sell_loop price (ls, x, 0) = Some (ls, x, 0)" for ls x
    using QTY_EPS_pos by (simp add: sell_loop_def while_option_unfold[of _ _ "(ls, x, 0)"])
  have go: "sell_loop price (lot # rest, realized, left) =
      (if QTY_EPS < left then sell_loop price (sell_step price (lot # rest, realized, left)) else Some (lot # rest, realized, left))"
    unfolding sell_loop_def by (subst while_option_unfold) simp
  show ?case
  proof (cases "QTY_EPS < left \<and> lot_quantity lot \<le> left")
    case True
    then have "sell_step price (lot # rest, realized, left)
        = (rest, fadd realized (fmul (fsub price (lot_price lot)) (lot_quantity lot)), fsub left (lot_quantity lot))"
      using QTY_EPS_pos by (simp add: min_def Let_def)
    then show ?thesis using True by (simp add: go Cons.IH)
  next
    case False
    then show ?thesis by (auto simp: go stop min_def Let_def)
  qed
qed

text \<open>What is left is an end piece of the lots, its first lot reduced at most.\<close>

definition fifo_suffix :: "Lot list \<Rightarrow> Lot list \<Rightarrow> bool" where
  "fifo_suffix lots ls \<longleftrightarrow>
     (\<exists>k. ls = drop k lots
        \<or> k < length lots \<and> (\<exists>q. ls = (lots ! k)\<lparr>lot_quantity := q\<rparr> # drop (Suc k) lots \<and> QTY_EPS < q \<and> q \<le> lot_quantity (lots ! k)))"

lemma fifo_suffix_Cons: "fifo_suffix rest ls \<Longrightarrow> fifo_suffix (lot # rest) ls"
  unfolding fifo_suffix_def
proof (elim exE)
  fix k assume h: "ls = drop k rest
        \<or> k < length rest \<and> (\<exists>q. ls = (rest ! k)\<lparr>lot_quantity := q\<rparr> # drop (Suc k) rest \<and> QTY_EPS < q \<and> q \<le> lot_quantity (rest ! k))"
  then show "\<exists>k. ls = drop k (lot # rest) \<or> k < length (lot # rest)
      \<and> (\<exists>q. ls = ((lot # rest) ! k)\<lparr>lot_quantity := q\<rparr> # drop (Suc k) (lot # rest) \<and> QTY_EPS < q \<and> q \<le> lot_quantity ((lot # rest) ! k))"
    by (intro exI[of _ "Suc k"]) auto
qed

lemma sell_ref_suffix:
  assumes "sell_ref price lots realized left = (ls, r, l)" "\<And>lot. lot \<in> set lots \<Longrightarrow> is_double (lot_quantity lot)"
  shows "fifo_suffix lots ls \<and> (QTY_EPS < l \<longrightarrow> ls = [])"
  using assms
proof (induction lots arbitrary: realized left)
  case Nil
  then show ?case by (auto simp: fifo_suffix_def)
next
  case (Cons lot rest)
  have whole: "fifo_suffix (lot # rest) (lot # rest)" unfolding fifo_suffix_def by (rule exI[of _ 0]) simp
  have tail: "fifo_suffix (lot # rest) rest" unfolding fifo_suffix_def by (rule exI[of _ 1]) simp
  have cut: "fifo_suffix (lot # rest) (lot\<lparr>lot_quantity := q\<rparr> # rest)" if "QTY_EPS < q" "q \<le> lot_quantity lot" for q
    unfolding fifo_suffix_def using that by (intro exI[of _ 0]) auto
  consider (over) "\<not> QTY_EPS < left" | (full) "QTY_EPS < left" "lot_quantity lot \<le> left" | (part) "QTY_EPS < left" "\<not> lot_quantity lot \<le> left"
    by blast
  then show ?case
  proof cases
    case over
    then show ?thesis using Cons.prems(1) whole by auto
  next
    case full
    then show ?thesis using Cons.prems Cons.IH fifo_suffix_Cons by auto
  next
    case part
    have "fl (lot_quantity lot - left) \<le> fl (lot_quantity lot)" using part QTY_EPS_pos by (intro fl_mono) simp
    also have "\<dots> = lot_quantity lot" using Cons.prems(2)[of lot] by (simp add: is_double_def)
    finally have "fsub (lot_quantity lot) left \<le> lot_quantity lot" by (simp add: fsub_def)
    then show ?thesis using part Cons.prems(1) tail cut QTY_EPS_pos by (auto simp: Let_def not_le split: if_splits)
  qed
qed

text \<open>
  Property C34.  Applying a fill always returns: the loop over the lots of a sell ends on every input, and a sell leaves an end
  piece of the lots in their order, the first one reduced at most, and reports unmatched quantity only
  when no lot is left; a buy appends one lot.
\<close>

theorem apply_fill_terminates:
  assumes "\<And>lot. lot \<in> set lots \<Longrightarrow> is_double (lot_quantity lot)"
  shows "\<exists>r. apply_fill_fifo now lots side quantity price fee slippage mark_price equity broker executed = Some r
    \<and> (if lower side = ''buy''
       then pl_remaining_lots r = lots @ [\<lparr>lot_quantity = quantity, lot_price = price,
              lot_opened_at = (case executed of Some t \<Rightarrow> t | None \<Rightarrow> now)\<rparr>] \<and> pl_unmatched_quantity r = 0
       else fifo_suffix lots (pl_remaining_lots r) \<and> (pl_unmatched_quantity r \<noteq> 0 \<longrightarrow> pl_remaining_lots r = []))"
proof (cases "lower side = ''buy''")
  case True
  then show ?thesis by (simp add: apply_fill_fifo_def pnl_result_def Let_def)
next
  case False
  obtain ls r l where e: "sell_ref price lots 0 quantity = (ls, r, l)" by (cases "sell_ref price lots 0 quantity")
  from sell_ref_suffix[OF e assms] have "fifo_suffix lots ls" "QTY_EPS < l \<longrightarrow> ls = []" by auto
  then show ?thesis using False by (auto simp: apply_fill_fifo_def sell_loop_ref e pnl_result_def Let_def)
qed

definition sample_lots :: "Lot list" where
  "sample_lots = [\<lparr>lot_quantity = 10, lot_price = 100, lot_opened_at = Aware 1\<rparr>, \<lparr>lot_quantity = 5, lot_price = 110, lot_opened_at = Aware 2\<rparr>]"

theorem apply_fill_terminates_witness:
  "\<exists>r. apply_fill_fifo (Aware 9) sample_lots ''sell'' 12 120 0 0 None 25000 None (Some (Aware 3)) = Some r
     \<and> fifo_suffix sample_lots (pl_remaining_lots r)"
proof -
  have "is_double (lot_quantity lot)" if "lot \<in> set sample_lots" for lot
    using that by (auto simp: sample_lots_def is_double_def)
  moreover have "lower ''sell'' \<noteq> ''buy''" by code_simp
  ultimately show ?thesis
    using apply_fill_terminates[of sample_lots "Aware 9" "''sell''" 12 120 0 0 None 25000 None "Some (Aware 3)"] by auto
qed

section \<open>The loop of a book, case by case\<close>

lemma close_lots_stop: "\<not> QTY_EPS < left \<Longrightarrow> close_lots key ex f left lots cs = (left, lots, cs)"
  by (simp add: close_lots.simps[of key ex f left])

lemma close_lots_Nil [simp]: "close_lots key ex f left [] cs = (left, [], cs)"
  by (simp add: close_lots.simps[of key ex f left])

lemma close_lots_full:
  "QTY_EPS < left \<Longrightarrow> ol_quantity lot \<le> left \<Longrightarrow>
   close_lots key ex f left (lot # rest) cs
     = close_lots key ex f (fsub left (ol_quantity lot)) rest (cs @ [matched_close key ex f lot (ol_quantity lot)])"
  using QTY_EPS_pos by (subst close_lots.simps) (simp add: min_def Let_def)

lemma close_lots_part:
  "QTY_EPS < left \<Longrightarrow> \<not> ol_quantity lot \<le> left \<Longrightarrow>
   close_lots key ex f left (lot # rest) cs
     = (0, if fsub (ol_quantity lot) left \<le> QTY_EPS then rest else lot\<lparr>ol_quantity := fsub (ol_quantity lot) left\<rparr> # rest,
        cs @ [matched_close key ex f lot left])"
  using QTY_EPS_pos by (subst close_lots.simps) (simp add: min_def Let_def close_lots_stop)

lemma close_lots_cases [case_names stop empty full part]:
  assumes "\<not> QTY_EPS < left \<Longrightarrow> P" "QTY_EPS < left \<Longrightarrow> lots = [] \<Longrightarrow> P"
    "\<And>lot rest. QTY_EPS < left \<Longrightarrow> lots = lot # rest \<Longrightarrow> ol_quantity lot \<le> left \<Longrightarrow> P"
    "\<And>lot rest. QTY_EPS < left \<Longrightarrow> lots = lot # rest \<Longrightarrow> \<not> ol_quantity lot \<le> left \<Longrightarrow> P"
  shows P
  using assms by (cases lots) auto

lemma fifo_book_simps:
  assumes "foldl (book_fill key ex) ([], []) (sort_key fill_order items) = (lots, cs)"
  shows "fb_open_lots (fifo_book key ex items) = lots" "fb_closes (fifo_book key ex items) = cs"
  using assms by (cases key; simp add: fifo_book_def)+

section \<open>Both loops agree\<close>

definition same_lot :: "Lot \<Rightarrow> OpenLot \<Rightarrow> bool" where
  "same_lot l ol \<longleftrightarrow> lot_quantity l = ol_quantity ol \<and> lot_price l = ol_price ol \<and> as_utc (lot_opened_at l) = ol_opened_at ol"

lemma close_lots_sell_ref:
  assumes "list_all2 same_lot ls lots" "close_lots key ex f left lots cs = (l', lots', cs')"
    "sell_ref price ls r left = (ls', r', l'')"
  shows "list_all2 same_lot ls' lots' \<and> l'' = l'"
  using assms
proof (induction lots arbitrary: ls left cs r rule: list.induct)
  case Nil
  from Nil(1) have "ls = []" by simp
  then show ?case using Nil(2,3) by simp
next
  case (Cons lot rest)
  then obtain l ls0 where ls: "ls = l # ls0" "same_lot l lot" "list_all2 same_lot ls0 rest" by (auto simp: list_all2_Cons2)
  have q: "lot_quantity l = ol_quantity lot" using ls(2) by (simp add: same_lot_def)
  show ?case
  proof (cases rule: close_lots_cases[where left = left and lots = "lot # rest"])
    case stop
    then show ?thesis using Cons.prems ls by (auto simp: close_lots_stop)
  next
    case (full lot' rest')
    then show ?thesis using Cons.IH[OF ls(3)] Cons.prems(2,3) ls(1) q by (simp add: close_lots_full)
  next
    case (part lot' rest')
    have "same_lot (l\<lparr>lot_quantity := x\<rparr>) (lot\<lparr>ol_quantity := x\<rparr>)" for x using ls(2) by (simp add: same_lot_def)
    then show ?thesis using part Cons.prems(2,3) ls q by (auto simp: close_lots_part Let_def split: if_splits)
  qed simp
qed

text \<open>The fills of a book applied one after the other with the single-fill function.\<close>

fun replay :: "datetime \<Rightarrow> Lot list \<Rightarrow> FillRecord list \<Rightarrow> Lot list option" where
  "replay now lots [] = Some lots"
| "replay now lots (f # fs) =
     (case apply_fill_fifo now lots (fr_side f) (fr_quantity f) (fr_price f) (or_float (fr_fee f) 0) 0 None 25000 None (fr_executed_at f) of
        None \<Rightarrow> None
      | Some r \<Rightarrow> replay now (pl_remaining_lots r) fs)"

lemma replay_book_fills:
  assumes "list_all2 same_lot ls lots" "\<And>f. f \<in> set fs \<Longrightarrow> fr_executed_at f \<noteq> None \<and> fr_side f \<in> {''buy'', ''sell''}"
    "foldl (book_fill key ex) (lots, cs) fs = (lots', cs')"
  shows "\<exists>ls'. replay now ls fs = Some ls' \<and> list_all2 same_lot ls' lots'"
  using assms
proof (induction fs arbitrary: ls lots cs)
  case Nil
  then show ?case by simp
next
  case (Cons f fs)
  obtain t where t: "fr_executed_at f = Some t" using Cons.prems(2)[of f] by auto
  have low: "lower ''buy'' = ''buy''" "lower ''sell'' = ''sell''" by code_simp+
  show ?case
  proof (cases "fr_side f = ''buy''")
    case True
    let ?new = "\<lparr>lot_quantity = fr_quantity f, lot_price = fr_price f, lot_opened_at = t\<rparr>"
    have "list_all2 same_lot (ls @ [?new]) (lots @ [open_lot f])"
      by (rule list_all2_appendI[OF Cons.prems(1)]) (simp add: same_lot_def open_lot_def fill_time_def t)
    from Cons.IH[OF this] show ?thesis
      using Cons.prems(2,3) True t low by (auto simp: book_fill_def apply_fill_fifo_def pnl_result_def Let_def)
  next
    case False
    then have sell: "fr_side f = ''sell''" using Cons.prems(2)[of f] by auto
    obtain l' lots1 cs1 where c: "close_lots key ex f (fr_quantity f) lots cs = (l', lots1, cs1)"
      by (cases "close_lots key ex f (fr_quantity f) lots cs")
    obtain ls1 r1 l1 where s: "sell_ref (fr_price f) ls 0 (fr_quantity f) = (ls1, r1, l1)"
      by (cases "sell_ref (fr_price f) ls 0 (fr_quantity f)")
    from close_lots_sell_ref[OF Cons.prems(1) c s] have "list_all2 same_lot ls1 lots1" by simp
    from Cons.IH[OF this] show ?thesis
      using Cons.prems(2,3) sell c s low
      by (auto simp: book_fill_def apply_fill_fifo_def sell_loop_ref pnl_result_def Let_def)
  qed
qed

text \<open>
  Property C33.  The ledger and the single-fill function agree: applying the fills of a book in time order one by one with
  \<open>apply_fill_fifo\<close> returns every time and ends with the same open lots, the same quantities to the last bit, prices and
  opening times, as rebuilding the book from scratch.
\<close>

theorem replay_equals_book:
  assumes "\<And>f. f \<in> set items \<Longrightarrow> fr_executed_at f \<noteq> None \<and> fr_side f \<in> {''buy'', ''sell''}"
  shows "\<exists>ls. replay now [] (sort_key fill_order items) = Some ls
    \<and> map (\<lambda>l. (lot_quantity l, lot_price l, as_utc (lot_opened_at l))) ls
      = map (\<lambda>ol. (ol_quantity ol, ol_price ol, ol_opened_at ol)) (fb_open_lots (fifo_book key ex items))"
proof -
  obtain lots cs where f: "foldl (book_fill key ex) ([], []) (sort_key fill_order items) = (lots, cs)" by fastforce
  from replay_book_fills[of "[]" "[]" "sort_key fill_order items" key ex "[]" lots cs now] assms f
  obtain ls where ls: "replay now [] (sort_key fill_order items) = Some ls" "list_all2 same_lot ls lots" by auto
  from ls(2) have "map (\<lambda>l. (lot_quantity l, lot_price l, as_utc (lot_opened_at l))) ls
      = map (\<lambda>ol. (ol_quantity ol, ol_price ol, ol_opened_at ol)) lots"
    by (induction) (auto simp: same_lot_def)
  then show ?thesis using ls(1) by (auto simp: fifo_book_simps[OF f])
qed

section \<open>Well-formed books\<close>

definition lot_ok :: "int \<Rightarrow> OpenLot \<Rightarrow> bool" where
  "lot_ok t lot \<longleftrightarrow> QTY_EPS < ol_quantity lot \<and> ol_opened_at lot \<le> t"

definition close_ok :: "book_key \<Rightarrow> string \<Rightarrow> FifoClose \<Rightarrow> bool" where
  "close_ok key ex c \<longleftrightarrow>
     (fc_account c, fc_venue c, fc_currency c, fc_symbol c) = key \<and> fc_exchange c = ex \<and> QTY_EPS < fc_quantity c
     \<and> fc_exit_price c \<noteq> None
     \<and> (case (fc_opened_at c, fc_closed_at c) of
          (Some opened, Some t) \<Rightarrow> fc_basis c = ''fill'' \<and> opened \<le> t \<and> fc_entry_price c \<noteq> None \<and> fc_gross_pnl c \<noteq> None
        | (None, Some t) \<Rightarrow> fc_basis c = ''unknown_opening_inventory'' \<and> fc_entry_price c = None \<and> fc_gross_pnl c = None
        | _ \<Rightarrow> False)"

lemma matched_close_ok:
  "lot_ok (fill_time f) lot \<Longrightarrow> QTY_EPS < tk \<Longrightarrow> close_ok key ex (matched_close key ex f lot tk)"
  by (cases key) (simp add: close_ok_def matched_close_def lot_ok_def)

lemma unknown_close_ok: "QTY_EPS < q \<Longrightarrow> close_ok key ex (unknown_close key ex f q)"
  by (cases key) (simp add: close_ok_def unknown_close_def)

lemma close_lots_ok:
  assumes "close_lots key ex f left lots cs = (l', lots', cs')" "list_all (lot_ok (fill_time f)) lots" "list_all (close_ok key ex) cs"
    "sorted (map ol_opened_at lots)"
  shows "list_all (lot_ok (fill_time f)) lots' \<and> list_all (close_ok key ex) cs' \<and> sorted (map ol_opened_at lots')"
  using assms
proof (induction lots arbitrary: left cs)
  case Nil
  then show ?case by simp
next
  case (Cons lot rest)
  show ?case
  proof (cases rule: close_lots_cases[where left = left and lots = "lot # rest"])
    case stop
    then show ?thesis using Cons.prems by (auto simp: close_lots_stop)
  next
    case (full lot' rest')
    have "close_ok key ex (matched_close key ex f lot (ol_quantity lot))"
      using Cons.prems(2) by (intro matched_close_ok) (simp_all add: lot_ok_def)
    then show ?thesis using Cons.IH[of _ "cs @ [matched_close key ex f lot (ol_quantity lot)]"] Cons.prems full
      by (simp add: close_lots_full)
  next
    case (part lot' rest')
    then show ?thesis using Cons.prems by (auto simp: close_lots_part matched_close_ok lot_ok_def)
  qed simp
qed

lemma fills_ok:
  assumes "foldl (book_fill key ex) (lots, cs) fs = (lots', cs')" "list_all (close_ok key ex) cs" "sorted (map ol_opened_at lots)"
    "sorted (map fill_time fs)" "\<And>f. f \<in> set fs \<Longrightarrow> QTY_EPS < fr_quantity f \<and> list_all (lot_ok (fill_time f)) lots"
    "list_all (\<lambda>l. QTY_EPS < ol_quantity l) lots"
  shows "list_all (\<lambda>l. QTY_EPS < ol_quantity l) lots' \<and> list_all (close_ok key ex) cs' \<and> sorted (map ol_opened_at lots')"
  using assms
proof (induction fs arbitrary: lots cs)
  case Nil
  then show ?case by simp
next
  case (Cons f fs)
  obtain lots1 cs1 where b: "book_fill key ex (lots, cs) f = (lots1, cs1)" by (cases "book_fill key ex (lots, cs) f")
  have now: "list_all (lot_ok (fill_time f)) lots" "QTY_EPS < fr_quantity f" using Cons.prems(5)[of f] by auto
  have le: "ol_opened_at l \<le> fill_time f" if "l \<in> set lots" for l using now(1) that by (auto simp: list_all_iff lot_ok_def)
  have *: "list_all (lot_ok (fill_time f)) lots1 \<and> list_all (close_ok key ex) cs1 \<and> sorted (map ol_opened_at lots1)"
  proof (cases "fr_side f = ''buy''")
    case True
    then show ?thesis using b now le Cons.prems(2,3) by (auto simp: book_fill_def sorted_append open_lot_def lot_ok_def)
  next
    case False
    obtain l' lots2 cs2 where c: "close_lots key ex f (fr_quantity f) lots cs = (l', lots2, cs2)"
      by (cases "close_lots key ex f (fr_quantity f) lots cs")
    from close_lots_ok[OF c now(1) Cons.prems(2,3)] show ?thesis
      using b False c by (auto simp: book_fill_def unknown_close_ok)
  qed
  have "list_all (lot_ok (fill_time g)) lots1" if "g \<in> set fs" for g
    using * Cons.prems(4) that by (fastforce simp: list_all_iff lot_ok_def)
  moreover have "list_all (\<lambda>l. QTY_EPS < ol_quantity l) lots1" using * by (auto simp: list_all_iff lot_ok_def)
  ultimately show ?case using Cons.IH[of lots1 cs1] Cons.prems(1,4,5) b * by (auto simp: list_all_iff)
qed

lemma sorted_fill_times: "sorted (map fill_time (sort_key fill_order items))"
proof -
  have "sorted (map fill_order (sort_key fill_order items))" by simp
  then have "sorted_wrt (\<lambda>x y. fill_order x \<le> fill_order y) (sort_key fill_order items)" by (simp add: sorted_map)
  then have "sorted_wrt (\<lambda>x y. fill_time x \<le> fill_time y) (sort_key fill_order items)"
    by (rule sorted_wrt_mono_rel[rotated]) (auto simp: fill_order_def less_eq_prod_def)
  then show ?thesis by (simp add: sorted_map)
qed

lemma book_well_formed:
  assumes "\<And>f. f \<in> set items \<Longrightarrow> QTY_EPS < fr_quantity f"
  shows "list_all (\<lambda>l. QTY_EPS < ol_quantity l) (fb_open_lots (fifo_book key ex items))
    \<and> sorted (map ol_opened_at (fb_open_lots (fifo_book key ex items)))
    \<and> list_all (close_ok key ex) (fb_closes (fifo_book key ex items))"
proof -
  obtain lots cs where f: "foldl (book_fill key ex) ([], []) (sort_key fill_order items) = (lots, cs)" by fastforce
  have "list_all (\<lambda>l. QTY_EPS < ol_quantity l) lots \<and> list_all (close_ok key ex) cs \<and> sorted (map ol_opened_at lots)"
    by (rule fills_ok[OF f]) (use assms in \<open>auto simp: sorted_fill_times\<close>)
  then show ?thesis by (simp add: fifo_book_simps[OF f])
qed

text \<open>
  Property C35.  Every book is well formed: open lots are in opening order with more than the dust quantity, and every close
  carries the book's identity, more than dust, an exit price, and either an opening no later than its closing with an entry
  price and a profit, or none of these and the mark of unknown inventory.
\<close>

theorem fifo_book_well_formed:
  assumes "\<And>f. f \<in> set items \<Longrightarrow> QTY_EPS < fr_quantity f"
  shows "list_all (\<lambda>l. QTY_EPS < ol_quantity l) (fb_open_lots (fifo_book key ex items))
    \<and> sorted (map ol_opened_at (fb_open_lots (fifo_book key ex items)))
    \<and> list_all (close_ok key ex) (fb_closes (fifo_book key ex items))"
  using book_well_formed[OF assms] by blast

section \<open>A book of whole shares is a queue of shares\<close>

text \<open>
  A run of a detailed step function that an abstraction carries to a run of an abstract one, as long as the inputs are
  admissible and an invariant holds.
\<close>

locale fold_refinement =
  fixes ok :: "'x \<Rightarrow> bool" and inv :: "'s \<Rightarrow> bool" and abs :: "'s \<Rightarrow> 'a" and f :: "'s \<Rightarrow> 'x \<Rightarrow> 's" and g :: "'a \<Rightarrow> 'x \<Rightarrow> 'a"
  assumes keeps: "inv s \<Longrightarrow> ok x \<Longrightarrow> inv (f s x)"
    and simulates: "inv s \<Longrightarrow> ok x \<Longrightarrow> abs (f s x) = g (abs s) x"
begin

lemma run_inv: "inv s \<Longrightarrow> list_all ok xs \<Longrightarrow> inv (foldl f s xs)"
  by (induction xs arbitrary: s) (auto intro: keeps)

lemma run_refines: "inv s \<Longrightarrow> list_all ok xs \<Longrightarrow> abs (foldl f s xs) = foldl g (abs s) xs"
  by (induction xs arbitrary: s) (auto simp: keeps simulates)

end

definition whole :: "rat \<Rightarrow> bool" where
  "whole q \<longleftrightarrow> q = of_int \<lfloor>q\<rfloor> \<and> 0 \<le> q \<and> q \<le> 2 ^ 53"

definition units :: "rat \<Rightarrow> nat" where
  "units q = nat \<lfloor>q\<rfloor>"

lemma whole_units: "whole q \<Longrightarrow> q = of_nat (units q)"
  unfolding whole_def units_def by (metis floor_less_zero not_le of_int_of_nat_eq int_nat_eq)

lemma whole_fsub:
  assumes "whole a" "whole b" "b \<le> a"
  shows "fsub a b = a - b \<and> whole (a - b) \<and> units (a - b) = units a - units b"
proof -
  obtain m n :: int where e: "a = of_int m" "b = of_int n" "0 \<le> n" "n \<le> m" "m \<le> 2 ^ 53"
    using assms unfolding whole_def by (metis of_int_le_iff of_int_0_le_iff of_int_numeral of_int_power)
  then have "a - b = of_int (m - n)" "\<bar>m - n\<bar> \<le> 2 ^ 53" by auto
  moreover from this have "fl (a - b) = of_int (m - n)" using fl_of_int[of "m - n"] by metis
  moreover have "(of_int (m - n) :: rat) \<le> 2 ^ 53" using e by (metis diff_mono diff_zero of_int_le_iff of_int_numeral of_int_power)
  ultimately show ?thesis using e by (simp add: fsub_def whole_def units_def nat_diff_distrib)
qed

lemma whole_pos: "whole q \<Longrightarrow> QTY_EPS < q \<longleftrightarrow> 0 < units q"
proof -
  have "QTY_EPS < 1" by code_simp
  then show ?thesis if "whole q" using whole_units[OF that] QTY_EPS_pos
    by (metis less_le_trans not_gr_zero not_less of_nat_0 of_nat_1 of_nat_le_iff Suc_leI One_nat_def less_imp_le)
qed

type_synonym share = "rat \<times> int"

definition shares :: "OpenLot list \<Rightarrow> share list" where
  "shares lots = concat (map (\<lambda>l. replicate (units (ol_quantity l)) (ol_price l, ol_opened_at l)) lots)"

definition sold_shares :: "FifoClose list \<Rightarrow> (share \<times> share) list" where
  "sold_shares cs =
     concat (map (\<lambda>c. if fc_entry_price c = None then []
                      else replicate (units (fc_quantity c))
                             ((the (fc_entry_price c), the (fc_opened_at c)), (the (fc_exit_price c), the (fc_closed_at c)))) cs)"

definition unknown_shares :: "FifoClose list \<Rightarrow> share list" where
  "unknown_shares cs =
     concat (map (\<lambda>c. if fc_entry_price c = None
                      then replicate (units (fc_quantity c)) (the (fc_exit_price c), the (fc_closed_at c)) else []) cs)"

text \<open>The specification: a queue of single shares.\<close>

fun queue_fill :: "share list \<times> (share \<times> share) list \<times> share list \<Rightarrow> FillRecord \<Rightarrow> share list \<times> (share \<times> share) list \<times> share list" where
  "queue_fill (waiting, sold, unknown) f =
     (let n = units (fr_quantity f); s = (fr_price f, fill_time f)
      in if fr_side f = ''buy'' then (waiting @ replicate n s, sold, unknown)
         else (drop n waiting, sold @ map (\<lambda>x. (x, s)) (take n waiting), unknown @ replicate (n - length waiting) s))"

definition shares_of :: "OpenLot list \<times> FifoClose list \<Rightarrow> share list \<times> (share \<times> share) list \<times> share list" where
  "shares_of st = (shares (fst st), sold_shares (snd st), unknown_shares (snd st))"

lemma shares_simps [simp]:
  "shares [] = []" "shares (l # ls) = replicate (units (ol_quantity l)) (ol_price l, ol_opened_at l) @ shares ls"
  "shares (ls @ ls') = shares ls @ shares ls'"
  by (simp_all add: shares_def)

lemma sold_shares_simps [simp]:
  "sold_shares [] = []" "sold_shares (cs @ cs') = sold_shares cs @ sold_shares cs'"
  "sold_shares [matched_close key ex f lot tk] = replicate (units tk) ((ol_price lot, ol_opened_at lot), (fr_price f, fill_time f))"
  "sold_shares [unknown_close key ex f q] = []"
  by (cases key; simp add: sold_shares_def matched_close_def unknown_close_def)+

lemma unknown_shares_simps [simp]:
  "unknown_shares [] = []" "unknown_shares (cs @ cs') = unknown_shares cs @ unknown_shares cs'"
  "unknown_shares [matched_close key ex f lot tk] = []"
  "unknown_shares [unknown_close key ex f q] = replicate (units q) (fr_price f, fill_time f)"
  by (cases key; simp add: unknown_shares_def matched_close_def unknown_close_def)+

lemma close_lots_shares:
  assumes "close_lots key ex f left lots cs = (l', lots', cs')" "whole left" "list_all (\<lambda>l. whole (ol_quantity l)) lots"
  shows "shares lots' = drop (units left) (shares lots)
    \<and> sold_shares cs' = sold_shares cs @ map (\<lambda>x. (x, (fr_price f, fill_time f))) (take (units left) (shares lots))
    \<and> unknown_shares cs' = unknown_shares cs \<and> units l' = units left - length (shares lots)
    \<and> whole l' \<and> list_all (\<lambda>l. whole (ol_quantity l)) lots'"
  using assms
proof (induction lots arbitrary: left cs)
  case Nil
  then show ?case by simp
next
  case (Cons lot rest)
  have w: "whole (ol_quantity lot)" using Cons.prems(3) by simp
  show ?case
  proof (cases rule: close_lots_cases[where left = left and lots = "lot # rest"])
    case stop
    then have "units left = 0" using whole_pos[OF Cons.prems(2)] by simp
    then show ?thesis using stop Cons.prems by (auto simp: close_lots_stop)
  next
    case (full lot' rest')
    note d = whole_fsub[OF Cons.prems(2) w, unfolded conj_imp_eq_imp_imp]
    have "units (ol_quantity lot) \<le> units left" using full by (auto simp: units_def intro!: nat_mono floor_mono)
    moreover have "close_lots key ex f (left - ol_quantity lot) rest (cs @ [matched_close key ex f lot (ol_quantity lot)]) = (l', lots', cs')"
      using full Cons.prems(1) d by (simp add: close_lots_full)
    ultimately show ?thesis using Cons.IH[of "left - ol_quantity lot"] full Cons.prems(3) d by (auto simp: map_replicate_const)
  next
    case (part lot' rest')
    then have le: "left \<le> ol_quantity lot" by auto
    note d = whole_fsub[OF w Cons.prems(2) le]
    have u: "units left \<le> units (ol_quantity lot)" using le by (auto simp: units_def intro!: nat_mono floor_mono)
    have "l' = 0" "cs' = cs @ [matched_close key ex f lot left]"
      "lots' = (if ol_quantity lot - left \<le> QTY_EPS then rest else lot\<lparr>ol_quantity := ol_quantity lot - left\<rparr> # rest)"
      using part Cons.prems(1) d by (auto simp: close_lots_part)
    moreover have "ol_quantity lot - left \<le> QTY_EPS \<longleftrightarrow> units (ol_quantity lot) - units left = 0"
      using whole_pos[of "ol_quantity lot - left"] d by (auto simp: not_less[symmetric])
    ultimately show ?thesis using u d Cons.prems(3) by (auto simp: whole_def units_def map_replicate_const)
  qed simp
qed

lemma book_fill_shares:
  assumes "list_all (\<lambda>l. whole (ol_quantity l)) (fst st)" "whole (fr_quantity f)"
  shows "list_all (\<lambda>l. whole (ol_quantity l)) (fst (book_fill key ex st f)) \<and> shares_of (book_fill key ex st f) = queue_fill (shares_of st) f"
proof (cases "fr_side f = ''buy''")
  case True
  then show ?thesis using assms by (cases st) (simp add: book_fill_def shares_of_def open_lot_def)
next
  case False
  obtain lots cs where st: "st = (lots, cs)" by (cases st)
  obtain l' lots' cs' where c: "close_lots key ex f (fr_quantity f) lots cs = (l', lots', cs')"
    by (cases "close_lots key ex f (fr_quantity f) lots cs")
  note s = close_lots_shares[OF c assms(2), OF assms(1)[unfolded st fst_conv]]
  have "QTY_EPS < l' \<longleftrightarrow> 0 < units l'" using whole_pos s by blast
  then show ?thesis using False s by (auto simp: st book_fill_def c shares_of_def Let_def)
qed

interpretation share_queue: fold_refinement
  "\<lambda>f. whole (fr_quantity f)" "\<lambda>st. list_all (\<lambda>l. whole (ol_quantity l)) (fst st)" shares_of "book_fill key ex" queue_fill for key ex
  by unfold_locales (use book_fill_shares in blast)+

lemma book_is_queue:
  assumes "\<And>f. f \<in> set items \<Longrightarrow> whole (fr_quantity f)"
  shows "(shares (fb_open_lots (fifo_book key ex items)), sold_shares (fb_closes (fifo_book key ex items)),
          unknown_shares (fb_closes (fifo_book key ex items)))
         = foldl queue_fill ([], [], []) (sort_key fill_order items)"
proof -
  obtain lots cs where f: "foldl (book_fill key ex) ([], []) (sort_key fill_order items) = (lots, cs)" by fastforce
  have "list_all (\<lambda>f. whole (fr_quantity f)) (sort_key fill_order items)" using assms by (simp add: list_all_iff)
  from share_queue.run_refines[of "([], [])" _ key ex, OF _ this] f show ?thesis
    by (simp add: shares_of_def fifo_book_simps[OF f])
qed

text \<open>
  Property C31.  For whole-share quantities a book is exactly the queue of single shares: the shares of its open lots are the
  waiting shares, the shares of its matched closes are the shares served, each with the sell that served it, in order, and
  the shares of its unknown closes are the sells that found the queue empty.
\<close>

theorem fifo_book_refines_queue:
  assumes "\<And>f. f \<in> set items \<Longrightarrow> whole (fr_quantity f)"
  shows "(shares (fb_open_lots (fifo_book key ex items)), sold_shares (fb_closes (fifo_book key ex items)),
          unknown_shares (fb_closes (fifo_book key ex items)))
         = foldl queue_fill ([], [], []) (sort_key fill_order items)"
  using book_is_queue[OF assms] by blast

definition sample_fills :: "FillRecord list" where
  "sample_fills =
     (let f = \<lparr>fr_symbol = ''SPY'', fr_side = ''buy'', fr_quantity = 10, fr_price = 100, fr_executed_at = Some (Aware 1), fr_venue = ''US'',
               fr_currency = ''USD'', fr_exchange = [], fr_account = ''A'', fr_fee = None, fr_fill_id = ''1''\<rparr>
      in [f\<lparr>fr_side := ''sell'', fr_quantity := 12, fr_price := 120, fr_executed_at := Some (Aware 3), fr_fill_id := ''3''\<rparr>, f,
          f\<lparr>fr_quantity := 5, fr_price := 110, fr_executed_at := Some (Naive 2), fr_fill_id := ''2''\<rparr>])"

lemma sample_fills_mem: "f \<in> set sample_fills \<Longrightarrow> fr_quantity f \<in> {10, 12, 5} \<and> fr_executed_at f \<noteq> None \<and> fr_side f \<in> {''buy'', ''sell''}"
  by (auto simp: sample_fills_def Let_def)

lemma sample_quantities: "q \<in> {10, 12, 5} \<Longrightarrow> whole q \<and> QTY_EPS < q"
  by (elim insertE; simp; code_simp)

lemma sample_whole: "f \<in> set sample_fills \<Longrightarrow> whole (fr_quantity f) \<and> QTY_EPS < fr_quantity f"
  using sample_fills_mem sample_quantities by blast

theorem fifo_book_refines_queue_witness:
  "shares (fb_open_lots (fifo_book (''A'', ''US'', ''USD'', ''SPY'') [] sample_fills)) = replicate 3 (110, 2)"
proof -
  have "fst (foldl queue_fill ([], [], []) (sort_key fill_order sample_fills)) = replicate 3 (110, 2)" by code_simp
  then show ?thesis
    using fifo_book_refines_queue[of sample_fills "(''A'', ''US'', ''USD'', ''SPY'')" "[]"] sample_whole by (metis fst_conv)
qed

theorem replay_equals_book_witness:
  "\<exists>ls. replay (Aware 9) [] (sort_key fill_order sample_fills) = Some ls
     \<and> map (\<lambda>l. (lot_quantity l, lot_price l, as_utc (lot_opened_at l))) ls
       = map (\<lambda>ol. (ol_quantity ol, ol_price ol, ol_opened_at ol)) (fb_open_lots (fifo_book (''A'', ''US'', ''USD'', ''SPY'') [] sample_fills))"
  by (rule replay_equals_book) (use sample_fills_mem in blast)

theorem fifo_book_well_formed_witness:
  "list_all (close_ok (''A'', ''US'', ''USD'', ''SPY'') []) (fb_closes (fifo_book (''A'', ''US'', ''USD'', ''SPY'') [] sample_fills))"
  using fifo_book_well_formed[of sample_fills "(''A'', ''US'', ''USD'', ''SPY'')" "[]"] sample_whole by blast

section \<open>No share is lost or counted twice\<close>

lemma mset_dset_group:
  "mset (concat (map snd (dset d k ((case dget d k of None \<Rightarrow> [] | Some l \<Rightarrow> l) @ [x])))) = add_mset x (mset (concat (map snd d)))"
  by (induction d) auto

lemma group_by_snoc:
  "group_by key (xs @ [x]) = dset (group_by key xs) (key x) ((case dget (group_by key xs) (key x) of None \<Rightarrow> [] | Some l \<Rightarrow> l) @ [x])"
  by (simp add: group_by_def)

lemma group_by_partition: "mset (concat (map snd (group_by key xs))) = mset xs"
proof (induction xs rule: rev_induct)
  case Nil
  show ?case by (simp add: group_by_def)
next
  case (snoc x xs)
  then show ?case by (simp add: group_by_snoc mset_dset_group del: mset_concat)
qed

lemma group_by_sum: "sum_list (map (\<lambda>g. sum_list (map m (snd g))) (group_by key xs)) = sum_list (map m xs)" for m :: "'a \<Rightarrow> nat"
proof -
  have "sum_list (map (\<lambda>g. sum_list (map m (snd g))) gs) = sum_mset (image_mset m (mset (concat (map snd gs))))" for gs :: "('b \<times> 'a list) list"
    by (induction gs) (auto simp: sum_mset_sum_list[symmetric])
  then show ?thesis by (simp only: group_by_partition) (simp add: sum_mset_sum_list[symmetric])
qed

lemma group_by_mem: "(k, l) \<in> set (group_by key xs) \<Longrightarrow> x \<in> set l \<Longrightarrow> x \<in> set xs"
proof -
  assume "(k, l) \<in> set (group_by key xs)" "x \<in> set l"
  then have "x \<in> set_mset (mset (concat (map snd (group_by key xs))))" by (force simp del: mset_concat)
  then show ?thesis by (simp only: group_by_partition) simp
qed

text \<open>Shares bought and sold according to the fills, and shares accounted for by a book.\<close>

definition bought :: "FillRecord \<Rightarrow> nat" where
  "bought f = (if lower (strip (fr_side f)) = ''buy'' then units (fr_quantity f) else 0)"

definition sold :: "FillRecord \<Rightarrow> nat" where
  "sold f = (if lower (strip (fr_side f)) = ''buy'' then 0 else units (fr_quantity f))"

definition held_or_sold :: "FifoBook \<Rightarrow> nat" where
  "held_or_sold b = sum_list (map (\<lambda>l. units (ol_quantity l)) (fb_open_lots b))
     + sum_list (map (\<lambda>c. units (fc_quantity c)) (filter (\<lambda>c. fc_basis c = ''fill'') (fb_closes b)))"

definition closed_shares :: "FifoBook \<Rightarrow> nat" where
  "closed_shares b = sum_list (map (\<lambda>c. units (fc_quantity c)) (fb_closes b))"

lemma queue_counts:
  "foldl queue_fill (w, s, u) fs = (w', s', u') \<Longrightarrow> list_all (\<lambda>f. fr_side f \<in> {''buy'', ''sell''}) fs \<Longrightarrow>
   length w' + length s' = length w + length s + sum_list (map bought fs) \<and> length s' + length u' = length s + length u + sum_list (map sold fs)"
proof (induction fs arbitrary: w s u)
  case Nil
  then show ?case by simp
next
  case (Cons f fs)
  have "lower (strip ''buy'') = ''buy''" "lower (strip ''sell'') = ''sell''" by code_simp+
  moreover obtain w1 s1 u1 where q: "queue_fill (w, s, u) f = (w1, s1, u1)" by (cases "queue_fill (w, s, u) f")
  ultimately have "length w1 + length s1 = length w + length s + bought f \<and> length s1 + length u1 = length s + length u + sold f"
    using Cons.prems(2) by (auto simp: bought_def sold_def Let_def split: if_splits)
  then show ?case using Cons.IH[of w1 s1 u1] Cons.prems q by simp
qed

lemma length_shares: "length (shares lots) = sum_list (map (\<lambda>l. units (ol_quantity l)) lots)"
  by (induction lots) auto

lemma close_counts:
  "list_all (close_ok key ex) cs \<Longrightarrow>
   length (sold_shares cs) = sum_list (map (\<lambda>c. units (fc_quantity c)) (filter (\<lambda>c. fc_basis c = ''fill'') cs))
   \<and> length (sold_shares cs) + length (unknown_shares cs) = sum_list (map (\<lambda>c. units (fc_quantity c)) cs)"
proof (induction cs)
  case Nil
  then show ?case by simp
next
  case (Cons c cs)
  from Cons.prems have "close_ok key ex c" by simp
  then have "fc_entry_price c = None \<longleftrightarrow> fc_basis c \<noteq> ''fill''" by (auto simp: close_ok_def split: option.splits)
  then show ?case using Cons by (auto simp: sold_shares_def unknown_shares_def)
qed

lemma book_counts:
  assumes "list_all (\<lambda>f. whole (fr_quantity f) \<and> QTY_EPS < fr_quantity f \<and> fr_side f \<in> {''buy'', ''sell''}) items"
  shows "held_or_sold (fifo_book key ex items) = sum_list (map bought items) \<and> closed_shares (fifo_book key ex items) = sum_list (map sold items)"
proof -
  let ?b = "fifo_book key ex items"
  have ok: "list_all (close_ok key ex) (fb_closes ?b)" using book_well_formed[of items] assms by (auto simp: list_all_iff)
  have "foldl queue_fill ([], [], []) (sort_key fill_order items)
      = (shares (fb_open_lots ?b), sold_shares (fb_closes ?b), unknown_shares (fb_closes ?b))"
    using book_is_queue[of items] assms by (auto simp: list_all_iff)
  from queue_counts[OF this] have "length (shares (fb_open_lots ?b)) + length (sold_shares (fb_closes ?b)) = sum_list (map bought (sort_key fill_order items))"
    "length (sold_shares (fb_closes ?b)) + length (unknown_shares (fb_closes ?b)) = sum_list (map sold (sort_key fill_order items))"
    using assms by (auto simp: list_all_iff)
  moreover have "sum_list (map m (sort_key fill_order items)) = sum_list (map m items)" for m :: "FillRecord \<Rightarrow> nat"
    by (metis mset_sort mset_map sum_mset_sum_list)
  ultimately show ?thesis using close_counts[OF ok] by (simp add: held_or_sold_def closed_shares_def length_shares)
qed

abbreviation tradable :: "FillRecord \<Rightarrow> bool" where
  "tradable f \<equiv> whole (fr_quantity f) \<and> QTY_EPS < fr_quantity f \<and> fr_side f \<in> {''buy'', ''sell''}"

lemma group_by_sum_cong:
  fixes m :: "'a \<Rightarrow> nat"
  assumes "\<And>g. g \<in> set (group_by key xs) \<Longrightarrow> F g = sum_list (map m (snd g))"
  shows "sum_list (map F (group_by key xs)) = sum_list (map m xs)"
proof -
  have "map F (group_by key xs) = map (\<lambda>g. sum_list (map m (snd g))) (group_by key xs)" using assms by simp
  then show ?thesis by (simp only: group_by_sum)
qed

lemma sum_list_concat: "sum_list (map m (concat ls)) = sum_list (map (\<lambda>l. sum_list (map m l)) ls)" for m :: "'a \<Rightarrow> nat"
  by (induction ls) auto

lemma group_counts:
  assumes "list_all tradable (snd g)"
  shows "sum_list (map held_or_sold (books_of_group g)) = sum_list (map bought (snd g))
    \<and> sum_list (map closed_shares (books_of_group g)) = sum_list (map sold (snd g))"
proof -
  obtain key items where g: "g = (key, items)" by (cases g)
  let ?groups = "group_by (\<lambda>f. or_else (fr_exchange f) ''UNKNOWN'') items"
  have one: "sum_list (map held_or_sold [fifo_book key ex items]) = sum_list (map bought items)
      \<and> sum_list (map closed_shares [fifo_book key ex items]) = sum_list (map sold items)" for ex
    using book_counts assms g by simp
  have t: "list_all tradable (snd h)" if "h \<in> set ?groups" for h
    using assms group_by_mem[of "fst h" "snd h"] that by (auto simp: g list_all_iff)
  have "sum_list (map (\<lambda>h. held_or_sold (fifo_book key (fst h) (snd h))) ?groups) = sum_list (map bought items)
      \<and> sum_list (map (\<lambda>h. closed_shares (fifo_book key (fst h) (snd h))) ?groups) = sum_list (map sold items)"
    by (intro conjI group_by_sum_cong) (rule book_counts[OF t, THEN conjunct1] book_counts[OF t, THEN conjunct2], assumption)+
  then have "sum_list (map held_or_sold (map (\<lambda>(ex, l). fifo_book key ex l) ?groups)) = sum_list (map bought items)
      \<and> sum_list (map closed_shares (map (\<lambda>(ex, l). fifo_book key ex l) ?groups)) = sum_list (map sold items)"
    by (simp add: comp_def case_prod_unfold)
  with one show ?thesis by (simp add: g books_of_group_def Let_def)
qed

lemma side_cleaned: "fr_side (adopt_fill sy a v c f) = lower (strip (fr_side f))" "fr_quantity (adopt_fill sy a v c f) = fr_quantity f"
  by (simp_all add: adopt_fill_def Let_def)

lemma adopted_counts:
  assumes "usable_fill f"
  shows "bought (adopt_fill sy a v c f) = bought f" "sold (adopt_fill sy a v c f) = sold f"
proof -
  have "lower (strip ''buy'') = ''buy''" "lower (strip ''sell'') = ''sell''" by code_simp+
  then show "bought (adopt_fill sy a v c f) = bought f" "sold (adopt_fill sy a v c f) = sold f"
    using assms by (auto simp: bought_def sold_def side_cleaned usable_fill_def)
qed

lemma adopt_sum:
  fixes m :: "FillRecord \<Rightarrow> nat"
  assumes "\<And>sy a v c f. usable_fill f \<Longrightarrow> m (adopt_fill sy a v c f) = m f" "list_all usable_fill fills"
  shows "sum_list (map m (adopt_single_identity fills)) = sum_list (map m fills)"
proof -
  let ?groups = "group_by (\<lambda>f. upper (fr_symbol f)) fills"
  have "sum_list (map m (adopt_group h)) = sum_list (map m (snd h))" if "h \<in> set ?groups" for h
  proof (cases h)
    case (Pair sy items)
    then have "f \<in> set items \<Longrightarrow> usable_fill f" for f using group_by_mem[of sy items _ fills f] that assms(2) by (auto simp: list_all_iff)
    then have "map m (map (adopt_fill sy a v c) items) = map m items" for a v c using assms(1) by auto
    then show ?thesis by (simp add: Pair adopt_group_def Let_def del: map_map)
  qed
  then show ?thesis by (simp add: adopt_single_identity_def sum_list_concat comp_def group_by_sum_cong)
qed

lemma adopted_tradable:
  assumes "list_all usable_fill fills" "list_all (\<lambda>f. whole (fr_quantity f)) fills"
  shows "list_all tradable (adopt_single_identity fills)"
proof -
  have "tradable (adopt_fill sy a v c f)" if "f \<in> set fills" for sy a v c f
    using that assms by (auto simp: list_all_iff usable_fill_def side_cleaned)
  then have "list_all tradable (adopt_group (sy, l))" if "(sy, l) \<in> set (group_by (\<lambda>f. upper (fr_symbol f)) fills)" for sy l
    using group_by_mem[OF that] unfolding adopt_group_def Let_def prod.case list_all_iff set_map by blast
  then show ?thesis unfolding adopt_single_identity_def list_all_iff set_concat set_map by fastforce
qed

text \<open>
  Property C32.  The ledger neither loses nor invents a share: for whole-share fills, over all books the shares still held plus
  those matched to a sell are the shares bought by the usable fills, the shares closed, matched or not, are the
  shares sold, and every fill is either usable or counted as skipped.
\<close>

theorem ledger_conserves_shares:
  assumes "\<And>f. f \<in> set fills \<Longrightarrow> whole (fr_quantity f)"
  shows "sum_list (map held_or_sold (fl_books (reconstruct_fifo fills))) = sum_list (map bought (filter usable_fill fills))
    \<and> sum_list (map closed_shares (fl_books (reconstruct_fifo fills))) = sum_list (map sold (filter usable_fill fills))
    \<and> length (filter usable_fill fills) + fl_skipped_fills (reconstruct_fifo fills) = length fills"
proof -
  let ?u = "filter usable_fill fills"
  let ?a = "adopt_single_identity ?u"
  let ?groups = "group_by book_key_of ?a"
  have u: "list_all usable_fill ?u" "list_all (\<lambda>f. whole (fr_quantity f)) ?u" using assms by (auto simp: list_all_iff)
  have "list_all tradable (snd h)" if "h \<in> set ?groups" for h
    using adopted_tradable[OF u] group_by_mem[of "fst h" "snd h"] that by (auto simp: list_all_iff)
  then have g: "sum_list (map (\<lambda>h. sum_list (map held_or_sold (books_of_group h))) ?groups) = sum_list (map bought ?a)"
    "sum_list (map (\<lambda>h. sum_list (map closed_shares (books_of_group h))) ?groups) = sum_list (map sold ?a)"
    using group_counts by (intro group_by_sum_cong; blast)+
  have "sum_list (map m (fl_books (reconstruct_fifo fills))) = sum_list (map (\<lambda>h. sum_list (map m (books_of_group h))) ?groups)"
    for m :: "FifoBook \<Rightarrow> nat"
  proof -
    have "sum_list (map m (sort_key book_order bs)) = sum_list (map m bs)" for bs by (metis mset_sort mset_map sum_mset_sum_list)
    then show ?thesis by (simp add: reconstruct_fifo_def Let_def comp_def sum_list_concat)
  qed
  with g have "sum_list (map held_or_sold (fl_books (reconstruct_fifo fills))) = sum_list (map bought ?a)"
    "sum_list (map closed_shares (fl_books (reconstruct_fifo fills))) = sum_list (map sold ?a)"
    by simp_all
  moreover have "length ?u + fl_skipped_fills (reconstruct_fifo fills) = length fills"
    by (simp add: reconstruct_fifo_def Let_def sum_length_filter_compl)
  ultimately show ?thesis using adopt_sum[of bought ?u] adopt_sum[of sold ?u] adopted_counts u by simp
qed

theorem ledger_conserves_shares_witness:
  "sum_list (map held_or_sold (fl_books (reconstruct_fifo sample_fills))) = 15"
proof -
  have "sum_list (map bought (filter usable_fill sample_fills)) = 15" by code_simp
  then show ?thesis using ledger_conserves_shares[of sample_fills] sample_whole by simp
qed

section \<open>Lifecycle rows and their profit\<close>

record PositionLifecycle =
  lc_id :: string
  lc_symbol :: string
  lc_status :: string
  lc_quantity :: rat
  lc_average_entry_price :: "rat option"
  lc_current_price :: "rat option"
  lc_unrealized_pl :: "rat option"
  lc_realized_pl :: "rat option"
  lc_venue :: string
  lc_currency :: "string option"
  lc_con_id :: "int option"
  lc_stop_price :: "rat option"
  lc_stop_status :: "string option"
  lc_take_profit_price :: "rat option"
  lc_take_profit_targets :: "payload list"
  lc_take_profit_state :: "string option"
  lc_filled_take_profit_indices :: "int list"
  lc_invalidation_state :: string
  lc_max_holding_minutes :: "int option"
  lc_overnight_allowed :: bool
  lc_closing_policy :: string
  lc_protection_submitted :: bool
  lc_reconciliation_required :: bool
  lc_last_monitor_verdict :: "string option"
  lc_decision_id :: "string option"
  lc_opened_at :: "datetime option"
  lc_closed_at :: "datetime option"
  lc_exit_policy :: "(string \<times> payload) list"
  lc_metadata :: "(string \<times> payload) list"

definition usable_mark :: "rat option list \<Rightarrow> rat option" where
  "usable_mark candidates = (case find is_sane_equity_price candidates of Some v \<Rightarrow> v | None \<Rightarrow> None)"

definition lifecycle_pnl :: "PositionLifecycle \<Rightarrow> rat option" where
  "lifecycle_pnl lc =
     (let meta = lc_metadata lc; basis = pay_text (dget meta ''pnl_basis'')
      in if truthy (dget meta ''pnl_unavailable'') then None
         else if basis = ''mark'' then None
         else case lc_realized_pl lc of
                None \<Rightarrow> None
              | Some v \<Rightarrow> if \<bar>v\<bar> \<le> fl (1 / 10 ^ 9) \<and> basis \<notin> {''fill'', ''fill_gross''} then None else Some v)"

definition stamp_lifecycle_close_pnl ::
  "rat option \<Rightarrow> datetime option \<Rightarrow> string option \<Rightarrow> PositionLifecycle \<Rightarrow> rat option \<times> PositionLifecycle" where
  "stamp_lifecycle_close_pnl realized filled_at basis lc =
     (let meta = lc_metadata lc
      in case (realized, basis) of
           (Some r, Some b) \<Rightarrow>
             if b \<in> {''fill'', ''fill_gross''} then
               (let meta1 = dset (dpop meta ''pnl_unavailable'') ''pnl_basis'' (PStr b);
                    meta2 = (if b = ''fill_gross'' then dset meta1 ''fees_unrecorded'' (PBool True) else meta1);
                    lc1 = lc\<lparr>lc_metadata := meta2, lc_realized_pl := Some (fround 4 r)\<rparr>
                in (Some (fround 4 r),
                    case filled_at of
                      None \<Rightarrow> lc1
                    | Some t \<Rightarrow> lc1\<lparr>lc_closed_at := Some t, lc_metadata := dset meta2 ''closed_at_source'' (PStr ''fill'')\<rparr>))
             else (None, lc\<lparr>lc_metadata := dpop (dset meta ''pnl_unavailable'' (PStr ''no_fill'')) ''pnl_basis'', lc_realized_pl := Some 0\<rparr>)
         | _ \<Rightarrow> (None, lc\<lparr>lc_metadata := dpop (dset meta ''pnl_unavailable'' (PStr ''no_fill'')) ''pnl_basis'', lc_realized_pl := Some 0\<rparr>))"

text \<open>
  Property C36.  Stamping a close and reading it back agree: after a stamp from fills the reader returns the stamped amount, also
  when it is zero, and after a stamp without fills the reader says the profit is unknown, never zero; the returned value is the one read.
\<close>

theorem stamped_pnl_roundtrip:
  assumes "dict_ok (lc_metadata lc)" "stamp_lifecycle_close_pnl realized filled_at basis lc = (v, lc')"
  shows "lifecycle_pnl lc' = v
    \<and> v = (if basis \<in> {Some ''fill'', Some ''fill_gross''} then map_option (fround 4) realized else None) \<and> dict_ok (lc_metadata lc')"
  using assms
  by (auto simp: stamp_lifecycle_close_pnl_def lifecycle_pnl_def Let_def dget_dpop split: option.splits if_splits)

section \<open>Fills from executions\<close>

text \<open>The columns of an execution that the loader reads; its payload is JSON.\<close>

record fill_execution =
  fx_id :: string
  fx_order_id :: string
  fx_symbol :: string
  fx_qty :: rat
  fx_price :: rat
  fx_executed_at :: "datetime option"
  fx_raw_payload :: "(string \<times> payload) list"

fun known_fee :: "payload \<Rightarrow> rat option" where
  "known_fee p = (case to_float p of Inl _ \<Rightarrow> None | Inr v \<Rightarrow> if v < 0 then None else Some v)"

definition first_fee :: "(string \<times> payload) list \<Rightarrow> payload option" where
  "first_fee raw = (case filter (\<lambda>v. v \<noteq> None \<and> v \<noteq> Some PNull) (map (dget raw) [''fee'', ''fees'', ''commission'']) of
                      v # _ \<Rightarrow> v | [] \<Rightarrow> None)"

definition fee_from_payload :: "(string \<times> payload) list \<Rightarrow> rat option" where
  "fee_from_payload raw =
     (case first_fee raw of
        Some p \<Rightarrow> known_fee p
      | None \<Rightarrow>
          (case dget raw ''commissionReport'' of
             Some (PDict report) \<Rightarrow>
               (case dget report ''commission'' of Some p \<Rightarrow> if p = PNull then None else known_fee p | None \<Rightarrow> None)
           | _ \<Rightarrow> None))"

definition pay_or :: "payload option \<Rightarrow> payload option \<Rightarrow> payload option" where
  "pay_or a b = (if truthy a then a else b)"

definition fill_from_execution :: "fill_execution \<Rightarrow> order_row option \<Rightarrow> FillRecord option" where
  "fill_from_execution e ord =
     (case ord of
        None \<Rightarrow> None
      | Some r \<Rightarrow>
          (let side = lower (strip (ord_side r)); er = fx_raw_payload e; orr = ord_raw_payload r;
               ven = upper (strip (pay_text (pay_or (dget er ''venue'') (dget orr ''venue''))));
               cur = upper (strip (pay_text (pay_or (dget er ''currency'') (dget orr ''currency''))));
               currency = (if cur = [] \<and> ven = ''AU'' then ''AUD'' else if cur = [] \<and> ven = ''US'' then ''USD'' else cur)
           in if side \<notin> {''buy'', ''sell''} \<or> fx_executed_at e = None then None
              else if fx_qty e \<le> QTY_EPS \<or> \<not> is_sane_equity_price (Some (fx_price e)) then None
              else Some \<lparr>fr_symbol = upper (fx_symbol e), fr_side = side, fr_quantity = fx_qty e, fr_price = fx_price e,
                         fr_executed_at = fx_executed_at e, fr_venue = ven, fr_currency = currency,
                         fr_exchange = upper (strip (pay_text (pay_or (dget er ''exchange'') (dget orr ''exchange'')))),
                         fr_account = strip (pay_text (pay_or (dget er ''account'') (pay_or (dget orr ''account'') (dget orr ''account_id'')))),
                         fr_fee = fee_from_payload er, fr_fill_id = fx_id e\<rparr>))"

text \<open>The join keeps executions whose order exists.\<close>

definition load_fill_records :: "string option \<Rightarrow> fill_execution list \<Rightarrow> order_row list \<Rightarrow> FillRecord list \<times> nat" where
  "load_fill_records sy execs orders =
     (let rows = filter (\<lambda>(e, r). r \<noteq> None)
                   (map (\<lambda>e. (e, find (\<lambda>r. ord_id r = fx_order_id e) orders))
                      (filter (\<lambda>e. truthy_str sy \<longrightarrow> fx_symbol e = upper (the sy)) execs));
          fills = map (\<lambda>(e, r). fill_from_execution e r) rows
      in (List.map_filter id fills, length (filter (\<lambda>f. f = None) fills)))"

lemma fee_nonneg: "fee_from_payload raw = Some v \<Longrightarrow> 0 \<le> v"
  by (auto simp: fee_from_payload_def split: option.splits payload.splits sum.splits if_splits)

lemma loaded_fill_usable: "fill_from_execution e r = Some f \<Longrightarrow> usable_fill f"
proof -
  assume "fill_from_execution e r = Some f"
  then obtain ord where "r = Some ord" and f: "fr_side f = lower (strip (ord_side ord))" "lower (strip (ord_side ord)) \<in> {''buy'', ''sell''}"
    "fr_executed_at f \<noteq> None" "QTY_EPS < fr_quantity f" "0 < fr_price f"
    by (auto simp: fill_from_execution_def is_sane_equity_price_def Let_def split: option.splits if_splits)
  moreover have "lower (strip ''buy'') = ''buy''" "lower (strip ''sell'') = ''sell''" by code_simp+
  ultimately show ?thesis by (auto simp: usable_fill_def)
qed

text \<open>Every loaded fill enters the ledger: what the loader keeps is never skipped there.\<close>

lemma loaded_never_skipped: "fl_skipped_fills (reconstruct_fifo (fst (load_fill_records sy execs orders))) = 0"
proof -
  have "usable_fill f" if "f \<in> set (fst (load_fill_records sy execs orders))" for f
    using that by (force simp: load_fill_records_def Let_def List.map_filter_def dest: loaded_fill_usable)
  then show ?thesis by (simp add: reconstruct_fifo_def Let_def filter_empty_conv)
qed

definition sample_lifecycle :: PositionLifecycle where
  "sample_lifecycle =
     \<lparr>lc_id = ''p1'', lc_symbol = ''SPY'', lc_status = ''OPEN'', lc_quantity = 10, lc_average_entry_price = Some 100,
      lc_current_price = Some 99, lc_unrealized_pl = None, lc_realized_pl = Some 0, lc_venue = ''US'', lc_currency = None,
      lc_con_id = None, lc_stop_price = Some 95, lc_stop_status = None, lc_take_profit_price = Some 110, lc_take_profit_targets = [],
      lc_take_profit_state = None, lc_filled_take_profit_indices = [], lc_invalidation_state = ''NOT_TRIGGERED'',
      lc_max_holding_minutes = None, lc_overnight_allowed = False, lc_closing_policy = ''CLOSE_INTRADAY_ONLY'',
      lc_protection_submitted = False, lc_reconciliation_required = False, lc_last_monitor_verdict = None, lc_decision_id = None,
      lc_opened_at = None, lc_closed_at = None, lc_exit_policy = [], lc_metadata = [(''pnl_unavailable'', PStr ''no_fill'')]\<rparr>"

theorem stamped_pnl_roundtrip_witness:
  "lifecycle_pnl (snd (stamp_lifecycle_close_pnl (Some 0) None (Some ''fill'') sample_lifecycle)) = Some 0"
proof -
  obtain v lc' where s: "stamp_lifecycle_close_pnl (Some 0) None (Some ''fill'') sample_lifecycle = (v, lc')" by fastforce
  have "dict_ok (lc_metadata sample_lifecycle)" by (simp add: sample_lifecycle_def dict_ok_def dkeys_def)
  from stamped_pnl_roundtrip[OF this s] show ?thesis by (simp add: s)
qed

end
