(* ===== verification/Position_Manager.thy ===== *)
theory Position_Manager
  imports Fifo_Ledger Risk_Engine Py_Datetime
begin

text \<open>
  \<open>execution/position_manager.py\<close>: the positions table kept in step with the broker's book, the portfolio snapshots with their
  peak and drawdown, the losing run read from closed lifecycles, and the portfolio state handed to the risk engine.
  The broker's account and position rows are JSON dictionaries; the answer of the broker is the argument \<open>fetch\<close>.  The
  snapshot's JSON payload is a record of its fields.  The session keeps row objects: the lookup tables map keys to row ids.  The
  lifecycle sync that follows a snapshot writes to its own table and its errors are swallowed; it belongs to the position monitor.
\<close>

section \<open>Rows\<close>

definition SECTOR_MAP :: "(string \<times> string) list" where
  "SECTOR_MAP =
     [(''SPY'', ''Index''), (''QQQ'', ''Index''), (''IWM'', ''Index''), (''DIA'', ''Index''), (''EEM'', ''Index''),
      (''NVDA'', ''Technology''), (''MSFT'', ''Technology''), (''AMZN'', ''Consumer''), (''GOOGL'', ''Technology''),
      (''META'', ''Technology''), (''AVGO'', ''Technology''), (''AMD'', ''Technology''), (''AAPL'', ''Technology''),
      (''TSLA'', ''Consumer''), (''IONQ'', ''Technology''), (''PLTR'', ''Technology''), (''PATH'', ''Technology''),
      (''HPE'', ''Technology''), (''NOK'', ''Technology''), (''BB'', ''Technology''), (''NVTS'', ''Technology''),
      (''F'', ''Consumer''), (''SOFI'', ''Financials''), (''JBLU'', ''Consumer''), (''CORZ'', ''Technology''),
      (''IREN'', ''Technology''), (''WULF'', ''Technology''), (''SMR'', ''Utilities''), (''RDW'', ''Industrials''),
      (''QBTS'', ''Technology''), (''ONDS'', ''Technology''), (''KEEL'', ''Financials'')]"

definition sector_of :: "string \<Rightarrow> string \<Rightarrow> string" where
  "sector_of sy other = (case dget SECTOR_MAP sy of Some s \<Rightarrow> s | None \<Rightarrow> other)"

record position_row =
  pos_id :: string
  pos_symbol :: string
  pos_quantity :: rat
  pos_avg_entry_price :: rat
  pos_market_value :: rat
  pos_cost_basis :: rat
  pos_unrealized_pnl :: rat
  pos_sector :: string
  pos_venue :: string
  pos_currency :: "string option"
  pos_exchange :: "string option"
  pos_con_id :: "int option"
  pos_opened_at :: "datetime option"
  pos_as_of :: int

record parsed_position =
  pp_symbol :: string
  pp_quantity :: rat
  pp_avg_entry_price :: rat
  pp_market_value :: rat
  pp_cost_basis :: rat
  pp_unrealized_pnl :: rat
  pp_venue :: string
  pp_currency :: "string option"
  pp_exchange :: "string option"
  pp_con_id :: "int option"

type_synonym fingerprint = "rat \<times> rat \<times> (string \<times> string \<times> rat \<times> rat) list"

record held_line =
  hl_symbol :: string
  hl_quantity :: rat
  hl_side :: string
  hl_price :: rat
  hl_market_value :: rat
  hl_cost_basis :: rat
  hl_venue :: string
  hl_currency :: "string option"

record snapshot_payload =
  sp_account :: "(string \<times> payload) list"
  sp_position_count :: nat
  sp_positions :: "held_line list"
  sp_fingerprint :: fingerprint
  sp_base_currency :: string
  sp_cash_by_currency :: "(string \<times> payload) list"
  sp_venue_books :: "(string \<times> book_bucket) list"

record portfolio_snapshot =
  ps_id :: string
  ps_as_of :: int
  ps_equity :: rat
  ps_cash :: rat
  ps_cash_pct :: rat
  ps_gross_exposure_pct :: rat
  ps_daily_pnl :: rat
  ps_daily_pnl_pct :: rat
  ps_drawdown_pct :: rat
  ps_peak_equity :: "rat option"
  ps_open_positions :: nat
  ps_payload :: snapshot_payload

record portfolio_store =
  pf_positions :: "position_row list"
  pf_snapshots :: "portfolio_snapshot list"
  pf_lifecycles :: "PositionLifecycle list"
  pf_minted :: nat

record position_sync_report =
  sy_equity :: rat
  sy_cash :: rat
  sy_cash_pct :: rat
  sy_gross_exposure_pct :: rat
  sy_open_positions :: nat
  sy_daily_pnl :: rat
  sy_daily_pnl_pct :: rat
  sy_snapshot_written :: bool

section \<open>Reading the broker's book\<close>

text \<open>\<open>str(v)\<close>, containers shown by their brackets only; \<open>float(str(v))\<close>, where a double survives the trip through its text; \<open>float(str(v or 0))\<close>.\<close>

fun str_of :: "payload \<Rightarrow> string" where
  "str_of PNull = ''None''"
| "str_of (PStr s) = s"
| "str_of (PInt n) = str_int n"
| "str_of (PNum x) = str_float x"
| "str_of (PBool b) = (if b then ''True'' else ''False'')"
| "str_of (PStrs xs) = ''[...]''"
| "str_of (PDict d) = ''{...}''"
| "str_of (PRaw r) = ''{...}''"

fun float_of_str :: "payload \<Rightarrow> rat py" where
  "float_of_str (PNum x) = Inr x"
| "float_of_str (PInt n) = Inr (fl (of_int n))"
| "float_of_str (PStr s) = to_float (PStr s)"
| "float_of_str v = Inl (ValueError (''could not convert string to float: '' @ CHR 0x27 # str_of v @ [CHR 0x27]))"

definition float_text :: "payload option \<Rightarrow> rat py" where
  "float_text v = (if truthy v then float_of_str (the v) else Inr 0)"

definition text_or_none :: "payload option \<Rightarrow> string option" where
  "text_or_none v = (if truthy v then Some (pay_text v) else None)"

text \<open>One broker row; \<open>None\<close> is a row that is skipped.\<close>

definition parse_position :: "settings \<Rightarrow> (string \<times> payload) list \<Rightarrow> parsed_position option py" where
  "parse_position cfg raw =
     (let sy = upper (pay_text (dget raw ''symbol''))
      in py_bind (float_text (dget raw ''qty'')) (\<lambda>qty.
         if sy = [] \<or> qty = 0 then Inr None
         else py_bind (float_text (dget raw ''market_value'')) (\<lambda>mv.
              py_bind (float_text (dget raw ''cost_basis'')) (\<lambda>cost.
              py_bind (float_text (dget raw ''unrealized_pl'')) (\<lambda>upnl.
              py_bind (float_text (dget raw ''avg_entry_price'')) (\<lambda>avg.
              py_bind (int_or_zero (dget raw ''con_id'')) (\<lambda>con.
                (let exchange = text_or_none (dget raw ''exchange''); currency = text_or_none (dget raw ''currency'')
                 in py_bind (venue_for_symbol cfg sy exchange currency None) (\<lambda>v.
                      Inr (Some \<lparr>pp_symbol = sy, pp_quantity = qty, pp_avg_entry_price = avg, pp_market_value = mv, pp_cost_basis = cost,
                                 pp_unrealized_pnl = upnl, pp_venue = venue_value v, pp_currency = currency, pp_exchange = exchange,
                                 pp_con_id = nonzero (Some con)\<rparr>))))))))))"

section \<open>Updating the table\<close>

type_synonym pos_key = "string \<times> string"

definition pos_key :: "position_row \<Rightarrow> pos_key" where
  "pos_key r = (upper (pos_symbol r), upper (if pos_venue r = [] then ''US'' else pos_venue r))"

definition pp_key :: "parsed_position \<Rightarrow> pos_key" where
  "pp_key p = (pp_symbol p, pp_venue p)"

record sync_vars =
  sv_rows :: "position_row list"
  sv_by_key :: "(pos_key \<times> string) list"
  sv_by_con :: "(int \<times> string) list"
  sv_minted :: nat

definition start_vars :: "portfolio_store \<Rightarrow> sync_vars" where
  "start_vars pf =
     \<lparr>sv_rows = pf_positions pf,
      sv_by_key = foldl (\<lambda>d r. dset d (pos_key r) (pos_id r)) [] (pf_positions pf),
      sv_by_con = foldl (\<lambda>d r. case nonzero (pos_con_id r) of None \<Rightarrow> d | Some c \<Rightarrow> dset d c (pos_id r)) [] (pf_positions pf),
      sv_minted = pf_minted pf\<rparr>"

definition new_position :: "string \<Rightarrow> int \<Rightarrow> parsed_position \<Rightarrow> position_row" where
  "new_position i now p =
     \<lparr>pos_id = i, pos_symbol = pp_symbol p, pos_quantity = pp_quantity p, pos_avg_entry_price = pp_avg_entry_price p,
      pos_market_value = pp_market_value p, pos_cost_basis = pp_cost_basis p, pos_unrealized_pnl = pp_unrealized_pnl p,
      pos_sector = sector_of (pp_symbol p) ''Unknown'', pos_venue = pp_venue p, pos_currency = pp_currency p,
      pos_exchange = pp_exchange p, pos_con_id = pp_con_id p, pos_opened_at = None, pos_as_of = now\<rparr>"

definition refresh_position :: "int \<Rightarrow> parsed_position \<Rightarrow> position_row \<Rightarrow> position_row" where
  "refresh_position now p r =
     r\<lparr>pos_quantity := pp_quantity p, pos_avg_entry_price := pp_avg_entry_price p, pos_market_value := pp_market_value p,
       pos_cost_basis := pp_cost_basis p, pos_unrealized_pnl := pp_unrealized_pnl p,
       pos_sector := sector_of (pp_symbol p) (if pos_sector r = [] then ''Unknown'' else pos_sector r), pos_venue := pp_venue p,
       pos_currency := pp_currency p, pos_exchange := pp_exchange p,
       pos_con_id := (if pp_con_id p = None then pos_con_id r else pp_con_id p), pos_as_of := now\<rparr>"

definition upsert_position :: "(nat \<Rightarrow> string) \<Rightarrow> int \<Rightarrow> sync_vars \<Rightarrow> parsed_position \<Rightarrow> sync_vars" where
  "upsert_position uuid now sv p =
     (let by_con = (case pp_con_id p of Some c \<Rightarrow> dget (sv_by_con sv) c | None \<Rightarrow> None);
          hit = (case by_con of Some i \<Rightarrow> Some i | None \<Rightarrow> dget (sv_by_key sv) (pp_key p))
      in case hit of
           None \<Rightarrow> sv\<lparr>sv_rows := sv_rows sv @ [new_position (uuid (sv_minted sv)) now p], sv_minted := Suc (sv_minted sv)\<rparr>
         | Some i \<Rightarrow>
             sv\<lparr>sv_rows := map (\<lambda>r. if pos_id r = i then refresh_position now p r else r) (sv_rows sv),
                sv_by_key := dset (sv_by_key sv) (pp_key p) i,
                sv_by_con := (case pp_con_id p of Some c \<Rightarrow> dset (sv_by_con sv) c i | None \<Rightarrow> sv_by_con sv)\<rparr>)"

text \<open>The loop over the broker's rows; an exception leaves the rows handled so far in the session.\<close>

fun upsert_loop ::
  "settings \<Rightarrow> (nat \<Rightarrow> string) \<Rightarrow> int \<Rightarrow> (string \<times> payload) list list \<Rightarrow> parsed_position list \<Rightarrow> sync_vars
   \<Rightarrow> parsed_position list py \<times> sync_vars" where
  "upsert_loop cfg uuid now [] ps sv = (Inr ps, sv)"
| "upsert_loop cfg uuid now (raw # raws) ps sv =
     (case parse_position cfg raw of
        Inl e \<Rightarrow> (Inl e, sv)
      | Inr None \<Rightarrow> upsert_loop cfg uuid now raws ps sv
      | Inr (Some p) \<Rightarrow> upsert_loop cfg uuid now raws (ps @ [p]) (upsert_position uuid now sv p))"

text \<open>Ids to delete: of every key that was not seen, unless its row was matched by contract id.\<close>

definition vanished :: "parsed_position list \<Rightarrow> sync_vars \<Rightarrow> string list" where
  "vanished ps sv =
     map snd (filter (\<lambda>(key, i).
        \<not> (case find (\<lambda>r. pos_id r = i) (sv_rows sv) of
             Some r \<Rightarrow> (case nonzero (pos_con_id r) of Some c \<Rightarrow> Some c \<in> pp_con_id ` set ps | None \<Rightarrow> False)
           | None \<Rightarrow> False)
        \<and> key \<notin> pp_key ` set ps) (sv_by_key sv))"

text \<open>Deletion and flush: the unique constraint on symbol and venue is checked here.\<close>

definition flush_positions :: "parsed_position list \<Rightarrow> sync_vars \<Rightarrow> portfolio_store \<Rightarrow> unit py \<times> portfolio_store" where
  "flush_positions ps sv pf =
     (let rows = filter (\<lambda>r. pos_id r \<notin> set (vanished ps sv)) (sv_rows sv)
      in if distinct (map (\<lambda>r. (pos_symbol r, pos_venue r)) rows)
         then (Inr (), pf\<lparr>pf_positions := rows, pf_minted := sv_minted sv\<rparr>)
         else (Inl (IntegrityError ''uq_positions_symbol_venue''), pf))"

section \<open>Snapshots\<close>

definition latest_snapshot :: "portfolio_snapshot list \<Rightarrow> portfolio_snapshot option" where
  "latest_snapshot ss = fold (\<lambda>s acc. case acc of None \<Rightarrow> Some s | Some a \<Rightarrow> if ps_as_of a \<le> ps_as_of s then Some s else acc) ss None"

definition gross_of :: "parsed_position list \<Rightarrow> rat" where
  "gross_of ps = foldl (\<lambda>g p. fadd g \<bar>pp_market_value p\<bar>) 0 ps"

definition gross_pct_of :: "rat \<Rightarrow> string \<Rightarrow> payload option \<Rightarrow> parsed_position list \<Rightarrow> rat" where
  "gross_pct_of equity base_currency broker_gross ps =
     (let pct = (\<lambda>g. if equity \<noteq> 0 then fmul (fdiv g equity) 100 else 0);
          known = (case broker_gross of
                     None \<Rightarrow> None
                   | Some PNull \<Rightarrow> None
                   | Some v \<Rightarrow> (case float_of_str v of Inr g \<Rightarrow> Some g | Inl _ \<Rightarrow> None))
      in case known of
           Some g \<Rightarrow>
             if 0 < g then pct g
             else if list_all (\<lambda>p. upper (or_str (pp_currency p) (upper base_currency)) = upper base_currency) ps then pct (gross_of ps) else 0
         | None \<Rightarrow>
             if list_all (\<lambda>p. upper (or_str (pp_currency p) (upper base_currency)) = upper base_currency) ps then pct (gross_of ps) else 0)"

definition fingerprint_of :: "rat \<Rightarrow> rat \<Rightarrow> parsed_position list \<Rightarrow> fingerprint" where
  "fingerprint_of equity cash ps =
     (fround 4 equity, fround 4 cash,
      sort (map (\<lambda>p. (pp_symbol p, if pp_venue p = [] then ''US'' else pp_venue p, fround 6 (pp_quantity p), fround 4 (pp_market_value p))) ps))"

definition safe_account :: "(string \<times> payload) list \<Rightarrow> (string \<times> payload) list" where
  "safe_account account =
     (let a = (case dget account ''id'' of
                 None \<Rightarrow> account
               | Some v \<Rightarrow> dset (dpop account ''id'') ''account_id_reference'' (PStr (redact_account_id (Some (str_of v)))));
          redact = (\<lambda>d k. case dget d k of None \<Rightarrow> d | Some v \<Rightarrow> dset d k (PStr (redact_account_id (Some (str_of v)))))
      in redact (redact a ''account_number'') ''account_id'')"

definition held_line_of :: "parsed_position \<Rightarrow> held_line" where
  "held_line_of p =
     \<lparr>hl_symbol = pp_symbol p, hl_quantity = pp_quantity p, hl_side = (if pp_quantity p < 0 then ''short'' else ''long''),
      hl_price = (if pp_quantity p \<noteq> 0 then \<bar>fdiv (pp_market_value p) (pp_quantity p)\<bar> else 0),
      hl_market_value = pp_market_value p, hl_cost_basis = pp_cost_basis p, hl_venue = pp_venue p, hl_currency = pp_currency p\<rparr>"

definition drawdown_from :: "rat \<Rightarrow> rat \<Rightarrow> rat" where
  "drawdown_from peak equity = max 0 (fmul (fdiv (fsub peak equity) peak) 100)"

definition day_change :: "rat \<Rightarrow> payload option \<Rightarrow> (rat \<times> rat) py" where
  "day_change equity last_eq =
     (case last_eq of
        None \<Rightarrow> Inr (0, 0)
      | Some PNull \<Rightarrow> Inr (0, 0)
      | Some v \<Rightarrow> py_bind (float_of_str v) (\<lambda>prior.
          Inr (fsub equity prior, if prior \<noteq> 0 then fmul (fdiv (fsub equity prior) prior) 100 else 0)))"

definition peak_of :: "rat \<Rightarrow> portfolio_snapshot option \<Rightarrow> rat py" where
  "peak_of equity prev =
     (case prev of
        None \<Rightarrow> Inr equity
      | Some s \<Rightarrow>
          (case ps_peak_equity s of
             None \<Rightarrow> Inl (TypeError ''float() argument must be a string or a real number'')
           | Some p \<Rightarrow> Inr (max equity p)))"

definition book_position_of :: "parsed_position \<Rightarrow> book_position" where
  "book_position_of p =
     book_position.make (Some (pp_symbol p)) (Some (pp_quantity p)) None (Some (pp_market_value p)) (Some (pp_venue p)) (pp_exchange p)
       (pp_currency p)"

fun as_dict :: "payload option \<Rightarrow> (string \<times> payload) list" where
  "as_dict (Some (PDict d)) = d"
| "as_dict _ = []"

definition base_currency_text :: "(string \<times> payload) list \<Rightarrow> string" where
  "base_currency_text account =
     (let v = pay_or (dget account ''currency'') (dget account ''base_currency'') in if truthy v then pay_text v else ''USD'')"

definition new_snapshot ::
  "settings \<Rightarrow> string \<Rightarrow> int \<Rightarrow> (string \<times> payload) list \<Rightarrow> rat \<Rightarrow> rat \<Rightarrow> rat \<Rightarrow> rat \<Rightarrow> parsed_position list \<Rightarrow> portfolio_snapshot option
   \<Rightarrow> (string \<times> book_bucket) list \<Rightarrow> portfolio_snapshot py" where
  "new_snapshot cfg i now account equity cash cash_pct gross_pct ps prev books =
     py_bind (peak_of equity prev) (\<lambda>peak. py_bind (day_change equity (dget account ''last_equity'')) (\<lambda>(pnl, pnl_pct).
       Inr \<lparr>ps_id = i, ps_as_of = now, ps_equity = equity, ps_cash = cash, ps_cash_pct = cash_pct, ps_gross_exposure_pct = gross_pct,
            ps_daily_pnl = pnl, ps_daily_pnl_pct = pnl_pct,
            ps_drawdown_pct = (if 0 < peak then drawdown_from peak equity else case prev of Some s \<Rightarrow> ps_drawdown_pct s | None \<Rightarrow> 0),
            ps_peak_equity = Some peak, ps_open_positions = length ps,
            ps_payload = \<lparr>sp_account = safe_account account, sp_position_count = length ps, sp_positions = map held_line_of ps,
                          sp_fingerprint = fingerprint_of equity cash ps, sp_base_currency = base_currency_text account,
                          sp_cash_by_currency = as_dict (dget account ''cash_by_currency''), sp_venue_books = books\<rparr>\<rparr>))"

text \<open>Writes a snapshot when forced or when the fingerprint changed, and returns the current one.\<close>

definition record_snapshot ::
  "settings \<Rightarrow> (nat \<Rightarrow> string) \<Rightarrow> int \<Rightarrow> bool \<Rightarrow> (string \<times> payload) list \<Rightarrow> rat \<Rightarrow> rat \<Rightarrow> rat \<Rightarrow> rat \<Rightarrow> parsed_position list \<Rightarrow> portfolio_store
   \<Rightarrow> (bool \<times> portfolio_snapshot) py \<times> portfolio_store" where
  "record_snapshot cfg uuid now force account equity cash cash_pct gross_pct ps pf =
     (case summarize_venue_books cfg (map book_position_of ps) (Some equity) of
        Inl e \<Rightarrow> (Inl e, pf)
      | Inr books \<Rightarrow>
          (let prev = latest_snapshot (pf_snapshots pf);
               unchanged = (case prev of Some s \<Rightarrow> sp_fingerprint (ps_payload s) = fingerprint_of equity cash ps | None \<Rightarrow> False)
           in if force \<or> \<not> unchanged
              then (case new_snapshot cfg (uuid (pf_minted pf)) now account equity cash cash_pct gross_pct ps prev books of
                      Inl e \<Rightarrow> (Inl e, pf)
                    | Inr s \<Rightarrow> (Inr (True, s), pf\<lparr>pf_snapshots := pf_snapshots pf @ [s], pf_minted := Suc (pf_minted pf)\<rparr>))
              else (Inr (False, the prev), pf)))"

type_synonym broker_book = "(string \<times> payload) list \<times> (string \<times> payload) list list"

definition sync_from_broker ::
  "settings \<Rightarrow> (nat \<Rightarrow> string) \<Rightarrow> int \<Rightarrow> broker_book py \<Rightarrow> bool \<Rightarrow> portfolio_store \<Rightarrow> position_sync_report py \<times> portfolio_store" where
  "sync_from_broker cfg uuid now fetch force pf =
     (case py_bind fetch (\<lambda>(account, positions).
             py_bind (float_text (pay_or (dget account ''equity'') (dget account ''portfolio_value''))) (\<lambda>equity.
             py_bind (float_text (dget account ''cash'')) (\<lambda>cash. Inr (account, positions, equity, cash)))) of
        Inl e \<Rightarrow> (Inl e, pf)
      | Inr (account, positions, equity, cash) \<Rightarrow>
          (let cash_pct = (if equity \<noteq> 0 then fmul (fdiv cash equity) 100 else 100)
           in case upsert_loop cfg uuid now positions [] (start_vars pf) of
                (Inl e, sv) \<Rightarrow> (Inl e, pf\<lparr>pf_positions := sv_rows sv, pf_minted := sv_minted sv\<rparr>)
              | (Inr ps, sv) \<Rightarrow>
                  (case flush_positions ps sv pf of
                     (Inl e, pf1) \<Rightarrow> (Inl e, pf1)
                   | (Inr _, pf1) \<Rightarrow>
                       (let gross_pct = gross_pct_of equity (base_currency_text account) (dget account ''long_market_value'') ps
                        in case record_snapshot cfg uuid now force account equity cash cash_pct gross_pct ps pf1 of
                             (Inl e, pf2) \<Rightarrow> (Inl e, pf2)
                           | (Inr (written, snap), pf2) \<Rightarrow>
                               (Inr \<lparr>sy_equity = equity, sy_cash = cash, sy_cash_pct = cash_pct, sy_gross_exposure_pct = gross_pct,
                                     sy_open_positions = length ps, sy_daily_pnl = ps_daily_pnl snap,
                                     sy_daily_pnl_pct = ps_daily_pnl_pct snap, sy_snapshot_written = written\<rparr>, pf2)))))"

section \<open>The portfolio state\<close>

record position_snapshot =
  pn_symbol :: string
  pn_quantity :: rat
  pn_market_value :: rat
  pn_cost_basis :: rat
  pn_unrealized_pnl :: rat
  pn_sector :: string
  pn_weight_pct :: rat
  pn_venue :: string
  pn_currency :: "string option"
  pn_con_id :: "int option"
  pn_opened_at :: "datetime option"

record PortfolioStateInput =
  si_as_of :: int
  si_equity :: rat
  si_cash :: rat
  si_cash_pct :: rat
  si_gross_exposure_pct :: rat
  si_positions :: "position_snapshot list"
  si_daily_pnl_pct :: rat
  si_drawdown_pct :: rat
  si_consecutive_losses :: int
  si_open_order_count :: int
  si_trading_halted :: bool
  si_cooldown_until :: "int option"
  si_base_currency :: string
  si_cash_by_currency :: "(string \<times> rat) list"
  si_venue_books :: "(string \<times> book_bucket) list"

text \<open>Closed lifecycles since an instant, newest first; the day's start is the default.\<close>

definition closed_since :: "int \<Rightarrow> PositionLifecycle list \<Rightarrow> PositionLifecycle list" where
  "closed_since since lcs =
     sort_key (\<lambda>lc. - as_utc (the (lc_closed_at lc)))
       (filter (\<lambda>lc. lower (lc_status lc) = ''closed'' \<and> (case lc_closed_at lc of Some t \<Rightarrow> since \<le> as_utc t | None \<Rightarrow> False)) lcs)"

definition current_loss_streak :: "settings \<Rightarrow> int \<Rightarrow> nat \<Rightarrow> int option \<Rightarrow> portfolio_store \<Rightarrow> LossStreak" where
  "current_loss_streak cfg now lmt since pf =
     (let start = (case since of Some t \<Rightarrow> t | None \<Rightarrow> day_start now)
      in loss_streak (map (\<lambda>lc. (map_option as_utc (lc_closed_at lc), lifecycle_pnl lc)) (take lmt (closed_since start (pf_lifecycles pf))))
           (cfg_cooldown_after_loss_minutes cfg))"

definition position_snapshot_of :: "rat \<Rightarrow> position_row \<Rightarrow> position_snapshot" where
  "position_snapshot_of equity p =
     \<lparr>pn_symbol = pos_symbol p, pn_quantity = pos_quantity p, pn_market_value = pos_market_value p, pn_cost_basis = pos_cost_basis p,
      pn_unrealized_pnl = pos_unrealized_pnl p, pn_sector = pos_sector p,
      pn_weight_pct = (if equity \<noteq> 0 then fmul (fdiv (pos_market_value p) equity) 100 else 0),
      pn_venue = (if pos_venue p = [] then ''US'' else pos_venue p), pn_currency = pos_currency p, pn_con_id = nonzero (pos_con_id p),
      pn_opened_at = pos_opened_at p\<rparr>"

fun cash_lines :: "(string \<times> payload) list \<Rightarrow> (string \<times> rat) list \<Rightarrow> (string \<times> rat) list py" where
  "cash_lines [] acc = Inr acc"
| "cash_lines ((k, v) # kvs) acc = py_bind (to_float v) (\<lambda>x. cash_lines kvs (dset acc (upper k) x))"

definition portfolio_state_input :: "settings \<Rightarrow> int \<Rightarrow> portfolio_store \<Rightarrow> PortfolioStateInput py" where
  "portfolio_state_input cfg now pf =
     (let streak = current_loss_streak cfg now 50 None pf
      in case latest_snapshot (pf_snapshots pf) of
           None \<Rightarrow>
             Inr \<lparr>si_as_of = now, si_equity = cfg_starting_cash cfg, si_cash = cfg_starting_cash cfg, si_cash_pct = 100,
                  si_gross_exposure_pct = 0, si_positions = [], si_daily_pnl_pct = 0, si_drawdown_pct = 0,
                  si_consecutive_losses = ls_consecutive_losses streak, si_open_order_count = 0, si_trading_halted = False,
                  si_cooldown_until = ls_cooldown_until streak, si_base_currency = ''USD'', si_cash_by_currency = [], si_venue_books = []\<rparr>
         | Some s \<Rightarrow>
             (let equity = (if ps_equity s \<noteq> 0 then ps_equity s else 1); pl = ps_payload s
              in py_bind (cash_lines (sp_cash_by_currency pl) []) (\<lambda>lines.
                   Inr \<lparr>si_as_of = ps_as_of s, si_equity = ps_equity s, si_cash = ps_cash s, si_cash_pct = ps_cash_pct s,
                        si_gross_exposure_pct = ps_gross_exposure_pct s,
                        si_positions = map (position_snapshot_of equity) (pf_positions pf), si_daily_pnl_pct = ps_daily_pnl_pct s,
                        si_drawdown_pct = ps_drawdown_pct s, si_consecutive_losses = ls_consecutive_losses streak,
                        si_open_order_count = 0, si_trading_halted = False, si_cooldown_until = ls_cooldown_until streak,
                        si_base_currency = (if sp_base_currency pl = [] then ''USD'' else sp_base_currency pl),
                        si_cash_by_currency = lines, si_venue_books = sp_venue_books pl\<rparr>)))"

text \<open>A failed flush leaves the session unusable, so the fallback's query raises as well.\<close>

definition load_for_risk ::
  "settings \<Rightarrow> (nat \<Rightarrow> string) \<Rightarrow> int \<Rightarrow> broker_book py \<Rightarrow> bool option \<Rightarrow> portfolio_store
   \<Rightarrow> (PortfolioStateInput \<times> string) py \<times> portfolio_store" where
  "load_for_risk cfg uuid now fetch require pf =
     (let required = (case require of Some b \<Rightarrow> b | None \<Rightarrow> cfg_enable_broker_orders cfg \<or> cfg_enable_automated_execution cfg);
          want_sync = (cfg_enable_broker_connection cfg \<or> cfg_enable_broker_orders cfg \<or> required)
      in if want_sync then
           (case sync_from_broker cfg uuid now fetch False pf of (r, pf1) \<Rightarrow>
              (case py_bind r (\<lambda>_. portfolio_state_input cfg now pf1) of
                 Inr st \<Rightarrow> (Inr (st, ''portfolio_from_broker''), pf1)
               | Inl e \<Rightarrow>
                   if required \<or> (case e of IntegrityError _ \<Rightarrow> True | _ \<Rightarrow> False) then (Inl e, pf1)
                   else (py_bind (portfolio_state_input cfg now pf1) (\<lambda>st. Inr (st, ''portfolio_db_fallback'')), pf1)))
         else
           (py_bind (portfolio_state_input cfg now pf) (\<lambda>st.
              Inr (st, if si_equity st \<noteq> cfg_starting_cash cfg \<or> si_positions st \<noteq> [] then ''portfolio_from_db'' else ''portfolio_starting_cash'')), pf))"

definition position_view :: "position_snapshot \<Rightarrow> PositionRiskView" where
  "position_view p =
     \<lparr>prv_symbol = pn_symbol p, prv_quantity = pn_quantity p, prv_market_value = pn_market_value p, prv_sector = pn_sector p,
      prv_weight_pct = pn_weight_pct p, prv_venue = (if pn_venue p = [] then ''US'' else pn_venue p), prv_currency = pn_currency p,
      prv_con_id = nonzero (pn_con_id p)\<rparr>"

definition to_risk_view :: "PortfolioStateInput \<Rightarrow> PortfolioRiskView" where
  "to_risk_view st =
     \<lparr>prt_equity = si_equity st, prt_cash = si_cash st, prt_cash_pct = si_cash_pct st, prt_gross_exposure_pct = si_gross_exposure_pct st,
      prt_positions = map position_view (si_positions st), prt_daily_pnl_pct = si_daily_pnl_pct st, prt_drawdown_pct = si_drawdown_pct st,
      prt_consecutive_losses = si_consecutive_losses st, prt_trading_halted = si_trading_halted st, prt_cooldown_until = si_cooldown_until st,
      prt_peak_equity = Some (si_equity st),
      prt_base_currency = (if si_base_currency st = [] then ''USD'' else si_base_currency st)\<rparr>"

text \<open>\<open>portfolio_to_risk_view\<close> of \<open>execution/firm_execution.py\<close>, which leaves the peak unset.\<close>

definition portfolio_to_risk_view :: "PortfolioStateInput \<Rightarrow> PortfolioRiskView" where
  "portfolio_to_risk_view st =
     \<lparr>prt_equity = si_equity st, prt_cash = si_cash st, prt_cash_pct = si_cash_pct st, prt_gross_exposure_pct = si_gross_exposure_pct st,
      prt_positions = map position_view (si_positions st), prt_daily_pnl_pct = si_daily_pnl_pct st, prt_drawdown_pct = si_drawdown_pct st,
      prt_consecutive_losses = si_consecutive_losses st, prt_trading_halted = si_trading_halted st, prt_cooldown_until = si_cooldown_until st,
      prt_peak_equity = None,
      prt_base_currency = (if si_base_currency st = [] then ''USD'' else si_base_currency st)\<rparr>"

section \<open>The positions table mirrors the broker\<close>

text \<open>
  A table in good order: ids and listings are unique, and symbols and venues are stored in upper case.  A broker book in good
  order: one row per listing and per contract.  Contracts keep their listing from one sync to the next.
\<close>

definition table_ok :: "(nat \<Rightarrow> string) \<Rightarrow> portfolio_store \<Rightarrow> bool" where
  "table_ok uuid pf \<longleftrightarrow>
     distinct (map pos_id (pf_positions pf)) \<and> distinct (map pos_key (pf_positions pf))
     \<and> list_all (\<lambda>r. pos_key r = (pos_symbol r, pos_venue r)) (pf_positions pf)
     \<and> (\<forall>n \<ge> pf_minted pf. uuid n \<notin> pos_id ` set (pf_positions pf))"

definition book_ok :: "parsed_position list \<Rightarrow> bool" where
  "book_ok ps \<longleftrightarrow> distinct (map pp_key ps) \<and> distinct (filter (\<lambda>c. c \<noteq> None) (map pp_con_id ps)) \<and> Some 0 \<notin> set (map pp_con_id ps)"

definition same_contracts :: "position_row list \<Rightarrow> parsed_position list \<Rightarrow> bool" where
  "same_contracts rows ps \<longleftrightarrow>
     (\<forall>r \<in> set rows. \<forall>p \<in> set ps. pos_con_id r \<noteq> None \<and> pos_con_id r = pp_con_id p \<longrightarrow> pos_key r = pp_key p)"

definition updated :: "int \<Rightarrow> parsed_position list \<Rightarrow> position_row \<Rightarrow> position_row" where
  "updated now ps r = (case find (\<lambda>p. pp_key p = pos_key r) ps of Some p \<Rightarrow> refresh_position now p r | None \<Rightarrow> r)"

fun fresh_rows :: "(nat \<Rightarrow> string) \<Rightarrow> int \<Rightarrow> pos_key set \<Rightarrow> nat \<Rightarrow> parsed_position list \<Rightarrow> position_row list" where
  "fresh_rows uuid now known m [] = []"
| "fresh_rows uuid now known m (p # ps) =
     (if pp_key p \<in> known then fresh_rows uuid now known m ps
      else new_position (uuid m) now p # fresh_rows uuid now known (Suc m) ps)"

lemma fresh_rows_snoc:
  "fresh_rows uuid now known m (ps @ [p]) = fresh_rows uuid now known m ps
     @ (if pp_key p \<in> known then [] else [new_position (uuid (m + length (fresh_rows uuid now known m ps))) now p])"
  by (induction ps arbitrary: m) auto

lemma fresh_rows_ids: "r \<in> set (fresh_rows uuid now known m ps) \<Longrightarrow> \<exists>n \<ge> m. pos_id r = uuid n"
proof (induction ps arbitrary: m)
  case (Cons p ps)
  then consider "r \<in> set (fresh_rows uuid now known m ps)" | "pos_id r = uuid m" | "r \<in> set (fresh_rows uuid now known (Suc m) ps)"
    by (auto simp: new_position_def split: if_splits)
  then show ?case using Cons.IH Suc_leD by cases blast+
qed simp

lemma refresh_simps [simp]:
  "pos_id (refresh_position now p r) = pos_id r" "pos_symbol (refresh_position now p r) = pos_symbol r"
  "pos_venue (refresh_position now p r) = pp_venue p"
  by (simp_all add: refresh_position_def)

lemma updated_id [simp]: "pos_id (updated now ps r) = pos_id r"
  by (simp add: updated_def split: option.splits)

lemma start_by_key:
  assumes "distinct (map pos_key rows)"
  shows "dget (foldl (\<lambda>d r. dset d (pos_key r) (pos_id r)) [] rows) k = map_option pos_id (find (\<lambda>r. pos_key r = k) rows)"
    "dkeys (foldl (\<lambda>d r. dset d (pos_key r) (pos_id r)) [] rows) = map pos_key rows"
  using assms
proof (induction rows rule: rev_induct)
  case (snoc r rows)
  { case 1
    have "find (\<lambda>x. pos_key x = k) rows = None" if "pos_key r = k" using 1 that by (auto simp: find_None_iff image_iff)
    then show ?case using snoc(1) 1 by (cases "pos_key r = k") (auto simp: find_append split: option.split) }
  { case 2
    then show ?case using snoc(2) by (simp add: dset_fresh) (simp add: dkeys_def) }
qed (simp_all add: dkeys_def)

lemma start_by_con:
  "dget (foldl (\<lambda>d r. case nonzero (pos_con_id r) of None \<Rightarrow> d | Some c \<Rightarrow> dset d c (pos_id r)) [] rows) c = Some i
   \<Longrightarrow> \<exists>r \<in> set rows. pos_id r = i \<and> pos_con_id r = Some c"
  by (induction rows rule: rev_induct) (auto simp: nonzero_def split: option.splits if_splits)

text \<open>The state of the loop after the rows \<open>ps\<close>.\<close>

definition loop_state :: "(nat \<Rightarrow> string) \<Rightarrow> int \<Rightarrow> portfolio_store \<Rightarrow> parsed_position list \<Rightarrow> sync_vars \<Rightarrow> bool" where
  "loop_state uuid now pf ps sv \<longleftrightarrow>
     (let known = pos_key ` set (pf_positions pf); new = fresh_rows uuid now known (pf_minted pf) ps
      in sv_rows sv = map (updated now ps) (pf_positions pf) @ new \<and> sv_minted sv = pf_minted pf + length new
         \<and> dkeys (sv_by_key sv) = map pos_key (pf_positions pf)
         \<and> (\<forall>k. dget (sv_by_key sv) k = map_option pos_id (find (\<lambda>r. pos_key r = k) (pf_positions pf)))
         \<and> (\<forall>c i. dget (sv_by_con sv) c = Some i \<longrightarrow>
              (\<exists>r \<in> set (pf_positions pf). pos_id r = i \<and> (pos_con_id r = Some c \<or> Some c \<in> pp_con_id ` set ps))))"

lemma loop_start: "table_ok uuid pf \<Longrightarrow> loop_state uuid now pf [] (start_vars pf)"
  by (auto simp: loop_state_def start_vars_def table_ok_def start_by_key updated_def[abs_def] Let_def dest: start_by_con)

lemma find_by_key:
  assumes "distinct (map pos_key rows)" "r \<in> set rows" "pos_key r = k"
  shows "find (\<lambda>x. pos_key x = k) rows = Some r"
  using assms by (induction rows) auto

lemma loop_step:
  assumes "table_ok uuid pf" "book_ok (ps @ [p])" "same_contracts (pf_positions pf) (ps @ [p])" "loop_state uuid now pf ps sv"
  shows "loop_state uuid now pf (ps @ [p]) (upsert_position uuid now sv p)"
proof -
  let ?rows = "pf_positions pf"
  have d: "distinct (map pos_key ?rows)" "distinct (map pos_id ?rows)" and nw: "pp_key p \<notin> pp_key ` set ps"
    and ncon: "pp_con_id p \<noteq> None \<Longrightarrow> pp_con_id p \<notin> pp_con_id ` set ps"
    using assms(1,2) by (auto simp: table_ok_def book_ok_def image_iff)
  have inv: "sv_rows sv = map (updated now ps) ?rows @ fresh_rows uuid now (pos_key ` set ?rows) (pf_minted pf) ps"
    "sv_minted sv = pf_minted pf + length (fresh_rows uuid now (pos_key ` set ?rows) (pf_minted pf) ps)"
    "dkeys (sv_by_key sv) = map pos_key ?rows" "\<And>k. dget (sv_by_key sv) k = map_option pos_id (find (\<lambda>r. pos_key r = k) ?rows)"
    and con: "\<And>c i. dget (sv_by_con sv) c = Some i \<Longrightarrow> \<exists>r \<in> set ?rows. pos_id r = i \<and> (pos_con_id r = Some c \<or> Some c \<in> pp_con_id ` set ps)"
    using assms(4) by (auto simp: loop_state_def Let_def)
  have other: "updated now (ps @ [p]) r = updated now ps r" if "pos_key r \<noteq> pp_key p" for r
    using that by (auto simp: updated_def find_append split: option.splits)
  have hitcon: "\<exists>r \<in> set ?rows. pos_id r = i \<and> pos_key r = pp_key p" if "pp_con_id p = Some c" "dget (sv_by_con sv) c = Some i" for c i
    using con[OF that(2)] ncon that(1) assms(3) by (auto simp: same_contracts_def)
  show ?thesis
  proof (cases "\<exists>r \<in> set ?rows. pos_key r = pp_key p")
    case True
    then obtain r0 where r0: "r0 \<in> set ?rows" "pos_key r0 = pp_key p" by blast
    have f: "find (\<lambda>r. pos_key r = pp_key p) ?rows = Some r0" using find_by_key[OF d(1) r0] .
    have same: "r = r0" if "r \<in> set ?rows" "pos_key r = pp_key p" for r using find_by_key[OF d(1) that] f by simp
    have hit: "(case pp_con_id p of Some c \<Rightarrow> dget (sv_by_con sv) c | None \<Rightarrow> None) \<in> {None, Some (pos_id r0)}"
      using hitcon same by (fastforce split: option.splits)
    have no: "find (\<lambda>q. pp_key q = pos_key r0) ps = None" using nw r0 by (auto simp: find_None_iff image_iff)
    have "updated now (ps @ [p]) r0 = refresh_position now p r0" using no r0 by (simp add: updated_def find_append)
    moreover have "updated now ps r0 = r0" using no by (simp add: updated_def)
    ultimately have upd: "(if pos_id r = pos_id r0 then refresh_position now p (updated now ps r) else updated now ps r) = updated now (ps @ [p]) r"
      if "r \<in> set ?rows" for r
      using that r0 same other d(2) by (metis (mono_tags, lifting) distinct_map inj_onD)
    have fresh: "map (\<lambda>r. if pos_id r = pos_id r0 then refresh_position now p r else r) (fresh_rows uuid now (pos_key ` set ?rows) (pf_minted pf) ps)
        = fresh_rows uuid now (pos_key ` set ?rows) (pf_minted pf) ps"
      using assms(1) r0(1) by (intro map_idI) (metis (no_types, lifting) fresh_rows_ids image_eqI table_ok_def)
    have ups: "upsert_position uuid now sv p
      = sv\<lparr>sv_rows := map (\<lambda>r. if pos_id r = pos_id r0 then refresh_position now p r else r) (sv_rows sv),
           sv_by_key := dset (sv_by_key sv) (pp_key p) (pos_id r0),
           sv_by_con := (case pp_con_id p of Some c \<Rightarrow> dset (sv_by_con sv) c (pos_id r0) | None \<Rightarrow> sv_by_con sv)\<rparr>"
      using hit f by (auto simp: upsert_position_def inv(4) Let_def split: option.splits)
    have "pp_key p \<in> set (dkeys (sv_by_key sv))" using r0 inv(3) by force
    then show ?thesis
      using r0 upd fresh f con
      by (auto simp: loop_state_def ups inv fresh_rows_snoc dkeys_dset_known Let_def split: option.splits)
  next
    case False
    then have k: "pp_key p \<notin> pos_key ` set ?rows" by auto
    have "(case pp_con_id p of Some c \<Rightarrow> dget (sv_by_con sv) c | None \<Rightarrow> None) = None"
      using hitcon False by (auto split: option.splits) (metis not_None_eq)
    moreover have "find (\<lambda>r. pos_key r = pp_key p) ?rows = None" using False by (auto simp: find_None_iff)
    ultimately have ups: "upsert_position uuid now sv p = sv\<lparr>sv_rows := sv_rows sv @ [new_position (uuid (sv_minted sv)) now p], sv_minted := Suc (sv_minted sv)\<rparr>"
      by (simp add: upsert_position_def inv(4))
    have "map (updated now (ps @ [p])) ?rows = map (updated now ps) ?rows" using k other by (intro map_cong refl) (metis image_eqI)
    moreover have "\<exists>r \<in> set ?rows. pos_id r = i \<and> (pos_con_id r = Some c \<or> Some c = pp_con_id p \<or> Some c \<in> pp_con_id ` set ps)"
      if "dget (sv_by_con sv) c = Some i" for c i
      using con[OF that] by blast
    ultimately show ?thesis using k by (auto simp: loop_state_def ups inv fresh_rows_snoc Let_def)
  qed
qed

lemma loop_runs:
  assumes "table_ok uuid pf" "book_ok ps" "same_contracts (pf_positions pf) ps"
  shows "loop_state uuid now pf ps (foldl (upsert_position uuid now) (start_vars pf) ps)"
  using assms(2,3)
proof (induction ps rule: rev_induct)
  case Nil
  then show ?case by (simp add: loop_start[OF assms(1)])
next
  case (snoc p ps)
  then have "book_ok ps" "same_contracts (pf_positions pf) ps" by (auto simp: book_ok_def same_contracts_def split: if_splits)
  then show ?case using loop_step[OF assms(1) snoc.prems] snoc.IH by simp
qed

definition listing :: "position_row \<Rightarrow> pos_key" where
  "listing r = (pos_symbol r, pos_venue r)"

definition row_view :: "position_row \<Rightarrow> pos_key \<times> rat \<times> rat \<times> rat \<times> rat \<times> rat \<times> string option \<times> string option" where
  "row_view r = (listing r, pos_quantity r, pos_avg_entry_price r, pos_market_value r, pos_cost_basis r, pos_unrealized_pnl r,
     pos_currency r, pos_exchange r)"

definition book_view :: "parsed_position \<Rightarrow> pos_key \<times> rat \<times> rat \<times> rat \<times> rat \<times> rat \<times> string option \<times> string option" where
  "book_view p = (pp_key p, pp_quantity p, pp_avg_entry_price p, pp_market_value p, pp_cost_basis p, pp_unrealized_pnl p,
     pp_currency p, pp_exchange p)"

lemma fresh_rows_views:
  "map row_view (fresh_rows uuid now known m ps) = map book_view (filter (\<lambda>p. pp_key p \<notin> known) ps)"
  by (induction ps arbitrary: m) (auto simp: new_position_def row_view_def book_view_def listing_def pp_key_def)

lemma refreshed_view: "listing r = pp_key p \<Longrightarrow> row_view (refresh_position now p r) = book_view p"
  by (simp add: row_view_def book_view_def listing_def pp_key_def refresh_position_def)

lemma find_book_key: "distinct (map pp_key ps) \<Longrightarrow> p \<in> set ps \<Longrightarrow> pp_key p = k \<Longrightarrow> find (\<lambda>q. pp_key q = k) ps = Some p"
  by (induction ps) auto

lemma vanished_ids:
  assumes "table_ok uuid pf" "same_contracts (pf_positions pf) ps" "loop_state uuid now pf ps sv"
  shows "set (vanished ps sv) = pos_id ` {r \<in> set (pf_positions pf). pos_key r \<notin> pp_key ` set ps}"
proof -
  let ?rows = "pf_positions pf"
  have d: "distinct (map pos_key ?rows)" "distinct (map pos_id ?rows)" using assms(1) by (auto simp: table_ok_def)
  have inv: "sv_rows sv = map (updated now ps) ?rows @ fresh_rows uuid now (pos_key ` set ?rows) (pf_minted pf) ps"
    "dkeys (sv_by_key sv) = map pos_key ?rows" "\<And>k. dget (sv_by_key sv) k = map_option pos_id (find (\<lambda>r. pos_key r = k) ?rows)"
    using assms(3) by (auto simp: loop_state_def Let_def)
  have "dict_ok (sv_by_key sv)" using inv(2) d(1) by (simp add: dict_ok_def)
  then have ents: "set (sv_by_key sv) = (\<lambda>r. (pos_key r, pos_id r)) ` set ?rows"
  proof (intro set_eqI iffI)
    fix x assume "dict_ok (sv_by_key sv)" "x \<in> set (sv_by_key sv)"
    then have "dget (sv_by_key sv) (fst x) = Some (snd x)" by (metis dget_mem prod.collapse)
    then show "x \<in> (\<lambda>r. (pos_key r, pos_id r)) ` set ?rows" using inv(3) by (auto simp: find_Some_iff image_iff) (metis nth_mem prod.collapse)
  next
    fix x assume "dict_ok (sv_by_key sv)" "x \<in> (\<lambda>r. (pos_key r, pos_id r)) ` set ?rows"
    then obtain r where "r \<in> set ?rows" "x = (pos_key r, pos_id r)" by blast
    then show "x \<in> set (sv_by_key sv)" using inv(3) find_by_key[OF d(1)] \<open>dict_ok (sv_by_key sv)\<close> by (simp add: dget_mem)
  qed
  have row: "find (\<lambda>x. pos_id x = pos_id r) (sv_rows sv) = Some r" if "r \<in> set ?rows" "pos_key r \<notin> pp_key ` set ps" for r
  proof -
    have "updated now ps r = r" using that(2) by (auto simp: updated_def find_Some_iff split: option.splits) (metis image_eqI nth_mem)
    moreover have "find (\<lambda>x. pos_id x = pos_id r) (map (updated now ps) rs) = Some (updated now ps r)" if "r \<in> set rs" "distinct (map pos_id rs)" for rs
      using that by (induction rs) auto
    ultimately show ?thesis using that(1) d(2) by (simp add: inv(1) find_append)
  qed
  have nocon: "\<not> (case nonzero (pos_con_id r) of Some c \<Rightarrow> Some c \<in> pp_con_id ` set ps | None \<Rightarrow> False)"
    if "r \<in> set ?rows" "pos_key r \<notin> pp_key ` set ps" for r
    using that assms(2) by (fastforce simp: nonzero_def same_contracts_def split: option.splits if_splits)
  show ?thesis
    unfolding vanished_def using row nocon by (auto simp: ents image_iff case_prod_beta) (metis surj_pair)
qed

lemma matched_or_new: "f ` {r \<in> A. f r \<in> g ` B} \<union> g ` {p \<in> B. g p \<notin> f ` A} = g ` B"
proof
  show "g ` B \<subseteq> f ` {r \<in> A. f r \<in> g ` B} \<union> g ` {p \<in> B. g p \<notin> f ` A}"
  proof
    fix k assume "k \<in> g ` B"
    then obtain p where p: "p \<in> B" "k = g p" by blast
    show "k \<in> f ` {r \<in> A. f r \<in> g ` B} \<union> g ` {p \<in> B. g p \<notin> f ` A}"
    proof (cases "g p \<in> f ` A")
      case True
      then obtain r where "r \<in> A" "f r = g p" by auto
      then have "r \<in> {r \<in> A. f r \<in> g ` B}" "k = f r" using p by auto
      then show ?thesis by blast
    next
      case False
      then show ?thesis using p by blast
    qed
  qed
qed auto

lemma flush_mirrors:
  assumes "table_ok uuid pf" "book_ok ps" "same_contracts (pf_positions pf) ps"
    "sv = foldl (upsert_position uuid now) (start_vars pf) ps"
  shows "\<exists>rows. flush_positions ps sv pf = (Inr (), pf\<lparr>pf_positions := rows, pf_minted := sv_minted sv\<rparr>)
    \<and> distinct (map listing rows) \<and> set (map row_view rows) = set (map book_view ps) \<and> length rows = length ps"
proof -
  let ?orig = "pf_positions pf" let ?keys = "pp_key ` set ps" let ?known = "pos_key ` set ?orig"
  let ?new = "fresh_rows uuid now ?known (pf_minted pf) ps"
  have st: "loop_state uuid now pf ps sv" using loop_runs[OF assms(1-3)] assms(4) by simp
  note van = vanished_ids[OF assms(1,3) st]
  have d: "distinct (map pos_key ?orig)" "distinct (map pos_id ?orig)" and lst: "\<And>r. r \<in> set ?orig \<Longrightarrow> pos_key r = listing r"
    and dk: "distinct (map pp_key ps)"
    using assms(1,2) by (auto simp: table_ok_def book_ok_def listing_def list_all_iff)
  define rows where "rows = filter (\<lambda>r. pos_id r \<notin> set (vanished ps sv)) (sv_rows sv)"
  have keep: "pos_id r \<notin> set (vanished ps sv) \<longleftrightarrow> pos_key r \<in> ?keys" if "r \<in> set ?orig" for r
    using that d(2) by (auto simp: van distinct_map inj_on_def)
  have keepnew: "pos_id r \<notin> set (vanished ps sv)" if "r \<in> set ?new" for r
    using fresh_rows_ids[OF that] assms(1) by (auto simp: van table_ok_def image_iff) metis
  have "rows = filter (\<lambda>r. pos_id r \<notin> set (vanished ps sv)) (map (updated now ps) ?orig) @ ?new"
    using st keepnew by (simp add: rows_def loop_state_def Let_def)
  also have "filter (\<lambda>r. pos_id r \<notin> set (vanished ps sv)) (map (updated now ps) ?orig) = map (updated now ps) (filter (\<lambda>r. pos_key r \<in> ?keys) ?orig)"
    using keep by (simp add: filter_map comp_def cong: filter_cong)
  finally have rows: "rows = map (updated now ps) (filter (\<lambda>r. pos_key r \<in> ?keys) ?orig) @ ?new" .
  define look where "look k = the (find (\<lambda>p. pp_key p = k) ps)" for k
  have look: "look (pp_key p) = p" if "p \<in> set ps" for p using find_book_key[OF dk that] by (simp add: look_def)
  have upd: "row_view (updated now ps r) = book_view (look (pos_key r))" if "r \<in> set ?orig" "pos_key r \<in> ?keys" for r
  proof -
    from that(2) obtain p where p: "p \<in> set ps" "pp_key p = pos_key r" by auto
    then have "find (\<lambda>q. pp_key q = pos_key r) ps = Some p" using find_book_key[OF dk] by simp
    then show ?thesis using p lst[OF that(1)] by (simp add: updated_def look_def refreshed_view)
  qed
  have views: "map row_view rows = map (\<lambda>r. book_view (look (pos_key r))) (filter (\<lambda>r. pos_key r \<in> ?keys) ?orig)
      @ map book_view (filter (\<lambda>p. pp_key p \<notin> ?known) ps)"
    using upd by (simp add: rows fresh_rows_views)
  have "map listing rows = map fst (map row_view rows)" by (simp add: row_view_def)
  also have "\<dots> = map pos_key (filter (\<lambda>r. pos_key r \<in> ?keys) ?orig) @ map pp_key (filter (\<lambda>p. pp_key p \<notin> ?known) ps)"
    unfolding views using look by (auto simp: book_view_def)
  finally have lists: "map listing rows = map pos_key (filter (\<lambda>r. pos_key r \<in> ?keys) ?orig) @ map pp_key (filter (\<lambda>p. pp_key p \<notin> ?known) ps)" .
  have dl: "distinct (map listing rows)" unfolding lists using d(1) dk by (auto simp: distinct_map_filter) (metis image_eqI)
  have setk: "set (map listing rows) = ?keys" unfolding lists set_append set_map set_filter by (rule matched_or_new)
  then have "length rows = length ps" using dl dk by (metis distinct_card length_map list.set_map)
  moreover have "set (map row_view rows) = set (map book_view ps)"
  proof
    show "set (map row_view rows) \<subseteq> set (map book_view ps)" unfolding views using look by auto
    show "set (map book_view ps) \<subseteq> set (map row_view rows)"
    proof
      fix v assume "v \<in> set (map book_view ps)"
      then obtain p where p: "p \<in> set ps" "v = book_view p" by auto
      show "v \<in> set (map row_view rows)"
      proof (cases "pp_key p \<in> ?known")
        case True
        then obtain r where "r \<in> set ?orig" "pos_key r = pp_key p" by auto
        then show ?thesis unfolding views using p look[OF p(1)] by force
      next
        case False
        then show ?thesis unfolding views using p by auto
      qed
    qed
  qed
  moreover have "flush_positions ps sv pf = (Inr (), pf\<lparr>pf_positions := rows, pf_minted := sv_minted sv\<rparr>)"
    using dl by (simp add: flush_positions_def rows_def listing_def[abs_def] Let_def)
  ultimately show ?thesis using dl by blast
qed

text \<open>The rows of a broker answer, parsed on their own.\<close>

fun parse_positions :: "settings \<Rightarrow> (string \<times> payload) list list \<Rightarrow> parsed_position list py" where
  "parse_positions cfg [] = Inr []"
| "parse_positions cfg (raw # raws) =
     py_bind (parse_position cfg raw) (\<lambda>p. py_bind (parse_positions cfg raws) (\<lambda>ps.
       Inr (case p of None \<Rightarrow> ps | Some x \<Rightarrow> x # ps)))"

lemma upsert_loop_parse:
  "parse_positions cfg raws = Inr ps \<Longrightarrow> upsert_loop cfg uuid now raws acc sv = (Inr (acc @ ps), foldl (upsert_position uuid now) sv ps)"
  by (induction raws arbitrary: ps acc sv) (auto simp: py_bind_Inr_iff split: option.splits)

lemma parsed_venues: "parse_positions cfg raws = Inr ps \<Longrightarrow> p \<in> set ps \<Longrightarrow> pp_venue p \<noteq> []"
proof (induction raws arbitrary: ps)
  case (Cons raw raws)
  from Cons.prems(1) obtain x ps' where x: "parse_position cfg raw = Inr x" "parse_positions cfg raws = Inr ps'"
    "ps = (case x of None \<Rightarrow> ps' | Some y \<Rightarrow> y # ps')"
    by (auto simp: py_bind_Inr_iff)
  have "venue_value v \<noteq> []" for v by (cases v) simp_all
  then have "\<forall>y. x = Some y \<longrightarrow> pp_venue y \<noteq> []" using x(1) by (auto simp: parse_position_def Let_def py_bind_Inr_iff split: if_splits)
  then show ?case using Cons.IH[OF x(2)] Cons.prems(2) x(3) by (auto split: option.splits)
qed simp

lemma books_loop_total: "\<forall>b \<in> set bs. \<exists>p. b = book_position_of p \<and> pp_venue p \<noteq> [] \<Longrightarrow> \<exists>r. books_loop cfg books bs = Inr r"
  by (induction bs arbitrary: books) (auto simp: Let_def book_position_of_def book_position.make_def truthy_str_def)

lemma snapshot_no_clash:
  assumes "parse_positions cfg raws = Inr ps"
  shows "record_snapshot cfg uuid now force account equity cash cash_pct gross ps pf \<noteq> (Inl (IntegrityError m), pf')"
proof -
  have "\<forall>b \<in> set (map book_position_of ps). \<exists>p. b = book_position_of p \<and> pp_venue p \<noteq> []" using parsed_venues[OF assms] by auto
  from books_loop_total[OF this, of cfg "[(''US'', empty_bucket), (''AU'', empty_bucket)]"]
  obtain books where "summarize_venue_books cfg (map book_position_of ps) (Some equity) = Inr books"
    by (auto simp: summarize_venue_books_def)
  moreover have "float_of_str v \<noteq> Inl (IntegrityError m)" for v by (cases v) (auto split: option.splits)
  then have "new_snapshot cfg i now account equity cash a b ps prev books \<noteq> Inl (IntegrityError m)" for i a b prev books
    by (auto simp: new_snapshot_def py_bind_Inl_iff peak_of_def day_change_def split: option.splits payload.splits)
  ultimately show ?thesis by (auto simp: record_snapshot_def Let_def split: sum.splits if_splits)
qed

text \<open>
  Property C24.  After a sync the positions table is the broker's book: one row per broker position with the broker's quantity,
  prices, value, currency and exchange, rows the broker no longer reports are gone, and the unique constraint never
  fails.  This asks for a table in good order, for a book that reports each listing once and no contract id twice or
  as zero, and that a contract id the table knows is still reported under the same listing (symbol and
  venue): after a ticker change the row would keep the old symbol.
\<close>

theorem sync_mirrors_broker:
  assumes "table_ok uuid pf" "parse_positions cfg positions = Inr ps"
    "distinct (map pp_key ps)" "distinct (filter (\<lambda>c. c \<noteq> None) (map pp_con_id ps))" "Some 0 \<notin> set (map pp_con_id ps)"
    "\<forall>r \<in> set (pf_positions pf). \<forall>p \<in> set ps. pos_con_id r \<noteq> None \<and> pos_con_id r = pp_con_id p \<longrightarrow> pos_key r = pp_key p"
    "sync_from_broker cfg uuid now (Inr (account, positions)) force pf = (res, pf')"
    "float_text (pay_or (dget account ''equity'') (dget account ''portfolio_value'')) = Inr equity" "float_text (dget account ''cash'') = Inr cash"
  shows "distinct (map listing (pf_positions pf')) \<and> set (map row_view (pf_positions pf')) = set (map book_view ps)
    \<and> (\<forall>rep. res = Inr rep \<longrightarrow> sy_open_positions rep = length (pf_positions pf')) \<and> (\<forall>m. res \<noteq> Inl (IntegrityError m))"
proof -
  define sv where "sv = foldl (upsert_position uuid now) (start_vars pf) ps"
  have ok: "book_ok ps" "same_contracts (pf_positions pf) ps" using assms(3-6) by (simp_all add: book_ok_def same_contracts_def)
  from flush_mirrors[OF assms(1) ok sv_def] obtain rows where
    f: "flush_positions ps sv pf = (Inr (), pf\<lparr>pf_positions := rows, pf_minted := sv_minted sv\<rparr>)"
    and r: "distinct (map listing rows)" "set (map row_view rows) = set (map book_view ps)" "length rows = length ps" by blast
  let ?pf1 = "pf\<lparr>pf_positions := rows, pf_minted := sv_minted sv\<rparr>"
  let ?cash_pct = "if equity \<noteq> 0 then fmul (fdiv cash equity) 100 else 100"
  let ?gross = "gross_pct_of equity (base_currency_text account) (dget account ''long_market_value'') ps"
  obtain r2 pf2 where rs: "record_snapshot cfg uuid now force account equity cash ?cash_pct ?gross ps ?pf1 = (r2, pf2)" by fastforce
  have keep: "pf_positions pf2 = rows" using rs by (auto simp: record_snapshot_def Let_def split: sum.splits if_splits)
  have noint: "r2 \<noteq> Inl (IntegrityError m)" for m using rs snapshot_no_clash[OF assms(2)] by blast
  have "sync_from_broker cfg uuid now (Inr (account, positions)) force pf
      = (case (r2, pf2) of (Inl e, pf2) \<Rightarrow> (Inl e, pf2) | (Inr (written, snap), pf2) \<Rightarrow>
           (Inr \<lparr>sy_equity = equity, sy_cash = cash, sy_cash_pct = ?cash_pct, sy_gross_exposure_pct = ?gross, sy_open_positions = length ps,
                 sy_daily_pnl = ps_daily_pnl snap, sy_daily_pnl_pct = ps_daily_pnl_pct snap, sy_snapshot_written = written\<rparr>, pf2))"
    unfolding sync_from_broker_def
    by (simp add: assms(8,9) upsert_loop_parse[OF assms(2)] sv_def[symmetric] f rs)
  then show ?thesis using assms(7) r keep noint by (auto split: sum.splits)
qed

section \<open>Peak, drawdown and the risk gate\<close>

text \<open>Snapshots in the order they were taken, each with the running maximum of the equities as its peak.\<close>

definition snapshots_ok :: "portfolio_snapshot list \<Rightarrow> bool" where
  "snapshots_ok ss \<longleftrightarrow> sorted (map ps_as_of ss)
     \<and> (\<forall>i < length ss. ps_peak_equity (ss ! i) = Some (Max (ps_equity ` set (take (Suc i) ss)))
          \<and> (0 < the (ps_peak_equity (ss ! i)) \<longrightarrow> ps_drawdown_pct (ss ! i) = drawdown_from (the (ps_peak_equity (ss ! i))) (ps_equity (ss ! i))))"

lemma latest_snoc: "latest_snapshot (ss @ [s]) = (case latest_snapshot ss of None \<Rightarrow> Some s | Some a \<Rightarrow> if ps_as_of a \<le> ps_as_of s then Some s else Some a)"
  by (simp add: latest_snapshot_def split: option.splits)

lemma latest_is_last: "sorted (map ps_as_of ss) \<Longrightarrow> latest_snapshot ss = (if ss = [] then None else Some (last ss))"
proof (induction ss rule: rev_induct)
  case Nil
  then show ?case by (simp add: latest_snapshot_def)
next
  case (snoc s ss)
  then show ?case by (auto simp: latest_snoc sorted_append)
qed

lemma snapshots_ok_last:
  assumes "snapshots_ok ss" "ss \<noteq> []"
  shows "ps_peak_equity (last ss) = Some (Max (ps_equity ` set ss))"
    "0 < Max (ps_equity ` set ss) \<Longrightarrow> ps_drawdown_pct (last ss) = drawdown_from (Max (ps_equity ` set ss)) (ps_equity (last ss))"
  using assms by (auto simp: snapshots_ok_def last_conv_nth dest!: spec[of _ "length ss - 1"])

lemma snapshots_ok_snoc:
  assumes "snapshots_ok ss" "\<forall>s \<in> set ss. ps_as_of s \<le> ps_as_of x" "ps_peak_equity x = Some (Max (ps_equity ` set (ss @ [x])))"
    "0 < Max (ps_equity ` set (ss @ [x])) \<Longrightarrow> ps_drawdown_pct x = drawdown_from (Max (ps_equity ` set (ss @ [x]))) (ps_equity x)"
  shows "snapshots_ok (ss @ [x])"
  using assms by (auto simp: snapshots_ok_def sorted_append nth_append less_Suc_eq)

lemma new_snapshot_fields:
  assumes "new_snapshot cfg i now account equity cash cash_pct gross ps prev books = Inr s"
  shows "ps_equity s = equity \<and> ps_as_of s = now \<and> (\<exists>peak. peak_of equity prev = Inr peak \<and> ps_peak_equity s = Some peak
     \<and> (0 < peak \<longrightarrow> ps_drawdown_pct s = drawdown_from peak equity))"
  using assms by (auto simp: new_snapshot_def py_bind_Inr_iff)

lemma record_snapshot_ok:
  assumes "snapshots_ok (pf_snapshots pf)" "\<forall>s \<in> set (pf_snapshots pf). ps_as_of s \<le> now"
    "record_snapshot cfg uuid now force account equity cash cash_pct gross ps pf = (r, pf')"
  shows "snapshots_ok (pf_snapshots pf') \<and> (\<forall>s \<in> set (pf_snapshots pf'). ps_as_of s \<le> now)"
proof -
  let ?ss = "pf_snapshots pf"
  have l: "latest_snapshot ?ss = (if ?ss = [] then None else Some (last ?ss))" using assms(1) by (intro latest_is_last) (simp add: snapshots_ok_def)
  consider "pf_snapshots pf' = ?ss" | s books where "new_snapshot cfg (uuid (pf_minted pf)) now account equity cash cash_pct gross ps (latest_snapshot ?ss) books = Inr s"
      "pf_snapshots pf' = ?ss @ [s]"
  proof (cases "summarize_venue_books cfg (map book_position_of ps) (Some equity)")
    case (Inl e)
    then show ?thesis using assms(3) that(1) by (simp add: record_snapshot_def)
  next
    case (Inr books)
    show ?thesis
    proof (cases "new_snapshot cfg (uuid (pf_minted pf)) now account equity cash cash_pct gross ps (latest_snapshot ?ss) books")
      case (Inl e)
      then show ?thesis using assms(3) that(1) Inr by (simp add: record_snapshot_def Let_def split: if_splits)
    next
      case (Inr s)
      show ?thesis
      proof (cases "pf_snapshots pf' = ?ss")
        case False
        then have "pf_snapshots pf' = ?ss @ [s]"
          using assms(3) Inr \<open>summarize_venue_books cfg (map book_position_of ps) (Some equity) = Inr books\<close>
          by (auto simp: record_snapshot_def Let_def split: if_splits)
        then show ?thesis using that(2) Inr by blast
      qed (rule that(1))
    qed
  qed
  then show ?thesis
  proof cases
    case 1
    then show ?thesis using assms by simp
  next
    case (2 s books)
    have peak: "peak_of equity (latest_snapshot ?ss) = Inr (Max (ps_equity ` set (?ss @ [s])))" if "ps_equity s = equity"
    proof (cases "?ss = []")
      case True
      then show ?thesis using that by (simp add: peak_of_def latest_snapshot_def)
    next
      case False
      then show ?thesis using that snapshots_ok_last(1)[OF assms(1) False] by (simp add: peak_of_def l)
    qed
    from new_snapshot_fields[OF 2(1)] have s: "ps_equity s = equity" "ps_as_of s = now" by auto
    with new_snapshot_fields[OF 2(1)] peak have "ps_peak_equity s = Some (Max (ps_equity ` set (?ss @ [s])))"
      "0 < Max (ps_equity ` set (?ss @ [s])) \<Longrightarrow> ps_drawdown_pct s = drawdown_from (Max (ps_equity ` set (?ss @ [s]))) (ps_equity s)"
      by auto
    then show ?thesis using snapshots_ok_snoc[OF assms(1), of s] assms(2) s 2(2) by auto
  qed
qed

lemma sync_snapshots_ok:
  assumes "snapshots_ok (pf_snapshots pf)" "\<forall>s \<in> set (pf_snapshots pf). ps_as_of s \<le> now"
    "sync_from_broker cfg uuid now fetch force pf = (r, pf')"
  shows "snapshots_ok (pf_snapshots pf') \<and> (\<forall>s \<in> set (pf_snapshots pf'). ps_as_of s \<le> now)"
proof -
  define start where "start = py_bind fetch (\<lambda>(account, positions).
     py_bind (float_text (pay_or (dget account ''equity'') (dget account ''portfolio_value''))) (\<lambda>equity.
     py_bind (float_text (dget account ''cash'')) (\<lambda>cash. Inr (account, positions, equity, cash))))"
  note sync = assms(3)[unfolded sync_from_broker_def, folded start_def]
  show ?thesis
  proof (cases start)
    case (Inl e)
    then show ?thesis using sync assms(1,2) by simp
  next
    case (Inr x)
    obtain account positions equity cash where x: "x = (account, positions, equity, cash)" by (cases x)
    obtain res sv where u: "upsert_loop cfg uuid now positions [] (start_vars pf) = (res, sv)" by fastforce
    show ?thesis
    proof (cases res)
      case (Inl e)
      then show ?thesis using sync Inr x u assms(1,2) by auto
    next
      case (Inr ps)
      obtain fr pf1 where f: "flush_positions ps sv pf = (fr, pf1)" by fastforce
      then have same: "pf_snapshots pf1 = pf_snapshots pf" by (auto simp: flush_positions_def Let_def split: if_splits)
      show ?thesis
      proof (cases fr)
        case (Inl e)
        then show ?thesis using sync \<open>start = Inr x\<close> x u Inr f assms(1,2) same by auto
      next
        case (Inr un)
        let ?cp = "if equity \<noteq> 0 then fmul (fdiv cash equity) 100 else 100"
        let ?g = "gross_pct_of equity (base_currency_text account) (dget account ''long_market_value'') ps"
        obtain r2 pf2 where rs: "record_snapshot cfg uuid now force account equity cash ?cp ?g ps pf1 = (r2, pf2)" by fastforce
        then have "pf' = pf2" using sync \<open>start = Inr x\<close> x u \<open>res = Inr ps\<close> f Inr by (auto simp: Let_def split: sum.splits)
        then show ?thesis using record_snapshot_ok[OF _ _ rs] assms(1,2) same by auto
      qed
    qed
  qed
qed

text \<open>A history of syncs: the clock, the broker's answer and the force flag of each.\<close>

type_synonym sync_call = "int \<times> broker_book py \<times> bool"

definition run_syncs :: "settings \<Rightarrow> (nat \<Rightarrow> string) \<Rightarrow> sync_call list \<Rightarrow> portfolio_store \<Rightarrow> portfolio_store" where
  "run_syncs cfg uuid calls pf = foldl (\<lambda>pf (now, fetch, force). snd (sync_from_broker cfg uuid now fetch force pf)) pf calls"

lemma run_syncs_ok:
  assumes "snapshots_ok (pf_snapshots pf)" "\<forall>s \<in> set (pf_snapshots pf). \<forall>c \<in> set calls. ps_as_of s \<le> fst c" "sorted (map fst calls)"
  shows "snapshots_ok (pf_snapshots (run_syncs cfg uuid calls pf))"
  using assms
proof (induction calls arbitrary: pf)
  case Nil
  then show ?case by (simp add: run_syncs_def)
next
  case (Cons c calls)
  obtain now fetch force where c: "c = (now, fetch, force)" by (cases c)
  obtain r pf1 where s: "sync_from_broker cfg uuid now fetch force pf = (r, pf1)" by fastforce
  have "snapshots_ok (pf_snapshots pf1) \<and> (\<forall>s \<in> set (pf_snapshots pf1). ps_as_of s \<le> now)"
    using Cons.prems c by (intro sync_snapshots_ok[OF _ _ s]) auto
  then have "snapshots_ok (pf_snapshots (run_syncs cfg uuid calls pf1))"
    using Cons.prems(3) c by (intro Cons.IH) (auto intro: order_trans)
  then show ?case by (simp add: run_syncs_def c s)
qed

definition empty_store :: portfolio_store where
  "empty_store = \<lparr>pf_positions = [], pf_snapshots = [], pf_lifecycles = [], pf_minted = 0\<rparr>"

lemma drawdown_check:
  "veto_value MAX_DRAWDOWN \<in> set (veto_codes (portfolio_checks lm p t now)) \<longleftrightarrow> lim_max_drawdown_pct lm \<le> effective_drawdown p"
  by (auto simp: portfolio_checks_def loss_checks_def veto_codes_def add_check_def Let_def split: option.splits)

text \<open>
  Property C23.  The drawdown gate works from the broker to the veto: after any history of syncs with a clock that does not run
  backwards, whatever the broker answered, the risk checks on the firm's view of the stored portfolio veto with MAX_DRAWDOWN exactly
  when the latest recorded equity is at least the limit below the highest equity ever recorded.
\<close>

theorem drawdown_gate_end_to_end:
  assumes "sorted (map fst calls)" "pf = run_syncs cfg uuid calls empty_store" "pf_snapshots pf \<noteq> []"
    "0 < Max (ps_equity ` set (pf_snapshots pf))" "portfolio_state_input cfg now pf = Inr st"
  shows "veto_value MAX_DRAWDOWN \<in> set (veto_codes (portfolio_checks lm (portfolio_to_risk_view st) t now))
    \<longleftrightarrow> lim_max_drawdown_pct lm \<le> drawdown_from (Max (ps_equity ` set (pf_snapshots pf))) (ps_equity (last (pf_snapshots pf)))"
proof -
  have ok: "snapshots_ok (pf_snapshots pf)"
    unfolding assms(2) using assms(1) by (intro run_syncs_ok) (auto simp: snapshots_ok_def empty_store_def)
  then have "latest_snapshot (pf_snapshots pf) = Some (last (pf_snapshots pf))"
    using assms(3) by (simp add: latest_is_last snapshots_ok_def)
  then have "si_drawdown_pct st = ps_drawdown_pct (last (pf_snapshots pf))"
    using assms(5) by (auto simp: portfolio_state_input_def Let_def py_bind_Inr_iff)
  then have "effective_drawdown (portfolio_to_risk_view st)
      = drawdown_from (Max (ps_equity ` set (pf_snapshots pf))) (ps_equity (last (pf_snapshots pf)))"
    using snapshots_ok_last(2)[OF ok assms(3,4)] by (simp add: effective_drawdown_def portfolio_to_risk_view_def)
  then show ?thesis by (simp only: drawdown_check)
qed

text \<open>
  The position manager's own view of the portfolio disables the drawdown gate: it gives the current equity as the peak, so the
  engine measures a drawdown of zero and never vetoes with MAX_DRAWDOWN, however deep the recorded drawdown; the firm's view,
  which agrees with it everywhere else, vetoes exactly when the recorded drawdown reaches the limit.
\<close>

theorem manager_view_disables_drawdown_gate:
  assumes "0 < lim_max_drawdown_pct lm"
  shows "veto_value MAX_DRAWDOWN \<notin> set (veto_codes (portfolio_checks lm (to_risk_view st) t now))
    \<and> (veto_value MAX_DRAWDOWN \<in> set (veto_codes (portfolio_checks lm (portfolio_to_risk_view st) t now))
         \<longleftrightarrow> lim_max_drawdown_pct lm \<le> si_drawdown_pct st)
    \<and> to_risk_view st = (portfolio_to_risk_view st)\<lparr>prt_peak_equity := Some (si_equity st)\<rparr>"
proof -
  have "effective_drawdown (to_risk_view st) = 0"
    by (simp add: effective_drawdown_def to_risk_view_def drawdown_pct_def fdiv_def fmul_def)
  moreover have "effective_drawdown (portfolio_to_risk_view st) = si_drawdown_pct st"
    by (simp add: effective_drawdown_def portfolio_to_risk_view_def)
  moreover have "to_risk_view st = (portfolio_to_risk_view st)\<lparr>prt_peak_equity := Some (si_equity st)\<rparr>"
    by (simp add: to_risk_view_def portfolio_to_risk_view_def)
  ultimately show ?thesis using assms by (simp only: drawdown_check) simp
qed

section \<open>A sample account\<close>

definition sample_account :: "rat \<Rightarrow> (string \<times> payload) list" where
  "sample_account eq = [(''id'', PStr ''DU12345''), (''equity'', PNum eq), (''cash'', PNum 1000)]"

definition sample_positions :: "(string \<times> payload) list list" where
  "sample_positions = [[(''symbol'', PStr ''spy''), (''qty'', PNum 10), (''market_value'', PNum 1000), (''con_id'', PInt 7)]]"

definition sample_store :: portfolio_store where
  "sample_store = empty_store\<lparr>pf_minted := 2, pf_positions :=
     [\<lparr>pos_id = ''a'', pos_symbol = ''SPY'', pos_quantity = 4, pos_avg_entry_price = 90, pos_market_value = 360, pos_cost_basis = 0,
       pos_unrealized_pnl = 0, pos_sector = ''Index'', pos_venue = ''US'', pos_currency = None, pos_exchange = None, pos_con_id = Some 7,
       pos_opened_at = None, pos_as_of = 0\<rparr>,
      \<lparr>pos_id = ''b'', pos_symbol = ''QQQ'', pos_quantity = 1, pos_avg_entry_price = 90, pos_market_value = 90, pos_cost_basis = 0,
       pos_unrealized_pnl = 0, pos_sector = ''Index'', pos_venue = ''US'', pos_currency = None, pos_exchange = None, pos_con_id = None,
       pos_opened_at = None, pos_as_of = 0\<rparr>]\<rparr>"

definition sample_parsed :: "parsed_position list" where
  "sample_parsed = [\<lparr>pp_symbol = ''SPY'', pp_quantity = 10, pp_avg_entry_price = 0, pp_market_value = 1000, pp_cost_basis = 0,
     pp_unrealized_pnl = 0, pp_venue = ''US'', pp_currency = None, pp_exchange = None, pp_con_id = Some 7\<rparr>]"

lemma sample_store_ok: "table_ok sample_uuid sample_store"
proof -
  have "list_all (\<lambda>r. pos_key r = (pos_symbol r, pos_venue r)) (pf_positions sample_store)"
    "distinct (map pos_key (pf_positions sample_store))" by code_simp+
  then show ?thesis by (auto simp: table_ok_def sample_store_def sample_uuid_def)
qed

lemma sample_parsed_parsed: "parse_positions default_settings sample_positions = Inr sample_parsed"
  by code_simp

theorem sync_mirrors_broker_witness:
  "\<exists>res pf'. sync_from_broker default_settings sample_uuid 5 (Inr (sample_account 25000, sample_positions)) False sample_store = (res, pf')
     \<and> set (map row_view (pf_positions pf')) = set (map book_view sample_parsed)"
proof -
  obtain res pf' where s: "sync_from_broker default_settings sample_uuid 5 (Inr (sample_account 25000, sample_positions)) False sample_store = (res, pf')"
    by fastforce
  have b: "distinct (map pp_key sample_parsed)" "distinct (filter (\<lambda>c. c \<noteq> None) (map pp_con_id sample_parsed))"
    "Some 0 \<notin> set (map pp_con_id sample_parsed)"
    by code_simp+
  have c: "\<forall>r \<in> set (pf_positions sample_store). \<forall>p \<in> set sample_parsed.
      pos_con_id r \<noteq> None \<and> pos_con_id r = pp_con_id p \<longrightarrow> pos_key r = pp_key p"
    by (auto simp: sample_parsed_def sample_store_def pos_key_def pp_key_def) code_simp+
  have "float_text (pay_or (dget (sample_account 25000) ''equity'') (dget (sample_account 25000) ''portfolio_value'')) = Inr 25000"
    "float_text (dget (sample_account 25000) ''cash'') = Inr 1000"
    by (simp_all add: sample_account_def float_text_def pay_or_def)
  from sync_mirrors_broker[OF sample_store_ok sample_parsed_parsed b c s this] s show ?thesis by blast
qed

definition sample_calls :: "sync_call list" where
  "sample_calls = [(1, Inr (sample_account 100000, []), False), (2, Inl (BrokerError ''down''), False), (3, Inr (sample_account 80000, []), False)]"

lemma sample_equities: "map ps_equity (pf_snapshots (run_syncs default_settings sample_uuid sample_calls empty_store)) = [100000, 80000]"
  by code_simp

lemma sample_state: "\<exists>st. portfolio_state_input default_settings 4 (run_syncs default_settings sample_uuid sample_calls empty_store) = Inr st"
proof -
  have "map (\<lambda>s. sp_cash_by_currency (ps_payload s)) (pf_snapshots (run_syncs default_settings sample_uuid sample_calls empty_store)) = [[], []]"
    by code_simp
  then have "\<forall>s \<in> set (pf_snapshots (run_syncs default_settings sample_uuid sample_calls empty_store)). sp_cash_by_currency (ps_payload s) = []"
    by auto
  moreover have "latest_snapshot ss = Some s \<Longrightarrow> s \<in> set ss" for ss s
    by (induction ss rule: rev_induct) (auto simp: latest_snoc latest_snapshot_def[of "[]"] split: option.splits if_splits)
  ultimately show ?thesis by (auto simp: portfolio_state_input_def Let_def split: option.splits)
qed

theorem drawdown_gate_end_to_end_witness:
  "\<exists>st. portfolio_state_input default_settings 4 (run_syncs default_settings sample_uuid sample_calls empty_store) = Inr st
     \<and> veto_value MAX_DRAWDOWN \<in> set (veto_codes (portfolio_checks (limits_from_settings default_settings) (portfolio_to_risk_view st) (sample_trade ''buy'' 10 (Some 95)) 4))"
proof -
  let ?pf = "run_syncs default_settings sample_uuid sample_calls empty_store"
  obtain st where st: "portfolio_state_input default_settings 4 ?pf = Inr st" using sample_state by blast
  have m: "ps_equity ` set (pf_snapshots ?pf) = {100000, 80000}" using sample_equities by (metis list.set_map list.simps(15) list.set(1))
  have ne: "pf_snapshots ?pf \<noteq> []" using sample_equities by auto
  have l: "ps_equity (last (pf_snapshots ?pf)) = 80000" using sample_equities ne by (metis last_ConsL last_ConsR last_map list.discI)
  have d: "lim_max_drawdown_pct (limits_from_settings default_settings) \<le> drawdown_from 100000 80000" by code_simp
  have "sorted (map fst sample_calls)" by (simp add: sample_calls_def)
  from drawdown_gate_end_to_end[OF this refl ne _ st, of "limits_from_settings default_settings"] d st
  show ?thesis unfolding m l by auto
qed

definition sample_drawn :: PortfolioStateInput where
  "sample_drawn = \<lparr>si_as_of = 4, si_equity = 80000, si_cash = 1000, si_cash_pct = 1, si_gross_exposure_pct = 0, si_positions = [],
     si_daily_pnl_pct = 0, si_drawdown_pct = 20, si_consecutive_losses = 0, si_open_order_count = 0, si_trading_halted = False,
     si_cooldown_until = None, si_base_currency = ''USD'', si_cash_by_currency = [], si_venue_books = []\<rparr>"

theorem manager_view_disables_drawdown_gate_witness:
  "veto_value MAX_DRAWDOWN \<notin> set (veto_codes (portfolio_checks (limits_from_settings default_settings) (to_risk_view sample_drawn) (sample_trade ''buy'' 10 (Some 95)) 4))
   \<and> veto_value MAX_DRAWDOWN \<in> set (veto_codes (portfolio_checks (limits_from_settings default_settings) (portfolio_to_risk_view sample_drawn) (sample_trade ''buy'' 10 (Some 95)) 4))"
proof -
  have "0 < lim_max_drawdown_pct (limits_from_settings default_settings)" by code_simp
  moreover have "lim_max_drawdown_pct (limits_from_settings default_settings) \<le> si_drawdown_pct sample_drawn" by code_simp
  ultimately show ?thesis using manager_view_disables_drawdown_gate by blast
qed

end
