(* ===== verification/Book_Strategy.thy ===== *)
theory Book_Strategy
  imports Position_Manager
begin

text \<open>
  \<open>universe/book_strategy.py\<close>: the rules of the four holding-period books.  Scores and the timing label of an entry, the structure
  a book asks of the tape, the win rate its payoff demands, take-profit and lock levels, the exit a book calls for, and the three
  rewrites of a decision: exits aligned with the book, missing exits inserted, blocked entries dropped.  The playbook table and the
  risk multipliers are in theory \<open>Horizons\<close>.  A watchlist row is a pair of its symbol and horizon texts; the quant view is the
  record of the fields the rules read.
\<close>

section \<open>States of the tape\<close>

datatype TrendState = TR_STRONG_UP | TR_UP | TR_SIDEWAYS | TR_DOWN | TR_STRONG_DOWN

fun tr_value :: "TrendState \<Rightarrow> string" where
  "tr_value TR_STRONG_UP = ''strong_up''"
| "tr_value TR_UP = ''up''"
| "tr_value TR_SIDEWAYS = ''sideways''"
| "tr_value TR_DOWN = ''down''"
| "tr_value TR_STRONG_DOWN = ''strong_down''"

datatype MomentumState = MO_ACCELERATING | MO_STEADY | MO_DECELERATING | MO_EXHAUSTED

fun mo_value :: "MomentumState \<Rightarrow> string" where
  "mo_value MO_ACCELERATING = ''accelerating''"
| "mo_value MO_STEADY = ''steady''"
| "mo_value MO_DECELERATING = ''decelerating''"
| "mo_value MO_EXHAUSTED = ''exhausted''"

datatype VolatilityState = VO_LOW | VO_NORMAL | VO_ELEVATED | VO_EXTREME

datatype BookExit = BX_HOLD | BX_REDUCE | BX_SELL

fun bx_value :: "BookExit \<Rightarrow> string" where
  "bx_value BX_HOLD = ''hold''"
| "bx_value BX_REDUCE = ''reduce''"
| "bx_value BX_SELL = ''sell''"

record SymbolQuantView =
  qv_symbol :: string
  qv_trend_state :: TrendState
  qv_momentum_state :: MomentumState
  qv_volatility_state :: VolatilityState
  qv_liquidity_state :: LiquidityState
  qv_support :: "rat option"
  qv_resistance :: "rat option"
  qv_entry_zone :: "PriceZone option"
  qv_stop_or_invalidation :: "rat option"
  qv_probability_estimate :: rat
  qv_notes :: "string list"
  qv_entry_timing :: "string option"

text \<open>The prices of a tape, each possibly missing.\<close>

record tape =
  tp_last :: "rat option"
  tp_open :: "rat option"
  tp_high :: "rat option"
  tp_low :: "rat option"
  tp_sma_20 :: "rat option"

definition is_up :: "TrendState \<Rightarrow> bool" where
  "is_up t \<longleftrightarrow> t \<in> {TR_UP, TR_STRONG_UP}"

definition is_down :: "TrendState \<Rightarrow> bool" where
  "is_down t \<longleftrightarrow> t \<in> {TR_DOWN, TR_STRONG_DOWN}"

section \<open>Horizons of symbols\<close>

definition ACTIVE_STRATEGY_HORIZONS :: "string list" where
  "ACTIVE_STRATEGY_HORIZONS = map uh_value [SCALP, DAY, SHORT, MEDIUM]"

definition DEFAULT_HORIZON :: "(string \<times> string) list" where
  "DEFAULT_HORIZON =
     [(''SPY'', ''medium''), (''QQQ'', ''medium''), (''DIA'', ''medium''), (''VAS'', ''medium''), (''NDQ'', ''medium''),
      (''IOZ'', ''medium''), (''NVDA'', ''scalp''), (''TSLA'', ''scalp''), (''IWM'', ''day''), (''META'', ''day''),
      (''AMZN'', ''day''), (''GOOGL'', ''day''), (''BHP'', ''short''), (''CBA'', ''short'')]"

definition is_active_strategy_horizon :: "string option \<Rightarrow> bool" where
  "is_active_strategy_horizon h \<longleftrightarrow> lower (strip (or_str h [])) \<in> set ACTIVE_STRATEGY_HORIZONS"

fun filter_loop :: "string list \<Rightarrow> string option list \<Rightarrow> string list" where
  "filter_loop out [] = out"
| "filter_loop out (raw # raws) =
     (let key = lower (strip (or_str raw []))
      in filter_loop (if key \<in> set ACTIVE_STRATEGY_HORIZONS \<and> key \<notin> set out then out @ [key] else out) raws)"

definition filter_strategy_horizons :: "string option list \<Rightarrow> string list" where
  "filter_strategy_horizons hs = filter_loop [] hs"

definition watchlist_horizon :: "string \<Rightarrow> (string \<times> string) list \<Rightarrow> string option" where
  "watchlist_horizon sy rows =
     (case filter (\<lambda>h. h \<noteq> []) (map (\<lambda>r. lower (strip (snd r))) (filter (\<lambda>r. upper (fst r) = sy) rows)) of
        h # _ \<Rightarrow> Some h | [] \<Rightarrow> None)"

definition horizon_for_symbol :: "string \<Rightarrow> (string \<times> string) list \<Rightarrow> string" where
  "horizon_for_symbol symbol watchlist =
     (let sy = upper symbol
      in case watchlist_horizon sy watchlist of
           Some h \<Rightarrow> h
         | None \<Rightarrow>
             (case assigned_horizon (Some sy) of
                Some h \<Rightarrow> h
              | None \<Rightarrow> (case dget DEFAULT_HORIZON sy of Some h \<Rightarrow> h | None \<Rightarrow> uh_value SHORT)))"

section \<open>Scores\<close>

definition clamp_score :: "rat \<Rightarrow> rat" where
  "clamp_score x = max (fl (5 / 100)) (min (fl (95 / 100)) (fround 2 x))"

definition volume_at_least :: "BookPlaybook \<Rightarrow> rat option \<Rightarrow> rat option \<Rightarrow> bool" where
  "volume_at_least book volume avg_volume \<longleftrightarrow>
     (case (volume, avg_volume) of (Some v, Some a) \<Rightarrow> 0 < a \<and> fmul (pb_volume_accel_mult book) a \<le> v | _ \<Rightarrow> False)"

definition adjust_probability ::
  "rat \<Rightarrow> string \<Rightarrow> LiquidityState \<Rightarrow> VolatilityState \<Rightarrow> rat option \<Rightarrow> rat option \<Rightarrow> rat option \<Rightarrow> rat \<times> string list" where
  "adjust_probability base horizon liquidity volatility rsi volume avg_volume =
     (let notes0 = [''book='' @ horizon]
      in case playbook_for (Some horizon) of
           None \<Rightarrow> (clamp_score (min base (fl (35 / 100))), notes0 @ [''medium_ignored=-cap''])
         | Some book \<Rightarrow>
             (let (s1, n1) = (if liquidity \<in> set (pb_reject_liquidity book)
                              then (fsub base (fl (15 / 100)), notes0 @ [''liq_reject=-0.15'']) else (base, notes0));
                  (s2, n2) = (if volatility = VO_EXTREME then (fsub s1 (fl (15 / 100)), n1 @ [''vol_extreme=-0.15''])
                              else if volatility = VO_ELEVATED \<and> horizon = ''scalp''
                              then (fsub s1 (fl (8 / 100)), n1 @ [''vol_elev_scalp=-0.08'']) else (s1, n1));
                  (s3, n3) = (case rsi of
                                Some r \<Rightarrow> if pb_prefer_rsi_max book < r then (fsub s2 (fl (5 / 100)), n2 @ [''rsi_hot=-0.05'']) else (s2, n2)
                              | None \<Rightarrow> (s2, n2));
                  (s4, n4) = (if pb_require_volume_accel book \<and> volume_at_least book volume avg_volume
                              then (fadd s3 (fl (5 / 100)), n3 @ [''vol_accel=+0.05'']) else (s3, n3))
              in (clamp_score s4, n4)))"

definition range_loc :: "tape \<Rightarrow> rat option" where
  "range_loc t =
     (case (tp_last t, tp_high t, tp_low t) of
        (Some last_f, Some high_f, Some low_f) \<Rightarrow>
          if high_f \<le> low_f then None else Some (fdiv (fsub last_f low_f) (fsub high_f low_f))
      | _ \<Rightarrow> None)"

definition opt_le :: "rat option \<Rightarrow> rat \<Rightarrow> bool" where
  "opt_le x b \<longleftrightarrow> (case x of Some v \<Rightarrow> v \<le> b | None \<Rightarrow> False)"

definition opt_ge :: "rat option \<Rightarrow> rat \<Rightarrow> bool" where
  "opt_ge x b \<longleftrightarrow> (case x of Some v \<Rightarrow> b \<le> v | None \<Rightarrow> False)"

definition at_average :: "tape \<Rightarrow> bool" where
  "at_average t \<longleftrightarrow>
     (case (tp_sma_20 t, tp_last t) of
        (Some ma, Some px) \<Rightarrow> fdiv \<bar>fsub px ma\<bar> (max \<bar>ma\<bar> (fl (1 / 10 ^ 9))) \<le> fl (8 / 1000)
      | _ \<Rightarrow> False)"

definition reclaims :: "tape \<Rightarrow> bool \<Rightarrow> bool" where
  "reclaims t near_low \<longleftrightarrow>
     (case tp_last t of
        None \<Rightarrow> False
      | Some px \<Rightarrow> opt_le (tp_sma_20 t) px \<or> (opt_le (tp_open t) px \<and> near_low))"

definition classify_timing :: "TrendState \<Rightarrow> MomentumState \<Rightarrow> rat option \<Rightarrow> tape \<Rightarrow> bool \<Rightarrow> string" where
  "classify_timing trend momentum rsi t accumulation =
     (let loc = range_loc t; oversold = opt_le rsi 40; extended = opt_ge rsi 72; near_low = opt_le loc (fl (35 / 100));
          near_high = opt_ge loc (fl (85 / 100))
      in if accumulation then ''accumulation''
         else if momentum = MO_EXHAUSTED \<and> (rsi = None \<or> opt_ge rsi 70) then ''blowoff''
         else if is_down trend then (if oversold \<or> near_low \<or> reclaims t near_low then ''bounce'' else ''falling_knife'')
         else if near_low \<or> oversold \<or> (at_average t \<and> opt_le rsi 52) then ''dip_buy''
         else if extended \<or> (near_high \<and> opt_ge rsi 68) then ''chase''
         else ''continuation'')"

definition timing_delta :: "(string \<times> rat \<times> string) list" where
  "timing_delta =
     [(''dip_buy'', fl (10 / 100), ''+0.10''), (''bounce'', fl (18 / 100), ''+0.18''), (''continuation'', fl (4 / 100), ''+0.04''),
      (''chase'', - fl (4 / 100), ''-0.04''), (''falling_knife'', - fl (20 / 100), ''-0.20''), (''blowoff'', - fl (20 / 100), ''-0.20''),
      (''accumulation'', fl (10 / 100), ''+0.10'')]"

definition apply_timing_probability ::
  "rat \<Rightarrow> string list \<Rightarrow> TrendState \<Rightarrow> MomentumState \<Rightarrow> rat option \<Rightarrow> tape \<Rightarrow> bool \<Rightarrow> rat \<times> string list \<times> string" where
  "apply_timing_probability score notes trend momentum rsi t accumulation =
     (let label = classify_timing trend momentum rsi t accumulation; notes1 = notes @ [''timing='' @ label]
      in case dget timing_delta label of
           Some (delta, txt) \<Rightarrow> (clamp_score (fadd score delta), notes1 @ [label @ ''='' @ txt], label)
         | None \<Rightarrow> (clamp_score score, notes1, label))"

section \<open>Entries\<close>

definition structure_allows_entry ::
  "string \<Rightarrow> TrendState \<Rightarrow> MomentumState \<Rightarrow> LiquidityState \<Rightarrow> VolatilityState \<Rightarrow> rat option \<Rightarrow> rat option \<Rightarrow> rat option \<Rightarrow> tape
   \<Rightarrow> rat option \<Rightarrow> bool \<Rightarrow> bool \<times> string" where
  "structure_allows_entry horizon trend momentum liquidity volatility rsi volume avg_volume t minutes_to_close accumulation =
     (case playbook_for (Some horizon) of
        None \<Rightarrow> (False, ''medium_book_ignored'')
      | Some book \<Rightarrow>
          if liquidity \<in> set (pb_reject_liquidity book) then (False, ''liquidity_'' @ lq_value liquidity)
          else if volatility = VO_EXTREME then (False, ''vol_extreme'')
          else if horizon = ''scalp'' \<and> (case minutes_to_close of Some m \<Rightarrow> 0 \<le> m \<and> m < 45 | None \<Rightarrow> False)
          then (False, ''too_close_to_flatten'')
          else if (case (rsi, pb_rsi_hard_max book) of (Some r, Some m) \<Rightarrow> m < r | _ \<Rightarrow> False)
               \<or> (case (rsi, pb_rsi_hard_min book) of (Some r, Some m) \<Rightarrow> r < m | _ \<Rightarrow> False)
          then (False, ''rsi_extreme_'' @ fmt_fixed 0 (the rsi))
          else if accumulation \<and> horizon = ''short'' then (True, ''ok'')
          else if horizon \<in> {''scalp'', ''day''} \<and> trend = TR_SIDEWAYS then (False, ''sideways_stand_down'')
          else (let timing = classify_timing trend momentum rsi t accumulation
                in if timing = ''falling_knife'' then (False, ''falling_knife'')
                   else if timing = ''blowoff'' then (False, ''exhausted'')
                   else if horizon = ''short'' \<and> timing = ''bounce'' then (False, ''short_oversold_bounce'')
                   else if pb_require_uptrend book \<and> \<not> is_up trend \<and> timing \<noteq> ''bounce''
                        \<and> \<not> (pb_allow_sideways_momentum book \<and> trend = TR_SIDEWAYS \<and> momentum = MO_ACCELERATING)
                   then (False, ''trend_'' @ tr_value trend)
                   else if pb_require_accelerating book \<and> momentum \<noteq> MO_ACCELERATING then (False, ''mom_'' @ mo_value momentum)
                   else if momentum = MO_EXHAUSTED \<and> pb_sell_if_exhausted book \<and> timing \<notin> {''bounce'', ''dip_buy''} then (False, ''exhausted'')
                   else if pb_require_volume_accel book
                        \<and> (case (volume, avg_volume) of (Some v, Some a) \<Rightarrow> 0 < a \<and> v < fmul (pb_volume_accel_mult book) a | _ \<Rightarrow> False)
                   then (False, ''volume_flat'')
                   else if pb_require_short_ma book \<and> (case (tp_sma_20 t, tp_last t) of (Some ma, Some px) \<Rightarrow> px \<le> ma | _ \<Rightarrow> False)
                   then (False, ''below_sma20'')
                   else if pb_require_session_structure book \<and> (case (tp_last t, tp_open t) of (Some px, Some op0) \<Rightarrow> px < op0 | _ \<Rightarrow> False)
                   then (False, ''below_open'')
                   else if pb_require_session_structure book
                        \<and> (case (tp_last t, tp_high t, tp_low t) of
                             (Some px, Some hi, Some lo) \<Rightarrow> lo < hi \<and> px < fdiv (fadd (fadd hi lo) px) 3 | _ \<Rightarrow> False)
                   then (False, ''below_session_vwap'')
                   else (True, ''ok'')))"

definition DEFAULT_ROUND_TRIP_COST_BPS :: rat where
  "DEFAULT_ROUND_TRIP_COST_BPS = 8"

definition policy_or_none :: "string \<Rightarrow> HorizonPolicy option" where
  "policy_or_none horizon = (case policy_for horizon of Inr p \<Rightarrow> Some p | Inl _ \<Rightarrow> None)"

text \<open>The win and the loss of a book after costs, as fractions of the entry.\<close>

definition book_win :: "BookPlaybook \<Rightarrow> rat \<Rightarrow> rat" where
  "book_win book cost_bps = fsub (pb_target_pct book) (fdiv (max 0 cost_bps) 10000)"

definition book_loss :: "string \<Rightarrow> BookPlaybook \<Rightarrow> rat \<Rightarrow> rat" where
  "book_loss horizon book cost_bps =
     fadd (case policy_or_none horizon of Some p \<Rightarrow> hp_stop_pct_fallback p | None \<Rightarrow> pb_target_pct book) (fdiv (max 0 cost_bps) 10000)"

definition required_probability :: "string \<Rightarrow> rat \<Rightarrow> rat" where
  "required_probability horizon cost_bps =
     (case playbook_for (Some horizon) of
        None \<Rightarrow> 1
      | Some book \<Rightarrow>
          (let win = book_win book cost_bps; loss = book_loss horizon book cost_bps
           in if win \<le> 0 \<or> loss \<le> 0 then 1 else fround 4 (fdiv loss (fadd win loss))))"

definition entry_probability_floor :: "string \<Rightarrow> rat" where
  "entry_probability_floor horizon =
     (case playbook_for (Some horizon) of
        None \<Rightarrow> 1
      | Some book \<Rightarrow> max (pb_min_probability book) (required_probability horizon DEFAULT_ROUND_TRIP_COST_BPS))"

definition should_propose_entry ::
  "string \<Rightarrow> rat \<Rightarrow> TrendState \<Rightarrow> MomentumState \<Rightarrow> LiquidityState \<Rightarrow> VolatilityState \<Rightarrow> rat option \<Rightarrow> MarketRegime option \<Rightarrow> rat option
   \<Rightarrow> rat option \<Rightarrow> tape \<Rightarrow> rat option \<Rightarrow> bool \<Rightarrow> bool" where
  "should_propose_entry horizon probability trend momentum liquidity volatility rsi regime volume avg_volume t minutes_to_close accumulation \<longleftrightarrow>
     (case playbook_for (Some horizon) of
        None \<Rightarrow> False
      | Some book \<Rightarrow>
          \<not> probability < entry_probability_floor horizon
          \<and> fst (structure_allows_entry horizon trend momentum liquidity volatility rsi volume avg_volume t minutes_to_close accumulation)
          \<and> (case regime of Some r \<Rightarrow> r \<in> set (pb_new_only_regimes book) | None \<Rightarrow> True))"

definition playbook_take_profit :: "rat \<Rightarrow> string option \<Rightarrow> bool \<Rightarrow> rat option" where
  "playbook_take_profit entry horizon long_side =
     (case playbook_for horizon of
        None \<Rightarrow> None
      | Some book \<Rightarrow>
          if entry \<le> 0 then None
          else Some (fround 4 (fmul entry (fadd 1 (if long_side then pb_target_pct book else - pb_target_pct book)))))"

definition lock_level :: "rat \<Rightarrow> rat option \<Rightarrow> string option \<Rightarrow> bool \<Rightarrow> rat option" where
  "lock_level entry take_profit horizon long_side =
     (if entry \<le> 0 then None
      else case (case take_profit of Some t \<Rightarrow> Some t | None \<Rightarrow> playbook_take_profit entry horizon long_side) of
             None \<Rightarrow> None
           | Some t \<Rightarrow>
               if (0 < fsub t entry) \<noteq> long_side then None else Some (fround 4 (fadd entry (fmul (1 / 2) (fsub t entry)))))"

section \<open>Exits\<close>

definition min_hold_seconds :: "string \<Rightarrow> rat" where
  "min_hold_seconds horizon = (case policy_or_none horizon of Some p \<Rightarrow> fl (of_int (hp_reeval_seconds p)) | None \<Rightarrow> 300)"

definition hope_trade_floor :: "string \<Rightarrow> rat" where
  "hope_trade_floor horizon = (case policy_or_none horizon of Some p \<Rightarrow> hp_min_stop_pct p | None \<Rightarrow> fl (5 / 1000))"

definition is_hope_trade :: "string \<Rightarrow> rat option \<Rightarrow> rat option \<Rightarrow> rat option \<Rightarrow> bool" where
  "is_hope_trade horizon last_px entry held_seconds \<longleftrightarrow>
     (case (last_px, entry) of
        (Some l, Some e) \<Rightarrow>
          \<not> e \<le> 0 \<and> \<not> fdiv (fsub e l) e \<le> hope_trade_floor horizon
          \<and> (case held_seconds of Some h \<Rightarrow> \<not> h < min_hold_seconds horizon | None \<Rightarrow> True)
      | _ \<Rightarrow> False)"

definition exit_action ::
  "string \<Rightarrow> TrendState \<Rightarrow> MomentumState \<Rightarrow> LiquidityState \<Rightarrow> rat option \<Rightarrow> rat option \<Rightarrow> rat option \<Rightarrow> BookExit" where
  "exit_action horizon trend momentum liquidity last_px entry held_seconds =
     (case playbook_for (Some horizon) of
        None \<Rightarrow> BX_HOLD
      | Some book \<Rightarrow>
          if pb_sell_if_downtrend book \<and> is_down trend then BX_SELL
          else if is_hope_trade horizon last_px entry held_seconds \<and> \<not> is_up trend then BX_SELL
          else if pb_sell_if_liquidity_stressed book \<and> liquidity = LQ_STRESSED then BX_SELL
          else if pb_sell_if_exhausted book \<and> momentum = MO_EXHAUSTED then BX_SELL
          else if pb_reduce_if_exhausted book \<and> momentum = MO_EXHAUSTED then BX_REDUCE
          else BX_HOLD)"

fun symbol_action_for_exit :: "BookExit \<Rightarrow> SymbolAction" where
  "symbol_action_for_exit BX_SELL = SA_SELL"
| "symbol_action_for_exit BX_REDUCE = SA_REDUCE"
| "symbol_action_for_exit BX_HOLD = SA_HOLD"

definition portfolio_action_from_symbol_actions :: "SymbolActionPlan list \<Rightarrow> PortfolioAction" where
  "portfolio_action_from_symbol_actions plans =
     (let values = map (\<lambda>p. sa_value (pl_action p)) plans
      in if list_ex (\<lambda>v. v \<in> {''BUY'', ''STRONG_BUY'', ''SCALE_IN'', ''ADD''}) values then PA_SCALE_IN
         else if list_ex (\<lambda>v. v \<in> {''SELL'', ''PARTIAL_SELL''}) values then PA_REDUCE
         else if ''REDUCE'' \<in> set values then PA_REDUCE
         else if values \<noteq> [] then PA_HOLD
         else PA_NO_TRADE)"

definition policy_time_horizon :: "string option \<Rightarrow> TimeHorizon" where
  "policy_time_horizon horizon =
     (case playbook_for horizon of
        Some book \<Rightarrow> pb_cio_time_horizon book
      | None \<Rightarrow> (case policy_for (or_str horizon ''short'') of Inr p \<Rightarrow> hp_cio_time_horizon p | Inl _ \<Rightarrow> TH_INTRADAY))"

definition views_of :: "SymbolQuantView list \<Rightarrow> (string \<times> SymbolQuantView) list" where
  "views_of vs = foldl (\<lambda>d v. dset d (upper (qv_symbol v)) v) [] (filter (\<lambda>v. qv_symbol v \<noteq> []) vs)"

definition BOOK_ENTRY_ACTIONS :: "SymbolAction list" where
  "BOOK_ENTRY_ACTIONS = [SA_STRONG_BUY, SA_BUY, SA_SCALE_IN]"

definition EM_DASH :: string where
  "EM_DASH = map char_of [226 :: int, 128, 148]"

definition tape_from_view :: "SymbolQuantView \<Rightarrow> tape" where
  "tape_from_view view =
     \<lparr>tp_last = (case qv_entry_zone view of Some z \<Rightarrow> Some (fdiv (fadd (pz_min z) (pz_max z)) 2) | None \<Rightarrow> None),
      tp_open = None, tp_high = qv_resistance view, tp_low = qv_support view, tp_sma_20 = None\<rparr>"

definition view_has_accumulation :: "SymbolQuantView \<Rightarrow> bool" where
  "view_has_accumulation view \<longleftrightarrow>
     lower (strip (or_str (qv_entry_timing view) [])) = ''accumulation''
     \<or> list_ex (\<lambda>raw. let t = lower (strip raw) in startswith t ''timing=accumulation'' \<or> startswith t ''stealth='') (qv_notes view)"

section \<open>Exits aligned with the book\<close>

text \<open>The new plan and whether the loop marks the decision as changed.\<close>

definition align_exit :: "string list \<Rightarrow> (string \<times> SymbolQuantView) list \<Rightarrow> (string \<times> string) list \<Rightarrow> SymbolActionPlan \<Rightarrow> bool \<times> SymbolActionPlan" where
  "align_exit held views watchlist plan =
     (let action = pl_action plan; sy = upper (pl_symbol plan)
      in if action \<notin> set EXIT_ACTIONS then (False, plan)
         else if held \<noteq> [] \<and> sy \<notin> set held then (False, plan)
         else
           (let hz = horizon_for_symbol sy watchlist; trim = action \<in> {SA_REDUCE, SA_PARTIAL_SELL}
            in case dget views sy of
                 None \<Rightarrow>
                   if hz = ''short'' \<and> trim
                   then (True, plan\<lparr>pl_action := SA_HOLD, pl_thesis := hz @ '': hold '' @ EM_DASH @ '' no tape to break swing''\<rparr>)
                   else if hz \<in> {''scalp'', ''day''} \<and> trim
                   then (True, plan\<lparr>pl_action := SA_SELL, pl_thesis := hz @ '': flatten leftover''\<rparr>)
                   else (False, plan)
               | Some view \<Rightarrow>
                   (let allowed = exit_action hz (qv_trend_state view) (qv_momentum_state view) (qv_liquidity_state view) None None None;
                        want = symbol_action_for_exit allowed
                    in if want = SA_HOLD \<and> trim \<and> hz = ''short''
                       then (True, plan\<lparr>pl_action := SA_HOLD, pl_thesis := hz @ '': '' @ bx_value allowed @ '' '' @ EM_DASH @ '' keep swing''\<rparr>)
                       else if want = SA_REDUCE \<and> action = SA_SELL then (True, plan\<lparr>pl_action := SA_REDUCE\<rparr>)
                       else if want = SA_SELL \<and> trim \<and> hz \<in> {''scalp'', ''day''} then (True, plan\<lparr>pl_action := SA_SELL\<rparr>)
                       else (False, plan))))"

definition align_cio_playbook_exits :: "SymbolQuantView list \<Rightarrow> (string \<times> string) list \<Rightarrow> string list \<Rightarrow> CIODecision \<Rightarrow> CIODecision" where
  "align_cio_playbook_exits quant watchlist held_symbols d =
     (let held = map upper (filter (\<lambda>s. s \<noteq> []) held_symbols);
          out = map (align_exit held (views_of quant) watchlist) (cd_symbol_actions d);
          updated = map snd out
      in if \<not> list_ex fst out then d
         else d\<lparr>cd_symbol_actions := updated, cd_portfolio_action := portfolio_action_from_symbol_actions updated\<rparr>)"

section \<open>Missing exits inserted\<close>

definition position_entry_last :: "position_snapshot \<Rightarrow> rat option \<times> rat option" where
  "position_entry_last pos =
     (let qty = \<bar>pn_quantity pos\<bar>
      in if qty < fl (1 / 10 ^ 9) then (None, None)
         else (if pn_cost_basis pos \<noteq> 0 then Some (fdiv (pn_cost_basis pos) qty) else None,
               if pn_market_value pos \<noteq> 0 then Some (fdiv (pn_market_value pos) qty) else None))"

definition position_age_seconds :: "int \<Rightarrow> position_snapshot \<Rightarrow> rat option" where
  "position_age_seconds now pos =
     (case pn_opened_at pos of
        None \<Rightarrow> None
      | Some opened \<Rightarrow> Some (max 0 (fl (of_int (now - as_utc opened) / 10 ^ 6))))"

text \<open>The exit the book asks of a position with this view.\<close>

definition exit_of_position :: "int \<Rightarrow> string \<Rightarrow> SymbolQuantView \<Rightarrow> position_snapshot \<Rightarrow> BookExit" where
  "exit_of_position now hz view pos =
     (let (entry, last_px) = position_entry_last pos
      in exit_action hz (qv_trend_state view) (qv_momentum_state view) (qv_liquidity_state view) last_px entry (position_age_seconds now pos))"

text \<open>The bounds that the plan schema puts on its numbers.\<close>

definition check_plan :: "SymbolActionPlan \<Rightarrow> SymbolActionPlan py" where
  "check_plan p =
     (if pl_confidence p < 0 \<or> 100 < pl_confidence p then Inl (ValueError ''confidence'')
      else if pl_target_position_pct p < 0 \<or> 100 < pl_target_position_pct p then Inl (ValueError ''target_position_pct'')
      else require_exit_for_entries p)"

definition playbook_exit_plan :: "string \<Rightarrow> string \<Rightarrow> BookExit \<Rightarrow> position_snapshot \<Rightarrow> SymbolActionPlan py" where
  "playbook_exit_plan sy hz allowed pos =
     check_plan
       \<lparr>pl_symbol = sy, pl_action = symbol_action_for_exit allowed, pl_confidence = 70,
        pl_target_position_pct = (if allowed = BX_SELL then 0 else fmul \<bar>pn_weight_pct pos\<bar> (1 / 2)),
        pl_order_type = OT_MARKET, pl_entry_zone = None, pl_stop_loss = None, pl_take_profit = [],
        pl_time_horizon = policy_time_horizon (Some hz),
        pl_thesis = hz @ '': '' @ bx_value allowed @ '' '' @ EM_DASH @ '' do not wait for a reversal'', pl_invalidation = ''n/a'',
        pl_max_holding_time_minutes = None, pl_entry_timing = None, pl_entry_source = None, pl_trend_at_entry = None\<rparr>"

record exit_vars =
  xv_existing :: "(string \<times> SymbolActionPlan) list"
  xv_updated :: "SymbolActionPlan list"
  xv_changed :: bool

definition put_exit :: "SymbolActionPlan \<Rightarrow> exit_vars \<Rightarrow> exit_vars" where
  "put_exit plan st =
     st\<lparr>xv_existing := dset (xv_existing st) (pl_symbol plan) plan,
        xv_updated := (if dget (xv_existing st) (pl_symbol plan) = None then xv_updated st @ [plan]
                       else map (\<lambda>p. if upper (pl_symbol p) = pl_symbol plan then plan else p) (xv_updated st)),
        xv_changed := True\<rparr>"

definition ensure_exit ::
  "int \<Rightarrow> (string \<times> SymbolQuantView) list \<Rightarrow> (string \<times> string) list \<Rightarrow> position_snapshot \<Rightarrow> exit_vars \<Rightarrow> exit_vars py" where
  "ensure_exit now views watchlist pos st =
     (let sy = upper (pn_symbol pos)
      in if \<bar>pn_quantity pos\<bar> < fl (1 / 10 ^ 9) then Inr st
         else case dget views sy of
                None \<Rightarrow> Inr st
              | Some view \<Rightarrow>
                  (let hz = horizon_for_symbol sy watchlist; allowed = exit_of_position now hz view pos
                   in if allowed = BX_HOLD then Inr st
                      else if (case dget (xv_existing st) sy of Some cur \<Rightarrow> pl_action cur \<in> set EXIT_ACTIONS | None \<Rightarrow> False) then Inr st
                      else py_bind (playbook_exit_plan sy hz allowed pos) (\<lambda>plan. Inr (put_exit plan st))))"

fun ensure_loop ::
  "int \<Rightarrow> (string \<times> SymbolQuantView) list \<Rightarrow> (string \<times> string) list \<Rightarrow> position_snapshot list \<Rightarrow> exit_vars \<Rightarrow> exit_vars py" where
  "ensure_loop now views watchlist [] st = Inr st"
| "ensure_loop now views watchlist (pos # rest) st =
     py_bind (ensure_exit now views watchlist pos st) (ensure_loop now views watchlist rest)"

definition plans_by_symbol :: "SymbolActionPlan list \<Rightarrow> (string \<times> SymbolActionPlan) list" where
  "plans_by_symbol ps = foldl (\<lambda>d p. dset d (upper (pl_symbol p)) p) [] (filter (\<lambda>p. pl_symbol p \<noteq> []) ps)"

definition ensure_playbook_exits ::
  "int \<Rightarrow> SymbolQuantView list \<Rightarrow> (string \<times> string) list \<Rightarrow> position_snapshot list \<Rightarrow> CIODecision \<Rightarrow> CIODecision py" where
  "ensure_playbook_exits now quant watchlist positions d =
     py_bind (ensure_loop now (views_of quant) watchlist positions
                \<lparr>xv_existing = plans_by_symbol (cd_symbol_actions d), xv_updated = cd_symbol_actions d, xv_changed = False\<rparr>)
       (\<lambda>st. Inr (if \<not> xv_changed st then d
                  else d\<lparr>cd_symbol_actions := xv_updated st,
                         cd_portfolio_action := portfolio_action_from_symbol_actions (xv_updated st)\<rparr>))"

section \<open>Blocked entries dropped\<close>

datatype entry_drop = DropRecord | DropSideways | DropOther

text \<open>Why the loop drops a plan, or \<open>None\<close> when it keeps it.\<close>

definition entry_dropped ::
  "(string \<times> SymbolQuantView) list \<Rightarrow> (string \<times> string) list \<Rightarrow> MarketRegime option \<Rightarrow> rat option \<Rightarrow> (string \<times> rat list) list
   \<Rightarrow> SymbolActionPlan \<Rightarrow> entry_drop option" where
  "entry_dropped views watchlist regime minutes_to_close ledger plan =
     (let sy = upper (pl_symbol plan); hz = horizon_for_symbol sy watchlist
      in if pl_action plan \<notin> set BOOK_ENTRY_ACTIONS then None
         else if entry_block_reason (case dget ledger sy of Some ps \<Rightarrow> ps | None \<Rightarrow> []) \<noteq> None then Some DropRecord
         else case dget views sy of
                None \<Rightarrow>
                  if hz \<in> {''scalp'', ''day''} then Some DropOther
                  else if pl_stop_loss plan = None then Some DropOther
                  else None
              | Some view \<Rightarrow>
                  if \<not> should_propose_entry hz (qv_probability_estimate view) (qv_trend_state view) (qv_momentum_state view)
                        (qv_liquidity_state view) (qv_volatility_state view) None regime None None (tape_from_view view)
                        minutes_to_close (view_has_accumulation view)
                  then Some (if hz \<in> {''scalp'', ''day''} \<and> qv_trend_state view = TR_SIDEWAYS then DropSideways else DropOther)
                  else if pl_stop_loss plan = None \<and> qv_stop_or_invalidation view = None then Some DropOther
                  else None)"

definition drop_blocked_entries ::
  "SymbolQuantView list \<Rightarrow> (string \<times> string) list \<Rightarrow> MarketRegime option \<Rightarrow> rat option \<Rightarrow> (string \<times> rat list) list
   \<Rightarrow> CIODecision \<Rightarrow> CIODecision" where
  "drop_blocked_entries quant watchlist regime minutes_to_close outcome_pnls d =
     (let why = entry_dropped (views_of quant) watchlist regime minutes_to_close outcome_pnls;
          updated = filter (\<lambda>p. why p = None) (cd_symbol_actions d);
          dropped = (\<lambda>r. list_ex (\<lambda>p. why p = Some r) (cd_symbol_actions d));
          portfolio = portfolio_action_from_symbol_actions updated;
          idle = portfolio \<in> {PA_NO_TRADE, PA_HOLD, PA_STAY_CASH}
      in if updated = cd_symbol_actions d then d
         else d\<lparr>cd_symbol_actions := updated, cd_portfolio_action := portfolio,
                cd_reason_not_to_trade :=
                  (if dropped DropRecord \<and> idle then Some ''closed_trade_block''
                   else if dropped DropSideways \<and> idle then Some ''sideways_stand_down''
                   else cd_reason_not_to_trade d)\<rparr>)"

section \<open>Rounding errors\<close>

lemma half_unit: "(1 :: rat) / (2 * 10 ^ n) \<le> 1"
proof -
  have "(1 :: rat) \<le> 10 ^ n" by (rule one_le_power) simp
  then have "(1 :: rat) \<le> 2 * 10 ^ n" by linarith
  then show ?thesis by (simp add: divide_le_eq_1)
qed

lemma fl_err_abs: "\<bar>fl x - x\<bar> \<le> \<bar>x\<bar> / 1000000000000000 + 1 / 1000000000000000000"
proof (cases "pow2 (- 1022) \<le> \<bar>x\<bar>")
  case True
  have "\<bar>x\<bar> * pow2 (- 53) \<le> \<bar>x\<bar> * (1 / 1000000000000000)" by (intro mult_left_mono) (simp_all add: pow2_def)
  then show ?thesis using fl_err_rel[OF True] by simp
next
  case False
  show ?thesis
  proof (cases "x = 0")
    case x: False
    have "pow2 (flog2 \<bar>x\<bar>) \<le> \<bar>x\<bar>" using flog2_bounds[of "\<bar>x\<bar>"] x by simp
    then have "pow2 (flog2 \<bar>x\<bar>) < pow2 (- 1022)" using False by linarith
    then have "flog2 \<bar>x\<bar> < - 1022" by (simp only: pow2_less_iff)
    then have "ulp_exp x = - 1074" by (simp add: ulp_exp_def)
    then have "\<bar>fl x - x\<bar> \<le> pow2 (- 1074) / 2" using fl_err_ulp[of x] by simp
    moreover have "pow2 (- 1074) \<le> pow2 (- 60)" by (intro pow2_mono) simp
    moreover have "pow2 (- 60) / 2 \<le> 1 / 1000000000000000000" by (simp add: pow2_def)
    moreover have "0 \<le> \<bar>x\<bar> / 1000000000000000" by simp
    ultimately show ?thesis by linarith
  qed simp
qed

lemma fround_err: "\<bar>fround n x - x\<bar> \<le> 1 / (2 * 10 ^ n) + (\<bar>x\<bar> + 1) / 1000000000000000 + 1 / 1000000000000000000"
proof -
  define r :: rat where "r = of_int (round_even (x * 10 ^ n)) / 10 ^ n"
  define h :: rat where "h = 1 / (2 * 10 ^ n)"
  have near: "\<bar>r - x\<bar> \<le> h" unfolding r_def h_def by (rule decimal_near)
  have "h \<le> 1" unfolding h_def by (rule half_unit)
  then have "\<bar>r\<bar> \<le> \<bar>x\<bar> + 1" using near by linarith
  then have "\<bar>r\<bar> / 1000000000000000 \<le> (\<bar>x\<bar> + 1) / 1000000000000000" by (intro divide_right_mono) simp_all
  moreover have "\<bar>fl r - x\<bar> \<le> \<bar>fl r - r\<bar> + \<bar>r - x\<bar>" using abs_triangle_ineq[of "fl r - r" "r - x"] by simp
  ultimately have "\<bar>fl r - x\<bar> \<le> h + (\<bar>x\<bar> + 1) / 1000000000000000 + 1 / 1000000000000000000" using fl_err_abs[of r] near by linarith
  then show ?thesis unfolding fround_def r_def h_def .
qed

text \<open>For percentages the error of rounding to two places is little more than half a cent.\<close>

lemma fround2_near:
  assumes "\<bar>x\<bar> \<le> 10000"
  shows "fround 2 x \<le> x + 51 / 10000" "x \<le> fround 2 x + 51 / 10000"
proof -
  have "(\<bar>x\<bar> + 1) / 1000000000000000 \<le> 10001 / 1000000000000000" using assms by (intro divide_right_mono) simp_all
  moreover have "(1 :: rat) / (2 * 10 ^ 2) = 1 / 200" by simp
  ultimately have "\<bar>fround 2 x - x\<bar> \<le> 51 / 10000" using fround_err[of 2 x] by linarith
  then show "fround 2 x \<le> x + 51 / 10000" "x \<le> fround 2 x + 51 / 10000" by linarith+
qed

lemma round_even_near: "\<bar>q - of_int k\<bar> < 1 / 2 \<Longrightarrow> round_even q = k"
proof -
  assume a: "\<bar>q - of_int k\<bar> < 1 / 2"
  have "\<bar>of_int (round_even q) - q\<bar> \<le> 1 / 2" by (rule round_even_err)
  then have "\<bar>of_int (round_even q) - of_int k :: rat\<bar> < 1" using a by linarith
  then have "\<bar>of_int (round_even q - k) :: rat\<bar> < 1" by simp
  then show ?thesis by linarith
qed

lemma fround_idem:
  assumes "\<bar>x\<bar> \<le> 1000000000" "n \<le> 4"
  shows "fround n (fround n x) = fround n x"
proof -
  let ?k = "round_even (x * 10 ^ n)"
  let ?r = "of_int ?k / 10 ^ n :: rat"
  have t: "(10 :: rat) ^ n \<le> 10 ^ 4" "(1 :: rat) \<le> 10 ^ n" using assms(2) by (intro power_increasing) auto
  have "\<bar>?r - x\<bar> \<le> 1 / (2 * 10 ^ n)" by (rule decimal_near)
  then have r: "\<bar>?r\<bar> \<le> 1000000000 + 1" using assms(1) half_unit[of n] by linarith
  have "\<bar>fl ?r * 10 ^ n - of_int ?k\<bar> = \<bar>fl ?r - ?r\<bar> * 10 ^ n" by (simp add: field_simps abs_mult flip: abs_mult)
  also have "\<dots> \<le> \<bar>fl ?r - ?r\<bar> * 10 ^ 4" using t(1) by (intro mult_left_mono) auto
  also have "\<dots> \<le> ((1000000000 + 1) / 1000000000000000 + 1 / 1000000000000000000) * 10 ^ 4"
  proof (intro mult_right_mono)
    have "\<bar>?r\<bar> / 1000000000000000 \<le> (1000000000 + 1) / 1000000000000000" using r by (intro divide_right_mono) auto
    then show "\<bar>fl ?r - ?r\<bar> \<le> (1000000000 + 1) / 1000000000000000 + 1 / 1000000000000000000" using fl_err_abs[of ?r] by linarith
  qed simp
  also have "\<dots> < 1 / 2" by simp
  finally have "round_even (fl ?r * 10 ^ n) = ?k" by (rule round_even_near)
  then show ?thesis by (simp add: fround_def)
qed

section \<open>The price of an entry\<close>

text \<open>A probability at the rounded break-even rate loses at most a ten-thousandth of the stake.\<close>

lemma stake:
  fixes a s p l :: rat
  assumes "(a - 7 / 100000) * s \<le> p * s" "l - 1 / 100000 \<le> a * s" "s \<le> 1"
  shows "- (1 / 10000) \<le> p * s - l"
proof -
  have "a * s - 7 / 100000 * s \<le> p * s" using assms(1) by (simp only: left_diff_distrib)
  moreover obtain X Y where "X = a * s" "Y = p * s" by blast
  ultimately show ?thesis using assms(2,3) by linarith
qed

lemma break_even:
  assumes "0 < w" "0 < l" "w + l \<le> 1" "1 / 1000 \<le> w + l" "fround 4 (fdiv l (fadd w l)) \<le> p"
  shows "- (1 / 10000) \<le> p * w - (1 - p) * l"
proof -
  let ?s = "fadd w l"
  have es: "\<bar>?s - (w + l)\<bar> \<le> 2 / 1000000000000000"
  proof -
    have "\<bar>w + l\<bar> / 1000000000000000 \<le> 1 / 1000000000000000" using assms(1-3) by (intro divide_right_mono) auto
    then show ?thesis using fl_err_abs[of "w + l"] unfolding fadd_def by linarith
  qed
  then have s: "0 < ?s" "?s \<le> w + l + 2 / 1000000000000000" using assms(4) by linarith+
  have q: "l / (w + l + 2 / 1000000000000000) \<le> l / ?s" using s assms(2) by (intro divide_left_mono mult_pos_pos) auto
  have "1 / 2000 \<le> ?s" using es assms(4) by linarith
  then have "l / ?s \<le> l / (1 / 2000)" using assms(2) s(1) by (intro divide_left_mono) auto
  then have b: "0 \<le> l / ?s" "l / ?s \<le> 2000" using assms(1-3) s(1) by auto
  have e1: "\<bar>fdiv l ?s - l / ?s\<bar> \<le> 2001 / 1000000000000000"
  proof -
    have "\<bar>l / ?s\<bar> / 1000000000000000 \<le> 2000 / 1000000000000000" using b by (intro divide_right_mono) auto
    then show ?thesis using fl_err_abs[of "l / ?s"] unfolding fdiv_def by linarith
  qed
  have e2: "fdiv l ?s - 6 / 100000 \<le> fround 4 (fdiv l ?s)"
    proof -
    have "\<bar>fdiv l ?s\<bar> \<le> 2002" using e1 b by linarith
    then have "(\<bar>fdiv l ?s\<bar> + 1) / 1000000000000000 \<le> 2003 / 1000000000000000" by (intro divide_right_mono) auto
    moreover have "(1 :: rat) / (2 * 10 ^ 4) = 1 / 20000" by simp
    ultimately show ?thesis using fround_err[of 4 "fdiv l ?s"] by linarith
  qed
  have "l / (w + l + 2 / 1000000000000000) - 7 / 100000 \<le> p" using q e1 e2 assms(5) by linarith
  then have "(l / (w + l + 2 / 1000000000000000) - 7 / 100000) * (w + l) \<le> p * (w + l)" using assms(1,2) by (intro mult_right_mono) auto
  moreover have "l - 1 / 100000 \<le> l / (w + l + 2 / 1000000000000000) * (w + l)"
  proof -
    define e where "e = l * (2 / 1000000000000000) / (w + l + 2 / 1000000000000000)"
    have "e \<le> 1 * (2 / 1000000000000000) / (1 / 1000)"
      unfolding e_def using assms by (intro frac_le mult_right_mono) auto
    then have "e \<le> 1 / 100000" by simp
    moreover have "l / (w + l + 2 / 1000000000000000) * (w + l) = l - e"
      unfolding e_def using assms(1,2) by (simp add: field_simps)
    ultimately show ?thesis by linarith
  qed
  ultimately have "- (1 / 10000) \<le> p * (w + l) - l"
    using stake[of "l / (w + l + 2 / 1000000000000000)" "w + l" p l] assms(3) by simp
  then show ?thesis by (simp add: algebra_simps)
qed

lemma book_keys:
  "lower (strip ''scalp'') = ''scalp''" "lower (strip ''day'') = ''day''" "lower (strip ''short'') = ''short''" "lower (strip ''medium'') = ''medium''"
  by code_simp+

lemma active_horizons: "set ACTIVE_STRATEGY_HORIZONS = {''scalp'', ''day'', ''short'', ''medium''}"
  by (simp add: ACTIVE_STRATEGY_HORIZONS_def)

text \<open>The target and the stop of each book, and what is left of them after costs.\<close>

lemma book_payoffs:
  assumes "h \<in> set ACTIVE_STRATEGY_HORIZONS"
  obtains b u where "playbook_for (Some h) = Some b" "policy_for h = Inr (HORIZON_POLICIES u)"
    "(pb_target_pct b, hp_stop_pct_fallback (HORIZON_POLICIES u))
      \<in> {(fl (1 / 125), fl (1 / 100)), (fl (3 / 200), fl (3 / 200)), (fl (3 / 100), fl (3 / 100)), (fl (3 / 50), fl (1 / 20))}"
proof -
  from assms consider "h = ''scalp''" | "h = ''day''" | "h = ''short''" | "h = ''medium''" by (auto simp: active_horizons)
  then show thesis
  proof cases
    case 1
    have "playbook_for (Some h) = Some (snd (PLAYBOOKS ! 0))" "policy_for h = Inr (HORIZON_POLICIES SCALP)"
      unfolding 1 by (simp_all add: playbook_for_def PLAYBOOKS_def or_str_def book_keys policy_for_def enum_of_def HORIZONS_def)
    then show thesis by (rule that) (simp add: PLAYBOOKS_def)
  next
    case 2
    have "playbook_for (Some h) = Some (snd (PLAYBOOKS ! 1))" "policy_for h = Inr (HORIZON_POLICIES DAY)"
      unfolding 2 by (simp_all add: playbook_for_def PLAYBOOKS_def or_str_def book_keys policy_for_def enum_of_def HORIZONS_def)
    then show thesis by (rule that) (simp add: PLAYBOOKS_def)
  next
    case 3
    have "playbook_for (Some h) = Some (snd (PLAYBOOKS ! 2))" "policy_for h = Inr (HORIZON_POLICIES SHORT)"
      unfolding 3 by (simp_all add: playbook_for_def PLAYBOOKS_def or_str_def book_keys policy_for_def enum_of_def HORIZONS_def)
    then show thesis by (rule that) (simp add: PLAYBOOKS_def)
  next
    case 4
    have "playbook_for (Some h) = Some (snd (PLAYBOOKS ! 3))" "policy_for h = Inr (HORIZON_POLICIES MEDIUM)"
      unfolding 4 by (simp_all add: playbook_for_def PLAYBOOKS_def or_str_def book_keys policy_for_def enum_of_def HORIZONS_def)
    then show thesis by (rule that) (simp add: PLAYBOOKS_def)
  qed
qed

lemma near_rounding: "\<bar>x\<bar> \<le> 1 \<Longrightarrow> \<bar>fl x - x\<bar> \<le> 1 / 100000"
  using fl_err_abs[of x] by linarith

text \<open>Costs of eight basis points leave every book a win and a loss between 0.7 and 6.2 percent.\<close>

lemma payoff_bounds:
  assumes "t \<in> {1 / 125, 3 / 200, 3 / 100, 3 / 50, 1 / 100, 1 / 20 :: rat}"
  shows "7 / 1000 \<le> fsub (fl t) (fdiv (max 0 DEFAULT_ROUND_TRIP_COST_BPS) 10000)" "fsub (fl t) (fdiv (max 0 DEFAULT_ROUND_TRIP_COST_BPS) 10000) \<le> 62 / 1000"
    "7 / 1000 \<le> fadd (fl t) (fdiv (max 0 DEFAULT_ROUND_TRIP_COST_BPS) 10000)" "fadd (fl t) (fdiv (max 0 DEFAULT_ROUND_TRIP_COST_BPS) 10000) \<le> 62 / 1000"
proof -
  let ?c = "fl (8 / 10000)"
  have c: "fdiv (max 0 DEFAULT_ROUND_TRIP_COST_BPS) 10000 = ?c" by (simp add: DEFAULT_ROUND_TRIP_COST_BPS_def fdiv_def)
  have t: "1 / 125 \<le> t" "t \<le> 3 / 50" using assms by auto
  then have ft: "\<bar>fl t - t\<bar> \<le> 1 / 100000" by (intro near_rounding) auto
  have fc: "\<bar>?c - 8 / 10000\<bar> \<le> 1 / 100000" by (rule near_rounding) simp
  have d: "\<bar>fl (fl t - ?c) - (fl t - ?c)\<bar> \<le> 1 / 100000" "\<bar>fl (fl t + ?c) - (fl t + ?c)\<bar> \<le> 1 / 100000"
    using t ft fc by (intro near_rounding; linarith)+
  show "7 / 1000 \<le> fsub (fl t) (fdiv (max 0 DEFAULT_ROUND_TRIP_COST_BPS) 10000)" "fsub (fl t) (fdiv (max 0 DEFAULT_ROUND_TRIP_COST_BPS) 10000) \<le> 62 / 1000"
    "7 / 1000 \<le> fadd (fl t) (fdiv (max 0 DEFAULT_ROUND_TRIP_COST_BPS) 10000)" "fadd (fl t) (fdiv (max 0 DEFAULT_ROUND_TRIP_COST_BPS) 10000) \<le> 62 / 1000"
    unfolding c fsub_def fadd_def using t ft fc d by linarith+
qed

text \<open>
  Every entry a book proposes pays for itself: at the probability it was proposed with, the expected win after costs
  covers the expected loss after costs up to one basis point of the entry price, in each of the four books.
\<close>

theorem entry_has_edge:
  assumes "should_propose_entry h p trend momentum liquidity volatility rsi regime volume avg_volume t minutes_to_close acc"
    "h \<in> set ACTIVE_STRATEGY_HORIZONS"
  shows "\<exists>b. playbook_for (Some h) = Some b \<and> 0 < book_win b DEFAULT_ROUND_TRIP_COST_BPS \<and> 0 < book_loss h b DEFAULT_ROUND_TRIP_COST_BPS
    \<and> - (1 / 10000) \<le> p * book_win b DEFAULT_ROUND_TRIP_COST_BPS - (1 - p) * book_loss h b DEFAULT_ROUND_TRIP_COST_BPS"
proof -
  let ?c = DEFAULT_ROUND_TRIP_COST_BPS
  from book_payoffs[OF assms(2)] obtain b u where b: "playbook_for (Some h) = Some b" "policy_for h = Inr (HORIZON_POLICIES u)"
    "(pb_target_pct b, hp_stop_pct_fallback (HORIZON_POLICIES u))
      \<in> {(fl (1 / 125), fl (1 / 100)), (fl (3 / 200), fl (3 / 200)), (fl (3 / 100), fl (3 / 100)), (fl (3 / 50), fl (1 / 20))}" .
  have pol: "policy_or_none h = Some (HORIZON_POLICIES u)" using b(2) by (simp add: policy_or_none_def)
  have w: "7 / 1000 \<le> book_win b ?c" "book_win b ?c \<le> 62 / 1000" using b(3) payoff_bounds unfolding book_win_def by auto
  have l: "7 / 1000 \<le> book_loss h b ?c" "book_loss h b ?c \<le> 62 / 1000" using b(3) payoff_bounds pol unfolding book_loss_def by auto
  have "entry_probability_floor h \<le> p" using assms(1) b(1) by (simp add: should_propose_entry_def)
  then have "fround 4 (fdiv (book_loss h b ?c) (fadd (book_win b ?c) (book_loss h b ?c))) \<le> p"
    using b(1) w(1) l(1) by (simp add: entry_probability_floor_def required_probability_def Let_def)
  then have "- (1 / 10000) \<le> p * book_win b ?c - (1 - p) * book_loss h b ?c" using w l by (intro break_even) auto
  then show ?thesis using b(1) w l by force
qed

lemma short_book:
  "playbook_for (Some ''short'') = Some (snd (PLAYBOOKS ! 2))" "policy_for ''short'' = Inr (HORIZON_POLICIES SHORT)"
  by (simp_all add: playbook_for_def PLAYBOOKS_def or_str_def book_keys policy_for_def enum_of_def HORIZONS_def)

lemma short_floor: "entry_probability_floor ''short'' \<le> 3 / 5"
proof -
  let ?t = "fl (3 / 100)" and ?c = "fdiv 8 10000"
  have n: "(let w = fsub ?t ?c; l = fadd ?t ?c in \<not> (w \<le> 0 \<or> l \<le> 0) \<and> fround 4 (fdiv l (fadd w l)) \<le> 3 / 5) \<and> fl (12 / 25) \<le> 3 / 5"
    by code_simp
  then show ?thesis
    by (simp add: entry_probability_floor_def required_probability_def short_book policy_or_none_def book_win_def book_loss_def
        DEFAULT_ROUND_TRIP_COST_BPS_def PLAYBOOKS_def Let_def max_def)
qed

definition sample_view :: SymbolQuantView where
  "sample_view =
     \<lparr>qv_symbol = ''bhp'', qv_trend_state = TR_UP, qv_momentum_state = MO_STEADY, qv_volatility_state = VO_NORMAL,
      qv_liquidity_state = LQ_NORMAL, qv_support = None, qv_resistance = None, qv_entry_zone = Some \<lparr>pz_min = 40, pz_max = 41\<rparr>,
      qv_stop_or_invalidation = Some 38, qv_probability_estimate = 3 / 5, qv_notes = [], qv_entry_timing = None\<rparr>"

lemma sample_timing: "classify_timing TR_UP MO_STEADY None (tape_from_view sample_view) False = ''continuation''"
  by (simp add: classify_timing_def tape_from_view_def sample_view_def range_loc_def opt_le_def opt_ge_def at_average_def is_down_def)

lemma sample_proposed:
  "should_propose_entry ''short'' (3 / 5) TR_UP MO_STEADY LQ_NORMAL VO_NORMAL None (Some MR_RISK_ON) None None (tape_from_view sample_view) None False"
  using short_floor
  by (simp add: should_propose_entry_def structure_allows_entry_def short_book sample_timing PLAYBOOKS_def)

theorem entry_has_edge_witness:
  "\<exists>b. playbook_for (Some ''short'') = Some b
    \<and> - (1 / 10000) \<le> 3 / 5 * book_win b DEFAULT_ROUND_TRIP_COST_BPS - (1 - 3 / 5) * book_loss ''short'' b DEFAULT_ROUND_TRIP_COST_BPS"
  using entry_has_edge[OF sample_proposed] active_horizons by blast

section \<open>What the filter keeps\<close>

lemma drop_is_filter:
  "cd_symbol_actions (drop_blocked_entries quant watchlist regime mtc ledger d)
   = filter (\<lambda>p. entry_dropped (views_of quant) watchlist regime mtc ledger p = None) (cd_symbol_actions d)"
  by (simp add: drop_blocked_entries_def Let_def)

lemma entry_dropped_None:
  "entry_dropped views watchlist regime mtc ledger p = None \<longleftrightarrow>
     (pl_action p \<in> set BOOK_ENTRY_ACTIONS \<longrightarrow>
       entry_block_reason (case dget ledger (upper (pl_symbol p)) of Some ps \<Rightarrow> ps | None \<Rightarrow> []) = None
       \<and> (case dget views (upper (pl_symbol p)) of
            None \<Rightarrow> horizon_for_symbol (upper (pl_symbol p)) watchlist \<notin> {''scalp'', ''day''} \<and> pl_stop_loss p \<noteq> None
          | Some v \<Rightarrow>
              should_propose_entry (horizon_for_symbol (upper (pl_symbol p)) watchlist) (qv_probability_estimate v) (qv_trend_state v)
                (qv_momentum_state v) (qv_liquidity_state v) (qv_volatility_state v) None regime None None (tape_from_view v) mtc
                (view_has_accumulation v)
              \<and> (pl_stop_loss p \<noteq> None \<or> qv_stop_or_invalidation v \<noteq> None)))"
  unfolding entry_dropped_def Let_def
  by (cases "dget views (upper (pl_symbol p))") auto

end
