(* ===== verification/Decision_Pipeline.thy ===== *)
theory Decision_Pipeline
  imports Book_Strategy
begin

text \<open>
  What happens to a decision between the chief investment officer and the execution validator: \<open>agents/pipeline.py\<close> from the
  decision on, with the helpers of \<open>agents/cio.py\<close>, \<open>universe/horizons.py\<close> and \<open>universe/entry_attribution.py\<close> it calls, and
  the rule-based decision of \<open>agents/cio.py\<close> that stands in for the language model.  A loop of the source that rewrites plans and
  returns the decision itself when no plan changed is a map over the plans: an unchanged list gives the same decision.
\<close>

section \<open>Horizons and stops\<close>

definition watch_rows :: "(string \<times> string) list \<Rightarrow> (string option \<times> string option) list" where
  "watch_rows watchlist = map (\<lambda>(s, h). (Some s, Some h)) watchlist"

definition align_plan_horizon :: "(string \<times> HorizonPolicy) list \<Rightarrow> SymbolActionPlan \<Rightarrow> SymbolActionPlan" where
  "align_plan_horizon by_sym plan =
     (case dget by_sym (upper (pl_symbol plan)) of
        None \<Rightarrow> plan
      | Some pol \<Rightarrow>
          plan\<lparr>pl_time_horizon := hp_cio_time_horizon pol,
               pl_max_holding_time_minutes :=
                 (case (hp_max_holding_minutes pol, pl_max_holding_time_minutes plan) of
                    (Some m, None) \<Rightarrow> if m \<noteq> 0 then Some m else None
                  | (_, held) \<Rightarrow> held)\<rparr>)"

definition align_cio_horizons :: "(string \<times> string) list \<Rightarrow> CIODecision \<Rightarrow> CIODecision" where
  "align_cio_horizons watchlist d =
     d\<lparr>cd_symbol_actions := map (align_plan_horizon (policy_by_symbol (watch_rows watchlist))) (cd_symbol_actions d)\<rparr>"

definition by_upper :: "(rat \<Rightarrow> bool) \<Rightarrow> (string \<times> rat) list \<Rightarrow> (string \<times> rat) list" where
  "by_upper ok kvs = foldl (\<lambda>d (k, v). dset d (upper k) v) [] (filter (\<lambda>(k, v). ok v) kvs)"

definition enrich_plan ::
  "(string \<times> rat) list \<Rightarrow> (string \<times> rat) list \<Rightarrow> (string \<times> SymbolQuantView) list \<Rightarrow> (string \<times> HorizonPolicy) list
   \<Rightarrow> SymbolActionPlan \<Rightarrow> SymbolActionPlan" where
  "enrich_plan prices atrs by_sym by_pol plan =
     (if pl_action plan \<notin> set BOOK_ENTRY_ACTIONS then plan
      else
        (let sy = upper (pl_symbol plan); view = dget by_sym sy; pol = dget by_pol sy;
             zone = (case pl_entry_zone plan of Some z \<Rightarrow> Some z | None \<Rightarrow> Option.bind view qv_entry_zone);
             ref = (case zone of Some z \<Rightarrow> Some (pz_min z) | None \<Rightarrow> dget prices sy);
             stop0 = (case pl_stop_loss plan of
                        Some s \<Rightarrow> Some s
                      | None \<Rightarrow> (case Option.bind view qv_stop_or_invalidation of Some s \<Rightarrow> if s \<noteq> 0 then Some s else None | None \<Rightarrow> None));
             stop1 = (case (stop0, ref) of (None, Some r) \<Rightarrow> suggested_long_stop r (dget atrs sy) pol | _ \<Rightarrow> stop0);
             stop = (case (stop1, ref, pol) of
                       (Some s, Some r, Some p) \<Rightarrow> Some (widen_long_stop_if_too_tight s r p)
                     | _ \<Rightarrow> stop1)
         in plan\<lparr>pl_entry_zone := zone, pl_stop_loss := stop,
                 pl_invalidation :=
                   (case (pl_stop_loss plan, stop) of
                      (None, Some s) \<Rightarrow>
                        if strip (pl_invalidation plan) \<in> {'''', ''n/a''}
                        then ''Stop '' @ str_float s @ '' ('' @ (case pol of Some p \<Rightarrow> uh_value (hp_horizon p) | None \<Rightarrow> ''default'') @ '' book)''
                        else pl_invalidation plan
                    | _ \<Rightarrow> pl_invalidation plan)\<rparr>))"

definition enrich_cio_entry_stops ::
  "SymbolQuantView list \<Rightarrow> (string \<times> rat) list \<Rightarrow> (string \<times> string) list \<Rightarrow> (string \<times> rat) list \<Rightarrow> CIODecision \<Rightarrow> CIODecision" where
  "enrich_cio_entry_stops quant latest_prices watchlist atr_by_symbol d =
     d\<lparr>cd_symbol_actions :=
         map (enrich_plan (by_upper (\<lambda>v. v \<noteq> 0) latest_prices) (by_upper (\<lambda>v. 0 < v) atr_by_symbol) (views_of quant)
                (policy_by_symbol (watch_rows watchlist)))
           (cd_symbol_actions d)\<rparr>"

section \<open>Attribution of entries\<close>

definition SOURCE_CIO :: string where "SOURCE_CIO = ''cio''"

definition SOURCE_INJECTED :: string where "SOURCE_INJECTED = ''aggressive_injected''"

definition nonempty :: "string \<Rightarrow> string option" where
  "nonempty s = (if s = [] then None else Some s)"

definition timing_from_notes :: "string list \<Rightarrow> string option" where
  "timing_from_notes notes =
     (case find (\<lambda>t. startswith t ''timing='') notes of
        Some t \<Rightarrow> nonempty (lower (strip (drop 7 t)))
      | None \<Rightarrow> None)"

definition timing_from_view :: "SymbolQuantView \<Rightarrow> string option" where
  "timing_from_view view =
     (case timing_from_notes (qv_notes view) of
        Some l \<Rightarrow> Some l
      | None \<Rightarrow>
          if truthy_str (qv_entry_timing view) then nonempty (lower (strip (or_str (qv_entry_timing view) [])))
          else Some (classify_timing (qv_trend_state view) (qv_momentum_state view) None (tape_from_view view) False))"

definition stamp_plan :: "SymbolQuantView option \<Rightarrow> string \<Rightarrow> SymbolActionPlan \<Rightarrow> SymbolActionPlan" where
  "stamp_plan view source plan =
     plan\<lparr>pl_entry_source := (if truthy_str (pl_entry_source plan) then pl_entry_source plan
                              else Some (if source \<noteq> [] then source else SOURCE_CIO)),
          pl_entry_timing := (case view of
                                Some v \<Rightarrow> if \<not> truthy_str (pl_entry_timing plan) \<and> timing_from_view v \<noteq> None then timing_from_view v
                                          else pl_entry_timing plan
                              | None \<Rightarrow> pl_entry_timing plan),
          pl_trend_at_entry := (case view of
                                  Some v \<Rightarrow> if \<not> truthy_str (pl_trend_at_entry plan) then Some (tr_value (qv_trend_state v))
                                            else pl_trend_at_entry plan
                                | None \<Rightarrow> pl_trend_at_entry plan)\<rparr>"

definition stamp_entry :: "(string \<times> SymbolQuantView) list \<Rightarrow> SymbolActionPlan \<Rightarrow> SymbolActionPlan" where
  "stamp_entry by_sym plan =
     (if pl_action plan \<notin> set BOOK_ENTRY_ACTIONS then plan
      else stamp_plan (dget by_sym (upper (pl_symbol plan))) (or_str (pl_entry_source plan) SOURCE_CIO) plan)"

definition stamp_cio_entry_attribution :: "SymbolQuantView list \<Rightarrow> CIODecision \<Rightarrow> CIODecision" where
  "stamp_cio_entry_attribution quant d = d\<lparr>cd_symbol_actions := map (stamp_entry (views_of quant)) (cd_symbol_actions d)\<rparr>"

section \<open>Entries from the quant views\<close>

definition cash_target_after_plans :: "rat \<Rightarrow> rat \<Rightarrow> SymbolActionPlan list \<Rightarrow> rat" where
  "cash_target_after_plans current_cash_pct min_cash_pct plans =
     (let deployed = foldl (\<lambda>a p. if pl_action p \<in> set BOOK_ENTRY_ACTIONS then fadd a (pl_target_position_pct p) else a) 0 plans
      in fround 2 (max min_cash_pct (min 100 (fsub current_cash_pct deployed))))"

definition book_summary :: "string \<Rightarrow> string" where
  "book_summary h =
     (if h = ''scalp'' then ''Same-day liquid single names, not the index sleeve. '' @
        ''Buy dips in strength; skip a box, a chase, and a blow-off. '' @ ''Tight stop. Flatten the same day.''
      else if h = ''day'' then ''Same session, not the index sleeve. Buy a pullback in an up day. '' @
        ''Skip a sideways box. Flatten before the close. '' @ ''A hold of several days belongs on the short book.''
      else if h = ''short'' then ''Single names that can pay within days to about two weeks. '' @
        ''Not the index sleeve. Buy a dip in an uptrend. '' @ ''Do not buy an oversold bounce in a downtrend. Hold overnight.''
      else ''Stable long-uptrend indexes (S&P 500, Nasdaq 100, ASX twins). '' @
        ''Hold for weeks. Buy a rise that is not extended. '' @ ''Sell a trend break, not a quiet day.'')"

text \<open>The first eighty characters; a character of the label takes three bytes.\<close>

definition setup_thesis :: "BookPlaybook \<Rightarrow> string" where
  "setup_thesis book = pb_label_ko book @ '': '' @ take (78 - length (pb_label_ko book) div 3) (book_summary (pb_horizon book))"

record setup_input =
  sx_watchlist :: "(string \<times> string) list"
  sx_regime :: MarketRegime
  sx_max_position_pct :: rat
  sx_allowlist :: "string list"
  sx_minutes_to_close :: "rat option"

record setup_vars =
  su_held :: "string list"
  su_hz_map :: "(string \<times> string) list"
  su_new_by_book :: "(string \<times> int) list"
  su_used :: "(string \<times> rat) list"
  su_cash_left :: "rat option"
  su_plans :: "SymbolActionPlan list"

definition dget0 :: "(string \<times> 'a :: zero) list \<Rightarrow> string \<Rightarrow> 'a" where
  "dget0 d k = (case dget d k of Some v \<Rightarrow> v | None \<Rightarrow> 0)"

definition book_proposes :: "setup_input \<Rightarrow> string \<Rightarrow> SymbolQuantView \<Rightarrow> bool" where
  "book_proposes x hz view \<longleftrightarrow>
     should_propose_entry hz (qv_probability_estimate view) (qv_trend_state view) (qv_momentum_state view) (qv_liquidity_state view)
       (qv_volatility_state view) None (Some (sx_regime x)) None None (tape_from_view view) (sx_minutes_to_close x) (view_has_accumulation view)"

definition setup_size :: "setup_input \<Rightarrow> string \<Rightarrow> BookPlaybook \<Rightarrow> setup_vars \<Rightarrow> rat" where
  "setup_size x hz book st =
     (let sz = entry_notional_pct (Some hz) (dget0 (su_used st) hz) (sx_max_position_pct x) (Some (pb_target_size_pct book))
      in case su_cash_left st of Some c \<Rightarrow> fround 2 (min sz c) | None \<Rightarrow> sz)"

definition setup_plan :: "string \<Rightarrow> BookPlaybook \<Rightarrow> PriceZone \<Rightarrow> rat \<Rightarrow> rat \<Rightarrow> SymbolQuantView \<Rightarrow> SymbolActionPlan py" where
  "setup_plan sy book zone stop sz view =
     check_plan
       \<lparr>pl_symbol = sy, pl_action = SA_SCALE_IN, pl_confidence = trunc_int (fmul (qv_probability_estimate view) 100),
        pl_target_position_pct = sz, pl_order_type = OT_LIMIT, pl_entry_zone = Some zone, pl_stop_loss = Some stop, pl_take_profit = [],
        pl_time_horizon = pb_cio_time_horizon book, pl_thesis = setup_thesis book, pl_invalidation = ''Break below stop_or_invalidation'',
        pl_max_holding_time_minutes = None, pl_entry_timing = None, pl_entry_source = None, pl_trend_at_entry = None\<rparr>"

definition take_setup :: "string \<Rightarrow> string \<Rightarrow> rat \<Rightarrow> SymbolActionPlan \<Rightarrow> setup_vars \<Rightarrow> setup_vars" where
  "take_setup sy hz sz plan st =
     st\<lparr>su_used := dset (su_used st) hz (fadd (dget0 (su_used st) hz) sz),
        su_cash_left := map_option (\<lambda>c. fround 2 (fsub c sz)) (su_cash_left st),
        su_plans := su_plans st @ [plan],
        su_new_by_book := dset (su_new_by_book st) hz (dget0 (su_new_by_book st) hz + 1),
        su_held := su_held st @ [sy],
        su_hz_map := dset (su_hz_map st) sy hz\<rparr>"

definition consider_view :: "setup_input \<Rightarrow> SymbolQuantView \<Rightarrow> setup_vars \<Rightarrow> setup_vars py" where
  "consider_view x view st =
     (let sy = upper (qv_symbol view); allow = map upper (filter (\<lambda>s. s \<noteq> []) (sx_allowlist x)); hz = horizon_for_symbol sy (sx_watchlist x)
      in if sy = [] \<or> sy \<in> set (su_held st) then Inr st
         else if allow \<noteq> [] \<and> sy \<notin> set allow then Inr st
         else case (playbook_for (Some hz), qv_entry_zone view, qv_stop_or_invalidation view) of
                (Some book, Some zone, Some stop) \<Rightarrow>
                  if qv_trend_state view = TR_SIDEWAYS \<and> \<not> view_has_accumulation view then Inr st
                  else if \<not> book_proposes x hz view then Inr st
                  else if pb_max_new_per_cycle book \<le> dget0 (su_new_by_book st) hz then Inr st
                  else if horizon_cap_violation sy (dset (su_hz_map st) sy hz) (su_held st) True \<noteq> None then Inr st
                  else if setup_size x hz book st < 1 then Inr st
                  else py_bind (setup_plan sy book zone stop (setup_size x hz book st) view)
                         (\<lambda>plan. Inr (take_setup sy hz (setup_size x hz book st) (stamp_plan (Some view) SOURCE_INJECTED plan) st))
              | _ \<Rightarrow> Inr st)"

fun setup_loop :: "setup_input \<Rightarrow> SymbolQuantView list \<Rightarrow> setup_vars \<Rightarrow> setup_vars py" where
  "setup_loop x [] st = Inr st"
| "setup_loop x (view # views) st = py_bind (consider_view x view st) (setup_loop x views)"

definition start_setups :: "setup_input \<Rightarrow> string list \<Rightarrow> (string \<times> int) list \<Rightarrow> (string \<times> rat) list \<Rightarrow> rat option \<Rightarrow> setup_vars" where
  "start_setups x held_symbols new_counts sleeve_used cash_room =
     \<lparr>su_held = map upper held_symbols,
      su_hz_map = foldl (\<lambda>d s. dset d s (horizon_for_symbol s (sx_watchlist x))) [] (map upper held_symbols),
      su_new_by_book = new_counts, su_used = sleeve_used, su_cash_left = cash_room, su_plans = []\<rparr>"

definition quant_entry_plans ::
  "setup_input \<Rightarrow> SymbolQuantView list \<Rightarrow> string list \<Rightarrow> (string \<times> int) list \<Rightarrow> (string \<times> rat) list \<Rightarrow> rat option \<Rightarrow> SymbolActionPlan list py" where
  "quant_entry_plans x views held_symbols new_counts sleeve_used cash_room =
     py_bind (setup_loop x (sort_key (\<lambda>v. - qv_probability_estimate v) views) (start_setups x held_symbols new_counts sleeve_used cash_room))
       (\<lambda>st. Inr (su_plans st))"

definition is_held :: "position_snapshot \<Rightarrow> bool" where
  "is_held p \<longleftrightarrow> fl (1 / 10 ^ 9) < \<bar>pn_quantity p\<bar>"

definition sleeve_use :: "setup_input \<Rightarrow> position_snapshot list \<Rightarrow> SymbolActionPlan list \<Rightarrow> (string \<times> rat) list" where
  "sleeve_use x positions entering =
     (let add = (\<lambda>used (s, w). let hz = horizon_for_symbol s (sx_watchlist x) in dset used hz (fadd (dget0 used hz) w))
      in foldl add []
           (map (\<lambda>p. (pn_symbol p, if \<bar>pn_weight_pct p\<bar> \<le> 0 then sx_max_position_pct x else \<bar>pn_weight_pct p\<bar>)) (filter is_held positions)
            @ map (\<lambda>p. (pl_symbol p, pl_target_position_pct p)) entering))"

definition new_counts_of :: "setup_input \<Rightarrow> SymbolActionPlan list \<Rightarrow> (string \<times> int) list" where
  "new_counts_of x entering =
     foldl (\<lambda>d p. let hz = horizon_for_symbol (pl_symbol p) (sx_watchlist x) in dset d hz (dget0 d hz + 1)) [] entering"

definition entering_of :: "CIODecision \<Rightarrow> SymbolActionPlan list" where
  "entering_of d = filter (\<lambda>p. pl_action p \<in> set BOOK_ENTRY_ACTIONS) (cd_symbol_actions d)"

definition cash_room_of :: "rat \<Rightarrow> rat \<Rightarrow> CIODecision \<Rightarrow> rat" where
  "cash_room_of cash_pct min_cash_pct d =
     fround 2 (fsub (deployable_cash_pct cash_pct min_cash_pct) (fsum (map pl_target_position_pct (entering_of d))))"

definition ensure_cio_takes_setups ::
  "setup_input \<Rightarrow> SymbolQuantView list \<Rightarrow> position_snapshot list \<Rightarrow> bool \<Rightarrow> bool \<Rightarrow> rat \<Rightarrow> rat \<Rightarrow> CIODecision \<Rightarrow> CIODecision py" where
  "ensure_cio_takes_setups x quant positions risk_ok enabled cash_pct min_cash_pct d =
     (if \<not> enabled \<or> \<not> risk_ok \<or> \<not> cd_risk_approval d then Inr d
      else
        (let entering = entering_of d; cash_left = cash_room_of cash_pct min_cash_pct d
         in if cash_left < 1 then Inr d
            else
              py_bind (quant_entry_plans x quant
                         (map (\<lambda>p. upper (pn_symbol p)) (filter is_held positions) @ remdups (map (\<lambda>p. upper (pl_symbol p)) entering))
                         (new_counts_of x entering) (sleeve_use x positions entering) (Some cash_left))
                (\<lambda>extras. Inr
                  (if extras = [] then d
                   else
                     (let taken = map (\<lambda>p. upper (pl_symbol p)) extras;
                          merged = filter (\<lambda>p. upper (pl_symbol p) \<notin> set taken) (cd_symbol_actions d) @ extras
                      in d\<lparr>cd_symbol_actions := merged, cd_portfolio_action := portfolio_action_from_symbol_actions merged,
                           cd_reason_not_to_trade := None,
                           cd_cash_target_pct := cash_target_after_plans cash_pct min_cash_pct merged\<rparr>)))))"

definition reconcile_nameless_entry :: "bool \<Rightarrow> CIODecision \<Rightarrow> CIODecision" where
  "reconcile_nameless_entry has_positions d =
     (if entering_of d \<noteq> [] then d
      else if cd_portfolio_action d \<notin> {PA_SCALE_IN, PA_BUY, PA_STRONG_BUY} then d
      else d\<lparr>cd_portfolio_action := (if has_positions then PA_HOLD else PA_NO_TRADE),
             cd_reason_not_to_trade := Some (or_str (cd_reason_not_to_trade d) ''no named entry after setups'')\<rparr>)"

section \<open>The rewrites in their order\<close>

record pipeline_input =
  pi_now :: int
  pi_views :: "SymbolQuantView list"
  pi_portfolio :: "position_snapshot list"
  pi_cash_pct :: rat
  pi_min_cash_pct :: rat
  pi_prices :: "(string \<times> rat) list"
  pi_atrs :: "(string \<times> rat) list"
  pi_risk_ok :: bool
  pi_aggressive :: bool
  pi_outcome_pnls :: "(string \<times> rat list) list"
  pi_setup :: setup_input

definition finish_decision :: "pipeline_input \<Rightarrow> CIODecision \<Rightarrow> CIODecision py" where
  "finish_decision i d =
     (let watch = sx_watchlist (pi_setup i); quant = pi_views i; held_pos = filter is_held (pi_portfolio i);
          aligned = align_cio_playbook_exits quant watch (map pn_symbol held_pos) (align_cio_horizons watch d)
      in py_bind (ensure_playbook_exits (pi_now i) quant watch held_pos aligned) (\<lambda>d3.
         py_bind (ensure_cio_takes_setups (pi_setup i) quant (pi_portfolio i) (pi_risk_ok i) (pi_aggressive i) (pi_cash_pct i) (pi_min_cash_pct i)
                    (enrich_cio_entry_stops quant (pi_prices i) watch (pi_atrs i) d3)) (\<lambda>d5.
         Inr (reconcile_nameless_entry (held_pos \<noteq> [])
               (stamp_cio_entry_attribution quant
                 (drop_blocked_entries quant watch (Some (sx_regime (pi_setup i))) (sx_minutes_to_close (pi_setup i)) (pi_outcome_pnls i) d5))))))"

section \<open>Rewrites of single plans\<close>

definition plan_key :: "SymbolActionPlan \<Rightarrow> string" where
  "plan_key p = upper (pl_symbol p)"

definition plan_keys :: "CIODecision \<Rightarrow> string list" where
  "plan_keys d = map plan_key (cd_symbol_actions d)"

definition exits_symbol :: "CIODecision \<Rightarrow> string \<Rightarrow> bool" where
  "exits_symbol d sy \<longleftrightarrow> (\<exists>p \<in> set (cd_symbol_actions d). plan_key p = sy \<and> pl_action p \<in> set EXIT_ACTIONS)"

text \<open>A rewrite of the plans one by one that leaves each its symbol and its action.\<close>

locale plan_rewrite =
  fixes f :: "SymbolActionPlan \<Rightarrow> SymbolActionPlan"
  assumes keeps_symbol: "pl_symbol (f p) = pl_symbol p"
    and keeps_action: "pl_action (f p) = pl_action p"
begin

lemma keeps_keys: "plan_keys (d\<lparr>cd_symbol_actions := map f (cd_symbol_actions d)\<rparr>) = plan_keys d"
  by (simp add: plan_keys_def plan_key_def keeps_symbol comp_def)

lemma keeps_exits: "exits_symbol (d\<lparr>cd_symbol_actions := map f (cd_symbol_actions d)\<rparr>) sy \<longleftrightarrow> exits_symbol d sy"
  by (simp add: exits_symbol_def plan_key_def keeps_symbol keeps_action)

end

interpretation horizon_rewrite: plan_rewrite "align_plan_horizon by_sym" for by_sym
  by unfold_locales (simp_all add: align_plan_horizon_def split: option.split)

interpretation stop_rewrite: plan_rewrite "enrich_plan prices atrs by_sym by_pol" for prices atrs by_sym by_pol
  by unfold_locales (simp_all add: enrich_plan_def Let_def)

interpretation source_rewrite: plan_rewrite "stamp_entry by_sym" for by_sym
  by unfold_locales (simp_all add: stamp_entry_def stamp_plan_def)

lemma align_keys: "plan_keys (align_cio_playbook_exits quant watch held d) = plan_keys d"
  by (auto simp: align_cio_playbook_exits_def plan_keys_def plan_key_def align_exit_def Let_def comp_def split: option.split)

lemma reconcile_actions: "cd_symbol_actions (reconcile_nameless_entry h d) = cd_symbol_actions d"
  by (simp add: reconcile_nameless_entry_def)

lemma drop_exits: "exits_symbol (drop_blocked_entries quant watch regime mtc ledger d) sy \<longleftrightarrow> exits_symbol d sy"
  by (auto simp: exits_symbol_def drop_is_filter entry_dropped_None EXIT_ACTIONS_def BOOK_ENTRY_ACTIONS_def)

lemma drop_keys: "distinct (plan_keys d) \<Longrightarrow> distinct (plan_keys (drop_blocked_entries quant watch regime mtc ledger d))"
  by (simp add: plan_keys_def drop_is_filter distinct_map_filter)

section \<open>Inserted exits\<close>

definition exits_ok :: "exit_vars \<Rightarrow> bool" where
  "exits_ok st \<longleftrightarrow>
     (\<forall>sy p. dget (xv_existing st) sy = Some p \<longrightarrow> p \<in> set (xv_updated st) \<and> plan_key p = sy)
     \<and> (\<forall>p \<in> set (xv_updated st). pl_symbol p \<noteq> [] \<longrightarrow> dget (xv_existing st) (plan_key p) \<noteq> None)"

lemma plans_by_symbol_ok: "exits_ok \<lparr>xv_existing = plans_by_symbol ps, xv_updated = ps, xv_changed = b\<rparr>"
proof (induction ps rule: rev_induct)
  case (snoc q ps)
  have e: "plans_by_symbol (ps @ [q]) = (if pl_symbol q = [] then plans_by_symbol ps else dset (plans_by_symbol ps) (plan_key q) q)"
    by (simp add: plans_by_symbol_def plan_key_def)
  show ?case using snoc by (auto simp: exits_ok_def e plan_key_def)
qed (simp add: exits_ok_def plans_by_symbol_def)

lemma put_exit_ok:
  assumes "exits_ok st" "upper (pl_symbol plan) = pl_symbol plan" "pl_symbol plan \<noteq> []"
  shows "exits_ok (put_exit plan st)"
proof (cases "dget (xv_existing st) (pl_symbol plan)")
  case None
  then show ?thesis using assms by (auto simp: exits_ok_def put_exit_def plan_key_def)
next
  case (Some cur)
  then have "cur \<in> set (xv_updated st)" "plan_key cur = pl_symbol plan" using assms(1) by (auto simp: exits_ok_def)
  then have "plan \<in> (\<lambda>p. if upper (pl_symbol p) = pl_symbol plan then plan else p) ` set (xv_updated st)"
    by (auto simp: plan_key_def intro!: image_eqI[of _ _ cur])
  then show ?thesis using assms Some by (auto simp: exits_ok_def put_exit_def plan_key_def image_iff)
qed

lemma put_exit_distinct:
  assumes "exits_ok st" "upper (pl_symbol plan) = pl_symbol plan" "pl_symbol plan \<noteq> []" "distinct (map plan_key (xv_updated st))"
  shows "distinct (map plan_key (xv_updated (put_exit plan st)))"
proof (cases "dget (xv_existing st) (pl_symbol plan)")
  case None
  have "plan_key p \<noteq> pl_symbol plan" if "p \<in> set (xv_updated st)" for p
    using assms(1,3) None that by (auto simp: exits_ok_def plan_key_def)
  moreover have "plan_key plan = pl_symbol plan" using assms(2) by (simp add: plan_key_def)
  ultimately have "plan_key plan \<notin> set (map plan_key (xv_updated st))" by (metis imageE set_map)
  then show ?thesis using assms(4) None by (simp add: put_exit_def)
next
  case (Some cur)
  have "map plan_key (xv_updated (put_exit plan st)) = map plan_key (xv_updated st)"
    using assms(2) Some by (auto simp: put_exit_def plan_key_def)
  then show ?thesis using assms(4) by simp
qed

definition exit_known :: "exit_vars \<Rightarrow> string \<Rightarrow> bool" where
  "exit_known st sy \<longleftrightarrow> (\<exists>p. dget (xv_existing st) sy = Some p \<and> pl_action p \<in> set EXIT_ACTIONS)"

definition book_exits :: "int \<Rightarrow> (string \<times> SymbolQuantView) list \<Rightarrow> (string \<times> string) list \<Rightarrow> position_snapshot \<Rightarrow> bool" where
  "book_exits now views watch pos \<longleftrightarrow>
     \<not> \<bar>pn_quantity pos\<bar> < fl (1 / 10 ^ 9)
     \<and> (\<exists>v. dget views (upper (pn_symbol pos)) = Some v
            \<and> exit_of_position now (horizon_for_symbol (upper (pn_symbol pos)) watch) v pos \<noteq> BX_HOLD)"

lemma playbook_exit_plan_fields:
  "playbook_exit_plan sy hz allowed pos = Inr plan \<Longrightarrow> pl_symbol plan = sy \<and> pl_action plan = symbol_action_for_exit allowed"
  by (auto simp: playbook_exit_plan_def check_plan_def require_exit_for_entries_def split: if_splits)

lemma ensure_exit_cases:
  assumes "ensure_exit now views watch pos st = Inr st'"
  obtains (same) "st' = st" "book_exits now views watch pos \<Longrightarrow> exit_known st (upper (pn_symbol pos))"
  | (put) plan v where "st' = put_exit plan st" "pl_symbol plan = upper (pn_symbol pos)" "pl_action plan \<in> set EXIT_ACTIONS"
      "dget views (upper (pn_symbol pos)) = Some v" "\<not> exit_known st (upper (pn_symbol pos))"
proof (cases "\<bar>pn_quantity pos\<bar> < fl (1 / 10 ^ 9)")
  case True
  then show thesis using assms by (intro same) (auto simp: ensure_exit_def book_exits_def)
next
  case q: False
  show thesis
  proof (cases "dget views (upper (pn_symbol pos))")
    case None
    then show thesis using assms q by (intro same) (auto simp: ensure_exit_def book_exits_def)
  next
    case (Some v)
    let ?hz = "horizon_for_symbol (upper (pn_symbol pos)) watch"
    let ?x = "exit_of_position now ?hz v pos"
    have cur: "exit_known st (upper (pn_symbol pos))
        \<longleftrightarrow> (case dget (xv_existing st) (upper (pn_symbol pos)) of Some cur \<Rightarrow> pl_action cur \<in> set EXIT_ACTIONS | None \<Rightarrow> False)"
      by (auto simp: exit_known_def split: option.split)
    show thesis
    proof (cases "?x = BX_HOLD \<or> exit_known st (upper (pn_symbol pos))")
      case True
      then have "st' = st" using assms q Some unfolding ensure_exit_def Let_def cur[symmetric] by (auto split: if_splits)
      then show thesis using True Some by (intro same) (auto simp: book_exits_def)
    next
      case False
      then obtain plan where p: "playbook_exit_plan (upper (pn_symbol pos)) ?hz ?x pos = Inr plan" "st' = put_exit plan st"
        using assms q Some unfolding ensure_exit_def Let_def cur[symmetric] by (auto simp: py_bind_Inr_iff)
      have "symbol_action_for_exit ?x \<in> set EXIT_ACTIONS" using False by (cases ?x) (auto simp: EXIT_ACTIONS_def)
      then show thesis using playbook_exit_plan_fields[OF p(1)] p(2) Some False by (intro put) auto
    qed
  qed
qed

lemma put_exit_known:
  "exit_known st sy \<Longrightarrow> \<not> exit_known st (pl_symbol plan) \<Longrightarrow> exit_known (put_exit plan st) sy"
  "pl_action plan \<in> set EXIT_ACTIONS \<Longrightarrow> exit_known (put_exit plan st) (pl_symbol plan)"
  by (auto simp: exit_known_def put_exit_def)

lemma views_nonempty: "dget (views_of vs) sy \<noteq> None \<Longrightarrow> sy \<noteq> []"
proof -
  have "dget (foldl (\<lambda>d v. dset d (upper (qv_symbol v)) v) e vs') [] = dget e []"
    if "\<forall>v \<in> set vs'. qv_symbol v \<noteq> []" for vs' :: "SymbolQuantView list" and e
    using that
  proof (induction vs' arbitrary: e)
    case (Cons v vs')
    then have "upper (qv_symbol v) \<noteq> []" by simp
    then show ?case using Cons by (auto simp: eq_commute[of "[]"])
  qed simp
  then have "dget (views_of vs) [] = None" by (simp add: views_of_def)
  then show "dget (views_of vs) sy \<noteq> None \<Longrightarrow> sy \<noteq> []" by auto
qed

lemma ensure_loop_spec:
  assumes "ensure_loop now (views_of vs) watch ps st = Inr st'" "exits_ok st"
  shows "exits_ok st' \<and> (distinct (map plan_key (xv_updated st)) \<longrightarrow> distinct (map plan_key (xv_updated st')))
    \<and> (\<forall>sy. exit_known st sy \<longrightarrow> exit_known st' sy)
    \<and> (\<forall>pos \<in> set ps. book_exits now (views_of vs) watch pos \<longrightarrow> exit_known st' (upper (pn_symbol pos)))
    \<and> (\<not> xv_changed st' \<longrightarrow> st' = st)"
  using assms
proof (induction ps arbitrary: st)
  case (Cons pos ps)
  then obtain st1 where s1: "ensure_exit now (views_of vs) watch pos st = Inr st1" "ensure_loop now (views_of vs) watch ps st1 = Inr st'"
    by (auto simp: py_bind_Inr_iff)
  from s1(1) show ?case
  proof (cases rule: ensure_exit_cases)
    case same
    then show ?thesis using Cons.IH[OF s1(2)] Cons.prems(2) by auto
  next
    case (put plan v)
    have k: "upper (pl_symbol plan) = pl_symbol plan" "pl_symbol plan \<noteq> []" using put(2) views_nonempty[of vs "upper (pn_symbol pos)"] put(4) by simp_all
    have ok: "exits_ok st1" using put_exit_ok[OF Cons.prems(2) k] put(1) by simp
    have c: "xv_changed st1" using put(1) by (simp add: put_exit_def)
    note ih = Cons.IH[OF s1(2) ok]
    have kn: "exit_known st sy \<Longrightarrow> exit_known st' sy" for sy using ih put(1,2,5) put_exit_known(1)[of st sy plan] by auto
    have "exit_known st' (upper (pn_symbol pos))" using ih put(1,2) put_exit_known(2)[OF put(3), of st] by auto
    moreover have "distinct (map plan_key (xv_updated st)) \<Longrightarrow> distinct (map plan_key (xv_updated st'))"
      using ih put_exit_distinct[OF Cons.prems(2) k] put(1) by auto
    moreover have "xv_changed st'" using ih c by auto
    ultimately show ?thesis using ih kn by auto
  qed
qed simp

lemma ensure_exits_spec:
  assumes "ensure_playbook_exits now vs watch ps d = Inr d'"
  shows "(distinct (plan_keys d) \<longrightarrow> distinct (plan_keys d'))
    \<and> (\<forall>pos \<in> set ps. book_exits now (views_of vs) watch pos \<longrightarrow> exits_symbol d' (upper (pn_symbol pos)))"
proof -
  let ?st = "\<lparr>xv_existing = plans_by_symbol (cd_symbol_actions d), xv_updated = cd_symbol_actions d, xv_changed = False\<rparr>"
  from assms obtain st' where st': "ensure_loop now (views_of vs) watch ps ?st = Inr st'"
    "d' = (if \<not> xv_changed st' then d
           else d\<lparr>cd_symbol_actions := xv_updated st', cd_portfolio_action := portfolio_action_from_symbol_actions (xv_updated st')\<rparr>)"
    by (auto simp: ensure_playbook_exits_def py_bind_Inr_iff)
  note sp = ensure_loop_spec[OF st'(1) plans_by_symbol_ok]
  have a: "cd_symbol_actions d' = xv_updated st'" using sp st'(2) by auto
  have "exit_known st' sy \<Longrightarrow> exits_symbol d' sy" for sy
    using sp a by (auto simp: exit_known_def exits_symbol_def exits_ok_def)
  then show ?thesis using sp a by (auto simp: plan_keys_def)
qed

section \<open>Injected entries\<close>

definition in_book :: "setup_input \<Rightarrow> string \<Rightarrow> SymbolActionPlan \<Rightarrow> bool" where
  "in_book x hz p \<longleftrightarrow> horizon_for_symbol (pl_symbol p) (sx_watchlist x) = hz"

definition setup_fine :: "setup_input \<Rightarrow> string list \<Rightarrow> SymbolActionPlan \<Rightarrow> bool" where
  "setup_fine x h0 p \<longleftrightarrow>
     upper (pl_symbol p) = pl_symbol p \<and> pl_action p = SA_SCALE_IN \<and> pl_stop_loss p \<noteq> None \<and> 1 \<le> pl_target_position_pct p
     \<and> pl_symbol p \<notin> set h0 \<and> (let allow = map upper (filter (\<lambda>s. s \<noteq> []) (sx_allowlist x)) in allow \<noteq> [] \<longrightarrow> pl_symbol p \<in> set allow)"

definition total_pct :: "SymbolActionPlan list \<Rightarrow> rat" where
  "total_pct ps = sum_list (map pl_target_position_pct ps)"

definition cash_fine :: "rat \<Rightarrow> setup_vars \<Rightarrow> bool" where
  "cash_fine c0 st \<longleftrightarrow>
     (\<exists>c. su_cash_left st = Some c \<and> 0 \<le> c \<and> c \<le> 1000 \<and> fround 2 c = c
          \<and> total_pct (su_plans st) + c \<le> c0 + 6 / 1000 * of_nat (length (su_plans st)))"

definition counts_fine :: "setup_input \<Rightarrow> (string \<times> int) list \<Rightarrow> setup_vars \<Rightarrow> bool" where
  "counts_fine x n0 st \<longleftrightarrow>
     (\<forall>hz. let n = int (length (filter (in_book x hz) (su_plans st)))
           in dget0 (su_new_by_book st) hz = dget0 n0 hz + n
              \<and> (0 < n \<longrightarrow> (\<exists>b. playbook_for (Some hz) = Some b \<and> dget0 (su_new_by_book st) hz \<le> pb_max_new_per_cycle b)))"

definition setup_inv :: "setup_input \<Rightarrow> string list \<Rightarrow> (string \<times> int) list \<Rightarrow> setup_vars \<Rightarrow> bool" where
  "setup_inv x h0 n0 st \<longleftrightarrow>
     su_held st = h0 @ map pl_symbol (su_plans st) \<and> distinct (map pl_symbol (su_plans st))
     \<and> list_all (setup_fine x h0) (su_plans st) \<and> counts_fine x n0 st"

lemma fl_fround: "fl (fround n x) = fround n x"
  by (simp add: fround_def)

text \<open>One entry costs the room its size, up to the rounding to cents of a percent.\<close>

lemma cash_step:
  assumes "0 \<le> c" "c \<le> 1000" "fround 2 c = c" "s = fround 2 (min z c)" "1 \<le> s"
  shows "0 \<le> fround 2 (fsub c s)" "fround 2 (fsub c s) \<le> 1000" "fround 2 (fround 2 (fsub c s)) = fround 2 (fsub c s)"
    "s + fround 2 (fsub c s) \<le> c + 6 / 1000"
proof -
  have sc: "s \<le> c" using fround_mono[of "min z c" c 2] assms(3,4) by simp
  then have b: "0 \<le> c - s" "c - s \<le> 1000" using assms(2,5) by auto
  have f0: "0 \<le> fsub c s" using b(1) by (simp add: fsub_def fl_nonneg)
  then show "0 \<le> fround 2 (fsub c s)" by (rule fround_nonneg)
  have "\<bar>c - s\<bar> / 1000000000000000 \<le> 1000 / 1000000000000000" using b by (intro divide_right_mono) simp_all
  then have e: "fsub c s \<le> c - s + 1 / 1000000" using abs_le_D1[OF fl_err_abs[of "c - s"]] unfolding fsub_def by linarith
  then have "\<bar>fsub c s\<bar> \<le> 10 ^ 9" using f0 b by simp
  then show "fround 2 (fround 2 (fsub c s)) = fround 2 (fsub c s)" by (intro fround_idem) simp_all
  have "fl (c - s) \<le> fl c" using assms(5) by (intro fl_mono) simp
  then have "fsub c s \<le> c" using fl_fround[of 2 c] assms(3) by (simp add: fsub_def)
  then show "fround 2 (fsub c s) \<le> 1000" using fround_mono[of "fsub c s" c 2] assms(2,3) by simp
  have "fround 2 (fsub c s) \<le> fsub c s + 51 / 10000" using f0 e b by (intro fround2_near(1)) simp
  then show "s + fround 2 (fsub c s) \<le> c + 6 / 1000" using e by linarith
qed

lemma setup_plan_fields:
  assumes "setup_plan sy book zone stop sz view = Inr plan"
  shows "pl_symbol plan = sy \<and> pl_action plan = SA_SCALE_IN \<and> pl_stop_loss plan = Some stop \<and> pl_target_position_pct plan = sz"
  using assms by (auto simp: setup_plan_def check_plan_def require_exit_for_entries_def split: if_splits)

lemma consider_view_cases:
  assumes "consider_view x view st = Inr st'"
  obtains (skip) "st' = st"
  | (take) sy hz book plan where "sy = upper (qv_symbol view)" "hz = horizon_for_symbol sy (sx_watchlist x)"
      "st' = take_setup sy hz (setup_size x hz book st) plan st" "sy \<noteq> []" "sy \<notin> set (su_held st)"
      "let allow = map upper (filter (\<lambda>s. s \<noteq> []) (sx_allowlist x)) in allow \<noteq> [] \<longrightarrow> sy \<in> set allow"
      "playbook_for (Some hz) = Some book" "dget0 (su_new_by_book st) hz < pb_max_new_per_cycle book" "1 \<le> setup_size x hz book st"
      "pl_symbol plan = sy" "pl_action plan = SA_SCALE_IN" "pl_stop_loss plan \<noteq> None" "pl_target_position_pct plan = setup_size x hz book st"
proof (cases "st' = st")
  case False
  let ?sy = "upper (qv_symbol view)"
  let ?hz = "horizon_for_symbol ?sy (sx_watchlist x)"
  from assms False obtain book zone stop plan where
    c: "?sy \<noteq> []" "?sy \<notin> set (su_held st)" "let allow = map upper (filter (\<lambda>s. s \<noteq> []) (sx_allowlist x)) in allow \<noteq> [] \<longrightarrow> ?sy \<in> set allow"
      "playbook_for (Some ?hz) = Some book" "dget0 (su_new_by_book st) ?hz < pb_max_new_per_cycle book" "1 \<le> setup_size x ?hz book st"
      "setup_plan ?sy book zone stop (setup_size x ?hz book st) view = Inr plan"
      "st' = take_setup ?sy ?hz (setup_size x ?hz book st) (stamp_plan (Some view) SOURCE_INJECTED plan) st"
    by (auto simp: consider_view_def Let_def py_bind_Inr_iff not_less not_le split: if_splits option.splits)
  show thesis
    using setup_plan_fields[OF c(7)] by (intro take[OF refl refl c(8) c(1-6)]) (simp_all add: stamp_plan_def)
qed (rule skip)

lemma take_setup_cash:
  assumes "cash_fine c0 st" "s = setup_size x hz book st" "1 \<le> s" "pl_target_position_pct plan = s"
  shows "cash_fine c0 (take_setup sy hz s plan st)"
proof -
  from assms(1) obtain c where c: "su_cash_left st = Some c" "0 \<le> c" "c \<le> 1000" "fround 2 c = c"
    "total_pct (su_plans st) + c \<le> c0 + 6 / 1000 * of_nat (length (su_plans st))" by (auto simp: cash_fine_def)
  obtain z where "s = fround 2 (min z c)" using assms(2) c(1) by (auto simp: setup_size_def Let_def)
  note cs = cash_step[OF c(2-4) this assms(3)]
  have "total_pct (su_plans st) + s + fround 2 (fsub c s) \<le> c0 + 6 / 1000 * of_nat (length (su_plans st)) + 6 / 1000"
    using cs(4) c(5) by linarith
  then show ?thesis using cs(1-3) c(1) assms(4)
    by (simp add: cash_fine_def take_setup_def total_pct_def algebra_simps add_divide_distrib)
qed

lemma take_setup_counts:
  assumes "counts_fine x n0 st" "playbook_for (Some hz) = Some book" "dget0 (su_new_by_book st) hz < pb_max_new_per_cycle book"
    "horizon_for_symbol (pl_symbol plan) (sx_watchlist x) = hz"
  shows "counts_fine x n0 (take_setup sy hz s plan st)"
proof -
  have "dget0 (dset d k v) j = (if j = k then v else dget0 d j)" for d :: "(string \<times> int) list" and k v j
    by (simp add: dget0_def)
  then show ?thesis using assms by (auto simp: counts_fine_def take_setup_def Let_def in_book_def)
qed

lemma consider_view_inv:
  assumes "consider_view x view st = Inr st'"
  shows "setup_inv x h0 n0 st \<Longrightarrow> setup_inv x h0 n0 st'" "cash_fine c0 st \<Longrightarrow> cash_fine c0 st'"
proof -
  show "setup_inv x h0 n0 st'" if i: "setup_inv x h0 n0 st"
    using assms
  proof (cases rule: consider_view_cases)
    case (take sy hz book plan)
    have "counts_fine x n0 st'" using take i take_setup_counts[of x n0 st hz book plan] by (simp add: setup_inv_def)
    moreover have "setup_fine x h0 plan" using take i by (simp add: setup_fine_def setup_inv_def)
    ultimately show ?thesis using take i by (simp add: setup_inv_def take_setup_def)
  qed (use i in simp)
  show "cash_fine c0 st'" if "cash_fine c0 st"
    using assms that by (cases rule: consider_view_cases) (auto intro: take_setup_cash)
qed

lemma setup_loop_inv:
  "setup_loop x views st = Inr st' \<Longrightarrow> (setup_inv x h0 n0 st \<longrightarrow> setup_inv x h0 n0 st') \<and> (cash_fine c0 st \<longrightarrow> cash_fine c0 st')"
proof (induction views arbitrary: st)
  case (Cons v views)
  then obtain st1 where s: "consider_view x v st = Inr st1" "setup_loop x views st1 = Inr st'" by (auto simp: py_bind_Inr_iff)
  show ?case using Cons.IH[OF s(2)] consider_view_inv[OF s(1)] by blast
qed simp

lemma quant_entry_plans_spec:
  assumes "quant_entry_plans x views h n0 used (Some c0) = Inr extras"
  shows "distinct (map pl_symbol extras)" "list_all (setup_fine x (map upper h)) extras"
    "0 \<le> c0 \<Longrightarrow> c0 \<le> 1000 \<Longrightarrow> fround 2 c0 = c0 \<Longrightarrow> total_pct extras \<le> c0 + 6 / 1000 * of_nat (length extras)"
    "playbook_for (Some hz) = Some b \<Longrightarrow> 0 \<le> dget0 n0 hz \<Longrightarrow> 0 \<le> pb_max_new_per_cycle b
       \<Longrightarrow> int (length (filter (in_book x hz) extras)) \<le> pb_max_new_per_cycle b"
proof -
  let ?st = "start_setups x h n0 used (Some c0)"
  from assms(1) obtain st where st: "setup_loop x (sort_key (\<lambda>v. - qv_probability_estimate v) views) ?st = Inr st"
    "extras = su_plans st" by (auto simp: quant_entry_plans_def py_bind_Inr_iff)
  have "setup_inv x (map upper h) n0 ?st"
    by (simp add: setup_inv_def start_setups_def counts_fine_def)
  with setup_loop_inv[OF st(1)] have i: "setup_inv x (map upper h) n0 st" by blast
  then show "distinct (map pl_symbol extras)" "list_all (setup_fine x (map upper h)) extras" using st(2) by (auto simp: setup_inv_def)
  show "total_pct extras \<le> c0 + 6 / 1000 * of_nat (length extras)" if "0 \<le> c0" "c0 \<le> 1000" "fround 2 c0 = c0"
  proof -
    have "cash_fine c0 ?st" using that by (simp add: start_setups_def cash_fine_def total_pct_def)
    with setup_loop_inv[OF st(1)] have "cash_fine c0 st" by blast
    then show ?thesis using st(2) by (auto simp: cash_fine_def)
  qed
  show "int (length (filter (in_book x hz) extras)) \<le> pb_max_new_per_cycle b"
    if "playbook_for (Some hz) = Some b" "0 \<le> dget0 n0 hz" "0 \<le> pb_max_new_per_cycle b"
  proof (cases "filter (in_book x hz) extras = []")
    case False
    then have "0 < int (length (filter (in_book x hz) extras))" by simp
    then show ?thesis using i st(2) that by (force simp: setup_inv_def counts_fine_def Let_def)
  qed (use that in simp)
qed

lemma max_new_nonneg: "playbook_for h = Some b \<Longrightarrow> 0 \<le> pb_max_new_per_cycle b"
  by (auto simp: playbook_for_def PLAYBOOKS_def split: if_splits)

lemma new_counts_nonneg: "0 \<le> dget0 (new_counts_of x ps) hz"
proof (induction ps rule: rev_induct)
  case (snoc p ps)
  then show ?case by (cases "hz = horizon_for_symbol (pl_symbol p) (sx_watchlist x)") (simp_all add: new_counts_of_def Let_def dget0_def)
qed (simp add: new_counts_of_def dget0_def)

lemma fround_room: "1 \<le> fround 2 y \<Longrightarrow> fround 2 y \<le> 1000 \<Longrightarrow> fround 2 (fround 2 y) = fround 2 y"
proof -
  assume b: "1 \<le> fround 2 y" "fround 2 y \<le> 1000"
  have "fround 2 (10 ^ 9) = 10 ^ 9" using round_even_of_int[of "10 ^ 11"] by (simp add: fround_def)
  then have "y \<le> 10 ^ 9" using fround_mono[of "10 ^ 9" y 2] b(2) by (cases "y \<le> 10 ^ 9") auto
  moreover have "0 \<le> y" using fround_mono[of y 0 2] b(1) by (cases "0 \<le> y") auto
  ultimately show ?thesis by (intro fround_idem) simp_all
qed

definition merged_plans :: "CIODecision \<Rightarrow> SymbolActionPlan list \<Rightarrow> SymbolActionPlan list" where
  "merged_plans d extras = filter (\<lambda>p. plan_key p \<notin> plan_key ` set extras) (cd_symbol_actions d) @ extras"

lemma takes_setups_cases:
  assumes "ensure_cio_takes_setups x quant positions risk_ok enabled cash_pct min_cash_pct d = Inr d'"
  obtains (same) "d' = d"
  | (extra) extras where "cd_symbol_actions d' = merged_plans d extras" "1 \<le> cash_room_of cash_pct min_cash_pct d"
    "quant_entry_plans x quant
       (map (\<lambda>p. upper (pn_symbol p)) (filter is_held positions) @ remdups (map (\<lambda>p. upper (pl_symbol p)) (entering_of d)))
       (new_counts_of x (entering_of d)) (sleeve_use x positions (entering_of d)) (Some (cash_room_of cash_pct min_cash_pct d)) = Inr extras"
proof (cases "\<not> enabled \<or> \<not> risk_ok \<or> \<not> cd_risk_approval d")
  case True
  then show thesis using assms by (intro same) (auto simp: ensure_cio_takes_setups_def)
next
  case on: False
  show thesis
  proof (cases "cash_room_of cash_pct min_cash_pct d < 1")
    case True
    then show thesis using assms on by (intro same) (auto simp: ensure_cio_takes_setups_def Let_def)
  next
    case False
    then show thesis using assms on
      by (auto simp: ensure_cio_takes_setups_def Let_def py_bind_Inr_iff merged_plans_def plan_key_def intro!: extra)
  qed
qed

lemma takes_setups_spec:
  assumes "ensure_cio_takes_setups x quant positions risk_ok enabled cash_pct min_cash_pct d = Inr d'"
  obtains extras where "cd_symbol_actions d' = merged_plans d extras" "distinct (map plan_key extras)"
    "cash_room_of cash_pct min_cash_pct d \<le> 1000
       \<Longrightarrow> total_pct extras \<le> max 0 (cash_room_of cash_pct min_cash_pct d) + 6 / 1000 * of_nat (length extras)"
    "\<And>p. p \<in> set extras \<Longrightarrow> pl_action p = SA_SCALE_IN \<and> pl_stop_loss p \<noteq> None \<and> 1 \<le> pl_target_position_pct p
       \<and> (\<forall>pos \<in> set positions. is_held pos \<longrightarrow> upper (pn_symbol pos) \<noteq> plan_key p)"
    "\<And>hz b. playbook_for (Some hz) = Some b \<Longrightarrow> int (length (filter (in_book x hz) extras)) \<le> pb_max_new_per_cycle b"
  using assms
proof (cases rule: takes_setups_cases)
  case same
  then show thesis by (intro that[of "[]"]) (simp_all add: merged_plans_def total_pct_def max_new_nonneg)
next
  case (extra extras)
  let ?c = "cash_room_of cash_pct min_cash_pct d"
  let ?h = "map (\<lambda>p. upper (pn_symbol p)) (filter is_held positions) @ remdups (map (\<lambda>p. upper (pl_symbol p)) (entering_of d))"
  note sp = quant_entry_plans_spec[OF extra(3)]
  have "map plan_key extras = map pl_symbol extras" using sp(2) by (auto simp: plan_key_def list_all_iff setup_fine_def)
  then have k: "distinct (map plan_key extras)" using sp(1) by (simp only:)
  have t: "total_pct extras \<le> max 0 ?c + 6 / 1000 * of_nat (length extras)" if "?c \<le> 1000"
  proof -
    have "fround 2 ?c = ?c" using fround_room that extra(2) unfolding cash_room_of_def by blast
    then show ?thesis using sp(3) that extra(2) by simp
  qed
  have f: "pl_action p = SA_SCALE_IN \<and> pl_stop_loss p \<noteq> None \<and> 1 \<le> pl_target_position_pct p
       \<and> (\<forall>pos \<in> set positions. is_held pos \<longrightarrow> upper (pn_symbol pos) \<noteq> plan_key p)" if "p \<in> set extras" for p
  proof -
    have s: "setup_fine x (map upper ?h) p" using sp(2) that by (simp add: list_all_iff)
    have "upper (pn_symbol pos) \<in> set (map upper ?h)" if "pos \<in> set positions" "is_held pos" for pos
      using that by (auto simp: image_iff intro!: bexI[of _ pos])
    then show ?thesis using s by (fastforce simp: setup_fine_def plan_key_def)
  qed
  have n: "int (length (filter (in_book x hz) extras)) \<le> pb_max_new_per_cycle b" if "playbook_for (Some hz) = Some b" for hz b
    using sp(4)[OF that new_counts_nonneg max_new_nonneg[OF that]] .
  show thesis by (rule that[OF extra(1) k t f n])
qed

text \<open>
  Property C27.  Entries added on top of a decision stay inside their limits: they are scale-ins with a stop and at least one percent of
  equity, in names not held, they replace only plans of their own symbols, their sizes sum to no more than the cash above the hard floor
  that the decision leaves, up to the rounding of each to two places, and no book takes more of them than it allows per cycle.
\<close>

theorem setups_within_limits:
  assumes "ensure_cio_takes_setups x quant positions risk_ok enabled cash_pct min_cash_pct d = Inr d'" "cash_room_of cash_pct min_cash_pct d \<le> 1000"
  shows "\<exists>extras. cd_symbol_actions d' = filter (\<lambda>p. plan_key p \<notin> plan_key ` set extras) (cd_symbol_actions d) @ extras
    \<and> total_pct extras \<le> max 0 (cash_room_of cash_pct min_cash_pct d) + 6 / 1000 * of_nat (length extras)
    \<and> (\<forall>p \<in> set extras. pl_action p = SA_SCALE_IN \<and> pl_stop_loss p \<noteq> None \<and> 1 \<le> pl_target_position_pct p
         \<and> (\<forall>pos \<in> set positions. is_held pos \<longrightarrow> upper (pn_symbol pos) \<noteq> plan_key p))
    \<and> (\<forall>hz b. playbook_for (Some hz) = Some b \<longrightarrow> int (length (filter (in_book x hz) extras)) \<le> pb_max_new_per_cycle b)"
  using assms(1)
proof (rule takes_setups_spec)
  fix extras
  assume e: "cd_symbol_actions d' = merged_plans d extras" "distinct (map plan_key extras)"
    "cash_room_of cash_pct min_cash_pct d \<le> 1000
       \<Longrightarrow> total_pct extras \<le> max 0 (cash_room_of cash_pct min_cash_pct d) + 6 / 1000 * of_nat (length extras)"
    "\<And>p. p \<in> set extras \<Longrightarrow> pl_action p = SA_SCALE_IN \<and> pl_stop_loss p \<noteq> None \<and> 1 \<le> pl_target_position_pct p
       \<and> (\<forall>pos \<in> set positions. is_held pos \<longrightarrow> upper (pn_symbol pos) \<noteq> plan_key p)"
    "\<And>hz b. playbook_for (Some hz) = Some b \<Longrightarrow> int (length (filter (in_book x hz) extras)) \<le> pb_max_new_per_cycle b"
  show ?thesis using e(1,4,5) e(3)[OF assms(2)] unfolding merged_plans_def by (intro exI[of _ extras] conjI) blast+
qed

section \<open>The whole sequence\<close>

lemma merged_keys: "distinct (plan_keys d) \<Longrightarrow> distinct (map plan_key extras) \<Longrightarrow> distinct (map plan_key (merged_plans d extras))"
  by (auto simp: merged_plans_def plan_keys_def distinct_map_filter)

text \<open>The decision after each stage.\<close>

lemma finish_stages:
  assumes "finish_decision i d = Inr d'"
  obtains d2 d3 d5 where "plan_keys d2 = plan_keys d"
    "ensure_playbook_exits (pi_now i) (pi_views i) (sx_watchlist (pi_setup i)) (filter is_held (pi_portfolio i)) d2 = Inr d3"
    "ensure_cio_takes_setups (pi_setup i) (pi_views i) (pi_portfolio i) (pi_risk_ok i) (pi_aggressive i) (pi_cash_pct i) (pi_min_cash_pct i)
       (enrich_cio_entry_stops (pi_views i) (pi_prices i) (sx_watchlist (pi_setup i)) (pi_atrs i) d3) = Inr d5"
    "d' = reconcile_nameless_entry (filter is_held (pi_portfolio i) \<noteq> [])
            (stamp_cio_entry_attribution (pi_views i)
              (drop_blocked_entries (pi_views i) (sx_watchlist (pi_setup i)) (Some (sx_regime (pi_setup i)))
                 (sx_minutes_to_close (pi_setup i)) (pi_outcome_pnls i) d5))"
proof -
  let ?w = "sx_watchlist (pi_setup i)"
  let ?d2 = "align_cio_playbook_exits (pi_views i) ?w (map pn_symbol (filter is_held (pi_portfolio i))) (align_cio_horizons ?w d)"
  have "plan_keys ?d2 = plan_keys d" by (simp only: align_keys align_cio_horizons_def horizon_rewrite.keeps_keys)
  then show thesis using assms by (auto simp: finish_decision_def Let_def py_bind_Inr_iff intro!: that)
qed

lemma enrich_keeps:
  "plan_keys (enrich_cio_entry_stops q pr w at0 d) = plan_keys d" "exits_symbol (enrich_cio_entry_stops q pr w at0 d) sy = exits_symbol d sy"
  by (simp_all only: enrich_cio_entry_stops_def stop_rewrite.keeps_keys stop_rewrite.keeps_exits)

lemma finished_keeps:
  "exits_symbol (reconcile_nameless_entry h (stamp_cio_entry_attribution q (drop_blocked_entries q w r m l d))) sy \<longleftrightarrow> exits_symbol d sy"
  "distinct (plan_keys d) \<Longrightarrow> distinct (plan_keys (reconcile_nameless_entry h (stamp_cio_entry_attribution q (drop_blocked_entries q w r m l d))))"
proof -
  have r: "exits_symbol (reconcile_nameless_entry h e) sy = exits_symbol e sy" "plan_keys (reconcile_nameless_entry h e) = plan_keys e" for e
    by (simp_all add: exits_symbol_def plan_keys_def reconcile_actions)
  show "exits_symbol (reconcile_nameless_entry h (stamp_cio_entry_attribution q (drop_blocked_entries q w r m l d))) sy \<longleftrightarrow> exits_symbol d sy"
    by (simp only: r stamp_cio_entry_attribution_def source_rewrite.keeps_exits drop_exits)
  show "distinct (plan_keys d) \<Longrightarrow> distinct (plan_keys (reconcile_nameless_entry h (stamp_cio_entry_attribution q (drop_blocked_entries q w r m l d))))"
    by (simp only: r stamp_cio_entry_attribution_def source_rewrite.keeps_keys drop_keys)
qed

lemma single_plan:
  assumes "distinct (plan_keys d)" "exits_symbol d sy"
  shows "\<exists>p. filter (\<lambda>p. plan_key p = sy) (cd_symbol_actions d) = [p] \<and> pl_action p \<in> set EXIT_ACTIONS"
proof -
  from assms(2) obtain p where p: "p \<in> set (cd_symbol_actions d)" "plan_key p = sy" "pl_action p \<in> set EXIT_ACTIONS"
    by (auto simp: exits_symbol_def)
  from p(1) obtain us vs where s: "cd_symbol_actions d = us @ p # vs" by (auto dest: split_list)
  then have "sy \<notin> plan_key ` set us" "sy \<notin> plan_key ` set vs" using assms(1) p(2) by (auto simp: plan_keys_def)
  then have "filter (\<lambda>p. plan_key p = sy) us = []" "filter (\<lambda>p. plan_key p = sy) vs = []" by (auto simp: filter_empty_conv)
  then show ?thesis using s p(2,3) by simp
qed

lemma finish_keeps_exits:
  assumes "finish_decision i d = Inr d'" "pos \<in> set (pi_portfolio i)" "is_held pos"
    "book_exits (pi_now i) (views_of (pi_views i)) (sx_watchlist (pi_setup i)) pos"
  shows "exits_symbol d' (upper (pn_symbol pos))"
proof -
  from assms(1) obtain d2 d3 d5 where st: "plan_keys d2 = plan_keys d"
    "ensure_playbook_exits (pi_now i) (pi_views i) (sx_watchlist (pi_setup i)) (filter is_held (pi_portfolio i)) d2 = Inr d3"
    "ensure_cio_takes_setups (pi_setup i) (pi_views i) (pi_portfolio i) (pi_risk_ok i) (pi_aggressive i) (pi_cash_pct i) (pi_min_cash_pct i)
       (enrich_cio_entry_stops (pi_views i) (pi_prices i) (sx_watchlist (pi_setup i)) (pi_atrs i) d3) = Inr d5"
    "d' = reconcile_nameless_entry (filter is_held (pi_portfolio i) \<noteq> [])
            (stamp_cio_entry_attribution (pi_views i)
              (drop_blocked_entries (pi_views i) (sx_watchlist (pi_setup i)) (Some (sx_regime (pi_setup i)))
                 (sx_minutes_to_close (pi_setup i)) (pi_outcome_pnls i) d5))"
    by (rule finish_stages)
  let ?sy = "upper (pn_symbol pos)"
  let ?d4 = "enrich_cio_entry_stops (pi_views i) (pi_prices i) (sx_watchlist (pi_setup i)) (pi_atrs i) d3"
  have "exits_symbol d3 ?sy" using ensure_exits_spec[OF st(2)] assms(2-4) by auto
  then have "exits_symbol ?d4 ?sy" by (simp only: enrich_keeps(2))
  then obtain p where p: "p \<in> set (cd_symbol_actions ?d4)" "plan_key p = ?sy" "pl_action p \<in> set EXIT_ACTIONS" by (auto simp: exits_symbol_def)
  from st(3) obtain extras where e: "cd_symbol_actions d5 = merged_plans ?d4 extras"
    "\<And>q. q \<in> set extras \<Longrightarrow> \<forall>pos \<in> set (pi_portfolio i). is_held pos \<longrightarrow> upper (pn_symbol pos) \<noteq> plan_key q"
    by (rule takes_setups_spec) blast
  have "?sy \<notin> plan_key ` set extras" using e(2) assms(2,3) by blast
  then have "p \<in> set (cd_symbol_actions d5)" using p(1,2) e(1) by (simp add: merged_plans_def)
  then have "exits_symbol d5 ?sy" using p(2,3) by (auto simp: exits_symbol_def)
  then show ?thesis using st(4) finished_keeps(1) by simp
qed

lemma finish_keeps_distinct:
  assumes "finish_decision i d = Inr d'" "distinct (plan_keys d)"
  shows "distinct (plan_keys d')"
proof -
  from assms(1) obtain d2 d3 d5 where st: "plan_keys d2 = plan_keys d"
    "ensure_playbook_exits (pi_now i) (pi_views i) (sx_watchlist (pi_setup i)) (filter is_held (pi_portfolio i)) d2 = Inr d3"
    "ensure_cio_takes_setups (pi_setup i) (pi_views i) (pi_portfolio i) (pi_risk_ok i) (pi_aggressive i) (pi_cash_pct i) (pi_min_cash_pct i)
       (enrich_cio_entry_stops (pi_views i) (pi_prices i) (sx_watchlist (pi_setup i)) (pi_atrs i) d3) = Inr d5"
    "d' = reconcile_nameless_entry (filter is_held (pi_portfolio i) \<noteq> [])
            (stamp_cio_entry_attribution (pi_views i)
              (drop_blocked_entries (pi_views i) (sx_watchlist (pi_setup i)) (Some (sx_regime (pi_setup i)))
                 (sx_minutes_to_close (pi_setup i)) (pi_outcome_pnls i) d5))"
    by (rule finish_stages)
  let ?d4 = "enrich_cio_entry_stops (pi_views i) (pi_prices i) (sx_watchlist (pi_setup i)) (pi_atrs i) d3"
  have "distinct (plan_keys ?d4)" using ensure_exits_spec[OF st(2)] st(1) assms(2) by (simp add: enrich_keeps(1))
  moreover from st(3) obtain extras where "cd_symbol_actions d5 = merged_plans ?d4 extras" "distinct (map plan_key extras)"
    by (rule takes_setups_spec)
  ultimately have "distinct (plan_keys d5)" by (simp add: plan_keys_def merged_keys)
  then show ?thesis using st(4) finished_keeps(2) by simp
qed

subsection \<open>The pipeline returns\<close>

text \<open>Probabilities lie between zero and one by the schema.  No schema bounds the weight of a position; half of it becomes the
  target of a reduction, which must be a percentage, so a weight above two hundred can make the pipeline raise.\<close>

definition weights_ok :: "position_snapshot list \<Rightarrow> bool" where
  "weights_ok ps \<longleftrightarrow> list_all (\<lambda>p. \<bar>pn_weight_pct p\<bar> \<le> 200) ps"

definition views_ok :: "SymbolQuantView list \<Rightarrow> bool" where
  "views_ok vs \<longleftrightarrow> list_all (\<lambda>v. 0 \<le> qv_probability_estimate v \<and> qv_probability_estimate v \<le> 1) vs"

lemma exit_plan_returns:
  assumes "allowed \<noteq> BX_HOLD" "\<bar>pn_weight_pct pos\<bar> \<le> 200"
  shows "\<exists>p. playbook_exit_plan sy hz allowed pos = Inr p"
proof -
  have "fl (\<bar>pn_weight_pct pos\<bar> * (1 / 2)) \<le> fl 100" using assms(2) by (intro fl_mono) simp
  moreover have "0 \<le> fl (\<bar>pn_weight_pct pos\<bar> * (1 / 2))" by (rule fl_nonneg) simp
  ultimately show ?thesis using assms(1)
    by (cases allowed) (auto simp: playbook_exit_plan_def check_plan_def require_exit_for_entries_def fmul_def)
qed

lemma ensure_exit_returns: "\<bar>pn_weight_pct pos\<bar> \<le> 200 \<Longrightarrow> \<exists>st'. ensure_exit now views watch pos st = Inr st'"
  using exit_plan_returns[of "exit_of_position now hz v pos" pos sy hz for hz v sy]
  by (auto simp: ensure_exit_def Let_def py_bind_Inr_iff split: option.split)

lemma ensure_exits_return:
  assumes "weights_ok ps"
  shows "\<exists>d'. ensure_playbook_exits now vs watch ps d = Inr d'"
proof -
  have "\<exists>st'. ensure_loop now views watch ps st = Inr st'" for views st
    using assms
  proof (induction ps arbitrary: st)
    case (Cons pos ps)
    then obtain st1 where "ensure_exit now views watch pos st = Inr st1" using ensure_exit_returns by (fastforce simp: weights_ok_def)
    then show ?case using Cons by (auto simp: weights_ok_def)
  qed simp
  then show ?thesis by (fastforce simp: ensure_playbook_exits_def py_bind_Inr_iff)
qed

lemma fround2_of_int: "\<bar>k\<bar> \<le> 2 ^ 53 \<Longrightarrow> fround 2 (of_int k) = of_int k"
proof -
  assume k: "\<bar>k\<bar> \<le> 2 ^ 53"
  have "round_even (of_int k * 10 ^ 2) = k * 100" using round_even_of_int[of "k * 100"] by simp
  then show ?thesis using fl_of_int[OF k] by (simp add: fround_def)
qed

lemma target_sizes: "playbook_for h = Some b \<Longrightarrow> pb_target_size_pct b = 10"
  by (auto simp: playbook_for_def PLAYBOOKS_def split: if_splits)

lemma setup_size_le:
  assumes "playbook_for (Some hz) = Some book"
  shows "setup_size x hz book st \<le> 100"
proof -
  have ten: "fround 2 10 = 10" using fround2_of_int[of 10] by simp
  have "fround 2 (min c r) \<le> 10" if "c \<le> 10" for c r :: rat
    using fround_mono[of "min c r" 10 2] that ten by (simp add: min_le_iff_disj)
  then have e: "entry_notional_pct (Some hz) u m (Some (pb_target_size_pct book)) \<le> 10" for u m
    using target_sizes[OF assms] by (simp add: entry_notional_pct_def Let_def)
  have "fround 2 (min z c) \<le> 10" if "z \<le> 10" for z c :: rat
    using fround_mono[of "min z c" 10 2] that ten by (simp add: min_le_iff_disj)
  then have "setup_size x hz book st \<le> 10" using e by (simp add: setup_size_def Let_def split: option.split)
  then show ?thesis by simp
qed

lemma confidence_range:
  assumes "0 \<le> p" "p \<le> 1"
  shows "0 \<le> trunc_int (fmul p 100) \<and> trunc_int (fmul p 100) \<le> 100"
proof -
  have "0 \<le> fmul p 100" "fmul p 100 \<le> 100" using assms fl_mono[of "p * 100" 100] by (simp_all add: fmul_def fl_nonneg)
  then show ?thesis by (simp add: trunc_int_def)
qed

lemma consider_view_returns:
  assumes "0 \<le> qv_probability_estimate v" "qv_probability_estimate v \<le> 1"
  shows "\<exists>st'. consider_view x v st = Inr st'"
proof -
  have "\<exists>p. setup_plan sy book zone stop (setup_size x hz book st) v = Inr p"
    if "playbook_for (Some hz) = Some book" "1 \<le> setup_size x hz book st" for sy hz book zone stop
    using confidence_range[OF assms] setup_size_le[OF that(1), of x st] that(2)
    by (simp add: setup_plan_def check_plan_def require_exit_for_entries_def)
  then show ?thesis
    by (fastforce simp: consider_view_def Let_def py_bind_Inr_iff not_less split: option.split)
qed

lemma setups_return:
  assumes "views_ok vs"
  shows "\<exists>d'. ensure_cio_takes_setups x vs ps risk_ok enabled cash min_cash d = Inr d'"
proof -
  have "\<exists>st'. setup_loop x vs' st = Inr st'" if "views_ok vs'" for vs' st
    using that
  proof (induction vs' arbitrary: st)
    case (Cons v vs')
    then obtain st1 where "consider_view x v st = Inr st1" using consider_view_returns by (fastforce simp: views_ok_def)
    then show ?case using Cons by (auto simp: views_ok_def)
  qed simp
  moreover have "views_ok (sort_key (\<lambda>v. - qv_probability_estimate v) vs)" using assms by (simp add: views_ok_def list_all_iff)
  ultimately have "\<exists>es. quant_entry_plans x vs h n u c = Inr es" for h n u c
    by (fastforce simp: quant_entry_plans_def py_bind_Inr_iff)
  then show ?thesis by (fastforce simp: ensure_cio_takes_setups_def Let_def py_bind_Inr_iff)
qed

lemma finish_returns:
  assumes "weights_ok (pi_portfolio i)" "views_ok (pi_views i)"
  shows "\<exists>d'. finish_decision i d = Inr d'"
proof -
  have "weights_ok (filter is_held (pi_portfolio i))" using assms(1) by (auto simp: weights_ok_def list_all_iff)
  then show ?thesis using ensure_exits_return setups_return[OF assms(2)]
    by (fastforce simp: finish_decision_def Let_def py_bind_Inr_iff)
qed

text \<open>
  Property C25.  A position its book wants out of leaves the pipeline with an exit.  For every held position whose book says sell or
  reduce on the quant view, and whatever plans the language model gave, a decision the pipeline returns has an exit for the symbol, so
  nothing the later stages add or drop undoes it.  When the model gave at most one plan per symbol, so does
  the finished decision, and the symbol's only plan is the exit.  The pipeline does return when no position weighs more
  than two hundred percent and the probabilities are within their schema bound.
\<close>

theorem book_exits_reach_decision:
  assumes "pos \<in> set (pi_portfolio i)" "is_held pos"
    "dget (views_of (pi_views i)) (upper (pn_symbol pos)) = Some v"
    "exit_of_position (pi_now i) (horizon_for_symbol (upper (pn_symbol pos)) (sx_watchlist (pi_setup i))) v pos \<noteq> BX_HOLD"
  shows "(\<forall>d'. finish_decision i d = Inr d' \<longrightarrow>
        (\<exists>p \<in> set (cd_symbol_actions d'). plan_key p = upper (pn_symbol pos) \<and> pl_action p \<in> {SA_SELL, SA_PARTIAL_SELL, SA_REDUCE})
        \<and> (distinct (plan_keys d) \<longrightarrow> distinct (plan_keys d')
            \<and> (\<exists>p. filter (\<lambda>p. plan_key p = upper (pn_symbol pos)) (cd_symbol_actions d') = [p]
                 \<and> pl_action p \<in> {SA_SELL, SA_PARTIAL_SELL, SA_REDUCE})))
    \<and> ((\<forall>q \<in> set (pi_portfolio i). \<bar>pn_weight_pct q\<bar> \<le> 200)
        \<and> (\<forall>v \<in> set (pi_views i). 0 \<le> qv_probability_estimate v \<and> qv_probability_estimate v \<le> 1) \<longrightarrow>
       (\<exists>d'. finish_decision i d = Inr d'))"
proof -
  have exits: "set EXIT_ACTIONS = {SA_SELL, SA_PARTIAL_SELL, SA_REDUCE}" by (auto simp: EXIT_ACTIONS_def)
  have book: "book_exits (pi_now i) (views_of (pi_views i)) (sx_watchlist (pi_setup i)) pos"
    using assms(2-4) by (auto simp: book_exits_def is_held_def)
  have e: "exits_symbol d' (upper (pn_symbol pos))" if "finish_decision i d = Inr d'" for d'
    by (rule finish_keeps_exits[OF that assms(1,2) book])
  have "(\<forall>q \<in> set (pi_portfolio i). \<bar>pn_weight_pct q\<bar> \<le> 200)
        \<and> (\<forall>v \<in> set (pi_views i). 0 \<le> qv_probability_estimate v \<and> qv_probability_estimate v \<le> 1) \<longrightarrow>
       (\<exists>d'. finish_decision i d = Inr d')"
    using finish_returns[of i d] by (simp add: weights_ok_def views_ok_def list_all_iff)
  then show ?thesis
    using e finish_keeps_distinct single_plan unfolding exits_symbol_def exits by blast
qed

text \<open>
  Property C26.  No entry leaves the pipeline that its book refuses.  The symbol's closed trades do not block it.  If the symbol has a
  quant view, its book proposes the entry at the view's probability, and the plan has a stop or else the view has one.  A symbol
  without a view consults no book: the entry is then not one of an intraday book and carries its own stop.  And the decision announces
  an entry only when it names one.
\<close>

theorem final_entries_pass_book:
  assumes "finish_decision i d = Inr d'"
  shows "(\<forall>p \<in> set (cd_symbol_actions d'). pl_action p \<in> set BOOK_ENTRY_ACTIONS \<longrightarrow>
      entry_block_reason (case dget (pi_outcome_pnls i) (plan_key p) of Some ps \<Rightarrow> ps | None \<Rightarrow> []) = None
      \<and> (case dget (views_of (pi_views i)) (plan_key p) of
           Some v \<Rightarrow> book_proposes (pi_setup i) (horizon_for_symbol (plan_key p) (sx_watchlist (pi_setup i))) v
                     \<and> (pl_stop_loss p \<noteq> None \<or> qv_stop_or_invalidation v \<noteq> None)
         | None \<Rightarrow> horizon_for_symbol (plan_key p) (sx_watchlist (pi_setup i)) \<notin> {''scalp'', ''day''} \<and> pl_stop_loss p \<noteq> None))
    \<and> (cd_portfolio_action d' \<in> {PA_SCALE_IN, PA_BUY, PA_STRONG_BUY} \<longrightarrow> entering_of d' \<noteq> [])"
proof -
  from assms(1) obtain d2 d3 d5 where st: "d' = reconcile_nameless_entry (filter is_held (pi_portfolio i) \<noteq> [])
            (stamp_cio_entry_attribution (pi_views i)
              (drop_blocked_entries (pi_views i) (sx_watchlist (pi_setup i)) (Some (sx_regime (pi_setup i)))
                 (sx_minutes_to_close (pi_setup i)) (pi_outcome_pnls i) d5))"
    by (rule finish_stages)
  let ?why = "entry_dropped (views_of (pi_views i)) (sx_watchlist (pi_setup i)) (Some (sx_regime (pi_setup i))) (sx_minutes_to_close (pi_setup i)) (pi_outcome_pnls i)"
  have "?why p = None" if p: "p \<in> set (cd_symbol_actions d')" for p
  proof -
    from p st obtain q where q: "?why q = None" "p = stamp_entry (views_of (pi_views i)) q"
      by (auto simp: reconcile_actions stamp_cio_entry_attribution_def drop_is_filter)
    have "pl_symbol p = pl_symbol q" "pl_action p = pl_action q" "pl_stop_loss p = pl_stop_loss q"
      using q(2) by (simp_all add: stamp_entry_def stamp_plan_def)
    then show ?thesis using q(1) unfolding entry_dropped_def Let_def by (simp only:)
  qed
  moreover have "cd_portfolio_action d' \<in> {PA_SCALE_IN, PA_BUY, PA_STRONG_BUY} \<longrightarrow> entering_of d' \<noteq> []"
    using st by (simp add: reconcile_nameless_entry_def entering_of_def)
  ultimately show ?thesis unfolding entry_dropped_None plan_key_def book_proposes_def by blast
qed

definition sample_exit_position :: position_snapshot where
  "sample_exit_position =
     \<lparr>pn_symbol = ''bhp'', pn_quantity = 10, pn_market_value = 400, pn_cost_basis = 420, pn_unrealized_pnl = - 20, pn_sector = ''Materials'',
      pn_weight_pct = 4, pn_venue = ''ASX'', pn_currency = None, pn_con_id = None, pn_opened_at = None\<rparr>"

definition sample_setup :: setup_input where
  "sample_setup = \<lparr>sx_watchlist = [(''BHP'', ''short'')], sx_regime = MR_RISK_ON, sx_max_position_pct = 10, sx_allowlist = [], sx_minutes_to_close = None\<rparr>"

definition sample_pipeline :: pipeline_input where
  "sample_pipeline =
     \<lparr>pi_now = 0, pi_views = [sample_view\<lparr>qv_trend_state := TR_DOWN\<rparr>], pi_portfolio = [sample_exit_position], pi_cash_pct = 50,
      pi_min_cash_pct = 10, pi_prices = [], pi_atrs = [], pi_risk_ok = True, pi_aggressive = True, pi_outcome_pnls = [], pi_setup = sample_setup\<rparr>"

definition sample_cio :: CIODecision where
  "sample_cio =
     \<lparr>cd_decision_id = ''d'', cd_timestamp = 0, cd_market_regime = MR_RISK_ON, cd_portfolio_action = PA_HOLD, cd_symbol_actions = [],
      cd_cash_target_pct = 50, cd_hedge_required = False, cd_risk_approval = True, cd_risk_conditions = [],
      cd_reason_not_to_trade = None, cd_hard_veto_honored = True\<rparr>"

lemma sample_pipeline_facts:
  "weights_ok (pi_portfolio sample_pipeline)" "views_ok (pi_views sample_pipeline)" "is_held sample_exit_position"
  "upper (pn_symbol sample_exit_position) = ''BHP''"
  "dget (views_of (pi_views sample_pipeline)) ''BHP'' = Some (sample_view\<lparr>qv_trend_state := TR_DOWN\<rparr>)"
  "horizon_for_symbol ''BHP'' [(''BHP'', ''short'')] = ''short''"
proof -
  have u: "upper ''bhp'' = ''BHP''" "upper ''BHP'' = ''BHP''" "lower (strip ''short'') = ''short''" by code_simp+
  show "weights_ok (pi_portfolio sample_pipeline)" by (simp add: weights_ok_def sample_pipeline_def sample_exit_position_def)
  show "views_ok (pi_views sample_pipeline)" by (simp add: views_ok_def sample_pipeline_def sample_view_def)
  have "fl (1 / 10 ^ 9) < 10" by code_simp
  then show "is_held sample_exit_position" by (simp add: is_held_def sample_exit_position_def)
  show "upper (pn_symbol sample_exit_position) = ''BHP''" by (simp add: sample_exit_position_def u)
  show "dget (views_of (pi_views sample_pipeline)) ''BHP'' = Some (sample_view\<lparr>qv_trend_state := TR_DOWN\<rparr>)"
    by (simp add: views_of_def sample_pipeline_def sample_view_def u)
  show "horizon_for_symbol ''BHP'' [(''BHP'', ''short'')] = ''short''" by (simp add: horizon_for_symbol_def watchlist_horizon_def u)
qed

lemma sample_exit: "exit_of_position now ''short'' (sample_view\<lparr>qv_trend_state := TR_DOWN\<rparr>) pos = BX_SELL"
  by (simp add: exit_of_position_def exit_action_def short_book PLAYBOOKS_def sample_view_def is_down_def split: prod.split)

theorem book_exits_reach_decision_witness:
  "\<exists>d' p. finish_decision sample_pipeline sample_cio = Inr d'
    \<and> filter (\<lambda>p. plan_key p = ''BHP'') (cd_symbol_actions d') = [p] \<and> pl_action p \<in> {SA_SELL, SA_PARTIAL_SELL, SA_REDUCE}"
proof -
  have "sample_exit_position \<in> set (pi_portfolio sample_pipeline)" "sx_watchlist (pi_setup sample_pipeline) = [(''BHP'', ''short'')]"
    "distinct (plan_keys sample_cio)"
    by (simp_all add: sample_pipeline_def sample_setup_def plan_keys_def sample_cio_def)
  then have mem: "sample_exit_position \<in> set (pi_portfolio sample_pipeline)" and one: "distinct (plan_keys sample_cio)"
    and ex: "exit_of_position (pi_now sample_pipeline)
        (horizon_for_symbol (upper (pn_symbol sample_exit_position)) (sx_watchlist (pi_setup sample_pipeline)))
        (sample_view\<lparr>qv_trend_state := TR_DOWN\<rparr>) sample_exit_position \<noteq> BX_HOLD"
    by (simp_all add: sample_pipeline_facts sample_exit)
  from finish_returns[OF sample_pipeline_facts(1,2)] obtain d' where d': "finish_decision sample_pipeline sample_cio = Inr d'" by blast
  from book_exits_reach_decision[OF mem sample_pipeline_facts(3) _ ex, of sample_cio] sample_pipeline_facts(4,5) d' one
  have "\<exists>p. filter (\<lambda>p. plan_key p = ''BHP'') (cd_symbol_actions d') = [p] \<and> pl_action p \<in> {SA_SELL, SA_PARTIAL_SELL, SA_REDUCE}"
    by simp
  then show ?thesis using d' by blast
qed

text \<open>Two entries: one on a rising name with a view, one on a name without a view that carries its own stop.\<close>

definition sample_buy_plan :: "string \<Rightarrow> SymbolActionPlan" where
  "sample_buy_plan sy = (sample_plan SA_BUY sy)\<lparr>pl_target_position_pct := 5, pl_stop_loss := Some 38\<rparr>"

definition sample_entry_pipeline :: pipeline_input where
  "sample_entry_pipeline = sample_pipeline\<lparr>pi_views := [sample_view], pi_portfolio := [], pi_aggressive := False\<rparr>"

definition sample_entry_cio :: CIODecision where
  "sample_entry_cio = sample_cio\<lparr>cd_portfolio_action := PA_BUY, cd_symbol_actions := [sample_buy_plan ''bhp'', sample_buy_plan ''rio'']\<rparr>"

lemma plain_stages:
  assumes "filter is_held (pi_portfolio i) = []" "\<not> pi_aggressive i"
  shows "\<exists>d'. finish_decision i d = Inr d' \<and> cd_symbol_actions d' =
    map (stamp_entry (views_of (pi_views i)))
      (filter (\<lambda>p. entry_dropped (views_of (pi_views i)) (sx_watchlist (pi_setup i)) (Some (sx_regime (pi_setup i)))
                     (sx_minutes_to_close (pi_setup i)) (pi_outcome_pnls i) p = None)
        (map (enrich_plan (by_upper (\<lambda>v. v \<noteq> 0) (pi_prices i)) (by_upper (\<lambda>v. 0 < v) (pi_atrs i)) (views_of (pi_views i))
                (policy_by_symbol (watch_rows (sx_watchlist (pi_setup i)))))
          (cd_symbol_actions (align_cio_playbook_exits (pi_views i) (sx_watchlist (pi_setup i)) []
             (align_cio_horizons (sx_watchlist (pi_setup i)) d)))))"
  using assms by (simp add: finish_decision_def Let_def ensure_playbook_exits_def ensure_cio_takes_setups_def reconcile_actions
      stamp_cio_entry_attribution_def drop_is_filter enrich_cio_entry_stops_def)

lemma sample_entries_kept:
  "map plan_key (filter (\<lambda>p. pl_action p \<in> set BOOK_ENTRY_ACTIONS)
    (map (stamp_entry (views_of [sample_view]))
      (filter (\<lambda>p. entry_dropped (views_of [sample_view]) [(''BHP'', ''short'')] (Some MR_RISK_ON) None [] p = None)
        (map (enrich_plan [] [] (views_of [sample_view]) (policy_by_symbol (watch_rows [(''BHP'', ''short'')])))
          (cd_symbol_actions (align_cio_playbook_exits [sample_view] [(''BHP'', ''short'')] []
             (align_cio_horizons [(''BHP'', ''short'')] sample_entry_cio))))))) = [''BHP'', ''RIO'']"
  by code_simp

lemma sample_entries:
  "\<exists>d'. finish_decision sample_entry_pipeline sample_entry_cio = Inr d'
    \<and> map plan_key (filter (\<lambda>p. pl_action p \<in> set BOOK_ENTRY_ACTIONS) (cd_symbol_actions d')) = [''BHP'', ''RIO'']"
proof -
  have "pi_views sample_entry_pipeline = [sample_view]" "sx_watchlist (pi_setup sample_entry_pipeline) = [(''BHP'', ''short'')]"
    "sx_regime (pi_setup sample_entry_pipeline) = MR_RISK_ON" "sx_minutes_to_close (pi_setup sample_entry_pipeline) = None"
    "pi_outcome_pnls sample_entry_pipeline = []" "by_upper (\<lambda>v. v \<noteq> 0) (pi_prices sample_entry_pipeline) = []"
    "by_upper (\<lambda>v. 0 < v) (pi_atrs sample_entry_pipeline) = []" "filter is_held (pi_portfolio sample_entry_pipeline) = []"
    "\<not> pi_aggressive sample_entry_pipeline"
    by (simp_all add: sample_entry_pipeline_def sample_pipeline_def sample_setup_def by_upper_def)
  then show ?thesis using plain_stages[of sample_entry_pipeline sample_entry_cio] sample_entries_kept by auto
qed

theorem final_entries_pass_book_witness:
  "\<exists>d' p q. finish_decision sample_entry_pipeline sample_entry_cio = Inr d' \<and> p \<in> set (cd_symbol_actions d') \<and> q \<in> set (cd_symbol_actions d')
    \<and> plan_key p = ''BHP'' \<and> pl_action p \<in> set BOOK_ENTRY_ACTIONS \<and> book_proposes sample_setup ''short'' sample_view
    \<and> plan_key q = ''RIO'' \<and> pl_action q \<in> set BOOK_ENTRY_ACTIONS \<and> pl_stop_loss q \<noteq> None"
proof -
  have u: "upper ''bhp'' = ''BHP''" "horizon_for_symbol ''BHP'' [(''BHP'', ''short'')] = ''short''"
    by (code_simp, rule sample_pipeline_facts)
  have views: "dget (views_of (pi_views sample_entry_pipeline)) ''BHP'' = Some sample_view"
    "dget (views_of (pi_views sample_entry_pipeline)) ''RIO'' = None"
    by (simp_all add: sample_entry_pipeline_def sample_pipeline_def views_of_def sample_view_def u)
  have stp: "pi_setup sample_entry_pipeline = sample_setup" "sx_watchlist sample_setup = [(''BHP'', ''short'')]"
    by (simp_all add: sample_entry_pipeline_def sample_pipeline_def sample_setup_def)
  obtain d' where d': "finish_decision sample_entry_pipeline sample_entry_cio = Inr d'"
    and k: "map plan_key (filter (\<lambda>p. pl_action p \<in> set BOOK_ENTRY_ACTIONS) (cd_symbol_actions d')) = [''BHP'', ''RIO'']"
    by (rule exE[OF sample_entries]) (erule conjE, rule that)
  from k obtain p q where pq: "filter (\<lambda>p. pl_action p \<in> set BOOK_ENTRY_ACTIONS) (cd_symbol_actions d') = [p, q]"
    "plan_key p = ''BHP''" "plan_key q = ''RIO''" by (auto simp: map_eq_Cons_conv)
  then have "p \<in> set (filter (\<lambda>p. pl_action p \<in> set BOOK_ENTRY_ACTIONS) (cd_symbol_actions d'))"
    "q \<in> set (filter (\<lambda>p. pl_action p \<in> set BOOK_ENTRY_ACTIONS) (cd_symbol_actions d'))" by simp_all
  then have mem: "p \<in> set (cd_symbol_actions d')" "pl_action p \<in> set BOOK_ENTRY_ACTIONS" "q \<in> set (cd_symbol_actions d')"
    "pl_action q \<in> set BOOK_ENTRY_ACTIONS" by simp_all
  note all = final_entries_pass_book[OF d', THEN conjunct1]
  have "book_proposes sample_setup ''short'' sample_view"
    using bspec[OF all mem(1)] mem(2) pq(2) views(1) stp u(2) by simp
  moreover have "pl_stop_loss q \<noteq> None" using bspec[OF all mem(3)] mem(4) pq(3) views(2) by simp
  ultimately show ?thesis using d' mem pq(2,3) by blast
qed

lemma sample_room: "cash_room_of 50 10 sample_cio = 40"
proof -
  have "fround 2 (fsub (max 0 (fround 2 (fsub 50 10))) 0) = 40" by code_simp
  then show ?thesis by (simp add: cash_room_of_def deployable_cash_pct_def entering_of_def sample_cio_def)
qed

theorem setups_within_limits_witness:
  "\<exists>d' extras. ensure_cio_takes_setups sample_setup [sample_view] [] True True 50 10 sample_cio = Inr d'
    \<and> cd_symbol_actions d' = extras \<and> total_pct extras \<le> 40 + 6 / 1000 * of_nat (length extras)"
proof -
  have "views_ok [sample_view]" by (simp add: views_ok_def sample_view_def)
  then obtain d' where d': "ensure_cio_takes_setups sample_setup [sample_view] [] True True 50 10 sample_cio = Inr d'"
    using setups_return by blast
  show ?thesis using setups_within_limits[OF d'] d' sample_room by (auto simp: sample_cio_def)
qed

section \<open>The rule-based decision\<close>

datatype RiskVerdict = RV_APPROVED | RV_CONDITIONAL | RV_SIZE_REDUCED | RV_REJECTED | RV_HALT_DAY

record cio_input =
  ci_as_of :: int
  ci_views :: "SymbolQuantView list"
  ci_regime :: MarketRegime
  ci_overall_verdict :: RiskVerdict
  ci_halt_new_trades :: bool
  ci_hard_vetoes :: "string list"
  ci_portfolio_cash_pct :: rat
  ci_positions :: "position_snapshot list"
  ci_allowlist :: "string list"
  ci_watchlist :: "(string \<times> string) list"

definition risk_ok_of :: "cio_input \<Rightarrow> bool" where
  "risk_ok_of c \<longleftrightarrow> ci_overall_verdict c \<in> {RV_APPROVED, RV_CONDITIONAL, RV_SIZE_REDUCED} \<and> \<not> ci_halt_new_trades c"

definition scoped_positions :: "cio_input \<Rightarrow> position_snapshot list" where
  "scoped_positions c =
     (let scoped = map upper (filter (\<lambda>s. s \<noteq> []) (ci_allowlist c)) @ map (\<lambda>r. upper (fst r)) (filter (\<lambda>r. fst r \<noteq> []) (ci_watchlist c))
      in if scoped = [] then ci_positions c else filter (\<lambda>p. upper (pn_symbol p) \<in> set scoped) (ci_positions c))"

definition plan_of_position ::
  "position_snapshot \<Rightarrow> SymbolAction \<Rightarrow> string \<Rightarrow> TimeHorizon \<Rightarrow> rat \<Rightarrow> rat option \<Rightarrow> int \<Rightarrow> SymbolActionPlan py" where
  "plan_of_position pos action thesis horizon target stop confidence =
     check_plan
       \<lparr>pl_symbol = upper (pn_symbol pos), pl_action = action, pl_confidence = confidence, pl_target_position_pct = target,
        pl_order_type = (if action = SA_SELL then OT_MARKET else OT_LIMIT), pl_entry_zone = None, pl_stop_loss = stop, pl_take_profit = [],
        pl_time_horizon = horizon, pl_thesis = thesis,
        pl_invalidation = (case stop of None \<Rightarrow> ''n/a'' | Some s \<Rightarrow> ''Stop '' @ str_float s), pl_max_holding_time_minutes = None,
        pl_entry_timing = None, pl_entry_source = None, pl_trend_at_entry = None\<rparr>"

definition close_thesis :: string where
  "close_thesis = ''Fallback CIO: risk blocked '' @ EM_DASH @ '' flatten existing positions''"

definition close_plan :: "string \<Rightarrow> position_snapshot \<Rightarrow> SymbolActionPlan py" where
  "close_plan thesis pos = plan_of_position pos SA_SELL thesis TH_INTRADAY 0 None 65"

definition fallback_plan :: "int \<Rightarrow> cio_input \<Rightarrow> position_snapshot \<Rightarrow> SymbolActionPlan py" where
  "fallback_plan now c pos =
     (let sy = upper (pn_symbol pos); hz = horizon_for_symbol sy (ci_watchlist c); weight = \<bar>pn_weight_pct pos\<bar>
      in case (playbook_for (Some hz), dget (views_of (ci_views c)) sy) of
           (Some book, Some view) \<Rightarrow>
             (let decision = exit_of_position now hz view pos; action = symbol_action_for_exit decision
              in plan_of_position pos action
                   (pb_label_ko book @ '': '' @ bx_value decision @ '' on '' @ tr_value (qv_trend_state view) @ ''/'' @ mo_value (qv_momentum_state view))
                   (policy_time_horizon (Some hz))
                   (case decision of BX_SELL \<Rightarrow> 0 | BX_REDUCE \<Rightarrow> fmul weight (1 / 2) | BX_HOLD \<Rightarrow> weight)
                   (if action \<noteq> SA_HOLD then qv_stop_or_invalidation view else None)
                   (trunc_int (fmul (qv_probability_estimate view) 100)))
         | (book, _) \<Rightarrow>
             plan_of_position pos SA_HOLD ((case book of Some b \<Rightarrow> pb_label_ko b | None \<Rightarrow> hz) @ '': maintain existing (no book tape)'')
               (policy_time_horizon (Some hz)) weight None 55)"

fun collect :: "('a \<Rightarrow> 'b py) \<Rightarrow> 'a list \<Rightarrow> 'b list py" where
  "collect f [] = Inr []"
| "collect f (x # xs) = py_bind (f x) (\<lambda>y. py_bind (collect f xs) (\<lambda>ys. Inr (y # ys)))"

definition check_decision :: "CIODecision \<Rightarrow> CIODecision py" where
  "check_decision d =
     (if cd_cash_target_pct d < 0 \<or> 100 < cd_cash_target_pct d then Inl (ValueError ''cash_target_pct'') else honor_risk_veto d)"

definition fallback_output :: "string \<Rightarrow> int \<Rightarrow> rat \<Rightarrow> cio_input \<Rightarrow> CIODecision py" where
  "fallback_output decision_id now min_cash_pct c =
     (let risk_ok = risk_ok_of c; d =
        \<lparr>cd_decision_id = decision_id, cd_timestamp = now, cd_market_regime = ci_regime c, cd_portfolio_action = PA_STAY_CASH,
         cd_symbol_actions = [], cd_cash_target_pct = 100, cd_hedge_required = ci_regime c \<in> {MR_RISK_OFF, MR_STRONG_RISK_OFF},
         cd_risk_approval = risk_ok, cd_risk_conditions = ci_hard_vetoes c,
         cd_reason_not_to_trade = Some (''Risk blocked '' @ EM_DASH @ '' no new entries''), cd_hard_veto_honored = True\<rparr>
      in if \<not> risk_ok
         then py_bind (collect (close_plan close_thesis) (filter (\<lambda>p. pn_quantity p \<noteq> 0) (scoped_positions c)))
                (\<lambda>plans. check_decision (d\<lparr>cd_symbol_actions := plans\<rparr>))
         else py_bind (collect (fallback_plan now c) (filter (\<lambda>p. \<not> \<bar>pn_quantity p\<bar> < fl (1 / 10 ^ 9)) (scoped_positions c)))
                (\<lambda>plans. check_decision
                   (d\<lparr>cd_symbol_actions := plans,
                      cd_portfolio_action := (if plans = [] then PA_NO_TRADE else portfolio_action_from_symbol_actions plans),
                      cd_reason_not_to_trade :=
                        (if plans = [] then Some ''No actionable book setup (scalp/day/short)''
                         else if \<not> list_ex (\<lambda>p. pl_action p \<in> {SA_BUY, SA_STRONG_BUY, SA_SCALE_IN}) plans
                                 \<and> \<not> list_ex (\<lambda>p. pl_action p \<in> {SA_SELL, SA_REDUCE, SA_PARTIAL_SELL}) plans
                         then Some ''No actionable quant entry zone'' else None),
                      cd_cash_target_pct := cash_target_after_plans (ci_portfolio_cash_pct c) min_cash_pct plans\<rparr>)))"

lemma collect_all:
  assumes "\<And>x. x \<in> set xs \<Longrightarrow> \<exists>y. f x = Inr y \<and> P x y"
  shows "\<exists>ys. collect f xs = Inr ys \<and> list_all2 P xs ys"
  using assms
proof (induction xs)
  case (Cons x xs)
  from Cons.prems[of x] obtain y where "f x = Inr y" "P x y" by auto
  moreover from Cons obtain ys where "collect f xs = Inr ys" "list_all2 P xs ys" by auto
  ultimately show ?case by auto
qed simp

definition plan_does :: "SymbolAction \<Rightarrow> position_snapshot \<Rightarrow> SymbolActionPlan \<Rightarrow> bool" where
  "plan_does a pos p \<longleftrightarrow> pl_symbol p = upper (pn_symbol pos) \<and> pl_action p = a"

text \<open>The action of the rule-based decision for a position.\<close>

definition fallback_action :: "int \<Rightarrow> cio_input \<Rightarrow> position_snapshot \<Rightarrow> SymbolAction" where
  "fallback_action now c pos =
     (let sy = upper (pn_symbol pos); hz = horizon_for_symbol sy (ci_watchlist c)
      in case (playbook_for (Some hz), dget (views_of (ci_views c)) sy) of
           (Some book, Some view) \<Rightarrow> symbol_action_for_exit (exit_of_position now hz view pos)
         | _ \<Rightarrow> SA_HOLD)"

lemma plan_of_position_returns:
  assumes "action \<in> {SA_SELL, SA_REDUCE, SA_HOLD}" "0 \<le> target" "target \<le> 100" "0 \<le> confidence" "confidence \<le> 100"
  shows "\<exists>p. plan_of_position pos action thesis h target stop confidence = Inr p \<and> plan_does action pos p"
  using assms by (auto simp: plan_of_position_def check_plan_def require_exit_for_entries_def plan_does_def)

lemma views_of_mem:
  assumes "dget (views_of vs) sy = Some v"
  shows "v \<in> set vs"
proof -
  have "dget (foldl (\<lambda>d v. dset d (upper (qv_symbol v)) v) e vs') sy = Some v \<Longrightarrow> v \<in> set vs' \<or> dget e sy = Some v"
    for e and vs' :: "SymbolQuantView list"
  proof (induction vs' arbitrary: e)
    case (Cons w vs')
    from Cons.IH[of "dset e (upper (qv_symbol w)) w"] Cons.prems show ?case by (auto split: if_splits)
  qed simp
  from this[of "[]" "filter (\<lambda>v. qv_symbol v \<noteq> []) vs"] assms show ?thesis by (auto simp: views_of_def)
qed

lemma fallback_plan_returns:
  assumes "\<bar>pn_weight_pct pos\<bar> \<le> 100" "views_ok (ci_views c)"
  shows "\<exists>p. fallback_plan now c pos = Inr p \<and> plan_does (fallback_action now c pos) pos p"
proof -
  let ?sy = "upper (pn_symbol pos)"
  let ?hz = "horizon_for_symbol ?sy (ci_watchlist c)"
  have h: "0 \<le> fmul \<bar>pn_weight_pct pos\<bar> (1 / 2)" "fmul \<bar>pn_weight_pct pos\<bar> (1 / 2) \<le> 100"
    using assms(1) fl_mono[of "\<bar>pn_weight_pct pos\<bar> * (1 / 2)" 100] by (simp_all add: fmul_def fl_nonneg)
  show ?thesis
  proof (cases "playbook_for (Some ?hz) = None \<or> dget (views_of (ci_views c)) ?sy = None")
    case True
    then show ?thesis using plan_of_position_returns[of SA_HOLD "\<bar>pn_weight_pct pos\<bar>" 55 pos] assms(1)
      by (auto simp: fallback_plan_def fallback_action_def Let_def split: option.split)
  next
    case False
    then obtain book v where v: "playbook_for (Some ?hz) = Some book" "dget (views_of (ci_views c)) ?sy = Some v" by auto
    then have "0 \<le> qv_probability_estimate v" "qv_probability_estimate v \<le> 1"
      using views_of_mem assms(2) by (auto simp: views_ok_def list_all_iff)
    note r = confidence_range[OF this]
    have a: "fallback_action now c pos = symbol_action_for_exit (exit_of_position now ?hz v pos)"
      using v by (simp add: fallback_action_def Let_def)
    show ?thesis unfolding a
      using v r h assms(1) by (cases "exit_of_position now ?hz v pos") (simp_all add: fallback_plan_def Let_def plan_of_position_returns)
  qed
qed

lemma list_all2_actions:
  assumes "list_all2 (\<lambda>x p. plan_does (a x) x p) xs ps" "\<And>x. x \<in> set xs \<Longrightarrow> a x \<notin> set BOOK_ENTRY_ACTIONS"
  shows "list_all (\<lambda>p. pl_action p \<notin> set BOOK_ENTRY_ACTIONS) ps"
  using assms
proof (induction xs arbitrary: ps rule: list.induct)
  case (Cons x xs)
  then show ?case by (cases ps) (auto simp: plan_does_def)
qed simp

lemma no_entries_deployed:
  "list_all (\<lambda>p. pl_action p \<notin> set BOOK_ENTRY_ACTIONS) ps \<Longrightarrow> cash_target_after_plans cash m ps = fround 2 (max m (min 100 (fsub cash 0)))"
proof -
  assume n: "list_all (\<lambda>p. pl_action p \<notin> set BOOK_ENTRY_ACTIONS) ps"
  have "foldl (\<lambda>a p. if pl_action p \<in> set BOOK_ENTRY_ACTIONS then fadd a (pl_target_position_pct p) else a) z ps = z" for z
    using n by (induction ps arbitrary: z) auto
  then show ?thesis by (simp add: cash_target_after_plans_def)
qed

lemma check_decision_returns:
  assumes "0 \<le> cd_cash_target_pct d" "cd_cash_target_pct d \<le> 100" "list_all (\<lambda>p. pl_action p \<notin> set BOOK_ENTRY_ACTIONS) (cd_symbol_actions d)"
    "cd_portfolio_action d \<notin> {PA_STRONG_BUY, PA_BUY, PA_SCALE_IN, PA_HEDGE}"
  shows "check_decision d = Inr d"
proof -
  have "find (\<lambda>p. pl_action p \<in> {SA_STRONG_BUY, SA_BUY, SA_SCALE_IN}) (cd_symbol_actions d) = None"
    using assms(3) by (auto simp: find_None_iff list_all_iff BOOK_ENTRY_ACTIONS_def)
  then show ?thesis using assms(1,2,4) by (simp add: check_decision_def honor_risk_veto_def)
qed

lemma portfolio_no_entry:
  assumes "list_all (\<lambda>p. pl_action p \<notin> set BOOK_ENTRY_ACTIONS) ps"
  shows "portfolio_action_from_symbol_actions ps \<in> {PA_REDUCE, PA_HOLD, PA_NO_TRADE}"
proof -
  have "sa_value a \<notin> {''BUY'', ''STRONG_BUY'', ''SCALE_IN'', ''ADD''}" if "a \<notin> set BOOK_ENTRY_ACTIONS" for a
    using that by (cases a) (simp_all add: BOOK_ENTRY_ACTIONS_def)
  then have "\<not> list_ex (\<lambda>v. v \<in> {''BUY'', ''STRONG_BUY'', ''SCALE_IN'', ''ADD''}) (map (\<lambda>p. sa_value (pl_action p)) ps)"
    using assms by (auto simp: list_ex_iff list_all_iff)
  then show ?thesis by (simp add: portfolio_action_from_symbol_actions_def Let_def)
qed

text \<open>Whatever a fallback returns does what its position asks for; no bound on the inputs is needed for that.\<close>

lemma plan_of_position_does: "plan_of_position pos a th h t st cf = Inr p \<Longrightarrow> plan_does a pos p"
  by (auto simp: plan_of_position_def check_plan_def require_exit_for_entries_def plan_does_def split: if_splits)

lemma fallback_plan_does: "fallback_plan now c pos = Inr p \<Longrightarrow> plan_does (fallback_action now c pos) pos p"
  by (auto simp: fallback_plan_def fallback_action_def Let_def plan_of_position_does split: option.splits)

lemma collect_Inr: "collect f xs = Inr ys \<Longrightarrow> list_all2 (\<lambda>x y. f x = Inr y) xs ys"
  by (induction xs arbitrary: ys) (auto simp: py_bind_Inr_iff)

lemma collect_does:
  assumes "collect f xs = Inr ys" "\<And>x y. f x = Inr y \<Longrightarrow> P x y"
  shows "list_all2 P xs ys"
  by (rule list_all2_mono[OF collect_Inr[OF assms(1)] assms(2)])

lemma check_decision_same: "check_decision d = Inr d' \<Longrightarrow> d' = d"
  by (auto simp: check_decision_def honor_risk_veto_def split: if_splits option.splits)

lemma fallback_action_exits: "fallback_action now c p \<in> {SA_SELL, SA_REDUCE, SA_HOLD}"
proof -
  have "symbol_action_for_exit e \<in> {SA_SELL, SA_REDUCE, SA_HOLD}" for e by (cases e) simp_all
  then show ?thesis by (simp add: fallback_action_def Let_def split: option.split)
qed

lemma fallback_content:
  assumes "fallback_output did now min_cash_pct c = Inr d"
  shows "entering_of d = [] \<and> cd_risk_approval d = risk_ok_of c
    \<and> (if risk_ok_of c
       then list_all2 (\<lambda>pos p. plan_does (fallback_action now c pos) pos p)
              (filter (\<lambda>p. \<not> \<bar>pn_quantity p\<bar> < fl (1 / 10 ^ 9)) (scoped_positions c)) (cd_symbol_actions d)
       else cd_portfolio_action d = PA_STAY_CASH
            \<and> list_all2 (plan_does SA_SELL) (filter (\<lambda>p. pn_quantity p \<noteq> 0) (scoped_positions c)) (cd_symbol_actions d))"
proof -
  have none: "entering_of d = []"
    if "list_all2 (\<lambda>x p. plan_does (a x) x p) xs (cd_symbol_actions d)" "\<And>x. a x \<notin> set BOOK_ENTRY_ACTIONS" for a xs
    using list_all2_actions[OF that] by (auto simp: entering_of_def filter_empty_conv list_all_iff)
  show ?thesis
  proof (cases "risk_ok_of c")
    case False
    then obtain plans d0 where pl: "collect (close_plan close_thesis) (filter (\<lambda>p. pn_quantity p \<noteq> 0) (scoped_positions c)) = Inr plans"
      and d: "check_decision d0 = Inr d" "cd_symbol_actions d0 = plans" "cd_portfolio_action d0 = PA_STAY_CASH" "\<not> cd_risk_approval d0"
      using assms by (auto simp: fallback_output_def Let_def py_bind_Inr_iff)
    have l: "list_all2 (plan_does SA_SELL) (filter (\<lambda>p. pn_quantity p \<noteq> 0) (scoped_positions c)) (cd_symbol_actions d)"
      unfolding check_decision_same[OF d(1)] d(2) by (rule collect_does[OF pl]) (simp add: close_plan_def plan_of_position_does)
    then show ?thesis using False none[of "\<lambda>_. SA_SELL"] d(3,4) check_decision_same[OF d(1)] by (simp add: BOOK_ENTRY_ACTIONS_def)
  next
    case True
    then obtain plans d0 where pl: "collect (fallback_plan now c) (filter (\<lambda>p. \<not> \<bar>pn_quantity p\<bar> < fl (1 / 10 ^ 9)) (scoped_positions c)) = Inr plans"
      and d: "check_decision d0 = Inr d" "cd_symbol_actions d0 = plans" "cd_risk_approval d0"
      using assms by (auto simp: fallback_output_def Let_def py_bind_Inr_iff)
    have l: "list_all2 (\<lambda>pos p. plan_does (fallback_action now c pos) pos p)
        (filter (\<lambda>p. \<not> \<bar>pn_quantity p\<bar> < fl (1 / 10 ^ 9)) (scoped_positions c)) (cd_symbol_actions d)"
      unfolding check_decision_same[OF d(1)] d(2) by (rule collect_does[OF pl]) (rule fallback_plan_does)
    have "fallback_action now c p \<notin> set BOOK_ENTRY_ACTIONS" for p using fallback_action_exits[of now c p] by (auto simp: BOOK_ENTRY_ACTIONS_def)
    then show ?thesis using True none[OF l] l d(3) check_decision_same[OF d(1)] by simp
  qed
qed

lemma fallback_returns:
  assumes "risk_ok_of c \<Longrightarrow> list_all (\<lambda>p. \<bar>pn_weight_pct p\<bar> \<le> 100) (scoped_positions c) \<and> views_ok (ci_views c) \<and> 0 \<le> min_cash_pct \<and> min_cash_pct \<le> 100"
  shows "\<exists>d. fallback_output did now min_cash_pct c = Inr d"
proof (cases "risk_ok_of c")
  case False
  let ?ps = "filter (\<lambda>p. pn_quantity p \<noteq> 0) (scoped_positions c)"
  have "\<exists>y. close_plan close_thesis p = Inr y \<and> plan_does SA_SELL p y" for p
    unfolding close_plan_def by (rule plan_of_position_returns) simp_all
  from collect_all[of ?ps "close_plan close_thesis", OF this] obtain plans where
    pl: "collect (close_plan close_thesis) ?ps = Inr plans" "list_all2 (plan_does SA_SELL) ?ps plans" by blast
  have ne: "list_all (\<lambda>p. pl_action p \<notin> set BOOK_ENTRY_ACTIONS) plans"
    using list_all2_actions[of "\<lambda>_. SA_SELL" ?ps plans] pl(2) by (simp add: BOOK_ENTRY_ACTIONS_def)
  then show ?thesis using False pl
    by (auto simp: fallback_output_def Let_def check_decision_returns entering_of_def filter_empty_conv list_all_iff)
next
  case True
  let ?ps = "filter (\<lambda>p. \<not> \<bar>pn_quantity p\<bar> < fl (1 / 10 ^ 9)) (scoped_positions c)"
  note bounds = assms[OF True]
  have fb: "\<exists>y. fallback_plan now c p = Inr y \<and> plan_does (fallback_action now c p) p y" if "p \<in> set ?ps" for p
    using that bounds by (intro fallback_plan_returns) (auto simp: list_all_iff)
  from collect_all[of ?ps "fallback_plan now c" "\<lambda>pos p. plan_does (fallback_action now c pos) pos p", OF fb] obtain plans where
    pl: "collect (fallback_plan now c) ?ps = Inr plans" "list_all2 (\<lambda>pos p. plan_does (fallback_action now c pos) pos p) ?ps plans" by blast
  have ne: "list_all (\<lambda>p. pl_action p \<notin> set BOOK_ENTRY_ACTIONS) plans"
  proof (rule list_all2_actions[OF pl(2)])
    show "fallback_action now c p \<notin> set BOOK_ENTRY_ACTIONS" for p using fallback_action_exits[of now c p] by (auto simp: BOOK_ENTRY_ACTIONS_def)
  qed
  have hundred: "fround 2 100 = 100" using fround2_of_int[of 100] by simp
  have cash: "0 \<le> cash_target_after_plans (ci_portfolio_cash_pct c) min_cash_pct plans" "cash_target_after_plans (ci_portfolio_cash_pct c) min_cash_pct plans \<le> 100"
    unfolding no_entries_deployed[OF ne]
    using bounds fround_nonneg[of "max min_cash_pct (min 100 (fsub (ci_portfolio_cash_pct c) 0))" 2]
      fround_mono[of "max min_cash_pct (min 100 (fsub (ci_portfolio_cash_pct c) 0))" 100 2] hundred by (simp_all add: le_max_iff_disj)
  have pa: "(if plans = [] then PA_NO_TRADE else portfolio_action_from_symbol_actions plans) \<notin> {PA_STRONG_BUY, PA_BUY, PA_SCALE_IN, PA_HEDGE}"
    using portfolio_no_entry[OF ne] by auto
  show ?thesis using True pl ne cash pa
    by (auto simp: fallback_output_def Let_def check_decision_returns entering_of_def filter_empty_conv list_all_iff)
qed

text \<open>
  Property C28.  Without the language model the desk only holds and exits.  The rule-based decision contains no entry; when risk is
  blocked it stays in cash and sells every position in scope, otherwise every position in scope gets one plan, in order, with
  the action its book's exit rule gives, or hold where there is no book or no quant view.  When risk is blocked the decision always
  exists; otherwise it does when no position in scope weighs more than a hundred percent, the probabilities are within their
  schema bound and the cash minimum is a percentage.
\<close>

theorem fallback_only_exits:
  shows "(\<forall>d. fallback_output did now min_cash_pct c = Inr d \<longrightarrow>
      entering_of d = [] \<and> cd_risk_approval d = risk_ok_of c
      \<and> (if risk_ok_of c
         then list_all2 (\<lambda>pos p. pl_symbol p = upper (pn_symbol pos) \<and> pl_action p = fallback_action now c pos)
                (filter (\<lambda>p. \<not> \<bar>pn_quantity p\<bar> < fl (1 / 10 ^ 9)) (scoped_positions c)) (cd_symbol_actions d)
         else cd_portfolio_action d = PA_STAY_CASH
              \<and> list_all2 (\<lambda>pos p. pl_symbol p = upper (pn_symbol pos) \<and> pl_action p = SA_SELL)
                  (filter (\<lambda>p. pn_quantity p \<noteq> 0) (scoped_positions c)) (cd_symbol_actions d)))
    \<and> ((risk_ok_of c \<longrightarrow> (\<forall>p \<in> set (scoped_positions c). \<bar>pn_weight_pct p\<bar> \<le> 100) \<and> 0 \<le> min_cash_pct \<and> min_cash_pct \<le> 100
          \<and> (\<forall>v \<in> set (ci_views c). 0 \<le> qv_probability_estimate v \<and> qv_probability_estimate v \<le> 1)) \<longrightarrow>
       (\<exists>d. fallback_output did now min_cash_pct c = Inr d))"
proof (intro conjI allI impI)
  fix d assume "fallback_output did now min_cash_pct c = Inr d"
  note content = fallback_content[OF this, unfolded plan_does_def]
  from content show "entering_of d = []" "cd_risk_approval d = risk_ok_of c" by blast+
  from content show "if risk_ok_of c
         then list_all2 (\<lambda>pos p. pl_symbol p = upper (pn_symbol pos) \<and> pl_action p = fallback_action now c pos)
                (filter (\<lambda>p. \<not> \<bar>pn_quantity p\<bar> < fl (1 / 10 ^ 9)) (scoped_positions c)) (cd_symbol_actions d)
         else cd_portfolio_action d = PA_STAY_CASH
              \<and> list_all2 (\<lambda>pos p. pl_symbol p = upper (pn_symbol pos) \<and> pl_action p = SA_SELL)
                  (filter (\<lambda>p. pn_quantity p \<noteq> 0) (scoped_positions c)) (cd_symbol_actions d)" by blast
next
  assume "risk_ok_of c \<longrightarrow> (\<forall>p \<in> set (scoped_positions c). \<bar>pn_weight_pct p\<bar> \<le> 100) \<and> 0 \<le> min_cash_pct \<and> min_cash_pct \<le> 100
          \<and> (\<forall>v \<in> set (ci_views c). 0 \<le> qv_probability_estimate v \<and> qv_probability_estimate v \<le> 1)"
  then show "\<exists>d. fallback_output did now min_cash_pct c = Inr d"
    by (intro fallback_returns) (simp add: views_ok_def list_all_iff)
qed

definition sample_cio_input :: cio_input where
  "sample_cio_input =
     \<lparr>ci_as_of = 0, ci_views = [sample_view\<lparr>qv_trend_state := TR_DOWN\<rparr>], ci_regime = MR_NEUTRAL, ci_overall_verdict = RV_APPROVED,
      ci_halt_new_trades = False, ci_hard_vetoes = [], ci_portfolio_cash_pct = 50, ci_positions = [sample_exit_position], ci_allowlist = [],
      ci_watchlist = []\<rparr>"

theorem fallback_only_exits_witness:
  "(\<exists>d. fallback_output ''d'' 0 10 sample_cio_input = Inr d \<and> entering_of d = [] \<and> cd_risk_approval d)
   \<and> (\<exists>d. fallback_output ''d'' 0 10 (sample_cio_input\<lparr>ci_overall_verdict := RV_HALT_DAY\<rparr>) = Inr d
        \<and> cd_portfolio_action d = PA_STAY_CASH \<and> map pl_action (cd_symbol_actions d) = [SA_SELL])"
proof -
  let ?blocked = "sample_cio_input\<lparr>ci_overall_verdict := RV_HALT_DAY\<rparr>"
  have held: "scoped_positions sample_cio_input = [sample_exit_position]" "scoped_positions ?blocked = [sample_exit_position]"
    by (simp_all add: scoped_positions_def sample_cio_input_def)
  have r: "risk_ok_of sample_cio_input" "\<not> risk_ok_of ?blocked" by (simp_all add: sample_cio_input_def risk_ok_of_def)
  have "\<exists>d. fallback_output ''d'' 0 10 sample_cio_input = Inr d"
    using fallback_only_exits[of "''d''" 0 10 sample_cio_input] held
    by (simp add: sample_exit_position_def sample_cio_input_def sample_view_def)
  moreover have "\<exists>d. fallback_output ''d'' 0 10 ?blocked = Inr d"
    using fallback_only_exits[of "''d''" 0 10 ?blocked] r by simp
  moreover have "map pl_action (cd_symbol_actions d) = [SA_SELL] \<and> cd_portfolio_action d = PA_STAY_CASH"
    if "fallback_output ''d'' 0 10 ?blocked = Inr d" for d
    using fallback_only_exits[of "''d''" 0 10 ?blocked] that r(2) held(2)
    by (auto simp: sample_exit_position_def list_all2_Cons1)
  ultimately show ?thesis using fallback_only_exits[of "''d''" 0 10 sample_cio_input] r(1) by blast
qed

end
