(* ===== verification/Position_Monitor.thy ===== *)
theory Position_Monitor
  imports Decision_Pipeline
begin

text \<open>
  The intraday watch over open positions: \<open>intraday/monitor.py\<close> (the evaluation of a life cycle against a quote, its snapshot, the
  remembered extremes and the stops and targets stamped from the books), \<open>intraday/exits.py\<close> (stops, targets, invalidation),
  \<open>intraday/risk.py\<close> (the dynamic risk check) and \<open>intraday/modes.py\<close>.  The code runs in one database session: its state is the life
  cycle under watch, the event bus and the rows added, and a step that raises keeps what it wrote.  The watchlist and the latest market
  snapshots are read only, as lists of the columns in use.
\<close>

section \<open>State and steps that may raise\<close>

record PositionSnapshotRecord =
  sr_id :: string
  sr_position_lifecycle_id :: string
  sr_symbol :: string
  sr_quantity :: rat
  sr_market_value :: rat
  sr_average_entry_price :: "rat option"
  sr_current_price :: rat
  sr_unrealized_pl :: rat
  sr_unrealized_pl_pct :: rat
  sr_realized_pl :: rat
  sr_portfolio_weight_pct :: rat
  sr_stop_price :: "rat option"
  sr_distance_to_stop_pct :: "rat option"
  sr_take_profit_state :: "string option"
  sr_holding_minutes :: "rat option"
  sr_data_quality :: rat
  sr_as_of :: int

record PositionRiskReview =
  prr_id :: string
  prr_position_lifecycle_id :: string
  prr_status :: string
  prr_reasons :: "string list"

record StopEvent =
  sev_position_lifecycle_id :: string
  sev_kind :: string
  sev_status :: string
  sev_stop_price :: rat
  sev_trigger_price :: rat
  sev_reasons :: "string list"

record TakeProfitEvent =
  tpe_position_lifecycle_id :: string
  tpe_target_index :: int
  tpe_target_price :: rat
  tpe_quantity :: rat
  tpe_fraction :: rat

record monitor_state =
  ms_lc :: PositionLifecycle
  ms_bus :: event_bus
  ms_snapshots :: "PositionSnapshotRecord list"
  ms_reviews :: "PositionRiskReview list"
  ms_stop_events :: "StopEvent list"
  ms_tp_events :: "TakeProfitEvent list"
  ms_minted :: nat

type_synonym 'a monitored = "monitor_state \<Rightarrow> 'a py \<times> monitor_state"

definition m_return :: "'a \<Rightarrow> 'a monitored" where
  "m_return x s = (Inr x, s)"

definition m_raise :: "py_error \<Rightarrow> 'a monitored" where
  "m_raise e s = (Inl e, s)"

definition m_bind :: "'a monitored \<Rightarrow> ('a \<Rightarrow> 'b monitored) \<Rightarrow> 'b monitored" where
  "m_bind m f s = (case m s of (Inl e, s') \<Rightarrow> (Inl e, s') | (Inr x, s') \<Rightarrow> f x s')"

definition m_when :: "bool \<Rightarrow> unit monitored \<Rightarrow> unit monitored" where
  "m_when c m = (if c then m else m_return ())"

definition m_update :: "(PositionLifecycle \<Rightarrow> PositionLifecycle) \<Rightarrow> unit monitored" where
  "m_update f s = (Inr (), s\<lparr>ms_lc := f (ms_lc s)\<rparr>)"

definition m_publish :: "settings \<Rightarrow> (nat \<Rightarrow> string) \<Rightarrow> int \<Rightarrow> publish_request \<Rightarrow> unit monitored" where
  "m_publish cfg uuid now r s =
     (case publish cfg uuid now r (ms_bus s) of
        (Inl e, b) \<Rightarrow> (Inl e, s\<lparr>ms_bus := b\<rparr>)
      | (Inr _, b) \<Rightarrow> (Inr (), s\<lparr>ms_bus := b\<rparr>))"

section \<open>Verdicts\<close>

definition HEALTHY :: string where "HEALTHY = ''HEALTHY''"
definition WATCH :: string where "WATCH = ''WATCH''"
definition RISK_REVIEW_REQUIRED :: string where "RISK_REVIEW_REQUIRED = ''RISK_REVIEW_REQUIRED''"
definition EXIT_INTENT_REQUIRED :: string where "EXIT_INTENT_REQUIRED = ''EXIT_INTENT_REQUIRED''"
definition RECONCILIATION_REQUIRED :: string where "RECONCILIATION_REQUIRED = ''RECONCILIATION_REQUIRED''"
definition EMERGENCY_ACTION_REQUIRED :: string where "EMERGENCY_ACTION_REQUIRED = ''EMERGENCY_ACTION_REQUIRED''"

record MonitorResult =
  mr_verdict :: string
  mr_symbol :: string
  mr_reasons :: "string list"
  mr_snapshot_id :: string

text \<open>A finding: its reason is noted, and the verdict becomes the given one where the present verdict may be replaced.\<close>

definition flag :: "bool \<Rightarrow> (string \<Rightarrow> bool) \<Rightarrow> string \<Rightarrow> string \<Rightarrow> string \<times> string list \<Rightarrow> string \<times> string list" where
  "flag c may v r = (\<lambda>(verdict, reasons). if c then (if may verdict then v else verdict, reasons @ [r]) else (verdict, reasons))"

definition anyone :: "string \<Rightarrow> bool" where "anyone v = True"

definition not_emergency :: "string \<Rightarrow> bool" where "not_emergency v \<longleftrightarrow> v \<noteq> EMERGENCY_ACTION_REQUIRED"

definition if_healthy :: "string \<Rightarrow> bool" where "if_healthy v \<longleftrightarrow> v = HEALTHY"

record monitor_input =
  mi_current_price :: "rat option"
  mi_quote_age_seconds :: "rat option"
  mi_spread_bps :: "rat option"
  mi_halted :: bool
  mi_broker_qty :: "rat option"
  mi_equity :: rat
  mi_daily_pnl_pct :: rat
  mi_drawdown_pct :: rat

definition entry_of :: "PositionLifecycle \<Rightarrow> rat" where
  "entry_of lc = or_float (lc_average_entry_price lc) 0"

definition mark_of :: "monitor_input \<Rightarrow> PositionLifecycle \<Rightarrow> rat option" where
  "mark_of i lc = usable_mark [mi_current_price i, lc_current_price lc, Some (entry_of lc)]"

definition price_of :: "monitor_input \<Rightarrow> PositionLifecycle \<Rightarrow> rat" where
  "price_of i lc = (case mark_of i lc of Some m \<Rightarrow> m | None \<Rightarrow> 0)"

definition quote_stale :: "settings \<Rightarrow> rat option \<Rightarrow> bool" where
  "quote_stale cfg age \<longleftrightarrow> (case age of Some a \<Rightarrow> of_int (cfg_latest_quote_max_age_seconds cfg * 20) < a | None \<Rightarrow> False)"

definition above_bound :: "rat option \<Rightarrow> rat \<Rightarrow> bool" where
  "above_bound x b \<longleftrightarrow> (case x of Some v \<Rightarrow> b < v | None \<Rightarrow> False)"

definition quote_checks :: "settings \<Rightarrow> monitor_input \<Rightarrow> PositionLifecycle \<Rightarrow> string \<times> string list" where
  "quote_checks cfg i lc =
     flag (lc_reconciliation_required lc) anyone RECONCILIATION_REQUIRED ''flagged_reconciliation''
     (flag (case mi_broker_qty i of Some q \<Rightarrow> fl (1 / 10 ^ 6) < \<bar>fsub q (lc_quantity lc)\<bar> | None \<Rightarrow> False)
        anyone RECONCILIATION_REQUIRED ''broker_qty_drift''
     (flag (above_bound (mi_spread_bps i) (cfg_max_order_spread_bps cfg)) anyone WATCH ''spread_wide''
     (flag (quote_stale cfg (mi_quote_age_seconds i)) anyone RISK_REVIEW_REQUIRED ''stale_quote''
     (flag (mi_halted i) anyone RISK_REVIEW_REQUIRED ''trading_halt''
     (flag (mark_of i lc = None) not_emergency RISK_REVIEW_REQUIRED ''mark_unusable''
     (flag (mi_current_price i \<noteq> None \<and> usable_mark [mi_current_price i] = None) anyone WATCH ''mark_rejected''
        (HEALTHY, [])))))))"

definition long_side :: "PositionLifecycle \<Rightarrow> bool" where
  "long_side lc \<longleftrightarrow> 0 \<le> lc_quantity lc"

text \<open>Whether a price is at the level or beyond it, against the position and with it.\<close>

definition against :: "bool \<Rightarrow> rat \<Rightarrow> rat \<Rightarrow> bool" where
  "against long price level \<longleftrightarrow> (if long then price \<le> level else level \<le> price)"

definition stop_hit :: "PositionLifecycle \<Rightarrow> rat \<Rightarrow> bool" where
  "stop_hit lc price \<longleftrightarrow>
     (case lc_stop_price lc of Some st \<Rightarrow> 0 < price \<and> lc_quantity lc \<noteq> 0 \<and> against (long_side lc) price st | None \<Rightarrow> False)"

definition stop_near :: "PositionLifecycle \<Rightarrow> rat \<Rightarrow> bool" where
  "stop_near lc price \<longleftrightarrow>
     (case lc_stop_price lc of
        Some st \<Rightarrow> 0 < price \<and> lc_quantity lc \<noteq> 0 \<and> \<not> against (long_side lc) price st \<and> fmul (fdiv \<bar>fsub price st\<bar> price) 100 < 1
      | None \<Rightarrow> False)"

definition target_hit :: "PositionLifecycle \<Rightarrow> rat \<Rightarrow> bool" where
  "target_hit lc price \<longleftrightarrow>
     (case lc_take_profit_price lc of
        Some tp \<Rightarrow> lc_quantity lc \<noteq> 0 \<and> (if long_side lc then tp \<le> price else 0 < price \<and> price \<le> tp)
      | None \<Rightarrow> False)"

section \<open>Events of the monitor\<close>

definition minute_key :: "int \<Rightarrow> string" where
  "minute_key now =
     (case ord2ymd (ord_of now) of
        (y, m, d) \<Rightarrow> digits4 y @ digits2 m @ digits2 d @ digits2 ((now mod DAY_US) div (3600 * 10 ^ 6))
                      @ digits2 ((now mod DAY_US) div (60 * 10 ^ 6) mod 60))"

definition day_stamp :: "int \<Rightarrow> string" where
  "day_stamp now = date_iso (ord2ymd (ord_of now))"

definition num_or_null :: "rat option \<Rightarrow> payload" where
  "num_or_null x = (case x of Some v \<Rightarrow> PNum v | None \<Rightarrow> PNull)"

definition lifecycle_venue :: "PositionLifecycle \<Rightarrow> string" where
  "lifecycle_venue lc = or_str (Some (lc_venue lc)) ''US''"

definition monitor_event :: "string \<Rightarrow> string \<Rightarrow> PositionLifecycle \<Rightarrow> string \<Rightarrow> bool \<Rightarrow> (string \<times> payload) list \<Rightarrow> publish_request" where
  "monitor_event type0 key lc importance bypass payload =
     \<lparr>pub_event_type = type0, pub_source = ''position_monitor'', pub_symbols = Some [lc_symbol lc], pub_importance = importance,
      pub_deduplication_key = key, pub_requires_analysis = False, pub_requires_risk_review = False, pub_requires_execution_review = True,
      pub_payload = Some payload, pub_workflow_run_id = None, pub_decision_id = None, pub_intent_id = None, pub_order_id = None,
      pub_position_id = Some (lc_id lc), pub_source_event_id = None, pub_bypass_cooldown = bypass\<rparr>"

definition stop_event :: "int \<Rightarrow> PositionLifecycle \<Rightarrow> rat \<Rightarrow> publish_request" where
  "stop_event now lc price =
     monitor_event ''STOP_TRIGGERED'' (''stop:'' @ lc_id lc @ '':'' @ minute_key now) lc ''critical'' True
       [(''stop'', num_or_null (lc_stop_price lc)), (''price'', PNum price), (''venue'', PStr (lifecycle_venue lc))]"

definition target_event :: "int \<Rightarrow> PositionLifecycle \<Rightarrow> rat \<Rightarrow> publish_request" where
  "target_event now lc price =
     monitor_event ''TAKE_PROFIT_TRIGGERED'' (''tp:'' @ lc_id lc @ '':'' @ minute_key now) lc ''high'' False
       [(''take_profit'', num_or_null (lc_take_profit_price lc)), (''price'', PNum price), (''venue'', PStr (lifecycle_venue lc))]"

definition giveback_event :: "int \<Rightarrow> PositionLifecycle \<Rightarrow> rat \<Rightarrow> rat \<Rightarrow> rat \<Rightarrow> publish_request" where
  "giveback_event now lc best lock price =
     monitor_event ''TAKE_PROFIT_TRIGGERED'' (''giveback:'' @ lc_id lc @ '':'' @ day_stamp now) lc ''high'' True
       [(''best'', PNum best), (''lock'', PNum lock), (''entry'', PNum (entry_of lc)), (''price'', PNum price), (''venue'', PStr (lifecycle_venue lc))]"

definition holding_event :: "int \<Rightarrow> PositionLifecycle \<Rightarrow> rat \<Rightarrow> bool \<Rightarrow> publish_request" where
  "holding_event now lc held hard_exit =
     (monitor_event ''MAX_HOLDING_TIME_REACHED'' (''hold:'' @ lc_id lc @ '':'' @ day_stamp now) lc
        (if hard_exit then ''high'' else ''medium'') hard_exit
        [(''held_minutes'', PNum (fround 1 held)),
         (''max_holding_minutes'', case lc_max_holding_minutes lc of Some m \<Rightarrow> PInt m | None \<Rightarrow> PNull),
         (''horizon'', PStr (pay_text (dget (lc_exit_policy lc) ''horizon''))), (''flatten'', PBool hard_exit), (''venue'', PStr (lifecycle_venue lc))])
     \<lparr>pub_requires_analysis := \<not> hard_exit, pub_requires_risk_review := \<not> hard_exit, pub_requires_execution_review := hard_exit\<rparr>"

section \<open>Remembered extremes\<close>

definition policy_get :: "(string \<times> payload) list \<Rightarrow> string \<Rightarrow> payload option" where
  "policy_get d k = (case dget d k of Some PNull \<Rightarrow> None | x \<Rightarrow> x)"

definition snapshot_prices :: "string \<Rightarrow> PositionSnapshotRecord list \<Rightarrow> rat list" where
  "snapshot_prices lid snaps = map sr_current_price (filter (\<lambda>s. sr_position_lifecycle_id s = lid) snaps)"

definition fold_extreme :: "(rat \<Rightarrow> rat \<Rightarrow> rat) \<Rightarrow> rat list \<Rightarrow> rat option" where
  "fold_extreme f xs = (case xs of [] \<Rightarrow> None | y # ys \<Rightarrow> Some (foldl f y ys))"

definition keep_policy :: "string \<Rightarrow> rat \<Rightarrow> unit monitored" where
  "keep_policy k v = m_update (\<lambda>lc. lc\<lparr>lc_exit_policy := dset (lc_exit_policy lc) k (PNum v)\<rparr>)"

definition remember_peak :: "rat \<Rightarrow> rat option monitored" where
  "remember_peak price s =
     (let lc = ms_lc s; cached = policy_get (lc_exit_policy lc) ''peak_price'';
          peak = (case cached of
                    Some c \<Rightarrow> (case to_float c of Inr x \<Rightarrow> max price x | Inl _ \<Rightarrow> price)
                  | None \<Rightarrow> (case fold_extreme max (snapshot_prices (lc_id lc) (ms_snapshots s)) of Some h \<Rightarrow> max price h | None \<Rightarrow> price))
      in if peak \<le> 0 then (Inr None, s)
         else case cached of
                None \<Rightarrow> m_bind (keep_policy ''peak_price'' peak) (\<lambda>_. m_return (Some peak)) s
              | Some c \<Rightarrow>
                  (case to_float c of
                     Inl e \<Rightarrow> (Inl e, s)
                   | Inr x \<Rightarrow> m_bind (m_when (x < peak) (keep_policy ''peak_price'' peak)) (\<lambda>_. m_return (Some peak)) s))"

definition remember_trough :: "rat \<Rightarrow> rat option monitored" where
  "remember_trough price s =
     (let lc = ms_lc s; cached = policy_get (lc_exit_policy lc) ''trough_price'';
          trough = (case cached of
                      Some c \<Rightarrow> (case to_float c of Inr x \<Rightarrow> min price x | Inl _ \<Rightarrow> price)
                    | None \<Rightarrow> (case fold_extreme min (snapshot_prices (lc_id lc) (ms_snapshots s)) of
                                Some h \<Rightarrow> if 0 < h then min price h else price | None \<Rightarrow> price))
      in if price \<le> 0 then (Inr None, s)
         else case cached of
                None \<Rightarrow> m_bind (keep_policy ''trough_price'' trough) (\<lambda>_. m_return (Some trough)) s
              | Some c \<Rightarrow>
                  (case to_float c of
                     Inl e \<Rightarrow> (Inl e, s)
                   | Inr x \<Rightarrow> m_bind (m_when (trough < x) (keep_policy ''trough_price'' trough)) (\<lambda>_. m_return (Some trough)) s))"

section \<open>Evaluation of a life cycle\<close>

definition flatten_on_max_holding :: "PositionLifecycle \<Rightarrow> bool" where
  "flatten_on_max_holding lc \<longleftrightarrow>
     (let hz = lower (pay_text (dget (lc_exit_policy lc) ''horizon''))
      in if hz \<in> {''scalp'', ''day''} then True else if hz \<in> {''short'', ''medium''} then False else \<not> lc_overnight_allowed lc)"

definition lock_of :: "PositionLifecycle \<Rightarrow> rat option" where
  "lock_of lc =
     (let hz = pay_text (dget (lc_exit_policy lc) ''horizon'')
      in if 0 < entry_of lc
         then lock_level (entry_of lc) (lc_take_profit_price lc) (if hz = [] then None else Some hz) (long_side lc) else None)"

definition gives_back :: "PositionLifecycle \<Rightarrow> rat option \<Rightarrow> rat \<Rightarrow> rat option \<Rightarrow> rat option \<Rightarrow> bool" where
  "gives_back lc mark0 price best lock \<longleftrightarrow>
     mark0 \<noteq> None \<and> lc_quantity lc \<noteq> 0 \<and> 0 < entry_of lc
     \<and> (case (best, lock) of (Some b, Some l) \<Rightarrow> if long_side lc then l \<le> b else b \<le> l | _ \<Rightarrow> False)
     \<and> (if long_side lc then price < entry_of lc else entry_of lc < price)
     \<and> \<not> target_hit lc price"

definition trails_stop :: "PositionLifecycle \<Rightarrow> rat option \<Rightarrow> rat \<Rightarrow> rat option \<Rightarrow> bool" where
  "trails_stop lc mark0 price lock \<longleftrightarrow>
     mark0 \<noteq> None \<and> lc_quantity lc \<noteq> 0 \<and> 0 < entry_of lc
     \<and> (case lock of Some l \<Rightarrow> (if long_side lc then l \<le> price else price \<le> l) | None \<Rightarrow> False)
     \<and> (case lc_stop_price lc of Some st \<Rightarrow> (if long_side lc then st < entry_of lc else entry_of lc < st) | None \<Rightarrow> False)"

definition breakeven_trail :: "PositionLifecycle \<Rightarrow> PositionLifecycle" where
  "breakeven_trail lc =
     (let st = fround 4 (entry_of lc)
      in lc\<lparr>lc_stop_price := Some st,
            lc_exit_policy := dset (dset (lc_exit_policy lc) ''stop_loss'' (PNum st)) ''stop_source'' (PStr ''breakeven_trail''),
            lc_protection_submitted := False\<rparr>)"

definition held_minutes :: "int \<Rightarrow> PositionLifecycle \<Rightarrow> rat option" where
  "held_minutes now lc = map_option (\<lambda>t. fdiv (fl (of_int (now - as_utc t) / 10 ^ 6)) 60) (lc_opened_at lc)"

definition overdue :: "int \<Rightarrow> PositionLifecycle \<Rightarrow> bool" where
  "overdue now lc \<longleftrightarrow>
     (case (held_minutes now lc, lc_max_holding_minutes lc) of
        (Some held, Some m) \<Rightarrow> m \<noteq> 0 \<and> of_int m \<le> held
      | _ \<Rightarrow> False)"

definition weight_of :: "rat \<Rightarrow> rat \<Rightarrow> rat \<Rightarrow> rat" where
  "weight_of qty price equity = (if equity \<noteq> 0 \<and> price \<noteq> 0 then fmul (fdiv (fmul \<bar>qty\<bar> price) equity) 100 else 0)"

definition snapshot :: "(nat \<Rightarrow> string) \<Rightarrow> int \<Rightarrow> rat \<Rightarrow> rat \<Rightarrow> PositionSnapshotRecord monitored" where
  "snapshot uuid now price equity s =
     (let lc = ms_lc s; qty = lc_quantity lc; entry = entry_of lc; mv = fmul qty price;
          row = \<lparr>sr_id = uuid (ms_minted s), sr_position_lifecycle_id = lc_id lc, sr_symbol = lc_symbol lc, sr_quantity = qty,
                 sr_market_value = mv, sr_average_entry_price = (if entry \<noteq> 0 then Some entry else None), sr_current_price = price,
                 sr_unrealized_pl = (if entry \<noteq> 0 then fmul (fsub price entry) qty else 0),
                 sr_unrealized_pl_pct = (if entry \<noteq> 0 then fmul (fdiv (fsub price entry) entry) 100 else 0),
                 sr_realized_pl = or_float (lc_realized_pl lc) 0,
                 sr_portfolio_weight_pct = (if equity \<noteq> 0 then fmul (fdiv \<bar>mv\<bar> equity) 100 else 0), sr_stop_price = lc_stop_price lc,
                 sr_distance_to_stop_pct = (case lc_stop_price lc of
                                              Some st \<Rightarrow> if 0 < price then Some (fmul (fdiv (fsub price st) price) 100) else None
                                            | None \<Rightarrow> None),
                 sr_take_profit_state = lc_take_profit_state lc, sr_holding_minutes = held_minutes now lc,
                 sr_data_quality = (if 0 < price then 1 else 0), sr_as_of = now\<rparr>
      in (Inr row, s\<lparr>ms_snapshots := ms_snapshots s @ [row], ms_minted := Suc (ms_minted s)\<rparr>))"

text \<open>The verdict after the exit rules and after the portfolio rules; the rules read the life cycle as it was.\<close>

definition exit_checks :: "int \<Rightarrow> PositionLifecycle \<Rightarrow> rat \<Rightarrow> bool \<Rightarrow> string \<times> string list \<Rightarrow> string \<times> string list" where
  "exit_checks now lc price giveback v0 =
     (let v1 = flag (stop_hit lc price) anyone EXIT_INTENT_REQUIRED ''stop_triggered'' v0;
          v2 = flag (stop_near lc price) if_healthy WATCH ''stop_proximity'' v1;
          v3 = flag (target_hit lc price) not_emergency EXIT_INTENT_REQUIRED ''take_profit_triggered'' v2;
          v4 = flag giveback not_emergency EXIT_INTENT_REQUIRED ''giveback_to_loss'' v3
      in if \<not> overdue now lc then v4
         else if flatten_on_max_holding lc then flag True not_emergency EXIT_INTENT_REQUIRED ''max_holding_time'' v4
         else flag True (\<lambda>v. v \<notin> {EMERGENCY_ACTION_REQUIRED, EXIT_INTENT_REQUIRED}) RISK_REVIEW_REQUIRED ''max_holding_review'' v4)"

definition portfolio_flags :: "settings \<Rightarrow> monitor_input \<Rightarrow> PositionLifecycle \<Rightarrow> bool \<Rightarrow> rat \<Rightarrow> string \<times> string list \<Rightarrow> string \<times> string list" where
  "portfolio_flags cfg i lc protected price v0 =
     flag (fmul (cfg_max_position_pct cfg) (fl (11 / 10)) < weight_of (lc_quantity lc) price (mi_equity i))
       if_healthy RISK_REVIEW_REQUIRED ''position_concentration''
     (flag (cfg_max_drawdown_pct cfg \<le> mi_drawdown_pct i) anyone EMERGENCY_ACTION_REQUIRED ''drawdown_limit''
     (flag (mi_daily_pnl_pct i \<le> - cfg_daily_max_loss_pct cfg) anyone EMERGENCY_ACTION_REQUIRED ''daily_loss_limit''
     (flag (\<not> protected \<and> lc_quantity lc \<noteq> 0 \<and> lc_stop_price lc \<noteq> None) if_healthy WATCH ''protection_order_missing'' v0)))"

definition evaluate :: "settings \<Rightarrow> (nat \<Rightarrow> string) \<Rightarrow> int \<Rightarrow> monitor_input \<Rightarrow> MonitorResult monitored" where
  "evaluate cfg uuid now i s =
     (let lc = ms_lc s; mark0 = mark_of i lc; price = price_of i lc; lock = lock_of lc
      in m_bind (m_when (stop_hit lc price) (m_publish cfg uuid now (stop_event now lc price))) (\<lambda>_.
         m_bind (m_when (target_hit lc price) (m_publish cfg uuid now (target_event now lc price))) (\<lambda>_.
         m_bind (remember_peak price) (\<lambda>peak.
         m_bind (remember_trough price) (\<lambda>trough.
         (let best = (if long_side lc then peak else trough); giveback = gives_back lc mark0 price best lock;
              trail = (\<not> giveback \<and> trails_stop lc mark0 price lock)
          in m_bind (m_when giveback (m_publish cfg uuid now (giveback_event now lc (the best) (the lock) price))) (\<lambda>_.
             m_bind (m_when trail (m_update breakeven_trail)) (\<lambda>_.
             m_bind (m_when (overdue now lc)
                       (m_publish cfg uuid now (holding_event now lc (the (held_minutes now lc)) (flatten_on_max_holding lc)))) (\<lambda>_.
             m_bind (snapshot uuid now price (mi_equity i)) (\<lambda>snap.
             (let v = portfolio_flags cfg i lc (lc_protection_submitted lc \<and> \<not> trail) price
                        (exit_checks now lc price giveback (quote_checks cfg i lc))
              in m_bind (m_update (\<lambda>l. (case mark0 of
                                          Some m \<Rightarrow> l\<lparr>lc_current_price := Some m,
                                                      lc_unrealized_pl := Some (if entry_of lc \<noteq> 0 then fmul (fsub m (entry_of lc)) (lc_quantity lc) else 0)\<rparr>
                                        | None \<Rightarrow> l)\<lparr>lc_last_monitor_verdict := Some (fst v)\<rparr>)) (\<lambda>_.
                 m_return \<lparr>mr_verdict = fst v, mr_symbol = lc_symbol lc, mr_reasons = snd v, mr_snapshot_id = sr_id snap\<rparr>)))))))))))
        s)"

section \<open>Stops and targets stamped from the book\<close>

record monitor_reads =
  mo_watchlist :: "(string \<times> string) list"
  mo_atr :: "(string \<times> rat) list"

definition watchlist_row :: "monitor_reads \<Rightarrow> string \<Rightarrow> string option" where
  "watchlist_row rd symbol = dget (mo_watchlist rd) (upper symbol)"

definition latest_atr :: "monitor_reads \<Rightarrow> string \<Rightarrow> rat option" where
  "latest_atr rd symbol = (case dget (mo_atr rd) (upper symbol) of Some a \<Rightarrow> if 0 < a then Some a else None | None \<Rightarrow> None)"

definition book_of :: "monitor_reads \<Rightarrow> string \<Rightarrow> string" where
  "book_of rd symbol = or_str (watchlist_row rd symbol) (horizon_for_symbol symbol [])"

definition stamp_horizon_stop_if_missing :: "monitor_reads \<Rightarrow> PositionLifecycle \<Rightarrow> PositionLifecycle" where
  "stamp_horizon_stop_if_missing rd lc =
     (let ref = or_float (lc_average_entry_price lc) (or_float (lc_current_price lc) 0); hz = book_of rd (lc_symbol lc)
      in if lc_stop_price lc \<noteq> None \<or> ref \<le> 0 then lc
         else case policy_for hz of
                Inl _ \<Rightarrow> lc
              | Inr pol \<Rightarrow>
                  (case suggested_long_stop ref (latest_atr rd (lc_symbol lc)) (Some pol) of
                     None \<Rightarrow> lc
                   | Some st \<Rightarrow>
                       lc\<lparr>lc_stop_price := Some st,
                          lc_exit_policy := dset (dset (dset (lc_exit_policy lc) ''stop_loss'' (PNum st)) ''stop_source'' (PStr ''horizon_policy''))
                                              ''horizon'' (PStr hz)\<rparr>))"

definition stamp_horizon_take_profit_if_missing :: "monitor_reads \<Rightarrow> PositionLifecycle \<Rightarrow> PositionLifecycle" where
  "stamp_horizon_take_profit_if_missing rd lc =
     (let ref = entry_of lc; hz = book_of rd (lc_symbol lc)
      in if lc_take_profit_price lc \<noteq> None \<or> ref \<le> 0 then lc
         else case playbook_take_profit ref (Some hz) True of
                None \<Rightarrow> lc
              | Some tp \<Rightarrow>
                  lc\<lparr>lc_take_profit_price := Some tp,
                     lc_exit_policy := dset (dset (lc_exit_policy lc) ''take_profit'' (PNum tp)) ''horizon'' (PStr hz)\<rparr>)"

section \<open>Exit policy engine\<close>

datatype StopKind = FIXED_PRICE | PERCENTAGE | ATR_BASED | TIME_BASED

fun sk_value :: "StopKind \<Rightarrow> string" where
  "sk_value FIXED_PRICE = ''FIXED_PRICE''"
| "sk_value PERCENTAGE = ''PERCENTAGE''"
| "sk_value ATR_BASED = ''ATR_BASED''"
| "sk_value TIME_BASED = ''TIME_BASED''"

definition compute_stop_price :: "StopKind \<Rightarrow> rat \<Rightarrow> string \<Rightarrow> rat option \<Rightarrow> rat option \<Rightarrow> rat option \<Rightarrow> rat \<Rightarrow> rat option" where
  "compute_stop_price kind entry side fixed pct atr atr_mult =
     (if kind = FIXED_PRICE then fixed
      else case (kind, pct, atr) of
             (PERCENTAGE, Some p, _) \<Rightarrow> Some (fmul entry ((if side = ''long'' then fsub else fadd) 1 (fdiv p 100)))
           | (ATR_BASED, _, Some a) \<Rightarrow> Some ((if side = ''long'' then fsub else fadd) entry (fmul a atr_mult))
           | _ \<Rightarrow> fixed)"

definition adjust_stop :: "settings \<Rightarrow> rat \<Rightarrow> rat \<Rightarrow> string \<Rightarrow> rat" where
  "adjust_stop cfg current_stop proposed_stop side =
     (if side = ''long''
      then if proposed_stop < current_stop \<and> \<not> cfg_allow_stop_widening cfg then current_stop
           else if current_stop < proposed_stop \<and> cfg_allow_stop_tightening cfg then proposed_stop
           else if proposed_stop < current_stop \<and> cfg_allow_stop_widening cfg then proposed_stop
           else current_stop
      else if current_stop < proposed_stop \<and> \<not> cfg_allow_stop_widening cfg then current_stop
      else if proposed_stop < current_stop \<and> cfg_allow_stop_tightening cfg then proposed_stop
      else current_stop)"

record StopCheckResult =
  sc_triggered :: bool
  sc_kind :: string
  sc_stop_price :: "rat option"
  sc_status :: string
  sc_reasons :: "string list"

definition check_stop :: "rat \<Rightarrow> bool \<Rightarrow> StopKind \<Rightarrow> StopCheckResult monitored" where
  "check_stop price stale kind s =
     (let lc = ms_lc s
      in case lc_stop_price lc of
           None \<Rightarrow> (Inr \<lparr>sc_triggered = False, sc_kind = sk_value kind, sc_stop_price = None, sc_status = ''ACTIVE'', sc_reasons = [''no_stop'']\<rparr>, s)
         | Some st \<Rightarrow>
             (let reasons = (if stale then [''stale_quote_conservative''] else []);
                  trigger_price = (if stale then fmul st (fl (995 / 1000)) else st);
                  triggered = (price \<le> trigger_price \<and> 0 < lc_quantity lc);
                  status = (if triggered then ''TRIGGERED'' else ''ACTIVE'');
                  s' = (if triggered
                        then s\<lparr>ms_stop_events := ms_stop_events s @ [\<lparr>sev_position_lifecycle_id = lc_id lc, sev_kind = sk_value kind,
                                  sev_status = status, sev_stop_price = st, sev_trigger_price = price, sev_reasons = reasons\<rparr>],
                               ms_lc := lc\<lparr>lc_stop_status := Some status\<rparr>\<rparr>
                        else s)
              in (Inr \<lparr>sc_triggered = triggered, sc_kind = sk_value kind, sc_stop_price = Some st, sc_status = status, sc_reasons = reasons\<rparr>, s')))"

record TakeProfitCheckResult =
  tc_triggered :: bool
  tc_target_index :: "int option"
  tc_quantity_to_exit :: rat
  tc_reasons :: "string list"

text \<open>The price and the fraction of a target, which is a number or a dictionary.\<close>

fun target_level :: "payload \<Rightarrow> rat py" where
  "target_level (PDict d) = (case dget d ''price'' of Some p \<Rightarrow> to_float p | None \<Rightarrow> Inl (TypeError ''float() argument must be a string or a real number''))"
| "target_level p = to_float p"

fun target_fraction :: "payload \<Rightarrow> rat py" where
  "target_fraction (PDict d) = (case dget d ''fraction'' of Some p \<Rightarrow> to_float p | None \<Rightarrow> Inr (1 / 4))"
| "target_fraction p = Inr (1 / 4)"

definition target_quantity :: "settings \<Rightarrow> rat \<Rightarrow> rat \<Rightarrow> rat" where
  "target_quantity cfg qty fraction =
     (let q = min qty (fmul qty fraction) in if cfg_enable_short_selling cfg then q else fround 6 q)"

fun target_loop :: "settings \<Rightarrow> rat \<Rightarrow> int \<Rightarrow> payload list \<Rightarrow> TakeProfitCheckResult monitored" where
  "target_loop cfg price idx [] s = (Inr \<lparr>tc_triggered = False, tc_target_index = None, tc_quantity_to_exit = 0, tc_reasons = [''no_hit'']\<rparr>, s)"
| "target_loop cfg price idx (t # ts) s =
     (if idx \<in> set (lc_filled_take_profit_indices (ms_lc s)) then target_loop cfg price (idx + 1) ts s
      else case (target_level t, target_fraction t) of
             (Inl e, _) \<Rightarrow> (Inl e, s)
           | (_, Inl e) \<Rightarrow> (Inl e, s)
           | (Inr level, Inr fraction) \<Rightarrow>
               (let q = target_quantity cfg (lc_quantity (ms_lc s)) fraction
                in if \<not> level \<le> price \<or> q \<le> 0 then target_loop cfg price (idx + 1) ts s
                   else (Inr \<lparr>tc_triggered = True, tc_target_index = Some idx, tc_quantity_to_exit = q, tc_reasons = [''target_hit'']\<rparr>,
                         s\<lparr>ms_tp_events := ms_tp_events s @ [\<lparr>tpe_position_lifecycle_id = lc_id (ms_lc s), tpe_target_index = idx,
                              tpe_target_price = level, tpe_quantity = q, tpe_fraction = fraction\<rparr>],
                            ms_lc := (ms_lc s)\<lparr>lc_filled_take_profit_indices := remdups (lc_filled_take_profit_indices (ms_lc s)) @ [idx],
                                               lc_take_profit_state := Some (''target_'' @ str_int idx @ ''_triggered'')\<rparr>\<rparr>)))"

definition check_take_profit :: "settings \<Rightarrow> rat \<Rightarrow> TakeProfitCheckResult monitored" where
  "check_take_profit cfg price s =
     (if lc_take_profit_targets (ms_lc s) = [] \<or> lc_quantity (ms_lc s) \<le> 0
      then (Inr \<lparr>tc_triggered = False, tc_target_index = None, tc_quantity_to_exit = 0, tc_reasons = [''no_targets'']\<rparr>, s)
      else target_loop cfg price 0 (lc_take_profit_targets (ms_lc s)) s)"

definition evaluate_invalidation :: "string \<Rightarrow> bool \<Rightarrow> bool \<Rightarrow> bool \<Rightarrow> string" where
  "evaluate_invalidation thesis_status hard_news regime_break data_unreliable =
     (if data_unreliable then ''UNKNOWN_DUE_TO_DATA''
      else if upper thesis_status = ''INVALIDATED'' \<or> hard_news \<or> regime_break then ''CONFIRMED''
      else if upper thesis_status = ''WEAKENED'' then ''POSSIBLE''
      else ''NOT_TRIGGERED'')"

section \<open>Dynamic risk check\<close>

record risk_input =
  ri_equity :: rat
  ri_daily_pnl_pct :: rat
  ri_drawdown_pct :: rat
  ri_sector_weight_pct :: rat
  ri_quote_age_seconds :: "rat option"
  ri_spread_bps :: "rat option"
  ri_economic_event_imminent :: bool
  ri_overnight_risk :: bool
  ri_broker_drift :: bool
  ri_price :: "rat option"

record DynamicRiskResult =
  drr_status :: string
  drr_reasons :: "string list"
  drr_review_id :: string

definition risk_price :: "risk_input \<Rightarrow> PositionLifecycle \<Rightarrow> rat" where
  "risk_price i lc = or_float (ri_price i) (or_float (lc_current_price lc) (or_float (lc_average_entry_price lc) 0))"

definition is_ok :: "string \<Rightarrow> bool" where "is_ok v \<longleftrightarrow> v = ''RISK_OK''"

definition dynamic_checks :: "settings \<Rightarrow> risk_input \<Rightarrow> PositionLifecycle \<Rightarrow> string \<times> string list" where
  "dynamic_checks cfg i lc =
     (let px = risk_price i lc; weight = weight_of (lc_quantity lc) px (ri_equity i)
      in flag (lc_invalidation_state lc = ''CONFIRMED'') anyone ''EXIT_REQUIRED'' ''invalidation_confirmed''
        (flag (case lc_stop_price lc of Some st \<Rightarrow> st \<noteq> 0 \<and> px \<noteq> 0 \<and> px \<le> st | None \<Rightarrow> False) anyone ''EXIT_REQUIRED'' ''stop_breached''
        (flag (ri_economic_event_imminent i \<or> ri_overnight_risk i) is_ok ''RISK_WARNING'' ''event_or_overnight_risk''
        (flag (above_bound (ri_spread_bps i) (cfg_max_order_spread_bps cfg)) is_ok ''RISK_WARNING'' ''spread''
        (flag (cfg_max_sector_pct cfg < ri_sector_weight_pct i) (\<lambda>v. v \<in> {''RISK_OK'', ''RISK_WARNING''}) ''REDUCE_REQUIRED'' ''sector_concentration''
        (flag (cfg_max_position_pct cfg < weight) is_ok ''REDUCE_REQUIRED'' ''symbol_concentration''
        (flag (cfg_max_drawdown_pct cfg \<le> ri_drawdown_pct i) anyone ''EMERGENCY_STOP_REQUIRED'' ''drawdown_limit''
        (flag (ri_daily_pnl_pct i \<le> - cfg_daily_max_loss_pct cfg) anyone ''EMERGENCY_STOP_REQUIRED'' ''daily_loss_limit''
        (flag (quote_stale cfg (ri_quote_age_seconds i)) anyone ''TRADING_PAUSE_REQUIRED'' ''data_stale''
        (flag (ri_broker_drift i) anyone ''TRADING_PAUSE_REQUIRED'' ''broker_drift'' (''RISK_OK'', [])))))))))))"

definition CRITICAL_RISK :: "string list" where
  "CRITICAL_RISK = [''EXIT_REQUIRED'', ''EMERGENCY_STOP_REQUIRED'', ''TRADING_PAUSE_REQUIRED'']"

definition risk_event :: "int \<Rightarrow> PositionLifecycle \<Rightarrow> string \<Rightarrow> string list \<Rightarrow> publish_request" where
  "risk_event now lc status reasons =
     (monitor_event ''RISK_LIMIT_BREACH'' (''risk:'' @ lc_id lc @ '':'' @ status @ '':'' @ minute_key now) lc ''critical'' True
        [(''status'', PStr status), (''reasons'', PStrs reasons)])
     \<lparr>pub_source := ''dynamic_risk'', pub_requires_risk_review := True, pub_requires_execution_review := False\<rparr>"

definition risk_evaluate :: "settings \<Rightarrow> (nat \<Rightarrow> string) \<Rightarrow> int \<Rightarrow> risk_input \<Rightarrow> DynamicRiskResult monitored" where
  "risk_evaluate cfg uuid now i s =
     (let lc = ms_lc s; (status, reasons) = dynamic_checks cfg i lc;
          review = \<lparr>prr_id = uuid (ms_minted s), prr_position_lifecycle_id = lc_id lc, prr_status = status, prr_reasons = reasons\<rparr>;
          s1 = s\<lparr>ms_reviews := ms_reviews s @ [review], ms_minted := Suc (ms_minted s)\<rparr>
      in m_bind (m_when (status \<in> set CRITICAL_RISK) (m_publish cfg uuid now (risk_event now lc status reasons)))
           (\<lambda>_. m_return \<lparr>drr_status = status, drr_reasons = reasons, drr_review_id = prr_id review\<rparr>) s1)"

section \<open>Operation modes\<close>

datatype IntradayOperationMode =
    OBSERVE_ONLY | ANALYZE_ONLY | MANUAL_APPROVAL | PAPER_AUTOMATED | MODE_PAUSED | MODE_EMERGENCY_STOP

fun im_value :: "IntradayOperationMode \<Rightarrow> string" where
  "im_value OBSERVE_ONLY = ''OBSERVE_ONLY''"
| "im_value ANALYZE_ONLY = ''ANALYZE_ONLY''"
| "im_value MANUAL_APPROVAL = ''MANUAL_APPROVAL''"
| "im_value PAPER_AUTOMATED = ''PAPER_AUTOMATED''"
| "im_value MODE_PAUSED = ''PAUSED''"
| "im_value MODE_EMERGENCY_STOP = ''EMERGENCY_STOP''"

definition MODES :: "IntradayOperationMode list" where
  "MODES = [OBSERVE_ONLY, ANALYZE_ONLY, MANUAL_APPROVAL, PAPER_AUTOMATED, MODE_PAUSED, MODE_EMERGENCY_STOP]"

definition can_collect :: "IntradayOperationMode \<Rightarrow> bool" where
  "can_collect m \<longleftrightarrow> m \<noteq> MODE_EMERGENCY_STOP"

definition can_analyze :: "IntradayOperationMode \<Rightarrow> bool" where
  "can_analyze m \<longleftrightarrow> m \<in> {OBSERVE_ONLY, ANALYZE_ONLY, MANUAL_APPROVAL, PAPER_AUTOMATED}"

definition can_create_intent :: "IntradayOperationMode \<Rightarrow> bool" where
  "can_create_intent m \<longleftrightarrow> m \<in> {ANALYZE_ONLY, MANUAL_APPROVAL, PAPER_AUTOMATED}"

definition can_approve :: "IntradayOperationMode \<Rightarrow> bool" where
  "can_approve m \<longleftrightarrow> m \<in> {MANUAL_APPROVAL, PAPER_AUTOMATED}"

definition can_submit :: "IntradayOperationMode \<Rightarrow> bool" where
  "can_submit m \<longleftrightarrow> m \<in> {MANUAL_APPROVAL, PAPER_AUTOMATED}"

definition intents_are_draft_only :: "IntradayOperationMode \<Rightarrow> bool" where
  "intents_are_draft_only m \<longleftrightarrow> m \<in> {OBSERVE_ONLY, ANALYZE_ONLY}"

definition resolve_mode :: "settings \<Rightarrow> bool \<Rightarrow> bool \<Rightarrow> IntradayOperationMode" where
  "resolve_mode cfg emergency paused =
     (if emergency then MODE_EMERGENCY_STOP
      else if paused then MODE_PAUSED
      else case find (\<lambda>m. im_value m = upper (or_str (Some (cfg_intraday_operation_mode cfg)) ''OBSERVE_ONLY'')) MODES of
             Some m \<Rightarrow> m | None \<Rightarrow> OBSERVE_ONLY)"

section \<open>Running the steps\<close>

lemma usable_mark_pos: "usable_mark xs = Some p \<Longrightarrow> 0 < p"
proof -
  assume a: "usable_mark xs = Some p"
  then have "find is_sane_equity_price xs = Some (Some p)" by (auto simp: usable_mark_def split: option.splits)
  then have "is_sane_equity_price (Some p)" by (auto simp: find_Some_iff)
  then show ?thesis by (simp add: is_sane_equity_price_def)
qed

lemma m_bind_Inr: "m_bind m f s = (Inr y, s') \<longleftrightarrow> (\<exists>x s1. m s = (Inr x, s1) \<and> f x s1 = (Inr y, s'))"
  by (auto simp: m_bind_def split: prod.splits sum.splits)

lemma m_when_Inr: "m_when c m s = (Inr y, s') \<longleftrightarrow> (if c then m s = (Inr y, s') else s' = s)"
  by (auto simp: m_when_def m_return_def)

text \<open>Two life cycles that differ at most in the exit policy.\<close>

definition same_trade :: "PositionLifecycle \<Rightarrow> PositionLifecycle \<Rightarrow> bool" where
  "same_trade l l' \<longleftrightarrow> l' = l\<lparr>lc_exit_policy := lc_exit_policy l'\<rparr>"

lemma same_trade_refl: "same_trade l l"
  by (simp add: same_trade_def)

lemma same_trade_trans: "same_trade l l' \<Longrightarrow> same_trade l' l'' \<Longrightarrow> same_trade l l''"
  by (cases l; cases l'; cases l'') (simp add: same_trade_def)

lemma same_trade_fields:
  "same_trade l l' \<Longrightarrow> lc_stop_price l' = lc_stop_price l \<and> lc_quantity l' = lc_quantity l \<and> lc_average_entry_price l' = lc_average_entry_price l"
  by (cases l; cases l') (simp add: same_trade_def)

lemma publish_keeps: "m_publish cfg uuid now r s = (res, s') \<Longrightarrow> ms_lc s' = ms_lc s \<and> ms_snapshots s' = ms_snapshots s"
  by (auto simp: m_publish_def split: prod.splits sum.splits)

lemma keep_policy_same: "keep_policy k v s = (res, s') \<Longrightarrow> same_trade (ms_lc s) (ms_lc s') \<and> ms_bus s' = ms_bus s"
  by (auto simp: keep_policy_def m_update_def same_trade_def)

lemma remember_same:
  "remember_peak price s = (Inr p, s') \<Longrightarrow> same_trade (ms_lc s) (ms_lc s') \<and> ms_bus s' = ms_bus s"
  "remember_trough price s = (Inr p, s') \<Longrightarrow> same_trade (ms_lc s) (ms_lc s') \<and> ms_bus s' = ms_bus s"
  by (auto simp: remember_peak_def remember_trough_def Let_def m_bind_Inr m_when_Inr m_return_def same_trade_refl dest!: keep_policy_same
      split: if_splits option.splits sum.splits)

lemma when_publish:
  "m_when c (m_publish cfg uuid now r) s = (Inr (), s') \<Longrightarrow>
   ms_lc s' = ms_lc s \<and> (c \<longrightarrow> (\<exists>x. publish cfg uuid now r (ms_bus s) = (Inr x, ms_bus s'))) \<and> (\<not> c \<longrightarrow> s' = s)"
  by (auto simp: m_when_Inr m_publish_def split: if_splits prod.splits sum.splits)

text \<open>What a run of the evaluation that returns has done.\<close>

lemma evaluate_run:
  assumes "evaluate cfg uuid now i s = (Inr r, s')"
  obtains giveback trail s1 where
    "m_when (stop_hit (ms_lc s) (price_of i (ms_lc s))) (m_publish cfg uuid now (stop_event now (ms_lc s) (price_of i (ms_lc s)))) s = (Inr (), s1)"
    "trail \<longrightarrow> trails_stop (ms_lc s) (mark_of i (ms_lc s)) (price_of i (ms_lc s)) (lock_of (ms_lc s))"
    "mr_verdict r = fst (portfolio_flags cfg i (ms_lc s) (lc_protection_submitted (ms_lc s) \<and> \<not> trail) (price_of i (ms_lc s))
                          (exit_checks now (ms_lc s) (price_of i (ms_lc s)) giveback (quote_checks cfg i (ms_lc s))))"
    "mr_reasons r = snd (portfolio_flags cfg i (ms_lc s) (lc_protection_submitted (ms_lc s) \<and> \<not> trail) (price_of i (ms_lc s))
                          (exit_checks now (ms_lc s) (price_of i (ms_lc s)) giveback (quote_checks cfg i (ms_lc s))))"
    "lc_stop_price (ms_lc s') = (if trail then Some (fround 4 (entry_of (ms_lc s))) else lc_stop_price (ms_lc s))"
    "lc_last_monitor_verdict (ms_lc s') = Some (mr_verdict r)"
    "lc_quantity (ms_lc s') = lc_quantity (ms_lc s) \<and> entry_of (ms_lc s') = entry_of (ms_lc s)"
proof -
  let ?lc = "ms_lc s" and ?p = "price_of i (ms_lc s)"
  from assms obtain s1 s2 s3 s4 s5 s6 s7 s8 peak trough snap where
    st: "m_when (stop_hit ?lc ?p) (m_publish cfg uuid now (stop_event now ?lc ?p)) s = (Inr (), s1)"
      "m_when (target_hit ?lc ?p) (m_publish cfg uuid now (target_event now ?lc ?p)) s1 = (Inr (), s2)"
      "remember_peak ?p s2 = (Inr peak, s3)" "remember_trough ?p s3 = (Inr trough, s4)"
      "m_when (gives_back ?lc (mark_of i ?lc) ?p (if long_side ?lc then peak else trough) (lock_of ?lc))
         (m_publish cfg uuid now (giveback_event now ?lc (the (if long_side ?lc then peak else trough)) (the (lock_of ?lc)) ?p)) s4 = (Inr (), s5)"
      "m_when (\<not> gives_back ?lc (mark_of i ?lc) ?p (if long_side ?lc then peak else trough) (lock_of ?lc)
               \<and> trails_stop ?lc (mark_of i ?lc) ?p (lock_of ?lc)) (m_update breakeven_trail) s5 = (Inr (), s6)"
      "m_when (overdue now ?lc) (m_publish cfg uuid now (holding_event now ?lc (the (held_minutes now ?lc)) (flatten_on_max_holding ?lc))) s6 = (Inr (), s7)"
      "snapshot uuid now ?p (mi_equity i) s7 = (Inr snap, s8)"
    and fin: "(let v = portfolio_flags cfg i ?lc (lc_protection_submitted ?lc \<and> \<not> (\<not> gives_back ?lc (mark_of i ?lc) ?p (if long_side ?lc then peak else trough) (lock_of ?lc)
               \<and> trails_stop ?lc (mark_of i ?lc) ?p (lock_of ?lc))) ?p
                        (exit_checks now ?lc ?p (gives_back ?lc (mark_of i ?lc) ?p (if long_side ?lc then peak else trough) (lock_of ?lc)) (quote_checks cfg i ?lc))
              in m_bind (m_update (\<lambda>l. (case mark_of i ?lc of
                                          Some m \<Rightarrow> l\<lparr>lc_current_price := Some m,
                                                      lc_unrealized_pl := Some (if entry_of ?lc \<noteq> 0 then fmul (fsub m (entry_of ?lc)) (lc_quantity ?lc) else 0)\<rparr>
                                        | None \<Rightarrow> l)\<lparr>lc_last_monitor_verdict := Some (fst v)\<rparr>)) (\<lambda>_.
                 m_return \<lparr>mr_verdict = fst v, mr_symbol = lc_symbol ?lc, mr_reasons = snd v, mr_snapshot_id = sr_id snap\<rparr>)) s8 = (Inr r, s')"
    unfolding evaluate_def Let_def m_bind_Inr by auto
  let ?g = "gives_back ?lc (mark_of i ?lc) ?p (if long_side ?lc then peak else trough) (lock_of ?lc)"
  let ?t = "\<not> ?g \<and> trails_stop ?lc (mark_of i ?lc) ?p (lock_of ?lc)"
  have l4: "same_trade ?lc (ms_lc s4)"
    using when_publish[OF st(1)] when_publish[OF st(2)] remember_same(1)[OF st(3)] remember_same(2)[OF st(4)] same_trade_trans by metis
  have l5: "ms_lc s5 = ms_lc s4" using when_publish[OF st(5)] by blast
  have "ms_lc s6 = (if ?t then breakeven_trail (ms_lc s5) else ms_lc s5)" using st(6) by (auto simp: m_when_Inr m_update_def split: if_splits)
  moreover have "ms_lc s7 = ms_lc s6" using when_publish[OF st(7)] by blast
  moreover have "ms_lc s8 = ms_lc s7" using st(8) by (auto simp: snapshot_def Let_def)
  ultimately have l8: "ms_lc s8 = (if ?t then breakeven_trail (ms_lc s4) else ms_lc s4)" using l5 by simp
  have f: "mr_verdict r = fst (portfolio_flags cfg i ?lc (lc_protection_submitted ?lc \<and> \<not> ?t) ?p (exit_checks now ?lc ?p ?g (quote_checks cfg i ?lc)))"
    "mr_reasons r = snd (portfolio_flags cfg i ?lc (lc_protection_submitted ?lc \<and> \<not> ?t) ?p (exit_checks now ?lc ?p ?g (quote_checks cfg i ?lc)))"
    "lc_stop_price (ms_lc s') = lc_stop_price (ms_lc s8)" "lc_last_monitor_verdict (ms_lc s') = Some (mr_verdict r)"
    using fin by (auto simp: Let_def m_bind_Inr m_update_def m_return_def split: option.splits)
  have e: "entry_of (ms_lc s4) = entry_of ?lc" using same_trade_fields[OF l4] by (simp add: entry_of_def)
  have "lc_stop_price (ms_lc s8) = (if ?t then Some (fround 4 (entry_of ?lc)) else lc_stop_price ?lc)"
    using l8 e same_trade_fields[OF l4] by (simp add: breakeven_trail_def Let_def)
  moreover have "lc_quantity (ms_lc s') = lc_quantity (ms_lc s8) \<and> entry_of (ms_lc s') = entry_of (ms_lc s8)"
    using fin by (auto simp: Let_def m_bind_Inr m_update_def m_return_def entry_of_def split: option.splits)
  moreover have "lc_quantity (ms_lc s8) = lc_quantity ?lc \<and> entry_of (ms_lc s8) = entry_of ?lc"
    using l8 same_trade_fields[OF l4] by (simp add: breakeven_trail_def Let_def entry_of_def)
  ultimately show thesis using that[of s1 ?t ?g, OF st(1) _ f(1,2) _ f(4)] f(3) by simp
qed


lemma flag_reasons: "x \<in> set (snd v) \<Longrightarrow> x \<in> set (snd (flag c may w r v))"
  by (cases v) (simp add: flag_def)

lemma flag_sets: "c \<Longrightarrow> may (fst v) \<Longrightarrow> fst (flag c may w r v) = w" "c \<Longrightarrow> r \<in> set (snd (flag c may w r v))"
  by (cases v; simp add: flag_def)+

text \<open>A verdict of exit or emergency is only replaced by one of the two.\<close>

definition acts :: "string \<Rightarrow> bool" where
  "acts v \<longleftrightarrow> v \<in> {EXIT_INTENT_REQUIRED, EMERGENCY_ACTION_REQUIRED}"

lemma verdicts_distinct [simp]:
  "EXIT_INTENT_REQUIRED \<noteq> HEALTHY" "EMERGENCY_ACTION_REQUIRED \<noteq> HEALTHY" "EXIT_INTENT_REQUIRED \<noteq> EMERGENCY_ACTION_REQUIRED"
  by (simp_all add: HEALTHY_def EXIT_INTENT_REQUIRED_def EMERGENCY_ACTION_REQUIRED_def)

lemma acts_flag: "acts (fst v) \<Longrightarrow> acts w \<or> (\<forall>u. acts u \<longrightarrow> \<not> may u) \<Longrightarrow> acts (fst (flag c may w r v))"
  by (cases v) (auto simp: flag_def)

lemma acts_exits: "acts EXIT_INTENT_REQUIRED" "acts EMERGENCY_ACTION_REQUIRED" "acts u \<Longrightarrow> \<not> if_healthy u"
  by (auto simp: acts_def if_healthy_def HEALTHY_def EXIT_INTENT_REQUIRED_def EMERGENCY_ACTION_REQUIRED_def)

lemma exit_checks_acts:
  assumes "stop_hit lc price"
  shows "acts (fst (exit_checks now lc price g v))" "''stop_triggered'' \<in> set (snd (exit_checks now lc price g v))"
proof -
  let ?v1 = "flag (stop_hit lc price) anyone EXIT_INTENT_REQUIRED ''stop_triggered'' v"
  have "acts (fst ?v1)" "''stop_triggered'' \<in> set (snd ?v1)" using assms by (cases v; simp add: flag_def anyone_def acts_exits)+
  then show "acts (fst (exit_checks now lc price g v))" "''stop_triggered'' \<in> set (snd (exit_checks now lc price g v))"
    by (auto simp: exit_checks_def Let_def intro!: acts_flag flag_reasons simp: acts_exits) (auto simp: acts_def)
qed

lemma portfolio_flags_acts:
  "acts (fst v) \<Longrightarrow> acts (fst (portfolio_flags cfg i lc b price v))" "x \<in> set (snd v) \<Longrightarrow> x \<in> set (snd (portfolio_flags cfg i lc b price v))"
  unfolding portfolio_flags_def by (intro acts_flag flag_reasons; simp add: acts_exits)+

text \<open>A published request is on the bus: a new event, or an event with its key seen again.\<close>

lemma publish_known:
  assumes "publish cfg uuid now r b = (Inr x, b')"
  shows "\<exists>e \<in> set (eb_events b'). iev_deduplication_key e = pub_deduplication_key r"
proof (cases "find_duplicate cfg now (pub_deduplication_key r) (eb_events b)")
  case None
  then show ?thesis using assms by (auto simp: publish_def Let_def new_event_def)
next
  case (Some e)
  note m = find_duplicate_mem[OF Some]
  obtain h where h: "b' = put_event ((bump_revision e)\<lparr>iev_payload := dset (iev_payload e) ''dedupe_hits'' (PInt (h + 1))\<rparr>) b"
    using assms Some by (auto simp: publish_def Let_def split: sum.splits)
  let ?e = "(bump_revision e)\<lparr>iev_payload := dset (iev_payload e) ''dedupe_hits'' (PInt (h + 1))\<rparr>"
  have "?e \<in> set (eb_events b')" unfolding h put_event_def using m by (auto simp: bump_revision_def intro!: image_eqI[of _ _ e])
  moreover have "iev_deduplication_key ?e = pub_deduplication_key r" using m by (simp add: bump_revision_def)
  ultimately show ?thesis by blast
qed

section \<open>The evaluation returns\<close>

definition bus_keys :: "event_bus \<Rightarrow> string set" where
  "bus_keys b = iev_deduplication_key ` set (eb_events b)"

definition hits_known :: "(string \<times> payload) list \<Rightarrow> bool" where
  "hits_known d \<longleftrightarrow> (\<exists>n. int_or_zero (dget d ''dedupe_hits'') = Inr n)"

definition bus_fine :: "(nat \<Rightarrow> string) \<Rightarrow> event_bus \<Rightarrow> bool" where
  "bus_fine uuid b \<longleftrightarrow> bus_inv uuid b \<and> (\<forall>e \<in> set (eb_events b). hits_known (iev_payload e))"

definition level_fine :: "(string \<times> payload) list \<Rightarrow> string \<Rightarrow> bool" where
  "level_fine d k \<longleftrightarrow> (case policy_get d k of Some c \<Rightarrow> \<exists>x. to_float c = Inr x | None \<Rightarrow> True)"

definition state_fine :: "(nat \<Rightarrow> string) \<Rightarrow> monitor_state \<Rightarrow> bool" where
  "state_fine uuid s \<longleftrightarrow> bus_fine uuid (ms_bus s) \<and> level_fine (lc_exit_policy (ms_lc s)) ''peak_price''
     \<and> level_fine (lc_exit_policy (ms_lc s)) ''trough_price''"

text \<open>A step that returns from every fine state, leaves it fine and loses no event of the bus.\<close>

definition good :: "(nat \<Rightarrow> string) \<Rightarrow> 'a monitored \<Rightarrow> bool" where
  "good uuid m \<longleftrightarrow>
     (\<forall>s. state_fine uuid s \<longrightarrow>
        (\<exists>x s'. m s = (Inr x, s') \<and> state_fine uuid s' \<and> bus_keys (ms_bus s) \<subseteq> bus_keys (ms_bus s')))"

lemma goodD: "good uuid m \<Longrightarrow> state_fine uuid s \<Longrightarrow>
    \<exists>x s'. m s = (Inr x, s') \<and> state_fine uuid s' \<and> bus_keys (ms_bus s) \<subseteq> bus_keys (ms_bus s')"
  by (simp add: good_def)

lemma good_return: "good uuid (m_return x)"
  by (simp add: good_def m_return_def)

lemma good_bind:
  assumes "good uuid m" "\<And>x. good uuid (f x)"
  shows "good uuid (m_bind m f)"
  unfolding good_def
proof (intro allI impI)
  fix s assume "state_fine uuid s"
  with goodD[OF assms(1)] obtain x s1 where s1: "m s = (Inr x, s1)" "state_fine uuid s1" "bus_keys (ms_bus s) \<subseteq> bus_keys (ms_bus s1)" by blast
  with goodD[OF assms(2)] obtain y s2 where "f x s1 = (Inr y, s2)" "state_fine uuid s2" "bus_keys (ms_bus s1) \<subseteq> bus_keys (ms_bus s2)" by blast
  then show "\<exists>y s'. m_bind m f s = (Inr y, s') \<and> state_fine uuid s' \<and> bus_keys (ms_bus s) \<subseteq> bus_keys (ms_bus s')"
    using s1 by (auto simp: m_bind_def)
qed

lemma good_when: "good uuid m \<Longrightarrow> good uuid (m_when c m)"
  by (simp add: m_when_def good_return)

lemma put_event_keys:
  assumes "distinct (map iev_id (eb_events b))" "e \<in> set (eb_events b)" "iev_id e' = iev_id e" "iev_deduplication_key e' = iev_deduplication_key e"
  shows "bus_keys (put_event e' b) = bus_keys b"
proof -
  have "x = e" if "x \<in> set (eb_events b)" "iev_id x = iev_id e" for x
    using assms(1,2) that by (auto simp: distinct_map inj_on_def)
  then have "iev_deduplication_key (if iev_id x = iev_id e' then e' else x) = iev_deduplication_key x" if "x \<in> set (eb_events b)" for x
    using that assms(3,4) by auto
  then have "map iev_deduplication_key (eb_events (put_event e' b)) = map iev_deduplication_key (eb_events b)" by (simp add: put_event_def)
  then show ?thesis unfolding bus_keys_def set_map[symmetric] by (simp only:)
qed

lemma publish_good:
  assumes "inj uuid" "bus_fine uuid b" "hits_known (case pub_payload r of Some p \<Rightarrow> p | None \<Rightarrow> [])"
  shows "\<exists>x b'. publish cfg uuid now r b = (Inr x, b') \<and> bus_fine uuid b' \<and> bus_keys b \<subseteq> bus_keys b'"
proof (cases "find_duplicate cfg now (pub_deduplication_key r) (eb_events b)")
  case None
  then obtain x b' where p: "publish cfg uuid now r b = (Inr x, b')" "eb_events b' = eb_events b @ [new_event (uuid (eb_minted b)) now r]"
    by (auto simp: publish_def Let_def)
  have "bus_inv uuid b'" using publish_inv[OF assms(1), of b cfg now r] assms(2) p(1) by (simp add: bus_fine_def)
  moreover have "hits_known (iev_payload (new_event (uuid (eb_minted b)) now r))" using assms(3) by (simp add: new_event_def)
  ultimately have "bus_fine uuid b'" using assms(2) p(2) by (auto simp: bus_fine_def)
  moreover have "bus_keys b \<subseteq> bus_keys b'" using p(2) by (auto simp: bus_keys_def)
  ultimately show ?thesis using p(1) by blast
next
  case (Some e)
  note m = find_duplicate_mem[OF Some]
  obtain h where h: "int_or_zero (dget (iev_payload e) ''dedupe_hits'') = Inr h" using assms(2) m by (auto simp: bus_fine_def hits_known_def)
  define e' where "e' = (bump_revision e)\<lparr>iev_payload := dset (iev_payload e) ''dedupe_hits'' (PInt (h + 1))\<rparr>"
  then obtain x where p: "publish cfg uuid now r b = (Inr x, put_event e' b)" using Some h by (simp add: publish_def Let_def)
  have "bus_inv uuid (put_event e' b)" using publish_inv[OF assms(1), of b cfg now r] assms(2) p by (simp add: bus_fine_def)
  moreover have "hits_known (iev_payload e')" by (simp add: e'_def hits_known_def)
  ultimately have "bus_fine uuid (put_event e' b)" using assms(2) by (auto simp: bus_fine_def put_event_def)
  moreover have "bus_keys (put_event e' b) = bus_keys b"
    using assms(2) m by (intro put_event_keys[of b e]) (auto simp: bus_fine_def bus_inv_def e'_def bump_revision_def)
  ultimately show ?thesis using p by blast
qed

lemma good_publish:
  assumes "inj uuid" "hits_known (case pub_payload r of Some p \<Rightarrow> p | None \<Rightarrow> [])"
  shows "good uuid (m_publish cfg uuid now r)"
  unfolding good_def
proof (intro allI impI)
  fix s assume s: "state_fine uuid s"
  with publish_good[OF assms(1) _ assms(2), of "ms_bus s" cfg now] obtain x b' where
    "publish cfg uuid now r (ms_bus s) = (Inr x, b')" "bus_fine uuid b'" "bus_keys (ms_bus s) \<subseteq> bus_keys b'"
    by (auto simp: state_fine_def)
  then show "\<exists>x s'. m_publish cfg uuid now r s = (Inr x, s') \<and> state_fine uuid s' \<and> bus_keys (ms_bus s) \<subseteq> bus_keys (ms_bus s')"
    using s by (auto simp: m_publish_def state_fine_def)
qed

lemma events_hits:
  "hits_known (case pub_payload (stop_event now lc p) of Some d \<Rightarrow> d | None \<Rightarrow> [])"
  "hits_known (case pub_payload (target_event now lc p) of Some d \<Rightarrow> d | None \<Rightarrow> [])"
  "hits_known (case pub_payload (giveback_event now lc b l p) of Some d \<Rightarrow> d | None \<Rightarrow> [])"
  "hits_known (case pub_payload (holding_event now lc h f) of Some d \<Rightarrow> d | None \<Rightarrow> [])"
  by (simp_all add: hits_known_def stop_event_def target_event_def giveback_event_def holding_event_def monitor_event_def)

lemma level_fine_dset: "level_fine d k \<Longrightarrow> level_fine (dset d j (PNum v)) k" "j \<noteq> k \<Longrightarrow> level_fine d k \<Longrightarrow> level_fine (dset d j x) k"
  by (auto simp: level_fine_def policy_get_def)

lemma good_keep: "good uuid (keep_policy k v)"
  by (simp add: good_def keep_policy_def m_update_def state_fine_def level_fine_dset)

lemma good_peak: "good uuid (remember_peak price)"
  unfolding good_def
proof (intro allI impI)
  fix s assume s: "state_fine uuid s"
  have k: "good uuid (m_bind (m_when c (keep_policy ''peak_price'' p)) (\<lambda>_. m_return (Some p)))"
    "good uuid (m_bind (keep_policy ''peak_price'' p) (\<lambda>_. m_return (Some p)))" for c p
    by (intro good_bind good_when good_keep good_return)+
  show "\<exists>x s'. remember_peak price s = (Inr x, s') \<and> state_fine uuid s' \<and> bus_keys (ms_bus s) \<subseteq> bus_keys (ms_bus s')"
  proof (cases "policy_get (lc_exit_policy (ms_lc s)) ''peak_price''")
    case None
    then show ?thesis using goodD[OF k(2) s] s unfolding remember_peak_def Let_def by auto
  next
    case (Some c)
    then obtain x where "to_float c = Inr x" using s by (auto simp: state_fine_def level_fine_def)
    then show ?thesis using Some goodD[OF k(1) s] s unfolding remember_peak_def Let_def by auto
  qed
qed

lemma good_trough: "good uuid (remember_trough price)"
  unfolding good_def
proof (intro allI impI)
  fix s assume s: "state_fine uuid s"
  have k: "good uuid (m_bind (m_when c (keep_policy ''trough_price'' p)) (\<lambda>_. m_return (Some p)))"
    "good uuid (m_bind (keep_policy ''trough_price'' p) (\<lambda>_. m_return (Some p)))" for c p
    by (intro good_bind good_when good_keep good_return)+
  show "\<exists>x s'. remember_trough price s = (Inr x, s') \<and> state_fine uuid s' \<and> bus_keys (ms_bus s) \<subseteq> bus_keys (ms_bus s')"
  proof (cases "policy_get (lc_exit_policy (ms_lc s)) ''trough_price''")
    case None
    then show ?thesis using goodD[OF k(2) s] s unfolding remember_trough_def Let_def by auto
  next
    case (Some c)
    then obtain x where "to_float c = Inr x" using s by (auto simp: state_fine_def level_fine_def)
    then show ?thesis using Some goodD[OF k(1) s] s unfolding remember_trough_def Let_def by auto
  qed
qed

lemma good_update:
  assumes "\<And>lc k. k \<in> {''peak_price'', ''trough_price''} \<Longrightarrow> level_fine (lc_exit_policy lc) k \<Longrightarrow> level_fine (lc_exit_policy (f lc)) k"
  shows "good uuid (m_update f)"
  using assms by (simp add: good_def m_update_def state_fine_def)

lemma good_snapshot: "good uuid (snapshot u now p e)"
  by (simp add: good_def snapshot_def Let_def state_fine_def)

lemma good_trail: "good uuid (m_update breakeven_trail)"
  by (rule good_update) (auto simp: breakeven_trail_def Let_def intro!: level_fine_dset(2))

lemmas good_steps = good_bind good_when good_publish good_return good_peak good_trough good_snapshot good_trail events_hits

lemma evaluate_good:
  assumes "inj uuid" "state_fine uuid s"
  shows "\<exists>r s'. evaluate cfg uuid now i s = (Inr r, s') \<and> state_fine uuid s'
    \<and> (stop_hit (ms_lc s) (price_of i (ms_lc s))
         \<longrightarrow> pub_deduplication_key (stop_event now (ms_lc s) (price_of i (ms_lc s))) \<in> bus_keys (ms_bus s'))"
proof -
  let ?lc = "ms_lc s" and ?p = "price_of i (ms_lc s)"
  have u: "good uuid (m_update (\<lambda>l. (case m of
        Some m \<Rightarrow> l\<lparr>lc_current_price := Some m, lc_unrealized_pl := Some (w m)\<rparr> | None \<Rightarrow> l)\<lparr>lc_last_monitor_verdict := Some v\<rparr>))" for m w v
    by (rule good_update) (auto split: option.splits)
  define rest where "rest = (\<lambda>_ :: unit. m_bind (m_when (target_hit ?lc ?p) (m_publish cfg uuid now (target_event now ?lc ?p))) (\<lambda>_.
         m_bind (remember_peak ?p) (\<lambda>peak.
         m_bind (remember_trough ?p) (\<lambda>trough.
         (let best = (if long_side ?lc then peak else trough); giveback = gives_back ?lc (mark_of i ?lc) ?p best (lock_of ?lc);
              trail = (\<not> giveback \<and> trails_stop ?lc (mark_of i ?lc) ?p (lock_of ?lc))
          in m_bind (m_when giveback (m_publish cfg uuid now (giveback_event now ?lc (the best) (the (lock_of ?lc)) ?p))) (\<lambda>_.
             m_bind (m_when trail (m_update breakeven_trail)) (\<lambda>_.
             m_bind (m_when (overdue now ?lc)
                       (m_publish cfg uuid now (holding_event now ?lc (the (held_minutes now ?lc)) (flatten_on_max_holding ?lc)))) (\<lambda>_.
             m_bind (snapshot uuid now ?p (mi_equity i)) (\<lambda>snap.
             (let v = portfolio_flags cfg i ?lc (lc_protection_submitted ?lc \<and> \<not> trail) ?p
                        (exit_checks now ?lc ?p giveback (quote_checks cfg i ?lc))
              in m_bind (m_update (\<lambda>l. (case mark_of i ?lc of
                                          Some m \<Rightarrow> l\<lparr>lc_current_price := Some m,
                                                      lc_unrealized_pl := Some (if entry_of ?lc \<noteq> 0 then fmul (fsub m (entry_of ?lc)) (lc_quantity ?lc) else 0)\<rparr>
                                        | None \<Rightarrow> l)\<lparr>lc_last_monitor_verdict := Some (fst v)\<rparr>)) (\<lambda>_.
                 m_return \<lparr>mr_verdict = fst v, mr_symbol = lc_symbol ?lc, mr_reasons = snd v, mr_snapshot_id = sr_id snap\<rparr>)))))))))))"
  have e: "evaluate cfg uuid now i s = m_bind (m_when (stop_hit ?lc ?p) (m_publish cfg uuid now (stop_event now ?lc ?p))) rest s"
    by (simp add: evaluate_def Let_def rest_def)
  have g: "good uuid (rest ())" unfolding rest_def Let_def by (intro good_steps u assms(1))
  have g0: "good uuid (m_when (stop_hit ?lc ?p) (m_publish cfg uuid now (stop_event now ?lc ?p)))" by (intro good_steps assms(1))
  from goodD[OF g0 assms(2)] obtain s1 where s1: "m_when (stop_hit ?lc ?p) (m_publish cfg uuid now (stop_event now ?lc ?p)) s = (Inr (), s1)" "state_fine uuid s1"
    by auto
  from goodD[OF g s1(2)] obtain r s' where s': "rest () s1 = (Inr r, s')" "state_fine uuid s'" "bus_keys (ms_bus s1) \<subseteq> bus_keys (ms_bus s')" by blast
  have "pub_deduplication_key (stop_event now ?lc ?p) \<in> bus_keys (ms_bus s1)" if hit: "stop_hit ?lc ?p"
  proof -
    obtain x where "publish cfg uuid now (stop_event now ?lc ?p) (ms_bus s) = (Inr x, ms_bus s1)" using when_publish[OF s1(1)] hit by blast
    from publish_known[OF this] show ?thesis unfolding bus_keys_def by (metis imageI)
  qed
  then show ?thesis using e s1(1) s' by (auto simp: m_bind_def)
qed


section \<open>What the monitor guarantees\<close>

text \<open>
  Property C29.  A price at or through the stop, on the losing side of a long or of a short, always ends in action: the evaluation
  returns, its verdict is to exit or an emergency, whatever else the quote, the broker or the portfolio report, the reason is noted,
  the life cycle carries the verdict, and the stop event of this minute is on the event bus.
\<close>

theorem stop_forces_exit:
  assumes "inj uuid" "state_fine uuid s" "lc_stop_price (ms_lc s) = Some st" "mark_of i (ms_lc s) = Some price"
    "0 < lc_quantity (ms_lc s) \<and> price \<le> st \<or> lc_quantity (ms_lc s) < 0 \<and> st \<le> price"
  shows "\<exists>r s'. evaluate cfg uuid now i s = (Inr r, s') \<and> mr_verdict r \<in> {EXIT_INTENT_REQUIRED, EMERGENCY_ACTION_REQUIRED}
    \<and> ''stop_triggered'' \<in> set (mr_reasons r) \<and> lc_last_monitor_verdict (ms_lc s') = Some (mr_verdict r)
    \<and> (\<exists>e \<in> set (eb_events (ms_bus s')). iev_deduplication_key e = ''stop:'' @ lc_id (ms_lc s) @ '':'' @ minute_key now)"
proof -
  let ?p = "price_of i (ms_lc s)"
  have "0 < price" using assms(4) usable_mark_pos by (auto simp: mark_of_def)
  then have hit: "stop_hit (ms_lc s) ?p" using assms(3-5) by (auto simp: stop_hit_def price_of_def against_def long_side_def)
  from evaluate_good[OF assms(1,2), of cfg now i] obtain r s' where e: "evaluate cfg uuid now i s = (Inr r, s')"
    "pub_deduplication_key (stop_event now (ms_lc s) ?p) \<in> bus_keys (ms_bus s')" using hit by blast
  from e(1) obtain g t where v: "mr_verdict r = fst (portfolio_flags cfg i (ms_lc s) (lc_protection_submitted (ms_lc s) \<and> \<not> t) ?p
        (exit_checks now (ms_lc s) ?p g (quote_checks cfg i (ms_lc s))))"
    "mr_reasons r = snd (portfolio_flags cfg i (ms_lc s) (lc_protection_submitted (ms_lc s) \<and> \<not> t) ?p
        (exit_checks now (ms_lc s) ?p g (quote_checks cfg i (ms_lc s))))" "lc_last_monitor_verdict (ms_lc s') = Some (mr_verdict r)"
    by (rule evaluate_run)
  have "acts (mr_verdict r)" "''stop_triggered'' \<in> set (mr_reasons r)"
    unfolding v(1,2) using exit_checks_acts[OF hit] by (simp_all add: portfolio_flags_acts)
  moreover have "pub_deduplication_key (stop_event now (ms_lc s) ?p) = ''stop:'' @ lc_id (ms_lc s) @ '':'' @ minute_key now"
    by (simp add: stop_event_def monitor_event_def)
  ultimately show ?thesis using e v(3) by (auto simp: acts_def bus_keys_def image_iff)
qed

lemma evaluate_tightens:
  assumes "evaluate cfg uuid now i s = (Inr r, s')" "lc_stop_price (ms_lc s) = Some st" "fround 4 st = st"
  shows "\<exists>st'. lc_stop_price (ms_lc s') = Some st' \<and> (if 0 \<le> lc_quantity (ms_lc s) then st \<le> st' else st' \<le> st)
    \<and> (st' = st \<or> st' = fround 4 (entry_of (ms_lc s)))"
proof -
  from assms(1) obtain t where t: "t \<longrightarrow> trails_stop (ms_lc s) (mark_of i (ms_lc s)) (price_of i (ms_lc s)) (lock_of (ms_lc s))"
    "lc_stop_price (ms_lc s') = (if t then Some (fround 4 (entry_of (ms_lc s))) else lc_stop_price (ms_lc s))"
    by (rule evaluate_run)
  show ?thesis
  proof (cases t)
    case True
    then have "if 0 \<le> lc_quantity (ms_lc s) then st < entry_of (ms_lc s) else entry_of (ms_lc s) < st"
      using t(1) assms(2) by (auto simp: trails_stop_def long_side_def)
    then have "if 0 \<le> lc_quantity (ms_lc s) then st \<le> fround 4 (entry_of (ms_lc s)) else fround 4 (entry_of (ms_lc s)) \<le> st"
      using fround_mono[of st "entry_of (ms_lc s)" 4] fround_mono[of "entry_of (ms_lc s)" st 4] assms(3) by (auto split: if_splits)
    then show ?thesis using t(2) True by simp
  next
    case False
    then show ?thesis using t(2) assms(2) by simp
  qed
qed

definition watch_step :: "settings \<Rightarrow> (nat \<Rightarrow> string) \<Rightarrow> monitor_state \<Rightarrow> int \<times> monitor_input \<Rightarrow> monitor_state" where
  "watch_step cfg uuid s q = snd (evaluate cfg uuid (fst q) (snd q) s)"

lemma watch_tightens:
  assumes "inj uuid" "state_fine uuid s" "\<bar>entry_of (ms_lc s)\<bar> \<le> 10 ^ 9" "lc_stop_price (ms_lc s) = Some st" "fround 4 st = st"
  shows "\<exists>st'. lc_stop_price (ms_lc (foldl (watch_step cfg uuid) s qs)) = Some st' \<and> fround 4 st' = st'
    \<and> (if 0 \<le> lc_quantity (ms_lc s) then st \<le> st' else st' \<le> st)"
  using assms(2-5)
proof (induction qs arbitrary: s st)
  case (Cons q qs)
  from evaluate_good[OF assms(1) Cons.prems(1), of cfg "fst q" "snd q"] obtain r s' where
    e: "evaluate cfg uuid (fst q) (snd q) s = (Inr r, s')" "state_fine uuid s'" by blast
  from evaluate_tightens[OF e(1) Cons.prems(3,4)] obtain st1 where
    st1: "lc_stop_price (ms_lc s') = Some st1" "if 0 \<le> lc_quantity (ms_lc s) then st \<le> st1 else st1 \<le> st"
      "st1 = st \<or> st1 = fround 4 (entry_of (ms_lc s))" by blast
  have f: "fround 4 st1 = st1" using st1(3) Cons.prems(2,4) fround_idem[of "entry_of (ms_lc s)" 4] by auto
  from e(1) have "lc_quantity (ms_lc s') = lc_quantity (ms_lc s) \<and> entry_of (ms_lc s') = entry_of (ms_lc s)" by (rule evaluate_run)
  then show ?case using Cons.IH[OF e(2) _ st1(1) f] Cons.prems(2) st1(2) e(1) by (auto simp: watch_step_def split: if_splits)
qed simp

text \<open>
  Property C30.  The monitor never loosens a stop: over any sequence of evaluations with any quotes at any times, a stop given to four
  places is replaced only by one at least as tight, higher for a long and lower for a short, and a position never loses its stop.
\<close>

theorem stop_never_loosens:
  assumes "inj uuid" "state_fine uuid s" "\<bar>entry_of (ms_lc s)\<bar> \<le> 10 ^ 9" "lc_stop_price (ms_lc s) = Some st" "fround 4 st = st"
  shows "\<exists>st'. lc_stop_price (ms_lc (foldl (watch_step cfg uuid) s qs)) = Some st'
    \<and> (if 0 \<le> lc_quantity (ms_lc s) then st \<le> st' else st' \<le> st)"
  using watch_tightens[OF assms] by blast

text \<open>
  A short position without a stop is stamped with the stop of a long one: for every book the stop lies below the entry
  price, so at the entry price, and at every price above it, the monitor reads the stop as hit and asks for an exit as soon as the
  position is watched.
\<close>

theorem short_stamped_with_long_stop:
  assumes "lc_quantity lc < 0" "lc_stop_price lc = None" "lc_average_entry_price lc = Some e" "1 \<le> e"
    "policy_for (book_of rd (lc_symbol lc)) = Inr (HORIZON_POLICIES u)" "latest_atr rd (lc_symbol lc) = None"
  shows "\<exists>st. lc_stop_price (stamp_horizon_stop_if_missing rd lc) = Some st \<and> st < e
    \<and> (\<forall>p. st \<le> p \<and> 0 < p \<longrightarrow> stop_hit (stamp_horizon_stop_if_missing rd lc) p)"
proof -
  obtain st where s: "suggested_long_stop e None (Some (HORIZON_POLICIES u)) = Some st" using suggested_stop_without_atr[OF assms(4)] by blast
  have "st \<le> e * (998 / 1000)" using suggested_stop_below(2)[OF assms(4) s] .
  moreover have "e * (998 / 1000) < e" using assms(4) by simp
  ultimately have "st < e" by linarith
  moreover have "lc_stop_price (stamp_horizon_stop_if_missing rd lc) = Some st" "lc_quantity (stamp_horizon_stop_if_missing rd lc) = lc_quantity lc"
    using assms s by (simp_all add: stamp_horizon_stop_if_missing_def Let_def or_float_def)
  ultimately show ?thesis using assms(1) by (auto simp: stop_hit_def against_def long_side_def)
qed

section \<open>Smaller facts\<close>

lemma flag_off: "flag False may w r v = v"
  by (cases v) (simp add: flag_def)

text \<open>A wide spread hides a trading halt and a stale quote: their review is replaced by a watch.\<close>

lemma spread_hides_halt:
  assumes "above_bound (mi_spread_bps i) (cfg_max_order_spread_bps cfg)" "mi_broker_qty i = None" "\<not> lc_reconciliation_required lc"
  shows "fst (quote_checks cfg i lc) = WATCH"
  using assms by (simp add: quote_checks_def flag_off flag_sets(1) anyone_def)

text \<open>Without permission to widen, an adjusted stop is never further away.\<close>

lemma adjust_stop_tightens:
  assumes "\<not> cfg_allow_stop_widening cfg"
  shows "side = ''long'' \<Longrightarrow> current \<le> adjust_stop cfg current proposed side" "side \<noteq> ''long'' \<Longrightarrow> adjust_stop cfg current proposed side \<le> current"
  using assms by (auto simp: adjust_stop_def)

text \<open>Permission to widen a stop is honoured for longs only.\<close>

lemma adjust_stop_short_never_widens: "side \<noteq> ''long'' \<Longrightarrow> adjust_stop cfg current proposed side \<le> current"
  by (auto simp: adjust_stop_def)

text \<open>A breached stop or a confirmed invalidation replaces an emergency stop in the dynamic risk check.\<close>

lemma exit_hides_emergency:
  assumes "lc_invalidation_state lc = ''CONFIRMED''"
  shows "fst (dynamic_checks cfg i lc) = ''EXIT_REQUIRED''"
  using assms by (simp add: dynamic_checks_def Let_def flag_sets(1) anyone_def)

text \<open>An unknown mode only observes: orders go out in two modes and never while paused or stopped.\<close>

lemma submit_needs_mode:
  "can_submit (resolve_mode cfg emergency paused) \<longleftrightarrow>
     \<not> emergency \<and> \<not> paused \<and> upper (or_str (Some (cfg_intraday_operation_mode cfg)) ''OBSERVE_ONLY'') \<in> {''MANUAL_APPROVAL'', ''PAPER_AUTOMATED''}"
proof -
  obtain m where m: "upper (or_str (Some (cfg_intraday_operation_mode cfg)) ''OBSERVE_ONLY'') = m" by blast
  show ?thesis unfolding resolve_mode_def m by (auto simp: can_submit_def MODES_def)
qed

section \<open>Targets fire once\<close>

lemma target_loop_effect:
  "target_loop cfg price idx ts s = (res, s') \<Longrightarrow>
     s' = s \<or> (\<exists>j. j \<notin> set (lc_filled_take_profit_indices (ms_lc s)) \<and> (\<exists>e. ms_tp_events s' = ms_tp_events s @ [e] \<and> tpe_target_index e = j
                 \<and> tpe_target_price e \<le> price \<and> 0 < tpe_quantity e)
              \<and> set (lc_filled_take_profit_indices (ms_lc s')) = insert j (set (lc_filled_take_profit_indices (ms_lc s))))"
proof (induction ts arbitrary: idx)
  case (Cons t ts)
  show ?case
  proof (cases "idx \<in> set (lc_filled_take_profit_indices (ms_lc s))")
    case True
    then show ?thesis using Cons.IH[of "idx + 1"] Cons.prems by simp
  next
    case new: False
    show ?thesis
    proof (cases "(\<exists>e. target_level t = Inl e) \<or> (\<exists>e. target_fraction t = Inl e)")
      case True
      then have "s' = s" using Cons.prems new by (auto split: sum.splits)
      then show ?thesis by simp
    next
      case False
      then obtain level fraction where lf: "target_level t = Inr level" "target_fraction t = Inr fraction"
        by (cases "target_level t"; cases "target_fraction t") auto
      let ?q = "target_quantity cfg (lc_quantity (ms_lc s)) fraction"
      show ?thesis
      proof (cases "\<not> level \<le> price \<or> ?q \<le> 0")
        case True
        then have "target_loop cfg price (idx + 1) ts s = (res, s')" using Cons.prems new lf by (simp add: Let_def)
        then show ?thesis by (rule Cons.IH)
      next
        case False
        then have "ms_tp_events s' = ms_tp_events s @ [\<lparr>tpe_position_lifecycle_id = lc_id (ms_lc s), tpe_target_index = idx,
              tpe_target_price = level, tpe_quantity = ?q, tpe_fraction = fraction\<rparr>]"
          "set (lc_filled_take_profit_indices (ms_lc s')) = insert idx (set (lc_filled_take_profit_indices (ms_lc s)))"
          using Cons.prems new lf by (auto simp: Let_def)
        then show ?thesis using new False by force
      qed
    qed
  qed
qed simp

definition target_run :: "settings \<Rightarrow> monitor_state \<Rightarrow> rat list \<Rightarrow> monitor_state" where
  "target_run cfg s prices = foldl (\<lambda>s p. snd (check_take_profit cfg p s)) s prices"

text \<open>
  Over any sequence of prices each take-profit target fires at most once, and never one that was already filled.
\<close>

theorem targets_fire_once:
  "\<exists>new. ms_tp_events (target_run cfg s prices) = ms_tp_events s @ new \<and> distinct (map tpe_target_index new)
     \<and> set (map tpe_target_index new) \<inter> set (lc_filled_take_profit_indices (ms_lc s)) = {}
     \<and> set (lc_filled_take_profit_indices (ms_lc (target_run cfg s prices)))
        = set (lc_filled_take_profit_indices (ms_lc s)) \<union> set (map tpe_target_index new)"
proof (induction prices rule: rev_induct)
  case (snoc p prices)
  let ?s = "target_run cfg s prices"
  obtain res s' where c: "check_take_profit cfg p ?s = (res, s')" by fastforce
  then have "s' = ?s \<or> target_loop cfg p 0 (lc_take_profit_targets (ms_lc ?s)) ?s = (res, s')"
    by (auto simp: check_take_profit_def split: if_splits)
  then consider "s' = ?s" | j e where "j \<notin> set (lc_filled_take_profit_indices (ms_lc ?s))" "ms_tp_events s' = ms_tp_events ?s @ [e]" "tpe_target_index e = j"
      "set (lc_filled_take_profit_indices (ms_lc s')) = insert j (set (lc_filled_take_profit_indices (ms_lc ?s)))"
    using target_loop_effect[of cfg p 0 "lc_take_profit_targets (ms_lc ?s)" ?s res s'] by auto
  moreover have r: "target_run cfg s (prices @ [p]) = s'" using c by (simp add: target_run_def)
  ultimately show ?case
  proof cases
    case 1
    then show ?thesis using snoc r by simp
  next
    case (2 j e)
    from snoc obtain new where new: "ms_tp_events ?s = ms_tp_events s @ new" "distinct (map tpe_target_index new)"
      "set (map tpe_target_index new) \<inter> set (lc_filled_take_profit_indices (ms_lc s)) = {}"
      "set (lc_filled_take_profit_indices (ms_lc ?s)) = set (lc_filled_take_profit_indices (ms_lc s)) \<union> set (map tpe_target_index new)" by blast
    then show ?thesis using 2 r by (intro exI[of _ "new @ [e]"]) auto
  qed
qed (simp add: target_run_def)

section \<open>Witnesses\<close>

definition sample_watch :: monitor_state where
  "sample_watch =
     \<lparr>ms_lc = sample_lifecycle, ms_bus = empty_bus, ms_snapshots = [], ms_reviews = [], ms_stop_events = [], ms_tp_events = [], ms_minted = 0\<rparr>"

definition sample_quote :: monitor_input where
  "sample_quote =
     \<lparr>mi_current_price = Some 94, mi_quote_age_seconds = None, mi_spread_bps = None, mi_halted = True, mi_broker_qty = None, mi_equity = 25000,
      mi_daily_pnl_pct = 0, mi_drawdown_pct = 0\<rparr>"

lemma sample_watch_fine: "state_fine uuid sample_watch"
  by (simp add: state_fine_def sample_watch_def bus_fine_def bus_inv_def empty_bus_def open_keys_def level_fine_def policy_get_def sample_lifecycle_def)

lemma sample_mark: "mark_of sample_quote (ms_lc sample_watch) = Some 94"
  by (simp add: mark_of_def usable_mark_def sample_quote_def is_sane_equity_price_def MAX_SANE_EQUITY_PX_def)

theorem stop_forces_exit_witness:
  "\<exists>r s'. evaluate default_settings sample_uuid 0 sample_quote sample_watch = (Inr r, s')
     \<and> mr_verdict r \<in> {EXIT_INTENT_REQUIRED, EMERGENCY_ACTION_REQUIRED} \<and> ''stop_triggered'' \<in> set (mr_reasons r)"
proof -
  have "lc_stop_price (ms_lc sample_watch) = Some 95" "0 < lc_quantity (ms_lc sample_watch)" by (simp_all add: sample_watch_def sample_lifecycle_def)
  then show ?thesis using stop_forces_exit[OF sample_uuid_inj sample_watch_fine _ sample_mark, of 95 default_settings 0] by auto
qed

theorem stop_never_loosens_witness:
  "\<exists>st'. lc_stop_price (ms_lc (foldl (watch_step default_settings sample_uuid) sample_watch [(0, sample_quote), (1, sample_quote)])) = Some st' \<and> 95 \<le> st'"
proof -
  have f: "fround 4 95 = 95"
    using round_even_of_int[of 950000] by (simp add: fround_def)
  have "lc_stop_price (ms_lc sample_watch) = Some 95" "0 \<le> lc_quantity (ms_lc sample_watch)" "\<bar>entry_of (ms_lc sample_watch)\<bar> \<le> 10 ^ 9"
    by (simp_all add: sample_watch_def sample_lifecycle_def entry_of_def or_float_def)
  then show ?thesis
    using stop_never_loosens[OF sample_uuid_inj sample_watch_fine _ _ f, of default_settings "[(0, sample_quote), (1, sample_quote)]"] by auto
qed

definition sample_short :: PositionLifecycle where
  "sample_short = sample_lifecycle\<lparr>lc_quantity := - 10, lc_stop_price := None\<rparr>"

theorem short_stamped_with_long_stop_witness:
  "\<exists>st < 100. lc_stop_price (stamp_horizon_stop_if_missing \<lparr>mo_watchlist = [(''SPY'', ''short'')], mo_atr = []\<rparr> sample_short) = Some st
     \<and> stop_hit (stamp_horizon_stop_if_missing \<lparr>mo_watchlist = [(''SPY'', ''short'')], mo_atr = []\<rparr> sample_short) 100"
proof -
  let ?rd = "\<lparr>mo_watchlist = [(''SPY'', ''short'')], mo_atr = []\<rparr>"
  have "upper ''SPY'' = ''SPY''" by code_simp
  then have "book_of ?rd (lc_symbol sample_short) = ''short''" "latest_atr ?rd (lc_symbol sample_short) = None"
    by (simp_all add: book_of_def watchlist_row_def latest_atr_def sample_short_def sample_lifecycle_def or_str_def)
  then show ?thesis
    using short_stamped_with_long_stop[of sample_short 100 ?rd SHORT] short_book(2) by (auto simp: sample_short_def sample_lifecycle_def)
qed

end
