(* ===== verification/Firm_Execution.thy ===== *)
theory Firm_Execution
  imports Exec_Service Position_Manager Book_Strategy
    "HOL-Library.List_Lexorder" "HOL-Library.Char_ord"
begin

text \<open>
  The bridge from a decision to the broker: \<open>execution/firm_execution.py\<close> with the price rules of
  \<open>market/live_prices.py\<close>.

  The market-data provider is the parameter \<open>quotes\<close>, the closed-trade ledger and the portfolio are
  arguments.  The bridge composes the validator, the intent builder of the execution service, the
  order manager and the position sync of the other theories on one state: the desk with its intents
  and the portfolio tables.
\<close>

section \<open>Prices that may size an order\<close>

record live_quote =
  lq_symbol :: string
  lq_provider :: "string option"
  lq_last :: "rat option"

definition is_simulation_price_provider :: "string option \<Rightarrow> bool" where
  "is_simulation_price_provider p \<longleftrightarrow> lower (strip (or_str p [])) \<in> {''stub'', ''fixture''}"

definition STUB_TOLERANCE :: rat where "STUB_TOLERANCE = fl (2 / 100)"

text \<open>\<open>sorted({str(s).upper() for s in symbols if s})\<close>\<close>

definition symbol_names :: "string list \<Rightarrow> string list" where
  "symbol_names ss = sort (remdups (map upper (filter (\<lambda>s. s \<noteq> []) ss)))"

definition usable_quote :: "live_quote \<Rightarrow> rat option" where
  "usable_quote q =
     (if truthy_str (lq_provider q) \<and> is_simulation_price_provider (lq_provider q) then None
      else case lq_last q of None \<Rightarrow> None
        | Some l \<Rightarrow> if l \<le> 0 \<or> looks_like_stub_last (lq_symbol q) l STUB_TOLERANCE then None else Some l)"

fun quote_prices :: "live_quote list \<Rightarrow> (string \<times> rat) list \<Rightarrow> (string \<times> rat) list" where
  "quote_prices [] out = out"
| "quote_prices (q # qs) out = quote_prices qs
     (case usable_quote q of Some l \<Rightarrow> dset out (upper (lq_symbol q)) l | None \<Rightarrow> out)"

definition fetch_live_last_prices :: "(string list \<Rightarrow> live_quote list py) \<Rightarrow> string list \<Rightarrow> (string \<times> rat) list py" where
  "fetch_live_last_prices quotes symbols =
     (let syms = symbol_names symbols in
      if syms = [] then Inr [] else py_bind (quotes syms) (\<lambda>qs. Inr (quote_prices qs [])))"

fun usable_live_candidates :: "string list \<Rightarrow> (string \<times> rat) list \<Rightarrow> (string \<times> rat) list \<Rightarrow> (string \<times> rat) list" where
  "usable_live_candidates syms [] out = out"
| "usable_live_candidates syms ((k, l) # cs) out = usable_live_candidates syms cs
     (if upper k \<notin> set syms \<or> l \<le> 0 \<or> looks_like_stub_last (upper k) l STUB_TOLERANCE then out else dset out (upper k) l)"

fun positive_prices :: "(string \<times> rat) list \<Rightarrow> (string \<times> rat) list \<Rightarrow> (string \<times> rat) list" where
  "positive_prices [] out = out"
| "positive_prices ((k, l) # cs) out = positive_prices cs (if 0 < l then dset out (upper k) l else out)"

definition merge_prices :: "(string \<times> rat) list \<Rightarrow> (string \<times> rat) list \<Rightarrow> (string \<times> rat) list" where
  "merge_prices reused live = foldl (\<lambda>d (k, l). dset d k l) reused live"

definition missing_names :: "string list \<Rightarrow> (string \<times> rat) list \<Rightarrow> string list" where
  "missing_names syms prices = filter (\<lambda>s. dget prices s = None) syms"

definition resolve_execution_prices ::
    "(string list \<Rightarrow> live_quote list py) \<Rightarrow> settings \<Rightarrow> string list \<Rightarrow> (string \<times> rat) list \<Rightarrow> ((string \<times> rat) list \<times> string list) py" where
  "resolve_execution_prices quotes cfg symbols candidates =
     (let syms = symbol_names symbols in
      if \<not> requires_live_market_prices cfg then Inr (positive_prices candidates [], [''simulation_prices_allowed''])
      else let reused = usable_live_candidates syms candidates []; missing = missing_names syms reused in
        if missing = [] then Inr (reused, [''reused_live_candidate_prices''])
        else let notes = (if reused \<noteq> [] then [''reused_live_candidate_partial:'' @ str_int (int (length reused))] else []) in
          py_bind (fetch_live_last_prices quotes missing) (\<lambda>live.
            let merged = merge_prices reused live; still = missing_names syms merged in
            if merged = [] then Inr ([], notes @ [''live_prices_unavailable''])
            else Inr (merged, notes @ (if still \<noteq> [] then [''live_price_missing:'' @ join_with '','' (take 12 still)] else []))))"

definition assert_provider_allowed_for_orders :: "settings \<Rightarrow> string option \<Rightarrow> unit py" where
  "assert_provider_allowed_for_orders cfg p =
     (if requires_live_market_prices cfg \<and> is_simulation_price_provider p
      then Inl (RuntimeError (''simulation_price_provider_forbidden:'' @ or_str p ''unknown'')) else Inr ())"

definition assess_collection_price_integrity ::
    "settings \<Rightarrow> string option list \<Rightarrow> int \<Rightarrow> bool \<times> bool \<times> string list \<times> string list" where
  "assess_collection_price_integrity cfg providers market_count =
     (let cleaned = sort (remdups (map (\<lambda>p. lower (strip (or_str p []))) (filter truthy_str providers)));
          sims = filter (\<lambda>p. is_simulation_price_provider (Some p)) cleaned; relaxed = paper_relaxed cfg \<and> 0 < market_count;
          labels = (if cleaned = [] then [''ibkr''] else cleaned)
      in if \<not> requires_live_market_prices cfg then (False, True, cleaned, [''simulation_price_path''])
         else if market_count \<le> 0 then (True, False, cleaned, [''no_market_quotes''])
         else if relaxed \<and> (cleaned = [] \<or> length sims < length cleaned) then (True, True, labels, [''paper_relaxed_price_feed''])
         else if sims \<noteq> [] then (True, False, cleaned, [''simulation_provider_present''])
         else if cleaned = [] then (True, False, cleaned, [''missing_provider_labels''])
         else (True, True, cleaned, []))"

section \<open>The bridge\<close>

definition paper_auto_submit_allowed :: "settings \<Rightarrow> bool" where
  "paper_auto_submit_allowed cfg \<longleftrightarrow>
     \<not> cfg_enable_live_trading cfg \<and> lower (cfg_broker_environment cfg) \<noteq> ''live''
     \<and> \<not> (cfg_trading_mode cfg = LIVE \<and> \<not> is_live_trading_allowed cfg)
     \<and> cfg_trading_mode cfg \<in> {PAPER, SIMULATION} \<and> cfg_enable_broker_orders cfg
     \<and> cfg_enable_automated_execution cfg \<and> \<not> cfg_require_manual_order_approval cfg"

record 'b firm_state =
  fs_exec :: "'b exec_state"
  fs_portfolio :: portfolio_store

text \<open>What the bridge is told and what surrounds it.\<close>

record 'b firm_call =
  fc_api :: "'b broker_api"
  fc_quotes :: "string list \<Rightarrow> live_quote list py"
  fc_live :: "string \<Rightarrow> rat option"
  fc_book :: "'b \<Rightarrow> broker_book py"
  fc_uuid :: "nat \<Rightarrow> string"
  fc_now :: int
  fc_engine :: RiskEngine
  fc_ledger :: "(string \<times> rat list) list"
  fc_context :: validation_context
  fc_create_intents :: bool
  fc_allow_submit :: bool
  fc_block_new_entries :: bool

record firm_report =
  fr_validation_approved :: bool
  fr_validation_rejections :: "string list"
  fr_intent_ids :: "string list"
  fr_broker_orders_submitted :: bool
  fr_orders_submitted :: nat
  fr_paper_auto_submit_allowed :: bool
  fr_notes :: "string list"
  fr_live_trading_blocked :: bool
  fr_prices_used :: "(string \<times> rat) list"
  fr_position_sync_failed :: bool

definition FIRM_ENTRY_ACTIONS :: "SymbolAction set" where
  "FIRM_ENTRY_ACTIONS = {SA_STRONG_BUY, SA_BUY, SA_SCALE_IN}"

definition block_of :: "(string \<times> rat list) list \<Rightarrow> SymbolActionPlan \<Rightarrow> string option" where
  "block_of ledger p =
     (if pl_action p \<in> FIRM_ENTRY_ACTIONS
      then entry_block_reason (case dget ledger (upper (pl_symbol p)) of Some ps \<Rightarrow> ps | None \<Rightarrow> []) else None)"

definition screen_entries :: "(string \<times> rat list) list \<Rightarrow> CIODecision \<Rightarrow> CIODecision \<times> string list" where
  "screen_entries ledger d =
     (let kept = filter (\<lambda>p. block_of ledger p = None) (cd_symbol_actions d);
          notes = List.map_filter (\<lambda>p. map_option (\<lambda>why. ''entry_blocked:'' @ upper (pl_symbol p) @ '':'' @ why) (block_of ledger p))
                    (cd_symbol_actions d)
      in (if notes = [] then d
          else d\<lparr>cd_symbol_actions := kept, cd_portfolio_action := portfolio_action_from_symbol_actions kept,
                 cd_reason_not_to_trade := (if list_ex (\<lambda>p. pl_action p \<in> FIRM_ENTRY_ACTIONS) kept
                   then cd_reason_not_to_trade d else Some ''closed_trade_block'')\<rparr>, notes))"

definition base_report :: "settings \<Rightarrow> string list \<Rightarrow> firm_report" where
  "base_report cfg notes = \<lparr>fr_validation_approved = True, fr_validation_rejections = [], fr_intent_ids = [],
     fr_broker_orders_submitted = False, fr_orders_submitted = 0, fr_paper_auto_submit_allowed = paper_auto_submit_allowed cfg,
     fr_notes = notes, fr_live_trading_blocked = False, fr_prices_used = [], fr_position_sync_failed = False\<rparr>"

text \<open>Intents are created whatever happens later; a failure is a note.\<close>

definition make_intents ::
    "'b firm_call \<Rightarrow> settings \<Rightarrow> CIODecision \<Rightarrow> validation_context \<Rightarrow> ExecutionValidationResult \<Rightarrow> 'b firm_state
     \<Rightarrow> string list \<times> string list \<times> 'b firm_state" where
  "make_intents fc cfg d vc v fs =
     (if fc_create_intents fc \<and> ev_intents v \<noteq> []
      then case build_intents_from_decision cfg (fc_engine fc) (fc_uuid fc) (fc_now fc) d vc (fc_block_new_entries fc) (fs_exec fs) of
             (Inr intents, es) \<Rightarrow> (map in_id intents, [''order_intents_created='' @ str_int (int (length intents))], fs\<lparr>fs_exec := es\<rparr>)
           | (Inl e, es) \<Rightarrow> ([], [''intent_build_failed:'' @ err_str e], fs\<lparr>fs_exec := es\<rparr>)
      else ([], [], fs))"

text \<open>Submission: \<open>(orders, notes, position sync failed)\<close>.\<close>

definition submit_and_sync ::
    "'b firm_call \<Rightarrow> settings \<Rightarrow> CIODecision \<Rightarrow> ExecutionValidationResult \<Rightarrow> 'b firm_state \<Rightarrow> nat \<times> string list \<times> bool \<times> 'b firm_state" where
  "submit_and_sync fc cfg d v fs =
     (case submit_validated_intents (fc_api fc) cfg (fc_live fc) (fc_uuid fc) (fc_now fc) (Some (cd_decision_id d))
             (vc_workflow_id (fc_context fc)) v (es_desk (fs_exec fs)) of
        (Inl e, dk) \<Rightarrow> (0, [''order_submit_failed:'' @ err_str e], False, fs\<lparr>fs_exec := set_desk dk (fs_exec fs)\<rparr>)
      | (Inr orders, dk) \<Rightarrow>
          (let fs1 = fs\<lparr>fs_exec := set_desk dk (fs_exec fs)\<rparr>; note = ''orders_submitted='' @ str_int (int (length orders)) in
           case sync_from_broker cfg (fc_uuid fc) (fc_now fc) (fc_book fc (dk_broker dk)) False (fs_portfolio fs1) of
             (Inr _, pf) \<Rightarrow> (length orders, [note, ''positions_synced''], False, fs1\<lparr>fs_portfolio := pf\<rparr>)
           | (Inl e, pf) \<Rightarrow>
               (let armed = (cfg_enable_broker_orders cfg \<or> cfg_enable_automated_execution cfg) in
                (length orders, [note, ''position_sync_failed:'' @ err_str e] @ (if armed then [''orders_blocked_position_sync_failed''] else []),
                 armed, fs1\<lparr>fs_portfolio := pf\<rparr>))))"

definition skip_notes :: "settings \<Rightarrow> bool \<Rightarrow> ExecutionValidationResult \<Rightarrow> string list" where
  "skip_notes cfg allow_submit v =
     (if ev_approved v \<and> ev_intents v \<noteq> []
      then [if \<not> cfg_enable_broker_orders cfg then ''orders_skipped_enable_broker_orders_false''
            else if cfg_require_manual_order_approval cfg then ''intents_awaiting_optional_manual_brake''
            else if \<not> cfg_enable_automated_execution cfg then ''orders_skipped_enable_automated_execution_false''
            else if \<not> allow_submit then ''submit_not_allowed_in_context'' else ''submit_skipped_mode'']
      else if ev_rejections v \<noteq> [] then [''validation_rejected:'' @ join_with '','' (take 5 (ev_rejections v))] else [])"

definition auto_submit :: "'b firm_call \<Rightarrow> settings \<Rightarrow> ExecutionValidationResult \<Rightarrow> bool" where
  "auto_submit fc cfg v \<longleftrightarrow> fc_allow_submit fc \<and> paper_auto_submit_allowed cfg \<and> ev_approved v \<and> ev_intents v \<noteq> []"

definition run_validated ::
    "'b firm_call \<Rightarrow> settings \<Rightarrow> CIODecision \<Rightarrow> validation_context \<Rightarrow> ExecutionValidationResult \<Rightarrow> string list
     \<Rightarrow> 'b firm_state \<Rightarrow> firm_report \<times> 'b firm_state" where
  "run_validated fc cfg d vc v notes fs =
     (case make_intents fc cfg d vc v fs of (ids, made, fs1) \<Rightarrow>
      case (if auto_submit fc cfg v then submit_and_sync fc cfg d v fs1 else (0, skip_notes cfg (fc_allow_submit fc) v, False, fs1)) of
        (n, done_notes, sync_failed, fs2) \<Rightarrow>
          ((base_report cfg (notes @ made @ done_notes))\<lparr>fr_validation_approved := ev_approved v,
             fr_validation_rejections := ev_rejections v @ (if sync_failed then [''position_sync_failed''] else []),
             fr_intent_ids := ids, fr_broker_orders_submitted := (0 < n), fr_orders_submitted := n,
             fr_live_trading_blocked := True, fr_prices_used := vc_latest_prices vc, fr_position_sync_failed := sync_failed\<rparr>, fs2))"

definition materialize_cio_decision ::
    "'b firm_call \<Rightarrow> settings \<Rightarrow> CIODecision \<Rightarrow> 'b firm_state \<Rightarrow> firm_report py \<times> 'b firm_state" where
  "materialize_cio_decision fc cfg decision fs =
     (case screen_entries (fc_ledger fc) decision of (d, notes) \<Rightarrow>
      let needed = remdups (map (\<lambda>p. upper (pl_symbol p)) (filter (\<lambda>p. pl_symbol p \<noteq> []) (cd_symbol_actions d))) in
      if needed = [] then (Inr (base_report cfg (notes @ [''no_symbols_to_materialize''])), fs)
      else case resolve_execution_prices (fc_quotes fc) cfg needed (vc_latest_prices (fc_context fc)) of
        Inl e \<Rightarrow> (Inl e, fs)
      | Inr (prices, price_notes) \<Rightarrow>
          if requires_live_market_prices cfg \<and> prices = []
          then (Inr ((base_report cfg (notes @ price_notes @ [''orders_blocked_live_prices_unavailable'']))\<lparr>
                  fr_validation_approved := False, fr_validation_rejections := [''live_prices_unavailable''],
                  fr_live_trading_blocked := True\<rparr>), fs)
          else let vc = (fc_context fc)\<lparr>vc_latest_prices := prices, vc_broker_data_consistent := True\<rparr>; dk = es_desk (fs_exec fs) in
            case validate cfg (fc_engine fc) (dk_controls dk) d vc (seen_idempotency_keys dk) (fc_block_new_entries fc) of
              Inl e \<Rightarrow> (Inl e, fs)
            | Inr v \<Rightarrow> (case run_validated fc cfg d vc v (notes @ price_notes) fs of (r, fs') \<Rightarrow> (Inr r, fs')))"


section \<open>Only real prices size orders\<close>

definition real_price :: "string \<times> rat \<Rightarrow> bool" where
  "real_price p \<longleftrightarrow> 0 < snd p \<and> \<not> looks_like_stub_last (fst p) (snd p) STUB_TOLERANCE"

lemma looks_like_stub_upper [simp]: "looks_like_stub_last (upper s) l tol = looks_like_stub_last s l tol"
  by (simp add: looks_like_stub_last_def)

lemma dset_all: "list_all P d \<Longrightarrow> P (k, v) \<Longrightarrow> list_all P (dset d k v)"
  by (induction d) (auto split: prod.splits)

lemma quote_prices_real: "list_all real_price out \<Longrightarrow> list_all real_price (quote_prices qs out)"
proof (induction qs arbitrary: out)
  case (Cons q qs)
  have "usable_quote q = Some l \<Longrightarrow> real_price (upper (lq_symbol q), l)" for l
    by (auto simp: usable_quote_def real_price_def split: if_splits option.splits)
  then show ?case using Cons by (auto simp: dset_all split: option.splits)
qed simp

lemma candidates_real: "list_all real_price out \<Longrightarrow> list_all real_price (usable_live_candidates syms cs out)"
  by (induction syms cs out rule: usable_live_candidates.induct) (auto simp: dset_all real_price_def)

lemma merge_real: "list_all real_price d \<Longrightarrow> list_all real_price live \<Longrightarrow> list_all real_price (merge_prices d live)"
  unfolding merge_prices_def by (induction live arbitrary: d) (auto simp: dset_all split: prod.splits)

lemma resolved_prices_real:
  assumes "requires_live_market_prices cfg" "resolve_execution_prices quotes cfg symbols cands = Inr (prices, notes)"
  shows "list_all real_price prices"
proof -
  let ?re = "usable_live_candidates (symbol_names symbols) cands []"
  have re: "list_all real_price ?re" by (rule candidates_real) simp
  consider "prices = ?re" | live where "fetch_live_last_prices quotes (missing_names (symbol_names symbols) ?re) = Inr live"
      "prices = [] \<or> prices = merge_prices ?re live"
    using assms by (auto simp: resolve_execution_prices_def Let_def py_bind_Inr_iff split: if_splits)
  then show ?thesis
  proof cases
    case 2
    then have "list_all real_price live"
      by (auto simp: fetch_live_last_prices_def Let_def py_bind_Inr_iff quote_prices_real split: if_splits)
    then show ?thesis using 2(2) merge_real[OF re] by auto
  qed (use re in simp)
qed

section \<open>The broker is touched on paper only\<close>

lemma create_intents_desk:
  "create_intents uuid now wid hz px rej vs cr es = (created, es') \<Longrightarrow>
     dk_broker (es_desk es') = dk_broker (es_desk es) \<and> dk_orders (es_desk es') = dk_orders (es_desk es)
     \<and> dk_controls (es_desk es') = dk_controls (es_desk es)"
proof (induction vs arbitrary: cr es)
  case (Cons v vs)
  obtain i es1 where m: "mint uuid es = (i, es1)" by fastforce
  then have "dk_broker (es_desk es1) = dk_broker (es_desk es)" "dk_orders (es_desk es1) = dk_orders (es_desk es)"
    "dk_controls (es_desk es1) = dk_controls (es_desk es)"
    by (auto simp: mint_def fresh_id_def set_desk_def)
  then show ?case using Cons.IH[of _ "es1\<lparr>es_intents := es_intents es1 @ [intent_from i now wid hz px rej v]\<rparr>"] Cons.prems m
    by (simp add: Let_def)
qed simp

lemma build_intents_desk:
  assumes "build_intents_from_decision cfg eng uuid now d vc b es = (r, es')"
  shows "dk_broker (es_desk es') = dk_broker (es_desk es) \<and> dk_orders (es_desk es') = dk_orders (es_desk es)
    \<and> dk_controls (es_desk es') = dk_controls (es_desk es)"
  using assms
  by (auto simp: build_intents_from_decision_def Let_def dest!: create_intents_desk split: sum.splits prod.splits)

lemma make_intents_desk:
  assumes "make_intents fc cfg d vc v fs = (ids, ns, fs')"
  shows "dk_broker (es_desk (fs_exec fs')) = dk_broker (es_desk (fs_exec fs))
    \<and> dk_orders (es_desk (fs_exec fs')) = dk_orders (es_desk (fs_exec fs))
    \<and> dk_controls (es_desk (fs_exec fs')) = dk_controls (es_desk (fs_exec fs))"
  using assms build_intents_desk by (fastforce simp: make_intents_def split: if_splits sum.splits prod.splits)

definition desk_touched :: "'b firm_state \<Rightarrow> 'b firm_state \<Rightarrow> bool" where
  "desk_touched fs fs' \<longleftrightarrow> \<not> (dk_broker (es_desk (fs_exec fs')) = dk_broker (es_desk (fs_exec fs))
     \<and> dk_orders (es_desk (fs_exec fs')) = dk_orders (es_desk (fs_exec fs)))"

lemma run_validated_untouched:
  assumes "run_validated fc cfg d vc v nts fs = (r, fs')" "desk_touched fs fs'"
  shows "auto_submit fc cfg v \<and> is_new_order_allowed (dk_controls (es_desk (fs_exec fs)))"
proof (rule ccontr)
  assume no: "\<not> ?thesis"
  obtain ids ns fs1 where m: "make_intents fc cfg d vc v fs = (ids, ns, fs1)" by (metis prod_cases3)
  note f1 = make_intents_desk[OF m]
  show False
  proof (cases "auto_submit fc cfg v")
    case False
    then show False using assms m f1 by (auto simp: run_validated_def desk_touched_def)
  next
    case True
    then have "\<not> is_new_order_allowed (dk_controls (es_desk (fs_exec fs1)))" using no f1 by simp
    then have "\<not> may_submit cfg v (dk_controls (es_desk (fs_exec fs1)))" by (simp add: may_submit_def)
    from submit_closed[OF this, of "fc_api fc" "fc_live fc" "fc_uuid fc" "fc_now fc" "Some (cd_decision_id d)" "vc_workflow_id (fc_context fc)"]
    obtain e where "submit_validated_intents (fc_api fc) cfg (fc_live fc) (fc_uuid fc) (fc_now fc) (Some (cd_decision_id d))
      (vc_workflow_id (fc_context fc)) v (es_desk (fs_exec fs1)) = (Inr [], (es_desk (fs_exec fs1))\<lparr>dk_events := dk_events (es_desk (fs_exec fs1)) @ [e]\<rparr>)"
      by blast
    then show False using assms m f1 True
      by (auto simp: run_validated_def submit_and_sync_def Let_def set_desk_def desk_touched_def split: sum.splits prod.splits)
  qed
qed

text \<open>
  Property C9.  The bridge touches the broker or the order table only on the paper path: for every decision, every provider of
  quotes and every broker, a call that changes either ran under a configuration with live trading off, a broker
  environment other than live, the paper or the simulation mode, broker orders and automated execution on and manual
  approval off, was allowed to submit by its caller and found the trading controls open; its report carries an approved
  validation, and when the configuration demands live prices every price it used is positive and none is a stub print.
\<close>

theorem firm_submits_only_on_paper:
  assumes "materialize_cio_decision fc cfg d fs = (r, fs')" "desk_touched fs fs'"
  shows "\<not> cfg_enable_live_trading cfg \<and> lower (cfg_broker_environment cfg) \<noteq> ''live''
    \<and> cfg_trading_mode cfg \<in> {PAPER, SIMULATION} \<and> cfg_enable_broker_orders cfg
    \<and> cfg_enable_automated_execution cfg \<and> \<not> cfg_require_manual_order_approval cfg
    \<and> fc_allow_submit fc \<and> is_new_order_allowed (dk_controls (es_desk (fs_exec fs)))
    \<and> (\<exists>rep. r = Inr rep \<and> fr_validation_approved rep \<and> (requires_live_market_prices cfg \<longrightarrow>
          list_all (\<lambda>(s, l). 0 < l \<and> \<not> looks_like_stub_last s l STUB_TOLERANCE) (fr_prices_used rep)))"
proof -
  obtain d' nts where sc: "screen_entries (fc_ledger fc) d = (d', nts)" by fastforce
  have ne: "\<not> desk_touched fs fs" by (simp add: desk_touched_def)
  let ?needed = "remdups (map (\<lambda>p. upper (pl_symbol p)) (filter (\<lambda>p. pl_symbol p \<noteq> []) (cd_symbol_actions d')))"
  let ?vc = "\<lambda>prices. (fc_context fc)\<lparr>vc_latest_prices := prices, vc_broker_data_consistent := True\<rparr>"
  obtain prices pn v rep where px: "resolve_execution_prices (fc_quotes fc) cfg ?needed (vc_latest_prices (fc_context fc)) = Inr (prices, pn)"
    and run: "run_validated fc cfg d' (?vc prices) v (nts @ pn) fs = (rep, fs')" and r: "r = Inr rep"
    using assms ne sc by (auto simp: materialize_cio_decision_def Let_def split: if_splits sum.splits prod.splits)
  note au = run_validated_untouched[OF run assms(2)]
  have "fr_validation_approved rep = ev_approved v" and "fr_prices_used rep = prices"
    using run by (auto simp: run_validated_def split: prod.splits)
  have real: "real_price = (\<lambda>(s, l). 0 < l \<and> \<not> looks_like_stub_last s l STUB_TOLERANCE)" by (rule ext) (auto simp: real_price_def)
  have live: "requires_live_market_prices cfg \<longrightarrow>
      list_all (\<lambda>(s, l). 0 < l \<and> \<not> looks_like_stub_last s l STUB_TOLERANCE) (fr_prices_used rep)"
    using resolved_prices_real[OF _ px] unfolding \<open>fr_prices_used rep = prices\<close> real by simp
  have "paper_auto_submit_allowed cfg" "fc_allow_submit fc" "ev_approved v"
    using au by (simp_all add: auto_submit_def)
  then show ?thesis using au r live \<open>fr_validation_approved rep = ev_approved v\<close> by (simp add: paper_auto_submit_allowed_def)
qed


section \<open>A sale on the mock broker\<close>

definition sample_auto :: settings where
  "sample_auto = default_settings\<lparr>cfg_enable_broker_orders := True, cfg_enable_automated_execution := True\<rparr>"

definition sample_call :: "MockBroker firm_call" where
  "sample_call = \<lparr>fc_api = sample_api, fc_quotes = (\<lambda>_. Inr []), fc_live = (\<lambda>_. Some 100), fc_book = (\<lambda>_. Inr (sample_account 1000, sample_positions)),
     fc_uuid = sample_uuid, fc_now = 5, fc_engine = sample_engine, fc_ledger = [], fc_context = sample_context,
     fc_create_intents = True, fc_allow_submit = True, fc_block_new_entries = False\<rparr>"

definition sample_firm :: "MockBroker firm_state" where
  "sample_firm = \<lparr>fs_exec = sample_exec (sample_intent ''buy'' IS_CREATED), fs_portfolio = empty_store\<rparr>"

abbreviation sample_materialized :: "firm_report py \<times> MockBroker firm_state" where
  "sample_materialized \<equiv> materialize_cio_decision sample_call sample_auto (sample_decision [sample_plan SA_SELL ''spy'']) sample_firm"

lemma sample_materialized_order: "map ord_symbol (dk_orders (es_desk (fs_exec (snd sample_materialized)))) = [''SPY'']"
  by code_simp

theorem firm_submits_only_on_paper_witness:
  "desk_touched sample_firm (snd sample_materialized) \<and> cfg_enable_automated_execution sample_auto
   \<and> \<not> cfg_require_manual_order_approval sample_auto"
proof -
  have t: "desk_touched sample_firm (snd sample_materialized)"
    using sample_materialized_order by (auto simp: desk_touched_def sample_firm_def sample_exec_def sample_desk_def empty_desk_def)
  show ?thesis using t firm_submits_only_on_paper[OF prod.collapse[symmetric] t] by blast
qed

end
