(* ===== verification/Performance.thy ===== *)
theory Performance
  imports Book_Strategy
begin

text \<open>
  Performance measurement: \<open>performance/types.py\<close>, \<open>drawdown.py\<close>, \<open>returns.py\<close>, \<open>trades.py\<close>,
  \<open>mae_mfe.py\<close> and \<open>calibration.py\<close>.  Values are the rationals of the doubles the code computes
  with (\<open>Py_Float\<close>); the points of one equity curve are instants of one kind, in microseconds.
  The running scan of the drawdowns is shown equal to the textbook definition (the worst of every
  point against the running maximum before it), the counters of the trade statistics to the longest
  runs, the per-book slices to a partition, and the bisection to stay inside its bracket.
\<close>

section \<open>Metric results\<close>

datatype MetricStatus = AVAILABLE | INSUFFICIENT_DATA | UNRELIABLE | UNAVAILABLE

record MetricResult =
  met_name :: string
  met_value :: "rat option"
  met_period_start :: "int option"
  met_period_end :: "int option"
  met_observation_count :: int
  met_annualization_factor :: "rat option"
  met_risk_free_rate :: "rat option"
  met_benchmark :: "string option"
  met_method :: string
  met_calculation_version :: string
  met_data_quality :: "string option"
  met_status :: MetricStatus

definition CALCULATION_VERSION :: string where "CALCULATION_VERSION = ''1.0.0''"
definition ANNUALIZATION_FACTOR :: rat where "ANNUALIZATION_FACTOR = 252"

text \<open>The keyword arguments a caller leaves out are set by record update.\<close>

definition metric_result :: "string \<Rightarrow> rat option \<Rightarrow> MetricResult" where
  "metric_result name v = \<lparr>met_name = name, met_value = v, met_period_start = None, met_period_end = None,
     met_observation_count = 0, met_annualization_factor = None, met_risk_free_rate = None, met_benchmark = None,
     met_method = '''', met_calculation_version = CALCULATION_VERSION, met_data_quality = None,
     met_status = AVAILABLE\<rparr>"

section \<open>The statistics the sources use\<close>

text \<open>
  \<open>statistics.mean\<close> sums exact fractions and rounds once; \<open>statistics.median\<close> sorts and takes the
  middle, or half the float sum of the two middle values.
\<close>

definition mean :: "rat list \<Rightarrow> rat" where
  "mean xs = fl (sum_list xs / of_nat (length xs))"

definition median :: "rat list \<Rightarrow> rat" where
  "median xs = (let s = sort xs; n = length xs in
     if odd n then s ! (n div 2) else fdiv (fadd (s ! (n div 2 - 1)) (s ! (n div 2))) 2)"

definition opt_stat :: "(rat list \<Rightarrow> rat) \<Rightarrow> rat list \<Rightarrow> rat option" where
  "opt_stat f xs = (if xs = [] then None else Some (f xs))"

text \<open>\<open>min(xs, key=k)\<close>: the first of the least.\<close>

fun min_key :: "('a \<Rightarrow> rat) \<Rightarrow> 'a \<Rightarrow> 'a list \<Rightarrow> 'a" where
  "min_key k b [] = b"
| "min_key k b (x # xs) = min_key k (if k x < k b then x else b) xs"

section \<open>Drawdowns\<close>

type_synonym EquityPoint = "int \<times> rat"

datatype DrawdownStatus = DD_ACTIVE | DD_RECOVERED

record DrawdownPeriod =
  ddp_peak_at :: int
  ddp_peak_value :: rat
  ddp_trough_at :: int
  ddp_trough_value :: rat
  ddp_recovered_at :: "int option"
  ddp_drawdown_pct :: rat
  ddp_duration_days :: int
  ddp_recovery_days :: "int option"
  ddp_status :: DrawdownStatus

definition days_between :: "int \<Rightarrow> int \<Rightarrow> int" where
  "days_between a b = max 0 (ffloordiv (total_seconds (b - a)) 86400)"

text \<open>The variables of the scan.\<close>

record drawdown_scan =
  ds_periods :: "DrawdownPeriod list"
  ds_peak_val :: rat
  ds_peak_at :: int
  ds_trough_val :: rat
  ds_trough_at :: int
  ds_in_dd :: bool

definition drawdown_start :: "EquityPoint \<Rightarrow> drawdown_scan" where
  "drawdown_start p = \<lparr>ds_periods = [], ds_peak_val = snd p, ds_peak_at = fst p,
     ds_trough_val = snd p, ds_trough_at = fst p, ds_in_dd = False\<rparr>"

definition drawdown_pct_of :: "rat \<Rightarrow> rat \<Rightarrow> rat" where
  "drawdown_pct_of v p = fdiv (fsub v p) p"

definition period_of :: "drawdown_scan \<Rightarrow> int option \<Rightarrow> DrawdownPeriod" where
  "period_of s recovered = \<lparr>ddp_peak_at = ds_peak_at s, ddp_peak_value = ds_peak_val s,
     ddp_trough_at = ds_trough_at s, ddp_trough_value = ds_trough_val s, ddp_recovered_at = recovered,
     ddp_drawdown_pct = (if ds_peak_val s \<noteq> 0 then drawdown_pct_of (ds_trough_val s) (ds_peak_val s) else 0),
     ddp_duration_days = days_between (ds_peak_at s) (ds_trough_at s),
     ddp_recovery_days = map_option (days_between (ds_trough_at s)) recovered,
     ddp_status = (case recovered of None \<Rightarrow> DD_ACTIVE | Some _ \<Rightarrow> DD_RECOVERED)\<rparr>"

definition drawdown_step :: "drawdown_scan \<Rightarrow> EquityPoint \<Rightarrow> drawdown_scan" where
  "drawdown_step s p = (case p of (dt, val) \<Rightarrow>
     if ds_peak_val s \<le> val
     then \<lparr>ds_periods = ds_periods s @ (if ds_in_dd s then [period_of s (Some dt)] else []),
           ds_peak_val = val, ds_peak_at = dt, ds_trough_val = val, ds_trough_at = dt, ds_in_dd = False\<rparr>
     else if val < ds_trough_val s
     then s\<lparr>ds_in_dd := True, ds_trough_val := val, ds_trough_at := dt\<rparr>
     else s\<lparr>ds_in_dd := True\<rparr>)"

definition compute_drawdowns :: "EquityPoint list \<Rightarrow> DrawdownPeriod list" where
  "compute_drawdowns curve =
     (if length curve < 2 then []
      else let s = foldl drawdown_step (drawdown_start (hd curve)) (tl curve) in
        ds_periods s @ (if ds_in_dd s \<and> 0 < ds_peak_val s then [period_of s None] else []))"

definition max_drawdown :: "EquityPoint list \<Rightarrow> MetricResult" where
  "max_drawdown curve = (case compute_drawdowns curve of
     [] \<Rightarrow> (metric_result ''max_drawdown'' None)\<lparr>met_status := INSUFFICIENT_DATA,
             met_observation_count := int (length curve), met_method := ''peak_to_trough''\<rparr>
   | d # ds \<Rightarrow> let worst = min_key ddp_drawdown_pct d ds in
       (metric_result ''max_drawdown'' (Some (ddp_drawdown_pct worst)))\<lparr>met_period_start := Some (ddp_peak_at worst),
         met_period_end := Some (ddp_trough_at worst), met_observation_count := int (length curve),
         met_method := ''peak_to_trough''\<rparr>)"

definition current_drawdown :: "EquityPoint list \<Rightarrow> MetricResult" where
  "current_drawdown curve =
     (if curve = [] then (metric_result ''current_drawdown'' None)\<lparr>met_status := INSUFFICIENT_DATA,
        met_method := ''peak_to_current''\<rparr>
      else let peak_val = Max (set (map snd curve)); current = snd (last curve) in
        if peak_val = 0
        then (metric_result ''current_drawdown'' None)\<lparr>met_status := UNRELIABLE,
          met_observation_count := int (length curve), met_method := ''peak_to_current''\<rparr>
        else (metric_result ''current_drawdown'' (Some (drawdown_pct_of current peak_val)))\<lparr>
          met_period_start := Some (fst (hd curve)), met_period_end := Some (fst (last curve)),
          met_observation_count := int (length curve), met_method := ''peak_to_current''\<rparr>)"

subsection \<open>The scan against the definition\<close>

text \<open>
  The textbook definition, with the rounding of the code: every point below the running maximum
  of the points before it counts with its relative distance to that maximum.
\<close>

fun dips_from :: "rat \<Rightarrow> rat list \<Rightarrow> rat list" where
  "dips_from m [] = []"
| "dips_from m (v # vs) = (if v < m then [drawdown_pct_of v m] else []) @ dips_from (max m v) vs"

definition dips :: "EquityPoint list \<Rightarrow> rat list" where
  "dips curve = (case map snd curve of [] \<Rightarrow> [] | v # vs \<Rightarrow> dips_from v vs)"

lemma min_key_mem: "min_key k b xs \<in> insert b (set xs)"
  by (induction xs arbitrary: b) (auto split: if_splits)

lemma min_key_le: "x \<in> insert b (set xs) \<Longrightarrow> k (min_key k b xs) \<le> k x"
proof (induction xs arbitrary: b x)
  case (Cons a xs)
  let ?c = "if k a < k b then a else b"
  have "k ?c \<le> k a \<and> k ?c \<le> k b" by auto
  moreover have "k (min_key k ?c xs) \<le> k ?c" by (rule Cons.IH) simp
  moreover have "x \<in> set xs \<Longrightarrow> k (min_key k ?c xs) \<le> k x" by (rule Cons.IH) simp
  ultimately show ?case using Cons.prems by fastforce
qed simp

lemma min_key_Min: "k (min_key k b xs) = Min (k ` insert b (set xs))"
proof (rule Min_eqI [symmetric])
  show "k (min_key k b xs) \<in> k ` insert b (set xs)" using min_key_mem[of k b xs] by blast
qed (use min_key_le[of _ b xs k] in auto)

lemma drawdown_pct_mono: "0 < p \<Longrightarrow> v \<le> w \<Longrightarrow> drawdown_pct_of v p \<le> drawdown_pct_of w p"
  by (simp add: drawdown_pct_of_def fdiv_def fsub_def fl_mono divide_right_mono)

text \<open>
  Two lists of figures with the same lower bounds: the scan keeps one figure per period, the
  definition one per point.
\<close>

definition same_floor :: "rat set \<Rightarrow> rat set \<Rightarrow> bool" where
  "same_floor A B \<longleftrightarrow> A \<subseteq> B \<and> (\<forall>b\<in>B. \<exists>a\<in>A. a \<le> b)"

lemma same_floor_refl [simp]: "same_floor A A"
  by (auto simp: same_floor_def)

lemma same_floor_Un: "same_floor A B \<Longrightarrow> same_floor C D \<Longrightarrow> same_floor (A \<union> C) (B \<union> D)"
  by (fastforce simp: same_floor_def)

lemma same_floor_Min:
  assumes "same_floor A B" "finite B" "B \<noteq> {}"
  shows "A \<noteq> {} \<and> Min A = Min B"
proof -
  have sub: "A \<subseteq> B" and ne: "A \<noteq> {}" using assms by (auto simp: same_floor_def)
  have fin: "finite A" using sub assms(2) finite_subset by blast
  have "Min B \<in> B" using assms by simp
  then obtain a where a: "a \<in> A" "a \<le> Min B" using assms(1) by (auto simp: same_floor_def)
  have "Min A \<le> Min B" using Min_le[OF fin a(1)] a(2) by simp
  moreover have "Min B \<le> Min A" using sub ne assms(2) by (rule Min_antimono)
  ultimately show ?thesis using ne by simp
qed

text \<open>The figures a scan already stands for: the closed periods and the open one.\<close>

definition scan_figures :: "drawdown_scan \<Rightarrow> rat set" where
  "scan_figures s = ddp_drawdown_pct ` set (ds_periods s)
     \<union> (if ds_in_dd s then {drawdown_pct_of (ds_trough_val s) (ds_peak_val s)} else {})"

definition scan_ok :: "drawdown_scan \<Rightarrow> bool" where
  "scan_ok s \<longleftrightarrow> 0 < ds_peak_val s \<and> (if ds_in_dd s then ds_trough_val s < ds_peak_val s else ds_trough_val s = ds_peak_val s)"

lemma drawdown_step_inv:
  assumes "scan_ok s" "same_floor (scan_figures s) D"
  shows "scan_ok (drawdown_step s (t, v)) \<and> ds_peak_val (drawdown_step s (t, v)) = max (ds_peak_val s) v
    \<and> same_floor (scan_figures (drawdown_step s (t, v)))
        (D \<union> (if v < ds_peak_val s then {drawdown_pct_of v (ds_peak_val s)} else {}))"
proof (cases "ds_peak_val s \<le> v")
  case True
  then show ?thesis using assms
    by (cases "ds_in_dd s")
      (auto simp: drawdown_step_def scan_ok_def scan_figures_def period_of_def image_Un insert_commute Un_commute max_def)
next
  case False
  then have p: "0 < ds_peak_val s" using assms(1) by (simp add: scan_ok_def)
  let ?d = "\<lambda>x. drawdown_pct_of x (ds_peak_val s)"
  have le: "ds_in_dd s \<Longrightarrow> v < ds_trough_val s \<Longrightarrow> ?d v \<le> ?d (ds_trough_val s)"
    "ds_trough_val s \<le> v \<Longrightarrow> ?d (ds_trough_val s) \<le> ?d v"
    using drawdown_pct_mono[OF p] by auto
  show ?thesis
  proof (cases "v < ds_trough_val s")
    case True
    then show ?thesis using assms False le(1)
      by (fastforce simp: drawdown_step_def scan_ok_def scan_figures_def same_floor_def split: if_splits)
  next
    case below: False
    have dd: "ds_in_dd s" using below False assms(1) by (auto simp: scan_ok_def split: if_splits)
    then show ?thesis using assms False below le(2)
      by (fastforce simp: drawdown_step_def scan_ok_def scan_figures_def same_floor_def split: if_splits)
  qed
qed

lemma drawdown_scan_inv:
  assumes "scan_ok s" "same_floor (scan_figures s) D"
  shows "scan_ok (foldl drawdown_step s ps)
    \<and> same_floor (scan_figures (foldl drawdown_step s ps)) (D \<union> set (dips_from (ds_peak_val s) (map snd ps)))"
  using assms
proof (induction ps arbitrary: s D)
  case (Cons p ps)
  obtain t v where p: "p = (t, v)" by fastforce
  from Cons.IH[OF drawdown_step_inv[OF Cons.prems, of t v, THEN conjunct1]
      drawdown_step_inv[OF Cons.prems, of t v, THEN conjunct2, THEN conjunct2]]
    drawdown_step_inv[OF Cons.prems, of t v]
  show ?case by (auto simp: p Un_assoc Un_insert_left insert_def[symmetric] split: if_splits)
qed simp

lemma compute_drawdowns_dips:
  assumes "0 < snd p"
  shows "same_floor (ddp_drawdown_pct ` set (compute_drawdowns (p # ps))) (set (dips (p # ps)))"
proof -
  let ?s = "foldl drawdown_step (drawdown_start p) ps"
  have "scan_ok (drawdown_start p)" "same_floor (scan_figures (drawdown_start p)) {}"
    using assms by (auto simp: scan_ok_def drawdown_start_def scan_figures_def)
  from drawdown_scan_inv[OF this, of ps]
  have ok: "scan_ok ?s" and sf: "same_floor (scan_figures ?s) (set (dips (p # ps)))"
    by (simp_all add: dips_def drawdown_start_def)
  have "ddp_drawdown_pct ` set (compute_drawdowns (p # ps)) = scan_figures ?s"
  proof (cases ps)
    case Nil
    then show ?thesis by (simp add: compute_drawdowns_def scan_figures_def drawdown_start_def)
  next
    case (Cons q qs)
    then show ?thesis using ok
      by (auto simp: compute_drawdowns_def scan_figures_def scan_ok_def period_of_def Let_def image_Un)
  qed
  then show ?thesis using sf by simp
qed

text \<open>
  Property C38.  On an equity curve that starts above zero, the maximum drawdown the one-pass scan reports is
  the worst relative distance of any point to the running maximum before it; it reports no figure
  exactly when no point lies below its running maximum.
\<close>

theorem max_drawdown_is_worst_dip:
  assumes "0 < snd (hd curve)" "curve \<noteq> []"
  shows "met_value (max_drawdown curve) = (if dips curve = [] then None else Some (Min (set (dips curve))))"
proof -
  obtain p ps where c: "curve = p # ps" using assms(2) by (cases curve) auto
  have sf: "same_floor (ddp_drawdown_pct ` set (compute_drawdowns curve)) (set (dips curve))"
    using compute_drawdowns_dips[of p ps] assms(1) c by simp
  show ?thesis
  proof (cases "compute_drawdowns curve")
    case Nil
    then have "dips curve = []" using sf by (auto simp: same_floor_def)
    then show ?thesis using Nil by (simp add: max_drawdown_def metric_result_def)
  next
    case (Cons d ds)
    then have ne: "dips curve \<noteq> []" using sf by (auto simp: same_floor_def)
    from same_floor_Min[OF sf] ne Cons min_key_Min[of ddp_drawdown_pct d ds]
    show ?thesis by (simp add: max_drawdown_def metric_result_def Let_def)
  qed
qed

section \<open>Trade statistics\<close>

record ClosedTrade =
  clt_pnl :: rat
  clt_holding_minutes :: rat
  clt_risk_amount :: "rat option"
  clt_fees :: rat
  clt_symbol :: "string option"
  clt_horizon :: "string option"
  clt_entry_timing :: "string option"
  clt_entry_source :: "string option"
  clt_trend_at_entry :: "string option"
  clt_exit_reason :: "string option"
  clt_mfe_pct :: "rat option"
  clt_mae_pct :: "rat option"
  clt_notional :: "rat option"
  clt_fees_known :: bool
  clt_currency :: "string option"

record trade_metrics =
  tmx_win_rate :: MetricResult
  tmx_loss_rate :: MetricResult
  tmx_avg_win :: MetricResult
  tmx_avg_loss :: MetricResult
  tmx_largest_win :: MetricResult
  tmx_largest_loss :: MetricResult
  tmx_profit_factor :: MetricResult
  tmx_expectancy :: MetricResult
  tmx_payoff_ratio :: MetricResult
  tmx_avg_holding_minutes :: MetricResult
  tmx_median_holding_minutes :: MetricResult
  tmx_max_consecutive_wins :: MetricResult
  tmx_max_consecutive_losses :: MetricResult
  tmx_avg_risk_amount :: MetricResult
  tmx_avg_r_multiple :: MetricResult
  tmx_median_r_multiple :: MetricResult
  tmx_trade_count :: int

definition status_for_empty :: "string \<Rightarrow> MetricResult" where
  "status_for_empty name = (metric_result name None)\<lparr>met_status := INSUFFICIENT_DATA, met_method := ''position_lifecycle''\<rparr>"

definition float_metric :: "string \<Rightarrow> rat option \<Rightarrow> nat \<Rightarrow> string \<Rightarrow> MetricResult" where
  "float_metric name v cnt meth = (metric_result name v)\<lparr>met_observation_count := int cnt, met_method := meth\<rparr>"

definition net_pnl :: "ClosedTrade \<Rightarrow> rat" where
  "net_pnl t = (if clt_fees_known t then fsub (clt_pnl t) (clt_fees t) else clt_pnl t)"

definition empty_metrics :: trade_metrics where
  "empty_metrics = \<lparr>tmx_win_rate = status_for_empty ''win_rate'', tmx_loss_rate = status_for_empty ''loss_rate'',
     tmx_avg_win = status_for_empty ''avg_win'', tmx_avg_loss = status_for_empty ''avg_loss'',
     tmx_largest_win = status_for_empty ''largest_win'', tmx_largest_loss = status_for_empty ''largest_loss'',
     tmx_profit_factor = status_for_empty ''profit_factor'', tmx_expectancy = status_for_empty ''expectancy'',
     tmx_payoff_ratio = status_for_empty ''payoff_ratio'',
     tmx_avg_holding_minutes = status_for_empty ''avg_holding_minutes'',
     tmx_median_holding_minutes = status_for_empty ''median_holding_minutes'',
     tmx_max_consecutive_wins = status_for_empty ''max_consecutive_wins'',
     tmx_max_consecutive_losses = status_for_empty ''max_consecutive_losses'',
     tmx_avg_risk_amount = status_for_empty ''avg_risk_amount'',
     tmx_avg_r_multiple = status_for_empty ''avg_r_multiple'',
     tmx_median_r_multiple = status_for_empty ''median_r_multiple'', tmx_trade_count = 0\<rparr>"

text \<open>The counters \<open>(max_cw, max_cl, cw, cl)\<close> of the streak loop.\<close>

definition streak_step :: "nat \<times> nat \<times> nat \<times> nat \<Rightarrow> rat \<Rightarrow> nat \<times> nat \<times> nat \<times> nat" where
  "streak_step st p = (case st of (mw, ml, cw, cl) \<Rightarrow>
     if 0 < p then (max mw (cw + 1), ml, cw + 1, 0)
     else if p < 0 then (mw, max ml (cl + 1), 0, cl + 1)
     else (mw, ml, 0, 0))"

definition streaks :: "rat list \<Rightarrow> nat \<times> nat \<times> nat \<times> nat" where
  "streaks ps = foldl streak_step (0, 0, 0, 0) ps"

definition risked :: "ClosedTrade list \<Rightarrow> (ClosedTrade \<times> rat) list" where
  "risked ts = List.map_filter (\<lambda>t. case clt_risk_amount t of Some r \<Rightarrow> if 0 < r then Some (t, r) else None | None \<Rightarrow> None) ts"

definition payoff_of :: "rat option \<Rightarrow> rat option \<Rightarrow> rat option" where
  "payoff_of avg_win avg_loss = (case (avg_win, avg_loss) of
     (Some w, Some l) \<Rightarrow> if w \<noteq> 0 \<and> l \<noteq> 0 then Some (fdiv w \<bar>l\<bar>) else None | _ \<Rightarrow> None)"

definition compute_trade_metrics :: "string \<Rightarrow> ClosedTrade list \<Rightarrow> trade_metrics" where
  "compute_trade_metrics meth trades =
     (if trades = [] then empty_metrics
      else let net_pnls = map net_pnl trades; wins = filter (\<lambda>p. 0 < p) net_pnls; losses = filter (\<lambda>p. p < 0) net_pnls;
        n = length trades; avg_win = opt_stat mean wins; avg_loss = opt_stat mean losses;
        gross_profit = fsum wins; gross_loss = \<bar>fsum losses\<bar>;
        holdings = map clt_holding_minutes trades; risks = map snd (risked trades);
        r_multiples = map (\<lambda>(t, r). fdiv (net_pnl t) r) (risked trades);
        (max_cw, max_cl, _, _) = streaks net_pnls
      in \<lparr>tmx_win_rate = float_metric ''win_rate'' (Some (fdiv (of_nat (length wins)) (of_nat n))) n meth,
          tmx_loss_rate = float_metric ''loss_rate'' (Some (fdiv (of_nat (length losses)) (of_nat n))) n meth,
          tmx_avg_win = float_metric ''avg_win'' avg_win (length wins) meth,
          tmx_avg_loss = float_metric ''avg_loss'' avg_loss (length losses) meth,
          tmx_largest_win = float_metric ''largest_win'' (opt_stat (\<lambda>xs. Max (set xs)) wins) (length wins) meth,
          tmx_largest_loss = float_metric ''largest_loss'' (opt_stat (\<lambda>xs. Min (set xs)) losses) (length losses) meth,
          tmx_profit_factor = float_metric ''profit_factor''
            (if 0 < gross_loss then Some (fdiv gross_profit gross_loss) else None) n meth,
          tmx_expectancy = float_metric ''expectancy'' (Some (mean net_pnls)) n meth,
          tmx_payoff_ratio = float_metric ''payoff_ratio'' (payoff_of avg_win avg_loss) n meth,
          tmx_avg_holding_minutes = float_metric ''avg_holding_minutes'' (Some (mean holdings)) n meth,
          tmx_median_holding_minutes = float_metric ''median_holding_minutes'' (Some (median holdings)) n meth,
          tmx_max_consecutive_wins = float_metric ''max_consecutive_wins'' (Some (of_nat max_cw)) n meth,
          tmx_max_consecutive_losses = float_metric ''max_consecutive_losses'' (Some (of_nat max_cl)) n meth,
          tmx_avg_risk_amount = float_metric ''avg_risk_amount'' (opt_stat mean risks) (length risks) meth,
          tmx_avg_r_multiple = float_metric ''avg_r_multiple'' (opt_stat mean r_multiples) (length r_multiples) meth,
          tmx_median_r_multiple = float_metric ''median_r_multiple'' (opt_stat median r_multiples) (length r_multiples) meth,
          tmx_trade_count = int n\<rparr>)"

definition TRADE_BOOKS :: "string list" where
  "TRADE_BOOKS = [''scalp'', ''day'', ''short'', ''medium'', ''unknown'']"

type_synonym trade_buckets = "(string \<times> ClosedTrade list) list"

definition bucket_key :: "trade_buckets \<Rightarrow> ClosedTrade \<Rightarrow> string" where
  "bucket_key buckets t = (let key = lower (or_str (clt_horizon t) ''unknown'') in
     if dget buckets key = None then ''unknown'' else key)"

definition bucket_add :: "ClosedTrade \<Rightarrow> trade_buckets \<Rightarrow> trade_buckets py" where
  "bucket_add t buckets = (let key = bucket_key buckets t in
     case dget buckets key of None \<Rightarrow> Inl (KeyError key) | Some ts \<Rightarrow> Inr (dset buckets key (ts @ [t])))"

fun bucket_trades :: "ClosedTrade list \<Rightarrow> trade_buckets \<Rightarrow> trade_buckets py" where
  "bucket_trades [] b = Inr b"
| "bucket_trades (t # ts) b = py_bind (bucket_add t b) (bucket_trades ts)"

definition group_trade_metrics_by_horizon ::
    "string list \<Rightarrow> string \<Rightarrow> ClosedTrade list \<Rightarrow> (string \<times> trade_metrics) list py" where
  "group_trade_metrics_by_horizon books meth trades =
     py_bind (bucket_trades trades (foldl (\<lambda>d b. dset d b []) [] books))
       (\<lambda>buckets. Inr (map (\<lambda>(book, items). (book, compute_trade_metrics meth items)) buckets))"

subsection \<open>Streaks are the longest runs\<close>

definition longest_run :: "('a \<Rightarrow> bool) \<Rightarrow> 'a list \<Rightarrow> nat \<Rightarrow> bool" where
  "longest_run P xs n \<longleftrightarrow> (\<exists>as ys bs. xs = as @ ys @ bs \<and> list_all P ys \<and> length ys = n)
     \<and> (\<forall>as ys bs. xs = as @ ys @ bs \<longrightarrow> list_all P ys \<longrightarrow> length ys \<le> n)"

text \<open>The run that ends the list.\<close>

definition last_run :: "('a \<Rightarrow> bool) \<Rightarrow> 'a list \<Rightarrow> nat" where
  "last_run P xs = length (takeWhile P (rev xs))"

lemma last_run_snoc [simp]: "last_run P (xs @ [x]) = (if P x then last_run P xs + 1 else 0)"
  by (simp add: last_run_def)

lemma last_run_ge: "list_all P ys \<Longrightarrow> length ys \<le> last_run P (as @ ys)"
  by (simp add: last_run_def takeWhile_append list_all_iff)

lemma last_run_ex: "\<exists>as ys. xs = as @ ys \<and> list_all P ys \<and> length ys = last_run P xs"
proof -
  have "xs = rev (dropWhile P (rev xs)) @ rev (takeWhile P (rev xs))"
    by (metis rev_append rev_rev_ident takeWhile_dropWhile_id)
  moreover have "list_all P (rev (takeWhile P (rev xs)))"
    by (simp add: list_all_iff) (meson set_takeWhileD)
  ultimately show ?thesis by (metis last_run_def length_rev)
qed

lemma longest_run_snoc:
  assumes "longest_run P xs n"
  shows "longest_run P (xs @ [x]) (if P x then max n (last_run P xs + 1) else n)"
proof -
  have le: "length ys \<le> (if P x then max n (last_run P xs + 1) else n)"
    if e: "xs @ [x] = as @ ys @ bs" and P: "list_all P ys" for as ys bs
  proof (cases bs rule: rev_cases)
    case Nil
    show ?thesis
    proof (cases ys rule: rev_cases)
      case (snoc zs z)
      then have "xs = as @ zs" "P x" "list_all P zs" using e Nil P by auto
      then show ?thesis using snoc last_run_ge[of P zs as] by simp
    qed simp
  next
    case (snoc cs c)
    then have "xs = as @ ys @ cs" using e by simp
    then have "length ys \<le> n" using assms P unfolding longest_run_def by blast
    then show ?thesis by (simp add: le_max_iff_disj)
  qed
  obtain as ys bs where seg: "xs = as @ ys @ bs" "list_all P ys" "length ys = n"
    using assms unfolding longest_run_def by blast
  obtain cs zs where run: "xs = cs @ zs" "list_all P zs" "length zs = last_run P xs" using last_run_ex by metis
  have ex: "\<exists>as ys bs. xs @ [x] = as @ ys @ bs \<and> list_all P ys \<and> length ys = m"
    if "m = n \<or> P x \<and> m = last_run P xs + 1" for m
  proof (cases "m = n")
    case True
    then show ?thesis using seg by (intro exI[of _ as] exI[of _ ys] exI[of _ "bs @ [x]"]) simp
  next
    case False
    then show ?thesis using that run by (intro exI[of _ cs] exI[of _ "zs @ [x]"] exI[of _ "[]"]) simp
  qed
  show ?thesis unfolding longest_run_def using le ex by (auto simp: max_def split: if_splits)
qed

lemma streaks_inv:
  "streaks ps = (mw, ml, cw, cl) \<Longrightarrow>
     cw = last_run (\<lambda>p. 0 < p) ps \<and> cl = last_run (\<lambda>p. p < 0) ps
     \<and> longest_run (\<lambda>p. 0 < p) ps mw \<and> longest_run (\<lambda>p. p < 0) ps ml"
proof (induction ps arbitrary: mw ml cw cl rule: rev_induct)
  case Nil
  then show ?case by (simp add: streaks_def last_run_def longest_run_def)
next
  case (snoc p ps)
  obtain a b c d where st: "streaks ps = (a, b, c, d)" by (metis prod_cases4)
  from snoc.IH[OF st] snoc.prems
    longest_run_snoc[of "\<lambda>p. 0 < p" ps a p] longest_run_snoc[of "\<lambda>p. p < 0" ps b p]
  show ?case by (auto simp: streaks_def[of "ps @ [p]"] st[unfolded streaks_def] streak_step_def split: if_splits)
qed

text \<open>
  The trade statistics of a non-empty list of closed trades: the two streak figures are the lengths of
  the longest runs of winning and of losing trades after fees.
\<close>

theorem streaks_are_longest_runs:
  assumes "trades \<noteq> []"
  shows "\<exists>w l. met_value (tmx_max_consecutive_wins (compute_trade_metrics meth trades)) = Some (of_nat w)
    \<and> met_value (tmx_max_consecutive_losses (compute_trade_metrics meth trades)) = Some (of_nat l)
    \<and> longest_run (\<lambda>p. 0 < p) (map net_pnl trades) w \<and> longest_run (\<lambda>p. p < 0) (map net_pnl trades) l"
proof -
  obtain w l c d where st: "streaks (map net_pnl trades) = (w, l, c, d)" by (metis prod_cases4)
  show ?thesis using streaks_inv[OF st] assms
    by (intro exI[of _ w] exI[of _ l]) (simp add: compute_trade_metrics_def st Let_def float_metric_def metric_result_def)
qed

subsection \<open>The per-book slices partition the trades\<close>

definition book_of_trade :: "string list \<Rightarrow> ClosedTrade \<Rightarrow> string" where
  "book_of_trade books t = (let key = lower (or_str (clt_horizon t) ''unknown'') in if key \<in> set books then key else ''unknown'')"

lemma dset_map:
  "dict_ok d \<Longrightarrow> k \<in> set (dkeys d) \<Longrightarrow> dset d k w = map (\<lambda>(j, x). (j, if j = k then w else x)) d"
proof (induction d)
  case (Cons a d)
  have "map (\<lambda>(j, x). (j, if j = k then w else x)) d = d" if "k \<notin> fst ` set d"
    using that by (intro map_idI) (force split: prod.splits)
  then show ?case using Cons by (cases a) (auto simp: dkeys_def dict_ok_def)
qed (simp add: dkeys_def)

lemma bucket_add_spec:
  assumes "dict_ok d" "''unknown'' \<in> set (dkeys d)"
  shows "bucket_add t d = Inr (map (\<lambda>(b, items). (b, if b = book_of_trade (dkeys d) t then items @ [t] else items)) d)"
proof -
  have key: "bucket_key d t = book_of_trade (dkeys d) t"
    by (simp add: bucket_key_def book_of_trade_def dget_None_iff Let_def)
  have mem: "book_of_trade (dkeys d) t \<in> set (dkeys d)" using assms(2) by (simp add: book_of_trade_def Let_def)
  then obtain ts where ts: "dget d (book_of_trade (dkeys d) t) = Some ts" using dget_None_iff by fastforce
  have "(b, items) \<in> set d \<Longrightarrow> b = book_of_trade (dkeys d) t \<Longrightarrow> items = ts" for b items
    using ts dget_mem[OF assms(1)] by simp
  then show ?thesis using ts mem
    by (auto simp: bucket_add_def key Let_def dset_map[OF assms(1)])
qed

lemma bucket_trades_spec:
  assumes "dict_ok d" "''unknown'' \<in> set (dkeys d)"
  shows "bucket_trades ts d = Inr (map (\<lambda>(b, items). (b, items @ filter (\<lambda>t. book_of_trade (dkeys d) t = b) ts)) d)"
  using assms
proof (induction ts arbitrary: d)
  case Nil
  then show ?case by (auto intro: map_idI[symmetric])
next
  case (Cons t ts)
  let ?d = "map (\<lambda>(b, items). (b, if b = book_of_trade (dkeys d) t then items @ [t] else items)) d"
  have keys: "dkeys ?d = dkeys d" by (simp add: dkeys_def comp_def case_prod_unfold)
  then have "dict_ok ?d" using Cons.prems(1) by (simp add: dict_ok_def)
  then have "bucket_trades ts ?d = Inr (map (\<lambda>(b, items). (b, items @ filter (\<lambda>t. book_of_trade (dkeys d) t = b) ts)) ?d)"
    using Cons.IH[of ?d] Cons.prems(2) keys by simp
  then show ?case using bucket_add_spec[OF Cons.prems, of t] by (auto simp: comp_def case_prod_unfold)
qed

lemma start_buckets: "distinct books \<Longrightarrow> foldl (\<lambda>d b. dset d b []) [] books = map (\<lambda>b. (b, [])) books"
proof (induction books rule: rev_induct)
  case (snoc b bs)
  then show ?case by (simp add: dset_fresh dkeys_def comp_def)
qed simp

lemma filter_lengths: "distinct bs \<Longrightarrow> (\<forall>x\<in>set xs. f x \<in> set bs) \<Longrightarrow>
  sum_list (map (\<lambda>b. length (filter (\<lambda>x. f x = b) xs)) bs) = length xs"
proof (induction xs)
  case (Cons x xs)
  have "sum_list (map (\<lambda>b. if f x = b then 1 else 0 :: nat) bs) = 1"
    using Cons.prems by (simp add: sum_list_map_eq_sum_count2 sum_list_distinct_conv_sum_set)
  moreover have "sum_list (map (\<lambda>b. length (filter (\<lambda>x. f x = b) (x # xs))) bs)
    = sum_list (map (\<lambda>b. if f x = b then 1 else 0 :: nat) bs) + sum_list (map (\<lambda>b. length (filter (\<lambda>x. f x = b) xs)) bs)"
    by (subst sum_list_addf [symmetric]) (rule arg_cong[where f = sum_list], simp)
  ultimately show ?case using Cons by simp
qed simp

lemma trade_count [simp]: "tmx_trade_count (compute_trade_metrics meth ts) = int (length ts)"
  by (auto simp: compute_trade_metrics_def empty_metrics_def Let_def split: prod.splits)

text \<open>
  With distinct books among which is \<open>unknown\<close> the per-book slices are the statistics of the trades
  of each book, in the order of the books, a trade of no listed book being booked as unknown; the
  trade counts of the slices add up to the number of trades, so no trade is lost or counted twice.
\<close>

theorem trade_slices_partition:
  assumes "distinct books" "''unknown'' \<in> set books"
  shows "\<exists>r. group_trade_metrics_by_horizon books meth trades = Inr r
    \<and> r = map (\<lambda>b. (b, compute_trade_metrics meth (filter (\<lambda>t. book_of_trade books t = b) trades))) books
    \<and> sum_list (map (\<lambda>(b, m). tmx_trade_count m) r) = int (length trades)"
proof -
  have k: "dkeys (map (\<lambda>b. (b, [] :: ClosedTrade list)) books) = books" "dict_ok (map (\<lambda>b. (b, [] :: ClosedTrade list)) books)"
    using assms(1) by (simp_all add: dkeys_def dict_ok_def comp_def)
  have "\<forall>t\<in>set trades. book_of_trade books t \<in> set books" using assms(2) by (simp add: book_of_trade_def Let_def)
  then have n: "sum_list (map (\<lambda>b. length (filter (\<lambda>t. book_of_trade books t = b) trades)) books) = length trades"
    by (rule filter_lengths[OF assms(1)])
  have "sum_list (map (\<lambda>b. int (length (filter (\<lambda>t. book_of_trade books t = b) trades))) books) = int (length trades)"
    by (subst n [symmetric]) (simp add: sum_list_of_nat [symmetric] comp_def)
  moreover have "bucket_trades trades (map (\<lambda>b. (b, [])) books)
      = Inr (map (\<lambda>b. (b, filter (\<lambda>t. book_of_trade books t = b) trades)) books)"
    using bucket_trades_spec[OF k(2)] k(1) assms(2) by (simp add: comp_def)
  ultimately show ?thesis using assms(1)
    by (simp add: group_trade_metrics_by_horizon_def start_buckets comp_def)
qed

section \<open>Returns\<close>

definition simple_return :: "rat \<Rightarrow> rat \<Rightarrow> rat" where
  "simple_return start_v end_v = (if start_v = 0 then 0 else fdiv (fsub end_v start_v) start_v)"

fun daily_returns :: "EquityPoint list \<Rightarrow> EquityPoint list" where
  "daily_returns (p # q # ps) = (fst q, simple_return (snd p) (snd q)) # daily_returns (q # ps)"
| "daily_returns ps = []"

definition cumulative_return :: "rat list \<Rightarrow> rat" where
  "cumulative_return rs = fsub (foldl (\<lambda>c r. fmul c (fadd 1 r)) 1 rs) 1"

definition time_weighted_return :: "rat list \<Rightarrow> MetricResult" where
  "time_weighted_return rs =
     (if rs = [] then (metric_result ''time_weighted_return'' None)\<lparr>met_status := INSUFFICIENT_DATA, met_method := ''chain_link''\<rparr>
      else (metric_result ''time_weighted_return'' (Some (cumulative_return rs)))\<lparr>met_observation_count := int (length rs),
        met_method := ''chain_link''\<rparr>)"

text \<open>
  The power of two floats is the platform's \<open>pow\<close>: the parameter \<open>pw\<close>, which may raise.  The net
  present value divides by it.
\<close>

fun npv_terms :: "(rat \<Rightarrow> rat \<Rightarrow> rat py) \<Rightarrow> (rat \<times> rat) list \<Rightarrow> rat \<Rightarrow> rat list py" where
  "npv_terms pw [] rate = Inr []"
| "npv_terms pw ((t, amt) # fs) rate =
     py_bind (pw (fadd 1 rate) t) (\<lambda>d. if d = 0 then Inl ZeroDivisionError
       else py_bind (npv_terms pw fs rate) (\<lambda>xs. Inr (fdiv amt d # xs)))"

definition npv :: "(rat \<Rightarrow> rat \<Rightarrow> rat py) \<Rightarrow> (rat \<times> rat) list \<Rightarrow> rat \<Rightarrow> rat py" where
  "npv pw flows rate = py_bind (npv_terms pw flows rate) (\<lambda>xs. Inr (fsum xs))"

fun irr_loop :: "(rat \<Rightarrow> rat \<Rightarrow> rat py) \<Rightarrow> (rat \<times> rat) list \<Rightarrow> rat \<Rightarrow> nat \<Rightarrow> rat \<Rightarrow> rat \<Rightarrow> rat \<Rightarrow> rat py" where
  "irr_loop pw flows tol 0 lo hi f_lo = Inr (fdiv (fadd lo hi) 2)"
| "irr_loop pw flows tol (Suc n) lo hi f_lo =
     (let mid = fdiv (fadd lo hi) 2 in
      py_bind (npv pw flows mid) (\<lambda>f_mid.
        if \<bar>f_mid\<bar> < tol then Inr mid
        else if fmul f_lo f_mid \<le> 0 then irr_loop pw flows tol n lo mid f_lo
        else irr_loop pw flows tol n mid hi f_mid))"

definition IRR_LO :: rat where "IRR_LO = fl (- 9999 / 10000)"
definition IRR_HI :: rat where "IRR_HI = 10"

definition irr_bisection :: "(rat \<Rightarrow> rat \<Rightarrow> rat py) \<Rightarrow> (rat \<times> rat) list \<Rightarrow> rat \<Rightarrow> rat option py" where
  "irr_bisection pw flows tol =
     (if length flows < 2 then Inr None
      else py_bind (npv pw flows IRR_LO) (\<lambda>f_lo. py_bind (npv pw flows IRR_HI) (\<lambda>f_hi.
        if 0 < fmul f_lo f_hi then Inr None
        else py_bind (irr_loop pw flows tol 200 IRR_LO IRR_HI f_lo) (\<lambda>r. Inr (Some r)))))"

definition money_weighted_return ::
    "(rat \<Rightarrow> rat \<Rightarrow> rat py) \<Rightarrow> rat \<Rightarrow> rat \<Rightarrow> int \<Rightarrow> int \<Rightarrow> EquityPoint list option \<Rightarrow> int \<Rightarrow> MetricResult py" where
  "money_weighted_return pw start_v end_v period_start period_end cashflows min_obs =
     (let base = (\<lambda>v. (metric_result ''money_weighted_return'' v)\<lparr>met_period_start := Some period_start,
            met_period_end := Some period_end, met_method := ''irr''\<rparr>);
          n = int (length (case cashflows of None \<Rightarrow> [] | Some cs \<Rightarrow> cs))
      in case cashflows of
        None \<Rightarrow> Inr ((base None)\<lparr>met_status := INSUFFICIENT_DATA, met_observation_count := n\<rparr>)
      | Some cs \<Rightarrow>
          if n < min_obs - 1 then Inr ((base None)\<lparr>met_status := INSUFFICIENT_DATA, met_observation_count := n\<rparr>)
          else let span = max (total_seconds (period_end - period_start)) 1;
                 flows = (0, - start_v) # map (\<lambda>(dt, amt). (fdiv (total_seconds (dt - period_start)) span, amt)) cs @ [(1, end_v)]
               in py_bind (irr_bisection pw flows (fl (1 / 100000000))) (\<lambda>rate. Inr (case rate of
                    None \<Rightarrow> (base None)\<lparr>met_status := UNRELIABLE, met_observation_count := n + 2\<rparr>
                  | Some r \<Rightarrow> (base (Some r))\<lparr>met_observation_count := n + 2\<rparr>)))"

definition annualized_return :: "(rat \<Rightarrow> rat \<Rightarrow> rat py) \<Rightarrow> rat \<Rightarrow> int \<Rightarrow> rat \<Rightarrow> MetricResult py" where
  "annualized_return pw total_return periods per_year =
     (let base = (\<lambda>v. (metric_result ''annualized_return'' v)\<lparr>met_observation_count := periods,
            met_annualization_factor := Some per_year, met_method := ''geometric''\<rparr>)
      in if periods < 1 then Inr ((base None)\<lparr>met_status := INSUFFICIENT_DATA\<rparr>)
         else if per_year = 0 then Inl ZeroDivisionError
         else let years = fdiv (of_int periods) per_year in
           if years \<le> 0 then Inr ((base None)\<lparr>met_status := UNRELIABLE\<rparr>)
           else py_bind (pw (fadd 1 total_return) (fdiv 1 years)) (\<lambda>g. Inr (base (Some (fsub g 1)))))"

text \<open>
  Benchmark alignment by calendar day; \<open>date_of\<close> is the \<open>date()\<close> of an instant (\<open>ord_of\<close> on instants
  in UTC).  One portfolio day without a benchmark return makes the pair unavailable.
\<close>

definition bench_map :: "EquityPoint list \<Rightarrow> (int \<times> rat) list" where
  "bench_map benchmark = foldl (\<lambda>d (dt, r). dset d (ord_of dt) r) [] benchmark"

fun align_returns :: "(int \<times> rat) list \<Rightarrow> EquityPoint list \<Rightarrow> (rat list \<times> rat list) option" where
  "align_returns bm [] = Some ([], [])"
| "align_returns bm ((dt, r) # ps) = (case dget bm (ord_of dt) of
     None \<Rightarrow> None
   | Some b \<Rightarrow> map_option (\<lambda>(p_rets, b_rets). (r # p_rets, b # b_rets)) (align_returns bm ps))"

definition excess_return :: "EquityPoint list \<Rightarrow> EquityPoint list \<Rightarrow> rat \<Rightarrow> string option \<Rightarrow> MetricResult" where
  "excess_return portfolio benchmark rf name =
     (let base = (\<lambda>v. (metric_result ''excess_return'' v)\<lparr>met_benchmark := name, met_method := ''aligned_daily''\<rparr>)
      in case align_returns (bench_map benchmark) portfolio of
        None \<Rightarrow> (base None)\<lparr>met_status := UNAVAILABLE\<rparr>
      | Some (p_rets, b_rets) \<Rightarrow>
          if p_rets = [] then (base None)\<lparr>met_status := INSUFFICIENT_DATA\<rparr>
          else let avg_excess = fdiv (fsum (map (\<lambda>(p, b). fsub (fsub p b) (fdiv rf ANNUALIZATION_FACTOR)) (zip p_rets b_rets)))
                 (of_nat (length p_rets))
               in (base (Some (fmul avg_excess ANNUALIZATION_FACTOR)))\<lparr>met_observation_count := int (length p_rets),
                    met_annualization_factor := Some ANNUALIZATION_FACTOR, met_risk_free_rate := Some rf\<rparr>)"

definition active_return :: "EquityPoint list \<Rightarrow> EquityPoint list \<Rightarrow> string option \<Rightarrow> MetricResult" where
  "active_return portfolio benchmark name =
     (let base = (\<lambda>v. (metric_result ''active_return'' v)\<lparr>met_benchmark := name, met_method := ''aligned_daily''\<rparr>)
      in case align_returns (bench_map benchmark) portfolio of
        None \<Rightarrow> (base None)\<lparr>met_status := UNAVAILABLE\<rparr>
      | Some (p_rets, b_rets) \<Rightarrow>
          if p_rets = [] then (base None)\<lparr>met_status := INSUFFICIENT_DATA\<rparr>
          else (base (Some (fsub (cumulative_return p_rets) (cumulative_return b_rets))))\<lparr>
                 met_observation_count := int (length p_rets)\<rparr>)"

definition portfolio_absolute_return :: "EquityPoint list \<Rightarrow> MetricResult" where
  "portfolio_absolute_return curve =
     (if length curve < 2 then (metric_result ''portfolio_return'' None)\<lparr>met_status := INSUFFICIENT_DATA, met_method := ''simple''\<rparr>
      else (metric_result ''portfolio_return'' (Some (simple_return (snd (hd curve)) (snd (last curve)))))\<lparr>
        met_period_start := Some (fst (hd curve)), met_period_end := Some (fst (last curve)),
        met_observation_count := int (length curve), met_method := ''simple''\<rparr>)"

subsection \<open>The bisection stays in its bracket\<close>

lemma irr_loop_bracket:
  assumes "irr_loop pw flows tol n lo hi f_lo = Inr r" "is_double lo" "is_double hi" "lo \<le> hi"
  shows "lo \<le> r \<and> r \<le> hi"
  using assms
proof (induction n arbitrary: lo hi f_lo)
  case 0
  then show ?case using midpoint_between by auto
next
  case (Suc n)
  let ?mid = "fdiv (fadd lo hi) 2"
  have mid: "lo \<le> ?mid" "?mid \<le> hi" "is_double ?mid"
    using midpoint_between[OF Suc.prems(2-4)] by (auto simp: fdiv_def is_double_fl)
  have step: "py_bind (npv pw flows ?mid) (\<lambda>f. if \<bar>f\<bar> < tol then Inr ?mid
      else if fmul f_lo f \<le> 0 then irr_loop pw flows tol n lo ?mid f_lo else irr_loop pw flows tol n ?mid hi f) = Inr r"
    using Suc.prems(1) by (simp only: irr_loop.simps Let_def)
  then obtain f where f: "(if \<bar>f\<bar> < tol then Inr ?mid
      else if fmul f_lo f \<le> 0 then irr_loop pw flows tol n lo ?mid f_lo else irr_loop pw flows tol n ?mid hi f) = Inr r"
    unfolding py_bind_Inr_iff by blast
  consider (mid) "r = ?mid" | (left) "irr_loop pw flows tol n lo ?mid f_lo = Inr r" | (right) "irr_loop pw flows tol n ?mid hi f = Inr r"
    using f by (metis Inr_inject)
  then show ?case
  proof cases
    case left
    then show ?thesis using Suc.IH[OF left Suc.prems(2) mid(3) mid(1)] mid(2) by linarith
  next
    case right
    then show ?thesis using Suc.IH[OF right mid(3) Suc.prems(3) mid(2)] mid(1) by linarith
  qed (use mid in simp)
qed

text \<open>
  The internal rate of return the bisection finds lies between its two ends, -99.99% and 1000%, for
  every power function of the platform and all cash flows.
\<close>

lemma irr_in_bracket:
  assumes "irr_bisection pw flows tol = Inr (Some r)"
  shows "IRR_LO \<le> r \<and> r \<le> IRR_HI"
proof -
  obtain f where "irr_loop pw flows tol 200 IRR_LO IRR_HI f = Inr r"
    using assms by (auto simp: irr_bisection_def py_bind_Inr_iff split: if_splits)
  moreover have "is_double IRR_LO" "is_double IRR_HI"
    by (simp_all add: IRR_LO_def IRR_HI_def is_double_fl) (simp add: is_double_def)
  moreover have "IRR_LO \<le> IRR_HI" using fl_mono[of "- 9999 / 10000" 10] by (simp add: IRR_LO_def IRR_HI_def)
  ultimately show ?thesis using irr_loop_bracket by blast
qed

section \<open>Excursions\<close>

record MaeMfeResult =
  mm_mae :: MetricResult
  mm_mfe :: MetricResult
  mm_mae_pct :: MetricResult
  mm_mfe_pct :: MetricResult
  mm_mae_r :: MetricResult
  mm_mfe_r :: MetricResult
  mm_capture_ratio :: MetricResult
  mm_giveback_ratio :: MetricResult

definition mm_missing :: "MetricStatus \<Rightarrow> string \<Rightarrow> MetricResult" where
  "mm_missing st name = (metric_result name None)\<lparr>met_status := st, met_method := ''long_mae_mfe''\<rparr>"

definition mm_ok :: "nat \<Rightarrow> string \<Rightarrow> rat option \<Rightarrow> MetricResult" where
  "mm_ok n name v = (metric_result name v)\<lparr>met_observation_count := int n, met_method := ''long_mae_mfe''\<rparr>"

definition compute_mae_mfe :: "rat \<Rightarrow> rat \<Rightarrow> rat option \<Rightarrow> (rat \<times> rat) list \<Rightarrow> MaeMfeResult" where
  "compute_mae_mfe entry_price exit_price stop_dist prices =
     (let insufficient = mm_missing INSUFFICIENT_DATA; unavailable = mm_missing UNAVAILABLE;
          has_stop = (case stop_dist of None \<Rightarrow> False | Some d \<Rightarrow> d \<noteq> 0)
      in if prices = [] \<or> entry_price \<le> 0
         then \<lparr>mm_mae = insufficient ''mae'', mm_mfe = insufficient ''mfe'', mm_mae_pct = insufficient ''mae_pct'',
               mm_mfe_pct = insufficient ''mfe_pct'',
               mm_mae_r = (if has_stop then unavailable ''mae_r'' else insufficient ''mae_r''),
               mm_mfe_r = (if has_stop then unavailable ''mfe_r'' else insufficient ''mfe_r''),
               mm_capture_ratio = insufficient ''capture_ratio'', mm_giveback_ratio = insufficient ''giveback_ratio''\<rparr>
         else let lows = map snd prices; mae_val = fsub entry_price (Min (set lows));
                mfe_val = fsub (Max (set lows)) entry_price; realized = fsub exit_price entry_price; n = length prices;
                ok = mm_ok n; r = (\<lambda>name v. case stop_dist of
                  Some d \<Rightarrow> if 0 < d then ok name (Some (fdiv v d)) else unavailable ''mae_r'' | None \<Rightarrow> unavailable ''mae_r'')
              in \<lparr>mm_mae = ok ''mae'' (Some mae_val), mm_mfe = ok ''mfe'' (Some mfe_val),
                  mm_mae_pct = ok ''mae_pct'' (Some (fdiv mae_val entry_price)),
                  mm_mfe_pct = ok ''mfe_pct'' (Some (fdiv mfe_val entry_price)),
                  mm_mae_r = r ''mae_r'' mae_val, mm_mfe_r = r ''mfe_r'' mfe_val,
                  mm_capture_ratio = ok ''capture_ratio'' (if 0 < mfe_val then Some (fdiv realized mfe_val) else None),
                  mm_giveback_ratio = ok ''giveback_ratio''
                    (if 0 < mfe_val then Some (fdiv (fsub mfe_val (max 0 realized)) mfe_val) else None)\<rparr>)"

text \<open>
  The price path of the hold includes the exit: the giveback is then a fraction between 0 and 1.
\<close>

lemma giveback_fraction:
  assumes "0 < entry" "exit \<in> snd ` set prices" "met_value (mm_giveback_ratio (compute_mae_mfe entry exit sd prices)) = Some g"
  shows "0 \<le> g \<and> g \<le> 1"
proof -
  let ?hi = "Max (snd ` set prices)" and ?mfe = "fsub (Max (snd ` set prices)) entry" and ?re = "fsub exit entry"
  have ne: "prices \<noteq> []" using assms(2) by auto
  have g: "0 < ?mfe" "g = fdiv (fsub ?mfe (max 0 ?re)) ?mfe"
    using assms(1,3) ne by (auto simp: compute_mae_mfe_def Let_def mm_ok_def metric_result_def split: if_splits)
  have "exit \<le> ?hi" using assms(2) by simp
  then have "?re \<le> ?mfe" by (simp add: fsub_def fl_mono)
  then have "0 \<le> fsub ?mfe (max 0 ?re)" using g(1) by (simp add: fsub_def fl_nonneg)
  moreover have "fsub ?mfe (max 0 ?re) \<le> ?mfe" using fl_mono[of "?mfe - max 0 ?re" ?mfe] by (simp add: fsub_def)
  ultimately have "0 \<le> fsub ?mfe (max 0 ?re) / ?mfe" "fsub ?mfe (max 0 ?re) / ?mfe \<le> 1" using g(1) by simp_all
  then show ?thesis using fl_mono[of _ 1] fl_nonneg by (simp add: g(2) fdiv_def)
qed

section \<open>Calibration\<close>

type_synonym ConfidenceOutcome = "rat \<times> rat"

text \<open>\<open>statistics.mean\<close> of no data raises \<open>StatisticsError\<close>, a \<open>ValueError\<close>.\<close>

definition py_mean :: "rat list \<Rightarrow> rat py" where
  "py_mean xs = (if xs = [] then Inl (ValueError ''mean requires at least one data point'') else Inr (mean xs))"

definition bucket_accuracy :: "rat \<Rightarrow> rat \<Rightarrow> int \<Rightarrow> ConfidenceOutcome list \<Rightarrow> MetricResult py" where
  "bucket_accuracy lo hi min_n samples =
     (let inb = filter (\<lambda>(c, oc). lo \<le> c \<and> c \<le> hi) samples;
          base = (\<lambda>v. (metric_result ''bucket_accuracy'' v)\<lparr>met_observation_count := int (length inb), met_method := ''calibration_bucket''\<rparr>)
      in if int (length inb) < min_n then Inr ((base None)\<lparr>met_status := INSUFFICIENT_DATA\<rparr>)
         else py_bind (py_mean (map snd inb)) (\<lambda>m. Inr (base (Some m))))"

definition calibration_gap :: "int \<Rightarrow> ConfidenceOutcome list \<Rightarrow> MetricResult py" where
  "calibration_gap min_n samples =
     (let base = (\<lambda>v. (metric_result ''calibration_gap'' v)\<lparr>met_observation_count := int (length samples), met_method := ''mean_conf_minus_accuracy''\<rparr>)
      in if int (length samples) < min_n then Inr ((base None)\<lparr>met_status := INSUFFICIENT_DATA\<rparr>)
         else py_bind (py_mean (map fst samples)) (\<lambda>c. py_bind (py_mean (map snd samples)) (\<lambda>a. Inr (base (Some (fsub c a))))))"

text \<open>
  The bins are a Python list: a negative index counts from the end, and an index before the first
  bin raises.
\<close>

definition bin_index :: "nat \<Rightarrow> rat \<Rightarrow> int" where
  "bin_index n_bins c = min (int n_bins - 1) (trunc_int (fmul c (of_nat n_bins)))"

definition py_index :: "nat \<Rightarrow> int \<Rightarrow> nat option" where
  "py_index n i = (if 0 \<le> i \<and> i < int n then Some (nat i) else if i < 0 \<and> - int n \<le> i then Some (nat (int n + i)) else None)"

fun fill_bins :: "ConfidenceOutcome list \<Rightarrow> ConfidenceOutcome list list \<Rightarrow> ConfidenceOutcome list list py" where
  "fill_bins [] bins = Inr bins"
| "fill_bins (s # ss) bins = (case py_index (length bins) (bin_index (length bins) (fst s)) of
     None \<Rightarrow> Inl IndexError | Some i \<Rightarrow> fill_bins ss (bins[i := bins ! i @ [s]]))"

definition ece_step :: "nat \<Rightarrow> rat \<times> nat \<Rightarrow> ConfidenceOutcome list \<Rightarrow> rat \<times> nat" where
  "ece_step n st b = (case st of (ece, used) \<Rightarrow> if b = [] then st
     else (fadd ece (fmul (fdiv (of_nat (length b)) (of_nat n)) \<bar>fsub (mean (map fst b)) (mean (map snd b))\<bar>), used + length b))"

definition expected_calibration_error :: "nat \<Rightarrow> int \<Rightarrow> ConfidenceOutcome list \<Rightarrow> MetricResult py" where
  "expected_calibration_error n_bins min_n samples =
     (let base = (\<lambda>v n. (metric_result ''expected_calibration_error'' v)\<lparr>met_observation_count := int n, met_method := ''ece''\<rparr>)
      in if int (length samples) < min_n then Inr ((base None (length samples))\<lparr>met_status := INSUFFICIENT_DATA\<rparr>)
         else py_bind (fill_bins samples (replicate n_bins [])) (\<lambda>bins.
           case foldl (ece_step (length samples)) (0, 0) bins of (ece, used) \<Rightarrow>
             Inr (if int used < min_n then (base None used)\<lparr>met_status := INSUFFICIENT_DATA\<rparr> else base (Some ece) used)))"

text \<open>Confidences between 0 and 1 never raise, and every sample lands in a bin.\<close>

lemma bin_index_range:
  assumes "0 \<le> c" "0 < n"
  shows "0 \<le> bin_index n c \<and> bin_index n c < int n"
proof -
  have "0 \<le> fmul c (of_nat n)" using assms(1) by (simp add: fmul_def fl_nonneg)
  then have "0 \<le> trunc_int (fmul c (of_nat n))" by (simp add: trunc_int_def)
  then show ?thesis using assms(2) by (simp add: bin_index_def)
qed

lemma sum_length_update:
  "i < length bins \<Longrightarrow> sum_list (map length (bins[i := bins ! i @ [s]])) = sum_list (map length bins) + 1"
  by (induction bins arbitrary: i) (auto split: nat.splits)

lemma fill_bins_total:
  assumes "\<forall>s\<in>set ss. 0 \<le> fst s" "bins \<noteq> []"
  shows "\<exists>bs. fill_bins ss bins = Inr bs \<and> length bs = length bins
    \<and> sum_list (map length bs) = sum_list (map length bins) + length ss"
  using assms
proof (induction ss arbitrary: bins)
  case (Cons s ss)
  let ?i = "nat (bin_index (length bins) (fst s))"
  have r: "0 \<le> bin_index (length bins) (fst s)" "bin_index (length bins) (fst s) < int (length bins)"
    using bin_index_range[of "fst s" "length bins"] Cons.prems by auto
  then have i: "?i < length bins" "py_index (length bins) (bin_index (length bins) (fst s)) = Some ?i"
    by (auto simp: py_index_def)
  show ?case using Cons.IH[of "bins[?i := bins ! ?i @ [s]]"] Cons.prems i sum_length_update[OF i(1)] by auto
qed simp

lemma ece_used: "snd (foldl (ece_step t) (e, u) bins) = u + sum_list (map length bins)"
  by (induction bins arbitrary: e u) (auto simp: ece_step_def)

lemma calibration_error_total:
  assumes "\<forall>s\<in>set samples. 0 \<le> fst s" "0 < n_bins"
  shows "\<exists>m. expected_calibration_error n_bins min_n samples = Inr m \<and> met_observation_count m = int (length samples)"
proof -
  obtain bs where bs: "fill_bins samples (replicate n_bins []) = Inr bs" "sum_list (map length bs) = length samples"
    using fill_bins_total[OF assms(1), of "replicate n_bins []"] assms(2) by (auto simp: sum_list_replicate)
  then show ?thesis using ece_used[of "length samples" 0 0 bs]
    by (auto simp: expected_calibration_error_def Let_def metric_result_def split: prod.splits)
qed


section \<open>Samples\<close>

definition sample_curve :: "EquityPoint list" where
  "sample_curve = [(0, 100), (1, 120), (2, 90), (3, 96), (4, 130), (5, 65)]"

definition sample_closed_trade :: "rat \<Rightarrow> string option \<Rightarrow> ClosedTrade" where
  "sample_closed_trade pnl hz = \<lparr>clt_pnl = pnl, clt_holding_minutes = 30, clt_risk_amount = Some 10, clt_fees = 1, clt_symbol = None,
     clt_horizon = hz, clt_entry_timing = None, clt_entry_source = None, clt_trend_at_entry = None, clt_exit_reason = None,
     clt_mfe_pct = None, clt_mae_pct = None, clt_notional = None, clt_fees_known = True, clt_currency = None\<rparr>"

definition sample_trades :: "ClosedTrade list" where
  "sample_trades = [sample_closed_trade 5 (Some ''Day''), sample_closed_trade 4 None, sample_closed_trade (- 3) (Some ''swing''), sample_closed_trade 8 (Some ''day'')]"

theorem max_drawdown_is_worst_dip_witness: "met_value (max_drawdown sample_curve) = Some (- 1 / 2)"
proof -
  have d: "dips sample_curve \<noteq> []" "Min (set (dips sample_curve)) = - 1 / 2" by code_simp+
  show ?thesis using max_drawdown_is_worst_dip[of sample_curve] d by (simp add: sample_curve_def)
qed

theorem streaks_are_longest_runs_witness:
  "\<exists>w. longest_run (\<lambda>p. 0 < p) (map net_pnl sample_trades) w
    \<and> met_value (tmx_max_consecutive_wins (compute_trade_metrics ''fills'' sample_trades)) = Some (of_nat w)"
  using streaks_are_longest_runs[of sample_trades "''fills''"] by (auto simp: sample_trades_def)

theorem trade_slices_partition_witness:
  "\<exists>r. group_trade_metrics_by_horizon TRADE_BOOKS ''fills'' sample_trades = Inr r \<and> map fst r = TRADE_BOOKS
    \<and> sum_list (map (\<lambda>(b, m). tmx_trade_count m) r) = 4"
  using trade_slices_partition[of TRADE_BOOKS "''fills''" sample_trades]
  by (auto simp: TRADE_BOOKS_def sample_trades_def)

end
