(* ===== verification/Market_Calendar.thy ===== *)
theory Market_Calendar
  imports Workflow Venues Py_Datetime
begin

text \<open>
  The market calendar of a venue: \<open>market/calendar.py\<close> and \<open>market/session_ops.py\<close>.

  The sessions, holidays and opening times are those of \<open>exchange_calendars\<close> and the zones those of
  \<open>zoneinfo\<close>: the record \<open>market_env\<close> is what the service asks of them.  A local datetime is its wall
  clock in microseconds.  Python compares and subtracts datetimes of the same zone by their wall
  clocks, so all comparisons of the service are on wall clocks, and so are they here.  Days are
  ordinals.
\<close>

section \<open>What the service asks of the exchange\<close>

record market_env =
  mk_is_session :: "int \<Rightarrow> bool"
  mk_open :: "int \<Rightarrow> int"
  mk_close :: "int \<Rightarrow> int"
  mk_next_session :: "int \<Rightarrow> int"
  mk_previous_session :: "int \<Rightarrow> int"
  mk_session_from :: "int \<Rightarrow> int"
  mk_session_upto :: "int \<Rightarrow> int"
  mk_wall :: "int \<Rightarrow> int"
  mk_et_iso :: "int \<Rightarrow> string"
  mk_operator_iso :: "int \<Rightarrow> string"
  mk_local_iso :: "int \<Rightarrow> string"

record MarketSessionInfo =
  ms_session_date :: int
  ms_is_trading_day :: bool
  ms_is_early_close :: bool
  ms_premarket_start :: "int option"
  ms_regular_open :: "int option"
  ms_regular_close :: "int option"
  ms_postmarket_end :: "int option"
  ms_timezone :: string
  ms_calendar_source :: string
  ms_calendar_version :: string
  ms_venue :: string

record MarketStatusSnapshot =
  mst_as_of :: int
  mst_as_of_us_eastern :: string
  mst_as_of_brisbane :: string
  mst_is_trading_day :: bool
  mst_phase :: string
  mst_session :: MarketSessionInfo
  mst_minutes_to_open :: "rat option"
  mst_minutes_to_close :: "rat option"
  mst_minutes_to_next_open :: "rat option"
  mst_next_open :: "int option"
  mst_in_closing_window :: bool
  mst_in_force_close_window :: bool
  mst_venue :: string
  mst_as_of_market_local :: string

record MarketCalendarService =
  mcs_settings :: settings
  mcs_spec :: venue_spec
  mcs_env :: market_env

definition CALENDAR_CODES :: "(string \<times> string) list" where
  "CALENDAR_CODES = [(''NYSE'', ''XNYS''), (''NASDAQ'', ''XNAS''), (''XNYS'', ''XNYS''), (''XNAS'', ''XNAS''),
     (''ASX'', ''XASX''), (''XASX'', ''XASX'')]"

definition us_shaped :: "string \<Rightarrow> string \<Rightarrow> venue_spec \<Rightarrow> venue_spec" where
  "us_shaped code tz base = base\<lparr>vs_mic := code, vs_calendar_code := code, vs_timezone := tz,
     vs_liquidity_floor_mult := 1, vs_spread_cap_mult := 1\<rparr>"

definition resolve_spec :: "settings \<Rightarrow> string option \<Rightarrow> string option \<Rightarrow> venue_spec py" where
  "resolve_spec cfg calendar_name v = (case (v, calendar_name) of
     (Some w, _) \<Rightarrow> resolve_venue_spec cfg (Some w)
   | (None, None) \<Rightarrow> resolve_venue_spec cfg None
   | (None, Some name) \<Rightarrow>
       let code = (case dget CALENDAR_CODES (upper name) of Some c \<Rightarrow> c | None \<Rightarrow> upper name) in
       if code \<in> {''XNYS'', ''XNAS''}
       then py_bind (resolve_venue_spec cfg (Some ''US'')) (\<lambda>base. Inr (us_shaped code (vs_timezone base) base))
       else if code = ''XASX'' then resolve_venue_spec cfg (Some ''AU'')
       else py_bind (resolve_venue_spec cfg (Some ''US'')) (\<lambda>base.
              Inr (us_shaped code (if cfg_market_timezone cfg = [] then vs_timezone base else cfg_market_timezone cfg) base)))"

definition calendar_service :: "(string \<Rightarrow> string \<Rightarrow> market_env) \<Rightarrow> settings \<Rightarrow> string option \<Rightarrow> string option \<Rightarrow> MarketCalendarService py" where
  "calendar_service envs cfg calendar_name v = py_bind (resolve_spec cfg calendar_name v) (\<lambda>spec.
     Inr \<lparr>mcs_settings = cfg, mcs_spec = spec, mcs_env = envs (vs_calendar_code spec) (vs_timezone spec)\<rparr>)"

section \<open>Sessions\<close>

definition clock_us :: "int \<times> int \<Rightarrow> int" where
  "clock_us t = (fst t * 60 + snd t) * 60000000"

definition combine :: "int \<Rightarrow> int \<times> int \<Rightarrow> int" where
  "combine day t = (day - EPOCH_ORD) * DAY_US + clock_us t"

definition is_trading_day :: "MarketCalendarService \<Rightarrow> int \<Rightarrow> bool" where
  "is_trading_day mc day = mk_is_session (mcs_env mc) day"

definition open_wall :: "MarketCalendarService \<Rightarrow> int \<Rightarrow> int" where
  "open_wall mc day = mk_wall (mcs_env mc) (mk_open (mcs_env mc) day)"

definition close_wall :: "MarketCalendarService \<Rightarrow> int \<Rightarrow> int" where
  "close_wall mc day = mk_wall (mcs_env mc) (mk_close (mcs_env mc) day)"

definition get_session :: "MarketCalendarService \<Rightarrow> int \<Rightarrow> MarketSessionInfo" where
  "get_session mc day =
     (let spec = mcs_spec mc; base = \<lparr>ms_session_date = day, ms_is_trading_day = False, ms_is_early_close = False,
        ms_premarket_start = None, ms_regular_open = None, ms_regular_close = None, ms_postmarket_end = None,
        ms_timezone = vs_timezone spec, ms_calendar_source = vs_calendar_code spec,
        ms_calendar_version = ''exchange_calendars:'' @ vs_calendar_code spec, ms_venue = venue_value (vs_venue spec)\<rparr>
      in if \<not> is_trading_day mc day then base
         else let open_local = open_wall mc day; close_local = close_wall mc day in
           base\<lparr>ms_is_trading_day := True,
             ms_is_early_close := (close_local mod DAY_US < clock_us (vs_regular_close_local spec)),
             ms_premarket_start := Some (case vs_premarket_start spec of Some t \<Rightarrow> combine day t | None \<Rightarrow> open_local),
             ms_regular_open := Some open_local, ms_regular_close := Some close_local,
             ms_postmarket_end := Some (case vs_postmarket_end spec of Some t \<Rightarrow> combine day t | None \<Rightarrow> close_local)\<rparr>)"

definition get_next_trading_day :: "MarketCalendarService \<Rightarrow> int \<Rightarrow> int" where
  "get_next_trading_day mc day =
     (if is_trading_day mc day then mk_next_session (mcs_env mc) day else mk_session_from (mcs_env mc) day)"

definition get_previous_trading_day :: "MarketCalendarService \<Rightarrow> int \<Rightarrow> int" where
  "get_previous_trading_day mc day =
     (if is_trading_day mc day then mk_previous_session (mcs_env mc) day else mk_session_upto (mcs_env mc) day)"

function holiday_scan :: "MarketCalendarService \<Rightarrow> int \<Rightarrow> int \<Rightarrow> bool" where
  "holiday_scan mc cur nxt =
     (if cur < nxt
      then (if weekday cur < 5 \<and> \<not> is_trading_day mc cur then True else holiday_scan mc (cur + 1) nxt)
      else False)"
  by pat_completeness auto
termination
  by (relation "measure (\<lambda>(mc, cur, nxt). nat (nxt - cur))") auto

declare holiday_scan.simps [simp del]

definition next_session_has_holiday_gap :: "MarketCalendarService \<Rightarrow> int \<Rightarrow> bool" where
  "next_session_has_holiday_gap mc day =
     (let d = (if is_trading_day mc day then day else get_previous_trading_day mc day)
      in holiday_scan mc (d + 1) (get_next_trading_day mc d))"

function schedule_scan :: "MarketCalendarService \<Rightarrow> int \<Rightarrow> int \<Rightarrow> MarketSessionInfo list" where
  "schedule_scan mc cur end_date =
     (if cur \<le> end_date then get_session mc cur # schedule_scan mc (cur + 1) end_date else [])"
  by pat_completeness auto
termination
  by (relation "measure (\<lambda>(mc, cur, e). nat (e + 1 - cur))") auto

declare schedule_scan.simps [simp del]

definition get_schedule :: "MarketCalendarService \<Rightarrow> int \<Rightarrow> int \<Rightarrow> MarketSessionInfo list" where
  "get_schedule mc start_date end_date = (if end_date < start_date then [] else schedule_scan mc start_date end_date)"

text \<open>The first of the next \<open>n\<close> days whose boundary is still ahead of the wall clock.\<close>

fun next_boundary :: "(MarketSessionInfo \<Rightarrow> int option) \<Rightarrow> MarketCalendarService \<Rightarrow> int \<Rightarrow> nat \<Rightarrow> int \<Rightarrow> int option" where
  "next_boundary b mc w 0 day = None"
| "next_boundary b mc w (Suc n) day =
     (let s = get_session mc day in
      case b s of Some t \<Rightarrow> if ms_is_trading_day s \<and> w < t then Some t else next_boundary b mc w n (day + 1)
      | None \<Rightarrow> next_boundary b mc w n (day + 1))"

definition get_next_market_open :: "MarketCalendarService \<Rightarrow> int \<Rightarrow> int option" where
  "get_next_market_open mc now =
     (let w = mk_wall (mcs_env mc) now in next_boundary ms_regular_open mc w 20 (ord_of w))"

definition get_next_market_close :: "MarketCalendarService \<Rightarrow> int \<Rightarrow> int option" where
  "get_next_market_close mc now =
     (let w = mk_wall (mcs_env mc) now in next_boundary ms_regular_close mc w 20 (ord_of w))"

section \<open>The market status\<close>

definition minutes_between :: "int \<Rightarrow> int \<Rightarrow> rat" where
  "minutes_between later earlier = fdiv (total_seconds (later - earlier)) 60"

definition ahead :: "rat \<Rightarrow> rat option" where
  "ahead m = (if m < 0 then None else Some m)"

text \<open>The phase with the two window flags \<open>(phase, in_closing, in_force)\<close>.\<close>

definition phase_of :: "settings \<Rightarrow> int \<Rightarrow> int \<Rightarrow> int \<Rightarrow> int \<Rightarrow> int \<Rightarrow> string \<times> bool \<times> bool" where
  "phase_of cfg w pre open_t close_t post =
     (let left = minutes_between close_t w in
      if w < pre then (''BEFORE_PREMARKET'', False, False)
      else if pre \<le> w \<and> w < open_t then (''PREMARKET'', False, False)
      else if open_t \<le> w \<and> w < close_t
      then (if 0 \<le> left \<and> left \<le> of_int (cfg_force_close_before_market_close_minutes cfg) then (''FORCE_CLOSE_WINDOW'', False, True)
            else if 0 \<le> left \<and> left \<le> of_int (cfg_closing_window_minutes_before_close cfg) then (''CLOSING_WINDOW'', True, False)
            else (''REGULAR'', False, False))
      else if close_t \<le> w \<and> w < post then (''POSTMARKET'', False, False)
      else (''AFTER_HOURS'', False, False))"

definition session_phase :: "settings \<Rightarrow> int \<Rightarrow> MarketSessionInfo \<Rightarrow> string \<times> bool \<times> bool" where
  "session_phase cfg w s = (case (ms_regular_open s, ms_regular_close s) of
     (Some open_t, Some close_t) \<Rightarrow> if ms_is_trading_day s
       then phase_of cfg w (case ms_premarket_start s of Some p \<Rightarrow> p | None \<Rightarrow> open_t) open_t close_t
              (case ms_postmarket_end s of Some p \<Rightarrow> p | None \<Rightarrow> close_t)
       else (''NON_TRADING_DAY'', False, False)
   | _ \<Rightarrow> (''NON_TRADING_DAY'', False, False))"

definition boundary_minutes :: "MarketSessionInfo \<Rightarrow> int option \<Rightarrow> int \<Rightarrow> rat option" where
  "boundary_minutes s t w = (if ms_is_trading_day s then Option.bind t (\<lambda>b. ahead (minutes_between b w)) else None)"

definition get_market_status :: "MarketCalendarService \<Rightarrow> int \<Rightarrow> MarketStatusSnapshot" where
  "get_market_status mc now =
     (let w = mk_wall (mcs_env mc) now; s = get_session mc (ord_of w); next_open = get_next_market_open mc now in
      case session_phase (mcs_settings mc) w s of (phase, in_closing, in_force) \<Rightarrow>
        \<lparr>mst_as_of = now, mst_as_of_us_eastern = mk_et_iso (mcs_env mc) now,
         mst_as_of_brisbane = mk_operator_iso (mcs_env mc) now, mst_is_trading_day = ms_is_trading_day s,
         mst_phase = phase, mst_session = s, mst_minutes_to_open = boundary_minutes s (ms_regular_open s) w,
         mst_minutes_to_close = boundary_minutes s (ms_regular_close s) w,
         mst_minutes_to_next_open = Option.bind next_open (\<lambda>t. ahead (minutes_between t w)),
         mst_next_open = next_open, mst_in_closing_window = in_closing, mst_in_force_close_window = in_force,
         mst_venue = venue_value (vs_venue (mcs_spec mc)), mst_as_of_market_local = mk_local_iso (mcs_env mc) now\<rparr>)"

section \<open>Which venue is in session\<close>

definition ACTIVE_OPS_PHASES :: "(string \<times> int) list" where
  "ACTIVE_OPS_PHASES = [(''REGULAR'', 100), (''FORCE_CLOSE_WINDOW'', 90), (''CLOSING_WINDOW'', 80), (''PREMARKET'', 70),
     (''POSTMARKET'', 50), (''AFTER_HOURS'', 40), (''BEFORE_PREMARKET'', 20)]"

text \<open>The phase of each enabled venue is the argument \<open>phase\<close>; sorting is by \<open>(-score, value)\<close>.\<close>

definition ranked_venues :: "(venue \<Rightarrow> string) \<Rightarrow> venue list \<Rightarrow> (int \<times> venue) list" where
  "ranked_venues phase vs = List.map_filter (\<lambda>v. map_option (\<lambda>sc. (sc, v)) (dget ACTIVE_OPS_PHASES (phase v))) vs"

fun best_venue :: "(int \<times> venue) \<Rightarrow> (int \<times> venue) list \<Rightarrow> venue" where
  "best_venue b [] = snd b"
| "best_venue b (x # xs) = best_venue
     (if fst b < fst x \<or> fst x = fst b \<and> snd x = AU \<and> snd b = US then x else b) xs"

text \<open>The service of an enabled venue: naming the venue always resolves.\<close>

definition venue_service :: "(string \<Rightarrow> string \<Rightarrow> market_env) \<Rightarrow> settings \<Rightarrow> venue \<Rightarrow> MarketCalendarService" where
  "venue_service envs cfg v = \<lparr>mcs_settings = cfg, mcs_spec = VENUE_SPECS v,
     mcs_env = envs (vs_calendar_code (VENUE_SPECS v)) (vs_timezone (VENUE_SPECS v))\<rparr>"

definition most_active :: "(string \<Rightarrow> string \<Rightarrow> market_env) \<Rightarrow> settings \<Rightarrow> int \<Rightarrow> venue list \<Rightarrow> venue option" where
  "most_active envs cfg now vs =
     (case ranked_venues (\<lambda>v. mst_phase (get_market_status (venue_service envs cfg v) now)) vs of
        [] \<Rightarrow> None | r # rs \<Rightarrow> Some (best_venue r rs))"

definition resolve_active_session_venue ::
    "(string \<Rightarrow> string \<Rightarrow> market_env) \<Rightarrow> settings \<Rightarrow> int \<Rightarrow> string option \<Rightarrow> venue option py" where
  "resolve_active_session_venue envs cfg now prefer =
     (if prefer \<noteq> None \<and> lower (strip (the prefer)) \<notin> {[], ''auto''}
      then py_bind (parse_venue prefer) (\<lambda>chosen. py_bind (enabled_venues cfg) (\<lambda>vs.
             Inr (case chosen of Some v \<Rightarrow> if v \<in> set vs then Some v else None | None \<Rightarrow> None)))
      else py_bind (enabled_venues cfg) (\<lambda>vs. Inr (most_active envs cfg now vs)))"

definition active_session_summary ::
    "(string \<Rightarrow> string \<Rightarrow> market_env) \<Rightarrow> settings \<Rightarrow> int \<Rightarrow> (string option \<times> (string \<times> string) list) py" where
  "active_session_summary envs cfg now = py_bind (enabled_venues cfg) (\<lambda>vs.
     py_bind (resolve_active_session_venue envs cfg now None) (\<lambda>active.
       Inr (map_option venue_value active,
            foldl (\<lambda>d v. dset d (venue_value v) (mst_phase (get_market_status (venue_service envs cfg v) now))) [] vs)))"

section \<open>Facts\<close>

lemma calendar_service_venue: "calendar_service envs cfg None (Some (venue_value v)) = Inr (venue_service envs cfg v)"
  by (cases v) (simp_all add: calendar_service_def venue_service_def resolve_spec_def resolve_venue_spec_def resolve_venue_def
      get_venue_spec_def parse_venue_def Venue_of_def strip_def upper_def upper_char_def is_space_def is_lower_ascii_def)

lemma get_session_fields [simp]:
  "ms_is_trading_day (get_session mc d) = is_trading_day mc d"
  "ms_regular_open (get_session mc d) = (if is_trading_day mc d then Some (open_wall mc d) else None)"
  "ms_regular_close (get_session mc d) = (if is_trading_day mc d then Some (close_wall mc d) else None)"
  by (simp_all add: get_session_def Let_def)

subsection \<open>The two closing windows\<close>

lemma minutes_between_nonneg: "a \<le> b \<Longrightarrow> 0 \<le> minutes_between b a"
  by (simp add: minutes_between_def total_seconds_def fdiv_def fl_nonneg)

text \<open>The computed minutes compare to a whole number of minutes as the exact ones do.\<close>

lemma minutes_between_le:
  assumes "1 \<le> m" "m \<le> 1000000"
  shows "minutes_between b a \<le> of_int m \<longleftrightarrow> b - a \<le> m * 60000000"
proof
  let ?x = "of_int (b - a) / 1000000 :: rat"
  assume le: "b - a \<le> m * 60000000"
  then have "?x \<le> of_int (m * 60)" by (simp add: pos_divide_le_eq flip: of_int_le_iff)
  then have "fl ?x \<le> fl (of_int (m * 60))" by (rule fl_mono)
  then have "fl ?x \<le> of_int m * 60" using assms fl_of_int[of "m * 60"] by simp
  then have "fl (fl ?x / 60) \<le> fl (of_int m)" by (intro fl_mono) simp
  then show "minutes_between b a \<le> of_int m" using assms fl_of_int[of m] by (simp add: minutes_between_def total_seconds_def fdiv_def)
next
  let ?x = "of_int (b - a) / 1000000 :: rat" and ?y = "of_int m * 60 + 1 / 1000000 :: rat" and ?u = "pow2 (- 53)"
  assume mb: "minutes_between b a \<le> of_int m"
  show "b - a \<le> m * 60000000"
  proof (rule ccontr)
    assume "\<not> b - a \<le> m * 60000000"
    then have "m * 60000000 + 1 \<le> b - a" by simp
    then have "of_int (m * 60000000 + 1) \<le> (of_int (b - a) :: rat)" by (simp only: of_int_le_iff)
    then have xy: "?y \<le> ?x" by (simp add: field_simps)
    have m: "1 \<le> (of_int m :: rat)" "of_int m \<le> (1000000 :: rat)" using assms by simp_all
    have u: "?u = 1 / 9007199254740992" by (simp add: pow2_def)
    have "?y * (1 - ?u) \<le> fl ?y" using m by (intro fl_lower) simp
    also have "\<dots> \<le> fl ?x" using xy by (rule fl_mono)
    finally have 1: "?y * (1 - ?u) / 60 \<le> fl ?x / 60" by simp
    have 2: "1 / 10 \<le> ?y * (1 - ?u) / 60" using m unfolding u by simp
    have "?y * (1 - ?u) / 60 * (1 - ?u) \<le> fl (?y * (1 - ?u) / 60)" using 2 by (rule fl_lower)
    also have "\<dots> \<le> fl (fl ?x / 60)" using 1 by (rule fl_mono)
    also have "\<dots> \<le> of_int m" using mb by (simp add: minutes_between_def total_seconds_def fdiv_def)
    finally have "?y * (1 - ?u) / 60 * (1 - ?u) \<le> of_int m" .
    moreover have "of_int m < ?y * (1 - ?u) / 60 * (1 - ?u)" using m unfolding u by (simp add: field_simps)
    ultimately show False by simp
  qed
qed

text \<open>
  What the service relies on: a session opens before it closes, on its own day by the wall clock,
  inside the extended hours of the venue.
\<close>

definition session_ok :: "MarketCalendarService \<Rightarrow> int \<Rightarrow> bool" where
  "session_ok mc d \<longleftrightarrow> open_wall mc d < close_wall mc d
     \<and> (case vs_premarket_start (mcs_spec mc) of Some t \<Rightarrow> combine d t \<le> open_wall mc d | None \<Rightarrow> True)
     \<and> (case vs_postmarket_end (mcs_spec mc) of Some t \<Rightarrow> close_wall mc d \<le> combine d t | None \<Rightarrow> True)"

definition windows_ok :: "settings \<Rightarrow> bool" where
  "windows_ok cfg \<longleftrightarrow> 1 \<le> cfg_force_close_before_market_close_minutes cfg
     \<and> cfg_force_close_before_market_close_minutes cfg \<le> cfg_closing_window_minutes_before_close cfg
     \<and> cfg_closing_window_minutes_before_close cfg \<le> 1000000"

text \<open>
  On a trading day whose session is well formed the two closing windows are exact in spite of the floating-point
  minutes: with \<open>left\<close> the microseconds of wall clock to the close, the market status is in the force-close window
  iff it is open and at most the force-close minutes are left, in the closing window iff it is open
  with more than that and at most the closing minutes left, and regular iff it is open with more left;
  before and after the session neither window is ever reported.
\<close>

theorem closing_windows_exact:
  assumes "is_trading_day mc d" "session_ok mc d" "windows_ok (mcs_settings mc)"
    and "w = mk_wall (mcs_env mc) now" "d = ord_of w" "left = close_wall mc d - w"
    and "force = cfg_force_close_before_market_close_minutes (mcs_settings mc) * 60000000"
    and "closing = cfg_closing_window_minutes_before_close (mcs_settings mc) * 60000000"
  shows "(mst_in_force_close_window (get_market_status mc now) \<longleftrightarrow> open_wall mc d \<le> w \<and> 0 < left \<and> left \<le> force)
    \<and> (mst_in_closing_window (get_market_status mc now) \<longleftrightarrow> open_wall mc d \<le> w \<and> force < left \<and> left \<le> closing)
    \<and> (mst_phase (get_market_status mc now) = ''REGULAR'' \<longleftrightarrow> open_wall mc d \<le> w \<and> closing < left)"
proof -
  let ?cfg = "mcs_settings mc" and ?o = "open_wall mc d" and ?c = "close_wall mc d"
  let ?pre = "case vs_premarket_start (mcs_spec mc) of Some t \<Rightarrow> combine d t | None \<Rightarrow> ?o"
  let ?post = "case vs_postmarket_end (mcs_spec mc) of Some t \<Rightarrow> combine d t | None \<Rightarrow> ?c"
  have so: "?o < ?c" "?pre \<le> ?o" using assms(2) by (auto simp: session_ok_def split: option.splits)
  have wo: "1 \<le> cfg_force_close_before_market_close_minutes ?cfg" "force \<le> closing" "1 \<le> cfg_closing_window_minutes_before_close ?cfg"
    "cfg_closing_window_minutes_before_close ?cfg \<le> 1000000" "cfg_force_close_before_market_close_minutes ?cfg \<le> 1000000" "0 < force"
    using assms(3,7,8) by (auto simp: windows_ok_def)
  have le: "minutes_between ?c w \<le> of_int (cfg_force_close_before_market_close_minutes ?cfg) \<longleftrightarrow> left \<le> force"
    "minutes_between ?c w \<le> of_int (cfg_closing_window_minutes_before_close ?cfg) \<longleftrightarrow> left \<le> closing"
    using minutes_between_le wo assms(6,7,8) by auto
  have ph: "session_phase ?cfg w (get_session mc d) = phase_of ?cfg w ?pre ?o ?c ?post"
    using assms(1) by (simp add: session_phase_def get_session_def Let_def)
  have eq: "phase_of ?cfg w ?pre ?o ?c ?post = (if w < ?pre then (''BEFORE_PREMARKET'', False, False) else if w < ?o then (''PREMARKET'', False, False)
      else if 0 < left then (if left \<le> force then (''FORCE_CLOSE_WINDOW'', False, True) else if left \<le> closing then (''CLOSING_WINDOW'', True, False)
        else (''REGULAR'', False, False)) else if w < ?post then (''POSTMARKET'', False, False) else (''AFTER_HOURS'', False, False))"
    using minutes_between_nonneg[of w ?c] so assms(6) unfolding phase_of_def Let_def le by (auto simp: less_imp_le)
  have st: "mst_in_force_close_window (get_market_status mc now) = snd (snd (phase_of ?cfg w ?pre ?o ?c ?post))"
    "mst_in_closing_window (get_market_status mc now) = fst (snd (phase_of ?cfg w ?pre ?o ?c ?post))"
    "mst_phase (get_market_status mc now) = fst (phase_of ?cfg w ?pre ?o ?c ?post)"
    using ph assms(4,5) by (auto simp: get_market_status_def Let_def split: prod.splits)
  show ?thesis unfolding st eq using so wo by auto
qed

subsection \<open>Schedules, gaps and the next boundary\<close>

lemma schedule_scan_spec: "schedule_scan mc a b = map (get_session mc) [a..b]"
proof (induction mc a b rule: schedule_scan.induct)
  case (1 mc a b)
  then show ?case by (subst schedule_scan.simps) (auto simp: upto_rec1)
qed

lemma holiday_scan_iff: "holiday_scan mc a b \<longleftrightarrow> (\<exists>c\<in>{a..<b}. weekday c < 5 \<and> \<not> is_trading_day mc c)"
proof (induction mc a b rule: holiday_scan.induct)
  case (1 mc a b)
  have "{a..<b} = (if a < b then insert a {a + 1..<b} else {})" by auto
  then show ?case using 1 by (subst holiday_scan.simps) auto
qed

text \<open>What \<open>exchange_calendars\<close> promises: the neighbouring sessions of a day.\<close>

definition neighbours_ok :: "market_env \<Rightarrow> bool" where
  "neighbours_ok e \<longleftrightarrow>
     (\<forall>d. mk_is_session e d \<longrightarrow> d < mk_next_session e d \<and> mk_is_session e (mk_next_session e d)
        \<and> (\<forall>c. d < c \<and> c < mk_next_session e d \<longrightarrow> \<not> mk_is_session e c))
     \<and> (\<forall>d. \<not> mk_is_session e d \<longrightarrow> mk_session_upto e d < d \<and> mk_is_session e (mk_session_upto e d)
        \<and> (\<forall>c. mk_session_upto e d < c \<and> c \<le> d \<longrightarrow> \<not> mk_is_session e c))"

text \<open>
  The holiday scan ends for every day and finds exactly the weekday holidays around it: there is a
  holiday gap iff some weekday without a session lies between the last session up to the day and
  the next session after it.
\<close>

theorem holiday_gap_exact:
  assumes "neighbours_ok (mcs_env mc)"
    and "s = (if is_trading_day mc day then day else mk_session_upto (mcs_env mc) day)"
  shows "next_session_has_holiday_gap mc day
    \<longleftrightarrow> (\<exists>c. s < c \<and> c < mk_next_session (mcs_env mc) s \<and> weekday c < 5)"
proof -
  have s: "is_trading_day mc s"
  proof (cases "is_trading_day mc day")
    case False
    then have "mk_is_session (mcs_env mc) (mk_session_upto (mcs_env mc) day)"
      using assms(1) unfolding neighbours_ok_def is_trading_day_def by blast
    then show ?thesis using False assms(2) by (simp add: is_trading_day_def)
  qed (use assms(2) in simp)
  then have no: "s < c \<Longrightarrow> c < mk_next_session (mcs_env mc) s \<Longrightarrow> \<not> is_trading_day mc c" for c
    using assms(1) s unfolding neighbours_ok_def is_trading_day_def by blast
  have "next_session_has_holiday_gap mc day = holiday_scan mc (s + 1) (mk_next_session (mcs_env mc) s)"
  proof -
    have "(if is_trading_day mc day then day else get_previous_trading_day mc day) = s"
      using assms(2) by (simp add: get_previous_trading_day_def)
    then show ?thesis using s by (simp only: next_session_has_holiday_gap_def Let_def get_next_trading_day_def if_True)
  qed
  then have "next_session_has_holiday_gap mc day
      \<longleftrightarrow> (\<exists>c. s < c \<and> c < mk_next_session (mcs_env mc) s \<and> weekday c < 5 \<and> \<not> is_trading_day mc c)"
    by (simp add: holiday_scan_iff Bex_def add1_zle_eq conj_assoc)
  then show ?thesis using no by blast
qed

lemma next_boundary_spec:
  "next_boundary b mc w n day = (case find (\<lambda>d. ms_is_trading_day (get_session mc d) \<and> (\<exists>t. b (get_session mc d) = Some t \<and> w < t)) [day..day + int n - 1] of
     None \<Rightarrow> None | Some d \<Rightarrow> b (get_session mc d))"
proof (induction n arbitrary: day)
  case (Suc n)
  have "[day..day + int (Suc n) - 1] = day # [day + 1..(day + 1) + int n - 1]" by (simp add: upto_rec1)
  then show ?case using Suc[of "day + 1"] by (auto simp: Let_def split: option.splits)
qed simp

text \<open>
  When some session of the next twenty days, counted from the local day, still opens after the wall clock, the
  service finds the next opening: it is the opening of a session, it is ahead, and no session between today and it opens
  after now, so a scheduler that waits for it misses no opening.
\<close>

theorem next_open_found:
  assumes "w = mk_wall (mcs_env mc) now" "is_trading_day mc d" "w < open_wall mc d" "ord_of w \<le> d" "d < ord_of w + 20"
  shows "\<exists>d'. is_trading_day mc d' \<and> ord_of w \<le> d' \<and> d' \<le> d \<and> get_next_market_open mc now = Some (open_wall mc d')
    \<and> w < open_wall mc d' \<and> (\<forall>c. ord_of w \<le> c \<and> c < d' \<and> is_trading_day mc c \<longrightarrow> open_wall mc c \<le> w)"
proof -
  let ?P = "\<lambda>d. ms_is_trading_day (get_session mc d) \<and> (\<exists>t. ms_regular_open (get_session mc d) = Some t \<and> w < t)"
  have P: "?P c \<longleftrightarrow> is_trading_day mc c \<and> w < open_wall mc c" for c
    by simp
  have "find ?P [ord_of w..ord_of w + 19] \<noteq> None" using assms(2-5) P by (auto simp: find_None_iff)
  then obtain d' where f: "find ?P [ord_of w..ord_of w + 19] = Some d'" by auto
  then obtain i where i: "i < length [ord_of w..ord_of w + 19]" "?P ([ord_of w..ord_of w + 19] ! i)" "d' = [ord_of w..ord_of w + 19] ! i"
    "\<And>j. j < i \<Longrightarrow> \<not> ?P ([ord_of w..ord_of w + 19] ! j)" unfolding find_Some_iff by blast
  have d': "d' = ord_of w + int i" "i < 20" using i(1,3) by (simp_all add: nth_upto)
  have first: "\<not> ?P c" if "ord_of w \<le> c" "c < d'" for c
    using i(4)[of "nat (c - ord_of w)"] that d' by (simp add: nth_upto)
  have "d' \<le> d" using first[of d] P assms(2-4) by fastforce
  moreover have "get_next_market_open mc now = Some (open_wall mc d')"
  proof -
    have "[ord_of w..ord_of w + int 20 - 1] = [ord_of w..ord_of w + 19]" by (simp add: add.commute)
    then have "get_next_market_open mc now = ms_regular_open (get_session mc d')"
      using f by (simp only: get_next_market_open_def next_boundary_spec Let_def assms(1) [symmetric] option.case)
    then show ?thesis using i(2,3) by simp
  qed
  ultimately show ?thesis using i(2,3) first P d' by (intro exI[of _ d']) (auto simp: not_less)
qed


subsection \<open>The venue in session\<close>

lemma best_venue_spec:
  "\<exists>sc. (sc, best_venue b xs) \<in> insert b (set xs) \<and> (\<forall>(sc', v') \<in> insert b (set xs). sc' \<le> sc)"
proof (induction xs arbitrary: b)
  case (Cons x xs)
  let ?b = "if fst b < fst x \<or> fst x = fst b \<and> snd x = AU \<and> snd b = US then x else b"
  have ge: "fst b \<le> fst ?b" "fst x \<le> fst ?b" "?b \<in> {b, x}" by auto
  obtain sc where sc: "(sc, best_venue ?b xs) \<in> insert ?b (set xs)" "\<forall>(sc', v') \<in> insert ?b (set xs). sc' \<le> sc"
    using Cons.IH[of ?b] by blast
  then have "fst ?b \<le> sc" by auto
  then have "\<forall>(sc', v') \<in> insert b (set (x # xs)). sc' \<le> sc" using ge sc(2) by auto
  moreover have "(sc, best_venue b (x # xs)) \<in> insert b (set (x # xs))" using sc(1) ge(3) by auto
  ultimately show ?case by blast
qed (cases b, auto)

text \<open>
  Without a venue forced by the operator the desk is pointed at an enabled venue whose phase ranks highest,
  and at none exactly when every enabled venue is outside its trading day.
\<close>

theorem active_venue_highest:
  assumes "resolve_active_session_venue envs cfg now None = Inr a" "enabled_venues cfg = Inr vs"
    and "ph = (\<lambda>v. mst_phase (get_market_status (venue_service envs cfg v) now))"
  shows "(a = None \<longleftrightarrow> (\<forall>v\<in>set vs. dget ACTIVE_OPS_PHASES (ph v) = None))
    \<and> (\<forall>v. a = Some v \<longrightarrow> v \<in> set vs \<and> (\<exists>sc. dget ACTIVE_OPS_PHASES (ph v) = Some sc
          \<and> (\<forall>v'\<in>set vs. \<forall>sc'. dget ACTIVE_OPS_PHASES (ph v') = Some sc' \<longrightarrow> sc' \<le> sc)))"
proof -
  have set_r: "(sc, v) \<in> set (ranked_venues ph vs) \<longleftrightarrow> v \<in> set vs \<and> dget ACTIVE_OPS_PHASES (ph v) = Some sc" for sc v
    by (auto simp: ranked_venues_def List.map_filter_def image_iff)
  have a: "a = (case ranked_venues ph vs of [] \<Rightarrow> None | r # rs \<Rightarrow> Some (best_venue r rs))"
    using assms by (simp add: resolve_active_session_venue_def most_active_def)
  show ?thesis
  proof (cases "ranked_venues ph vs")
    case Nil
    have none: "\<forall>v\<in>set vs. dget ACTIVE_OPS_PHASES (ph v) = None"
    proof
      fix v assume "v \<in> set vs"
      then show "dget ACTIVE_OPS_PHASES (ph v) = None" using set_r[of _ v] Nil by (cases "dget ACTIVE_OPS_PHASES (ph v)") auto
    qed
    show ?thesis using a Nil none by simp
  next
    case (Cons r rs)
    have eq: "insert r (set rs) = set (ranked_venues ph vs)" using Cons by simp
    obtain sc where sc: "(sc, best_venue r rs) \<in> set (ranked_venues ph vs)" "\<forall>(sc', v') \<in> set (ranked_venues ph vs). sc' \<le> sc"
      using best_venue_spec[of r rs] unfolding eq by blast
    have "v' \<in> set vs \<Longrightarrow> dget ACTIVE_OPS_PHASES (ph v') = Some sc' \<Longrightarrow> sc' \<le> sc" for v' sc'
      using sc(2) set_r[of sc' v'] by blast
    moreover have "best_venue r rs \<in> set vs" "dget ACTIVE_OPS_PHASES (ph (best_venue r rs)) = Some sc"
      using sc(1) set_r by simp_all
    moreover have "a = Some (best_venue r rs)" using a Cons by simp
    ultimately show ?thesis by (metis option.distinct(1) option.inject)
  qed
qed


subsection \<open>Minutes across a change of the clocks\<close>

text \<open>
  The minutes to the next opening are the difference of two wall clocks of the market zone: when the clocks
  change in between, the reported figure is off by the change, however exact the calendar is.
\<close>

theorem next_open_minutes_ignore_dst:
  assumes "get_next_market_open mc now = Some (mk_wall (mcs_env mc) t)"
    and "mk_wall (mcs_env mc) t = t + off_t" "mk_wall (mcs_env mc) now = now + off_now"
  shows "mst_minutes_to_next_open (get_market_status mc now)
    = ahead (fdiv (total_seconds ((t - now) + (off_t - off_now))) 60)"
  using assms by (simp add: get_market_status_def Let_def minutes_between_def algebra_simps split: prod.splits)

section \<open>An exchange to evaluate on\<close>

text \<open>
  Every weekday from 9:30 to 16:00 New York time around 8 March 2026, when the offset of the zone
  goes from five hours to four.
\<close>

definition SPRING_FORWARD :: int where "SPRING_FORWARD = 1772953200000000"

definition sample_wall :: "int \<Rightarrow> int" where
  "sample_wall t = t - (if t < SPRING_FORWARD then 18000000000 else 14400000000)"

definition sample_utc :: "int \<Rightarrow> int \<times> int \<Rightarrow> int" where
  "sample_utc d hm = combine d hm + (if d < 739683 then 18000000000 else 14400000000)"

definition sample_env :: market_env where
  "sample_env = \<lparr>mk_is_session = (\<lambda>d. weekday d < 5), mk_open = (\<lambda>d. sample_utc d (9, 30)), mk_close = (\<lambda>d. sample_utc d (16, 0)),
     mk_next_session = (\<lambda>d. if weekday d = 4 then d + 3 else d + 1), mk_previous_session = (\<lambda>d. if weekday d = 0 then d - 3 else d - 1),
     mk_session_from = (\<lambda>d. d + 7 - weekday d), mk_session_upto = (\<lambda>d. d - (weekday d - 4)), mk_wall = sample_wall,
     mk_et_iso = (\<lambda>t. []), mk_operator_iso = (\<lambda>t. []), mk_local_iso = (\<lambda>t. [])\<rparr>"

definition sample_calendar :: MarketCalendarService where
  "sample_calendar = \<lparr>mcs_settings = default_settings, mcs_spec = VENUE_SPECS US, mcs_env = sample_env\<rparr>"

text \<open>Friday 6 March 2026, 15:50 in New York, and 16:00.\<close>

definition FRIDAY_1550 :: int where "FRIDAY_1550 = 1772830200000000"
definition FRIDAY_1600 :: int where "FRIDAY_1600 = 1772830800000000"


lemma sample_friday_open: "get_next_market_open sample_calendar FRIDAY_1600 = Some (mk_wall sample_env 1773063000000000)"
  by code_simp

theorem next_open_minutes_ignore_dst_witness:
  "mst_minutes_to_next_open (get_market_status sample_calendar FRIDAY_1600) = Some 3930
    \<and> minutes_between 1773063000000000 FRIDAY_1600 = 3870"
proof
  have "mst_minutes_to_next_open (get_market_status sample_calendar FRIDAY_1600)
    = ahead (fdiv (total_seconds ((1773063000000000 - FRIDAY_1600) + (- 14400000000 - - 18000000000))) 60)"
    by (rule next_open_minutes_ignore_dst) (use sample_friday_open in \<open>simp_all add: sample_calendar_def sample_env_def sample_wall_def SPRING_FORWARD_def FRIDAY_1600_def\<close>)
  also have "\<dots> = Some 3930" by code_simp
  finally show "mst_minutes_to_next_open (get_market_status sample_calendar FRIDAY_1600) = Some 3930" .
qed code_simp

theorem closing_windows_exact_witness:
  "mst_in_force_close_window (get_market_status sample_calendar FRIDAY_1550) \<and> \<not> mst_in_closing_window (get_market_status sample_calendar FRIDAY_1550)"
proof -
  have day: "is_trading_day sample_calendar 739681" "session_ok sample_calendar 739681" by code_simp+
  have win: "windows_ok (mcs_settings sample_calendar)" by code_simp
  have w: "sample_wall FRIDAY_1550 = mk_wall (mcs_env sample_calendar) FRIDAY_1550" by (simp add: sample_calendar_def sample_env_def)
  have d: "739681 = ord_of (sample_wall FRIDAY_1550)" by code_simp
  have left: "600000000 = close_wall sample_calendar 739681 - sample_wall FRIDAY_1550" by code_simp
  have m: "900000000 = cfg_force_close_before_market_close_minutes (mcs_settings sample_calendar) * 60000000"
    "1800000000 = cfg_closing_window_minutes_before_close (mcs_settings sample_calendar) * 60000000" by code_simp+
  have "open_wall sample_calendar 739681 \<le> sample_wall FRIDAY_1550" by code_simp
  then show ?thesis using closing_windows_exact[OF day win w d left m] by linarith
qed

theorem next_open_found_witness: "get_next_market_open sample_calendar FRIDAY_1600 \<noteq> None"
proof -
  have 1: "is_trading_day sample_calendar 739684" "sample_wall FRIDAY_1600 < open_wall sample_calendar 739684"
    "ord_of (sample_wall FRIDAY_1600) \<le> 739684" "739684 < ord_of (sample_wall FRIDAY_1600) + 20" by code_simp+
  show ?thesis using next_open_found[OF _ 1] by (auto simp: sample_calendar_def sample_env_def)
qed

end
