(* ===== verification/Llm_Budget.thy ===== *)
theory Llm_Budget
  imports Settings
begin

text \<open>
  The spend budget of the language model: \<open>services/llm_budget.py\<close>.

  The process-local counters are a record, the JSON state file the other part of the world: its
  modification time and its parsed content, \<open>None\<close> when it is not JSON.  The operator's calendar day and
  month are arguments of every operation, as is the modification time a write gets.  Reading and
  writing the file do not fail otherwise; an operation runs on one calendar day.
\<close>

section \<open>Budgets and costs\<close>

record DailyBudgetResolution =
  dbr_token_budget :: int
  dbr_call_budget :: int
  dbr_daily_aud_budget :: rat
  dbr_derived :: bool
  dbr_trading_days :: int

definition or_int :: "int \<Rightarrow> int \<Rightarrow> int" where
  "or_int x d = (if x = 0 then d else x)"

definition month_budget :: "settings \<Rightarrow> rat" where
  "month_budget cfg = max 0 (cfg_llm_monthly_aud_budget cfg)"

definition token_blend :: "settings \<Rightarrow> rat" where
  "token_blend cfg = (let share = min 1 (max 0 (cfg_llm_budget_input_token_share cfg)) in
     fadd (fmul share (cfg_llm_input_usd_per_mtok cfg)) (fmul (fsub 1 share) (cfg_llm_output_usd_per_mtok cfg)))"

definition resolve_daily_llm_budgets :: "settings \<Rightarrow> DailyBudgetResolution" where
  "resolve_daily_llm_budgets cfg =
     (let month_aud = month_budget cfg; days = max 1 (or_int (cfg_llm_budget_trading_days_per_month cfg) 21);
          explicit_tok = max 0 (cfg_llm_daily_token_budget cfg); explicit_call = max 0 (cfg_llm_daily_call_budget cfg)
      in if month_aud \<le> 0
         then \<lparr>dbr_token_budget = explicit_tok, dbr_call_budget = explicit_call, dbr_daily_aud_budget = 0,
               dbr_derived = False, dbr_trading_days = days\<rparr>
         else let daily_aud = fdiv month_aud (of_int days);
                daily_usd = fdiv daily_aud (max (fl (1 / 1000000000)) (cfg_llm_aud_per_usd cfg));
                blend = token_blend cfg;
                derived_tok = (if 0 < blend \<and> 0 < daily_usd then max 1 (trunc_int (fmul (fdiv daily_usd blend) 1000000)) else 0);
                avg_call = max 1 (or_int (cfg_llm_budget_avg_tokens_per_call cfg) 5000);
                derived_call = (if 0 < blend \<and> 0 < daily_usd then max 1 (derived_tok div avg_call) else 0)
              in \<lparr>dbr_token_budget = (if 0 < explicit_tok then explicit_tok else derived_tok),
                  dbr_call_budget = (if 0 < explicit_call then explicit_call else derived_call),
                  dbr_daily_aud_budget = daily_aud, dbr_derived = (explicit_tok \<le> 0 \<or> explicit_call \<le> 0),
                  dbr_trading_days = days\<rparr>)"

definition estimate_usd_cost :: "int \<Rightarrow> int \<Rightarrow> settings \<Rightarrow> rat" where
  "estimate_usd_cost prompt_t completion_t cfg =
     fadd (fmul (fdiv (fl (of_int (max 0 prompt_t))) 1000000) (cfg_llm_input_usd_per_mtok cfg))
          (fmul (fdiv (fl (of_int (max 0 completion_t))) 1000000) (cfg_llm_output_usd_per_mtok cfg))"

definition estimate_aud_cost :: "int \<Rightarrow> int \<Rightarrow> settings \<Rightarrow> rat" where
  "estimate_aud_cost prompt_t completion_t cfg = fmul (estimate_usd_cost prompt_t completion_t cfg) (cfg_llm_aud_per_usd cfg)"

section \<open>The counters and the state file\<close>

record budget_state =
  lb_day :: "string option"
  lb_month :: "string option"
  lb_prompt :: int
  lb_completion :: int
  lb_calls :: int
  lb_month_prompt :: int
  lb_month_completion :: int
  lb_month_calls :: int
  lb_warned_soft :: bool
  lb_month_warned_soft :: bool
  lb_last_loaded :: "int option"

text \<open>The keys of the file; the month counters are missing in files of older versions.\<close>

record budget_file =
  bf_day :: string
  bf_month :: string
  bf_prompt :: int
  bf_completion :: int
  bf_calls :: int
  bf_soft_warned :: bool
  bf_month_prompt :: "int option"
  bf_month_completion :: "int option"
  bf_month_calls :: "int option"
  bf_month_soft_warned :: bool

record budget_world =
  bw_state :: budget_state
  bw_disk :: "(int \<times> budget_file option) option"

definition fresh_state :: budget_state where
  "fresh_state = \<lparr>lb_day = None, lb_month = None, lb_prompt = 0, lb_completion = 0, lb_calls = 0, lb_month_prompt = 0,
     lb_month_completion = 0, lb_month_calls = 0, lb_warned_soft = False, lb_month_warned_soft = False, lb_last_loaded = None\<rparr>"

definition state_path :: "settings \<Rightarrow> string option" where
  "state_path cfg = (let raw = strip (cfg_llm_budget_state_path cfg) in if raw = [] then None else Some raw)"

definition take_count :: "bool \<Rightarrow> int \<Rightarrow> int \<Rightarrow> int" where
  "take_count merge current incoming = (if merge then max current incoming else incoming)"

definition file_month_of :: "budget_file \<Rightarrow> string" where
  "file_month_of f = (if bf_month f = [] \<and> bf_day f \<noteq> [] then take 7 (bf_day f) else bf_month f)"

definition load_day :: "bool \<Rightarrow> string \<Rightarrow> budget_file \<Rightarrow> budget_state \<Rightarrow> budget_state" where
  "load_day merge day f st =
     (if bf_day f = day
      then st\<lparr>lb_prompt := take_count merge (lb_prompt st) (bf_prompt f),
              lb_completion := take_count merge (lb_completion st) (bf_completion f),
              lb_calls := take_count merge (lb_calls st) (bf_calls f),
              lb_warned_soft := (lb_warned_soft st \<or> bf_soft_warned f)\<rparr>
      else st)"

definition or_zero :: "int option \<Rightarrow> int" where
  "or_zero x = (case x of Some v \<Rightarrow> v | None \<Rightarrow> 0)"

definition file_month_counts :: "bool \<Rightarrow> budget_file \<Rightarrow> budget_state \<Rightarrow> (int \<times> int \<times> int) option" where
  "file_month_counts merge f st =
     (if is_some (bf_month_prompt f) \<or> is_some (bf_month_calls f)
      then Some (or_zero (bf_month_prompt f), or_zero (bf_month_completion f), or_zero (bf_month_calls f))
      else if \<not> merge \<and> lb_month_prompt st = 0 \<and> lb_month_completion st = 0 \<and> lb_month_calls st = 0
      then Some (bf_prompt f, bf_completion f, bf_calls f)
      else None)"

definition load_month :: "bool \<Rightarrow> string \<Rightarrow> budget_file \<Rightarrow> budget_state \<Rightarrow> budget_state" where
  "load_month merge month f st =
     (if file_month_of f = month
      then (case file_month_counts merge f st of
              Some (mp, mc, mcalls) \<Rightarrow>
                st\<lparr>lb_month_prompt := take_count merge (lb_month_prompt st) mp,
                   lb_month_completion := take_count merge (lb_month_completion st) mc,
                   lb_month_calls := take_count merge (lb_month_calls st) mcalls,
                   lb_month_warned_soft := (lb_month_warned_soft st \<or> bf_month_soft_warned f \<or> bf_soft_warned f)\<rparr>
            | None \<Rightarrow> st)
      else st)"

definition load_from_disk :: "settings \<Rightarrow> string \<Rightarrow> string \<Rightarrow> bool \<Rightarrow> budget_world \<Rightarrow> budget_world" where
  "load_from_disk cfg day month merge w =
     (case (state_path cfg, bw_disk w) of
        (Some _, Some (mtime, Some f)) \<Rightarrow>
          w\<lparr>bw_state := (load_month merge month f (load_day merge day f (bw_state w)))\<lparr>lb_last_loaded := Some mtime\<rparr>\<rparr>
      | _ \<Rightarrow> w)"

definition file_of :: "string \<Rightarrow> string \<Rightarrow> budget_state \<Rightarrow> budget_file" where
  "file_of day month st = \<lparr>bf_day = day, bf_month = month, bf_prompt = lb_prompt st, bf_completion = lb_completion st,
     bf_calls = lb_calls st, bf_soft_warned = lb_warned_soft st, bf_month_prompt = Some (lb_month_prompt st),
     bf_month_completion = Some (lb_month_completion st), bf_month_calls = Some (lb_month_calls st),
     bf_month_soft_warned = lb_month_warned_soft st\<rparr>"

definition save_to_disk :: "settings \<Rightarrow> string \<Rightarrow> string \<Rightarrow> int \<Rightarrow> budget_world \<Rightarrow> budget_world" where
  "save_to_disk cfg day month mtime w =
     (case state_path cfg of None \<Rightarrow> w
      | Some _ \<Rightarrow> w\<lparr>bw_disk := Some (mtime, Some (file_of day month (bw_state w))),
                   bw_state := (bw_state w)\<lparr>lb_last_loaded := Some mtime\<rparr>\<rparr>)"

definition sync_disk_if_newer :: "settings \<Rightarrow> string \<Rightarrow> string \<Rightarrow> budget_world \<Rightarrow> budget_world" where
  "sync_disk_if_newer cfg day month w =
     (case (state_path cfg, bw_disk w) of
        (Some _, Some (mtime, _)) \<Rightarrow>
          if (case lb_last_loaded (bw_state w) of Some m \<Rightarrow> mtime \<le> m | None \<Rightarrow> False) then w
          else load_from_disk cfg day month True w
      | _ \<Rightarrow> w)"

definition new_day :: "string \<Rightarrow> budget_state \<Rightarrow> budget_state" where
  "new_day day st = (if lb_day st \<noteq> Some day
     then st\<lparr>lb_prompt := 0, lb_completion := 0, lb_calls := 0, lb_warned_soft := False, lb_day := Some day\<rparr> else st)"

definition new_month :: "string \<Rightarrow> budget_state \<Rightarrow> budget_state" where
  "new_month month st = (if lb_month st \<noteq> Some month
     then st\<lparr>lb_month_prompt := 0, lb_month_completion := 0, lb_month_calls := 0, lb_month_warned_soft := False,
             lb_month := Some month\<rparr> else st)"

definition roll_period :: "settings \<Rightarrow> string \<Rightarrow> string \<Rightarrow> budget_world \<Rightarrow> budget_world" where
  "roll_period cfg day month w =
     (if lb_day (bw_state w) \<noteq> Some day \<or> lb_month (bw_state w) \<noteq> Some month
      then load_from_disk cfg day month False (w\<lparr>bw_state := new_month month (new_day day (bw_state w))\<rparr>)
      else sync_disk_if_newer cfg day month w)"

section \<open>Snapshot, gate and recording\<close>

record LLMBudgetSnapshot =
  lbs_day :: string
  lbs_month :: string
  lbs_enforce :: bool
  lbs_prompt_tokens :: int
  lbs_completion_tokens :: int
  lbs_total_tokens :: int
  lbs_calls :: int
  lbs_token_budget :: int
  lbs_call_budget :: int
  lbs_soft_limit_pct :: rat
  lbs_tokens_remaining :: "int option"
  lbs_calls_remaining :: "int option"
  lbs_blocked :: bool
  lbs_soft_warned :: bool
  lbs_month_prompt_tokens :: int
  lbs_month_completion_tokens :: int
  lbs_month_total_tokens :: int
  lbs_month_calls :: int
  lbs_month_usd_estimate :: rat
  lbs_month_aud_estimate :: rat
  lbs_month_aud_budget :: rat
  lbs_month_aud_remaining :: "rat option"
  lbs_month_blocked :: bool
  lbs_month_soft_warned :: bool
  lbs_daily_aud_budget :: rat
  lbs_daily_budget_derived :: bool
  lbs_trading_days_per_month :: int
  lbs_billable :: bool
  lbs_runtime :: string

definition snapshot_of :: "settings \<Rightarrow> string \<Rightarrow> string \<Rightarrow> budget_state \<Rightarrow> LLMBudgetSnapshot" where
  "snapshot_of cfg day month st =
     (let daily = resolve_daily_llm_budgets cfg; billable = llm_spend_budget_applies cfg;
          total = lb_prompt st + lb_completion st;
          token_budget = (if billable then dbr_token_budget daily else 0);
          call_budget = (if billable then dbr_call_budget daily else 0);
          month_aud_budget = (if billable then month_budget cfg else 0);
          month_usd = (if billable then estimate_usd_cost (lb_month_prompt st) (lb_month_completion st) cfg else 0);
          month_aud = (if billable then fmul month_usd (cfg_llm_aud_per_usd cfg) else 0);
          month_blocked = (billable \<and> 0 < month_aud_budget \<and> month_aud_budget \<le> month_aud);
          blocked = (billable \<and> (0 < token_budget \<and> token_budget \<le> total \<or> 0 < call_budget \<and> call_budget \<le> lb_calls st)
                     \<or> month_blocked)
      in \<lparr>lbs_day = day, lbs_month = month, lbs_enforce = billable, lbs_prompt_tokens = lb_prompt st,
          lbs_completion_tokens = lb_completion st, lbs_total_tokens = total, lbs_calls = lb_calls st,
          lbs_token_budget = token_budget, lbs_call_budget = call_budget,
          lbs_soft_limit_pct = cfg_llm_budget_soft_limit_pct cfg,
          lbs_tokens_remaining = (if 0 < token_budget then Some (token_budget - total) else None),
          lbs_calls_remaining = (if 0 < call_budget then Some (call_budget - lb_calls st) else None),
          lbs_blocked = blocked, lbs_soft_warned = (billable \<and> lb_warned_soft st),
          lbs_month_prompt_tokens = lb_month_prompt st, lbs_month_completion_tokens = lb_month_completion st,
          lbs_month_total_tokens = lb_month_prompt st + lb_month_completion st, lbs_month_calls = lb_month_calls st,
          lbs_month_usd_estimate = month_usd, lbs_month_aud_estimate = month_aud, lbs_month_aud_budget = month_aud_budget,
          lbs_month_aud_remaining = (if 0 < month_aud_budget then Some (fsub month_aud_budget month_aud) else None),
          lbs_month_blocked = month_blocked, lbs_month_soft_warned = (billable \<and> lb_month_warned_soft st),
          lbs_daily_aud_budget = (if billable then dbr_daily_aud_budget daily else 0),
          lbs_daily_budget_derived = (billable \<and> dbr_derived daily), lbs_trading_days_per_month = dbr_trading_days daily,
          lbs_billable = billable, lbs_runtime = (if llm_is_local cfg then ''local'' else ''cloud'')\<rparr>)"

definition snapshot_llm_budget :: "settings \<Rightarrow> string \<Rightarrow> string \<Rightarrow> budget_world \<Rightarrow> LLMBudgetSnapshot \<times> budget_world" where
  "snapshot_llm_budget cfg day month w =
     (let w' = roll_period cfg day month w in (snapshot_of cfg day month (bw_state w'), w'))"

definition budget_reason :: "LLMBudgetSnapshot \<Rightarrow> string option" where
  "budget_reason s =
     (if 0 < lbs_month_aud_budget s \<and> lbs_month_aud_budget s \<le> lbs_month_aud_estimate s
      then Some (''monthly_aud_budget_exhausted:'' @ fmt_fixed 2 (lbs_month_aud_estimate s) @ ''/'' @ fmt_fixed 2 (lbs_month_aud_budget s))
      else if 0 < lbs_token_budget s \<and> lbs_token_budget s \<le> lbs_total_tokens s
      then Some (''daily_token_budget_exhausted:'' @ str_int (lbs_total_tokens s) @ ''/'' @ str_int (lbs_token_budget s))
      else if 0 < lbs_call_budget s \<and> lbs_call_budget s \<le> lbs_calls s
      then Some (''daily_call_budget_exhausted:'' @ str_int (lbs_calls s) @ ''/'' @ str_int (lbs_call_budget s))
      else None)"

definition assert_llm_budget_allows_call :: "settings \<Rightarrow> string \<Rightarrow> string \<Rightarrow> budget_world \<Rightarrow> unit py \<times> budget_world" where
  "assert_llm_budget_allows_call cfg day month w =
     (if \<not> llm_spend_budget_applies cfg then (Inr (), w)
      else case snapshot_llm_budget cfg day month w of
        (s, w') \<Rightarrow> (case budget_reason s of Some r \<Rightarrow> (Inl (LLMBudgetExceeded r), w') | None \<Rightarrow> (Inr (), w')))"

text \<open>Each warning is emitted at most once per period; the log lines are the returned names.\<close>

definition add_usage :: "int \<Rightarrow> int \<Rightarrow> budget_state \<Rightarrow> budget_state" where
  "add_usage p c st = (let add_p = max 0 p; add_c = max 0 c in
     st\<lparr>lb_prompt := lb_prompt st + add_p, lb_completion := lb_completion st + add_c, lb_calls := lb_calls st + 1,
        lb_month_prompt := lb_month_prompt st + add_p, lb_month_completion := lb_month_completion st + add_c,
        lb_month_calls := lb_month_calls st + 1\<rparr>)"

definition soft_limit_hit :: "settings \<Rightarrow> budget_state \<Rightarrow> bool" where
  "soft_limit_hit cfg st =
     (let daily = resolve_daily_llm_budgets cfg; soft = cfg_llm_budget_soft_limit_pct cfg in
      llm_spend_budget_applies cfg \<and> \<not> lb_warned_soft st \<and> 0 < soft
      \<and> (0 < dbr_token_budget daily \<and> trunc_int (fmul (fl (of_int (dbr_token_budget daily))) soft) \<le> lb_prompt st + lb_completion st
         \<or> 0 < dbr_call_budget daily \<and> trunc_int (fmul (fl (of_int (dbr_call_budget daily))) soft) \<le> lb_calls st))"

definition month_limit_hit :: "settings \<Rightarrow> budget_state \<Rightarrow> bool" where
  "month_limit_hit cfg st =
     (let soft = cfg_llm_budget_soft_limit_pct cfg in
      llm_spend_budget_applies cfg \<and> \<not> lb_month_warned_soft st \<and> 0 < soft \<and> 0 < month_budget cfg
      \<and> fmul (month_budget cfg) soft \<le> estimate_aud_cost (lb_month_prompt st) (lb_month_completion st) cfg)"

definition record_llm_usage :: "settings \<Rightarrow> string \<Rightarrow> string \<Rightarrow> int \<Rightarrow> int \<Rightarrow> int \<Rightarrow> budget_world
    \<Rightarrow> LLMBudgetSnapshot \<times> string list \<times> budget_world" where
  "record_llm_usage cfg day month mtime prompt_t completion_t w =
     (if llm_is_local cfg then (case snapshot_llm_budget cfg day month w of (s, w') \<Rightarrow> (s, [], w'))
      else let w1 = roll_period cfg day month w; st = add_usage prompt_t completion_t (bw_state w1);
             daily_hit = soft_limit_hit cfg st; month_hit = month_limit_hit cfg st;
             st' = st\<lparr>lb_warned_soft := (lb_warned_soft st \<or> daily_hit), lb_month_warned_soft := (lb_month_warned_soft st \<or> month_hit)\<rparr>;
             w2 = save_to_disk cfg day month mtime (w1\<lparr>bw_state := st'\<rparr>)
           in case snapshot_llm_budget cfg day month w2 of
             (s, w3) \<Rightarrow> (s, (if daily_hit then [''llm_budget_soft_limit''] else [])
                            @ (if month_hit then [''llm_monthly_aud_soft_limit''] else []), w3))"

section \<open>The gate and the published flag agree\<close>

text \<open>
  The gate in front of a call and the snapshot the dashboard shows agree: a call is let through exactly
  when the snapshot taken at the same moment is not blocked, and both leave the counters in the same state.
\<close>

theorem gate_agrees_with_snapshot:
  assumes "llm_spend_budget_applies cfg" "snapshot_llm_budget cfg day month w = (s, w')"
  shows "snd (assert_llm_budget_allows_call cfg day month w) = w'
    \<and> (fst (assert_llm_budget_allows_call cfg day month w) = Inr () \<longleftrightarrow> \<not> lbs_blocked s)"
proof -
  have "budget_reason s = None \<longleftrightarrow> \<not> lbs_blocked s"
    using assms by (auto simp: snapshot_llm_budget_def snapshot_of_def budget_reason_def Let_def)
  then show ?thesis using assms by (auto simp: assert_llm_budget_allows_call_def split: option.splits)
qed

section \<open>One day of concurrent calls, with restarts\<close>

text \<open>
  The worlds one process reaches on one day from no file, with the requests in flight.  A request passes the gate of
  \<open>complete_json\<close> once and may then report usage up to \<open>r\<close> times (a follow-up after an empty answer and the retries
  report again), each time at most \<open>k\<close> tokens; at most \<open>n\<close> requests are between their gate and their
  last report (the pipeline gathers the macro and the quant call).  The list holds how many reports each of them has left.  The process looks at the
  budget, and is killed and started again, at any moment.
\<close>

inductive budget_reach ::
    "settings \<Rightarrow> string \<Rightarrow> string \<Rightarrow> int \<Rightarrow> nat \<Rightarrow> nat \<Rightarrow> budget_world \<Rightarrow> nat list \<Rightarrow> bool" for cfg day month k n r where
  start: "budget_reach cfg day month k n r \<lparr>bw_state = fresh_state, bw_disk = None\<rparr> []"
| restart: "budget_reach cfg day month k n r w fs \<Longrightarrow> budget_reach cfg day month k n r (w\<lparr>bw_state := fresh_state\<rparr>) []"
| look: "budget_reach cfg day month k n r w fs \<Longrightarrow> snapshot_llm_budget cfg day month w = (s, w')
    \<Longrightarrow> budget_reach cfg day month k n r w' fs"
| refused: "budget_reach cfg day month k n r w fs \<Longrightarrow> assert_llm_budget_allows_call cfg day month w = (Inl e, w')
    \<Longrightarrow> budget_reach cfg day month k n r w' fs"
| gate: "budget_reach cfg day month k n r w fs \<Longrightarrow> length fs < n \<Longrightarrow> assert_llm_budget_allows_call cfg day month w = (Inr (), w')
    \<Longrightarrow> budget_reach cfg day month k n r w' (r # fs)"
| usage: "budget_reach cfg day month k n r w (xs @ Suc m # ys) \<Longrightarrow> 0 \<le> p \<Longrightarrow> 0 \<le> c \<Longrightarrow> p + c \<le> k
    \<Longrightarrow> record_llm_usage cfg day month t p c w = (s, l, w') \<Longrightarrow> budget_reach cfg day month k n r w' (xs @ m # ys)"
| finish: "budget_reach cfg day month k n r w (xs @ m # ys) \<Longrightarrow> budget_reach cfg day month k n r w (xs @ ys)"

definition day_total :: "budget_state \<Rightarrow> int" where
  "day_total st = lb_prompt st + lb_completion st"

definition same_day_counts :: "budget_state \<Rightarrow> budget_state \<Rightarrow> bool" where
  "same_day_counts a b \<longleftrightarrow> lb_prompt a = lb_prompt b \<and> lb_completion a = lb_completion b \<and> lb_calls a = lb_calls b"

text \<open>The counters with every report that may still come, against the budget and \<open>n * r\<close> reports.\<close>

definition within_budget :: "settings \<Rightarrow> int \<Rightarrow> nat \<Rightarrow> nat \<Rightarrow> nat list \<Rightarrow> budget_state \<Rightarrow> bool" where
  "within_budget cfg k n r fs st \<longleftrightarrow> (let d = resolve_daily_llm_budgets cfg in
     length fs \<le> n \<and> (\<forall>m \<in> set fs. m \<le> r)
     \<and> (0 < dbr_token_budget d \<longrightarrow> day_total st + k * int (sum_list fs) < dbr_token_budget d + k * int (n * r))
     \<and> (0 < dbr_call_budget d \<longrightarrow> lb_calls st + int (sum_list fs) < dbr_call_budget d + int (n * r)))"

lemma flight_bound: "length fs \<le> n \<Longrightarrow> \<forall>m \<in> set fs. m \<le> r \<Longrightarrow> sum_list fs \<le> n * (r :: nat)"
proof (induction fs arbitrary: n)
  case (Cons m fs)
  then obtain n' where n: "n = Suc n'" by (cases n) auto
  then have "sum_list fs \<le> n' * r" "m \<le> r" using Cons by simp_all
  then show ?case by (simp add: n add_mono)
qed simp

text \<open>A gate that lets a request through finds the counters below the budget, so there is room for every pending report.\<close>

lemma within_gate:
  assumes "0 \<le> k" "length fs < n" "\<forall>m \<in> set fs. m \<le> r"
    "0 < dbr_token_budget (resolve_daily_llm_budgets cfg) \<longrightarrow> day_total st < dbr_token_budget (resolve_daily_llm_budgets cfg)"
    "0 < dbr_call_budget (resolve_daily_llm_budgets cfg) \<longrightarrow> lb_calls st < dbr_call_budget (resolve_daily_llm_budgets cfg)"
  shows "within_budget cfg k n r (r # fs) st"
proof -
  have s: "sum_list (r # fs) \<le> n * r" by (rule flight_bound) (use assms(2,3) in auto)
  then have i: "int (sum_list (r # fs)) \<le> int (n * r)" by (simp only: of_nat_le_iff)
  have "k * int (sum_list (r # fs)) \<le> k * int (n * r)" by (rule mult_left_mono[OF i assms(1)])
  then show ?thesis using assms(2-5) i unfolding within_budget_def Let_def by (auto simp del: sum_list.Cons)
qed

text \<open>A report uses up one of the pending ones; dropping a request only frees room.\<close>

lemma within_usage:
  assumes "within_budget cfg k n r (xs @ Suc m # ys) st" "day_total st' \<le> day_total st + k" "lb_calls st' = lb_calls st + 1"
  shows "within_budget cfg k n r (xs @ m # ys) st'"
proof -
  have "int (sum_list (xs @ Suc m # ys)) = int (sum_list (xs @ m # ys)) + 1" by simp
  moreover have "k * int (sum_list (xs @ Suc m # ys)) = k * int (sum_list (xs @ m # ys)) + k" by (simp add: algebra_simps)
  ultimately show ?thesis using assms unfolding within_budget_def Let_def by (auto simp del: sum_list.append)
qed

lemma within_fewer:
  assumes "within_budget cfg k n r fs st" "0 \<le> k" "sum_list fs' \<le> sum_list fs" "length fs' \<le> length fs" "set fs' \<subseteq> set fs"
  shows "within_budget cfg k n r fs' st"
proof -
  have "int (sum_list fs') \<le> int (sum_list fs)" using assms(3) by simp
  then have "k * int (sum_list fs') \<le> k * int (sum_list fs)" by (rule mult_left_mono[OF _ assms(2)])
  then show ?thesis using assms unfolding within_budget_def Let_def by auto
qed

text \<open>\<open>st\<close> holds the true counters of the day: the file has them, and so has the process once it has rolled.\<close>

definition tracks :: "string \<Rightarrow> string \<Rightarrow> budget_world \<Rightarrow> budget_state \<Rightarrow> bool" where
  "tracks day month w st \<longleftrightarrow>
     (case bw_disk w of None \<Rightarrow> same_day_counts st fresh_state | Some (m, f) \<Rightarrow> f = Some (file_of day month st))
     \<and> (bw_state w = fresh_state
        \<or> lb_day (bw_state w) = Some day \<and> lb_month (bw_state w) = Some month \<and> same_day_counts (bw_state w) st
          \<and> (case bw_disk w of None \<Rightarrow> True | Some (m, f) \<Rightarrow> lb_last_loaded (bw_state w) = Some m))"

definition rolled :: "string \<Rightarrow> string \<Rightarrow> budget_world \<Rightarrow> bool" where
  "rolled day month w \<longleftrightarrow> lb_day (bw_state w) = Some day \<and> lb_month (bw_state w) = Some month"

lemmas load_defs = load_from_disk_def load_day_def load_month_def take_count_def file_of_def

lemma load_month_day [simp]:
  "lb_prompt (load_month m month f st) = lb_prompt st" "lb_completion (load_month m month f st) = lb_completion st"
  "lb_calls (load_month m month f st) = lb_calls st" "lb_warned_soft (load_month m month f st) = lb_warned_soft st"
  "lb_day (load_month m month f st) = lb_day st" "lb_month (load_month m month f st) = lb_month st"
  "lb_last_loaded (load_month m month f st) = lb_last_loaded st"
  by (auto simp: load_month_def split: option.splits)

lemma roll_rolled:
  assumes "state_path cfg \<noteq> None" "tracks day month w st"
  shows "rolled day month (roll_period cfg day month w) \<and> tracks day month (roll_period cfg day month w) st
    \<and> bw_disk (roll_period cfg day month w) = bw_disk w"
proof (cases "bw_state w = fresh_state")
  case True
  show ?thesis
  proof (cases "bw_disk w")
    case None
    then show ?thesis using True assms
      by (auto simp: roll_period_def load_from_disk_def tracks_def rolled_def new_day_def new_month_def fresh_state_def same_day_counts_def
          split: option.splits)
  next
    case (Some mf)
    then show ?thesis using True assms
      by (auto simp: roll_period_def load_from_disk_def load_day_def take_count_def file_of_def tracks_def rolled_def
          new_day_def new_month_def fresh_state_def same_day_counts_def split: option.splits)
  qed
next
  case False
  then show ?thesis using assms
    by (auto simp: roll_period_def sync_disk_if_newer_def tracks_def rolled_def split: option.splits)
qed

lemma record_tracks:
  assumes "state_path cfg \<noteq> None" "\<not> llm_is_local cfg" "tracks day month w st" "0 \<le> p" "0 \<le> c"
    and "record_llm_usage cfg day month t p c w = (s, l, w')"
  shows "\<exists>st'. tracks day month w' st' \<and> day_total st' = day_total st + p + c \<and> lb_calls st' = lb_calls st + 1"
proof -
  let ?w1 = "roll_period cfg day month w"
  let ?st = "add_usage p c (bw_state ?w1)"
  let ?st' = "?st\<lparr>lb_warned_soft := lb_warned_soft ?st \<or> soft_limit_hit cfg ?st, lb_month_warned_soft := lb_month_warned_soft ?st \<or> month_limit_hit cfg ?st\<rparr>"
  let ?w2 = "save_to_disk cfg day month t (?w1\<lparr>bw_state := ?st'\<rparr>)"
  have r: "rolled day month ?w1" "tracks day month ?w1 st" using roll_rolled[OF assms(1,3)] by auto
  then have "bw_state ?w1 \<noteq> fresh_state" by (auto simp: rolled_def fresh_state_def)
  then have c: "same_day_counts (bw_state ?w1) st" using r(2) by (simp add: tracks_def)
  have w2: "tracks day month ?w2 ?st'"
    using r(1) assms(1) by (auto simp: tracks_def save_to_disk_def rolled_def same_day_counts_def add_usage_def file_of_def Let_def)
  have "w' = roll_period cfg day month ?w2"
    using assms(2,6) by (simp add: record_llm_usage_def snapshot_llm_budget_def Let_def)
  then have "tracks day month w' ?st'" using roll_rolled[OF assms(1) w2] by simp
  moreover have "day_total ?st' = day_total st + p + c" "lb_calls ?st' = lb_calls st + 1"
    using c assms(4,5) by (simp_all add: day_total_def add_usage_def same_day_counts_def Let_def)
  ultimately show ?thesis by blast
qed

lemma gate_room:
  assumes "state_path cfg \<noteq> None" "llm_spend_budget_applies cfg" "tracks day month w st"
    and "assert_llm_budget_allows_call cfg day month w = (Inr (), w1)"
  shows "tracks day month w1 st \<and> (0 < dbr_token_budget (resolve_daily_llm_budgets cfg) \<longrightarrow> day_total st < dbr_token_budget (resolve_daily_llm_budgets cfg))
    \<and> (0 < dbr_call_budget (resolve_daily_llm_budgets cfg) \<longrightarrow> lb_calls st < dbr_call_budget (resolve_daily_llm_budgets cfg))"
proof -
  let ?w = "roll_period cfg day month w"
  have r: "rolled day month ?w" "tracks day month ?w st" using roll_rolled[OF assms(1,3)] by auto
  then have c: "same_day_counts (bw_state ?w) st" by (auto simp: tracks_def rolled_def fresh_state_def)
  have "w1 = ?w" "budget_reason (snapshot_of cfg day month (bw_state ?w)) = None"
    using assms(2,4) by (auto simp: assert_llm_budget_allows_call_def snapshot_llm_budget_def Let_def split: option.splits)
  then show ?thesis using r(2) c assms(2)
    by (auto simp: budget_reason_def snapshot_of_def Let_def day_total_def same_day_counts_def split: if_splits)
qed

lemma applies_not_local: "llm_spend_budget_applies cfg \<Longrightarrow> \<not> llm_is_local cfg"
  by (simp add: llm_spend_budget_applies_def)

lemma reach_tracks:
  assumes "budget_reach cfg day month k n r w fs" "state_path cfg \<noteq> None" "llm_spend_budget_applies cfg" "0 \<le> k" "0 < n" "0 < r"
  shows "\<exists>st. tracks day month w st \<and> within_budget cfg k n r fs st"
  using assms(1)
proof induction
  case start
  have "tracks day month \<lparr>bw_state = fresh_state, bw_disk = None\<rparr> fresh_state" by (simp add: tracks_def same_day_counts_def)
  moreover have "within_budget cfg k n r [] fresh_state"
    using assms(4-6) by (simp add: within_budget_def day_total_def fresh_state_def Let_def add_pos_nonneg)
  ultimately show ?case by blast
next
  case (restart w fs)
  then obtain st where st: "tracks day month w st" "within_budget cfg k n r fs st" by blast
  have "tracks day month (w\<lparr>bw_state := fresh_state\<rparr>) st" using st(1) by (auto simp: tracks_def)
  moreover have "within_budget cfg k n r [] st" by (rule within_fewer[OF st(2) assms(4)]) simp_all
  ultimately show ?case by blast
next
  case (look w fs s w')
  then obtain st where st: "tracks day month w st" "within_budget cfg k n r fs st" by blast
  have "w' = roll_period cfg day month w" using look.hyps(2) by (simp add: snapshot_llm_budget_def Let_def)
  then show ?case using roll_rolled[OF assms(2) st(1)] st(2) by blast
next
  case (refused w fs e w')
  then obtain st where st: "tracks day month w st" "within_budget cfg k n r fs st" by blast
  have "w' = roll_period cfg day month w"
    using refused.hyps(2) assms(3)
    by (auto simp: assert_llm_budget_allows_call_def snapshot_llm_budget_def Let_def split: option.splits)
  then show ?case using roll_rolled[OF assms(2) st(1)] st(2) by blast
next
  case (gate w fs w')
  then obtain st where st: "tracks day month w st" "within_budget cfg k n r fs st" by blast
  note room = gate_room[OF assms(2,3) st(1) gate.hyps(3)]
  have "\<forall>m \<in> set fs. m \<le> r" using st(2) by (simp add: within_budget_def Let_def)
  from within_gate[OF assms(4) gate.hyps(2) this] room show ?case by blast
next
  case (usage w xs m ys p c t s l w')
  then obtain st where st: "tracks day month w st" "within_budget cfg k n r (xs @ Suc m # ys) st" by blast
  obtain st' where st': "tracks day month w' st'" "day_total st' = day_total st + p + c" "lb_calls st' = lb_calls st + 1"
    using record_tracks[OF assms(2) applies_not_local[OF assms(3)] st(1) usage.hyps(2,3,5)] by blast
  have "within_budget cfg k n r (xs @ m # ys) st'" by (rule within_usage[OF st(2)]) (use st' usage.hyps(4) in simp_all)
  then show ?case using st'(1) by blast
next
  case (finish w xs m ys)
  then obtain st where st: "tracks day month w st" "within_budget cfg k n r (xs @ m # ys) st" by blast
  have "within_budget cfg k n r (xs @ ys) st" by (rule within_fewer[OF st(2) assms(4)]) auto
  then show ?case using st(1) by blast
qed

text \<open>
  Property C16.  With a state file configured the daily budget of a billable model is overshot by no more than the requests
  that passed the gate before the budget was used up.  One process runs any interleaving of gates, usage reports, looks
  and restarts, with at most \<open>n\<close> requests between gate and last report and at most \<open>r\<close> reports of
  at most \<open>k\<close> tokens each per request: the day's tokens stay below the budget plus \<open>n * r\<close> such
  reports and its recorded calls below the budget plus \<open>n * r\<close>, in the counters of every rolled process and in the
  file a restarted one reads.
\<close>

theorem daily_budget_survives_restarts:
  assumes "budget_reach cfg day month k n r w fs" "state_path cfg \<noteq> None" "llm_spend_budget_applies cfg" "0 \<le> k" "0 < n" "0 < r"
    and "d = resolve_daily_llm_budgets cfg"
  shows "(rolled day month w \<longrightarrow> (0 < dbr_token_budget d \<longrightarrow> day_total (bw_state w) < dbr_token_budget d + k * int (n * r))
        \<and> (0 < dbr_call_budget d \<longrightarrow> lb_calls (bw_state w) < dbr_call_budget d + int (n * r)))
    \<and> (\<forall>m f. bw_disk w = Some (m, Some f) \<longrightarrow> (0 < dbr_token_budget d \<longrightarrow> bf_prompt f + bf_completion f < dbr_token_budget d + k * int (n * r))
        \<and> (0 < dbr_call_budget d \<longrightarrow> bf_calls f < dbr_call_budget d + int (n * r)))"
proof -
  obtain st where st: "tracks day month w st" "within_budget cfg k n r fs st" using reach_tracks[OF assms(1-6)] by blast
  have "0 \<le> k * int (sum_list fs)" using assms(4) by simp
  then have bound: "(0 < dbr_token_budget d \<longrightarrow> day_total st < dbr_token_budget d + k * int (n * r))
      \<and> (0 < dbr_call_budget d \<longrightarrow> lb_calls st < dbr_call_budget d + int (n * r))"
    using st(2) unfolding within_budget_def Let_def assms(7)[symmetric] by linarith
  have "rolled day month w \<Longrightarrow> same_day_counts (bw_state w) st" using st(1) by (auto simp: tracks_def rolled_def fresh_state_def)
  moreover have "bw_disk w = Some (m, Some f) \<Longrightarrow> f = file_of day month st" for m f using st(1) by (simp add: tracks_def)
  ultimately show ?thesis using bound by (auto simp: same_day_counts_def day_total_def file_of_def)
qed

section \<open>Restart and rollover\<close>

lemma roll_synced:
  assumes "rolled day month w" "bw_disk w = Some (m, f)" "lb_last_loaded (bw_state w) = Some m"
  shows "roll_period cfg day month w = w"
  using assms by (simp add: roll_period_def rolled_def sync_disk_if_newer_def split: option.splits)

lemma roll_fresh:
  assumes "state_path cfg \<noteq> None" "month \<noteq> []" "bw_disk w = Some (m, Some (file_of day month st))" "bw_state w = fresh_state"
  shows "bw_state (roll_period cfg day month w) = st\<lparr>lb_day := Some day, lb_month := Some month, lb_last_loaded := Some m,
    lb_month_warned_soft := lb_month_warned_soft st \<or> lb_warned_soft st\<rparr>"
proof -
  obtain q where q: "state_path cfg = Some q" using assms(1) by blast
  have f: "bf_day (file_of day month st) = day" "file_month_of (file_of day month st) = month"
    "file_month_counts False (file_of day month st) x = Some (lb_month_prompt st, lb_month_completion st, lb_month_calls st)" for x
    using assms(2) by (simp_all add: file_month_of_def file_month_counts_def file_of_def or_zero_def)
  have "bw_state (roll_period cfg day month w) = (load_month False month (file_of day month st)
      (load_day False day (file_of day month st) (new_month month (new_day day fresh_state))))\<lparr>lb_last_loaded := Some m\<rparr>"
    using assms(3,4) q by (simp add: roll_period_def load_from_disk_def fresh_state_def)
  also have "\<dots> = st\<lparr>lb_day := Some day, lb_month := Some month, lb_last_loaded := Some m,
    lb_month_warned_soft := lb_month_warned_soft st \<or> lb_warned_soft st\<rparr>"
    unfolding load_month_def f by (cases st) (simp add: load_day_def take_count_def new_month_def new_day_def fresh_state_def file_of_def)
  finally show ?thesis .
qed

definition recorded :: "settings \<Rightarrow> int \<Rightarrow> int \<Rightarrow> budget_state \<Rightarrow> budget_state" where
  "recorded cfg p c st = (let st1 = add_usage p c st in
     st1\<lparr>lb_warned_soft := lb_warned_soft st1 \<or> soft_limit_hit cfg st1, lb_month_warned_soft := lb_month_warned_soft st1 \<or> month_limit_hit cfg st1\<rparr>)"

lemma record_world:
  assumes "record_llm_usage cfg day month t p c w = (s, l, w')" "state_path cfg \<noteq> None" "\<not> llm_is_local cfg"
    and "rolled day month (roll_period cfg day month w)" "st = recorded cfg p c (bw_state (roll_period cfg day month w))"
  shows "bw_state w' = st\<lparr>lb_last_loaded := Some t\<rparr> \<and> bw_disk w' = Some (t, Some (file_of day month st))
    \<and> l = (if soft_limit_hit cfg (add_usage p c (bw_state (roll_period cfg day month w))) then [''llm_budget_soft_limit''] else [])
      @ (if month_limit_hit cfg (add_usage p c (bw_state (roll_period cfg day month w))) then [''llm_monthly_aud_soft_limit''] else [])"
proof -
  obtain q where q: "state_path cfg = Some q" using assms(2) by blast
  let ?w2 = "save_to_disk cfg day month t ((roll_period cfg day month w)\<lparr>bw_state := st\<rparr>)"
  have st: "lb_day st = Some day" "lb_month st = Some month"
    using assms(4,5) by (simp_all add: rolled_def recorded_def add_usage_def Let_def)
  have w2: "bw_state ?w2 = st\<lparr>lb_last_loaded := Some t\<rparr>" "bw_disk ?w2 = Some (t, Some (file_of day month st))"
    using q by (simp_all add: save_to_disk_def)
  have "roll_period cfg day month ?w2 = ?w2" by (rule roll_synced[OF _ w2(2)]) (simp_all add: w2(1) rolled_def st)
  then show ?thesis using assms(1,3,5) w2
    by (simp add: record_llm_usage_def snapshot_llm_budget_def recorded_def Let_def)
qed

text \<open>
  A usage report is durable: a process killed right after recording it and started again on the same day
  reads back the same day and month counters and the same daily warning.
\<close>

theorem usage_survives_restart:
  assumes "record_llm_usage cfg day month t p c w = (s, l, w')" "state_path cfg \<noteq> None" "\<not> llm_is_local cfg" "month \<noteq> []"
    and "rolled day month (roll_period cfg day month w)"
  shows "bw_state (roll_period cfg day month (w'\<lparr>bw_state := fresh_state\<rparr>))
    = (bw_state w')\<lparr>lb_month_warned_soft := lb_month_warned_soft (bw_state w') \<or> lb_warned_soft (bw_state w')\<rparr>"
proof -
  let ?st = "recorded cfg p c (bw_state (roll_period cfg day month w))"
  note w' = record_world[OF assms(1-3,5) refl]
  have st: "lb_day ?st = Some day" "lb_month ?st = Some month"
    using assms(5) by (simp_all add: rolled_def recorded_def add_usage_def Let_def)
  have "bw_state (roll_period cfg day month (w'\<lparr>bw_state := fresh_state\<rparr>)) = ?st\<lparr>lb_day := Some day, lb_month := Some month,
    lb_last_loaded := Some t, lb_month_warned_soft := lb_month_warned_soft ?st \<or> lb_warned_soft ?st\<rparr>"
    by (rule roll_fresh[OF assms(2,4)]) (use w' in simp_all)
  then show ?thesis using w' st by (cases ?st) simp
qed

text \<open>
  The daily soft warning mutes the monthly one: when the file of an earlier day of the month carries the
  daily warning, the roll into a new day marks the month as warned although no monthly warning was
  ever given, and the usage recorded then emits none, at any cost.
\<close>

theorem daily_warning_mutes_monthly:
  assumes "state_path cfg \<noteq> None" "\<not> llm_is_local cfg" "bw_disk w = Some (m, Some f)"
    and "bf_day f \<noteq> day" "bf_month f = month" "month \<noteq> []" "bf_month_prompt f \<noteq> None" "bf_soft_warned f" "\<not> bf_month_soft_warned f"
    and "lb_day (bw_state w) \<noteq> Some day" "record_llm_usage cfg day month t p c w = (s, l, w')"
  shows "lb_month_warned_soft (bw_state w') \<and> ''llm_monthly_aud_soft_limit'' \<notin> set l"
proof -
  let ?w1 = "roll_period cfg day month w"
  obtain q where q: "state_path cfg = Some q" using assms(1) by blast
  have f: "file_month_of f = month" "\<exists>x. file_month_counts False f st = Some x" for st
    using assms(5-7) by (auto simp: file_month_of_def file_month_counts_def)
  have "bw_state ?w1 = (load_month False month f (load_day False day f (new_month month (new_day day (bw_state w)))))\<lparr>lb_last_loaded := Some m\<rparr>"
    using assms(3,10) q by (simp add: roll_period_def load_from_disk_def)
  moreover have "lb_month_warned_soft (load_month False month f st)" for st
    using f(1) f(2)[of st] assms(8) by (auto simp: load_month_def)
  moreover have "lb_day (load_day False day f st) = lb_day st" "lb_month (load_day False day f st) = lb_month st" for st
    using assms(4) by (simp_all add: load_day_def)
  ultimately have warned: "lb_month_warned_soft (bw_state ?w1)" "rolled day month ?w1"
    by (auto simp: rolled_def new_day_def new_month_def)
  then have no: "\<not> month_limit_hit cfg (add_usage p c (bw_state ?w1))"
    by (simp add: month_limit_hit_def add_usage_def Let_def)
  have "lb_month_warned_soft (recorded cfg p c (bw_state ?w1))" using warned(1) by (simp add: recorded_def add_usage_def Let_def)
  then show ?thesis using record_world[OF assms(11,1,2) warned(2) refl] no by simp
qed

section \<open>Samples\<close>

definition sample_llm :: settings where
  "sample_llm = default_settings\<lparr>cfg_llm_monthly_aud_budget := 1 / 4, cfg_llm_daily_token_budget := 1000, cfg_llm_daily_call_budget := 100\<rparr>"

definition sample_used :: budget_state where
  "sample_used = fresh_state\<lparr>lb_day := Some ''2026-03-05'', lb_month := Some ''2026-03'', lb_prompt := 900, lb_month_prompt := 900,
     lb_calls := 1, lb_month_calls := 1, lb_warned_soft := True, lb_last_loaded := Some 1\<rparr>"

definition sample_llm_world :: budget_world where
  "sample_llm_world = \<lparr>bw_state = sample_used, bw_disk = Some (1, Some (file_of ''2026-03-05'' ''2026-03'' sample_used))\<rparr>"

lemma sample_llm_ok: "state_path sample_llm \<noteq> None" "llm_spend_budget_applies sample_llm" "\<not> llm_is_local sample_llm"
  by code_simp+

text \<open>The next day two calls for a million tokens each: past the whole month's budget, and no monthly warning.\<close>

theorem daily_warning_mutes_monthly_witness:
  "fst (snd (record_llm_usage sample_llm ''2026-03-06'' ''2026-03'' 2 2000000 0 sample_llm_world)) = [''llm_budget_soft_limit'']
    \<and> lb_month_warned_soft (bw_state (snd (snd (record_llm_usage sample_llm ''2026-03-06'' ''2026-03'' 2 2000000 0 sample_llm_world))))"
proof
  show "fst (snd (record_llm_usage sample_llm ''2026-03-06'' ''2026-03'' 2 2000000 0 sample_llm_world)) = [''llm_budget_soft_limit'']"
    by code_simp
  obtain s l w' where r: "record_llm_usage sample_llm ''2026-03-06'' ''2026-03'' 2 2000000 0 sample_llm_world = (s, l, w')" by (metis prod_cases3)
  have "lb_month_warned_soft (bw_state w') \<and> ''llm_monthly_aud_soft_limit'' \<notin> set l"
    by (rule daily_warning_mutes_monthly[where f = "file_of ''2026-03-05'' ''2026-03'' sample_used" and m = 1, OF _ _ _ _ _ _ _ _ _ _ r])
      (use sample_llm_ok in \<open>simp_all add: sample_llm_world_def file_of_def sample_used_def fresh_state_def\<close>)
  then show "lb_month_warned_soft (bw_state (snd (snd (record_llm_usage sample_llm ''2026-03-06'' ''2026-03'' 2 2000000 0 sample_llm_world))))"
    by (simp add: r)
qed

theorem usage_survives_restart_witness:
  "\<exists>s l w'. record_llm_usage sample_llm ''2026-03-05'' ''2026-03'' 2 10 10 sample_llm_world = (s, l, w')
    \<and> lb_prompt (bw_state (roll_period sample_llm ''2026-03-05'' ''2026-03'' (w'\<lparr>bw_state := fresh_state\<rparr>))) = lb_prompt (bw_state w')"
proof -
  obtain s l w' where r: "record_llm_usage sample_llm ''2026-03-05'' ''2026-03'' 2 10 10 sample_llm_world = (s, l, w')" by (metis prod_cases3)
  have "rolled ''2026-03-05'' ''2026-03'' (roll_period sample_llm ''2026-03-05'' ''2026-03'' sample_llm_world)" by code_simp
  from usage_survives_restart[OF r sample_llm_ok(1,3) _ this] show ?thesis using r by simp
qed

theorem gate_agrees_with_snapshot_witness:
  "fst (assert_llm_budget_allows_call sample_llm ''2026-03-05'' ''2026-03'' sample_llm_world) = Inr ()"
proof -
  let ?s = "snapshot_llm_budget sample_llm ''2026-03-05'' ''2026-03'' sample_llm_world"
  have "\<not> lbs_blocked (fst ?s)" by code_simp
  then show ?thesis using gate_agrees_with_snapshot[OF sample_llm_ok(2) prod.collapse[symmetric]] by blast
qed

text \<open>Two requests pass the gate of a budget of 1000 tokens together and report 600 each; a restarted process reads 1200.\<close>

definition sample_gate :: "budget_world \<Rightarrow> budget_world" where
  "sample_gate w = snd (assert_llm_budget_allows_call sample_llm ''2026-03-05'' ''2026-03'' w)"

definition sample_usage :: "int \<Rightarrow> budget_world \<Rightarrow> budget_world" where
  "sample_usage t w = snd (snd (record_llm_usage sample_llm ''2026-03-05'' ''2026-03'' t 500 100 w))"

definition sample_gathered :: budget_world where
  "sample_gathered = snd (snapshot_llm_budget sample_llm ''2026-03-05'' ''2026-03''
     ((sample_usage 3 (sample_usage 2 (sample_gate (sample_gate \<lparr>bw_state = fresh_state, bw_disk = None\<rparr>))))\<lparr>bw_state := fresh_state\<rparr>))"

lemma sample_budget_gates:
  "fst (assert_llm_budget_allows_call sample_llm ''2026-03-05'' ''2026-03'' \<lparr>bw_state = fresh_state, bw_disk = None\<rparr>) = Inr ()"
  "fst (assert_llm_budget_allows_call sample_llm ''2026-03-05'' ''2026-03'' (sample_gate \<lparr>bw_state = fresh_state, bw_disk = None\<rparr>)) = Inr ()"
  by code_simp+

lemma sample_gathered_reach: "budget_reach sample_llm ''2026-03-05'' ''2026-03'' 600 2 1 sample_gathered []"
proof -
  let ?reach = "budget_reach sample_llm ''2026-03-05'' ''2026-03'' 600 2 1" and ?w0 = "\<lparr>bw_state = fresh_state, bw_disk = None\<rparr>"
  have step: "?reach w fs \<Longrightarrow> length fs < 2 \<Longrightarrow> fst (assert_llm_budget_allows_call sample_llm ''2026-03-05'' ''2026-03'' w) = Inr ()
      \<Longrightarrow> ?reach (sample_gate w) (1 # fs)" for w fs
    unfolding sample_gate_def by (rule budget_reach.gate) (simp_all add: prod_eq_iff)
  have use: "?reach w (xs @ Suc m # ys) \<Longrightarrow> ?reach (sample_usage t w) (xs @ m # ys)" for w xs m ys t
    unfolding sample_usage_def
    by (cases "record_llm_usage sample_llm ''2026-03-05'' ''2026-03'' t 500 100 w")
      (simp add: budget_reach.usage[where p = 500 and c = 100 and k = 600])
  have "?reach (sample_gate (sample_gate ?w0)) [1, 1]" using step[OF step[OF budget_reach.start _ sample_budget_gates(1)] _ sample_budget_gates(2)] by simp
  then have "?reach (sample_usage 3 (sample_usage 2 (sample_gate (sample_gate ?w0)))) [0, 0]"
    using use[of _ "[]" 0 "[1]" 2] use[of _ "[0]" 0 "[]" 3] by simp
  from budget_reach.look[OF budget_reach.restart[OF this] prod.collapse[symmetric]] show ?thesis
    by (simp add: sample_gathered_def)
qed

lemma sample_gathered_total: "rolled ''2026-03-05'' ''2026-03'' sample_gathered \<and> day_total (bw_state sample_gathered) = 1200"
proof -
  let ?tracks = "tracks ''2026-03-05'' ''2026-03''" and ?w0 = "\<lparr>bw_state = fresh_state, bw_disk = None\<rparr>"
  have pass: "?tracks (sample_gate w) st"
    if "?tracks w st" "fst (assert_llm_budget_allows_call sample_llm ''2026-03-05'' ''2026-03'' w) = Inr ()" for w st
    using gate_room[OF sample_llm_ok(1,2) that(1), of "sample_gate w"] that(2) by (simp add: sample_gate_def prod_eq_iff)
  have use: "\<exists>st'. ?tracks (sample_usage t w) st' \<and> day_total st' = day_total st + 600" if "?tracks w st" for t w st
    using record_tracks[OF sample_llm_ok(1) applies_not_local[OF sample_llm_ok(2)] that, where p = 500 and c = 100 and t = t]
    unfolding sample_usage_def by (cases "record_llm_usage sample_llm ''2026-03-05'' ''2026-03'' t 500 100 w") (auto simp: algebra_simps)
  have "?tracks ?w0 fresh_state" by (simp add: tracks_def same_day_counts_def)
  from pass[OF pass[OF this sample_budget_gates(1)] sample_budget_gates(2)] have "?tracks (sample_gate (sample_gate ?w0)) fresh_state" .
  from use[OF this, of 2] obtain s1 where s1: "?tracks (sample_usage 2 (sample_gate (sample_gate ?w0))) s1" "day_total s1 = 600"
    by (auto simp: day_total_def fresh_state_def)
  from use[OF s1(1), of 3] s1(2) obtain s2 where s2: "day_total s2 = 1200"
    "?tracks ((sample_usage 3 (sample_usage 2 (sample_gate (sample_gate ?w0))))\<lparr>bw_state := fresh_state\<rparr>) s2"
    by (auto simp: tracks_def)
  from roll_rolled[OF sample_llm_ok(1) s2(2)] have r: "rolled ''2026-03-05'' ''2026-03'' sample_gathered" "?tracks sample_gathered s2"
    by (simp_all add: sample_gathered_def snapshot_llm_budget_def Let_def)
  then have "same_day_counts (bw_state sample_gathered) s2" by (auto simp: tracks_def rolled_def fresh_state_def)
  then show ?thesis using r(1) s2(1) by (simp add: day_total_def same_day_counts_def)
qed

theorem daily_budget_survives_restarts_witness:
  "day_total (bw_state sample_gathered) = 1200 \<and> day_total (bw_state sample_gathered) < 1000 + 600 * int (2 * 1)"
proof -
  have "dbr_token_budget (resolve_daily_llm_budgets sample_llm) = 1000" by code_simp
  then show ?thesis
    using daily_budget_survives_restarts[OF sample_gathered_reach sample_llm_ok(1,2) _ _ _ refl] sample_gathered_total by simp
qed

end
