(* ===== verification/Exit_Attribution.thy ===== *)
theory Exit_Attribution
  imports Position_Monitor Performance
begin

text \<open>
  Why a position was entered and why it is gone: \<open>app/universe/entry_attribution.py\<close> (the labels of a view and of
  a plan, the exit reason read from the words of a close or inferred from the levels of the row, and the
  tags copied onto a life cycle), the close of a row the position sync finds flat at the broker
  (\<open>_stamp_close_from_fills\<close> and the flat branch of \<open>sync_from_broker_positions\<close> in
  \<open>app/intraday/monitor.py\<close>) and \<open>app/performance/entry_expectancy.py\<close> (what each entry reason earned
  after costs).  The decision and intent tables are the arguments \<open>decision_plans\<close> and \<open>recent_intents\<close>.
\<close>

section \<open>Labels\<close>

definition TIMING_TO_REASON :: "(string \<times> string) list" where
  "TIMING_TO_REASON = [(''dip_buy'', ''uptrend_dip''), (''bounce'', ''oversold_bounce''), (''chase'', ''chase''),
     (''accumulation'', ''stealth_buy'')]"

definition ENTRY_REASONS :: "string list" where
  "ENTRY_REASONS = [''uptrend_dip'', ''oversold_bounce'', ''chase'', ''stealth_buy'', ''aggressive_injected'']"

definition EXIT_TAKE_PROFIT :: string where "EXIT_TAKE_PROFIT = ''take_profit''"
definition EXIT_STOP :: string where "EXIT_STOP = ''stop''"
definition EXIT_GIVEBACK :: string where "EXIT_GIVEBACK = ''giveback_exit''"
definition EXIT_SESSION_FLATTEN :: string where "EXIT_SESSION_FLATTEN = ''session_flatten''"
definition EXIT_MAX_HOLDING :: string where "EXIT_MAX_HOLDING = ''max_holding''"
definition EXIT_UNKNOWN :: string where "EXIT_UNKNOWN = ''unknown''"

lemmas exit_labels = EXIT_TAKE_PROFIT_def EXIT_STOP_def EXIT_GIVEBACK_def EXIT_SESSION_FLATTEN_def EXIT_MAX_HOLDING_def
  EXIT_UNKNOWN_def

definition CANONICAL_EXITS :: "string set" where
  "CANONICAL_EXITS = {EXIT_TAKE_PROFIT, EXIT_STOP, EXIT_GIVEBACK, EXIT_SESSION_FLATTEN, EXIT_MAX_HOLDING}"

definition ATTR_KEYS :: "string list" where
  "ATTR_KEYS = [''entry_timing'', ''entry_source'', ''trend_at_entry'']"

definition public_entry_reason :: "string option \<Rightarrow> string option" where
  "public_entry_reason timing = (if truthy_str timing then dget TIMING_TO_REASON (lower (strip (or_str timing []))) else None)"

definition attribution_from_view :: "SymbolQuantView \<Rightarrow> string \<Rightarrow> (string \<times> string) list" where
  "attribution_from_view view source =
     [(''entry_source'', source)]
     @ (case timing_from_view view of Some t \<Rightarrow> [(''entry_timing'', t)] | None \<Rightarrow> [])
     @ [(''trend_at_entry'', tr_value (qv_trend_state view))]"

text \<open>A tag is filled where it is missing and never replaced.\<close>

definition merge_key :: "(string \<times> payload) list \<Rightarrow> (string \<times> payload) list \<Rightarrow> string \<Rightarrow> (string \<times> payload) list" where
  "merge_key extra merged key =
     (case dget extra key of
        Some v \<Rightarrow> if truthy (Some v) \<and> \<not> truthy (dget merged key) then dset merged key v else merged
      | None \<Rightarrow> merged)"

definition merge_attribution :: "(string \<times> payload) list \<Rightarrow> (string \<times> payload) list \<Rightarrow> (string \<times> payload) list" where
  "merge_attribution base extra = foldl (merge_key extra) base ATTR_KEYS"

definition attribution_from_dict :: "(string \<times> payload) list \<Rightarrow> (string \<times> payload) list" where
  "attribution_from_dict plan =
     concat (map (\<lambda>k. if truthy (dget plan k) then [(k, PStr (pay_text (dget plan k)))] else []) ATTR_KEYS)"

definition read_attribution :: "PositionLifecycle \<Rightarrow> (string \<times> string option) list" where
  "read_attribution lc =
     map (\<lambda>k. (k, let v = pay_or (dget (lc_metadata lc) k) (dget (lc_exit_policy lc) k)
                  in if truthy v then Some (pay_text v) else None)) ATTR_KEYS"

section \<open>Why a position is gone\<close>

definition exit_blob :: "string \<Rightarrow> string \<Rightarrow> (string \<times> payload) list \<Rightarrow> string" where
  "exit_blob reason thesis meta =
     (let draft = (case dget meta ''exit_draft'' of Some (PDict d) \<Rightarrow> d | _ \<Rightarrow> [])
      in lower (join_with '' '' [reason, thesis, pay_text (dget draft ''reason''), pay_text (dget meta ''exit_reason''),
                                 pay_text (dget meta ''closed_by'')]))"

definition classify_exit_reason :: "string option \<Rightarrow> string option \<Rightarrow> (string \<times> payload) list \<Rightarrow> string" where
  "classify_exit_reason thesis reason meta =
     (let existing = lower (strip (pay_text (dget meta ''exit_reason'')));
          said = lower (strip (or_str reason []));
          blob = exit_blob (or_str reason []) (or_str thesis []) meta
      in if existing \<in> CANONICAL_EXITS then existing
         else if said \<in> CANONICAL_EXITS then said
         else if str_contains ''giveback'' blob then EXIT_GIVEBACK
         else if str_contains ''take_profit'' blob then EXIT_TAKE_PROFIT
         else if str_contains ''hard_stop'' blob \<or> str_contains ''stop_triggered'' blob \<or> str_contains ''protection_stop'' blob
         then EXIT_STOP
         else if str_contains ''force_close'' blob \<or> str_contains ''closing:'' blob \<or> str_contains ''intraday-only'' blob
                 \<or> str_contains ''session_flatten'' blob
         then EXIT_SESSION_FLATTEN
         else if str_contains ''max_holding'' blob then EXIT_MAX_HOLDING
         else EXIT_UNKNOWN)"

definition given :: "rat option \<Rightarrow> bool" where
  "given x \<longleftrightarrow> x \<noteq> None \<and> x \<noteq> Some 0"

text \<open>The side of the trade as the levels of the row suggest it.\<close>

definition inferred_side :: "PositionLifecycle \<Rightarrow> bool option" where
  "inferred_side lc =
     (let entry = lc_average_entry_price lc; stop = lc_stop_price lc; target = lc_take_profit_price lc
      in if given entry \<and> given stop then Some (the stop < the entry)
         else if given entry \<and> given target then Some (the target > the entry)
         else None)"

definition at_target :: "bool \<Rightarrow> rat \<Rightarrow> rat option \<Rightarrow> bool" where
  "at_target long px target \<longleftrightarrow> (case target of Some t \<Rightarrow> if long then t \<le> px else px \<le> t | None \<Rightarrow> False)"

definition at_stop :: "bool \<Rightarrow> rat \<Rightarrow> rat option \<Rightarrow> bool" where
  "at_stop long px stop \<longleftrightarrow> (case stop of Some p \<Rightarrow> if long then px \<le> p else p \<le> px | None \<Rightarrow> False)"

definition held_past_cap :: "PositionLifecycle \<Rightarrow> bool" where
  "held_past_cap lc \<longleftrightarrow>
     (case (lc_max_holding_minutes lc, lc_opened_at lc, lc_closed_at lc) of
        (Some cap, Some opened, Some ended) \<Rightarrow>
          cap \<noteq> 0 \<and> fmul (of_int cap) 60 \<le> total_seconds (as_utc ended - as_utc opened)
      | _ \<Rightarrow> False)"

definition infer_exit_reason :: "PositionLifecycle \<Rightarrow> string option" where
  "infer_exit_reason lc =
     (let by_level = (case (lc_current_price lc, inferred_side lc) of
            (Some px, Some long) \<Rightarrow>
              if at_target long px (lc_take_profit_price lc) then Some EXIT_TAKE_PROFIT
              else if at_stop long px (lc_stop_price lc) then Some EXIT_STOP else None
          | _ \<Rightarrow> None)
      in case by_level of Some r \<Rightarrow> Some r
         | None \<Rightarrow> if held_past_cap lc then Some EXIT_MAX_HOLDING else None)"

definition set_exit :: "string \<Rightarrow> string option \<Rightarrow> (string \<times> payload) list \<Rightarrow> (string \<times> payload) list" where
  "set_exit classified raw meta =
     (let meta' = dset meta ''exit_reason'' (PStr classified)
      in if truthy_str raw \<and> \<not> truthy (dget meta' ''exit_reason_raw'')
         then dset meta' ''exit_reason_raw'' (PStr (or_str raw [])) else meta')"

definition stamp_lifecycle_exit_reason :: "string option \<Rightarrow> string option \<Rightarrow> PositionLifecycle \<Rightarrow> string \<times> PositionLifecycle" where
  "stamp_lifecycle_exit_reason raw thesis lc =
     (let meta = lc_metadata lc; existing = pay_text (dget meta ''exit_reason'')
      in if existing \<noteq> [] \<and> existing \<noteq> EXIT_UNKNOWN then (existing, lc)
         else let classified = classify_exit_reason thesis raw meta
              in if classified \<noteq> EXIT_UNKNOWN then (classified, lc\<lparr>lc_metadata := set_exit classified raw meta\<rparr>)
                 else case infer_exit_reason lc of
                   Some inferred \<Rightarrow>
                     (inferred, lc\<lparr>lc_metadata := set_exit inferred raw (dset meta ''exit_reason_inferred'' (PBool True))\<rparr>)
                 | None \<Rightarrow>
                     if existing \<noteq> [] then (existing, lc)
                     else (classified, lc\<lparr>lc_metadata := set_exit classified raw meta\<rparr>))"

section \<open>A row that is flat at the broker\<close>

text \<open>The closes of the reconstructed ledger that can belong to the row: its venue and currency where the fills know
  them, and not before it was opened.\<close>

definition closes_since :: "FillRecord list \<Rightarrow> PositionLifecycle \<Rightarrow> FifoClose list" where
  "closes_since fills lc =
     (let venue = upper (lc_venue lc); currency = upper (or_str (lc_currency lc) []);
          mine = (if venue \<noteq> [] \<and> list_ex (\<lambda>f. fr_venue f = venue) fills then filter (\<lambda>f. fr_venue f = venue) fills else fills);
          books = fl_books (reconstruct_fifo mine);
          kept = (if currency \<noteq> [] \<and> list_ex (\<lambda>b. fb_currency b = currency) books
                  then filter (\<lambda>b. fb_currency b = currency) books else books)
      in filter (\<lambda>c. case fc_closed_at c of
             None \<Rightarrow> False
           | Some t \<Rightarrow> (case lc_opened_at lc of None \<Rightarrow> True | Some opened \<Rightarrow> as_utc opened \<le> t)) (concat (map fb_closes kept)))"

definition stamp_close_from_fills :: "FillRecord list \<Rightarrow> int \<Rightarrow> PositionLifecycle \<Rightarrow> PositionLifecycle" where
  "stamp_close_from_fills fills observed lc =
     (let closes = closes_since fills lc; known = filter (\<lambda>c. fc_gross_pnl c \<noteq> None) closes;
          last = Some (Aware (Max (set (List.map_filter fc_closed_at known))))
      in if known \<noteq> [] \<and> length known = length closes
         then (let gross = fround 4 (fsum (map (\<lambda>c. or_float (fc_gross_pnl c) 0) known))
               in if list_all (\<lambda>c. fc_fee c \<noteq> None) known
                  then snd (stamp_lifecycle_close_pnl
                         (Some (fround 4 (fsub gross (fround 4 (fsum (map (\<lambda>c. or_float (fc_fee c) 0) known))))))
                         last (Some ''fill'') lc)
                  else snd (stamp_lifecycle_close_pnl (Some gross) last (Some ''fill_gross'') lc))
         else (let lc1 = snd (stamp_lifecycle_close_pnl None None None lc)
               in if lc_closed_at lc1 = None then lc1\<lparr>lc_closed_at := Some (Aware observed)\<rparr> else lc1))"

fun iso_datetime :: "datetime \<Rightarrow> string" where
  "iso_datetime (Aware t) = isoformat t"
| "iso_datetime (Naive t) = take (length (isoformat t) - length ''+00:00'') (isoformat t)"

definition mark_flat :: "int \<Rightarrow> PositionLifecycle \<Rightarrow> PositionLifecycle" where
  "mark_flat now lc =
     (let lc1 = lc\<lparr>lc_status := ''CLOSED'', lc_quantity := 0\<rparr>;
          lc2 = (if lc_closed_at lc1 = None
                 then lc1\<lparr>lc_closed_at := Some (Aware now),
                          lc_metadata := dset (lc_metadata lc1) ''closed_at_source'' (PStr ''broker_flat_observed'')\<rparr>
                 else lc1)
      in lc2\<lparr>lc_metadata := dset (dset (lc_metadata lc2) ''closed_by'' (PStr ''broker_position_sync''))
               ''closed_at'' (PStr (case lc_closed_at lc2 of Some t \<Rightarrow> iso_datetime t | None \<Rightarrow> isoformat now))\<rparr>)"

text \<open>The row is priced from its fills, closed, and given an exit reason.\<close>

definition close_flat :: "FillRecord list \<Rightarrow> int \<Rightarrow> PositionLifecycle \<Rightarrow> string \<times> PositionLifecycle" where
  "close_flat fills now lc =
     (let lc1 = mark_flat now (stamp_close_from_fills fills now lc); meta = lc_metadata lc1;
          draft = (case dget meta ''exit_draft'' of Some (PDict d) \<Rightarrow> d | _ \<Rightarrow> [])
      in stamp_lifecycle_exit_reason
           (Some (if truthy (dget meta ''exit_reason_raw'') then pay_text (dget meta ''exit_reason_raw'') else pay_text (dget meta ''closed_by'')))
           (Some (pay_text (dget draft ''reason''))) lc1)"

section \<open>Tags copied onto a life cycle\<close>

definition with_opened_quantity :: "PositionLifecycle \<Rightarrow> (string \<times> payload) list" where
  "with_opened_quantity lc =
     (if lc_quantity lc \<noteq> 0 \<and> \<not> truthy (dget (lc_metadata lc) ''opened_quantity'')
      then dset (lc_metadata lc) ''opened_quantity'' (PNum \<bar>lc_quantity lc\<bar>) else lc_metadata lc)"

text \<open>\<open>(attribution, decision of the intent it came from)\<close>.\<close>

definition attribution_source ::
    "(string \<Rightarrow> (string \<times> (string \<times> payload) list) list) \<Rightarrow> (string \<Rightarrow> (string option \<times> (string \<times> payload) list) list)
     \<Rightarrow> PositionLifecycle \<Rightarrow> (string \<times> payload) list \<times> string option" where
  "attribution_source decision_plans recent_intents lc =
     (let symbol = upper (lc_symbol lc);
          planned = (case lc_decision_id lc of
              Some did \<Rightarrow> find (\<lambda>a. a \<noteq> []) (map (\<lambda>p. attribution_from_dict (snd p))
                            (filter (\<lambda>p. upper (fst p) = symbol) (decision_plans did)))
            | None \<Rightarrow> None);
          pulled = (\<lambda>m. filter (\<lambda>p. truthy (Some (snd p))) (List.map_filter (\<lambda>k. map_option (Pair k) (dget m k)) ATTR_KEYS))
      in case planned of
           Some a \<Rightarrow> (a, None)
         | None \<Rightarrow>
             if symbol = [] then ([], None)
             else (case find (\<lambda>i. pulled (snd i) \<noteq> []) (take 8 (recent_intents symbol)) of
                     Some i \<Rightarrow> (pulled (snd i), if truthy_str (lc_decision_id lc) then None else fst i)
                   | None \<Rightarrow> ([], None)))"

definition copy_entry_attribution_to_lifecycle ::
    "(string \<Rightarrow> (string \<times> (string \<times> payload) list) list) \<Rightarrow> (string \<Rightarrow> (string option \<times> (string \<times> payload) list) list)
     \<Rightarrow> PositionLifecycle \<Rightarrow> PositionLifecycle" where
  "copy_entry_attribution_to_lifecycle decision_plans recent_intents lc =
     (let meta = with_opened_quantity lc in
      if list_all (\<lambda>k. truthy (dget meta k)) ATTR_KEYS \<or> truthy (dget meta ''entry_attribution_missing'')
      then lc\<lparr>lc_metadata := meta\<rparr>
      else case attribution_source decision_plans recent_intents lc of (attr, did) \<Rightarrow>
        (let lc1 = (if did \<noteq> None then lc\<lparr>lc_decision_id := did\<rparr> else lc)
         in if attr \<noteq> []
            then lc1\<lparr>lc_metadata := merge_attribution meta attr, lc_exit_policy := merge_attribution (lc_exit_policy lc) attr\<rparr>
            else if upper (lc_status lc) = ''CLOSED''
            then lc1\<lparr>lc_metadata := dset meta ''entry_attribution_missing'' (PBool True)\<rparr>
            else lc1\<lparr>lc_metadata := meta\<rparr>))"

section \<open>What each entry reason earned\<close>

record gate_row =
  gr_n :: int
  gr_win_pct :: "rat option"
  gr_avg_mfe :: "rat option"
  gr_avg_mae :: "rat option"
  gr_tp_pct :: "rat option"
  gr_stop_pct :: "rat option"
  gr_giveback_exit_pct :: "rat option"
  gr_session_flatten_pct :: "rat option"
  gr_expectancy_after_costs :: "rat option"

definition mean_opt :: "rat list \<Rightarrow> rat option" where
  "mean_opt xs = (if xs = [] then None else Some (mean xs))"

definition rate_of :: "nat \<Rightarrow> nat \<Rightarrow> rat option" where
  "rate_of won n = (if n = 0 then None else Some (fdiv (of_nat won) (of_nat n)))"

definition modeled_cost :: "ClosedTrade \<Rightarrow> rat" where
  "modeled_cost t =
     (if 0 < clt_fees t then clt_fees t
      else let notional = or_float (clt_notional t) 0
           in if notional \<le> 0 then 0 else fdiv (fmul notional DEFAULT_ROUND_TRIP_COST_BPS) 10000)"

definition exits_by :: "string \<Rightarrow> ClosedTrade list \<Rightarrow> nat" where
  "exits_by why ts = length (filter (\<lambda>t. or_str (clt_exit_reason t) [] = why) ts)"

definition empty_gate_row :: gate_row where
  "empty_gate_row = \<lparr>gr_n = 0, gr_win_pct = None, gr_avg_mfe = None, gr_avg_mae = None, gr_tp_pct = None, gr_stop_pct = None,
     gr_giveback_exit_pct = None, gr_session_flatten_pct = None, gr_expectancy_after_costs = None\<rparr>"

definition net_after_costs :: "ClosedTrade \<Rightarrow> rat" where
  "net_after_costs t = fsub (clt_pnl t) (modeled_cost t)"

definition gate_expectancy :: "ClosedTrade list \<Rightarrow> gate_row" where
  "gate_expectancy ts =
     (let n = length ts; nets = map net_after_costs ts
      in if n = 0 then empty_gate_row
         else \<lparr>gr_n = int n, gr_win_pct = rate_of (length (filter (\<lambda>p. 0 < p) nets)) n,
               gr_avg_mfe = mean_opt (List.map_filter clt_mfe_pct ts), gr_avg_mae = mean_opt (List.map_filter clt_mae_pct ts),
               gr_tp_pct = rate_of (exits_by EXIT_TAKE_PROFIT ts) n, gr_stop_pct = rate_of (exits_by EXIT_STOP ts) n,
               gr_giveback_exit_pct = rate_of (exits_by EXIT_GIVEBACK ts) n,
               gr_session_flatten_pct = rate_of (exits_by EXIT_SESSION_FLATTEN ts) n,
               gr_expectancy_after_costs = mean_opt nets\<rparr>)"

definition matches_reason :: "ClosedTrade \<Rightarrow> string \<Rightarrow> bool" where
  "matches_reason t reason =
     (if reason = ''aggressive_injected'' then or_str (clt_entry_source t) [] = SOURCE_INJECTED
      else public_entry_reason (clt_entry_timing t) = Some reason)"

definition is_sideways :: "ClosedTrade \<Rightarrow> bool" where
  "is_sideways t \<longleftrightarrow> upper (or_str (clt_trend_at_entry t) []) = ''SIDEWAYS''"

definition in_cohort :: "ClosedTrade \<Rightarrow> string \<Rightarrow> bool" where
  "in_cohort t cohort =
     (let hz = lower (or_str (clt_horizon t) []) in
      if cohort = ''aggressive_injected_sideways'' then or_str (clt_entry_source t) [] = SOURCE_INJECTED \<and> is_sideways t
      else if cohort = ''short_oversold_bounce'' then hz = ''short'' \<and> public_entry_reason (clt_entry_timing t) = Some ''oversold_bounce''
      else if cohort = ''scalp_session_flatten'' then hz = ''scalp'' \<and> or_str (clt_exit_reason t) [] = EXIT_SESSION_FLATTEN
      else False)"

record expectancy_report =
  er_by_entry_reason :: "(string \<times> gate_row) list"
  er_cohorts :: "(string \<times> gate_row) list"
  er_untagged :: nat
  er_tagged :: int
  er_trade_count_scored :: nat

definition untagged :: "ClosedTrade \<Rightarrow> bool" where
  "untagged t \<longleftrightarrow> \<not> truthy_str (clt_entry_timing t) \<and> or_str (clt_entry_source t) [] \<noteq> SOURCE_INJECTED"

definition compute_entry_reason_expectancy :: "ClosedTrade list \<Rightarrow> expectancy_report" where
  "compute_entry_reason_expectancy ts =
     (let bare = length (filter untagged ts)
      in \<lparr>er_by_entry_reason = map (\<lambda>r. (r, gate_expectancy (filter (\<lambda>t. matches_reason t r) ts))) ENTRY_REASONS,
          er_cohorts = map (\<lambda>c. (c, gate_expectancy (filter (\<lambda>t. in_cohort t c) ts)))
            [''aggressive_injected_sideways'', ''short_oversold_bounce'', ''scalp_session_flatten''],
          er_untagged = bare, er_tagged = int (length ts) - int bare,
          er_trade_count_scored = length (filter (\<lambda>t. truthy_str (clt_entry_timing t) \<or> truthy_str (clt_entry_source t)
            \<or> truthy_str (clt_exit_reason t) \<or> clt_mfe_pct t \<noteq> None) ts)\<rparr>)"

section \<open>What the labels promise\<close>

lemma classify_known: "classify_exit_reason thesis raw meta \<in> CANONICAL_EXITS \<union> {EXIT_UNKNOWN}"
  by (simp add: classify_exit_reason_def Let_def CANONICAL_EXITS_def)

lemma canonical_not_unknown: "r \<in> CANONICAL_EXITS \<Longrightarrow> r \<noteq> EXIT_UNKNOWN \<and> r \<noteq> []"
  by (auto simp: CANONICAL_EXITS_def exit_labels)

lemma infer_canonical: "infer_exit_reason lc = Some r \<Longrightarrow> r \<in> CANONICAL_EXITS"
  by (auto simp: infer_exit_reason_def CANONICAL_EXITS_def Let_def split: option.splits if_splits)

lemma set_exit_reason: "dget (set_exit r raw meta) ''exit_reason'' = Some (PStr r)"
  by (simp add: set_exit_def Let_def)

text \<open>What a stamp says stands in the metadata afterwards.\<close>

lemma stamp_recorded:
  assumes "stamp_lifecycle_exit_reason raw thesis lc = (r, lc')"
  shows "pay_text (dget (lc_metadata lc') ''exit_reason'') = r"
  using assms unfolding stamp_lifecycle_exit_reason_def Let_def
  by (auto simp: set_exit_reason split: if_splits option.splits)

text \<open>
  The reason of an exit is written once: after a stamp that found one, no later stamp, whatever it is told,
  changes the life cycle or reports another reason; and a stamp touches nothing of the life cycle but its
  metadata.
\<close>

theorem exit_reason_written_once:
  assumes "stamp_lifecycle_exit_reason raw thesis lc = (r, lc')" "r \<noteq> EXIT_UNKNOWN"
  shows "stamp_lifecycle_exit_reason raw' thesis' lc' = (r, lc') \<and> lc'\<lparr>lc_metadata := lc_metadata lc\<rparr> = lc"
proof
  have "r \<noteq> []"
  proof -
    have "classify_exit_reason thesis raw (lc_metadata lc) \<noteq> []"
      using classify_known[of thesis raw "lc_metadata lc"] by (auto simp: CANONICAL_EXITS_def exit_labels)
    then show ?thesis using assms(1) infer_canonical canonical_not_unknown
      by (auto simp: stamp_lifecycle_exit_reason_def Let_def split: if_splits option.splits)
  qed
  then show "stamp_lifecycle_exit_reason raw' thesis' lc' = (r, lc')"
    using stamp_recorded[OF assms(1)] assms(2) by (simp add: stamp_lifecycle_exit_reason_def Let_def)
  show "lc'\<lparr>lc_metadata := lc_metadata lc\<rparr> = lc"
    using assms(1) by (auto simp: stamp_lifecycle_exit_reason_def Let_def split: if_splits option.splits)
qed

text \<open>
  With a stop on the losing side of the entry the inference is sound: a stop is claimed only for a mark at or
  through it that has not reached the target, and a take-profit only for a mark at or through the target.
\<close>

theorem inferred_levels_sound:
  assumes "lc_average_entry_price lc = Some e" "e \<noteq> 0" "lc_stop_price lc = Some p" "p \<noteq> 0" "lc_current_price lc = Some m"
    "infer_exit_reason lc = Some r"
  shows "(r = EXIT_TAKE_PROFIT \<longrightarrow> (\<exists>t. lc_take_profit_price lc = Some t \<and> (if p < e then t \<le> m else m \<le> t)))
    \<and> (r = EXIT_STOP \<longrightarrow> (if p < e then m \<le> p else p \<le> m) \<and> \<not> at_target (p < e) m (lc_take_profit_price lc))"
proof -
  have "inferred_side lc = Some (p < e)" using assms(1-4) by (simp add: inferred_side_def given_def)
  then show ?thesis using assms(3,5,6)
    by (auto simp: infer_exit_reason_def at_target_def at_stop_def exit_labels split: if_splits option.splits)
qed

lemma dget_dpop_other: "j \<noteq> k \<Longrightarrow> dget (dpop d k) j = dget d j"
  by (induction d) auto

text \<open>Closing a flat row leaves its levels, its mark and every exit note as they were.\<close>

lemma stamp_pnl_frame:
  "lc_average_entry_price (snd (stamp_lifecycle_close_pnl r w b lc)) = lc_average_entry_price lc"
  "lc_stop_price (snd (stamp_lifecycle_close_pnl r w b lc)) = lc_stop_price lc"
  "lc_take_profit_price (snd (stamp_lifecycle_close_pnl r w b lc)) = lc_take_profit_price lc"
  "lc_current_price (snd (stamp_lifecycle_close_pnl r w b lc)) = lc_current_price lc"
  "k \<in> {''exit_reason'', ''exit_reason_raw'', ''exit_draft''} \<Longrightarrow>
     dget (lc_metadata (snd (stamp_lifecycle_close_pnl r w b lc))) k = dget (lc_metadata lc) k"
  by (auto simp: stamp_lifecycle_close_pnl_def Let_def dget_dpop_other split: option.split)

lemma stamp_fills_frame:
  "lc_average_entry_price (stamp_close_from_fills fills t lc) = lc_average_entry_price lc"
  "lc_stop_price (stamp_close_from_fills fills t lc) = lc_stop_price lc"
  "lc_take_profit_price (stamp_close_from_fills fills t lc) = lc_take_profit_price lc"
  "lc_current_price (stamp_close_from_fills fills t lc) = lc_current_price lc"
  "k \<in> {''exit_reason'', ''exit_reason_raw'', ''exit_draft''} \<Longrightarrow>
     dget (lc_metadata (stamp_close_from_fills fills t lc)) k = dget (lc_metadata lc) k"
  by (simp_all add: stamp_close_from_fills_def Let_def stamp_pnl_frame)

lemma mark_flat_frame:
  "lc_average_entry_price (mark_flat t lc) = lc_average_entry_price lc" "lc_stop_price (mark_flat t lc) = lc_stop_price lc"
  "lc_take_profit_price (mark_flat t lc) = lc_take_profit_price lc" "lc_current_price (mark_flat t lc) = lc_current_price lc"
  "k \<in> {''exit_reason'', ''exit_reason_raw'', ''exit_draft''} \<Longrightarrow> dget (lc_metadata (mark_flat t lc)) k = dget (lc_metadata lc) k"
  "dget (lc_metadata (mark_flat t lc)) ''closed_by'' = Some (PStr ''broker_position_sync'')"
  by (auto simp: mark_flat_def Let_def)

lemma sync_words_unknown:
  assumes "dget meta ''exit_reason'' = None" "dget meta ''exit_draft'' = None" "dget meta ''closed_by'' = Some (PStr ''broker_position_sync'')"
  shows "classify_exit_reason (Some []) (Some ''broker_position_sync'') meta = EXIT_UNKNOWN"
proof -
  let ?blob = "''broker_position_sync    broker_position_sync''"
  have words: "lower (join_with '' '' [''broker_position_sync'', [], [], [], ''broker_position_sync'']) = ?blob"
    "lower (strip ''broker_position_sync'') = ''broker_position_sync''" "lower (strip []) = []"
    by code_simp+
  have silent: "\<not> str_contains ''giveback'' ?blob" "\<not> str_contains ''take_profit'' ?blob" "\<not> str_contains ''hard_stop'' ?blob"
    "\<not> str_contains ''stop_triggered'' ?blob" "\<not> str_contains ''protection_stop'' ?blob" "\<not> str_contains ''force_close'' ?blob"
    "\<not> str_contains ''closing:'' ?blob" "\<not> str_contains ''intraday-only'' ?blob" "\<not> str_contains ''session_flatten'' ?blob"
    "\<not> str_contains ''max_holding'' ?blob"
    by code_simp+
  have out: "''broker_position_sync'' \<notin> CANONICAL_EXITS" "[] \<notin> CANONICAL_EXITS" by (simp_all add: CANONICAL_EXITS_def exit_labels)
  have payload: "pay_text None = []" "pay_text (Some (PStr ''broker_position_sync'')) = ''broker_position_sync''" by simp_all
  have plain: "or_str (Some ''broker_position_sync'') [] = ''broker_position_sync''" "or_str (Some []) [] = []" by code_simp+
  have "exit_blob ''broker_position_sync'' [] meta = ?blob"
    unfolding exit_blob_def Let_def assms option.case dget.simps payload words ..
  then show ?thesis
    unfolding classify_exit_reason_def Let_def assms(1) payload plain words(2,3) by (simp only: silent out if_False simp_thms)
qed

text \<open>
  Property C40.  A long closed at its trailed stop by the broker is recorded as a profit taken.  Once the monitor has moved the
  stop of a long to its entry or above, take a row with a target and no exit note yet (no exit reason,
  raw reason or draft), whose last mark is at or below the target, as it is when the stop is hit.  When the position sync finds it
  flat, whatever the fills say, it stamps the close as a take-profit, since the row reads as a short.
\<close>

theorem trailed_stop_read_as_profit:
  assumes "lc_average_entry_price lc = Some e" "0 < e" "lc_stop_price lc = Some p" "e \<le> p"
    "lc_take_profit_price lc = Some t" "lc_current_price lc = Some m" "m \<le> t"
    "dget (lc_metadata lc) ''exit_reason'' = None" "dget (lc_metadata lc) ''exit_reason_raw'' = None"
    "dget (lc_metadata lc) ''exit_draft'' = None"
    "close_flat fills now lc = (why, lc')"
  shows "why = ''take_profit'' \<and> dget (lc_metadata lc') ''exit_reason'' = Some (PStr ''take_profit'')"
proof -
  let ?lc = "mark_flat now (stamp_close_from_fills fills now lc)"
  note frame = mark_flat_frame stamp_fills_frame
  have noted: "dget (lc_metadata ?lc) ''exit_reason'' = None" "dget (lc_metadata ?lc) ''exit_reason_raw'' = None"
    "dget (lc_metadata ?lc) ''exit_draft'' = None" "dget (lc_metadata ?lc) ''closed_by'' = Some (PStr ''broker_position_sync'')"
    using assms(8-10) by (simp_all add: frame)
  have "inferred_side ?lc = Some False" using assms(1-4) by (simp add: inferred_side_def given_def frame)
  then have inf: "infer_exit_reason ?lc = Some EXIT_TAKE_PROFIT"
    using assms(5-7) by (simp add: infer_exit_reason_def at_target_def frame)
  have "close_flat fills now lc = stamp_lifecycle_exit_reason (Some ''broker_position_sync'') (Some []) ?lc"
    by (simp add: close_flat_def Let_def noted)
  then show ?thesis
    using assms(11) inf sync_words_unknown[OF noted(1,3,4)]
    by (auto simp: stamp_lifecycle_exit_reason_def Let_def noted set_exit_def exit_labels)
qed

text \<open>Merging tags is idempotent and keeps what is there.\<close>

lemma merge_key_get:
  "dget (merge_key extra merged key) j =
     (if j = key \<and> \<not> truthy (dget merged key) \<and> truthy (dget extra key) then dget extra key else dget merged j)"
  by (auto simp: merge_key_def split: option.split)

theorem merge_keeps_tags:
  "dget (merge_attribution base extra) k =
     (if k \<in> set ATTR_KEYS \<and> \<not> truthy (dget base k) \<and> truthy (dget extra k) then dget extra k else dget base k)"
  by (auto simp: merge_attribution_def ATTR_KEYS_def merge_key_get)

text \<open>The exits of a bucket are counted at most once, and the tagged and untagged trades are all trades.\<close>

theorem exits_counted_once:
  "exits_by EXIT_TAKE_PROFIT ts + exits_by EXIT_STOP ts + exits_by EXIT_GIVEBACK ts + exits_by EXIT_SESSION_FLATTEN ts \<le> length ts"
proof -
  have "length (filter (\<lambda>t. f t = a) ts) + length (filter (\<lambda>t. f t = b) ts) + length (filter (\<lambda>t. f t = c) ts)
      + length (filter (\<lambda>t. f t = d) ts) \<le> length ts" if "distinct [a, b, c, d]" for a b c d :: string and f
    using that by (induction ts) auto
  then show ?thesis unfolding exits_by_def by (simp add: exit_labels)
qed

section \<open>Examples\<close>

definition sample_trailed :: PositionLifecycle where
  "sample_trailed = sample_lifecycle\<lparr>lc_average_entry_price := Some 100, lc_stop_price := Some 101, lc_take_profit_price := Some 110,
     lc_current_price := Some 101, lc_metadata := []\<rparr>"

theorem trailed_stop_read_as_profit_witness:
  "fst (close_flat [] 1728046800000000 sample_trailed) = ''take_profit''"
proof -
  obtain why lc' where c: "close_flat [] 1728046800000000 sample_trailed = (why, lc')" by fastforce
  have "why = ''take_profit'' \<and> dget (lc_metadata lc') ''exit_reason'' = Some (PStr ''take_profit'')"
    by (rule trailed_stop_read_as_profit[OF _ _ _ _ _ _ _ _ _ _ c, of 100 101 110 101]) (simp_all add: sample_trailed_def)
  then show ?thesis using c by simp
qed

theorem exit_reason_written_once_witness:
  "fst (stamp_lifecycle_exit_reason (Some ''hard_stop'') None
     (snd (stamp_lifecycle_exit_reason (Some ''closing:intraday-only'') None sample_trailed))) = EXIT_SESSION_FLATTEN"
proof -
  have 1: "fst (stamp_lifecycle_exit_reason (Some ''closing:intraday-only'') None sample_trailed) = EXIT_SESSION_FLATTEN" by code_simp
  have 2: "stamp_lifecycle_exit_reason (Some ''closing:intraday-only'') None sample_trailed
      = (EXIT_SESSION_FLATTEN, snd (stamp_lifecycle_exit_reason (Some ''closing:intraday-only'') None sample_trailed))"
    by (simp add: prod_eq_iff 1)
  show ?thesis using exit_reason_written_once[OF 2, of "Some ''hard_stop''" None] by (simp add: exit_labels)
qed

end
