(* ===== verification/Closing_Window.thy ===== *)
theory Closing_Window
  imports Firm_Execution Position_Monitor Workflow Exit_Attribution
begin

text \<open>
  The closing window and the overnight review: \<open>app/intraday/closing.py\<close>.  A tick reads the open life cycles of the
  venue, decides a plan for each, publishes the event, turns the close and reduce plans into exit intents
  and, when every switch allows it, hands market orders to the order manager.  The state is the execution
  service's tables with the desk, the life cycles, the event bus and the two review tables; the clock, the
  broker, fresh identifiers and the watchlist rows are arguments.
\<close>

section \<open>State\<close>

record close_draft =
  cdr_symbol :: string
  cdr_action :: string
  cdr_quantity :: rat
  cdr_rationale :: string
  cdr_draft_only :: bool
  cdr_skipped :: "string option"
  cdr_intent_id :: "string option"

record closing_review =
  clr_id :: string
  clr_policy :: string
  clr_payload :: ClosingDecision
  clr_intent_drafts :: "close_draft list"
  clr_notes :: "string list"

record overnight_row =
  ovr_id :: string
  ovr_lifecycle_id :: string
  ovr_symbol :: string
  ovr_status :: string
  ovr_reasons :: "string list"
  ovr_valid_for :: string

record 'b closing_state =
  cst_exec :: "'b exec_state"
  cst_lifecycles :: "PositionLifecycle list"
  cst_bus :: event_bus
  cst_reviews :: "closing_review list"
  cst_overnight :: "overnight_row list"

record 'b closing_env =
  cen_api :: "'b broker_api"
  cen_settings :: settings
  cen_venue :: string
  cen_live :: "string \<Rightarrow> rat option"
  cen_uuid :: "nat \<Rightarrow> string"
  cen_now :: int
  cen_watch :: "(string \<times> string) list"

definition CLOSING_OPEN :: "string set" where
  "CLOSING_OPEN = {''OPEN'', ''ADDING'', ''REDUCING'', ''PENDING_CLOSE''}"

definition open_ids :: "'b closing_env \<Rightarrow> 'b closing_state \<Rightarrow> string list" where
  "open_ids env cs =
     map lc_id (filter (\<lambda>lc. lc_status lc \<in> CLOSING_OPEN \<and> lc_venue lc = cen_venue env) (cst_lifecycles cs))"

text \<open>The rows selected at the start, as they are now.\<close>

definition rows_now :: "string list \<Rightarrow> 'b closing_state \<Rightarrow> PositionLifecycle list" where
  "rows_now ids cs = filter (\<lambda>lc. lc_id lc \<in> set ids) (cst_lifecycles cs)"

definition put_lifecycle :: "PositionLifecycle \<Rightarrow> 'b closing_state \<Rightarrow> 'b closing_state" where
  "put_lifecycle lc cs = cs\<lparr>cst_lifecycles := map (\<lambda>x. if lc_id x = lc_id lc then lc else x) (cst_lifecycles cs)\<rparr>"

section \<open>The plan\<close>

fun policy_horizons :: "PositionLifecycle list \<Rightarrow> (string \<times> string) list \<Rightarrow> string list \<Rightarrow> (string \<times> string) list \<times> string list" where
  "policy_horizons [] out need = (out, need)"
| "policy_horizons (lc # lcs) out need =
     (let sym = upper (lc_symbol lc); hz = lower (strip (pay_text (dget (lc_exit_policy lc) ''horizon'')))
      in if sym = [] then policy_horizons lcs out need
         else if hz \<noteq> [] then policy_horizons lcs (dset out sym hz) need
         else policy_horizons lcs out (sym # need))"

fun watch_horizons :: "(string \<times> string) list \<Rightarrow> string list \<Rightarrow> (string \<times> string) list \<Rightarrow> (string \<times> string) list" where
  "watch_horizons [] need out = out"
| "watch_horizons ((s, hz) # rows) need out =
     watch_horizons rows need (if s \<in> set need \<and> dget out (upper s) = None then dset out (upper s) hz else out)"

definition horizons_for_lifecycles :: "(string \<times> string) list \<Rightarrow> PositionLifecycle list \<Rightarrow> (string \<times> string) list" where
  "horizons_for_lifecycles watch lcs = (case policy_horizons lcs [] [] of (out, need) \<Rightarrow> watch_horizons watch need out)"

text \<open>Scalp and day books are flattened even when the row allows the night.\<close>

definition force_intraday :: "(string \<times> string) list \<Rightarrow> PositionLifecycle \<Rightarrow> bool" where
  "force_intraday hzs lc \<longleftrightarrow>
     \<not> lc_overnight_allowed lc \<or> dget hzs (upper (lc_symbol lc)) \<in> {Some ''scalp'', Some ''day''}"


definition close_positions :: "(string \<times> string) list \<Rightarrow> PositionLifecycle list \<Rightarrow> raw_position list" where
  "close_positions hzs lcs =
     map (\<lambda>lc. \<lparr>rp_symbol = lc_symbol lc, rp_quantity = lc_quantity lc, rp_is_intraday_only = force_intraday hzs lc\<rparr>) lcs"

definition closing_plan_for :: "'b closing_env \<Rightarrow> ClosingPolicy \<Rightarrow> PositionLifecycle list \<Rightarrow> ClosingDecision" where
  "closing_plan_for env policy lcs =
     (let hzs = horizons_for_lifecycles (cen_watch env) lcs
      in closing_decide (cen_now env) (close_positions hzs lcs) policy
           (Some (map (\<lambda>lc. upper (lc_symbol lc)) (filter (force_intraday hzs) lcs))))"

section \<open>Exit intents\<close>



definition close_quantity :: "PositionClosePlan \<Rightarrow> rat" where
  "close_quantity p = \<bar>if cp_action p = ''close'' then cp_quantity p else fmul (cp_quantity p) (1 / 2)\<bar>"

definition is_exit_plan :: "PositionClosePlan \<Rightarrow> bool" where
  "is_exit_plan p \<longleftrightarrow> cp_action p \<in> {''close'', ''reduce''}"



definition stamp_exit :: "string \<Rightarrow> string option \<Rightarrow> string \<Rightarrow> PositionLifecycle \<Rightarrow> PositionLifecycle" where
  "stamp_exit raw thesis status lc = (snd (stamp_lifecycle_exit_reason (Some raw) thesis lc))\<lparr>lc_status := status\<rparr>"







section \<open>Orders\<close>

text \<open>A market order per exit plan, on the side that closes the last open row of the symbol.\<close>

definition close_order :: "'b closing_env \<Rightarrow> PositionLifecycle \<Rightarrow> PositionClosePlan \<Rightarrow> string \<Rightarrow> ValidatedOrderIntent" where
  "close_order env lc p did =
     \<lparr>vi_symbol = upper (lc_symbol lc), vi_side = (if 0 \<le> lc_quantity lc then ''sell'' else ''buy''), vi_quantity = close_quantity p,
      vi_order_type = ''market'', vi_limit_price = None, vi_stop_price = lc_stop_price lc,
      vi_idempotency_key = ''force-close:'' @ lc_id lc @ '':'' @ cp_action p @ '':'' @ day_stamp (cen_now env),
      vi_decision_id = did, vi_thesis = ''force_close:'' @ cp_rationale p,
      vi_venue = Some (or_str (Some (lc_venue lc)) (cen_venue env)), vi_con_id = nonzero (lc_con_id lc),
      vi_time_in_force = None, vi_attribution = None\<rparr>"

fun close_orders ::
    "'b closing_env \<Rightarrow> PositionLifecycle list \<Rightarrow> PositionClosePlan list \<Rightarrow> 'b exec_state \<Rightarrow> ValidatedOrderIntent list \<times> 'b exec_state" where
  "close_orders env lcs [] es = ([], es)"
| "close_orders env lcs (p # ps) es =
     (case (if is_exit_plan p then find (\<lambda>lc. upper (lc_symbol lc) = upper (cp_symbol p)) (rev lcs) else None) of
        None \<Rightarrow> close_orders env lcs ps es
      | Some lc \<Rightarrow>
          if close_quantity p \<le> 0 then close_orders env lcs ps es
          else (case (if truthy_str (lc_decision_id lc) then (or_str (lc_decision_id lc) [], es) else mint (cen_uuid env) es) of
                  (did, es') \<Rightarrow> (case close_orders env lcs ps es' of (vs, es'') \<Rightarrow> (close_order env lc p did # vs, es''))))"




section \<open>A tick of the window\<close>











section \<open>The overnight review\<close>

record overnight_risk =
  onr_earnings :: bool
  onr_economic_event :: bool
  onr_gap_risk_high :: bool
  onr_next_session_holiday :: bool

definition event_strict :: "string option \<Rightarrow> bool" where
  "event_strict hz \<longleftrightarrow> truthy_str hz \<and>
     (case policy_for (or_str hz []) of Inr pol \<Rightarrow> hp_overnight_event_strict pol | Inl _ \<Rightarrow> False)"

definition is_overnight :: "string \<Rightarrow> bool" where
  "is_overnight status \<longleftrightarrow> startswith status ''OVERNIGHT''"

definition base_verdict :: "bool \<Rightarrow> string option \<Rightarrow> string \<times> string list" where
  "base_verdict allowed hz =
     (if \<not> allowed \<or> hz \<in> {Some ''scalp'', Some ''day''}
      then (''CLOSE_BEFORE_MARKET_CLOSE'', [if \<not> allowed then ''overnight_not_allowed'' else ''horizon_'' @ or_str hz ''None''])
      else (''OVERNIGHT_APPROVED'', []))"

definition event_verdict :: "overnight_risk \<Rightarrow> string option \<Rightarrow> string \<times> string list \<Rightarrow> string \<times> string list" where
  "event_verdict risk hz v =
     (if onr_earnings risk \<or> onr_economic_event risk
      then (if is_overnight (fst v) then (if event_strict hz \<or> hz = Some ''short'' then ''CLOSE_BEFORE_MARKET_CLOSE'' else ''MANUAL_REVIEW_REQUIRED'')
            else fst v, snd v @ [''event_risk''])
      else v)"

definition gap_verdict :: "overnight_risk \<Rightarrow> string option \<Rightarrow> string \<times> string list \<Rightarrow> string \<times> string list" where
  "gap_verdict risk hz v =
     (if onr_gap_risk_high risk
      then (if is_overnight (fst v) then (if event_strict hz \<and> hz = Some ''short'' then ''CLOSE_BEFORE_MARKET_CLOSE''
                                          else ''OVERNIGHT_APPROVED_WITH_REDUCTION'')
            else fst v, snd v @ [''gap_risk''])
      else v)"

definition holiday_verdict :: "overnight_risk \<Rightarrow> string option \<Rightarrow> string \<times> string list \<Rightarrow> string \<times> string list" where
  "holiday_verdict risk hz v =
     (if onr_next_session_holiday risk
      then (if is_overnight (fst v) \<or> fst v = ''OVERNIGHT_APPROVED_WITH_REDUCTION''
            then (if event_strict hz \<or> hz = Some ''short'' then ''CLOSE_BEFORE_MARKET_CLOSE'' else ''MANUAL_REVIEW_REQUIRED'')
            else fst v, snd v @ [''holiday_gap''])
      else v)"

definition overnight_verdict :: "settings \<Rightarrow> overnight_risk \<Rightarrow> bool \<Rightarrow> string option \<Rightarrow> string \<times> string list" where
  "overnight_verdict cfg risk allowed hz =
     (let v = holiday_verdict risk hz (gap_verdict risk hz (event_verdict risk hz (base_verdict allowed hz)))
      in if cfg_overnight_review_required cfg then v else (''NO_DATA'', snd v))"

definition review_row ::
    "'b closing_env \<Rightarrow> overnight_risk \<Rightarrow> (string \<times> string) list \<Rightarrow> 'b closing_state \<Rightarrow> PositionLifecycle \<Rightarrow> 'b closing_state" where
  "review_row env risk hzs cs lc =
     (case mint (cen_uuid env) (cst_exec cs) of (rid, es) \<Rightarrow>
        (let v = overnight_verdict (cen_settings env) risk (lc_overnight_allowed lc) (dget hzs (upper (lc_symbol lc)))
         in cs\<lparr>cst_exec := es, cst_overnight := cst_overnight cs @
              [\<lparr>ovr_id = rid, ovr_lifecycle_id = lc_id lc, ovr_symbol = lc_symbol lc, ovr_status = fst v, ovr_reasons = snd v,
                ovr_valid_for = day_stamp (cen_now env)\<rparr>]\<rparr>))"

definition overnight_review :: "'b closing_env \<Rightarrow> overnight_risk \<Rightarrow> 'b closing_state \<Rightarrow> 'b closing_state" where
  "overnight_review env risk cs =
     (let lcs = rows_now (open_ids env cs) cs
      in foldl (review_row env risk (horizons_for_lifecycles (cen_watch env) lcs)) cs lcs)"

section \<open>What a tick does to the rows\<close>

text \<open>A tick changes only the status, to the closing mark, and the metadata of a row.\<close>

definition marked_as :: "string \<Rightarrow> string list \<Rightarrow> PositionLifecycle \<Rightarrow> PositionLifecycle \<Rightarrow> bool" where
  "marked_as a ids l l' \<longleftrightarrow>
     (\<exists>s m. l' = l\<lparr>lc_status := s, lc_metadata := m\<rparr> \<and> (s = lc_status l \<or> s = a \<and> lc_id l \<in> set ids))"

definition rows_marked :: "string \<Rightarrow> string list \<Rightarrow> 'b closing_state \<Rightarrow> 'b closing_state \<Rightarrow> bool" where
  "rows_marked a ids cs cs' \<longleftrightarrow> list_all2 (marked_as a ids) (cst_lifecycles cs) (cst_lifecycles cs')"




lemma marked_as_status: "s = lc_status l \<or> s = a \<and> lc_id l \<in> set ids \<Longrightarrow> marked_as a ids l (l\<lparr>lc_status := s, lc_metadata := m\<rparr>)"
  unfolding marked_as_def by blast


lemma marked_as_refl [simp]: "marked_as a ids l l"
  using marked_as_status[of "lc_status l" l a ids "lc_metadata l"] by simp



lemma rows_marked_refl [simp]: "rows_marked a ids cs cs"
  by (simp add: rows_marked_def list_all2_refl)











lemma stamp_exit_status [simp]: "lc_status (stamp_exit raw thesis a lc) = a"
  by (simp add: stamp_exit_def)



section \<open>One plan, all plans\<close>







lemma put_lifecycle_exec [simp]: "cst_exec (put_lifecycle lc cs) = cst_exec cs"
  by (simp add: put_lifecycle_def)












section \<open>The tick as a whole\<close>





















section \<open>Which orders go out\<close>






section \<open>The verdicts of the night\<close>

lemma event_strict_short [simp]: "event_strict (Some ''short'')"
  by code_simp

lemma overnight_labels:
  "is_overnight ''OVERNIGHT_APPROVED''" "is_overnight ''OVERNIGHT_APPROVED_WITH_REDUCTION''"
  "\<not> is_overnight ''CLOSE_BEFORE_MARKET_CLOSE''" "\<not> is_overnight ''MANUAL_REVIEW_REQUIRED''"
  by code_simp+

lemma overnight_or: "\<not> is_overnight s \<Longrightarrow> s \<noteq> ''OVERNIGHT_APPROVED_WITH_REDUCTION''"
  using overnight_labels(2) by blast

text \<open>
  A position may stay overnight exactly when the review is on, its row allows the night, its book is neither
  scalp nor day, and there is no event, no gap risk and no holiday; a short book under any of these is closed,
  and a position that may not stay is closed whatever the risks.
\<close>

theorem overnight_approved_iff:
  "(fst (overnight_verdict cfg risk allowed hz) = ''OVERNIGHT_APPROVED'' \<longleftrightarrow>
      cfg_overnight_review_required cfg \<and> allowed \<and> hz \<notin> {Some ''scalp'', Some ''day''} \<and> \<not> onr_earnings risk
      \<and> \<not> onr_economic_event risk \<and> \<not> onr_gap_risk_high risk \<and> \<not> onr_next_session_holiday risk)
   \<and> (cfg_overnight_review_required cfg \<and> (\<not> allowed \<or> hz \<in> {Some ''scalp'', Some ''day''}
         \<or> hz = Some ''short'' \<and> (onr_earnings risk \<or> onr_economic_event risk \<or> onr_gap_risk_high risk \<or> onr_next_session_holiday risk))
      \<longrightarrow> fst (overnight_verdict cfg risk allowed hz) = ''CLOSE_BEFORE_MARKET_CLOSE'')"
proof -
  let ?e = "onr_earnings risk \<or> onr_economic_event risk"
  let ?v = "base_verdict allowed hz"
  have all: "fst (holiday_verdict risk hz (gap_verdict risk hz (event_verdict risk hz v)))
      = (if ?e \<and> is_overnight (fst v) then (if event_strict hz \<or> hz = Some ''short'' then ''CLOSE_BEFORE_MARKET_CLOSE'' else ''MANUAL_REVIEW_REQUIRED'')
         else if onr_gap_risk_high risk \<and> is_overnight (fst v) \<and> event_strict hz \<and> hz = Some ''short'' then ''CLOSE_BEFORE_MARKET_CLOSE''
         else if onr_next_session_holiday risk \<and> is_overnight (fst v)
         then (if event_strict hz \<or> hz = Some ''short'' then ''CLOSE_BEFORE_MARKET_CLOSE'' else ''MANUAL_REVIEW_REQUIRED'')
         else if onr_gap_risk_high risk \<and> is_overnight (fst v) then ''OVERNIGHT_APPROVED_WITH_REDUCTION'' else fst v)" for v
    by (cases ?e; cases "is_overnight (fst v)"; cases "onr_gap_risk_high risk"; cases "onr_next_session_holiday risk";
        cases "event_strict hz \<and> hz = Some ''short''")
      (simp_all add: holiday_verdict_def gap_verdict_def event_verdict_def overnight_labels overnight_or)
  show ?thesis
  proof (cases "\<not> allowed \<or> hz \<in> {Some ''scalp'', Some ''day''}")
    case True
    then have "fst ?v = ''CLOSE_BEFORE_MARKET_CLOSE''" by (simp add: base_verdict_def)
    then have "fst (overnight_verdict cfg risk allowed hz) = (if cfg_overnight_review_required cfg then ''CLOSE_BEFORE_MARKET_CLOSE'' else ''NO_DATA'')"
      by (simp add: overnight_verdict_def Let_def all overnight_labels)
    then show ?thesis using True by (simp, blast)
  next
    case False
    then have "fst ?v = ''OVERNIGHT_APPROVED''" by (simp add: base_verdict_def)
    then have f: "fst (holiday_verdict risk hz (gap_verdict risk hz (event_verdict risk hz ?v)))
        = (if ?e then (if event_strict hz \<or> hz = Some ''short'' then ''CLOSE_BEFORE_MARKET_CLOSE'' else ''MANUAL_REVIEW_REQUIRED'')
           else if onr_gap_risk_high risk \<and> event_strict hz \<and> hz = Some ''short'' then ''CLOSE_BEFORE_MARKET_CLOSE''
           else if onr_next_session_holiday risk
           then (if event_strict hz \<or> hz = Some ''short'' then ''CLOSE_BEFORE_MARKET_CLOSE'' else ''MANUAL_REVIEW_REQUIRED'')
           else if onr_gap_risk_high risk then ''OVERNIGHT_APPROVED_WITH_REDUCTION'' else ''OVERNIGHT_APPROVED'')"
      by (simp only: all overnight_labels simp_thms)
    have s: "event_strict hz" if "hz = Some ''short''" using that by simp
    define x where "x = fst (overnight_verdict cfg risk allowed hz)"
    have x: "x = (if cfg_overnight_review_required cfg then fst (holiday_verdict risk hz (gap_verdict risk hz (event_verdict risk hz ?v))) else ''NO_DATA'')"
      by (simp add: x_def overnight_verdict_def Let_def)
    show ?thesis unfolding x_def[symmetric] using False s x[unfolded f]
      by (cases "cfg_overnight_review_required cfg"; cases ?e; cases "onr_gap_risk_high risk"; cases "onr_next_session_holiday risk";
          cases "event_strict hz"; cases "hz = Some ''short''") simp_all
  qed
qed

section \<open>Examples\<close>

definition sample_closing_env :: "MockBroker closing_env" where
  "sample_closing_env = \<lparr>cen_api = sample_api, cen_settings = default_settings\<lparr>cfg_intraday_operation_mode := ''MANUAL_APPROVAL''\<rparr>,
     cen_venue = ''US'', cen_live = (\<lambda>_. None), cen_uuid = sample_uuid, cen_now = 1728048600000000, cen_watch = [(''AAPL'', ''day'')]\<rparr>"


definition sample_twin_row :: PositionLifecycle where
  "sample_twin_row = sample_lifecycle\<lparr>lc_id := ''p3'', lc_quantity := -4\<rparr>"

definition sample_closing :: "PositionLifecycle list \<Rightarrow> MockBroker closing_state" where
  "sample_closing rows = \<lparr>cst_exec = \<lparr>es_office = sample_office\<lparr>bo_desk := sample_desk\<rparr>, es_intents = [], es_approvals = [], es_checks = []\<rparr>,
     cst_lifecycles = rows, cst_bus = empty_bus,
     cst_reviews = [], cst_overnight = []\<rparr>"

text \<open>
  Two open rows of one symbol: both orders take the side of the last row, so the plan to close the long buys
  ten more.
\<close>

lemma second_row_turns_the_side:
  "map (\<lambda>v. (vi_symbol v, vi_side v, vi_quantity v))
     (fst (close_orders sample_closing_env [sample_lifecycle, sample_twin_row]
        (cd_plans (closing_plan_for sample_closing_env CLOSE_INTRADAY_ONLY [sample_lifecycle, sample_twin_row]))
        (cst_exec (sample_closing []))))
   = [(''SPY'', ''buy'', 10), (''SPY'', ''buy'', 4)]"
  by code_simp





end
