(* ===== verification/Day_Jobs.thy ===== *)
theory Day_Jobs
  imports Workflow Market_Calendar Event_Bus Book_Strategy
begin

text \<open>
  \<open>app/workflow/daily.py\<close>, part one: the rows of a day (the run with its metadata, the audit log, leases,
  scheduled jobs, revalidations) as one state, and the planning of the day's jobs (\<open>_plan_jobs\<close>,
  \<open>_plan_intraday_jobs\<close>, \<open>_resolve_intraday_interval\<close>, \<open>align_intraday_cadence\<close>, \<open>replan_intraday_jobs\<close>,
  \<open>_complete_planned_jobs\<close>, \<open>_enqueue_postmarket_eval\<close>).  The tables of the day are association lists and lists of
  rows; the runs of one calendar are keyed by their session day (their unique constraint).  The session
  times are instants, since the venue's offset does not change between the preparation of a session and
  its review, so adding minutes to the local time and to the instant is the same.
\<close>

section \<open>The rows of a day\<close>

record market_event =
  me_requires_reanalysis :: "bool option"
  me_incorporated_at :: "string option"
  me_detected_at :: "string option"
  me_effective_at :: "string option"

record day_meta =
  dm_analysis_completed_at :: "string option"
  dm_market_events :: "market_event list"
  dm_data_fail_closed :: bool
  dm_data_fail_closed_reasons :: "string list"
  dm_cio_action :: "string option"
  dm_no_trade_reason :: "string option"
  dm_catch_up_incomplete :: "string option"
  dm_last_catch_up_at :: "string option"
  dm_intraday_cadence :: "(bool \<times> int) option"
  dm_last_intraday_replan :: "(string \<times> int \<times> int) option"

definition empty_meta :: day_meta where
  "empty_meta = \<lparr>dm_analysis_completed_at = None, dm_market_events = [], dm_data_fail_closed = False,
     dm_data_fail_closed_reasons = [], dm_cio_action = None, dm_no_trade_reason = None, dm_catch_up_incomplete = None,
     dm_last_catch_up_at = None, dm_intraday_cadence = None, dm_last_intraday_replan = None\<rparr>"

record day_run =
  dr_run :: DailyWorkflowRun
  dr_started_at :: "int option"
  dr_completed_at :: "int option"
  dr_early_close :: bool
  dr_market_open_at :: "int option"
  dr_market_close_at :: "int option"
  dr_revalidation_count :: int
  dr_meta :: day_meta

record ScheduledJobRecord =
  sj_job_key :: string
  sj_session_date :: int
  sj_planned_at :: datetime
  sj_started_at :: "int option"
  sj_completed_at :: "int option"
  sj_status :: string
  sj_error :: "string option"

record RevalidationRun =
  vr_result :: string
  vr_reason :: string
  vr_attempt :: int

text \<open>What the data collection and the agents of a premarket analysis hand to the workflow.\<close>

record collected =
  co_fail_closed :: bool
  co_fail_closed_reasons :: "string list"
  co_collection_fail_closed :: bool

record decided =
  de_completed_at :: string
  de_cio_action :: string
  de_market_events :: "market_event list"
  de_broker_orders_submitted :: bool

record day_db =
  dd_runs :: "(int \<times> day_run) list"
  dd_audit :: "WorkflowStateTransition list"
  dd_leases :: lease_table
  dd_jobs :: "ScheduledJobRecord list"
  dd_revalidations :: "RevalidationRun list"
  dd_analyses :: "decided list"

text \<open>
  The service with its settings, calendar, controls, owner and clock; \<open>en_load_portfolio\<close> is the portfolio load of
  the analysis, which fails when the broker must answer and does not; \<open>en_collect\<close> is the collection of the
  premarket data, \<open>en_decide\<close> the agents with the materialised decision, and the last three are the queries
  behind the interval of the intraday ticks.
\<close>

record day_env =
  en_cfg :: settings
  en_venue :: venue
  en_calendar_name :: string
  en_cal :: MarketCalendarService
  en_controls :: TradingControlState
  en_owner :: string
  en_now :: int
  en_load_portfolio :: "day_db \<Rightarrow> day_run \<Rightarrow> unit py"
  en_collect :: "day_db \<Rightarrow> day_run \<Rightarrow> collected py"
  en_decide :: "day_db \<Rightarrow> day_run \<Rightarrow> collected \<Rightarrow> decided py"
  en_horizon_by_symbol :: "day_db \<Rightarrow> (string \<times> string) list py"
  en_open_symbols :: "day_db \<Rightarrow> string list py"
  en_collection_universe :: "day_db \<Rightarrow> string list py"

section \<open>Steps that may raise\<close>

text \<open>A raise keeps what was written before it.\<close>

type_synonym 'a daym = "day_db \<Rightarrow> 'a py \<times> day_db"

definition dret :: "'a \<Rightarrow> 'a daym" where
  "dret a db = (Inr a, db)"

definition draise :: "py_error \<Rightarrow> 'a daym" where
  "draise e db = (Inl e, db)"

definition dbind :: "'a daym \<Rightarrow> ('a \<Rightarrow> 'b daym) \<Rightarrow> 'b daym" where
  "dbind m f db = (case m db of (Inl e, db') \<Rightarrow> (Inl e, db') | (Inr a, db') \<Rightarrow> f a db')"

definition dlift :: "'a py \<Rightarrow> 'a daym" where
  "dlift r db = (r, db)"

definition dmodify :: "(day_db \<Rightarrow> day_db) \<Rightarrow> unit daym" where
  "dmodify f db = (Inr (), f db)"

definition require_run :: "int \<Rightarrow> day_run daym" where
  "require_run d db = (case dget (dd_runs db) d of
     None \<Rightarrow> (Inl (DailyWorkflowError ''daily_workflow_not_prepared''), db) | Some r \<Rightarrow> (Inr r, db))"

definition put_run :: "int \<Rightarrow> day_run \<Rightarrow> day_db \<Rightarrow> day_db" where
  "put_run d r db = db\<lparr>dd_runs := dset (dd_runs db) d r\<rparr>"

definition edit_meta :: "int \<Rightarrow> (day_meta \<Rightarrow> day_meta) \<Rightarrow> unit daym" where
  "edit_meta d f = dbind (require_run d) (\<lambda>r. dmodify (put_run d (r\<lparr>dr_meta := f (dr_meta r)\<rparr>)))"

text \<open>The day asked for, or today on the venue.\<close>

definition current_day :: "day_env \<Rightarrow> int option \<Rightarrow> int" where
  "current_day en day = (case day of Some d \<Rightarrow> d | None \<Rightarrow> ord_of (mk_wall (mcs_env (en_cal en)) (en_now en)))"

section \<open>Scheduled jobs\<close>

definition jk :: "day_env \<Rightarrow> string \<Rightarrow> string" where
  "jk en base = scoped_job_key (en_venue en) base"

definition find_job :: "string \<Rightarrow> int \<Rightarrow> ScheduledJobRecord list \<Rightarrow> ScheduledJobRecord option" where
  "find_job key d js = find (\<lambda>j. sj_job_key j = key \<and> sj_session_date j = d) js"

definition planned_job :: "string \<Rightarrow> int \<Rightarrow> int \<Rightarrow> ScheduledJobRecord" where
  "planned_job key d t = \<lparr>sj_job_key = key, sj_session_date = d, sj_planned_at = Aware t, sj_started_at = None,
     sj_completed_at = None, sj_status = ''planned'', sj_error = None\<rparr>"

text \<open>\<open>LIKE 'US:intraday_eval_%'\<close>, where an underscore stands for any character.\<close>

definition like_prefix :: "string \<Rightarrow> string \<Rightarrow> bool" where
  "like_prefix pat s \<longleftrightarrow> length pat \<le> length s \<and> list_all2 (\<lambda>p c. p = CHR ''_'' \<or> p = c) pat (take (length pat) s)"

definition is_intraday_job :: "day_env \<Rightarrow> int \<Rightarrow> ScheduledJobRecord \<Rightarrow> bool" where
  "is_intraday_job en d j \<longleftrightarrow> sj_session_date j = d \<and> like_prefix (jk en ''intraday_eval_'') (sj_job_key j)"

definition key_index :: "string \<Rightarrow> int option" where
  "key_index k = exponent_val (strip (rev (takeWhile (\<lambda>c. c \<noteq> CHR ''_'') (rev k))))"

definition max_idx :: "ScheduledJobRecord list \<Rightarrow> int" where
  "max_idx existing = foldl max (- 1) (List.map_filter (\<lambda>j. key_index (sj_job_key j)) existing)"

definition intraday_key :: "day_env \<Rightarrow> int \<Rightarrow> string" where
  "intraday_key en idx = jk en (''intraday_eval_'' @ str_int idx)"

subsection \<open>The interval\<close>

definition session_minutes_of :: "MarketSessionInfo \<Rightarrow> rat" where
  "session_minutes_of s = (case (ms_regular_open s, ms_regular_close s) of
     (Some a, Some b) \<Rightarrow> max 0 (minutes_between b a) | _ \<Rightarrow> 0)"

definition horizons_in_play :: "day_env \<Rightarrow> day_db \<Rightarrow> string list py" where
  "horizons_in_play en db =
     py_bind (en_horizon_by_symbol en db) (\<lambda>hz.
     py_bind (en_open_symbols en db) (\<lambda>open_syms.
     py_bind (if open_syms \<noteq> [] then Inr (map upper open_syms) else en_collection_universe en db) (\<lambda>syms.
       (let plan = filter_strategy_horizons (map Some (List.map_filter (dget hz) syms));
            all = filter_strategy_horizons (map (\<lambda>r. Some (snd r)) hz)
        in Inr (if plan \<noteq> [] then plan else if all \<noteq> [] then all else [''day''])))))"

definition resolve_intraday_interval :: "day_env \<Rightarrow> MarketSessionInfo \<Rightarrow> day_db \<Rightarrow> int" where
  "resolve_intraday_interval en s db =
     (case horizons_in_play en db of
        Inr hs \<Rightarrow> planned_intraday_interval_minutes hs (en_cfg en) (Some (session_minutes_of s))
      | Inl e \<Rightarrow> max 1 (cfg_intraday_reevaluation_interval_minutes (en_cfg en)))"

subsection \<open>Planning\<close>

text \<open>The loop over the interval; a step that is not positive would not end, and the interval is positive.\<close>

function advance_to :: "int \<Rightarrow> int \<Rightarrow> int \<Rightarrow> int" where
  "advance_to step nb cursor = (if 0 < step \<and> cursor < nb then advance_to step nb (cursor + step) else cursor)"
  by pat_completeness auto
termination by (relation "measure (\<lambda>(step, nb, cursor). nat (nb - cursor))") auto

function ticks :: "int \<Rightarrow> int \<Rightarrow> int \<Rightarrow> int \<Rightarrow> (int \<times> int) list" where
  "ticks step fin idx cursor =
     (if 0 < step \<and> cursor < fin then (idx, cursor) # ticks step fin (idx + 1) (cursor + step) else [])"
  by pat_completeness auto
termination by (relation "measure (\<lambda>(step, fin, idx, cursor). nat (fin - cursor))") auto

declare advance_to.simps [simp del] ticks.simps [simp del]

definition session_times :: "day_env \<Rightarrow> MarketSessionInfo \<Rightarrow> (int \<times> int) option" where
  "session_times en s = (if ms_is_trading_day s \<and> ms_regular_open s \<noteq> None \<and> ms_regular_close s \<noteq> None
     then Some (mk_open (mcs_env (en_cal en)) (ms_session_date s), mk_close (mcs_env (en_cal en)) (ms_session_date s)) else None)"

definition force_tick_at :: "settings \<Rightarrow> int \<Rightarrow> int" where
  "force_tick_at cfg close_t =
     close_t - minutes (min 5 (max 1 (if cfg_force_close_before_market_close_minutes cfg = 0 then 15
                                      else cfg_force_close_before_market_close_minutes cfg)))"

text \<open>The rows that \<open>_plan_intraday_jobs\<close> adds: the ticks of the interval and one tick before the close.\<close>

definition interval_rows :: "day_env \<Rightarrow> int \<Rightarrow> ScheduledJobRecord list \<Rightarrow> (int \<times> int) list \<Rightarrow> ScheduledJobRecord list" where
  "interval_rows en d existing ts =
     map (\<lambda>(idx, t). planned_job (intraday_key en idx) d t)
       (filter (\<lambda>(idx, t). intraday_key en idx \<notin> sj_job_key ` set existing) ts)"

definition force_rows :: "day_env \<Rightarrow> int \<Rightarrow> ScheduledJobRecord list \<Rightarrow> int \<Rightarrow> int \<Rightarrow> int \<Rightarrow> ScheduledJobRecord list" where
  "force_rows en d existing idx open_t close_t =
     (let force_at = force_tick_at (en_cfg en) close_t;
          covered = (\<exists>r \<in> set existing. force_at \<le> as_utc (sj_planned_at r) \<and> as_utc (sj_planned_at r) < close_t)
      in if open_t < force_at \<and> force_at < close_t \<and> \<not> covered \<and> intraday_key en idx \<notin> sj_job_key ` set existing
         then [planned_job (intraday_key en idx) d force_at] else [])"

definition intraday_rows :: "day_env \<Rightarrow> int \<Rightarrow> ScheduledJobRecord list \<Rightarrow> int \<Rightarrow> datetime option \<Rightarrow> int \<Rightarrow> int \<Rightarrow> ScheduledJobRecord list" where
  "intraday_rows en d existing interval not_before open_t close_t =
     (let start = open_t + minutes interval;
          cursor = (case not_before of None \<Rightarrow> start | Some nb \<Rightarrow> advance_to (minutes interval) (as_utc nb) start);
          ts = ticks (minutes interval) close_t (max_idx existing + 1) cursor
      in interval_rows en d existing ts
         @ force_rows en d existing (max_idx existing + 1 + int (length ts)) open_t close_t)"

definition plan_intraday_jobs :: "day_env \<Rightarrow> int \<Rightarrow> MarketSessionInfo \<Rightarrow> datetime option \<Rightarrow> int daym" where
  "plan_intraday_jobs en d s not_before db =
     (case session_times en s of
        None \<Rightarrow> (Inr 0, db)
      | Some (open_t, close_t) \<Rightarrow>
          (let interval = resolve_intraday_interval en s db;
               existing = filter (is_intraday_job en d) (dd_jobs db);
               rows = intraday_rows en d existing interval not_before open_t close_t
           in dbind (dmodify (\<lambda>db. db\<lparr>dd_jobs := dd_jobs db @ rows\<rparr>)) (\<lambda>_.
              dbind (edit_meta d (\<lambda>m. m\<lparr>dm_intraday_cadence := Some (llm_is_local (en_cfg en), interval)\<rparr>)) (\<lambda>_.
                dret (int (length rows)))) db))"

definition day_plans :: "day_env \<Rightarrow> int \<Rightarrow> int \<Rightarrow> (string \<times> int) list" where
  "day_plans en open_t close_t = (let cfg = en_cfg en in
     [(jk en ''premarket_preparation'', open_t - minutes (cfg_premarket_preparation_minutes_before_open cfg)),
      (jk en ''premarket_analysis'', open_t - minutes (cfg_premarket_analysis_minutes_before_open cfg)),
      (jk en ''preopen_revalidation'', open_t - minutes (cfg_preopen_revalidation_minutes_before_open cfg)),
      (jk en ''closing_window'', close_t - minutes (cfg_closing_window_minutes_before_close cfg)),
      (jk en ''postmarket_review'', close_t + minutes (cfg_postmarket_review_minutes_after_close cfg))])"

definition add_job :: "int \<Rightarrow> string \<times> int \<Rightarrow> day_db \<Rightarrow> day_db" where
  "add_job d p db = (if find_job (fst p) d (dd_jobs db) \<noteq> None then db
     else db\<lparr>dd_jobs := dd_jobs db @ [planned_job (fst p) d (snd p)]\<rparr>)"

definition plan_jobs :: "day_env \<Rightarrow> int \<Rightarrow> MarketSessionInfo \<Rightarrow> unit daym" where
  "plan_jobs en d s db =
     (case session_times en s of
        None \<Rightarrow> (Inr (), db)
      | Some (open_t, close_t) \<Rightarrow>
          dbind (plan_intraday_jobs en d s None) (\<lambda>_. dmodify (\<lambda>db. foldl (\<lambda>db p. add_job d p db) db (day_plans en open_t close_t))) db)"

subsection \<open>Replanning\<close>

definition replan_intraday_jobs :: "day_env \<Rightarrow> int option \<Rightarrow> (int \<times> int) option daym" where
  "replan_intraday_jobs en day db =
     (let d = current_day en day in
      case dget (dd_runs db) d of
        None \<Rightarrow> (Inr None, db)
      | Some r \<Rightarrow>
          (let s = get_session (en_cal en) d in
           if \<not> ms_is_trading_day s \<or> ms_regular_open s = None then (Inr None, db)
           else (let gone = (\<lambda>j. is_intraday_job en d j \<and> sj_status j \<in> {''planned'', ''skipped''});
                     purged = int (length (filter gone (dd_jobs db)))
                 in dbind (dmodify (\<lambda>db. db\<lparr>dd_jobs := filter (\<lambda>j. \<not> gone j) (dd_jobs db)\<rparr>)) (\<lambda>_.
                    dbind (plan_intraday_jobs en d s (Some (Aware (en_now en)))) (\<lambda>created.
                    dbind (edit_meta d (\<lambda>m. m\<lparr>dm_last_intraday_replan := Some (isoformat (en_now en), purged, created)\<rparr>)) (\<lambda>_.
                      dret (Some (purged, created))))) db)))"

definition future_ticks :: "day_env \<Rightarrow> int \<Rightarrow> ScheduledJobRecord list \<Rightarrow> int list" where
  "future_ticks en d js = sort (filter (\<lambda>t. en_now en \<le> t)
     (map (\<lambda>j. as_utc (sj_planned_at j)) (filter (\<lambda>j. is_intraday_job en d j \<and> sj_status j = ''planned'') js)))"

definition tick_gaps :: "int list \<Rightarrow> rat list" where
  "tick_gaps ts = map2 minutes_between (tl ts) ts"

definition spacing_changed :: "int list \<Rightarrow> int \<Rightarrow> int \<Rightarrow> int \<Rightarrow> bool" where
  "spacing_changed future desired close_t now =
     (let gaps = sort (tick_gaps future) in
      if gaps \<noteq> [] then fl (51 / 100) < \<bar>fsub (gaps ! (length gaps div 2)) (of_int desired)\<bar>
      else of_int desired * 2 < minutes_between close_t now)"

definition align_intraday_session :: "day_env \<Rightarrow> int \<Rightarrow> (bool \<times> string) daym" where
  "align_intraday_session en d db =
     (case dget (dd_runs db) d of
        None \<Rightarrow> (Inr (False, ''no_run''), db)
      | Some r \<Rightarrow>
          (let s = get_session (en_cal en) d in
           case session_times en s of
             None \<Rightarrow> (Inr (False, ''non_trading_day''), db)
           | Some (open_t, close_t) \<Rightarrow>
               if close_t \<le> en_now en then (Inr (False, ''session_closed''), db)
               else (let desired = resolve_intraday_interval en s db;
                         runtime_changed = (case dm_intraday_cadence (dr_meta r) of
                           Some (stored_local, _) \<Rightarrow> stored_local \<noteq> llm_is_local (en_cfg en) | None \<Rightarrow> False)
                     in if \<not> runtime_changed \<and> \<not> spacing_changed (future_ticks en d (dd_jobs db)) desired close_t (en_now en)
                        then (Inr (False, ''aligned''), db)
                        else dbind (replan_intraday_jobs en (Some d)) (\<lambda>out. dret (out \<noteq> None, ''replanned'')) db)))"

definition align_intraday_cadence :: "day_env \<Rightarrow> (bool \<times> string) list daym" where
  "align_intraday_cadence en =
     (let today = current_day en None; nxt = get_next_trading_day (en_cal en) today
      in dbind (align_intraday_session en today) (\<lambda>a.
           if nxt = today then dret [a]
           else dbind (align_intraday_session en nxt) (\<lambda>b. dret [a, b])))"

subsection \<open>Completing and enqueueing\<close>

definition complete_job :: "int \<Rightarrow> ScheduledJobRecord \<Rightarrow> ScheduledJobRecord" where
  "complete_job now j = j\<lparr>sj_status := ''completed'', sj_completed_at := Some now, sj_error := None,
     sj_started_at := (case sj_started_at j of None \<Rightarrow> Some now | x \<Rightarrow> x)\<rparr>"

definition completable :: "int \<Rightarrow> string \<Rightarrow> ScheduledJobRecord \<Rightarrow> bool" where
  "completable d key j \<longleftrightarrow> sj_session_date j = d \<and> sj_job_key j = key \<and> sj_status j \<in> {''planned'', ''running''}"

primrec complete_planned_jobs :: "int \<Rightarrow> int \<Rightarrow> string list \<Rightarrow> ScheduledJobRecord list \<Rightarrow> string list \<times> ScheduledJobRecord list" where
  "complete_planned_jobs now d [] js = ([], js)"
| "complete_planned_jobs now d (key # keys) js =
     (if \<exists>j \<in> set js. completable d key j
      then (case complete_planned_jobs now d keys (map (\<lambda>j. if completable d key j then complete_job now j else j) js) of
              (marked, js') \<Rightarrow> (key # marked, js'))
      else complete_planned_jobs now d keys js)"

definition enqueue_postmarket_eval :: "day_env \<Rightarrow> int \<Rightarrow> datetime option \<Rightarrow> day_db \<Rightarrow> day_db" where
  "enqueue_postmarket_eval en d planned_at db =
     (let key = jk en ''postmarket_eval''; t = (case planned_at of Some x \<Rightarrow> as_utc x | None \<Rightarrow> en_now en)
      in if find_job key d (dd_jobs db) = None then db\<lparr>dd_jobs := dd_jobs db @ [planned_job key d t]\<rparr>
         else db\<lparr>dd_jobs := map (\<lambda>j. if sj_job_key j = key \<and> sj_session_date j = d
                                       \<and> sj_status j \<in> {''completed'', ''failed'', ''skipped''}
                                     then planned_job key d t else j) (dd_jobs db)\<rparr>)"

section \<open>Keys of the ticks\<close>

lemma digit_char_props:
  assumes "0 \<le> k" "k < 10"
  shows "(of_char (digit_char k) :: int) = 48 + k" "is_digit (digit_char k)" "digit_char k \<noteq> CHR ''_''"
    "\<not> is_space (digit_char k)"
proof -
  show v: "(of_char (digit_char k) :: int) = 48 + k"
    using assms by (simp add: digit_char_def of_char_of take_bit_eq_mod)
  then show "is_digit (digit_char k)" "\<not> is_space (digit_char k)"
    using assms by (simp_all add: is_digit_def is_space_def Let_def)
  have "(of_char (CHR ''_'') :: int) = 95" by simp
  then show "digit_char k \<noteq> CHR ''_''" using v assms by auto
qed

lemma str_nat_digits:
  "0 \<le> n \<Longrightarrow> list_all (\<lambda>c. is_digit c \<and> c \<noteq> CHR ''_'' \<and> \<not> is_space c) (str_nat n)
    \<and> foldl (\<lambda>a c. a * 10 + (of_char c - 48)) 0 (str_nat n) = n"
proof (induction n rule: str_nat.induct)
  case (1 n)
  show ?case
  proof (cases "n < 10")
    case True
    then show ?thesis using 1 digit_char_props[of n] by (simp add: str_nat.simps[of n])
  next
    case False
    have m: "0 \<le> n mod 10" "n mod 10 < 10" by simp_all
    have ih: "list_all (\<lambda>c. is_digit c \<and> c \<noteq> CHR ''_'' \<and> \<not> is_space c) (str_nat (n div 10))
      \<and> foldl (\<lambda>a c. a * 10 + (of_char c - 48)) 0 (str_nat (n div 10)) = n div 10"
      using 1 False by simp
    then show ?thesis using False digit_char_props[OF m] by (simp add: str_nat.simps[of n])
  qed
qed

lemma plain_no_double: "CHR ''_'' \<notin> set s \<Longrightarrow> \<not> str_contains ''__'' s"
  by (induction s) (auto simp: startswith_def)

lemma digits_val_str_nat:
  assumes "0 \<le> n"
  shows "digits_val (str_nat n) = Some n"
proof -
  have d: "\<And>c. c \<in> set (str_nat n) \<Longrightarrow> is_digit c \<and> c \<noteq> CHR ''_''"
    using str_nat_digits[OF assms] by (auto simp: list_all_iff)
  have u: "CHR ''_'' \<notin> set (str_nat n)" using d by blast
  have "hd (str_nat n) \<noteq> CHR ''_''" "last (str_nat n) \<noteq> CHR ''_''"
    using u hd_in_set[of "str_nat n"] last_in_set[of "str_nat n"] by (metis str_nat_nonempty(1))+
  moreover have "filter is_digit (str_nat n) = str_nat n" using d by simp
  moreover have "list_all (\<lambda>c. is_digit c \<or> c = CHR ''_'') (str_nat n)" using d by (auto simp: list_all_iff)
  ultimately show ?thesis
    using plain_no_double[OF u] str_nat_digits[OF assms] by (simp add: digits_val_def)
qed

lemma strip_plain:
  assumes "\<And>c. c \<in> set s \<Longrightarrow> \<not> is_space c"
  shows "strip s = s"
proof -
  have d: "dropWhile is_space xs = xs" if "\<And>c. c \<in> set xs \<Longrightarrow> \<not> is_space c" for xs
    using that by (cases xs) auto
  have "dropWhile is_space s = s" by (rule d) (rule assms)
  moreover have "dropWhile is_space (rev s) = rev s" by (rule d) (simp add: assms)
  ultimately show ?thesis by (simp add: strip_def)
qed

lemma intraday_key_form:
  assumes "0 \<le> i"
  shows "intraday_key en i = (venue_value (en_venue en) @ '':intraday_eval_'') @ str_nat i"
proof -
  have "\<not> is_space c" if "c \<in> set (''intraday_eval_'' @ str_nat i)" for c
  proof (cases "c \<in> set (str_nat i)")
    case True
    then show ?thesis using str_nat_digits[OF assms] by (auto simp: list_all_iff)
  next
    case False
    then have "c \<in> set ''intraday_eval_''" using that by auto
    then show ?thesis by (auto simp: is_space_def)
  qed
  then have "strip (''intraday_eval_'' @ str_nat i) = ''intraday_eval_'' @ str_nat i" by (rule strip_plain)
  then show ?thesis
    using assms by (cases "en_venue en")
      (simp_all add: intraday_key_def jk_def scoped_job_key_def str_int_def Let_def startswith_def)
qed

lemma intraday_key_inj: "0 \<le> i \<Longrightarrow> 0 \<le> j \<Longrightarrow> intraday_key en i = intraday_key en j \<Longrightarrow> i = j"
  by (simp add: intraday_key_form str_nat_inj)

lemma key_index_intraday:
  assumes "0 \<le> i"
  shows "key_index (intraday_key en i) = Some i"
proof -
  have d: "\<And>c. c \<in> set (str_nat i) \<Longrightarrow> is_digit c \<and> c \<noteq> CHR ''_'' \<and> \<not> is_space c"
    using str_nat_digits[OF assms] by (auto simp: list_all_iff)
  have "takeWhile (\<lambda>c. c \<noteq> CHR ''_'') (rev (intraday_key en i)) = rev (str_nat i)"
    using d by (simp add: intraday_key_form[OF assms] takeWhile_append)
  moreover have "strip (str_nat i) = str_nat i" using d by (intro strip_plain) blast
  moreover have "split_sign (str_nat i) = (False, str_nat i)"
  proof -
    obtain c cs where s: "str_nat i = c # cs" by (cases "str_nat i") auto
    have "is_digit c" using d s by auto
    then have "c \<noteq> CHR ''-''" "c \<noteq> CHR ''+''" by (auto simp: is_digit_def)
    then show ?thesis by (simp add: split_sign_def s)
  qed
  ultimately show ?thesis
    using digits_val_str_nat[OF assms] by (simp add: key_index_def exponent_val_def)
qed

lemma foldl_max_start: "a \<le> foldl max a (xs :: int list)"
  by (induction xs arbitrary: a) (auto intro: order_trans[OF max.cobounded1])

lemma foldl_max_ge: "x \<in> set xs \<Longrightarrow> x \<le> foldl max a (xs :: int list)"
proof (induction xs arbitrary: a)
  case (Cons y ys)
  have "y \<le> foldl max (max a y) ys"
    using foldl_max_start[of "max a y" ys] by simp
  then show ?case using Cons by auto
qed simp

lemma max_idx_ge: "- 1 \<le> max_idx js"
  by (simp add: max_idx_def foldl_max_start)

text \<open>An index above the highest one in use gives a key that is not in use.\<close>

lemma key_unused:
  assumes "max_idx js < i"
  shows "intraday_key en i \<notin> sj_job_key ` set js"
proof
  assume "intraday_key en i \<in> sj_job_key ` set js"
  then obtain j where j: "j \<in> set js" "sj_job_key j = intraday_key en i" by auto
  have i: "0 \<le> i" using assms max_idx_ge[of js] by simp
  have "i \<in> set (List.map_filter (\<lambda>j. key_index (sj_job_key j)) js)"
    using j key_index_intraday[OF i, of en] by (force simp: List.map_filter_def)
  then have "i \<le> max_idx js" unfolding max_idx_def by (rule foldl_max_ge)
  then show False using assms by simp
qed

lemma like_prefix_self: "like_prefix p (p @ s)"
  by (simp add: like_prefix_def list_all2_conv_all_nth)

lemma intraday_key_like:
  assumes "0 \<le> i"
  shows "like_prefix (jk en ''intraday_eval_'') (intraday_key en i)"
proof -
  have "jk en ''intraday_eval_'' = venue_value (en_venue en) @ '':intraday_eval_''"
    by (cases "en_venue en") (simp_all add: jk_def scoped_job_key_def strip_def is_space_def Let_def startswith_def)
  then show ?thesis using like_prefix_self[of "venue_value (en_venue en) @ '':intraday_eval_''" "str_nat i"]
    by (simp add: intraday_key_form[OF assms])
qed

section \<open>The ticks\<close>

lemma ticks_idx: "map fst (ticks step fin idx cursor) = map (\<lambda>k. idx + int k) [0..<length (ticks step fin idx cursor)]"
proof (induction step fin idx cursor rule: ticks.induct)
  case (1 step fin idx cursor)
  show ?case
  proof (cases "0 < step \<and> cursor < fin")
    case True
    have "map (\<lambda>k. idx + int k) [0..<Suc n] = idx # map (\<lambda>k. (idx + 1) + int k) [0..<n]" for n
      by (subst upt_conv_Cons) (auto simp: map_Suc_upt[symmetric] simp del: map_Suc_upt upt_Suc)
    then show ?thesis using 1[OF True] True by (simp add: ticks.simps[of step fin idx cursor] del: upt_Suc)
  qed (simp add: ticks.simps[of step fin idx cursor])
qed

lemma ticks_within: "(i, t) \<in> set (ticks step fin idx cursor) \<Longrightarrow> cursor \<le> t \<and> t < fin"
proof (induction step fin idx cursor rule: ticks.induct)
  case (1 step fin idx cursor)
  show ?case
  proof (cases "0 < step \<and> cursor < fin")
    case True
    then show ?thesis using 1 by (fastforce simp: ticks.simps[of step fin idx cursor])
  next
    case False
    then show ?thesis using 1(2) by (simp add: ticks.simps[of step fin idx cursor])
  qed
qed

lemma advance_to_ge: "cursor \<le> advance_to step nb cursor \<and> (0 < step \<longrightarrow> nb \<le> advance_to step nb cursor)"
proof (induction step nb cursor rule: advance_to.induct)
  case (1 step nb cursor)
  show ?case
  proof (cases "0 < step \<and> cursor < nb")
    case True
    then show ?thesis using 1[OF True] by (simp add: advance_to.simps[of step nb cursor])
  next
    case False
    then show ?thesis by (auto simp: advance_to.simps[of step nb cursor])
  qed
qed

section \<open>Unique keys\<close>

definition job_id :: "ScheduledJobRecord \<Rightarrow> string \<times> int" where
  "job_id j = (sj_job_key j, sj_session_date j)"

definition jobs_ok :: "ScheduledJobRecord list \<Rightarrow> bool" where
  "jobs_ok js \<longleftrightarrow> distinct (map job_id js)"

definition tick_row :: "day_env \<Rightarrow> int \<Rightarrow> int \<times> int \<Rightarrow> ScheduledJobRecord" where
  "tick_row en d p = planned_job (intraday_key en (fst p)) d (snd p)"

lemma planned_job_sel [simp]:
  "sj_job_key (planned_job k d t) = k" "sj_session_date (planned_job k d t) = d"
  "sj_planned_at (planned_job k d t) = Aware t" "sj_status (planned_job k d t) = ''planned''"
  by (simp_all add: planned_job_def)

lemma interval_rows_all:
  assumes "\<And>i t. (i, t) \<in> set ts \<Longrightarrow> max_idx existing < i"
  shows "interval_rows en d existing ts = map (tick_row en d) ts"
proof -
  have "filter (\<lambda>(idx, t). intraday_key en idx \<notin> sj_job_key ` set existing) ts = ts"
    using key_unused assms by (intro filter_True) blast
  then show ?thesis by (simp add: interval_rows_def tick_row_def case_prod_unfold)
qed

lemma upt_shift_Suc: "map (\<lambda>k. a + int k) [0..<Suc n] = map (\<lambda>k. a + int k) [0..<n] @ [a + int n]"
  by simp

lemma intraday_rows_form:
  obtains ps where "intraday_rows en d existing interval nb open_t close_t = map (tick_row en d) ps"
    "map fst ps = map (\<lambda>k. max_idx existing + 1 + int k) [0..<length ps]"
proof -
  define cursor where "cursor = (case nb of None \<Rightarrow> open_t + minutes interval
    | Some x \<Rightarrow> advance_to (minutes interval) (as_utc x) (open_t + minutes interval))"
  define ts where "ts = ticks (minutes interval) close_t (max_idx existing + 1) cursor"
  have idx: "map fst ts = map (\<lambda>k. max_idx existing + 1 + int k) [0..<length ts]" unfolding ts_def by (rule ticks_idx)
  have above: "max_idx existing < i" if "(i, t) \<in> set ts" for i t
  proof -
    have "i \<in> set (map fst ts)" using that by force
    then show ?thesis unfolding idx by auto
  qed
  let ?f = "force_rows en d existing (max_idx existing + 1 + int (length ts)) open_t close_t"
  have rows: "intraday_rows en d existing interval nb open_t close_t = map (tick_row en d) ts @ ?f"
    using interval_rows_all[OF above] by (simp add: intraday_rows_def cursor_def ts_def Let_def)
  show thesis
  proof (cases "?f = []")
    case True
    then show ?thesis using that[of ts] rows idx by simp
  next
    case False
    then have "?f = [tick_row en d (max_idx existing + 1 + int (length ts), force_tick_at (en_cfg en) close_t)]"
      by (auto simp: force_rows_def tick_row_def Let_def split: if_splits)
    then show ?thesis
      using that[of "ts @ [(max_idx existing + 1 + int (length ts), force_tick_at (en_cfg en) close_t)]"] rows idx
      by (simp add: upt_shift_Suc)
  qed
qed

lemma intraday_rows_ok:
  assumes ok: "jobs_ok js"
  shows "jobs_ok (js @ intraday_rows en d (filter (is_intraday_job en d) js) interval nb open_t close_t)"
proof -
  let ?ex = "filter (is_intraday_job en d) js"
  obtain ps where ps: "intraday_rows en d ?ex interval nb open_t close_t = map (tick_row en d) ps"
    "map fst ps = map (\<lambda>k. max_idx ?ex + 1 + int k) [0..<length ps]" by (rule intraday_rows_form)
  have above: "max_idx ?ex < i \<and> 0 \<le> i" if "i \<in> set (map fst ps)" for i
    using that max_idx_ge[of ?ex] unfolding ps(2) by auto
  have "inj_on (intraday_key en) (set (map fst ps))"
    using above intraday_key_inj by (intro inj_onI) blast
  moreover have "distinct (map fst ps)" unfolding ps(2) by (simp add: distinct_map inj_on_def)
  ultimately have "distinct (map (intraday_key en) (map fst ps))" by (simp only: distinct_map)
  then have "distinct (map (\<lambda>p. intraday_key en (fst p)) ps)" by (simp add: comp_def)
  then have new: "distinct (map (\<lambda>p. (intraday_key en (fst p), d)) ps)"
    using distinct_map[of "\<lambda>p. (intraday_key en (fst p), d)" ps] distinct_map[of "\<lambda>p. intraday_key en (fst p)" ps]
    by (auto simp: inj_on_def)
  have old: "(intraday_key en i, d) \<notin> job_id ` set js" if "i \<in> set (map fst ps)" for i
  proof
    assume "(intraday_key en i, d) \<in> job_id ` set js"
    then obtain j where j: "j \<in> set js" "sj_job_key j = intraday_key en i" "sj_session_date j = d"
      by (auto simp: job_id_def)
    then have "j \<in> set ?ex" using intraday_key_like[of i en] above[OF that] by (simp add: is_intraday_job_def)
    then show False using key_unused[of ?ex i en] above[OF that] j(2) by (metis image_eqI)
  qed
  have ids: "map job_id (map (tick_row en d) ps) = map (\<lambda>p. (intraday_key en (fst p), d)) ps"
    by (simp add: tick_row_def job_id_def)
  have "set (map job_id js) \<inter> set (map (\<lambda>p. (intraday_key en (fst p), d)) ps) = {}"
    using old by auto
  then show ?thesis using ok new unfolding jobs_ok_def ps(1) map_append distinct_append ids by blast
qed

section \<open>Steps that keep the keys unique\<close>

definition keeps :: "(day_db \<Rightarrow> bool) \<Rightarrow> 'a daym \<Rightarrow> bool" where
  "keeps P m \<longleftrightarrow> (\<forall>db. P db \<longrightarrow> P (snd (m db)))"

named_theorems keep_intros

lemma keeps_dret [keep_intros]: "keeps P (dret a)"
  by (simp add: keeps_def dret_def)

lemma keeps_draise [keep_intros]: "keeps P (draise e)"
  by (simp add: keeps_def draise_def)

lemma keeps_dlift [keep_intros]: "keeps P (dlift r)"
  by (simp add: keeps_def dlift_def)

lemma keeps_read [keep_intros]: "keeps P (\<lambda>db. (f db, db))"
  by (simp add: keeps_def)

lemma keeps_require_run [keep_intros]: "keeps P (require_run d)"
  by (simp add: keeps_def require_run_def split: option.split)

lemma keeps_dbind [keep_intros]:
  assumes "keeps P m" "\<And>a. keeps P (f a)"
  shows "keeps P (dbind m f)"
  unfolding keeps_def
proof (intro allI impI)
  fix db assume "P db"
  then have "P (snd (m db))" using assms(1) by (simp add: keeps_def)
  then show "P (snd (dbind m f db))"
    using assms(2) by (auto simp: dbind_def keeps_def split: prod.split sum.split)
qed

lemma keeps_dmodify [keep_intros]: "(\<And>db. P db \<Longrightarrow> P (f db)) \<Longrightarrow> keeps P (dmodify f)"
  by (simp add: keeps_def dmodify_def)

lemma keepsD: "keeps P m \<Longrightarrow> P db \<Longrightarrow> P (snd (m db))"
  by (simp add: keeps_def)

abbreviation unique_jobs :: "day_db \<Rightarrow> bool" where
  "unique_jobs db \<equiv> jobs_ok (dd_jobs db)"

lemma put_run_jobs [simp]: "dd_jobs (put_run d r db) = dd_jobs db"
  by (simp add: put_run_def)

lemma keeps_edit_meta [keep_intros]: "keeps unique_jobs (edit_meta d f)"
  unfolding edit_meta_def by (intro keep_intros) simp

lemma keeps_plan_intraday [keep_intros]: "keeps unique_jobs (plan_intraday_jobs en d s nb)"
  unfolding keeps_def
proof (intro allI impI)
  fix db assume ok: "unique_jobs db"
  show "unique_jobs (snd (plan_intraday_jobs en d s nb db))"
  proof (cases "session_times en s")
    case None
    then show ?thesis using ok by (simp add: plan_intraday_jobs_def)
  next
    case (Some oc)
    let ?f = "\<lambda>m. m\<lparr>dm_intraday_cadence := Some (llm_is_local (en_cfg en), resolve_intraday_interval en s db)\<rparr>"
    let ?db = "db\<lparr>dd_jobs := dd_jobs db @ intraday_rows en d (filter (is_intraday_job en d) (dd_jobs db))
      (resolve_intraday_interval en s db) nb (fst oc) (snd oc)\<rparr>"
    have "unique_jobs ?db" using intraday_rows_ok[OF ok] by simp
    then have "unique_jobs (snd (edit_meta d ?f ?db))" by (rule keepsD[OF keeps_edit_meta])
    then show ?thesis using Some
      by (auto simp: plan_intraday_jobs_def Let_def dbind_def dmodify_def dret_def case_prod_unfold split: sum.split)
  qed
qed

lemma jobs_ok_add:
  assumes "jobs_ok (dd_jobs db)"
  shows "jobs_ok (dd_jobs (add_job d p db))"
proof (cases "find_job (fst p) d (dd_jobs db) = None")
  case True
  then have "(fst p, d) \<notin> job_id ` set (dd_jobs db)"
    by (auto simp: find_job_def find_None_iff job_id_def)
  then show ?thesis using assms True by (simp add: add_job_def jobs_ok_def job_id_def[of "planned_job (fst p) d (snd p)"])
qed (use assms in \<open>simp add: add_job_def\<close>)

lemma keep_jobs: "keeps unique_jobs m \<Longrightarrow> jobs_ok (dd_jobs db) \<Longrightarrow> jobs_ok (dd_jobs (snd (m db)))"
  by (rule keepsD)

lemma keeps_plan_jobs [keep_intros]: "keeps unique_jobs (plan_jobs en d s)"
proof -
  have f: "unique_jobs db \<Longrightarrow> unique_jobs (foldl (\<lambda>db p. add_job d p db) db ps)" for db ps
    by (induction ps arbitrary: db) (simp_all add: jobs_ok_add)
  have "keeps unique_jobs (dbind (plan_intraday_jobs en d s None)
      (\<lambda>_. dmodify (\<lambda>db. foldl (\<lambda>db p. add_job d p db) db (day_plans en t t'))))" for t t'
    by (intro keep_intros) (rule f)
  then show ?thesis by (simp add: keeps_def plan_jobs_def split: option.split)
qed

lemma jobs_ok_filter: "jobs_ok js \<Longrightarrow> jobs_ok (filter P js)"
  by (simp add: jobs_ok_def distinct_map_filter)

lemma keeps_replan [keep_intros]: "keeps unique_jobs (replan_intraday_jobs en day)"
proof -
  have m: "keeps unique_jobs (dbind (dmodify (\<lambda>db. db\<lparr>dd_jobs := filter P (dd_jobs db)\<rparr>)) (\<lambda>_.
        dbind (plan_intraday_jobs en d s nb) (\<lambda>created. dbind (edit_meta d (f created)) (\<lambda>_. dret (g created)))))" for P d s nb f g
    by (intro keep_intros) (simp add: jobs_ok_filter)
  show ?thesis unfolding keeps_def replan_intraday_jobs_def Let_def
    by (auto split: option.split intro!: keepsD[OF m])
qed

lemma keeps_align [keep_intros]: "keeps unique_jobs (align_intraday_session en d)"
  unfolding keeps_def align_intraday_session_def Let_def
  by (auto split: option.split intro!: keep_jobs keep_intros)

lemma keeps_align_cadence [keep_intros]: "keeps unique_jobs (align_intraday_cadence en)"
  unfolding align_intraday_cadence_def Let_def
  by (intro keep_intros) (auto intro: keep_intros)

lemma complete_keys: "map job_id (snd (complete_planned_jobs now d keys js)) = map job_id js"
proof (induction keys arbitrary: js)
  case (Cons key keys)
  have "job_id (if b then complete_job now j else j) = job_id j" for b j
    by (simp add: job_id_def complete_job_def)
  then have "map job_id (map (\<lambda>j. if completable d key j then complete_job now j else j) js) = map job_id js"
    by (induction js) auto
  then show ?case using Cons by (simp add: case_prod_unfold del: map_map)
qed simp

lemma jobs_ok_enqueue:
  assumes ok: "jobs_ok (dd_jobs db)"
  shows "jobs_ok (dd_jobs (enqueue_postmarket_eval en d t db))"
proof (cases "find_job (jk en ''postmarket_eval'') d (dd_jobs db) = None")
  case True
  then show ?thesis using jobs_ok_add[OF ok, of d "(jk en ''postmarket_eval'', case t of Some x \<Rightarrow> as_utc x | None \<Rightarrow> en_now en)"]
    by (simp add: enqueue_postmarket_eval_def Let_def add_job_def)
next
  case False
  let ?f = "\<lambda>j. if sj_job_key j = jk en ''postmarket_eval'' \<and> sj_session_date j = d \<and> sj_status j \<in> {''completed'', ''failed'', ''skipped''}
    then planned_job (jk en ''postmarket_eval'') d (case t of Some x \<Rightarrow> as_utc x | None \<Rightarrow> en_now en) else j"
  have "job_id (?f j) = job_id j" for j by (simp add: job_id_def)
  then have "map job_id (map ?f (dd_jobs db)) = map job_id (dd_jobs db)" by (simp only: map_map comp_def)
  then have "jobs_ok (map ?f (dd_jobs db))" using ok by (simp only: jobs_ok_def)
  moreover obtain y where "find_job (jk en ''postmarket_eval'') d (dd_jobs db) = Some y" using False by blast
  ultimately show ?thesis unfolding enqueue_postmarket_eval_def Let_def by simp
qed

section \<open>A tick before the close\<close>

lemma planned_interval_pos: "1 \<le> planned_intraday_interval_minutes hs cfg sm"
proof -
  have m: "1 \<le> max (max 1 a) b" "1 \<le> max 1 a" for a b :: int by simp_all
  show ?thesis unfolding planned_intraday_interval_minutes_def Let_def
    by (auto split: option.split intro: order_trans[OF m(2)])
qed

lemma interval_pos: "1 \<le> resolve_intraday_interval en s db"
  by (simp add: resolve_intraday_interval_def planned_interval_pos split: sum.split)

lemma minutes_mono: "a \<le> b \<Longrightarrow> minutes a \<le> minutes b" "minutes 1 = 60000000"
  by (simp_all add: minutes_def)

lemma force_tick_before_close: "force_tick_at cfg close_t < close_t"
proof -
  have "minutes 1 \<le> minutes (min 5 (max 1 x))" for x by (rule minutes_mono) simp
  then have "0 < minutes (min 5 (max 1 x))" for x using minutes_mono(2) by (metis less_le_trans zero_less_numeral)
  then show ?thesis by (simp add: force_tick_at_def)
qed

lemma intraday_rows_shape:
  assumes step: "1 \<le> interval" and open_t: "open_t < force_tick_at (en_cfg en) close_t"
    and rows: "rows = intraday_rows en d existing interval nb open_t close_t"
  shows "\<forall>j \<in> set rows. sj_status j = ''planned'' \<and> is_intraday_job en d j
      \<and> open_t < as_utc (sj_planned_at j) \<and> as_utc (sj_planned_at j) < close_t"
    and "\<exists>j \<in> set existing \<union> set rows. force_tick_at (en_cfg en) close_t \<le> as_utc (sj_planned_at j)
      \<and> as_utc (sj_planned_at j) < close_t"
proof -
  define cursor where "cursor = (case nb of None \<Rightarrow> open_t + minutes interval
    | Some x \<Rightarrow> advance_to (minutes interval) (as_utc x) (open_t + minutes interval))"
  define ts where "ts = ticks (minutes interval) close_t (max_idx existing + 1) cursor"
  define idx where "idx = max_idx existing + 1 + int (length ts)"
  let ?force = "force_tick_at (en_cfg en) close_t"
  have m: "0 < minutes interval" using minutes_mono(1)[OF step] minutes_mono(2) by simp
  have start: "open_t < cursor"
  proof (cases nb)
    case None
    then show ?thesis using m by (simp add: cursor_def)
  next
    case (Some x)
    then show ?thesis
      using m advance_to_ge[of "open_t + minutes interval" "minutes interval" "as_utc x"] by (simp add: cursor_def)
  qed
  have ids: "map fst ts = map (\<lambda>k. max_idx existing + 1 + int k) [0..<length ts]" unfolding ts_def by (rule ticks_idx)
  have above: "max_idx existing < i" if "(i, t) \<in> set ts" for i t
  proof -
    have "i \<in> set (map fst ts)" using that by force
    then show ?thesis unfolding ids by auto
  qed
  have fresh: "intraday_key en idx \<notin> sj_job_key ` set existing" by (rule key_unused) (simp add: idx_def)
  have form: "rows = map (tick_row en d) ts @ force_rows en d existing idx open_t close_t"
    using interval_rows_all[OF above] rows by (simp add: intraday_rows_def cursor_def ts_def idx_def Let_def)
  have key: "is_intraday_job en d (planned_job (intraday_key en i) d t)" if "0 \<le> i" for i t
    using intraday_key_like[OF that] by (simp add: is_intraday_job_def)
  have f: "force_rows en d existing idx open_t close_t =
      (if \<exists>r \<in> set existing. ?force \<le> as_utc (sj_planned_at r) \<and> as_utc (sj_planned_at r) < close_t then []
       else [planned_job (intraday_key en idx) d ?force])"
    using fresh open_t force_tick_before_close by (simp add: force_rows_def Let_def)
  show "\<forall>j \<in> set rows. sj_status j = ''planned'' \<and> is_intraday_job en d j
      \<and> open_t < as_utc (sj_planned_at j) \<and> as_utc (sj_planned_at j) < close_t"
  proof
    fix j assume "j \<in> set rows"
    then consider p where "p \<in> set ts" "j = tick_row en d p" | "j = planned_job (intraday_key en idx) d ?force"
      unfolding form f by (auto split: if_splits)
    then show "sj_status j = ''planned'' \<and> is_intraday_job en d j
      \<and> open_t < as_utc (sj_planned_at j) \<and> as_utc (sj_planned_at j) < close_t"
    proof cases
      case 1
      obtain i t where p: "p = (i, t)" by fastforce
      have "0 \<le> i" using above[of i t] max_idx_ge[of existing] 1 p by simp
      moreover have "cursor \<le> t \<and> t < close_t" using ticks_within[of i t] 1 p unfolding ts_def by blast
      ultimately show ?thesis using start key 1(2) p by (simp add: tick_row_def)
    next
      case 2
      have "0 \<le> idx" using max_idx_ge[of existing] by (simp add: idx_def)
      then show ?thesis using 2 key open_t force_tick_before_close by simp
    qed
  qed
  show "\<exists>j \<in> set existing \<union> set rows. ?force \<le> as_utc (sj_planned_at j) \<and> as_utc (sj_planned_at j) < close_t"
  proof (cases "\<exists>r \<in> set existing. ?force \<le> as_utc (sj_planned_at r) \<and> as_utc (sj_planned_at r) < close_t")
    case False
    then have "planned_job (intraday_key en idx) d ?force \<in> set rows" unfolding form f if_not_P[OF False] by simp
    then show ?thesis using force_tick_before_close by (intro bexI[of _ "planned_job (intraday_key en idx) d ?force"]) auto
  qed auto
qed

lemma plan_intraday_result:
  assumes "session_times en s = Some (open_t, close_t)" "dget (dd_runs db) d = Some r"
  obtains interval rows where "1 \<le> interval"
    "rows = intraday_rows en d (filter (is_intraday_job en d) (dd_jobs db)) interval nb open_t close_t"
    "fst (plan_intraday_jobs en d s nb db) = Inr (int (length rows))"
    "dd_jobs (snd (plan_intraday_jobs en d s nb db)) = dd_jobs db @ rows"
  using assms interval_pos[of en s db] that[of "resolve_intraday_interval en s db"]
  by (simp add: plan_intraday_jobs_def dbind_def dmodify_def dret_def edit_meta_def require_run_def Let_def)

text \<open>
  Property C22.  Planning a session adds only planned ticks strictly between the open and the close, reports how many
  it added, and afterwards some tick of the session lies in the last minutes before the close where
  positions are flattened, whatever rows, interval and starting time it began with.
\<close>

theorem planning_covers_close:
  assumes "session_times en s = Some (open_t, close_t)" "open_t < force_tick_at (en_cfg en) close_t"
    "dget (dd_runs db) d = Some r"
    "plan_intraday_jobs en d s nb db = (res, db')"
  shows "\<exists>rows. dd_jobs db' = dd_jobs db @ rows \<and> res = Inr (int (length rows))
    \<and> (\<forall>j \<in> set rows. sj_status j = ''planned'' \<and> is_intraday_job en d j
        \<and> open_t < as_utc (sj_planned_at j) \<and> as_utc (sj_planned_at j) < close_t)
    \<and> (\<exists>j \<in> set (dd_jobs db'). is_intraday_job en d j
        \<and> force_tick_at (en_cfg en) close_t \<le> as_utc (sj_planned_at j) \<and> as_utc (sj_planned_at j) < close_t)"
proof -
  let ?ex = "filter (is_intraday_job en d) (dd_jobs db)"
  obtain interval rows where p: "1 \<le> interval" "rows = intraday_rows en d ?ex interval nb open_t close_t"
    "res = Inr (int (length rows))" "dd_jobs db' = dd_jobs db @ rows"
    using plan_intraday_result[OF assms(1,3), of nb] assms(4) by (metis fst_conv snd_conv)
  note shape = intraday_rows_shape[OF p(1) assms(2) p(2)]
  obtain j where j: "j \<in> set ?ex \<union> set rows" "force_tick_at (en_cfg en) close_t \<le> as_utc (sj_planned_at j)"
    "as_utc (sj_planned_at j) < close_t" using shape(2) by blast
  have "j \<in> set (dd_jobs db')" "is_intraday_job en d j" using j(1) shape(1) p(4) by auto
  then show ?thesis using p(3,4) shape(1) j(2,3) by blast
qed

section \<open>A session on the sample calendar\<close>

definition sample_day_env :: day_env where
  "sample_day_env = \<lparr>en_cfg = default_settings, en_venue = US, en_calendar_name = ''NYSE'', en_cal = sample_calendar,
     en_controls = \<lparr>tc_state = ACTIVE, tc_reason = None, tc_changed_at = 0, tc_canceled_open_orders = False\<rparr>,
     en_owner = ''daily-workflow'', en_now = FRIDAY_1550,
     en_load_portfolio = (\<lambda>db r. Inr ()),
     en_collect = (\<lambda>db r. Inr \<lparr>co_fail_closed = False, co_fail_closed_reasons = [], co_collection_fail_closed = False\<rparr>),
     en_decide = (\<lambda>db r c. Inr \<lparr>de_completed_at = isoformat FRIDAY_1550, de_cio_action = ''BUY'', de_market_events = [],
       de_broker_orders_submitted = True\<rparr>),
     en_horizon_by_symbol = (\<lambda>db. Inr []), en_open_symbols = (\<lambda>db. Inr []), en_collection_universe = (\<lambda>db. Inr [])\<rparr>"

text \<open>Friday 6 March 2026 as a session day, its open and its close.\<close>

definition sample_day_run :: "DailyWorkflowState \<Rightarrow> day_run" where
  "sample_day_run st = \<lparr>dr_run = \<lparr>wr_session_date = 739681, wr_current_state = wf_value st, wr_status = run_value RUN_RUNNING,
       wr_version = 1, wr_failed_at = None, wr_failure_reason = None, wr_recovery_note = None\<rparr>,
     dr_started_at = None, dr_completed_at = None, dr_early_close = False, dr_market_open_at = None, dr_market_close_at = None,
     dr_revalidation_count = 0, dr_meta = empty_meta\<rparr>"

definition sample_day_db :: "DailyWorkflowState \<Rightarrow> day_db" where
  "sample_day_db st = \<lparr>dd_runs = [(739681, sample_day_run st)], dd_audit = [], dd_leases = [], dd_jobs = [],
     dd_revalidations = [], dd_analyses = []\<rparr>"

lemma sample_session_times:
  "session_times sample_day_env (get_session sample_calendar 739681) = Some (1772807400000000, 1772830800000000)"
  by code_simp

theorem planning_covers_close_witness:
  "\<exists>j \<in> set (dd_jobs (snd (plan_intraday_jobs sample_day_env 739681 (get_session sample_calendar 739681) None
       (sample_day_db WF_PREMARKET_PREPARATION)))). is_intraday_job sample_day_env 739681 j
     \<and> 1772830500000000 \<le> as_utc (sj_planned_at j) \<and> as_utc (sj_planned_at j) < 1772830800000000"
proof -
  have f: "force_tick_at (en_cfg sample_day_env) 1772830800000000 = 1772830500000000" by code_simp
  have r: "dget (dd_runs (sample_day_db WF_PREMARKET_PREPARATION)) 739681 = Some (sample_day_run WF_PREMARKET_PREPARATION)"
    by (simp add: sample_day_db_def)
  have o: "1772807400000000 < force_tick_at (en_cfg sample_day_env) 1772830800000000" by (simp add: f)
  show ?thesis
    using planning_covers_close[OF sample_session_times o r surjective_pairing, of None] unfolding f by blast
qed

end
