(* ===== verification/Daily_Workflow.thy ===== *)
theory Daily_Workflow
  imports Day_Jobs
begin

text \<open>
  \<open>app/workflow/revalidation.py\<close> and the orchestration of \<open>app/workflow/daily.py\<close>: preparing a day, the premarket
  analysis under its lease, the revalidation before the open with its bounded re-analysis, the catch-up of
  a late session and the entry into the intraday evaluation.  The load of the portfolio, the data collection and the agents
  are the parameters \<open>en_load_portfolio\<close>, \<open>en_collect\<close> and \<open>en_decide\<close>; \<open>decide_and_move\<close> names the rest of the
  analysis for the proofs only; every reading of the clock within one call is \<open>en_now\<close>.
\<close>

section \<open>Revalidation before the open\<close>

record reval_fixture =
  fx_force_holiday :: bool
  fx_hard_veto :: bool
  fx_material_conflict :: bool
  fx_high_importance_news :: bool
  fx_stale_data :: bool
  fx_restrict :: bool

definition no_fixture :: reval_fixture where
  "no_fixture = \<lparr>fx_force_holiday = False, fx_hard_veto = False, fx_material_conflict = False,
     fx_high_importance_news = False, fx_stale_data = False, fx_restrict = False\<rparr>"

record RevalidationReport =
  rr_result :: RevalidationResult
  rr_reason :: string
  rr_attempt :: int

definition report :: "RevalidationResult \<Rightarrow> string \<Rightarrow> int \<Rightarrow> RevalidationReport" where
  "report res reason attempt = \<lparr>rr_result = res, rr_reason = reason, rr_attempt = attempt\<rparr>"

text \<open>The instant a stored text stands for; a missing, empty or unreadable text is \<open>None\<close>.\<close>

definition stamp_of :: "string option \<Rightarrow> int option" where
  "stamp_of x = (case x of Some t \<Rightarrow> if t = [] then None else map_option as_utc (fromisoformat t) | None \<Rightarrow> None)"

definition is_new_event :: "int option \<Rightarrow> market_event \<Rightarrow> bool" where
  "is_new_event cutoff ev =
     (if truthy_str (me_incorporated_at ev) \<or> me_requires_reanalysis ev = Some False then False
      else case cutoff of
        None \<Rightarrow> me_requires_reanalysis ev = Some True
      | Some c \<Rightarrow>
          (let raw = (if truthy_str (me_detected_at ev) then me_detected_at ev else me_effective_at ev)
           in case stamp_of raw of None \<Rightarrow> False | Some ts \<Rightarrow> c < ts))"

definition pending_event :: "day_meta \<Rightarrow> bool" where
  "pending_event m \<longleftrightarrow> (\<exists>e \<in> set (dm_market_events m).
     me_requires_reanalysis e = Some True \<and> is_new_event (stamp_of (dm_analysis_completed_at m)) e)"

definition analysis_expired :: "settings \<Rightarrow> int \<Rightarrow> day_meta \<Rightarrow> bool" where
  "analysis_expired cfg now m = (case stamp_of (dm_analysis_completed_at m) of
     None \<Rightarrow> False | Some ts \<Rightarrow> minutes (cfg_analysis_decision_ttl_minutes cfg) < now - ts)"

definition revalidation_report ::
    "settings \<Rightarrow> MarketStatusSnapshot \<Rightarrow> int \<Rightarrow> reval_fixture \<Rightarrow> day_meta \<Rightarrow> int \<Rightarrow> RevalidationReport" where
  "revalidation_report cfg status now fx m attempt =
     (let retry = attempt \<le> cfg_max_revalidation_retries cfg + 1 in
      if fx_force_holiday fx then report RV_NO_TRADE ''fixture_force_holiday'' attempt
      else if \<not> mst_is_trading_day status then report RV_NO_TRADE ''non_trading_day'' attempt
      else if fx_hard_veto fx then report RV_NO_TRADE ''hard_veto_fixture'' attempt
      else if fx_material_conflict fx then report RV_NO_TRADE ''material_data_conflict'' attempt
      else if fx_high_importance_news fx then report RV_REANALYSIS_REQUIRED ''high_importance_news'' attempt
      else if fx_stale_data fx then report (if retry then RV_REANALYSIS_REQUIRED else RV_NO_TRADE) ''stale_data_fixture'' attempt
      else if analysis_expired cfg now m
      then (if retry then report RV_REANALYSIS_REQUIRED ''analysis_expired'' attempt
            else report RV_NO_TRADE ''revalidation_retries_exhausted'' attempt)
      else if pending_event m \<and> attempt \<le> cfg_max_revalidation_retries cfg
      then report RV_REANALYSIS_REQUIRED ''market_event_requires_reanalysis'' attempt
      else if dm_data_fail_closed m
      then report RV_NO_TRADE (''data_fail_closed:'' @ join_with '','' (dm_data_fail_closed_reasons m)) attempt
      else if dm_cio_action m \<in> {Some ''NO_TRADE'', Some ''STAY_CASH''} \<and> fx_restrict fx
      then report RV_VALID_WITH_RESTRICTIONS ''prior_no_trade_with_restrictions'' attempt
      else report RV_VALID ''ok'' attempt)"

definition persist_report :: "int \<Rightarrow> RevalidationReport \<Rightarrow> unit daym" where
  "persist_report d rep = dbind (require_run d) (\<lambda>r.
     dmodify (\<lambda>db. (put_run d (r\<lparr>dr_revalidation_count := dr_revalidation_count r + 1\<rparr>) db)
       \<lparr>dd_revalidations := dd_revalidations db @ [\<lparr>vr_result = rv_value (rr_result rep), vr_reason = rr_reason rep,
          vr_attempt = rr_attempt rep\<rparr>]\<rparr>))"

definition revalidate :: "day_env \<Rightarrow> reval_fixture \<Rightarrow> int \<Rightarrow> RevalidationReport daym" where
  "revalidate en fx d = dbind (require_run d) (\<lambda>r.
     (let rep = revalidation_report (en_cfg en) (get_market_status (en_cal en) (en_now en)) (en_now en) fx (dr_meta r)
                  (dr_revalidation_count r + 1)
      in dbind (persist_report d rep) (\<lambda>_. dret rep)))"

section \<open>Moving the run\<close>

definition move :: "day_env \<Rightarrow> int \<Rightarrow> DailyWorkflowState \<Rightarrow> string \<Rightarrow> string \<Rightarrow> unit daym" where
  "move en d to_state trigger reason = dbind (require_run d) (\<lambda>r db.
     case set_state (en_now en) to_state trigger reason (dr_run r, dd_audit db) of
       Inl e \<Rightarrow> (Inl e, db)
     | Inr (run', audit') \<Rightarrow> (Inr (), (put_run d (r\<lparr>dr_run := run'\<rparr>) db)\<lparr>dd_audit := audit'\<rparr>))"

definition lease_acquire :: "day_env \<Rightarrow> string \<Rightarrow> unit daym" where
  "lease_acquire en key db = (case acquire (en_cfg en) (en_now en) key (en_owner en) (dd_leases db) of
     Inl e \<Rightarrow> (Inl e, db) | Inr t \<Rightarrow> (Inr (), db\<lparr>dd_leases := t\<rparr>))"

text \<open>\<open>try: ... finally\<close> release the lease, whose own error is dropped.\<close>

definition lease_finally :: "day_env \<Rightarrow> string \<Rightarrow> 'a daym \<Rightarrow> 'a daym" where
  "lease_finally en key m db = (case m db of (res, db') \<Rightarrow>
     (case release key (en_owner en) (dd_leases db') of Inl e \<Rightarrow> (res, db') | Inr t \<Rightarrow> (res, db'\<lparr>dd_leases := t\<rparr>)))"

definition iso_day :: "int \<Rightarrow> string" where
  "iso_day d = date_iso (ord2ymd d)"

section \<open>Preparing a day\<close>

definition fresh_run :: "day_env \<Rightarrow> MarketSessionInfo \<Rightarrow> day_run" where
  "fresh_run en s =
     (let base = \<lparr>dr_run = \<lparr>wr_session_date = ms_session_date s, wr_current_state = wf_value WF_PREMARKET_PREPARATION,
                     wr_status = run_value RUN_RUNNING, wr_version = 1, wr_failed_at = None, wr_failure_reason = None,
                     wr_recovery_note = None\<rparr>,
                  dr_started_at = Some (en_now en), dr_completed_at = None, dr_early_close = ms_is_early_close s,
                  dr_market_open_at = ms_regular_open s, dr_market_close_at = ms_regular_close s,
                  dr_revalidation_count = 0, dr_meta = empty_meta\<rparr>
      in if ms_is_trading_day s then base
         else base\<lparr>dr_run := (dr_run base)\<lparr>wr_current_state := wf_value WF_NON_TRADING_DAY, wr_status := run_value RUN_COMPLETED\<rparr>,
                   dr_completed_at := Some (en_now en), dr_early_close := False,
                   dr_market_open_at := None, dr_market_close_at := None\<rparr>)"

definition prepare_body :: "day_env \<Rightarrow> int \<Rightarrow> string option daym" where
  "prepare_body en d db =
     (if ts_value (tc_state (en_controls en)) = ''emergency_stop'' then (Inl (DailyWorkflowError ''emergency_stop_active''), db)
      else case dget (dd_runs db) d of
        Some r \<Rightarrow> (Inr (Some ''already_prepared''), db)
      | None \<Rightarrow>
          (let s = get_session (en_cal en) d; r = fresh_run en s in
           if \<not> ms_is_trading_day s
           then dbind (dmodify (\<lambda>db. (put_run d (r\<lparr>dr_run := (dr_run r)\<lparr>wr_current_state := wf_value WF_COMPLETED\<rparr>\<rparr>) db)
                  \<lparr>dd_audit := dd_audit db @ [transition_row (en_now en) WF_NON_TRADING_DAY WF_COMPLETED ''prepare'' ''weekend_or_holiday'']\<rparr>))
                  (\<lambda>_. dbind (plan_jobs en d s) (\<lambda>_. dret None)) db
           else dbind (dmodify (put_run d r)) (\<lambda>_. dbind (plan_jobs en d s) (\<lambda>_. dret None)) db))"

definition prepare :: "day_env \<Rightarrow> int option \<Rightarrow> string option daym" where
  "prepare en day =
     (let d = current_day en day; key = ''daily:'' @ en_calendar_name en @ '':'' @ iso_day d @ '':prepare''
      in dbind (lease_acquire en key) (\<lambda>_. lease_finally en key (prepare_body en d)))"

section \<open>The premarket analysis\<close>

definition note_collected :: "collected \<Rightarrow> day_meta \<Rightarrow> day_meta" where
  "note_collected c m = m\<lparr>dm_data_fail_closed := co_fail_closed c,
     dm_data_fail_closed_reasons := (if co_fail_closed c then co_fail_closed_reasons c else [])\<rparr>"

definition note_decided :: "collected \<Rightarrow> decided \<Rightarrow> day_meta \<Rightarrow> day_meta" where
  "note_decided c de m =
     (let m' = m\<lparr>dm_analysis_completed_at := Some (de_completed_at de), dm_cio_action := Some (de_cio_action de),
                 dm_market_events := take 20 (de_market_events de)\<rparr>
      in if co_fail_closed c \<or> co_collection_fail_closed c
         then m'\<lparr>dm_no_trade_reason := Some (let t = join_with '','' (co_fail_closed_reasons c)
                                             in if t = [] then ''collection_fail_closed'' else t)\<rparr>
         else m')"

definition external_data_missing :: "settings \<Rightarrow> bool" where
  "external_data_missing cfg \<longleftrightarrow>
     \<not> cfg_enable_external_data cfg \<and> (cfg_enable_broker_orders cfg \<or> cfg_enable_automated_execution cfg)"

definition start_analysis :: "day_env \<Rightarrow> int \<Rightarrow> unit daym" where
  "start_analysis en d = dbind (require_run d) (\<lambda>r.
     (let st = wr_current_state (dr_run r) in
      if st = wf_value WF_PREMARKET_PREPARATION then move en d WF_PREMARKET_ANALYSIS ''run_analysis'' ''start_analysis''
      else if st \<in> {wf_value WF_PREMARKET_ANALYSIS, wf_value WF_PREOPEN_REVALIDATION} then dret ()
      else draise (DailyWorkflowError (''analysis_not_allowed_from:'' @ st))))"

definition collect_and_decide :: "day_env \<Rightarrow> int \<Rightarrow> decided daym" where
  "collect_and_decide en d =
     dbind (require_run d) (\<lambda>r.
     dbind (\<lambda>db. (en_collect en db r, db)) (\<lambda>c.
     dbind (edit_meta d (note_collected c)) (\<lambda>_.
     dbind (require_run d) (\<lambda>r.
     dbind (\<lambda>db. (en_decide en db r c, db)) (\<lambda>de.
     dbind (dmodify (\<lambda>db. db\<lparr>dd_analyses := dd_analyses db @ [de]\<rparr>)) (\<lambda>_.
     dbind (edit_meta d (note_decided c de)) (\<lambda>_. dret de)))))))"

text \<open>Whatever the portfolio load raises becomes an error of the workflow; other failures of the analysis do not.\<close>

definition load_portfolio :: "day_env \<Rightarrow> int \<Rightarrow> unit daym" where
  "load_portfolio en d = dbind (require_run d) (\<lambda>r db.
     (case en_load_portfolio en db r of
        Inl e \<Rightarrow> (Inl (DailyWorkflowError (''portfolio_sync_failed:'' @ err_str e)), db) | Inr u \<Rightarrow> (Inr u, db)))"

definition analysis_body :: "day_env \<Rightarrow> int \<Rightarrow> decided daym" where
  "analysis_body en d =
     dbind (start_analysis en d) (\<lambda>_.
     if external_data_missing (en_cfg en) then draise (DailyWorkflowError ''external_data_required_when_execution_armed'')
     else dbind (load_portfolio en d) (\<lambda>_.
          dbind (collect_and_decide en d) (\<lambda>de.
          dbind (move en d WF_PREOPEN_REVALIDATION ''run_analysis'' ''analysis_complete'') (\<lambda>_. dret de))))"

definition analysis_key :: "day_env \<Rightarrow> int \<Rightarrow> string" where
  "analysis_key en d = ''daily:'' @ venue_value (en_venue en) @ '':'' @ iso_day d @ '':analysis''"

definition run_analysis :: "day_env \<Rightarrow> int \<Rightarrow> decided daym" where
  "run_analysis en d =
     dbind (require_run d) (\<lambda>r.
     dbind (dlift (assert_not_blocked (en_controls en) (dr_run r))) (\<lambda>_.
     dbind (lease_acquire en (analysis_key en d)) (\<lambda>_. lease_finally en (analysis_key en d) (analysis_body en d))))"

section \<open>Revalidation of the day\<close>

definition mark_reanalysis_incorporated :: "int \<Rightarrow> day_meta \<Rightarrow> day_meta" where
  "mark_reanalysis_incorporated now m = m\<lparr>dm_market_events := map (\<lambda>ev.
     if me_requires_reanalysis ev = Some True
     then ev\<lparr>me_requires_reanalysis := Some False, me_incorporated_at := Some (isoformat now)\<rparr> else ev) (dm_market_events m)\<rparr>"

definition enter_market :: "day_env \<Rightarrow> int \<Rightarrow> string \<Rightarrow> string \<Rightarrow> unit daym" where
  "enter_market en d open_reason enter_reason =
     dbind (move en d WF_MARKET_OPEN ''revalidate'' open_reason) (\<lambda>_. move en d WF_INTRADAY ''revalidate'' enter_reason)"

definition set_no_trade :: "string \<Rightarrow> day_meta \<Rightarrow> day_meta" where
  "set_no_trade reason m = m\<lparr>dm_no_trade_reason := Some reason\<rparr>"

text \<open>A fresh analysis followed by \<open>next_call\<close>.\<close>

definition reanalyse :: "day_env \<Rightarrow> int \<Rightarrow> 'a daym \<Rightarrow> 'a daym" where
  "reanalyse en d next_call =
     dbind (move en d WF_PREMARKET_ANALYSIS ''revalidate'' ''reanalysis_required'') (\<lambda>_.
     dbind (run_analysis en d) (\<lambda>_.
     dbind (edit_meta d (mark_reanalysis_incorporated (en_now en))) (\<lambda>_. next_call)))"

definition enter_without_trades :: "day_env \<Rightarrow> int \<Rightarrow> string \<Rightarrow> string \<Rightarrow> string \<Rightarrow> unit daym" where
  "enter_without_trades en d why open_reason enter_reason =
     dbind (edit_meta d (set_no_trade why)) (\<lambda>_. enter_market en d open_reason enter_reason)"

text \<open>What follows a report; \<open>again\<close> is the call after a fresh analysis, \<open>None\<close> once the depth is reached.\<close>

definition act_on_report :: "day_env \<Rightarrow> int \<Rightarrow> RevalidationReport daym option \<Rightarrow> RevalidationReport \<Rightarrow> RevalidationReport daym" where
  "act_on_report en d again rep =
     (if rr_result rep = RV_REANALYSIS_REQUIRED
      then (case (if rr_attempt rep > cfg_max_revalidation_retries (en_cfg en) then None else again) of
              None \<Rightarrow> dbind (enter_without_trades en d (''reanalysis_unresolved:'' @ rr_reason rep)
                        ''reanalysis_unresolved_enter'' ''enter_intraday_after_reanalysis_limit'') (\<lambda>_. dret rep)
            | Some next_call \<Rightarrow> reanalyse en d next_call)
      else if rr_result rep \<in> {RV_VALID, RV_VALID_WITH_RESTRICTIONS}
      then dbind (enter_market en d (rv_value (rr_result rep)) ''enter_intraday'') (\<lambda>_. dret rep)
      else if rr_result rep = RV_NO_TRADE
      then dbind (enter_without_trades en d (rr_reason rep) ''no_trade_carry'' ''enter_intraday_no_trade'') (\<lambda>_. dret rep)
      else dbind (move en d WF_FAILED ''revalidate'' (rr_reason rep)) (\<lambda>_. dret rep))"

definition settle_step :: "day_env \<Rightarrow> int \<Rightarrow> reval_fixture \<Rightarrow> RevalidationReport daym option \<Rightarrow> RevalidationReport daym" where
  "settle_step en d fx again =
     dbind (require_run d) (\<lambda>r.
     dbind (dlift (assert_not_blocked (en_controls en) (dr_run r))) (\<lambda>_.
     if wr_current_state (dr_run r) \<noteq> wf_value WF_PREOPEN_REVALIDATION
     then draise (DailyWorkflowError (''revalidate_not_allowed_from:'' @ wr_current_state (dr_run r)))
     else dbind (revalidate en fx d) (act_on_report en d again)))"

text \<open>The depth of re-entry counts up to two; here the calls that are left count down to none.\<close>

primrec settle :: "day_env \<Rightarrow> int \<Rightarrow> nat \<Rightarrow> reval_fixture \<Rightarrow> RevalidationReport daym" where
  "settle en d 0 fx = settle_step en d fx None"
| "settle en d (Suc n) fx = settle_step en d fx (Some (settle en d n no_fixture))"

definition day_revalidate :: "day_env \<Rightarrow> int \<Rightarrow> reval_fixture \<Rightarrow> RevalidationReport daym" where
  "day_revalidate en d fx = settle en d 2 fx"

section \<open>Catching up\<close>

definition market_needs_intraday :: "day_env \<Rightarrow> bool" where
  "market_needs_intraday en =
     (let status = get_market_status (en_cal en) (en_now en) in
      mst_is_trading_day status
      \<and> (mst_phase status \<in> {''REGULAR'', ''FORCE_CLOSE_WINDOW'', ''CLOSING_WINDOW''}
         \<or> mst_in_closing_window status \<or> mst_in_force_close_window status))"

definition should_catch_up_session :: "day_env \<Rightarrow> string \<Rightarrow> bool" where
  "should_catch_up_session en st =
     (let status = get_market_status (en_cal en) (en_now en); cfg = en_cfg en in
      if st \<notin> {wf_value WF_PREMARKET_PREPARATION, wf_value WF_PREMARKET_ANALYSIS, wf_value WF_PREOPEN_REVALIDATION} then False
      else if market_needs_intraday en then True
      else if \<not> mst_is_trading_day status then False
      else case mst_minutes_to_open status of
        None \<Rightarrow> False
      | Some mins \<Rightarrow>
          mins \<le> of_int (cfg_preopen_revalidation_minutes_before_open cfg)
          \<or> (st = wf_value WF_PREMARKET_PREPARATION \<and> mins \<le> of_int (cfg_premarket_analysis_minutes_before_open cfg)))"

definition in_market :: "string \<Rightarrow> bool" where
  "in_market st \<longleftrightarrow> st \<in> {wf_value WF_INTRADAY, wf_value WF_MARKET_OPEN}"

definition when_state :: "int \<Rightarrow> DailyWorkflowState \<Rightarrow> unit daym \<Rightarrow> unit daym" where
  "when_state d st m = dbind (require_run d) (\<lambda>r. if wr_current_state (dr_run r) = wf_value st then m else dret ())"

definition enter_intraday_after_failed_prep :: "day_env \<Rightarrow> int \<Rightarrow> string \<Rightarrow> day_run daym" where
  "enter_intraday_after_failed_prep en d reason =
     dbind (require_run d) (\<lambda>r.
     if in_market (wr_current_state (dr_run r)) then dret r
     else dbind (edit_meta d (\<lambda>m. m\<lparr>dm_no_trade_reason := Some (take 240 reason), dm_catch_up_incomplete := Some (take 240 reason)\<rparr>)) (\<lambda>_.
          dbind (when_state d WF_PREMARKET_PREPARATION (move en d WF_PREMARKET_ANALYSIS ''catch_up'' ''failed_prep_enter'')) (\<lambda>_.
          dbind (when_state d WF_PREMARKET_ANALYSIS (move en d WF_PREOPEN_REVALIDATION ''catch_up'' ''analysis_failed_enter'')) (\<lambda>_.
          dbind (when_state d WF_PREOPEN_REVALIDATION (dbind (day_revalidate en d no_fixture) (\<lambda>_. dret ()))) (\<lambda>_.
            require_run d)))))"

definition mark_catch_up_jobs :: "day_env \<Rightarrow> int \<Rightarrow> string list \<Rightarrow> string list daym" where
  "mark_catch_up_jobs en d steps db =
     (let keys = (if ''revalidate'' \<in> set steps then [jk en ''premarket_analysis'', jk en ''preopen_revalidation'']
                  else if ''analysis'' \<in> set steps then [jk en ''premarket_analysis''] else []);
          (marked, js) = complete_planned_jobs (en_now en) d keys (dd_jobs db)
      in (Inr marked, db\<lparr>dd_jobs := js\<rparr>))"

definition cooling_down :: "day_env \<Rightarrow> day_meta \<Rightarrow> bool" where
  "cooling_down en m = (case stamp_of (dm_last_catch_up_at m) of
     None \<Rightarrow> False
   | Some ts \<Rightarrow> minutes_between (en_now en) ts < of_int (max 5 (cfg_min_reevaluation_gap_minutes (en_cfg en))))"

text \<open>The reason the call reports.  Only a \<open>DailyWorkflowError\<close> is caught.\<close>

definition try_daily :: "'a daym \<Rightarrow> (string \<Rightarrow> 'a daym) \<Rightarrow> 'a daym" where
  "try_daily m h db = (case m db of (Inl (DailyWorkflowError e), db') \<Rightarrow> h e db' | res \<Rightarrow> res)"

definition catch_up_settle :: "day_env \<Rightarrow> int \<Rightarrow> string list \<Rightarrow> string daym" where
  "catch_up_settle en d steps = dbind (require_run d) (\<lambda>r.
     if wr_current_state (dr_run r) = wf_value WF_PREOPEN_REVALIDATION
     then dbind (day_revalidate en d no_fixture) (\<lambda>_.
          dbind (mark_catch_up_jobs en d (steps @ [''revalidate''])) (\<lambda>_. dret ''advanced''))
     else dbind (mark_catch_up_jobs en d steps) (\<lambda>_. dret ''partial''))"

definition catch_up_advance :: "day_env \<Rightarrow> int \<Rightarrow> string daym" where
  "catch_up_advance en d =
     dbind (edit_meta d (\<lambda>m. m\<lparr>dm_last_catch_up_at := Some (isoformat (en_now en))\<rparr>)) (\<lambda>_.
     dbind (require_run d) (\<lambda>r.
     if wr_current_state (dr_run r) \<in> {wf_value WF_PREMARKET_PREPARATION, wf_value WF_PREMARKET_ANALYSIS}
     then dbind (try_daily (dbind (run_analysis en d) (\<lambda>_. dret None)) (\<lambda>e.
                  if \<not> market_needs_intraday en then draise (DailyWorkflowError e) else dret (Some e))) (\<lambda>failed.
          case failed of
            None \<Rightarrow> catch_up_settle en d [''analysis'']
          | Some e \<Rightarrow> dbind (enter_intraday_after_failed_prep en d e) (\<lambda>_.
                      dbind (mark_catch_up_jobs en d [''analysis'', ''revalidate'']) (\<lambda>_. dret ''analysis_failed_enter'')))
     else catch_up_settle en d []))"

definition catch_up_run :: "day_env \<Rightarrow> int \<Rightarrow> bool \<Rightarrow> string daym" where
  "catch_up_run en d forced =
     dbind (require_run d) (\<lambda>r.
     dbind (dlift (assert_not_blocked (en_controls en) (dr_run r))) (\<lambda>_.
     (let st = wr_current_state (dr_run r) in
      if in_market st then dbind (mark_catch_up_jobs en d [''revalidate'']) (\<lambda>_. dret ''already_ready'')
      else if \<not> forced \<and> \<not> should_catch_up_session en st then dret ''not_near_or_in_session''
      else if \<not> forced \<and> \<not> market_needs_intraday en \<and> cooling_down en (dr_meta r) then dret ''catch_up_cooldown''
      else catch_up_advance en d)))"

definition catch_up_to_intraday :: "day_env \<Rightarrow> int option \<Rightarrow> bool \<Rightarrow> string daym" where
  "catch_up_to_intraday en day forced db =
     (let d = current_day en day in
      case dget (dd_runs db) d of
        None \<Rightarrow> dbind (prepare en day) (\<lambda>_. catch_up_run en d forced) db
      | Some r \<Rightarrow> catch_up_run en d forced db)"

section \<open>Entering the intraday evaluation and closing\<close>

definition closing_started :: "string \<Rightarrow> bool" where
  "closing_started st \<longleftrightarrow> st \<in> wf_value ` {WF_CLOSING_WINDOW, WF_MARKET_CLOSED, WF_POSTMARKET_REVIEW, WF_COMPLETED}"

definition evaluate_intraday_entry :: "day_env \<Rightarrow> int option \<Rightarrow> day_run daym" where
  "evaluate_intraday_entry en day =
     (let d = current_day en day; tape_live = market_needs_intraday en in
      dbind (require_run d) (\<lambda>r.
      dbind (dlift (assert_not_blocked (en_controls en) (dr_run r))) (\<lambda>_.
      if closing_started (wr_current_state (dr_run r))
      then draise (DailyWorkflowError (''intraday_not_allowed_from:'' @ wr_current_state (dr_run r)))
      else if in_market (wr_current_state (dr_run r)) then dret r
      else dbind (try_daily (catch_up_to_intraday en (Some d) tape_live) (\<lambda>e.
                    if \<not> tape_live then draise (DailyWorkflowError e)
                    else dbind (enter_intraday_after_failed_prep en d e) (\<lambda>_. dret ''analysis_failed_enter''))) (\<lambda>reason.
           dbind (require_run d) (\<lambda>r.
           dbind (if \<not> in_market (wr_current_state (dr_run r)) \<and> tape_live
                  then enter_intraday_after_failed_prep en d reason else dret r) (\<lambda>r.
           if in_market (wr_current_state (dr_run r)) then dret r
           else draise (DailyWorkflowError (''intraday_not_allowed_from:'' @ wr_current_state (dr_run r)))))))))"

definition enter_closing :: "day_env \<Rightarrow> int option \<Rightarrow> unit daym" where
  "enter_closing en day =
     (let d = current_day en day in
      dbind (require_run d) (\<lambda>r.
      dbind (dlift (assert_not_blocked (en_controls en) (dr_run r))) (\<lambda>_.
      (let st = wr_current_state (dr_run r) in
       if st \<notin> {wf_value WF_INTRADAY, wf_value WF_MARKET_OPEN, wf_value WF_CLOSING_WINDOW}
       then draise (DailyWorkflowError (''closing_not_allowed_from:'' @ st))
       else if st \<noteq> wf_value WF_CLOSING_WINDOW then move en d WF_CLOSING_WINDOW ''start_closing'' ''enter'' else dret ()))))"

section \<open>Reasoning about steps that may raise\<close>

definition wp :: "'a daym \<Rightarrow> ('a py \<Rightarrow> day_db \<Rightarrow> bool) \<Rightarrow> day_db \<Rightarrow> bool" where
  "wp m Q db = (case m db of (res, db') \<Rightarrow> Q res db')"

named_theorems wp_simps

lemma wp_ret [wp_simps]: "wp (dret a) Q db = Q (Inr a) db"
  by (simp add: wp_def dret_def)

lemma wp_raise [wp_simps]: "wp (draise e) Q db = Q (Inl e) db"
  by (simp add: wp_def draise_def)

lemma wp_lift [wp_simps]: "wp (dlift x) Q db = Q x db"
  by (simp add: wp_def dlift_def)

lemma wp_modify [wp_simps]: "wp (dmodify f) Q db = Q (Inr ()) (f db)"
  by (simp add: wp_def dmodify_def)

lemma wp_read [wp_simps]: "wp (\<lambda>db. (g db, db)) Q db = Q (g db) db"
  by (simp add: wp_def)

lemma wp_bind [wp_simps]:
  "wp (dbind m f) Q db = wp m (\<lambda>res db'. case res of Inl e \<Rightarrow> Q (Inl e) db' | Inr a \<Rightarrow> wp (f a) Q db') db"
  by (simp add: wp_def dbind_def split: prod.split sum.split)

lemma wp_mono: "wp m Q db \<Longrightarrow> (\<And>res db'. Q res db' \<Longrightarrow> R res db') \<Longrightarrow> wp m R db"
  by (auto simp: wp_def)

lemma wp_conj: "wp m Q db \<Longrightarrow> wp m R db \<Longrightarrow> wp m (\<lambda>res db'. Q res db' \<and> R res db') db"
  by (auto simp: wp_def)

lemma wp_eq: "wp m (\<lambda>res db'. m db = (res, db')) db"
  by (simp add: wp_def split: prod.split)

text \<open>The run of the day, its state, and what the premarket operations leave alone.\<close>

definition run_at :: "int \<Rightarrow> day_db \<Rightarrow> day_run \<Rightarrow> bool" where
  "run_at d db r \<longleftrightarrow> dget (dd_runs db) d = Some r"

abbreviation state_of :: "day_run \<Rightarrow> string" where
  "state_of r \<equiv> wr_current_state (dr_run r)"

lemma run_at_put [simp]: "run_at d (put_run d r db) r' \<longleftrightarrow> r' = r"
  by (auto simp: run_at_def put_run_def)

lemma put_run_fields [simp]:
  "dd_audit (put_run d r db) = dd_audit db" "dd_leases (put_run d r db) = dd_leases db"
  "dd_revalidations (put_run d r db) = dd_revalidations db" "dd_analyses (put_run d r db) = dd_analyses db"
  by (simp_all add: put_run_def)

lemma run_at_fields [simp]:
  "run_at d (db\<lparr>dd_audit := x\<rparr>) r = run_at d db r" "run_at d (db\<lparr>dd_leases := y\<rparr>) r = run_at d db r"
  "run_at d (db\<lparr>dd_jobs := z\<rparr>) r = run_at d db r" "run_at d (db\<lparr>dd_revalidations := v\<rparr>) r = run_at d db r"
  "run_at d (db\<lparr>dd_analyses := w\<rparr>) r = run_at d db r"
  by (simp_all add: run_at_def)

lemma wp_require_run: "run_at d db r \<Longrightarrow> wp (require_run d) Q db = Q (Inr r) db"
  by (simp add: wp_def require_run_def run_at_def)

lemma wp_edit_meta:
  "run_at d db r \<Longrightarrow> wp (edit_meta d f) Q db = Q (Inr ()) (put_run d (r\<lparr>dr_meta := f (dr_meta r)\<rparr>) db)"
  by (simp add: edit_meta_def wp_simps wp_require_run)

lemma wp_edit_meta_at:
  assumes "run_at d db r"
    and "\<And>db'. run_at d db' (r\<lparr>dr_meta := f (dr_meta r)\<rparr>) \<Longrightarrow> dd_leases db' = dd_leases db \<Longrightarrow> dd_analyses db' = dd_analyses db \<Longrightarrow> Q (Inr ()) db'"
  shows "wp (edit_meta d f) Q db"
  using assms by (simp add: wp_edit_meta)

text \<open>The run after a permitted move.\<close>

definition moved :: "day_env \<Rightarrow> DailyWorkflowState \<Rightarrow> string \<Rightarrow> day_run \<Rightarrow> day_run" where
  "moved en st reason r =
     (let run = (dr_run r)\<lparr>wr_current_state := wf_value st, wr_version := wr_version (dr_run r) + 1\<rparr>
      in r\<lparr>dr_run := (if st = WF_FAILED then run\<lparr>wr_status := run_value RUN_FAILED, wr_failed_at := Some (en_now en),
                                             wr_failure_reason := Some reason\<rparr> else run)\<rparr>)"

lemma moved_sel [simp]: "state_of (moved en st reason r) = wf_value st"
  "dr_meta (moved en st reason r) = dr_meta r" "dr_revalidation_count (moved en st reason r) = dr_revalidation_count r"
  by (simp_all add: moved_def Let_def)

lemma move_at: "run_at d db r \<Longrightarrow> move en d to_state trigger reason db =
  (case set_state (en_now en) to_state trigger reason (dr_run r, dd_audit db) of
     Inl e \<Rightarrow> (Inl e, db)
   | Inr (run', audit') \<Rightarrow> (Inr (), (put_run d (r\<lparr>dr_run := run'\<rparr>) db)\<lparr>dd_audit := audit'\<rparr>))"
  by (simp add: move_def dbind_def require_run_def run_at_def)

lemma wp_move:
  assumes "run_at d db r" "state_of r = wf_value st" "to_state \<in> set (ALLOWED_TRANSITIONS st)"
    and "\<And>db'. run_at d db' (moved en to_state reason r) \<Longrightarrow> dd_leases db' = dd_leases db \<Longrightarrow> dd_analyses db' = dd_analyses db
      \<Longrightarrow> dd_jobs db' = dd_jobs db \<Longrightarrow> Q (Inr ()) db'"
  shows "wp (move en d to_state trigger reason) Q db"
proof -
  have "wp (move en d to_state trigger reason) Q db
    = Q (Inr ()) ((put_run d (moved en to_state reason r) db)\<lparr>dd_audit := dd_audit db @ [transition_row (en_now en) st to_state trigger reason]\<rparr>)"
    using assms(2,3) by (simp add: wp_def move_at[OF assms(1)] set_state_def assert_transition_allowed_def moved_def Let_def)
  then show ?thesis using assms(4) by simp
qed

lemma wp_move_illegal:
  assumes "run_at d db r" "state_of r = wf_value st" "to_state \<notin> set (ALLOWED_TRANSITIONS st)"
  shows "wp (move en d to_state trigger reason) Q db
    = Q (Inl (ValueError (''illegal_transition:'' @ wf_value st @ ''->'' @ wf_value to_state))) db"
  using assms(2,3) by (simp add: wp_def move_at[OF assms(1)] set_state_def assert_transition_allowed_def)

text \<open>Whether the controls let the day go on, and whether the lease of the analysis can be had.\<close>

definition controls_open :: "day_env \<Rightarrow> bool" where
  "controls_open en \<longleftrightarrow> tc_state (en_controls en) = ACTIVE"

lemma not_blocked:
  assumes "controls_open en" "state_of r = wf_value st" "st \<noteq> WF_EMERGENCY_STOP" "st \<noteq> WF_PAUSED"
  shows "assert_not_blocked (en_controls en) (dr_run r) = Inr ()"
  using assms wf_value_inj[of st WF_EMERGENCY_STOP] wf_value_inj[of st WF_PAUSED]
  by (auto simp: assert_not_blocked_def controls_open_def)

definition lease_free :: "day_env \<Rightarrow> int \<Rightarrow> day_db \<Rightarrow> bool" where
  "lease_free en d db \<longleftrightarrow> dict_ok (dd_leases db) \<and> (case dget (dd_leases db) (analysis_key en d) of
     None \<Rightarrow> True | Some l \<Rightarrow> as_utc (wl_expires_at l) \<le> en_now en \<or> wl_owner l = en_owner en)"

lemma lease_free_cong: "dd_leases db' = dd_leases db \<Longrightarrow> lease_free en d db' = lease_free en d db"
  by (simp add: lease_free_def)

lemma wp_lease_acquire:
  assumes "lease_free en d db"
    and "\<And>db'. dd_runs db' = dd_runs db \<Longrightarrow> dd_analyses db' = dd_analyses db \<Longrightarrow> lease_free en d db' \<Longrightarrow> Q (Inr ()) db'"
  shows "wp (lease_acquire en (analysis_key en d)) Q db"
proof -
  have "acquire (en_cfg en) (en_now en) (analysis_key en d) (en_owner en) (dd_leases db)
      = Inr (dset (dd_leases db) (analysis_key en d) (new_lease (en_cfg en) (en_now en) (en_owner en)))"
    using assms(1) by (auto simp: lease_free_def acquire_def split: option.splits)
  moreover have "lease_free en d (db\<lparr>dd_leases := dset (dd_leases db) (analysis_key en d) (new_lease (en_cfg en) (en_now en) (en_owner en))\<rparr>)"
    using assms(1) by (simp add: lease_free_def new_lease_def)
  ultimately show ?thesis using assms(2) by (simp add: wp_def lease_acquire_def)
qed

lemma wp_lease_acquire_any:
  assumes "\<And>e. Q (Inl e) db"
    and "\<And>t. Q (Inr ()) (db\<lparr>dd_leases := t\<rparr>)"
  shows "wp (lease_acquire en key) Q db"
  using assms by (simp add: wp_def lease_acquire_def split: sum.split)

lemma wp_lease_finally:
  assumes "wp m (\<lambda>res db'. \<forall>t. (lease_free en d db' \<longrightarrow> lease_free en d (db'\<lparr>dd_leases := t\<rparr>)) \<longrightarrow> Q res (db'\<lparr>dd_leases := t\<rparr>)) db"
  shows "wp (lease_finally en (analysis_key en d) m) Q db"
proof -
  obtain res db' where m: "m db = (res, db')" by fastforce
  have q: "Q res (db'\<lparr>dd_leases := t\<rparr>)" if "lease_free en d db' \<longrightarrow> lease_free en d (db'\<lparr>dd_leases := t\<rparr>)" for t
    using assms that by (simp add: wp_def m)
  show ?thesis
  proof (cases "release (analysis_key en d) (en_owner en) (dd_leases db')")
    case (Inl e)
    then show ?thesis using q[of "dd_leases db'"] by (simp add: wp_def lease_finally_def m)
  next
    case (Inr t)
    have "lease_free en d (db'\<lparr>dd_leases := t\<rparr>)" if "lease_free en d db'"
      using Inr that by (auto simp: release_def lease_free_def dget_dpop split: option.splits if_splits)
    then show ?thesis using q[of t] Inr by (simp add: wp_def lease_finally_def m)
  qed
qed

section \<open>The analysis\<close>

definition services_ok :: "day_env \<Rightarrow> bool" where
  "services_ok en \<longleftrightarrow> \<not> external_data_missing (en_cfg en) \<and> (\<forall>db r. en_load_portfolio en db r = Inr ()) \<and> (\<forall>db r. \<exists>c. en_collect en db r = Inr c)
     \<and> (\<forall>db r c. \<exists>de. en_decide en db r c = Inr de)"

text \<open>The broker is down: every load of the portfolio raises, with whatever error.\<close>

definition broker_down :: "day_env \<Rightarrow> bool" where
  "broker_down en \<longleftrightarrow> (\<forall>db r. \<exists>e. en_load_portfolio en db r = Inl e)"

abbreviation findings_of :: "day_run \<Rightarrow> string option \<times> market_event list" where
  "findings_of r \<equiv> (dm_analysis_completed_at (dr_meta r), dm_market_events (dr_meta r))"

lemma note_collected_findings [simp]:
  "dm_analysis_completed_at (note_collected c m) = dm_analysis_completed_at m"
  "dm_market_events (note_collected c m) = dm_market_events m"
  by (simp_all add: note_collected_def)

lemma wp_collect_and_decide:
  assumes at: "run_at d db r"
    and bad: "\<And>e db' r'. run_at d db' r' \<Longrightarrow> state_of r' = state_of r \<Longrightarrow> dr_revalidation_count r' = dr_revalidation_count r
      \<Longrightarrow> findings_of r' = findings_of r \<Longrightarrow> dd_leases db' = dd_leases db \<Longrightarrow> dd_analyses db' = dd_analyses db
      \<Longrightarrow> (\<exists>db r. en_collect en db r = Inl e) \<or> (\<exists>db r c. en_collect en db r = Inr c) \<and> (\<exists>db r c. en_decide en db r c = Inl e)
      \<Longrightarrow> Q (Inl e) db'"
    and good: "\<And>de db' r'. run_at d db' r' \<Longrightarrow> state_of r' = state_of r \<Longrightarrow> dr_revalidation_count r' = dr_revalidation_count r
      \<Longrightarrow> dd_leases db' = dd_leases db \<Longrightarrow> dd_analyses db' = dd_analyses db @ [de] \<Longrightarrow> \<exists>db r c. en_collect en db r = Inr c
      \<Longrightarrow> Q (Inr de) db'"
  shows "wp (collect_and_decide en d) Q db"
proof (cases "en_collect en db r")
  case (Inl e)
  then have "Q (Inl e) db" by (intro bad[OF at]) auto
  then show ?thesis using Inl at by (simp add: collect_and_decide_def wp_simps wp_require_run)
next
  case (Inr c)
  let ?r = "r\<lparr>dr_meta := note_collected c (dr_meta r)\<rparr>" and ?db = "put_run d (r\<lparr>dr_meta := note_collected c (dr_meta r)\<rparr>) db"
  have at1: "run_at d ?db ?r" by simp
  show ?thesis
  proof (cases "en_decide en ?db ?r c")
    case (Inl e)
    then have "Q (Inl e) ?db" using Inr by (intro bad[OF at1]) auto
    then show ?thesis using Inl Inr at
      by (simp add: collect_and_decide_def wp_simps wp_require_run[OF at] wp_edit_meta[OF at] wp_require_run[OF at1])
  next
    case (Inr de)
    let ?db2 = "?db\<lparr>dd_analyses := dd_analyses db @ [de]\<rparr>"
    have at2: "run_at d ?db2 ?r" by simp
    have "Q (Inr de) (put_run d (?r\<lparr>dr_meta := note_decided c de (dr_meta ?r)\<rparr>) ?db2)"
      by (rule good[where r' = "?r\<lparr>dr_meta := note_decided c de (dr_meta ?r)\<rparr>"]) (use \<open>en_collect en db r = Inr c\<close> in auto)
    then show ?thesis using Inr \<open>en_collect en db r = Inr c\<close>
      by (simp add: collect_and_decide_def wp_simps wp_require_run[OF at] wp_edit_meta[OF at] wp_require_run[OF at1] wp_edit_meta[OF at2])
  qed
qed

text \<open>How an analysis that is due ends: with a decision before the open, or with an error and no decision.\<close>

definition analysis_end :: "day_env \<Rightarrow> int \<Rightarrow> day_run \<Rightarrow> day_db \<Rightarrow> decided py \<Rightarrow> day_db \<Rightarrow> bool" where
  "analysis_end en d r db res db' \<longleftrightarrow> (\<exists>r'. run_at d db' r' \<and> dr_revalidation_count r' = dr_revalidation_count r
     \<and> (case res of
          Inr de \<Rightarrow> state_of r' = wf_value WF_PREOPEN_REVALIDATION \<and> dd_analyses db' = dd_analyses db @ [de]
        | Inl e \<Rightarrow> state_of r' \<in> {state_of r, wf_value WF_PREMARKET_ANALYSIS} \<and> dd_analyses db' = dd_analyses db
            \<and> findings_of r' = findings_of r \<and> (lease_free en d db \<longrightarrow> state_of r' = wf_value WF_PREMARKET_ANALYSIS)))
     \<and> (broker_down en \<and> lease_free en d db \<longrightarrow> (\<exists>m. res = Inl (DailyWorkflowError m)))
     \<and> (lease_free en d db \<longrightarrow> lease_free en d db')
     \<and> (services_ok en \<and> lease_free en d db \<longrightarrow> (\<exists>de. res = Inr de))"

definition decide_and_move :: "day_env \<Rightarrow> int \<Rightarrow> decided daym" where
  "decide_and_move en d = dbind (collect_and_decide en d) (\<lambda>de.
     dbind (move en d WF_PREOPEN_REVALIDATION ''run_analysis'' ''analysis_complete'') (\<lambda>_. dret de))"

lemma wp_load_portfolio:
  assumes "run_at d db r"
  shows "wp (load_portfolio en d) Q db \<longleftrightarrow>
    (case en_load_portfolio en db r of Inl e \<Rightarrow> Q (Inl (DailyWorkflowError (''portfolio_sync_failed:'' @ err_str e))) db | Inr u \<Rightarrow> Q (Inr u) db)"
  using assms by (simp add: load_portfolio_def wp_def dbind_def require_run_def run_at_def split: sum.split)

lemma wp_decide_and_move:
  assumes at1: "run_at d db1 r1" and s1: "state_of r1 = wf_value WF_PREMARKET_ANALYSIS" "dr_revalidation_count r1 = dr_revalidation_count r"
      "findings_of r1 = findings_of r" "dd_leases db1 = dd_leases db" "dd_analyses db1 = dd_analyses db"
    and up: "\<not> broker_down en"
  shows "wp (decide_and_move en d) (analysis_end en d r db) db1"
proof -
  have "wp (collect_and_decide en d) (\<lambda>res db'. case res of Inl e \<Rightarrow> analysis_end en d r db (Inl e) db'
      | Inr de \<Rightarrow> wp (dbind (move en d WF_PREOPEN_REVALIDATION ''run_analysis'' ''analysis_complete'') (\<lambda>_. dret de)) (analysis_end en d r db) db') db1"
  proof (rule wp_collect_and_decide[OF at1], goal_cases)
    case (1 e db' r')
    have "\<not> services_ok en" using 1(7) unfolding services_ok_def by (metis Inr_not_Inl)
    moreover have "lease_free en d db' = lease_free en d db" using 1(5) s1(4) by (intro lease_free_cong) simp
    ultimately show ?case using 1 s1 up by (auto simp: analysis_end_def)
  next
    case (2 de db' r')
    have "wp (move en d WF_PREOPEN_REVALIDATION ''run_analysis'' ''analysis_complete'')
        (\<lambda>res db'. case res of Inl e \<Rightarrow> analysis_end en d r db (Inl e) db' | Inr _ \<Rightarrow> analysis_end en d r db (Inr de) db') db'"
    proof (rule wp_move[OF 2(1)])
      show "state_of r' = wf_value WF_PREMARKET_ANALYSIS" using 2(2) s1(1) by simp
      fix db2 assume m: "run_at d db2 (moved en WF_PREOPEN_REVALIDATION ''analysis_complete'' r')" "dd_leases db2 = dd_leases db'"
        "dd_analyses db2 = dd_analyses db'"
      have "lease_free en d db2 = lease_free en d db" using m(2) 2(4) s1(4) by (intro lease_free_cong) simp
      then show "case (Inr () :: unit py) of Inl e \<Rightarrow> analysis_end en d r db (Inl e) db2 | Inr _ \<Rightarrow> analysis_end en d r db (Inr de) db2"
        using m 2 s1 up by (auto simp: analysis_end_def)
    qed simp
    then show ?case by (simp add: wp_simps cong: sum.case_cong)
  qed
  then show ?thesis by (simp add: decide_and_move_def wp_simps)
qed

lemma wp_analysis_body:
  assumes at: "run_at d db r"
    and st: "state_of r \<in> {wf_value WF_PREMARKET_PREPARATION, wf_value WF_PREMARKET_ANALYSIS}"
  shows "wp (analysis_body en d) (analysis_end en d r db) db"
proof -
  let ?rest = "if external_data_missing (en_cfg en) then draise (DailyWorkflowError ''external_data_required_when_execution_armed'')
       else dbind (load_portfolio en d) (\<lambda>_. decide_and_move en d)"
  have body: "analysis_body en d = dbind (start_analysis en d) (\<lambda>_. ?rest)"
    by (simp only: analysis_body_def decide_and_move_def)
  have rest: "wp ?rest (analysis_end en d r db) db1"
    if at1: "run_at d db1 r1" and s1: "state_of r1 = wf_value WF_PREMARKET_ANALYSIS" "dr_revalidation_count r1 = dr_revalidation_count r"
      "findings_of r1 = findings_of r" "dd_leases db1 = dd_leases db" "dd_analyses db1 = dd_analyses db" for db1 r1
  proof (cases "external_data_missing (en_cfg en)")
    case True
    then show ?thesis using at1 s1 lease_free_cong[OF s1(4)]
      by (auto simp: wp_simps analysis_end_def services_ok_def)
  next
    case False
    show ?thesis
    proof (cases "en_load_portfolio en db1 r1")
      case (Inl e)
      then have "\<not> services_ok en" by (auto simp: services_ok_def)
      moreover have "lease_free en d db1 = lease_free en d db" using s1(4) by (rule lease_free_cong)
      ultimately have "analysis_end en d r db (Inl (DailyWorkflowError (''portfolio_sync_failed:'' @ err_str e))) db1"
        using at1 s1 by (auto simp: analysis_end_def)
      then show ?thesis using False Inl by (simp add: wp_bind wp_load_portfolio[OF at1])
    next
      case (Inr u)
      then have up: "\<not> broker_down en" by (auto simp: broker_down_def) (metis Inr_not_Inl)
      show ?thesis using False Inr wp_decide_and_move[OF at1 s1 up] by (simp add: wp_bind wp_load_portfolio[OF at1])
    qed
  qed
  show ?thesis
  proof (cases "state_of r = wf_value WF_PREMARKET_PREPARATION")
    case True
    then have "wp (move en d WF_PREMARKET_ANALYSIS ''run_analysis'' ''start_analysis'')
      (\<lambda>res db'. case res of Inl e \<Rightarrow> analysis_end en d r db (Inl e) db' | Inr _ \<Rightarrow> wp ?rest (analysis_end en d r db) db') db"
      by (intro wp_move[OF at True]) (simp, simp add: rest)
    then show ?thesis unfolding body using True at by (simp add: start_analysis_def wp_simps wp_require_run)
  next
    case False
    then have s: "state_of r = wf_value WF_PREMARKET_ANALYSIS" using st by simp
    then show ?thesis unfolding body using at rest[OF at s] by (simp add: start_analysis_def wp_simps wp_require_run)
  qed
qed

lemma wp_run_analysis:
  assumes at: "run_at d db r" and open_ctl: "controls_open en"
    and st: "state_of r \<in> {wf_value WF_PREMARKET_PREPARATION, wf_value WF_PREMARKET_ANALYSIS}"
  shows "wp (run_analysis en d) (analysis_end en d r db) db"
proof -
  have nb: "assert_not_blocked (en_controls en) (dr_run r) = Inr ()"
    using st not_blocked[OF open_ctl, of r WF_PREMARKET_PREPARATION] not_blocked[OF open_ctl, of r WF_PREMARKET_ANALYSIS] by auto
  have body: "wp (lease_finally en (analysis_key en d) (analysis_body en d)) (analysis_end en d r db) db1"
    if "dd_runs db1 = dd_runs db" "dd_analyses db1 = dd_analyses db" "lease_free en d db \<longrightarrow> lease_free en d db1" for db1
  proof (rule wp_lease_finally)
    have at1: "run_at d db1 r" using at that(1) by (simp add: run_at_def)
    show "wp (analysis_body en d) (\<lambda>res db'. \<forall>t. (lease_free en d db' \<longrightarrow> lease_free en d (db'\<lparr>dd_leases := t\<rparr>)) \<longrightarrow>
        analysis_end en d r db res (db'\<lparr>dd_leases := t\<rparr>)) db1"
      by (rule wp_mono[OF wp_analysis_body[OF at1 st]]) (use that(2,3) in \<open>auto simp: analysis_end_def split: sum.splits\<close>)
  qed
  have "wp (lease_acquire en (analysis_key en d)) (\<lambda>res db'. case res of Inl e \<Rightarrow> analysis_end en d r db (Inl e) db'
      | Inr _ \<Rightarrow> wp (lease_finally en (analysis_key en d) (analysis_body en d)) (analysis_end en d r db) db') db"
  proof (cases "lease_free en d db")
    case True
    then show ?thesis by (rule wp_lease_acquire) (simp add: body)
  next
    case False
    then show ?thesis
      by (intro wp_lease_acquire_any) (use at body in \<open>auto simp: analysis_end_def\<close>)
  qed
  then show ?thesis using nb at by (simp add: run_analysis_def wp_simps wp_require_run)
qed

section \<open>Settling the day\<close>

lemma report_sel [simp]: "rr_result (report a b c) = a" "rr_reason (report a b c) = b" "rr_attempt (report a b c) = c"
  by (simp_all add: report_def)

lemma revalidation_attempt [simp]: "rr_attempt (revalidation_report cfg status now fx m attempt) = attempt"
  by (simp add: revalidation_report_def Let_def)

lemma revalidation_not_failed: "rr_result (revalidation_report cfg status now fx m attempt) \<noteq> RV_FAILED"
  by (simp add: revalidation_report_def Let_def)

definition day_report :: "day_env \<Rightarrow> reval_fixture \<Rightarrow> day_run \<Rightarrow> RevalidationReport" where
  "day_report en fx r = revalidation_report (en_cfg en) (get_market_status (en_cal en) (en_now en)) (en_now en) fx (dr_meta r)
     (dr_revalidation_count r + 1)"

lemma wp_revalidate:
  assumes "run_at d db r"
    and "\<And>db'. run_at d db' (r\<lparr>dr_revalidation_count := dr_revalidation_count r + 1\<rparr>) \<Longrightarrow> dd_leases db' = dd_leases db
      \<Longrightarrow> dd_analyses db' = dd_analyses db \<Longrightarrow> Q (Inr (day_report en fx r)) db'"
  shows "wp (revalidate en fx d) Q db"
  using assms(2) by (simp add: revalidate_def persist_report_def wp_simps wp_require_run[OF assms(1)] Let_def day_report_def)

lemma wp_enter_market:
  assumes at: "run_at d db r" and st: "state_of r = wf_value WF_PREOPEN_REVALIDATION"
    and q: "\<And>db' r'. run_at d db' r' \<Longrightarrow> state_of r' = wf_value WF_INTRADAY \<Longrightarrow> dr_meta r' = dr_meta r
      \<Longrightarrow> dr_revalidation_count r' = dr_revalidation_count r \<Longrightarrow> dd_leases db' = dd_leases db
      \<Longrightarrow> dd_analyses db' = dd_analyses db \<Longrightarrow> Q (Inr ()) db'"
  shows "wp (enter_market en d a b) Q db"
  unfolding enter_market_def wp_bind
proof (rule wp_move[OF at st])
  fix db1 assume 1: "run_at d db1 (moved en WF_MARKET_OPEN a r)" "dd_leases db1 = dd_leases db" "dd_analyses db1 = dd_analyses db"
  have "wp (move en d WF_INTRADAY ''revalidate'' b) Q db1"
  proof (rule wp_move[OF 1(1), where st = WF_MARKET_OPEN])
    fix db2 assume 2: "run_at d db2 (moved en WF_INTRADAY b (moved en WF_MARKET_OPEN a r))" "dd_leases db2 = dd_leases db1"
      "dd_analyses db2 = dd_analyses db1"
    show "Q (Inr ()) db2" by (rule q[OF 2(1)]) (use 1 2 in simp_all)
  qed simp_all
  then show "case Inr () of Inl e \<Rightarrow> Q (Inl e) db1 | Inr _ \<Rightarrow> wp (move en d WF_INTRADAY ''revalidate'' b) Q db1" by simp
qed simp

definition settled :: "day_env \<Rightarrow> int \<Rightarrow> nat \<Rightarrow> day_run \<Rightarrow> day_db \<Rightarrow> RevalidationReport py \<Rightarrow> day_db \<Rightarrow> bool" where
  "settled en d n r db res db' \<longleftrightarrow> (\<exists>r'. run_at d db' r' \<and> dr_revalidation_count r < dr_revalidation_count r'
     \<and> dr_revalidation_count r' \<le> dr_revalidation_count r + 1 + int n
     \<and> length (dd_analyses db') \<le> length (dd_analyses db) + n
     \<and> (case res of
          Inr rep \<Rightarrow> state_of r' = wf_value WF_INTRADAY
            \<and> (rr_result rep \<in> {RV_NO_TRADE, RV_REANALYSIS_REQUIRED} \<longrightarrow> dm_no_trade_reason (dr_meta r') \<noteq> None)
        | Inl e \<Rightarrow> state_of r' = wf_value WF_PREMARKET_ANALYSIS))
     \<and> (services_ok en \<and> lease_free en d db \<longrightarrow> (\<exists>rep. res = Inr rep))"

text \<open>Entering the market after a report ends the day's revalidation.\<close>

lemma wp_enter_settled:
  assumes at: "run_at d db1 r1" and st: "state_of r1 = wf_value WF_PREOPEN_REVALIDATION"
    and c: "dr_revalidation_count r1 = dr_revalidation_count r + 1" and a: "dd_analyses db1 = dd_analyses db"
    and why: "rr_result rep \<in> {RV_NO_TRADE, RV_REANALYSIS_REQUIRED} \<Longrightarrow> dm_no_trade_reason (dr_meta r1) \<noteq> None"
  shows "wp (dbind (enter_market en d x y) (\<lambda>_. dret rep)) (settled en d n r db) db1"
  unfolding wp_bind
  by (rule wp_enter_market[OF at st]) (use assms in \<open>auto simp: wp_simps settled_def\<close>)

text \<open>A fresh analysis hands over before the open, or its error leaves the day in the analysis.\<close>

lemma wp_reanalyse:
  assumes at: "run_at d db r" and st: "state_of r = wf_value WF_PREOPEN_REVALIDATION" and open_ctl: "controls_open en"
    and fails: "\<And>e db' r'. run_at d db' r' \<Longrightarrow> state_of r' = wf_value WF_PREMARKET_ANALYSIS
      \<Longrightarrow> dr_revalidation_count r' = dr_revalidation_count r \<Longrightarrow> dd_analyses db' = dd_analyses db
      \<Longrightarrow> \<not> (services_ok en \<and> lease_free en d db) \<Longrightarrow> Q (Inl e) db'"
    and next_call: "\<And>db' r'. run_at d db' r' \<Longrightarrow> state_of r' = wf_value WF_PREOPEN_REVALIDATION
      \<Longrightarrow> dr_revalidation_count r' = dr_revalidation_count r \<Longrightarrow> length (dd_analyses db') = length (dd_analyses db) + 1
      \<Longrightarrow> (lease_free en d db \<longrightarrow> lease_free en d db') \<Longrightarrow> wp m Q db'"
  shows "wp (reanalyse en d m) Q db"
  unfolding reanalyse_def wp_bind
proof (rule wp_move[OF at st])
  let ?r2 = "moved en WF_PREMARKET_ANALYSIS ''reanalysis_required'' r"
  fix db2 assume 2: "run_at d db2 ?r2" "dd_leases db2 = dd_leases db" "dd_analyses db2 = dd_analyses db"
  have free: "lease_free en d db2 = lease_free en d db" by (rule lease_free_cong) (rule 2)
  have "wp (run_analysis en d) (analysis_end en d ?r2 db2) db2"
    by (rule wp_run_analysis[OF 2(1) open_ctl]) simp
  then have "wp (run_analysis en d) (\<lambda>res db3. case res of Inl e \<Rightarrow> Q (Inl e) db3
      | Inr _ \<Rightarrow> wp (edit_meta d (mark_reanalysis_incorporated (en_now en)))
          (\<lambda>res db'. case res of Inl e \<Rightarrow> Q (Inl e) db' | Inr _ \<Rightarrow> wp m Q db') db3) db2"
  proof (rule wp_mono)
    fix res db3 assume e: "analysis_end en d ?r2 db2 res db3"
    then obtain r3 where r3: "run_at d db3 r3" "dr_revalidation_count r3 = dr_revalidation_count r"
      by (auto simp: analysis_end_def)
    show "case res of Inl e \<Rightarrow> Q (Inl e) db3 | Inr _ \<Rightarrow> wp (edit_meta d (mark_reanalysis_incorporated (en_now en)))
          (\<lambda>res db'. case res of Inl e \<Rightarrow> Q (Inl e) db' | Inr _ \<Rightarrow> wp m Q db') db3"
    proof (cases res)
      case (Inl x)
      have s: "state_of r3 = wf_value WF_PREMARKET_ANALYSIS" "dd_analyses db3 = dd_analyses db2"
        "\<not> (services_ok en \<and> lease_free en d db)"
        using e Inl r3(1) free by (auto simp: analysis_end_def run_at_def)
      have "Q (Inl x) db3" by (rule fails[OF r3(1) s(1) r3(2)]) (use s 2 in simp_all)
      then show ?thesis using Inl by simp
    next
      case (Inr de)
      then have s: "state_of r3 = wf_value WF_PREOPEN_REVALIDATION" "dd_analyses db3 = dd_analyses db2 @ [de]"
        "lease_free en d db2 \<longrightarrow> lease_free en d db3"
        using e r3(1) by (auto simp: analysis_end_def run_at_def)
      let ?r4 = "r3\<lparr>dr_meta := mark_reanalysis_incorporated (en_now en) (dr_meta r3)\<rparr>"
      have "wp m Q (put_run d ?r4 db3)"
        by (rule next_call[where r' = ?r4]) (use r3 s 2 free in \<open>simp_all add: lease_free_def\<close>)
      then show ?thesis using Inr by (simp add: wp_edit_meta[OF r3(1)])
    qed
  qed
  then show "case Inr () of Inl e \<Rightarrow> Q (Inl e) db2 | Inr _ \<Rightarrow> wp (run_analysis en d)
      (\<lambda>res db3. case res of Inl e \<Rightarrow> Q (Inl e) db3
        | Inr _ \<Rightarrow> wp (edit_meta d (mark_reanalysis_incorporated (en_now en)))
            (\<lambda>res db'. case res of Inl e \<Rightarrow> Q (Inl e) db' | Inr _ \<Rightarrow> wp m Q db') db3) db2" by simp
qed simp

lemma wp_act_on_report:
  assumes at: "run_at d db1 r1" and open_ctl: "controls_open en" and st: "state_of r1 = wf_value WF_PREOPEN_REVALIDATION"
    and c: "dr_revalidation_count r1 = dr_revalidation_count r + 1" and a: "dd_analyses db1 = dd_analyses db"
    and free: "lease_free en d db1 = lease_free en d db" and nf: "rr_result rep \<noteq> RV_FAILED"
    and again: "\<And>m db' r'. again = Some m \<Longrightarrow> run_at d db' r' \<Longrightarrow> state_of r' = wf_value WF_PREOPEN_REVALIDATION
      \<Longrightarrow> dr_revalidation_count r' = dr_revalidation_count r + 1 \<Longrightarrow> length (dd_analyses db') \<le> length (dd_analyses db) + 1
      \<Longrightarrow> (lease_free en d db \<longrightarrow> lease_free en d db') \<Longrightarrow> wp m (settled en d n r db) db'"
  shows "wp (act_on_report en d again rep) (settled en d n r db) db1"
proof -
  have entry: "wp (dbind (enter_without_trades en d t x y) (\<lambda>_. dret rep)) (settled en d n r db) db1" for t x y
  proof -
    let ?r2 = "r1\<lparr>dr_meta := set_no_trade t (dr_meta r1)\<rparr>"
    have "wp (dbind (enter_market en d x y) (\<lambda>_. dret rep)) (settled en d n r db) (put_run d ?r2 db1)"
      by (rule wp_enter_settled[where ?r1.0 = ?r2]) (use st c a in \<open>simp_all add: set_no_trade_def\<close>)
    then show ?thesis by (simp add: enter_without_trades_def wp_simps wp_edit_meta[OF at])
  qed
  have plain: "wp (dbind (enter_market en d x y) (\<lambda>_. dret rep)) (settled en d n r db) db1"
    if "rr_result rep \<notin> {RV_NO_TRADE, RV_REANALYSIS_REQUIRED}" for x y
    by (rule wp_enter_settled[OF at]) (use st c a that in simp_all)
  have rerun: "wp (reanalyse en d m) (settled en d n r db) db1" if m: "again = Some m" for m
  proof (rule wp_reanalyse[OF at st open_ctl])
    fix e db' r' assume f: "run_at d db' r'" "state_of r' = wf_value WF_PREMARKET_ANALYSIS"
      "dr_revalidation_count r' = dr_revalidation_count r1" "dd_analyses db' = dd_analyses db1"
      "\<not> (services_ok en \<and> lease_free en d db1)"
    then show "settled en d n r db (Inl e) db'" using c a free unfolding settled_def by auto
  next
    fix db' r' assume f: "run_at d db' r'" "state_of r' = wf_value WF_PREOPEN_REVALIDATION"
      "dr_revalidation_count r' = dr_revalidation_count r1" "length (dd_analyses db') = length (dd_analyses db1) + 1"
      "lease_free en d db1 \<longrightarrow> lease_free en d db'"
    show "wp m (settled en d n r db) db'" by (rule again[OF m f(1,2)]) (use f c a free in simp_all)
  qed
  have limit: "wp (case (if b then None else again) of
      None \<Rightarrow> dbind (enter_without_trades en d t x y) (\<lambda>_. dret rep)
    | Some next_call \<Rightarrow> reanalyse en d next_call) (settled en d n r db) db1" for b t x y
    using entry rerun by (cases again) simp_all
  show ?thesis unfolding act_on_report_def
    using limit entry plain nf by (cases "rr_result rep") simp_all
qed

lemma wp_settle_step:
  assumes at: "run_at d db r" and open_ctl: "controls_open en" and st: "state_of r = wf_value WF_PREOPEN_REVALIDATION"
    and again: "\<And>m db' r'. again = Some m \<Longrightarrow> run_at d db' r' \<Longrightarrow> state_of r' = wf_value WF_PREOPEN_REVALIDATION
      \<Longrightarrow> dr_revalidation_count r' = dr_revalidation_count r + 1 \<Longrightarrow> length (dd_analyses db') \<le> length (dd_analyses db) + 1
      \<Longrightarrow> (lease_free en d db \<longrightarrow> lease_free en d db') \<Longrightarrow> wp m (settled en d n r db) db'"
  shows "wp (settle_step en d fx again) (settled en d n r db) db"
proof -
  let ?rep = "day_report en fx r" and ?r1 = "r\<lparr>dr_revalidation_count := dr_revalidation_count r + 1\<rparr>"
  have nb: "assert_not_blocked (en_controls en) (dr_run r) = Inr ()" using not_blocked[OF open_ctl st] by simp
  have "wp (dbind (revalidate en fx d) (act_on_report en d again)) (settled en d n r db) db"
    unfolding wp_bind
  proof (rule wp_revalidate[OF at])
    fix db1 assume 1: "run_at d db1 ?r1" "dd_leases db1 = dd_leases db" "dd_analyses db1 = dd_analyses db"
    have "wp (act_on_report en d again ?rep) (settled en d n r db) db1"
      by (rule wp_act_on_report[OF 1(1) open_ctl _ _ 1(3) lease_free_cong[OF 1(2)] _ again])
         (use st in \<open>simp_all add: day_report_def revalidation_not_failed\<close>)
    then show "case Inr ?rep of Inl e \<Rightarrow> settled en d n r db (Inl e) db1
      | Inr rep \<Rightarrow> wp (act_on_report en d again rep) (settled en d n r db) db1" by simp
  qed
  then show ?thesis using nb st by (simp add: settle_step_def wp_simps wp_require_run[OF at])
qed

lemma wp_settle:
  assumes "controls_open en" "run_at d db r" "state_of r = wf_value WF_PREOPEN_REVALIDATION"
  shows "wp (settle en d n fx) (settled en d n r db) db"
  using assms(2,3)
proof (induction n arbitrary: fx db r)
  case 0
  show ?case unfolding settle.simps by (rule wp_settle_step[OF 0(1) assms(1) 0(2)]) simp
next
  case (Suc n)
  show ?case unfolding settle.simps
  proof (rule wp_settle_step[OF Suc.prems(1) assms(1) Suc.prems(2)])
    fix m db' r' assume m: "Some (settle en d n no_fixture) = Some m" and at: "run_at d db' r'" "state_of r' = wf_value WF_PREOPEN_REVALIDATION"
      and c: "dr_revalidation_count r' = dr_revalidation_count r + 1" and a: "length (dd_analyses db') \<le> length (dd_analyses db) + 1"
      and free: "lease_free en d db \<longrightarrow> lease_free en d db'"
    have "wp (settle en d n no_fixture) (settled en d n r' db') db'" by (rule Suc.IH[OF at])
    then have "wp (settle en d n no_fixture) (settled en d (Suc n) r db) db'"
      by (rule wp_mono) (use c a free in \<open>auto simp: settled_def split: sum.splits\<close>)
    then show "wp m (settled en d (Suc n) r db) db'" using m by simp
  qed
qed

text \<open>
  Property C20.  A day that waits before the open never stays there: one call of the revalidation, with its at most two fresh
  analyses and three reports, ends in the market, or an error of an analysis leaves the day in the
  analysis, where the catch-up takes it up again.  When the data feed and the agents answer and the lease is
  free the call returns and the day is in the market, whatever the reports say.
\<close>

theorem day_leaves_preopen:
  assumes "run_at d db r" "controls_open en" "state_of r = wf_value WF_PREOPEN_REVALIDATION"
    "day_revalidate en d fx db = (res, db')"
  shows "\<exists>r'. run_at d db' r' \<and> dr_revalidation_count r < dr_revalidation_count r'
    \<and> dr_revalidation_count r' \<le> dr_revalidation_count r + 3
    \<and> length (dd_analyses db') \<le> length (dd_analyses db) + 2
    \<and> (case res of Inr rep \<Rightarrow> state_of r' = wf_value WF_INTRADAY | Inl e \<Rightarrow> state_of r' = wf_value WF_PREMARKET_ANALYSIS)
    \<and> (services_ok en \<and> lease_free en d db \<longrightarrow> (\<exists>rep. res = Inr rep))"
proof -
  have "settled en d 2 r db res db'"
    using wp_settle[OF assms(2,1,3), of 2 fx] assms(4) by (simp add: wp_def day_revalidate_def)
  then show ?thesis unfolding settled_def by (auto split: sum.splits)
qed

text \<open>A report that asks for no fresh analysis takes the day straight into the market.\<close>

lemma wp_day_revalidate_direct:
  assumes at: "run_at d db r" and open_ctl: "controls_open en" and st: "state_of r = wf_value WF_PREOPEN_REVALIDATION"
    and direct: "rr_result (day_report en fx r) \<noteq> RV_REANALYSIS_REQUIRED"
  shows "wp (day_revalidate en d fx) (\<lambda>res db'. res = Inr (day_report en fx r) \<and> (\<exists>r'. run_at d db' r'
     \<and> state_of r' = wf_value WF_INTRADAY
     \<and> dm_no_trade_reason (dr_meta r') = (if rr_result (day_report en fx r) = RV_NO_TRADE
          then Some (rr_reason (day_report en fx r)) else dm_no_trade_reason (dr_meta r)))) db"
proof -
  let ?rep = "day_report en fx r" and ?r1 = "r\<lparr>dr_revalidation_count := dr_revalidation_count r + 1\<rparr>"
  let ?Q = "\<lambda>res db'. res = Inr ?rep \<and> (\<exists>r'. run_at d db' r' \<and> state_of r' = wf_value WF_INTRADAY
    \<and> dm_no_trade_reason (dr_meta r') = (if rr_result ?rep = RV_NO_TRADE then Some (rr_reason ?rep) else dm_no_trade_reason (dr_meta r)))"
  have nb: "assert_not_blocked (en_controls en) (dr_run r) = Inr ()" using not_blocked[OF open_ctl st] by simp
  have nf: "rr_result ?rep \<noteq> RV_FAILED" unfolding day_report_def by (rule revalidation_not_failed)
  have act: "wp (act_on_report en d again ?rep) ?Q db1" if at1: "run_at d db1 ?r1" for again db1
  proof -
    let ?r2 = "?r1\<lparr>dr_meta := set_no_trade (rr_reason ?rep) (dr_meta ?r1)\<rparr>"
    have 1: "wp (dbind (enter_market en d x y) (\<lambda>_. dret ?rep)) ?Q (put_run d ?r2 db1)" if "rr_result ?rep = RV_NO_TRADE" for x y
      unfolding wp_bind by (rule wp_enter_market[where r = ?r2]) (use st that in \<open>auto simp: set_no_trade_def wp_simps\<close>)
    have 2: "wp (dbind (enter_market en d x y) (\<lambda>_. dret ?rep)) ?Q db1" if "rr_result ?rep \<noteq> RV_NO_TRADE" for x y
      unfolding wp_bind by (rule wp_enter_market[OF at1]) (use st that in \<open>auto simp: wp_simps\<close>)
    show ?thesis
    proof (cases "rr_result ?rep = RV_NO_TRADE")
      case True
      have "act_on_report en d again ?rep
          = dbind (enter_without_trades en d (rr_reason ?rep) ''no_trade_carry'' ''enter_intraday_no_trade'') (\<lambda>_. dret ?rep)"
        by (simp add: act_on_report_def True)
      moreover have "wp (dbind (enter_without_trades en d (rr_reason ?rep) x y) (\<lambda>_. dret ?rep)) ?Q db1" for x y
        using 1[OF True] unfolding enter_without_trades_def wp_bind wp_edit_meta[OF at1] sum.case .
      ultimately show ?thesis by simp
    next
      case False
      then have "act_on_report en d again ?rep
          = dbind (enter_market en d (rv_value (rr_result ?rep)) ''enter_intraday'') (\<lambda>_. dret ?rep)"
        using direct nf by (cases "rr_result ?rep") (simp_all add: act_on_report_def)
      then show ?thesis using 2[OF False] by simp
    qed
  qed
  have "wp (dbind (revalidate en fx d) (act_on_report en d again)) ?Q db" for again
    unfolding wp_bind by (rule wp_revalidate[OF at]) (simp only: sum.case act)
  then have "wp (settle_step en d fx again) ?Q db" for again
    using nb st by (simp add: settle_step_def wp_simps wp_require_run[OF at])
  then show ?thesis by (simp add: day_revalidate_def numeral_2_eq_2)
qed

text \<open>
  Property C39.  The verdict that forbids trading does not keep the day out of the market: a report of \<open>NO_TRADE\<close>
  moves the run into \<open>INTRADAY\<close>, a state in which broker orders are allowed, and the next intraday
  evaluation accepts it; only the reason is noted in the metadata.
\<close>

theorem no_trade_day_trades_on:
  assumes "run_at d db r" "controls_open en" "state_of r = wf_value WF_PREOPEN_REVALIDATION"
    "rr_result (day_report en fx r) = RV_NO_TRADE" "controls_open en'"
  shows "\<exists>db' r'. day_revalidate en d fx db = (Inr (day_report en fx r), db') \<and> run_at d db' r'
    \<and> state_of r' = wf_value WF_INTRADAY \<and> BROKER_ORDERS_ALLOWED WF_INTRADAY
    \<and> dm_no_trade_reason (dr_meta r') = Some (rr_reason (day_report en fx r))
    \<and> evaluate_intraday_entry en' (Some d) db' = (Inr r', db')"
proof -
  let ?rep = "day_report en fx r"
  obtain db' r' where res: "day_revalidate en d fx db = (Inr ?rep, db')" "run_at d db' r'" "state_of r' = wf_value WF_INTRADAY"
    "dm_no_trade_reason (dr_meta r') = Some (rr_reason ?rep)"
    using wp_day_revalidate_direct[OF assms(1-3), of fx] assms(4) by (auto simp: wp_def)
  have "assert_not_blocked (en_controls en') (dr_run r') = Inr ()" using not_blocked[OF assms(5) res(3)] by simp
  then have "evaluate_intraday_entry en' (Some d) db' = (Inr r', db')"
    using res(2,3) by (simp add: evaluate_intraday_entry_def current_day_def dbind_def require_run_def run_at_def dlift_def
        closing_started_def in_market_def dret_def Let_def)
  then show ?thesis using res by auto
qed

text \<open>
  The analysis accepts a day that already waits before the open, but such a rerun cannot end well: the agents
  run and their decision is materialised, and then the move to the state the day is in already is refused
  as an illegal transition, which is no \<open>DailyWorkflowError\<close>.
\<close>

theorem analysis_rerun_raises:
  assumes "run_at d db r" "controls_open en" "state_of r = wf_value WF_PREOPEN_REVALIDATION" "services_ok en" "lease_free en d db"
  shows "\<exists>de db'. run_analysis en d db
      = (Inl (ValueError ''illegal_transition:PREOPEN_REVALIDATION->PREOPEN_REVALIDATION''), db')
    \<and> dd_analyses db' = dd_analyses db @ [de]"
proof -
  let ?e = "ValueError ''illegal_transition:PREOPEN_REVALIDATION->PREOPEN_REVALIDATION''"
  let ?Q = "\<lambda>(res :: decided py) db'. res = Inl ?e \<and> (\<exists>de. dd_analyses db' = dd_analyses db @ [de])"
  have nb: "assert_not_blocked (en_controls en) (dr_run r) = Inr ()" using not_blocked[OF assms(2,3)] by simp
  have body: "wp (analysis_body en d) (\<lambda>res db'. \<forall>t. (lease_free en d db' \<longrightarrow> lease_free en d (db'\<lparr>dd_leases := t\<rparr>)) \<longrightarrow>
      ?Q res (db'\<lparr>dd_leases := t\<rparr>)) db1" if "dd_runs db1 = dd_runs db" "dd_analyses db1 = dd_analyses db" for db1
  proof -
    have at1: "run_at d db1 r" using assms(1) that(1) by (simp add: run_at_def)
    have "wp (collect_and_decide en d) (\<lambda>res db'. case res of Inl e \<Rightarrow> ?Q (Inl e) db'
        | Inr de \<Rightarrow> wp (dbind (move en d WF_PREOPEN_REVALIDATION ''run_analysis'' ''analysis_complete'') (\<lambda>_. dret de)) ?Q db') db1"
    proof (rule wp_collect_and_decide[OF at1], goal_cases)
      case (1 e db' r')
      then show ?case using assms(4) unfolding services_ok_def by (metis Inr_not_Inl)
    next
      case (2 de db' r')
      have "state_of r' = wf_value WF_PREOPEN_REVALIDATION" using 2(2) assms(3) by simp
      note ill = wp_move_illegal[OF 2(1) this, of WF_PREOPEN_REVALIDATION en]
      show ?case using 2 that(2) by (simp add: wp_bind ill)
    qed
    then have decide: "wp (decide_and_move en d) ?Q db1" unfolding decide_and_move_def wp_bind .
    have start: "wp (start_analysis en d) Q db1 = Q (Inr ()) db1" for Q
      using assms(3) by (simp add: start_analysis_def wp_simps wp_require_run[OF at1])
    have up: "\<not> external_data_missing (en_cfg en)" "en_load_portfolio en db1 r = Inr ()" using assms(4) by (simp_all add: services_ok_def)
    have "wp (dbind (load_portfolio en d) (\<lambda>_. decide_and_move en d)) ?Q db1"
      unfolding wp_bind wp_load_portfolio[OF at1] up(2) using decide by simp
    then have "wp (analysis_body en d) ?Q db1"
      unfolding analysis_body_def decide_and_move_def[symmetric] wp_bind start if_not_P[OF up(1)] by simp
    then show ?thesis by (rule wp_mono) simp
  qed
  have "wp (lease_acquire en (analysis_key en d)) (\<lambda>res db'. case res of Inl e \<Rightarrow> ?Q (Inl e) db'
      | Inr _ \<Rightarrow> wp (lease_finally en (analysis_key en d) (analysis_body en d)) ?Q db') db"
    by (rule wp_lease_acquire[OF assms(5)]) (simp only: sum.case, rule wp_lease_finally, rule body)
  then have "wp (run_analysis en d) ?Q db"
    using nb by (simp add: run_analysis_def wp_simps wp_require_run[OF assms(1)] cong: sum.case_cong)
  then show ?thesis by (auto simp: wp_def split: prod.splits)
qed

section \<open>A late start with the data feed down\<close>

definition nothing_found :: "day_run \<Rightarrow> bool" where
  "nothing_found r \<longleftrightarrow> stamp_of (dm_analysis_completed_at (dr_meta r)) = None \<and> \<not> pending_event (dr_meta r)"

lemma nothing_found_cong: "findings_of r' = findings_of r \<Longrightarrow> nothing_found r' = nothing_found r"
  by (simp add: nothing_found_def pending_event_def)

lemma nothing_found_report: "nothing_found r \<Longrightarrow> rr_result (day_report en no_fixture r) \<noteq> RV_REANALYSIS_REQUIRED"
  by (simp add: nothing_found_def day_report_def revalidation_report_def no_fixture_def analysis_expired_def Let_def)

lemma wp_bindI:
  "wp m (\<lambda>res db'. case res of Inl e \<Rightarrow> Q (Inl e) db' | Inr a \<Rightarrow> wp (f a) Q db') db \<Longrightarrow> wp (dbind m f) Q db"
  by (simp add: wp_bind)

lemma wp_when_state:
  "run_at d db r \<Longrightarrow> wp (when_state d st m) Q db = (if state_of r = wf_value st then wp m Q db else Q (Inr ()) db)"
  by (simp add: when_state_def wp_simps wp_require_run)

lemma wp_enter_after_failed_prep:
  assumes at: "run_at d db r" and open_ctl: "controls_open en" and st: "state_of r = wf_value WF_PREMARKET_ANALYSIS"
    and nf: "nothing_found r"
    and q: "\<And>db' r'. run_at d db' r' \<Longrightarrow> state_of r' = wf_value WF_INTRADAY \<Longrightarrow> dm_no_trade_reason (dr_meta r') \<noteq> None
      \<Longrightarrow> Q (Inr r') db'"
  shows "wp (enter_intraday_after_failed_prep en d reason) Q db"
proof -
  let ?m = "(dr_meta r)\<lparr>dm_no_trade_reason := Some (take 240 reason), dm_catch_up_incomplete := Some (take 240 reason)\<rparr>"
  let ?r1 = "r\<lparr>dr_meta := ?m\<rparr>" and ?db1 = "put_run d (r\<lparr>dr_meta := ?m\<rparr>) db"
  let ?tail = "dbind (when_state d WF_PREOPEN_REVALIDATION (dbind (day_revalidate en d no_fixture) (\<lambda>_. dret ()))) (\<lambda>_. require_run d)"
  have at1: "run_at d ?db1 ?r1" by simp
  have st1: "state_of ?r1 = wf_value WF_PREMARKET_ANALYSIS" using st by simp
  have "wp (move en d WF_PREOPEN_REVALIDATION ''catch_up'' ''analysis_failed_enter'')
    (\<lambda>res db'. case res of Inl e \<Rightarrow> Q (Inl e) db' | Inr _ \<Rightarrow> wp ?tail Q db') ?db1"
  proof (rule wp_move[OF at1 st1])
    let ?r2 = "moved en WF_PREOPEN_REVALIDATION ''analysis_failed_enter'' ?r1"
    fix db2 assume at2: "run_at d db2 ?r2"
    have "findings_of ?r2 = findings_of r" by simp
    then have "nothing_found ?r2" using nothing_found_cong nf by blast
    then have "wp (day_revalidate en d no_fixture) (\<lambda>res db'. res = Inr (day_report en no_fixture ?r2) \<and> (\<exists>r'. run_at d db' r'
       \<and> state_of r' = wf_value WF_INTRADAY
       \<and> dm_no_trade_reason (dr_meta r') = (if rr_result (day_report en no_fixture ?r2) = RV_NO_TRADE
            then Some (rr_reason (day_report en no_fixture ?r2)) else dm_no_trade_reason (dr_meta ?r2)))) db2"
      by (intro wp_day_revalidate_direct[OF at2 open_ctl] nothing_found_report) simp_all
    then have "wp (day_revalidate en d no_fixture) (\<lambda>res db'. case res of Inl e \<Rightarrow> Q (Inl e) db' | Inr _ \<Rightarrow> wp (require_run d) Q db') db2"
      by (rule wp_mono) (auto simp: wp_require_run intro!: q split: if_splits)
    then have "wp (dbind (day_revalidate en d no_fixture) (\<lambda>_. dret ()))
        (\<lambda>res db'. case res of Inl e \<Rightarrow> Q (Inl e) db' | Inr _ \<Rightarrow> wp (require_run d) Q db') db2"
      by (intro wp_bindI) (simp add: wp_ret cong: sum.case_cong)
    moreover have "state_of ?r2 = wf_value WF_PREOPEN_REVALIDATION" by simp
    ultimately have "wp ?tail Q db2" by (intro wp_bindI) (simp only: wp_when_state[OF at2] if_True refl)
    then show "case Inr () of Inl e \<Rightarrow> Q (Inl e) db2 | Inr _ \<Rightarrow> wp ?tail Q db2" by simp
  qed simp
  note moving = this
  have out: "\<not> in_market (state_of r)" and prep: "state_of ?r1 \<noteq> wf_value WF_PREMARKET_PREPARATION"
    using st by (simp_all add: in_market_def)
  show ?thesis unfolding enter_intraday_after_failed_prep_def
    by (rule wp_bindI, simp only: wp_require_run[OF at] sum.case if_not_P[OF out], rule wp_bindI,
        simp only: wp_edit_meta[OF at] sum.case, rule wp_bindI,
        simp only: wp_when_state[OF at1] if_not_P[OF prep] sum.case, rule wp_bindI,
        simp only: wp_when_state[OF at1] if_P[OF st1], rule moving)
qed

lemma wp_try_daily:
  assumes "wp m (\<lambda>res db'. \<exists>e. res = Inl (DailyWorkflowError e) \<and> wp (h e) Q db') db"
  shows "wp (try_daily m h) Q db"
proof -
  obtain res db' where m: "m db = (res, db')" by fastforce
  then obtain e where "res = Inl (DailyWorkflowError e)" "wp (h e) Q db'" using assms by (auto simp: wp_def)
  then show ?thesis by (simp add: wp_def try_daily_def m)
qed

lemma wp_mark_catch_up:
  assumes "\<And>ks js. Q (Inr ks) (db\<lparr>dd_jobs := js\<rparr>)"
  shows "wp (mark_catch_up_jobs en d steps) Q db"
  unfolding wp_def mark_catch_up_jobs_def Let_def case_prod_unfold by (simp only: fst_conv snd_conv assms)

lemma wp_catch_up_advance_down:
  assumes at: "run_at d db r" and open_ctl: "controls_open en" and st: "state_of r = wf_value WF_PREMARKET_PREPARATION"
    and live: "market_needs_intraday en" and down: "broker_down en" "lease_free en d db" and nf: "nothing_found r"
    and q: "\<And>db' r'. run_at d db' r' \<Longrightarrow> state_of r' = wf_value WF_INTRADAY \<Longrightarrow> dm_no_trade_reason (dr_meta r') \<noteq> None
      \<Longrightarrow> Q (Inr ''analysis_failed_enter'') db'"
  shows "wp (catch_up_advance en d) Q db"
proof -
  let ?r1 = "r\<lparr>dr_meta := (dr_meta r)\<lparr>dm_last_catch_up_at := Some (isoformat (en_now en))\<rparr>\<rparr>"
  let ?db1 = "put_run d ?r1 db"
  let ?finish = "\<lambda>e. dbind (enter_intraday_after_failed_prep en d e) (\<lambda>_.
    dbind (mark_catch_up_jobs en d [''analysis'', ''revalidate'']) (\<lambda>_. dret ''analysis_failed_enter''))"
  have at1: "run_at d ?db1 ?r1" by simp
  have free1: "lease_free en d ?db1" using down(2) by (simp add: lease_free_def)
  have "wp (run_analysis en d) (analysis_end en d ?r1 ?db1) ?db1"
    by (rule wp_run_analysis[OF at1 open_ctl]) (simp add: st)
  then have "wp (run_analysis en d) (\<lambda>res db'. \<exists>e. res = Inl (DailyWorkflowError e) \<and> wp (?finish e) Q db') ?db1"
  proof (rule wp_mono)
    fix res db2 assume e: "analysis_end en d ?r1 ?db1 res db2"
    obtain m where m: "res = Inl (DailyWorkflowError m)" using e down(1) free1 by (auto simp: analysis_end_def)
    obtain r2 where r2: "run_at d db2 r2" "state_of r2 = wf_value WF_PREMARKET_ANALYSIS" "findings_of r2 = findings_of ?r1"
      using e m free1 by (auto simp: analysis_end_def)
    have "nothing_found r2" using nothing_found_cong[of r2 r] r2(3) nf by simp
    then have "wp (?finish m) Q db2" unfolding wp_bind
      by (rule wp_enter_after_failed_prep[OF r2(1) open_ctl r2(2)])
         (auto simp: wp_simps intro!: wp_mark_catch_up q)
    then show "\<exists>e. res = Inl (DailyWorkflowError e) \<and> wp (?finish e) Q db2" using m by blast
  qed
  then have "wp (dbind (run_analysis en d) (\<lambda>_. dret None)) (\<lambda>res db'. \<exists>e. res = Inl (DailyWorkflowError e)
      \<and> wp (if \<not> market_needs_intraday en then draise (DailyWorkflowError e) else dret (Some e))
          (\<lambda>res db'. case res of Inl e \<Rightarrow> Q (Inl e) db' | Inr failed \<Rightarrow> wp (case failed of
            None \<Rightarrow> catch_up_settle en d [''analysis''] | Some e \<Rightarrow> ?finish e) Q db') db') ?db1"
    by (intro wp_bindI, elim wp_mono) (auto simp: live wp_ret)
  note tried = wp_try_daily[OF this]
  have cond: "state_of ?r1 \<in> {wf_value WF_PREMARKET_PREPARATION, wf_value WF_PREMARKET_ANALYSIS}" using st by simp
  show ?thesis unfolding catch_up_advance_def
    by (rule wp_bindI, simp only: wp_edit_meta[OF at] sum.case, rule wp_bindI,
        simp only: wp_require_run[OF at1] sum.case if_P[OF cond], rule wp_bindI, rule tried)
qed

text \<open>
  Property C21.  When the market is already open and the broker is down, so that every load of the portfolio raises, the first
  intraday evaluation still takes a day that never left its preparation into the market, with the reason
  noted, so that the ticks of the day are evaluated rather than skipped.  This needs active trading controls, a free
  analysis lease and no findings of an earlier analysis.  Any other failure of the analysis is not caught here.
\<close>

theorem late_start_enters_market:
  assumes "run_at d db r" "controls_open en" "state_of r = wf_value WF_PREMARKET_PREPARATION" "market_needs_intraday en"
    "broker_down en" "lease_free en d db" "nothing_found r"
    "evaluate_intraday_entry en (Some d) db = (res, db')"
  shows "\<exists>r'. res = Inr r' \<and> run_at d db' r' \<and> state_of r' = wf_value WF_INTRADAY \<and> dm_no_trade_reason (dr_meta r') \<noteq> None"
proof -
  let ?Q = "\<lambda>res db'. \<exists>r'. res = Inr r' \<and> run_at d db' r' \<and> state_of r' = wf_value WF_INTRADAY \<and> dm_no_trade_reason (dr_meta r') \<noteq> None"
  let ?P = "\<lambda>res db'. res = Inr ''analysis_failed_enter'' \<and> (\<exists>r'. run_at d db' r' \<and> state_of r' = wf_value WF_INTRADAY
    \<and> dm_no_trade_reason (dr_meta r') \<noteq> None)"
  have nb: "assert_not_blocked (en_controls en) (dr_run r) = Inr ()" using not_blocked[OF assms(2,3)] by simp
  have outside: "\<not> in_market (state_of r)" "\<not> closing_started (state_of r)"
    by (simp_all add: assms(3) in_market_def closing_started_def)
  have "wp (catch_up_advance en d) ?P db"
    by (rule wp_catch_up_advance_down[OF assms(1-7)]) auto
  then have "wp (catch_up_run en d True) ?P db"
    using nb outside by (simp add: catch_up_run_def wp_simps wp_require_run[OF assms(1)])
  then have "wp (catch_up_to_intraday en (Some d) True) ?P db"
    using assms(1) by (simp add: wp_def catch_up_to_intraday_def current_day_def run_at_def)
  then obtain db1 r1 where c: "catch_up_to_intraday en (Some d) True db = (Inr ''analysis_failed_enter'', db1)" "run_at d db1 r1"
    "state_of r1 = wf_value WF_INTRADAY" "dm_no_trade_reason (dr_meta r1) \<noteq> None"
    by (auto simp: wp_def)
  have t: "try_daily (catch_up_to_intraday en (Some d) True) h db = (Inr ''analysis_failed_enter'', db1)" for h
    by (simp add: try_daily_def c)
  have "in_market (state_of r1)" by (simp add: c(3) in_market_def)
  then have "evaluate_intraday_entry en (Some d) db = (Inr r1, db1)"
    using assms(1,4) nb outside c(2) t
    by (simp add: evaluate_intraday_entry_def current_day_def dbind_def require_run_def run_at_def dlift_def dret_def Let_def)
  then show ?thesis using assms(8) c by auto
qed

section \<open>Unique job keys over the whole day\<close>

lemma keeps_move [keep_intros]: "keeps unique_jobs (move en d st tr rs)"
proof -
  have "keeps unique_jobs (\<lambda>db. case set_state (en_now en) st tr rs (dr_run r, dd_audit db) of
      Inl e \<Rightarrow> (Inl e, db) | Inr (run', audit') \<Rightarrow> (Inr (), (put_run d (r\<lparr>dr_run := run'\<rparr>) db)\<lparr>dd_audit := audit'\<rparr>))" for r
    by (simp add: keeps_def split: sum.split prod.split)
  then show ?thesis unfolding move_def by (intro keep_intros)
qed

lemma keeps_lease_acquire [keep_intros]: "keeps unique_jobs (lease_acquire en key)"
  by (simp add: keeps_def lease_acquire_def split: sum.split)

lemma keeps_lease_finally [keep_intros]:
  assumes "keeps unique_jobs m"
  shows "keeps unique_jobs (lease_finally en key m)"
  unfolding keeps_def
proof (intro allI impI)
  fix db assume "unique_jobs db"
  obtain res db' where m: "m db = (res, db')" by fastforce
  have "unique_jobs db'" using keepsD[OF assms \<open>unique_jobs db\<close>] m by simp
  then show "unique_jobs (snd (lease_finally en key m db))"
    by (simp add: lease_finally_def m split: sum.split)
qed

lemma keeps_prepare [keep_intros]: "keeps unique_jobs (prepare en day)"
proof -
  have a: "keeps unique_jobs (dbind (dmodify f) (\<lambda>_. dbind (plan_jobs en d s) (\<lambda>_. dret x)))"
    if "\<And>db. dd_jobs (f db) = dd_jobs db" for f d s and x :: "string option"
    using that by (intro keep_intros) simp
  have "keeps unique_jobs (prepare_body en d)" for d
    unfolding prepare_body_def Let_def keeps_def
    by (auto split: option.split intro!: keepsD[OF a])
  then show ?thesis unfolding prepare_def Let_def by (intro keep_intros)
qed

lemma keeps_analysis [keep_intros]: "keeps unique_jobs (run_analysis en d)"
proof -
  have "keeps unique_jobs (start_analysis en d)"
    unfolding start_analysis_def Let_def by (intro keep_intros) (auto intro: keep_intros)
  moreover have "keeps unique_jobs (collect_and_decide en d)"
    unfolding collect_and_decide_def by (intro keep_intros) simp
  moreover have "keeps unique_jobs (load_portfolio en d)"
    by (simp add: keeps_def load_portfolio_def dbind_def require_run_def split: option.split sum.split)
  ultimately have "keeps unique_jobs (analysis_body en d)"
    unfolding analysis_body_def by (intro keeps_dbind) (auto intro!: keep_intros)
  then show ?thesis unfolding run_analysis_def by (intro keep_intros)
qed

lemma keeps_enter [keep_intros]:
  "keeps unique_jobs (enter_market en d a b)" "keeps unique_jobs (enter_without_trades en d why a b)"
  unfolding enter_without_trades_def enter_market_def by (intro keep_intros)+

lemma keeps_settle_step:
  assumes "\<And>m. again = Some m \<Longrightarrow> keeps unique_jobs m"
  shows "keeps unique_jobs (settle_step en d fx again)"
proof -
  have "keeps unique_jobs (revalidate en fx d)"
    unfolding revalidate_def persist_report_def Let_def by (intro keep_intros) simp
  moreover have "keeps unique_jobs (reanalyse en d m)" if "again = Some m" for m
    unfolding reanalyse_def by (intro keep_intros assms that)
  then have "keeps unique_jobs (act_on_report en d again rep)" for rep
    unfolding act_on_report_def by (auto intro!: keep_intros split: option.split)
  ultimately show ?thesis unfolding settle_step_def by (intro keeps_dbind) (auto intro!: keep_intros)
qed

lemma keeps_revalidate [keep_intros]: "keeps unique_jobs (day_revalidate en d fx)"
proof -
  have "keeps unique_jobs (settle en d n fx)" for n fx
    by (induction n arbitrary: fx) (auto intro: keeps_settle_step)
  then show ?thesis by (simp add: day_revalidate_def)
qed

lemma keeps_try [keep_intros]:
  assumes "keeps unique_jobs m" "\<And>e. keeps unique_jobs (h e)"
  shows "keeps unique_jobs (try_daily m h)"
  unfolding keeps_def
proof (intro allI impI)
  fix db assume "unique_jobs db"
  obtain res db' where m: "m db = (res, db')" by fastforce
  have "unique_jobs db'" using keepsD[OF assms(1) \<open>unique_jobs db\<close>] m by simp
  then show "unique_jobs (snd (try_daily m h db))"
    using keepsD[OF assms(2)] by (auto simp: try_daily_def m split: sum.split py_error.split)
qed

lemma keeps_when [keep_intros]: "keeps unique_jobs m \<Longrightarrow> keeps unique_jobs (when_state d st m)"
  unfolding when_state_def by (intro keeps_dbind keep_intros) (auto intro: keep_intros)

lemma keeps_mark [keep_intros]: "keeps unique_jobs (mark_catch_up_jobs en d steps)"
proof -
  have "jobs_ok (snd (complete_planned_jobs now d keys js))" if "jobs_ok js" for now keys js
    using that by (simp only: jobs_ok_def complete_keys)
  then show ?thesis by (simp add: keeps_def mark_catch_up_jobs_def Let_def case_prod_unfold)
qed

lemma keeps_enter_failed [keep_intros]: "keeps unique_jobs (enter_intraday_after_failed_prep en d reason)"
  unfolding enter_intraday_after_failed_prep_def by (intro keeps_dbind keep_intros) (auto intro!: keep_intros)

lemma keeps_catch_up [keep_intros]: "keeps unique_jobs (catch_up_to_intraday en day forced)"
proof -
  have s: "keeps unique_jobs (catch_up_settle en d steps)" for d steps
    unfolding catch_up_settle_def by (intro keeps_dbind keep_intros) (auto intro!: keep_intros)
  have "keeps unique_jobs (catch_up_advance en d)" for d
    unfolding catch_up_advance_def
    by (intro keeps_dbind keep_intros) (auto intro!: keep_intros s split: option.split)
  then have r: "keeps unique_jobs (catch_up_run en d forced)" for d
    unfolding catch_up_run_def Let_def by (intro keeps_dbind keep_intros) (auto intro!: keep_intros)
  have p: "keeps unique_jobs (dbind (prepare en day) (\<lambda>_. catch_up_run en d forced))" for d
    by (intro keep_intros r)
  show ?thesis unfolding keeps_def catch_up_to_intraday_def Let_def
    by (auto split: option.split intro: keepsD[OF r] keepsD[OF p])
qed

lemma keeps_evaluate [keep_intros]: "keeps unique_jobs (evaluate_intraday_entry en day)"
  unfolding evaluate_intraday_entry_def Let_def
  by (intro keeps_dbind keep_intros) (auto intro!: keep_intros)

lemma keeps_closing [keep_intros]: "keeps unique_jobs (enter_closing en day)"
  unfolding enter_closing_def Let_def by (intro keeps_dbind keep_intros) (auto intro!: keep_intros)

text \<open>The tables a desk can reach from no jobs at all, each step under its own settings, clock, venue and agents.\<close>

inductive day_reach :: "day_db \<Rightarrow> bool" where
  day_start: "dd_jobs db = [] \<Longrightarrow> day_reach db"
| day_prepare: "day_reach db \<Longrightarrow> day_reach (snd (prepare en day db))"
| day_analysis: "day_reach db \<Longrightarrow> day_reach (snd (run_analysis en d db))"
| day_settle: "day_reach db \<Longrightarrow> day_reach (snd (day_revalidate en d fx db))"
| day_catch_up: "day_reach db \<Longrightarrow> day_reach (snd (catch_up_to_intraday en day forced db))"
| day_evaluate: "day_reach db \<Longrightarrow> day_reach (snd (evaluate_intraday_entry en day db))"
| day_replan: "day_reach db \<Longrightarrow> day_reach (snd (replan_intraday_jobs en day db))"
| day_align: "day_reach db \<Longrightarrow> day_reach (snd (align_intraday_cadence en db))"
| day_closing: "day_reach db \<Longrightarrow> day_reach (snd (enter_closing en day db))"
| day_postmarket: "day_reach db \<Longrightarrow> day_reach (enqueue_postmarket_eval en d t db)"

text \<open>
  Property C19.  Under any sequence of preparations, analyses, revalidations, catch-ups, evaluations, replannings and
  enqueued reviews, on any venues and clocks, no two scheduled jobs of a session share a key, so the unique
  constraint on the table never fails.
\<close>

theorem job_keys_unique:
  assumes "day_reach db"
  shows "distinct (map (\<lambda>j. (sj_job_key j, sj_session_date j)) (dd_jobs db))"
proof -
  have "unique_jobs db" using assms
  proof induction
    case (day_start db)
    then show ?case by (simp add: jobs_ok_def)
  next
    case (day_postmarket db en d t)
    then show ?case by (intro jobs_ok_enqueue)
  qed (auto intro!: keep_jobs keep_intros)
  then show ?thesis by (simp add: jobs_ok_def job_id_def[abs_def])
qed

section \<open>Runs of the theorems\<close>

lemma sample_day_ok:
  "controls_open sample_day_env" "services_ok sample_day_env" "lease_free sample_day_env 739681 (sample_day_db st)"
  "run_at 739681 (sample_day_db st) (sample_day_run st)" "state_of (sample_day_run st) = wf_value st" "nothing_found (sample_day_run st)"
  by (simp_all add: controls_open_def services_ok_def sample_day_env_def external_data_missing_def default_settings_def
      lease_free_def sample_day_db_def run_at_def sample_day_run_def nothing_found_def empty_meta_def stamp_of_def pending_event_def
      dict_ok_def dkeys_def)

theorem job_keys_unique_witness:
  "distinct (map (\<lambda>j. (sj_job_key j, sj_session_date j)) (dd_jobs (snd (align_intraday_cadence sample_day_env
     (snd (prepare sample_day_env None (sample_day_db WF_INTRADAY\<lparr>dd_runs := []\<rparr>)))))))"
  by (rule job_keys_unique) (intro day_align day_prepare day_start, simp add: sample_day_db_def)

theorem day_leaves_preopen_witness:
  "\<exists>rep db' r'. day_revalidate sample_day_env 739681 no_fixture (sample_day_db WF_PREOPEN_REVALIDATION) = (Inr rep, db')
     \<and> run_at 739681 db' r' \<and> state_of r' = wf_value WF_INTRADAY"
proof -
  obtain res db' where e: "day_revalidate sample_day_env 739681 no_fixture (sample_day_db WF_PREOPEN_REVALIDATION) = (res, db')"
    by fastforce
  show ?thesis
    using day_leaves_preopen[OF sample_day_ok(4) sample_day_ok(1) sample_day_ok(5) e] sample_day_ok(2,3) e by auto
qed

theorem no_trade_day_trades_on_witness:
  "\<exists>db' r'. evaluate_intraday_entry sample_day_env (Some 739681) db' = (Inr r', db')
     \<and> dm_no_trade_reason (dr_meta r') = Some ''hard_veto_fixture''"
proof -
  have rep: "rr_result (day_report sample_day_env (no_fixture\<lparr>fx_hard_veto := True\<rparr>) (sample_day_run WF_PREOPEN_REVALIDATION)) = RV_NO_TRADE"
    "rr_reason (day_report sample_day_env (no_fixture\<lparr>fx_hard_veto := True\<rparr>) (sample_day_run WF_PREOPEN_REVALIDATION)) = ''hard_veto_fixture''"
    by code_simp+
  show ?thesis
    using no_trade_day_trades_on[OF sample_day_ok(4) sample_day_ok(1) sample_day_ok(5) rep(1) sample_day_ok(1)] rep(2) by auto
qed

theorem analysis_rerun_raises_witness:
  "\<exists>de db'. run_analysis sample_day_env 739681 (sample_day_db WF_PREOPEN_REVALIDATION)
     = (Inl (ValueError ''illegal_transition:PREOPEN_REVALIDATION->PREOPEN_REVALIDATION''), db') \<and> dd_analyses db' = [de]"
  using analysis_rerun_raises[OF sample_day_ok(4) sample_day_ok(1) sample_day_ok(5) sample_day_ok(2,3)]
  by (simp add: sample_day_db_def)

definition sample_down_env :: day_env where
  "sample_down_env = sample_day_env\<lparr>en_load_portfolio := (\<lambda>db r. Inl (BrokerError ''ibkr_disconnected''))\<rparr>"

theorem late_start_enters_market_witness:
  "\<exists>r' db'. evaluate_intraday_entry sample_down_env (Some 739681) (sample_day_db WF_PREMARKET_PREPARATION) = (Inr r', db')
     \<and> state_of r' = wf_value WF_INTRADAY"
proof -
  have ok: "controls_open sample_down_env" "broker_down sample_down_env" "lease_free sample_down_env 739681 (sample_day_db st)" for st
    by (simp_all add: sample_down_env_def broker_down_def controls_open_def sample_day_env_def lease_free_def sample_day_db_def
        dict_ok_def dkeys_def)
  have live: "market_needs_intraday sample_down_env" by code_simp
  obtain res db' where e: "evaluate_intraday_entry sample_down_env (Some 739681) (sample_day_db WF_PREMARKET_PREPARATION) = (res, db')"
    by fastforce
  show ?thesis
    using late_start_enters_market[OF sample_day_ok(4) ok(1) sample_day_ok(5) live ok(2,3) sample_day_ok(6) e] e by auto
qed

end
