(* ===== verification/Spec2Isabelle.thy ===== *)
theory Spec2Isabelle
  imports Risk_Engine Pretrade Mock_Broker Trading_Controls Workflow Horizons Order_Manager Broker_Sync Exec_Service Fifo_Ledger Position_Manager Book_Strategy Decision_Pipeline Position_Monitor Firm_Execution Performance Market_Calendar Llm_Budget Exit_Attribution Closing_Window Daily_Workflow
begin

text \<open>
  A verification library of the automated paper-trading firm under \<open>src/app\<close>.

  The program.  Once a day per venue a workflow (\<open>workflow/daily.py\<close>) prepares a session, collects data, lets
  language-model agents propose a decision, revalidates it before the open and evaluates the market on planned ticks until it closes the
  day.  A decision is rewritten by the rules of the holding-period books (\<open>agents/pipeline.py\<close>, \<open>universe/book_strategy.py\<close>),
  turned into order intents by the execution validator (\<open>execution/validation.py\<close>) and carried to a broker by the firm bridge or
  by the execution service with an operator's approval (\<open>execution/firm_execution.py\<close>, \<open>service.py\<close>), both through
  the order manager.  Around it stand the risk engine, the kill switch, the reconciliation with the broker, the watch over open
  positions, the closing window, the ledger of fills and the budget of the language model.

  Theories and their sources (paths under \<open>src/app\<close>), from the bottom up:

  \<^item> \<open>Py_Float\<close>, \<open>Py_Prelude\<close>, \<open>Py_Datetime\<close>: the prelude.  Floats with their rounding, exceptions as values, strings,
    dictionaries, calendars and ISO texts, with the collections of facts the component proofs share.
  \<^item> \<open>State_Machine\<close>: the contract of a guarded state machine.
  \<^item> \<open>Settings\<close> (\<open>core/config.py\<close>, \<open>core/security.py\<close>), \<open>Venues\<close> (\<open>market/venues.py\<close>, \<open>fx.py\<close>, \<open>books.py\<close>,
    \<open>paper_gates.py\<close>), \<open>Market_Calendar\<close> (\<open>market/calendar.py\<close>, \<open>session_ops.py\<close>).
  \<^item> \<open>Risk_Engine\<close> (\<open>risk/\<close>), \<open>Pretrade\<close> (\<open>execution/sizing.py\<close>, \<open>policy.py\<close>, \<open>pretrade.py\<close>), \<open>Trading_Controls\<close>
    (\<open>execution/safety_controls.py\<close>, \<open>ops_persistence.py\<close>).
  \<^item> \<open>Broker_Models\<close> (\<open>brokers/models.py\<close>, \<open>pricing.py\<close>, \<open>venue_orders.py\<close>), \<open>Mock_Broker\<close> (\<open>brokers/base.py\<close>,
    \<open>mock.py\<close>).
  \<^item> \<open>Horizons\<close> (\<open>universe/horizons.py\<close>, \<open>caps.py\<close>, \<open>allocation.py\<close>, \<open>outcome_gate.py\<close>, \<open>tenure.py\<close>), \<open>Book_Strategy\<close>
    (\<open>universe/book_strategy.py\<close>), \<open>Decision_Pipeline\<close> (\<open>agents/pipeline.py\<close>, \<open>agents/cio.py\<close>), \<open>Exit_Attribution\<close>
    (\<open>universe/entry_attribution.py\<close>, \<open>performance/entry_expectancy.py\<close>, the flat close of \<open>intraday/monitor.py\<close>).
  \<^item> \<open>Validation\<close> (\<open>execution/validation.py\<close>, \<open>schemas/cio.py\<close>), \<open>Order_Manager\<close> (\<open>execution/order_manager.py\<close>),
    \<open>Broker_Sync\<close> (\<open>execution/reconciliation.py\<close>, \<open>intraday/broker_updates.py\<close>), \<open>Exec_Service\<close> (\<open>execution/service.py\<close>),
    \<open>Firm_Execution\<close> (\<open>execution/firm_execution.py\<close>, \<open>market/live_prices.py\<close>), \<open>Position_Manager\<close>
    (\<open>execution/position_manager.py\<close>).
  \<^item> \<open>Event_Bus\<close> (\<open>intraday/events.py\<close>, \<open>universe/reeval.py\<close>, the limiter's use in \<open>intraday/agents.py\<close>), \<open>Position_Monitor\<close>
    (\<open>intraday/monitor.py\<close>, \<open>exits.py\<close>, \<open>risk.py\<close>, \<open>modes.py\<close>), \<open>Closing_Window\<close> (\<open>intraday/closing.py\<close>),
    \<open>Fifo_Ledger\<close> (\<open>intraday/pnl.py\<close>, \<open>fills.py\<close>), \<open>Performance\<close> (\<open>performance/\<close>, the measures), \<open>Llm_Budget\<close>
    (\<open>services/llm_budget.py\<close>).
  \<^item> \<open>Workflow\<close> (\<open>workflow/states.py\<close>, \<open>lease.py\<close>, \<open>closing.py\<close>, \<open>recovery.py\<close>), \<open>Day_Jobs\<close> (the rows and jobs of a
    day, \<open>workflow/daily.py\<close>), \<open>Daily_Workflow\<close> (\<open>workflow/revalidation.py\<close> and the orchestration in \<open>daily.py\<close>).
\<close>

text \<open>
  Correspondence.  A class or a database row is a record of its fields in use, an enumeration a datatype with its \<open>value\<close> as a
  function, a dictionary an association list in insertion order, a table the list of its rows.  A method is a function from the
  state to its result or exception together with the state it leaves: a raise keeps what was written before it.  A float is the
  rational it stands for, every operation rounds (\<open>fl\<close>), and infinities and NaN do not occur; a string is the list of its
  bytes; a datetime is a number of microseconds, naive or aware.  Clocks, fresh identifiers, hash digests, the market-data provider, the
  exchange calendar, the broker and the agents' answers are arguments, and the theorems hold for all of them unless a hypothesis says
  otherwise.  Concurrent requests are interleavings of atomic steps: commands on the kill switch, calls on leases and orders,
  and for the language-model budget the gate and the usage report of overlapping requests as separate steps.

  What the lemmas show.  The risk engine and the pre-trade validator clear exactly the orders that satisfy the listed conditions, for the
  listed quantity.  The validator and the book rules keep forbidden entries out and demanded exits in.  The kill switch and manual approval
  stop orders under any interleaving, and only a paper configuration lets the firm bridge submit.  Orders are unique by key, a
  retry after a crash trades once, a status sync is idempotent and polling follows the life cycle.  The closing window and
  the position monitor only close and only tighten.  The ledger refines a queue of shares and loses none; the profit
  stamped on a close reads back.  The budget, the reanalysis limiter, leases, jobs and the event bus keep
  their limits across restarts.  The day reaches the market on the paths that must.  Drawdowns are what the textbook says.  Several
  theorems record behaviour the code does not seem to want; they carry the behaviour in their text.

  Interfaces.  \<open>guarded_machine\<close> holds of the order life cycle and the daily workflow; \<open>keyed_store\<close> of the dictionaries;
  \<open>idempotent_broker\<close> of the mock broker, and \<open>retry_broker\<close> of the desk on it; \<open>plan_rewrite\<close> of the three rewrites of
  plans; \<open>fold_refinement\<close> of the ledger over the share queue.

  Bounds and fuel.  The internal rate of return bisects at most 200 times, as the code does.  The search for the next open looks at most
  twenty days ahead, as the code does.  One revalidation runs at most two fresh analyses: the recursion of the
  code stops at a depth of two, which is the fuel of \<open>settle\<close>.  The sale against open lots is a \<open>while_option\<close>
  whose termination is proved.  The search for the shortest decimal of a double tries up to seventeen digits.

  Not modelled.  The HTTP interface, the command line, alerts, prompts and the calls of the language model, data collection
  and its storage, retrieval of text, the client of the external gateway, screening of the universe, performance reports, displays,
  backups and the scheduler's registration of jobs: they fetch, print or deliver, and the rules they call are modelled.  Of
  \<open>intraday/monitor.py\<close> the opening of life cycles from the broker's positions and of \<open>workflow/daily.py\<close> the body of an intraday
  evaluation after its entry and the review after the close are not modelled.
\<close>

text \<open>
  Property C3.  An emergency stop halts the desk on the mock broker: it reports the stop, leaves no order open at the broker,
  keeps positions and cash, and every batch of intents that follows is refused without touching an order,
  an execution or the broker, for every configuration and every validation.
\<close>

theorem emergency_halts_desk:
  assumes "mock_inv (dk_broker dk)" "emergency_cancel_all (mock_api digest t0) now dk = (r, dk')"
  shows "cr_state r = ''emergency_stop'' \<and> cr_canceled_count r = int (length (get_open_orders (dk_broker dk)))
    \<and> get_open_orders (dk_broker dk') = [] \<and> mb_positions (dk_broker dk') = mb_positions (dk_broker dk)
    \<and> mb_cash (dk_broker dk') = mb_cash (dk_broker dk) \<and> dk_orders dk' = dk_orders dk
    \<and> (\<forall>api cfg live uuid t did wid v. \<exists>e. submit_validated_intents api cfg live uuid t did wid v dk'
         = (Inr [], dk'\<lparr>dk_events := dk_events dk' @ [e]\<rparr>))"
proof -
  obtain n b where cb: "cancel_all_orders (dk_broker dk) = (n, b)" by fastforce
  have r: "cr_state r = ''emergency_stop''" "cr_canceled_count r = n" "dk_broker dk' = b" "dk_orders dk' = dk_orders dk"
    "dk_controls dk' = emergency_stop now ''api_emergency_stop'' (dk_controls dk)"
    using assms(2) cb by (auto simp: emergency_cancel_all_def mock_api_def Let_def emergency_stop_def)
  have "\<not> may_submit cfg v (dk_controls dk')" for cfg v
    by (simp add: r may_submit_def is_new_order_allowed_def emergency_stop_def)
  then show ?thesis using r cancel_all_spec[OF assms(1) cb] submit_closed by blast
qed

theorem emergency_halts_desk_witness:
  "\<exists>r dk'. emergency_cancel_all sample_api 9 (sample_desk\<lparr>dk_broker := sample_resting\<rparr>) = (r, dk')
     \<and> cr_canceled_count r = 1 \<and> get_open_orders (dk_broker dk') = []"
proof -
  let ?dk = "sample_desk\<lparr>dk_broker := sample_resting\<rparr>"
  obtain r dk' where e: "emergency_cancel_all sample_api 9 ?dk = (r, dk')" by fastforce
  show ?thesis using emergency_halts_desk[OF _ e] e sample_resting_open by simp
qed

end
